(* ===== verification/Prelude.thy ===== *)
theory Prelude
  imports Main "HOL-Library.Word" "HOL-Library.Monad_Syntax"
begin

section \<open>Prelude: memory, strings and flags of the C code\<close>

text \<open>
  Shared vocabulary of the development.  A C pointer to a struct is a \<open>ptr option\<close>: \<open>None\<close> is
  NULL, \<open>Some a\<close> the address \<open>a\<close>.  Each struct type has its own typed memory, a partial map from
  addresses to struct values.  Reading or writing through NULL or through an address that is
  not allocated is undefined behaviour in C; here it is the value \<open>None\<close> of the option monad, so
  that a theorem \<open>f x = Some y\<close> says that the code runs without such an access and returns \<open>y\<close>.
  A loop that does not end is \<open>None\<close> as well (\<^theory_text>\<open>partial_function (option)\<close>).
\<close>

named_theorems heap_simps "reading and writing typed memories"

type_synonym ptr = nat
type_synonym u8 = "8 word"
type_synonym u16 = "16 word"
type_synonym u32 = "32 word"
type_synonym u64 = "64 word"

subsection \<open>Typed memories\<close>

text \<open>\<open>deref m p\<close> is the struct \<open>*p\<close>; \<open>upd m p f\<close> assigns to fields of \<open>*p\<close>.\<close>

definition deref :: "(ptr \<rightharpoonup> 'a) \<Rightarrow> ptr option \<Rightarrow> 'a option" where
  "deref m p = (case p of None \<Rightarrow> None | Some a \<Rightarrow> m a)"

definition upd :: "(ptr \<rightharpoonup> 'a) \<Rightarrow> ptr option \<Rightarrow> ('a \<Rightarrow> 'a) \<Rightarrow> (ptr \<rightharpoonup> 'a) option" where
  "upd m p f = (case p of None \<Rightarrow> None | Some a \<Rightarrow>
     (case m a of None \<Rightarrow> None | Some v \<Rightarrow> Some (m(a \<mapsto> f v))))"

text \<open>\<open>if (p) p->field = v;\<close> with the test the code makes before the assignment.\<close>

definition upd_if :: "(ptr \<rightharpoonup> 'a) \<Rightarrow> ptr option \<Rightarrow> ('a \<Rightarrow> 'a) \<Rightarrow> (ptr \<rightharpoonup> 'a) option" where
  "upd_if m p f = (if p = None then Some m else upd m p f)"

lemma deref_simps [simp, heap_simps]:
  "deref m None = None"
  "deref m (Some a) = m a"
  by (simp_all add: deref_def)

lemma upd_simps [simp, heap_simps]:
  "upd m None f = None"
  "m a = Some v \<Longrightarrow> upd m (Some a) f = Some (m(a \<mapsto> f v))"
  "m a = None \<Longrightarrow> upd m (Some a) f = None"
  by (simp_all add: upd_def)

lemma upd_if_simps [simp, heap_simps]:
  "upd_if m None f = Some m"
  "upd_if m (Some a) f = upd m (Some a) f"
  by (simp_all add: upd_if_def)

lemma upd_SomeE:
  assumes "upd m p f = Some m'"
  obtains a v where "p = Some a" and "m a = Some v" and "m' = m(a \<mapsto> f v)"
  using assms by (auto simp: upd_def split: option.splits)

lemma upd_dom: "upd m p f = Some m' \<Longrightarrow> dom m' = dom m"
  by (auto elim!: upd_SomeE split: if_splits)

text \<open>\<open>fld sel m p\<close>: the pointer or string field \<open>sel\<close> of the struct at \<open>p\<close>, NULL if there is
  none.\<close>

definition fld :: "('a \<Rightarrow> 'b option) \<Rightarrow> (ptr \<rightharpoonup> 'a) \<Rightarrow> ptr \<Rightarrow> 'b option" where
  "fld sel m p = Option.bind (m p) sel"

lemma fld_Some [simp]: "m p = Some n \<Longrightarrow> fld sel m p = sel n"
  by (simp add: fld_def)

lemma fld_None [simp]: "m p = None \<Longrightarrow> fld sel m p = None"
  by (simp add: fld_def)

lemma fld_cong: "map_option sel (m p) = map_option sel (m' p) \<Longrightarrow> fld sel m p = fld sel m' p"
  by (cases "m p"; cases "m' p") (auto simp: fld_def)

lemma fld_upd [simp]: "fld sel (m(q \<mapsto> n)) p = (if p = q then sel n else fld sel m p)"
  by (simp add: fld_def)

lemma fld_del [simp]: "fld sel (m(q := None)) p = (if p = q then None else fld sel m p)"
  by (simp add: fld_def)

subsection \<open>Strings\<close>

text \<open>
  A \<open>char *\<close> is a \<open>string option\<close>, \<open>None\<close> for NULL.  \<open>strcmp\<close> on a null pointer is undefined
  behaviour; \<open>streq a b\<close> is the test \<open>!strcmp(a, b)\<close>.
\<close>

type_synonym cstr = "string option"

definition streq :: "cstr \<Rightarrow> cstr \<Rightarrow> bool option" where
  "streq a b = (case a of None \<Rightarrow> None | Some x \<Rightarrow>
     (case b of None \<Rightarrow> None | Some y \<Rightarrow> Some (x = y)))"

lemma streq_simps [simp, heap_simps]:
  "streq None b = None"
  "streq a None = None"
  "streq (Some x) (Some y) = Some (x = y)"
  by (auto simp: streq_def split: option.splits)

text \<open>\<open>name && !strcmp(name, s)\<close>: the short-circuit test most searches use.\<close>

definition named :: "cstr \<Rightarrow> cstr \<Rightarrow> bool option" where
  "named nm s = (if nm = None then Some False else streq nm s)"

lemma named_simps [simp, heap_simps]:
  "named None s = Some False"
  "named nm (Some y) = Some (nm = Some y)"
  "named (Some x) s = streq (Some x) s"
  by (auto simp: named_def streq_def split: option.splits)

subsection \<open>Flag words\<close>

text \<open>\<open>flags |= f\<close>, \<open>flags &= ~f\<close> and \<open>(flags & f) == f\<close> on the 16-bit flag words.\<close>

definition set_flags :: "u16 \<Rightarrow> u16 \<Rightarrow> u16" where
  "set_flags fl f = Bit_Operations.or fl f"

definition clear_flags :: "u16 \<Rightarrow> u16 \<Rightarrow> u16" where
  "clear_flags fl f = Bit_Operations.and fl (Bit_Operations.not f)"

definition has_flags :: "u16 \<Rightarrow> u16 \<Rightarrow> bool" where
  "has_flags fl f \<longleftrightarrow> Bit_Operations.and fl f = f"

lemma has_flags_iff: "has_flags fl f \<longleftrightarrow> (\<forall>i. bit f i \<longrightarrow> bit fl i)"
proof
  assume "has_flags fl f"
  then have "bit f i \<longleftrightarrow> bit (Bit_Operations.and fl f) i" for i by (simp add: has_flags_def)
  then show "\<forall>i. bit f i \<longrightarrow> bit fl i" by (auto simp: bit_and_iff)
next
  assume "\<forall>i. bit f i \<longrightarrow> bit fl i"
  then show "has_flags fl f"
    unfolding has_flags_def by (intro bit_eqI) (auto simp: bit_and_iff)
qed

lemma has_flags_set [simp]: "has_flags (set_flags fl f) f"
  by (simp add: has_flags_iff set_flags_def bit_or_iff)

lemma has_flags_set_mono: "has_flags fl g \<Longrightarrow> has_flags (set_flags fl f) g"
  by (simp add: has_flags_iff set_flags_def bit_or_iff)

lemma bit_clear_flags: "bit (clear_flags fl f) i \<longleftrightarrow> bit fl i \<and> \<not> bit f i"
  using bit_imp_le_length [of fl i]
  by (auto simp: clear_flags_def bit_and_iff bit_not_iff)

lemma has_flags_clear: "f \<noteq> 0 \<Longrightarrow> \<not> has_flags (clear_flags fl f) f"
  using bit_eqI [of f 0] by (auto simp: has_flags_iff bit_clear_flags)

lemma has_flags_clear_disjoint:
  "Bit_Operations.and g f = 0 \<Longrightarrow> has_flags (clear_flags fl f) g = has_flags fl g"
proof -
  assume "Bit_Operations.and g f = 0"
  then have "\<not> (bit g i \<and> bit f i)" for i by (metis bit_and_iff bit_0_eq bot_apply bot_bool_def)
  then show ?thesis by (auto simp: has_flags_iff bit_clear_flags)
qed

subsection \<open>Option monad\<close>

lemma bind_SomeE:
  assumes "Option.bind x f = Some z"
  obtains y where "x = Some y" and "f y = Some z"
  using assms by (cases x) auto

lemma bind_eq_Some_iff: "Option.bind x f = Some z \<longleftrightarrow> (\<exists>y. x = Some y \<and> f y = Some z)"
  by (cases x) auto

lemma find_append: "List.find P (xs @ ys) = (if List.find P xs = None then List.find P ys else List.find P xs)"
  by (induction xs) auto

end
