(* ===== verification/Intrusive_List.thy ===== *)
theory Intrusive_List
  imports Prelude
begin

section \<open>Intrusive doubly linked lists\<close>

text \<open>
  Every table of the MIB database (handles, views, modules, revisions, imports, objects, types,
  macros, identities, classes, attributes, events, and the children of an OID node) is a doubly
  linked list threaded through \<open>nextPtr\<close> and \<open>prevPtr\<close> fields of the structs themselves, with the
  first and last element stored in an owner.  This theory defines what such a list is, the loop
  that searches one, and the pointer assignments that append, insert and unlink an element, and
  proves them against the list of addresses they represent.
\<close>

subsection \<open>List segments\<close>

text \<open>
  \<open>dseg nx pv m b p xs l a\<close>: from \<open>p\<close> the \<open>nx\<close> links visit the addresses \<open>xs\<close> and end at \<open>a\<close>;
  each \<open>pv\<close> link points to the element before it, the first one to \<open>b\<close>; \<open>l\<close> is the last address
  (\<open>b\<close> if there is none).  A whole list is a segment between NULL and NULL.
\<close>

fun dseg :: "('n \<Rightarrow> ptr option) \<Rightarrow> ('n \<Rightarrow> ptr option) \<Rightarrow> (ptr \<rightharpoonup> 'n) \<Rightarrow> ptr option \<Rightarrow>
    ptr option \<Rightarrow> ptr list \<Rightarrow> ptr option \<Rightarrow> ptr option \<Rightarrow> bool" where
  "dseg nx pv m b p [] l a \<longleftrightarrow> p = a \<and> l = b"
| "dseg nx pv m b p (x # xs) l a \<longleftrightarrow> p = Some x \<and>
     (\<exists>n. m x = Some n \<and> pv n = b \<and> dseg nx pv m (Some x) (nx n) xs l a)"

definition dlist :: "('n \<Rightarrow> ptr option) \<Rightarrow> ('n \<Rightarrow> ptr option) \<Rightarrow> (ptr \<rightharpoonup> 'n) \<Rightarrow>
    ptr option \<Rightarrow> ptr list \<Rightarrow> ptr option \<Rightarrow> bool" where
  "dlist nx pv m f xs l \<longleftrightarrow> dseg nx pv m None f xs l None"

lemma dseg_append:
  "dseg nx pv m b p (xs @ ys) l a \<longleftrightarrow>
     (\<exists>q k. dseg nx pv m b p xs k q \<and> dseg nx pv m k q ys l a)"
  by (induction xs arbitrary: b p) auto

lemma dseg_unique:
  "dseg nx pv m b p xs l None \<Longrightarrow> dseg nx pv m b' p ys l' None \<Longrightarrow> xs = ys"
proof (induction xs arbitrary: b b' p ys)
  case Nil
  then show ?case by (cases ys) auto
next
  case (Cons x xs)
  then obtain y zs where "ys = y # zs" by (cases ys) auto
  with Cons show ?case by fastforce
qed

lemma dseg_tail_notin: "dseg nx pv m b (Some x) (x # xs) l None \<Longrightarrow> x \<notin> set xs"
proof
  assume seg: "dseg nx pv m b (Some x) (x # xs) l None" and "x \<in> set xs"
  then obtain us vs where xs: "xs = us @ x # vs" by (meson split_list)
  with seg obtain k q where "dseg nx pv m k q (x # vs) l None"
    by (auto simp: dseg_append)
  moreover have "q = Some x" using calculation by simp
  ultimately have "x # vs = x # xs" using seg by (metis dseg_unique)
  with xs show False by simp
qed

lemma dseg_distinct: "dseg nx pv m b p xs l None \<Longrightarrow> distinct xs"
proof (induction xs arbitrary: b p)
  case Nil
  then show ?case by simp
next
  case (Cons x xs)
  then have "x \<notin> set xs" by (metis dseg.simps(2) dseg_tail_notin)
  with Cons show ?case by auto
qed

lemma dseg_alloc: "dseg nx pv m b p xs l a \<Longrightarrow> x \<in> set xs \<Longrightarrow> \<exists>n. m x = Some n"
  by (induction xs arbitrary: b p) auto

lemma dseg_last: "dseg nx pv m b p xs l a \<Longrightarrow> l = (if xs = [] then b else Some (last xs))"
  by (induction xs arbitrary: b p) auto

lemma dseg_first: "dseg nx pv m b p xs l a \<Longrightarrow> p = (if xs = [] then a else Some (hd xs))"
  by (cases xs) auto

text \<open>Only the links of the elements matter.\<close>

lemma dseg_cong:
  assumes "\<And>x. x \<in> set xs \<Longrightarrow> map_option nx (m x) = map_option nx (m' x)"
    and "\<And>x. x \<in> set xs \<Longrightarrow> map_option pv (m x) = map_option pv (m' x)"
  shows "dseg nx pv m b p xs l a = dseg nx pv m' b p xs l a"
  using assms
proof (induction xs arbitrary: b p)
  case Nil
  then show ?case by simp
next
  case (Cons x xs)
  have "map_option nx (m x) = map_option nx (m' x)"
    and "map_option pv (m x) = map_option pv (m' x)"
    using Cons.prems by auto
  moreover have "dseg nx pv m b' p' xs l a = dseg nx pv m' b' p' xs l a" for b' p'
    using Cons by simp
  ultimately show ?case by (cases "m x"; cases "m' x") auto
qed

lemma dseg_upd_other [simp]:
  "y \<notin> set xs \<Longrightarrow> dseg nx pv (m(y \<mapsto> n)) b p xs l a = dseg nx pv m b p xs l a"
  by (rule dseg_cong) auto

lemma dseg_del_other [simp]:
  "y \<notin> set xs \<Longrightarrow> dseg nx pv (m(y := None)) b p xs l a = dseg nx pv m b p xs l a"
  by (rule dseg_cong) auto

lemma dseg_upd_data:
  assumes "m y = Some n" and "nx n' = nx n" and "pv n' = pv n"
  shows "dseg nx pv (m(y \<mapsto> n')) b p xs l a = dseg nx pv m b p xs l a"
  by (rule dseg_cong) (auto simp: assms)

text \<open>Read backwards, a list is a list with the two links exchanged.\<close>

lemma dseg_rev:
  "dseg nx pv m b p xs l a \<Longrightarrow> dseg pv nx m a l (rev xs) p b"
proof (induction xs arbitrary: b p)
  case Nil
  then show ?case by auto
next
  case (Cons x xs)
  then obtain n where p: "p = Some x" and n: "m x = Some n" "pv n = b"
    and seg: "dseg nx pv m (Some x) (nx n) xs l a" by auto
  have "dseg pv nx m a l (rev xs) (nx n) (Some x)" by (rule Cons.IH [OF seg])
  moreover have "dseg pv nx m (nx n) (Some x) [x] (Some x) b" using n by simp
  ultimately show ?case using p by (auto simp: dseg_append)
qed

lemma dlist_rev: "dlist nx pv m f xs l \<Longrightarrow> dlist pv nx m l (rev xs) f"
  unfolding dlist_def by (rule dseg_rev)

lemmas dlist_distinct = dseg_distinct [of _ _ _ None, folded dlist_def]
lemmas dlist_alloc = dseg_alloc [of _ _ _ None _ _ _ None, folded dlist_def]
lemmas dlist_upd_data = dseg_upd_data [of _ _ _ _ _ _ None _ _ _ None, folded dlist_def]
lemmas dlist_upd_other = dseg_upd_other [of _ _ _ _ _ _ None _ _ None, folded dlist_def]
lemmas dlist_del_other = dseg_del_other [of _ _ _ _ _ None _ _ None, folded dlist_def]
lemmas dlist_unique = dseg_unique [of _ _ _ None _ _ _ None, folded dlist_def]

lemma dlist_empty [simp]: "dlist nx pv m None [] None"
  by (simp add: dlist_def)

lemma dlist_first: "dlist nx pv m f xs l \<Longrightarrow> f = (if xs = [] then None else Some (hd xs))"
  unfolding dlist_def by (drule dseg_first) simp

lemma dlist_last: "dlist nx pv m f xs l \<Longrightarrow> l = (if xs = [] then None else Some (last xs))"
  unfolding dlist_def by (drule dseg_last) simp

subsection \<open>The search loop\<close>

text \<open>
  \<open>for (p = first; p; p = p->next) if (P(p)) return p; return NULL;\<close>  The test may itself
  dereference pointers or compare strings, so it is partial too.
\<close>

partial_function (option) walk :: "(ptr \<rightharpoonup> 'n) \<Rightarrow> ('n \<Rightarrow> ptr option) \<Rightarrow>
    (ptr \<Rightarrow> 'n \<Rightarrow> bool option) \<Rightarrow> ptr option \<Rightarrow> ptr option option" where
  "walk m nx P p = (case p of None \<Rightarrow> Some None
     | Some a \<Rightarrow> Option.bind (m a) (\<lambda>n. Option.bind (P a n) (\<lambda>found.
         if found then Some (Some a) else walk m nx P (nx n))))"

declare walk.simps [code]

lemma walk_None [simp]: "walk m nx P None = Some None"
  by (simp add: walk.simps)

lemma walk_Some:
  "walk m nx P (Some a) = Option.bind (m a) (\<lambda>n. Option.bind (P a n) (\<lambda>found.
     if found then Some (Some a) else walk m nx P (nx n)))"
  by (simp add: walk.simps)

text \<open>On a list whose elements all pass the test without a fault, the loop ends and returns the
  first element that satisfies it.\<close>

lemma walk_find:
  assumes "dseg nx pv m b p xs l None"
    and "\<And>x n. x \<in> set xs \<Longrightarrow> m x = Some n \<Longrightarrow> P x n = Some (Q x)"
  shows "walk m nx P p = Some (List.find Q xs)"
  using assms
proof (induction xs arbitrary: b p)
  case Nil
  then show ?case by simp
next
  case (Cons x xs)
  then obtain n where p: "p = Some x" and n: "m x = Some n"
    and rest: "dseg nx pv m (Some x) (nx n) xs l None" by auto
  have "P x n = Some (Q x)" using Cons.prems(2) n by simp
  moreover have "walk m nx P (nx n) = Some (List.find Q xs)"
    using Cons.IH [OF rest] Cons.prems(2) by simp
  ultimately show ?case by (simp add: p n walk_Some)
qed

lemmas walk_dlist = walk_find [of _ _ _ None, folded dlist_def]

text \<open>The common case: the test compares a string field with a given string.\<close>

lemma walk_named:
  assumes "dlist nx pv m p xs l"
  shows "walk m nx (\<lambda>_ n. named (sel n) (Some s)) p =
    Some (List.find (\<lambda>x. fld sel m x = Some s) xs)"
  using assms by (rule walk_dlist) simp

lemma walk_streq:
  assumes "dlist nx pv m p xs l" and "\<And>x. x \<in> set xs \<Longrightarrow> fld sel m x \<noteq> None"
  shows "walk m nx (\<lambda>_ n. streq (sel n) (Some s)) p =
    Some (List.find (\<lambda>x. fld sel m x = Some s) xs)"
  using assms(1)
proof (rule walk_dlist)
  fix x n assume "x \<in> set xs" and "m x = Some n"
  then show "streq (sel n) (Some s) = Some (fld sel m x = Some s)" using assms(2) [of x] by auto
qed

text \<open>The first element that satisfies a test, as a property of the list.\<close>

lemma find_SomeD: "List.find Q xs = Some x \<Longrightarrow> x \<in> set xs \<and> Q x"
  by (induction xs) (auto split: if_splits)

lemma find_append_notin:
  "(\<forall>y \<in> set ys. \<not> Q y) \<Longrightarrow> List.find Q (ys @ zs) = List.find Q zs"
  by (induction ys) auto

lemma find_cong_set: "(\<And>x. x \<in> set xs \<Longrightarrow> Q x = R x) \<Longrightarrow> List.find Q xs = List.find R xs"
  by (induction xs) auto

subsection \<open>Appending at the tail\<close>

text \<open>
  The code that adds a struct to a table is always
  \<open>x->nextPtr = NULL; x->prevPtr = owner->last; if (!owner->first) owner->first = x;
   if (owner->last) owner->last->nextPtr = x; owner->last = x;\<close>.
  \<open>link_last\<close> is the assignment through \<open>owner->last\<close>; the new first pointer is
  \<open>if_null first x\<close>.
\<close>

definition link_last :: "(ptr option \<Rightarrow> 'n \<Rightarrow> 'n) \<Rightarrow> ptr option \<Rightarrow> ptr \<Rightarrow> (ptr \<rightharpoonup> 'n) \<Rightarrow>
    (ptr \<rightharpoonup> 'n) option" where
  "link_last set_nx lst x m = upd_if m lst (set_nx (Some x))"

definition if_null :: "ptr option \<Rightarrow> ptr \<Rightarrow> ptr option" where
  "if_null p x = (if p = None then Some x else p)"

lemma if_null_simps [simp]: "if_null None x = Some x" "if_null (Some a) x = Some a"
  by (simp_all add: if_null_def)

subsection \<open>The interface of a linked struct\<close>

text \<open>
  What a struct type provides so that its values can be threaded into a list: the two link fields
  and their assignments, which do not disturb one another.
\<close>

locale linked_struct =
  fixes nx pv :: "'n \<Rightarrow> ptr option"
    and set_nx set_pv :: "ptr option \<Rightarrow> 'n \<Rightarrow> 'n"
  assumes nx_set_nx [simp]: "nx (set_nx v n) = v"
    and pv_set_nx [simp]: "pv (set_nx v n) = pv n"
    and pv_set_pv [simp]: "pv (set_pv v n) = v"
    and nx_set_pv [simp]: "nx (set_pv v n) = nx n"
begin

lemma seg_set_next_last:
  assumes "dseg nx pv m b p (xs @ [y]) l a" and "y \<notin> set xs" and "m y = Some n"
  shows "dseg nx pv (m(y \<mapsto> set_nx v n)) b p (xs @ [y]) l v"
  using assms by (auto simp: dseg_append)

lemma seg_set_prev_first:
  assumes "dseg nx pv m b p (y # xs) l a" and "y \<notin> set xs" and "m y = Some n"
  shows "dseg nx pv (m(y \<mapsto> set_pv v n)) v p (y # xs) l a"
  using assms by auto

lemma append_tail:
  assumes dl: "dlist nx pv m f xs l" and fresh: "m x = None"
    and pv: "pv n = l" and nx: "nx n = None"
  shows "\<exists>m'. link_last set_nx l x (m(x \<mapsto> n)) = Some m' \<and>
    dlist nx pv m' (if_null f x) (xs @ [x]) (Some x) \<and> m' x = Some n \<and>
    (\<forall>y. y \<noteq> x \<longrightarrow> l \<noteq> Some y \<longrightarrow> m' y = m y) \<and>
    (\<forall>y k. l = Some y \<longrightarrow> m y = Some k \<longrightarrow> m' y = Some (set_nx (Some x) k))"
proof (cases xs rule: rev_cases)
  case Nil
  with dl show ?thesis by (auto simp: dlist_def link_last_def pv nx)
next
  case (snoc ys y)
  from dl snoc have seg: "dseg nx pv m None f (ys @ [y]) l None" by (simp add: dlist_def)
  have l: "l = Some y" using dseg_last [OF seg] by simp
  obtain k where k: "m y = Some k" using dseg_alloc [OF seg] by auto
  have xs: "x \<notin> set (ys @ [y])" using fresh dseg_alloc [OF seg, of x] by auto
  then have yx: "y \<noteq> x" by auto
  have f: "f \<noteq> None" using dseg_first [OF seg] by simp
  let ?m = "(m(x \<mapsto> n))(y \<mapsto> set_nx (Some x) k)"
  have y: "y \<notin> set ys" using dseg_distinct [OF seg] by simp
  have "dseg nx pv (m(x \<mapsto> n)) None f (ys @ [y]) l None" using seg xs by simp
  then have "dseg nx pv ?m None f (ys @ [y]) l (Some x)"
    using y k yx by (intro seg_set_next_last) simp_all
  moreover have "dseg nx pv ?m (Some y) (Some x) [x] (Some x) None"
    using yx by (simp add: pv nx l)
  ultimately have "dseg nx pv ?m None f ((ys @ [y]) @ [x]) (Some x) None"
    unfolding dseg_append [of nx pv ?m None f "ys @ [y]"] l by blast
  then show ?thesis using f k yx
    by (auto simp: link_last_def l dlist_def snoc if_null_def)
qed

subsection \<open>Data fields\<close>

text \<open>A field the link assignments do not touch keeps its value in every element.\<close>

lemma link_last_fld:
  assumes "link_last set_nx l x m = Some m'" and "\<And>v n. d (set_nx v n) = d n"
  shows "fld d m' = fld d m"
  using assms
  by (intro ext) (auto simp: link_last_def upd_if_def elim!: upd_SomeE split: if_splits)

lemma link_last_data:
  assumes "link_last set_nx l x m = Some m'" and "\<And>v n. d (set_nx v n) = d n"
  shows "map_option d (m' y) = map_option d (m y)"
  using assms by (auto simp: link_last_def upd_if_def elim!: upd_SomeE split: if_splits)

lemma link_last_dom: "link_last set_nx l x m = Some m' \<Longrightarrow> dom m' = dom m"
  by (auto simp: link_last_def upd_if_def upd_dom split: if_splits)

subsection \<open>Splicing an element in\<close>

text \<open>The links after \<open>x\<close> has been put between \<open>before\<close> and \<open>after\<close>.\<close>

definition spliced :: "ptr \<Rightarrow> 'n \<Rightarrow> ptr option \<Rightarrow> ptr option \<Rightarrow> (ptr \<rightharpoonup> 'n) \<Rightarrow> (ptr \<rightharpoonup> 'n)" where
  "spliced x n before after m = (\<lambda>y. if y = x then Some n
     else if before = Some y then map_option (set_nx (Some x)) (m y)
     else if after = Some y then map_option (set_pv (Some x)) (m y)
     else m y)"

lemma spliced_new [simp]: "spliced x n before after m x = Some n"
  by (simp add: spliced_def)

lemma spliced_data:
  assumes "\<And>v n. d (set_nx v n) = d n" and "\<And>v n. d (set_pv v n) = d n" and "y \<noteq> x"
  shows "map_option d (spliced x n before after m y) = map_option d (m y)"
  using assms(3) by (cases "m y") (auto simp: spliced_def assms(1,2))

lemma spliced_fld:
  assumes "\<And>v n. d (set_nx v n) = d n" and "\<And>v n. d (set_pv v n) = d n"
  shows "fld d (spliced x n before after m) = (fld d m)(x := d n)"
proof (rule ext)
  fix y
  show "fld d (spliced x n before after m) y = ((fld d m)(x := d n)) y"
    using fld_cong [of d "spliced x n before after m" y m] spliced_data [OF assms, of y x n before after m]
    by (cases "y = x") simp_all
qed

lemma spliced_other:
  "y \<noteq> x \<Longrightarrow> before \<noteq> Some y \<Longrightarrow> after \<noteq> Some y \<Longrightarrow> spliced x n before after m y = m y"
  by (simp add: spliced_def)

lemma spliced_None [simp]: "spliced x n before after m y = None \<longleftrightarrow> y \<noteq> x \<and> m y = None"
  by (auto simp: spliced_def)

lemma spliced_eqs:
  "spliced x n None None m = m(x \<mapsto> n)"
  "m a = Some k \<Longrightarrow> a \<noteq> x \<Longrightarrow>
    spliced x n None (Some a) m = m(a \<mapsto> set_pv (Some x) k, x \<mapsto> n)"
  "m b = Some j \<Longrightarrow> b \<noteq> x \<Longrightarrow>
    spliced x n (Some b) None m = m(x \<mapsto> n, b \<mapsto> set_nx (Some x) j)"
  "m b = Some j \<Longrightarrow> b \<noteq> x \<Longrightarrow> m a = Some k \<Longrightarrow> a \<noteq> x \<Longrightarrow> a \<noteq> b \<Longrightarrow>
    spliced x n (Some b) (Some a) m =
      m(x \<mapsto> n, a \<mapsto> set_pv (Some x) k, b \<mapsto> set_nx (Some x) j)"
  by (simp_all add: spliced_def fun_eq_iff)

lemma dlist_spliced:
  assumes dl: "dlist nx pv m f (ys @ zs) l" and fresh: "x \<notin> set (ys @ zs)"
    and b: "before = (if ys = [] then None else Some (last ys))"
    and a: "after = (if zs = [] then None else Some (hd zs))"
    and n: "pv n = before" "nx n = after"
  shows "dlist nx pv (spliced x n before after m) (if ys = [] then Some x else f)
    (ys @ x # zs) (if zs = [] then Some x else l)"
proof -
  let ?m = "spliced x n before after m"
  from dl obtain q k where sy: "dseg nx pv m None f ys k q" and sz: "dseg nx pv m k q zs l None"
    by (auto simp: dlist_def dseg_append)
  have k: "k = before" using dseg_last [OF sy] b by simp
  have q: "q = after" using dseg_first [OF sz] a by simp
  have dist: "distinct (ys @ zs)" using dl by (simp only: dlist_def dseg_distinct)
  have ly: "ys \<noteq> [] \<Longrightarrow> last ys \<notin> set zs" using dist by (auto dest: last_in_set)
  have left: "dseg nx pv ?m None (if ys = [] then Some x else f) ys before (Some x)"
  proof (cases ys rule: rev_cases)
    case Nil
    then show ?thesis using b by simp
  next
    case (snoc us u)
    obtain k' where u: "m u = Some k'" using dseg_alloc [OF sy] snoc by auto
    have "u \<notin> set us" using dist snoc by simp
    then have "dseg nx pv (m(u \<mapsto> set_nx (Some x) k')) None f (us @ [u]) k (Some x)"
      using sy snoc u by (intro seg_set_next_last) simp_all
    moreover have "dseg nx pv (m(u \<mapsto> set_nx (Some x) k')) None f ys k (Some x)
        = dseg nx pv ?m None f ys k (Some x)"
      using snoc u b a dist fresh
      by (intro dseg_cong) (auto simp: spliced_def split: if_splits)
    ultimately show ?thesis using snoc k by simp
  qed
  have right: "dseg nx pv ?m (Some x) after zs (if zs = [] then Some x else l) None"
  proof (cases zs)
    case Nil
    then show ?thesis using a by simp
  next
    case (Cons v vs)
    obtain k' where v: "m v = Some k'" using dseg_alloc [OF sz] Cons by auto
    have "v \<notin> set vs" using dist Cons by simp
    then have "dseg nx pv (m(v \<mapsto> set_pv (Some x) k')) (Some x) q (v # vs) l None"
      using sz Cons v by (intro seg_set_prev_first [where b = k]) simp_all
    moreover have "dseg nx pv (m(v \<mapsto> set_pv (Some x) k')) (Some x) q (v # vs) l None
        = dseg nx pv ?m (Some x) q (v # vs) l None"
      using Cons v b a dist fresh ly
      by (intro dseg_cong) (auto simp: spliced_def split: if_splits)
    ultimately show ?thesis using Cons q by simp
  qed
  have "dseg nx pv ?m before (Some x) (x # zs) (if zs = [] then Some x else l) None"
    using right n by (auto simp: spliced_def)
  with left show ?thesis by (auto simp: dlist_def dseg_append)
qed

end

subsection \<open>Unlinking\<close>

text \<open>
  \<open>if (x->prev) x->prev->next = x->next; else first = x->next;
   if (x->next) x->next->prev = x->prev; else last = x->prev;\<close>
\<close>

definition unlink :: "('n \<Rightarrow> ptr option) \<Rightarrow> ('n \<Rightarrow> ptr option) \<Rightarrow> (ptr option \<Rightarrow> 'n \<Rightarrow> 'n) \<Rightarrow>
    (ptr option \<Rightarrow> 'n \<Rightarrow> 'n) \<Rightarrow> ptr option \<Rightarrow> (ptr \<rightharpoonup> 'n) \<times> ptr option \<times> ptr option \<Rightarrow>
    ((ptr \<rightharpoonup> 'n) \<times> ptr option \<times> ptr option) option" where
  "unlink nx pv set_nx set_pv x = (\<lambda>(m, f, l). do {
     n \<leftarrow> deref m x;
     (m, f) \<leftarrow> (if pv n \<noteq> None then map_option (\<lambda>m. (m, f)) (upd m (pv n) (set_nx (nx n)))
                 else Some (m, nx n));
     n \<leftarrow> deref m x;
     (m, l) \<leftarrow> (if nx n \<noteq> None then map_option (\<lambda>m. (m, l)) (upd m (nx n) (set_pv (pv n)))
                 else Some (m, pv n));
     Some (m, f, l)
   })"

context linked_struct begin

definition unlinked :: "ptr option \<Rightarrow> ptr option \<Rightarrow> (ptr \<rightharpoonup> 'n) \<Rightarrow> (ptr \<rightharpoonup> 'n)" where
  "unlinked before after m = (\<lambda>y.
     if before = Some y then map_option (set_nx after) (m y)
     else if after = Some y then map_option (set_pv before) (m y)
     else m y)"

lemma unlinked_data:
  assumes "\<And>v n. d (set_nx v n) = d n" and "\<And>v n. d (set_pv v n) = d n"
  shows "map_option d (unlinked before after m y) = map_option d (m y)"
  by (cases "m y") (auto simp: unlinked_def assms)

lemma unlinked_fld:
  assumes "\<And>v n. d (set_nx v n) = d n" and "\<And>v n. d (set_pv v n) = d n"
  shows "fld d (unlinked before after m) = fld d m"
  by (intro ext fld_cong unlinked_data assms)

lemma unlinked_dom [simp]: "unlinked before after m y = None \<longleftrightarrow> m y = None"
  by (auto simp: unlinked_def)

lemma dlist_unlinked:
  assumes dl: "dlist nx pv m f (ys @ x # zs) l"
    and b: "before = (if ys = [] then None else Some (last ys))"
    and a: "after = (if zs = [] then None else Some (hd zs))"
  shows "dlist nx pv (unlinked before after m) (if ys = [] then after else f)
    (ys @ zs) (if zs = [] then before else l)"
proof -
  let ?m = "unlinked before after m"
  from dl obtain q k n where sy: "dseg nx pv m None f ys k q" and q: "q = Some x"
    and n: "m x = Some n" "pv n = k" and sz: "dseg nx pv m (Some x) (nx n) zs l None"
    by (auto simp: dlist_def dseg_append)
  have k: "k = before" using dseg_last [OF sy] b by simp
  have nxn: "nx n = after" using dseg_first [OF sz] a by simp
  have dist: "distinct (ys @ x # zs)" using dl by (simp only: dlist_def dseg_distinct)
  have ly: "ys \<noteq> [] \<Longrightarrow> last ys \<notin> set zs" using dist by (auto dest: last_in_set)
  have left: "dseg nx pv ?m None (if ys = [] then after else f) ys before after"
  proof (cases ys rule: rev_cases)
    case Nil
    then show ?thesis using b by simp
  next
    case (snoc us u)
    obtain k' where u: "m u = Some k'" using dseg_alloc [OF sy] snoc by auto
    have "u \<notin> set us" using dist snoc by simp
    then have "dseg nx pv (m(u \<mapsto> set_nx after k')) None f (us @ [u]) k after"
      using sy snoc u by (intro seg_set_next_last) simp_all
    moreover have "dseg nx pv (m(u \<mapsto> set_nx after k')) None f ys k after
        = dseg nx pv ?m None f ys k after"
      using snoc u b a dist
      by (intro dseg_cong) (auto simp: unlinked_def split: if_splits)
    ultimately show ?thesis using snoc k by simp
  qed
  have right: "dseg nx pv ?m before after zs (if zs = [] then before else l) None"
  proof (cases zs)
    case Nil
    then show ?thesis using a by simp
  next
    case (Cons v vs)
    obtain k' where v: "m v = Some k'" using dseg_alloc [OF sz] Cons by auto
    have "v \<notin> set vs" using dist Cons by simp
    then have "dseg nx pv (m(v \<mapsto> set_pv before k')) before after (v # vs) l None"
      using sz Cons v nxn by (intro seg_set_prev_first [where b = "Some x"]) simp_all
    moreover have "dseg nx pv (m(v \<mapsto> set_pv before k')) before after (v # vs) l None
        = dseg nx pv ?m before after (v # vs) l None"
      using Cons v b a dist ly
      by (intro dseg_cong) (auto simp: unlinked_def split: if_splits)
    ultimately show ?thesis using Cons by simp
  qed
  from left right show ?thesis unfolding dlist_def dseg_append by blast
qed

lemma unlink_eq:
  assumes dl: "dlist nx pv m f (ys @ x # zs) l"
    and b: "before = (if ys = [] then None else Some (last ys))"
    and a: "after = (if zs = [] then None else Some (hd zs))"
  shows "unlink nx pv set_nx set_pv (Some x) (m, f, l) =
    Some (unlinked before after m, if ys = [] then after else f, if zs = [] then before else l)"
proof -
  from dl obtain q k n where sy: "dseg nx pv m None f ys k q"
    and n: "m x = Some n" "pv n = k" and sz: "dseg nx pv m (Some x) (nx n) zs l None"
    by (auto simp: dlist_def dseg_append)
  have k: "pv n = before" using dseg_last [OF sy] b n by simp
  have nxn: "nx n = after" using dseg_first [OF sz] a by simp
  have dist: "distinct (ys @ x # zs)" using dl by (simp only: dlist_def dseg_distinct)
  have alloc: "\<exists>k. m u = Some k" if "u \<in> set (ys @ zs)" for u
    using dseg_alloc [OF sy] dseg_alloc [OF sz] that by auto
  have bx: "before \<noteq> Some x" and ax: "after \<noteq> Some x"
    using dist a b by (auto split: if_splits)
  have ab: "before \<noteq> after \<or> before = None"
    using dist a b by (auto split: if_splits dest: hd_in_set last_in_set)
  obtain kb where kb: "before = None \<or> (\<exists>u. before = Some u \<and> m u = Some kb)"
    using alloc [of "last ys"] b by (cases "ys = []") auto
  obtain ka where ka: "after = None \<or> (\<exists>u. after = Some u \<and> m u = Some ka)"
    using alloc [of "hd zs"] a by (cases "zs = []") auto
  have eb: "(ys = []) = (before = None)" and ea: "(zs = []) = (after = None)"
    using a b by auto
  show ?thesis
    using n(1) k nxn bx ax ab kb ka unfolding eb ea
    by (cases before; cases after)
      (auto simp: unlink_def unlinked_def fun_eq_iff)
qed

end

end
