(* ===== verification/Smi_Types.thy ===== *)
theory Smi_Types
  imports Intrusive_List
begin

section \<open>The data model of libsmi\<close>

text \<open>
  The enumerations and structs of \<^verbatim>\<open>libsmi/lib/smi.h\<close> (the exported structs \<open>Smi...\<close>) and
  \<^verbatim>\<open>libsmi/lib/smi-data.h\<close> (the internal structs, each with its exported struct in the field
  \<open>export\<close>), and the memory that holds them.  A field \<open>f\<close> of a struct whose name is shared with
  other structs carries the struct's prefix (\<open>m_nextPtr\<close> is \<open>Module.nextPtr\<close>).  A \<open>char *\<close> is the
  string it points to: the allocation of strings is not modelled, so \<open>smiStrdup\<close> is the identity
  and \<open>smiFree\<close> of a string does nothing.  An object identifier array is the list of its sub
  identifiers.
\<close>

subsection \<open>Enumerations\<close>

datatype SmiLanguage = SMI_LANGUAGE_UNKNOWN | SMI_LANGUAGE_SMIV1 | SMI_LANGUAGE_SMIV2
  | SMI_LANGUAGE_SMING | SMI_LANGUAGE_SPPI | SMI_LANGUAGE_YANG

primrec language_code :: "SmiLanguage \<Rightarrow> int" where
  "language_code SMI_LANGUAGE_UNKNOWN = 0"
| "language_code SMI_LANGUAGE_SMIV1 = 1"
| "language_code SMI_LANGUAGE_SMIV2 = 2"
| "language_code SMI_LANGUAGE_SMING = 3"
| "language_code SMI_LANGUAGE_SPPI = 4"
| "language_code SMI_LANGUAGE_YANG = 5"

lemma language_code_inject [simp]: "language_code a = language_code b \<longleftrightarrow> a = b"
  by (cases a; cases b) simp_all

text \<open>The code orders languages by their numbers (\<open>findObjectByNode\<close> prefers the larger).\<close>

instantiation SmiLanguage :: linorder
begin

definition less_eq_SmiLanguage :: "SmiLanguage \<Rightarrow> SmiLanguage \<Rightarrow> bool" where
  "less_eq_SmiLanguage a b \<longleftrightarrow> language_code a \<le> language_code b"

definition less_SmiLanguage :: "SmiLanguage \<Rightarrow> SmiLanguage \<Rightarrow> bool" where
  "less_SmiLanguage a b \<longleftrightarrow> language_code a < language_code b"

instance
  by standard (auto simp: less_eq_SmiLanguage_def less_SmiLanguage_def)

end

datatype SmiBasetype = SMI_BASETYPE_UNKNOWN | SMI_BASETYPE_INTEGER32 | SMI_BASETYPE_OCTETSTRING
  | SMI_BASETYPE_OBJECTIDENTIFIER | SMI_BASETYPE_UNSIGNED32 | SMI_BASETYPE_INTEGER64
  | SMI_BASETYPE_UNSIGNED64 | SMI_BASETYPE_FLOAT32 | SMI_BASETYPE_FLOAT64
  | SMI_BASETYPE_FLOAT128 | SMI_BASETYPE_ENUM | SMI_BASETYPE_BITS | SMI_BASETYPE_POINTER

primrec basetype_code :: "SmiBasetype \<Rightarrow> int" where
  "basetype_code SMI_BASETYPE_UNKNOWN = 0"
| "basetype_code SMI_BASETYPE_INTEGER32 = 1"
| "basetype_code SMI_BASETYPE_OCTETSTRING = 2"
| "basetype_code SMI_BASETYPE_OBJECTIDENTIFIER = 3"
| "basetype_code SMI_BASETYPE_UNSIGNED32 = 4"
| "basetype_code SMI_BASETYPE_INTEGER64 = 5"
| "basetype_code SMI_BASETYPE_UNSIGNED64 = 6"
| "basetype_code SMI_BASETYPE_FLOAT32 = 7"
| "basetype_code SMI_BASETYPE_FLOAT64 = 8"
| "basetype_code SMI_BASETYPE_FLOAT128 = 9"
| "basetype_code SMI_BASETYPE_ENUM = 10"
| "basetype_code SMI_BASETYPE_BITS = 11"
| "basetype_code SMI_BASETYPE_POINTER = 12"

datatype SmiStatus = SMI_STATUS_UNKNOWN | SMI_STATUS_CURRENT | SMI_STATUS_DEPRECATED
  | SMI_STATUS_MANDATORY | SMI_STATUS_OPTIONAL | SMI_STATUS_OBSOLETE

primrec status_code :: "SmiStatus \<Rightarrow> int" where
  "status_code SMI_STATUS_UNKNOWN = 0"
| "status_code SMI_STATUS_CURRENT = 1"
| "status_code SMI_STATUS_DEPRECATED = 2"
| "status_code SMI_STATUS_MANDATORY = 3"
| "status_code SMI_STATUS_OPTIONAL = 4"
| "status_code SMI_STATUS_OBSOLETE = 5"

datatype SmiAccess = SMI_ACCESS_UNKNOWN | SMI_ACCESS_NOT_IMPLEMENTED | SMI_ACCESS_NOT_ACCESSIBLE
  | SMI_ACCESS_NOTIFY | SMI_ACCESS_READ_ONLY | SMI_ACCESS_READ_WRITE | SMI_ACCESS_INSTALL
  | SMI_ACCESS_INSTALL_NOTIFY | SMI_ACCESS_REPORT_ONLY | SMI_ACCESS_EVENT_ONLY

primrec access_code :: "SmiAccess \<Rightarrow> int" where
  "access_code SMI_ACCESS_UNKNOWN = 0"
| "access_code SMI_ACCESS_NOT_IMPLEMENTED = 1"
| "access_code SMI_ACCESS_NOT_ACCESSIBLE = 2"
| "access_code SMI_ACCESS_NOTIFY = 3"
| "access_code SMI_ACCESS_READ_ONLY = 4"
| "access_code SMI_ACCESS_READ_WRITE = 5"
| "access_code SMI_ACCESS_INSTALL = 6"
| "access_code SMI_ACCESS_INSTALL_NOTIFY = 7"
| "access_code SMI_ACCESS_REPORT_ONLY = 8"
| "access_code SMI_ACCESS_EVENT_ONLY = 9"

text \<open>\<open>SmiNodekind\<close> is an \<open>unsigned int\<close> used as a bit set.\<close>

type_synonym SmiNodekind = u32

definition SMI_NODEKIND_UNKNOWN :: SmiNodekind where "SMI_NODEKIND_UNKNOWN = 0x0000"
definition SMI_NODEKIND_NODE :: SmiNodekind where "SMI_NODEKIND_NODE = 0x0001"
definition SMI_NODEKIND_SCALAR :: SmiNodekind where "SMI_NODEKIND_SCALAR = 0x0002"
definition SMI_NODEKIND_TABLE :: SmiNodekind where "SMI_NODEKIND_TABLE = 0x0004"
definition SMI_NODEKIND_ROW :: SmiNodekind where "SMI_NODEKIND_ROW = 0x0008"
definition SMI_NODEKIND_COLUMN :: SmiNodekind where "SMI_NODEKIND_COLUMN = 0x0010"
definition SMI_NODEKIND_NOTIFICATION :: SmiNodekind where "SMI_NODEKIND_NOTIFICATION = 0x0020"
definition SMI_NODEKIND_GROUP :: SmiNodekind where "SMI_NODEKIND_GROUP = 0x0040"
definition SMI_NODEKIND_COMPLIANCE :: SmiNodekind where "SMI_NODEKIND_COMPLIANCE = 0x0080"
definition SMI_NODEKIND_CAPABILITIES :: SmiNodekind where "SMI_NODEKIND_CAPABILITIES = 0x0100"
definition SMI_NODEKIND_ANY :: SmiNodekind where "SMI_NODEKIND_ANY = 0xffff"

lemmas nodekind_defs = SMI_NODEKIND_UNKNOWN_def SMI_NODEKIND_NODE_def SMI_NODEKIND_SCALAR_def
  SMI_NODEKIND_TABLE_def SMI_NODEKIND_ROW_def SMI_NODEKIND_COLUMN_def
  SMI_NODEKIND_NOTIFICATION_def SMI_NODEKIND_GROUP_def SMI_NODEKIND_COMPLIANCE_def
  SMI_NODEKIND_CAPABILITIES_def SMI_NODEKIND_ANY_def

datatype SmiDecl = SMI_DECL_UNKNOWN | SMI_DECL_IMPLICIT_TYPE | SMI_DECL_TYPEASSIGNMENT
  | SMI_DECL_IMPL_SEQUENCEOF | SMI_DECL_VALUEASSIGNMENT | SMI_DECL_OBJECTTYPE
  | SMI_DECL_OBJECTIDENTITY | SMI_DECL_MODULEIDENTITY | SMI_DECL_NOTIFICATIONTYPE
  | SMI_DECL_TRAPTYPE | SMI_DECL_OBJECTGROUP | SMI_DECL_NOTIFICATIONGROUP
  | SMI_DECL_MODULECOMPLIANCE | SMI_DECL_AGENTCAPABILITIES | SMI_DECL_TEXTUALCONVENTION
  | SMI_DECL_MACRO | SMI_DECL_COMPL_GROUP | SMI_DECL_COMPL_OBJECT | SMI_DECL_IMPL_OBJECT
  | SMI_DECL_MODULE | SMI_DECL_EXTENSION | SMI_DECL_TYPEDEF | SMI_DECL_NODE | SMI_DECL_SCALAR
  | SMI_DECL_TABLE | SMI_DECL_ROW | SMI_DECL_COLUMN | SMI_DECL_NOTIFICATION | SMI_DECL_GROUP
  | SMI_DECL_COMPLIANCE | SMI_DECL_IDENTITY | SMI_DECL_CLASS | SMI_DECL_ATTRIBUTE
  | SMI_DECL_EVENT

primrec decl_code :: "SmiDecl \<Rightarrow> int" where
  "decl_code SMI_DECL_UNKNOWN = 0"
| "decl_code SMI_DECL_IMPLICIT_TYPE = 1"
| "decl_code SMI_DECL_TYPEASSIGNMENT = 2"
| "decl_code SMI_DECL_IMPL_SEQUENCEOF = 4"
| "decl_code SMI_DECL_VALUEASSIGNMENT = 5"
| "decl_code SMI_DECL_OBJECTTYPE = 6"
| "decl_code SMI_DECL_OBJECTIDENTITY = 7"
| "decl_code SMI_DECL_MODULEIDENTITY = 8"
| "decl_code SMI_DECL_NOTIFICATIONTYPE = 9"
| "decl_code SMI_DECL_TRAPTYPE = 10"
| "decl_code SMI_DECL_OBJECTGROUP = 11"
| "decl_code SMI_DECL_NOTIFICATIONGROUP = 12"
| "decl_code SMI_DECL_MODULECOMPLIANCE = 13"
| "decl_code SMI_DECL_AGENTCAPABILITIES = 14"
| "decl_code SMI_DECL_TEXTUALCONVENTION = 15"
| "decl_code SMI_DECL_MACRO = 16"
| "decl_code SMI_DECL_COMPL_GROUP = 17"
| "decl_code SMI_DECL_COMPL_OBJECT = 18"
| "decl_code SMI_DECL_IMPL_OBJECT = 19"
| "decl_code SMI_DECL_MODULE = 33"
| "decl_code SMI_DECL_EXTENSION = 34"
| "decl_code SMI_DECL_TYPEDEF = 35"
| "decl_code SMI_DECL_NODE = 36"
| "decl_code SMI_DECL_SCALAR = 37"
| "decl_code SMI_DECL_TABLE = 38"
| "decl_code SMI_DECL_ROW = 39"
| "decl_code SMI_DECL_COLUMN = 40"
| "decl_code SMI_DECL_NOTIFICATION = 41"
| "decl_code SMI_DECL_GROUP = 42"
| "decl_code SMI_DECL_COMPLIANCE = 43"
| "decl_code SMI_DECL_IDENTITY = 44"
| "decl_code SMI_DECL_CLASS = 45"
| "decl_code SMI_DECL_ATTRIBUTE = 46"
| "decl_code SMI_DECL_EVENT = 47"

datatype SmiIndexkind = SMI_INDEX_UNKNOWN | SMI_INDEX_INDEX | SMI_INDEX_AUGMENT
  | SMI_INDEX_REORDER | SMI_INDEX_SPARSE | SMI_INDEX_EXPAND

datatype Kind = KIND_UNKNOWN | KIND_MODULE | KIND_MACRO | KIND_TYPE | KIND_OBJECT
  | KIND_IMPORT | KIND_IMPORTED | KIND_NOTFOUND

subsection \<open>Flag constants\<close>

definition NODE_FLAG_ROOT :: u16 where "NODE_FLAG_ROOT = 0x0001"
definition FLAG_SEQTYPE :: u16 where "FLAG_SEQTYPE = 0x0002"
definition FLAG_REGISTERED :: u16 where "FLAG_REGISTERED = 0x0004"
definition FLAG_INCOMPLETE :: u16 where "FLAG_INCOMPLETE = 0x0008"
definition FLAG_CREATABLE :: u16 where "FLAG_CREATABLE = 0x0040"
definition FLAG_INGROUP :: u16 where "FLAG_INGROUP = 0x0080"
definition FLAG_INCOMPLIANCE :: u16 where "FLAG_INCOMPLIANCE = 0x0100"
definition FLAG_INSYNTAX :: u16 where "FLAG_INSYNTAX = 0x0200"

definition SMI_FLAG_NODESCR :: u16 where "SMI_FLAG_NODESCR = 0x0800"
definition SMI_FLAG_VIEWALL :: u16 where "SMI_FLAG_VIEWALL = 0x1000"
definition SMI_FLAG_ERRORS :: u16 where "SMI_FLAG_ERRORS = 0x2000"
definition SMI_FLAG_RECURSIVE :: u16 where "SMI_FLAG_RECURSIVE = 0x4000"
definition SMI_FLAG_STATS :: u16 where "SMI_FLAG_STATS = 0x8000"

text \<open>\<open>flags & f\<close> used as a condition: some bit is common.\<close>

definition any_flag :: "'w::len word \<Rightarrow> 'w word \<Rightarrow> bool" where
  "any_flag fl f \<longleftrightarrow> Bit_Operations.and fl f \<noteq> 0"

end
