(* ===== verification/Smi_State.thy ===== *)
theory Smi_State
  imports Smi_Types
begin

section \<open>Structs and the global state of libsmi\<close>

text \<open>
  One record per struct of \<^verbatim>\<open>smi.h\<close> and \<^verbatim>\<open>smi-data.h\<close>, and the record \<open>smi\<close> of everything the
  library keeps: the typed memories and the global variables \<open>smiHandle\<close>, \<open>firstHandlePtr\<close>,
  \<open>lastHandlePtr\<close> and \<open>smiDepth\<close>.  All memory comes from \<open>smiMalloc\<close>, which is \<open>calloc\<close>: a new
  struct starts with every field zero, and addresses are never reused.
\<close>

subsection \<open>Exported structs\<close>

type_synonym SmiSubid = u32

text \<open>
  The union \<open>SmiValue.value\<close>.  On the LP64 platforms the four integer members share one 64-bit
  word (\<open>SmiInteger32\<close> is \<open>long\<close>, \<open>SmiUnsigned32\<close> is \<open>unsigned long\<close>).
\<close>

datatype SmiUnion = UWord u64 | UOid "SmiSubid list option" | UPtr "u8 list option" | UFloat

record SmiValue =
  sv_basetype :: SmiBasetype
  sv_len :: u32
  sv_value :: SmiUnion

record SmiNamedNumber =
  snn_name :: cstr
  snn_value :: SmiValue

record SmiRange =
  minValue :: SmiValue
  maxValue :: SmiValue

record SmiModule =
  sm_name :: cstr
  sm_path :: cstr
  sm_organization :: cstr
  sm_contactinfo :: cstr
  sm_description :: cstr
  sm_reference :: cstr
  sm_language :: SmiLanguage
  sm_conformance :: int

record SmiRevision =
  sr_date :: int
  sr_description :: cstr

record SmiImport =
  si_module :: cstr
  si_name :: cstr

record SmiMacro =
  smac_name :: cstr
  smac_decl :: SmiDecl
  smac_status :: SmiStatus
  smac_description :: cstr
  smac_reference :: cstr
  smac_abnf :: cstr

record SmiIdentity =
  sid_name :: cstr
  sid_decl :: SmiDecl
  sid_status :: SmiStatus
  sid_description :: cstr
  sid_reference :: cstr

record SmiType =
  st_name :: cstr
  st_basetype :: SmiBasetype
  st_decl :: SmiDecl
  st_format :: cstr
  st_value :: SmiValue
  st_units :: cstr
  st_status :: SmiStatus
  st_description :: cstr
  st_reference :: cstr

record SmiNode =
  sn_name :: cstr
  sn_oidlen :: nat
  sn_oid :: "SmiSubid list option"
  sn_decl :: SmiDecl
  sn_access :: SmiAccess
  sn_status :: SmiStatus
  sn_format :: cstr
  sn_value :: SmiValue
  sn_units :: cstr
  sn_description :: cstr
  sn_reference :: cstr
  sn_indexkind :: SmiIndexkind
  sn_implied :: int
  sn_create :: int
  sn_nodekind :: SmiNodekind

record SmiOption =
  sop_description :: cstr

record SmiRefinement =
  srf_access :: SmiAccess
  srf_description :: cstr

record SmiClass =
  sc_name :: cstr
  sc_decl :: SmiDecl
  sc_status :: SmiStatus
  sc_description :: cstr
  sc_reference :: cstr

record SmiAttribute =
  sa_name :: cstr
  sa_basetype :: SmiBasetype
  sa_decl :: SmiDecl
  sa_format :: cstr
  sa_value :: SmiValue
  sa_units :: cstr
  sa_status :: SmiStatus
  sa_description :: cstr
  sa_reference :: cstr
  sa_access :: SmiAccess

record SmiEvent =
  se_name :: cstr
  se_decl :: SmiDecl
  se_status :: SmiStatus
  se_description :: cstr
  se_reference :: cstr

subsection \<open>Internal structs\<close>

record List =
  l_ptr :: "ptr option"
  l_nextPtr :: "ptr option"

record View =
  v_name :: cstr
  v_nextPtr :: "ptr option"
  v_prevPtr :: "ptr option"

record Module =
  m_export :: SmiModule
  m_lastUpdated :: int
  m_objectPtr :: "ptr option"
  m_firstObjectPtr :: "ptr option"
  m_lastObjectPtr :: "ptr option"
  m_firstTypePtr :: "ptr option"
  m_lastTypePtr :: "ptr option"
  m_firstClassPtr :: "ptr option"
  m_lastClassPtr :: "ptr option"
  m_firstMacroPtr :: "ptr option"
  m_lastMacroPtr :: "ptr option"
  m_firstIdentityPtr :: "ptr option"
  m_lastIdentityPtr :: "ptr option"
  m_firstImportPtr :: "ptr option"
  m_lastImportPtr :: "ptr option"
  m_firstRevisionPtr :: "ptr option"
  m_lastRevisionPtr :: "ptr option"
  m_flags :: u16
  m_numImportedIdentifiers :: int
  m_numStatements :: int
  m_numModuleIdentities :: int
  m_nextPtr :: "ptr option"
  m_prevPtr :: "ptr option"
  m_prefixNodePtr :: "ptr option"

record Revision =
  r_export :: SmiRevision
  r_modulePtr :: "ptr option"
  r_nextPtr :: "ptr option"
  r_prevPtr :: "ptr option"
  r_line :: int

record Import =
  i_export :: SmiImport
  i_modulePtr :: "ptr option"
  i_flags :: u16
  i_nextPtr :: "ptr option"
  i_prevPtr :: "ptr option"
  i_kind :: Kind
  i_use :: int
  i_line :: int

record NamedNumber =
  nn_export :: SmiNamedNumber
  nn_typePtr :: "ptr option"

record Range =
  rg_export :: SmiRange
  rg_typePtr :: "ptr option"

record Type =
  t_export :: SmiType
  t_modulePtr :: "ptr option"
  t_parentPtr :: "ptr option"
  t_listPtr :: "ptr option"
  t_flags :: u16
  t_nextPtr :: "ptr option"
  t_prevPtr :: "ptr option"
  t_line :: int

record Option =
  op_export :: SmiOption
  op_compliancePtr :: "ptr option"
  op_objectPtr :: "ptr option"
  op_line :: int

record Refinement =
  rf_export :: SmiRefinement
  rf_compliancePtr :: "ptr option"
  rf_objectPtr :: "ptr option"
  rf_typePtr :: "ptr option"
  rf_writetypePtr :: "ptr option"
  rf_line :: int

record Index =
  ix_implied :: int
  ix_indexkind :: SmiIndexkind
  ix_listPtr :: "ptr option"
  ix_rowPtr :: "ptr option"

record Object =
  o_export :: SmiNode
  o_modulePtr :: "ptr option"
  o_flags :: u16
  o_typePtr :: "ptr option"
  o_relatedPtr :: "ptr option"
  o_listPtr :: "ptr option"
  o_optionlistPtr :: "ptr option"
  o_refinementlistPtr :: "ptr option"
  o_nodePtr :: "ptr option"
  o_prevPtr :: "ptr option"
  o_nextPtr :: "ptr option"
  o_prevSameNodePtr :: "ptr option"
  o_nextSameNodePtr :: "ptr option"
  o_uniquenessPtr :: "ptr option"
  o_line :: int

record Node =
  n_subid :: SmiSubid
  n_flags :: u16
  n_oidlen :: nat
  n_oid :: "SmiSubid list option"
  n_parentPtr :: "ptr option"
  n_nextPtr :: "ptr option"
  n_prevPtr :: "ptr option"
  n_firstChildPtr :: "ptr option"
  n_lastChildPtr :: "ptr option"
  n_firstObjectPtr :: "ptr option"
  n_lastObjectPtr :: "ptr option"

record Macro =
  mac_export :: SmiMacro
  mac_modulePtr :: "ptr option"
  mac_flags :: u16
  mac_nextPtr :: "ptr option"
  mac_prevPtr :: "ptr option"
  mac_line :: int

record Identity =
  id_export :: SmiIdentity
  id_modulePtr :: "ptr option"
  id_parentPtr :: "ptr option"
  id_nextPtr :: "ptr option"
  id_prevPtr :: "ptr option"
  id_line :: int

record Class =
  c_export :: SmiClass
  c_modulePtr :: "ptr option"
  c_firstAttributePtr :: "ptr option"
  c_lastAttributePtr :: "ptr option"
  c_uniqueList :: "ptr option"
  c_firstEventPtr :: "ptr option"
  c_lastEventPtr :: "ptr option"
  c_parentPtr :: "ptr option"
  c_nextPtr :: "ptr option"
  c_prevPtr :: "ptr option"
  c_line :: int

record Attribute =
  a_export :: SmiAttribute
  a_classPtr :: "ptr option"
  a_parentTypePtr :: "ptr option"
  a_listPtr :: "ptr option"
  a_nextPtr :: "ptr option"
  a_prevPtr :: "ptr option"
  a_line :: int
  a_parentClassPtr :: "ptr option"

record Event =
  e_export :: SmiEvent
  e_classPtr :: "ptr option"
  e_nextPtr :: "ptr option"
  e_prevPtr :: "ptr option"
  e_line :: int

record Parser =
  p_path :: cstr
  p_line :: int
  p_modulePtr :: "ptr option"
  p_flags :: u16
  p_complianceModulePtr :: "ptr option"
  p_capabilitiesModulePtr :: "ptr option"
  p_currentDecl :: SmiDecl
  p_firstStatementLine :: int
  p_firstNestedStatementLine :: int
  p_firstRevisionLine :: int
  p_pendingNodePtr :: "ptr option"

record Handle =
  h_name :: cstr
  h_prevPtr :: "ptr option"
  h_nextPtr :: "ptr option"
  h_firstViewPtr :: "ptr option"
  h_lastViewPtr :: "ptr option"
  h_firstModulePtr :: "ptr option"
  h_lastModulePtr :: "ptr option"
  h_rootNodePtr :: "ptr option"
  h_typeOctetStringPtr :: "ptr option"
  h_typeObjectIdentifierPtr :: "ptr option"
  h_typeInteger32Ptr :: "ptr option"
  h_typeUnsigned32Ptr :: "ptr option"
  h_typeInteger64Ptr :: "ptr option"
  h_typeUnsigned64Ptr :: "ptr option"
  h_typeFloat32Ptr :: "ptr option"
  h_typeFloat64Ptr :: "ptr option"
  h_typeFloat128Ptr :: "ptr option"
  h_typeEnumPtr :: "ptr option"
  h_typeBitsPtr :: "ptr option"
  h_typePointerPtr :: "ptr option"
  h_flags :: u32
  h_path :: cstr
  h_errorLevel :: int
  h_parserPtr :: "ptr option"

subsection \<open>Zeroed structs\<close>

definition zero_value :: SmiValue where
  "zero_value = \<lparr>sv_basetype = SMI_BASETYPE_UNKNOWN, sv_len = 0, sv_value = UWord 0\<rparr>"

subsection \<open>The global state\<close>

record smi =
  s_handles :: "ptr \<rightharpoonup> Handle"
  s_views :: "ptr \<rightharpoonup> View"
  s_modules :: "ptr \<rightharpoonup> Module"
  s_revisions :: "ptr \<rightharpoonup> Revision"
  s_imports :: "ptr \<rightharpoonup> Import"
  s_namednumbers :: "ptr \<rightharpoonup> NamedNumber"
  s_ranges :: "ptr \<rightharpoonup> Range"
  s_types :: "ptr \<rightharpoonup> Type"
  s_options :: "ptr \<rightharpoonup> Option"
  s_refinements :: "ptr \<rightharpoonup> Refinement"
  s_objects :: "ptr \<rightharpoonup> Object"
  s_nodes :: "ptr \<rightharpoonup> Node"
  s_macros :: "ptr \<rightharpoonup> Macro"
  s_identities :: "ptr \<rightharpoonup> Identity"
  s_classes :: "ptr \<rightharpoonup> Class"
  s_attributes :: "ptr \<rightharpoonup> Attribute"
  s_events :: "ptr \<rightharpoonup> Event"
  s_parsers :: "ptr \<rightharpoonup> Parser"
  s_lists :: "ptr \<rightharpoonup> List"
  s_next :: ptr
  smiHandle :: "ptr option"
  firstHandlePtr :: "ptr option"
  lastHandlePtr :: "ptr option"
  smiDepth :: int

definition smi_start :: smi where
  "smi_start = \<lparr>s_handles = Map.empty, s_views = Map.empty, s_modules = Map.empty,
     s_revisions = Map.empty, s_imports = Map.empty, s_namednumbers = Map.empty,
     s_ranges = Map.empty, s_types = Map.empty, s_options = Map.empty,
     s_refinements = Map.empty, s_objects = Map.empty, s_nodes = Map.empty,
     s_macros = Map.empty, s_identities = Map.empty, s_classes = Map.empty,
     s_attributes = Map.empty, s_events = Map.empty, s_parsers = Map.empty,
     s_lists = Map.empty, s_next = 0, smiHandle = None, firstHandlePtr = None,
     lastHandlePtr = None, smiDepth = 0\<rparr>"

text \<open>
  \<open>smiMalloc\<close> returns the address \<open>s_next\<close>, which no memory holds: \<open>fresh_ok\<close> says so, and every
  operation keeps it.  A failing \<open>calloc\<close> (which the code reports and then ignores) is not modelled.
\<close>

definition fresh_ok :: "smi \<Rightarrow> bool" where
  "fresh_ok s \<longleftrightarrow> (\<forall>a \<ge> s_next s.
     s_handles s a = None \<and> s_views s a = None \<and> s_modules s a = None \<and>
     s_revisions s a = None \<and> s_imports s a = None \<and> s_namednumbers s a = None \<and>
     s_ranges s a = None \<and> s_types s a = None \<and> s_options s a = None \<and>
     s_refinements s a = None \<and> s_objects s a = None \<and> s_nodes s a = None \<and>
     s_macros s a = None \<and> s_identities s a = None \<and> s_classes s a = None \<and>
     s_attributes s a = None \<and> s_events s a = None \<and> s_parsers s a = None \<and>
     s_lists s a = None)"

lemma fresh_ok_start [simp]: "fresh_ok smi_start"
  by (simp add: fresh_ok_def smi_start_def)

text \<open>The struct \<open>*smiHandle\<close>, and assignments to its fields.\<close>

definition theHandle :: "smi \<Rightarrow> Handle option" where
  "theHandle s = deref (s_handles s) (smiHandle s)"

definition updHandle :: "(Handle \<Rightarrow> Handle) \<Rightarrow> smi \<Rightarrow> smi option" where
  "updHandle f s = map_option (\<lambda>m. s\<lparr>s_handles := m\<rparr>) (upd (s_handles s) (smiHandle s) f)"

text \<open>Assignments through a pointer to one of the other structs.\<close>

definition updModule :: "ptr option \<Rightarrow> (Module \<Rightarrow> Module) \<Rightarrow> smi \<Rightarrow> smi option" where
  "updModule p f s = map_option (\<lambda>m. s\<lparr>s_modules := m\<rparr>) (upd (s_modules s) p f)"

definition updRevision :: "ptr option \<Rightarrow> (Revision \<Rightarrow> Revision) \<Rightarrow> smi \<Rightarrow> smi option" where
  "updRevision p f s = map_option (\<lambda>m. s\<lparr>s_revisions := m\<rparr>) (upd (s_revisions s) p f)"

definition updImport :: "ptr option \<Rightarrow> (Import \<Rightarrow> Import) \<Rightarrow> smi \<Rightarrow> smi option" where
  "updImport p f s = map_option (\<lambda>m. s\<lparr>s_imports := m\<rparr>) (upd (s_imports s) p f)"

definition updNamedNumber :: "ptr option \<Rightarrow> (NamedNumber \<Rightarrow> NamedNumber) \<Rightarrow> smi \<Rightarrow> smi option" where
  "updNamedNumber p f s = map_option (\<lambda>m. s\<lparr>s_namednumbers := m\<rparr>) (upd (s_namednumbers s) p f)"

definition updRange :: "ptr option \<Rightarrow> (Range \<Rightarrow> Range) \<Rightarrow> smi \<Rightarrow> smi option" where
  "updRange p f s = map_option (\<lambda>m. s\<lparr>s_ranges := m\<rparr>) (upd (s_ranges s) p f)"

definition updType :: "ptr option \<Rightarrow> (Type \<Rightarrow> Type) \<Rightarrow> smi \<Rightarrow> smi option" where
  "updType p f s = map_option (\<lambda>m. s\<lparr>s_types := m\<rparr>) (upd (s_types s) p f)"

definition updOption :: "ptr option \<Rightarrow> (Option \<Rightarrow> Option) \<Rightarrow> smi \<Rightarrow> smi option" where
  "updOption p f s = map_option (\<lambda>m. s\<lparr>s_options := m\<rparr>) (upd (s_options s) p f)"

definition updRefinement :: "ptr option \<Rightarrow> (Refinement \<Rightarrow> Refinement) \<Rightarrow> smi \<Rightarrow> smi option" where
  "updRefinement p f s = map_option (\<lambda>m. s\<lparr>s_refinements := m\<rparr>) (upd (s_refinements s) p f)"

definition updObject :: "ptr option \<Rightarrow> (Object \<Rightarrow> Object) \<Rightarrow> smi \<Rightarrow> smi option" where
  "updObject p f s = map_option (\<lambda>m. s\<lparr>s_objects := m\<rparr>) (upd (s_objects s) p f)"

definition updNode :: "ptr option \<Rightarrow> (Node \<Rightarrow> Node) \<Rightarrow> smi \<Rightarrow> smi option" where
  "updNode p f s = map_option (\<lambda>m. s\<lparr>s_nodes := m\<rparr>) (upd (s_nodes s) p f)"

definition updMacro :: "ptr option \<Rightarrow> (Macro \<Rightarrow> Macro) \<Rightarrow> smi \<Rightarrow> smi option" where
  "updMacro p f s = map_option (\<lambda>m. s\<lparr>s_macros := m\<rparr>) (upd (s_macros s) p f)"

definition updIdentity :: "ptr option \<Rightarrow> (Identity \<Rightarrow> Identity) \<Rightarrow> smi \<Rightarrow> smi option" where
  "updIdentity p f s = map_option (\<lambda>m. s\<lparr>s_identities := m\<rparr>) (upd (s_identities s) p f)"

definition updClass :: "ptr option \<Rightarrow> (Class \<Rightarrow> Class) \<Rightarrow> smi \<Rightarrow> smi option" where
  "updClass p f s = map_option (\<lambda>m. s\<lparr>s_classes := m\<rparr>) (upd (s_classes s) p f)"

definition updAttribute :: "ptr option \<Rightarrow> (Attribute \<Rightarrow> Attribute) \<Rightarrow> smi \<Rightarrow> smi option" where
  "updAttribute p f s = map_option (\<lambda>m. s\<lparr>s_attributes := m\<rparr>) (upd (s_attributes s) p f)"

definition updEvent :: "ptr option \<Rightarrow> (Event \<Rightarrow> Event) \<Rightarrow> smi \<Rightarrow> smi option" where
  "updEvent p f s = map_option (\<lambda>m. s\<lparr>s_events := m\<rparr>) (upd (s_events s) p f)"

definition updParser :: "ptr option \<Rightarrow> (Parser \<Rightarrow> Parser) \<Rightarrow> smi \<Rightarrow> smi option" where
  "updParser p f s = map_option (\<lambda>m. s\<lparr>s_parsers := m\<rparr>) (upd (s_parsers s) p f)"

lemmas upd_defs = 
  updHandle_def updModule_def updRevision_def updImport_def
  updNamedNumber_def updRange_def updType_def updOption_def
  updRefinement_def updObject_def updNode_def updMacro_def
  updIdentity_def updClass_def updAttribute_def updEvent_def updParser_def

end
