(* ===== verification/Smi_Handle.thy ===== *)
theory Smi_Handle
  imports Smi_State
begin

section \<open>Handles and views\<close>

text \<open>
  \<^verbatim>\<open>smi-data.c\<close>: the list of handles (one per user of the library, found by its tag) and, in the
  current handle, the view, the list of the names of the modules the user has loaded.
\<close>

subsection \<open>The lists\<close>

abbreviation (input) h_set_next :: "ptr option \<Rightarrow> Handle \<Rightarrow> Handle" where
  "h_set_next v \<equiv> h_nextPtr_update (\<lambda>_. v)"

abbreviation (input) h_set_prev :: "ptr option \<Rightarrow> Handle \<Rightarrow> Handle" where
  "h_set_prev v \<equiv> h_prevPtr_update (\<lambda>_. v)"

abbreviation (input) v_set_next :: "ptr option \<Rightarrow> View \<Rightarrow> View" where
  "v_set_next v \<equiv> v_nextPtr_update (\<lambda>_. v)"

abbreviation (input) v_set_prev :: "ptr option \<Rightarrow> View \<Rightarrow> View" where
  "v_set_prev v \<equiv> v_prevPtr_update (\<lambda>_. v)"

interpretation hl: linked_struct h_nextPtr h_prevPtr h_set_next h_set_prev
  by unfold_locales simp_all

interpretation vl: linked_struct v_nextPtr v_prevPtr v_set_next v_set_prev
  by unfold_locales simp_all

text \<open>\<open>handle_list s hs\<close>: the handles are \<open>hs\<close>, in the order they were added.\<close>

definition handle_list :: "smi \<Rightarrow> ptr list \<Rightarrow> bool" where
  "handle_list s hs \<longleftrightarrow>
     dlist h_nextPtr h_prevPtr (s_handles s) (firstHandlePtr s) hs (lastHandlePtr s)"

definition handle_name :: "smi \<Rightarrow> ptr \<Rightarrow> cstr" where
  "handle_name s = fld h_name (s_handles s)"

text \<open>\<open>view_list s vs\<close>: the views of the current handle.\<close>

definition view_list :: "smi \<Rightarrow> ptr list \<Rightarrow> bool" where
  "view_list s vs \<longleftrightarrow> (\<exists>h. theHandle s = Some h \<and>
     dlist v_nextPtr v_prevPtr (s_views s) (h_firstViewPtr h) vs (h_lastViewPtr h))"

definition view_name :: "smi \<Rightarrow> ptr \<Rightarrow> cstr" where
  "view_name s = fld v_name (s_views s)"

subsection \<open>Operations\<close>

definition zero_handle :: Handle where
  "zero_handle = \<lparr>h_name = None, h_prevPtr = None, h_nextPtr = None, h_firstViewPtr = None,
     h_lastViewPtr = None, h_firstModulePtr = None, h_lastModulePtr = None,
     h_rootNodePtr = None, h_typeOctetStringPtr = None, h_typeObjectIdentifierPtr = None,
     h_typeInteger32Ptr = None, h_typeUnsigned32Ptr = None, h_typeInteger64Ptr = None,
     h_typeUnsigned64Ptr = None, h_typeFloat32Ptr = None, h_typeFloat64Ptr = None,
     h_typeFloat128Ptr = None, h_typeEnumPtr = None, h_typeBitsPtr = None,
     h_typePointerPtr = None, h_flags = 0, h_path = None, h_errorLevel = 0,
     h_parserPtr = None\<rparr>"

definition addHandle :: "cstr \<Rightarrow> smi \<Rightarrow> (ptr \<times> smi) option" where
  "addHandle name s = (
     let p = s_next s;
         h = zero_handle\<lparr>h_name := name, h_nextPtr := None, h_prevPtr := lastHandlePtr s\<rparr>;
         first = if_null (firstHandlePtr s) p
     in do {
       hs \<leftarrow> link_last h_set_next (lastHandlePtr s) p ((s_handles s)(p \<mapsto> h));
       Some (p, s\<lparr>s_next := Suc p, s_handles := hs, firstHandlePtr := first,
                  lastHandlePtr := Some p\<rparr>)
     })"

definition removeHandle :: "ptr option \<Rightarrow> smi \<Rightarrow> smi option" where
  "removeHandle handlePtr s = do {
     (hs, f, l) \<leftarrow> unlink h_nextPtr h_prevPtr h_set_next h_set_prev handlePtr
       (s_handles s, firstHandlePtr s, lastHandlePtr s);
     p \<leftarrow> handlePtr;
     Some (s\<lparr>s_handles := hs(p := None), firstHandlePtr := f, lastHandlePtr := l\<rparr>)
   }"

definition findHandleByName :: "cstr \<Rightarrow> smi \<Rightarrow> ptr option option" where
  "findHandleByName name s =
     (if name = None then Some None
      else walk (s_handles s) h_nextPtr (\<lambda>_ h. streq (h_name h) name) (firstHandlePtr s))"

definition addView :: "cstr \<Rightarrow> smi \<Rightarrow> (ptr \<times> smi) option" where
  "addView modulename s = do {
     h \<leftarrow> theHandle s;
     let p = s_next s;
     let v = \<lparr>v_name = modulename, v_nextPtr = None, v_prevPtr = h_lastViewPtr h\<rparr>;
     vs \<leftarrow> link_last v_set_next (h_lastViewPtr h) p ((s_views s)(p \<mapsto> v));
     s \<leftarrow> updHandle (\<lambda>h. h\<lparr>h_firstViewPtr := if_null (h_firstViewPtr h) p,
                             h_lastViewPtr := Some p\<rparr>) s;
     Some (p, s\<lparr>s_next := Suc p, s_views := vs\<rparr>)
   }"

definition isInView :: "cstr \<Rightarrow> smi \<Rightarrow> bool option" where
  "isInView modulename s = do {
     h \<leftarrow> theHandle s;
     r \<leftarrow> walk (s_views s) v_nextPtr (\<lambda>_ v. streq modulename (v_name v)) (h_firstViewPtr h);
     Some (r \<noteq> None)
   }"

subsection \<open>Handles: functional behaviour\<close>

lemma addHandle_lemma:
  assumes hl: "handle_list s hs" and fresh: "s_handles s (s_next s) = None"
  shows "\<exists>s'. addHandle name s = Some (s_next s, s') \<and> handle_list s' (hs @ [s_next s]) \<and>
    handle_name s' = (handle_name s)(s_next s := name) \<and> s_next s' = Suc (s_next s)"
proof -
  let ?p = "s_next s"
  let ?h = "zero_handle\<lparr>h_name := name, h_nextPtr := None, h_prevPtr := lastHandlePtr s\<rparr>"
  from hl obtain hm where
    hm: "link_last h_set_next (lastHandlePtr s) ?p ((s_handles s)(?p \<mapsto> ?h)) = Some hm"
    and dl: "dlist h_nextPtr h_prevPtr hm (if_null (firstHandlePtr s) ?p) (hs @ [?p]) (Some ?p)"
    using hl.append_tail [OF hl [unfolded handle_list_def] fresh, of ?h] by (auto simp: zero_handle_def)
  have "fld h_name hm = (fld h_name (s_handles s))(?p := name)"
    using hl.link_last_fld [OF hm, of h_name] by auto
  with hm dl show ?thesis
    by (auto simp: addHandle_def Let_def handle_list_def handle_name_def)
qed

lemma removeHandle_lemma:
  assumes hl: "handle_list s (ys @ x # zs)"
  shows "\<exists>s'. removeHandle (Some x) s = Some s' \<and> handle_list s' (ys @ zs) \<and>
    s_handles s' x = None \<and> handle_name s' = (handle_name s)(x := None)"
proof -
  let ?b = "if ys = [] then None else Some (last ys)"
  let ?a = "if zs = [] then None else Some (hd zs)"
  let ?m = "hl.unlinked ?b ?a (s_handles s)"
  note dl = hl [unfolded handle_list_def]
  have nin: "x \<notin> set (ys @ zs)" using dlist_distinct [OF dl] by simp
  have "dlist h_nextPtr h_prevPtr (?m(x := None)) (if ys = [] then ?a else firstHandlePtr s)
      (ys @ zs) (if zs = [] then ?b else lastHandlePtr s)"
    unfolding dlist_del_other [OF nin] by (rule hl.dlist_unlinked [OF dl refl refl])
  moreover have "fld h_name ?m = fld h_name (s_handles s)"
    by (rule hl.unlinked_fld) simp_all
  ultimately show ?thesis
    using hl.unlink_eq [OF dl refl refl]
    by (auto simp: removeHandle_def handle_list_def handle_name_def)
qed

lemma findHandleByName_lemma:
  assumes "handle_list s hs" and "\<And>p. p \<in> set hs \<Longrightarrow> handle_name s p \<noteq> None"
  shows "findHandleByName (Some nm) s = Some (List.find (\<lambda>p. handle_name s p = Some nm) hs)"
  unfolding findHandleByName_def handle_name_def
  using walk_streq [OF assms(1) [unfolded handle_list_def]] assms(2) by (simp add: handle_name_def)

subsection \<open>Views: functional behaviour\<close>

lemma addView_lemma:
  assumes vl: "view_list s vs" and fresh: "s_views s (s_next s) = None"
  shows "\<exists>s'. addView nm s = Some (s_next s, s') \<and> view_list s' (vs @ [s_next s]) \<and>
    view_name s' = (view_name s)(s_next s := nm) \<and> s_next s' = Suc (s_next s)"
proof -
  from vl obtain h where h: "theHandle s = Some h"
    and dl: "dlist v_nextPtr v_prevPtr (s_views s) (h_firstViewPtr h) vs (h_lastViewPtr h)"
    by (auto simp: view_list_def)
  let ?p = "s_next s"
  let ?v = "\<lparr>v_name = nm, v_nextPtr = None, v_prevPtr = h_lastViewPtr h\<rparr>"
  obtain vm where
    vm: "link_last v_set_next (h_lastViewPtr h) ?p ((s_views s)(?p \<mapsto> ?v)) = Some vm"
    and dl': "dlist v_nextPtr v_prevPtr vm (if_null (h_firstViewPtr h) ?p) (vs @ [?p]) (Some ?p)"
    using vl.append_tail [OF dl fresh, of ?v] by auto
  have "fld v_name vm = (fld v_name (s_views s))(?p := nm)"
    using vl.link_last_fld [OF vm, of v_name] by auto
  moreover obtain a where "smiHandle s = Some a" "s_handles s a = Some h"
    using h by (auto simp: theHandle_def deref_def split: option.splits)
  ultimately show ?thesis
    using h vm dl'
    by (auto simp: addView_def Let_def updHandle_def view_list_def view_name_def theHandle_def)
qed

lemma isInView_lemma:
  assumes "view_list s vs" and "\<And>p. p \<in> set vs \<Longrightarrow> view_name s p \<noteq> None"
  shows "isInView (Some nm) s = Some (\<exists>p \<in> set vs. view_name s p = Some nm)"
proof -
  from assms(1) obtain h where h: "theHandle s = Some h"
    and dl: "dlist v_nextPtr v_prevPtr (s_views s) (h_firstViewPtr h) vs (h_lastViewPtr h)"
    by (auto simp: view_list_def)
  have "walk (s_views s) v_nextPtr (\<lambda>_ v. streq (Some nm) (v_name v)) (h_firstViewPtr h) =
      Some (List.find (\<lambda>p. view_name s p = Some nm) vs)"
    using dl
  proof (rule walk_dlist)
    fix x n assume "x \<in> set vs" and "s_views s x = Some n"
    then show "streq (Some nm) (v_name n) = Some (view_name s x = Some nm)"
      using assms(2) [of x] by (auto simp: view_name_def)
  qed
  with h show ?thesis by (auto simp: isInView_def find_None_iff Bex_def simp del: not_None_eq)
qed

end
