(* ===== verification/Smi_Node.thy ===== *)
theory Smi_Node
  imports Smi_Handle
begin

section \<open>The tree of object identifiers\<close>

text \<open>
  \<^verbatim>\<open>smi-data.c\<close>: each node of the object identifier tree stands for one sub identifier below its
  parent; the children of a node are an intrusive list sorted by sub identifier.  The tree of the
  current handle hangs below \<open>rootNodePtr\<close>; while a module is parsed, nodes whose parent is not
  known yet hang below the parser's \<open>pendingNodePtr\<close>, whose children are never found by sub
  identifier.
\<close>

subsection \<open>Links\<close>

abbreviation (input) n_set_next :: "ptr option \<Rightarrow> Node \<Rightarrow> Node" where
  "n_set_next v \<equiv> n_nextPtr_update (\<lambda>_. v)"

abbreviation (input) n_set_prev :: "ptr option \<Rightarrow> Node \<Rightarrow> Node" where
  "n_set_prev v \<equiv> n_prevPtr_update (\<lambda>_. v)"

interpretation nl: linked_struct n_nextPtr n_prevPtr n_set_next n_set_prev
  by unfold_locales simp_all

text \<open>The fields that the children lists are about, read from a memory of nodes.\<close>

definition subid_in :: "(ptr \<rightharpoonup> Node) \<Rightarrow> ptr \<Rightarrow> SmiSubid" where
  "subid_in m p = (case m p of None \<Rightarrow> 0 | Some n \<Rightarrow> n_subid n)"

definition parent_in :: "(ptr \<rightharpoonup> Node) \<Rightarrow> ptr \<Rightarrow> ptr option" where
  "parent_in m = fld n_parentPtr m"

subsection \<open>Operations\<close>

definition zero_node :: Node where
  "zero_node = \<lparr>n_subid = 0, n_flags = 0, n_oidlen = 0, n_oid = None, n_parentPtr = None,
     n_nextPtr = None, n_prevPtr = None, n_firstChildPtr = None, n_lastChildPtr = None,
     n_firstObjectPtr = None, n_lastObjectPtr = None\<rparr>"

text \<open>The pointer assignments of \<open>addNode\<close> that put \<open>p\<close> among the children of \<open>pp\<close>.\<close>

definition addNode_link :: "ptr \<Rightarrow> SmiSubid \<Rightarrow> ptr \<Rightarrow> (ptr \<rightharpoonup> Node) \<Rightarrow> (ptr \<rightharpoonup> Node) option" where
  "addNode_link pp subid p nodes = do {
     parent \<leftarrow> nodes pp;
     if n_firstChildPtr parent \<noteq> None then do {
       c \<leftarrow> walk nodes n_nextPtr (\<lambda>_ c. Some (\<not> n_subid c < subid)) (n_firstChildPtr parent);
       if c \<noteq> None then do {
         cn \<leftarrow> deref nodes c;
         if c \<noteq> n_firstChildPtr parent then do {
           nodes \<leftarrow> upd nodes (n_prevPtr cn) (n_set_next (Some p));
           nodes \<leftarrow> upd nodes (Some p) (n_set_prev (n_prevPtr cn));
           nodes \<leftarrow> upd nodes c (n_set_prev (Some p));
           upd nodes (Some p) (n_set_next c)
         } else do {
           nodes \<leftarrow> upd nodes c (n_set_prev (Some p));
           nodes \<leftarrow> upd nodes (Some p) (n_set_next c);
           nodes \<leftarrow> upd nodes (Some p) (n_set_prev None);
           upd nodes (Some pp) (n_firstChildPtr_update (\<lambda>_. Some p))
         }
       } else do {
         nodes \<leftarrow> upd nodes (Some p) (n_set_next None);
         nodes \<leftarrow> upd nodes (Some p) (n_set_prev (n_lastChildPtr parent));
         nodes \<leftarrow> upd nodes (n_lastChildPtr parent) (n_set_next (Some p));
         upd nodes (Some pp) (n_lastChildPtr_update (\<lambda>_. Some p))
       }
     } else do {
       nodes \<leftarrow> upd nodes (Some pp) (\<lambda>n. n\<lparr>n_firstChildPtr := Some p, n_lastChildPtr := Some p\<rparr>);
       upd nodes (Some p) (\<lambda>n. n\<lparr>n_nextPtr := None, n_prevPtr := None\<rparr>)
     }
   }"

definition addNode :: "ptr option \<Rightarrow> SmiSubid \<Rightarrow> u16 \<Rightarrow> smi \<Rightarrow> (ptr \<times> smi) option" where
  "addNode parentNodePtr subid flags s = (
     let p = s_next s;
         n = zero_node\<lparr>n_flags := flags, n_subid := subid, n_parentPtr := parentNodePtr\<rparr>;
         nodes = (s_nodes s)(p \<mapsto> n)
     in do {
       nodes \<leftarrow> (case parentNodePtr of None \<Rightarrow> Some nodes
                  | Some pp \<Rightarrow> addNode_link pp subid p nodes);
       Some (p, s\<lparr>s_next := Suc p, s_nodes := nodes\<rparr>)
     })"

definition findNodeByParentAndSubid :: "ptr option \<Rightarrow> SmiSubid \<Rightarrow> smi \<Rightarrow> ptr option option" where
  "findNodeByParentAndSubid parentNodePtr subid s = (
     if parentNodePtr = None then Some None
     else do {
       h \<leftarrow> theHandle s;
       parser \<leftarrow> deref (s_parsers s) (h_parserPtr h);
       if parentNodePtr \<noteq> p_pendingNodePtr parser then do {
         parent \<leftarrow> deref (s_nodes s) parentNodePtr;
         walk (s_nodes s) n_nextPtr (\<lambda>_ n. Some (n_subid n = subid)) (n_firstChildPtr parent)
       } else Some None
     })"

text \<open>
  The loops over an object identifier count \<open>oidlen\<close> steps along the array \<open>oid\<close>; a step past the
  end of the array is undefined behaviour.
\<close>

fun findNodeByOid_loop :: "nat \<Rightarrow> SmiSubid list \<Rightarrow> ptr option \<Rightarrow> smi \<Rightarrow> ptr option option" where
  "findNodeByOid_loop 0 oid nodePtr s = Some nodePtr"
| "findNodeByOid_loop (Suc i) oid None s = Some None"
| "findNodeByOid_loop (Suc i) [] (Some p) s = None"
| "findNodeByOid_loop (Suc i) (x # oid) (Some p) s = do {
     nodePtr \<leftarrow> findNodeByParentAndSubid (Some p) x s;
     findNodeByOid_loop i oid nodePtr s
   }"

definition findNodeByOid :: "nat \<Rightarrow> SmiSubid list \<Rightarrow> smi \<Rightarrow> ptr option option" where
  "findNodeByOid oidlen oid s = do {
     h \<leftarrow> theHandle s;
     findNodeByOid_loop oidlen oid (h_rootNodePtr h) s
   }"

fun createNodes_loop :: "nat \<Rightarrow> SmiSubid list \<Rightarrow> ptr option \<Rightarrow> smi \<Rightarrow> (ptr option \<times> smi) option" where
  "createNodes_loop 0 oid parentNodePtr s = Some (parentNodePtr, s)"
| "createNodes_loop (Suc i) [] parentNodePtr s = None"
| "createNodes_loop (Suc i) (x # oid) parentNodePtr s = do {
     nodePtr \<leftarrow> findNodeByParentAndSubid parentNodePtr x s;
     if nodePtr = None then do {
       (p, s) \<leftarrow> addNode parentNodePtr x 0 s;
       createNodes_loop i oid (Some p) s
     } else createNodes_loop i oid nodePtr s
   }"

definition createNodes :: "nat \<Rightarrow> SmiSubid list \<Rightarrow> smi \<Rightarrow> (ptr option \<times> smi) option" where
  "createNodes oidlen oid s = do {
     h \<leftarrow> theHandle s;
     createNodes_loop oidlen oid (h_rootNodePtr h) s
   }"

definition getParentNode :: "ptr option \<Rightarrow> smi \<Rightarrow> ptr option option" where
  "getParentNode nodePtr s = map_option n_parentPtr (deref (s_nodes s) nodePtr)"

text \<open>\<open>getNode\<close> of \<^verbatim>\<open>smi.c\<close>: the deepest node on the path of the object identifier.\<close>

fun getNode_loop :: "nat \<Rightarrow> SmiSubid list \<Rightarrow> ptr option \<Rightarrow> smi \<Rightarrow> ptr option option" where
  "getNode_loop 0 oid nodePtr s = Some nodePtr"
| "getNode_loop (Suc i) [] nodePtr s = None"
| "getNode_loop (Suc i) (x # oid) parentPtr s = do {
     nodePtr \<leftarrow> findNodeByParentAndSubid parentPtr x s;
     if nodePtr = None then Some parentPtr else getNode_loop i oid nodePtr s
   }"

definition getNode :: "nat \<Rightarrow> SmiSubid list \<Rightarrow> smi \<Rightarrow> ptr option option" where
  "getNode oidlen oid s = do {
     h \<leftarrow> theHandle s;
     getNode_loop oidlen oid (h_rootNodePtr h) s
   }"

end
