(* ===== verification/Smi_Tree.thy ===== *)
theory Smi_Tree
  imports Smi_Node
begin

section \<open>The object identifier tree: invariant and lookups\<close>

text \<open>
  The invariant \<open>tree_ok m ch path\<close> of a memory \<open>m\<close> of nodes names, for each node, the list \<open>ch p\<close>
  of its children and its object identifier \<open>path p\<close> (relative to its root): the children are a
  well-formed intrusive list, sorted by sub identifier, each with its parent pointer set and its
  own sub identifier at the end of its path.  The lookups are then compared with \<open>resolve\<close>, which
  walks down \<open>ch\<close>.
\<close>

definition tree_ok :: "(ptr \<rightharpoonup> Node) \<Rightarrow> (ptr \<Rightarrow> ptr list) \<Rightarrow> (ptr \<Rightarrow> SmiSubid list) \<Rightarrow> bool" where
  "tree_ok m ch path \<longleftrightarrow>
     (\<forall>p n. m p = Some n \<longrightarrow>
        dlist n_nextPtr n_prevPtr m (n_firstChildPtr n) (ch p) (n_lastChildPtr n) \<and>
        sorted (map (subid_in m) (ch p)) \<and>
        (\<forall>c \<in> set (ch p). parent_in m c = Some p \<and> path c = path p @ [subid_in m c])) \<and>
     (\<forall>p. m p = None \<longrightarrow> ch p = [])"

lemma tree_okD:
  assumes "tree_ok m ch path" and "m p = Some n"
  shows "dlist n_nextPtr n_prevPtr m (n_firstChildPtr n) (ch p) (n_lastChildPtr n)"
    and "sorted (map (subid_in m) (ch p))"
    and "c \<in> set (ch p) \<Longrightarrow> parent_in m c = Some p"
    and "c \<in> set (ch p) \<Longrightarrow> path c = path p @ [subid_in m c]"
  using assms by (auto simp: tree_ok_def)

lemma tree_ok_child_alloc:
  assumes "tree_ok m ch path" and "c \<in> set (ch p)"
  shows "\<exists>n. m c = Some n" and "\<exists>n. m p = Some n"
proof -
  show "\<exists>n. m p = Some n" using assms by (cases "m p") (auto simp: tree_ok_def)
  then obtain n where "m p = Some n" ..
  then show "\<exists>n. m c = Some n" using tree_okD(1) [OF assms(1)] dlist_alloc assms(2) by metis
qed

lemma tree_ok_irrefl: "tree_ok m ch path \<Longrightarrow> p \<notin> set (ch p)"
proof
  assume ok: "tree_ok m ch path" and p: "p \<in> set (ch p)"
  obtain n where "m p = Some n" using tree_ok_child_alloc [OF ok p] by auto
  then have "path p = path p @ [subid_in m p]" using tree_okD(4) [OF ok] p by blast
  then show False by simp
qed

lemma tree_ok_parent_unique:
  assumes "tree_ok m ch path" and "c \<in> set (ch p)" and "c \<in> set (ch q)"
  shows "p = q"
  using assms tree_ok_child_alloc [OF assms(1)] tree_okD(3) [OF assms(1)]
  by (metis option.inject)

subsection \<open>Inserting a child\<close>

text \<open>The children after an insertion: before the first child whose sub identifier is not
  smaller.\<close>

definition ins_child :: "(ptr \<Rightarrow> SmiSubid) \<Rightarrow> SmiSubid \<Rightarrow> ptr \<Rightarrow> ptr list \<Rightarrow> ptr list" where
  "ins_child sub x p cs =
     takeWhile (\<lambda>c. sub c < x) cs @ p # dropWhile (\<lambda>c. sub c < x) cs"

lemma set_ins_child [simp]: "set (ins_child sub x p cs) = insert p (set cs)"
proof -
  have "set (takeWhile P cs) \<union> set (dropWhile P cs) = set cs" for P
    by (metis set_append takeWhile_dropWhile_id)
  then show ?thesis by (auto simp: ins_child_def)
qed

lemma sorted_ins_child:
  assumes "sorted (map sub cs)" and "sub' p = x" and "\<And>c. c \<in> set cs \<Longrightarrow> sub' c = sub c"
  shows "sorted (map sub' (ins_child sub x p cs))"
proof -
  have "map sub' (ins_child sub x p cs) =
      takeWhile (\<lambda>y. y < x) (map sub cs) @ x # dropWhile (\<lambda>y. y < x) (map sub cs)"
    using assms(2,3)
    by (auto simp: ins_child_def takeWhile_map dropWhile_map o_def
        dest!: set_takeWhileD set_dropWhileD)
  moreover have "sorted (takeWhile (\<lambda>y. y < x) ks @ x # dropWhile (\<lambda>y. y < x) ks)"
    if "sorted ks" for ks :: "SmiSubid list"
    using that by (induction ks) (auto dest: set_takeWhileD set_dropWhileD)
  ultimately show ?thesis using assms(1) by simp
qed

lemma ins_child_find:
  assumes "x \<notin> sub ` set cs" and "sub' p = x" and "\<And>c. c \<in> set cs \<Longrightarrow> sub' c = sub c"
    and "p \<notin> set cs"
  shows "List.find (\<lambda>c. sub' c = y) (ins_child sub x p cs) =
    (if y = x then Some p else List.find (\<lambda>c. sub c = y) cs)"
proof -
  have "List.find (\<lambda>c. sub' c = y) (takeWhile P cs @ p # dropWhile P cs) =
    (if y = x then Some p else List.find (\<lambda>c. sub c = y) cs)" for P
    using assms by (induction cs) (auto intro: find_cong_set)
  then show ?thesis by (simp add: ins_child_def)
qed

text \<open>\<open>addNode_link\<close> performs exactly the splice, and moves the parent's child pointers.\<close>

lemma addNode_link_eq:
  fixes m :: "ptr \<rightharpoonup> Node"
  assumes pn: "m pp = Some pn" and fresh: "m p = None"
    and dl: "dlist n_nextPtr n_prevPtr m (n_firstChildPtr pn) cs (n_lastChildPtr pn)"
    and pp: "pp \<notin> set cs" and n: "n_nextPtr n = None" "n_prevPtr n = None"
    and ys: "ys = takeWhile (\<lambda>c. subid_in m c < x) cs"
    and zs: "zs = dropWhile (\<lambda>c. subid_in m c < x) cs"
    and b: "before = (if ys = [] then None else Some (last ys))"
    and a: "after = (if zs = [] then None else Some (hd zs))"
  shows "addNode_link pp x p (m(p \<mapsto> n)) = Some
    ((nl.spliced p (n\<lparr>n_nextPtr := after, n_prevPtr := before\<rparr>) before after m)
      (pp \<mapsto> pn\<lparr>n_firstChildPtr := (if ys = [] then Some p else n_firstChildPtr pn),
               n_lastChildPtr := (if zs = [] then Some p else n_lastChildPtr pn)\<rparr>))"
proof -
  let ?m = "m(p \<mapsto> n)"
  have cs: "cs = ys @ zs" by (simp add: ys zs)
  have alloc: "\<exists>k. m c = Some k" if "c \<in> set cs" for c using dlist_alloc [OF dl that] .
  have pcs: "p \<notin> set cs" and ppp: "pp \<noteq> p" using alloc [of p] fresh pn by auto
  have dist: "distinct (ys @ zs)" using dlist_distinct [OF dl] cs by simp
  have dl': "dlist n_nextPtr n_prevPtr ?m (n_firstChildPtr pn) cs (n_lastChildPtr pn)"
    using dl pcs by (simp add: dlist_upd_other)
  have f: "n_firstChildPtr pn = (if cs = [] then None else Some (hd cs))"
    and l: "n_lastChildPtr pn = (if cs = [] then None else Some (last cs))"
    using dlist_first [OF dl] dlist_last [OF dl] by simp_all
  have w: "walk ?m n_nextPtr (\<lambda>_ c. Some (\<not> n_subid c < x)) (n_firstChildPtr pn) = Some after"
  proof -
    have "walk ?m n_nextPtr (\<lambda>_ c. Some (\<not> n_subid c < x)) (n_firstChildPtr pn) =
        Some (List.find (\<lambda>c. \<not> subid_in m c < x) cs)"
      using dl' by (rule walk_dlist) (use pcs in \<open>auto simp: subid_in_def split: if_splits\<close>)
    also have "List.find (\<lambda>c. \<not> subid_in m c < x) cs = (case zs of [] \<Rightarrow> None | c # _ \<Rightarrow> Some c)"
      by (simp add: find_dropWhile o_def zs)
    also have "\<dots> = after" by (cases zs) (simp_all add: a)
    finally show ?thesis .
  qed
  show ?thesis
  proof (cases "cs = []")
    case True
    with cs have "ys = []" "zs = []" by auto
    with True pn n ppp f l a b show ?thesis
      by (auto simp: addNode_link_def nl.spliced_def fun_eq_iff)
  next
    case False
    then have first: "n_firstChildPtr pn = Some (hd cs)" and last: "n_lastChildPtr pn = Some (last cs)"
      using f l by auto
    show ?thesis
    proof (cases zs)
      case Nil
      with cs False have ys': "ys = cs" "ys \<noteq> []" by auto
      obtain k where k: "m (last cs) = Some k" using alloc [of "last cs"] False by auto
      have ne: "last cs \<noteq> p" "last cs \<noteq> pp" using pcs pp False by (metis last_in_set)+
      from w Nil a have "walk ?m n_nextPtr (\<lambda>_ c. Some (\<not> n_subid c < x)) (Some (hd cs)) = Some None"
        using first by simp
      with Nil ys' first last k ne pn n ppp a b show ?thesis
        by (auto simp: addNode_link_def nl.spliced_def fun_eq_iff)
    next
      case (Cons z zs')
      have z: "z \<in> set cs" using cs Cons by simp
      obtain k where k: "m z = Some k" using alloc [OF z] by auto
      have ne: "z \<noteq> p" "z \<noteq> pp" using pcs pp z by auto
      from w Cons a have w': "walk ?m n_nextPtr (\<lambda>_ c. Some (\<not> n_subid c < x)) (Some (hd cs)) =
        Some (Some z)" using first by simp
      show ?thesis
      proof (cases "ys = []")
        case True
        then have "hd cs = z" using cs Cons by simp
        with w' True Cons first last k ne pn n ppp a b show ?thesis
          by (auto simp: addNode_link_def nl.spliced_def fun_eq_iff)
      next
        case nonempty: False
        then have hd: "hd cs \<noteq> z" using cs Cons dist by (cases ys) auto
        have u: "last ys \<in> set cs" using nonempty cs by simp
        obtain k' where k': "m (last ys) = Some k'" using alloc [OF u] by auto
        have ne': "last ys \<noteq> p" "last ys \<noteq> pp" "last ys \<noteq> z"
          using pcs pp u dist Cons nonempty by (auto dest: last_in_set)
        have prev: "n_prevPtr k = Some (last ys)"
        proof -
          have "dseg n_nextPtr n_prevPtr m None (n_firstChildPtr pn) (ys @ z # zs') (n_lastChildPtr pn) None"
            using dl cs Cons by (simp add: dlist_def)
          then obtain q j where "dseg n_nextPtr n_prevPtr m None (n_firstChildPtr pn) ys j q"
            and "n_prevPtr k = j" using k by (auto simp: dseg_append)
          then show ?thesis using dseg_last nonempty by fastforce
        qed
        show ?thesis
          using w' nonempty Cons first last k k' ne ne' pn n ppp a b hd prev
          by (auto simp: addNode_link_def nl.spliced_def fun_eq_iff)
      qed
    qed
  qed
qed

text \<open>The fields of a node that no insertion touches.\<close>

definition node_data :: "Node \<Rightarrow> SmiSubid \<times> u16 \<times> nat \<times> SmiSubid list option \<times> ptr option \<times>
    ptr option \<times> ptr option" where
  "node_data n = (n_subid n, n_flags n, n_oidlen n, n_oid n, n_parentPtr n, n_firstObjectPtr n,
     n_lastObjectPtr n)"

lemma node_data_links [simp]:
  "node_data (n\<lparr>n_nextPtr := a\<rparr>) = node_data n"
  "node_data (n\<lparr>n_prevPtr := a\<rparr>) = node_data n"
  "node_data (n\<lparr>n_firstChildPtr := a\<rparr>) = node_data n"
  "node_data (n\<lparr>n_lastChildPtr := a\<rparr>) = node_data n"
  by (simp_all add: node_data_def)

lemma node_data_subid_in: "map_option node_data (m p) = map_option node_data (m' p) \<Longrightarrow>
    subid_in m p = subid_in m' p"
  by (auto simp: subid_in_def node_data_def split: option.splits)

lemma node_data_parent_in: "map_option node_data (m p) = map_option node_data (m' p) \<Longrightarrow>
    parent_in m p = parent_in m' p"
  by (auto simp: parent_in_def fld_def node_data_def bind_eq_Some_iff split: option.splits
      Option.bind_splits)

lemma tree_ok_insert:
  fixes m m' :: "ptr \<rightharpoonup> Node"
  assumes ok: "tree_ok m ch path" and pn: "m pp = Some pn" and fresh: "m p = None"
    and new: "m' p = Some n'" "n_firstChildPtr n' = None" "n_lastChildPtr n' = None"
      "n_subid n' = x" "n_parentPtr n' = Some pp"
    and pn': "m' pp = Some pn'"
    and dl': "dlist n_nextPtr n_prevPtr m' (n_firstChildPtr pn') (ins_child (subid_in m) x p (ch pp))
      (n_lastChildPtr pn')"
    and data: "\<And>q. q \<noteq> p \<Longrightarrow> map_option node_data (m' q) = map_option node_data (m q)"
    and links: "\<And>c. c \<noteq> p \<Longrightarrow> c \<notin> set (ch pp) \<Longrightarrow> map_option n_nextPtr (m' c) = map_option n_nextPtr (m c)"
      "\<And>c. c \<noteq> p \<Longrightarrow> c \<notin> set (ch pp) \<Longrightarrow> map_option n_prevPtr (m' c) = map_option n_prevPtr (m c)"
    and kids: "\<And>q. q \<noteq> p \<Longrightarrow> q \<noteq> pp \<Longrightarrow> map_option n_firstChildPtr (m' q) = map_option n_firstChildPtr (m q)"
      "\<And>q. q \<noteq> p \<Longrightarrow> q \<noteq> pp \<Longrightarrow> map_option n_lastChildPtr (m' q) = map_option n_lastChildPtr (m q)"
  shows "tree_ok m' (ch(pp := ins_child (subid_in m) x p (ch pp), p := [])) (path(p := path pp @ [x]))"
proof -
  have pp: "pp \<noteq> p" using pn fresh by auto
  have newcs: "p \<notin> set (ch q)" for q using tree_ok_child_alloc(1) [OF ok, of p q] fresh by auto
  have sub: "subid_in m' q = subid_in m q" if "q \<noteq> p" for q
    by (rule node_data_subid_in) (rule data [OF that])
  have par: "parent_in m' q = parent_in m q" if "q \<noteq> p" for q
    by (rule node_data_parent_in) (rule data [OF that])
  have new': "subid_in m' p = x" "parent_in m' p = Some pp"
    using new by (simp_all add: subid_in_def parent_in_def)
  let ?ch' = "ch(pp := ins_child (subid_in m) x p (ch pp), p := [])"
  let ?path' = "path(p := path pp @ [x])"
  show ?thesis
    unfolding tree_ok_def
  proof (intro conjI allI impI)
    fix q assume q: "m' q = None"
    then have "q \<noteq> p" "q \<noteq> pp" using new pn' by auto
    moreover have "m q = None" using data [of q] q calculation by simp
    ultimately show "?ch' q = []" using ok by (simp add: tree_ok_def)
  next
    fix q k assume k: "m' q = Some k"
    consider (new) "q = p" | (parent) "q = pp" | (other) "q \<noteq> p" "q \<noteq> pp" by blast
    then show "dlist n_nextPtr n_prevPtr m' (n_firstChildPtr k) (?ch' q) (n_lastChildPtr k)"
    proof cases
      case new
      then show ?thesis using k \<open>m' p = Some n'\<close> assms(5,6) by simp
    next
      case parent
      then show ?thesis using k pn' dl' pp by simp
    next
      case other
      have disj: "c \<notin> set (ch pp)" if "c \<in> set (ch q)" for c
        using tree_ok_parent_unique [OF ok that] other by auto
      from k other kids [of q] obtain k0 where k0: "m q = Some k0"
        and "n_firstChildPtr k0 = n_firstChildPtr k" "n_lastChildPtr k0 = n_lastChildPtr k"
        by (cases "m q") auto
      moreover have "dlist n_nextPtr n_prevPtr m' f (ch q) l = dlist n_nextPtr n_prevPtr m f (ch q) l" for f l
        unfolding dlist_def using links disj newcs [of q] by (intro dseg_cong) metis+
      ultimately show ?thesis using tree_okD(1) [OF ok k0] other by simp
    qed
    show "sorted (map (subid_in m') (?ch' q))"
    proof (cases "q = pp")
      case True
      have "sorted (map (subid_in m') (ins_child (subid_in m) x p (ch pp)))"
        using new'(1) sub newcs [of pp] by (intro sorted_ins_child tree_okD(2) [OF ok pn]) metis+
      then show ?thesis using True pp by simp
    next
      case False
      have eq: "map (subid_in m') (ch q) = map (subid_in m) (ch q)"
        using sub newcs [of q] by (intro map_cong) metis+
      have "sorted (map (subid_in m) (ch q))"
        using ok by (cases "m q") (auto simp: tree_ok_def)
      then have "sorted (map (subid_in m') (ch q))" by (subst eq)
      then show ?thesis using False by simp
    qed
    show "\<forall>c \<in> set (?ch' q). parent_in m' c = Some q \<and> ?path' c = ?path' q @ [subid_in m' c]"
    proof
      fix c assume c: "c \<in> set (?ch' q)"
      show "parent_in m' c = Some q \<and> ?path' c = ?path' q @ [subid_in m' c]"
      proof (cases "c = p")
        case True
        then have "q = pp" using c newcs [of q] by (auto split: if_splits)
        then show ?thesis using True new' pp by simp
      next
        case False
        then have cq: "c \<in> set (ch q)" "q \<noteq> p" using c by (auto split: if_splits)
        then obtain k0 where k0: "m q = Some k0" using tree_ok_child_alloc(2) [OF ok] by blast
        show ?thesis
          using tree_okD(3,4) [OF ok k0 cq(1)] sub [OF False] par [OF False] False cq(2) by simp
      qed
    qed
  qed
qed

lemma addNode_tree:
  assumes ok: "tree_ok (s_nodes s) ch path" and pn: "s_nodes s pp = Some pn"
    and fresh: "s_nodes s (s_next s) = None"
  obtains m' where "addNode (Some pp) x fl s =
      Some (s_next s, s\<lparr>s_next := Suc (s_next s), s_nodes := m'\<rparr>)"
    and "tree_ok m' (ch(pp := ins_child (subid_in (s_nodes s)) x (s_next s) (ch pp), s_next s := []))
      (path(s_next s := path pp @ [x]))"
    and "\<And>q. q \<noteq> s_next s \<Longrightarrow> map_option node_data (m' q) = map_option node_data (s_nodes s q)"
    and "map_option node_data (m' (s_next s)) =
      Some (node_data (zero_node\<lparr>n_flags := fl, n_subid := x, n_parentPtr := Some pp\<rparr>))"
proof -
  let ?n = "zero_node\<lparr>n_flags := fl, n_subid := x, n_parentPtr := Some pp\<rparr>"
  define m where "m = s_nodes s"
  define p where "p = s_next s"
  define ys where "ys = takeWhile (\<lambda>c. subid_in m c < x) (ch pp)"
  define zs where "zs = dropWhile (\<lambda>c. subid_in m c < x) (ch pp)"
  define b where "b = (if ys = [] then None else Some (last ys))"
  define a where "a = (if zs = [] then None else Some (hd zs))"
  define n' where "n' = ?n\<lparr>n_nextPtr := a, n_prevPtr := b\<rparr>"
  define pn' where "pn' = pn\<lparr>n_firstChildPtr := (if ys = [] then Some p else n_firstChildPtr pn),
                n_lastChildPtr := (if zs = [] then Some p else n_lastChildPtr pn)\<rparr>"
  define sp where "sp = nl.spliced p n' b a m"
  note ok' = ok [folded m_def] and pn1 = pn [folded m_def] and fresh' = fresh [folded m_def p_def]
  note dl = tree_okD(1) [OF ok' pn1]
  have pcs: "pp \<notin> set (ch pp)" using tree_ok_irrefl [OF ok'] .
  have pp: "pp \<noteq> p" using pn1 fresh' by auto
  have newcs: "p \<notin> set (ch pp)" using tree_ok_child_alloc(1) [OF ok', of p pp] fresh' by auto
  have cs: "ch pp = ys @ zs" by (simp add: ys_def zs_def)
  have link: "addNode_link pp x p (m(p \<mapsto> ?n)) = Some (sp(pp \<mapsto> pn'))"
    unfolding sp_def pn'_def n'_def
    by (rule addNode_link_eq [OF pn1 fresh' dl pcs _ _ ys_def zs_def b_def a_def])
      (simp_all add: zero_node_def)
  have ba: "b = Some u \<Longrightarrow> u \<in> set (ch pp)" "a = Some u \<Longrightarrow> u \<in> set (ch pp)" for u
    by (auto simp: cs b_def a_def split: if_splits)
  have old: "sp c = m c" if "c \<noteq> p" "c \<notin> set (ch pp)" for c
    unfolding sp_def by (rule nl.spliced_other) (use that ba in blast)+
  have sdata: "map_option f (sp q) = map_option f (m q)"
    if "q \<noteq> p" "\<And>v k. f (n_set_next v k) = f k" "\<And>v k. f (n_set_prev v k) = f k"
    for f :: "Node \<Rightarrow> 'z" and q
    unfolding sp_def using that by (intro nl.spliced_data) auto
  have sp_pp: "sp pp = Some pn" using old [OF pp pcs] pn1 by simp
  have sp_p: "sp p = Some n'" by (simp add: sp_def)
  have dl': "dlist n_nextPtr n_prevPtr sp (if ys = [] then Some p else n_firstChildPtr pn)
      (ys @ p # zs) (if zs = [] then Some p else n_lastChildPtr pn)"
    unfolding sp_def
    by (rule nl.dlist_spliced) (use dl newcs cs in \<open>simp_all add: b_def a_def n'_def\<close>)
  have data: "map_option node_data ((sp(pp \<mapsto> pn')) q) = map_option node_data (m q)" if "q \<noteq> p" for q
    using sdata [OF that, of node_data] pn1 by (simp add: pn'_def)
  have "tree_ok (sp(pp \<mapsto> pn')) (ch(pp := ins_child (subid_in m) x p (ch pp), p := []))
      (path(p := path pp @ [x]))"
  proof (rule tree_ok_insert [OF ok' pn1 fresh', of _ n' x pn'])
    show "dlist n_nextPtr n_prevPtr (sp(pp \<mapsto> pn')) (n_firstChildPtr pn')
        (ins_child (subid_in m) x p (ch pp)) (n_lastChildPtr pn')"
    proof -
      have "ins_child (subid_in m) x p (ch pp) = ys @ p # zs"
        by (simp add: ins_child_def ys_def zs_def)
      moreover have "pp \<notin> set (ys @ p # zs)" using pcs pp cs by auto
      ultimately show ?thesis using dl' by (simp add: dlist_upd_other pn'_def)
    qed
  next
    fix q assume "q \<noteq> p" "q \<noteq> pp"
    then show "map_option n_firstChildPtr ((sp(pp \<mapsto> pn')) q) = map_option n_firstChildPtr (m q)"
      and "map_option n_lastChildPtr ((sp(pp \<mapsto> pn')) q) = map_option n_lastChildPtr (m q)"
      using sdata [of q n_firstChildPtr] sdata [of q n_lastChildPtr] by simp_all
  next
    fix q assume "q \<noteq> p"
    then show "map_option node_data ((sp(pp \<mapsto> pn')) q) = map_option node_data (m q)" by (rule data)
  next
    fix c assume c: "c \<noteq> p" "c \<notin> set (ch pp)"
    show "map_option n_nextPtr ((sp(pp \<mapsto> pn')) c) = map_option n_nextPtr (m c)"
      and "map_option n_prevPtr ((sp(pp \<mapsto> pn')) c) = map_option n_prevPtr (m c)"
      using old [OF c] pn1 by (simp_all add: pn'_def)
  qed (use pp sp_p in \<open>simp_all add: n'_def zero_node_def\<close>)
  moreover have "map_option node_data ((sp(pp \<mapsto> pn')) p) = Some (node_data ?n)"
    using pp sp_p by (simp add: n'_def)
  ultimately show thesis
    using link data unfolding m_def p_def
    by (intro that [of "sp(pp \<mapsto> pn')"]) (simp_all add: addNode_def Let_def)
qed

end
