(* ===== verification/Smi_Oid.thy ===== *)
theory Smi_Oid
  imports Smi_Tree "HOL-Library.Sublist"
begin

section \<open>Looking nodes up by object identifier\<close>

text \<open>
  The abstract tree is what \<open>resolve\<close> computes: from a node, the child with the next sub
  identifier, down the object identifier.  The lookups of the code are equal to it whenever the
  database invariant \<open>oid_inv\<close> holds, and \<open>createNodes\<close> adds exactly the missing prefixes.
\<close>

subsection \<open>The abstract tree\<close>

fun resolve :: "(ptr \<Rightarrow> ptr list) \<Rightarrow> (ptr \<Rightarrow> SmiSubid) \<Rightarrow> ptr \<Rightarrow> SmiSubid list \<Rightarrow> ptr option" where
  "resolve ch sub p [] = Some p"
| "resolve ch sub p (x # xs) = (case List.find (\<lambda>c. sub c = x) (ch p) of None \<Rightarrow> None
     | Some c \<Rightarrow> resolve ch sub c xs)"

lemma resolve_append:
  "resolve ch sub p (xs @ ys) = Option.bind (resolve ch sub p xs) (\<lambda>q. resolve ch sub q ys)"
  by (induction xs arbitrary: p) (auto split: option.splits)

lemma resolve_path:
  "tree_ok m ch path \<Longrightarrow> resolve ch (subid_in m) p xs = Some q \<Longrightarrow> path q = path p @ xs"
proof (induction xs arbitrary: p)
  case Nil
  then show ?case by simp
next
  case (Cons x xs)
  then obtain c where c: "List.find (\<lambda>c. subid_in m c = x) (ch p) = Some c"
    and "resolve ch (subid_in m) c xs = Some q" by (auto split: option.splits)
  with Cons have "path q = path c @ xs" by blast
  moreover have "c \<in> set (ch p)" "subid_in m c = x" using find_SomeD [OF c] by auto
  moreover then obtain n where "m p = Some n" using tree_ok_child_alloc [OF Cons.prems(1)] by blast
  ultimately show ?case using tree_okD(4) [OF Cons.prems(1)] by auto
qed

lemma resolve_alloc:
  assumes "tree_ok m ch path" and "m p \<noteq> None" and "resolve ch (subid_in m) p xs = Some q"
  shows "m q \<noteq> None"
  using assms
proof (induction xs arbitrary: p)
  case Nil
  then show ?case by simp
next
  case (Cons x xs)
  then show ?case
    using tree_ok_child_alloc(1) [OF Cons.prems(1)]
    by (auto split: option.splits dest!: find_SomeD) fastforce
qed

subsection \<open>The database invariant for the tree\<close>

text \<open>\<open>live_parser s pend\<close>: the current handle's parser exists, and \<open>pend\<close> is its pending root.\<close>

definition live_parser :: "smi \<Rightarrow> ptr option \<Rightarrow> bool" where
  "live_parser s pend \<longleftrightarrow> (\<exists>h pr. theHandle s = Some h \<and>
     deref (s_parsers s) (h_parserPtr h) = Some pr \<and> p_pendingNodePtr pr = pend)"

definition oid_inv :: "smi \<Rightarrow> (ptr \<Rightarrow> ptr list) \<Rightarrow> (ptr \<Rightarrow> SmiSubid list) \<Rightarrow> ptr \<Rightarrow> ptr option \<Rightarrow> bool" where
  "oid_inv s ch path root pend \<longleftrightarrow>
     tree_ok (s_nodes s) ch path \<and> map_option h_rootNodePtr (theHandle s) = Some (Some root) \<and>
     s_nodes s root \<noteq> None \<and> path root = [] \<and> live_parser s pend \<and> pend \<noteq> Some root \<and>
     (\<forall>pd. pend = Some pd \<longrightarrow> parent_in (s_nodes s) pd = None \<and> s_nodes s pd \<noteq> None) \<and>
     (\<forall>p. pend \<noteq> Some p \<longrightarrow> distinct (map (subid_in (s_nodes s)) (ch p))) \<and>
     (\<forall>a \<ge> s_next s. s_nodes s a = None)"

lemma oid_invD:
  assumes "oid_inv s ch path root pend"
  shows "tree_ok (s_nodes s) ch path" "map_option h_rootNodePtr (theHandle s) = Some (Some root)"
    "s_nodes s root \<noteq> None" "path root = []" "live_parser s pend" "pend \<noteq> Some root"
    "pend = Some pd \<Longrightarrow> parent_in (s_nodes s) pd = None"
    "pend \<noteq> Some p \<Longrightarrow> distinct (map (subid_in (s_nodes s)) (ch p))"
    "s_nodes s (s_next s) = None"
  using assms by (auto simp: oid_inv_def)

lemma oid_inv_child_not_pending:
  assumes "oid_inv s ch path root pend" and "c \<in> set (ch p)"
  shows "pend \<noteq> Some c"
proof
  assume "pend = Some c"
  then have "parent_in (s_nodes s) c = None" using oid_invD(7) [OF assms(1)] by simp
  moreover obtain n where "s_nodes s p = Some n"
    using tree_ok_child_alloc(2) [OF oid_invD(1) [OF assms(1)] assms(2)] by blast
  ultimately show False using tree_okD(3) [OF oid_invD(1) [OF assms(1)] _ assms(2)] by simp
qed

lemma findNodeByParentAndSubid_eq:
  assumes inv: "oid_inv s ch path root pend" and p: "s_nodes s p = Some n" and np: "pend \<noteq> Some p"
  shows "findNodeByParentAndSubid (Some p) x s =
    Some (List.find (\<lambda>c. subid_in (s_nodes s) c = x) (ch p))"
proof -
  have "walk (s_nodes s) n_nextPtr (\<lambda>_ n. Some (n_subid n = x)) (n_firstChildPtr n) =
      Some (List.find (\<lambda>c. subid_in (s_nodes s) c = x) (ch p))"
    using tree_okD(1) [OF oid_invD(1) [OF inv] p]
    by (rule walk_dlist) (simp add: subid_in_def)
  with oid_invD(5) [OF inv] p np show ?thesis
    by (auto simp: findNodeByParentAndSubid_def live_parser_def)
qed

subsection \<open>\<open>findNodeByOid\<close> and \<open>getNode\<close>\<close>

lemma findNodeByOid_loop_eq:
  assumes inv: "oid_inv s ch path root pend"
  shows "s_nodes s p \<noteq> None \<Longrightarrow> pend \<noteq> Some p \<Longrightarrow> i \<le> length oid \<Longrightarrow>
    findNodeByOid_loop i oid (Some p) s = Some (resolve ch (subid_in (s_nodes s)) p (take i oid))"
proof (induction i arbitrary: oid p)
  case 0
  then show ?case by simp
next
  case (Suc i)
  then obtain x xs where oid: "oid = x # xs" by (cases oid) auto
  obtain n where n: "s_nodes s p = Some n" using Suc.prems(1) by auto
  note find = findNodeByParentAndSubid_eq [OF inv n Suc.prems(2), of x]
  show ?case
  proof (cases "List.find (\<lambda>c. subid_in (s_nodes s) c = x) (ch p)")
    case None
    then show ?thesis using find oid by (cases i) simp_all
  next
    case (Some c)
    then have c: "c \<in> set (ch p)" using find_SomeD by fast
    have "s_nodes s c \<noteq> None" using tree_ok_child_alloc(1) [OF oid_invD(1) [OF inv] c] by auto
    moreover have "pend \<noteq> Some c" using oid_inv_child_not_pending [OF inv c] .
    ultimately show ?thesis using Suc.IH [of c xs] Suc.prems(3) find Some oid by simp
  qed
qed

lemma findNodeByOid_eq:
  assumes inv: "oid_inv s ch path root pend" and "i \<le> length oid"
  shows "findNodeByOid i oid s = Some (resolve ch (subid_in (s_nodes s)) root (take i oid))"
  using findNodeByOid_loop_eq [OF inv oid_invD(3,6) [OF inv] assms(2)] oid_invD(2) [OF inv]
  by (auto simp: findNodeByOid_def)

lemma getNode_loop_spec:
  assumes inv: "oid_inv s ch path root pend"
  shows "s_nodes s p \<noteq> None \<Longrightarrow> pend \<noteq> Some p \<Longrightarrow> i \<le> length oid \<Longrightarrow>
    \<exists>k q. getNode_loop i oid (Some p) s = Some (Some q) \<and> k \<le> i \<and>
      resolve ch (subid_in (s_nodes s)) p (take k oid) = Some q \<and>
      (k < i \<longrightarrow> resolve ch (subid_in (s_nodes s)) p (take (Suc k) oid) = None)"
proof (induction i arbitrary: oid p)
  case 0
  then show ?case by simp
next
  case (Suc i)
  then obtain x xs where oid: "oid = x # xs" by (cases oid) auto
  obtain n where n: "s_nodes s p = Some n" using Suc.prems(1) by auto
  note find = findNodeByParentAndSubid_eq [OF inv n Suc.prems(2), of x]
  show ?case
  proof (cases "List.find (\<lambda>c. subid_in (s_nodes s) c = x) (ch p)")
    case None
    then show ?thesis using find oid by - (rule exI [of _ "0::nat"], simp)
  next
    case (Some c)
    then have c: "c \<in> set (ch p)" using find_SomeD by fast
    have "s_nodes s c \<noteq> None" using tree_ok_child_alloc(1) [OF oid_invD(1) [OF inv] c] by auto
    moreover have "pend \<noteq> Some c" using oid_inv_child_not_pending [OF inv c] .
    ultimately obtain k q where "getNode_loop i xs (Some c) s = Some (Some q)" "k \<le> i"
      "resolve ch (subid_in (s_nodes s)) c (take k xs) = Some q"
      "k < i \<longrightarrow> resolve ch (subid_in (s_nodes s)) c (take (Suc k) xs) = None"
      using Suc.IH [of c xs] Suc.prems(3) oid by auto
    then show ?thesis using find Some oid by - (rule exI [of _ "Suc k"], simp)
  qed
qed

subsection \<open>Adding a node\<close>

lemma find_ins_child:
  assumes "List.find (\<lambda>c. sub c = x) cs = None" and "p \<notin> set cs" and "sub' = sub(p := x)"
  shows "List.find (\<lambda>c. sub' c = y) (ins_child sub x p cs) =
    (if y = x then Some p else List.find (\<lambda>c. sub c = y) cs)"
proof (rule ins_child_find)
  show "x \<notin> sub ` set cs" using assms(1) by (auto simp: find_None_iff)
  show "sub' p = x" using assms(3) by simp
  show "sub' c = sub c" if "c \<in> set cs" for c using that assms(2,3) by auto
qed (rule assms(2))

lemma resolve_insert_mono:
  assumes ok: "tree_ok m ch path" and fresh: "m p = None"
    and none: "List.find (\<lambda>c. subid_in m c = x) (ch pp) = None"
    and sub: "sub' = (subid_in m)(p := x)"
    and ch': "ch' = ch(pp := ins_child (subid_in m) x p (ch pp), p := [])"
  shows "m r \<noteq> None \<Longrightarrow> resolve ch (subid_in m) r ys = Some q \<Longrightarrow> resolve ch' sub' r ys = Some q"
proof (induction ys arbitrary: r)
  case Nil
  then show ?case by simp
next
  case (Cons y ys)
  then obtain c where c: "List.find (\<lambda>c. subid_in m c = y) (ch r) = Some c"
    and res: "resolve ch (subid_in m) c ys = Some q" by (auto split: option.splits)
  have cin: "c \<in> set (ch r)" using find_SomeD [OF c] by simp
  have rp: "r \<noteq> p" using Cons.prems(1) fresh by auto
  have newcs: "p \<notin> set (ch r)" for r using tree_ok_child_alloc(1) [OF ok, of p r] fresh by auto
  have "List.find (\<lambda>c. sub' c = y) (ch' r) = Some c"
  proof (cases "r = pp")
    case True
    then have "y \<noteq> x" using none c by auto
    then show ?thesis
      using True rp c find_ins_child [OF none newcs sub, of y] by (simp add: ch')
  next
    case False
    have "List.find (\<lambda>c. sub' c = y) (ch r) = List.find (\<lambda>c. subid_in m c = y) (ch r)"
      using newcs [of r] by (intro find_cong_set) (auto simp: sub)
    then show ?thesis using False rp c by (simp add: ch')
  qed
  moreover have "resolve ch' sub' c ys = Some q"
    using Cons.IH [OF _ res] tree_ok_child_alloc(1) [OF ok cin] by auto
  ultimately show ?case by simp
qed

lemma resolve_insert_new:
  assumes ok: "tree_ok m ch path" and fresh: "m p = None"
    and none: "List.find (\<lambda>c. subid_in m c = x) (ch pp) = None"
    and sub: "sub' = (subid_in m)(p := x)"
    and ch': "ch' = ch(pp := ins_child (subid_in m) x p (ch pp), p := [])"
  shows "m r \<noteq> None \<Longrightarrow> resolve ch' sub' r ys = Some q \<Longrightarrow>
    resolve ch (subid_in m) r ys = Some q \<or> q = p \<and> path pp @ [x] = path r @ ys"
proof (induction ys arbitrary: r)
  case Nil
  then show ?case by simp
next
  case (Cons y ys)
  then obtain c where c: "List.find (\<lambda>c. sub' c = y) (ch' r) = Some c"
    and res: "resolve ch' sub' c ys = Some q" by (auto split: option.splits)
  have rp: "r \<noteq> p" using Cons.prems(1) fresh by auto
  have newcs: "p \<notin> set (ch r)" for r using tree_ok_child_alloc(1) [OF ok, of p r] fresh by auto
  show ?case
  proof (cases "c = p")
    case True
    have "c \<in> set (ch' r)" "sub' c = y" using find_SomeD [OF c] by simp_all
    then have "r = pp" "x = y" using True rp newcs by (auto simp: ch' sub split: if_splits)
    moreover have "ch' p = []" by (simp add: ch')
    then have "ys = []" "q = p" using res True by (cases ys; simp)+
    ultimately show ?thesis by simp
  next
    case False
    have old: "List.find (\<lambda>c. subid_in m c = y) (ch r) = Some c"
    proof (cases "r = pp")
      case True
      then show ?thesis
        using rp c False find_ins_child [OF none newcs sub, of y]
        by (simp add: ch' split: if_splits)
    next
      case False
      have "List.find (\<lambda>c. sub' c = y) (ch r) = List.find (\<lambda>c. subid_in m c = y) (ch r)"
        using newcs [of r] by (intro find_cong_set) (auto simp: sub)
      then show ?thesis using False rp c by (simp add: ch')
    qed
    have cin: "c \<in> set (ch r)" "subid_in m c = y" using find_SomeD [OF old] by simp_all
    obtain k where k: "m r = Some k" using Cons.prems(1) by auto
    have "m c \<noteq> None" using tree_ok_child_alloc(1) [OF ok cin(1)] by auto
    from Cons.IH [OF this res] show ?thesis
      using old tree_okD(4) [OF ok k cin(1)] cin(2) by auto
  qed
qed

lemma distinct_ins_child:
  assumes "distinct (map sub cs)" and x: "x \<notin> sub ` set cs" and p: "p \<notin> set cs"
    and sub': "sub' = sub(p := x)"
  shows "distinct (map sub' (ins_child sub x p cs))"
proof -
  define us where "us = takeWhile (\<lambda>c. sub c < x) cs"
  define vs where "vs = dropWhile (\<lambda>c. sub c < x) cs"
  have cs: "cs = us @ vs" by (simp add: us_def vs_def)
  have eq: "map sub' zs = map sub zs" if "set zs \<subseteq> set cs" for zs
    using that p sub' by (intro map_cong) auto
  have us: "map sub' us = map sub us" and vs: "map sub' vs = map sub vs"
    by (rule eq, simp add: cs)+
  have ins: "ins_child sub x p cs = us @ p # vs" by (simp add: ins_child_def us_def vs_def)
  have px: "sub' p = x" by (simp add: sub')
  have "map sub' (ins_child sub x p cs) = map sub us @ x # map sub vs"
    unfolding ins by (simp add: us vs px)
  moreover have "distinct (map sub us @ map sub vs)" using assms(1) unfolding cs by simp
  moreover have "x \<notin> set (map sub us @ map sub vs)" using x unfolding cs by (simp add: image_Un)
  ultimately show ?thesis by simp
qed

text \<open>One \<open>addNode\<close> below an existing node keeps the invariant.\<close>

lemma addNode_inv:
  assumes inv: "oid_inv s ch path root pend" and pn: "s_nodes s pp \<noteq> None"
    and none: "pend = Some pp \<or> List.find (\<lambda>c. subid_in (s_nodes s) c = x) (ch pp) = None"
  obtains m' where "addNode (Some pp) x fl s =
      Some (s_next s, s\<lparr>s_next := Suc (s_next s), s_nodes := m'\<rparr>)"
    and "oid_inv (s\<lparr>s_next := Suc (s_next s), s_nodes := m'\<rparr>)
      (ch(pp := ins_child (subid_in (s_nodes s)) x (s_next s) (ch pp), s_next s := []))
      (path(s_next s := path pp @ [x])) root pend"
    and "subid_in m' = (subid_in (s_nodes s))(s_next s := x)"
    and "\<And>q. q \<noteq> s_next s \<Longrightarrow> map_option node_data (m' q) = map_option node_data (s_nodes s q)"
    and "map_option node_data (m' (s_next s)) =
      Some (node_data (zero_node\<lparr>n_flags := fl, n_subid := x, n_parentPtr := Some pp\<rparr>))"
proof -
  let ?p = "s_next s"
  note ok = oid_invD(1) [OF inv] and fresh = oid_invD(9) [OF inv]
  obtain k where k: "s_nodes s pp = Some k" using pn by auto
  define ch' where "ch' = ch(pp := ins_child (subid_in (s_nodes s)) x ?p (ch pp), ?p := [])"
  obtain m' where add: "addNode (Some pp) x fl s = Some (?p, s\<lparr>s_next := Suc ?p, s_nodes := m'\<rparr>)"
    and ok': "tree_ok m' ch' (path(?p := path pp @ [x]))"
    and data: "\<And>q. q \<noteq> ?p \<Longrightarrow> map_option node_data (m' q) = map_option node_data (s_nodes s q)"
    and new: "map_option node_data (m' ?p) =
      Some (node_data (zero_node\<lparr>n_flags := fl, n_subid := x, n_parentPtr := Some pp\<rparr>))"
    unfolding ch'_def using addNode_tree [OF ok k fresh, where x = x and fl = fl] by blast
  have newsub: "subid_in m' ?p = x"
    using new by (auto simp: subid_in_def node_data_def)
  have sub: "subid_in m' = (subid_in (s_nodes s))(?p := x)"
  proof
    fix q show "subid_in m' q = ((subid_in (s_nodes s))(?p := x)) q"
      using newsub by (cases "q = ?p") (simp, simp, rule node_data_subid_in, rule data)
  qed
  have dom: "m' q = None \<longleftrightarrow> s_nodes s q = None" if "q \<noteq> ?p" for q
    using data [OF that] by (metis option.map_disc_iff)
  have newcs: "?p \<notin> set (ch q)" for q using tree_ok_child_alloc(1) [OF ok, of ?p q] fresh by auto
  have root: "root \<noteq> ?p" using oid_invD(3) [OF inv] fresh by auto
  have pd: "pd \<noteq> ?p" if "pend = Some pd" for pd using inv fresh that by (auto simp: oid_inv_def)
  have dist: "distinct (map (subid_in m') (ch' q))" if "pend \<noteq> Some q" for q
  proof -
    consider (new) "q = ?p" | (parent) "q = pp" "q \<noteq> ?p" | (other) "q \<noteq> pp" "q \<noteq> ?p" by blast
    then show ?thesis
    proof cases
      case new
      then show ?thesis by (simp add: ch'_def)
    next
      case parent
      then have "x \<notin> subid_in (s_nodes s) ` set (ch pp)" using none that by (auto simp: find_None_iff)
      with oid_invD(8) [OF inv that] parent newcs [of pp] show ?thesis
        unfolding sub ch'_def by (simp add: distinct_ins_child del: distinct_map fun_upd_apply) (simp add: distinct_ins_child)
    next
      case other
      have "map (subid_in m') (ch q) = map (subid_in (s_nodes s)) (ch q)"
        using newcs [of q] unfolding sub by (intro map_cong) auto
      moreover have "ch' q = ch q" using other by (simp add: ch'_def)
      ultimately show ?thesis using oid_invD(8) [OF inv that] by (simp only:)
    qed
  qed
  have par: "parent_in m' pd = None" if "pend = Some pd" for pd
  proof -
    have "parent_in m' pd = parent_in (s_nodes s) pd"
      by (rule node_data_parent_in, rule data [OF pd [OF that]])
    then show ?thesis using oid_invD(7) [OF inv that] by simp
  qed
  have inv': "oid_inv (s\<lparr>s_next := Suc ?p, s_nodes := m'\<rparr>) ch' (path(?p := path pp @ [x])) root pend"
    unfolding oid_inv_def
  proof (intro conjI allI impI)
    show "live_parser (s\<lparr>s_next := Suc ?p, s_nodes := m'\<rparr>) pend"
      using oid_invD(5) [OF inv] by (simp add: live_parser_def theHandle_def)
    show "s_nodes (s\<lparr>s_next := Suc ?p, s_nodes := m'\<rparr>) a = None"
      if "s_next (s\<lparr>s_next := Suc ?p, s_nodes := m'\<rparr>) \<le> a" for a
      using that inv dom [of a] by (simp add: oid_inv_def)
    show "s_nodes (s\<lparr>s_next := Suc ?p, s_nodes := m'\<rparr>) pd \<noteq> None" if "pend = Some pd" for pd
      using that inv dom [of pd] pd [of pd] by (simp add: oid_inv_def)
  qed (use inv ok' dom root pd dist par in \<open>simp_all add: oid_inv_def theHandle_def\<close>)
  show thesis by (rule that [OF add inv' [unfolded ch'_def] sub data new])
qed

subsection \<open>Growing the tree\<close>

text \<open>
  \<open>grown s ch path s' ch' oid\<close>: the nodes of \<open>s\<close> keep their data, every object identifier that
  resolved still resolves to the same node, and what resolves anew is a prefix of \<open>oid\<close>.
\<close>

definition grown :: "smi \<Rightarrow> (ptr \<Rightarrow> ptr list) \<Rightarrow> (ptr \<Rightarrow> SmiSubid list) \<Rightarrow> smi \<Rightarrow>
    (ptr \<Rightarrow> ptr list) \<Rightarrow> SmiSubid list \<Rightarrow> bool" where
  "grown s ch path s' ch' oid \<longleftrightarrow>
     (\<forall>a. s_nodes s a \<noteq> None \<longrightarrow>
        map_option node_data (s_nodes s' a) = map_option node_data (s_nodes s a)) \<and>
     (\<forall>r ys t. s_nodes s r \<noteq> None \<longrightarrow> resolve ch (subid_in (s_nodes s)) r ys = Some t \<longrightarrow>
        resolve ch' (subid_in (s_nodes s')) r ys = Some t) \<and>
     (\<forall>r ys t. s_nodes s r \<noteq> None \<longrightarrow> resolve ch' (subid_in (s_nodes s')) r ys = Some t \<longrightarrow>
        resolve ch (subid_in (s_nodes s)) r ys = Some t \<or>
        s_nodes s t = None \<and> prefix (path r @ ys) oid)"

lemma grownD:
  assumes "grown s ch path s' ch' oid"
  shows "s_nodes s a \<noteq> None \<Longrightarrow>
      map_option node_data (s_nodes s' a) = map_option node_data (s_nodes s a)"
    and "s_nodes s r \<noteq> None \<Longrightarrow> resolve ch (subid_in (s_nodes s)) r ys = Some t \<Longrightarrow>
      resolve ch' (subid_in (s_nodes s')) r ys = Some t"
    and "s_nodes s r \<noteq> None \<Longrightarrow> resolve ch' (subid_in (s_nodes s')) r ys = Some t \<Longrightarrow>
      resolve ch (subid_in (s_nodes s)) r ys = Some t \<or> s_nodes s t = None \<and> prefix (path r @ ys) oid"
  using assms by (simp_all add: grown_def)

lemma grown_alloc: "grown s ch path s' ch' oid \<Longrightarrow> s_nodes s a \<noteq> None \<Longrightarrow> s_nodes s' a \<noteq> None"
  using grownD(1) [of s ch path s' ch' oid a] by (metis option.map_disc_iff)

lemma grown_refl: "grown s ch path s ch oid"
  by (simp add: grown_def)

lemma grown_mono: "grown s ch path s' ch' oid \<Longrightarrow> prefix oid oid' \<Longrightarrow> grown s ch path s' ch' oid'"
  unfolding grown_def by (meson prefix_order.trans)

lemma grown_trans:
  assumes g1: "grown s ch path s1 ch1 oid" and g2: "grown s1 ch1 path1 s2 ch2 oid"
    and path: "\<And>r. s_nodes s r \<noteq> None \<Longrightarrow> path1 r = path r"
  shows "grown s ch path s2 ch2 oid"
  unfolding grown_def
proof (intro conjI allI impI)
  fix a assume a: "s_nodes s a \<noteq> None"
  show "map_option node_data (s_nodes s2 a) = map_option node_data (s_nodes s a)"
    using grownD(1) [OF g1 a] grownD(1) [OF g2 grown_alloc [OF g1 a]] by simp
next
  fix r ys t assume r: "s_nodes s r \<noteq> None" and "resolve ch (subid_in (s_nodes s)) r ys = Some t"
  then show "resolve ch2 (subid_in (s_nodes s2)) r ys = Some t"
    using grownD(2) [OF g2 grown_alloc [OF g1 r]] grownD(2) [OF g1 r] by blast
next
  fix r ys t assume r: "s_nodes s r \<noteq> None" and "resolve ch2 (subid_in (s_nodes s2)) r ys = Some t"
  then consider "resolve ch1 (subid_in (s_nodes s1)) r ys = Some t"
    | "s_nodes s1 t = None" "prefix (path r @ ys) oid"
    using grownD(3) [OF g2 grown_alloc [OF g1 r]] path [OF r] by metis
  then show "resolve ch (subid_in (s_nodes s)) r ys = Some t \<or>
      s_nodes s t = None \<and> prefix (path r @ ys) oid"
  proof cases
    case 1
    then show ?thesis by (rule grownD(3) [OF g1 r])
  next
    case 2
    then show ?thesis using grown_alloc [OF g1, of t] by blast
  qed
qed

lemma grown_insert:
  assumes inv: "oid_inv s ch path root pend"
    and none: "List.find (\<lambda>c. subid_in (s_nodes s) c = x) (ch pp) = None"
    and sub: "subid_in m' = (subid_in (s_nodes s))(s_next s := x)"
    and data: "\<And>q. q \<noteq> s_next s \<Longrightarrow> map_option node_data (m' q) = map_option node_data (s_nodes s q)"
    and ch': "ch' = ch(pp := ins_child (subid_in (s_nodes s)) x (s_next s) (ch pp), s_next s := [])"
  shows "grown s ch path (s\<lparr>s_next := n', s_nodes := m'\<rparr>) ch' (path pp @ [x])"
  unfolding grown_def
proof (intro conjI allI impI)
  note ok = oid_invD(1) [OF inv] and fresh = oid_invD(9) [OF inv]
  fix a assume "s_nodes s a \<noteq> None"
  then show "map_option node_data (s_nodes (s\<lparr>s_next := n', s_nodes := m'\<rparr>) a) =
      map_option node_data (s_nodes s a)" using fresh data by (cases "a = s_next s") simp_all
next
  note ok = oid_invD(1) [OF inv] and fresh = oid_invD(9) [OF inv]
  fix r ys t assume r: "s_nodes s r \<noteq> None"
  show "resolve ch (subid_in (s_nodes s)) r ys = Some t \<Longrightarrow>
      resolve ch' (subid_in (s_nodes (s\<lparr>s_next := n', s_nodes := m'\<rparr>))) r ys = Some t"
    using resolve_insert_mono [OF ok fresh none sub ch' r] by simp
  assume "resolve ch' (subid_in (s_nodes (s\<lparr>s_next := n', s_nodes := m'\<rparr>))) r ys = Some t"
  then have "resolve ch' (subid_in m') r ys = Some t" by simp
  from resolve_insert_new [OF ok fresh none sub ch' r this]
  show "resolve ch (subid_in (s_nodes s)) r ys = Some t \<or>
      s_nodes s t = None \<and> prefix (path r @ ys) (path pp @ [x])"
    using fresh by auto
qed

subsection \<open>\<open>createNodes\<close>\<close>

lemma createNodes_loop_spec:
  assumes "oid_inv s ch path root pend" and "s_nodes s p \<noteq> None" and "pend \<noteq> Some p"
    and "i \<le> length oid"
  shows "\<exists>q s' ch' path'. createNodes_loop i oid (Some p) s = Some (Some q, s') \<and>
    oid_inv s' ch' path' root pend \<and>
    resolve ch' (subid_in (s_nodes s')) p (take i oid) = Some q \<and>
    grown s ch path s' ch' (path p @ take i oid)"
  using assms
proof (induction i arbitrary: oid p s ch path)
  case 0
  then show ?case using grown_refl by (intro exI [of _ p] exI [of _ s] exI) auto
next
  case (Suc i)
  then obtain x xs where oid: "oid = x # xs" by (cases oid) auto
  obtain n where n: "s_nodes s p = Some n" using Suc.prems(2) by auto
  note inv = Suc.prems(1)
  note ok = oid_invD(1) [OF inv] and fresh = oid_invD(9) [OF inv]
  note find = findNodeByParentAndSubid_eq [OF inv n Suc.prems(3), of x]
  have len: "i \<le> length xs" using Suc.prems(4) oid by simp
  show ?case
  proof (cases "List.find (\<lambda>c. subid_in (s_nodes s) c = x) (ch p)")
    case (Some c)
    then have c: "c \<in> set (ch p)" "subid_in (s_nodes s) c = x" using find_SomeD by fast+
    have "s_nodes s c \<noteq> None" using tree_ok_child_alloc(1) [OF ok c(1)] by auto
    from Suc.IH [OF inv this oid_inv_child_not_pending [OF inv c(1)] len]
    obtain q s' ch' path' where
      run: "createNodes_loop i xs (Some c) s = Some (Some q, s')"
      and inv': "oid_inv s' ch' path' root pend"
      and res: "resolve ch' (subid_in (s_nodes s')) c (take i xs) = Some q"
      and gr: "grown s ch path s' ch' (path c @ take i xs)" by blast
    have pc: "path c @ take i xs = path p @ take (Suc i) oid"
      using tree_okD(4) [OF ok n c(1)] c(2) oid by simp
    have "resolve ch (subid_in (s_nodes s)) p [x] = Some c" using Some by simp
    then have "resolve ch' (subid_in (s_nodes s')) p [x] = Some c"
      by (rule grownD(2) [OF gr Suc.prems(2)])
    with res have res': "resolve ch' (subid_in (s_nodes s')) p (take (Suc i) oid) = Some q"
      using resolve_append [of ch' "subid_in (s_nodes s')" p "[x]" "take i xs"] oid by simp
    have run': "createNodes_loop (Suc i) oid (Some p) s = Some (Some q, s')"
      using run find Some oid by simp
    show ?thesis using run' inv' res' gr [unfolded pc] by blast
  next
    case None
    define p1 where "p1 = s_next s"
    define ch1 where "ch1 = ch(p := ins_child (subid_in (s_nodes s)) x p1 (ch p), p1 := [])"
    define path1 where "path1 = path(p1 := path p @ [x])"
    obtain m1 where add: "addNode (Some p) x 0 s = Some (p1, s\<lparr>s_next := Suc p1, s_nodes := m1\<rparr>)"
      and inv1: "oid_inv (s\<lparr>s_next := Suc p1, s_nodes := m1\<rparr>) ch1 path1 root pend"
      and sub1: "subid_in m1 = (subid_in (s_nodes s))(p1 := x)"
      and data: "\<And>q. q \<noteq> p1 \<Longrightarrow> map_option node_data (m1 q) = map_option node_data (s_nodes s q)"
      and new: "map_option node_data (m1 p1) =
        Some (node_data (zero_node\<lparr>n_flags := 0, n_subid := x, n_parentPtr := Some p\<rparr>))"
      unfolding p1_def ch1_def path1_def
      using addNode_inv [OF inv Suc.prems(2) disjI2 [OF None], where fl = 0] by blast
    define s1 where "s1 = s\<lparr>s_next := Suc p1, s_nodes := m1\<rparr>"
    have gr1: "grown s ch path s1 ch1 (path p @ [x])"
      unfolding s1_def
      by (rule grown_insert [OF inv None]) (use sub1 data in \<open>simp_all add: ch1_def p1_def\<close>)
    have p: "p1 \<noteq> p" using n fresh by (auto simp: p1_def)
    have pend: "pend \<noteq> Some p1" using inv fresh by (auto simp: oid_inv_def p1_def)
    have "s_nodes s1 p1 \<noteq> None" using new by (auto simp: s1_def)
    from Suc.IH [OF inv1 [folded s1_def] this pend len]
    obtain q s' ch' path' where
      run: "createNodes_loop i xs (Some p1) s1 = Some (Some q, s')"
      and inv': "oid_inv s' ch' path' root pend"
      and res: "resolve ch' (subid_in (s_nodes s')) p1 (take i xs) = Some q"
      and gr: "grown s1 ch1 path1 s' ch' (path1 p1 @ take i xs)" by blast
    have pc: "path1 p1 @ take i xs = path p @ take (Suc i) oid" using oid by (simp add: path1_def)
    have "prefix (path p @ [x]) (path p @ take (Suc i) oid)" using oid by simp
    note gr1' = grown_mono [OF gr1 this]
    have "path1 r = path r" if "s_nodes s r \<noteq> None" for r
      using that fresh by (auto simp: path1_def p1_def)
    note gr' = grown_trans [OF gr1' gr [unfolded pc] this]
    have newcs: "p1 \<notin> set (ch p)"
      using tree_ok_child_alloc(1) [OF ok, of p1 p] fresh by (auto simp: p1_def)
    have "List.find (\<lambda>c. subid_in m1 c = x) (ch1 p) = Some p1"
      using find_ins_child [OF None newcs sub1, of x] p by (simp add: ch1_def)
    then have "resolve ch1 (subid_in (s_nodes s1)) p [x] = Some p1" by (simp add: s1_def)
    then have "resolve ch' (subid_in (s_nodes s')) p [x] = Some p1"
      using grownD(2) [OF gr] grown_alloc [OF gr1 Suc.prems(2)] by blast
    with res have res': "resolve ch' (subid_in (s_nodes s')) p (take (Suc i) oid) = Some q"
      using resolve_append [of ch' "subid_in (s_nodes s')" p "[x]" "take i xs"] oid by simp
    have run': "createNodes_loop (Suc i) oid (Some p) s = Some (Some q, s')"
      using run find None oid add by (simp add: s1_def)
    show ?thesis using run' inv' res' gr' by blast
  qed
qed

lemma createNodes_spec:
  assumes inv: "oid_inv s ch path root pend" and len: "i \<le> length oid"
  shows "\<exists>q s' ch' path'. createNodes i oid s = Some (Some q, s') \<and>
    oid_inv s' ch' path' root pend \<and>
    resolve ch' (subid_in (s_nodes s')) root (take i oid) = Some q \<and>
    grown s ch path s' ch' (take i oid)"
proof -
  obtain h where h: "theHandle s = Some h" "h_rootNodePtr h = Some root"
    using oid_invD(2) [OF inv] by auto
  then have "createNodes i oid s = createNodes_loop i oid (Some root) s"
    by (simp add: createNodes_def)
  with createNodes_loop_spec [OF inv oid_invD(3,6) [OF inv] len] oid_invD(4) [OF inv]
  show ?thesis by simp
qed

lemma getNode_spec:
  assumes inv: "oid_inv s ch path root pend" and len: "i \<le> length oid"
  shows "\<exists>k q. getNode i oid s = Some (Some q) \<and> k \<le> i \<and>
    resolve ch (subid_in (s_nodes s)) root (take k oid) = Some q \<and>
    (k < i \<longrightarrow> resolve ch (subid_in (s_nodes s)) root (take (Suc k) oid) = None)"
proof -
  obtain h where h: "theHandle s = Some h" "h_rootNodePtr h = Some root"
    using oid_invD(2) [OF inv] by auto
  then have "getNode i oid s = getNode_loop i oid (Some root) s"
    by (simp add: getNode_def)
  with getNode_loop_spec [OF inv oid_invD(3,6) [OF inv] len] show ?thesis by simp
qed

end
