(* ===== verification/Loops.thy ===== *)
theory Loops
  imports Intrusive_List
begin

section \<open>Loops over intrusive lists\<close>

text \<open>
  The other loops the code runs over its tables: one that returns the first result an inner search
  gives, one that folds the elements into a local variable, and one whose body changes the state.
  Each is a partial function, so that a fault in the body or a list that never ends is \<open>None\<close>;
  on a well-formed list each is a list function.
\<close>

subsection \<open>The first result of an inner search\<close>

text \<open>\<open>for (p = first; p; p = p->next) { r = f(p); if (r) return r; } return NULL;\<close>\<close>

partial_function (option) walk_first :: "(ptr \<rightharpoonup> 'n) \<Rightarrow> ('n \<Rightarrow> ptr option) \<Rightarrow>
    (ptr \<Rightarrow> 'n \<Rightarrow> 'r option option) \<Rightarrow> ptr option \<Rightarrow> 'r option option" where
  "walk_first m nx f p = (case p of None \<Rightarrow> Some None
     | Some a \<Rightarrow> Option.bind (m a) (\<lambda>n. Option.bind (f a n) (\<lambda>r.
         if r = None then walk_first m nx f (nx n) else Some r)))"

declare walk_first.simps [code]

fun first_some :: "('a \<Rightarrow> 'r option) \<Rightarrow> 'a list \<Rightarrow> 'r option" where
  "first_some g [] = None"
| "first_some g (x # xs) = (if g x = None then first_some g xs else g x)"

lemma walk_first_None [simp]: "walk_first m nx f None = Some None"
  by (subst walk_first.simps) simp

lemma walk_first_Some:
  "walk_first m nx f (Some a) = Option.bind (m a) (\<lambda>n. Option.bind (f a n) (\<lambda>r.
     if r = None then walk_first m nx f (nx n) else Some r))"
  by (subst walk_first.simps) simp

lemma walk_first_dseg:
  assumes "dseg nx pv m b p xs l None"
    and "\<And>x n. x \<in> set xs \<Longrightarrow> m x = Some n \<Longrightarrow> f x n = Some (g x)"
  shows "walk_first m nx f p = Some (first_some g xs)"
  using assms
proof (induction xs arbitrary: b p)
  case Nil
  then show ?case by simp
next
  case (Cons x xs)
  then obtain n where p: "p = Some x" and n: "m x = Some n"
    and rest: "dseg nx pv m (Some x) (nx n) xs l None" by auto
  have "f x n = Some (g x)" using Cons.prems(2) n by simp
  moreover have "walk_first m nx f (nx n) = Some (first_some g xs)"
    using Cons.IH [OF rest] Cons.prems(2) by simp
  ultimately show ?case by (simp add: p n walk_first_Some)
qed

lemma first_some_eq_Some:
  "first_some g xs = Some r \<longleftrightarrow>
    (\<exists>us x vs. xs = us @ x # vs \<and> g x = Some r \<and> (\<forall>u \<in> set us. g u = None))"
proof (induction xs)
  case Nil
  then show ?case by simp
next
  case (Cons y ys)
  show ?case
  proof (cases "g y")
    case None
    then have "first_some g (y # ys) = Some r \<longleftrightarrow>
      (\<exists>us x vs. ys = us @ x # vs \<and> g x = Some r \<and> (\<forall>u \<in> set us. g u = None))"
      using Cons.IH by simp
    also have "\<dots> \<longleftrightarrow> (\<exists>us x vs. y # ys = us @ x # vs \<and> g x = Some r \<and> (\<forall>u \<in> set us. g u = None))"
      (is "?L \<longleftrightarrow> ?R")
    proof
      assume ?L
      then obtain us x vs where "ys = us @ x # vs" "g x = Some r" "\<forall>u \<in> set us. g u = None" by blast
      then have "y # ys = (y # us) @ x # vs" "\<forall>u \<in> set (y # us). g u = None" using None by simp_all
      with \<open>g x = Some r\<close> show ?R by blast
    next
      assume ?R
      then obtain us x vs where e: "y # ys = us @ x # vs" "g x = Some r" "\<forall>u \<in> set us. g u = None"
        by blast
      then have "us \<noteq> []" using None by (cases us) auto
      then obtain u us' where "us = u # us'" by (cases us) auto
      with e show ?L by auto
    qed
    finally show ?thesis .
  next
    case (Some r')
    then have "first_some g (y # ys) = Some r \<longleftrightarrow> r' = r" by simp
    also have "\<dots> \<longleftrightarrow> (\<exists>us x vs. y # ys = us @ x # vs \<and> g x = Some r \<and> (\<forall>u \<in> set us. g u = None))"
    proof
      assume "r' = r"
      then have "y # ys = [] @ y # ys" "g y = Some r" "\<forall>u \<in> set []. g u = None" using Some by simp_all
      then show "\<exists>us x vs. y # ys = us @ x # vs \<and> g x = Some r \<and> (\<forall>u \<in> set us. g u = None)" by blast
    next
      assume "\<exists>us x vs. y # ys = us @ x # vs \<and> g x = Some r \<and> (\<forall>u \<in> set us. g u = None)"
      then show "r' = r" using Some by (auto simp: Cons_eq_append_conv)
    qed
    finally show ?thesis .
  qed
qed

lemma first_some_eq_None: "first_some g xs = None \<longleftrightarrow> (\<forall>x \<in> set xs. g x = None)"
  by (induction xs) auto

subsection \<open>Folding the elements\<close>

text \<open>\<open>for (p = first; p; p = p->next) acc = f(p, acc);\<close>\<close>

partial_function (option) walk_fold :: "(ptr \<rightharpoonup> 'n) \<Rightarrow> ('n \<Rightarrow> ptr option) \<Rightarrow>
    (ptr \<Rightarrow> 'n \<Rightarrow> 'acc \<Rightarrow> 'acc option) \<Rightarrow> ptr option \<Rightarrow> 'acc \<Rightarrow> 'acc option" where
  "walk_fold m nx f p acc = (case p of None \<Rightarrow> Some acc
     | Some a \<Rightarrow> Option.bind (m a) (\<lambda>n. Option.bind (f a n acc) (\<lambda>acc.
         walk_fold m nx f (nx n) acc)))"

declare walk_fold.simps [code]

lemma walk_fold_None [simp]: "walk_fold m nx f None acc = Some acc"
  by (subst walk_fold.simps) simp

lemma walk_fold_Some:
  "walk_fold m nx f (Some a) acc = Option.bind (m a) (\<lambda>n. Option.bind (f a n acc) (\<lambda>acc.
     walk_fold m nx f (nx n) acc))"
  by (subst walk_fold.simps) simp

lemma walk_fold_dseg:
  assumes "dseg nx pv m b p xs l None"
    and "\<And>x n acc. x \<in> set xs \<Longrightarrow> m x = Some n \<Longrightarrow> I acc \<Longrightarrow> f x n acc = Some (g x acc) \<and> I (g x acc)"
    and "I acc"
  shows "walk_fold m nx f p acc = Some (fold g xs acc) \<and> I (fold g xs acc)"
  using assms
proof (induction xs arbitrary: b p acc)
  case Nil
  then show ?case by simp
next
  case (Cons x xs)
  then obtain n where p: "p = Some x" and n: "m x = Some n"
    and rest: "dseg nx pv m (Some x) (nx n) xs l None" by auto
  have s: "f x n acc = Some (g x acc)" "I (g x acc)" using Cons.prems(2,3) n by simp_all
  moreover have "walk_fold m nx f (nx n) (g x acc) = Some (fold g xs (g x acc)) \<and> I (fold g xs (g x acc))"
    using Cons.IH [OF rest _ s(2)] Cons.prems(2) by simp
  ultimately show ?case by (simp add: p n walk_fold_Some)
qed

subsection \<open>A body that changes the state\<close>

text \<open>
  \<open>for (p = first; p; p = p->next) body(p);\<close>: \<open>mem\<close> is the memory that holds the list; the link is
  read after the body has run.
\<close>

partial_function (option) for_list :: "('s \<Rightarrow> (ptr \<rightharpoonup> 'n)) \<Rightarrow> ('n \<Rightarrow> ptr option) \<Rightarrow>
    (ptr \<Rightarrow> 's \<Rightarrow> 's option) \<Rightarrow> ptr option \<Rightarrow> 's \<Rightarrow> 's option" where
  "for_list mem nx body p s = (case p of None \<Rightarrow> Some s
     | Some a \<Rightarrow> Option.bind (body a s) (\<lambda>s. Option.bind (mem s a) (\<lambda>n.
         for_list mem nx body (nx n) s)))"

declare for_list.simps [code]

lemma for_list_None [simp]: "for_list mem nx body None s = Some s"
  by (subst for_list.simps) simp

lemma for_list_Some:
  "for_list mem nx body (Some a) s = Option.bind (body a s) (\<lambda>s. Option.bind (mem s a) (\<lambda>n.
     for_list mem nx body (nx n) s))"
  by (subst for_list.simps) simp

text \<open>The body keeps the links, so the loop visits the elements of the list it started with.\<close>

lemma for_list_dseg:
  assumes "dseg nx pv (mem s) b p xs l None"
    and "\<And>x s. x \<in> set xs \<Longrightarrow> mem s x \<noteq> None \<Longrightarrow> body x s = Some (g x s)"
    and "\<And>x s y. map_option nx (mem (g x s) y) = map_option nx (mem s y)"
    and "\<And>x s y. map_option pv (mem (g x s) y) = map_option pv (mem s y)"
  shows "for_list mem nx body p s = Some (fold g xs s)"
  using assms(1,2)
proof (induction xs arbitrary: b p s)
  case Nil
  then show ?case by simp
next
  case (Cons x xs)
  then obtain n where p: "p = Some x" and n: "mem s x = Some n"
    and rest: "dseg nx pv (mem s) (Some x) (nx n) xs l None" by auto
  have b: "body x s = Some (g x s)" using Cons.prems(2) n by simp
  have "map_option nx (mem (g x s) x) = Some (nx n)" using assms(3) [of x s x] n by simp
  then obtain n' where n': "mem (g x s) x = Some n'" "nx n' = nx n" by auto
  have "dseg nx pv (mem (g x s)) (Some x) (nx n) xs l None"
    using rest by (subst dseg_cong [where m' = "mem s"]) (use assms(3,4) in auto)
  from Cons.IH [OF this] have "for_list mem nx body (nx n) (g x s) = Some (fold g xs (g x s))"
    using Cons.prems(2) by simp
  then show ?case by (simp add: p b n' for_list_Some)
qed

end
