(* ===== verification/Smi_Module.thy ===== *)
theory Smi_Module
  imports Smi_Oid Loops
begin

section \<open>Modules, revisions and imports\<close>

text \<open>
  \<^verbatim>\<open>smi-data.c\<close>: the modules of the current handle in the order they were loaded; for each module
  its revisions, kept with the newest first, and its imports in source order.
\<close>

subsection \<open>Links\<close>

abbreviation (input) m_set_next :: "ptr option \<Rightarrow> Module \<Rightarrow> Module" where
  "m_set_next v \<equiv> m_nextPtr_update (\<lambda>_. v)"

abbreviation (input) m_set_prev :: "ptr option \<Rightarrow> Module \<Rightarrow> Module" where
  "m_set_prev v \<equiv> m_prevPtr_update (\<lambda>_. v)"

abbreviation (input) r_set_next :: "ptr option \<Rightarrow> Revision \<Rightarrow> Revision" where
  "r_set_next v \<equiv> r_nextPtr_update (\<lambda>_. v)"

abbreviation (input) r_set_prev :: "ptr option \<Rightarrow> Revision \<Rightarrow> Revision" where
  "r_set_prev v \<equiv> r_prevPtr_update (\<lambda>_. v)"

abbreviation (input) i_set_next :: "ptr option \<Rightarrow> Import \<Rightarrow> Import" where
  "i_set_next v \<equiv> i_nextPtr_update (\<lambda>_. v)"

abbreviation (input) i_set_prev :: "ptr option \<Rightarrow> Import \<Rightarrow> Import" where
  "i_set_prev v \<equiv> i_prevPtr_update (\<lambda>_. v)"

interpretation ml: linked_struct m_nextPtr m_prevPtr m_set_next m_set_prev
  by unfold_locales simp_all

interpretation rl: linked_struct r_nextPtr r_prevPtr r_set_next r_set_prev
  by unfold_locales simp_all

interpretation il: linked_struct i_nextPtr i_prevPtr i_set_next i_set_prev
  by unfold_locales simp_all

text \<open>The modules of the current handle; the revisions and imports of the module at \<open>mp\<close>.\<close>

definition module_list :: "smi \<Rightarrow> ptr list \<Rightarrow> bool" where
  "module_list s ms \<longleftrightarrow> (\<exists>h. theHandle s = Some h \<and>
     dlist m_nextPtr m_prevPtr (s_modules s) (h_firstModulePtr h) ms (h_lastModulePtr h))"

definition name_of_module :: "smi \<Rightarrow> ptr \<Rightarrow> cstr" where
  "name_of_module s = fld (sm_name \<circ> m_export) (s_modules s)"

definition revision_list :: "smi \<Rightarrow> ptr \<Rightarrow> ptr list \<Rightarrow> bool" where
  "revision_list s mp rs \<longleftrightarrow> (\<exists>m. s_modules s mp = Some m \<and>
     dlist r_nextPtr r_prevPtr (s_revisions s) (m_firstRevisionPtr m) rs (m_lastRevisionPtr m))"

definition revision_date :: "smi \<Rightarrow> ptr \<Rightarrow> int" where
  "revision_date s p = (case s_revisions s p of None \<Rightarrow> 0 | Some r \<Rightarrow> sr_date (r_export r))"

definition import_list :: "smi \<Rightarrow> ptr \<Rightarrow> ptr list \<Rightarrow> bool" where
  "import_list s mp xs \<longleftrightarrow> (\<exists>m. s_modules s mp = Some m \<and>
     dlist i_nextPtr i_prevPtr (s_imports s) (m_firstImportPtr m) xs (m_lastImportPtr m))"

definition import_name :: "smi \<Rightarrow> ptr \<Rightarrow> cstr" where
  "import_name s = fld (si_name \<circ> i_export) (s_imports s)"

definition import_module :: "smi \<Rightarrow> ptr \<Rightarrow> cstr" where
  "import_module s = fld (si_module \<circ> i_export) (s_imports s)"

subsection \<open>Modules\<close>

definition zero_module :: Module where
  "zero_module = \<lparr>m_export = \<lparr>sm_name = None, sm_path = None, sm_organization = None,
       sm_contactinfo = None, sm_description = None, sm_reference = None,
       sm_language = SMI_LANGUAGE_UNKNOWN, sm_conformance = 0\<rparr>,
     m_lastUpdated = 0, m_objectPtr = None, m_firstObjectPtr = None, m_lastObjectPtr = None,
     m_firstTypePtr = None, m_lastTypePtr = None, m_firstClassPtr = None, m_lastClassPtr = None,
     m_firstMacroPtr = None, m_lastMacroPtr = None, m_firstIdentityPtr = None,
     m_lastIdentityPtr = None, m_firstImportPtr = None, m_lastImportPtr = None,
     m_firstRevisionPtr = None, m_lastRevisionPtr = None, m_flags = 0,
     m_numImportedIdentifiers = 0, m_numStatements = 0, m_numModuleIdentities = 0,
     m_nextPtr = None, m_prevPtr = None, m_prefixNodePtr = None\<rparr>"

definition addModule :: "cstr \<Rightarrow> cstr \<Rightarrow> u16 \<Rightarrow> smi \<Rightarrow> (ptr \<times> smi) option" where
  "addModule modulename path flags s = do {
     h \<leftarrow> theHandle s;
     let p = s_next s;
     let m = zero_module\<lparr>m_export := (m_export zero_module)\<lparr>sm_name := modulename, sm_path := path\<rparr>,
                         m_flags := flags, m_prevPtr := h_lastModulePtr h\<rparr>;
     ms \<leftarrow> link_last m_set_next (h_lastModulePtr h) p ((s_modules s)(p \<mapsto> m));
     s \<leftarrow> updHandle (\<lambda>h. h\<lparr>h_firstModulePtr := if_null (h_firstModulePtr h) p,
                             h_lastModulePtr := Some p\<rparr>) s;
     Some (p, s\<lparr>s_next := Suc p, s_modules := ms\<rparr>)
   }"

definition setModuleIdentityObject :: "ptr option \<Rightarrow> ptr option \<Rightarrow> smi \<Rightarrow> smi option" where
  "setModuleIdentityObject modulePtr objectPtr = updModule modulePtr (m_objectPtr_update (\<lambda>_. objectPtr))"

definition setModuleLastUpdated :: "ptr option \<Rightarrow> int \<Rightarrow> smi \<Rightarrow> smi option" where
  "setModuleLastUpdated modulePtr lastUpdated = updModule modulePtr (m_lastUpdated_update (\<lambda>_. lastUpdated))"

text \<open>The loop that cuts the newlines off the end of a string.\<close>

function chop_newlines :: "string \<Rightarrow> string" where
  "chop_newlines t = (if t \<noteq> [] \<and> last t = CHR 0x0A then chop_newlines (butlast t) else t)"
  by auto
termination by (relation "measure length") auto

declare chop_newlines.simps [simp del]

definition setModuleOrganization :: "ptr option \<Rightarrow> cstr \<Rightarrow> smi \<Rightarrow> smi option" where
  "setModuleOrganization modulePtr organization s = do {
     t \<leftarrow> organization;
     updModule modulePtr (m_export_update (sm_organization_update (\<lambda>_. Some (chop_newlines t)))) s
   }"

definition setModuleContactInfo :: "ptr option \<Rightarrow> cstr \<Rightarrow> smi \<Rightarrow> smi option" where
  "setModuleContactInfo modulePtr contactinfo =
     updModule modulePtr (m_export_update (sm_contactinfo_update (\<lambda>_. contactinfo)))"

text \<open>Descriptions and references are dropped when the parser runs with \<open>SMI_FLAG_NODESCR\<close>.\<close>

definition kept_text :: "ptr option \<Rightarrow> cstr \<Rightarrow> smi \<Rightarrow> cstr option" where
  "kept_text parserPtr t s = do {
     parser \<leftarrow> deref (s_parsers s) parserPtr;
     Some (if any_flag (p_flags parser) SMI_FLAG_NODESCR then None else t)
   }"

definition setModuleDescription :: "ptr option \<Rightarrow> cstr \<Rightarrow> ptr option \<Rightarrow> smi \<Rightarrow> smi option" where
  "setModuleDescription modulePtr description parserPtr s = do {
     d \<leftarrow> kept_text parserPtr description s;
     updModule modulePtr (m_export_update (sm_description_update (\<lambda>_. d))) s
   }"

definition setModuleReference :: "ptr option \<Rightarrow> cstr \<Rightarrow> ptr option \<Rightarrow> smi \<Rightarrow> smi option" where
  "setModuleReference modulePtr reference parserPtr s = do {
     d \<leftarrow> kept_text parserPtr reference s;
     updModule modulePtr (m_export_update (sm_reference_update (\<lambda>_. d))) s
   }"

definition findModuleByName :: "cstr \<Rightarrow> smi \<Rightarrow> ptr option option" where
  "findModuleByName modulename s = do {
     h \<leftarrow> theHandle s;
     walk (s_modules s) m_nextPtr (\<lambda>_ m. named (sm_name (m_export m)) modulename) (h_firstModulePtr h)
   }"

subsection \<open>Revisions\<close>

definition addRevision :: "int \<Rightarrow> cstr \<Rightarrow> ptr option \<Rightarrow> smi \<Rightarrow> (ptr \<times> smi) option" where
  "addRevision date description parserPtr s = do {
     let p = s_next s;
     parser \<leftarrow> deref (s_parsers s) parserPtr;
     d \<leftarrow> kept_text parserPtr description s;
     let modulePtr = p_modulePtr parser;
     let new = \<lparr>r_export = \<lparr>sr_date = date, sr_description = d\<rparr>, r_modulePtr = modulePtr,
                r_nextPtr = None, r_prevPtr = None, r_line = p_line parser\<rparr>;
     let s = s\<lparr>s_next := Suc p, s_revisions := (s_revisions s)(p \<mapsto> new)\<rparr>;
     m \<leftarrow> deref (s_modules s) modulePtr;
     r \<leftarrow> walk (s_revisions s) r_prevPtr (\<lambda>_ r. Some (sr_date (r_export r) > date)) (m_lastRevisionPtr m);
     if r \<noteq> None then do {
       rn \<leftarrow> deref (s_revisions s) r;
       s \<leftarrow> updRevision (Some p) (\<lambda>n. n\<lparr>r_nextPtr := r_nextPtr rn, r_prevPtr := r\<rparr>) s;
       s \<leftarrow> (if r_nextPtr rn \<noteq> None then updRevision (r_nextPtr rn) (r_set_prev (Some p)) s
             else updModule modulePtr (m_lastRevisionPtr_update (\<lambda>_. Some p)) s);
       s \<leftarrow> updRevision r (r_set_next (Some p)) s;
       Some (p, s)
     } else do {
       s \<leftarrow> updRevision (Some p) (r_set_prev None) s;
       s \<leftarrow> (if m_firstRevisionPtr m \<noteq> None then do {
               s \<leftarrow> updRevision (m_firstRevisionPtr m) (r_set_prev (Some p)) s;
               updRevision (Some p) (r_set_next (m_firstRevisionPtr m)) s
             } else do {
               s \<leftarrow> updModule modulePtr (m_lastRevisionPtr_update (\<lambda>_. Some p)) s;
               updRevision (Some p) (r_set_next None) s
             });
       s \<leftarrow> updModule modulePtr (m_firstRevisionPtr_update (\<lambda>_. Some p)) s;
       Some (p, s)
     }
   }"

definition setRevisionLine :: "ptr option \<Rightarrow> int \<Rightarrow> ptr option \<Rightarrow> smi \<Rightarrow> smi option" where
  "setRevisionLine revisionPtr line parserPtr s = do {
     l \<leftarrow> (if line \<noteq> 0 then Some line
           else if parserPtr \<noteq> None then map_option p_line (deref (s_parsers s) parserPtr)
           else Some (- 1));
     updRevision revisionPtr (r_line_update (\<lambda>_. l)) s
   }"

subsection \<open>Imports\<close>

definition addImport :: "cstr \<Rightarrow> ptr option \<Rightarrow> smi \<Rightarrow> (ptr \<times> smi) option" where
  "addImport name parserPtr s = do {
     let p = s_next s;
     parser \<leftarrow> deref (s_parsers s) parserPtr;
     let modulePtr = p_modulePtr parser;
     m \<leftarrow> deref (s_modules s) modulePtr;
     let new = \<lparr>i_export = \<lparr>si_module = None, si_name = name\<rparr>, i_modulePtr = modulePtr, i_flags = 0,
                i_nextPtr = None, i_prevPtr = m_lastImportPtr m, i_kind = KIND_UNKNOWN, i_use = 0,
                i_line = p_line parser\<rparr>;
     is \<leftarrow> link_last i_set_next (m_lastImportPtr m) p ((s_imports s)(p \<mapsto> new));
     s \<leftarrow> updModule modulePtr (\<lambda>m. m\<lparr>m_firstImportPtr := if_null (m_firstImportPtr m) p,
                                       m_lastImportPtr := Some p\<rparr>) s;
     Some (p, s\<lparr>s_next := Suc p, s_imports := is\<rparr>)
   }"

definition addImportFlags :: "ptr option \<Rightarrow> u16 \<Rightarrow> smi \<Rightarrow> smi option" where
  "addImportFlags importPtr flags = updImport importPtr (i_flags_update (\<lambda>f. set_flags f flags))"

definition setImportModulename :: "ptr option \<Rightarrow> cstr \<Rightarrow> smi \<Rightarrow> smi option" where
  "setImportModulename importPtr modulename =
     updImport importPtr (i_export_update (si_module_update (\<lambda>_. modulename)))"

definition findImportByName :: "cstr \<Rightarrow> ptr option \<Rightarrow> smi \<Rightarrow> ptr option option" where
  "findImportByName name modulePtr s = (
     if name = None then Some None
     else do {
       m \<leftarrow> deref (s_modules s) modulePtr;
       walk (s_imports s) i_nextPtr (\<lambda>_ i. do {
           eq \<leftarrow> streq (si_name (i_export i)) name;
           Some (eq \<and> \<not> any_flag (i_flags i) FLAG_INCOMPLIANCE)
         }) (m_firstImportPtr m)
     })"

definition findImportByModulenameAndName :: "cstr \<Rightarrow> cstr \<Rightarrow> ptr option \<Rightarrow> smi \<Rightarrow> ptr option option" where
  "findImportByModulenameAndName modulename name modulePtr s = do {
     m \<leftarrow> deref (s_modules s) modulePtr;
     walk (s_imports s) i_nextPtr (\<lambda>_ i. do {
         eq \<leftarrow> streq (si_name (i_export i)) name;
         if eq then streq (si_module (i_export i)) modulename else Some False
       }) (m_firstImportPtr m)
   }"

subsection \<open>Modules: functional behaviour\<close>

lemma chop_newlines_eq: "chop_newlines t = rev (dropWhile (\<lambda>c. c = CHR 0x0A) (rev t))"
proof (induction t rule: rev_induct)
  case Nil
  then show ?case by (simp add: chop_newlines.simps)
next
  case (snoc c t)
  then show ?case by (subst chop_newlines.simps) simp
qed

lemma chop_newlines_idem: "chop_newlines (chop_newlines t) = chop_newlines t"
  by (simp add: chop_newlines_eq dropWhile_idem)

lemma addModule_lemma:
  assumes ml: "module_list s ms" and fresh: "s_modules s (s_next s) = None"
  shows "\<exists>s'. addModule nm path fl s = Some (s_next s, s') \<and> module_list s' (ms @ [s_next s]) \<and>
    name_of_module s' = (name_of_module s)(s_next s := nm) \<and> s_next s' = Suc (s_next s)"
proof -
  let ?p = "s_next s"
  from ml obtain h where h: "theHandle s = Some h"
    and dl: "dlist m_nextPtr m_prevPtr (s_modules s) (h_firstModulePtr h) ms (h_lastModulePtr h)"
    by (auto simp: module_list_def)
  let ?n = "zero_module\<lparr>m_export := (m_export zero_module)\<lparr>sm_name := nm, sm_path := path\<rparr>,
                         m_flags := fl, m_prevPtr := h_lastModulePtr h\<rparr>"
  obtain m' where m': "link_last m_set_next (h_lastModulePtr h) ?p ((s_modules s)(?p \<mapsto> ?n)) = Some m'"
    and dl': "dlist m_nextPtr m_prevPtr m' (if_null (h_firstModulePtr h) ?p) (ms @ [?p]) (Some ?p)"
    using ml.append_tail [OF dl fresh, of ?n] by (auto simp: zero_module_def)
  have "fld (sm_name \<circ> m_export) m' = (fld (sm_name \<circ> m_export) (s_modules s))(?p := nm)"
    using ml.link_last_fld [OF m', of "sm_name \<circ> m_export"] by auto
  moreover obtain a where "smiHandle s = Some a" "s_handles s a = Some h"
    using h by (auto simp: theHandle_def deref_def split: option.splits)
  ultimately show ?thesis
    using h m' dl'
    by (auto simp: addModule_def Let_def updHandle_def module_list_def name_of_module_def theHandle_def)
qed

lemma findModuleByName_lemma:
  assumes "module_list s ms"
  shows "findModuleByName (Some nm) s = Some (List.find (\<lambda>p. name_of_module s p = Some nm) ms)"
proof -
  from assms obtain h where h: "theHandle s = Some h"
    and dl: "dlist m_nextPtr m_prevPtr (s_modules s) (h_firstModulePtr h) ms (h_lastModulePtr h)"
    by (auto simp: module_list_def)
  have "walk (s_modules s) m_nextPtr (\<lambda>_ m. named (sm_name (m_export m)) (Some nm)) (h_firstModulePtr h) =
      Some (List.find (\<lambda>p. name_of_module s p = Some nm) ms)"
    using walk_named [OF dl, of "sm_name \<circ> m_export" nm] by (simp add: name_of_module_def)
  with h show ?thesis by (simp add: findModuleByName_def)
qed

subsection \<open>Revisions: functional behaviour\<close>

text \<open>The revisions stay in descending order of their dates; a new one goes before those of the
  same date.\<close>

definition newer :: "smi \<Rightarrow> int \<Rightarrow> ptr list \<Rightarrow> ptr list" where
  "newer s d rs = rev (dropWhile (\<lambda>p. \<not> d < revision_date s p) (rev rs))"

definition not_newer :: "smi \<Rightarrow> int \<Rightarrow> ptr list \<Rightarrow> ptr list" where
  "not_newer s d rs = rev (takeWhile (\<lambda>p. \<not> d < revision_date s p) (rev rs))"

lemma newer_append: "newer s d rs @ not_newer s d rs = rs"
  unfolding newer_def not_newer_def rev_append [symmetric] by simp

lemma newer_last: "newer s d rs \<noteq> [] \<Longrightarrow> d < revision_date s (last (newer s d rs))"
  unfolding newer_def by (simp add: last_rev hd_dropWhile del: dropWhile_eq_Nil_conv)
    (metis hd_dropWhile)

lemma not_newer_le: "p \<in> set (not_newer s d rs) \<Longrightarrow> revision_date s p \<le> d"
  unfolding not_newer_def by (auto dest: set_takeWhileD)

lemma find_rev_newer:
  "List.find (\<lambda>p. d < revision_date s p) (rev rs) =
    (if newer s d rs = [] then None else Some (last (newer s d rs)))"
proof -
  define xs where "xs = dropWhile (\<lambda>p. \<not> d < revision_date s p) (rev rs)"
  have "List.find (\<lambda>p. d < revision_date s p) (rev rs) = (case xs of [] \<Rightarrow> None | c # _ \<Rightarrow> Some c)"
    by (simp add: find_dropWhile o_def xs_def)
  moreover have "newer s d rs = rev xs" by (simp add: newer_def xs_def)
  ultimately show ?thesis by (cases xs) simp_all
qed

lemma addRevision_eq:
  assumes pr: "deref (s_parsers s) parserPtr = Some pr" "p_modulePtr pr = Some mp"
    and m: "s_modules s mp = Some m"
    and dl: "dlist r_nextPtr r_prevPtr (s_revisions s) (m_firstRevisionPtr m) rs (m_lastRevisionPtr m)"
    and fresh: "s_revisions s (s_next s) = None"
    and ys: "ys = newer s d rs" and zs: "zs = not_newer s d rs"
    and b: "before = (if ys = [] then None else Some (last ys))"
    and a: "after = (if zs = [] then None else Some (hd zs))"
    and n: "n = \<lparr>r_export = \<lparr>sr_date = d, sr_description =
         (if any_flag (p_flags pr) SMI_FLAG_NODESCR then None else t)\<rparr>, r_modulePtr = Some mp,
         r_nextPtr = after, r_prevPtr = before, r_line = p_line pr\<rparr>"
  shows "addRevision d t parserPtr s = Some (s_next s, s\<lparr>s_next := Suc (s_next s),
    s_revisions := rl.spliced (s_next s) n before after (s_revisions s),
    s_modules := (s_modules s)(mp \<mapsto>
      m\<lparr>m_firstRevisionPtr := (if ys = [] then Some (s_next s) else m_firstRevisionPtr m),
        m_lastRevisionPtr := (if zs = [] then Some (s_next s) else m_lastRevisionPtr m)\<rparr>)\<rparr>)"
proof -
  define p where "p = s_next s"
  define R where "R = s_revisions s"
  define n0 where "n0 = \<lparr>r_export = \<lparr>sr_date = d, sr_description =
         (if any_flag (p_flags pr) SMI_FLAG_NODESCR then None else t)\<rparr>, r_modulePtr = Some mp,
         r_nextPtr = None, r_prevPtr = None, r_line = p_line pr\<rparr>"
  have rs: "rs = ys @ zs" using newer_append ys zs by simp
  note dl' = dl [folded R_def, unfolded rs]
  have pf: "R p = None" using fresh by (simp add: R_def p_def)
  have alloc: "\<exists>k. R c = Some k" if "c \<in> set (ys @ zs)" for c using dlist_alloc [OF dl' that] .
  have prs: "p \<notin> set (ys @ zs)" using alloc [of p] pf by auto
  have dist: "distinct (ys @ zs)" using dlist_distinct [OF dl'] .
  have f: "m_firstRevisionPtr m = (if ys @ zs = [] then None else Some (hd (ys @ zs)))"
    and l: "m_lastRevisionPtr m = (if ys @ zs = [] then None else Some (last (ys @ zs)))"
    using dlist_first [OF dl'] dlist_last [OF dl'] by simp_all
  have w: "walk (R(p \<mapsto> n0)) r_prevPtr (\<lambda>_ r. Some (sr_date (r_export r) > d)) (m_lastRevisionPtr m) =
      Some before"
  proof -
    have "dlist r_prevPtr r_nextPtr (R(p \<mapsto> n0)) (m_lastRevisionPtr m) (rev rs) (m_firstRevisionPtr m)"
      using dlist_rev [OF dl'] prs rs by (simp add: dlist_upd_other)
    then have "walk (R(p \<mapsto> n0)) r_prevPtr (\<lambda>_ r. Some (sr_date (r_export r) > d)) (m_lastRevisionPtr m) =
      Some (List.find (\<lambda>c. d < revision_date s c) (rev rs))"
      by (rule walk_dlist) (use prs rs in \<open>auto simp: revision_date_def R_def split: if_splits\<close>)
    then show ?thesis using find_rev_newer [of d s rs] ys b by simp
  qed
  have kt: "kept_text parserPtr t s =
      Some (if any_flag (p_flags pr) SMI_FLAG_NODESCR then None else t)"
    using pr by (simp add: kept_text_def)
  show ?thesis
  proof (cases "ys = []")
    case True
    then have before: "before = None" using b by simp
    show ?thesis
    proof (cases zs)
      case Nil
      then have "m_firstRevisionPtr m = None" "after = None" using f a True by simp_all
      have comm: "m\<lparr>m_lastRevisionPtr := Some p, m_firstRevisionPtr := Some p\<rparr> =
          m\<lparr>m_firstRevisionPtr := Some p, m_lastRevisionPtr := Some p\<rparr>" by (cases m) simp
      from \<open>after = None\<close> show ?thesis
        using pr m kt w [unfolded n0_def] pf True before Nil \<open>m_firstRevisionPtr m = None\<close>
        by (simp add: addRevision_def Let_def updRevision_def updModule_def n n0_def
            R_def [symmetric] p_def [symmetric] rl.spliced_eqs split del: if_split)
          (subst comm, rule refl)
    next
      case (Cons z zs')
      then have first: "m_firstRevisionPtr m = Some z" and after: "after = Some z" using f a True by simp_all
      obtain k where k: "R z = Some k" using alloc [of z] Cons by auto
      have "z \<noteq> p" using prs Cons by auto
      then show ?thesis
        using pr m kt w [unfolded n0_def] pf True before Cons first after k
        by (simp add: addRevision_def Let_def updRevision_def updModule_def n n0_def
            R_def [symmetric] p_def [symmetric] rl.spliced_eqs split del: if_split)
    qed
  next
    case False
    then have before: "before = Some (last ys)" using b by simp
    obtain k where k: "R (last ys) = Some k" using alloc [of "last ys"] False by auto
    have kn: "r_nextPtr k = after"
    proof -
      have "ys = butlast ys @ [last ys]" using False by simp
      then have "dseg r_nextPtr r_prevPtr R None (m_firstRevisionPtr m)
          (butlast ys @ last ys # zs) (m_lastRevisionPtr m) None"
        using dl' by (metis append.assoc append_Cons append_Nil dlist_def)
      then obtain q j where "dseg r_nextPtr r_prevPtr R j q (last ys # zs) (m_lastRevisionPtr m) None"
        by (auto simp: dseg_append)
      then have "dseg r_nextPtr r_prevPtr R (Some (last ys)) (r_nextPtr k) zs (m_lastRevisionPtr m) None"
        using k by auto
      then show ?thesis using dseg_first a by fastforce
    qed
    have lp: "last ys \<noteq> p" using prs False by auto
    show ?thesis
    proof (cases zs)
      case Nil
      then have "after = None" using a by simp
      then show ?thesis
        using pr m kt w [unfolded n0_def] pf False before Nil k kn lp
        by (simp add: addRevision_def Let_def updRevision_def updModule_def n n0_def
            R_def [symmetric] p_def [symmetric] rl.spliced_eqs split del: if_split)
    next
      case (Cons z zs')
      then have after: "after = Some z" using a by simp
      obtain k' where k': "R z = Some k'" using alloc [of z] Cons by auto
      have "z \<noteq> p" "z \<noteq> last ys" using prs Cons dist False by (auto dest: last_in_set)
      moreover have "(s_modules s)(mp \<mapsto> m) = s_modules s" using m by (simp add: fun_upd_idem)
      ultimately show ?thesis
        using pr m kt w [unfolded n0_def] pf False before Cons k kn lp k' after
        by (simp add: addRevision_def Let_def updRevision_def updModule_def n n0_def
            R_def [symmetric] p_def [symmetric] rl.spliced_eqs split del: if_split)
    qed
  qed
qed

lemma addRevision_lemma:
  assumes pr: "deref (s_parsers s) parserPtr = Some pr" "p_modulePtr pr = Some mp"
    and rl: "revision_list s mp rs" and fresh: "s_revisions s (s_next s) = None"
  shows "\<exists>s'. addRevision d t parserPtr s = Some (s_next s, s') \<and>
    revision_list s' mp (newer s d rs @ s_next s # not_newer s d rs) \<and>
    revision_date s' = (revision_date s)(s_next s := d)"
proof -
  define p where "p = s_next s"
  define ys where "ys = newer s d rs"
  define zs where "zs = not_newer s d rs"
  define b where "b = (if ys = [] then None else Some (last ys))"
  define a where "a = (if zs = [] then None else Some (hd zs))"
  obtain m where m: "s_modules s mp = Some m"
    and dl: "dlist r_nextPtr r_prevPtr (s_revisions s) (m_firstRevisionPtr m) rs (m_lastRevisionPtr m)"
    using rl by (auto simp: revision_list_def)
  define n where "n = \<lparr>r_export = \<lparr>sr_date = d, sr_description =
         (if any_flag (p_flags pr) SMI_FLAG_NODESCR then None else t)\<rparr>, r_modulePtr = Some mp,
         r_nextPtr = a, r_prevPtr = b, r_line = p_line pr\<rparr>"
  note eq = addRevision_eq [OF pr m dl fresh ys_def zs_def b_def a_def n_def, folded p_def]
  have rs: "rs = ys @ zs" using newer_append ys_def zs_def by simp
  have "p \<notin> set (ys @ zs)" using dlist_alloc [OF dl, of p] fresh rs by (auto simp: p_def)
  then have dl': "dlist r_nextPtr r_prevPtr (rl.spliced p n b a (s_revisions s))
      (if ys = [] then Some p else m_firstRevisionPtr m) (ys @ p # zs)
      (if zs = [] then Some p else m_lastRevisionPtr m)"
    by (intro rl.dlist_spliced) (use dl rs in \<open>simp_all add: b_def a_def n_def\<close>)
  define sp where "sp = rl.spliced p n b a (s_revisions s)"
  have "revision_date s' = (revision_date s)(p := d)" if "s_revisions s' = sp" for s'
  proof
    fix q
    have "map_option (sr_date \<circ> r_export) (sp q) = map_option (sr_date \<circ> r_export) (s_revisions s q)"
      if "q \<noteq> p" unfolding sp_def using that by (intro rl.spliced_data) auto
    moreover have "sp p = Some n" by (simp add: sp_def)
    ultimately show "revision_date s' q = ((revision_date s)(p := d)) q"
      using that by (cases "q = p") (auto simp: revision_date_def n_def split: option.splits)
  qed
  then show ?thesis using eq dl' [folded sp_def] unfolding sp_def [symmetric] p_def [symmetric]
    by (simp add: revision_list_def ys_def zs_def)
qed

lemma addRevision_sorted:
  assumes "sorted (rev (map (revision_date s) rs))" and "p \<notin> set rs"
  shows "sorted (rev (map ((revision_date s)(p := d)) (newer s d rs @ p # not_newer s d rs)))"
proof -
  define ys where "ys = newer s d rs"
  define zs where "zs = not_newer s d rs"
  have rs: "rs = ys @ zs" using newer_append ys_def zs_def by simp
  have eq: "map ((revision_date s)(p := d)) ys = map (revision_date s) ys"
    "map ((revision_date s)(p := d)) zs = map (revision_date s) zs"
    using assms(2) rs by (auto intro!: map_cong)
  have z: "revision_date s q \<le> d" if "q \<in> set zs" for q
    using not_newer_le that unfolding zs_def .
  have sr: "sorted (rev (map (revision_date s) ys))" "sorted (rev (map (revision_date s) zs))"
    using assms(1) unfolding rs by (simp_all add: sorted_append)
  have y: "d \<le> revision_date s q" if "q \<in> set ys" for q
  proof -
    have ne: "ys \<noteq> []" using that by auto
    then have l: "d < revision_date s (last ys)" using newer_last ys_def by simp
    have "ys = butlast ys @ [last ys]" using ne by simp
    then have "rev (map (revision_date s) ys) =
        revision_date s (last ys) # rev (map (revision_date s) (butlast ys))"
      by (metis (no_types) list.simps(8,9) map_append rev_eq_Cons_iff rev_rev_ident)
    moreover have "revision_date s q \<in> set (rev (map (revision_date s) ys))" using that by simp
    ultimately have "revision_date s (last ys) \<le> revision_date s q"
      using sr(1) by auto
    then show ?thesis using l by simp
  qed
  have "map ((revision_date s)(p := d)) (ys @ p # zs) =
      map (revision_date s) ys @ d # map (revision_date s) zs" by (simp only: map_append list.map eq fun_upd_same)
  then have eq': "rev (map ((revision_date s)(p := d)) (ys @ p # zs)) =
      rev (map (revision_date s) zs) @ d # rev (map (revision_date s) ys)" by simp
  have join: "sorted (us @ d # vs)" if "sorted us" "sorted vs" "\<forall>u \<in> set us. u \<le> d"
    "\<forall>v \<in> set vs. d \<le> v" for us vs :: "int list"
    using that by (force simp: sorted_append)
  show ?thesis
    unfolding ys_def [symmetric] zs_def [symmetric] eq'
    by (rule join) (use sr y z in simp_all)
qed

subsection \<open>Imports: functional behaviour\<close>

lemma addImport_lemma:
  assumes pr: "deref (s_parsers s) parserPtr = Some pr" "p_modulePtr pr = Some mp"
    and il: "import_list s mp xs" and fresh: "s_imports s (s_next s) = None"
  shows "\<exists>s'. addImport nm parserPtr s = Some (s_next s, s') \<and>
    import_list s' mp (xs @ [s_next s]) \<and> import_name s' = (import_name s)(s_next s := nm) \<and>
    import_module s' = (import_module s)(s_next s := None)"
proof -
  let ?p = "s_next s"
  obtain m where m: "s_modules s mp = Some m"
    and dl: "dlist i_nextPtr i_prevPtr (s_imports s) (m_firstImportPtr m) xs (m_lastImportPtr m)"
    using il by (auto simp: import_list_def)
  define n where "n = \<lparr>i_export = \<lparr>si_module = None, si_name = nm\<rparr>, i_modulePtr = Some mp, i_flags = 0,
      i_nextPtr = None, i_prevPtr = m_lastImportPtr m, i_kind = KIND_UNKNOWN, i_use = 0,
      i_line = p_line pr\<rparr>"
  obtain is' where is': "link_last i_set_next (m_lastImportPtr m) ?p ((s_imports s)(?p \<mapsto> n)) = Some is'"
    and dl': "dlist i_nextPtr i_prevPtr is' (if_null (m_firstImportPtr m) ?p) (xs @ [?p]) (Some ?p)"
    using il.append_tail [OF dl fresh, of n] by (auto simp: n_def)
  have "fld (si_name \<circ> i_export) is' = (fld (si_name \<circ> i_export) (s_imports s))(?p := nm)"
    using il.link_last_fld [OF is', of "si_name \<circ> i_export"] by (auto simp: n_def)
  moreover have "fld (si_module \<circ> i_export) is' = (fld (si_module \<circ> i_export) (s_imports s))(?p := None)"
    using il.link_last_fld [OF is', of "si_module \<circ> i_export"] by (auto simp: n_def)
  ultimately show ?thesis
    using pr m is' dl' unfolding n_def
    by (simp add: addImport_def Let_def updModule_def import_list_def import_name_def import_module_def)
qed

lemma findImportByModulenameAndName_lemma:
  assumes il: "import_list s mp xs"
    and nm: "\<And>p. p \<in> set xs \<Longrightarrow> import_name s p \<noteq> None"
    and md: "\<And>p. p \<in> set xs \<Longrightarrow> import_module s p \<noteq> None"
  shows "findImportByModulenameAndName (Some md) (Some nm) (Some mp) s =
    Some (List.find (\<lambda>p. import_name s p = Some nm \<and> import_module s p = Some md) xs)"
proof -
  obtain m where m: "s_modules s mp = Some m"
    and dl: "dlist i_nextPtr i_prevPtr (s_imports s) (m_firstImportPtr m) xs (m_lastImportPtr m)"
    using il by (auto simp: import_list_def)
  have "walk (s_imports s) i_nextPtr (\<lambda>_ i. do {
         eq \<leftarrow> streq (si_name (i_export i)) (Some nm);
         if eq then streq (si_module (i_export i)) (Some md) else Some False
       }) (m_firstImportPtr m) =
    Some (List.find (\<lambda>p. import_name s p = Some nm \<and> import_module s p = Some md) xs)"
    using dl
  proof (rule walk_dlist)
    fix x n assume "x \<in> set xs" and "s_imports s x = Some n"
    then show "do { eq \<leftarrow> streq (si_name (i_export n)) (Some nm);
         if eq then streq (si_module (i_export n)) (Some md) else Some False } =
      Some (import_name s x = Some nm \<and> import_module s x = Some md)"
      using nm [of x] md [of x] by (auto simp: import_name_def import_module_def)
  qed
  with m show ?thesis by (simp add: findImportByModulenameAndName_def)
qed

end
