(* ===== verification/Smi_Object.thy ===== *)
theory Smi_Object
  imports Smi_Module
begin

section \<open>Objects\<close>

text \<open>
  \<^verbatim>\<open>smi-data.c\<close>: an object is a named definition at a node of the object identifier tree.  It is in
  two lists at once: the objects of its module (\<open>nextPtr\<close>, \<open>prevPtr\<close>) and the objects of its
  node (\<open>nextSameNodePtr\<close>, \<open>prevSameNodePtr\<close>).
\<close>

subsection \<open>Links\<close>

abbreviation (input) o_set_next :: "ptr option \<Rightarrow> Object \<Rightarrow> Object" where
  "o_set_next v \<equiv> o_nextPtr_update (\<lambda>_. v)"

abbreviation (input) o_set_prev :: "ptr option \<Rightarrow> Object \<Rightarrow> Object" where
  "o_set_prev v \<equiv> o_prevPtr_update (\<lambda>_. v)"

abbreviation (input) o_set_nextSame :: "ptr option \<Rightarrow> Object \<Rightarrow> Object" where
  "o_set_nextSame v \<equiv> o_nextSameNodePtr_update (\<lambda>_. v)"

abbreviation (input) o_set_prevSame :: "ptr option \<Rightarrow> Object \<Rightarrow> Object" where
  "o_set_prevSame v \<equiv> o_prevSameNodePtr_update (\<lambda>_. v)"

interpretation ol: linked_struct o_nextPtr o_prevPtr o_set_next o_set_prev
  by unfold_locales simp_all

interpretation sl: linked_struct o_nextSameNodePtr o_prevSameNodePtr o_set_nextSame o_set_prevSame
  by unfold_locales simp_all

definition object_list :: "smi \<Rightarrow> ptr \<Rightarrow> ptr list \<Rightarrow> bool" where
  "object_list s mp xs \<longleftrightarrow> (\<exists>m. s_modules s mp = Some m \<and>
     dlist o_nextPtr o_prevPtr (s_objects s) (m_firstObjectPtr m) xs (m_lastObjectPtr m))"

definition node_objects :: "smi \<Rightarrow> ptr \<Rightarrow> ptr list \<Rightarrow> bool" where
  "node_objects s q xs \<longleftrightarrow> (\<exists>n. s_nodes s q = Some n \<and>
     dlist o_nextSameNodePtr o_prevSameNodePtr (s_objects s) (n_firstObjectPtr n) xs (n_lastObjectPtr n))"

definition object_name :: "smi \<Rightarrow> ptr \<Rightarrow> cstr" where
  "object_name s = fld (sn_name \<circ> o_export) (s_objects s)"

definition object_node :: "smi \<Rightarrow> ptr \<Rightarrow> ptr option" where
  "object_node s = fld o_nodePtr (s_objects s)"

definition object_module :: "smi \<Rightarrow> ptr \<Rightarrow> ptr option" where
  "object_module s = fld o_modulePtr (s_objects s)"

subsection \<open>Creation\<close>

definition zero_object :: Object where
  "zero_object = \<lparr>o_export = \<lparr>sn_name = None, sn_oidlen = 0, sn_oid = None,
       sn_decl = SMI_DECL_UNKNOWN, sn_access = SMI_ACCESS_UNKNOWN, sn_status = SMI_STATUS_UNKNOWN,
       sn_format = None, sn_value = zero_value, sn_units = None, sn_description = None,
       sn_reference = None, sn_indexkind = SMI_INDEX_UNKNOWN, sn_implied = 0, sn_create = 0,
       sn_nodekind = SMI_NODEKIND_UNKNOWN\<rparr>,
     o_modulePtr = None, o_flags = 0, o_typePtr = None, o_relatedPtr = None, o_listPtr = None,
     o_optionlistPtr = None, o_refinementlistPtr = None, o_nodePtr = None, o_prevPtr = None,
     o_nextPtr = None, o_prevSameNodePtr = None, o_nextSameNodePtr = None,
     o_uniquenessPtr = None, o_line = 0\<rparr>"

text \<open>Both constructors append the new object to its module, if it has one, and to a node that
  has objects already.\<close>

definition link_object_module :: "ptr \<Rightarrow> ptr option \<Rightarrow> smi \<Rightarrow> smi option" where
  "link_object_module p modulePtr s = (
     if modulePtr \<noteq> None then do {
       m \<leftarrow> deref (s_modules s) modulePtr;
       s \<leftarrow> updObject (Some p) (o_set_prev (m_lastObjectPtr m)) s;
       os \<leftarrow> link_last o_set_next (m_lastObjectPtr m) p (s_objects s);
       updModule modulePtr (\<lambda>m. m\<lparr>m_firstObjectPtr := if_null (m_firstObjectPtr m) p,
         m_lastObjectPtr := Some p\<rparr>) (s\<lparr>s_objects := os\<rparr>)
     } else updObject (Some p) (o_set_prev None) s)"

definition link_object_node :: "ptr \<Rightarrow> ptr option \<Rightarrow> smi \<Rightarrow> smi option" where
  "link_object_node p nodePtr s = do {
     n \<leftarrow> deref (s_nodes s) nodePtr;
     s \<leftarrow> updObject (Some p) (o_set_prevSame (n_lastObjectPtr n)) s;
     os \<leftarrow> link_last o_set_nextSame (n_lastObjectPtr n) p (s_objects s);
     updNode nodePtr (\<lambda>n. n\<lparr>n_firstObjectPtr := if_null (n_firstObjectPtr n) p,
       n_lastObjectPtr := Some p\<rparr>) (s\<lparr>s_objects := os\<rparr>)
   }"

text \<open>The test for a parser guards the reads of \<open>modulePtr\<close> and \<open>line\<close>, but not the later read of
  \<open>pendingNodePtr\<close>.\<close>

definition addObject :: "cstr \<Rightarrow> ptr option \<Rightarrow> SmiSubid \<Rightarrow> u16 \<Rightarrow> ptr option \<Rightarrow> smi \<Rightarrow> (ptr \<times> smi) option" where
  "addObject objectname parentNodePtr subid flags parserPtr s = do {
     let p = s_next s;
     modulePtr \<leftarrow> (if parserPtr \<noteq> None then map_option p_modulePtr (deref (s_parsers s) parserPtr)
                   else Some None);
     line \<leftarrow> (if parserPtr \<noteq> None then map_option p_line (deref (s_parsers s) parserPtr)
              else Some (- 1));
     let obj = zero_object\<lparr>o_export := (o_export zero_object)\<lparr>sn_name := objectname\<rparr>,
                           o_modulePtr := modulePtr, o_flags := flags, o_line := line\<rparr>;
     let s = s\<lparr>s_next := Suc p, s_objects := (s_objects s)(p \<mapsto> obj)\<rparr>;
     s \<leftarrow> link_object_module p modulePtr s;
     nodePtr \<leftarrow> findNodeByParentAndSubid parentNodePtr subid s;
     parser \<leftarrow> deref (s_parsers s) parserPtr;
     (nodePtr, s) \<leftarrow> (
       if parentNodePtr = p_pendingNodePtr parser \<or> nodePtr = None then do {
         (q, s) \<leftarrow> addNode parentNodePtr subid flags s;
         s \<leftarrow> updNode (Some q) (\<lambda>n. n\<lparr>n_firstObjectPtr := Some p, n_lastObjectPtr := Some p\<rparr>) s;
         Some (Some q, s)
       } else do {
         s \<leftarrow> link_object_node p nodePtr s;
         Some (nodePtr, s)
       });
     s \<leftarrow> updObject (Some p) (o_nodePtr_update (\<lambda>_. nodePtr)) s;
     Some (p, s)
   }"

definition duplicateObject :: "ptr option \<Rightarrow> u16 \<Rightarrow> ptr option \<Rightarrow> smi \<Rightarrow> (ptr \<times> smi) option" where
  "duplicateObject templatePtr flags parserPtr s = do {
     let p = s_next s;
     parser \<leftarrow> deref (s_parsers s) parserPtr;
     template \<leftarrow> deref (s_objects s) templatePtr;
     let nodePtr = o_nodePtr template;
     let obj = zero_object\<lparr>o_modulePtr := p_modulePtr parser, o_nodePtr := nodePtr, o_flags := flags,
                           o_line := p_line parser\<rparr>;
     let s = s\<lparr>s_next := Suc p, s_objects := (s_objects s)(p \<mapsto> obj)\<rparr>;
     s \<leftarrow> link_object_module p (p_modulePtr parser) s;
     s \<leftarrow> link_object_node p nodePtr s;
     s \<leftarrow> updObject (Some p) (o_nodePtr_update (\<lambda>_. nodePtr)) s;
     Some (p, s)
   }"

subsection \<open>Attributes\<close>

definition setObjectType :: "ptr option \<Rightarrow> ptr option \<Rightarrow> smi \<Rightarrow> smi option" where
  "setObjectType objectPtr typePtr = updObject objectPtr (o_typePtr_update (\<lambda>_. typePtr))"

definition setObjectAccess :: "ptr option \<Rightarrow> SmiAccess \<Rightarrow> smi \<Rightarrow> smi option" where
  "setObjectAccess objectPtr access = updObject objectPtr (o_export_update (sn_access_update (\<lambda>_. access)))"

definition setObjectStatus :: "ptr option \<Rightarrow> SmiStatus \<Rightarrow> smi \<Rightarrow> smi option" where
  "setObjectStatus objectPtr status = updObject objectPtr (o_export_update (sn_status_update (\<lambda>_. status)))"

definition setObjectFormat :: "ptr option \<Rightarrow> cstr \<Rightarrow> smi \<Rightarrow> smi option" where
  "setObjectFormat objectPtr format = updObject objectPtr (o_export_update (sn_format_update (\<lambda>_. format)))"

definition setObjectUnits :: "ptr option \<Rightarrow> cstr \<Rightarrow> smi \<Rightarrow> smi option" where
  "setObjectUnits objectPtr units = updObject objectPtr (o_export_update (sn_units_update (\<lambda>_. units)))"

definition setObjectDecl :: "ptr option \<Rightarrow> SmiDecl \<Rightarrow> smi \<Rightarrow> smi option" where
  "setObjectDecl objectPtr decl = updObject objectPtr (o_export_update (sn_decl_update (\<lambda>_. decl)))"

definition setObjectNodekind :: "ptr option \<Rightarrow> SmiNodekind \<Rightarrow> smi \<Rightarrow> smi option" where
  "setObjectNodekind objectPtr nodekind = updObject objectPtr (o_export_update (sn_nodekind_update (\<lambda>_. nodekind)))"

definition setObjectList :: "ptr option \<Rightarrow> ptr option \<Rightarrow> smi \<Rightarrow> smi option" where
  "setObjectList objectPtr listPtr = updObject objectPtr (o_listPtr_update (\<lambda>_. listPtr))"

definition setObjectRelated :: "ptr option \<Rightarrow> ptr option \<Rightarrow> smi \<Rightarrow> smi option" where
  "setObjectRelated objectPtr relatedPtr = updObject objectPtr (o_relatedPtr_update (\<lambda>_. relatedPtr))"

definition setObjectImplied :: "ptr option \<Rightarrow> int \<Rightarrow> smi \<Rightarrow> smi option" where
  "setObjectImplied objectPtr implied = updObject objectPtr (o_export_update (sn_implied_update (\<lambda>_. implied)))"

definition setObjectCreate :: "ptr option \<Rightarrow> int \<Rightarrow> smi \<Rightarrow> smi option" where
  "setObjectCreate objectPtr create = updObject objectPtr (o_export_update (sn_create_update (\<lambda>_. create)))"

definition setObjectIndexkind :: "ptr option \<Rightarrow> SmiIndexkind \<Rightarrow> smi \<Rightarrow> smi option" where
  "setObjectIndexkind objectPtr indexkind = updObject objectPtr (o_export_update (sn_indexkind_update (\<lambda>_. indexkind)))"

definition setObjectValue :: "ptr option \<Rightarrow> SmiValue \<Rightarrow> smi \<Rightarrow> smi option" where
  "setObjectValue objectPtr value = updObject objectPtr (o_export_update (sn_value_update (\<lambda>_. value)))"

definition setObjectUniqueness :: "ptr option \<Rightarrow> ptr option \<Rightarrow> smi \<Rightarrow> smi option" where
  "setObjectUniqueness objectPtr listPtr = updObject objectPtr (o_uniquenessPtr_update (\<lambda>_. listPtr))"

definition setObjectDescription :: "ptr option \<Rightarrow> cstr \<Rightarrow> ptr option \<Rightarrow> smi \<Rightarrow> smi option" where
  "setObjectDescription objectPtr description parserPtr s = do {
     d \<leftarrow> kept_text parserPtr description s;
     updObject objectPtr (o_export_update (sn_description_update (\<lambda>_. d))) s
   }"

definition setObjectReference :: "ptr option \<Rightarrow> cstr \<Rightarrow> ptr option \<Rightarrow> smi \<Rightarrow> smi option" where
  "setObjectReference objectPtr reference parserPtr s = do {
     d \<leftarrow> kept_text parserPtr reference s;
     updObject objectPtr (o_export_update (sn_reference_update (\<lambda>_. d))) s
   }"

definition given_line :: "int \<Rightarrow> ptr option \<Rightarrow> smi \<Rightarrow> int option" where
  "given_line line parserPtr s = (
     if line \<noteq> 0 then Some line
     else if parserPtr \<noteq> None then map_option p_line (deref (s_parsers s) parserPtr)
     else Some (- 1))"

definition setObjectLine :: "ptr option \<Rightarrow> int \<Rightarrow> ptr option \<Rightarrow> smi \<Rightarrow> smi option" where
  "setObjectLine objectPtr line parserPtr s = do {
     l \<leftarrow> given_line line parserPtr s;
     updObject objectPtr (o_line_update (\<lambda>_. l)) s
   }"

definition addObjectFlags :: "ptr option \<Rightarrow> u16 \<Rightarrow> smi \<Rightarrow> smi option" where
  "addObjectFlags objectPtr flags = updObject objectPtr (o_flags_update (\<lambda>f. set_flags f flags))"

definition deleteObjectFlags :: "ptr option \<Rightarrow> u16 \<Rightarrow> smi \<Rightarrow> smi option" where
  "deleteObjectFlags objectPtr flags = updObject objectPtr (o_flags_update (\<lambda>f. clear_flags f flags))"

definition checkObjectFlags :: "ptr option \<Rightarrow> u16 \<Rightarrow> smi \<Rightarrow> bool option" where
  "checkObjectFlags objectPtr flags s =
     map_option (\<lambda>n. has_flags (o_flags n) flags) (deref (s_objects s) objectPtr)"

subsection \<open>Searches\<close>

text \<open>The module an object belongs to.\<close>

definition objectModule :: "Object \<Rightarrow> smi \<Rightarrow> Module option" where
  "objectModule n s = deref (s_modules s) (o_modulePtr n)"

definition findObjectByNode :: "ptr option \<Rightarrow> smi \<Rightarrow> ptr option option" where
  "findObjectByNode nodePtr s = do {
     n \<leftarrow> deref (s_nodes s) nodePtr;
     good \<leftarrow> walk_fold (s_objects s) o_nextSameNodePtr (\<lambda>a ob good. do {
         m \<leftarrow> objectModule ob s;
         v \<leftarrow> isInView (sm_name (m_export m)) s;
         if v then (
           if good = None then Some (Some a)
           else do {
             g \<leftarrow> deref (s_objects s) good;
             gm \<leftarrow> objectModule g s;
             if sm_language (m_export m) > sm_language (m_export gm) then Some (Some a) else Some good
           })
         else Some good
       }) (n_firstObjectPtr n) None;
     Some (if good \<noteq> None then good else n_firstObjectPtr n)
   }"

definition findObjectByModuleAndNode :: "ptr option \<Rightarrow> ptr option \<Rightarrow> smi \<Rightarrow> ptr option option" where
  "findObjectByModuleAndNode modulePtr nodePtr s = do {
     n \<leftarrow> deref (s_nodes s) nodePtr;
     walk (s_objects s) o_nextSameNodePtr (\<lambda>_ ob. Some (o_modulePtr ob = modulePtr)) (n_firstObjectPtr n)
   }"

definition findObjectByModulenameAndNode :: "cstr \<Rightarrow> ptr option \<Rightarrow> smi \<Rightarrow> ptr option option" where
  "findObjectByModulenameAndNode modulename nodePtr s = do {
     n \<leftarrow> deref (s_nodes s) nodePtr;
     walk (s_objects s) o_nextSameNodePtr (\<lambda>_ ob. do {
         m \<leftarrow> objectModule ob s;
         streq (sm_name (m_export m)) modulename
       }) (n_firstObjectPtr n)
   }"

text \<open>The loop over the objects of one module, used by all the searches by name.\<close>

definition objects_named :: "smi \<Rightarrow> cstr \<Rightarrow> Module \<Rightarrow> ptr option option" where
  "objects_named s objectname m =
     walk (s_objects s) o_nextPtr (\<lambda>_ ob. named (sn_name (o_export ob)) objectname) (m_firstObjectPtr m)"

definition findObjectByName :: "cstr \<Rightarrow> smi \<Rightarrow> ptr option option" where
  "findObjectByName objectname s = do {
     h \<leftarrow> theHandle s;
     walk_first (s_modules s) m_nextPtr (\<lambda>_ m. objects_named s objectname m) (h_firstModulePtr h)
   }"

definition findNextObjectByName :: "cstr \<Rightarrow> ptr option \<Rightarrow> smi \<Rightarrow> ptr option option" where
  "findNextObjectByName objectname prevObjectPtr s = do {
     prev \<leftarrow> deref (s_objects s) prevObjectPtr;
     pm \<leftarrow> objectModule prev s;
     walk_first (s_modules s) m_nextPtr (\<lambda>_ m. objects_named s objectname m) (m_nextPtr pm)
   }"

text \<open>The names of the well-known roots are found in any module.\<close>

definition root_name :: "cstr \<Rightarrow> bool option" where
  "root_name nm = do {
     a \<leftarrow> streq nm (Some ''iso'');
     b \<leftarrow> streq nm (Some ''ccitt'');
     c \<leftarrow> streq nm (Some ''joint-iso-ccitt'');
     Some (a \<or> b \<or> c)
   }"

definition findObjectByModuleAndName :: "ptr option \<Rightarrow> cstr \<Rightarrow> smi \<Rightarrow> ptr option option" where
  "findObjectByModuleAndName modulePtr objectname s = (
     if objectname = None then Some None
     else do {
       r \<leftarrow> (if modulePtr \<noteq> None then do {
              m \<leftarrow> deref (s_modules s) modulePtr;
              objects_named s objectname m
            } else Some None);
       if r \<noteq> None then Some r
       else do {
         root \<leftarrow> root_name objectname;
         if root then findObjectByName objectname s else Some None
       }
     })"

definition findObjectByModulenameAndName :: "cstr \<Rightarrow> cstr \<Rightarrow> smi \<Rightarrow> ptr option option" where
  "findObjectByModulenameAndName modulename objectname s = (
     if objectname = None then Some None
     else do {
       modulePtr \<leftarrow> findModuleByName modulename s;
       findObjectByModuleAndName modulePtr objectname s
     })"

subsection \<open>What the operations leave alone\<close>

text \<open>The tree invariant reads only the links and sub identifiers of the nodes, the handle, the
  parser and the next free address.\<close>

definition node_links :: "Node \<Rightarrow> SmiSubid \<times> ptr option \<times> ptr option \<times> ptr option \<times> ptr option \<times>
    ptr option" where
  "node_links n = (n_subid n, n_parentPtr n, n_nextPtr n, n_prevPtr n, n_firstChildPtr n,
     n_lastChildPtr n)"

lemma node_links_D:
  assumes "map_option node_links (m' p) = map_option node_links (m p)"
  shows "map_option n_nextPtr (m' p) = map_option n_nextPtr (m p)"
    and "map_option n_prevPtr (m' p) = map_option n_prevPtr (m p)"
    and "map_option n_firstChildPtr (m' p) = map_option n_firstChildPtr (m p)"
    and "map_option n_lastChildPtr (m' p) = map_option n_lastChildPtr (m p)"
    and "subid_in m' p = subid_in m p" and "parent_in m' p = parent_in m p"
  using assms
  by (cases "m p"; cases "m' p"; simp add: node_links_def subid_in_def parent_in_def)+

lemma tree_ok_cong:
  assumes links: "\<And>p. map_option node_links (m' p) = map_option node_links (m p)"
    and ok: "tree_ok m ch path"
  shows "tree_ok m' ch path"
proof -
  note D = node_links_D [where m' = m' and m = m, OF links]
  have sub: "subid_in m' = subid_in m" and par: "parent_in m' = parent_in m"
    by (rule ext, rule D)+
  have dl: "dlist n_nextPtr n_prevPtr m' f xs l = dlist n_nextPtr n_prevPtr m f xs l" for f xs l
    unfolding dlist_def by (rule dseg_cong) (rule D)+
  show ?thesis
    unfolding tree_ok_def
  proof (intro conjI allI impI)
    fix p n assume n: "m' p = Some n"
    then obtain k where k: "m p = Some k" using links [of p] by (cases "m p") auto
    have "n_firstChildPtr n = n_firstChildPtr k" "n_lastChildPtr n = n_lastChildPtr k"
      using D(3,4) [of p] n k by simp_all
    then show "dlist n_nextPtr n_prevPtr m' (n_firstChildPtr n) (ch p) (n_lastChildPtr n)"
      using tree_okD(1) [OF ok k] dl by simp
    show "sorted (map (subid_in m') (ch p))" using tree_okD(2) [OF ok k] sub by simp
    show "\<forall>c \<in> set (ch p). parent_in m' c = Some p \<and> path c = path p @ [subid_in m' c]"
      using tree_okD(3,4) [OF ok k] sub par by simp
  next
    fix p assume "m' p = None"
    then have "m p = None" using links [of p] by simp
    then show "ch p = []" using ok by (simp add: tree_ok_def)
  qed
qed

lemma oid_inv_cong:
  assumes inv: "oid_inv s ch path root pend"
    and links: "\<And>p. map_option node_links (s_nodes s' p) = map_option node_links (s_nodes s p)"
    and h: "theHandle s' = theHandle s" and ps: "s_parsers s' = s_parsers s"
    and nxt: "s_next s \<le> s_next s'"
  shows "oid_inv s' ch path root pend"
proof -
  have sub: "subid_in (s_nodes s') = subid_in (s_nodes s)"
    and par: "parent_in (s_nodes s') = parent_in (s_nodes s)"
    by (rule ext, rule node_links_D [where m = "s_nodes s"], rule links)+
  have dom: "s_nodes s' p = None \<longleftrightarrow> s_nodes s p = None" for p
    using links [of p] by (metis option.map_disc_iff)
  have "tree_ok (s_nodes s') ch path" by (rule tree_ok_cong [OF links oid_invD(1) [OF inv]])
  then show ?thesis
    using inv nxt unfolding oid_inv_def live_parser_def sub par h ps dom by simp
qed

text \<open>An object without the links of one of its lists.\<close>

definition off_module :: "Object \<Rightarrow> Object" where
  "off_module n = n\<lparr>o_nextPtr := None, o_prevPtr := None\<rparr>"

definition off_node :: "Object \<Rightarrow> Object" where
  "off_node n = n\<lparr>o_nextSameNodePtr := None, o_prevSameNodePtr := None\<rparr>"

lemma off_module_D:
  assumes "off_module n = k"
  shows "o_export n = o_export k" "o_nextSameNodePtr n = o_nextSameNodePtr k"
    "o_prevSameNodePtr n = o_prevSameNodePtr k" "o_nodePtr n = o_nodePtr k"
    "o_modulePtr n = o_modulePtr k"
  using assms by (auto simp: off_module_def)

lemma off_node_D:
  assumes "off_node n = off_node k"
  shows "o_export n = o_export k" "o_nextPtr n = o_nextPtr k" "o_prevPtr n = o_prevPtr k"
    "o_nodePtr n = o_nodePtr k" "o_modulePtr n = o_modulePtr k"
  using assms by (cases n, cases k, simp add: off_node_def)+

lemma off_module_map:
  assumes "map_option off_module (os y) = map_option off_module (os' y)"
    and "\<And>n. sel n = sel (off_module n)"
  shows "map_option sel (os y) = map_option sel (os' y)"
proof -
  have "map_option sel (os y) = map_option sel (map_option off_module (os y))"
    and "map_option sel (os' y) = map_option sel (map_option off_module (os' y))"
    by (simp_all add: option.map_comp o_def assms(2) [symmetric])
  then show ?thesis using assms(1) by simp
qed

lemma off_node_map:
  assumes "map_option off_node (os y) = map_option off_node (os' y)"
    and "\<And>n. sel n = sel (off_node n)"
  shows "map_option sel (os y) = map_option sel (os' y)"
proof -
  have "map_option sel (os y) = map_option sel (map_option off_node (os y))"
    and "map_option sel (os' y) = map_option sel (map_option off_node (os' y))"
    by (simp_all add: option.map_comp o_def assms(2) [symmetric])
  then show ?thesis using assms(1) by simp
qed

subsection \<open>Linking an object in\<close>

lemma link_object_module_eq:
  assumes m: "s_modules s mp = Some m" and p: "s_objects s p = Some ob" "o_nextPtr ob = None"
    and dl: "dlist o_nextPtr o_prevPtr (s_objects s) (m_firstObjectPtr m) xs (m_lastObjectPtr m)"
    and notin: "p \<notin> set xs"
  obtains os where "link_object_module p (Some mp) s = Some (s\<lparr>s_objects := os,
      s_modules := (s_modules s)(mp \<mapsto> m\<lparr>m_firstObjectPtr := if_null (m_firstObjectPtr m) p,
        m_lastObjectPtr := Some p\<rparr>)\<rparr>)"
    and "dlist o_nextPtr o_prevPtr os (if_null (m_firstObjectPtr m) p) (xs @ [p]) (Some p)"
    and "\<And>y. map_option off_module (os y) = map_option off_module (s_objects s y)"
proof -
  define n where "n = ob\<lparr>o_prevPtr := m_lastObjectPtr m\<rparr>"
  define M where "M = (s_objects s)(p := None)"
  have Mp: "M(p \<mapsto> n) = (s_objects s)(p \<mapsto> n)" by (simp add: M_def)
  have "dlist o_nextPtr o_prevPtr M (m_firstObjectPtr m) xs (m_lastObjectPtr m)"
    using dl notin by (simp add: M_def dlist_del_other)
  from ol.append_tail [OF this, of p n] obtain os where
    os: "link_last o_set_next (m_lastObjectPtr m) p (M(p \<mapsto> n)) = Some os"
    and dl': "dlist o_nextPtr o_prevPtr os (if_null (m_firstObjectPtr m) p) (xs @ [p]) (Some p)"
    using p by (auto simp: n_def M_def)
  have "map_option off_module (os y) = map_option off_module (s_objects s y)" for y
    using ol.link_last_data [OF os, of off_module y] p
    by (cases "y = p") (auto simp: off_module_def M_def n_def)
  note data = this
  show thesis
    by (rule that [OF _ dl' data])
      (use os [unfolded Mp, unfolded n_def] m p in \<open>simp add: link_object_module_def updObject_def updModule_def\<close>)
qed

lemma link_object_node_eq:
  assumes m: "s_nodes s q = Some k" and p: "s_objects s p = Some ob" "o_nextSameNodePtr ob = None"
    and dl: "dlist o_nextSameNodePtr o_prevSameNodePtr (s_objects s) (n_firstObjectPtr k) xs (n_lastObjectPtr k)"
    and notin: "p \<notin> set xs"
  obtains os where "link_object_node p (Some q) s = Some (s\<lparr>s_objects := os,
      s_nodes := (s_nodes s)(q \<mapsto> k\<lparr>n_firstObjectPtr := if_null (n_firstObjectPtr k) p,
        n_lastObjectPtr := Some p\<rparr>)\<rparr>)"
    and "dlist o_nextSameNodePtr o_prevSameNodePtr os (if_null (n_firstObjectPtr k) p) (xs @ [p]) (Some p)"
    and "\<And>y. map_option off_node (os y) = map_option off_node (s_objects s y)"
proof -
  define n where "n = ob\<lparr>o_prevSameNodePtr := n_lastObjectPtr k\<rparr>"
  define M where "M = (s_objects s)(p := None)"
  have Mp: "M(p \<mapsto> n) = (s_objects s)(p \<mapsto> n)" by (simp add: M_def)
  have "dlist o_nextSameNodePtr o_prevSameNodePtr M (n_firstObjectPtr k) xs (n_lastObjectPtr k)"
    using dl notin by (simp add: M_def dlist_del_other)
  from sl.append_tail [OF this, of p n] obtain os where
    os: "link_last o_set_nextSame (n_lastObjectPtr k) p (M(p \<mapsto> n)) = Some os"
    and dl': "dlist o_nextSameNodePtr o_prevSameNodePtr os (if_null (n_firstObjectPtr k) p) (xs @ [p]) (Some p)"
    using p by (auto simp: n_def M_def)
  have "map_option off_node (os y) = map_option off_node (s_objects s y)" for y
    using sl.link_last_data [OF os, of off_node y] p
    by (cases "y = p") (auto simp: off_node_def M_def n_def)
  note data = this
  show thesis
    by (rule that [OF _ dl' data])
      (use os [unfolded Mp, unfolded n_def] m p in \<open>simp add: link_object_node_def updObject_def updNode_def\<close>)
qed

text \<open>Lists of objects after a change that keeps the links they run through.\<close>

lemma object_dlist_cong:
  assumes "dlist o_nextPtr o_prevPtr os' f xs l"
    and "\<And>y. y \<in> set xs \<Longrightarrow> map_option off_node (os y) = map_option off_node (os' y)"
  shows "dlist o_nextPtr o_prevPtr os f xs l"
proof -
  have "dlist o_nextPtr o_prevPtr os f xs l = dlist o_nextPtr o_prevPtr os' f xs l"
    unfolding dlist_def
    by (rule dseg_cong; rule off_node_map, rule assms(2)) (simp_all add: off_node_def)
  then show ?thesis using assms(1) by simp
qed

lemma same_dlist_cong:
  assumes "dlist o_nextSameNodePtr o_prevSameNodePtr os' f xs l"
    and "\<And>y. y \<in> set xs \<Longrightarrow> map_option off_module (os y) = map_option off_module (os' y)"
  shows "dlist o_nextSameNodePtr o_prevSameNodePtr os f xs l"
proof -
  have "dlist o_nextSameNodePtr o_prevSameNodePtr os f xs l =
      dlist o_nextSameNodePtr o_prevSameNodePtr os' f xs l"
    unfolding dlist_def
    by (rule dseg_cong; rule off_module_map, rule assms(2)) (simp_all add: off_module_def)
  then show ?thesis using assms(1) by simp
qed

subsection \<open>\<open>addObject\<close>\<close>

text \<open>The state after the object has been allocated and appended to its module.\<close>

lemma addObject_start:
  assumes pr: "deref (s_parsers s) parserPtr = Some pr" "p_modulePtr pr = Some mp"
    and ol: "object_list s mp xs" and fresh: "s_objects s (s_next s) = None"
  obtains os m where "s_modules s mp = Some m"
    and "link_object_module (s_next s) (Some mp) (s\<lparr>s_next := Suc (s_next s), s_objects :=
        (s_objects s)(s_next s \<mapsto> zero_object\<lparr>o_export := (o_export zero_object)\<lparr>sn_name := nm\<rparr>,
          o_modulePtr := Some mp, o_flags := fl, o_line := p_line pr\<rparr>)\<rparr>) =
      Some (s\<lparr>s_next := Suc (s_next s), s_objects := os, s_modules := (s_modules s)(mp \<mapsto>
        m\<lparr>m_firstObjectPtr := if_null (m_firstObjectPtr m) (s_next s),
          m_lastObjectPtr := Some (s_next s)\<rparr>)\<rparr>)"
    and "dlist o_nextPtr o_prevPtr os (if_null (m_firstObjectPtr m) (s_next s)) (xs @ [s_next s])
      (Some (s_next s))"
    and "\<And>y. y \<noteq> s_next s \<Longrightarrow> map_option off_module (os y) = map_option off_module (s_objects s y)"
    and "map_option off_module (os (s_next s)) = Some (zero_object\<lparr>o_export :=
        (o_export zero_object)\<lparr>sn_name := nm\<rparr>, o_modulePtr := Some mp, o_flags := fl, o_line := p_line pr\<rparr>)"
proof -
  let ?p = "s_next s"
  define ob where "ob = zero_object\<lparr>o_export := (o_export zero_object)\<lparr>sn_name := nm\<rparr>,
          o_modulePtr := Some mp, o_flags := fl, o_line := p_line pr\<rparr>"
  define s1 where "s1 = s\<lparr>s_next := Suc ?p, s_objects := (s_objects s)(?p \<mapsto> ob)\<rparr>"
  obtain m where m: "s_modules s mp = Some m"
    and dl: "dlist o_nextPtr o_prevPtr (s_objects s) (m_firstObjectPtr m) xs (m_lastObjectPtr m)"
    using ol by (auto simp: object_list_def)
  have p: "?p \<notin> set xs" using dlist_alloc [OF dl, of ?p] fresh by auto
  have "s_modules s1 mp = Some m" "s_objects s1 ?p = Some ob" "o_nextPtr ob = None"
    "dlist o_nextPtr o_prevPtr (s_objects s1) (m_firstObjectPtr m) xs (m_lastObjectPtr m)"
    using m dl p by (simp_all add: s1_def ob_def zero_object_def dlist_upd_other)
  from link_object_module_eq [OF this p] obtain os where
    run: "link_object_module ?p (Some mp) s1 = Some (s1\<lparr>s_objects := os, s_modules := (s_modules s1)(mp \<mapsto>
        m\<lparr>m_firstObjectPtr := if_null (m_firstObjectPtr m) ?p, m_lastObjectPtr := Some ?p\<rparr>)\<rparr>)"
    and dl': "dlist o_nextPtr o_prevPtr os (if_null (m_firstObjectPtr m) ?p) (xs @ [?p]) (Some ?p)"
    and data: "\<And>y. map_option off_module (os y) = map_option off_module (s_objects s1 y)" by blast
  have new: "map_option off_module (os ?p) = Some ob"
    using data [of ?p] by (simp add: s1_def off_module_def ob_def zero_object_def)
  have old: "map_option off_module (os y) = map_option off_module (s_objects s y)" if "y \<noteq> ?p" for y
    using data [of y] that by (simp add: s1_def)
  show thesis
    by (rule that [OF m _ dl' old new [unfolded ob_def]])
      (use run in \<open>simp_all add: s1_def ob_def\<close>)
qed

text \<open>An object for a node that exists joins the objects of that node.\<close>

lemma addObject_known:
  assumes inv: "oid_inv s ch path root pend"
    and pr: "deref (s_parsers s) parserPtr = Some pr" "p_modulePtr pr = Some mp"
      "p_pendingNodePtr pr = pend"
    and ol: "object_list s mp xs" and fresh: "s_objects s (s_next s) = None"
    and pp: "s_nodes s pp \<noteq> None" "pend \<noteq> Some pp"
    and c: "List.find (\<lambda>c. subid_in (s_nodes s) c = x) (ch pp) = Some c"
    and no: "node_objects s c ys"
  shows "\<exists>s'. addObject nm (Some pp) x fl parserPtr s = Some (s_next s, s') \<and>
    object_list s' mp (xs @ [s_next s]) \<and> node_objects s' c (ys @ [s_next s]) \<and>
    object_node s' (s_next s) = Some c \<and> object_name s' (s_next s) = nm \<and>
    oid_inv s' ch path root pend"
proof -
  let ?p = "s_next s"
  define ob where "ob = zero_object\<lparr>o_export := (o_export zero_object)\<lparr>sn_name := nm\<rparr>,
          o_modulePtr := Some mp, o_flags := fl, o_line := p_line pr\<rparr>"
  obtain os m where m: "s_modules s mp = Some m"
    and run: "link_object_module ?p (Some mp) (s\<lparr>s_next := Suc ?p, s_objects :=
        (s_objects s)(?p \<mapsto> ob)\<rparr>) = Some (s\<lparr>s_next := Suc ?p, s_objects := os,
        s_modules := (s_modules s)(mp \<mapsto> m\<lparr>m_firstObjectPtr := if_null (m_firstObjectPtr m) ?p,
          m_lastObjectPtr := Some ?p\<rparr>)\<rparr>)"
    and dl: "dlist o_nextPtr o_prevPtr os (if_null (m_firstObjectPtr m) ?p) (xs @ [?p]) (Some ?p)"
    and old: "\<And>y. y \<noteq> ?p \<Longrightarrow> map_option off_module (os y) = map_option off_module (s_objects s y)"
    and new: "map_option off_module (os ?p) = Some ob"
    by (rule addObject_start [OF pr(1,2) ol fresh, where nm = nm and fl = fl, folded ob_def], rule that)
  define s1 where "s1 = s\<lparr>s_next := Suc ?p, s_objects := os,
        s_modules := (s_modules s)(mp \<mapsto> m\<lparr>m_firstObjectPtr := if_null (m_firstObjectPtr m) ?p,
          m_lastObjectPtr := Some ?p\<rparr>)\<rparr>"
  have inv1: "oid_inv s1 ch path root pend"
    by (rule oid_inv_cong [OF inv]) (simp_all add: s1_def theHandle_def)
  obtain np where np: "s_nodes s1 pp = Some np" using pp(1) by (auto simp: s1_def)
  have find: "findNodeByParentAndSubid (Some pp) x s1 = Some (Some c)"
    using findNodeByParentAndSubid_eq [OF inv1 np pp(2), of x] c by (simp add: s1_def)
  obtain k where k: "s_nodes s c = Some k" and sdl: "dlist o_nextSameNodePtr o_prevSameNodePtr
      (s_objects s) (n_firstObjectPtr k) ys (n_lastObjectPtr k)"
    using no by (auto simp: node_objects_def)
  have pys: "?p \<notin> set ys" using dlist_alloc [OF sdl, of ?p] fresh by auto
  obtain ob1 where ob1: "os ?p = Some ob1" "off_module ob1 = ob" using new by auto
  have ob1n: "o_nextSameNodePtr ob1 = None" and ob1e: "o_export ob1 = o_export ob"
    using off_module_D [OF ob1(2)] by (simp_all add: ob_def zero_object_def)
  have "dlist o_nextSameNodePtr o_prevSameNodePtr (s_objects s1) (n_firstObjectPtr k) ys (n_lastObjectPtr k)"
  proof (rule same_dlist_cong [OF sdl])
    fix y assume "y \<in> set ys"
    then have "y \<noteq> ?p" using pys by auto
    then show "map_option off_module (s_objects s1 y) = map_option off_module (s_objects s y)"
      using old by (simp add: s1_def)
  qed
  from link_object_node_eq [of s1 c k ?p ob1, OF _ _ ob1n this pys] k ob1(1) obtain os2 where
    run2: "link_object_node ?p (Some c) s1 = Some (s1\<lparr>s_objects := os2, s_nodes := (s_nodes s1)(c \<mapsto>
        k\<lparr>n_firstObjectPtr := if_null (n_firstObjectPtr k) ?p, n_lastObjectPtr := Some ?p\<rparr>)\<rparr>)"
    and sdl2: "dlist o_nextSameNodePtr o_prevSameNodePtr os2 (if_null (n_firstObjectPtr k) ?p)
      (ys @ [?p]) (Some ?p)"
    and data2: "\<And>y. map_option off_node (os2 y) = map_option off_node (os y)"
    by (auto simp: s1_def)
  obtain ob2 where ob2: "os2 ?p = Some ob2" "off_node ob2 = off_node ob1"
    using data2 [of ?p] ob1 by auto
  have ob2e: "o_export ob2 = o_export ob1"
    using off_node_D(1) [OF ob2(2)] .
  define os3 where "os3 = os2(?p \<mapsto> ob2\<lparr>o_nodePtr := Some c\<rparr>)"
  define s' where "s' = s1\<lparr>s_objects := os3, s_nodes := (s_nodes s1)(c \<mapsto>
        k\<lparr>n_firstObjectPtr := if_null (n_firstObjectPtr k) ?p, n_lastObjectPtr := Some ?p\<rparr>)\<rparr>"
  have "parserPtr \<noteq> None" using pr(1) by (cases parserPtr) simp_all
  then have run': "addObject nm (Some pp) x fl parserPtr s = Some (?p, s')"
    using pr pp(2) run [folded s1_def] run2 find ob2(1)
    by (auto simp: addObject_def Let_def ob_def [symmetric] updObject_def s'_def os3_def s1_def)
  have "dlist o_nextPtr o_prevPtr os2 (if_null (m_firstObjectPtr m) ?p) (xs @ [?p]) (Some ?p)"
    by (rule object_dlist_cong [OF dl data2])
  then have "object_list s' mp (xs @ [?p])"
    unfolding object_list_def s'_def s1_def os3_def using ob2 by (simp add: dlist_upd_data)
  moreover have "node_objects s' c (ys @ [?p])"
    unfolding node_objects_def s'_def os3_def using sdl2 ob2 by (simp add: dlist_upd_data)
  moreover have "object_node s' ?p = Some c"
    by (simp add: object_node_def s'_def os3_def)
  moreover have "object_name s' ?p = nm"
    using ob1e ob2e by (simp add: object_name_def s'_def os3_def ob_def)
  moreover have "oid_inv s' ch path root pend"
    by (rule oid_inv_cong [OF inv1]) (use k in \<open>simp_all add: s'_def s1_def theHandle_def node_links_def\<close>)
  ultimately show ?thesis using run' by blast
qed

text \<open>Otherwise, and always below the pending root, the object gets a node of its own.\<close>

lemma addObject_new:
  assumes inv: "oid_inv s ch path root pend"
    and pr: "deref (s_parsers s) parserPtr = Some pr" "p_modulePtr pr = Some mp"
      "p_pendingNodePtr pr = pend"
    and ol: "object_list s mp xs" and fresh: "s_objects s (s_next s) = None"
    and pp: "s_nodes s pp \<noteq> None"
    and none: "pend = Some pp \<or> List.find (\<lambda>c. subid_in (s_nodes s) c = x) (ch pp) = None"
  shows "\<exists>s' q. addObject nm (Some pp) x fl parserPtr s = Some (s_next s, s') \<and>
    object_list s' mp (xs @ [s_next s]) \<and> object_name s' (s_next s) = nm \<and>
    object_node s' (s_next s) = Some q \<and> s_nodes s q = None \<and> node_objects s' q [s_next s] \<and>
    oid_inv s' (ch(pp := ins_child (subid_in (s_nodes s)) x q (ch pp), q := []))
      (path(q := path pp @ [x])) root pend"
proof -
  let ?p = "s_next s"
  define ob where "ob = zero_object\<lparr>o_export := (o_export zero_object)\<lparr>sn_name := nm\<rparr>,
          o_modulePtr := Some mp, o_flags := fl, o_line := p_line pr\<rparr>"
  obtain os m where m: "s_modules s mp = Some m"
    and run: "link_object_module ?p (Some mp) (s\<lparr>s_next := Suc ?p, s_objects :=
        (s_objects s)(?p \<mapsto> ob)\<rparr>) = Some (s\<lparr>s_next := Suc ?p, s_objects := os,
        s_modules := (s_modules s)(mp \<mapsto> m\<lparr>m_firstObjectPtr := if_null (m_firstObjectPtr m) ?p,
          m_lastObjectPtr := Some ?p\<rparr>)\<rparr>)"
    and dl: "dlist o_nextPtr o_prevPtr os (if_null (m_firstObjectPtr m) ?p) (xs @ [?p]) (Some ?p)"
    and old: "\<And>y. y \<noteq> ?p \<Longrightarrow> map_option off_module (os y) = map_option off_module (s_objects s y)"
    and new: "map_option off_module (os ?p) = Some ob"
    by (rule addObject_start [OF pr(1,2) ol fresh, where nm = nm and fl = fl, folded ob_def], rule that)
  define s1 where "s1 = s\<lparr>s_next := Suc ?p, s_objects := os,
        s_modules := (s_modules s)(mp \<mapsto> m\<lparr>m_firstObjectPtr := if_null (m_firstObjectPtr m) ?p,
          m_lastObjectPtr := Some ?p\<rparr>)\<rparr>"
  have inv1: "oid_inv s1 ch path root pend"
    by (rule oid_inv_cong [OF inv]) (simp_all add: s1_def theHandle_def)
  obtain np where np: "s_nodes s1 pp = Some np" using pp by (auto simp: s1_def)
  have find: "findNodeByParentAndSubid (Some pp) x s1 = Some None"
  proof (cases "pend = Some pp")
    case True
    then show ?thesis
      using oid_invD(5) [OF inv1] by (auto simp: findNodeByParentAndSubid_def live_parser_def)
  next
    case False
    then show ?thesis
      using findNodeByParentAndSubid_eq [OF inv1 np False, of x] none by (simp add: s1_def)
  qed
  define q where "q = s_next s1"
  define ch' where "ch' = ch(pp := ins_child (subid_in (s_nodes s1)) x q (ch pp), q := [])"
  define path' where "path' = path(q := path pp @ [x])"
  have pp1: "s_nodes s1 pp \<noteq> None"
    and none1: "pend = Some pp \<or> List.find (\<lambda>c. subid_in (s_nodes s1) c = x) (ch pp) = None"
    using np none by (simp_all add: s1_def)
  obtain m' where add: "addNode (Some pp) x fl s1 = Some (q, s1\<lparr>s_next := Suc q, s_nodes := m'\<rparr>)"
    and inv2: "oid_inv (s1\<lparr>s_next := Suc q, s_nodes := m'\<rparr>) ch' path' root pend"
    and "subid_in m' = (subid_in (s_nodes s1))(q := x)"
    and "\<And>r. r \<noteq> q \<Longrightarrow> map_option node_data (m' r) = map_option node_data (s_nodes s1 r)"
    and newn: "map_option node_data (m' q) =
      Some (node_data (zero_node\<lparr>n_flags := fl, n_subid := x, n_parentPtr := Some pp\<rparr>))"
    by (rule addNode_inv [OF inv1 pp1 none1, where fl = fl, folded q_def, folded ch'_def path'_def],
        rule that)
  obtain n where n: "m' q = Some n" using newn by auto
  obtain ob1 where ob1: "os ?p = Some ob1" "off_module ob1 = ob" using new by auto
  have ob1': "o_export ob1 = o_export ob" "o_nextSameNodePtr ob1 = None" "o_prevSameNodePtr ob1 = None"
    using off_module_D [OF ob1(2)] by (simp_all add: ob_def zero_object_def)
  define os3 where "os3 = os(?p \<mapsto> ob1\<lparr>o_nodePtr := Some q\<rparr>)"
  define s' where "s' = s1\<lparr>s_next := Suc q, s_objects := os3, s_nodes := m'(q \<mapsto>
      n\<lparr>n_firstObjectPtr := Some ?p, n_lastObjectPtr := Some ?p\<rparr>)\<rparr>"
  have "parserPtr \<noteq> None" using pr(1) by (cases parserPtr) simp_all
  then have run': "addObject nm (Some pp) x fl parserPtr s = Some (?p, s')"
    using pr run [folded s1_def] find add n ob1(1)
    by (auto simp: addObject_def Let_def ob_def [symmetric] updObject_def updNode_def s'_def os3_def s1_def)
  have "object_list s' mp (xs @ [?p])"
    unfolding object_list_def s'_def s1_def os3_def using dl ob1 by (simp add: dlist_upd_data)
  moreover have "object_name s' ?p = nm"
    using ob1' by (simp add: object_name_def s'_def os3_def ob_def)
  moreover have "object_node s' ?p = Some q" by (simp add: object_node_def s'_def os3_def)
  moreover have "s_nodes s q = None"
    using inv by (simp add: q_def s1_def oid_inv_def)
  moreover have "node_objects s' q [?p]"
    using ob1' by (auto simp: node_objects_def s'_def os3_def dlist_def)
  moreover have "oid_inv s' ch' path' root pend"
    by (rule oid_inv_cong [OF inv2]) (use n in \<open>simp_all add: s'_def s1_def theHandle_def node_links_def\<close>)
  moreover have "ch' = ch(pp := ins_child (subid_in (s_nodes s)) x q (ch pp), q := [])"
    by (simp add: ch'_def s1_def)
  ultimately show ?thesis using run' unfolding path'_def by auto
qed

text \<open>Without a parser \<open>addObject\<close> reads \<open>pendingNodePtr\<close> through a null pointer.\<close>

lemma addObject_no_parser_lemma: "addObject nm parentNodePtr x fl None s = None"
  by (simp add: addObject_def Let_def bind_eq_None_conv)

subsection \<open>Searches by name\<close>

lemma first_some_find: "first_some (\<lambda>m. List.find Q (objs m)) ms = List.find Q (concat (map objs ms))"
proof (induction ms)
  case Nil
  then show ?case by simp
next
  case (Cons m ms)
  have "List.find Q (xs @ ys) = (if List.find Q xs = None then List.find Q ys else List.find Q xs)"
    for xs ys by (induction xs) auto
  with Cons show ?case by simp
qed

lemma objects_named_eq:
  assumes "object_list s mp xs" and "s_modules s mp = Some m"
  shows "objects_named s (Some nm) m = Some (List.find (\<lambda>p. object_name s p = Some nm) xs)"
  using assms walk_named [of o_nextPtr o_prevPtr "s_objects s" "m_firstObjectPtr m" xs
      "m_lastObjectPtr m" "sn_name \<circ> o_export" nm]
  by (auto simp: objects_named_def object_list_def object_name_def)

lemma findObjectByName_lemma:
  assumes ml: "module_list s ms" and ol: "\<And>mp. mp \<in> set ms \<Longrightarrow> object_list s mp (objs mp)"
  shows "findObjectByName (Some nm) s =
    Some (List.find (\<lambda>p. object_name s p = Some nm) (concat (map objs ms)))"
proof -
  obtain h where h: "theHandle s = Some h"
    and dl: "dlist m_nextPtr m_prevPtr (s_modules s) (h_firstModulePtr h) ms (h_lastModulePtr h)"
    using ml by (auto simp: module_list_def)
  have "walk_first (s_modules s) m_nextPtr (\<lambda>_ m. objects_named s (Some nm) m) (h_firstModulePtr h) =
      Some (first_some (\<lambda>mp. List.find (\<lambda>p. object_name s p = Some nm) (objs mp)) ms)"
    using dl [unfolded dlist_def]
    by (rule walk_first_dseg) (rule objects_named_eq [OF ol])
  with h show ?thesis by (simp add: findObjectByName_def first_some_find)
qed

lemma root_name_eq:
  "root_name (Some nm) = Some (nm \<in> {''iso'', ''ccitt'', ''joint-iso-ccitt''})"
  by (simp add: root_name_def)

lemma findObjectByModuleAndName_lemma:
  assumes ml: "module_list s ms" and ol: "\<And>mp. mp \<in> set ms \<Longrightarrow> object_list s mp (objs mp)"
    and mp: "mp \<in> set ms"
  shows "findObjectByModuleAndName (Some mp) (Some nm) s = Some (
    let own = List.find (\<lambda>p. object_name s p = Some nm) (objs mp) in
    if own \<noteq> None then own
    else if nm \<in> {''iso'', ''ccitt'', ''joint-iso-ccitt''}
      then List.find (\<lambda>p. object_name s p = Some nm) (concat (map objs ms))
    else None)"
proof -
  obtain m where "s_modules s mp = Some m" using ol [OF mp] by (auto simp: object_list_def)
  then show ?thesis
    using objects_named_eq [OF ol [OF mp]] findObjectByName_lemma [OF ml ol, of nm]
    by (auto simp: findObjectByModuleAndName_def root_name_eq Let_def)
qed

subsection \<open>The visible object of a node\<close>

text \<open>
  Of the objects of a node that are defined in modules of the view, \<open>findObjectByNode\<close> returns the
  first one of the highest language; if none is in the view, the first object.
\<close>

definition object_language :: "smi \<Rightarrow> ptr \<Rightarrow> SmiLanguage" where
  "object_language s p = (case Option.bind (object_module s p) (s_modules s) of
     None \<Rightarrow> SMI_LANGUAGE_UNKNOWN | Some m \<Rightarrow> sm_language (m_export m))"

definition object_in_view :: "smi \<Rightarrow> ptr list \<Rightarrow> ptr \<Rightarrow> bool" where
  "object_in_view s vs p \<longleftrightarrow> (\<exists>mp nm. object_module s p = Some mp \<and> name_of_module s mp = Some nm \<and>
     (\<exists>v \<in> set vs. view_name s v = Some nm))"

definition better :: "(ptr \<Rightarrow> bool) \<Rightarrow> (ptr \<Rightarrow> SmiLanguage) \<Rightarrow> ptr \<Rightarrow> ptr option \<Rightarrow> ptr option" where
  "better vis lang a good = (if vis a then
     (if good = None then Some a else if lang a > lang (the good) then Some a else good) else good)"

definition best_object :: "(ptr \<Rightarrow> bool) \<Rightarrow> (ptr \<Rightarrow> SmiLanguage) \<Rightarrow> ptr list \<Rightarrow> ptr option \<Rightarrow> bool" where
  "best_object vis lang xs r \<longleftrightarrow> (case r of None \<Rightarrow> \<forall>a \<in> set xs. \<not> vis a
     | Some b \<Rightarrow> vis b \<and> (\<exists>us vs. xs = us @ b # vs \<and> (\<forall>a \<in> set us. vis a \<longrightarrow> lang a < lang b) \<and>
         (\<forall>a \<in> set vs. vis a \<longrightarrow> lang a \<le> lang b)))"

lemma best_object_snoc:
  assumes "best_object vis lang xs r"
  shows "best_object vis lang (xs @ [a]) (better vis lang a r)"
proof (cases r)
  case None
  then have none: "\<forall>c \<in> set xs. \<not> vis c" using assms by (simp add: best_object_def)
  then have "\<exists>us vs. xs @ [a] = us @ a # vs \<and> (\<forall>c \<in> set us. vis c \<longrightarrow> lang c < lang a) \<and>
      (\<forall>c \<in> set vs. vis c \<longrightarrow> lang c \<le> lang a)"
    by (intro exI [of _ xs] exI [of _ "[]"]) simp
  then show ?thesis
    using None none by (cases "vis a") (simp_all add: best_object_def better_def)
next
  case (Some b)
  then obtain us vs where b: "vis b" "xs = us @ b # vs" "\<forall>a \<in> set us. vis a \<longrightarrow> lang a < lang b"
    "\<forall>a \<in> set vs. vis a \<longrightarrow> lang a \<le> lang b" using assms by (auto simp: best_object_def)
  show ?thesis
  proof (cases "vis a \<and> lang b < lang a")
    case True
    then have "\<forall>c \<in> set xs. vis c \<longrightarrow> lang c < lang a" using b by auto
    then have "\<exists>us vs. xs @ [a] = us @ a # vs \<and> (\<forall>c \<in> set us. vis c \<longrightarrow> lang c < lang a) \<and>
        (\<forall>c \<in> set vs. vis c \<longrightarrow> lang c \<le> lang a)"
      by (intro exI [of _ xs] exI [of _ "[]"]) simp
    then show ?thesis using True Some by (simp add: best_object_def better_def)
  next
    case False
    then have "xs @ [a] = us @ b # (vs @ [a]) \<and> (\<forall>c \<in> set us. vis c \<longrightarrow> lang c < lang b) \<and>
        (\<forall>c \<in> set (vs @ [a]). vis c \<longrightarrow> lang c \<le> lang b)"
      using b by auto
    then have "\<exists>us vs. xs @ [a] = us @ b # vs \<and> (\<forall>c \<in> set us. vis c \<longrightarrow> lang c < lang b) \<and>
        (\<forall>c \<in> set vs. vis c \<longrightarrow> lang c \<le> lang b)" by blast
    moreover have "better vis lang a r = Some b" using False Some by (auto simp: better_def)
    ultimately show ?thesis using b(1) by (simp add: best_object_def)
  qed
qed

lemma best_object_fold: "best_object vis lang xs (fold (better vis lang) xs None)"
proof (induction xs rule: rev_induct)
  case Nil
  then show ?case by (simp add: best_object_def)
next
  case (snoc a xs)
  then show ?case using best_object_snoc by simp
qed

lemma findObjectByNode_lemma:
  assumes no: "node_objects s q xs" and vl: "view_list s vs"
    and vn: "\<And>v. v \<in> set vs \<Longrightarrow> view_name s v \<noteq> None"
    and mods: "\<And>p. p \<in> set xs \<Longrightarrow> \<exists>mp. object_module s p = Some mp \<and> name_of_module s mp \<noteq> None"
  shows "\<exists>good. best_object (object_in_view s vs) (object_language s) xs good \<and>
    findObjectByNode (Some q) s = Some (if good \<noteq> None then good
      else if xs = [] then None else Some (hd xs))"
proof -
  obtain n where n: "s_nodes s q = Some n" and dl: "dlist o_nextSameNodePtr o_prevSameNodePtr
      (s_objects s) (n_firstObjectPtr n) xs (n_lastObjectPtr n)"
    using no by (auto simp: node_objects_def)
  let ?f = "\<lambda>a ob good. do {
         m \<leftarrow> objectModule ob s;
         v \<leftarrow> isInView (sm_name (m_export m)) s;
         if v then (
           if good = None then Some (Some a)
           else do {
             g \<leftarrow> deref (s_objects s) good;
             gm \<leftarrow> objectModule g s;
             if sm_language (m_export m) > sm_language (m_export gm) then Some (Some a) else Some good
           })
         else Some good
       }"
  let ?g = "better (object_in_view s vs) (object_language s)"
  have objmod: "\<exists>ob m nm. s_objects s p = Some ob \<and> objectModule ob s = Some m \<and>
      sm_name (m_export m) = Some nm \<and> object_language s p = sm_language (m_export m) \<and>
      (object_in_view s vs p \<longleftrightarrow> (\<exists>v \<in> set vs. view_name s v = Some nm))" if "p \<in> set xs" for p
  proof -
    from mods [OF that] obtain mp where
      mp: "object_module s p = Some mp" "name_of_module s mp \<noteq> None" by blast
    then obtain ob where ob: "s_objects s p = Some ob" "o_modulePtr ob = Some mp"
      by (auto simp: object_module_def fld_def bind_eq_Some_iff)
    obtain m where m: "s_modules s mp = Some m" "sm_name (m_export m) \<noteq> None"
      using mp(2) by (auto simp: name_of_module_def fld_def bind_eq_Some_iff)
    then obtain nm where nm: "sm_name (m_export m) = Some nm" by auto
    then have "name_of_module s mp = Some nm" using m by (simp add: name_of_module_def)
    then show ?thesis using ob m nm mp(1)
      by (auto simp: objectModule_def object_language_def object_in_view_def)
  qed
  have step: "?f a ob good = Some (?g a good) \<and> (?g a good = None \<or> the (?g a good) \<in> set xs)"
    if a: "a \<in> set xs" "s_objects s a = Some ob" and good: "good = None \<or> the good \<in> set xs"
    for a ob good
  proof -
    obtain m nm where m: "objectModule ob s = Some m" "sm_name (m_export m) = Some nm"
      "object_language s a = sm_language (m_export m)"
      "object_in_view s vs a \<longleftrightarrow> (\<exists>v \<in> set vs. view_name s v = Some nm)"
      using objmod [OF a(1)] a(2) by auto
    have v: "isInView (sm_name (m_export m)) s = Some (object_in_view s vs a)"
      using isInView_lemma [OF vl vn, of nm] m by simp
    show ?thesis
    proof (cases good)
      case None
      then show ?thesis using m(1) v a by (simp add: better_def)
    next
      case (Some b)
      then obtain ob' m' where "s_objects s b = Some ob'" "objectModule ob' s = Some m'"
        "object_language s b = sm_language (m_export m')"
        using objmod [of b] good by auto
      then show ?thesis using m(1,3) v a Some good by (simp add: better_def)
    qed
  qed
  have "walk_fold (s_objects s) o_nextSameNodePtr ?f (n_firstObjectPtr n) None =
      Some (fold ?g xs None)"
    using walk_fold_dseg [OF dl [unfolded dlist_def],
        where f = ?f and g = ?g and I = "\<lambda>good. good = None \<or> the good \<in> set xs" and acc = None]
      step by blast
  then have "findObjectByNode (Some q) s = Some (if fold ?g xs None \<noteq> None then fold ?g xs None
      else if xs = [] then None else Some (hd xs))"
    using n dlist_first [OF dl] by (simp add: findObjectByNode_def)
  then show ?thesis using best_object_fold by blast
qed

end
