(* ===== verification/Smi_Merge.thy ===== *)
theory Smi_Merge
  imports Smi_Object
begin

section \<open>Forward references: merging a pending tree\<close>

text \<open>
  \<^verbatim>\<open>smi-data.c\<close>: an object that is used before it is defined stands below the parser's pending
  node.  When its name is set, \<open>setObjectName\<close> takes the pending node out of that list and
  \<open>mergeNodeTrees\<close> moves its objects and children to the real node, recursively where both have a
  child with the same sub identifier.
\<close>

subsection \<open>The steps of \<open>mergeNodeTrees\<close>\<close>

definition merge_object_lists :: "ptr option \<Rightarrow> Node \<Rightarrow> smi \<Rightarrow> smi option" where
  "merge_object_lists toNodePtr f s = (
     if n_firstObjectPtr f \<noteq> None then do {
       t \<leftarrow> deref (s_nodes s) toNodePtr;
       if n_firstObjectPtr t = None then
         updNode toNodePtr (\<lambda>t. t\<lparr>n_firstObjectPtr := n_firstObjectPtr f,
                                   n_lastObjectPtr := n_lastObjectPtr f\<rparr>) s
       else do {
         s \<leftarrow> updObject (n_firstObjectPtr f) (o_set_prevSame (n_lastObjectPtr t)) s;
         s \<leftarrow> updObject (n_lastObjectPtr t) (o_set_nextSame (n_firstObjectPtr f)) s;
         updNode toNodePtr (n_lastObjectPtr_update (\<lambda>_. n_lastObjectPtr f)) s
       }
     } else Some s)"

definition merge_objects :: "ptr option \<Rightarrow> ptr option \<Rightarrow> smi \<Rightarrow> smi option" where
  "merge_objects toNodePtr fromNodePtr s = do {
     f \<leftarrow> deref (s_nodes s) fromNodePtr;
     s \<leftarrow> merge_object_lists toNodePtr f s;
     f \<leftarrow> deref (s_nodes s) fromNodePtr;
     for_list s_objects o_nextSameNodePtr
       (\<lambda>a s. updObject (Some a) (o_nodePtr_update (\<lambda>_. toNodePtr)) s) (n_firstObjectPtr f) s
   }"

definition merge_parents :: "ptr option \<Rightarrow> ptr option \<Rightarrow> smi \<Rightarrow> smi option" where
  "merge_parents toNodePtr fromNodePtr s = do {
     f \<leftarrow> deref (s_nodes s) fromNodePtr;
     for_list s_nodes n_nextPtr
       (\<lambda>a s. updNode (Some a) (n_parentPtr_update (\<lambda>_. toNodePtr)) s) (n_firstChildPtr f) s
   }"

text \<open>\<open>for (toChildPtr = first; toChildPtr->nextPtr->subid < subid; toChildPtr = toChildPtr->nextPtr);\<close>\<close>

partial_function (option) merge_position :: "(ptr \<rightharpoonup> Node) \<Rightarrow> SmiSubid \<Rightarrow> ptr option \<Rightarrow> ptr option option" where
  "merge_position m subid p = Option.bind (deref m p) (\<lambda>c. Option.bind (deref m (n_nextPtr c)) (\<lambda>n.
     if n_subid n < subid then merge_position m subid (n_nextPtr c) else Some p))"

declare merge_position.simps [code]

text \<open>Where a child without counterpart goes; the front case sets no link of the old first child.\<close>

definition merge_insert :: "ptr option \<Rightarrow> ptr option \<Rightarrow> smi \<Rightarrow> smi option" where
  "merge_insert toNodePtr nodePtr s = do {
     t \<leftarrow> deref (s_nodes s) toNodePtr;
     n \<leftarrow> deref (s_nodes s) nodePtr;
     first \<leftarrow> deref (s_nodes s) (n_firstChildPtr t);
     if n_subid n < n_subid first then do {
       s \<leftarrow> updNode nodePtr (n_set_next (n_firstChildPtr t)) s;
       updNode toNodePtr (n_firstChildPtr_update (\<lambda>_. nodePtr)) s
     } else do {
       last \<leftarrow> deref (s_nodes s) (n_lastChildPtr t);
       if n_subid n > n_subid last then do {
         s \<leftarrow> updNode nodePtr (n_set_prev (n_lastChildPtr t)) s;
         s \<leftarrow> updNode (n_lastChildPtr t) (n_set_next nodePtr) s;
         updNode toNodePtr (n_lastChildPtr_update (\<lambda>_. nodePtr)) s
       } else do {
         c \<leftarrow> merge_position (s_nodes s) (n_subid n) (n_firstChildPtr t);
         cn \<leftarrow> deref (s_nodes s) c;
         s \<leftarrow> updNode (n_nextPtr cn) (n_set_prev nodePtr) s;
         cn \<leftarrow> deref (s_nodes s) c;
         s \<leftarrow> updNode nodePtr (n_set_next (n_nextPtr cn)) s;
         s \<leftarrow> updNode nodePtr (n_set_prev c) s;
         updNode c (n_set_next nodePtr) s
       }
     }
   }"

definition freeNode :: "ptr option \<Rightarrow> smi \<Rightarrow> smi" where
  "freeNode p s = (case p of None \<Rightarrow> s | Some a \<Rightarrow> s\<lparr>s_nodes := (s_nodes s)(a := None)\<rparr>)"

text \<open>
  The recursion of \<open>mergeNodeTrees\<close> and its loop over the children, as one partial function:
  \<open>MergeTrees to from\<close> is a call, \<open>MergeChildren to c\<close> the loop at the child \<open>c\<close>.
\<close>

datatype merge_job = MergeTrees "ptr option" "ptr option" | MergeChildren "ptr option" "ptr option"

partial_function (option) merge_run :: "merge_job \<Rightarrow> smi \<Rightarrow> smi option" where
  "merge_run job s = (case job of
     MergeTrees toNodePtr fromNodePtr \<Rightarrow> do {
       s \<leftarrow> merge_objects toNodePtr fromNodePtr s;
       s \<leftarrow> merge_parents toNodePtr fromNodePtr s;
       t \<leftarrow> deref (s_nodes s) toNodePtr;
       f \<leftarrow> deref (s_nodes s) fromNodePtr;
       s \<leftarrow> (if n_firstChildPtr t = None then
               updNode toNodePtr (\<lambda>t. t\<lparr>n_firstChildPtr := n_firstChildPtr f,
                                         n_lastChildPtr := n_lastChildPtr f\<rparr>) s
             else merge_run (MergeChildren toNodePtr (n_firstChildPtr f)) s);
       Some (freeNode fromNodePtr s)
     }
   | MergeChildren toNodePtr nodePtr \<Rightarrow> (case nodePtr of None \<Rightarrow> Some s | Some c \<Rightarrow> do {
       n \<leftarrow> s_nodes s c;
       toChildPtr \<leftarrow> findNodeByParentAndSubid toNodePtr (n_subid n) s;
       s' \<leftarrow> (if toChildPtr \<noteq> None then merge_run (MergeTrees toChildPtr (Some c)) s
             else merge_insert toNodePtr (Some c) s);
       merge_run (MergeChildren toNodePtr (n_nextPtr n)) s'
     }))"

declare merge_run.simps [code]

definition mergeNodeTrees :: "ptr option \<Rightarrow> ptr option \<Rightarrow> smi \<Rightarrow> smi option" where
  "mergeNodeTrees toNodePtr fromNodePtr = merge_run (MergeTrees toNodePtr fromNodePtr)"

subsection \<open>\<open>setObjectName\<close>\<close>

text \<open>The part of the loop body that runs once the pending node \<open>nodePtr\<close> of that name is found.\<close>

definition take_pending :: "ptr option \<Rightarrow> ptr option \<Rightarrow> ptr option \<Rightarrow> smi \<Rightarrow> (ptr option \<times> smi) option" where
  "take_pending objectPtr pendingPtr nodePtr s = do {
     pd \<leftarrow> deref (s_nodes s) pendingPtr;
     (ns, f, l) \<leftarrow> unlink n_nextPtr n_prevPtr n_set_next n_set_prev nodePtr
       (s_nodes s, n_firstChildPtr pd, n_lastChildPtr pd);
     s \<leftarrow> updNode pendingPtr (\<lambda>n. n\<lparr>n_firstChildPtr := f, n_lastChildPtr := l\<rparr>) (s\<lparr>s_nodes := ns\<rparr>);
     ob \<leftarrow> deref (s_objects s) objectPtr;
     on \<leftarrow> deref (s_nodes s) (o_nodePtr ob);
     s \<leftarrow> (if n_lastObjectPtr on \<noteq> None then do {
             lo \<leftarrow> deref (s_objects s) (n_lastObjectPtr on);
             if sn_oid (o_export lo) = None then
               updNode (o_nodePtr ob) (\<lambda>n. n\<lparr>n_lastObjectPtr := o_prevSameNodePtr lo,
                 n_firstObjectPtr := (if o_prevSameNodePtr lo = None then None
                                      else n_firstObjectPtr n)\<rparr>) s
             else Some s
           } else Some s);
     node \<leftarrow> deref (s_nodes s) nodePtr;
     let newObjectPtr = n_firstObjectPtr node;
     if newObjectPtr \<noteq> None then do {
       new \<leftarrow> deref (s_objects s) newObjectPtr;
       m \<leftarrow> objectModule new s;
       s \<leftarrow> (if m_objectPtr m = objectPtr then
               updModule (o_modulePtr new) (m_objectPtr_update (\<lambda>_. newObjectPtr)) s else Some s);
       s \<leftarrow> (if m_firstObjectPtr m = objectPtr then do {
               ob \<leftarrow> deref (s_objects s) objectPtr;
               s \<leftarrow> updModule (o_modulePtr new) (m_firstObjectPtr_update (\<lambda>_. o_nextPtr ob)) s;
               updObject (o_nextPtr ob) (o_set_prev None) s
             } else Some s);
       s \<leftarrow> (if m_lastObjectPtr m = objectPtr then do {
               ob \<leftarrow> deref (s_objects s) objectPtr;
               s \<leftarrow> updModule (o_modulePtr new) (m_lastObjectPtr_update (\<lambda>_. o_prevPtr ob)) s;
               updObject (o_prevPtr ob) (o_set_next None) s
             } else Some s);
       ob \<leftarrow> deref (s_objects s) objectPtr;
       s \<leftarrow> mergeNodeTrees (o_nodePtr ob) nodePtr s;
       a \<leftarrow> objectPtr;
       Some (newObjectPtr, s\<lparr>s_objects := (s_objects s)(a := None)\<rparr>)
     } else Some (objectPtr, s)
   }"

definition setObjectName :: "ptr option \<Rightarrow> cstr \<Rightarrow> ptr option \<Rightarrow> smi \<Rightarrow> (ptr option \<times> smi) option" where
  "setObjectName objectPtr name parserPtr s = do {
     s \<leftarrow> updObject objectPtr (o_export_update (sn_name_update (\<lambda>_. name))) s;
     parser \<leftarrow> deref (s_parsers s) parserPtr;
     pd \<leftarrow> deref (s_nodes s) (p_pendingNodePtr parser);
     nodePtr \<leftarrow> walk (s_nodes s) n_nextPtr (\<lambda>_ n. do {
         fo \<leftarrow> deref (s_objects s) (n_firstObjectPtr n);
         streq (sn_name (o_export fo)) name
       }) (n_firstChildPtr pd);
     if nodePtr \<noteq> None then take_pending objectPtr (p_pendingNodePtr parser) nodePtr s
     else Some (objectPtr, s)
   }"

subsection \<open>Joining two lists\<close>

context linked_struct begin

lemma dlist_join:
  assumes d1: "dlist nx pv m f1 (xs @ [x]) l1" and d2: "dlist nx pv m f2 (y # ys) l2"
    and disj: "set (xs @ [x]) \<inter> set (y # ys) = {}" and x: "m x = Some nx'" and y: "m y = Some ny"
  shows "dlist nx pv (m(y \<mapsto> set_pv l1 ny, x \<mapsto> set_nx f2 nx')) f1 ((xs @ [x]) @ y # ys) l2"
proof -
  let ?m = "m(y \<mapsto> set_pv l1 ny, x \<mapsto> set_nx f2 nx')"
  have dist: "distinct (xs @ [x])" "distinct (y # ys)" using dlist_distinct [OF d1] dlist_distinct [OF d2] .
  have l1: "l1 = Some x" and f2: "f2 = Some y" using dlist_last [OF d1] dlist_first [OF d2] by simp_all
  have xy: "x \<noteq> y" using disj by auto
  have "dseg nx pv (m(y \<mapsto> set_pv l1 ny)) None f1 (xs @ [x]) l1 None"
    using d1 disj unfolding dlist_def by (subst dseg_upd_other) auto
  then have "dseg nx pv ?m None f1 (xs @ [x]) l1 f2"
    using dist(1) x xy by (intro seg_set_next_last) auto
  moreover have "dseg nx pv ?m l1 f2 (y # ys) l2 None"
  proof -
    have "dseg nx pv (m(y \<mapsto> set_pv l1 ny)) l1 f2 (y # ys) l2 None"
      using d2 dist(2) y unfolding dlist_def by (intro seg_set_prev_first [where b = None]) auto
    then show ?thesis using disj by (subst dseg_upd_other) auto
  qed
  ultimately show ?thesis unfolding dlist_def dseg_append [of _ _ _ _ _ "xs @ [x]"] by blast
qed

end

subsection \<open>A defect of the front insertion\<close>

lemma merge_insert_front:
  assumes t: "s_nodes s tp = Some t"
    and dl: "dlist n_nextPtr n_prevPtr (s_nodes s) (n_firstChildPtr t) (c1 # cs) (n_lastChildPtr t)"
    and n: "s_nodes s c = Some n" and tp: "tp \<noteq> c"
    and less: "n_subid n < subid_in (s_nodes s) c1"
  shows "merge_insert (Some tp) (Some c) s = Some (s\<lparr>s_nodes := (s_nodes s)
    (c \<mapsto> n\<lparr>n_nextPtr := Some c1\<rparr>, tp \<mapsto> t\<lparr>n_firstChildPtr := Some c\<rparr>)\<rparr>)"
proof -
  have f: "n_firstChildPtr t = Some c1" using dlist_first [OF dl] by simp
  obtain k where k: "s_nodes s c1 = Some k" using dlist_alloc [OF dl, of c1] by auto
  then have "n_subid n < n_subid k" using less by (simp add: subid_in_def)
  then show ?thesis using t n tp f k by (simp add: merge_insert_def updNode_def)
qed

text \<open>The old first child still has no predecessor, so an insertion before it goes through a null
  pointer.\<close>

lemma merge_insert_front_then_addNode:
  assumes t: "s_nodes s tp = Some t"
    and dl: "dlist n_nextPtr n_prevPtr (s_nodes s) (n_firstChildPtr t) (c1 # cs) (n_lastChildPtr t)"
    and n: "s_nodes s c = Some n" and c: "c \<notin> set (c1 # cs)" and tp: "tp \<noteq> c" "tp \<notin> set (c1 # cs)"
    and fresh: "s_nodes s (s_next s) = None"
    and x: "n_subid n < x" "x \<le> subid_in (s_nodes s) c1"
  shows "\<exists>s'. merge_insert (Some tp) (Some c) s = Some s' \<and> addNode (Some tp) x fl s' = None"
proof -
  define s' where "s' = s\<lparr>s_nodes := (s_nodes s)
    (c \<mapsto> n\<lparr>n_nextPtr := Some c1\<rparr>, tp \<mapsto> t\<lparr>n_firstChildPtr := Some c\<rparr>)\<rparr>"
  have less: "n_subid n < subid_in (s_nodes s) c1" using x by simp
  have run: "merge_insert (Some tp) (Some c) s = Some s'"
    unfolding s'_def by (rule merge_insert_front [OF t dl n tp(1) less])
  obtain k where k: "s_nodes s c1 = Some k" using dlist_alloc [OF dl, of c1] by auto
  have prev: "n_prevPtr k = None" using dl k by (auto simp: dlist_def)
  have ne: "s_next s \<noteq> c" "s_next s \<noteq> c1" "s_next s \<noteq> tp" using fresh n k t by auto
  have xk: "\<not> n_subid k < x" using x k by (simp add: subid_in_def)
  define m where "m = (s_nodes s')(s_next s \<mapsto> zero_node\<lparr>n_flags := fl, n_subid := x, n_parentPtr := Some tp\<rparr>)"
  have m: "m c = Some (n\<lparr>n_nextPtr := Some c1\<rparr>)" "m c1 = Some k"
    "m tp = Some (t\<lparr>n_firstChildPtr := Some c\<rparr>)"
    using ne c tp k by (auto simp: m_def s'_def)
  have "addNode_link tp x (s_next s) m = None"
    using m prev xk x(1) c by (auto simp: addNode_link_def walk_Some)
  then show ?thesis using run by (auto simp: addNode_def Let_def m_def s'_def)
qed

subsection \<open>Merging into a node without children\<close>

definition set_node_of :: "ptr list \<Rightarrow> ptr option \<Rightarrow> (ptr \<rightharpoonup> Object) \<Rightarrow> (ptr \<rightharpoonup> Object)" where
  "set_node_of zs q os = (\<lambda>y. if y \<in> set zs then map_option (o_nodePtr_update (\<lambda>_. q)) (os y) else os y)"

definition set_parent_of :: "ptr list \<Rightarrow> ptr option \<Rightarrow> (ptr \<rightharpoonup> Node) \<Rightarrow> (ptr \<rightharpoonup> Node)" where
  "set_parent_of zs q ns = (\<lambda>y. if y \<in> set zs then map_option (n_parentPtr_update (\<lambda>_. q)) (ns y) else ns y)"

lemma fold_set_node:
  "fold (\<lambda>x s. s\<lparr>s_objects := set_node_of [x] q (s_objects s)\<rparr>) zs s =
    s\<lparr>s_objects := set_node_of zs q (s_objects s)\<rparr>"
proof (induction zs arbitrary: s)
  case Nil
  then show ?case by (simp add: set_node_of_def)
next
  case (Cons z zs)
  have "set_node_of zs q (set_node_of [z] q os) = set_node_of (z # zs) q os" for os
  proof
    fix y show "set_node_of zs q (set_node_of [z] q os) y = set_node_of (z # zs) q os y"
      by (cases "os y") (auto simp: set_node_of_def)
  qed
  then show ?case using Cons.IH by simp
qed

lemma fold_set_parent:
  "fold (\<lambda>x s. s\<lparr>s_nodes := set_parent_of [x] q (s_nodes s)\<rparr>) zs s =
    s\<lparr>s_nodes := set_parent_of zs q (s_nodes s)\<rparr>"
proof (induction zs arbitrary: s)
  case Nil
  then show ?case by (simp add: set_parent_of_def)
next
  case (Cons z zs)
  have "set_parent_of zs q (set_parent_of [z] q os) = set_parent_of (z # zs) q os" for os
  proof
    fix y show "set_parent_of zs q (set_parent_of [z] q os) y = set_parent_of (z # zs) q os y"
      by (cases "os y") (auto simp: set_parent_of_def)
  qed
  then show ?case using Cons.IH by simp
qed

lemma set_node_of_links:
  assumes "\<And>n. sel (n\<lparr>o_nodePtr := q\<rparr>) = sel n"
  shows "map_option sel (set_node_of zs q os y) = map_option sel (os y)"
  by (cases "os y") (auto simp: set_node_of_def assms)

lemma set_parent_of_links:
  assumes "\<And>n. sel (n\<lparr>n_parentPtr := q\<rparr>) = sel n"
  shows "map_option sel (set_parent_of zs q ns y) = map_option sel (ns y)"
  by (cases "ns y") (auto simp: set_parent_of_def assms)

lemma set_node_of_single: "os x = Some ob \<Longrightarrow> set_node_of [x] q os = os(x \<mapsto> ob\<lparr>o_nodePtr := q\<rparr>)"
  by (simp add: set_node_of_def fun_eq_iff)

lemma set_parent_of_single: "ns x = Some n \<Longrightarrow> set_parent_of [x] q ns = ns(x \<mapsto> n\<lparr>n_parentPtr := q\<rparr>)"
  by (simp add: set_parent_of_def fun_eq_iff)

lemma merge_parents_eq:
  assumes f: "s_nodes s fp = Some f"
    and dl: "dlist n_nextPtr n_prevPtr (s_nodes s) (n_firstChildPtr f) cs (n_lastChildPtr f)"
  shows "merge_parents q (Some fp) s = Some (s\<lparr>s_nodes := set_parent_of cs q (s_nodes s)\<rparr>)"
proof -
  have "for_list s_nodes n_nextPtr (\<lambda>a s. updNode (Some a) (n_parentPtr_update (\<lambda>_. q)) s)
      (n_firstChildPtr f) s = Some (fold (\<lambda>x s. s\<lparr>s_nodes := set_parent_of [x] q (s_nodes s)\<rparr>) cs s)"
  proof (rule for_list_dseg [where mem = s_nodes and s = s, OF dl [unfolded dlist_def]])
    fix x and s' :: smi assume "s_nodes s' x \<noteq> None"
    then show "updNode (Some x) (n_parentPtr_update (\<lambda>_. q)) s' =
        Some (s'\<lparr>s_nodes := set_parent_of [x] q (s_nodes s')\<rparr>)"
      by (auto simp: updNode_def set_parent_of_single)
  qed (auto intro: set_parent_of_links)
  then show ?thesis using f by (simp add: merge_parents_def fold_set_parent)
qed

lemma set_node_loop:
  assumes seg: "dseg o_nextSameNodePtr o_prevSameNodePtr (s_objects s) b f zs l None"
  shows "for_list s_objects o_nextSameNodePtr (\<lambda>a s. updObject (Some a) (o_nodePtr_update (\<lambda>_. q)) s)
    f s = Some (s\<lparr>s_objects := set_node_of zs q (s_objects s)\<rparr>)"
proof -
  have "for_list s_objects o_nextSameNodePtr (\<lambda>a s. updObject (Some a) (o_nodePtr_update (\<lambda>_. q)) s)
      f s = Some (fold (\<lambda>x s. s\<lparr>s_objects := set_node_of [x] q (s_objects s)\<rparr>) zs s)"
  proof (rule for_list_dseg [where mem = s_objects and s = s, OF seg])
    fix x and s' :: smi assume "s_objects s' x \<noteq> None"
    then show "updObject (Some x) (o_nodePtr_update (\<lambda>_. q)) s' =
        Some (s'\<lparr>s_objects := set_node_of [x] q (s_objects s')\<rparr>)"
      by (auto simp: updObject_def set_node_of_single)
  qed (auto intro: set_node_of_links)
  then show ?thesis by (simp add: fold_set_node)
qed

text \<open>The objects of the pending node join those of the real node.\<close>

lemma merge_object_lists_eq:
  assumes t: "s_nodes s tp = Some t"
    and tl: "dlist o_nextSameNodePtr o_prevSameNodePtr (s_objects s) (n_firstObjectPtr t) ys (n_lastObjectPtr t)"
    and fl: "dlist o_nextSameNodePtr o_prevSameNodePtr (s_objects s) (n_firstObjectPtr f) zs (n_lastObjectPtr f)"
    and disj: "set ys \<inter> set zs = {}"
  shows "\<exists>os t'. merge_object_lists (Some tp) f s =
      Some (s\<lparr>s_objects := os, s_nodes := (s_nodes s)(tp \<mapsto> t')\<rparr>) \<and>
    dlist o_nextSameNodePtr o_prevSameNodePtr os (n_firstObjectPtr t') (ys @ zs) (n_lastObjectPtr t') \<and>
    node_links t' = node_links t"
proof (cases zs)
  case Nil
  then have "merge_object_lists (Some tp) f s = Some s"
    using dlist_first [OF fl] by (simp add: merge_object_lists_def)
  moreover have "s\<lparr>s_objects := s_objects s, s_nodes := (s_nodes s)(tp \<mapsto> t)\<rparr> = s"
    using t by (simp add: fun_upd_idem)
  ultimately show ?thesis using tl Nil by (intro exI [of _ "s_objects s"] exI [of _ t]) simp
next
  case (Cons z zs')
  then have ff: "n_firstObjectPtr f = Some z" using dlist_first [OF fl] by simp
  show ?thesis
  proof (cases ys rule: rev_cases)
    case Nil
    then have "n_firstObjectPtr t = None" using dlist_first [OF tl] by simp
    then have "merge_object_lists (Some tp) f s = Some (s\<lparr>s_objects := s_objects s, s_nodes := (s_nodes s)
        (tp \<mapsto> t\<lparr>n_firstObjectPtr := n_firstObjectPtr f, n_lastObjectPtr := n_lastObjectPtr f\<rparr>)\<rparr>)"
      using ff t by (simp add: merge_object_lists_def updNode_def)
    then show ?thesis using fl Nil
      by (intro exI [of _ "s_objects s"] exI [of _ "t\<lparr>n_firstObjectPtr := n_firstObjectPtr f,
          n_lastObjectPtr := n_lastObjectPtr f\<rparr>"]) (simp add: node_links_def)
  next
    case (snoc us u)
    obtain u0 where ft: "n_firstObjectPtr t = Some u0" using dlist_first [OF tl] snoc by auto
    have lt: "n_lastObjectPtr t = Some u"
      using dlist_last [OF tl] snoc by simp
    obtain ku where ku: "s_objects s u = Some ku" using dlist_alloc [OF tl, of u] snoc by auto
    obtain kz where kz: "s_objects s z = Some kz" using dlist_alloc [OF fl, of z] Cons by auto
    have uz: "u \<noteq> z" using disj snoc Cons by auto
    define os where "os = (s_objects s)(z \<mapsto> kz\<lparr>o_prevSameNodePtr := n_lastObjectPtr t\<rparr>,
        u \<mapsto> ku\<lparr>o_nextSameNodePtr := n_firstObjectPtr f\<rparr>)"
    have "merge_object_lists (Some tp) f s = Some (s\<lparr>s_objects := os,
        s_nodes := (s_nodes s)(tp \<mapsto> t\<lparr>n_lastObjectPtr := n_lastObjectPtr f\<rparr>)\<rparr>)"
      using ff ft lt t ku kz uz by (simp add: merge_object_lists_def updObject_def updNode_def os_def)
    moreover have "dlist o_nextSameNodePtr o_prevSameNodePtr os (n_firstObjectPtr t) (ys @ zs) (n_lastObjectPtr f)"
      unfolding os_def snoc Cons
      by (rule sl.dlist_join) (use tl fl snoc Cons disj ku kz in simp_all)
    ultimately show ?thesis
      by (intro exI [of _ os] exI [of _ "t\<lparr>n_lastObjectPtr := n_lastObjectPtr f\<rparr>"])
        (simp add: node_links_def)
  qed
qed

lemma merge_objects_eq:
  assumes t: "s_nodes s tp = Some t" and f: "s_nodes s fp = Some f" and tf: "tp \<noteq> fp"
    and tl: "dlist o_nextSameNodePtr o_prevSameNodePtr (s_objects s) (n_firstObjectPtr t) ys (n_lastObjectPtr t)"
    and fl: "dlist o_nextSameNodePtr o_prevSameNodePtr (s_objects s) (n_firstObjectPtr f) zs (n_lastObjectPtr f)"
    and disj: "set ys \<inter> set zs = {}"
  shows "\<exists>os t'. merge_objects (Some tp) (Some fp) s =
      Some (s\<lparr>s_objects := os, s_nodes := (s_nodes s)(tp \<mapsto> t')\<rparr>) \<and>
    dlist o_nextSameNodePtr o_prevSameNodePtr os (n_firstObjectPtr t') (ys @ zs) (n_lastObjectPtr t') \<and>
    (\<forall>z \<in> set zs. fld o_nodePtr os z = Some tp) \<and> node_links t' = node_links t"
proof -
  obtain os t' where pre: "merge_object_lists (Some tp) f s =
      Some (s\<lparr>s_objects := os, s_nodes := (s_nodes s)(tp \<mapsto> t')\<rparr>)"
    and all: "dlist o_nextSameNodePtr o_prevSameNodePtr os (n_firstObjectPtr t') (ys @ zs) (n_lastObjectPtr t')"
    and links: "node_links t' = node_links t"
    using merge_object_lists_eq [OF t tl fl disj] by blast
  let ?s1 = "s\<lparr>s_objects := os, s_nodes := (s_nodes s)(tp \<mapsto> t')\<rparr>"
  let ?os = "set_node_of zs (Some tp) os"
  obtain k q where seg0: "dseg o_nextSameNodePtr o_prevSameNodePtr os k q zs (n_lastObjectPtr t') None"
    using all by (auto simp: dlist_def dseg_append)
  have "q = n_firstObjectPtr f" using dseg_first [OF seg0] dlist_first [OF fl] by simp
  then have seg: "dseg o_nextSameNodePtr o_prevSameNodePtr (s_objects ?s1) k (n_firstObjectPtr f) zs
      (n_lastObjectPtr t') None" using seg0 by simp
  note loop = set_node_loop [OF seg, of "Some tp"]
  have run: "merge_objects (Some tp) (Some fp) s = Some (s\<lparr>s_objects := ?os,
      s_nodes := (s_nodes s)(tp \<mapsto> t')\<rparr>)"
    using pre loop f tf by (simp add: merge_objects_def)
  have all': "dlist o_nextSameNodePtr o_prevSameNodePtr ?os (n_firstObjectPtr t') (ys @ zs) (n_lastObjectPtr t')"
    using all unfolding dlist_def
    by (subst dseg_cong [where m' = os]) (auto intro: set_node_of_links)
  have node: "fld o_nodePtr ?os z = Some tp" if z: "z \<in> set zs" for z
  proof -
    obtain ob where "os z = Some ob" using dseg_alloc [OF seg z] by auto
    then show ?thesis using z by (simp add: fld_def set_node_of_def)
  qed
  show ?thesis using run all' node links by blast
qed

lemma merge_run_leaf:
  assumes o1: "merge_objects (Some tp) (Some fp) s = Some s1"
    and o2: "merge_parents (Some tp) (Some fp) s1 = Some s2"
    and t: "s_nodes s2 tp = Some t" "n_firstChildPtr t = None" and f: "s_nodes s2 fp = Some f"
  shows "mergeNodeTrees (Some tp) (Some fp) s = Some (s2\<lparr>s_nodes := (s_nodes s2)(tp \<mapsto>
    t\<lparr>n_firstChildPtr := n_firstChildPtr f, n_lastChildPtr := n_lastChildPtr f\<rparr>, fp := None)\<rparr>)"
  unfolding mergeNodeTrees_def
  by (subst merge_run.simps) (simp add: o1 o2 t f updNode_def freeNode_def)

lemma mergeNodeTrees_leaf_lemma:
  assumes t: "s_nodes s tp = Some t" "n_firstChildPtr t = None" and f: "s_nodes s fp = Some f"
    and tf: "tp \<noteq> fp"
    and cl: "dlist n_nextPtr n_prevPtr (s_nodes s) (n_firstChildPtr f) cs (n_lastChildPtr f)"
    and cs: "tp \<notin> set cs" "fp \<notin> set cs"
    and yl: "node_objects s tp ys" and zl: "node_objects s fp zs" and disj: "set ys \<inter> set zs = {}"
  shows "\<exists>s' t'. mergeNodeTrees (Some tp) (Some fp) s = Some s' \<and>
    node_objects s' tp (ys @ zs) \<and> (\<forall>z \<in> set zs. object_node s' z = Some tp) \<and>
    s_nodes s' fp = None \<and> s_nodes s' tp = Some t' \<and>
    dlist n_nextPtr n_prevPtr (s_nodes s') (n_firstChildPtr t') cs (n_lastChildPtr t') \<and>
    (\<forall>c \<in> set cs. parent_in (s_nodes s') c = Some tp \<and>
       subid_in (s_nodes s') c = subid_in (s_nodes s) c) \<and>
    (\<forall>a. a \<notin> insert tp (insert fp (set cs)) \<longrightarrow> s_nodes s' a = s_nodes s a)"
proof -
  have tl: "dlist o_nextSameNodePtr o_prevSameNodePtr (s_objects s) (n_firstObjectPtr t) ys (n_lastObjectPtr t)"
    and fl: "dlist o_nextSameNodePtr o_prevSameNodePtr (s_objects s) (n_firstObjectPtr f) zs (n_lastObjectPtr f)"
    using yl zl t(1) f by (simp_all add: node_objects_def)
  obtain os t1 where run1: "merge_objects (Some tp) (Some fp) s =
      Some (s\<lparr>s_objects := os, s_nodes := (s_nodes s)(tp \<mapsto> t1)\<rparr>)"
    and all: "dlist o_nextSameNodePtr o_prevSameNodePtr os (n_firstObjectPtr t1) (ys @ zs) (n_lastObjectPtr t1)"
    and node: "\<forall>z \<in> set zs. fld o_nodePtr os z = Some tp" and links: "node_links t1 = node_links t"
    using merge_objects_eq [OF t(1) f tf tl fl disj] by blast
  define s1 where "s1 = s\<lparr>s_objects := os, s_nodes := (s_nodes s)(tp \<mapsto> t1)\<rparr>"
  have f1: "s_nodes s1 fp = Some f" using f tf by (simp add: s1_def)
  have cl1: "dlist n_nextPtr n_prevPtr (s_nodes s1) (n_firstChildPtr f) cs (n_lastChildPtr f)"
    using cl cs by (simp add: s1_def dlist_upd_other)
  define m2 where "m2 = set_parent_of cs (Some tp) (s_nodes s1)"
  define s2 where "s2 = s1\<lparr>s_nodes := m2\<rparr>"
  have run2: "merge_parents (Some tp) (Some fp) s1 = Some s2"
    unfolding s2_def m2_def by (rule merge_parents_eq [OF f1 cl1])
  have t2: "s_nodes s2 tp = Some t1" "n_firstChildPtr t1 = None" and f2: "s_nodes s2 fp = Some f"
    using cs f tf links t(2) by (simp_all add: s2_def m2_def set_parent_of_def s1_def node_links_def)
  define t' where "t' = t1\<lparr>n_firstChildPtr := n_firstChildPtr f, n_lastChildPtr := n_lastChildPtr f\<rparr>"
  define s' where "s' = s2\<lparr>s_nodes := m2(tp \<mapsto> t', fp := None)\<rparr>"
  have run: "mergeNodeTrees (Some tp) (Some fp) s = Some s'"
    using merge_run_leaf [OF run1 [folded s1_def] run2 t2 f2] by (simp add: s'_def t'_def s2_def)
  have dl: "dlist n_nextPtr n_prevPtr m2 (n_firstChildPtr f) cs (n_lastChildPtr f)"
    using cl1 unfolding dlist_def m2_def
    by (subst dseg_cong [where m' = "s_nodes s1"]) (auto intro: set_parent_of_links)
  have "dlist n_nextPtr n_prevPtr (s_nodes s') (n_firstChildPtr t') cs (n_lastChildPtr t')"
    using dl cs by (simp add: s'_def t'_def dlist_upd_other dlist_del_other)
  moreover have "parent_in (s_nodes s') c = Some tp \<and> subid_in (s_nodes s') c = subid_in (s_nodes s) c"
    if c: "c \<in> set cs" for c
  proof -
    obtain n where "s_nodes s c = Some n" using dlist_alloc [OF cl c] by auto
    moreover have "c \<noteq> tp" "c \<noteq> fp" using c cs by auto
    ultimately show ?thesis using c
      by (simp add: s'_def m2_def set_parent_of_def s1_def parent_in_def subid_in_def fld_def)
  qed
  moreover have "node_objects s' tp (ys @ zs)"
    using all tf by (simp add: node_objects_def s'_def s2_def s1_def t'_def)
  moreover have "s_nodes s' a = s_nodes s a" if "a \<notin> insert tp (insert fp (set cs))" for a
    using that by (simp add: s'_def m2_def set_parent_of_def s1_def)
  moreover have "\<forall>z \<in> set zs. object_node s' z = Some tp"
    using node by (simp add: object_node_def s'_def s2_def s1_def)
  moreover have "s_nodes s' fp = None" "s_nodes s' tp = Some t'" using tf by (simp_all add: s'_def)
  ultimately show ?thesis using run by blast
qed

end
