(* ===== verification/Smi_Type.thy ===== *)
theory Smi_Type
  imports Smi_Merge
begin

section \<open>Types\<close>

text \<open>
  \<^verbatim>\<open>smi-data.c\<close>: the types of a module, in the order they were defined.  A type may be used before
  it is defined: \<open>setTypeName\<close> then folds the definition into the type that holds the name.  The
  parent pointers form the chain of derivations that \<open>smiTypeDerivedFrom\<close> (\<^verbatim>\<open>util.c\<close>) follows.
\<close>

subsection \<open>Links\<close>

abbreviation (input) t_set_next :: "ptr option \<Rightarrow> Type \<Rightarrow> Type" where
  "t_set_next v \<equiv> t_nextPtr_update (\<lambda>_. v)"

abbreviation (input) t_set_prev :: "ptr option \<Rightarrow> Type \<Rightarrow> Type" where
  "t_set_prev v \<equiv> t_prevPtr_update (\<lambda>_. v)"

interpretation tl: linked_struct t_nextPtr t_prevPtr t_set_next t_set_prev
  by unfold_locales simp_all

definition type_list :: "smi \<Rightarrow> ptr \<Rightarrow> ptr list \<Rightarrow> bool" where
  "type_list s mp xs \<longleftrightarrow> (\<exists>m. s_modules s mp = Some m \<and>
     dlist t_nextPtr t_prevPtr (s_types s) (m_firstTypePtr m) xs (m_lastTypePtr m))"

definition name_of_type :: "smi \<Rightarrow> ptr \<Rightarrow> cstr" where
  "name_of_type s = fld (st_name \<circ> t_export) (s_types s)"

subsection \<open>Creation\<close>

definition zero_type :: Type where
  "zero_type = \<lparr>t_export = \<lparr>st_name = None, st_basetype = SMI_BASETYPE_UNKNOWN,
       st_decl = SMI_DECL_UNKNOWN, st_format = None, st_value = zero_value, st_units = None,
       st_status = SMI_STATUS_UNKNOWN, st_description = None, st_reference = None\<rparr>,
     t_modulePtr = None, t_parentPtr = None, t_listPtr = None, t_flags = 0, t_nextPtr = None,
     t_prevPtr = None, t_line = 0\<rparr>"

text \<open>The parser's module and line, as the constructors that accept a null parser read them.\<close>

definition parser_module :: "ptr option \<Rightarrow> smi \<Rightarrow> ptr option option" where
  "parser_module parserPtr s = (
     if parserPtr \<noteq> None then map_option p_modulePtr (deref (s_parsers s) parserPtr) else Some None)"

definition parser_line :: "ptr option \<Rightarrow> smi \<Rightarrow> int option" where
  "parser_line parserPtr s = (
     if parserPtr \<noteq> None then map_option p_line (deref (s_parsers s) parserPtr) else Some (- 1))"

text \<open>A new type at the end of its module's list.\<close>

definition append_type :: "ptr option \<Rightarrow> Type \<Rightarrow> smi \<Rightarrow> (ptr \<times> smi) option" where
  "append_type modulePtr t s = do {
     let p = s_next s;
     m \<leftarrow> deref (s_modules s) modulePtr;
     ts \<leftarrow> link_last t_set_next (m_lastTypePtr m) p
       ((s_types s)(p \<mapsto> t\<lparr>t_nextPtr := None, t_prevPtr := m_lastTypePtr m\<rparr>));
     s \<leftarrow> updModule modulePtr (\<lambda>m. m\<lparr>m_firstTypePtr := if_null (m_firstTypePtr m) p,
       m_lastTypePtr := Some p\<rparr>) s;
     Some (p, s\<lparr>s_next := Suc p, s_types := ts\<rparr>)
   }"

definition addType :: "cstr \<Rightarrow> SmiBasetype \<Rightarrow> u16 \<Rightarrow> ptr option \<Rightarrow> smi \<Rightarrow> (ptr \<times> smi) option" where
  "addType type_name basetype flags parserPtr s = do {
     modulePtr \<leftarrow> parser_module parserPtr s;
     line \<leftarrow> parser_line parserPtr s;
     let t = zero_type\<lparr>t_export := (t_export zero_type)\<lparr>st_name := type_name, st_basetype := basetype\<rparr>,
                       t_modulePtr := modulePtr, t_flags := flags, t_line := line\<rparr>;
     if modulePtr \<noteq> None then append_type modulePtr t s
     else Some (s_next s, s\<lparr>s_next := Suc (s_next s), s_types := (s_types s)(s_next s \<mapsto> t)\<rparr>)
   }"

definition setTypeParent :: "ptr option \<Rightarrow> ptr option \<Rightarrow> smi \<Rightarrow> smi option" where
  "setTypeParent typePtr parentPtr = updType typePtr (t_parentPtr_update (\<lambda>_. parentPtr))"

text \<open>The new type takes the template's flags; the argument \<open>flags\<close> is not used.\<close>

definition duplicateType :: "ptr option \<Rightarrow> u16 \<Rightarrow> ptr option \<Rightarrow> smi \<Rightarrow> (ptr \<times> smi) option" where
  "duplicateType templatePtr flags parserPtr s = do {
     parser \<leftarrow> deref (s_parsers s) parserPtr;
     template \<leftarrow> deref (s_types s) templatePtr;
     let t = zero_type\<lparr>t_export := (t_export zero_type)\<lparr>st_basetype := st_basetype (t_export template),
                         st_decl := SMI_DECL_IMPLICIT_TYPE, st_status := st_status (t_export template)\<rparr>,
                       t_modulePtr := p_modulePtr parser, t_flags := t_flags template,
                       t_line := p_line parser\<rparr>;
     (p, s) \<leftarrow> append_type (p_modulePtr parser) t s;
     s \<leftarrow> setTypeParent (Some p) templatePtr s;
     Some (p, s)
   }"

subsection \<open>\<open>setTypeName\<close>\<close>

text \<open>The named numbers of an enumeration follow their type.\<close>

definition retarget_numbers :: "ptr option \<Rightarrow> ptr \<Rightarrow> smi \<Rightarrow> smi option" where
  "retarget_numbers listPtr q = for_list s_lists l_nextPtr (\<lambda>a s. do {
     l \<leftarrow> s_lists s a;
     updNamedNumber (l_ptr l) (nn_typePtr_update (\<lambda>_. Some q)) s
   }) listPtr"

definition take_over :: "Type \<Rightarrow> Type \<Rightarrow> Type" where
  "take_over t t2 = t2\<lparr>t_export := (t_export t)\<lparr>st_name := st_name (t_export t2)\<rparr>,
     t_parentPtr := t_parentPtr t, t_listPtr := t_listPtr t, t_flags := t_flags t, t_line := t_line t\<rparr>"

definition setTypeName :: "ptr option \<Rightarrow> cstr \<Rightarrow> smi \<Rightarrow> (ptr option \<times> smi) option" where
  "setTypeName typePtr name s = do {
     s \<leftarrow> updType typePtr (t_export_update (st_name_update (\<lambda>_. name))) s;
     if name = None then Some (typePtr, s)
     else do {
       t \<leftarrow> deref (s_types s) typePtr;
       m \<leftarrow> deref (s_modules s) (t_modulePtr t);
       type2Ptr \<leftarrow> walk (s_types s) t_nextPtr (\<lambda>a t2. do {
           eq \<leftarrow> named (st_name (t_export t2)) name;
           Some (eq \<and> Some a \<noteq> typePtr)
         }) (m_firstTypePtr m);
       case type2Ptr of None \<Rightarrow> Some (typePtr, s)
       | Some q \<Rightarrow> do {
           (ts, f, l) \<leftarrow> unlink t_nextPtr t_prevPtr t_set_next t_set_prev typePtr
             (s_types s, m_firstTypePtr m, m_lastTypePtr m);
           s \<leftarrow> updModule (t_modulePtr t) (\<lambda>m. m\<lparr>m_firstTypePtr := f, m_lastTypePtr := l\<rparr>)
             (s\<lparr>s_types := ts\<rparr>);
           s \<leftarrow> updType (Some q) (take_over t) s;
           t2 \<leftarrow> s_types s q;
           s \<leftarrow> (if st_basetype (t_export t2) = SMI_BASETYPE_ENUM \<or>
                   st_basetype (t_export t2) = SMI_BASETYPE_BITS
                 then retarget_numbers (t_listPtr t2) q s else Some s);
           p \<leftarrow> typePtr;
           Some (Some q, s\<lparr>s_types := (s_types s)(p := None)\<rparr>)
         }
     }
   }"

subsection \<open>Attributes\<close>

definition setTypeStatus :: "ptr option \<Rightarrow> SmiStatus \<Rightarrow> smi \<Rightarrow> smi option" where
  "setTypeStatus typePtr status = updType typePtr (t_export_update (st_status_update (\<lambda>_. status)))"

definition setTypeBasetype :: "ptr option \<Rightarrow> SmiBasetype \<Rightarrow> smi \<Rightarrow> smi option" where
  "setTypeBasetype typePtr basetype = updType typePtr (t_export_update (st_basetype_update (\<lambda>_. basetype)))"

definition setTypeFormat :: "ptr option \<Rightarrow> cstr \<Rightarrow> smi \<Rightarrow> smi option" where
  "setTypeFormat typePtr format = updType typePtr (t_export_update (st_format_update (\<lambda>_. format)))"

definition setTypeUnits :: "ptr option \<Rightarrow> cstr \<Rightarrow> smi \<Rightarrow> smi option" where
  "setTypeUnits typePtr units = updType typePtr (t_export_update (st_units_update (\<lambda>_. units)))"

definition setTypeDecl :: "ptr option \<Rightarrow> SmiDecl \<Rightarrow> smi \<Rightarrow> smi option" where
  "setTypeDecl typePtr decl = updType typePtr (t_export_update (st_decl_update (\<lambda>_. decl)))"

definition setTypeValue :: "ptr option \<Rightarrow> SmiValue \<Rightarrow> smi \<Rightarrow> smi option" where
  "setTypeValue typePtr value = updType typePtr (t_export_update (st_value_update (\<lambda>_. value)))"

definition setTypeDescription :: "ptr option \<Rightarrow> cstr \<Rightarrow> ptr option \<Rightarrow> smi \<Rightarrow> smi option" where
  "setTypeDescription typePtr description parserPtr s = do {
     d \<leftarrow> kept_text parserPtr description s;
     updType typePtr (t_export_update (st_description_update (\<lambda>_. d))) s
   }"

definition setTypeReference :: "ptr option \<Rightarrow> cstr \<Rightarrow> ptr option \<Rightarrow> smi \<Rightarrow> smi option" where
  "setTypeReference typePtr reference parserPtr s = do {
     d \<leftarrow> kept_text parserPtr reference s;
     updType typePtr (t_export_update (st_reference_update (\<lambda>_. d))) s
   }"

definition setTypeLine :: "ptr option \<Rightarrow> int \<Rightarrow> ptr option \<Rightarrow> smi \<Rightarrow> smi option" where
  "setTypeLine typePtr line parserPtr s = do {
     l \<leftarrow> given_line line parserPtr s;
     updType typePtr (t_line_update (\<lambda>_. l)) s
   }"

text \<open>The first list a type is given stays.\<close>

definition setTypeList :: "ptr option \<Rightarrow> ptr option \<Rightarrow> smi \<Rightarrow> smi option" where
  "setTypeList typePtr listPtr =
     updType typePtr (t_listPtr_update (\<lambda>l. if l = None then listPtr else l))"

definition addTypeFlags :: "ptr option \<Rightarrow> u16 \<Rightarrow> smi \<Rightarrow> smi option" where
  "addTypeFlags typePtr flags = updType typePtr (t_flags_update (\<lambda>f. set_flags f flags))"

definition deleteTypeFlags :: "ptr option \<Rightarrow> u16 \<Rightarrow> smi \<Rightarrow> smi option" where
  "deleteTypeFlags typePtr flags = updType typePtr (t_flags_update (\<lambda>f. clear_flags f flags))"

subsection \<open>Searches\<close>

definition types_named :: "smi \<Rightarrow> cstr \<Rightarrow> Module \<Rightarrow> ptr option option" where
  "types_named s type_name m =
     walk (s_types s) t_nextPtr (\<lambda>_ t. named (st_name (t_export t)) type_name) (m_firstTypePtr m)"

definition findTypeByName :: "cstr \<Rightarrow> smi \<Rightarrow> ptr option option" where
  "findTypeByName type_name s = do {
     h \<leftarrow> theHandle s;
     walk_first (s_modules s) m_nextPtr (\<lambda>_ m. types_named s type_name m) (h_firstModulePtr h)
   }"

definition findNextTypeByName :: "cstr \<Rightarrow> ptr option \<Rightarrow> smi \<Rightarrow> ptr option option" where
  "findNextTypeByName type_name prevTypePtr s = do {
     prev \<leftarrow> deref (s_types s) prevTypePtr;
     pm \<leftarrow> deref (s_modules s) (t_modulePtr prev);
     walk_first (s_modules s) m_nextPtr (\<lambda>_ m. types_named s type_name m) (m_nextPtr pm)
   }"

definition findTypeByModuleAndName :: "ptr option \<Rightarrow> cstr \<Rightarrow> smi \<Rightarrow> ptr option option" where
  "findTypeByModuleAndName modulePtr type_name s = (
     if modulePtr \<noteq> None then do {
       m \<leftarrow> deref (s_modules s) modulePtr;
       types_named s type_name m
     } else Some None)"

definition findTypeByModulenameAndName :: "cstr \<Rightarrow> cstr \<Rightarrow> smi \<Rightarrow> ptr option option" where
  "findTypeByModulenameAndName modulename type_name s = do {
     modulePtr \<leftarrow> findModuleByName modulename s;
     findTypeByModuleAndName modulePtr type_name s
   }"

text \<open>The member \<open>integer32\<close> of a value, a 64-bit word on LP64 platforms.\<close>

definition integer32 :: "SmiValue \<Rightarrow> u64 option" where
  "integer32 v = (case sv_value v of UWord w \<Rightarrow> Some w | _ \<Rightarrow> None)"

text \<open>The loop leaves \<open>listPtr\<close> null when no number matches, and the code dereferences it.\<close>

definition findTypeNamedNumber :: "ptr option \<Rightarrow> u64 \<Rightarrow> smi \<Rightarrow> ptr option option" where
  "findTypeNamedNumber typePtr number s = do {
     t \<leftarrow> deref (s_types s) typePtr;
     listPtr \<leftarrow> walk (s_lists s) l_nextPtr (\<lambda>_ l. do {
         nn \<leftarrow> deref (s_namednumbers s) (l_ptr l);
         v \<leftarrow> integer32 (snn_value (nn_export nn));
         Some (v = number)
       }) (t_listPtr t);
     l \<leftarrow> deref (s_lists s) listPtr;
     Some (l_ptr l)
   }"

definition findNamedNumberByName :: "ptr option \<Rightarrow> cstr \<Rightarrow> smi \<Rightarrow> ptr option option" where
  "findNamedNumberByName typePtr name s = do {
     t \<leftarrow> deref (s_types s) typePtr;
     if st_basetype (t_export t) \<noteq> SMI_BASETYPE_ENUM \<and> st_basetype (t_export t) \<noteq> SMI_BASETYPE_BITS
     then Some None
     else do {
       listPtr \<leftarrow> walk (s_lists s) l_nextPtr (\<lambda>_ l. do {
           nn \<leftarrow> deref (s_namednumbers s) (l_ptr l);
           streq (snn_name (nn_export nn)) name
         }) (t_listPtr t);
       (if listPtr = None then Some None
        else do {
          l \<leftarrow> deref (s_lists s) listPtr;
          Some (l_ptr l)
        })
     }
   }"

definition smiTypeDerivedFrom :: "ptr option \<Rightarrow> ptr option \<Rightarrow> smi \<Rightarrow> bool option" where
  "smiTypeDerivedFrom typePtr parentTypePtr s = (
     if typePtr = None \<or> parentTypePtr = None then Some False
     else map_option (\<lambda>r. r \<noteq> None)
       (walk (s_types s) t_parentPtr (\<lambda>a _. Some (parentTypePtr = Some a)) typePtr))"

subsection \<open>Appending\<close>

context linked_struct begin

lemma append_named:
  assumes dl: "dlist nx pv m f xs l" "m x = None" "pv n = l" "nx n = None"
    and d: "\<And>v n. d (set_nx v n) = d n"
  obtains m' where "link_last set_nx l x (m(x \<mapsto> n)) = Some m'"
    and "dlist nx pv m' (if_null f x) (xs @ [x]) (Some x)"
    and "m' x = Some n"
    and "fld d m' = (fld d m)(x := d n)"
proof -
  obtain m' where m': "link_last set_nx l x (m(x \<mapsto> n)) = Some m'"
    "dlist nx pv m' (if_null f x) (xs @ [x]) (Some x)" "m' x = Some n"
    using append_tail [OF dl] by blast
  have "fld d m' = (fld d m)(x := d n)"
    using link_last_fld [OF m'(1), of d] d by auto
  then show thesis by (rule that [OF m'])
qed

end

lemma append_type_lemma:
  assumes tl: "type_list s mp xs" and fresh: "s_types s (s_next s) = None"
  obtains ts m where "append_type (Some mp) t s = Some (s_next s, s\<lparr>s_next := Suc (s_next s),
      s_types := ts, s_modules := (s_modules s)(mp \<mapsto> m)\<rparr>)"
    and "type_list (s\<lparr>s_next := Suc (s_next s), s_types := ts, s_modules := (s_modules s)(mp \<mapsto> m)\<rparr>)
      mp (xs @ [s_next s])"
    and "map_option (\<lambda>k. k\<lparr>t_nextPtr := None, t_prevPtr := None\<rparr>) (ts (s_next s)) =
      Some (t\<lparr>t_nextPtr := None, t_prevPtr := None\<rparr>)"
    and "fld (st_name \<circ> t_export) ts = (fld (st_name \<circ> t_export) (s_types s))(s_next s := st_name (t_export t))"
proof -
  let ?p = "s_next s"
  obtain m where m: "s_modules s mp = Some m"
    and dl: "dlist t_nextPtr t_prevPtr (s_types s) (m_firstTypePtr m) xs (m_lastTypePtr m)"
    using tl by (auto simp: type_list_def)
  let ?n = "t\<lparr>t_nextPtr := None, t_prevPtr := m_lastTypePtr m\<rparr>"
  have n: "t_prevPtr ?n = m_lastTypePtr m" "t_nextPtr ?n = None" by simp_all
  obtain ts where ts: "link_last t_set_next (m_lastTypePtr m) ?p ((s_types s)(?p \<mapsto> ?n)) = Some ts"
    "dlist t_nextPtr t_prevPtr ts (if_null (m_firstTypePtr m) ?p) (xs @ [?p]) (Some ?p)"
    "ts ?p = Some ?n" using tl.append_tail [OF dl fresh n] by blast
  have nm: "fld (st_name \<circ> t_export) ts = (fld (st_name \<circ> t_export) (s_types s))(?p := st_name (t_export t))"
    using tl.link_last_fld [OF ts(1), of "st_name \<circ> t_export"] by auto
  show thesis
    by (rule that [where ts = ts and m = "m\<lparr>m_firstTypePtr := if_null (m_firstTypePtr m) ?p,
        m_lastTypePtr := Some ?p\<rparr>"])
      (use m ts nm in \<open>simp_all add: append_type_def Let_def updModule_def type_list_def\<close>)
qed

text \<open>\<open>duplicateType\<close> appends a type derived from its template, with the template's base type.\<close>

lemma duplicateType_lemma:
  assumes pr: "deref (s_parsers s) parserPtr = Some pr" "p_modulePtr pr = Some mp"
    and t: "s_types s tp = Some t"
    and tl: "type_list s mp xs" and fresh: "s_types s (s_next s) = None"
  shows "\<exists>s' n. duplicateType (Some tp) fl parserPtr s = Some (s_next s, s') \<and>
    type_list s' mp (xs @ [s_next s]) \<and> s_types s' (s_next s) = Some n \<and>
    t_parentPtr n = Some tp \<and> t_flags n = t_flags t \<and> t_modulePtr n = Some mp \<and>
    t_export n = (t_export zero_type)\<lparr>st_basetype := st_basetype (t_export t),
      st_decl := SMI_DECL_IMPLICIT_TYPE, st_status := st_status (t_export t)\<rparr>"
proof -
  let ?p = "s_next s"
  define n0 where "n0 = zero_type\<lparr>t_export := (t_export zero_type)\<lparr>st_basetype := st_basetype (t_export t),
      st_decl := SMI_DECL_IMPLICIT_TYPE, st_status := st_status (t_export t)\<rparr>,
      t_modulePtr := p_modulePtr pr, t_flags := t_flags t, t_line := p_line pr\<rparr>"
  obtain ts m where app: "append_type (Some mp) n0 s = Some (?p, s\<lparr>s_next := Suc ?p,
      s_types := ts, s_modules := (s_modules s)(mp \<mapsto> m)\<rparr>)"
    and tl': "type_list (s\<lparr>s_next := Suc ?p, s_types := ts, s_modules := (s_modules s)(mp \<mapsto> m)\<rparr>)
      mp (xs @ [?p])"
    and new: "map_option (\<lambda>k. k\<lparr>t_nextPtr := None, t_prevPtr := None\<rparr>) (ts ?p) =
      Some (n0\<lparr>t_nextPtr := None, t_prevPtr := None\<rparr>)"
    by (rule append_type_lemma [OF tl fresh, where t = n0], rule that)
  obtain n where n: "ts ?p = Some n" "n\<lparr>t_nextPtr := None, t_prevPtr := None\<rparr> =
      n0\<lparr>t_nextPtr := None, t_prevPtr := None\<rparr>" using new by auto
  have "t_export n = t_export n0" "t_flags n = t_flags n0" "t_modulePtr n = t_modulePtr n0"
    using arg_cong [OF n(2), of t_export] arg_cong [OF n(2), of t_flags]
      arg_cong [OF n(2), of t_modulePtr] by simp_all
  then have fs: "t_flags n = t_flags t" "t_modulePtr n = Some mp" "t_export n =
      (t_export zero_type)\<lparr>st_basetype := st_basetype (t_export t),
      st_decl := SMI_DECL_IMPLICIT_TYPE, st_status := st_status (t_export t)\<rparr>"
    using pr by (simp_all add: n0_def)
  define s' where "s' = s\<lparr>s_next := Suc ?p, s_types := ts(?p \<mapsto> n\<lparr>t_parentPtr := Some tp\<rparr>),
      s_modules := (s_modules s)(mp \<mapsto> m)\<rparr>"
  have "duplicateType (Some tp) fl parserPtr s = Some (?p, s')"
    using pr t app n(1) by (simp add: duplicateType_def Let_def n0_def setTypeParent_def updType_def s'_def)
  moreover have "type_list s' mp (xs @ [?p])"
    using tl' n(1) by (auto simp: type_list_def s'_def dlist_upd_data)
  ultimately show ?thesis using fs by (simp add: s'_def)
qed

lemma addType_lemma:
  assumes pr: "deref (s_parsers s) parserPtr = Some pr" "p_modulePtr pr = Some mp"
    and tl: "type_list s mp xs" and fresh: "s_types s (s_next s) = None"
  shows "\<exists>s'. addType nm bt fl parserPtr s = Some (s_next s, s') \<and>
    type_list s' mp (xs @ [s_next s]) \<and> name_of_type s' = (name_of_type s)(s_next s := nm)"
proof -
  define n0 where "n0 = zero_type\<lparr>t_export := (t_export zero_type)\<lparr>st_name := nm, st_basetype := bt\<rparr>,
      t_modulePtr := Some mp, t_flags := fl, t_line := p_line pr\<rparr>"
  have "parserPtr \<noteq> None" using pr(1) by (cases parserPtr) simp_all
  then have eq: "addType nm bt fl parserPtr s = append_type (Some mp) n0 s"
    using pr by (simp add: addType_def parser_module_def parser_line_def Let_def n0_def)
  show ?thesis
    by (rule append_type_lemma [OF tl fresh, where t = n0])
      (simp add: eq name_of_type_def n0_def)
qed

subsection \<open>Lookups\<close>

lemma types_named_eq:
  assumes "type_list s mp xs" and "s_modules s mp = Some m"
  shows "types_named s (Some nm) m = Some (List.find (\<lambda>p. name_of_type s p = Some nm) xs)"
  using assms walk_named [of t_nextPtr t_prevPtr "s_types s" "m_firstTypePtr m" xs
      "m_lastTypePtr m" "st_name \<circ> t_export" nm]
  by (auto simp: types_named_def type_list_def name_of_type_def)

lemma findTypeByModulenameAndName_lemma:
  assumes ml: "module_list s ms" and tl: "\<And>mp. mp \<in> set ms \<Longrightarrow> type_list s mp (ts mp)"
  shows "findTypeByModulenameAndName (Some mn) (Some nm) s = Some (
    case List.find (\<lambda>mp. name_of_module s mp = Some mn) ms of None \<Rightarrow> None
    | Some mp \<Rightarrow> List.find (\<lambda>p. name_of_type s p = Some nm) (ts mp))"
proof (cases "List.find (\<lambda>mp. name_of_module s mp = Some mn) ms")
  case None
  then show ?thesis using findModuleByName_lemma [OF ml, of mn]
    by (simp add: findTypeByModulenameAndName_def findTypeByModuleAndName_def)
next
  case (Some mp)
  then have mp: "mp \<in> set ms" using find_SomeD by fast
  obtain m where "s_modules s mp = Some m" using tl [OF mp] by (auto simp: type_list_def)
  then show ?thesis using findModuleByName_lemma [OF ml, of mn] Some types_named_eq [OF tl [OF mp]]
    by (simp add: findTypeByModulenameAndName_def findTypeByModuleAndName_def)
qed

subsection \<open>Named numbers\<close>

text \<open>A singly linked list of named numbers, with their values.\<close>

fun number_list :: "smi \<Rightarrow> ptr option \<Rightarrow> (ptr \<times> u64) list \<Rightarrow> bool" where
  "number_list s p [] \<longleftrightarrow> p = None"
| "number_list s p ((q, v) # xs) \<longleftrightarrow> (\<exists>a l nn. p = Some a \<and> s_lists s a = Some l \<and> l_ptr l = Some q \<and>
     s_namednumbers s q = Some nn \<and> integer32 (snn_value (nn_export nn)) = Some v \<and>
     number_list s (l_nextPtr l) xs)"

lemma walk_numbers:
  assumes "number_list s p xs"
  shows "Option.bind (walk (s_lists s) l_nextPtr (\<lambda>_ l. do {
         nn \<leftarrow> deref (s_namednumbers s) (l_ptr l);
         v \<leftarrow> integer32 (snn_value (nn_export nn));
         Some (v = number)
       }) p) (\<lambda>listPtr. Option.bind (deref (s_lists s) listPtr) (\<lambda>l. Some (l_ptr l))) =
    map_option (\<lambda>(q, _). Some q) (List.find (\<lambda>(_, v). v = number) xs)"
  using assms
proof (induction xs arbitrary: p)
  case Nil
  then show ?case by simp
next
  case (Cons x xs)
  obtain q v where x: "x = (q, v)" by fastforce
  with Cons.prems obtain a l nn where "p = Some a" "s_lists s a = Some l" "l_ptr l = Some q"
    "s_namednumbers s q = Some nn" "integer32 (snn_value (nn_export nn)) = Some v"
    and rest: "number_list s (l_nextPtr l) xs" by auto
  then show ?case using Cons.IH [OF rest] x by (simp add: walk_Some)
qed

lemma findTypeNamedNumber_lemma:
  assumes t: "s_types s tp = Some t" and nl: "number_list s (t_listPtr t) xs"
  shows "findTypeNamedNumber (Some tp) number s =
    map_option (\<lambda>(q, _). Some q) (List.find (\<lambda>(_, v). v = number) xs)"
  using walk_numbers [OF nl, of number] t by (simp add: findTypeNamedNumber_def)

subsection \<open>Derivation\<close>

text \<open>The chain of parents of a type, from the type itself.\<close>

fun parent_chain :: "(ptr \<rightharpoonup> Type) \<Rightarrow> ptr option \<Rightarrow> ptr list \<Rightarrow> bool" where
  "parent_chain m p [] \<longleftrightarrow> p = None"
| "parent_chain m p (x # xs) \<longleftrightarrow> p = Some x \<and> (\<exists>t. m x = Some t \<and> parent_chain m (t_parentPtr t) xs)"

lemma smiTypeDerivedFrom_lemma:
  assumes "parent_chain (s_types s) (Some p) xs"
  shows "smiTypeDerivedFrom (Some p) (Some q) s = Some (q \<in> set xs)"
proof -
  have "walk (s_types s) t_parentPtr (\<lambda>a _. Some (Some q = Some a)) r =
      Some (if q \<in> set xs then Some q else None)" if "parent_chain (s_types s) r xs" for r
    using that by (induction xs arbitrary: r) (auto simp: walk_Some)
  from this [OF assms] show ?thesis by (simp add: smiTypeDerivedFrom_def)
qed

subsection \<open>\<open>setTypeName\<close>: functional behaviour\<close>

lemma number_list_cong:
  "s_lists s = s_lists s' \<Longrightarrow> s_namednumbers s = s_namednumbers s' \<Longrightarrow>
    number_list s p xs = number_list s' p xs"
proof (induction xs arbitrary: p)
  case Nil
  then show ?case by simp
next
  case (Cons x xs)
  then show ?case by (cases x) simp
qed

definition retargeted :: "ptr set \<Rightarrow> ptr \<Rightarrow> (ptr \<rightharpoonup> NamedNumber) \<Rightarrow> (ptr \<rightharpoonup> NamedNumber)" where
  "retargeted A q m = (\<lambda>a. if a \<in> A then map_option (nn_typePtr_update (\<lambda>_. Some q)) (m a) else m a)"

lemma number_list_retarget:
  assumes "number_list s p xs"
  shows "number_list (s\<lparr>s_namednumbers := retargeted A q (s_namednumbers s)\<rparr>) p xs"
  using assms
proof (induction xs arbitrary: p)
  case Nil
  then show ?case by simp
next
  case (Cons x xs)
  obtain k v where x: "x = (k, v)" by fastforce
  with Cons.prems obtain a l nn where "p = Some a" "s_lists s a = Some l" "l_ptr l = Some k"
    "s_namednumbers s k = Some nn" "integer32 (snn_value (nn_export nn)) = Some v"
    and rest: "number_list s (l_nextPtr l) xs" by auto
  then show ?case using Cons.IH [OF rest] x by (simp add: retargeted_def)
qed

lemma retarget_numbers_eq:
  assumes "number_list s p xs"
  shows "retarget_numbers p q s =
    Some (s\<lparr>s_namednumbers := retargeted (fst ` set xs) q (s_namednumbers s)\<rparr>)"
  using assms
proof (induction xs arbitrary: p s)
  case Nil
  then show ?case by (simp add: retarget_numbers_def retargeted_def)
next
  case (Cons x xs)
  obtain k v where x: "x = (k, v)" by fastforce
  with Cons.prems obtain a l nn where a: "p = Some a" "s_lists s a = Some l" "l_ptr l = Some k"
    "s_namednumbers s k = Some nn" and rest: "number_list s (l_nextPtr l) xs" by auto
  define s1 where "s1 = s\<lparr>s_namednumbers := retargeted {k} q (s_namednumbers s)\<rparr>"
  have "(s_namednumbers s)(k \<mapsto> nn\<lparr>nn_typePtr := Some q\<rparr>) = retargeted {k} q (s_namednumbers s)"
    using a by (simp add: retargeted_def fun_eq_iff)
  then have step: "retarget_numbers p q s = retarget_numbers (l_nextPtr l) q s1"
    using a by (simp add: retarget_numbers_def for_list_Some updNamedNumber_def s1_def)
  have "number_list s1 (l_nextPtr l) xs" unfolding s1_def by (rule number_list_retarget [OF rest])
  from Cons.IH [OF this] have "retarget_numbers p q s =
      Some (s1\<lparr>s_namednumbers := retargeted (fst ` set xs) q (s_namednumbers s1)\<rparr>)"
    using step by simp
  moreover have "retargeted (fst ` set xs) q (retargeted {k} q m) = retargeted (fst ` set (x # xs)) q m"
    for m
  proof
    fix y show "retargeted (fst ` set xs) q (retargeted {k} q m) y = retargeted (fst ` set (x # xs)) q m y"
      by (cases "m y") (auto simp: retargeted_def x)
  qed
  ultimately show ?case by (simp add: s1_def)
qed

definition enumerated :: "SmiBasetype \<Rightarrow> bool" where
  "enumerated b \<longleftrightarrow> b = SMI_BASETYPE_ENUM \<or> b = SMI_BASETYPE_BITS"

lemma setTypeName_walk:
  assumes dl: "dlist t_nextPtr t_prevPtr m f xs l" and p: "m p = Some t1"
  shows "walk m t_nextPtr (\<lambda>a t2. do {
           eq \<leftarrow> named (st_name (t_export t2)) (Some nm);
           Some (eq \<and> Some a \<noteq> Some p)
         }) f = Some (List.find (\<lambda>q. q \<noteq> p \<and> fld (st_name \<circ> t_export) m q = Some nm) xs)"
  using dl by (rule walk_dlist) auto

lemma setTypeName_fresh_lemma:
  assumes tl: "type_list s mp xs" and t: "s_types s p = Some t" "t_modulePtr t = Some mp"
    and none: "\<And>q. q \<in> set xs \<Longrightarrow> q \<noteq> p \<Longrightarrow> name_of_type s q \<noteq> Some nm"
  shows "setTypeName (Some p) (Some nm) s = Some (Some p, s\<lparr>s_types := (s_types s)(p \<mapsto>
    t_export_update (st_name_update (\<lambda>_. Some nm)) t)\<rparr>)"
proof -
  define t1 where "t1 = t_export_update (st_name_update (\<lambda>_. Some nm)) t"
  define T where "T = (s_types s)(p \<mapsto> t1)"
  obtain m where m: "s_modules s mp = Some m"
    and dl: "dlist t_nextPtr t_prevPtr (s_types s) (m_firstTypePtr m) xs (m_lastTypePtr m)"
    using tl by (auto simp: type_list_def)
  have dl1: "dlist t_nextPtr t_prevPtr T (m_firstTypePtr m) xs (m_lastTypePtr m)"
    unfolding T_def using dl t(1) by (simp add: dlist_upd_data t1_def)
  have "List.find (\<lambda>q. q \<noteq> p \<and> fld (st_name \<circ> t_export) T q = Some nm) xs = None"
    using none by (auto simp: find_None_iff T_def name_of_type_def)
  with setTypeName_walk [OF dl1, of p t1 nm] show ?thesis
    using t m unfolding T_def t1_def
    by (simp add: setTypeName_def updType_def)
qed

lemma setTypeName_known_lemma:
  assumes tl: "type_list s mp (us @ p # vs)" and t: "s_types s p = Some t" "t_modulePtr t = Some mp"
    and q: "List.find (\<lambda>q. q \<noteq> p \<and> name_of_type s q = Some nm) (us @ p # vs) = Some q"
    and ns: "enumerated (st_basetype (t_export t)) \<Longrightarrow> number_list s (t_listPtr t) ns"
  shows "\<exists>s' t2. setTypeName (Some p) (Some nm) s = Some (Some q, s') \<and>
    type_list s' mp (us @ vs) \<and> s_types s' p = None \<and> s_types s' q = Some t2 \<and>
    t_export t2 = (t_export t)\<lparr>st_name := Some nm\<rparr> \<and> t_parentPtr t2 = t_parentPtr t \<and>
    t_listPtr t2 = t_listPtr t \<and> t_flags t2 = t_flags t \<and>
    s_namednumbers s' = (if enumerated (st_basetype (t_export t))
      then retargeted (fst ` set ns) q (s_namednumbers s) else s_namednumbers s)"
proof -
  define t1 where "t1 = t_export_update (st_name_update (\<lambda>_. Some nm)) t"
  define T where "T = (s_types s)(p \<mapsto> t1)"
  define b where "b = (if us = [] then None else Some (last us))"
  define a where "a = (if vs = [] then None else Some (hd vs))"
  define U where "U = tl.unlinked b a T"
  obtain m where m: "s_modules s mp = Some m"
    and dl: "dlist t_nextPtr t_prevPtr (s_types s) (m_firstTypePtr m) (us @ p # vs) (m_lastTypePtr m)"
    using tl by (auto simp: type_list_def)
  define m' where "m' = m\<lparr>m_firstTypePtr := (if us = [] then a else m_firstTypePtr m),
      m_lastTypePtr := (if vs = [] then b else m_lastTypePtr m)\<rparr>"
  have dl1: "dlist t_nextPtr t_prevPtr T (m_firstTypePtr m) (us @ p # vs) (m_lastTypePtr m)"
    unfolding T_def using dl t(1) by (simp add: dlist_upd_data t1_def)
  have "List.find (\<lambda>q. q \<noteq> p \<and> fld (st_name \<circ> t_export) T q = Some nm) (us @ p # vs) =
      List.find (\<lambda>q. q \<noteq> p \<and> name_of_type s q = Some nm) (us @ p # vs)"
    by (rule find_cong_set) (auto simp: T_def name_of_type_def)
  then have w: "walk T t_nextPtr (\<lambda>a t2. do {
           eq \<leftarrow> named (st_name (t_export t2)) (Some nm);
           Some (eq \<and> Some a \<noteq> Some p)
         }) (m_firstTypePtr m) = Some (Some q)"
    using setTypeName_walk [OF dl1, of p t1 nm] q by (simp add: T_def)
  have qp: "q \<noteq> p" "q \<in> set (us @ vs)" and nq: "name_of_type s q = Some nm"
    using find_SomeD [OF q] by auto
  have un: "unlink t_nextPtr t_prevPtr t_set_next t_set_prev (Some p)
      (T, m_firstTypePtr m, m_lastTypePtr m) = Some (U, m_firstTypePtr m', m_lastTypePtr m')"
    using tl.unlink_eq [OF dl1 b_def a_def] by (simp add: U_def m'_def)
  have dl2: "dlist t_nextPtr t_prevPtr U (m_firstTypePtr m') (us @ vs) (m_lastTypePtr m')"
    using tl.dlist_unlinked [OF dl1 b_def a_def] by (simp add: U_def m'_def)
  obtain t2 where t2: "U q = Some t2" using dlist_alloc [OF dl2 qp(2)] by auto
  have "fld (st_name \<circ> t_export) U q = fld (st_name \<circ> t_export) T q"
    unfolding U_def by (subst tl.unlinked_fld) simp_all
  then have n2: "st_name (t_export t2) = Some nm"
    using t2 nq qp by (simp add: T_def name_of_type_def)
  define t2' where "t2' = take_over t1 t2"
  have pn: "p \<notin> set (us @ vs)" using dlist_distinct [OF dl] by simp
  have t2e: "t_export t2' = (t_export t)\<lparr>st_name := Some nm\<rparr>" "t_parentPtr t2' = t_parentPtr t"
    "t_listPtr t2' = t_listPtr t" "t_flags t2' = t_flags t"
    using n2 by (simp_all add: t2'_def take_over_def t1_def)
  define s2 where "s2 = s\<lparr>s_types := U(q \<mapsto> t2'), s_modules := (s_modules s)(mp \<mapsto> m')\<rparr>"
  define nn where "nn = (if enumerated (st_basetype (t_export t))
      then retargeted (fst ` set ns) q (s_namednumbers s) else s_namednumbers s)"
  have rt: "(if st_basetype (t_export t2') = SMI_BASETYPE_ENUM \<or> st_basetype (t_export t2') = SMI_BASETYPE_BITS
      then retarget_numbers (t_listPtr t2') q s2 else Some s2) = Some (s2\<lparr>s_namednumbers := nn\<rparr>)"
  proof (cases "enumerated (st_basetype (t_export t))")
    case True
    have "number_list s2 (t_listPtr t) ns" if "number_list s (t_listPtr t) ns"
      using that number_list_cong [of s s2] by (simp add: s2_def)
    then have "number_list s2 (t_listPtr t) ns" using ns [OF True] by simp
    from retarget_numbers_eq [OF this, of q] show ?thesis
      using True t2e by (simp add: enumerated_def nn_def s2_def)
  next
    case False
    then show ?thesis using t2e by (simp add: enumerated_def nn_def s2_def)
  qed
  define s' where "s' = s2\<lparr>s_namednumbers := nn, s_types := (U(q \<mapsto> t2'))(p := None)\<rparr>"
  have mm: "m\<lparr>m_firstTypePtr := m_firstTypePtr m', m_lastTypePtr := m_lastTypePtr m'\<rparr> = m'"
    by (simp add: m'_def)
  have run: "setTypeName (Some p) (Some nm) s = Some (Some q, s')"
  proof -
    have 1: "updType (Some p) (t_export_update (st_name_update (\<lambda>_. Some nm))) s = Some (s\<lparr>s_types := T\<rparr>)"
      using t by (simp add: updType_def T_def t1_def)
    have 2: "T p = Some t1" "t_modulePtr t1 = Some mp" using t by (simp_all add: T_def t1_def)
    have 3: "updModule (Some mp) (\<lambda>m. m\<lparr>m_firstTypePtr := m_firstTypePtr m', m_lastTypePtr := m_lastTypePtr m'\<rparr>)
        (s\<lparr>s_types := U\<rparr>) = Some (s\<lparr>s_types := U, s_modules := (s_modules s)(mp \<mapsto> m')\<rparr>)"
      using m mm by (simp add: updModule_def)
    have 4: "updType (Some q) (take_over t1) (s\<lparr>s_types := U, s_modules := (s_modules s)(mp \<mapsto> m')\<rparr>) = Some s2"
      using t2 by (simp add: updType_def s2_def t2'_def)
    have 5: "s_types s2 q = Some t2'" "s_types s2 = U(q \<mapsto> t2')" by (simp_all add: s2_def)
    show ?thesis
      using 1 2 m w un 3 4 5 rt by (simp add: setTypeName_def s'_def split del: if_split)
  qed
  have "type_list s' mp (us @ vs)"
    using dl2 t2 pn by (auto simp: type_list_def s'_def s2_def dlist_del_other dlist_upd_data t2'_def take_over_def)
  moreover have "s_types s' p = None" "s_types s' q = Some t2'" "s_namednumbers s' = nn"
    using qp by (simp_all add: s'_def)
  ultimately show ?thesis using run t2e nn_def by blast
qed

end
