(* ===== verification/Smi_Entity.thy ===== *)
theory Smi_Entity
  imports Smi_Type
begin

section \<open>Identities, classes, attributes, events and macros\<close>

text \<open>
  \<^verbatim>\<open>smi-data.c\<close>: the remaining tables.  Identities, classes and macros belong to a module, attributes
  and events to a class; each is kept in the order of definition and found by name.
\<close>

subsection \<open>Links\<close>

abbreviation (input) id_set_next :: "ptr option \<Rightarrow> Identity \<Rightarrow> Identity" where
  "id_set_next v \<equiv> id_nextPtr_update (\<lambda>_. v)"

abbreviation (input) id_set_prev :: "ptr option \<Rightarrow> Identity \<Rightarrow> Identity" where
  "id_set_prev v \<equiv> id_prevPtr_update (\<lambda>_. v)"

abbreviation (input) c_set_next :: "ptr option \<Rightarrow> Class \<Rightarrow> Class" where
  "c_set_next v \<equiv> c_nextPtr_update (\<lambda>_. v)"

abbreviation (input) c_set_prev :: "ptr option \<Rightarrow> Class \<Rightarrow> Class" where
  "c_set_prev v \<equiv> c_prevPtr_update (\<lambda>_. v)"

abbreviation (input) a_set_next :: "ptr option \<Rightarrow> Attribute \<Rightarrow> Attribute" where
  "a_set_next v \<equiv> a_nextPtr_update (\<lambda>_. v)"

abbreviation (input) a_set_prev :: "ptr option \<Rightarrow> Attribute \<Rightarrow> Attribute" where
  "a_set_prev v \<equiv> a_prevPtr_update (\<lambda>_. v)"

abbreviation (input) e_set_next :: "ptr option \<Rightarrow> Event \<Rightarrow> Event" where
  "e_set_next v \<equiv> e_nextPtr_update (\<lambda>_. v)"

abbreviation (input) e_set_prev :: "ptr option \<Rightarrow> Event \<Rightarrow> Event" where
  "e_set_prev v \<equiv> e_prevPtr_update (\<lambda>_. v)"

abbreviation (input) mac_set_next :: "ptr option \<Rightarrow> Macro \<Rightarrow> Macro" where
  "mac_set_next v \<equiv> mac_nextPtr_update (\<lambda>_. v)"

abbreviation (input) mac_set_prev :: "ptr option \<Rightarrow> Macro \<Rightarrow> Macro" where
  "mac_set_prev v \<equiv> mac_prevPtr_update (\<lambda>_. v)"

interpretation idl: linked_struct id_nextPtr id_prevPtr id_set_next id_set_prev
  by unfold_locales simp_all

interpretation cl: linked_struct c_nextPtr c_prevPtr c_set_next c_set_prev
  by unfold_locales simp_all

interpretation al: linked_struct a_nextPtr a_prevPtr a_set_next a_set_prev
  by unfold_locales simp_all

interpretation el: linked_struct e_nextPtr e_prevPtr e_set_next e_set_prev
  by unfold_locales simp_all

interpretation macl: linked_struct mac_nextPtr mac_prevPtr mac_set_next mac_set_prev
  by unfold_locales simp_all

definition identity_list :: "smi \<Rightarrow> ptr \<Rightarrow> ptr list \<Rightarrow> bool" where
  "identity_list s q xs \<longleftrightarrow> (\<exists>m. s_modules s q = Some m \<and>
     dlist id_nextPtr id_prevPtr (s_identities s) (m_firstIdentityPtr m) xs (m_lastIdentityPtr m))"

definition name_of_identity :: "smi \<Rightarrow> ptr \<Rightarrow> cstr" where
  "name_of_identity s = fld (sid_name \<circ> id_export) (s_identities s)"

definition class_list :: "smi \<Rightarrow> ptr \<Rightarrow> ptr list \<Rightarrow> bool" where
  "class_list s q xs \<longleftrightarrow> (\<exists>m. s_modules s q = Some m \<and>
     dlist c_nextPtr c_prevPtr (s_classes s) (m_firstClassPtr m) xs (m_lastClassPtr m))"

definition name_of_class :: "smi \<Rightarrow> ptr \<Rightarrow> cstr" where
  "name_of_class s = fld (sc_name \<circ> c_export) (s_classes s)"

definition macro_list :: "smi \<Rightarrow> ptr \<Rightarrow> ptr list \<Rightarrow> bool" where
  "macro_list s q xs \<longleftrightarrow> (\<exists>m. s_modules s q = Some m \<and>
     dlist mac_nextPtr mac_prevPtr (s_macros s) (m_firstMacroPtr m) xs (m_lastMacroPtr m))"

definition name_of_macro :: "smi \<Rightarrow> ptr \<Rightarrow> cstr" where
  "name_of_macro s = fld (smac_name \<circ> mac_export) (s_macros s)"

definition attribute_list :: "smi \<Rightarrow> ptr \<Rightarrow> ptr list \<Rightarrow> bool" where
  "attribute_list s q xs \<longleftrightarrow> (\<exists>m. s_classes s q = Some m \<and>
     dlist a_nextPtr a_prevPtr (s_attributes s) (c_firstAttributePtr m) xs (c_lastAttributePtr m))"

definition name_of_attribute :: "smi \<Rightarrow> ptr \<Rightarrow> cstr" where
  "name_of_attribute s = fld (sa_name \<circ> a_export) (s_attributes s)"

definition event_list :: "smi \<Rightarrow> ptr \<Rightarrow> ptr list \<Rightarrow> bool" where
  "event_list s q xs \<longleftrightarrow> (\<exists>m. s_classes s q = Some m \<and>
     dlist e_nextPtr e_prevPtr (s_events s) (c_firstEventPtr m) xs (c_lastEventPtr m))"

definition name_of_event :: "smi \<Rightarrow> ptr \<Rightarrow> cstr" where
  "name_of_event s = fld (se_name \<circ> e_export) (s_events s)"

subsection \<open>Zeroed structs\<close>

definition zero_identity :: Identity where
  "zero_identity = \<lparr>id_export = \<lparr>sid_name = None, sid_decl = SMI_DECL_UNKNOWN,
       sid_status = SMI_STATUS_UNKNOWN, sid_description = None, sid_reference = None\<rparr>,
     id_modulePtr = None, id_parentPtr = None, id_nextPtr = None, id_prevPtr = None, id_line = 0\<rparr>"

definition zero_class :: Class where
  "zero_class = \<lparr>c_export = \<lparr>sc_name = None, sc_decl = SMI_DECL_UNKNOWN,
       sc_status = SMI_STATUS_UNKNOWN, sc_description = None, sc_reference = None\<rparr>,
     c_modulePtr = None, c_firstAttributePtr = None, c_lastAttributePtr = None, c_uniqueList = None,
     c_firstEventPtr = None, c_lastEventPtr = None, c_parentPtr = None, c_nextPtr = None,
     c_prevPtr = None, c_line = 0\<rparr>"

definition zero_attribute :: Attribute where
  "zero_attribute = \<lparr>a_export = \<lparr>sa_name = None, sa_basetype = SMI_BASETYPE_UNKNOWN,
       sa_decl = SMI_DECL_UNKNOWN, sa_format = None, sa_value = zero_value, sa_units = None,
       sa_status = SMI_STATUS_UNKNOWN, sa_description = None, sa_reference = None,
       sa_access = SMI_ACCESS_UNKNOWN\<rparr>,
     a_classPtr = None, a_parentTypePtr = None, a_listPtr = None, a_nextPtr = None,
     a_prevPtr = None, a_line = 0, a_parentClassPtr = None\<rparr>"

definition zero_event :: Event where
  "zero_event = \<lparr>e_export = \<lparr>se_name = None, se_decl = SMI_DECL_UNKNOWN,
       se_status = SMI_STATUS_UNKNOWN, se_description = None, se_reference = None\<rparr>,
     e_classPtr = None, e_nextPtr = None, e_prevPtr = None, e_line = 0\<rparr>"

definition zero_macro :: Macro where
  "zero_macro = \<lparr>mac_export = \<lparr>smac_name = None, smac_decl = SMI_DECL_UNKNOWN,
       smac_status = SMI_STATUS_UNKNOWN, smac_description = None, smac_reference = None,
       smac_abnf = None\<rparr>,
     mac_modulePtr = None, mac_flags = 0, mac_nextPtr = None, mac_prevPtr = None, mac_line = 0\<rparr>"

subsection \<open>Creation\<close>

definition addIdentity :: "cstr \<Rightarrow> ptr option \<Rightarrow> smi \<Rightarrow> (ptr \<times> smi) option" where
  "addIdentity identityname parserPtr s = do {
     let p = s_next s;
     parser \<leftarrow> deref (s_parsers s) parserPtr;
     let modulePtr = p_modulePtr parser;
     m \<leftarrow> deref (s_modules s) modulePtr;
     let x = zero_identity\<lparr>id_export := (id_export zero_identity)\<lparr>sid_name := identityname\<rparr>, id_modulePtr := modulePtr,
                     id_line := p_line parser, id_prevPtr := m_lastIdentityPtr m\<rparr>;
     xs \<leftarrow> link_last id_set_next (m_lastIdentityPtr m) p ((s_identities s)(p \<mapsto> x));
     s \<leftarrow> updModule modulePtr (\<lambda>m. m\<lparr>m_firstIdentityPtr := if_null (m_firstIdentityPtr m) p, m_lastIdentityPtr := Some p\<rparr>) s;
     Some (p, s\<lparr>s_next := Suc p, s_identities := xs\<rparr>)
   }"

definition addClass :: "cstr \<Rightarrow> ptr option \<Rightarrow> smi \<Rightarrow> (ptr \<times> smi) option" where
  "addClass classname parserPtr s = do {
     let p = s_next s;
     parser \<leftarrow> deref (s_parsers s) parserPtr;
     let modulePtr = p_modulePtr parser;
     m \<leftarrow> deref (s_modules s) modulePtr;
     let x = zero_class\<lparr>c_export := (c_export zero_class)\<lparr>sc_name := classname\<rparr>, c_modulePtr := modulePtr,
                     c_line := p_line parser, c_prevPtr := m_lastClassPtr m\<rparr>;
     xs \<leftarrow> link_last c_set_next (m_lastClassPtr m) p ((s_classes s)(p \<mapsto> x));
     s \<leftarrow> updModule modulePtr (\<lambda>m. m\<lparr>m_firstClassPtr := if_null (m_firstClassPtr m) p, m_lastClassPtr := Some p\<rparr>) s;
     Some (p, s\<lparr>s_next := Suc p, s_classes := xs\<rparr>)
   }"

definition addMacro :: "cstr \<Rightarrow> u16 \<Rightarrow> ptr option \<Rightarrow> smi \<Rightarrow> (ptr \<times> smi) option" where
  "addMacro macroname flags parserPtr s = do {
     let p = s_next s;
     parser \<leftarrow> deref (s_parsers s) parserPtr;
     let modulePtr = p_modulePtr parser;
     m \<leftarrow> deref (s_modules s) modulePtr;
     let x = zero_macro\<lparr>mac_export := (mac_export zero_macro)\<lparr>smac_name := macroname\<rparr>, mac_modulePtr := modulePtr, mac_flags := flags,
                     mac_line := p_line parser, mac_prevPtr := m_lastMacroPtr m\<rparr>;
     xs \<leftarrow> link_last mac_set_next (m_lastMacroPtr m) p ((s_macros s)(p \<mapsto> x));
     s \<leftarrow> updModule modulePtr (\<lambda>m. m\<lparr>m_firstMacroPtr := if_null (m_firstMacroPtr m) p, m_lastMacroPtr := Some p\<rparr>) s;
     Some (p, s\<lparr>s_next := Suc p, s_macros := xs\<rparr>)
   }"

definition append_attribute :: "ptr option \<Rightarrow> Attribute \<Rightarrow> smi \<Rightarrow> (ptr \<times> smi) option" where
  "append_attribute classPtr x s = do {
     let p = s_next s;
     c \<leftarrow> deref (s_classes s) classPtr;
     xs \<leftarrow> link_last a_set_next (c_lastAttributePtr c) p
       ((s_attributes s)(p \<mapsto> x\<lparr>a_nextPtr := None, a_prevPtr := c_lastAttributePtr c\<rparr>));
     s \<leftarrow> updClass classPtr (\<lambda>c. c\<lparr>c_firstAttributePtr := if_null (c_firstAttributePtr c) p, c_lastAttributePtr := Some p\<rparr>) s;
     Some (p, s\<lparr>s_next := Suc p, s_attributes := xs\<rparr>)
   }"

definition addAttribute :: "cstr \<Rightarrow> ptr option \<Rightarrow> ptr option \<Rightarrow> smi \<Rightarrow> (ptr \<times> smi) option" where
  "addAttribute attribute_name classPtr parserPtr s = do {
     line \<leftarrow> parser_line parserPtr s;
     let x = zero_attribute\<lparr>a_export := (a_export zero_attribute)\<lparr>sa_name := attribute_name\<rparr>,
                            a_classPtr := classPtr, a_line := line\<rparr>;
     if classPtr \<noteq> None then append_attribute classPtr x s
     else Some (s_next s, s\<lparr>s_next := Suc (s_next s), s_attributes := (s_attributes s)(s_next s \<mapsto> x)\<rparr>)
   }"

definition setAttributeParentType :: "ptr option \<Rightarrow> ptr option \<Rightarrow> smi \<Rightarrow> smi option" where
  "setAttributeParentType attributePtr parentPtr = updAttribute attributePtr (a_parentTypePtr_update (\<lambda>_. parentPtr))"

definition duplicateTypeToAttribute ::
  "ptr option \<Rightarrow> ptr option \<Rightarrow> ptr option \<Rightarrow> smi \<Rightarrow> (ptr option \<times> smi) option" where
  "duplicateTypeToAttribute templatePtr classPtr parserPtr s = (
     if classPtr = None then Some (None, s)
     else do {
       template \<leftarrow> deref (s_types s) templatePtr;
       line \<leftarrow> parser_line parserPtr s;
       let bt = st_basetype (t_export template);
       let x = zero_attribute\<lparr>a_export := (a_export zero_attribute)\<lparr>sa_basetype := bt,
                 sa_decl := SMI_DECL_ATTRIBUTE, sa_value := zero_value\<lparr>sv_basetype := bt\<rparr>,
                 sa_status := st_status (t_export template)\<rparr>,
               a_classPtr := classPtr, a_line := line\<rparr>;
       (p, s) \<leftarrow> append_attribute classPtr x s;
       s \<leftarrow> setAttributeParentType (Some p) templatePtr s;
       Some (Some p, s)
     })"

definition append_event :: "ptr option \<Rightarrow> Event \<Rightarrow> smi \<Rightarrow> (ptr \<times> smi) option" where
  "append_event classPtr x s = do {
     let p = s_next s;
     c \<leftarrow> deref (s_classes s) classPtr;
     xs \<leftarrow> link_last e_set_next (c_lastEventPtr c) p
       ((s_events s)(p \<mapsto> x\<lparr>e_nextPtr := None, e_prevPtr := c_lastEventPtr c\<rparr>));
     s \<leftarrow> updClass classPtr (\<lambda>c. c\<lparr>c_firstEventPtr := if_null (c_firstEventPtr c) p, c_lastEventPtr := Some p\<rparr>) s;
     Some (p, s\<lparr>s_next := Suc p, s_events := xs\<rparr>)
   }"

definition addEvent :: "cstr \<Rightarrow> ptr option \<Rightarrow> ptr option \<Rightarrow> smi \<Rightarrow> (ptr \<times> smi) option" where
  "addEvent eventname classPtr parserPtr s = do {
     line \<leftarrow> parser_line parserPtr s;
     let x = zero_event\<lparr>e_export := (e_export zero_event)\<lparr>se_name := eventname, se_decl := SMI_DECL_EVENT\<rparr>,
                        e_classPtr := classPtr, e_line := line\<rparr>;
     if classPtr \<noteq> None then append_event classPtr x s
     else Some (s_next s, s\<lparr>s_next := Suc (s_next s), s_events := (s_events s)(s_next s \<mapsto> x)\<rparr>)
   }"

subsection \<open>Attributes of the structs\<close>

definition setIdentityDecl :: "ptr option \<Rightarrow> SmiDecl \<Rightarrow> smi \<Rightarrow> smi option" where
  "setIdentityDecl identityPtr decl = updIdentity identityPtr (id_export_update (sid_decl_update (\<lambda>_. decl)))"

definition setIdentityStatus :: "ptr option \<Rightarrow> SmiStatus \<Rightarrow> smi \<Rightarrow> smi option" where
  "setIdentityStatus identityPtr status = updIdentity identityPtr (id_export_update (sid_status_update (\<lambda>_. status)))"

definition setIdentityDescription :: "ptr option \<Rightarrow> cstr \<Rightarrow> ptr option \<Rightarrow> smi \<Rightarrow> smi option" where
  "setIdentityDescription identityPtr description parserPtr s = do {
     d \<leftarrow> kept_text parserPtr description s;
     updIdentity identityPtr (id_export_update (sid_description_update (\<lambda>_. d))) s
   }"

definition setIdentityReference :: "ptr option \<Rightarrow> cstr \<Rightarrow> ptr option \<Rightarrow> smi \<Rightarrow> smi option" where
  "setIdentityReference identityPtr reference parserPtr s = do {
     d \<leftarrow> kept_text parserPtr reference s;
     updIdentity identityPtr (id_export_update (sid_reference_update (\<lambda>_. d))) s
   }"

definition setClassDecl :: "ptr option \<Rightarrow> SmiDecl \<Rightarrow> smi \<Rightarrow> smi option" where
  "setClassDecl classPtr decl = updClass classPtr (c_export_update (sc_decl_update (\<lambda>_. decl)))"

definition setClassStatus :: "ptr option \<Rightarrow> SmiStatus \<Rightarrow> smi \<Rightarrow> smi option" where
  "setClassStatus classPtr status = updClass classPtr (c_export_update (sc_status_update (\<lambda>_. status)))"

definition setClassDescription :: "ptr option \<Rightarrow> cstr \<Rightarrow> ptr option \<Rightarrow> smi \<Rightarrow> smi option" where
  "setClassDescription classPtr description parserPtr s = do {
     d \<leftarrow> kept_text parserPtr description s;
     updClass classPtr (c_export_update (sc_description_update (\<lambda>_. d))) s
   }"

definition setClassReference :: "ptr option \<Rightarrow> cstr \<Rightarrow> ptr option \<Rightarrow> smi \<Rightarrow> smi option" where
  "setClassReference classPtr reference parserPtr s = do {
     d \<leftarrow> kept_text parserPtr reference s;
     updClass classPtr (c_export_update (sc_reference_update (\<lambda>_. d))) s
   }"

definition setMacroDecl :: "ptr option \<Rightarrow> SmiDecl \<Rightarrow> smi \<Rightarrow> smi option" where
  "setMacroDecl macroPtr decl = updMacro macroPtr (mac_export_update (smac_decl_update (\<lambda>_. decl)))"

definition setMacroStatus :: "ptr option \<Rightarrow> SmiStatus \<Rightarrow> smi \<Rightarrow> smi option" where
  "setMacroStatus macroPtr status = updMacro macroPtr (mac_export_update (smac_status_update (\<lambda>_. status)))"

definition setMacroDescription :: "ptr option \<Rightarrow> cstr \<Rightarrow> ptr option \<Rightarrow> smi \<Rightarrow> smi option" where
  "setMacroDescription macroPtr description parserPtr s = do {
     d \<leftarrow> kept_text parserPtr description s;
     updMacro macroPtr (mac_export_update (smac_description_update (\<lambda>_. d))) s
   }"

definition setMacroReference :: "ptr option \<Rightarrow> cstr \<Rightarrow> ptr option \<Rightarrow> smi \<Rightarrow> smi option" where
  "setMacroReference macroPtr reference parserPtr s = do {
     d \<leftarrow> kept_text parserPtr reference s;
     updMacro macroPtr (mac_export_update (smac_reference_update (\<lambda>_. d))) s
   }"

definition setMacroAbnf :: "ptr option \<Rightarrow> cstr \<Rightarrow> ptr option \<Rightarrow> smi \<Rightarrow> smi option" where
  "setMacroAbnf macroPtr abnf parserPtr s = do {
     d \<leftarrow> kept_text parserPtr abnf s;
     updMacro macroPtr (mac_export_update (smac_abnf_update (\<lambda>_. d))) s
   }"

definition setMacroLine :: "ptr option \<Rightarrow> int \<Rightarrow> ptr option \<Rightarrow> smi \<Rightarrow> smi option" where
  "setMacroLine macroPtr line parserPtr s = do {
     l \<leftarrow> given_line line parserPtr s;
     updMacro macroPtr (mac_line_update (\<lambda>_. l)) s
   }"

definition setIdentityParent :: "ptr option \<Rightarrow> ptr option \<Rightarrow> smi \<Rightarrow> smi option" where
  "setIdentityParent identityPtr parentPtr s =
     (if identityPtr \<noteq> None then updIdentity identityPtr (id_parentPtr_update (\<lambda>_. parentPtr)) s else Some s)"

definition setClassParent :: "ptr option \<Rightarrow> ptr option \<Rightarrow> smi \<Rightarrow> smi option" where
  "setClassParent classPtr parentPtr s =
     (if classPtr \<noteq> None then updClass classPtr (c_parentPtr_update (\<lambda>_. parentPtr)) s else Some s)"

definition setAttributeDecl :: "ptr option \<Rightarrow> SmiDecl \<Rightarrow> smi \<Rightarrow> smi option" where
  "setAttributeDecl attributePtr decl = updAttribute attributePtr (a_export_update (sa_decl_update (\<lambda>_. decl)))"

definition setAttributeParentClass :: "ptr option \<Rightarrow> ptr option \<Rightarrow> smi \<Rightarrow> smi option" where
  "setAttributeParentClass attributePtr parentPtr = updAttribute attributePtr (a_parentClassPtr_update (\<lambda>_. parentPtr))"

definition setAttributeName :: "ptr option \<Rightarrow> cstr \<Rightarrow> smi \<Rightarrow> smi option" where
  "setAttributeName attributePtr name = updAttribute attributePtr (a_export_update (sa_name_update (\<lambda>_. name)))"

definition setAttributeAccess :: "ptr option \<Rightarrow> SmiAccess \<Rightarrow> smi \<Rightarrow> smi option" where
  "setAttributeAccess attributePtr access = updAttribute attributePtr (a_export_update (sa_access_update (\<lambda>_. access)))"

definition setAttributeList :: "ptr option \<Rightarrow> ptr option \<Rightarrow> smi \<Rightarrow> smi option" where
  "setAttributeList attributePtr listPtr =
     updAttribute attributePtr (a_listPtr_update (\<lambda>l. if l = None then listPtr else l))"

subsection \<open>Searches\<close>

definition identities_named :: "smi \<Rightarrow> cstr \<Rightarrow> Module \<Rightarrow> ptr option option" where
  "identities_named s identityname m =
     walk (s_identities s) id_nextPtr (\<lambda>_ x. named (sid_name (id_export x)) identityname) (m_firstIdentityPtr m)"

definition findIdentityByName :: "cstr \<Rightarrow> smi \<Rightarrow> ptr option option" where
  "findIdentityByName identityname s = do {
     h \<leftarrow> theHandle s;
     walk_first (s_modules s) m_nextPtr (\<lambda>_ m. identities_named s identityname m) (h_firstModulePtr h)
   }"

definition classes_named :: "smi \<Rightarrow> cstr \<Rightarrow> Module \<Rightarrow> ptr option option" where
  "classes_named s class_name m =
     walk (s_classes s) c_nextPtr (\<lambda>_ x. named (sc_name (c_export x)) class_name) (m_firstClassPtr m)"

definition macros_named :: "smi \<Rightarrow> cstr \<Rightarrow> Module \<Rightarrow> ptr option option" where
  "macros_named s macroname m =
     walk (s_macros s) mac_nextPtr (\<lambda>_ x. named (smac_name (mac_export x)) macroname) (m_firstMacroPtr m)"

definition findMacroByName :: "cstr \<Rightarrow> smi \<Rightarrow> ptr option option" where
  "findMacroByName macroname s = do {
     h \<leftarrow> theHandle s;
     walk_first (s_modules s) m_nextPtr (\<lambda>_ m. macros_named s macroname m) (h_firstModulePtr h)
   }"

definition findIdentityByModuleAndName :: "ptr option \<Rightarrow> cstr \<Rightarrow> smi \<Rightarrow> ptr option option" where
  "findIdentityByModuleAndName modulePtr identityname s = do {
     m \<leftarrow> deref (s_modules s) modulePtr;
     identities_named s identityname m
   }"

definition findIdentityByModulenameAndName :: "cstr \<Rightarrow> cstr \<Rightarrow> smi \<Rightarrow> ptr option option" where
  "findIdentityByModulenameAndName modulename identityname s = do {
     modulePtr \<leftarrow> findModuleByName modulename s;
     if modulePtr \<noteq> None then do {
       m \<leftarrow> deref (s_modules s) modulePtr;
       identities_named s identityname m
     } else Some None
   }"

definition findClassByModuleAndName :: "ptr option \<Rightarrow> cstr \<Rightarrow> smi \<Rightarrow> ptr option option" where
  "findClassByModuleAndName modulePtr name s = do {
     m \<leftarrow> deref (s_modules s) modulePtr;
     classes_named s name m
   }"

definition findClassByModulenameAndName :: "cstr \<Rightarrow> cstr \<Rightarrow> smi \<Rightarrow> ptr option option" where
  "findClassByModulenameAndName modulename name s = do {
     modulePtr \<leftarrow> findModuleByName modulename s;
     if modulePtr \<noteq> None then do {
       m \<leftarrow> deref (s_modules s) modulePtr;
       classes_named s name m
     } else Some None
   }"

text \<open>This search does not test the name of a macro for NULL before it compares it.\<close>

definition findMacroByModuleAndName :: "ptr option \<Rightarrow> cstr \<Rightarrow> smi \<Rightarrow> ptr option option" where
  "findMacroByModuleAndName modulePtr macroname s = (
     if modulePtr \<noteq> None then do {
       m \<leftarrow> deref (s_modules s) modulePtr;
       walk (s_macros s) mac_nextPtr (\<lambda>_ x. streq (smac_name (mac_export x)) macroname) (m_firstMacroPtr m)
     } else Some None)"

subsection \<open>Functional behaviour\<close>

lemma addIdentity_lemma:
  assumes pr: "deref (s_parsers s) parserPtr = Some pr" "p_modulePtr pr = Some mp"
    and xl: "identity_list s mp xs" and fresh: "s_identities s (s_next s) = None"
  shows "\<exists>s'. addIdentity nm parserPtr s = Some (s_next s, s') \<and>
    identity_list s' mp (xs @ [s_next s]) \<and> name_of_identity s' = (name_of_identity s)(s_next s := nm)"
proof -
  obtain m where m: "s_modules s mp = Some m"
    and dl: "dlist id_nextPtr id_prevPtr (s_identities s) (m_firstIdentityPtr m) xs (m_lastIdentityPtr m)"
    using xl by (auto simp: identity_list_def)
  define n where "n = zero_identity\<lparr>id_export := (id_export zero_identity)\<lparr>sid_name := nm\<rparr>,
      id_modulePtr := Some mp, id_line := p_line pr, id_prevPtr := m_lastIdentityPtr m\<rparr>"
  have n: "id_prevPtr n = m_lastIdentityPtr m" "id_nextPtr n = None" by (simp_all add: n_def zero_identity_def)
  show ?thesis
    by (rule idl.append_named [OF dl fresh n, where d = "sid_name \<circ> id_export"])
      (use pr m in \<open>simp_all add: addIdentity_def Let_def updModule_def identity_list_def name_of_identity_def n_def
        split del: if_split\<close>)
qed

lemma addClass_lemma:
  assumes pr: "deref (s_parsers s) parserPtr = Some pr" "p_modulePtr pr = Some mp"
    and xl: "class_list s mp xs" and fresh: "s_classes s (s_next s) = None"
  shows "\<exists>s'. addClass nm parserPtr s = Some (s_next s, s') \<and>
    class_list s' mp (xs @ [s_next s]) \<and> name_of_class s' = (name_of_class s)(s_next s := nm)"
proof -
  obtain m where m: "s_modules s mp = Some m"
    and dl: "dlist c_nextPtr c_prevPtr (s_classes s) (m_firstClassPtr m) xs (m_lastClassPtr m)"
    using xl by (auto simp: class_list_def)
  define n where "n = zero_class\<lparr>c_export := (c_export zero_class)\<lparr>sc_name := nm\<rparr>,
      c_modulePtr := Some mp, c_line := p_line pr, c_prevPtr := m_lastClassPtr m\<rparr>"
  have n: "c_prevPtr n = m_lastClassPtr m" "c_nextPtr n = None" by (simp_all add: n_def zero_class_def)
  show ?thesis
    by (rule cl.append_named [OF dl fresh n, where d = "sc_name \<circ> c_export"])
      (use pr m in \<open>simp_all add: addClass_def Let_def updModule_def class_list_def name_of_class_def n_def
        split del: if_split\<close>)
qed

lemma addMacro_lemma:
  assumes pr: "deref (s_parsers s) parserPtr = Some pr" "p_modulePtr pr = Some mp"
    and xl: "macro_list s mp xs" and fresh: "s_macros s (s_next s) = None"
  shows "\<exists>s'. addMacro nm fl parserPtr s = Some (s_next s, s') \<and>
    macro_list s' mp (xs @ [s_next s]) \<and> name_of_macro s' = (name_of_macro s)(s_next s := nm)"
proof -
  obtain m where m: "s_modules s mp = Some m"
    and dl: "dlist mac_nextPtr mac_prevPtr (s_macros s) (m_firstMacroPtr m) xs (m_lastMacroPtr m)"
    using xl by (auto simp: macro_list_def)
  define n where "n = zero_macro\<lparr>mac_export := (mac_export zero_macro)\<lparr>smac_name := nm\<rparr>,
      mac_modulePtr := Some mp, mac_flags := fl, mac_line := p_line pr, mac_prevPtr := m_lastMacroPtr m\<rparr>"
  have n: "mac_prevPtr n = m_lastMacroPtr m" "mac_nextPtr n = None" by (simp_all add: n_def zero_macro_def)
  show ?thesis
    by (rule macl.append_named [OF dl fresh n, where d = "smac_name \<circ> mac_export"])
      (use pr m in \<open>simp_all add: addMacro_def Let_def updModule_def macro_list_def name_of_macro_def n_def
        split del: if_split\<close>)
qed

lemma append_attribute_lemma:
  assumes xl: "attribute_list s cp xs" and fresh: "s_attributes s (s_next s) = None"
  shows "\<exists>s'. append_attribute (Some cp) x s = Some (s_next s, s') \<and>
    attribute_list s' cp (xs @ [s_next s]) \<and>
    name_of_attribute s' = (name_of_attribute s)(s_next s := sa_name (a_export x))"
proof -
  obtain c where c: "s_classes s cp = Some c"
    and dl: "dlist a_nextPtr a_prevPtr (s_attributes s) (c_firstAttributePtr c) xs (c_lastAttributePtr c)"
    using xl by (auto simp: attribute_list_def)
  define n where "n = x\<lparr>a_nextPtr := None, a_prevPtr := c_lastAttributePtr c\<rparr>"
  have n: "a_prevPtr n = c_lastAttributePtr c" "a_nextPtr n = None" by (simp_all add: n_def)
  show ?thesis
    by (rule al.append_named [OF dl fresh n, where d = "sa_name \<circ> a_export"])
      (use c in \<open>simp_all add: append_attribute_def Let_def updClass_def attribute_list_def name_of_attribute_def n_def\<close>)
qed

lemma append_event_lemma:
  assumes xl: "event_list s cp xs" and fresh: "s_events s (s_next s) = None"
  shows "\<exists>s'. append_event (Some cp) x s = Some (s_next s, s') \<and>
    event_list s' cp (xs @ [s_next s]) \<and>
    name_of_event s' = (name_of_event s)(s_next s := se_name (e_export x))"
proof -
  obtain c where c: "s_classes s cp = Some c"
    and dl: "dlist e_nextPtr e_prevPtr (s_events s) (c_firstEventPtr c) xs (c_lastEventPtr c)"
    using xl by (auto simp: event_list_def)
  define n where "n = x\<lparr>e_nextPtr := None, e_prevPtr := c_lastEventPtr c\<rparr>"
  have n: "e_prevPtr n = c_lastEventPtr c" "e_nextPtr n = None" by (simp_all add: n_def)
  show ?thesis
    by (rule el.append_named [OF dl fresh n, where d = "se_name \<circ> e_export"])
      (use c in \<open>simp_all add: append_event_def Let_def updClass_def event_list_def name_of_event_def n_def\<close>)
qed

end
