(* ===== verification/Smi_Init.thy ===== *)
theory Smi_Init
  imports Smi_Entity
begin

section \<open>Initialisation and loading\<close>

text \<open>
  \<^verbatim>\<open>smi-data.c\<close> and \<^verbatim>\<open>smi.c\<close>: the built-in module with the three roots of the object identifier tree
  and the base types, the handles the library hands out, its flags and search path, and the loading
  of modules.  What the operating system and the generated parsers do are parameters: \<open>config\<close>
  is \<open>smiReadConfig\<close> on the configuration files of a tag, \<open>env\<close> the value of \<open>SMIPATH\<close>, and
  \<open>load\<close> is \<open>loadModule\<close>, whose own logic is modelled over the file system, the language
  guesser and the parser.
\<close>

subsection \<open>\<open>smiInitData\<close>\<close>

definition zero_parser :: Parser where
  "zero_parser = \<lparr>p_path = None, p_line = 0, p_modulePtr = None, p_flags = 0,
     p_complianceModulePtr = None, p_capabilitiesModulePtr = None,
     p_currentDecl = SMI_DECL_UNKNOWN, p_firstStatementLine = 0, p_firstNestedStatementLine = 0,
     p_firstRevisionLine = 0, p_pendingNodePtr = None\<rparr>"

definition add_root_object :: "string \<Rightarrow> SmiSubid \<Rightarrow> ptr \<Rightarrow> smi \<Rightarrow> smi option" where
  "add_root_object nm x parser s = do {
     h \<leftarrow> theHandle s;
     (p, s) \<leftarrow> addObject (Some nm) (h_rootNodePtr h) x 0 (Some parser) s;
     ob \<leftarrow> s_objects s p;
     s \<leftarrow> updObject (Some p) (o_export_update (\<lambda>e. e\<lparr>sn_oid := Some [x], sn_oidlen := 1,
       sn_nodekind := SMI_NODEKIND_NODE\<rparr>)) s;
     updNode (o_nodePtr ob) (\<lambda>n. n\<lparr>n_oid := Some [x], n_oidlen := 1\<rparr>) s
   }"

definition add_base_type :: "string \<Rightarrow> SmiBasetype \<Rightarrow> (ptr option \<Rightarrow> Handle \<Rightarrow> Handle) \<Rightarrow> ptr \<Rightarrow> smi \<Rightarrow> smi option" where
  "add_base_type nm bt set_field parser s = do {
     (p, s) \<leftarrow> addType (Some nm) bt 0 (Some parser) s;
     updHandle (set_field (Some p)) s
   }"

definition add_base_types :: "ptr \<Rightarrow> smi \<Rightarrow> smi option" where
  "add_base_types parser s = do {
     s \<leftarrow> add_base_type ''OctetString'' SMI_BASETYPE_OCTETSTRING (\<lambda>p. h_typeOctetStringPtr_update (\<lambda>_. p)) parser s;
     s \<leftarrow> add_base_type ''ObjectIdentifier'' SMI_BASETYPE_OBJECTIDENTIFIER (\<lambda>p. h_typeObjectIdentifierPtr_update (\<lambda>_. p)) parser s;
     s \<leftarrow> add_base_type ''Integer32'' SMI_BASETYPE_INTEGER32 (\<lambda>p. h_typeInteger32Ptr_update (\<lambda>_. p)) parser s;
     s \<leftarrow> add_base_type ''Unsigned32'' SMI_BASETYPE_UNSIGNED32 (\<lambda>p. h_typeUnsigned32Ptr_update (\<lambda>_. p)) parser s;
     s \<leftarrow> add_base_type ''Integer64'' SMI_BASETYPE_INTEGER64 (\<lambda>p. h_typeInteger64Ptr_update (\<lambda>_. p)) parser s;
     s \<leftarrow> add_base_type ''Unsigned64'' SMI_BASETYPE_UNSIGNED64 (\<lambda>p. h_typeUnsigned64Ptr_update (\<lambda>_. p)) parser s;
     s \<leftarrow> add_base_type ''Float32'' SMI_BASETYPE_FLOAT32 (\<lambda>p. h_typeFloat32Ptr_update (\<lambda>_. p)) parser s;
     s \<leftarrow> add_base_type ''Float64'' SMI_BASETYPE_FLOAT64 (\<lambda>p. h_typeFloat64Ptr_update (\<lambda>_. p)) parser s;
     s \<leftarrow> add_base_type ''Float128'' SMI_BASETYPE_FLOAT128 (\<lambda>p. h_typeFloat128Ptr_update (\<lambda>_. p)) parser s;
     s \<leftarrow> add_base_type ''Enumeration'' SMI_BASETYPE_ENUM (\<lambda>p. h_typeEnumPtr_update (\<lambda>_. p)) parser s;
     s \<leftarrow> add_base_type ''Bits'' SMI_BASETYPE_BITS (\<lambda>p. h_typeBitsPtr_update (\<lambda>_. p)) parser s;
     add_base_type ''Pointer'' SMI_BASETYPE_POINTER (\<lambda>p. h_typePointerPtr_update (\<lambda>_. p)) parser s
   }"

text \<open>
  The parser is a local variable whose address is stored in the handle; it is gone when the
  function returns, the pointer is not reset.
\<close>

definition smiInitData :: "smi \<Rightarrow> (int \<times> smi) option" where
  "smiInitData s = do {
     s \<leftarrow> updHandle (\<lambda>h. h\<lparr>h_flags := 0, h_firstModulePtr := None, h_lastModulePtr := None,
       h_firstViewPtr := None, h_lastViewPtr := None\<rparr>) s;
     (root, s) \<leftarrow> addNode None 0 NODE_FLAG_ROOT s;
     s \<leftarrow> updHandle (h_rootNodePtr_update (\<lambda>_. Some root)) s;
     let parser = s_next s;
     let s = s\<lparr>s_next := Suc parser, s_parsers := (s_parsers s)(parser \<mapsto> zero_parser)\<rparr>;
     s \<leftarrow> updHandle (h_parserPtr_update (\<lambda>_. Some parser)) s;
     (pending, s) \<leftarrow> addNode None 0 NODE_FLAG_ROOT s;
     h \<leftarrow> theHandle s;
     s \<leftarrow> updParser (Some parser) (\<lambda>p. p\<lparr>p_pendingNodePtr := Some pending, p_path := None,
       p_flags := ucast (h_flags h), p_line := - 1\<rparr>) s;
     (m, s) \<leftarrow> addModule (Some '''') (Some '''') 0 s;
     s \<leftarrow> updParser (Some parser) (p_modulePtr_update (\<lambda>_. Some m)) s;
     (_, s) \<leftarrow> addView (Some '''') s;
     s \<leftarrow> add_root_object ''ccitt'' 0 parser s;
     s \<leftarrow> add_root_object ''iso'' 1 parser s;
     s \<leftarrow> add_root_object ''joint-iso-ccitt'' 2 parser s;
     s \<leftarrow> add_base_types parser s;
     Some (0, s\<lparr>s_parsers := (s_parsers s)(parser := None)\<rparr>)
   }"

subsection \<open>The life of a handle\<close>

definition PATH_SEPARATOR :: char where "PATH_SEPARATOR = CHR '':''"

definition DIR_SEPARATOR :: char where "DIR_SEPARATOR = CHR ''/''"

definition DEFAULT_ERRORLEVEL :: int where "DEFAULT_ERRORLEVEL = 3"

text \<open>
  A new path with a separator in front is appended to the old one, with a separator at its end
  prepended; otherwise it replaces it.  \<open>p[strlen(p)-1]\<close> of the empty string is out of bounds.
  (A NULL old path is printed by \<open>%s\<close>, which is undefined behaviour.)
\<close>

definition extend_path :: "cstr \<Rightarrow> string \<Rightarrow> cstr option" where
  "extend_path old p = (
     if p \<noteq> [] \<and> hd p = PATH_SEPARATOR then map_option (\<lambda>q. Some (q @ p)) old
     else if p = [] then None
     else if last p = PATH_SEPARATOR then map_option (\<lambda>q. Some (p @ q)) old
     else Some (Some p))"

definition extend_handle_path :: "cstr \<Rightarrow> smi \<Rightarrow> smi option" where
  "extend_handle_path p s = (case p of None \<Rightarrow> Some s | Some p \<Rightarrow> do {
     h \<leftarrow> theHandle s;
     path \<leftarrow> extend_path (h_path h) p;
     updHandle (h_path_update (\<lambda>_. path)) s
   })"

definition smiInit :: "(cstr \<Rightarrow> smi \<Rightarrow> smi option) \<Rightarrow> cstr \<Rightarrow> cstr \<Rightarrow> cstr \<Rightarrow> smi \<Rightarrow> (int \<times> smi) option" where
  "smiInit config env default_path tag s = do {
     hp \<leftarrow> findHandleByName tag s;
     if hp \<noteq> None then Some (0, s\<lparr>smiHandle := hp\<rparr>)
     else do {
       (hp, s) \<leftarrow> addHandle tag s;
       let s = s\<lparr>smiHandle := Some hp, smiDepth := 0\<rparr>;
       s \<leftarrow> updHandle (h_errorLevel_update (\<lambda>_. DEFAULT_ERRORLEVEL)) s;
       (r, s) \<leftarrow> smiInitData s;
       if r \<noteq> 0 then Some (- 1, s)
       else do {
         s \<leftarrow> updHandle (h_path_update (\<lambda>_. default_path)) s;
         s \<leftarrow> (if tag = None then Some s else config tag s);
         s \<leftarrow> extend_handle_path env s;
         h \<leftarrow> theHandle s;
         Some (if h_path h = None then - 1 else 0, s)
       }
     }
   }"

definition smiGetPath :: "smi \<Rightarrow> cstr option" where
  "smiGetPath s = map_option h_path (theHandle s)"

text \<open>The functions that start the library when there is no handle yet: \<open>init\<close> is \<open>smiInit(NULL)\<close>.\<close>

definition with_handle :: "(smi \<Rightarrow> smi option) \<Rightarrow> smi \<Rightarrow> smi option" where
  "with_handle init s = (if smiHandle s = None then init s else Some s)"

definition smiSetPath :: "(smi \<Rightarrow> smi option) \<Rightarrow> cstr \<Rightarrow> smi \<Rightarrow> (int \<times> smi) option" where
  "smiSetPath init p s = do {
     s \<leftarrow> with_handle init s;
     s \<leftarrow> updHandle (h_path_update (\<lambda>_. p)) s;
     Some (0, s)
   }"

definition smiSetErrorLevel :: "(smi \<Rightarrow> smi option) \<Rightarrow> int \<Rightarrow> smi \<Rightarrow> smi option" where
  "smiSetErrorLevel init level s = do {
     s \<leftarrow> with_handle init s;
     updHandle (h_errorLevel_update (\<lambda>_. level)) s
   }"

definition SMI_FLAG_MASK :: u32 where
  "SMI_FLAG_MASK = 0xf800"

definition smiSetFlags :: "(smi \<Rightarrow> smi option) \<Rightarrow> u32 \<Rightarrow> smi \<Rightarrow> smi option" where
  "smiSetFlags init userflags s = do {
     s \<leftarrow> with_handle init s;
     updHandle (h_flags_update (\<lambda>f.
       Bit_Operations.or (Bit_Operations.and f (Bit_Operations.not SMI_FLAG_MASK)) userflags)) s
   }"

definition smiGetFlags :: "(smi \<Rightarrow> smi option) \<Rightarrow> smi \<Rightarrow> (u32 \<times> smi) option" where
  "smiGetFlags init s = do {
     s \<leftarrow> with_handle init s;
     h \<leftarrow> theHandle s;
     Some (Bit_Operations.and (h_flags h) SMI_FLAG_MASK, s)
   }"

end
