(* ===== verification/C_Strings.thy ===== *)
theory C_Strings
  imports Prelude
begin

section \<open>The C string functions the library uses\<close>

text \<open>
  Tokens (\<open>strtok\<close>), numbers (\<open>strtoul\<close> with base 0, \<open>atoi\<close>, \<open>%u\<close>) and prefixes (\<open>strncmp\<close>) of C
  strings, as functions on lists of characters in the C locale, and the dotted decimal notation of
  object identifiers.
\<close>

subsection \<open>Characters\<close>

definition is_space :: "char \<Rightarrow> bool" where
  "is_space c \<longleftrightarrow> c \<in> {CHR '' '', CHR 0x09, CHR 0x0A, CHR 0x0B, CHR 0x0C, CHR 0x0D}"

definition code_of :: "char \<Rightarrow> nat" where
  "code_of c = of_char c"

definition is_digit :: "char \<Rightarrow> bool" where
  "is_digit c \<longleftrightarrow> 48 \<le> code_of c \<and> code_of c \<le> 57"

definition is_upper :: "char \<Rightarrow> bool" where
  "is_upper c \<longleftrightarrow> 65 \<le> code_of c \<and> code_of c \<le> 90"

text \<open>The value of a digit in a base up to 36.\<close>

definition digit_val :: "char \<Rightarrow> nat option" where
  "digit_val c = (let n = code_of c in
     if 48 \<le> n \<and> n \<le> 57 then Some (n - 48)
     else if 65 \<le> n \<and> n \<le> 90 then Some (n - 55)
     else if 97 \<le> n \<and> n \<le> 122 then Some (n - 87)
     else None)"

subsection \<open>Numbers\<close>

text \<open>The number the longest prefix of digits stands for.\<close>

fun digits_val :: "nat \<Rightarrow> nat \<Rightarrow> string \<Rightarrow> nat" where
  "digits_val base acc [] = acc"
| "digits_val base acc (c # cs) = (case digit_val c of None \<Rightarrow> acc
     | Some d \<Rightarrow> if d < base then digits_val base (acc * base + d) cs else acc)"

definition sign_of :: "string \<Rightarrow> bool \<times> string" where
  "sign_of t = (case t of [] \<Rightarrow> (False, t)
     | c # cs \<Rightarrow> if c = CHR ''-'' then (True, cs) else if c = CHR ''+'' then (False, cs) else (False, t))"

definition hex_digit :: "string \<Rightarrow> bool" where
  "hex_digit t = (case t of [] \<Rightarrow> False
     | c # _ \<Rightarrow> (case digit_val c of None \<Rightarrow> False | Some d \<Rightarrow> d < 16))"

definition magnitude0 :: "string \<Rightarrow> nat" where
  "magnitude0 t = (
     if t \<noteq> [] \<and> hd t = CHR ''0'' then
       (if tl t \<noteq> [] \<and> (hd (tl t) = CHR ''x'' \<or> hd (tl t) = CHR ''X'') \<and> hex_digit (drop 2 t)
        then digits_val 16 0 (drop 2 t) else digits_val 8 0 t)
     else digits_val 10 0 t)"

text \<open>\<open>strtoul(t, NULL, 0)\<close> on LP64: saturates at \<open>ULONG_MAX\<close>, a minus sign negates modulo
  \<open>2 ^ 64\<close>.\<close>

definition strtoul0 :: "string \<Rightarrow> u64" where
  "strtoul0 t = (
     let (neg, u) = sign_of (dropWhile is_space t);
         v = magnitude0 u
     in if 2 ^ 64 \<le> v then - 1 else if neg then - of_nat v else of_nat v)"

text \<open>\<open>atoi\<close>: a value outside \<open>int\<close> is undefined behaviour.\<close>

definition atoi :: "string \<Rightarrow> int option" where
  "atoi t = (
     let (neg, u) = sign_of (dropWhile is_space t);
         v = int (digits_val 10 0 u);
         r = (if neg then - v else v)
     in if - (2 ^ 31) \<le> r \<and> r < 2 ^ 31 then Some r else None)"

text \<open>\<open>%u\<close> and \<open>%d\<close>.\<close>

definition digit_char :: "nat \<Rightarrow> char" where
  "digit_char d = char_of (48 + d)"

fun dec :: "nat \<Rightarrow> string" where
  "dec n = (if n < 10 then [digit_char n] else dec (n div 10) @ [digit_char (n mod 10)])"

declare dec.simps [simp del]

definition dec_int :: "int \<Rightarrow> string" where
  "dec_int i = (if i < 0 then CHR ''-'' # dec (nat (- i)) else dec (nat i))"

lemma digit_val_char [simp]: "d < 10 \<Longrightarrow> digit_val (digit_char d) = Some d"
  by (simp add: digit_val_def digit_char_def code_of_def Let_def of_char_of)

lemma is_digit_char [simp]: "d < 10 \<Longrightarrow> is_digit (digit_char d)"
  by (simp add: is_digit_def digit_char_def code_of_def of_char_of)

lemma digits_val_append:
  "(\<And>c. c \<in> set us \<Longrightarrow> \<exists>d. digit_val c = Some d \<and> d < base) \<Longrightarrow>
    digits_val base acc (us @ vs) = digits_val base (digits_val base acc us) vs"
proof (induction us arbitrary: acc)
  case Nil
  then show ?case by simp
next
  case (Cons c us)
  then obtain d where "digit_val c = Some d" "d < base" by auto
  with Cons show ?case by simp
qed

lemma dec_digits: "c \<in> set (dec n) \<Longrightarrow> \<exists>d < 10. c = digit_char d"
proof (induction n rule: dec.induct)
  case (1 n)
  show ?case
  proof (cases "n < 10")
    case True
    then show ?thesis using "1.prems" by (subst (asm) dec.simps) auto
  next
    case False
    then have "c \<in> set (dec (n div 10)) \<or> c = digit_char (n mod 10)"
      using "1.prems" by (subst (asm) dec.simps) auto
    moreover have "n mod 10 < 10" by simp
    ultimately show ?thesis using "1.IH" [OF False] by blast
  qed
qed

lemma dec_nonempty [simp]: "dec n \<noteq> []"
  by (subst dec.simps) simp

lemma digits_val_dec: "digits_val 10 0 (dec n) = n"
proof (induction n rule: dec.induct)
  case (1 n)
  show ?case
  proof (cases "n < 10")
    case True
    then show ?thesis by (subst dec.simps) simp
  next
    case False
    have "dec n = dec (n div 10) @ [digit_char (n mod 10)]" using False by (subst dec.simps) simp
    moreover have "\<exists>d. digit_val c = Some d \<and> d < 10" if "c \<in> set (dec (n div 10))" for c
      using dec_digits [OF that] by auto
    ultimately have "digits_val 10 0 (dec n) =
        digits_val 10 (digits_val 10 0 (dec (n div 10))) [digit_char (n mod 10)]"
      by (simp only: digits_val_append)
    then show ?thesis using "1.IH" [OF False] by simp
  qed
qed

lemma digit_char_0 [simp]: "digit_char 0 = CHR ''0''"
  by (simp add: digit_char_def) code_simp

lemma digit_char_inject [simp]: "d < 10 \<Longrightarrow> e < 10 \<Longrightarrow> digit_char d = digit_char e \<longleftrightarrow> d = e"
  by (metis digit_val_char option.inject)

lemma digit_not_special:
  assumes "d < 10"
  shows "\<not> is_space (digit_char d)" "digit_char d \<noteq> CHR ''-''" "digit_char d \<noteq> CHR ''+''"
    "digit_char d \<noteq> CHR ''.''" "digit_char d \<noteq> CHR '' ''"
proof -
  have "\<not> is_digit c" if "is_space c \<or> c = CHR ''-'' \<or> c = CHR ''+'' \<or> c = CHR ''.'' \<or> c = CHR '' ''" for c
    using that by (auto simp: is_space_def is_digit_def code_of_def)
  then show "\<not> is_space (digit_char d)" "digit_char d \<noteq> CHR ''-''" "digit_char d \<noteq> CHR ''+''"
    "digit_char d \<noteq> CHR ''.''" "digit_char d \<noteq> CHR '' ''"
    using is_digit_char [OF assms] by blast+
qed

lemma dec_hd: "\<exists>d cs. dec n = digit_char d # cs \<and> d < 10 \<and> (d = 0 \<longrightarrow> n = 0 \<and> cs = [])"
proof (induction n rule: dec.induct)
  case (1 n)
  show ?case
  proof (cases "n < 10")
    case True
    then show ?thesis by (subst dec.simps) auto
  next
    case False
    with "1.IH" obtain d cs where "dec (n div 10) = digit_char d # cs" "d < 10"
      "d = 0 \<longrightarrow> n div 10 = 0" by blast
    then show ?thesis using False by (subst dec.simps) auto
  qed
qed

lemma sign_of_dec: "sign_of (dropWhile is_space (dec n)) = (False, dec n)"
proof -
  obtain d cs where "dec n = digit_char d # cs" "d < 10" using dec_hd by blast
  then show ?thesis using digit_not_special [of d] by (simp add: sign_of_def)
qed

lemma magnitude0_dec: "magnitude0 (dec n) = n"
proof -
  obtain d cs where d: "dec n = digit_char d # cs" "d < 10" "d = 0 \<longrightarrow> n = 0 \<and> cs = []"
    using dec_hd by blast
  show ?thesis
  proof (cases "d = 0")
    case True
    then have "dec n = [CHR ''0'']" "n = 0" using d by auto
    then show ?thesis by (simp add: magnitude0_def digit_val_def code_of_def)
  next
    case False
    then have "digit_char d \<noteq> CHR ''0''" using d(2) digit_char_inject [of d 0] by simp
    then have "magnitude0 (dec n) = digits_val 10 0 (dec n)" by (simp add: magnitude0_def d(1))
    then show ?thesis by (simp add: digits_val_dec)
  qed
qed

lemma strtoul0_dec: "n < 2 ^ 64 \<Longrightarrow> strtoul0 (dec n) = of_nat n"
  by (simp add: strtoul0_def sign_of_dec magnitude0_dec)

lemma atoi_dec: "n < 2 ^ 31 \<Longrightarrow> atoi (dec n) = Some (int n)"
  by (simp add: atoi_def sign_of_dec digits_val_dec Let_def)

subsection \<open>Tokens\<close>

text \<open>The tokens the calls \<open>strtok(s, delim)\<close>, \<open>strtok(NULL, delim)\<close>, ... return.\<close>

function tokens :: "char set \<Rightarrow> string \<Rightarrow> string list" where
  "tokens d s = (let t = dropWhile (\<lambda>c. c \<in> d) s in
     if t = [] then []
     else takeWhile (\<lambda>c. c \<notin> d) t # tokens d (dropWhile (\<lambda>c. c \<notin> d) t))"
  by auto
termination
proof (relation "measure (\<lambda>(d, s). length s)")
  fix d and s t :: string
  assume t: "t = dropWhile (\<lambda>c. c \<in> d) s" "t \<noteq> []"
  then have "hd t \<notin> d" using hd_dropWhile [of "\<lambda>c. c \<in> d" s] by simp
  then have "length (dropWhile (\<lambda>c. c \<notin> d) t) < length t"
    using t(2) by (cases t) (auto simp: length_dropWhile_le less_Suc_eq_le)
  moreover have "length t \<le> length s" using t(1) by (simp add: length_dropWhile_le)
  ultimately show "((d, dropWhile (\<lambda>c. c \<notin> d) t), (d, s)) \<in> measure (\<lambda>(d, s). length s)" by simp
qed simp

declare tokens.simps [simp del]

text \<open>Dotted decimal notation.\<close>

fun dotted :: "nat list \<Rightarrow> string" where
  "dotted [] = []"
| "dotted [n] = dec n"
| "dotted (n # ns) = dec n @ CHR ''.'' # dotted ns"

lemma tokens_dotted:
  assumes "CHR ''.'' \<in> d" and "d \<subseteq> {CHR ''.'', CHR '' ''}"
  shows "tokens d (dotted ns) = map dec ns"
proof -
  have dec: "c \<notin> d" if "c \<in> set (dec n)" for c n
    using dec_digits [OF that] digit_not_special assms(2) by fastforce
  have drop: "dropWhile (\<lambda>c. c \<in> d) (dec n @ u) = dec n @ u" for n u
    using dec [of "hd (dec n)" n] by (cases "dec n") auto
  have take: "takeWhile (\<lambda>c. c \<notin> d) (dec n @ CHR ''.'' # u) = dec n"
    "dropWhile (\<lambda>c. c \<notin> d) (dec n @ CHR ''.'' # u) = CHR ''.'' # u" for n u
    using dec assms(1) by (auto simp: takeWhile_append dropWhile_append)
  have take': "takeWhile (\<lambda>c. c \<notin> d) (dec n) = dec n" "dropWhile (\<lambda>c. c \<notin> d) (dec n) = []" for n
    using dec by (auto simp: takeWhile_eq_all_conv)
  have dot: "tokens d (CHR ''.'' # u) = tokens d u" for u
    using assms(1) by (subst (1 2) tokens.simps) simp
  have nil: "tokens d [] = []" by (subst tokens.simps) simp
  show ?thesis
  proof (induction ns rule: dotted.induct)
    case 1
    then show ?case by (simp add: nil)
  next
    case (2 n)
    have "dropWhile (\<lambda>c. c \<in> d) (dec n) = dec n" using drop [of n "[]"] by simp
    then have "tokens d (dec n) = [dec n]" by (subst tokens.simps) (simp add: take' nil Let_def)
    then show ?case by simp
  next
    case (3 n m ns)
    have "tokens d (dotted (n # m # ns)) = dec n # tokens d (CHR ''.'' # dotted (m # ns))"
      using drop take by (subst dotted.simps, subst tokens.simps) (simp add: Let_def)
    then show ?case using "3.IH" by (simp add: dot)
  qed
qed

subsection \<open>Prefix comparison\<close>

text \<open>\<open>!strncmp(a, b, n)\<close>.\<close>

definition strneq :: "nat \<Rightarrow> cstr \<Rightarrow> cstr \<Rightarrow> bool option" where
  "strneq n a b = (case a of None \<Rightarrow> None | Some x \<Rightarrow>
     (case b of None \<Rightarrow> None | Some y \<Rightarrow> Some (take n x = take n y)))"

lemma strneq_simps [simp]:
  "strneq n None b = None" "strneq n a None = None"
  "strneq n (Some x) (Some y) = Some (take n x = take n y)"
  by (auto simp: strneq_def split: option.splits)

end
