(* ===== verification/Smi_Api.thy ===== *)
theory Smi_Api
  imports Smi_Init C_Strings
begin

section \<open>The query interface\<close>

text \<open>
  \<^verbatim>\<open>smi.c\<close>: the functions applications call to walk modules, types, nodes, classes and so on.  The
  exported struct is the first member of the internal one, so a pointer to it is the pointer to
  the internal struct, and \<open>&p->export\<close> of a null pointer is the null pointer.  Functions that may
  load a module take \<open>load\<close>, which is \<open>loadModule\<close>.
\<close>

type_synonym loader = "cstr \<Rightarrow> smi \<Rightarrow> (ptr option \<times> smi) option"

subsection \<open>Qualified names\<close>

text \<open>What follows the first \<open>::\<close>.\<close>

fun after_colons :: "string \<Rightarrow> string option" where
  "after_colons (c # d # cs) = (if c = CHR '':'' \<and> d = CHR '':'' then Some cs else after_colons (d # cs))"
| "after_colons cs = None"

definition cut_at :: "char \<Rightarrow> string \<Rightarrow> string \<times> string" where
  "cut_at c t = (takeWhile (\<lambda>d. d \<noteq> c) t, tl (dropWhile (\<lambda>d. d \<noteq> c) t))"

text \<open>The module and the name in one argument; \<open>strcspn(arg, "::")\<close> stops at the first colon.\<close>

definition split_name :: "string \<Rightarrow> string \<times> string" where
  "split_name arg = (
     if arg \<noteq> [] \<and> is_upper (hd arg) then
       (case after_colons arg of Some name \<Rightarrow> (takeWhile (\<lambda>d. d \<noteq> CHR '':'') arg, name)
        | None \<Rightarrow> if CHR ''!'' \<in> set arg then cut_at CHR ''!'' arg
                  else if CHR ''.'' \<in> set arg then cut_at CHR ''.'' arg
                  else ('''', arg))
     else ('''', arg))"

definition getModulenameAndName :: "cstr \<Rightarrow> cstr \<Rightarrow> cstr \<times> cstr" where
  "getModulenameAndName arg1 arg2 = (case arg1 of
     None \<Rightarrow> (case arg2 of None \<Rightarrow> (None, None) | Some a \<Rightarrow> map_prod Some Some (split_name a))
   | Some a \<Rightarrow> (case arg2 of None \<Rightarrow> map_prod Some Some (split_name a) | Some b \<Rightarrow> (arg1, arg2)))"

subsection \<open>Modules, imports and revisions\<close>

definition smiIsLoaded :: "cstr \<Rightarrow> smi \<Rightarrow> bool option" where
  "smiIsLoaded m s = (if m = None then Some False else isInView m s)"

definition smiIsPath :: "string \<Rightarrow> bool" where
  "smiIsPath t \<longleftrightarrow> DIR_SEPARATOR \<in> set t"

definition add_to_view :: "cstr \<Rightarrow> smi \<Rightarrow> smi option" where
  "add_to_view m s = do {
     v \<leftarrow> isInView m s;
     if v then Some s else map_option snd (addView m s)
   }"

text \<open>YANG modules (\<open>yang\<close>, chosen by the language guesser) are loaded by another back end.\<close>

definition smiLoadModule :: "(smi \<Rightarrow> smi option) \<Rightarrow> loader \<Rightarrow> string \<Rightarrow> smi \<Rightarrow> (cstr \<times> smi) option" where
  "smiLoadModule init load m s = do {
     s \<leftarrow> with_handle init s;
     if smiIsPath m then do {
       (p, s) \<leftarrow> load (Some m) s;
       if p \<noteq> None then do {
         md \<leftarrow> deref (s_modules s) p;
         s \<leftarrow> add_to_view (sm_name (m_export md)) s;
         Some (sm_name (m_export md), s)
       } else Some (None, s)
     } else do {
       q \<leftarrow> findModuleByName (Some m) s;
       (p, s) \<leftarrow> (if q \<noteq> None then Some (q, s) else load (Some m) s);
       if p \<noteq> None then do {
         s \<leftarrow> add_to_view (Some m) s;
         md \<leftarrow> deref (s_modules s) p;
         Some (sm_name (m_export md), s)
       } else Some (None, s)
     }
   }"

definition smiGetModule :: "loader \<Rightarrow> cstr \<Rightarrow> smi \<Rightarrow> (ptr option \<times> smi) option" where
  "smiGetModule load m s = (
     if m = None then Some (None, s)
     else do {
       q \<leftarrow> findModuleByName m s;
       if q \<noteq> None then Some (q, s) else load m s
     })"

text \<open>The built-in module has the empty name and is skipped.\<close>

definition skip_unnamed :: "ptr option \<Rightarrow> smi \<Rightarrow> ptr option option" where
  "skip_unnamed p s = walk (s_modules s) m_nextPtr (\<lambda>_ m. Some (sm_name (m_export m) \<noteq> Some '''')) p"

definition smiGetFirstModule :: "smi \<Rightarrow> ptr option option" where
  "smiGetFirstModule s = do { h \<leftarrow> theHandle s; skip_unnamed (h_firstModulePtr h) s }"

definition smiGetNextModule :: "ptr option \<Rightarrow> smi \<Rightarrow> ptr option option" where
  "smiGetNextModule p s = (if p = None then Some None
     else do { m \<leftarrow> deref (s_modules s) p; skip_unnamed (m_nextPtr m) s })"

definition smiIsImported :: "ptr option \<Rightarrow> ptr option \<Rightarrow> cstr \<Rightarrow> smi \<Rightarrow> bool option" where
  "smiIsImported modulePtr importedModulePtr importedName s = (
     if modulePtr = None \<or> importedName = None then Some False
     else do {
       importedModule \<leftarrow> (if importedModulePtr \<noteq> None
         then map_option (\<lambda>m. sm_name (m_export m)) (deref (s_modules s) importedModulePtr) else Some None);
       m \<leftarrow> deref (s_modules s) modulePtr;
       r \<leftarrow> walk (s_imports s) i_nextPtr (\<lambda>_ i. do {
           eq \<leftarrow> streq importedName (si_name (i_export i));
           if eq then (if importedModule = None then Some True
                       else streq importedModule (si_module (i_export i)))
           else Some False
         }) (m_firstImportPtr m);
       Some (r \<noteq> None)
     })"

definition smiGetFirstImport :: "ptr option \<Rightarrow> smi \<Rightarrow> ptr option option" where
  "smiGetFirstImport p s = (if p = None then Some None else map_option m_firstImportPtr (deref (s_modules s) p))"

definition smiGetNextImport :: "ptr option \<Rightarrow> smi \<Rightarrow> ptr option option" where
  "smiGetNextImport p s = (if p = None then Some None else map_option i_nextPtr (deref (s_imports s) p))"

definition smiGetFirstRevision :: "ptr option \<Rightarrow> smi \<Rightarrow> ptr option option" where
  "smiGetFirstRevision p s = (if p = None then Some None else map_option m_firstRevisionPtr (deref (s_modules s) p))"

definition smiGetNextRevision :: "ptr option \<Rightarrow> smi \<Rightarrow> ptr option option" where
  "smiGetNextRevision p s = (if p = None then Some None else map_option r_nextPtr (deref (s_revisions s) p))"

definition smiGetRevisionLine :: "ptr option \<Rightarrow> smi \<Rightarrow> int option" where
  "smiGetRevisionLine p s = map_option r_line (deref (s_revisions s) p)"

definition smiGetModuleIdentityNode :: "ptr option \<Rightarrow> smi \<Rightarrow> ptr option option" where
  "smiGetModuleIdentityNode p s = (if p = None then Some None else map_option m_objectPtr (deref (s_modules s) p))"

text \<open>The module an unqualified or qualified name is looked up in, loading it if necessary.\<close>

definition named_module :: "loader \<Rightarrow> ptr option \<Rightarrow> cstr \<Rightarrow> smi \<Rightarrow> (ptr option \<times> smi) option" where
  "named_module load modulePtr module2 s = (
     if modulePtr = None \<and> module2 \<noteq> None \<and> module2 \<noteq> Some '''' then do {
       q \<leftarrow> findModuleByName module2 s;
       if q \<noteq> None then Some (q, s) else load module2 s
     } else Some (modulePtr, s))"

definition module_arg :: "ptr option \<Rightarrow> smi \<Rightarrow> cstr option" where
  "module_arg modulePtr s = (if modulePtr = None then Some None
     else map_option (\<lambda>m. sm_name (m_export m)) (deref (s_modules s) modulePtr))"

subsection \<open>Types\<close>

definition known_type :: "ptr option \<Rightarrow> smi \<Rightarrow> ptr option option" where
  "known_type p s = (if p = None then Some None
     else do {
       t \<leftarrow> deref (s_types s) p;
       Some (if st_basetype (t_export t) = SMI_BASETYPE_UNKNOWN then None else p)
     })"

definition smiGetType :: "loader \<Rightarrow> ptr option \<Rightarrow> cstr \<Rightarrow> smi \<Rightarrow> (ptr option \<times> smi) option" where
  "smiGetType load modulePtr type s = (
     if type = None then Some (None, s)
     else do {
       mn \<leftarrow> module_arg modulePtr s;
       let (module2, type2) = getModulenameAndName mn type;
       (modulePtr, s) \<leftarrow> named_module load modulePtr module2 s;
       t \<leftarrow> (if modulePtr \<noteq> None then findTypeByModuleAndName modulePtr type2 s
             else findTypeByName type2 s);
       t \<leftarrow> known_type t s;
       Some (t, s)
     })"

text \<open>The next type with a name and a known base type.\<close>

definition next_known_type :: "ptr option \<Rightarrow> smi \<Rightarrow> ptr option option" where
  "next_known_type p s = walk (s_types s) t_nextPtr (\<lambda>_ t.
     Some (st_name (t_export t) \<noteq> None \<and> st_basetype (t_export t) \<noteq> SMI_BASETYPE_UNKNOWN)) p"

definition smiGetFirstType :: "ptr option \<Rightarrow> smi \<Rightarrow> ptr option option" where
  "smiGetFirstType p s = (if p = None then Some None
     else do { m \<leftarrow> deref (s_modules s) p; next_known_type (m_firstTypePtr m) s })"

definition smiGetNextType :: "ptr option \<Rightarrow> smi \<Rightarrow> ptr option option" where
  "smiGetNextType p s = (if p = None then Some None
     else do { t \<leftarrow> deref (s_types s) p; next_known_type (t_nextPtr t) s })"

definition smiGetParentType :: "ptr option \<Rightarrow> smi \<Rightarrow> ptr option option" where
  "smiGetParentType p s = (if p = None then Some None
     else do { t \<leftarrow> deref (s_types s) p; known_type (t_parentPtr t) s })"

definition smiGetTypeModule :: "ptr option \<Rightarrow> smi \<Rightarrow> ptr option option" where
  "smiGetTypeModule p s = map_option t_modulePtr (deref (s_types s) p)"

definition smiGetTypeLine :: "ptr option \<Rightarrow> smi \<Rightarrow> int option" where
  "smiGetTypeLine p s = map_option t_line (deref (s_types s) p)"

definition list_head :: "ptr option \<Rightarrow> smi \<Rightarrow> ptr option option" where
  "list_head listPtr s = map_option l_ptr (deref (s_lists s) listPtr)"

definition numbered :: "SmiBasetype \<Rightarrow> bool" where
  "numbered b \<longleftrightarrow> b = SMI_BASETYPE_ENUM \<or> b = SMI_BASETYPE_BITS \<or> b = SMI_BASETYPE_POINTER"

definition smiGetFirstNamedNumber :: "ptr option \<Rightarrow> smi \<Rightarrow> ptr option option" where
  "smiGetFirstNamedNumber p s = (if p = None then Some None
     else do {
       t \<leftarrow> deref (s_types s) p;
       if t_listPtr t = None \<or> \<not> numbered (st_basetype (t_export t)) then Some None
       else list_head (t_listPtr t) s
     })"

definition smiGetAttributeFirstNamedNumber :: "ptr option \<Rightarrow> smi \<Rightarrow> ptr option option" where
  "smiGetAttributeFirstNamedNumber p s = (if p = None then Some None
     else do {
       a \<leftarrow> deref (s_attributes s) p;
       if a_listPtr a = None \<or> \<not> numbered (sa_basetype (a_export a)) then Some None
       else list_head (a_listPtr a) s
     })"

definition smiGetFirstRange :: "ptr option \<Rightarrow> smi \<Rightarrow> ptr option option" where
  "smiGetFirstRange p s = (if p = None then Some None
     else do {
       t \<leftarrow> deref (s_types s) p;
       if t_listPtr t = None \<or> enumerated (st_basetype (t_export t)) then Some None
       else list_head (t_listPtr t) s
     })"

definition smiGetAttributeFirstRange :: "ptr option \<Rightarrow> smi \<Rightarrow> ptr option option" where
  "smiGetAttributeFirstRange p s = (if p = None then Some None
     else do {
       a \<leftarrow> deref (s_attributes s) p;
       if a_listPtr a = None \<or> enumerated (sa_basetype (a_export a)) then Some None
       else list_head (a_listPtr a) s
     })"

text \<open>
  The element after the one at \<open>p\<close> in a list of pointers.  For ranges the code also compares the two
  bounds, which the comparison of the addresses implies, so that only the reads remain.
\<close>

definition list_after :: "ptr \<Rightarrow> ptr option \<Rightarrow> smi \<Rightarrow> ptr option option" where
  "list_after p listPtr s = do {
     q \<leftarrow> walk (s_lists s) l_nextPtr (\<lambda>_ l. Some (l_ptr l = Some p)) listPtr;
     if q = None then Some None
     else do {
       l \<leftarrow> deref (s_lists s) q;
       if l_nextPtr l = None then Some None else list_head (l_nextPtr l) s
     }
   }"

definition range_after :: "ptr \<Rightarrow> ptr option \<Rightarrow> smi \<Rightarrow> ptr option option" where
  "range_after p listPtr s = do {
     q \<leftarrow> walk (s_lists s) l_nextPtr (\<lambda>_ l. do {
         _ \<leftarrow> deref (s_ranges s) (l_ptr l);
         Some (l_ptr l = Some p)
       }) listPtr;
     if q = None then Some None
     else do {
       l \<leftarrow> deref (s_lists s) q;
       if l_nextPtr l = None then Some None else list_head (l_nextPtr l) s
     }
   }"

definition smiGetNextRange :: "ptr option \<Rightarrow> smi \<Rightarrow> ptr option option" where
  "smiGetNextRange p s = (case p of None \<Rightarrow> Some None | Some a \<Rightarrow> do {
       r \<leftarrow> s_ranges s a;
       if rg_typePtr r = None then Some None
       else do {
         t \<leftarrow> deref (s_types s) (rg_typePtr r);
         if t_listPtr t = None \<or> enumerated (st_basetype (t_export t)) then Some None
         else range_after a (t_listPtr t) s
       }
     })"

definition smiGetAttributeNextRange :: "ptr option \<Rightarrow> smi \<Rightarrow> ptr option option" where
  "smiGetAttributeNextRange p s = (case p of None \<Rightarrow> Some None | Some a \<Rightarrow> do {
       r \<leftarrow> s_ranges s a;
       if rg_typePtr r = None then Some None
       else do {
         t \<leftarrow> deref (s_attributes s) (rg_typePtr r);
         if a_listPtr t = None \<or> enumerated (sa_basetype (a_export t)) then Some None
         else range_after a (a_listPtr t) s
       }
     })"

subsection \<open>Identities, classes, attributes, events and macros\<close>

definition smiGetFirstIdentity :: "ptr option \<Rightarrow> smi \<Rightarrow> ptr option option" where
  "smiGetFirstIdentity p s = (if p = None then Some None else map_option m_firstIdentityPtr (deref (s_modules s) p))"

definition smiGetNextIdentity :: "ptr option \<Rightarrow> smi \<Rightarrow> ptr option option" where
  "smiGetNextIdentity p s = (if p = None then Some None else map_option id_nextPtr (deref (s_identities s) p))"

definition smiGetIdentityModule :: "ptr option \<Rightarrow> smi \<Rightarrow> ptr option option" where
  "smiGetIdentityModule p s = map_option id_modulePtr (deref (s_identities s) p)"

definition smiGetParentIdentity :: "ptr option \<Rightarrow> smi \<Rightarrow> ptr option option" where
  "smiGetParentIdentity p s = map_option id_parentPtr (deref (s_identities s) p)"

definition smiGetIdentity :: "ptr option \<Rightarrow> cstr \<Rightarrow> smi \<Rightarrow> ptr option option" where
  "smiGetIdentity p identity s = (if p = None then Some None
     else do {
       q \<leftarrow> smiGetFirstIdentity p s;
       walk (s_identities s) id_nextPtr (\<lambda>_ x. strneq 64 (sid_name (id_export x)) identity) q
     })"

definition smiGetIdentityLine :: "ptr option \<Rightarrow> smi \<Rightarrow> int option" where
  "smiGetIdentityLine p s = map_option id_line (deref (s_identities s) p)"

definition smiGetFirstClass :: "ptr option \<Rightarrow> smi \<Rightarrow> ptr option option" where
  "smiGetFirstClass p s = (if p = None then Some None else map_option m_firstClassPtr (deref (s_modules s) p))"

definition smiGetNextClass :: "ptr option \<Rightarrow> smi \<Rightarrow> ptr option option" where
  "smiGetNextClass p s = (if p = None then Some None else map_option c_nextPtr (deref (s_classes s) p))"

definition smiGetClassModule :: "ptr option \<Rightarrow> smi \<Rightarrow> ptr option option" where
  "smiGetClassModule p s = map_option c_modulePtr (deref (s_classes s) p)"

definition smiGetParentClass :: "ptr option \<Rightarrow> smi \<Rightarrow> ptr option option" where
  "smiGetParentClass p s = map_option c_parentPtr (deref (s_classes s) p)"

definition smiGetClass :: "ptr option \<Rightarrow> cstr \<Rightarrow> smi \<Rightarrow> ptr option option" where
  "smiGetClass p className s = (if p = None then Some None
     else do {
       q \<leftarrow> smiGetFirstClass p s;
       walk (s_classes s) c_nextPtr (\<lambda>_ x. strneq 64 (sc_name (c_export x)) className) q
     })"

definition smiGetClassLine :: "ptr option \<Rightarrow> smi \<Rightarrow> int option" where
  "smiGetClassLine p s = map_option c_line (deref (s_classes s) p)"

definition smiGetFirstAttribute :: "ptr option \<Rightarrow> smi \<Rightarrow> ptr option option" where
  "smiGetFirstAttribute p s = (if p = None then Some None else map_option c_firstAttributePtr (deref (s_classes s) p))"

definition smiGetNextAttribute :: "ptr option \<Rightarrow> smi \<Rightarrow> ptr option option" where
  "smiGetNextAttribute p s = (if p = None then Some None else map_option a_nextPtr (deref (s_attributes s) p))"

text \<open>An attribute of a class or, if it has none of that name, of its ancestors.\<close>

partial_function (option) smiGetAttribute :: "ptr option \<Rightarrow> cstr \<Rightarrow> smi \<Rightarrow> ptr option option" where
  "smiGetAttribute p attribute s = (if p = None then Some None
     else do {
       c \<leftarrow> deref (s_classes s) p;
       r \<leftarrow> walk (s_attributes s) a_nextPtr (\<lambda>_ x. strneq 64 (sa_name (a_export x)) attribute) (c_firstAttributePtr c);
       if r \<noteq> None then Some r
       else do {
         q \<leftarrow> smiGetParentClass p s;
         smiGetAttribute q attribute s
       }
     })"

declare smiGetAttribute.simps [code]

definition smiGetAttributeParentType :: "ptr option \<Rightarrow> smi \<Rightarrow> ptr option option" where
  "smiGetAttributeParentType p s = (if p = None then Some None else map_option a_parentTypePtr (deref (s_attributes s) p))"

definition smiGetAttributeParentClass :: "ptr option \<Rightarrow> smi \<Rightarrow> ptr option option" where
  "smiGetAttributeParentClass p s = (if p = None then Some None else map_option a_parentClassPtr (deref (s_attributes s) p))"

definition smiGetFirstUniqueAttribute :: "ptr option \<Rightarrow> smi \<Rightarrow> ptr option option" where
  "smiGetFirstUniqueAttribute p s = (if p = None then Some None
     else do {
       c \<leftarrow> deref (s_classes s) p;
       if c_uniqueList c = None then Some None
       else do {
         q \<leftarrow> list_head (c_uniqueList c) s;
         Some (if q = p then None else q)
       }
     })"

text \<open>The loop goes on after an element that is the last of its list.\<close>

definition smiGetNextUniqueAttribute :: "ptr option \<Rightarrow> smi \<Rightarrow> ptr option option" where
  "smiGetNextUniqueAttribute p s = (if p = None then Some None
     else do {
       a \<leftarrow> deref (s_attributes s) p;
       if a_classPtr a = None then Some None
       else do {
         c \<leftarrow> deref (s_classes s) (a_classPtr a);
         q \<leftarrow> walk (s_lists s) l_nextPtr (\<lambda>_ l. Some (l_ptr l = p \<and> l_nextPtr l \<noteq> None)) (c_uniqueList c);
         if q = None then Some None
         else do {
           l \<leftarrow> deref (s_lists s) q;
           list_head (l_nextPtr l) s
         }
       }
     })"

definition smiIsClassScalar :: "ptr option \<Rightarrow> smi \<Rightarrow> bool option" where
  "smiIsClassScalar p s = (if p = None then Some False
     else do {
       c \<leftarrow> deref (s_classes s) p;
       if c_uniqueList c = None then Some False
       else map_option (\<lambda>q. q = p) (list_head (c_uniqueList c) s)
     })"

definition smiGetAttributeLine :: "ptr option \<Rightarrow> smi \<Rightarrow> int option" where
  "smiGetAttributeLine p s = map_option a_line (deref (s_attributes s) p)"

definition smiGetFirstEvent :: "ptr option \<Rightarrow> smi \<Rightarrow> ptr option option" where
  "smiGetFirstEvent p s = (if p = None then Some None else map_option c_firstEventPtr (deref (s_classes s) p))"

definition smiGetNextEvent :: "ptr option \<Rightarrow> smi \<Rightarrow> ptr option option" where
  "smiGetNextEvent p s = (if p = None then Some None else map_option e_nextPtr (deref (s_events s) p))"

definition smiGetEventLine :: "ptr option \<Rightarrow> smi \<Rightarrow> int option" where
  "smiGetEventLine p s = map_option e_line (deref (s_events s) p)"

definition smiGetMacro :: "loader \<Rightarrow> ptr option \<Rightarrow> cstr \<Rightarrow> smi \<Rightarrow> (ptr option \<times> smi) option" where
  "smiGetMacro load modulePtr macro s = (
     if macro = None then Some (None, s)
     else do {
       mn \<leftarrow> module_arg modulePtr s;
       let (module2, macro2) = getModulenameAndName mn macro;
       (modulePtr, s) \<leftarrow> named_module load modulePtr module2 s;
       m \<leftarrow> (if modulePtr \<noteq> None then findMacroByModuleAndName modulePtr macro2 s
             else findMacroByName macro2 s);
       Some (m, s)
     })"

definition smiGetFirstMacro :: "ptr option \<Rightarrow> smi \<Rightarrow> ptr option option" where
  "smiGetFirstMacro p s = (if p = None then Some None else map_option m_firstMacroPtr (deref (s_modules s) p))"

definition smiGetNextMacro :: "ptr option \<Rightarrow> smi \<Rightarrow> ptr option option" where
  "smiGetNextMacro p s = (if p = None then Some None else map_option mac_nextPtr (deref (s_macros s) p))"

definition smiGetMacroModule :: "ptr option \<Rightarrow> smi \<Rightarrow> ptr option option" where
  "smiGetMacroModule p s = map_option mac_modulePtr (deref (s_macros s) p)"

definition smiGetMacroLine :: "ptr option \<Rightarrow> smi \<Rightarrow> int option" where
  "smiGetMacroLine p s = map_option mac_line (deref (s_macros s) p)"

subsection \<open>Nodes\<close>

text \<open>The objects of a node in a module and of a kind; \<open>SMI_NODEKIND_ANY\<close> is any kind at all.\<close>

definition child_matches :: "ptr option \<Rightarrow> SmiNodekind \<Rightarrow> Object \<Rightarrow> bool" where
  "child_matches modulePtr nodekind ob \<longleftrightarrow> o_modulePtr ob = modulePtr \<and>
     (nodekind = SMI_NODEKIND_ANY \<or> any_flag nodekind (sn_nodekind (o_export ob)))"

partial_function (option) child_search :: "ptr option \<Rightarrow> SmiNodekind \<Rightarrow> ptr option \<Rightarrow> smi \<Rightarrow> ptr option option" where
  "child_search modulePtr nodekind p s = (if p = None then Some None
     else do {
       n \<leftarrow> deref (s_nodes s) p;
       r \<leftarrow> walk (s_objects s) o_nextSameNodePtr (\<lambda>_ ob. Some (child_matches modulePtr nodekind ob)) (n_firstObjectPtr n);
       if r \<noteq> None then Some r
       else do {
         r \<leftarrow> child_search modulePtr nodekind (n_firstChildPtr n) s;
         if r \<noteq> None then Some r else child_search modulePtr nodekind (n_nextPtr n) s
       }
     })"

declare child_search.simps [code]

definition getNextChildObject :: "ptr option \<Rightarrow> ptr option \<Rightarrow> SmiNodekind \<Rightarrow> smi \<Rightarrow> ptr option option" where
  "getNextChildObject startNodePtr modulePtr nodekind s =
     (if startNodePtr = None \<or> modulePtr = None then Some None
      else child_search modulePtr nodekind startNodePtr s)"

text \<open>\<open>node2\<close> as an object identifier: up to 128 sub identifiers, otherwise the lookup fails.\<close>

definition parse_oid :: "string \<Rightarrow> SmiSubid list option" where
  "parse_oid t = (let ts = tokens {CHR ''.'', CHR '' ''} t in
     if length ts > 128 then None else Some (map (\<lambda>p. ucast (strtoul0 p)) ts))"

definition smiGetNode :: "loader \<Rightarrow> ptr option \<Rightarrow> cstr \<Rightarrow> smi \<Rightarrow> (ptr option \<times> smi) option" where
  "smiGetNode load modulePtr node s = (
     if node = None then Some (None, s)
     else do {
       mn \<leftarrow> module_arg modulePtr s;
       let (module2, node2) = getModulenameAndName mn node;
       (modulePtr, s) \<leftarrow> named_module load modulePtr module2 s;
       nd \<leftarrow> node2;
       if nd \<noteq> [] \<and> is_digit (hd nd) then (
         case parse_oid nd of None \<Rightarrow> Some (None, s)
         | Some oid \<Rightarrow> do {
             nodePtr \<leftarrow> getNode (length oid) oid s;
             ob \<leftarrow> (if nodePtr = None then Some None
                    else if modulePtr \<noteq> None then findObjectByModuleAndNode modulePtr nodePtr s
                    else findObjectByNode nodePtr s);
             Some (ob, s)
           })
       else do {
         let p = (case tokens {CHR ''.'', CHR '' ''} nd of [] \<Rightarrow> None | t # _ \<Rightarrow> Some t);
         ob \<leftarrow> (if modulePtr \<noteq> None then findObjectByModuleAndName modulePtr p s
                else findObjectByName p s);
         Some (ob, s)
       }
     })"

definition smiGetNodeByOID :: "nat \<Rightarrow> SmiSubid list \<Rightarrow> smi \<Rightarrow> ptr option option" where
  "smiGetNodeByOID oidlen oid s = (if oidlen = 0 then Some None
     else do {
       nodePtr \<leftarrow> getNode oidlen oid s;
       if nodePtr = None then Some None else findObjectByNode nodePtr s
     })"

definition findNodeByOidString_loop :: "string list \<Rightarrow> ptr option \<Rightarrow> smi \<Rightarrow> ptr option option" where
  "findNodeByOidString_loop ts nodePtr s = foldl (\<lambda>r t. do {
     p \<leftarrow> r;
     if p = None then Some None
     else do { x \<leftarrow> atoi t; findNodeByParentAndSubid p (word_of_int x) s }
   }) (Some nodePtr) ts"

definition findNodeByOidString :: "string \<Rightarrow> smi \<Rightarrow> ptr option option" where
  "findNodeByOidString oid s = do {
     h \<leftarrow> theHandle s;
     findNodeByOidString_loop (tokens {CHR ''.'', CHR '' ''} oid) (h_rootNodePtr h) s
   }"

text \<open>The body of \<open>createNodesByOidString\<close> runs once before the first token is tested.\<close>

fun createNodesByOidString_loop :: "string list \<Rightarrow> ptr option \<Rightarrow> smi \<Rightarrow> (ptr option \<times> smi) option" where
  "createNodesByOidString_loop [] parentNodePtr s = Some (parentNodePtr, s)"
| "createNodesByOidString_loop (t # ts) parentNodePtr s = do {
     nodePtr \<leftarrow> findNodeByParentAndSubid parentNodePtr (ucast (strtoul0 t)) s;
     if nodePtr = None then do {
       (p, s) \<leftarrow> addNode parentNodePtr (ucast (strtoul0 t)) 0 s;
       createNodesByOidString_loop ts (Some p) s
     } else createNodesByOidString_loop ts nodePtr s
   }"

definition createNodesByOidString :: "string \<Rightarrow> smi \<Rightarrow> (ptr option \<times> smi) option" where
  "createNodesByOidString oid s = do {
     h \<leftarrow> theHandle s;
     let ts = tokens {CHR ''.''} oid;
     if ts = [] then None else createNodesByOidString_loop ts (h_rootNodePtr h) s
   }"

subsection \<open>Walking the nodes of a module\<close>

text \<open>\<open>for (p = ...; p && p->parentPtr && !p->nextPtr; p = p->parentPtr);\<close>\<close>

partial_function (option) climb_to_sibling :: "ptr option \<Rightarrow> smi \<Rightarrow> ptr option option" where
  "climb_to_sibling p s = (if p = None then Some None
     else do {
       n \<leftarrow> deref (s_nodes s) p;
       if n_parentPtr n \<noteq> None \<and> n_nextPtr n = None then climb_to_sibling (n_parentPtr n) s else Some p
     })"

declare climb_to_sibling.simps [code]

partial_function (option) first_node_loop :: "ptr option \<Rightarrow> SmiNodekind \<Rightarrow> ptr option \<Rightarrow> smi \<Rightarrow> ptr option option" where
  "first_node_loop modulePtr nodekind nodePtr s = do {
     r \<leftarrow> getNextChildObject nodePtr modulePtr nodekind s;
     if r \<noteq> None then Some r
     else do {
       n \<leftarrow> deref (s_nodes s) nodePtr;
       q \<leftarrow> (if n_firstChildPtr n \<noteq> None then Some (n_firstChildPtr n)
             else if n_nextPtr n \<noteq> None then Some (n_nextPtr n)
             else do {
               u \<leftarrow> climb_to_sibling (n_parentPtr n) s;
               if u = None then Some None else map_option n_nextPtr (deref (s_nodes s) u)
             });
       if q = None then Some None else first_node_loop modulePtr nodekind q s
     }
   }"

declare first_node_loop.simps [code]

definition smiGetFirstNode :: "ptr option \<Rightarrow> SmiNodekind \<Rightarrow> smi \<Rightarrow> ptr option option" where
  "smiGetFirstNode modulePtr nodekind s = (if modulePtr = None then Some None
     else do {
       m \<leftarrow> deref (s_modules s) modulePtr;
       nodePtr \<leftarrow> (if m_prefixNodePtr m \<noteq> None then Some (m_prefixNodePtr m)
                    else do {
                      h \<leftarrow> theHandle s;
                      map_option n_firstChildPtr (deref (s_nodes s) (h_rootNodePtr h))
                    });
       first_node_loop modulePtr nodekind nodePtr s
     })"

text \<open>The comparison of a node's object identifier with the module's prefix.\<close>

fun same_prefix :: "nat \<Rightarrow> SmiSubid list \<Rightarrow> SmiSubid list \<Rightarrow> bool option" where
  "same_prefix 0 xs ys = Some True"
| "same_prefix (Suc k) (x # xs) (y # ys) = (if x = y then same_prefix k xs ys else Some False)"
| "same_prefix (Suc k) xs ys = None"

definition below_prefix :: "ptr option \<Rightarrow> ptr option \<Rightarrow> smi \<Rightarrow> bool option" where
  "below_prefix modulePtr nodePtr s = do {
     m \<leftarrow> deref (s_modules s) modulePtr;
     pf \<leftarrow> deref (s_nodes s) (m_prefixNodePtr m);
     if n_oidlen pf = 0 then Some True
     else if nodePtr = None then Some False
     else do {
       n \<leftarrow> deref (s_nodes s) nodePtr;
       case n_oid n of None \<Rightarrow> Some False
       | Some oid \<Rightarrow> do { q \<leftarrow> n_oid pf; same_prefix (n_oidlen pf) oid q }
     }
   }"

text \<open>The climb of \<open>smiGetNextNode\<close> does not test for the end of the tree.\<close>

partial_function (option) climb_to_sibling_unchecked :: "ptr option \<Rightarrow> smi \<Rightarrow> ptr option option" where
  "climb_to_sibling_unchecked p s = do {
     n \<leftarrow> deref (s_nodes s) p;
     if n_parentPtr n \<noteq> None \<and> n_nextPtr n = None then climb_to_sibling_unchecked (n_parentPtr n) s else Some p
   }"

declare climb_to_sibling_unchecked.simps [code]

partial_function (option) next_node_loop :: "ptr option \<Rightarrow> SmiNodekind \<Rightarrow> ptr option \<Rightarrow> smi \<Rightarrow> ptr option option" where
  "next_node_loop modulePtr nodekind nodePtr s = do {
     n \<leftarrow> deref (s_nodes s) nodePtr;
     (q, go) \<leftarrow> (if n_firstChildPtr n \<noteq> None then Some (n_firstChildPtr n, True)
           else if n_nextPtr n \<noteq> None then Some (n_nextPtr n, True)
           else do {
             u \<leftarrow> climb_to_sibling_unchecked (n_parentPtr n) s;
             un \<leftarrow> deref (s_nodes s) u;
             b \<leftarrow> below_prefix modulePtr (n_nextPtr un) s;
             Some (n_nextPtr un, b)
           });
     if \<not> go then Some None
     else do {
       r \<leftarrow> getNextChildObject q modulePtr nodekind s;
       if r \<noteq> None then Some r
       else if q = None then Some None else next_node_loop modulePtr nodekind q s
     }
   }"

declare next_node_loop.simps [code]

definition smiGetNextNode :: "ptr option \<Rightarrow> SmiNodekind \<Rightarrow> smi \<Rightarrow> ptr option option" where
  "smiGetNextNode p nodekind s = (if p = None then Some None
     else do {
       ob \<leftarrow> deref (s_objects s) p;
       if o_modulePtr ob = None then Some None
       else if o_nodePtr ob = None then Some None
       else next_node_loop (o_modulePtr ob) nodekind (o_nodePtr ob) s
     })"

definition SMI_UNKNOWN_LABEL :: string where "SMI_UNKNOWN_LABEL = ''<unknown>''"

definition smiGetParentNode :: "ptr option \<Rightarrow> smi \<Rightarrow> (ptr option \<times> smi) option" where
  "smiGetParentNode p s = (if p = None then Some (None, s)
     else do {
       ob \<leftarrow> deref (s_objects s) p;
       if o_nodePtr ob = None then Some (None, s)
       else do {
         h \<leftarrow> theHandle s;
         if o_nodePtr ob = h_rootNodePtr h then Some (None, s)
         else do {
         n \<leftarrow> deref (s_nodes s) (o_nodePtr ob);
         let nodePtr = n_parentPtr n;
         if nodePtr = None then Some (None, s)
         else do {
           q \<leftarrow> (if o_modulePtr ob \<noteq> None then findObjectByModuleAndNode (o_modulePtr ob) nodePtr s
                 else Some None);
           q \<leftarrow> (if q \<noteq> None then do {
                   o2 \<leftarrow> deref (s_objects s) q;
                   i \<leftarrow> findImportByName (sn_name (o_export o2)) (o_modulePtr o2) s;
                   if i \<noteq> None then do {
                     im \<leftarrow> deref (s_imports s) i;
                     findObjectByModulenameAndNode (si_module (i_export im)) nodePtr s
                   } else Some None
                 } else Some None);
           if q \<noteq> None then Some (q, s)
           else do {
             q \<leftarrow> findObjectByNode nodePtr s;
             pn \<leftarrow> deref (s_nodes s) nodePtr;
             if q = None \<and> n_parentPtr pn \<noteq> None then do {
               (a, s) \<leftarrow> addObject (Some SMI_UNKNOWN_LABEL) (n_parentPtr pn) (n_subid pn) 0 None s;
               s \<leftarrow> updObject (Some a) (\<lambda>x. x\<lparr>o_nodePtr := nodePtr, o_modulePtr := o_modulePtr ob\<rparr>) s;
               Some (Some a, s)
             } else Some (q, s)
           }
         }
         }
       }
     })"

definition smiGetRelatedNode :: "ptr option \<Rightarrow> smi \<Rightarrow> ptr option option" where
  "smiGetRelatedNode p s = (if p = None then Some None else map_option o_relatedPtr (deref (s_objects s) p))"

definition object_at :: "ptr option \<Rightarrow> ptr option \<Rightarrow> smi \<Rightarrow> ptr option option" where
  "object_at modulePtr nodePtr s = (if nodePtr = None then Some None
     else do {
       q \<leftarrow> findObjectByModuleAndNode modulePtr nodePtr s;
       if q \<noteq> None then Some q else findObjectByNode nodePtr s
     })"

definition smiGetFirstChildNode :: "ptr option \<Rightarrow> smi \<Rightarrow> ptr option option" where
  "smiGetFirstChildNode p s = (if p = None then Some None
     else do {
       ob \<leftarrow> deref (s_objects s) p;
       if o_nodePtr ob = None then Some None
       else do {
         n \<leftarrow> deref (s_nodes s) (o_nodePtr ob);
         object_at (o_modulePtr ob) (n_firstChildPtr n) s
       }
     })"

definition smiGetNextChildNode :: "ptr option \<Rightarrow> smi \<Rightarrow> ptr option option" where
  "smiGetNextChildNode p s = (if p = None then Some None
     else do {
       ob \<leftarrow> deref (s_objects s) p;
       if o_nodePtr ob = None then Some None
       else do {
         n \<leftarrow> deref (s_nodes s) (o_nodePtr ob);
         object_at (o_modulePtr ob) (n_nextPtr n) s
       }
     })"

definition smiGetNodeModule :: "ptr option \<Rightarrow> smi \<Rightarrow> ptr option option" where
  "smiGetNodeModule p s = map_option o_modulePtr (deref (s_objects s) p)"

definition smiGetNodeType :: "ptr option \<Rightarrow> smi \<Rightarrow> ptr option option" where
  "smiGetNodeType p s = do { ob \<leftarrow> deref (s_objects s) p; known_type (o_typePtr ob) s }"

definition smiGetNodeLine :: "ptr option \<Rightarrow> smi \<Rightarrow> int option" where
  "smiGetNodeLine p s = map_option o_line (deref (s_objects s) p)"

subsection \<open>Elements, options and refinements\<close>

definition smiGetFirstElement :: "ptr option \<Rightarrow> smi \<Rightarrow> ptr option option" where
  "smiGetFirstElement p s = (if p = None then Some None else map_option o_listPtr (deref (s_objects s) p))"

definition smiGetNextElement :: "ptr option \<Rightarrow> smi \<Rightarrow> ptr option option" where
  "smiGetNextElement p s = (if p = None then Some None else map_option l_nextPtr (deref (s_lists s) p))"

definition smiGetElementNode :: "ptr option \<Rightarrow> smi \<Rightarrow> ptr option option" where
  "smiGetElementNode p s = map_option l_ptr (deref (s_lists s) p)"

definition smiGetFirstUniquenessElement :: "ptr option \<Rightarrow> smi \<Rightarrow> ptr option option" where
  "smiGetFirstUniquenessElement p s = (if p = None then Some None else map_option o_uniquenessPtr (deref (s_objects s) p))"

definition smiGetFirstOption :: "ptr option \<Rightarrow> smi \<Rightarrow> ptr option option" where
  "smiGetFirstOption p s = (if p = None then Some None
     else do {
       ob \<leftarrow> deref (s_objects s) p;
       if o_optionlistPtr ob = None then Some None
       else if sn_nodekind (o_export ob) \<noteq> SMI_NODEKIND_COMPLIANCE then Some None
       else list_head (o_optionlistPtr ob) s
     })"

definition smiGetNextOption :: "ptr option \<Rightarrow> smi \<Rightarrow> ptr option option" where
  "smiGetNextOption p s = (case p of None \<Rightarrow> Some None | Some a \<Rightarrow> do {
       x \<leftarrow> s_options s a;
       ob \<leftarrow> deref (s_objects s) (op_compliancePtr x);
       list_after a (o_optionlistPtr ob) s
     })"

definition smiGetOptionNode :: "ptr option \<Rightarrow> smi \<Rightarrow> ptr option option" where
  "smiGetOptionNode p s = map_option op_objectPtr (deref (s_options s) p)"

definition smiGetOptionLine :: "ptr option \<Rightarrow> smi \<Rightarrow> int option" where
  "smiGetOptionLine p s = map_option op_line (deref (s_options s) p)"

definition smiGetFirstRefinement :: "ptr option \<Rightarrow> smi \<Rightarrow> ptr option option" where
  "smiGetFirstRefinement p s = (if p = None then Some None
     else do {
       ob \<leftarrow> deref (s_objects s) p;
       if o_refinementlistPtr ob = None then Some None
       else if sn_nodekind (o_export ob) \<noteq> SMI_NODEKIND_COMPLIANCE then Some None
       else list_head (o_refinementlistPtr ob) s
     })"

definition smiGetNextRefinement :: "ptr option \<Rightarrow> smi \<Rightarrow> ptr option option" where
  "smiGetNextRefinement p s = (case p of None \<Rightarrow> Some None | Some a \<Rightarrow> do {
       x \<leftarrow> s_refinements s a;
       ob \<leftarrow> deref (s_objects s) (rf_compliancePtr x);
       list_after a (o_refinementlistPtr ob) s
     })"

definition smiGetRefinementNode :: "ptr option \<Rightarrow> smi \<Rightarrow> ptr option option" where
  "smiGetRefinementNode p s = map_option rf_objectPtr (deref (s_refinements s) p)"

definition smiGetRefinementLine :: "ptr option \<Rightarrow> smi \<Rightarrow> int option" where
  "smiGetRefinementLine p s = map_option rf_line (deref (s_refinements s) p)"

definition smiGetRefinementType :: "ptr option \<Rightarrow> smi \<Rightarrow> ptr option option" where
  "smiGetRefinementType p s = do { x \<leftarrow> deref (s_refinements s) p; known_type (rf_typePtr x) s }"

definition smiGetRefinementWriteType :: "ptr option \<Rightarrow> smi \<Rightarrow> ptr option option" where
  "smiGetRefinementWriteType p s = do { x \<leftarrow> deref (s_refinements s) p; known_type (rf_writetypePtr x) s }"

end
