(* ===== verification/Smi_Render.thy ===== *)
theory Smi_Render
  imports Smi_Api
begin

section \<open>Rendering\<close>

text \<open>
  \<^verbatim>\<open>smi.c\<close>: the names of the enumeration constants, the textual form of object identifiers, nodes and
  types, and the bounds a type's restrictions imply.  An enumeration is passed as the number the C
  code switches on, so that a number without a constant takes the default branch.  The strings
  \<open>smiAsprintf\<close> allocates are the returned strings; \<open>%s\<close> with a null pointer is undefined.
\<close>

subsection \<open>The names of the enumeration constants\<close>

definition smiLanguageAsString :: "int \<Rightarrow> string" where
  "smiLanguageAsString n = (
     if n = language_code SMI_LANGUAGE_UNKNOWN then ''<unknown>''
     else if n = language_code SMI_LANGUAGE_SMIV1 then ''SMIv1''
     else if n = language_code SMI_LANGUAGE_SMIV2 then ''SMIv2''
     else if n = language_code SMI_LANGUAGE_SMING then ''SMIng''
     else if n = language_code SMI_LANGUAGE_SPPI then ''SPPI''
     else if n = language_code SMI_LANGUAGE_YANG then ''YANG''
     else ''<LANGUAGE-UNDEFINED>'')"

definition smiBasetypeAsString :: "int \<Rightarrow> string" where
  "smiBasetypeAsString n = (
     if n = basetype_code SMI_BASETYPE_UNKNOWN then ''<unknown>''
     else if n = basetype_code SMI_BASETYPE_OCTETSTRING then ''OctetString''
     else if n = basetype_code SMI_BASETYPE_OBJECTIDENTIFIER then ''ObjectIdentifier''
     else if n = basetype_code SMI_BASETYPE_UNSIGNED32 then ''Unsigned32''
     else if n = basetype_code SMI_BASETYPE_INTEGER32 then ''Integer32''
     else if n = basetype_code SMI_BASETYPE_UNSIGNED64 then ''Unsigned64''
     else if n = basetype_code SMI_BASETYPE_INTEGER64 then ''Integer64''
     else if n = basetype_code SMI_BASETYPE_FLOAT32 then ''Float32''
     else if n = basetype_code SMI_BASETYPE_FLOAT64 then ''Float64''
     else if n = basetype_code SMI_BASETYPE_FLOAT128 then ''Float128''
     else if n = basetype_code SMI_BASETYPE_ENUM then ''Enumeration''
     else if n = basetype_code SMI_BASETYPE_BITS then ''Bits''
     else if n = basetype_code SMI_BASETYPE_POINTER then ''Pointer''
     else ''<BASETYPE-UNDEFINED>'')"

definition smiStatusAsString :: "int \<Rightarrow> string" where
  "smiStatusAsString n = (
     if n = status_code SMI_STATUS_UNKNOWN then ''<unknown>''
     else if n = status_code SMI_STATUS_CURRENT then ''current''
     else if n = status_code SMI_STATUS_DEPRECATED then ''deprecated''
     else if n = status_code SMI_STATUS_OBSOLETE then ''obsolete''
     else if n = status_code SMI_STATUS_MANDATORY then ''mandatory''
     else if n = status_code SMI_STATUS_OPTIONAL then ''optional''
     else ''<STATUS-UNDEFINED>'')"

definition smiAccessAsString :: "int \<Rightarrow> string" where
  "smiAccessAsString n = (
     if n = access_code SMI_ACCESS_UNKNOWN then ''<unknown>''
     else if n = access_code SMI_ACCESS_NOT_IMPLEMENTED then ''not-implemented''
     else if n = access_code SMI_ACCESS_NOT_ACCESSIBLE then ''not-accessible''
     else if n = access_code SMI_ACCESS_NOTIFY then ''accessible-for-notify''
     else if n = access_code SMI_ACCESS_READ_ONLY then ''read-only''
     else if n = access_code SMI_ACCESS_READ_WRITE then ''read-write''
     else if n = access_code SMI_ACCESS_INSTALL then ''install''
     else if n = access_code SMI_ACCESS_INSTALL_NOTIFY then ''notify''
     else if n = access_code SMI_ACCESS_REPORT_ONLY then ''report-only''
     else if n = access_code SMI_ACCESS_EVENT_ONLY then ''event-only''
     else ''<ACCESS-UNDEFINED>'')"

definition smiNodekindAsString :: "SmiNodekind \<Rightarrow> string" where
  "smiNodekindAsString n = (
     if n = SMI_NODEKIND_UNKNOWN then ''<unknown>''
     else if n = SMI_NODEKIND_NODE then ''node''
     else if n = SMI_NODEKIND_SCALAR then ''scalar''
     else if n = SMI_NODEKIND_TABLE then ''table''
     else if n = SMI_NODEKIND_ROW then ''row''
     else if n = SMI_NODEKIND_COLUMN then ''column''
     else if n = SMI_NODEKIND_NOTIFICATION then ''notification''
     else if n = SMI_NODEKIND_GROUP then ''group''
     else if n = SMI_NODEKIND_COMPLIANCE then ''compliance''
     else if n = SMI_NODEKIND_CAPABILITIES then ''capabilities''
     else ''<NODEKIND-UNDEFINED>'')"

definition smiDeclAsString :: "int \<Rightarrow> string" where
  "smiDeclAsString n = (
     if n = decl_code SMI_DECL_UNKNOWN then ''<unknown>''
     else if n = decl_code SMI_DECL_IMPLICIT_TYPE then ''<implicit>''
     else if n = decl_code SMI_DECL_TYPEASSIGNMENT then ''<type-assignment>''
     else if n = decl_code SMI_DECL_IMPL_SEQUENCEOF then ''<implicit-sequence-of>''
     else if n = decl_code SMI_DECL_VALUEASSIGNMENT then ''<value-assignment>''
     else if n = decl_code SMI_DECL_OBJECTTYPE then ''OBJECT-TYPE''
     else if n = decl_code SMI_DECL_OBJECTIDENTITY then ''OBJECT-IDENTITY''
     else if n = decl_code SMI_DECL_MODULEIDENTITY then ''MODULE-IDENTITY''
     else if n = decl_code SMI_DECL_NOTIFICATIONTYPE then ''NOTIFICATION-TYPE''
     else if n = decl_code SMI_DECL_TRAPTYPE then ''TRAP-TYPE''
     else if n = decl_code SMI_DECL_OBJECTGROUP then ''OBJECT-GROUP''
     else if n = decl_code SMI_DECL_NOTIFICATIONGROUP then ''NOTIFICATION-GROUP''
     else if n = decl_code SMI_DECL_MODULECOMPLIANCE then ''MODULE-COMPLIANCE''
     else if n = decl_code SMI_DECL_AGENTCAPABILITIES then ''AGENT-CAPABILITIES''
     else if n = decl_code SMI_DECL_TEXTUALCONVENTION then ''TEXTUAL-CONVENTION''
     else if n = decl_code SMI_DECL_MACRO then ''MACRO''
     else if n = decl_code SMI_DECL_COMPL_GROUP then ''GROUP''
     else if n = decl_code SMI_DECL_COMPL_OBJECT then ''OBJECT''
     else if n = decl_code SMI_DECL_MODULE then ''module''
     else if n = decl_code SMI_DECL_EXTENSION then ''extension''
     else if n = decl_code SMI_DECL_TYPEDEF then ''typedef''
     else if n = decl_code SMI_DECL_NODE then ''node''
     else if n = decl_code SMI_DECL_SCALAR then ''scalar''
     else if n = decl_code SMI_DECL_TABLE then ''table''
     else if n = decl_code SMI_DECL_ROW then ''row''
     else if n = decl_code SMI_DECL_COLUMN then ''column''
     else if n = decl_code SMI_DECL_NOTIFICATION then ''notification''
     else if n = decl_code SMI_DECL_GROUP then ''group''
     else if n = decl_code SMI_DECL_COMPLIANCE then ''compliance''
     else if n = decl_code SMI_DECL_IDENTITY then ''identity''
     else if n = decl_code SMI_DECL_CLASS then ''class''
     else if n = decl_code SMI_DECL_ATTRIBUTE then ''attribute''
     else if n = decl_code SMI_DECL_EVENT then ''event''
     else if n = decl_code SMI_DECL_IMPL_OBJECT then ''<implicit object>''
     else ''<DECL-UNDEFINED>'')"

subsection \<open>Object identifiers, nodes and types\<close>

definition SMI_RENDER_NAME :: u32 where "SMI_RENDER_NAME = 0x02"
definition SMI_RENDER_QUALIFIED :: u32 where "SMI_RENDER_QUALIFIED = 0x04"
definition SMI_RENDER_UNKNOWN :: u32 where "SMI_RENDER_UNKNOWN = 0x20"
definition SMI_RENDER_TYPE_RECURSIVE :: u32 where "SMI_RENDER_TYPE_RECURSIVE = 0x40"

lemmas render_flag_defs = SMI_RENDER_NAME_def SMI_RENDER_QUALIFIED_def SMI_RENDER_UNKNOWN_def
  SMI_RENDER_TYPE_RECURSIVE_def

definition unknown_label :: "u32 \<Rightarrow> cstr" where
  "unknown_label flags = (if any_flag flags SMI_RENDER_UNKNOWN then Some SMI_UNKNOWN_LABEL else None)"

text \<open>The loop that shortens the identifier until the node found has a name; it ends with the last
  node found when the length reaches zero.\<close>

fun named_prefix :: "nat \<Rightarrow> SmiSubid list \<Rightarrow> ptr option \<Rightarrow> smi \<Rightarrow> ptr option option" where
  "named_prefix 0 oid nodePtr s = Some nodePtr"
| "named_prefix (Suc k) oid nodePtr s = do {
     q \<leftarrow> smiGetNodeByOID (Suc k) oid s;
     if q = None then Some None
     else do {
       ob \<leftarrow> deref (s_objects s) q;
       if sn_name (o_export ob) \<noteq> None then Some q else named_prefix k oid q s
     }
   }"

text \<open>The loop that appends the sub identifiers from index \<open>i\<close> on.\<close>

fun append_subids :: "nat \<Rightarrow> SmiSubid list \<Rightarrow> cstr \<Rightarrow> cstr" where
  "append_subids i [] t = t"
| "append_subids i (x # xs) t =
     append_subids (Suc i) xs (Some ((case t of None \<Rightarrow> '''' | Some u \<Rightarrow> u) @
       (if i \<noteq> 0 then ''.'' else '''') @ dec (unat x)))"

definition qualified_name :: "cstr \<Rightarrow> string \<Rightarrow> string option" where
  "qualified_name m name = map_option (\<lambda>m. m @ ''::'' @ name) m"

definition smiRenderOID :: "nat \<Rightarrow> SmiSubid list option \<Rightarrow> u32 \<Rightarrow> smi \<Rightarrow> cstr option" where
  "smiRenderOID oidlen oid flags s = (case oid of None \<Rightarrow> Some (unknown_label flags)
   | Some oid \<Rightarrow> do {
       (i, t) \<leftarrow> (if any_flag flags (Bit_Operations.or SMI_RENDER_NAME SMI_RENDER_QUALIFIED) then do {
           q \<leftarrow> named_prefix oidlen oid None s;
           if q = None then Some (0, None)
           else do {
             ob \<leftarrow> deref (s_objects s) q;
             case sn_name (o_export ob) of None \<Rightarrow> Some (0, None)
             | Some name \<Rightarrow> do {
                 modulePtr \<leftarrow> (if any_flag flags SMI_RENDER_QUALIFIED then smiGetNodeModule q s else Some None);
                 t \<leftarrow> (if modulePtr \<noteq> None then do {
                         m \<leftarrow> deref (s_modules s) modulePtr;
                         qualified_name (sm_name (m_export m)) name
                       } else Some name);
                 Some (sn_oidlen (o_export ob), Some t)
               }
           }
         } else Some (0, None));
       t \<leftarrow> (if i < oidlen then
               (if oidlen \<le> length oid then Some (append_subids i (drop i (take oidlen oid)) t) else None)
             else Some t);
       Some (if t = None then unknown_label flags else t)
     })"

definition render_named :: "ptr option \<Rightarrow> string \<Rightarrow> u32 \<Rightarrow> smi \<Rightarrow> cstr option" where
  "render_named modulePtr name flags s = (
     if \<not> any_flag flags SMI_RENDER_QUALIFIED \<or> modulePtr = None then Some (Some name)
     else do {
       m \<leftarrow> deref (s_modules s) modulePtr;
       mn \<leftarrow> sm_name (m_export m);
       Some (Some (if mn = [] then name else mn @ ''::'' @ name))
     })"

definition smiRenderNode :: "ptr option \<Rightarrow> u32 \<Rightarrow> smi \<Rightarrow> cstr option" where
  "smiRenderNode p flags s = (if p = None then Some (unknown_label flags)
     else do {
       ob \<leftarrow> deref (s_objects s) p;
       case sn_name (o_export ob) of None \<Rightarrow> Some (unknown_label flags)
       | Some name \<Rightarrow> render_named (o_modulePtr ob) name flags s
     })"

partial_function (option) smiRenderType :: "ptr option \<Rightarrow> u32 \<Rightarrow> smi \<Rightarrow> cstr option" where
  "smiRenderType p flags s = (if p = None then Some (unknown_label flags)
     else do {
       t \<leftarrow> deref (s_types s) p;
       case st_name (t_export t) of
         None \<Rightarrow> if any_flag flags SMI_RENDER_TYPE_RECURSIVE then do {
                    q \<leftarrow> smiGetParentType p s;
                    smiRenderType q flags s
                  } else Some (unknown_label flags)
       | Some name \<Rightarrow> render_named (t_modulePtr t) name flags s
     })"

declare smiRenderType.simps [code]

subsection \<open>The bounds of a type\<close>

definition word_of_value :: "SmiValue \<Rightarrow> u64 option" where
  "word_of_value v = (case sv_value v of UWord w \<Rightarrow> Some w | _ \<Rightarrow> None)"

text \<open>\<open>for (r = smiGetFirstRange(t); r; r = smiGetNextRange(r)) acc = f(r, acc);\<close>\<close>

partial_function (option) fold_ranges :: "(SmiRange \<Rightarrow> 'a \<Rightarrow> 'a option) \<Rightarrow> ptr option \<Rightarrow> 'a \<Rightarrow> smi \<Rightarrow> 'a option" where
  "fold_ranges f p acc s = (if p = None then Some acc
     else do {
       r \<leftarrow> deref (s_ranges s) p;
       acc \<leftarrow> f (rg_export r) acc;
       q \<leftarrow> smiGetNextRange p s;
       fold_ranges f q acc s
     })"

declare fold_ranges.simps [code]

partial_function (option) smiGetMinSize :: "ptr option \<Rightarrow> smi \<Rightarrow> u32 option" where
  "smiGetMinSize p s = do {
     t \<leftarrow> deref (s_types s) p;
     if st_basetype (t_export t) \<noteq> SMI_BASETYPE_OCTETSTRING \<and>
        st_basetype (t_export t) \<noteq> SMI_BASETYPE_OBJECTIDENTIFIER then Some 0
     else do {
       r \<leftarrow> smiGetFirstRange p s;
       mn \<leftarrow> fold_ranges (\<lambda>r mn. do {
             w \<leftarrow> word_of_value (minValue r);
             Some (if w < ucast mn then ucast w else mn)
           }) r (65535 :: u32) s;
       let size = (if mn < 65535 \<and> mn > 0 then mn else 0);
       parentType \<leftarrow> smiGetParentType p s;
       if parentType = None then Some size
       else do {
         psize \<leftarrow> smiGetMinSize parentType s;
         Some (if psize > size then psize else size)
       }
     }
   }"

declare smiGetMinSize.simps [code]

text \<open>
  The four integer base types: where the search for the least and the greatest bound starts, and
  how two values are compared.  The union member \<open>integer32\<close> is a \<open>long\<close>, \<open>unsigned32\<close> an \<open>unsigned
  long\<close>.
\<close>

definition minmax_start :: "SmiBasetype \<Rightarrow> (u64 \<times> u64) option" where
  "minmax_start b = (
     if b = SMI_BASETYPE_INTEGER32 then Some (2 ^ 31 - 1, - (2 ^ 31))
     else if b = SMI_BASETYPE_INTEGER64 then Some (2 ^ 63 - 1, - (2 ^ 63))
     else if b = SMI_BASETYPE_UNSIGNED32 then Some (2 ^ 32 - 1, 0)
     else if b = SMI_BASETYPE_UNSIGNED64 then Some (- 1, 0)
     else None)"

definition value_less :: "SmiBasetype \<Rightarrow> u64 \<Rightarrow> u64 \<Rightarrow> bool" where
  "value_less b v w \<longleftrightarrow> (if b = SMI_BASETYPE_INTEGER32 \<or> b = SMI_BASETYPE_INTEGER64
     then sint v < sint w else v < w)"

definition minmax_step :: "SmiBasetype \<Rightarrow> SmiRange \<Rightarrow> u64 \<times> u64 \<Rightarrow> (u64 \<times> u64) option" where
  "minmax_step b r acc = do {
     lo \<leftarrow> word_of_value (minValue r);
     hi \<leftarrow> word_of_value (maxValue r);
     Some (if value_less b lo (fst acc) then lo else fst acc,
           if value_less b (snd acc) hi then hi else snd acc)
   }"

text \<open>The returned code and the two values written through \<open>min\<close> and \<open>max\<close>.\<close>

definition smiGetMinMaxRange ::
  "ptr option \<Rightarrow> SmiValue \<Rightarrow> SmiValue \<Rightarrow> smi \<Rightarrow> (int \<times> SmiValue \<times> SmiValue) option" where
  "smiGetMinMaxRange p mn mx s = do {
     let mn = mn\<lparr>sv_basetype := SMI_BASETYPE_UNKNOWN, sv_len := 0\<rparr>;
     let mx = mx\<lparr>sv_basetype := SMI_BASETYPE_UNKNOWN, sv_len := 0\<rparr>;
     q \<leftarrow> smiGetFirstRange p s;
     if q = None then Some (0, mn, mx)
     else do {
       r \<leftarrow> deref (s_ranges s) q;
       let b = sv_basetype (minValue (rg_export r));
       let mn = mn\<lparr>sv_basetype := b\<rparr>;
       let mx = mx\<lparr>sv_basetype := b\<rparr>;
       case minmax_start b of None \<Rightarrow> Some (- 1, mn, mx)
       | Some start \<Rightarrow> do {
           (lo, hi) \<leftarrow> fold_ranges (minmax_step b) q start s;
           Some (0, mn\<lparr>sv_value := UWord lo\<rparr>, mx\<lparr>sv_value := UWord hi\<rparr>)
         }
     }
   }"

subsection \<open>Aliases: the other objects of a node\<close>

text \<open>The test before the first object is read is on the first child.\<close>

definition smiGetFirstAlias :: "ptr option \<Rightarrow> smi \<Rightarrow> ptr option option" where
  "smiGetFirstAlias p s = (if p = None then Some None
     else do {
       ob \<leftarrow> deref (s_objects s) p;
       if o_nodePtr ob = None then Some None
       else do {
         n \<leftarrow> deref (s_nodes s) (o_nodePtr ob);
         if n_firstChildPtr n = None then Some None else Some (n_firstObjectPtr n)
       }
     })"

definition smiGetNextAlias :: "ptr option \<Rightarrow> smi \<Rightarrow> ptr option option" where
  "smiGetNextAlias p s = (case p of None \<Rightarrow> Some None | Some a \<Rightarrow> do {
       ob \<leftarrow> s_objects s a;
       if o_nodePtr ob = None then Some None
       else do {
         n \<leftarrow> deref (s_nodes s) (o_nodePtr ob);
         q \<leftarrow> walk (s_objects s) o_nextSameNodePtr (\<lambda>x _. Some (x = a)) (n_firstObjectPtr n);
         if q = None then Some None
         else map_option o_nextSameNodePtr (deref (s_objects s) q)
       }
     })"

end
