(* ===== verification/Smi_Sample.thy ===== *)
theory Smi_Sample
  imports Smi_Render
begin

section \<open>A small database\<close>

text \<open>
  A concrete state on which the properties are instantiated: a handle (address 0) with the built-in
  module (10) and a module \<open>A-MIB\<close> (11); the tree with the root (20), \<open>1\<close> (21), \<open>3\<close> (22) and \<open>1.6\<close>
  (23); the node of the pending names (29) and a live parser (30) that reads \<open>A-MIB\<close>; two objects at
  \<open>1\<close> (40 in the built-in module, 42 in \<open>A-MIB\<close>) and one at \<open>1.6\<close> (41); two revisions, an import, an
  enumeration with two named numbers and two types derived from it, and two views.
\<close>

definition sample_handle :: Handle where
  "sample_handle = zero_handle\<lparr>h_firstViewPtr := Some 90, h_lastViewPtr := Some 91,
     h_firstModulePtr := Some 10, h_lastModulePtr := Some 11, h_rootNodePtr := Some 20,
     h_parserPtr := Some 30\<rparr>"

definition sample_views :: "ptr \<rightharpoonup> View" where
  "sample_views = [90 \<mapsto> \<lparr>v_name = Some '''', v_nextPtr = Some 91, v_prevPtr = None\<rparr>,
     91 \<mapsto> \<lparr>v_name = Some ''A-MIB'', v_nextPtr = None, v_prevPtr = Some 90\<rparr>]"

definition sample_modules :: "ptr \<rightharpoonup> Module" where
  "sample_modules = [10 \<mapsto> zero_module\<lparr>m_export := (m_export zero_module)\<lparr>sm_name := Some ''''\<rparr>,
       m_nextPtr := Some 11, m_firstObjectPtr := Some 40, m_lastObjectPtr := Some 40\<rparr>,
     11 \<mapsto> zero_module\<lparr>m_export := (m_export zero_module)\<lparr>sm_name := Some ''A-MIB'',
         sm_language := SMI_LANGUAGE_SMIV2\<rparr>, m_prevPtr := Some 10,
       m_firstObjectPtr := Some 41, m_lastObjectPtr := Some 42,
       m_firstRevisionPtr := Some 50, m_lastRevisionPtr := Some 51,
       m_firstImportPtr := Some 55, m_lastImportPtr := Some 55,
       m_firstTypePtr := Some 60, m_lastTypePtr := Some 62\<rparr>]"

definition sample_nodes :: "ptr \<rightharpoonup> Node" where
  "sample_nodes = [
     20 \<mapsto> zero_node\<lparr>n_flags := NODE_FLAG_ROOT, n_firstChildPtr := Some 21, n_lastChildPtr := Some 22\<rparr>,
     21 \<mapsto> zero_node\<lparr>n_subid := 1, n_parentPtr := Some 20, n_nextPtr := Some 22,
       n_firstChildPtr := Some 23, n_lastChildPtr := Some 23,
       n_firstObjectPtr := Some 40, n_lastObjectPtr := Some 42\<rparr>,
     22 \<mapsto> zero_node\<lparr>n_subid := 3, n_parentPtr := Some 20, n_prevPtr := Some 21\<rparr>,
     23 \<mapsto> zero_node\<lparr>n_subid := 6, n_parentPtr := Some 21,
       n_firstObjectPtr := Some 41, n_lastObjectPtr := Some 41\<rparr>,
     29 \<mapsto> zero_node\<lparr>n_flags := NODE_FLAG_ROOT\<rparr>]"

definition sample_object :: "string \<Rightarrow> ptr \<Rightarrow> ptr \<Rightarrow> Object" where
  "sample_object nm mp q = zero_object\<lparr>o_export := (o_export zero_object)\<lparr>sn_name := Some nm,
       sn_nodekind := SMI_NODEKIND_NODE\<rparr>,
     o_modulePtr := Some mp, o_nodePtr := Some q\<rparr>"

definition sample_objects :: "ptr \<rightharpoonup> Object" where
  "sample_objects = [
     40 \<mapsto> (sample_object ''iso'' 10 21)\<lparr>o_nextSameNodePtr := Some 42\<rparr>,
     41 \<mapsto> (sample_object ''foo'' 11 23)\<lparr>o_nextPtr := Some 42\<rparr>,
     42 \<mapsto> (sample_object ''bar'' 11 21)\<lparr>o_prevPtr := Some 41, o_prevSameNodePtr := Some 40\<rparr>]"

definition sample_revisions :: "ptr \<rightharpoonup> Revision" where
  "sample_revisions = [
     50 \<mapsto> \<lparr>r_export = \<lparr>sr_date = 200, sr_description = None\<rparr>, r_modulePtr = Some 11,
       r_nextPtr = Some 51, r_prevPtr = None, r_line = 1\<rparr>,
     51 \<mapsto> \<lparr>r_export = \<lparr>sr_date = 100, sr_description = None\<rparr>, r_modulePtr = Some 11,
       r_nextPtr = None, r_prevPtr = Some 50, r_line = 2\<rparr>]"

definition sample_imports :: "ptr \<rightharpoonup> Import" where
  "sample_imports = [
     55 \<mapsto> \<lparr>i_export = \<lparr>si_module = Some ''B-MIB'', si_name = Some ''iso''\<rparr>, i_modulePtr = Some 11,
       i_flags = 0, i_nextPtr = None, i_prevPtr = None, i_kind = KIND_UNKNOWN, i_use = 0, i_line = 1\<rparr>]"

definition sample_types :: "ptr \<rightharpoonup> Type" where
  "sample_types = [
     60 \<mapsto> zero_type\<lparr>t_export := (t_export zero_type)\<lparr>st_name := Some ''Status'',
         st_basetype := SMI_BASETYPE_ENUM\<rparr>,
       t_modulePtr := Some 11, t_listPtr := Some 70, t_nextPtr := Some 61\<rparr>,
     61 \<mapsto> zero_type\<lparr>t_export := (t_export zero_type)\<lparr>st_basetype := SMI_BASETYPE_ENUM\<rparr>,
       t_modulePtr := Some 11, t_parentPtr := Some 60, t_nextPtr := Some 62, t_prevPtr := Some 60\<rparr>,
     62 \<mapsto> zero_type\<lparr>t_export := (t_export zero_type)\<lparr>st_name := Some ''Used'',
         st_basetype := SMI_BASETYPE_ENUM\<rparr>,
       t_modulePtr := Some 11, t_parentPtr := Some 61, t_prevPtr := Some 61\<rparr>]"

definition sample_number :: "string \<Rightarrow> u64 \<Rightarrow> NamedNumber" where
  "sample_number nm v = \<lparr>nn_export = \<lparr>snn_name = Some nm, snn_value = \<lparr>sv_basetype = SMI_BASETYPE_ENUM,
     sv_len = 0, sv_value = UWord v\<rparr>\<rparr>, nn_typePtr = Some 60\<rparr>"

definition sample_numbers :: "ptr \<rightharpoonup> NamedNumber" where
  "sample_numbers = [75 \<mapsto> sample_number ''up'' 1, 76 \<mapsto> sample_number ''down'' 2]"

definition sample_lists :: "ptr \<rightharpoonup> List" where
  "sample_lists = [70 \<mapsto> \<lparr>l_ptr = Some 75, l_nextPtr = Some 71\<rparr>, 71 \<mapsto> \<lparr>l_ptr = Some 76, l_nextPtr = None\<rparr>]"

definition sample_parser :: Parser where
  "sample_parser = zero_parser\<lparr>p_line := 7, p_modulePtr := Some 11, p_pendingNodePtr := Some 29\<rparr>"

definition sample :: smi where
  "sample = smi_start\<lparr>s_handles := [0 \<mapsto> sample_handle], s_views := sample_views,
     s_modules := sample_modules, s_nodes := sample_nodes, s_objects := sample_objects,
     s_revisions := sample_revisions, s_imports := sample_imports, s_types := sample_types,
     s_namednumbers := sample_numbers, s_lists := sample_lists, s_parsers := [30 \<mapsto> sample_parser],
     s_next := 100, smiHandle := Some 0, firstHandlePtr := Some 0, lastHandlePtr := Some 0\<rparr>"

lemma sample_simps:
  "s_handles sample = [0 \<mapsto> sample_handle]" "s_views sample = sample_views"
  "s_modules sample = sample_modules" "s_nodes sample = sample_nodes"
  "s_objects sample = sample_objects" "s_revisions sample = sample_revisions"
  "s_imports sample = sample_imports" "s_types sample = sample_types"
  "s_namednumbers sample = sample_numbers" "s_lists sample = sample_lists"
  "s_parsers sample = [30 \<mapsto> sample_parser]" "s_next sample = 100" "smiHandle sample = Some 0"
  "firstHandlePtr sample = Some 0" "lastHandlePtr sample = Some 0"
  "s_identities sample = Map.empty" "s_classes sample = Map.empty" "s_macros sample = Map.empty"
  "s_attributes sample = Map.empty" "s_events sample = Map.empty" "s_ranges sample = Map.empty"
  by (simp_all add: sample_def smi_start_def)

lemmas sample_defs = sample_simps sample_handle_def sample_views_def sample_modules_def
  sample_nodes_def sample_objects_def sample_object_def sample_revisions_def sample_imports_def
  sample_types_def sample_numbers_def sample_number_def sample_lists_def sample_parser_def

lemmas zero_defs = zero_handle_def zero_module_def zero_node_def zero_object_def zero_type_def
  zero_parser_def

lemma theHandle_sample: "theHandle sample = Some sample_handle"
  by (simp add: theHandle_def sample_simps)

subsection \<open>The sample is well formed\<close>

definition sample_ch :: "ptr \<Rightarrow> ptr list" where
  "sample_ch = (\<lambda>_. [])(20 := [21, 22], 21 := [23])"

definition sample_path :: "ptr \<Rightarrow> SmiSubid list" where
  "sample_path = (\<lambda>_. [])(21 := [1], 22 := [3], 23 := [1, 6])"

lemma sample_node_cases:
  "sample_nodes p = Some n \<Longrightarrow> p \<in> {20, 21, 22, 23, 29}"
  by (auto simp: sample_nodes_def split: if_splits)

lemma sample_tree: "tree_ok (s_nodes sample) sample_ch sample_path"
  unfolding tree_ok_def sample_simps
proof (intro conjI allI impI)
  fix p n
  assume n: "sample_nodes p = Some n"
  then have p: "p \<in> {20, 21, 22, 23, 29}" by (rule sample_node_cases)
  show "dlist n_nextPtr n_prevPtr sample_nodes (n_firstChildPtr n) (sample_ch p) (n_lastChildPtr n)"
    using n p by (auto simp: dlist_def sample_nodes_def sample_ch_def zero_node_def)
  show "sorted (map (subid_in sample_nodes) (sample_ch p))"
    using p by (auto simp: sample_nodes_def sample_ch_def subid_in_def zero_node_def)
  show "\<forall>c \<in> set (sample_ch p). parent_in sample_nodes c = Some p \<and>
      sample_path c = sample_path p @ [subid_in sample_nodes c]"
    using p by (auto simp: sample_nodes_def sample_ch_def sample_path_def subid_in_def parent_in_def zero_node_def)
next
  fix p
  assume "sample_nodes p = None"
  then show "sample_ch p = []" by (auto simp: sample_nodes_def sample_ch_def split: if_splits)
qed

lemma sample_inv: "oid_inv sample sample_ch sample_path 20 (Some 29)"
  unfolding oid_inv_def
proof (intro conjI)
  show "tree_ok (s_nodes sample) sample_ch sample_path" by (rule sample_tree)
  show "map_option h_rootNodePtr (theHandle sample) = Some (Some 20)"
    by (simp add: theHandle_sample sample_handle_def)
  show "s_nodes sample 20 \<noteq> None" by (simp add: sample_simps sample_nodes_def)
  show "sample_path 20 = []" by (simp add: sample_path_def)
  show "live_parser sample (Some 29)"
    by (simp add: live_parser_def theHandle_sample sample_handle_def sample_simps sample_parser_def)
  show "Some 29 \<noteq> Some (20::ptr)" by simp
  show "\<forall>pd. Some 29 = Some pd \<longrightarrow> parent_in (s_nodes sample) pd = None \<and> s_nodes sample pd \<noteq> None"
    by (simp add: sample_simps sample_nodes_def parent_in_def zero_node_def)
  show "\<forall>p. Some 29 \<noteq> Some p \<longrightarrow> distinct (map (subid_in (s_nodes sample)) (sample_ch p))"
    by (simp add: sample_simps sample_ch_def sample_nodes_def subid_in_def zero_node_def)
  show "\<forall>a \<ge> s_next sample. s_nodes sample a = None"
    by (auto simp: sample_simps sample_nodes_def)
qed

lemma sample_handles: "handle_list sample [0]"
  by (simp add: handle_list_def dlist_def sample_defs zero_handle_def)

lemma sample_view_list: "view_list sample [90, 91]"
  by (simp add: view_list_def theHandle_sample dlist_def sample_handle_def sample_simps sample_views_def)

lemma sample_module_list: "module_list sample [10, 11]"
  by (simp add: module_list_def theHandle_sample dlist_def sample_handle_def sample_simps
      sample_modules_def zero_module_def)

definition sample_objs :: "ptr \<Rightarrow> ptr list" where
  "sample_objs = (\<lambda>_. [])(10 := [40], 11 := [41, 42])"

lemma sample_object_list: "mp \<in> set [10, 11] \<Longrightarrow> object_list sample mp (sample_objs mp)"
  by (auto simp: object_list_def dlist_def sample_simps sample_objs_def sample_modules_def
      sample_objects_def sample_object_def zero_module_def zero_object_def)

lemma sample_node_objects:
  "node_objects sample 21 [40, 42]" "node_objects sample 23 [41]" "node_objects sample 22 []"
  by (simp_all add: node_objects_def dlist_def sample_simps sample_nodes_def sample_objects_def
      sample_object_def zero_node_def zero_object_def)

lemma sample_revision_list: "revision_list sample 11 [50, 51]"
  by (simp add: revision_list_def dlist_def sample_simps sample_modules_def sample_revisions_def
      zero_module_def)

lemma sample_import_list: "import_list sample 11 [55]"
  by (simp add: import_list_def dlist_def sample_simps sample_modules_def sample_imports_def
      zero_module_def)

definition sample_typs :: "ptr \<Rightarrow> ptr list" where
  "sample_typs = (\<lambda>_. [])(11 := [60, 61, 62])"

lemma sample_type_list: "mp \<in> set [10, 11] \<Longrightarrow> type_list sample mp (sample_typs mp)"
  by (auto simp: type_list_def dlist_def sample_simps sample_typs_def sample_modules_def
      sample_types_def zero_module_def zero_type_def)

lemma sample_number_list: "number_list sample (Some 70) [(75, 1), (76, 2)]"
  by (simp add: sample_simps sample_lists_def sample_numbers_def sample_number_def integer32_def)

lemma sample_live: "deref (s_parsers sample) (Some 30) = Some sample_parser"
    "p_modulePtr sample_parser = Some 11" "p_pendingNodePtr sample_parser = Some 29"
  by (simp_all add: sample_simps sample_parser_def)

lemma sample_fresh:
  "s_nodes sample (s_next sample) = None" "s_objects sample (s_next sample) = None"
  "s_modules sample (s_next sample) = None" "s_revisions sample (s_next sample) = None"
  "s_types sample (s_next sample) = None" "s_views sample (s_next sample) = None"
  "s_handles sample (s_next sample) = None" "s_imports sample (s_next sample) = None"
  by (simp_all add: sample_defs)

definition sample_node_objs :: "ptr \<Rightarrow> ptr list" where
  "sample_node_objs = (\<lambda>_. [])(21 := [40, 42], 23 := [41])"

lemma sample_objects_ok:
  "s_nodes sample q \<noteq> None \<Longrightarrow> node_objects sample q (sample_node_objs q)"
  "s_nodes sample q \<noteq> None \<Longrightarrow> p \<in> set (sample_node_objs q) \<Longrightarrow>
    \<exists>mp. object_module sample p = Some mp \<and> name_of_module sample mp \<noteq> None"
  "v \<in> set [90, 91] \<Longrightarrow> view_name sample v \<noteq> None"
proof -
  show "node_objects sample q (sample_node_objs q)" if "s_nodes sample q \<noteq> None"
    using that sample_node_objects
    by (auto simp: sample_simps sample_node_objs_def sample_nodes_def node_objects_def dlist_def
        zero_node_def split: if_splits)
  show "\<exists>mp. object_module sample p = Some mp \<and> name_of_module sample mp \<noteq> None"
    if "p \<in> set (sample_node_objs q)"
    using that by (auto simp: sample_node_objs_def object_module_def name_of_module_def fld_def
        sample_simps sample_objects_def sample_object_def sample_modules_def split: if_splits)
  show "view_name sample v \<noteq> None" if "v \<in> set [90, 91]"
    using that by (auto simp: view_name_def fld_def sample_simps sample_views_def)
qed

end
