(* ===== verification/Smi_Query.thy ===== *)
theory Smi_Query
  imports Smi_Render
begin

section \<open>Facts about the query interface\<close>

text \<open>
  Object identifiers in dotted notation, qualified names, the search through a subtree in preorder,
  and what the query functions return on well-formed lists and trees.
\<close>

subsection \<open>Object identifiers in dotted notation\<close>

lemma ucast_strtoul0_dec: "ucast (strtoul0 (dec (unat x))) = (x :: u32)"
proof -
  have "unat x < 2 ^ 64" using unsigned_less [of x, where 'a = nat] by simp
  then have "strtoul0 (dec (unat x)) = ucast x" by (simp add: strtoul0_dec)
  then show ?thesis by (simp add: ucast_up_ucast_id is_up_def source_size_def target_size_def word_size)
qed

lemma parse_oid_dotted:
  assumes "length oid \<le> 128"
  shows "parse_oid (dotted (map unat oid)) = Some oid"
  using assms
  by (simp add: parse_oid_def tokens_dotted Let_def ucast_strtoul0_dec comp_def)

lemma findNodeByOidString_loop_None: "foldl (\<lambda>r t. do {
     p \<leftarrow> r;
     if p = None then Some None
     else do { x \<leftarrow> atoi t; findNodeByParentAndSubid p (word_of_int x) s }
   }) None ts = None"
  by (induction ts) auto

lemma findNodeByOidString_loop_null: "findNodeByOidString_loop ts None s = Some None"
  by (induction ts) (auto simp: findNodeByOidString_loop_def)

lemma findNodeByOidString_loop_Cons:
  "findNodeByOidString_loop (t # ts) (Some p) s = do {
     x \<leftarrow> atoi t;
     q \<leftarrow> findNodeByParentAndSubid (Some p) (word_of_int x) s;
     findNodeByOidString_loop ts q s
   }"
  by (auto simp: findNodeByOidString_loop_def findNodeByOidString_loop_None bind_eq_Some_conv
      split: option.splits cong: Option.bind_cong)
    (cases "atoi t"; cases "findNodeByParentAndSubid (Some p) (word_of_int (the (atoi t))) s";
      simp add: findNodeByOidString_loop_None)

lemma findNodeByOidString_loop_dec:
  assumes "\<forall>x \<in> set oid. unat x < 2 ^ 31"
  shows "findNodeByOidString_loop (map (dec \<circ> unat) oid) p s = findNodeByOid_loop (length oid) oid p s"
  using assms
proof (induction oid arbitrary: p)
  case Nil
  then show ?case by (simp add: findNodeByOidString_loop_def)
next
  case (Cons x oid)
  have a: "atoi (dec (unat x)) = Some (int (unat x))" using Cons.prems by (simp add: atoi_dec)
  show ?case
  proof (cases p)
    case None
    then show ?thesis by (simp add: findNodeByOidString_loop_null)
  next
    case (Some a)
    then show ?thesis using Cons by (simp add: findNodeByOidString_loop_Cons a)
  qed
qed

lemma findNodeByOidString_dotted:
  assumes "\<forall>x \<in> set oid. unat x < 2 ^ 31"
  shows "findNodeByOidString (dotted (map unat oid)) s = findNodeByOid (length oid) oid s"
  using findNodeByOidString_loop_dec [OF assms]
  by (simp add: findNodeByOidString_def findNodeByOid_def tokens_dotted)

lemma createNodesByOidString_loop_dec:
  "createNodesByOidString_loop (map (dec \<circ> unat) oid) p s = createNodes_loop (length oid) oid p s"
proof (induction oid arbitrary: p s)
  case (Cons x oid)
  have "ucast (strtoul0 (dec (unat x))) = x" by (rule ucast_strtoul0_dec)
  then show ?case by (simp add: Cons.IH [unfolded comp_def] split_def cong: if_cong)
qed simp

lemma createNodesByOidString_dotted:
  assumes "oid \<noteq> []"
  shows "createNodesByOidString (dotted (map unat oid)) s = createNodes (length oid) oid s"
  using assms
  by (simp add: createNodesByOidString_def createNodes_def tokens_dotted Let_def
      createNodesByOidString_loop_dec)

subsection \<open>Qualified names\<close>

lemma after_colons_none: "CHR '':'' \<notin> set t \<Longrightarrow> after_colons t = None"
  by (induction t rule: after_colons.induct) auto

lemma after_colons_append:
  "CHR '':'' \<notin> set m \<Longrightarrow> after_colons (m @ CHR '':'' # CHR '':'' # n) = Some n"
proof (induction m)
  case Nil
  then show ?case by simp
next
  case (Cons c m)
  then show ?case by (cases m) auto
qed

lemma after_single_colon:
  "CHR '':'' \<notin> set m \<Longrightarrow> k \<noteq> [] \<Longrightarrow> CHR '':'' \<notin> set k \<Longrightarrow>
    after_colons (m @ CHR '':'' # k @ CHR '':'' # CHR '':'' # n) = Some n"
proof (induction m)
  case Nil
  then show ?case using after_colons_append [of k n] by (cases k) auto
next
  case (Cons c m)
  then show ?case by (cases m) auto
qed

lemma takeWhile_before: "c \<notin> set m \<Longrightarrow> takeWhile (\<lambda>d. d \<noteq> c) (m @ c # n) = m"
  by (simp add: takeWhile_append)

lemma dropWhile_before: "c \<notin> set m \<Longrightarrow> dropWhile (\<lambda>d. d \<noteq> c) (m @ c # n) = c # n"
  by (induction m) auto

lemma cut_at_append: "c \<notin> set m \<Longrightarrow> cut_at c (m @ c # n) = (m, n)"
  by (simp add: cut_at_def takeWhile_before dropWhile_before)

lemma split_name_colons:
  assumes "m \<noteq> []" and "is_upper (hd m)" and "CHR '':'' \<notin> set m"
  shows "split_name (m @ ''::'' @ n) = (m, n)"
  using assms after_colons_append [of m n] takeWhile_before [of "CHR '':''" m]
  by (simp add: split_name_def)

lemma split_name_single_colon:
  assumes "m \<noteq> []" and "is_upper (hd m)" and "CHR '':'' \<notin> set m" and "k \<noteq> []" and "CHR '':'' \<notin> set k"
  shows "split_name (m @ '':'' @ k @ ''::'' @ n) = (m, n)"
  using assms after_single_colon [of m k n] takeWhile_before [of "CHR '':''" m]
  by (simp add: split_name_def)

lemma split_name_mark:
  assumes "m \<noteq> []" and "is_upper (hd m)" and "CHR '':'' \<notin> set (m @ n)" and "CHR ''!'' \<notin> set m"
  shows "split_name (m @ ''!'' @ n) = (m, n)"
  using assms after_colons_none [of "m @ ''!'' @ n"] cut_at_append [of "CHR ''!''" m n]
  by (simp add: split_name_def)

lemma split_name_dot:
  assumes "m \<noteq> []" and "is_upper (hd m)" and "CHR '':'' \<notin> set (m @ n)" and "CHR ''!'' \<notin> set (m @ n)"
    and "CHR ''.'' \<notin> set m"
  shows "split_name (m @ ''.'' @ n) = (m, n)"
  using assms after_colons_none [of "m @ ''.'' @ n"] cut_at_append [of "CHR ''.''" m n]
  by (simp add: split_name_def)

lemma split_name_plain: "t = [] \<or> \<not> is_upper (hd t) \<Longrightarrow> split_name t = ('''', t)"
  by (auto simp: split_name_def)

lemma digit_not_upper: "d < 10 \<Longrightarrow> \<not> is_upper (digit_char d)"
  by (simp add: is_upper_def digit_char_def code_of_def of_char_of)

lemma dotted_hd: "ns \<noteq> [] \<Longrightarrow> \<exists>d cs. dotted ns = digit_char d # cs \<and> d < 10"
proof (cases ns rule: dotted.cases)
  case (3 n m k)
  then show ?thesis using dec_hd [of n] by auto
next
  case (2 n)
  then show ?thesis using dec_hd [of n] by auto
qed simp

subsection \<open>Looking up a node by its dotted identifier\<close>

lemma smiGetNode_dotted:
  assumes "oid \<noteq> []" and "length oid \<le> 128"
  shows "smiGetNode load None (Some (dotted (map unat oid))) s =
    map_option (\<lambda>ob. (ob, s)) (smiGetNodeByOID (length oid) oid s)"
proof -
  obtain d cs where d: "dotted (map unat oid) = digit_char d # cs" "d < 10"
    using dotted_hd [of "map unat oid"] assms(1) by auto
  have sp: "split_name (dotted (map unat oid)) = ('''', dotted (map unat oid))"
    using digit_not_upper [OF d(2)] by (simp add: split_name_plain d(1))
  have dg: "dotted (map unat oid) \<noteq> []" "is_digit (hd (dotted (map unat oid)))"
    using d by simp_all
  show ?thesis
    using assms
    by (simp add: smiGetNode_def module_arg_def getModulenameAndName_def sp named_module_def dg
        parse_oid_dotted smiGetNodeByOID_def Option.bind_assoc map_conv_bind_option if_distrib
        cong: if_cong Option.bind_cong)
qed

subsection \<open>The search through a subtree\<close>

text \<open>The shape of the nodes below a first child: a list of trees, each with its own children.\<close>

datatype otree = ONode ptr "otree list"

fun is_forest :: "(ptr \<rightharpoonup> Node) \<Rightarrow> ptr option \<Rightarrow> otree list \<Rightarrow> bool" where
  "is_forest m p [] \<longleftrightarrow> p = None"
| "is_forest m p (ONode a cs # ts) \<longleftrightarrow> p = Some a \<and> (\<exists>n. m a = Some n \<and>
     is_forest m (n_firstChildPtr n) cs \<and> is_forest m (n_nextPtr n) ts)"

fun preorder :: "otree list \<Rightarrow> ptr list" where
  "preorder [] = []"
| "preorder (ONode a cs # ts) = a # preorder cs @ preorder ts"

definition matching :: "smi \<Rightarrow> ptr \<Rightarrow> SmiNodekind \<Rightarrow> ptr \<Rightarrow> bool" where
  "matching s mp nodekind p \<longleftrightarrow> (case s_objects s p of None \<Rightarrow> False
     | Some ob \<Rightarrow> child_matches (Some mp) nodekind ob)"

lemma child_search_forest:
  assumes "is_forest (s_nodes s) p ts" and "\<And>a. a \<in> set (preorder ts) \<Longrightarrow> node_objects s a (objs a)"
  shows "child_search (Some mp) nodekind p s =
    Some (List.find (matching s mp nodekind) (concat (map objs (preorder ts))))"
  using assms
proof (induction "s_nodes s" p ts rule: is_forest.induct)
  case (1 p)
  then show ?case by (subst child_search.simps) simp
next
  case (2 p a cs ts)
  then obtain n where p: "p = Some a" and n: "s_nodes s a = Some n"
    and cs: "is_forest (s_nodes s) (n_firstChildPtr n) cs" and ts: "is_forest (s_nodes s) (n_nextPtr n) ts"
    by auto
  have w: "walk (s_objects s) o_nextSameNodePtr (\<lambda>_ ob. Some (child_matches (Some mp) nodekind ob))
      (n_firstObjectPtr n) = Some (List.find (matching s mp nodekind) (objs a))"
    using "2.prems"(2) [of a] n
    by (auto simp: node_objects_def matching_def intro!: walk_dlist)
  have c: "child_search (Some mp) nodekind (n_firstChildPtr n) s =
      Some (List.find (matching s mp nodekind) (concat (map objs (preorder cs))))"
    using "2.hyps"(1) [OF cs] "2.prems"(2) by simp
  have t: "child_search (Some mp) nodekind (n_nextPtr n) s =
      Some (List.find (matching s mp nodekind) (concat (map objs (preorder ts))))"
    using "2.hyps"(2) [OF ts] "2.prems"(2) by simp
  show ?case
    by (subst child_search.simps) (simp add: p n w c t find_append)
qed

subsection \<open>The object of an identifier\<close>

lemma smiGetNodeByOID_lemma:
  assumes inv: "oid_inv s ch path root pend" and oid: "oid \<noteq> []"
    and no: "\<And>q. s_nodes s q \<noteq> None \<Longrightarrow> node_objects s q (objs q)"
    and vl: "view_list s vs" and vn: "\<And>v. v \<in> set vs \<Longrightarrow> view_name s v \<noteq> None"
    and mods: "\<And>q p. s_nodes s q \<noteq> None \<Longrightarrow> p \<in> set (objs q) \<Longrightarrow>
      \<exists>mp. object_module s p = Some mp \<and> name_of_module s mp \<noteq> None"
  shows "\<exists>k q good. k \<le> length oid \<and>
    resolve ch (subid_in (s_nodes s)) root (take k oid) = Some q \<and>
    (k < length oid \<longrightarrow> resolve ch (subid_in (s_nodes s)) root (take (Suc k) oid) = None) \<and>
    best_object (object_in_view s vs) (object_language s) (objs q) good \<and>
    smiGetNodeByOID (length oid) oid s = Some (if good \<noteq> None then good
      else if objs q = [] then None else Some (hd (objs q)))"
proof -
  obtain k q where k: "getNode (length oid) oid s = Some (Some q)" "k \<le> length oid"
    "resolve ch (subid_in (s_nodes s)) root (take k oid) = Some q"
    "k < length oid \<longrightarrow> resolve ch (subid_in (s_nodes s)) root (take (Suc k) oid) = None"
    using getNode_spec [OF inv, of "length oid" oid] by blast
  have q: "s_nodes s q \<noteq> None"
    using resolve_alloc [OF oid_invD(1) [OF inv] oid_invD(3) [OF inv] k(3)] .
  obtain good where g: "best_object (object_in_view s vs) (object_language s) (objs q) good"
    "findObjectByNode (Some q) s = Some (if good \<noteq> None then good
      else if objs q = [] then None else Some (hd (objs q)))"
    using findObjectByNode_lemma [OF no [OF q] vl vn mods [OF q]] by blast
  show ?thesis
    by (rule exI [of _ k], rule exI [of _ q], rule exI [of _ good])
      (use k g oid in \<open>simp add: smiGetNodeByOID_def\<close>)
qed

subsection \<open>Walking a list of pointers\<close>

text \<open>The elements of a list, each with the pointer it holds.\<close>

fun ptr_list :: "smi \<Rightarrow> ptr option \<Rightarrow> ptr list \<Rightarrow> bool" where
  "ptr_list s p [] \<longleftrightarrow> p = None"
| "ptr_list s p (x # xs) \<longleftrightarrow> (\<exists>a l. p = Some a \<and> s_lists s a = Some l \<and> l_ptr l = Some x \<and>
     ptr_list s (l_nextPtr l) xs)"

lemma list_after_step:
  assumes "ptr_list s p (us @ x # vs)" and "x \<notin> set us"
  shows "list_after x p s = Some (if vs = [] then None else Some (hd vs))"
  using assms
proof (induction us arbitrary: p)
  case Nil
  then obtain a l where a: "p = Some a" "s_lists s a = Some l" "l_ptr l = Some x" "ptr_list s (l_nextPtr l) vs"
    by auto
  have w: "walk (s_lists s) l_nextPtr (\<lambda>_ l. Some (l_ptr l = Some x)) p = Some (Some a)"
    by (simp add: walk_Some a)
  show ?case
  proof (cases vs)
    case Nil
    then show ?thesis using a w by (simp add: list_after_def)
  next
    case (Cons v vs')
    then obtain b k where "l_nextPtr l = Some b" "s_lists s b = Some k" "l_ptr k = Some v" using a by auto
    then show ?thesis using a w Cons by (simp add: list_after_def list_head_def)
  qed
next
  case (Cons u us)
  then obtain a l where a: "p = Some a" "s_lists s a = Some l" "l_ptr l = Some u"
    "ptr_list s (l_nextPtr l) (us @ x # vs)" by auto
  have "walk (s_lists s) l_nextPtr (\<lambda>_ l. Some (l_ptr l = Some x)) p =
      walk (s_lists s) l_nextPtr (\<lambda>_ l. Some (l_ptr l = Some x)) (l_nextPtr l)"
    using Cons.prems(2) by (simp add: walk_Some a)
  then have "list_after x p s = list_after x (l_nextPtr l) s" by (simp add: list_after_def)
  then show ?case using Cons.IH [OF a(4)] Cons.prems(2) by simp
qed

end
