(* ===== verification/Tree_Properties.thy ===== *)
theory Tree_Properties
  imports Smi_Sample Smi_Query
begin

section \<open>Properties of the object identifier tree\<close>

text \<open>
  What the tree operations of \<^verbatim>\<open>smi-data.c\<close> promise together: which identifiers resolve to which
  nodes after nodes have been created, that nodes and identifiers correspond, what the objects of
  a node are, and what merging a pending tree does.  Each property is followed by an instance on
  the small database of \<^theory_text>\<open>Smi_Sample\<close>.
\<close>

subsection \<open>Nodes below the root\<close>

inductive below :: "(ptr \<Rightarrow> ptr list) \<Rightarrow> ptr \<Rightarrow> ptr \<Rightarrow> bool" for ch root where
  below_root: "below ch root root"
| below_child: "below ch root p \<Longrightarrow> c \<in> set (ch p) \<Longrightarrow> below ch root c"

inductive_cases belowE: "below ch root p"

lemma find_distinct:
  "distinct (map f xs) \<Longrightarrow> c \<in> set xs \<Longrightarrow> List.find (\<lambda>y. f y = f c) xs = Some c"
  by (induction xs) auto

lemma below_not_pending:
  assumes inv: "oid_inv s ch path root pend" and "below ch root p"
  shows "pend \<noteq> Some p"
  using assms(2)
proof cases
  case below_root
  then show ?thesis using oid_invD(6) [OF inv] by simp
next
  case (below_child q)
  then show ?thesis using oid_inv_child_not_pending [OF inv] by blast
qed

lemma below_resolve:
  assumes inv: "oid_inv s ch path root pend" and "below ch root p"
  shows "resolve ch (subid_in (s_nodes s)) root (path p) = Some p"
  using assms(2)
proof induction
  case below_root
  then show ?case using oid_invD(4) [OF inv] by simp
next
  case (below_child p c)
  have "path c = path p @ [subid_in (s_nodes s) c]"
  proof -
    obtain n where "s_nodes s p = Some n"
      using tree_ok_child_alloc(2) [OF oid_invD(1) [OF inv] below_child.hyps(2)] by blast
    then show ?thesis using tree_okD(4) [OF oid_invD(1) [OF inv]] below_child.hyps(2) by blast
  qed
  moreover have "List.find (\<lambda>d. subid_in (s_nodes s) d = subid_in (s_nodes s) c) (ch p) = Some c"
    using find_distinct [OF oid_invD(8) [OF inv below_not_pending [OF inv below_child.hyps(1)]]]
      below_child.hyps(2) .
  ultimately show ?case using below_child.IH by (simp add: resolve_append)
qed

lemma resolve_below:
  assumes "below ch root p" and "resolve ch sub p xs = Some q"
  shows "below ch root q"
  using assms
proof (induction xs arbitrary: p)
  case Nil
  then show ?case by simp
next
  case (Cons x xs)
  then obtain c where "List.find (\<lambda>c. sub c = x) (ch p) = Some c" "resolve ch sub c xs = Some q"
    by (auto split: option.splits)
  then show ?case using Cons.IH below_child [OF Cons.prems(1)] by (auto dest!: find_SomeD)
qed

lemmas findNodeByOid_full = findNodeByOid_eq [where i = "length oid" and oid = oid for oid, simplified]

lemma resolve_prefix:
  assumes "resolve ch sub r ys = Some q" and "prefix xs ys"
  shows "resolve ch sub r xs \<noteq> None"
  using assms by (auto simp: prefix_def resolve_append bind_eq_Some_iff)

subsection \<open>Creating and finding nodes\<close>

text \<open>C17: \<open>createNodes\<close> creates the node of an identifier with all the nodes above it and nothing
  else: afterwards an identifier resolves if it is a prefix of the new one or did so before,
  every identifier that resolved still resolves to the same node, the identifier itself resolves to
  the returned node, and the tree is well formed again.\<close>

theorem createNodes_exact:
  assumes inv: "oid_inv s ch path root pend"
  shows "\<exists>q s' ch' path'. createNodes (length oid) oid s = Some (Some q, s') \<and>
    oid_inv s' ch' path' root pend \<and> findNodeByOid (length oid) oid s' = Some (Some q) \<and>
    (\<forall>oid'. prefix oid' oid \<longrightarrow> findNodeByOid (length oid') oid' s' \<noteq> Some None) \<and>
    (\<forall>oid'. \<not> prefix oid' oid \<longrightarrow>
      findNodeByOid (length oid') oid' s' = findNodeByOid (length oid') oid' s) \<and>
    (\<forall>oid' t. findNodeByOid (length oid') oid' s = Some (Some t) \<longrightarrow>
      findNodeByOid (length oid') oid' s' = Some (Some t))"
proof -
  obtain q s' ch' path' where c: "createNodes (length oid) oid s = Some (Some q, s')"
    and inv': "oid_inv s' ch' path' root pend"
    and r: "resolve ch' (subid_in (s_nodes s')) root oid = Some q"
    and g: "grown s ch path s' ch' oid"
    using createNodes_spec [OF inv, of "length oid" oid] by auto
  have root: "s_nodes s root \<noteq> None" "path root = []" using oid_invD(3,4) [OF inv] by simp_all
  show ?thesis
  proof (rule exI [of _ q], rule exI [of _ s'], rule exI [of _ ch'], rule exI [of _ path'],
      intro conjI allI impI)
    fix oid'
    assume "prefix oid' oid"
    then show "findNodeByOid (length oid') oid' s' \<noteq> Some None"
      using resolve_prefix [OF r] by (simp add: findNodeByOid_full [OF inv'])
  next
    fix oid'
    assume "\<not> prefix oid' oid"
    then show "findNodeByOid (length oid') oid' s' = findNodeByOid (length oid') oid' s"
      using grownD(2,3) [OF g root(1), of oid'] root(2)
      by (cases "resolve ch (subid_in (s_nodes s)) root oid'";
          cases "resolve ch' (subid_in (s_nodes s')) root oid'")
        (auto simp: findNodeByOid_full [OF inv] findNodeByOid_full [OF inv'])
  next
    fix oid' t
    assume "findNodeByOid (length oid') oid' s = Some (Some t)"
    then show "findNodeByOid (length oid') oid' s' = Some (Some t)"
      using grownD(2) [OF g root(1)] by (simp add: findNodeByOid_full [OF inv] findNodeByOid_full [OF inv'])
  qed (simp_all add: c inv' r findNodeByOid_full [OF inv'])
qed

theorem createNodes_exact_witness:
  "\<exists>q s' ch' path'. createNodes 3 [1, 6, 9] sample = Some (Some q, s') \<and>
    oid_inv s' ch' path' 20 (Some 29) \<and> findNodeByOid 3 [1, 6, 9] s' = Some (Some q) \<and>
    findNodeByOid 1 [7] s' = Some None \<and> findNodeByOid 2 [1, 6] s' = Some (Some 23)"
proof -
  have old: "findNodeByOid 1 [7] sample = Some None" "findNodeByOid 2 [1, 6] sample = Some (Some 23)"
    by code_simp+
  define oid :: "SmiSubid list" where "oid = [1, 6, 9]"
  obtain q s' ch' path' where c: "createNodes (length oid) oid sample = Some (Some q, s')"
      "oid_inv s' ch' path' 20 (Some 29)" "findNodeByOid (length oid) oid s' = Some (Some q)"
    and n: "\<And>oid'. \<not> prefix oid' oid \<Longrightarrow>
      findNodeByOid (length oid') oid' s' = findNodeByOid (length oid') oid' sample"
    and o: "\<And>oid' t. findNodeByOid (length oid') oid' sample = Some (Some t) \<Longrightarrow>
      findNodeByOid (length oid') oid' s' = Some (Some t)"
    using createNodes_exact [OF sample_inv, of oid] by blast
  have "findNodeByOid 1 [7] s' = Some None" using n [of "[7]"] old(1) by (simp add: oid_def)
  moreover have "findNodeByOid 2 [1, 6] s' = Some (Some 23)"
    using o [of "[1, 6]" 23] old(2) by (simp add: numeral_2_eq_2)
  moreover have "length oid = 3" by (simp add: oid_def)
  ultimately show ?thesis using c unfolding oid_def by metis
qed

text \<open>\<open>addNode\<close> below a node that has no child with the sub identifier links the new node at its
  place: the tree stays well formed, the children stay sorted and without duplicates, the new node is
  what the parent and the sub identifier now find, and no other lookup below that parent changes.\<close>

theorem addNode_child:
  assumes inv: "oid_inv s ch path root pend" and pp: "below ch root pp"
    and none: "findNodeByParentAndSubid (Some pp) x s = Some None"
  shows "\<exists>s' ch' path'. addNode (Some pp) x fl s = Some (s_next s, s') \<and>
    oid_inv s' ch' path' root pend \<and>
    sorted (map (subid_in (s_nodes s')) (ch' pp)) \<and> distinct (map (subid_in (s_nodes s')) (ch' pp)) \<and>
    set (ch' pp) = insert (s_next s) (set (ch pp)) \<and>
    (\<forall>y. findNodeByParentAndSubid (Some pp) y s' =
      (if y = x then Some (Some (s_next s)) else findNodeByParentAndSubid (Some pp) y s))"
proof -
  have np: "pend \<noteq> Some pp" by (rule below_not_pending [OF inv pp])
  obtain n where n: "s_nodes s pp = Some n"
    using resolve_alloc [OF oid_invD(1) [OF inv] oid_invD(3) [OF inv] below_resolve [OF inv pp]] by auto
  have find: "List.find (\<lambda>c. subid_in (s_nodes s) c = x) (ch pp) = None"
    using none findNodeByParentAndSubid_eq [OF inv n np] by simp
  obtain m' where a: "addNode (Some pp) x fl s =
      Some (s_next s, s\<lparr>s_next := Suc (s_next s), s_nodes := m'\<rparr>)"
    and inv': "oid_inv (s\<lparr>s_next := Suc (s_next s), s_nodes := m'\<rparr>)
      (ch(pp := ins_child (subid_in (s_nodes s)) x (s_next s) (ch pp), s_next s := []))
      (path(s_next s := path pp @ [x])) root pend"
    and sub: "subid_in m' = (subid_in (s_nodes s))(s_next s := x)"
    and data: "\<And>q. q \<noteq> s_next s \<Longrightarrow> map_option node_data (m' q) = map_option node_data (s_nodes s q)"
    by (rule addNode_inv [OF inv, of pp x fl]) (use n find in auto)
  let ?ch = "ch(pp := ins_child (subid_in (s_nodes s)) x (s_next s) (ch pp), s_next s := [])"
  have new: "pp \<noteq> s_next s" using n oid_invD(9) [OF inv] by auto
  obtain n' where n': "m' pp = Some n'" using data [OF new] n by auto
  have notin: "s_next s \<notin> set (ch pp)"
    using tree_ok_child_alloc(1) [OF oid_invD(1) [OF inv]] oid_invD(9) [OF inv] by fastforce
  have ch: "?ch pp = ins_child (subid_in (s_nodes s)) x (s_next s) (ch pp)" using new by simp
  have ins: "List.find (\<lambda>c. subid_in m' c = y) (?ch pp) =
      (if y = x then Some (s_next s) else List.find (\<lambda>c. subid_in (s_nodes s) c = y) (ch pp))" for y
    unfolding ch
  proof (rule ins_child_find)
    show "x \<notin> subid_in (s_nodes s) ` set (ch pp)" using find by (auto simp: find_None_iff)
    show "subid_in m' (s_next s) = x" by (simp add: sub)
    show "subid_in m' c = subid_in (s_nodes s) c" if "c \<in> set (ch pp)" for c using that notin by (auto simp: sub)
    show "s_next s \<notin> set (ch pp)" by (rule notin)
  qed
  have look: "findNodeByParentAndSubid (Some pp) y (s\<lparr>s_next := Suc (s_next s), s_nodes := m'\<rparr>) =
      (if y = x then Some (Some (s_next s)) else findNodeByParentAndSubid (Some pp) y s)" for y
    using findNodeByParentAndSubid_eq [OF inv' _ np, of n' y] n' findNodeByParentAndSubid_eq [OF inv n np, of y]
      ins [of y] by simp
  show ?thesis
    by (rule exI [of _ "s\<lparr>s_next := Suc (s_next s), s_nodes := m'\<rparr>"], rule exI [of _ ?ch],
        rule exI [of _ "path(s_next s := path pp @ [x])"])
      (use a inv' tree_okD(2) [OF oid_invD(1) [OF inv'], of pp n'] oid_invD(8) [OF inv' np] n' ch look
        in \<open>simp add: del: fun_upd_apply\<close>)
qed

theorem addNode_child_witness:
  "\<exists>s' ch' path'. addNode (Some 20) 2 0 sample = Some (100, s') \<and> oid_inv s' ch' path' 20 (Some 29) \<and>
    set (ch' 20) = {100, 21, 22} \<and> findNodeByParentAndSubid (Some 20) 2 s' = Some (Some 100) \<and>
    findNodeByParentAndSubid (Some 20) 3 s' = Some (Some 22)"
proof -
  have o: "findNodeByParentAndSubid (Some 20) 2 sample = Some None"
    "findNodeByParentAndSubid (Some 20) 3 sample = Some (Some 22)" by code_simp+
  have s: "set (sample_ch 20) = {21, 22}" "s_next sample = 100" by (simp_all add: sample_ch_def sample_simps)
  show ?thesis
    using addNode_child [OF sample_inv below_root o(1), of 0] unfolding s
    by - (elim exE conjE, intro exI conjI, assumption+, simp_all add: o(2))
qed

text \<open>C19: nodes and identifiers correspond: a node below the root is what its own path resolves to, and
  an identifier that resolves to a node is the path of that node, so that no two identifiers share a
  node and no two nodes an identifier.\<close>

theorem oid_bijection:
  assumes inv: "oid_inv s ch path root pend"
  shows "findNodeByOid (length oid) oid s = Some (Some p) \<longleftrightarrow> below ch root p \<and> path p = oid"
proof
  assume "findNodeByOid (length oid) oid s = Some (Some p)"
  then have r: "resolve ch (subid_in (s_nodes s)) root oid = Some p" by (simp add: findNodeByOid_full [OF inv])
  show "below ch root p \<and> path p = oid"
    using resolve_below [OF below_root r] resolve_path [OF oid_invD(1) [OF inv] r] oid_invD(4) [OF inv] by simp
next
  assume "below ch root p \<and> path p = oid"
  then show "findNodeByOid (length oid) oid s = Some (Some p)"
    using below_resolve [OF inv] by (auto simp: findNodeByOid_full [OF inv])
qed

theorem oid_bijection_witness:
  "below sample_ch 20 23 \<and> sample_path 23 = [1, 6] \<and> findNodeByOid 2 [1, 6] sample = Some (Some 23)"
proof -
  have "findNodeByOid (length [1, 6 :: SmiSubid]) [1, 6] sample = Some (Some 23)" by code_simp
  then show ?thesis using oid_bijection [OF sample_inv, of "[1, 6]" 23] by (simp add: numeral_2_eq_2)
qed

text \<open>C20: while the library has a parser that is alive, as it has in the course of the load of a module, \<open>getNode\<close> never
fails: it returns the node of the longest prefix of the identifier that names a node, and no longer prefix does.  The parser is
a part of the invariant \<open>oid_inv\<close>, because every lookup by sub identifier reads it; after \<open>smiInitData\<close> it is gone and the
lookups are undefined (\<open>smiInitData_leaves_dangling_parser\<close>).\<close>

theorem getNode_deepest:
  assumes inv: "oid_inv s ch path root pend"
  shows "\<exists>k q. getNode (length oid) oid s = Some (Some q) \<and> k \<le> length oid \<and>
    findNodeByOid k oid s = Some (Some q) \<and>
    (\<forall>j. k < j \<longrightarrow> j \<le> length oid \<longrightarrow> findNodeByOid j oid s = Some None)"
proof -
  obtain k q where k: "getNode (length oid) oid s = Some (Some q)" "k \<le> length oid"
    "resolve ch (subid_in (s_nodes s)) root (take k oid) = Some q"
    "k < length oid \<longrightarrow> resolve ch (subid_in (s_nodes s)) root (take (Suc k) oid) = None"
    using getNode_spec [OF inv, of "length oid" oid] by blast
  have "findNodeByOid j oid s = Some None" if j: "k < j" "j \<le> length oid" for j
  proof -
    have "prefix (take (Suc k) oid) (take j oid)"
      using j by (metis Suc_leI min_def take_is_prefix take_take)
    then have "resolve ch (subid_in (s_nodes s)) root (take j oid) = None"
      using resolve_prefix [of ch "subid_in (s_nodes s)" root "take j oid"] k(4) j by fastforce
    then show ?thesis using findNodeByOid_eq [OF inv j(2)] by simp
  qed
  then show ?thesis using k(1-3) findNodeByOid_eq [OF inv k(2)] by auto
qed

theorem getNode_deepest_witness:
  "\<exists>k q. getNode 3 [1, 6, 9] sample = Some (Some q) \<and> k \<le> 3 \<and>
    findNodeByOid k [1, 6, 9] sample = Some (Some q)"
proof -
  have "length [1, 6, 9 :: SmiSubid] = 3" by simp
  then show ?thesis using getNode_deepest [OF sample_inv, of "[1, 6, 9]"] by metis
qed

subsection \<open>Objects and the nodes they stand at\<close>

text \<open>C22: while the library has a parser that is alive (\<open>oid_inv\<close>; not so after \<open>smiInitData\<close> alone, see
\<open>smiInitData_leaves_dangling_parser\<close>), \<open>smiGetNodeByOID\<close> answers an identifier that is not empty with an object of the deepest
node that a prefix of the identifier names: among that node's objects whose module is in view, the first of those with the most
recent language, and the node's first object if no module is in view.\<close>

theorem smiGetNodeByOID_best:
  assumes inv: "oid_inv s ch path root pend" and oid: "oid \<noteq> []"
    and no: "\<And>q. s_nodes s q \<noteq> None \<Longrightarrow> node_objects s q (objs q)"
    and vl: "view_list s vs" and vn: "\<And>v. v \<in> set vs \<Longrightarrow> view_name s v \<noteq> None"
    and mods: "\<And>q p. s_nodes s q \<noteq> None \<Longrightarrow> p \<in> set (objs q) \<Longrightarrow>
      \<exists>mp. object_module s p = Some mp \<and> name_of_module s mp \<noteq> None"
  shows "\<exists>k q good. k \<le> length oid \<and> findNodeByOid k oid s = Some (Some q) \<and>
    (k < length oid \<longrightarrow> findNodeByOid (Suc k) oid s = Some None) \<and>
    best_object (object_in_view s vs) (object_language s) (objs q) good \<and>
    smiGetNodeByOID (length oid) oid s = Some (if good \<noteq> None then good
      else if objs q = [] then None else Some (hd (objs q)))"
proof -
  have "\<exists>k q good. k \<le> length oid \<and>
    resolve ch (subid_in (s_nodes s)) root (take k oid) = Some q \<and>
    (k < length oid \<longrightarrow> resolve ch (subid_in (s_nodes s)) root (take (Suc k) oid) = None) \<and>
    best_object (object_in_view s vs) (object_language s) (objs q) good \<and>
    smiGetNodeByOID (length oid) oid s = Some (if good \<noteq> None then good
      else if objs q = [] then None else Some (hd (objs q)))"
    by (rule smiGetNodeByOID_lemma [OF inv oid]) (fact no vl vn mods)+
  then obtain k q good where k: "k \<le> length oid"
    "resolve ch (subid_in (s_nodes s)) root (take k oid) = Some q"
    "k < length oid \<longrightarrow> resolve ch (subid_in (s_nodes s)) root (take (Suc k) oid) = None"
    "best_object (object_in_view s vs) (object_language s) (objs q) good"
    "smiGetNodeByOID (length oid) oid s = Some (if good \<noteq> None then good
      else if objs q = [] then None else Some (hd (objs q)))"
    by blast
  then show ?thesis
    using findNodeByOid_eq [OF inv k(1)] findNodeByOid_eq [OF inv, of "Suc k" oid]
    by (intro exI [of _ k] exI [of _ q] exI [of _ good]) simp
qed

theorem smiGetNodeByOID_best_witness:
  "smiGetNodeByOID 2 [1, 9] sample = Some (Some 42) \<and>
    (\<exists>k q good. findNodeByOid k [1, 9] sample = Some (Some q) \<and>
      best_object (object_in_view sample [90, 91]) (object_language sample) (sample_node_objs q) good)"
proof -
  have "smiGetNodeByOID 2 [1, 9] sample = Some (Some 42)" by code_simp
  moreover have "\<exists>k q good. k \<le> length [1, 9 :: SmiSubid] \<and> findNodeByOid k [1, 9] sample = Some (Some q) \<and>
    (k < length [1, 9 :: SmiSubid] \<longrightarrow> findNodeByOid (Suc k) [1, 9] sample = Some None) \<and>
    best_object (object_in_view sample [90, 91]) (object_language sample) (sample_node_objs q) good \<and>
    smiGetNodeByOID (length [1, 9 :: SmiSubid]) [1, 9] sample = Some (if good \<noteq> None then good
      else if sample_node_objs q = [] then None else Some (hd (sample_node_objs q)))"
    by (rule smiGetNodeByOID_best [OF sample_inv])
      (simp, (fact sample_objects_ok(1) sample_view_list sample_objects_ok(3) sample_objects_ok(2))+)
  ultimately show ?thesis by blast
qed

text \<open>\<open>addObject\<close> at a sub identifier the parent already has: the new object is the last one of the
  module that is being parsed and the last one of the existing node, and the tree is as before.\<close>

theorem addObject_at_known_node:
  assumes inv: "oid_inv s ch path root pend"
    and pr: "deref (s_parsers s) parserPtr = Some pr" "p_modulePtr pr = Some mp"
      "p_pendingNodePtr pr = pend"
    and ol: "object_list s mp xs" and fresh: "s_objects s (s_next s) = None"
    and pp: "below ch root pp"
    and c: "findNodeByParentAndSubid (Some pp) x s = Some (Some c)"
    and no: "node_objects s c ys"
  shows "\<exists>s'. addObject nm (Some pp) x fl parserPtr s = Some (s_next s, s') \<and>
    object_list s' mp (xs @ [s_next s]) \<and> node_objects s' c (ys @ [s_next s]) \<and>
    object_node s' (s_next s) = Some c \<and> object_name s' (s_next s) = nm \<and>
    oid_inv s' ch path root pend"
proof -
  have np: "pend \<noteq> Some pp" by (rule below_not_pending [OF inv pp])
  obtain n where n: "s_nodes s pp = Some n"
    using resolve_alloc [OF oid_invD(1) [OF inv] oid_invD(3) [OF inv] below_resolve [OF inv pp]] by auto
  have f: "List.find (\<lambda>c. subid_in (s_nodes s) c = x) (ch pp) = Some c"
    using c findNodeByParentAndSubid_eq [OF inv n np] by simp
  show ?thesis by (rule addObject_known [OF inv pr ol fresh _ np f no]) (simp add: n)
qed

theorem addObject_at_known_node_witness:
  "\<exists>s'. addObject (Some ''baz'') (Some 20) 1 0 (Some 30) sample = Some (100, s') \<and>
    object_list s' 11 [41, 42, 100] \<and> node_objects s' 21 [40, 42, 100] \<and>
    oid_inv s' sample_ch sample_path 20 (Some 29)"
proof -
  have c: "findNodeByParentAndSubid (Some 20) 1 sample = Some (Some 21)" by code_simp
  have o: "object_list sample 11 [41, 42]" using sample_object_list [of 11] by (simp add: sample_objs_def)
  show ?thesis
    using addObject_at_known_node [OF sample_inv sample_live o sample_fresh(2) below_root c
        sample_node_objects(1), of "Some ''baz''" 0] by (auto simp: sample_simps)
qed

text \<open>\<open>addObject\<close> at a sub identifier the parent does not have, or below the pending root, makes a
  node: the node is new, is linked below the parent in the order of the sub identifiers, and has the
  object as its only one.\<close>

theorem addObject_at_new_node:
  assumes inv: "oid_inv s ch path root pend"
    and pr: "deref (s_parsers s) parserPtr = Some pr" "p_modulePtr pr = Some mp"
      "p_pendingNodePtr pr = pend"
    and ol: "object_list s mp xs" and fresh: "s_objects s (s_next s) = None"
    and pp: "s_nodes s pp \<noteq> None"
    and none: "pend = Some pp \<or> List.find (\<lambda>c. subid_in (s_nodes s) c = x) (ch pp) = None"
  shows "\<exists>s' q. addObject nm (Some pp) x fl parserPtr s = Some (s_next s, s') \<and>
    object_list s' mp (xs @ [s_next s]) \<and> object_name s' (s_next s) = nm \<and>
    object_node s' (s_next s) = Some q \<and> s_nodes s q = None \<and> node_objects s' q [s_next s] \<and>
    oid_inv s' (ch(pp := ins_child (subid_in (s_nodes s)) x q (ch pp), q := []))
      (path(q := path pp @ [x])) root pend"
  by (rule addObject_new [OF inv pr ol fresh pp none])

theorem addObject_at_new_node_witness:
  "\<exists>s' q. addObject (Some ''baz'') (Some 22) 5 0 (Some 30) sample = Some (100, s') \<and>
    object_list s' 11 [41, 42, 100] \<and> node_objects s' q [100] \<and>
    oid_inv s' (sample_ch(22 := [q], q := [])) (sample_path(q := [3, 5])) 20 (Some 29)"
proof -
  have o: "object_list sample 11 [41, 42]" using sample_object_list [of 11] by (simp add: sample_objs_def)
  have e: "ins_child (subid_in (s_nodes sample)) 5 q (sample_ch 22) = [q]"
    "sample_path 22 @ [5] = [3, 5]" for q
    by (simp_all add: ins_child_def sample_ch_def sample_path_def)
  have "s_nodes sample 22 \<noteq> None" "Some 29 = Some (22 :: ptr) \<or>
      List.find (\<lambda>c. subid_in (s_nodes sample) c = 5) (sample_ch 22) = None"
    by (simp_all add: sample_simps sample_nodes_def sample_ch_def)
  from addObject_at_new_node [OF sample_inv sample_live o sample_fresh(2) this, of "Some ''baz''" 0]
  show ?thesis unfolding e by (auto simp: sample_simps)
qed

subsection \<open>Merging a pending tree\<close>

text \<open>C35: merging a node into one without children moves everything: the target has its own objects
  followed by those of the source, each of which now stands at the target, the children of the
  source in their order with the target as their parent, the source is freed, and no other node
  changes.\<close>

theorem mergeNodeTrees_into_leaf:
  assumes t: "s_nodes s tp = Some t" "n_firstChildPtr t = None" and f: "s_nodes s fp = Some f"
    and tf: "tp \<noteq> fp"
    and cl: "dlist n_nextPtr n_prevPtr (s_nodes s) (n_firstChildPtr f) cs (n_lastChildPtr f)"
    and cs: "tp \<notin> set cs" "fp \<notin> set cs"
    and yl: "node_objects s tp ys" and zl: "node_objects s fp zs" and disj: "set ys \<inter> set zs = {}"
  shows "\<exists>s' t'. mergeNodeTrees (Some tp) (Some fp) s = Some s' \<and>
    node_objects s' tp (ys @ zs) \<and> (\<forall>z \<in> set zs. object_node s' z = Some tp) \<and>
    s_nodes s' fp = None \<and> s_nodes s' tp = Some t' \<and>
    dlist n_nextPtr n_prevPtr (s_nodes s') (n_firstChildPtr t') cs (n_lastChildPtr t') \<and>
    (\<forall>c \<in> set cs. parent_in (s_nodes s') c = Some tp \<and>
       subid_in (s_nodes s') c = subid_in (s_nodes s) c) \<and>
    (\<forall>a. a \<notin> insert tp (insert fp (set cs)) \<longrightarrow> s_nodes s' a = s_nodes s a)"
  by (rule mergeNodeTrees_leaf_lemma [OF t f tf cl cs yl zl disj])

theorem mergeNodeTrees_into_leaf_witness:
  "\<exists>s'. mergeNodeTrees (Some 22) (Some 21) sample = Some s' \<and> node_objects s' 22 [40, 42] \<and>
    object_node s' 40 = Some 22 \<and> s_nodes s' 21 = None \<and> parent_in (s_nodes s') 23 = Some 22"
proof -
  obtain t f where n: "s_nodes sample 22 = Some t" "n_firstChildPtr t = None" "s_nodes sample 21 = Some f"
    "n_firstChildPtr f = Some 23" "n_lastChildPtr f = Some 23"
    by (simp add: sample_simps sample_nodes_def zero_node_def)
  have d: "dlist n_nextPtr n_prevPtr (s_nodes sample) (n_firstChildPtr f) [23] (n_lastChildPtr f)"
    by (simp add: n(4,5) dlist_def) (simp add: sample_simps sample_nodes_def zero_node_def)
  have "(22 :: ptr) \<noteq> 21" "(22 :: ptr) \<notin> set [23]" "(21 :: ptr) \<notin> set [23]"
    "set [] \<inter> set [40, 42 :: ptr] = {}" by simp_all
  then show ?thesis
    using mergeNodeTrees_into_leaf [OF n(1-3) _ d _ _ sample_node_objects(3,1)] by auto
qed

text \<open>Inserting a merged child in front of the children of the target leaves the back link of the
  old first child NULL, so that a later \<open>addNode\<close> between the two dereferences NULL.\<close>

theorem merge_front_breaks_addNode:
  assumes t: "s_nodes s tp = Some t"
    and dl: "dlist n_nextPtr n_prevPtr (s_nodes s) (n_firstChildPtr t) (c1 # cs) (n_lastChildPtr t)"
    and n: "s_nodes s c = Some n" and c: "c \<notin> set (c1 # cs)" and tp: "tp \<noteq> c" "tp \<notin> set (c1 # cs)"
    and fresh: "s_nodes s (s_next s) = None"
    and x: "n_subid n < x" "x \<le> subid_in (s_nodes s) c1"
  shows "\<exists>s'. merge_insert (Some tp) (Some c) s = Some s' \<and> addNode (Some tp) x fl s' = None"
  by (rule merge_insert_front_then_addNode [OF t dl n c tp fresh x])

theorem merge_front_breaks_addNode_witness:
  "\<exists>s'. merge_insert (Some 21) (Some 22) sample = Some s' \<and> addNode (Some 21) 5 0 s' = None"
proof -
  obtain t n where k: "s_nodes sample 21 = Some t" "n_firstChildPtr t = Some 23" "n_lastChildPtr t = Some 23"
    "s_nodes sample 22 = Some n" "n_subid n = 3"
    by (simp add: sample_simps sample_nodes_def zero_node_def)
  have d: "dlist n_nextPtr n_prevPtr (s_nodes sample) (n_firstChildPtr t) [23] (n_lastChildPtr t)"
    by (simp add: k(2,3) dlist_def) (simp add: sample_simps sample_nodes_def zero_node_def)
  have "subid_in (s_nodes sample) 23 = 6" by (simp add: subid_in_def sample_simps sample_nodes_def)
  then show ?thesis
    by (intro merge_front_breaks_addNode [OF k(1) d k(4) _ _ _ sample_fresh(1)]) (simp_all add: k(5))
qed

end
