(* ===== verification/Database_Properties.thy ===== *)
theory Database_Properties
  imports Smi_Sample
begin

section \<open>Properties of the tables\<close>

text \<open>
  What the operations of \<^verbatim>\<open>smi-data.c\<close> on modules, revisions, imports, types, classes, handles and
  views promise together: insertion followed by lookup, order, and the cases in which the code
  dereferences NULL or ignores an argument.  Each property is followed by an instance.
\<close>

text \<open>Searching a list by name after an element with a new name has been appended.\<close>

lemma find_name_appended:
  assumes nm: "name' = name(x := Some nm)" and x: "x \<notin> set xs"
  shows "List.find (\<lambda>p. name' p = Some nm') (xs @ [x]) =
    (if nm' = nm \<and> List.find (\<lambda>p. name p = Some nm) xs = None then Some x
     else List.find (\<lambda>p. name p = Some nm') xs)"
proof -
  have "List.find (\<lambda>p. name' p = Some nm') xs = List.find (\<lambda>p. name p = Some nm') xs"
    using x by (intro find_cong_set) (auto simp: nm)
  then show ?thesis by (auto simp: find_append) (auto simp: nm)
qed

lemma dlist_fresh_notin: "dlist nx pv m f xs l \<Longrightarrow> m x = None \<Longrightarrow> x \<notin> set xs"
  using dlist_alloc by fastforce

subsection \<open>Types\<close>

text \<open>Renaming a type to a name another type of its module has: the other type, whose address is
  returned, takes over the base type, parent, restrictions and flags, the renamed one is unlinked
  from the module and freed, and the named numbers of an enumeration refer to the surviving type.\<close>

theorem setTypeName_takes_over:
  assumes tl: "type_list s mp (us @ p # vs)" and t: "s_types s p = Some t" "t_modulePtr t = Some mp"
    and q: "List.find (\<lambda>q. q \<noteq> p \<and> name_of_type s q = Some nm) (us @ p # vs) = Some q"
    and ns: "enumerated (st_basetype (t_export t)) \<Longrightarrow> number_list s (t_listPtr t) ns"
  shows "\<exists>s' t2. setTypeName (Some p) (Some nm) s = Some (Some q, s') \<and>
    type_list s' mp (us @ vs) \<and> s_types s' p = None \<and> s_types s' q = Some t2 \<and>
    t_export t2 = (t_export t)\<lparr>st_name := Some nm\<rparr> \<and> t_parentPtr t2 = t_parentPtr t \<and>
    t_listPtr t2 = t_listPtr t \<and> t_flags t2 = t_flags t \<and>
    s_namednumbers s' = (if enumerated (st_basetype (t_export t))
      then retargeted (fst ` set ns) q (s_namednumbers s) else s_namednumbers s)"
  by (rule setTypeName_known_lemma [OF tl t q]) (rule ns)

theorem setTypeName_takes_over_witness:
  "\<exists>s' t2. setTypeName (Some 60) (Some ''Used'') sample = Some (Some 62, s') \<and>
    type_list s' 11 [61, 62] \<and> s_types s' 60 = None \<and> s_types s' 62 = Some t2 \<and>
    t_listPtr t2 = Some 70 \<and> s_namednumbers s' = retargeted {75, 76} 62 (s_namednumbers sample)"
proof -
  have tl: "type_list sample 11 ([] @ 60 # [61, 62])"
    using sample_type_list [of 11] by (simp add: sample_typs_def)
  obtain t where t: "s_types sample 60 = Some t" "t_modulePtr t = Some 11" "t_listPtr t = Some 70"
    "enumerated (st_basetype (t_export t))"
    by (simp add: sample_simps sample_types_def enumerated_def)
  have q: "List.find (\<lambda>q. q \<noteq> 60 \<and> name_of_type sample q = Some ''Used'') ([] @ 60 # [61, 62]) = Some 62"
    by (simp add: name_of_type_def sample_simps sample_types_def zero_type_def)
  show ?thesis
    using setTypeName_takes_over [OF tl t(1,2) q, of "[(75, 1), (76, 2)]"] sample_number_list t(3,4)
    by auto
qed

text \<open>A type that is added to the module being parsed is found under its name in that module,
  unless the module had a type of that name, which keeps being found; no other lookup changes.\<close>

theorem addType_lookup:
  assumes pr: "deref (s_parsers s) parserPtr = Some pr" "p_modulePtr pr = Some mp"
    and tl: "type_list s mp xs" and fresh: "s_types s (s_next s) = None"
  shows "\<exists>s'. addType (Some nm) bt fl parserPtr s = Some (s_next s, s') \<and>
    type_list s' mp (xs @ [s_next s]) \<and>
    (\<forall>nm'. findTypeByModuleAndName (Some mp) (Some nm') s' =
      (if nm' = nm \<and> findTypeByModuleAndName (Some mp) (Some nm) s = Some None then Some (Some (s_next s))
       else findTypeByModuleAndName (Some mp) (Some nm') s))"
proof -
  obtain s' where a: "addType (Some nm) bt fl parserPtr s = Some (s_next s, s')"
    and tl': "type_list s' mp (xs @ [s_next s])"
    and nm: "name_of_type s' = (name_of_type s)(s_next s := Some nm)"
    using addType_lemma [OF pr tl fresh] by blast
  obtain m m' where m: "s_modules s mp = Some m" "s_modules s' mp = Some m'"
    using tl tl' by (auto simp: type_list_def)
  have notin: "s_next s \<notin> set xs"
    using tl fresh by (auto simp: type_list_def dest!: dlist_fresh_notin)
  have f: "findTypeByModuleAndName (Some mp) (Some nm') s =
      Some (List.find (\<lambda>p. name_of_type s p = Some nm') xs)" for nm'
    by (simp add: findTypeByModuleAndName_def m(1) types_named_eq [OF tl m(1)])
  have f': "findTypeByModuleAndName (Some mp) (Some nm') s' =
      Some (List.find (\<lambda>p. name_of_type s' p = Some nm') (xs @ [s_next s]))" for nm'
    by (simp add: findTypeByModuleAndName_def m(2) types_named_eq [OF tl' m(2)])
  show ?thesis
    by (rule exI [of _ s']) (simp add: a tl' f f' find_name_appended [OF nm notin])
qed

theorem addType_lookup_witness:
  "\<exists>s'. addType (Some ''New'') SMI_BASETYPE_INTEGER32 0 (Some 30) sample = Some (100, s') \<and>
    findTypeByModuleAndName (Some 11) (Some ''New'') s' = Some (Some 100) \<and>
    findTypeByModuleAndName (Some 11) (Some ''Used'') s' = Some (Some 62)"
proof -
  have tl: "type_list sample 11 [60, 61, 62]" using sample_type_list [of 11] by (simp add: sample_typs_def)
  have "findTypeByModuleAndName (Some 11) (Some ''New'') sample = Some None"
    "findTypeByModuleAndName (Some 11) (Some ''Used'') sample = Some (Some 62)" by code_simp+
  then show ?thesis
    using addType_lookup [OF sample_live(1,2) tl sample_fresh(5), of "''New''" SMI_BASETYPE_INTEGER32 0]
    by (auto simp: sample_simps)
qed

definition parent_rel :: "(ptr \<rightharpoonup> Type) \<Rightarrow> (ptr \<times> ptr) set" where
  "parent_rel m = {(a, b). \<exists>t. m a = Some t \<and> t_parentPtr t = Some b}"

lemma parent_chain_closure: "parent_chain m (Some p) xs \<Longrightarrow> q \<in> set xs \<longleftrightarrow> (p, q) \<in> (parent_rel m)\<^sup>*"
proof (induction xs arbitrary: p)
  case Nil
  then show ?case by simp
next
  case (Cons x xs)
  then obtain t where t: "x = p" "m p = Some t" "parent_chain m (t_parentPtr t) xs" by auto
  show ?case
  proof (cases "t_parentPtr t")
    case None
    then have "xs = []" using t(3) by (cases xs) auto
    moreover have "(p, q) \<in> (parent_rel m)\<^sup>* \<longleftrightarrow> q = p"
      using None t(2) by (auto simp: parent_rel_def elim: converse_rtranclE)
    ultimately show ?thesis using t(1) by auto
  next
    case (Some b)
    then have "q \<in> set xs \<longleftrightarrow> (b, q) \<in> (parent_rel m)\<^sup>*" using Cons.IH t(3) by simp
    moreover have "(p, q) \<in> (parent_rel m)\<^sup>* \<longleftrightarrow> q = p \<or> (b, q) \<in> (parent_rel m)\<^sup>*"
      using Some t(2) by (auto simp: parent_rel_def elim: converse_rtranclE intro: converse_rtrancl_into_rtrancl)
    ultimately show ?thesis using t(1) by auto
  qed
qed

text \<open>\<open>smiTypeDerivedFrom\<close> decides the reflexive and transitive closure of the parent relation.\<close>

theorem smiTypeDerivedFrom_closure:
  assumes "parent_chain (s_types s) (Some p) xs"
  shows "smiTypeDerivedFrom (Some p) (Some q) s = Some ((p, q) \<in> (parent_rel (s_types s))\<^sup>*)"
  using smiTypeDerivedFrom_lemma [OF assms] parent_chain_closure [OF assms] by simp

theorem smiTypeDerivedFrom_closure_witness:
  "smiTypeDerivedFrom (Some 62) (Some 60) sample = Some True \<and> (62, 60) \<in> (parent_rel (s_types sample))\<^sup>*"
proof -
  have c: "parent_chain (s_types sample) (Some 62) [62, 61, 60]"
    by (simp add: sample_simps sample_types_def zero_type_def)
  have "smiTypeDerivedFrom (Some 62) (Some 60) sample = Some True" by code_simp
  then show ?thesis using smiTypeDerivedFrom_closure [OF c, of 60] by simp
qed

text \<open>\<open>duplicateType\<close> links an unnamed type derived from the template, with its base type and
  status, into the module being parsed; the flags are those of the template, whatever the argument is.\<close>

theorem duplicateType_ignores_flags:
  assumes pr: "deref (s_parsers s) parserPtr = Some pr" "p_modulePtr pr = Some mp"
    and t: "s_types s tp = Some t"
    and tl: "type_list s mp xs" and fresh: "s_types s (s_next s) = None"
  shows "\<exists>s' n. (\<forall>fl. duplicateType (Some tp) fl parserPtr s = Some (s_next s, s')) \<and>
    type_list s' mp (xs @ [s_next s]) \<and> s_types s' (s_next s) = Some n \<and>
    t_parentPtr n = Some tp \<and> t_flags n = t_flags t \<and> st_name (t_export n) = None \<and>
    st_basetype (t_export n) = st_basetype (t_export t) \<and> st_status (t_export n) = st_status (t_export t) \<and>
    st_decl (t_export n) = SMI_DECL_IMPLICIT_TYPE"
proof -
  obtain s' n where d: "duplicateType (Some tp) 0 parserPtr s = Some (s_next s, s')"
    "type_list s' mp (xs @ [s_next s])" "s_types s' (s_next s) = Some n"
    "t_parentPtr n = Some tp" "t_flags n = t_flags t"
    "t_export n = (t_export zero_type)\<lparr>st_basetype := st_basetype (t_export t),
      st_decl := SMI_DECL_IMPLICIT_TYPE, st_status := st_status (t_export t)\<rparr>"
    using duplicateType_lemma [OF pr t tl fresh, of 0] by blast
  have "duplicateType (Some tp) fl parserPtr s = duplicateType (Some tp) 0 parserPtr s" for fl
    by (simp add: duplicateType_def)
  then show ?thesis
    by (intro exI [of _ s'] exI [of _ n]) (use d in \<open>simp add: zero_type_def\<close>)
qed

theorem duplicateType_ignores_flags_witness:
  "\<exists>s' n. duplicateType (Some 60) FLAG_INCOMPLETE (Some 30) sample = Some (100, s') \<and>
    s_types s' 100 = Some n \<and> t_parentPtr n = Some 60 \<and> t_flags n = 0"
proof -
  have tl: "type_list sample 11 [60, 61, 62]" using sample_type_list [of 11] by (simp add: sample_typs_def)
  obtain t where t: "s_types sample 60 = Some t" "t_flags t = 0"
    by (simp add: sample_simps sample_types_def zero_type_def)
  show ?thesis
    using duplicateType_ignores_flags [OF sample_live(1,2) t(1) tl sample_fresh(5)] t(2)
    by (auto simp: sample_simps)
qed

text \<open>\<open>findTypeNamedNumber\<close> returns the first named number of the type with the given value, and
  dereferences NULL when the type has none.\<close>

theorem findTypeNamedNumber_result:
  assumes t: "s_types s tp = Some t" and nl: "number_list s (t_listPtr t) xs"
  shows "findTypeNamedNumber (Some tp) number s =
    (case List.find (\<lambda>(_, v). v = number) xs of None \<Rightarrow> None | Some (q, _) \<Rightarrow> Some (Some q))"
  using findTypeNamedNumber_lemma [OF t nl] by (auto split: option.splits)

theorem findTypeNamedNumber_result_witness:
  "findTypeNamedNumber (Some 60) 2 sample = Some (Some 76) \<and> findTypeNamedNumber (Some 60) 3 sample = None"
proof -
  obtain t where t: "s_types sample 60 = Some t" "t_listPtr t = Some 70"
    by (simp add: sample_simps sample_types_def)
  then have nl: "number_list sample (t_listPtr t) [(75, 1), (76, 2)]" using sample_number_list by simp
  show ?thesis using findTypeNamedNumber_result [OF t(1) nl] by simp
qed

subsection \<open>Modules, revisions and imports\<close>

text \<open>A module that is added is found under its name, unless there was one of that name, which keeps
  being found; it is the last of the handle's modules, and no other lookup changes.\<close>

theorem addModule_lookup:
  assumes ml: "module_list s ms" and fresh: "s_modules s (s_next s) = None"
  shows "\<exists>s'. addModule (Some nm) path fl s = Some (s_next s, s') \<and> module_list s' (ms @ [s_next s]) \<and>
    (\<forall>nm'. findModuleByName (Some nm') s' =
      (if nm' = nm \<and> findModuleByName (Some nm) s = Some None then Some (Some (s_next s))
       else findModuleByName (Some nm') s))"
proof -
  obtain s' where a: "addModule (Some nm) path fl s = Some (s_next s, s')"
    and ml': "module_list s' (ms @ [s_next s])"
    and nm: "name_of_module s' = (name_of_module s)(s_next s := Some nm)"
    using addModule_lemma [OF ml fresh] by blast
  have notin: "s_next s \<notin> set ms" using ml fresh by (auto simp: module_list_def dest!: dlist_fresh_notin)
  show ?thesis
    by (rule exI [of _ s']) (simp add: a ml' findModuleByName_lemma [OF ml] findModuleByName_lemma [OF ml']
        find_name_appended [OF nm notin])
qed

theorem addModule_lookup_witness:
  "\<exists>s'. addModule (Some ''B-MIB'') None 0 sample = Some (100, s') \<and> module_list s' [10, 11, 100] \<and>
    findModuleByName (Some ''B-MIB'') s' = Some (Some 100) \<and>
    findModuleByName (Some ''A-MIB'') s' = Some (Some 11)"
proof -
  have "findModuleByName (Some ''B-MIB'') sample = Some None"
    "findModuleByName (Some ''A-MIB'') sample = Some (Some 11)" by code_simp+
  then show ?thesis
    using addModule_lookup [OF sample_module_list sample_fresh(3), of "''B-MIB''" None 0]
    by (auto simp: sample_simps)
qed

text \<open>\<open>addRevision\<close> keeps the revisions of a module in descending order of their dates: the new one
  is behind every revision with a later date and in front of all others.\<close>

theorem addRevision_keeps_order:
  assumes pr: "deref (s_parsers s) parserPtr = Some pr" "p_modulePtr pr = Some mp"
    and rl: "revision_list s mp rs" and fresh: "s_revisions s (s_next s) = None"
    and srt: "sorted (rev (map (revision_date s) rs))"
  shows "\<exists>s' ys zs. addRevision d t parserPtr s = Some (s_next s, s') \<and> rs = ys @ zs \<and>
    revision_list s' mp (ys @ s_next s # zs) \<and>
    sorted (rev (map (revision_date s') (ys @ s_next s # zs))) \<and>
    revision_date s' = (revision_date s)(s_next s := d) \<and>
    (\<forall>y \<in> set ys. d < revision_date s y) \<and> (\<forall>z \<in> set zs. revision_date s z \<le> d)"
proof -
  obtain s' where a: "addRevision d t parserPtr s = Some (s_next s, s')"
    "revision_list s' mp (newer s d rs @ s_next s # not_newer s d rs)"
    "revision_date s' = (revision_date s)(s_next s := d)"
    using addRevision_lemma [OF pr rl fresh] by blast
  have notin: "s_next s \<notin> set rs" using rl fresh by (auto simp: revision_list_def dest!: dlist_fresh_notin)
  have "d < revision_date s y" if y: "y \<in> set (newer s d rs)" for y
  proof -
    obtain us where us: "newer s d rs = us @ [last (newer s d rs)]"
      using y by (metis append_butlast_last_id empty_iff empty_set)
    have "rs = newer s d rs @ not_newer s d rs" by (simp add: newer_append)
    with srt have "sorted (rev (map (revision_date s) (us @ [last (newer s d rs)])))"
      using us by (metis map_append rev_append sorted_append)
    then have "revision_date s (last (newer s d rs)) \<le> revision_date s y"
      using y arg_cong [OF us, of set] by auto
    moreover have "d < revision_date s (last (newer s d rs))" using newer_last [of s d rs] y by fastforce
    ultimately show ?thesis by simp
  qed
  then show ?thesis
    using a addRevision_sorted [OF srt notin, of d] newer_append [of s d rs] not_newer_le [of _ s d rs]
    by (intro exI [of _ s'] exI [of _ "newer s d rs"] exI [of _ "not_newer s d rs"]) simp
qed

theorem addRevision_keeps_order_witness:
  "\<exists>s' ys zs. addRevision 150 None (Some 30) sample = Some (100, s') \<and> [50, 51] = ys @ zs \<and>
    revision_list s' 11 (ys @ 100 # zs) \<and> sorted (rev (map (revision_date s') (ys @ 100 # zs)))"
proof -
  have "sorted (rev (map (revision_date sample) [50, 51]))"
    by (simp add: revision_date_def sample_simps sample_revisions_def)
  from addRevision_keeps_order [OF sample_live(1,2) sample_revision_list sample_fresh(4) this, of 150 None]
  show ?thesis by (auto simp: sample_simps)
qed

text \<open>An import is recorded under its name at the end of the module's imports without a module, and
  once the module name is set the pair of both names finds it, if no earlier import has both.\<close>

theorem addImport_lookup:
  assumes pr: "deref (s_parsers s) parserPtr = Some pr" "p_modulePtr pr = Some mp"
    and il: "import_list s mp xs" and fresh: "s_imports s (s_next s) = None"
    and nm: "\<And>p. p \<in> set xs \<Longrightarrow> import_name s p \<noteq> None"
    and md: "\<And>p. p \<in> set xs \<Longrightarrow> import_module s p \<noteq> None"
    and new: "\<And>p. p \<in> set xs \<Longrightarrow> import_name s p \<noteq> Some n \<or> import_module s p \<noteq> Some m"
  shows "\<exists>s1 s2. addImport (Some n) parserPtr s = Some (s_next s, s1) \<and>
    setImportModulename (Some (s_next s)) (Some m) s1 = Some s2 \<and> import_list s2 mp (xs @ [s_next s]) \<and>
    findImportByModulenameAndName (Some m) (Some n) (Some mp) s2 = Some (Some (s_next s))"
proof -
  obtain s1 where a: "addImport (Some n) parserPtr s = Some (s_next s, s1)"
    and il1: "import_list s1 mp (xs @ [s_next s])"
    and nm1: "import_name s1 = (import_name s)(s_next s := Some n)"
    and md1: "import_module s1 = (import_module s)(s_next s := None)"
    using addImport_lemma [OF pr il fresh] by blast
  have notin: "s_next s \<notin> set xs" using il fresh by (auto simp: import_list_def dest!: dlist_fresh_notin)
  obtain f l where dl1: "dlist i_nextPtr i_prevPtr (s_imports s1) f (xs @ [s_next s]) l"
    using il1 by (auto simp: import_list_def)
  obtain i where i: "s_imports s1 (s_next s) = Some i"
    using dlist_alloc [OF dl1, of "s_next s"] by auto
  define s2 where "s2 = s1\<lparr>s_imports := (s_imports s1)(s_next s \<mapsto> i_export_update (si_module_update (\<lambda>_. Some m)) i)\<rparr>"
  have b: "setImportModulename (Some (s_next s)) (Some m) s1 = Some s2"
    by (simp add: setImportModulename_def updImport_def i s2_def)
  have il2: "import_list s2 mp (xs @ [s_next s])"
    using il1 dlist_upd_data [of "s_imports s1" "s_next s" i i_nextPtr "i_export_update (si_module_update (\<lambda>_. Some m)) i" i_prevPtr] i
    by (auto simp: import_list_def s2_def)
  have nm2: "import_name s2 = (import_name s)(s_next s := Some n)"
    and md2: "import_module s2 = (import_module s)(s_next s := Some m)"
    using nm1 md1 i by (auto simp: import_name_def import_module_def s2_def fun_eq_iff fld_def split: if_splits)
  have "findImportByModulenameAndName (Some m) (Some n) (Some mp) s2 =
      Some (List.find (\<lambda>p. import_name s2 p = Some n \<and> import_module s2 p = Some m) (xs @ [s_next s]))"
    by (rule findImportByModulenameAndName_lemma [OF il2]) (use nm md in \<open>auto simp: nm2 md2\<close>)
  moreover have "List.find (\<lambda>p. import_name s2 p = Some n \<and> import_module s2 p = Some m) (xs @ [s_next s]) = Some (s_next s)"
    using new notin by (subst find_append_notin) (auto simp: nm2 md2)
  ultimately show ?thesis by (intro exI [of _ s1] exI [of _ s2]) (simp add: a b il2)
qed

theorem addImport_lookup_witness:
  "\<exists>s1 s2. addImport (Some ''ifIndex'') (Some 30) sample = Some (100, s1) \<and>
    setImportModulename (Some 100) (Some ''IF-MIB'') s1 = Some s2 \<and> import_list s2 11 [55, 100] \<and>
    findImportByModulenameAndName (Some ''IF-MIB'') (Some ''ifIndex'') (Some 11) s2 = Some (Some 100)"
proof -
  have "import_name sample 55 = Some ''iso''" "import_module sample 55 = Some ''B-MIB''"
    by (simp_all add: import_name_def import_module_def sample_simps sample_imports_def)
  then show ?thesis
    using addImport_lookup [OF sample_live(1,2) sample_import_list sample_fresh(8), of "''ifIndex''" "''IF-MIB''"]
    by (auto simp: sample_simps)
qed

subsection \<open>Objects by name\<close>

text \<open>\<open>findObjectByModuleAndName\<close> looks in the module first, in the order of its objects; only for
  the names of the three roots does it go on to all modules, in the order in which they were added.\<close>

theorem findObjectByModuleAndName_order:
  assumes ml: "module_list s ms" and ol: "\<And>mp. mp \<in> set ms \<Longrightarrow> object_list s mp (objs mp)"
    and mp: "mp \<in> set ms"
  shows "findObjectByModuleAndName (Some mp) (Some nm) s = Some (
    let own = List.find (\<lambda>p. object_name s p = Some nm) (objs mp) in
    if own \<noteq> None then own
    else if nm \<in> {''iso'', ''ccitt'', ''joint-iso-ccitt''}
      then List.find (\<lambda>p. object_name s p = Some nm) (concat (map objs ms))
    else None)"
  by (rule findObjectByModuleAndName_lemma [OF ml _ mp]) (rule ol)

theorem findObjectByModuleAndName_order_witness:
  "findObjectByModuleAndName (Some 11) (Some ''iso'') sample = Some (Some 40) \<and>
    findObjectByModuleAndName (Some 10) (Some ''foo'') sample = Some None"
proof -
  have "object_name sample 40 = Some ''iso''" "object_name sample 41 = Some ''foo''"
    "object_name sample 42 = Some ''bar''"
    by (simp_all add: object_name_def sample_simps sample_objects_def sample_object_def)
  moreover note findObjectByModuleAndName_order [OF sample_module_list sample_object_list, of 11 "''iso''"]
    findObjectByModuleAndName_order [OF sample_module_list sample_object_list, of 10 "''foo''"]
  ultimately show ?thesis by (simp add: sample_objs_def)
qed

text \<open>The flag operations of an object: after \<open>addObjectFlags\<close> the flags are set and all flags set
  before still are; after \<open>deleteObjectFlags\<close> none of the given flags is set and flags without a bit in
  common are as before.\<close>

theorem object_flags:
  assumes ob: "s_objects s p = Some ob"
  shows "\<exists>s1 s2. addObjectFlags (Some p) fl s = Some s1 \<and> deleteObjectFlags (Some p) fl s = Some s2 \<and>
    checkObjectFlags (Some p) fl s1 = Some True \<and>
    (\<forall>g. checkObjectFlags (Some p) g s = Some True \<longrightarrow> checkObjectFlags (Some p) g s1 = Some True) \<and>
    (fl \<noteq> 0 \<longrightarrow> checkObjectFlags (Some p) fl s2 = Some False) \<and>
    (\<forall>g. Bit_Operations.and g fl = 0 \<longrightarrow> checkObjectFlags (Some p) g s2 = checkObjectFlags (Some p) g s)"
  by (simp add: addObjectFlags_def deleteObjectFlags_def checkObjectFlags_def updObject_def ob
      has_flags_set_mono has_flags_clear has_flags_clear_disjoint)

theorem object_flags_witness:
  "\<exists>s1 s2. addObjectFlags (Some 40) FLAG_REGISTERED sample = Some s1 \<and>
    deleteObjectFlags (Some 40) FLAG_REGISTERED sample = Some s2 \<and>
    checkObjectFlags (Some 40) FLAG_REGISTERED s1 = Some True \<and>
    checkObjectFlags (Some 40) FLAG_REGISTERED s2 = Some False"
proof -
  obtain ob where ob: "s_objects sample 40 = Some ob" by (simp add: sample_simps sample_objects_def)
  have "FLAG_REGISTERED \<noteq> 0" by (simp add: FLAG_REGISTERED_def)
  then show ?thesis using object_flags [OF ob, of FLAG_REGISTERED] by blast
qed

subsection \<open>Classes\<close>

text \<open>A class that is added to the module being parsed is found under its name in that module,
  unless the module had one of that name, which keeps being found; no other lookup changes.\<close>

theorem addClass_lookup:
  assumes pr: "deref (s_parsers s) parserPtr = Some pr" "p_modulePtr pr = Some mp"
    and xl: "class_list s mp xs" and fresh: "s_classes s (s_next s) = None"
  shows "\<exists>s'. addClass (Some nm) parserPtr s = Some (s_next s, s') \<and>
    class_list s' mp (xs @ [s_next s]) \<and>
    (\<forall>nm'. findClassByModuleAndName (Some mp) (Some nm') s' =
      (if nm' = nm \<and> findClassByModuleAndName (Some mp) (Some nm) s = Some None then Some (Some (s_next s))
       else findClassByModuleAndName (Some mp) (Some nm') s))"
proof -
  obtain s' where a: "addClass (Some nm) parserPtr s = Some (s_next s, s')"
    and xl': "class_list s' mp (xs @ [s_next s])"
    and nm: "name_of_class s' = (name_of_class s)(s_next s := Some nm)"
    using addClass_lemma [OF pr xl fresh] by blast
  have notin: "s_next s \<notin> set xs" using xl fresh by (auto simp: class_list_def dest!: dlist_fresh_notin)
  have find: "findClassByModuleAndName (Some mp) (Some nm') s0 =
      Some (List.find (\<lambda>p. name_of_class s0 p = Some nm') ys)" if "class_list s0 mp ys" for s0 ys nm'
    using that walk_named [of c_nextPtr c_prevPtr "s_classes s0" _ ys _ "sc_name \<circ> c_export" nm']
    by (auto simp: class_list_def findClassByModuleAndName_def classes_named_def name_of_class_def)
  show ?thesis
    by (rule exI [of _ s']) (simp add: a xl' find [OF xl] find [OF xl'] find_name_appended [OF nm notin])
qed

theorem addClass_lookup_witness:
  "\<exists>s'. addClass (Some ''Shape'') (Some 30) sample = Some (100, s') \<and> class_list s' 11 [100] \<and>
    findClassByModuleAndName (Some 11) (Some ''Shape'') s' = Some (Some 100)"
proof -
  have xl: "class_list sample 11 []"
    by (simp add: class_list_def sample_simps sample_modules_def zero_module_def)
  have "s_classes sample (s_next sample) = None" "findClassByModuleAndName (Some 11) (Some ''Shape'') sample = Some None"
    by (simp add: sample_simps) code_simp
  then show ?thesis
    using addClass_lookup [OF sample_live(1,2) xl, of "''Shape''"] by (auto simp: sample_simps)
qed

subsection \<open>Handles and views\<close>

text \<open>A handle that is added is the last one and found under its tag, unless an earlier one has it;
  removing it again frees it and leaves the handles, and what every tag finds, as they were.\<close>

theorem handle_add_remove:
  assumes hl: "handle_list s hs" and fresh: "s_handles s (s_next s) = None"
    and nm: "\<And>p. p \<in> set hs \<Longrightarrow> handle_name s p \<noteq> None"
  shows "\<exists>s1 s2. addHandle (Some tag) s = Some (s_next s, s1) \<and> handle_list s1 (hs @ [s_next s]) \<and>
    findHandleByName (Some tag) s1 =
      (if findHandleByName (Some tag) s = Some None then Some (Some (s_next s))
       else findHandleByName (Some tag) s) \<and>
    removeHandle (Some (s_next s)) s1 = Some s2 \<and> handle_list s2 hs \<and> s_handles s2 (s_next s) = None \<and>
    (\<forall>t. findHandleByName (Some t) s2 = findHandleByName (Some t) s)"
proof -
  obtain s1 where a: "addHandle (Some tag) s = Some (s_next s, s1)" "handle_list s1 (hs @ [s_next s])"
    "handle_name s1 = (handle_name s)(s_next s := Some tag)"
    using addHandle_lemma [OF hl fresh, of "Some tag"] by blast
  have "handle_list s1 (hs @ s_next s # [])" using a(2) by simp
  from removeHandle_lemma [OF this] obtain s2 where r: "removeHandle (Some (s_next s)) s1 = Some s2"
    "handle_list s2 hs" "s_handles s2 (s_next s) = None" "handle_name s2 = (handle_name s1)(s_next s := None)"
    by auto
  have notin: "s_next s \<notin> set hs" using hl fresh by (auto simp: handle_list_def dest!: dlist_fresh_notin)
  have f: "findHandleByName (Some t) s = Some (List.find (\<lambda>p. handle_name s p = Some t) hs)" for t
    by (rule findHandleByName_lemma [OF hl nm])
  have f1: "findHandleByName (Some t) s1 = Some (List.find (\<lambda>p. handle_name s1 p = Some t) (hs @ [s_next s]))" for t
    by (rule findHandleByName_lemma [OF a(2)]) (use nm in \<open>auto simp: a(3)\<close>)
  have "findHandleByName (Some t) s2 = Some (List.find (\<lambda>p. handle_name s2 p = Some t) hs)" for t
    by (rule findHandleByName_lemma [OF r(2)]) (use nm notin in \<open>auto simp: r(4) a(3)\<close>)
  moreover have "List.find (\<lambda>p. handle_name s2 p = Some t) hs = List.find (\<lambda>p. handle_name s p = Some t) hs" for t
    using notin by (intro find_cong_set) (auto simp: r(4) a(3))
  ultimately have f2: "findHandleByName (Some t) s2 = findHandleByName (Some t) s" for t
    by (simp add: f)
  show ?thesis
    by (intro exI [of _ s1] exI [of _ s2]) (simp add: a(1,2) r(1-3) f2, simp add: f f1 find_name_appended [OF a(3) notin])
qed

definition tagged_handle :: smi where
  "tagged_handle = sample\<lparr>s_handles := [0 \<mapsto> sample_handle\<lparr>h_name := Some ''first''\<rparr>]\<rparr>"

theorem handle_add_remove_witness:
  "\<exists>s1 s2. addHandle (Some ''second'') tagged_handle = Some (100, s1) \<and> handle_list s1 [0, 100] \<and>
    findHandleByName (Some ''second'') s1 = Some (Some 100) \<and>
    removeHandle (Some 100) s1 = Some s2 \<and> handle_list s2 [0]"
proof -
  have h: "handle_list tagged_handle [0]" "s_handles tagged_handle (s_next tagged_handle) = None"
    "handle_name tagged_handle 0 = Some ''first''" "s_next tagged_handle = 100"
    by (simp_all add: tagged_handle_def handle_list_def dlist_def handle_name_def sample_simps
        sample_handle_def zero_handle_def)
  have "findHandleByName (Some ''second'') tagged_handle = Some None" by code_simp
  then show ?thesis using handle_add_remove [OF h(1,2), of "''second''"] h(3,4) by auto
qed

text \<open>A handle without a tag, which \<open>smiInit(NULL)\<close> makes, breaks later lookups: \<open>findHandleByName\<close>
  compares its NULL name unless an earlier handle has the tag.\<close>

theorem untagged_handle_breaks_lookup:
  assumes hl: "handle_list s (ys @ x # zs)" and x: "handle_name s x = None"
    and ys: "\<And>p. p \<in> set ys \<Longrightarrow> handle_name s p \<noteq> Some tag"
  shows "findHandleByName (Some tag) s = None"
proof -
  have "walk (s_handles s) h_nextPtr (\<lambda>_ h. streq (h_name h) (Some tag)) f = None"
    if "dseg h_nextPtr h_prevPtr (s_handles s) b f (ys @ x # zs) l None" for b f l
    using that ys
  proof (induction ys arbitrary: b f)
    case Nil
    then show ?case using x by (auto simp: walk_Some handle_name_def)
  next
    case (Cons y ys)
    then obtain h where h: "f = Some y" "s_handles s y = Some h"
      "dseg h_nextPtr h_prevPtr (s_handles s) (Some y) (h_nextPtr h) (ys @ x # zs) l None" by auto
    have "h_name h \<noteq> Some tag" using Cons.prems(2) [of y] h(2) by (simp add: handle_name_def)
    then show ?case using Cons.IH [OF h(3)] Cons.prems(2) h(1,2)
      by (cases "h_name h") (auto simp: walk_Some)
  qed
  then show ?thesis using hl by (simp add: findHandleByName_def handle_list_def dlist_def)
qed

theorem untagged_handle_breaks_lookup_witness:
  "handle_name sample 0 = None \<and> findHandleByName (Some ''snmp'') sample = None"
proof -
  have "handle_list sample ([] @ 0 # [])" "handle_name sample 0 = None"
    using sample_handles by (simp_all add: handle_name_def sample_simps sample_handle_def zero_handle_def)
  then show ?thesis using untagged_handle_breaks_lookup [of sample "[]" 0 "[]"] by simp
qed

text \<open>After \<open>addView\<close> exactly the modules in view before and the new one are in view.\<close>

theorem addView_isInView:
  assumes vl: "view_list s vs" and fresh: "s_views s (s_next s) = None"
    and nm: "\<And>p. p \<in> set vs \<Longrightarrow> view_name s p \<noteq> None"
  shows "\<exists>s'. addView (Some m) s = Some (s_next s, s') \<and> view_list s' (vs @ [s_next s]) \<and>
    (\<forall>m'. isInView (Some m') s' = (if m' = m then Some True else isInView (Some m') s))"
proof -
  obtain s' where a: "addView (Some m) s = Some (s_next s, s')" "view_list s' (vs @ [s_next s])"
    "view_name s' = (view_name s)(s_next s := Some m)"
    using addView_lemma [OF vl fresh, of "Some m"] by blast
  have notin: "s_next s \<notin> set vs" using vl fresh by (auto simp: view_list_def dest!: dlist_fresh_notin)
  have "isInView (Some m') s = Some (\<exists>p \<in> set vs. view_name s p = Some m')" for m'
    by (rule isInView_lemma [OF vl nm])
  moreover have "isInView (Some m') s' = Some (\<exists>p \<in> set (vs @ [s_next s]). view_name s' p = Some m')" for m'
    by (rule isInView_lemma [OF a(2)]) (use nm in \<open>auto simp: a(3)\<close>)
  moreover have "(\<exists>p \<in> set (vs @ [s_next s]). view_name s' p = Some m') \<longleftrightarrow>
      m' = m \<or> (\<exists>p \<in> set vs. view_name s p = Some m')" for m'
    using notin by (auto simp: a(3))
  ultimately show ?thesis by (intro exI [of _ s']) (simp add: a(1,2))
qed

theorem addView_isInView_witness:
  "\<exists>s'. addView (Some ''B-MIB'') sample = Some (100, s') \<and> isInView (Some ''B-MIB'') s' = Some True \<and>
    isInView (Some ''A-MIB'') s' = Some True \<and> isInView (Some ''C-MIB'') s' = Some False"
proof -
  have v: "view_name sample p \<noteq> None" if "p \<in> set [90, 91]" for p
    using that by (auto simp: view_name_def fld_def sample_simps sample_views_def)
  have "isInView (Some ''A-MIB'') sample = Some True" "isInView (Some ''C-MIB'') sample = Some False"
    by code_simp+
  then show ?thesis
    using addView_isInView [OF sample_view_list sample_fresh(6) v, of "''B-MIB''"] by (auto simp: sample_simps)
qed

end
