(* ===== verification/Query_Properties.thy ===== *)
theory Query_Properties
  imports Smi_Sample Smi_Query
begin

section \<open>Properties of the query interface\<close>

text \<open>
  What \<^verbatim>\<open>smi.c\<close> promises to applications: lookup by dotted identifier and by qualified name, the walk
  through a subtree, rendering and reading back, flags and ranges, and the inputs on which the code
  reads freed memory, dereferences NULL or drops part of a name.  Each property is followed by an
  instance.
\<close>

subsection \<open>Subtrees and identifiers\<close>

text \<open>C36: \<open>getNextChildObject\<close> returns the first object of the module and of the kind in the preorder of
  the forest that starts at the given node: a node's own objects, then those below it, then those of
  its later siblings.\<close>

theorem getNextChildObject_preorder:
  assumes "is_forest (s_nodes s) (Some p) ts"
    and "\<And>a. a \<in> set (preorder ts) \<Longrightarrow> node_objects s a (objs a)"
  shows "getNextChildObject (Some p) (Some mp) nodekind s =
    Some (List.find (matching s mp nodekind) (concat (map objs (preorder ts))))"
  using child_search_forest [OF assms] by (simp add: getNextChildObject_def)

definition sample_forest :: "otree list" where
  "sample_forest = [ONode 21 [ONode 23 []], ONode 22 []]"

theorem getNextChildObject_preorder_witness:
  "getNextChildObject (Some 21) (Some 11) SMI_NODEKIND_ANY sample = Some (Some 42)"
proof -
  have f: "is_forest (s_nodes sample) (Some 21) sample_forest"
    by (simp add: sample_forest_def sample_simps sample_nodes_def zero_node_def)
  have o: "node_objects sample a (sample_node_objs a)" if "a \<in> set (preorder sample_forest)" for a
    using that by (intro sample_objects_ok(1)) (auto simp: sample_forest_def sample_simps sample_nodes_def)
  have "List.find (matching sample 11 SMI_NODEKIND_ANY)
      (concat (map sample_node_objs (preorder sample_forest))) = Some 42"
    by (simp add: sample_forest_def matching_def child_matches_def sample_simps sample_objects_def
        sample_object_def sample_node_objs_def)
  then show ?thesis using getNextChildObject_preorder [OF f o, of 11 SMI_NODEKIND_ANY] by simp
qed

text \<open>\<open>smiGetNode\<close> on an identifier of at most 128 sub identifiers in dotted decimal notation is
  \<open>smiGetNodeByOID\<close> on the identifier itself, and loads no module.\<close>

theorem smiGetNode_reads_dotted:
  assumes "oid \<noteq> []" and "length oid \<le> 128"
  shows "smiGetNode load None (Some (dotted (map unat oid))) s =
    map_option (\<lambda>ob. (ob, s)) (smiGetNodeByOID (length oid) oid s)"
  by (rule smiGetNode_dotted [OF assms])

theorem smiGetNode_reads_dotted_witness:
  "\<exists>oid. oid = [1, 6] \<and> dotted (map unat oid) = ''1.6'' \<and>
    smiGetNode (\<lambda>_ s. Some (None, s)) None (Some (dotted (map unat oid))) sample =
      map_option (\<lambda>ob. (ob, sample)) (smiGetNodeByOID (length oid) oid sample)"
proof -
  have "dotted (map unat [1, 6 :: SmiSubid]) = ''1.6''" by code_simp
  moreover have "[1, 6 :: SmiSubid] \<noteq> []" "length [1, 6 :: SmiSubid] \<le> 128" by simp_all
  ultimately show ?thesis using smiGetNode_reads_dotted [of "[1, 6]"] by blast
qed

text \<open>On the dotted form of an identifier whose sub identifiers are below \<open>2 ^ 31\<close>, the range of
  \<open>atoi\<close>, \<open>findNodeByOidString\<close> and \<open>createNodesByOidString\<close> do what \<open>findNodeByOid\<close> and \<open>createNodes\<close>
  do on the identifier.\<close>

theorem oid_strings_agree:
  assumes "oid \<noteq> []" and "\<forall>x \<in> set oid. unat x < 2 ^ 31"
  shows "findNodeByOidString (dotted (map unat oid)) s = findNodeByOid (length oid) oid s \<and>
    createNodesByOidString (dotted (map unat oid)) s = createNodes (length oid) oid s"
  using findNodeByOidString_dotted [OF assms(2)] createNodesByOidString_dotted [OF assms(1)] by simp

theorem oid_strings_agree_witness:
  "findNodeByOidString ''1.6'' sample = Some (Some 23)"
proof -
  have d: "dotted (map unat [1, 6 :: SmiSubid]) = ''1.6''"
    "findNodeByOid (length [1, 6 :: SmiSubid]) [1, 6] sample = Some (Some 23)" by code_simp+
  have "[1, 6 :: SmiSubid] \<noteq> []" "\<forall>x \<in> set [1, 6 :: SmiSubid]. unat x < 2 ^ 31" by simp_all
  from oid_strings_agree [OF this, of sample] show ?thesis unfolding d by simp
qed

subsection \<open>Qualified names\<close>

text \<open>A module name that starts with an upper case letter and an identifier, joined by \<open>::\<close>, by \<open>!\<close> or
  by a dot, are taken apart again.\<close>

theorem getModulenameAndName_separators:
  assumes "m \<noteq> []" and "is_upper (hd m)" and "set m \<inter> {CHR '':'', CHR ''!'', CHR ''.''} = {}"
    and "set n \<inter> {CHR '':'', CHR ''!''} = {}"
  shows "getModulenameAndName None (Some (m @ ''::'' @ n)) = (Some m, Some n) \<and>
    getModulenameAndName None (Some (m @ ''!'' @ n)) = (Some m, Some n) \<and>
    getModulenameAndName None (Some (m @ ''.'' @ n)) = (Some m, Some n)"
  using assms split_name_colons [of m n] split_name_mark [of m n] split_name_dot [of m n]
  by (simp add: getModulenameAndName_def)

theorem getModulenameAndName_separators_witness:
  "getModulenameAndName None (Some ''IF-MIB::ifIndex'') = (Some ''IF-MIB'', Some ''ifIndex'')"
proof -
  have "''IF-MIB'' \<noteq> []" "is_upper (hd ''IF-MIB'')" "set ''IF-MIB'' \<inter> {CHR '':'', CHR ''!'', CHR ''.''} = {}"
    "set ''ifIndex'' \<inter> {CHR '':'', CHR ''!''} = {}" by (simp_all add: is_upper_def code_of_def)
  from getModulenameAndName_separators [OF this] show ?thesis by simp
qed

text \<open>The module ends at the first colon, but the name starts after the first double colon: with a
  single colon before the double one, the text between the two is dropped.\<close>

theorem single_colon_drops_text:
  assumes "m \<noteq> []" and "is_upper (hd m)" and "CHR '':'' \<notin> set m" and "k \<noteq> []" and "CHR '':'' \<notin> set k"
  shows "getModulenameAndName None (Some (m @ '':'' @ k @ ''::'' @ n)) = (Some m, Some n)"
  using split_name_single_colon [OF assms, of n] by (simp add: getModulenameAndName_def)

theorem single_colon_drops_text_witness:
  "getModulenameAndName None (Some ''A:b::c'') = (Some ''A'', Some ''c'')"
proof -
  have "''A'' \<noteq> []" "is_upper (hd ''A'')" "CHR '':'' \<notin> set ''A''" "''b'' \<noteq> []" "CHR '':'' \<notin> set ''b''"
    by (simp_all add: is_upper_def code_of_def)
  from single_colon_drops_text [OF this, of "''c''"] show ?thesis by simp
qed

text \<open>C40: a node whose module has a name that starts with an upper case letter and has no colon, rendered
  with its module, reads back as the names of the module and of the node.\<close>

theorem smiRenderNode_roundtrip:
  assumes ob: "s_objects s p = Some ob" "sn_name (o_export ob) = Some n" "o_modulePtr ob = Some mp"
    and m: "name_of_module s mp = Some m" "m \<noteq> []" "is_upper (hd m)" "CHR '':'' \<notin> set m"
  shows "\<exists>t. smiRenderNode (Some p) SMI_RENDER_QUALIFIED s = Some (Some t) \<and>
    getModulenameAndName None (Some t) = (Some m, Some n)"
proof -
  obtain md where md: "s_modules s mp = Some md" "sm_name (m_export md) = Some m"
    using m(1) by (cases "s_modules s mp") (auto simp: name_of_module_def)
  have "any_flag SMI_RENDER_QUALIFIED SMI_RENDER_QUALIFIED"
    by (simp add: any_flag_def SMI_RENDER_QUALIFIED_def)
  then have "smiRenderNode (Some p) SMI_RENDER_QUALIFIED s = Some (Some (m @ ''::'' @ n))"
    using m(2) by (simp add: smiRenderNode_def render_named_def ob md)
  then show ?thesis using split_name_colons [OF m(2-4), of n] by (simp add: getModulenameAndName_def)
qed

theorem smiRenderNode_roundtrip_witness:
  "\<exists>t. smiRenderNode (Some 42) SMI_RENDER_QUALIFIED sample = Some (Some t) \<and>
    getModulenameAndName None (Some t) = (Some ''A-MIB'', Some ''bar'')"
proof -
  obtain ob where "s_objects sample 42 = Some ob" "sn_name (o_export ob) = Some ''bar''" "o_modulePtr ob = Some 11"
    by (simp add: sample_simps sample_objects_def sample_object_def)
  then show ?thesis
    by (rule smiRenderNode_roundtrip)
      (simp_all add: name_of_module_def sample_simps sample_modules_def is_upper_def code_of_def)
qed

lemma append_subids_dotted:
  "i \<noteq> 0 \<Longrightarrow> xs \<noteq> [] \<Longrightarrow>
    append_subids i xs (Some t) = Some (t @ CHR ''.'' # dotted (map unat xs))"
proof (induction xs arbitrary: i t)
  case (Cons x xs)
  show ?case
  proof (cases "xs = []")
    case False
    then obtain y ys where xs: "xs = y # ys" by (cases xs) auto
    have "append_subids (Suc i) xs (Some (t @ CHR ''.'' # dec (unat x))) =
        Some ((t @ CHR ''.'' # dec (unat x)) @ CHR ''.'' # dotted (map unat xs))"
      by (rule Cons.IH) (simp_all add: False)
    then show ?thesis using Cons.prems(1) by (simp add: xs)
  qed (use Cons.prems in simp)
qed simp

lemma append_subids_start:
  assumes "xs \<noteq> []"
  shows "append_subids 0 xs None = Some (dotted (map unat xs))"
proof -
  obtain x ys where xs: "xs = x # ys" using assms by (cases xs) auto
  show ?thesis using append_subids_dotted [of 1 ys "dec (unat x)"] by (cases ys) (simp_all add: xs)
qed

text \<open>Without names, \<open>smiRenderOID\<close> writes an identifier in dotted decimal notation, from which
  \<open>parse_oid\<close>, the reader of \<open>smiGetNode\<close>, gets it back.\<close>

theorem smiRenderOID_roundtrip:
  assumes oid: "oid \<noteq> []" "length oid \<le> 128"
    and fl: "\<not> any_flag flags (Bit_Operations.or SMI_RENDER_NAME SMI_RENDER_QUALIFIED)"
  shows "\<exists>t. smiRenderOID (length oid) (Some oid) flags s = Some (Some t) \<and> parse_oid t = Some oid"
  using append_subids_start [OF oid(1)] parse_oid_dotted [OF oid(2)] oid(1) fl
  by (auto simp: smiRenderOID_def)

theorem smiRenderOID_roundtrip_witness:
  "\<exists>t. smiRenderOID (length [1, 3, 6 :: SmiSubid]) (Some [1, 3, 6]) 0 sample = Some (Some t) \<and>
    parse_oid t = Some [1, 3, 6]"
  by (rule smiRenderOID_roundtrip) (simp_all add: any_flag_def)

subsection \<open>Inputs on which the code fails\<close>

text \<open>Asked for the parent of a node whose parent node has no object, \<open>smiGetParentNode\<close> makes one
  with \<open>addObject\<close> and without a parser, and \<open>addObject\<close> dereferences the parser: no parser, no
  object, and the query fails.\<close>

theorem smiGetParentNode_unnamed_parent:
  assumes ob: "s_objects s p = Some ob" "o_nodePtr ob = Some c"
    and h: "theHandle s = Some h" "h_rootNodePtr h \<noteq> Some c"
    and c: "s_nodes s c = Some n" "n_parentPtr n = Some q"
    and q: "s_nodes s q = Some qn" "n_firstObjectPtr qn = None" "n_parentPtr qn \<noteq> None"
  shows "addObject nm parentNodePtr x fl None s = None \<and> smiGetParentNode (Some p) s = None"
proof -
  have o: "findObjectByModuleAndNode mp (Some q) s = Some None" "findObjectByNode (Some q) s = Some None" for mp
    using q by (simp_all add: findObjectByModuleAndNode_def findObjectByNode_def)
  have "Some c \<noteq> h_rootNodePtr h" using h(2) by simp
  moreover obtain r where "n_parentPtr qn = Some r" using q(3) by auto
  ultimately have "smiGetParentNode (Some p) s = None"
    using ob h(1) c q(1)
    by (simp add: smiGetParentNode_def o addObject_no_parser_lemma Let_def cong: if_cong)
  then show ?thesis by (simp add: addObject_no_parser_lemma)
qed

definition gap_state :: smi where
  "gap_state = sample\<lparr>
     s_nodes := sample_nodes(24 \<mapsto> zero_node\<lparr>n_subid := 5, n_parentPtr := Some 22,
       n_firstObjectPtr := Some 43, n_lastObjectPtr := Some 43\<rparr>),
     s_objects := sample_objects(43 \<mapsto> sample_object ''baz'' 11 24)\<rparr>"

theorem smiGetParentNode_unnamed_parent_witness:
  "smiGetParentNode (Some 43) gap_state = None"
proof -
  obtain ob n qn where "s_objects gap_state 43 = Some ob" "o_nodePtr ob = Some 24"
    "s_nodes gap_state 24 = Some n" "n_parentPtr n = Some 22"
    "s_nodes gap_state 22 = Some qn" "n_firstObjectPtr qn = None" "n_parentPtr qn \<noteq> None"
    by (simp add: gap_state_def sample_object_def sample_nodes_def zero_node_def)
  moreover have "theHandle gap_state = Some sample_handle" "h_rootNodePtr sample_handle \<noteq> Some 24"
    by (simp_all add: gap_state_def theHandle_def sample_simps sample_handle_def)
  ultimately show ?thesis using smiGetParentNode_unnamed_parent by blast
qed

text \<open>\<open>smiGetFirstAlias\<close> tests the first child where it means the first object: an object at a leaf
  has no alias, whatever objects the leaf has.\<close>

theorem smiGetFirstAlias_leaf:
  assumes "s_objects s p = Some ob" and "o_nodePtr ob = Some q" and "node_objects s q xs"
    and "s_nodes s q = Some n"
  shows "smiGetFirstAlias (Some p) s =
    Some (if n_firstChildPtr n = None then None else if xs = [] then None else Some (hd xs))"
  using assms by (auto simp: smiGetFirstAlias_def node_objects_def dest!: dlist_first)

theorem smiGetFirstAlias_leaf_witness:
  "smiGetFirstAlias (Some 41) sample = Some None \<and> smiGetFirstAlias (Some 42) sample = Some (Some 40) \<and>
    node_objects sample 23 [41]"
proof -
  obtain o1 o2 n1 n2 where a: "s_objects sample 41 = Some o1" "o_nodePtr o1 = Some 23" "s_nodes sample 23 = Some n1"
      "n_firstChildPtr n1 = None"
    and b: "s_objects sample 42 = Some o2" "o_nodePtr o2 = Some 21" "s_nodes sample 21 = Some n2"
      "n_firstChildPtr n2 = Some 23"
    by (simp add: sample_simps sample_objects_def sample_object_def sample_nodes_def zero_node_def)
  show ?thesis
    using smiGetFirstAlias_leaf [OF a(1,2) sample_node_objects(2) a(3)] a(4)
      smiGetFirstAlias_leaf [OF b(1,2) sample_node_objects(1) b(3)] b(4) sample_node_objects(2) by simp
qed

subsection \<open>Initialisation\<close>

text \<open>The handle's parser and root pointers through the operations \<open>smiInitData\<close> runs.\<close>

definition parser_kept :: "smi \<Rightarrow> smi \<Rightarrow> bool" where
  "parser_kept s s' \<longleftrightarrow> map_option (\<lambda>h. (h_parserPtr h, h_rootNodePtr h)) (theHandle s') =
     map_option (\<lambda>h. (h_parserPtr h, h_rootNodePtr h)) (theHandle s)"

lemma parser_kept_refl [simp]: "parser_kept s s" by (simp add: parser_kept_def)

lemma parser_kept_trans: "parser_kept s s1 \<Longrightarrow> parser_kept s1 s2 \<Longrightarrow> parser_kept s s2"
  by (simp add: parser_kept_def)

lemma parser_kept_same: "s_handles s' = s_handles s \<Longrightarrow> smiHandle s' = smiHandle s \<Longrightarrow> parser_kept s s'"
  by (simp add: parser_kept_def theHandle_def)

lemma updHandle_kept:
  assumes "updHandle f s = Some s'" and "\<And>h. h_parserPtr (f h) = h_parserPtr h" and "\<And>h. h_rootNodePtr (f h) = h_rootNodePtr h"
  shows "parser_kept s s'"
  using assms by (auto simp: updHandle_def parser_kept_def theHandle_def elim!: upd_SomeE)

lemma upd_kept:
  "updObject p fo s = Some s' \<Longrightarrow> parser_kept s s'"
  "updNode p fn s = Some s' \<Longrightarrow> parser_kept s s'"
  "updModule p fm s = Some s' \<Longrightarrow> parser_kept s s'"
  "updParser p fp s = Some s' \<Longrightarrow> parser_kept s s'"
  "updType p ft s = Some s' \<Longrightarrow> parser_kept s s'"
  by (auto simp: upd_defs intro: parser_kept_same)

lemma addNode_kept: "addNode pp x fl s = Some (p, s') \<Longrightarrow> parser_kept s s'"
  by (auto simp: addNode_def Let_def bind_eq_Some_iff intro: parser_kept_same)

lemma addModule_kept: "addModule nm path fl s = Some (p, s') \<Longrightarrow> parser_kept s s'"
  by (auto simp: addModule_def Let_def bind_eq_Some_iff dest!: updHandle_kept
      intro: parser_kept_trans [OF _ parser_kept_same])

lemma addView_kept: "addView nm s = Some (p, s') \<Longrightarrow> parser_kept s s'"
  by (auto simp: addView_def Let_def bind_eq_Some_iff dest!: updHandle_kept
      intro: parser_kept_trans [OF _ parser_kept_same])

lemma link_object_kept:
  "link_object_module p mp s = Some s' \<Longrightarrow> parser_kept s s'"
  "link_object_node p q s = Some s' \<Longrightarrow> parser_kept s s'"
  by (auto simp: link_object_module_def link_object_node_def bind_eq_Some_iff upd_defs
      intro!: parser_kept_same split: if_splits)

lemmas kept_dests = link_object_kept addNode_kept addModule_kept addView_kept upd_kept

lemma addObject_kept: "addObject nm pp x fl pr s = Some (p, s') \<Longrightarrow> parser_kept s s'"
  by (auto simp: addObject_def Let_def bind_eq_Some_iff split: if_splits dest!: kept_dests)
    (simp_all add: parser_kept_def theHandle_def)

lemma addType_kept: "addType nm bt fl pr s = Some (p, s') \<Longrightarrow> parser_kept s s'"
  by (auto simp: addType_def append_type_def Let_def bind_eq_Some_iff split: if_splits dest!: kept_dests)
    (simp_all add: parser_kept_def theHandle_def)

lemma add_root_object_kept: "add_root_object nm x pr s = Some s' \<Longrightarrow> parser_kept s s'"
  by (auto simp: add_root_object_def Let_def bind_eq_Some_iff split: if_splits dest!: kept_dests addObject_kept)
    (simp_all add: parser_kept_def)

lemma add_base_type_kept:
  assumes "add_base_type nm bt set_field pr s = Some s'"
    and "\<And>p h. h_parserPtr (set_field p h) = h_parserPtr h" "\<And>p h. h_rootNodePtr (set_field p h) = h_rootNodePtr h"
  shows "parser_kept s s'"
proof -
  obtain p s1 where "addType (Some nm) bt 0 (Some pr) s = Some (p, s1)" "updHandle (set_field (Some p)) s1 = Some s'"
    using assms(1) by (auto simp: add_base_type_def bind_eq_Some_iff)
  then show ?thesis using addType_kept updHandle_kept assms(2,3) parser_kept_trans by blast
qed

lemma add_base_types_kept: "add_base_types pr s = Some s' \<Longrightarrow> parser_kept s s'"
  unfolding add_base_types_def
  by (elim bind_SomeE, (drule add_base_type_kept, simp, simp)+, simp add: parser_kept_def)

text \<open>When \<open>smiInitData\<close> returns, the handle still points to its local parser: every lookup below a
  node, and every lookup by object identifier, reads it and is undefined.\<close>

theorem smiInitData_leaves_dangling_parser:
  assumes init: "smiInitData s = Some (r, s')"
  shows "findNodeByParentAndSubid (Some p) x s' = None \<and> smiGetNodeByOID (Suc k) (y # oid) s' = None"
proof -
  obtain s1 s2 s3 s4 s5 s6 s7 s8 s9 s10 s11 root pending m vp h f where
    a1: "addNode None 0 NODE_FLAG_ROOT s1 = Some (root, s2)"
    and a2: "updHandle (h_rootNodePtr_update (\<lambda>_. Some root)) s2 = Some s3"
    and a3: "updHandle (h_parserPtr_update (\<lambda>_. Some (s_next s3))) (s3\<lparr>s_next := Suc (s_next s3),
        s_parsers := (s_parsers s3)(s_next s3 \<mapsto> zero_parser)\<rparr>) = Some s4"
    and a4: "addNode None 0 NODE_FLAG_ROOT s4 = Some (pending, s5)"
    and a5: "updParser (Some (s_next s3)) f s5 = Some s6"
    and a6: "addModule (Some '''') (Some '''') 0 s6 = Some (m, s7)"
    and a7: "updParser (Some (s_next s3)) (p_modulePtr_update (\<lambda>_. Some m)) s7 = Some s8"
    and a8: "addView (Some '''') s8 = Some (vp, s9)"
    and a9: "add_root_object ''ccitt'' 0 (s_next s3) s9 = Some s10"
    and a10: "Option.bind (add_root_object ''iso'' 1 (s_next s3) s10)
        (\<lambda>s. Option.bind (add_root_object ''joint-iso-ccitt'' 2 (s_next s3) s)
          (add_base_types (s_next s3))) = Some s11"
    and s': "s' = s11\<lparr>s_parsers := (s_parsers s11)(s_next s3 := None)\<rparr>"
    using init by (auto simp: smiInitData_def Let_def bind_eq_Some_iff)
  have "parser_kept s4 s9"
    using addNode_kept [OF a4] upd_kept(4) [OF a5] addModule_kept [OF a6] upd_kept(4) [OF a7] addView_kept [OF a8]
    by (simp add: parser_kept_def)
  moreover have "parser_kept s9 s11"
    using add_root_object_kept [OF a9] a10
    by (auto simp: bind_eq_Some_iff parser_kept_def dest!: add_root_object_kept add_base_types_kept)
  moreover have "map_option (\<lambda>h. (h_parserPtr h, h_rootNodePtr h)) (theHandle s4) =
      Some (Some (s_next s3), Some root)"
    using a2 a3 by (auto simp: updHandle_def theHandle_def elim!: upd_SomeE)
  ultimately have "map_option (\<lambda>h. (h_parserPtr h, h_rootNodePtr h)) (theHandle s') =
      Some (Some (s_next s3), Some root)"
    by (simp add: parser_kept_def s' theHandle_def)
  then obtain h' where h': "theHandle s' = Some h'" "h_parserPtr h' = Some (s_next s3)" "h_rootNodePtr h' = Some root"
    by auto
  have dead: "findNodeByParentAndSubid (Some q) y s' = None" for q y
    by (simp add: findNodeByParentAndSubid_def h'(1,2)) (simp add: s')
  then show ?thesis by (simp add: smiGetNodeByOID_def getNode_def h'(1,3))
qed

theorem smiInitData_leaves_dangling_parser_witness:
  "\<exists>s'. smiInitData (sample\<lparr>s_parsers := Map.empty\<rparr>) = Some (0, s') \<and>
    smiGetNodeByOID (Suc 0) [1] s' = None"
proof -
  have "map_option fst (smiInitData (sample\<lparr>s_parsers := Map.empty\<rparr>)) = Some 0" by code_simp
  then obtain s' where "smiInitData (sample\<lparr>s_parsers := Map.empty\<rparr>) = Some (0, s')" by auto
  then show ?thesis using smiInitData_leaves_dangling_parser [of _ 0 s' 0 1 0 1 "[]"] by auto
qed

end
