(* ===== verification/Snmp_Asn1.thy ===== *)
theory Snmp_Asn1
  imports Prelude
begin

section \<open>BER primitives: parsing and building ASN.1 objects\<close>

text \<open>
  The routines of \<^verbatim>\<open>src/snmp++/src/asn1.cpp\<close> that read and write one ASN.1 object, on the LP64 data
  model, where \<^verbatim>\<open>long\<close> and \<^verbatim>\<open>oid\<close> have 64 bits; a \<^verbatim>\<open>long\<close> is the word that holds it.

  A pointer into a received message is the list of the bytes from there to the end of the memory that
  may be read, so \<open>data - bufp\<close> is a difference of lengths and reading past the end is \<open>None\<close>.  A pointer
  into a buffer that is written is the buffer with a position; writing past the end is \<open>None\<close>.  Under
  this outer option, \<open>Inl\<close> is the NULL the C function returns, with the reason \<^verbatim>\<open>ASNERROR\<close> prints, and
  \<open>Inr\<close> holds the returned pointer with the values stored through the out parameters.  What a failed
  call leaves in its out parameters is not modelled.
\<close>

unbundle bit_operations_syntax

datatype asn_error = Wrong_Type | Extension_Id | Indefinite_Length | Length_Too_Long |
  Message_Overflow | Too_Large | Too_Long | Subid_Too_Long | Malformed_Null | Invalid_Bitstring |
  Buffer_Full | Illegal_Size

type_synonym 'a asn = "(asn_error + 'a) option"

text \<open>\<open>if (p == NULL) return NULL;\<close> after a call.\<close>

definition on_ok :: "('e + 'a) option \<Rightarrow> ('a \<Rightarrow> ('e + 'b) option) \<Rightarrow> ('e + 'b) option" where
  "on_ok m f = (case m of None \<Rightarrow> None | Some (Inl e) \<Rightarrow> Some (Inl e) | Some (Inr x) \<Rightarrow> f x)"

lemma on_ok_simps [simp]:
  "on_ok None f = None"
  "on_ok (Some (Inl e)) f = Some (Inl e)"
  "on_ok (Some (Inr x)) f = f x"
  by (simp_all add: on_ok_def)

lemma on_ok_cong [fundef_cong]:
  "m = m' \<Longrightarrow> (\<And>x. m' = Some (Inr x) \<Longrightarrow> f x = g x) \<Longrightarrow> on_ok m f = on_ok m' g"
  by (auto simp: on_ok_def split: option.splits sum.splits)

lemma on_ok_InrE:
  assumes "on_ok m f = Some (Inr y)"
  obtains x where "m = Some (Inr x)" and "f x = Some (Inr y)"
  using assms by (auto simp: on_ok_def split: option.splits sum.splits)

lemma on_ok_NoneE:
  assumes "on_ok m f = None" and "m \<noteq> None"
  obtains x where "m = Some (Inr x)" and "f x = None"
  using assms by (auto simp: on_ok_def split: option.splits sum.splits)

subsection \<open>Buffers that are written\<close>

type_synonym out = "u8 list \<times> nat"

definition put :: "u8 \<Rightarrow> out \<Rightarrow> out option" where
  "put b out = (case out of (buf, pos) \<Rightarrow>
     if pos < length buf then Some (buf[pos := b], Suc pos) else None)"

text \<open>A run of assignments \<open>*data++ = b\<close>, and \<open>memcpy\<close> of the bytes.\<close>

primrec put_all :: "u8 list \<Rightarrow> out \<Rightarrow> out option" where
  "put_all [] out = Some out"
| "put_all (b # bs) out = (case put b out of None \<Rightarrow> None | Some out \<Rightarrow> put_all bs out)"

text \<open>Writing \<open>bs\<close> and taking its length off \<open>*datalength\<close>.\<close>

definition emit :: "u8 list \<Rightarrow> out \<Rightarrow> int \<Rightarrow> (out \<times> int) asn" where
  "emit bs out datalength = (case put_all bs out of None \<Rightarrow> None
     | Some out \<Rightarrow> Some (Inr (out, datalength - int (length bs))))"

text \<open>\<open>memcpy(data, string, n)\<close> for an \<open>int\<close> count: a negative count is a huge \<open>size_t\<close>, and the bytes
  that are copied have to be there.\<close>

definition copied :: "u8 list \<Rightarrow> int \<Rightarrow> u8 list option" where
  "copied string n = (if n < 0 \<or> int (length string) < n then None else Some (take (nat n) string))"

subsection \<open>Lengths and headers\<close>

definition ASN_LONG_LEN :: u8 where "ASN_LONG_LEN = 0x80"
definition ASN_BIT8 :: u8 where "ASN_BIT8 = 0x80"
definition ASN_EXTENSION_ID :: u8 where "ASN_EXTENSION_ID = 0x1F"

definition MAX_SUBID :: u64 where "MAX_SUBID = 0xFFFFFFFF"
definition MAX_OID_LEN :: int where "MAX_OID_LEN = 128"

text \<open>\<open>(int)asn_length\<close> and \<open>(unsigned long)(*datalength)\<close>.\<close>

definition to_int :: "u64 \<Rightarrow> int" where
  "to_int w = sint (ucast w :: u32)"

definition ulong :: "int \<Rightarrow> u64" where
  "ulong i = word_of_int i"

definition asn_parse_length :: "u8 list \<Rightarrow> (u64 \<times> u8 list) asn" where
  "asn_parse_length data = (case data of [] \<Rightarrow> None | lengthbyte # bufp \<Rightarrow>
     if lengthbyte AND ASN_LONG_LEN \<noteq> 0 then
       (let n = unat (lengthbyte AND NOT ASN_LONG_LEN) in
        if n = 0 then Some (Inl Indefinite_Length)
        else if n > 4 then Some (Inl Length_Too_Long)
        else if length bufp < n then None
        else (let l = foldl (\<lambda>l b. push_bit 8 l + ucast b) 0 (take n bufp) in
              if l > 0x80000000 then Some (Inl Length_Too_Long) else Some (Inr (l, drop n bufp))))
     else Some (Inr (ucast lengthbyte, bufp)))"

definition asn_build_length :: "out \<Rightarrow> int \<Rightarrow> int \<Rightarrow> (out \<times> int) asn" where
  "asn_build_length out datalength l = (
     if l < 0x80 then
       (if datalength < 1 then Some (Inl Buffer_Full) else emit [word_of_int l] out datalength)
     else if l \<le> 0xFF then
       (if datalength < 2 then Some (Inl Buffer_Full)
        else emit [0x01 OR ASN_LONG_LEN, word_of_int l] out datalength)
     else if l \<le> 0xFFFF then
       (if datalength < 3 then Some (Inl Buffer_Full)
        else emit [0x02 OR ASN_LONG_LEN, word_of_int (drop_bit 8 l AND 0xFF), word_of_int (l AND 0xFF)]
               out datalength)
     else if l \<le> 0xFFFFFF then
       (if datalength < 4 then Some (Inl Buffer_Full)
        else emit [0x03 OR ASN_LONG_LEN, word_of_int (drop_bit 16 l AND 0xFF),
                   word_of_int (drop_bit 8 l AND 0xFF), word_of_int (l AND 0xFF)] out datalength)
     else
       (if datalength < 5 then Some (Inl Buffer_Full)
        else emit [0x04 OR ASN_LONG_LEN, word_of_int (drop_bit 24 l AND 0xFF),
                   word_of_int (drop_bit 16 l AND 0xFF), word_of_int (drop_bit 8 l AND 0xFF),
                   word_of_int (l AND 0xFF)] out datalength))"

definition asn_parse_header :: "u8 list \<Rightarrow> int \<Rightarrow> (u8 list \<times> int \<times> u8) asn" where
  "asn_parse_header data datalength = (case data of [] \<Rightarrow> None | type # bufp \<Rightarrow>
     if type AND ASN_EXTENSION_ID = ASN_EXTENSION_ID then Some (Inl Extension_Id)
     else on_ok (asn_parse_length bufp) (\<lambda>(asn_length, bufp).
       let header_len = length data - length bufp in
       if of_nat header_len + asn_length > ulong datalength then Some (Inl Message_Overflow)
       else Some (Inr (bufp, to_int asn_length, type))))"

definition asn_build_header :: "out \<Rightarrow> int \<Rightarrow> u8 \<Rightarrow> int \<Rightarrow> (out \<times> int) asn" where
  "asn_build_header out datalength type l = (
     if datalength < 1 then Some (Inl Buffer_Full)
     else on_ok (emit [type] out datalength) (\<lambda>(out, datalength). asn_build_length out datalength l))"

definition asn_build_sequence :: "out \<Rightarrow> int \<Rightarrow> u8 \<Rightarrow> int \<Rightarrow> (out \<times> int) asn" where
  "asn_build_sequence out datalength type l = (
     if datalength < 2 then Some (Inl Buffer_Full)
     else on_ok (emit [type] out datalength) (\<lambda>(out, datalength). asn_build_length out datalength l))"

subsection \<open>Integers\<close>

text \<open>The overflow test all parsers share: \<open>(asn_length + (bufp - data)) > (unsigned long)(*datalength)\<close>.\<close>

definition overflows :: "u64 \<Rightarrow> u8 list \<Rightarrow> u8 list \<Rightarrow> int \<Rightarrow> bool" where
  "overflows asn_length data bufp datalength \<longleftrightarrow>
     asn_length + of_nat (length data - length bufp) > ulong datalength"

text \<open>\<open>*datalength - ((int)asn_length + (bufp - data))\<close>.\<close>

definition remaining :: "int \<Rightarrow> u64 \<Rightarrow> u8 list \<Rightarrow> u8 list \<Rightarrow> int" where
  "remaining datalength asn_length data bufp =
     datalength - (to_int asn_length + int (length data - length bufp))"

definition asn_parse_int :: "u8 list \<Rightarrow> int \<Rightarrow> (u8 list \<times> int \<times> u8 \<times> u64) asn" where
  "asn_parse_int data datalength = (case data of [] \<Rightarrow> None | type # bufp \<Rightarrow>
     if type \<noteq> 0x02 \<and> type \<noteq> 0x43 \<and> type \<noteq> 0x41 then Some (Inl Wrong_Type)
     else on_ok (asn_parse_length bufp) (\<lambda>(asn_length, bufp).
       if overflows asn_length data bufp datalength then Some (Inl Message_Overflow)
       else if asn_length > 8 then Some (Inl Too_Large)
       else (case bufp of [] \<Rightarrow> None | first # _ \<Rightarrow>
         let n = unat asn_length; start = (if first AND 0x80 \<noteq> 0 then - 1 else 0) in
         if length bufp < n then None
         else Some (Inr (drop n bufp, remaining datalength asn_length data bufp, type,
                foldl (\<lambda>v b. push_bit 8 v OR ucast b) start (take n bufp))))))"

definition asn_parse_unsigned_int :: "u8 list \<Rightarrow> int \<Rightarrow> (u8 list \<times> int \<times> u8 \<times> u64) asn" where
  "asn_parse_unsigned_int data datalength = (case data of [] \<Rightarrow> None | type # bufp \<Rightarrow>
     if type \<noteq> 0x02 \<and> type \<noteq> 0x43 \<and> type \<noteq> 0x41 \<and> type \<noteq> 0x42 \<and> type \<noteq> 0x47 then Some (Inl Wrong_Type)
     else on_ok (asn_parse_length bufp) (\<lambda>(asn_length, bufp).
       if overflows asn_length data bufp datalength then Some (Inl Message_Overflow)
       else if asn_length > 5 then Some (Inl Too_Large)
       else (case bufp of [] \<Rightarrow> None | first # after \<Rightarrow>
         if asn_length > 4 \<and> first \<noteq> 0 then Some (Inl Too_Large)
         else
           let (asn_length, bufp) = (if first = 0 then (asn_length - 1, after) else (asn_length, bufp));
               n = nat (sint asn_length) in
           if length bufp < n then None
           else Some (Inr (drop n bufp, remaining datalength asn_length data bufp, type,
                  foldl (\<lambda>v b. push_bit 8 v + ucast b) 0 (take n bufp))))))"

text \<open>The loop that drops leading octets: the mask selects the nine most significant bits.\<close>

primrec trim_int :: "nat \<Rightarrow> u64 \<Rightarrow> nat \<times> u64" where
  "trim_int 0 integer = (0, integer)"
| "trim_int (Suc n) integer =
     (let mask = push_bit 55 0x1FF in
      if (integer AND mask = 0 \<or> integer AND mask = mask) \<and> Suc n > 1
      then trim_int n (push_bit 8 integer) else (Suc n, integer))"

primrec int_octets :: "nat \<Rightarrow> u64 \<Rightarrow> u8 list" where
  "int_octets 0 integer = []"
| "int_octets (Suc n) integer =
     ucast (drop_bit 56 (integer AND push_bit 56 0xFF)) # int_octets n (push_bit 8 integer)"

definition asn_build_int :: "out \<Rightarrow> int \<Rightarrow> u8 \<Rightarrow> u64 \<Rightarrow> (out \<times> int) asn" where
  "asn_build_int out datalength type integer = (
     let (intsize, integer) = trim_int 8 integer in
     on_ok (asn_build_header out datalength type (int intsize)) (\<lambda>(out, datalength).
       if datalength < int intsize then Some (Inl Buffer_Full)
       else emit (int_octets intsize integer) out datalength))"

definition uint_len :: "u64 \<Rightarrow> nat" where
  "uint_len u = (let n = (if drop_bit 24 u AND 0xFF \<noteq> 0 then 4
       else if drop_bit 16 u AND 0xFF \<noteq> 0 then 3
       else if drop_bit 8 u AND 0xFF \<noteq> 0 then 2 else 1) in
     if drop_bit (8 * (n - 1)) u AND 0x80 \<noteq> 0 then n + 1 else n)"

definition uint_octets :: "nat \<Rightarrow> u64 \<Rightarrow> u8 list" where
  "uint_octets n u =
     (if n = 5 then 0 # map (\<lambda>x. ucast (drop_bit (8 * (n - 1 - x)) u)) [1..<n]
      else map (\<lambda>x. ucast (drop_bit (8 * (n - 1 - x)) u)) [0..<n])"

definition asn_build_unsigned_int :: "out \<Rightarrow> int \<Rightarrow> u8 \<Rightarrow> u64 \<Rightarrow> (out \<times> int) asn" where
  "asn_build_unsigned_int out datalength type u = (
     let n = uint_len u in
     on_ok (asn_build_header out datalength type (int n)) (\<lambda>(out, datalength).
       if datalength < int n then Some (Inl Buffer_Full)
       else emit (uint_octets n u) out datalength))"

subsection \<open>Counter64\<close>

record counter64 =
  high :: u64
  low :: u64

definition asn_parse_unsigned_int64 :: "u8 list \<Rightarrow> int \<Rightarrow> (u8 list \<times> int \<times> u8 \<times> counter64) asn" where
  "asn_parse_unsigned_int64 data datalength = (case data of [] \<Rightarrow> None | type # bufp \<Rightarrow>
     if type \<noteq> 0x02 \<and> type \<noteq> 0x46 then Some (Inl Wrong_Type)
     else on_ok (asn_parse_length bufp) (\<lambda>(asn_length, bufp).
       if overflows asn_length data bufp datalength then Some (Inl Message_Overflow)
       else if to_int asn_length > 9 then Some (Inl Too_Large)
       else (case bufp of [] \<Rightarrow> None | first # _ \<Rightarrow>
         if to_int asn_length = 9 \<and> first \<noteq> 0 then Some (Inl Too_Large)
         else
           let n = unat asn_length; start = (if first AND 0x80 \<noteq> 0 then - 1 else 0);
               step = (\<lambda>(h, l) b. (push_bit 8 h OR drop_bit 24 (l AND 0xFF000000),
                                  (push_bit 8 l OR ucast b) AND 0xFFFFFFFF)) in
           if length bufp < n then None
           else (let (h, l) = foldl step (start, start) (take n bufp) in
             Some (Inr (drop n bufp, remaining datalength asn_length data bufp, type,
                        \<lparr>high = h, low = l\<rparr>))))))"

primrec trim_int64 :: "nat \<Rightarrow> u64 \<Rightarrow> u64 \<Rightarrow> nat \<times> u64 \<times> u64" where
  "trim_int64 0 h l = (0, h, l)"
| "trim_int64 (Suc n) h l =
     (let mask2 = 0xFF800000 in
      if (h AND mask2 = 0 \<or> h AND mask2 = mask2) \<and> Suc n > 1
      then trim_int64 n (push_bit 8 h OR drop_bit 24 (l AND 0xFF000000)) (push_bit 8 l)
      else (Suc n, h, l))"

primrec int64_octets :: "nat \<Rightarrow> u64 \<Rightarrow> u64 \<Rightarrow> u8 list" where
  "int64_octets 0 h l = []"
| "int64_octets (Suc n) h l = ucast (drop_bit 24 (h AND 0xFF000000)) #
     int64_octets n (push_bit 8 h OR drop_bit 24 (l AND 0xFF000000)) (push_bit 8 l)"

definition asn_build_unsigned_int64 :: "out \<Rightarrow> int \<Rightarrow> u8 \<Rightarrow> counter64 \<Rightarrow> (out \<times> int) asn" where
  "asn_build_unsigned_int64 out datalength type cp = (
     let add_null_byte = drop_bit 24 (high cp AND 0xFF000000) AND 0x80 \<noteq> 0;
         (intsize, h, l) = (if add_null_byte then (9, high cp, low cp)
                            else trim_int64 8 (high cp) (low cp)) in
     on_ok (asn_build_header out datalength type (int intsize)) (\<lambda>(out, datalength).
       if datalength < int intsize then Some (Inl Buffer_Full)
       else emit (if add_null_byte then 0 # int64_octets (intsize - 1) h l
                  else int64_octets intsize h l) out datalength))"

subsection \<open>Strings, bit strings and NULL\<close>

definition asn_parse_string :: "u8 list \<Rightarrow> int \<Rightarrow> int \<Rightarrow> (u8 list \<times> int \<times> u8 \<times> u8 list) asn" where
  "asn_parse_string data datalength strlength = (case data of [] \<Rightarrow> None | type # bufp \<Rightarrow>
     if type \<noteq> 0x04 \<and> type \<noteq> 0x24 \<and> type \<noteq> 0x40 \<and> type \<noteq> 0x44 \<and> type \<noteq> 0x45 then Some (Inl Wrong_Type)
     else on_ok (asn_parse_length bufp) (\<lambda>(asn_length, bufp).
       if overflows asn_length data bufp datalength then Some (Inl Message_Overflow)
       else if to_int asn_length > strlength then Some (Inl Too_Long)
       else
         let n = unat asn_length in
         if length bufp < n \<or> strlength < int n then None
         else Some (Inr (drop n bufp, remaining datalength asn_length data bufp, type, take n bufp))))"

definition asn_build_string :: "out \<Rightarrow> int \<Rightarrow> u8 \<Rightarrow> u8 list \<Rightarrow> int \<Rightarrow> (out \<times> int) asn" where
  "asn_build_string out datalength type string strlength =
     on_ok (asn_build_header out datalength type strlength) (\<lambda>(out, datalength).
       if datalength < strlength then Some (Inl Buffer_Full)
       else (case copied string strlength of None \<Rightarrow> None | Some bs \<Rightarrow> emit bs out datalength))"

definition asn_parse_null :: "u8 list \<Rightarrow> int \<Rightarrow> (u8 list \<times> int \<times> u8) asn" where
  "asn_parse_null data datalength = (case data of [] \<Rightarrow> None | type # bufp \<Rightarrow>
     if type \<noteq> 0x05 then Some (Inl Wrong_Type)
     else on_ok (asn_parse_length bufp) (\<lambda>(asn_length, bufp).
       if asn_length \<noteq> 0 then Some (Inl Malformed_Null)
       else Some (Inr (bufp, datalength - int (length data - length bufp), type))))"

definition asn_build_null :: "out \<Rightarrow> int \<Rightarrow> u8 \<Rightarrow> (out \<times> int) asn" where
  "asn_build_null out datalength type = asn_build_header out datalength type 0"

definition asn_parse_bitstring :: "u8 list \<Rightarrow> int \<Rightarrow> int \<Rightarrow> (u8 list \<times> int \<times> u8 \<times> u8 list) asn" where
  "asn_parse_bitstring data datalength strlength = (case data of [] \<Rightarrow> None | type # bufp \<Rightarrow>
     if type \<noteq> 0x03 then Some (Inl Wrong_Type)
     else on_ok (asn_parse_length bufp) (\<lambda>(asn_length, bufp).
       if overflows asn_length data bufp datalength then Some (Inl Message_Overflow)
       else if to_int asn_length > strlength then Some (Inl Too_Long)
       else if asn_length < 1 then Some (Inl Invalid_Bitstring)
       else (case bufp of [] \<Rightarrow> None | unused # _ \<Rightarrow>
         if unused > 7 then Some (Inl Invalid_Bitstring)
         else
           let n = unat asn_length in
           if length bufp < n \<or> strlength < int n then None
           else Some (Inr (drop n bufp, remaining datalength asn_length data bufp, type, take n bufp)))))"

definition asn_build_bitstring :: "out \<Rightarrow> int \<Rightarrow> u8 \<Rightarrow> u8 list \<Rightarrow> int \<Rightarrow> (out \<times> int) asn" where
  "asn_build_bitstring out datalength type string strlength = (
     if strlength < 1 then Some (Inl Invalid_Bitstring)
     else (case string of [] \<Rightarrow> None | unused # _ \<Rightarrow>
       if unused > 7 then Some (Inl Invalid_Bitstring)
       else asn_build_string out datalength type string strlength))"

subsection \<open>Object identifiers\<close>

text \<open>The inner loop of \<open>asn_parse_objid\<close> reads until a byte without the high bit, whatever is left of the
  object; it returns the sub identifier and the rest.\<close>

primrec parse_subid :: "u64 \<Rightarrow> u8 list \<Rightarrow> (u64 \<times> u8 list) option" where
  "parse_subid subidentifier [] = None"
| "parse_subid subidentifier (b # bufp) =
     (let subidentifier = push_bit 7 subidentifier + ucast (b AND NOT ASN_BIT8) in
      if b AND ASN_BIT8 \<noteq> 0 then parse_subid subidentifier bufp else Some (subidentifier, bufp))"

text \<open>The outer loop, by the room that is left in \<open>objid\<close>.\<close>

primrec parse_subids :: "nat \<Rightarrow> int \<Rightarrow> u8 list \<Rightarrow> (u64 list \<times> u8 list) asn" where
  "parse_subids 0 l bufp = Some (Inr ([], bufp))"
| "parse_subids (Suc room) l bufp =
     (if l \<le> 0 then Some (Inr ([], bufp))
      else (case parse_subid 0 bufp of None \<Rightarrow> None
        | Some (subidentifier, after) \<Rightarrow>
            if subidentifier > MAX_SUBID then Some (Inl Subid_Too_Long)
            else on_ok (parse_subids room (l - int (length bufp - length after)) after)
              (\<lambda>(subids, bufp). Some (Inr (subidentifier # subids, bufp)))))"

definition first_subids :: "u64 \<Rightarrow> u64 list" where
  "first_subids subidentifier = (
     if subidentifier = 0x2B then [1, 3]
     else if subidentifier < 40 then [0, subidentifier]
     else if subidentifier < 80 then [1, subidentifier - 40]
     else [2, subidentifier - 80])"

definition asn_parse_objid :: "u8 list \<Rightarrow> int \<Rightarrow> int \<Rightarrow> (u8 list \<times> int \<times> u8 \<times> u64 list) asn" where
  "asn_parse_objid data datalength objidlength = (case data of [] \<Rightarrow> None | type # bufp \<Rightarrow>
     if type \<noteq> 0x06 then Some (Inl Wrong_Type)
     else on_ok (asn_parse_length bufp) (\<lambda>(asn_length, bufp).
       if overflows asn_length data bufp datalength then Some (Inl Message_Overflow)
       else on_ok (parse_subids (nat (objidlength - 1)) (sint asn_length) bufp) (\<lambda>(subids, after).
         let datalength = remaining datalength asn_length data bufp in
         case subids of
           [] \<Rightarrow> if asn_length = 0 \<and> 2 \<le> objidlength then Some (Inr (after, datalength, type, [0])) else None
         | subidentifier # subids \<Rightarrow>
             Some (Inr (after, datalength, type, first_subids subidentifier @ subids)))))"

text \<open>\<open>asn_build_subid\<close>: the first loop finds the highest group of seven bits that is not zero; the mask
  leaves the word after ten shifts.  The second loop writes the groups from there downwards; it stops at
  the mask of the lowest group and runs on to the end of the buffer when it misses it.\<close>

primrec top_group :: "nat list \<Rightarrow> u64 \<Rightarrow> u64 \<times> int \<Rightarrow> u64 \<times> int" where
  "top_group [] subid mask_bits = mask_bits"
| "top_group (k # ks) subid mask_bits =
     (let testmask = push_bit (7 * k) 0x7F in
      top_group ks subid (if subid AND testmask \<noteq> 0 then (testmask, int (7 * k)) else mask_bits))"

partial_function (option) emit_groups :: "u64 \<Rightarrow> u64 \<Rightarrow> int \<Rightarrow> out \<Rightarrow> out option" where
  "emit_groups subid m bits bp = (
     if m = 0x7F then put (ucast (subid AND m)) bp
     else (let m = (if m = 0x1E00000 then 0xFE00000 else m) in
       case put (ucast (drop_bit (nat bits) (subid AND m)) OR ASN_BIT8) bp of
         None \<Rightarrow> None
       | Some bp \<Rightarrow> emit_groups subid (drop_bit 7 m) (bits - 7) bp))"

declare emit_groups.simps [code]

definition asn_build_subid :: "u64 \<Rightarrow> out \<Rightarrow> out option" where
  "asn_build_subid subid bp = (
     if subid < 127 then put (ucast subid) bp
     else (case top_group [0..<10] subid (0x7F, 0) of (m, bits) \<Rightarrow> emit_groups subid m bits bp))"

primrec build_subids :: "u64 list \<Rightarrow> out \<Rightarrow> out option" where
  "build_subids [] bp = Some bp"
| "build_subids (x # xs) bp =
     (case asn_build_subid x bp of None \<Rightarrow> None | Some bp \<Rightarrow> build_subids xs bp)"

text \<open>The content octets, built in the local buffer of \<open>MAX_OID_LEN * 5\<close> bytes.  Reading more sub identifiers
  than the array has is \<open>None\<close>.\<close>

definition objid_content :: "u64 list \<Rightarrow> int \<Rightarrow> u8 list option" where
  "objid_content objid objidlength = (
     let objidlength = min objidlength MAX_OID_LEN; bp = (replicate 640 0, 0) in
     map_option (\<lambda>(buf, pos). take pos buf)
       (if objidlength < 2 then put 0 bp
        else if int (length objid) < objidlength then None
        else build_subids ((objid ! 1 + objid ! 0 * 40) # drop 2 (take (nat objidlength) objid)) bp))"

definition asn_build_objid :: "out \<Rightarrow> int \<Rightarrow> u8 \<Rightarrow> u64 list \<Rightarrow> int \<Rightarrow> (out \<times> int) asn" where
  "asn_build_objid out datalength type objid objidlength = (
     case objid_content objid objidlength of None \<Rightarrow> None
     | Some content \<Rightarrow>
         on_ok (asn_build_header out datalength type (int (length content))) (\<lambda>(out, datalength).
           if datalength < int (length content) then Some (Inl Buffer_Full)
           else emit content out datalength))"

end
