(* ===== verification/Snmp_Message.thy ===== *)
theory Snmp_Message
  imports Snmp_Asn1
begin

section \<open>SNMP messages\<close>

text \<open>
  The second half of \<^verbatim>\<open>src/snmp++/src/asn1.cpp\<close>: variable bindings, PDUs, the community based message and
  the header data and scoped PDU of version 3, built from and parsed into the structs of \<^verbatim>\<open>asn1.h\<close>.  The
  list of variable bindings, linked by \<^verbatim>\<open>next_variable\<close>, is a list; an array with its length is a list.  A
  value that the code leaves uninitialised is \<open>Garbage\<close>.  Reading the value of a binding as the wrong
  member of the union is \<open>None\<close>.
\<close>

datatype vb_value = Int_val u64 | Str_val "u8 list" | Oid_val "u64 list" | Ctr_val counter64 |
  No_val | Garbage

record variable_list =
  vb_name :: "u64 list"
  vb_type :: u8
  vb_val :: vb_value
  vb_val_len :: int

record snmp_pdu =
  command :: int
  reqid :: u64
  errstat :: u64
  errindex :: u64
  enterprise :: "u64 list"
  agent_addr :: "u8 list"
  trap_type :: int
  specific_type :: int
  pdu_time :: u64
  variables :: "variable_list list"

definition ASN_INTEGER :: u8 where "ASN_INTEGER = 0x02"
definition ASN_BIT_STR :: u8 where "ASN_BIT_STR = 0x03"
definition ASN_OCTET_STR :: u8 where "ASN_OCTET_STR = 0x04"
definition ASN_NULL :: u8 where "ASN_NULL = 0x05"
definition ASN_OBJECT_ID :: u8 where "ASN_OBJECT_ID = 0x06"
definition ASN_SEQ_CON :: u8 where "ASN_SEQ_CON = 0x30"
definition SMI_IPADDRESS :: u8 where "SMI_IPADDRESS = 0x40"
definition SMI_COUNTER :: u8 where "SMI_COUNTER = 0x41"
definition SMI_GAUGE :: u8 where "SMI_GAUGE = 0x42"
definition SMI_TIMETICKS :: u8 where "SMI_TIMETICKS = 0x43"
definition SMI_OPAQUE :: u8 where "SMI_OPAQUE = 0x44"
definition SMI_NSAP :: u8 where "SMI_NSAP = 0x45"
definition SMI_COUNTER64 :: u8 where "SMI_COUNTER64 = 0x46"
definition SMI_UINTEGER :: u8 where "SMI_UINTEGER = 0x47"
definition SNMP_NOSUCHOBJECT :: u8 where "SNMP_NOSUCHOBJECT = 0x80"
definition SNMP_NOSUCHINSTANCE :: u8 where "SNMP_NOSUCHINSTANCE = 0x81"
definition SNMP_ENDOFMIBVIEW :: u8 where "SNMP_ENDOFMIBVIEW = 0x82"
definition TRP_REQ_MSG :: int where "TRP_REQ_MSG = 0xA4"
definition ASN_MAX_NAME_LEN :: int where "ASN_MAX_NAME_LEN = 128"
definition MAX_SNMP_PACKET :: nat where "MAX_SNMP_PACKET = 4096"
definition MAXLENGTH_GLOBALDATA :: nat where "MAXLENGTH_GLOBALDATA = 42"
definition SNMP_VERSION_1 :: u64 where "SNMP_VERSION_1 = 0"
definition SNMP_VERSION_2C :: u64 where "SNMP_VERSION_2C = 1"
definition SNMP_CLASS_BADVERSION :: int where "SNMP_CLASS_BADVERSION = - 50"
definition SNMP_CLASS_ASN1ERROR :: int where "SNMP_CLASS_ASN1ERROR = - 51"

lemmas message_consts = ASN_INTEGER_def ASN_BIT_STR_def ASN_OCTET_STR_def ASN_NULL_def ASN_OBJECT_ID_def
  ASN_SEQ_CON_def SMI_IPADDRESS_def SMI_COUNTER_def SMI_GAUGE_def SMI_TIMETICKS_def SMI_OPAQUE_def
  SMI_NSAP_def SMI_COUNTER64_def SMI_UINTEGER_def SNMP_NOSUCHOBJECT_def SNMP_NOSUCHINSTANCE_def
  SNMP_ENDOFMIBVIEW_def TRP_REQ_MSG_def ASN_MAX_NAME_LEN_def MAX_SNMP_PACKET_def

text \<open>A local \<^verbatim>\<open>Buffer<unsigned char> buffer(n)\<close> at its start; its first contents are never read.\<close>

definition local_buffer :: "nat \<Rightarrow> out" where
  "local_buffer n = (replicate n 0, 0)"

subsection \<open>PDUs in memory\<close>

definition snmp_pdu_create :: "int \<Rightarrow> snmp_pdu" where
  "snmp_pdu_create cmd = \<lparr>command = cmd, reqid = 0, errstat = 0, errindex = 0, enterprise = [],
     agent_addr = [0, 0, 0, 0], trap_type = 0, specific_type = 0, pdu_time = 0, variables = []\<rparr>"

text \<open>The code keeps \<open>enterprise_length\<close> when it does not clear all; here the empty list has no other length.\<close>

definition clear_pdu :: "snmp_pdu \<Rightarrow> bool \<Rightarrow> snmp_pdu" where
  "clear_pdu pdu clear_all = (
     let pdu = pdu\<lparr>variables := [], enterprise := []\<rparr> in
     if \<not> clear_all then pdu
     else pdu\<lparr>command := 0, reqid := 0, errstat := 0, errindex := 0, trap_type := 0, specific_type := 0,
              pdu_time := 0\<rparr>)"

datatype smi_value = Smi_number u64 | Smi_counter counter64 | Smi_string "u8 list" | Smi_oid "u64 list"

text \<open>\<open>snmp_add_var\<close> appends a binding; a syntax the switch does not know leaves type and value of the
  new struct uninitialised.\<close>

definition add_var_value :: "u8 \<Rightarrow> smi_value \<Rightarrow> (vb_value \<times> int) option" where
  "add_var_value syntax value = (
     if syntax \<in> {ASN_NULL, SNMP_NOSUCHOBJECT, SNMP_NOSUCHINSTANCE, SNMP_ENDOFMIBVIEW} then Some (No_val, 0)
     else if syntax \<in> {ASN_OCTET_STR, SMI_OPAQUE, SMI_IPADDRESS} then
       (case value of Smi_string s \<Rightarrow> Some (Str_val s, int (length s)) | _ \<Rightarrow> None)
     else if syntax = ASN_OBJECT_ID then
       (case value of Smi_oid ids \<Rightarrow> Some (Oid_val ids, 8 * int (length ids)) | _ \<Rightarrow> None)
     else if syntax \<in> {SMI_TIMETICKS, SMI_COUNTER, SMI_GAUGE, ASN_INTEGER} then
       (case value of Smi_number n \<Rightarrow> Some (Int_val n, 8) | _ \<Rightarrow> None)
     else if syntax = SMI_COUNTER64 then
       (case value of Smi_counter c \<Rightarrow> Some (Ctr_val c, 16) | _ \<Rightarrow> None)
     else None)"

definition snmp_add_var :: "snmp_pdu \<Rightarrow> u64 list \<Rightarrow> int \<Rightarrow> u64 \<Rightarrow> smi_value \<Rightarrow> snmp_pdu option" where
  "snmp_add_var pdu name name_length syntax value = (
     if name_length < 0 \<or> int (length name) < name_length \<or> syntax > 0xFF then None
     else map_option (\<lambda>(v, n). pdu\<lparr>variables := variables pdu @
              [\<lparr>vb_name = take (nat name_length) name, vb_type = ucast syntax, vb_val = v, vb_val_len = n\<rparr>]\<rparr>)
            (add_var_value (ucast syntax) value))"

subsection \<open>Building\<close>

definition snmp_auth_build :: "out \<Rightarrow> int \<Rightarrow> u64 \<Rightarrow> u8 list \<Rightarrow> int \<Rightarrow> int \<Rightarrow> (out \<times> int) asn" where
  "snmp_auth_build out l version community community_len messagelen =
     on_ok (asn_build_sequence out l ASN_SEQ_CON (messagelen + community_len + 5)) (\<lambda>(out, l).
     on_ok (asn_build_int out l ASN_INTEGER version) (\<lambda>(out, l).
     asn_build_string out l ASN_OCTET_STR community community_len))"

text \<open>The switch of \<open>snmp_build_var_op\<close> on the type of the value.\<close>

definition build_value :: "variable_list \<Rightarrow> out \<Rightarrow> int \<Rightarrow> (out \<times> int) asn" where
  "build_value vb out l = (
     let t = vb_type vb; n = vb_val_len vb in
     if t = ASN_INTEGER then
       (if n \<noteq> 8 then Some (Inl Illegal_Size)
        else case vb_val vb of Int_val v \<Rightarrow> asn_build_int out l t v | _ \<Rightarrow> None)
     else if t \<in> {SMI_GAUGE, SMI_COUNTER, SMI_TIMETICKS, SMI_UINTEGER} then
       (if n \<noteq> 8 then Some (Inl Illegal_Size)
        else case vb_val vb of Int_val v \<Rightarrow> asn_build_unsigned_int out l t v | _ \<Rightarrow> None)
     else if t = SMI_COUNTER64 then
       (if n \<noteq> 16 then Some (Inl Illegal_Size)
        else case vb_val vb of Ctr_val c \<Rightarrow> asn_build_unsigned_int64 out l t c | _ \<Rightarrow> None)
     else if t \<in> {ASN_OCTET_STR, SMI_IPADDRESS, SMI_OPAQUE, SMI_NSAP} then
       (case vb_val vb of Str_val s \<Rightarrow> asn_build_string out l t s n | _ \<Rightarrow> None)
     else if t = ASN_OBJECT_ID then
       (case vb_val vb of Oid_val ids \<Rightarrow> asn_build_objid out l t ids (to_int (ulong n div 8)) | _ \<Rightarrow> None)
     else if t = ASN_BIT_STR then
       (case vb_val vb of Str_val s \<Rightarrow> asn_build_bitstring out l t s n | _ \<Rightarrow> None)
     else if t \<in> {ASN_NULL, SNMP_NOSUCHOBJECT, SNMP_NOSUCHINSTANCE, SNMP_ENDOFMIBVIEW} then
       asn_build_null out l t
     else Some (Inl Wrong_Type))"

definition snmp_build_var_op :: "variable_list \<Rightarrow> out \<Rightarrow> int \<Rightarrow> (out \<times> int) asn" where
  "snmp_build_var_op vb data listlength =
     on_ok (asn_build_objid (local_buffer MAX_SNMP_PACKET) (int MAX_SNMP_PACKET) ASN_OBJECT_ID
              (vb_name vb) (int (length (vb_name vb)))) (\<lambda>(buffer, l).
     on_ok (build_value vb buffer l) (\<lambda>((buf, valueLen), l).
     on_ok (asn_build_sequence data listlength ASN_SEQ_CON (int valueLen)) (\<lambda>(data, listlength).
       if listlength < int valueLen then Some (Inl Buffer_Full)
       else emit (take valueLen buf) data listlength)))"

primrec build_vars :: "variable_list list \<Rightarrow> out \<Rightarrow> int \<Rightarrow> (out \<times> int) asn" where
  "build_vars [] cp l = Some (Inr (cp, l))"
| "build_vars (vb # vbs) cp l = on_ok (snmp_build_var_op vb cp l) (\<lambda>(cp, l). build_vars vbs cp l)"

text \<open>\<open>memcpy\<close> without a check of the remaining length.\<close>

definition copy_in :: "u8 list \<Rightarrow> out \<Rightarrow> out asn" where
  "copy_in bs out = map_option Inr (put_all bs out)"

definition build_vb :: "snmp_pdu \<Rightarrow> out \<Rightarrow> int \<Rightarrow> out asn" where
  "build_vb pdu buf buf_len =
     on_ok (build_vars (variables pdu) (local_buffer MAX_SNMP_PACKET) (int MAX_SNMP_PACKET))
       (\<lambda>((tmp_buf, vb_length), l).
     let buf_len = buf_len - int vb_length in
     if buf_len \<le> 0 then Some (Inl Buffer_Full)
     else on_ok (asn_build_header buf buf_len ASN_SEQ_CON (int vb_length)) (\<lambda>(cp, buf_len).
       copy_in (take vb_length tmp_buf) cp))"

text \<open>The fields of a PDU before the variable bindings.\<close>

definition build_pdu_fields :: "snmp_pdu \<Rightarrow> out \<Rightarrow> int \<Rightarrow> (out \<times> int) asn" where
  "build_pdu_fields pdu cp l = (
     if command pdu \<noteq> TRP_REQ_MSG then
       on_ok (asn_build_int cp l ASN_INTEGER (reqid pdu)) (\<lambda>(cp, l).
       on_ok (asn_build_int cp l ASN_INTEGER (errstat pdu)) (\<lambda>(cp, l).
       asn_build_int cp l ASN_INTEGER (errindex pdu)))
     else
       on_ok (asn_build_objid cp l ASN_OBJECT_ID (enterprise pdu) (int (length (enterprise pdu)))) (\<lambda>(cp, l).
       on_ok (asn_build_string cp l SMI_IPADDRESS (agent_addr pdu) 4) (\<lambda>(cp, l).
       on_ok (asn_build_int cp l ASN_INTEGER (word_of_int (trap_type pdu))) (\<lambda>(cp, l).
       on_ok (asn_build_int cp l ASN_INTEGER (word_of_int (specific_type pdu))) (\<lambda>(cp, l).
       asn_build_unsigned_int cp l SMI_TIMETICKS (pdu_time pdu))))))"

definition build_data_pdu :: "snmp_pdu \<Rightarrow> out \<Rightarrow> int \<Rightarrow> u8 list \<Rightarrow> out asn" where
  "build_data_pdu pdu buf buf_len vb_buf =
     on_ok (build_pdu_fields pdu (local_buffer MAX_SNMP_PACKET) (int MAX_SNMP_PACKET)) (\<lambda>((tmp_buf, vb_rel_pos), l).
     if l < int (length vb_buf) then Some (Inl Buffer_Full)
     else
       let totallength = vb_rel_pos + length vb_buf in
       on_ok (asn_build_header buf buf_len (word_of_int (command pdu)) (int totallength)) (\<lambda>(cp, buf_len).
         if buf_len < int totallength then Some (Inl Buffer_Full)
         else copy_in (take vb_rel_pos tmp_buf @ vb_buf) cp))"

text \<open>\<open>snmp_build\<close> writes the variable bindings into the caller's packet, copies them behind the fields
  of the PDU in a local buffer, and writes the whole message into the packet.\<close>

definition snmp_build :: "snmp_pdu \<Rightarrow> u8 list \<Rightarrow> int \<Rightarrow> u64 \<Rightarrow> u8 list \<Rightarrow> int \<Rightarrow> (u8 list \<times> int) asn" where
  "snmp_build pdu packet out_length version community community_len =
     on_ok (build_vb pdu (packet, 0) out_length) (\<lambda>(packet, vb_total).
     if int vb_total \<ge> out_length then Some (Inl Buffer_Full)
     else on_ok (build_data_pdu pdu (local_buffer MAX_SNMP_PACKET) (int MAX_SNMP_PACKET) (take vb_total packet))
       (\<lambda>(buf, totallength).
     if int totallength \<ge> out_length then Some (Inl Buffer_Full)
     else on_ok (snmp_auth_build (packet, 0) out_length version community community_len (int totallength))
       (\<lambda>((packet, pos), l).
     if out_length - int pos < int totallength then Some (Inl Buffer_Full)
     else on_ok (copy_in (take totallength buf) (packet, pos)) (\<lambda>(packet, pos). Some (Inr (packet, int pos))))))"

subsection \<open>Parsing\<close>

definition snmp_auth_parse :: "u8 list \<Rightarrow> int \<Rightarrow> int \<Rightarrow> (u8 list \<times> int \<times> u8 list \<times> u64) asn" where
  "snmp_auth_parse data l community_len =
     on_ok (asn_parse_header data l) (\<lambda>(data, l, type).
     if type \<noteq> ASN_SEQ_CON then Some (Inl Wrong_Type)
     else on_ok (asn_parse_int data l) (\<lambda>(data, l, type, version).
     on_ok (asn_parse_string data l community_len) (\<lambda>(data, l, type, community).
     Some (Inr (data, l, community, version)))))"

text \<open>The result holds the name, the type and the length of the value and the pointer to its encoding.\<close>

definition snmp_parse_var_op ::
  "u8 list \<Rightarrow> int \<Rightarrow> int \<Rightarrow> (u8 list \<times> int \<times> u64 list \<times> u8 \<times> int \<times> u8 list) asn" where
  "snmp_parse_var_op data listlength var_name_len = (
     let var_op_start = data in
     on_ok (asn_parse_header data listlength) (\<lambda>(data, var_op_len, var_op_type).
     if var_op_type \<noteq> ASN_SEQ_CON then Some (Inl Wrong_Type)
     else on_ok (asn_parse_objid data var_op_len var_name_len) (\<lambda>(data, var_op_len, var_op_type, var_name).
     if var_op_type \<noteq> ASN_OBJECT_ID then Some (Inl Wrong_Type)
     else
       let var_val = data in
       on_ok (asn_parse_header data var_op_len) (\<lambda>(data, var_op_len, var_val_type).
       if ulong var_op_len + of_nat (length var_op_start - length data) > ulong listlength
       then Some (Inl Message_Overflow)
       else if var_op_len < 0 \<or> int (length data) < var_op_len then None
       else
         let data = drop (nat var_op_len) data in
         Some (Inr (data, listlength - int (length var_op_start - length data), var_name,
                    var_val_type, var_op_len, var_val))))))"

text \<open>The value of a binding; the code ignores that the parser of the value fails.  The length of an identifier
  whose parser fails inside the content is what is left of the array; here it is the whole array.\<close>

definition or_garbage :: "'a asn \<Rightarrow> ('a \<Rightarrow> vb_value \<times> int) \<Rightarrow> int \<Rightarrow> (vb_value \<times> int) asn" where
  "or_garbage r f n = (case r of None \<Rightarrow> None | Some (Inl e) \<Rightarrow> Some (Inr (Garbage, n))
     | Some (Inr x) \<Rightarrow> Some (Inr (f x)))"

definition parse_value :: "u8 \<Rightarrow> int \<Rightarrow> u8 list \<Rightarrow> (vb_value \<times> int) asn" where
  "parse_value t val_len var_val = (
     let len = int MAX_SNMP_PACKET in
     if t = ASN_INTEGER then
       or_garbage (asn_parse_int var_val len) (\<lambda>(_, _, _, v). (Int_val v, 8)) 8
     else if t \<in> {SMI_COUNTER, SMI_GAUGE, SMI_TIMETICKS, SMI_UINTEGER} then
       or_garbage (asn_parse_unsigned_int var_val len) (\<lambda>(_, _, _, v). (Int_val v, 8)) 8
     else if t = SMI_COUNTER64 then
       or_garbage (asn_parse_unsigned_int64 var_val len) (\<lambda>(_, _, _, c). (Ctr_val c, 16)) 16
     else if t \<in> {ASN_OCTET_STR, SMI_IPADDRESS, SMI_OPAQUE, SMI_NSAP} then
       or_garbage (asn_parse_string var_val len val_len) (\<lambda>(_, _, _, s). (Str_val s, int (length s))) val_len
     else if t = ASN_OBJECT_ID then
       or_garbage (asn_parse_objid var_val len ASN_MAX_NAME_LEN)
         (\<lambda>(_, _, _, ids). (Oid_val ids, int (length ids))) ASN_MAX_NAME_LEN
     else if t \<in> {SNMP_NOSUCHOBJECT, SNMP_NOSUCHINSTANCE, SNMP_ENDOFMIBVIEW, ASN_NULL} then
       Some (Inr (No_val, val_len))
     else Some (Inl Wrong_Type))"

lemma parse_length_shorter:
  assumes "asn_parse_length data = Some (Inr (l, rest))"
  shows "length rest < length data"
  using assms by (auto simp: asn_parse_length_def Let_def split: list.splits if_splits)

lemma parse_header_shorter:
  assumes "asn_parse_header data l = Some (Inr (rest, l', type))"
  shows "length rest < length data"
  using assms parse_length_shorter
  by (fastforce simp: asn_parse_header_def Let_def split: list.splits if_splits elim!: on_ok_InrE)

lemma parse_subid_shorter: "parse_subid x data = Some (y, rest) \<Longrightarrow> length rest < length data"
  by (induction data arbitrary: x) (auto simp: Let_def intro: less_SucI split: if_splits)

lemma parse_subids_shorter: "parse_subids room l data = Some (Inr (xs, rest)) \<Longrightarrow> length rest \<le> length data"
proof (induction room arbitrary: l data xs)
  case (Suc room)
  then show ?case
    by (auto split: if_splits option.splits elim!: on_ok_InrE dest!: parse_subid_shorter) fastforce+
qed simp

lemma parse_objid_shorter:
  assumes "asn_parse_objid data l n = Some (Inr (rest, l', type, ids))"
  shows "length rest < length data"
proof -
  obtain t bufp where d: "data = t # bufp" using assms by (cases data) (simp_all add: asn_parse_objid_def)
  obtain k after xs where "asn_parse_length bufp = Some (Inr (k, after))"
    and "parse_subids (nat (n - 1)) (sint k) after = Some (Inr (xs, rest))"
    using assms by (auto simp: asn_parse_objid_def d Let_def split: if_splits list.splits elim!: on_ok_InrE)
  then show ?thesis using parse_length_shorter parse_subids_shorter by (fastforce simp: d)
qed

lemma parse_var_op_shorter:
  assumes "snmp_parse_var_op data l n = Some (Inr (rest, l', x))"
  shows "length rest < length data"
  using assms
  by (auto simp: snmp_parse_var_op_def Let_def split: if_splits elim!: on_ok_InrE
      dest!: parse_header_shorter parse_objid_shorter) arith

text \<open>The loop over the variable bindings; every round consumes a header.\<close>

function parse_vars :: "u8 list \<Rightarrow> int \<Rightarrow> (variable_list list \<times> u8 list \<times> int) asn" where
  "parse_vars data data_len = (
     if data_len \<le> 0 then Some (Inr ([], data, data_len))
     else on_ok (snmp_parse_var_op data data_len ASN_MAX_NAME_LEN)
       (\<lambda>(data, data_len, var_name, type, val_len, var_val).
          on_ok (parse_value type val_len var_val) (\<lambda>(v, n).
          on_ok (parse_vars data data_len) (\<lambda>(vbs, rest).
            Some (Inr (\<lparr>vb_name = var_name, vb_type = type, vb_val = v, vb_val_len = n\<rparr> # vbs, rest))))))"
  by pat_completeness auto
termination
  by (relation "measure (\<lambda>(data, data_len). length data)") (auto dest: parse_var_op_shorter)

declare parse_vars.simps [simp del]

text \<open>The loop with a count of its tests: \<open>None\<close> is a loop that has not ended after so many.\<close>

fun parse_rounds :: "nat \<Rightarrow> u8 list \<Rightarrow> int \<Rightarrow> (variable_list list \<times> u8 list \<times> int) asn option" where
  "parse_rounds 0 data data_len = None"
| "parse_rounds (Suc n) data data_len = (
     if data_len \<le> 0 then Some (Some (Inr ([], data, data_len)))
     else case snmp_parse_var_op data data_len ASN_MAX_NAME_LEN of
       None \<Rightarrow> Some None
     | Some (Inl e) \<Rightarrow> Some (Some (Inl e))
     | Some (Inr (data, data_len, var_name, type, val_len, var_val)) \<Rightarrow> (case parse_value type val_len var_val of
         None \<Rightarrow> Some None
       | Some (Inl e) \<Rightarrow> Some (Some (Inl e))
       | Some (Inr (v, m)) \<Rightarrow> map_option (\<lambda>r. on_ok r (\<lambda>(vbs, rest).
           Some (Inr (\<lparr>vb_name = var_name, vb_type = type, vb_val = v, vb_val_len = m\<rparr> # vbs, rest)))) (parse_rounds n data data_len)))"

definition snmp_parse_vb :: "snmp_pdu \<Rightarrow> u8 list \<Rightarrow> int \<Rightarrow> snmp_pdu asn" where
  "snmp_parse_vb pdu data data_len =
     on_ok (asn_parse_header data data_len) (\<lambda>(data, data_len, type).
     if type \<noteq> ASN_SEQ_CON then Some (Inl Wrong_Type)
     else on_ok (parse_vars data data_len) (\<lambda>(vbs, _). Some (Inr (pdu\<lparr>variables := vbs\<rparr>))))"

definition snmp_parse_data_pdu :: "snmp_pdu \<Rightarrow> u8 list \<Rightarrow> int \<Rightarrow> (snmp_pdu \<times> u8 list \<times> int) asn" where
  "snmp_parse_data_pdu pdu data l =
     on_ok (asn_parse_header data l) (\<lambda>(data, l, type).
     let pdu = pdu\<lparr>command := uint type\<rparr> in
     if command pdu \<noteq> TRP_REQ_MSG then
       on_ok (asn_parse_int data l) (\<lambda>(data, l, _, r).
       on_ok (asn_parse_int data l) (\<lambda>(data, l, _, st).
       on_ok (asn_parse_int data l) (\<lambda>(data, l, _, i).
       Some (Inr (pdu\<lparr>reqid := r, errstat := st, errindex := i\<rparr>, data, l)))))
     else
       on_ok (asn_parse_objid data l ASN_MAX_NAME_LEN) (\<lambda>(data, l, _, ids).
       on_ok (asn_parse_string data l 4) (\<lambda>(data, l, _, s).
       on_ok (asn_parse_int data l) (\<lambda>(data, l, _, g).
       on_ok (asn_parse_int data l) (\<lambda>(data, l, _, sp).
       on_ok (asn_parse_unsigned_int data l) (\<lambda>(data, l, _, tm).
       Some (Inr (pdu\<lparr>enterprise := ids, agent_addr := s @ drop (length s) (agent_addr pdu),
                     trap_type := to_int g, specific_type := to_int sp, pdu_time := tm\<rparr>, data, l))))))))"

text \<open>A parse error becomes the error class.\<close>

definition as_class :: "'a asn \<Rightarrow> (int + 'a) option" where
  "as_class r = map_option (map_sum (\<lambda>_. SNMP_CLASS_ASN1ERROR) id) r"

definition snmp_parse :: "snmp_pdu \<Rightarrow> u8 list \<Rightarrow> int \<Rightarrow> int \<Rightarrow> (int + snmp_pdu \<times> u8 list \<times> u64) option" where
  "snmp_parse pdu data data_length community_len =
     on_ok (as_class (snmp_auth_parse data data_length community_len)) (\<lambda>(data, data_length, community, version).
     if version \<noteq> SNMP_VERSION_1 \<and> version \<noteq> SNMP_VERSION_2C then Some (Inl SNMP_CLASS_BADVERSION)
     else on_ok (as_class (snmp_parse_data_pdu pdu data data_length)) (\<lambda>(pdu, data, data_length).
     on_ok (as_class (snmp_parse_vb pdu data data_length)) (\<lambda>pdu.
     Some (Inr (pdu, community, version)))))"

subsection \<open>Header data and scoped PDU of version 3\<close>

definition asn1_parse_header_data :: "u8 list \<Rightarrow> int \<Rightarrow> (u8 list \<times> int \<times> u64 \<times> u64 \<times> u8 list \<times> u64) asn" where
  "asn1_parse_header_data buf buf_len = (
     let buf_ptr = buf in
     on_ok (asn_parse_header buf buf_len) (\<lambda>(buf, l, type).
     if type \<noteq> ASN_SEQ_CON then Some (Inl Wrong_Type)
     else on_ok (asn_parse_int buf l) (\<lambda>(buf, l, _, msg_id).
     on_ok (asn_parse_int buf l) (\<lambda>(buf, l, _, msg_max_size).
     on_ok (asn_parse_string buf l 1) (\<lambda>(buf, l, _, msg_flags).
     if length msg_flags \<noteq> 1 then Some (Inl Too_Long)
     else on_ok (asn_parse_int buf l) (\<lambda>(buf, l, _, msg_security_model).
     if l \<noteq> 0 then Some (Inl Message_Overflow)
     else Some (Inr (buf, buf_len - int (length buf_ptr - length buf), msg_id, msg_max_size, msg_flags,
            msg_security_model))))))))"

text \<open>The fields go into a local buffer of 42 bytes; the length that is checked is that of the output.\<close>

definition asn1_build_header_data :: "out \<Rightarrow> int \<Rightarrow> u64 \<Rightarrow> u64 \<Rightarrow> u8 \<Rightarrow> u64 \<Rightarrow> (out \<times> int) asn" where
  "asn1_build_header_data outBuf maxLength msgID maxMessageSize msgFlags securityModel =
     on_ok (asn_build_int (local_buffer MAXLENGTH_GLOBALDATA) maxLength ASN_INTEGER msgID) (\<lambda>(bufPtr, l).
     on_ok (asn_build_int bufPtr l ASN_INTEGER maxMessageSize) (\<lambda>(bufPtr, l).
     on_ok (asn_build_string bufPtr l ASN_OCTET_STR [msgFlags] 1) (\<lambda>(bufPtr, l).
     on_ok (asn_build_int bufPtr l ASN_INTEGER securityModel) (\<lambda>((buf, totalLength), l).
     on_ok (asn_build_sequence outBuf maxLength ASN_SEQ_CON (int totalLength)) (\<lambda>(outBufPtr, maxLength).
     if maxLength < int totalLength then Some (Inl Buffer_Full)
     else emit (take totalLength buf) outBufPtr maxLength)))))"

definition asn1_parse_scoped_pdu ::
  "u8 list \<Rightarrow> int \<Rightarrow> int \<Rightarrow> int \<Rightarrow> (u8 list \<times> int \<times> u8 list \<times> u8 list) asn" where
  "asn1_parse_scoped_pdu scoped_pdu scoped_pdu_len context_engine_id_len context_name_len =
     on_ok (asn_parse_header scoped_pdu scoped_pdu_len) (\<lambda>(scoped_pdu, scoped_pdu_len, type).
     if type \<noteq> ASN_SEQ_CON then Some (Inl Wrong_Type)
     else on_ok (asn_parse_string scoped_pdu scoped_pdu_len context_engine_id_len)
       (\<lambda>(scoped_pdu, scoped_pdu_len, _, context_engine_id).
     on_ok (asn_parse_string scoped_pdu scoped_pdu_len context_name_len)
       (\<lambda>(scoped_pdu, scoped_pdu_len, _, context_name).
     Some (Inr (scoped_pdu, scoped_pdu_len, context_engine_id, context_name)))))"

text \<open>The data is copied into the local buffer and into the output without a check of the room.\<close>

definition asn1_build_scoped_pdu ::
  "out \<Rightarrow> int \<Rightarrow> u8 list \<Rightarrow> int \<Rightarrow> u8 list \<Rightarrow> int \<Rightarrow> u8 list \<Rightarrow> (out \<times> int) asn" where
  "asn1_build_scoped_pdu outBuf max_len contextEngineID contextEngineIDLength contextName contextNameLength data =
     on_ok (asn_build_string (local_buffer MAX_SNMP_PACKET) max_len ASN_OCTET_STR contextEngineID contextEngineIDLength)
       (\<lambda>(bufPtr, max_len).
     on_ok (asn_build_string bufPtr max_len ASN_OCTET_STR contextName contextNameLength) (\<lambda>(bufPtr, max_len).
     on_ok (copy_in data bufPtr) (\<lambda>(buffer, bufLength).
     on_ok (asn_build_sequence outBuf max_len ASN_SEQ_CON (int bufLength)) (\<lambda>(outBufPtr, max_len).
     on_ok (copy_in (take bufLength buffer) outBufPtr) (\<lambda>outBufPtr.
     Some (Inr (outBufPtr, max_len)))))))"

end
