(* ===== verification/Snmp_Ber.thy ===== *)
theory Snmp_Ber
  imports Snmp_Asn1
begin

section \<open>The abstract encoding behind the BER primitives\<close>

text \<open>
  Every builder of \<open>Snmp_Asn1\<close> writes a type octet, the length of the content and the content, or it
  returns NULL because the room is too small; every parser gets the value back.  The locale
  \<open>ber_codec\<close> states this contract of a builder and its parser; the lemmas about composed messages are
  proved from it, and it is interpreted for each pair of primitives.
\<close>

subsection \<open>Written buffers\<close>

definition written :: "u8 list \<Rightarrow> nat \<Rightarrow> u8 list \<Rightarrow> u8 list" where
  "written buf pos bs = take pos buf @ bs @ drop (pos + length bs) buf"

lemma length_written [simp]:
  "pos + length bs \<le> length buf \<Longrightarrow> length (written buf pos bs) = length buf"
  by (simp add: written_def)

lemma written_Nil [simp]: "written buf pos [] = buf"
  by (simp add: written_def)

lemma written_append:
  "pos + length (bs @ cs) \<le> length buf \<Longrightarrow>
    written (written buf pos bs) (pos + length bs) cs = written buf pos (bs @ cs)"
  by (simp add: written_def ac_simps)

lemma drop_written:
  "pos + length bs \<le> length buf \<Longrightarrow> drop pos (written buf pos bs) = bs @ drop (pos + length bs) buf"
  by (simp add: written_def)

lemma drop_written_end:
  "pos + length bs \<le> length buf \<Longrightarrow>
    drop (pos + length bs) (written buf pos bs) = drop (pos + length bs) buf"
  by (simp add: written_def)

lemma take_written_end:
  "pos + length bs \<le> length buf \<Longrightarrow> take (pos + length bs) (written buf pos bs) = take pos buf @ bs"
  by (simp add: written_def)

lemma put_eq:
  "put b (buf, pos) = (if pos < length buf then Some (written buf pos [b], Suc pos) else None)"
  by (simp add: put_def written_def upd_conv_take_nth_drop)

lemma put_all_eq:
  "put_all bs (buf, pos) = (if bs = [] \<or> pos + length bs \<le> length buf
     then Some (written buf pos bs, pos + length bs) else None)"
proof (induction bs arbitrary: buf pos)
  case (Cons b bs)
  show ?case
  proof (cases "pos < length buf")
    case True
    then have "length (written buf pos [b]) = length buf" by simp
    then show ?thesis using True Cons.IH [of "written buf pos [b]" "Suc pos"]
        written_append [of pos "[b]" bs buf] by (auto simp: put_eq)
  qed (simp add: put_eq)
qed simp

lemma emit_eq:
  assumes "pos + length bs \<le> length buf"
  shows "emit bs (buf, pos) datalength =
    Some (Inr ((written buf pos bs, pos + length bs), datalength - int (length bs)))"
  using assms by (auto simp: emit_def put_all_eq)

subsection \<open>The contract of builders and parsers\<close>

text \<open>With room for the bytes they are written; a datalength that is too small for them, and not larger than
  the buffer, gives NULL.\<close>

definition builds :: "(out \<Rightarrow> int \<Rightarrow> (out \<times> int) asn) \<Rightarrow> u8 list \<Rightarrow> bool" where
  "builds build bs \<longleftrightarrow> (\<forall>buf pos datalength.
     (pos + length bs \<le> length buf \<and> int (length bs) \<le> datalength \<longrightarrow>
        build (buf, pos) datalength =
          Some (Inr ((written buf pos bs, pos + length bs), datalength - int (length bs)))) \<and>
     (datalength \<le> int (length buf) - int pos \<and> datalength < int (length bs) \<longrightarrow>
        build (buf, pos) datalength = Some (Inl Buffer_Full)))"

definition parses :: "(u8 list \<Rightarrow> int \<Rightarrow> (u8 list \<times> int \<times> 'r) asn) \<Rightarrow> u8 list \<Rightarrow> 'r \<Rightarrow> bool" where
  "parses parse bs r \<longleftrightarrow> (\<forall>rest datalength. int (length bs) \<le> datalength \<longrightarrow> datalength < 2 ^ 31 \<longrightarrow>
     parse (bs @ rest) datalength = Some (Inr (rest, datalength - int (length bs), r)))"

lemma buildsI:
  assumes "\<And>buf pos datalength. pos + length bs \<le> length buf \<Longrightarrow> int (length bs) \<le> datalength \<Longrightarrow>
      build (buf, pos) datalength =
        Some (Inr ((written buf pos bs, pos + length bs), datalength - int (length bs)))"
    and "\<And>buf pos datalength. datalength \<le> int (length buf) - int pos \<Longrightarrow> datalength < int (length bs) \<Longrightarrow>
      build (buf, pos) datalength = Some (Inl Buffer_Full)"
  shows "builds build bs"
  using assms by (simp add: builds_def)

lemma builds_fit:
  assumes "builds build bs" and "pos + length bs \<le> length buf" and "int (length bs) \<le> datalength"
  shows "build (buf, pos) datalength =
    Some (Inr ((written buf pos bs, pos + length bs), datalength - int (length bs)))"
  using assms by (simp add: builds_def)

lemma builds_full:
  assumes "builds build bs" and "datalength \<le> int (length buf) - int pos" and "datalength < int (length bs)"
  shows "build (buf, pos) datalength = Some (Inl Buffer_Full)"
  using assms by (simp add: builds_def)

lemma builds_cases:
  assumes "builds build bs" and "datalength \<le> int (length buf) - int pos"
    and "build (buf, pos) datalength = Some (Inr ((buf', pos'), datalength'))"
  shows "int (length bs) \<le> datalength" and "buf' = written buf pos bs" and "pos' = pos + length bs"
    and "datalength' = datalength - int (length bs)" and "pos + length bs \<le> length buf"
proof -
  show fit: "int (length bs) \<le> datalength" using builds_full [OF assms(1, 2)] assms(3) by fastforce
  then show p: "pos + length bs \<le> length buf" using assms(2) by linarith
  show "buf' = written buf pos bs" "pos' = pos + length bs" "datalength' = datalength - int (length bs)"
    using builds_fit [OF assms(1) p fit] assms(3) by simp_all
qed

lemma parsesD:
  assumes "parses parse bs r" and "int (length bs) \<le> datalength" and "datalength < 2 ^ 31"
  shows "parse (bs @ rest) datalength = Some (Inr (rest, datalength - int (length bs), r))"
  using assms by (simp add: parses_def)

lemma builds_then:
  assumes "builds build bs" and "builds build' cs"
  shows "builds (\<lambda>out d. on_ok (build out d) (\<lambda>(out, d). build' out d)) (bs @ cs)"
proof (rule buildsI)
  fix buf :: "u8 list" and pos d
  assume p: "pos + length (bs @ cs) \<le> length buf" and fit: "int (length (bs @ cs)) \<le> d"
  then have "build' (written buf pos bs, pos + length bs) (d - int (length bs)) =
      Some (Inr ((written (written buf pos bs) (pos + length bs) cs, pos + length bs + length cs),
        d - int (length bs) - int (length cs)))"
    by (intro builds_fit [OF assms(2)]) auto
  moreover have "build (buf, pos) d = Some (Inr ((written buf pos bs, pos + length bs), d - int (length bs)))"
    using p fit by (intro builds_fit [OF assms(1)]) auto
  ultimately show "on_ok (build (buf, pos) d) (\<lambda>(out, d). build' out d) =
      Some (Inr ((written buf pos (bs @ cs), pos + length (bs @ cs)), d - int (length (bs @ cs))))"
    using written_append [OF p] by (simp add: add.assoc)
next
  fix buf :: "u8 list" and pos d
  assume room: "d \<le> int (length buf) - int pos" and full: "d < int (length (bs @ cs))"
  show "on_ok (build (buf, pos) d) (\<lambda>(out, d). build' out d) = Some (Inl Buffer_Full)"
  proof (cases "int (length bs) \<le> d")
    case True
    then have p: "pos + length bs \<le> length buf" using room by linarith
    then have "build' (written buf pos bs, pos + length bs) (d - int (length bs)) = Some (Inl Buffer_Full)"
      using room full by (intro builds_full [OF assms(2)]) auto
    then show ?thesis using builds_fit [OF assms(1) p True] by simp
  next
    case False
    then show ?thesis using builds_full [OF assms(1) room] by simp
  qed
qed

locale ber_codec =
  fixes build :: "out \<Rightarrow> int \<Rightarrow> 'v \<Rightarrow> (out \<times> int) asn"
    and parse :: "u8 list \<Rightarrow> int \<Rightarrow> (u8 list \<times> int \<times> 'r) asn"
    and bytes :: "'v \<Rightarrow> u8 list"
    and shown :: "'v \<Rightarrow> 'r"
    and valid :: "'v \<Rightarrow> bool"
  assumes build_bytes: "valid v \<Longrightarrow> builds (\<lambda>out d. build out d v) (bytes v)"
    and parse_bytes: "valid v \<Longrightarrow> parses parse (bytes v) (shown v)"
begin

lemma roundtrip:
  assumes "valid v" and "datalength \<le> int (length buf) - int pos" and "datalength < 2 ^ 31"
    and "build (buf, pos) datalength v = Some (Inr ((buf', pos'), datalength'))"
  shows "parse (drop pos buf') datalength = Some (Inr (drop pos' buf', datalength', shown v))"
proof -
  note * = builds_cases [OF build_bytes [OF assms(1)] assms(2, 4)]
  show ?thesis using parsesD [OF parse_bytes [OF assms(1)] *(1) assms(3)] *
    by (simp add: drop_written drop_written_end)
qed

lemma stays_in_bounds:
  assumes "valid v" and "datalength \<le> int (length buf) - int pos"
    and "build (buf, pos) datalength v = Some (Inr ((buf', pos'), datalength'))"
  shows "length buf' = length buf" and "take pos buf' = take pos buf"
    and "drop pos' buf' = drop pos' buf" and "datalength' = datalength - int (pos' - pos)" and "0 \<le> datalength'"
  using builds_cases [OF build_bytes [OF assms(1)] assms(2, 3)]
  by (auto simp: drop_written_end written_def)

lemma no_fault:
  assumes "valid v" and "datalength \<le> int (length buf) - int pos"
  shows "build (buf, pos) datalength v \<noteq> None"
  using builds_fit [OF build_bytes [OF assms(1)]] builds_full [OF build_bytes [OF assms(1)] assms(2)] assms(2)
  by (cases "int (length (bytes v)) \<le> datalength") auto

end

subsection \<open>Numbers in base 256\<close>

definition be_val :: "u8 list \<Rightarrow> nat" where
  "be_val bs = foldl (\<lambda>v b. v * 256 + unat b) 0 bs"

lemma be_val_simps [simp]:
  "be_val [] = 0"
  "be_val (bs @ [b]) = be_val bs * 256 + unat b"
  by (simp_all add: be_val_def)

lemma be_val_less: "be_val bs < 256 ^ length bs"
proof (induction bs rule: rev_induct)
  case (snoc b bs)
  have "unat b < 256" using unsigned_less [of b] by simp
  moreover have "(be_val bs + 1) * 256 \<le> 256 ^ length bs * 256" using snoc by simp
  ultimately show ?case by (simp add: algebra_simps)
qed simp

lemma be_val_zero: "be_val (0 # bs) = be_val bs"
  by (simp add: be_val_def)

lemma foldl_push_add:
  "foldl (\<lambda>v b. push_bit 8 v + ucast b) (0 :: u64) bs = of_nat (be_val bs)"
  by (induction bs rule: rev_induct) (simp_all add: push_bit_eq_mult ac_simps)

lemma push_bit_or_ucast: "push_bit 8 v OR ucast (b :: u8) = push_bit 8 v + (ucast b :: u64)"
  by (intro disjunctive_add [symmetric] bit_word_eqI)
    (auto simp: bit_push_bit_iff bit_and_iff bit_ucast_iff dest: bit_imp_le_length)

lemma foldl_push_or:
  "foldl (\<lambda>v b. push_bit 8 v OR ucast b) (0 :: u64) bs = of_nat (be_val bs)"
  using foldl_push_add [of bs] by (simp add: push_bit_or_ucast)

lemma unat_of_nat8: "unat (of_nat n :: u8) = n mod 256"
  by (simp add: unsigned_of_nat take_bit_eq_mod)

lemma div_step: "n div (256 ^ k * 256) * 256 + n div 256 ^ k mod 256 = (n :: nat) div 256 ^ k"
  by (simp add: div_mult2_eq)

text \<open>The \<open>k\<close> low octets of a number, most significant first.\<close>

primrec octets :: "nat \<Rightarrow> nat \<Rightarrow> u8 list" where
  "octets 0 n = []"
| "octets (Suc k) n = of_nat (n div 256 ^ k) # octets k n"

lemma length_octets [simp]: "length (octets k n) = k"
  by (induction k) simp_all

lemma foldl_octets: "foldl (\<lambda>v b. v * 256 + unat b) a (octets k n) = a * 256 ^ k + n mod 256 ^ k"
proof (induction k arbitrary: a)
  case (Suc k)
  have "n mod 256 ^ Suc k = n div 256 ^ k mod 256 * 256 ^ k + n mod 256 ^ k"
    by (metis add.commute mod_mult2_eq mult.commute power_Suc)
  moreover have "foldl (\<lambda>v b. v * 256 + unat b) a (octets (Suc k) n) =
      (a * 256 + n div 256 ^ k mod 256) * 256 ^ k + n mod 256 ^ k"
    by (simp add: Suc unat_of_nat8)
  ultimately show ?case by (simp add: algebra_simps)
qed simp

lemma be_val_octets: "be_val (octets k n) = n mod 256 ^ k"
  by (simp add: be_val_def foldl_octets)

subsection \<open>The length field\<close>

definition ber_len :: "nat \<Rightarrow> u8 list" where
  "ber_len n = (if n < 0x80 then [of_nat n]
     else if n \<le> 0xFF then 0x81 # octets 1 n
     else if n \<le> 0xFFFF then 0x82 # octets 2 n
     else if n \<le> 0xFFFFFF then 0x83 # octets 3 n
     else 0x84 # octets 4 n)"

lemma length_ber_len: "1 \<le> length (ber_len n)" "length (ber_len n) \<le> 5"
  by (simp_all add: ber_len_def)

lemma octet_of_int:
  "word_of_int (drop_bit k (int n) AND 0xFF) = (of_nat (n div 2 ^ k) :: u8)"
  "word_of_int (int n AND 0xFF) = (of_nat n :: u8)"
proof -
  have *: "word_of_int (i AND 0xFF) = (word_of_int i :: u8)" for i
    using take_bit_eq_mask [of 8 i]
    by (simp add: word_of_int_eq_iff mask_eq_exp_minus_1 flip: take_bit_eq_mask)
  have "drop_bit k (int n) = int (n div 2 ^ k)" by (simp add: drop_bit_eq_div zdiv_int)
  then show "word_of_int (drop_bit k (int n) AND 0xFF) = (of_nat (n div 2 ^ k) :: u8)"
    by (simp only: * of_int_of_nat_eq)
  show "word_of_int (int n AND 0xFF) = (of_nat n :: u8)"
    by (simp only: *) simp
qed

lemma long_len_codes: "(0x01 :: u8) OR ASN_LONG_LEN = 0x81" "(0x02 :: u8) OR ASN_LONG_LEN = 0x82"
    "(0x03 :: u8) OR ASN_LONG_LEN = 0x83" "(0x04 :: u8) OR ASN_LONG_LEN = 0x84"
  by (simp_all add: ASN_LONG_LEN_def)

lemma octets_simps:
  "octets 1 n = [of_nat n]"
  "octets 2 n = [of_nat (n div 2 ^ 8), of_nat n]"
  "octets 3 n = [of_nat (n div 2 ^ 16), of_nat (n div 2 ^ 8), of_nat n]"
  "octets 4 n = [of_nat (n div 2 ^ 24), of_nat (n div 2 ^ 16), of_nat (n div 2 ^ 8), of_nat n]"
proof -
  have s: "octets (Suc k) n = of_nat (n div 2 ^ (8 * k)) # octets k n" for k
    by (simp add: power_mult)
  have n: "4 = Suc (Suc (Suc (Suc 0)))" "3 = Suc (Suc (Suc 0))" "2 = Suc (Suc 0)" "1 = Suc 0" by simp_all
  show "octets 1 n = [of_nat n]" by simp
  show "octets 2 n = [of_nat (n div 2 ^ 8), of_nat n]"
    by (subst n(3)) (simp only: s, simp)
  show "octets 3 n = [of_nat (n div 2 ^ 16), of_nat (n div 2 ^ 8), of_nat n]"
    by (subst n(2)) (simp only: s, simp)
  show "octets 4 n = [of_nat (n div 2 ^ 24), of_nat (n div 2 ^ 16), of_nat (n div 2 ^ 8), of_nat n]"
    by (subst n(1)) (simp only: s, simp)
qed

lemma builds_guard:
  assumes "build = (\<lambda>out d. if d < int (length bs) then Some (Inl Buffer_Full) else emit bs out d)"
  shows "builds build bs"
  by (rule buildsI) (simp_all add: assms emit_eq)

lemma builds_length: "builds (\<lambda>out d. asn_build_length out d (int n)) (ber_len n)"
  by (rule builds_guard)
    (simp add: asn_build_length_def ber_len_def octets_simps octet_of_int long_len_codes fun_eq_iff
      del: One_nat_def)

lemma high_bit: "(b :: u8) AND 0x80 = 0 \<longleftrightarrow> \<not> bit b 7"
  using and_exp_eq_0_iff_not_bit [of b 7] by simp

lemma parse_length:
  assumes "n < 2 ^ 31"
  shows "asn_parse_length (ber_len n @ rest) = Some (Inr (of_nat n, rest))"
proof (cases "n < 0x80")
  case True
  then have "(of_nat n :: u8) AND ASN_LONG_LEN = 0"
    by (simp only: ASN_LONG_LEN_def high_bit bit_of_nat_iff) (simp add: bit_iff_odd)
  moreover have "ucast (of_nat n :: u8) = (of_nat n :: u64)"
    using True by (simp add: word_unat_eq_iff unsigned_ucast_eq unsigned_of_nat take_bit_eq_mod)
  ultimately show ?thesis using True by (simp add: asn_parse_length_def ber_len_def)
next
  case False
  obtain k where k: "ber_len n = (0x80 + of_nat k) # octets k n" "k \<in> {1, 2, 3, 4}" "n < 256 ^ k"
    by (rule that [of "if n \<le> 0xFF then 1 else if n \<le> 0xFFFF then 2 else if n \<le> 0xFFFFFF then 3 else 4"])
      (use False assms in \<open>simp_all add: ber_len_def\<close>)
  have l: "foldl (\<lambda>l b. push_bit 8 l + ucast b) (0 :: u64) (octets k n) = of_nat n"
    using k(3) by (simp add: foldl_push_add be_val_octets)
  have "\<not> (of_nat n :: u64) > 0x80000000"
    using assms by (simp add: word_less_nat_alt unat_of_nat take_bit_nat_eq_self)
  moreover have "(0x80 + of_nat k :: u8) AND ASN_LONG_LEN \<noteq> 0"
    "unat ((0x80 + of_nat k :: u8) AND NOT ASN_LONG_LEN) = k"
    using k(2) by (auto simp: ASN_LONG_LEN_def)
  moreover have "0 < k" "k \<le> 4" using k(2) by auto
  ultimately show ?thesis using l by (simp add: asn_parse_length_def k(1) Let_def)
qed

subsection \<open>Objects: type, length, content\<close>

definition ber_obj :: "u8 \<Rightarrow> u8 list \<Rightarrow> u8 list" where
  "ber_obj type content = type # ber_len (length content) @ content"

lemma length_ber_obj: "length (ber_obj type content) = 1 + length (ber_len (length content)) + length content"
  by (simp add: ber_obj_def)

lemma builds_emit_type: "builds (\<lambda>out d. if d < 1 then Some (Inl Buffer_Full) else emit [type] out d) [type]"
  by (rule builds_guard) simp

lemma builds_header: "builds (\<lambda>out d. asn_build_header out d type (int n)) (type # ber_len n)"
proof -
  have *: "(\<lambda>out d. asn_build_header out d type (int n)) = (\<lambda>out d.
      on_ok (if d < 1 then Some (Inl Buffer_Full) else emit [type] out d)
        (\<lambda>(out, d). asn_build_length out d (int n)))"
    by (simp add: asn_build_header_def fun_eq_iff)
  show ?thesis using builds_then [OF builds_emit_type builds_length, of type n] by (simp add: *)
qed

lemma builds_sequence: "builds (\<lambda>out d. asn_build_sequence out d type (int n)) (type # ber_len n)"
proof (rule buildsI)
  fix buf :: "u8 list" and pos d
  assume p: "pos + length (type # ber_len n) \<le> length buf" and fit: "int (length (type # ber_len n)) \<le> d"
  then have "asn_build_sequence (buf, pos) d type (int n) = asn_build_header (buf, pos) d type (int n)"
    using length_ber_len(1) [of n] by (simp add: asn_build_sequence_def asn_build_header_def)
  then show "asn_build_sequence (buf, pos) d type (int n) = Some (Inr ((written buf pos (type # ber_len n),
      pos + length (type # ber_len n)), d - int (length (type # ber_len n))))"
    using builds_fit [OF builds_header p fit] by simp
next
  fix buf :: "u8 list" and pos d
  assume room: "d \<le> int (length buf) - int pos" and full: "d < int (length (type # ber_len n))"
  show "asn_build_sequence (buf, pos) d type (int n) = Some (Inl Buffer_Full)"
    using builds_full [OF builds_header room, of type n] full
    by (cases "d < 2") (simp_all add: asn_build_sequence_def asn_build_header_def)
qed

lemma builds_object:
  assumes "n = int (length content)"
    and "\<And>out d. build out d = on_ok (asn_build_header out d type n) (\<lambda>(out, d).
      if d < n then Some (Inl Buffer_Full) else emit content out d)"
  shows "builds build (ber_obj type content)"
proof -
  have "builds (\<lambda>out d. if d < n then Some (Inl Buffer_Full) else emit content out d) content"
    by (rule builds_guard) (simp add: assms(1))
  then have "builds (\<lambda>out d. on_ok (asn_build_header out d type n) (\<lambda>(out, d).
      if d < n then Some (Inl Buffer_Full) else emit content out d)) ((type # ber_len (length content)) @ content)"
    unfolding assms(1) by (rule builds_then [OF builds_header])
  moreover have "build = (\<lambda>out d. on_ok (asn_build_header out d type n) (\<lambda>(out, d).
      if d < n then Some (Inl Buffer_Full) else emit content out d))"
    by (simp add: fun_eq_iff assms(2))
  ultimately show ?thesis by (simp add: ber_obj_def)
qed

lemma to_int_of_nat: "n < 2 ^ 31 \<Longrightarrow> to_int (of_nat n) = int n"
  by (simp add: to_int_def unsigned_of_nat signed_of_nat take_bit_nat_eq_self signed_take_bit_int_eq_self)

text \<open>The two tests and the count the parsers make after the length, on an object that fits.\<close>

lemma object_fits:
  assumes "int (length (ber_obj type content)) \<le> datalength" and "datalength < 2 ^ 31"
  shows "\<not> overflows (of_nat (length content)) (ber_obj type content @ rest) (content @ rest) datalength"
    and "remaining datalength (of_nat (length content)) (ber_obj type content @ rest) (content @ rest) =
      datalength - int (length (ber_obj type content))"
    and "to_int (of_nat (length content)) = int (length content)"
    and "unat (of_nat (length content) :: u64) = length content"
    and "asn_parse_length (ber_len (length content) @ content @ rest) =
      Some (Inr (of_nat (length content), content @ rest))"
    and "of_nat (length (ber_obj type content @ rest) - length (content @ rest)) + of_nat (length content) \<le> ulong datalength"
proof -
  have n: "length content < 2 ^ 31" using assms by (simp add: ber_obj_def)
  show "to_int (of_nat (length content)) = int (length content)" by (rule to_int_of_nat [OF n])
  then show "remaining datalength (of_nat (length content)) (ber_obj type content @ rest) (content @ rest) =
      datalength - int (length (ber_obj type content))"
    by (simp add: remaining_def ber_obj_def)
  show "unat (of_nat (length content) :: u64) = length content"
    using n by (simp add: unsigned_of_nat take_bit_nat_eq_self)
  show "asn_parse_length (ber_len (length content) @ content @ rest) =
      Some (Inr (of_nat (length content), content @ rest))"
    by (rule parse_length [OF n])
  have d: "unat (ulong datalength) = nat datalength"
    using assms by (simp add: ulong_def unsigned_of_int take_bit_int_eq_self)
  have "length (ber_obj type content @ rest) - length (content @ rest) + length content =
      length (ber_obj type content)"
    by (simp add: ber_obj_def)
  then have "of_nat (length (ber_obj type content @ rest) - length (content @ rest)) + of_nat (length content) =
      (of_nat (length (ber_obj type content)) :: u64)"
    by (metis of_nat_add)
  moreover have "unat (of_nat (length (ber_obj type content)) :: u64) = length (ber_obj type content)"
    using assms by (simp add: unsigned_of_nat take_bit_nat_eq_self)
  ultimately show *: "of_nat (length (ber_obj type content @ rest) - length (content @ rest)) +
      of_nat (length content) \<le> ulong datalength"
    using assms(1) d by (simp add: word_le_nat_alt)
  then show "\<not> overflows (of_nat (length content)) (ber_obj type content @ rest) (content @ rest) datalength"
    by (simp add: overflows_def add.commute)
qed

lemma obj_data: "ber_obj type content @ rest = type # ber_len (length content) @ content @ rest"
  by (simp add: ber_obj_def)

lemmas object_fits_data = object_fits [unfolded obj_data]

end
