(* ===== verification/Snmp_Codecs.thy ===== *)
theory Snmp_Codecs
  imports Snmp_Ber
begin

section \<open>The primitives meet the contract\<close>

text \<open>
  For each primitive type, the bytes it is encoded to, and the interpretation of \<open>ber_codec\<close> on the
  builder and the parser of the code.
\<close>

subsection \<open>Strings and NULL\<close>

definition string_types :: "u8 set" where
  "string_types = {0x04, 0x24, 0x40, 0x44, 0x45}"

lemma builds_string:
  "n = int (length s) \<Longrightarrow> builds (\<lambda>out d. asn_build_string out d type s n) (ber_obj type s)"
  by (rule builds_object) (simp_all add: asn_build_string_def copied_def cong: if_cong)

lemma parses_string:
  assumes "type \<in> string_types" and "int (length s) \<le> room"
  shows "parses (\<lambda>data d. asn_parse_string data d room) (ber_obj type s) (type, s)"
  unfolding parses_def
proof (intro allI impI)
  fix rest d
  assume d: "int (length (ber_obj type s)) \<le> d" "d < 2 ^ 31"
  show "asn_parse_string (ber_obj type s @ rest) d room =
      Some (Inr (rest, d - int (length (ber_obj type s)), type, s))"
    using assms object_fits_data [OF d] by (auto simp: asn_parse_string_def obj_data string_types_def)
qed

text \<open>A value of the string types: the type and the octets; \<open>room\<close> is the capacity of the receiver.\<close>

interpretation str: ber_codec "\<lambda>out d (type, s). asn_build_string out d type s (int (length s))"
  "\<lambda>data d. asn_parse_string data d room" "\<lambda>(type, s). ber_obj type s" "\<lambda>v. v"
  "\<lambda>(type, s). type \<in> string_types \<and> int (length s) \<le> room" for room
  by unfold_locales (auto intro: builds_string parses_string)

lemma builds_null: "builds (\<lambda>out d. asn_build_null out d type) (ber_obj type [])"
proof -
  have "builds (\<lambda>out d. asn_build_header out d type (int 0)) (type # ber_len 0)" by (rule builds_header)
  then show ?thesis by (simp add: asn_build_null_def ber_obj_def)
qed

lemma parses_null: "parses asn_parse_null (ber_obj 5 []) 5"
  unfolding parses_def
proof (intro allI impI)
  fix rest d
  assume d: "int (length (ber_obj 5 [])) \<le> d" "d < 2 ^ 31"
  show "asn_parse_null (ber_obj 5 [] @ rest) d = Some (Inr (rest, d - int (length (ber_obj 5 [])), 5))"
    using object_fits_data(5) [OF d] by (simp add: asn_parse_null_def obj_data length_ber_obj)
qed

interpretation null: ber_codec "\<lambda>out d (type :: u8). asn_build_null out d type" asn_parse_null
  "\<lambda>type. ber_obj type []" "\<lambda>type. type" "\<lambda>type. type = 5"
  by unfold_locales (auto intro: builds_null parses_null)

subsection \<open>Headers of constructed objects\<close>

lemma parse_header:
  assumes "int (length (ber_obj type content)) \<le> d" and "d < 2 ^ 31"
    and "type AND ASN_EXTENSION_ID \<noteq> ASN_EXTENSION_ID"
  shows "asn_parse_header (ber_obj type content @ rest) d =
    Some (Inr (content @ rest, int (length content), type))"
  using object_fits_data(3, 5, 6) [OF assms(1, 2)] assms(3)
  by (simp add: asn_parse_header_def obj_data Let_def not_less)

subsection \<open>Integers\<close>

text \<open>\<open>holds n x v\<close>: the top \<open>n\<close> octets of \<open>x\<close>, sign extended, are \<open>v\<close>.\<close>

definition holds :: "nat \<Rightarrow> u64 \<Rightarrow> u64 \<Rightarrow> bool" where
  "holds n x v \<longleftrightarrow> (\<forall>i<64. bit v i = bit x (min 63 (64 - 8 * n + i)))"

lemma top_bits:
  assumes "x AND push_bit 55 0x1FF = 0 \<or> x AND push_bit 55 0x1FF = push_bit 55 (0x1FF :: u64)"
    and "55 \<le> j" and "j < 64"
  shows "bit (x :: u64) j = bit x 63"
proof -
  have m: "bit (push_bit 55 (0x1FF :: u64)) k" if "55 \<le> k" "k < 64" for k
  proof -
    have "(0x1FF :: u64) = mask 9" by (simp add: mask_eq_exp_minus_1)
    then show ?thesis using that by (simp only: bit_push_bit_iff bit_mask_iff) auto
  qed
  then have k: "bit (x AND push_bit 55 0x1FF) k = bit x k" if "55 \<le> k" "k < 64" for k
    using that by (simp add: bit_and_iff)
  from assms(1) show ?thesis
  proof
    assume "x AND push_bit 55 0x1FF = 0"
    then show ?thesis using k [of j] k [of 63] assms(2, 3) by simp
  next
    assume "x AND push_bit 55 0x1FF = push_bit 55 0x1FF"
    then show ?thesis using k [of j] k [of 63] m [of j] m [of 63] assms(2, 3) by simp
  qed
qed

lemma trim_int_holds:
  "holds n x v \<Longrightarrow> 1 \<le> n \<Longrightarrow> n \<le> 8 \<Longrightarrow> trim_int n x = (m, y) \<Longrightarrow> 1 \<le> m \<and> m \<le> n \<and> holds m y v"
proof (induction n arbitrary: x)
  case (Suc n)
  show ?case
  proof (cases "(x AND push_bit 55 0x1FF = 0 \<or> x AND push_bit 55 0x1FF = push_bit 55 0x1FF) \<and> 1 < Suc n")
    case True
    then have top: "x AND push_bit 55 0x1FF = 0 \<or> x AND push_bit 55 0x1FF = push_bit 55 0x1FF" and n: "1 \<le> n"
      by simp_all
    have "holds n (push_bit 8 x) v"
      unfolding holds_def
    proof (intro allI impI)
      fix i :: nat
      assume i: "i < 64"
      then have v: "bit v i = bit x (min 63 (64 - 8 * Suc n + i))" using Suc.prems(1) by (simp add: holds_def)
      show "bit v i = bit (push_bit 8 x) (min 63 (64 - 8 * n + i))"
      proof (cases "64 - 8 * n + i \<le> 63")
        case True
        then have "min 63 (64 - 8 * n + i) - 8 = min 63 (64 - 8 * Suc n + i)" "8 \<le> 64 - 8 * n + i"
          using Suc.prems(3) n by auto
        then show ?thesis using v True by (simp add: bit_push_bit_iff min_def)
      next
        case False
        then have "55 \<le> 64 - 8 * Suc n + i" using Suc.prems(3) n by auto
        then have "bit x (min 63 (64 - 8 * Suc n + i)) = bit x 63"
          using top_bits [OF top, of "min 63 (64 - 8 * Suc n + i)"] by simp
        moreover have "bit x 55 = bit x 63" using top_bits [OF top, of 55] by simp
        ultimately show ?thesis using v False by (simp add: bit_push_bit_iff min_def)
      qed
    qed
    then show ?thesis using Suc.IH [of "push_bit 8 x"] Suc.prems True n by (fastforce simp: Let_def)
  next
    case False
    then show ?thesis using Suc.prems by (auto simp: Let_def)
  qed
qed simp

lemma length_int_octets [simp]: "length (int_octets n x) = n"
  by (induction n arbitrary: x) simp_all

lemma bit_first_octet: "j < 8 \<Longrightarrow> bit (ucast (drop_bit 56 (x AND push_bit 56 0xFF)) :: u8) j = bit (x :: u64) (56 + j)"
proof -
  have "(0xFF :: u64) = mask 8" by (simp add: mask_eq_exp_minus_1)
  then show "j < 8 \<Longrightarrow> ?thesis"
    by (simp only: bit_push_bit_iff bit_mask_iff bit_and_iff bit_drop_bit_eq bit_ucast_iff o_apply) simp
qed

lemma foldl_int_octets:
  "n \<le> 8 \<Longrightarrow> i < 64 \<Longrightarrow>
    bit (foldl (\<lambda>v b. push_bit 8 v OR ucast b) (start :: u64) (int_octets n x)) i =
      (if i < 8 * n then bit x (64 - 8 * n + i) else bit start (i - 8 * n))"
proof (induction n arbitrary: start x)
  case (Suc n)
  define start' where "start' = push_bit 8 start OR ucast (ucast (drop_bit 56 (x AND push_bit 56 0xFF)) :: u8)"
  have s: "bit start' j = (if j < 8 then bit x (56 + j) else bit start (j - 8))" if "j < 64" for j
    using that bit_first_octet [of j x] by (auto simp: start'_def bit_or_iff bit_push_bit_iff bit_ucast_iff
        dest: bit_imp_le_length)
  have "bit (foldl (\<lambda>v b. push_bit 8 v OR ucast b) start (int_octets (Suc n) x)) i =
      (if i < 8 * n then bit (push_bit 8 x) (64 - 8 * n + i) else bit start' (i - 8 * n))"
    using Suc.IH [of start' "push_bit 8 x"] Suc.prems by (simp add: start'_def)
  moreover have "bit (push_bit 8 x) (64 - 8 * n + i) = bit x (64 - 8 * Suc n + i)" if "i < 8 * n"
    using that Suc.prems by (auto simp: bit_push_bit_iff)
  moreover have "56 + (i - 8 * n) = 64 - 8 * Suc n + i" if "\<not> i < 8 * n" "i < 8 * Suc n"
    using that Suc.prems by auto
  ultimately show ?case using Suc.prems by (auto simp: s ac_simps)
qed simp

lemma sign_octet:
  assumes "1 \<le> n"
  shows "hd (int_octets n x) AND 0x80 \<noteq> 0 \<longleftrightarrow> bit x 63"
  using assms bit_first_octet [of 7 x] by (cases n) (simp_all only: int_octets.simps list.sel high_bit, simp_all)

lemma parsed_octets:
  assumes "holds n x v" and "1 \<le> n" and "n \<le> 8"
  shows "foldl (\<lambda>v b. push_bit 8 v OR ucast b) (if hd (int_octets n x) AND 0x80 \<noteq> 0 then - 1 else 0)
    (int_octets n x) = v"
proof (rule bit_word_eqI)
  fix i
  assume "i < LENGTH(64)"
  then have i: "i < 64" by simp
  define start :: u64 where "start = (if hd (int_octets n x) AND 0x80 \<noteq> 0 then - 1 else 0)"
  have s: "bit start (i - 8 * n) = bit x 63"
    using i less_imp_diff_less [of i 64 "8 * n"] by (simp add: start_def sign_octet [OF assms(2)])
  have v: "bit v i = bit x (min 63 (64 - 8 * n + i))" using assms(1) i by (simp add: holds_def)
  have m: "min 63 (64 - 8 * n + i) = (if i < 8 * n then 64 - 8 * n + i else 63)" using assms(3) by auto
  show "bit (foldl (\<lambda>v b. push_bit 8 v OR ucast b)
      (if hd (int_octets n x) AND 0x80 \<noteq> 0 then - 1 else 0 :: u64) (int_octets n x)) i = bit v i"
    unfolding start_def [symmetric] foldl_int_octets [OF assms(3) i] s v m by simp
qed

definition int_content :: "u64 \<Rightarrow> u8 list" where
  "int_content v = (case trim_int 8 v of (n, x) \<Rightarrow> int_octets n x)"

lemma trim_int_numeral:
  "trim_int (numeral k) v =
    (if (v AND 0xFF80000000000000 = 0 \<or> v AND 0xFF80000000000000 = 0xFF80000000000000) \<and> 1 < (numeral k :: nat)
     then trim_int (pred_numeral k) (push_bit 8 v) else (numeral k, v))"
  by (simp add: numeral_eq_Suc)

lemma int_octets_numeral:
  "int_octets (numeral k) v =
    ucast (drop_bit 56 (v AND 0xFF00000000000000)) # int_octets (pred_numeral k) (push_bit 8 v)"
  by (simp add: numeral_eq_Suc)

lemmas int_content_eval = int_content_def trim_int_numeral int_octets_numeral

lemma trim_int_8:
  obtains n x where "trim_int 8 v = (n, x)" and "1 \<le> n" and "n \<le> 8" and "holds n x v"
proof -
  obtain n x where "trim_int 8 v = (n, x)" by (cases "trim_int 8 v")
  moreover have "min 63 i = i" if "i < 64" for i :: nat using that by simp
  then have "holds 8 v v" by (simp add: holds_def)
  ultimately show ?thesis using trim_int_holds [of 8 v v n x] that by simp
qed

lemma length_int_content: "1 \<le> length (int_content v)" "length (int_content v) \<le> 8"
  by (rule trim_int_8 [of v], simp add: int_content_def)+

lemma parsed_int_content:
  "foldl (\<lambda>v b. push_bit 8 v OR ucast b) (if hd (int_content v) AND 0x80 \<noteq> 0 then - 1 else 0)
    (int_content v) = v"
proof -
  obtain n x where "trim_int 8 v = (n, x)" and "1 \<le> n" and "n \<le> 8" and "holds n x v" by (rule trim_int_8)
  then show ?thesis using parsed_octets [of n x v] by (simp add: int_content_def)
qed

lemma case_first: "xs \<noteq> [] \<Longrightarrow> (case xs @ ys of [] \<Rightarrow> a | z # zs \<Rightarrow> f z zs) = f (hd xs) (tl xs @ ys)"
  by (cases xs) simp_all

lemma builds_int: "builds (\<lambda>out d. asn_build_int out d type v) (ber_obj type (int_content v))"
proof -
  obtain n x where t: "trim_int 8 v = (n, x)" by (rule trim_int_8)
  show ?thesis by (rule builds_object [where n = "int n"]) (simp_all add: asn_build_int_def int_content_def t cong: if_cong)
qed

definition int_types :: "u8 set" where
  "int_types = {0x02, 0x43, 0x41}"

lemma parses_int:
  assumes "type \<in> int_types"
  shows "parses asn_parse_int (ber_obj type (int_content v)) (type, v)"
  unfolding parses_def
proof (intro allI impI)
  fix rest d
  let ?obj = "ber_obj type (int_content v)"
  assume d: "int (length ?obj) \<le> d" "d < 2 ^ 31"
  note fit = object_fits_data [OF d]
  have "\<not> (of_nat (length (int_content v)) :: u64) > 8" "int_content v \<noteq> []"
    using length_int_content [of v]
    by (auto simp: word_less_nat_alt unsigned_of_nat take_bit_nat_eq_self)
  then show "asn_parse_int (?obj @ rest) d = Some (Inr (rest, d - int (length ?obj), type, v))"
    using fit(1, 2, 4, 5) parsed_int_content [of v] assms
    by (auto simp: asn_parse_int_def obj_data int_types_def Let_def case_first)
qed

interpretation int: ber_codec "\<lambda>out d (type, v). asn_build_int out d type v" asn_parse_int
  "\<lambda>(type, v). ber_obj type (int_content v)" "\<lambda>v. v" "\<lambda>(type, v). type \<in> int_types"
  by unfold_locales (auto intro: builds_int parses_int)

subsection \<open>Unsigned integers\<close>

definition uint_content :: "u64 \<Rightarrow> u8 list" where
  "uint_content u = uint_octets (uint_len u) u"

definition uint_types :: "u8 set" where
  "uint_types = {0x02, 0x43, 0x41, 0x42, 0x47}"

lemma octet_of_word: "ucast (drop_bit k (u :: u64)) = (of_nat (unat u div 2 ^ k) :: u8)"
proof -
  have "ucast (drop_bit k u) = (of_nat (unat (drop_bit k u)) :: u8)" by simp
  also have "unat (drop_bit k u) = unat u div 2 ^ k" by (subst unat_drop_bit_eq) (rule drop_bit_eq_div)
  finally show ?thesis .
qed

lemma octet_test: "drop_bit k (u :: u64) AND 0xFF = 0 \<longleftrightarrow> unat u div 2 ^ k mod 256 = 0"
proof -
  have "(0xFF :: u64) = mask 8" by (simp add: mask_eq_exp_minus_1)
  then have "drop_bit k u AND 0xFF = 0 \<longleftrightarrow> unat (take_bit 8 (drop_bit k u)) = 0"
    by (simp add: take_bit_eq_mask unat_eq_0)
  moreover have "unat (take_bit 8 (drop_bit k u)) = unat u div 2 ^ k mod 2 ^ 8"
    by (subst unsigned_take_bit_eq, subst unat_drop_bit_eq)
      (simp only: drop_bit_eq_div take_bit_eq_mod)
  ultimately show ?thesis by simp
qed

lemma uint_len_bounds: "1 \<le> uint_len u" "uint_len u \<le> 5"
  by (auto simp: uint_len_def Let_def)

lemma upt_small: "[0..<1] = [0 :: nat]" "[0..<2] = [0, 1 :: nat]" "[0..<3] = [0, 1, 2 :: nat]"
    "[0..<4] = [0, 1, 2, 3 :: nat]" "[1..<5] = [1, 2, 3, 4 :: nat]"
  by (simp_all add: upt_rec)

lemma uint_octets_eq:
  assumes "n \<in> {1, 2, 3, 4}"
  shows "uint_octets n u = octets n (unat u)"
  using assms by (auto simp: uint_octets_def upt_small octet_of_word octets_simps simp del: One_nat_def)

lemma uint_octets_5: "uint_octets 5 u = 0 # octets 4 (unat u)"
  by (simp add: uint_octets_def upt_small octet_of_word octets_simps del: One_nat_def)

lemma mod_step: "n mod 256 ^ Suc k = n div 256 ^ k mod 256 * 256 ^ k + n mod (256 :: nat) ^ k"
  by (metis add.commute mod_mult2_eq mult.commute power_Suc)

lemma uint_len_high:
  "uint_len u \<le> 3 \<Longrightarrow> unat u div 256 ^ 3 mod 256 = 0"
  "uint_len u \<le> 2 \<Longrightarrow> unat u div 256 ^ 2 mod 256 = 0"
  "uint_len u \<le> 1 \<Longrightarrow> unat u div 256 mod 256 = 0"
proof -
  define n where "n = (if drop_bit 24 u AND 0xFF \<noteq> 0 then 4 else if drop_bit 16 u AND 0xFF \<noteq> 0 then 3
    else if drop_bit 8 u AND 0xFF \<noteq> 0 then 2 else 1 :: nat)"
  have le: "n \<le> uint_len u" unfolding uint_len_def n_def [symmetric] by (simp add: Let_def)
  show "uint_len u \<le> 3 \<Longrightarrow> unat u div 256 ^ 3 mod 256 = 0"
    using le octet_test [of 24 u] by (auto simp: n_def split: if_splits)
  show "uint_len u \<le> 2 \<Longrightarrow> unat u div 256 ^ 2 mod 256 = 0"
    using le octet_test [of 16 u] by (auto simp: n_def split: if_splits)
  show "uint_len u \<le> 1 \<Longrightarrow> unat u div 256 mod 256 = 0"
    using le octet_test [of 8 u] by (auto simp: n_def split: if_splits)
qed

lemma be_val_uint_content: "be_val (uint_content u) = unat u mod 2 ^ 32"
proof -
  have s: "unat u mod 256 ^ 2 = unat u div 256 mod 256 * 256 + unat u mod 256"
    "unat u mod 256 ^ 3 = unat u div 256 ^ 2 mod 256 * 256 ^ 2 + unat u mod 256 ^ 2"
    "unat u mod 256 ^ 4 = unat u div 256 ^ 3 mod 256 * 256 ^ 3 + unat u mod 256 ^ 3"
    using mod_step [of "unat u" 1] mod_step [of "unat u" 2] mod_step [of "unat u" 3]
    by (simp only: Suc_1 power_one_right, simp only: Suc_numeral semiring_norm, simp only: Suc_numeral semiring_norm)
  have "be_val (uint_content u) = unat u mod 256 ^ 4"
  proof (cases "uint_len u = 5")
    case True
    then show ?thesis by (simp add: uint_content_def uint_octets_5 be_val_zero be_val_octets)
  next
    case False
    then have n: "uint_len u \<in> {1, 2, 3, 4}" using uint_len_bounds [of u] by auto
    then have "be_val (uint_content u) = unat u mod 256 ^ uint_len u"
      by (simp only: uint_content_def uint_octets_eq be_val_octets)
    also have "\<dots> = unat u mod 256 ^ 4"
    proof -
      consider "uint_len u = 1" | "uint_len u = 2" | "uint_len u = 3" | "uint_len u = 4" using n by blast
      then show ?thesis
      proof cases
        case 1
        then show ?thesis
          using uint_len_high [of u] by (simp only: s power_one_right mult_0 add_0)
      next
        case 2
        then show ?thesis using uint_len_high(1,2) [of u] by (simp only: s(2,3) mult_0 add_0)
      next
        case 3
        then show ?thesis using uint_len_high(1) [of u] by (simp only: s(3) mult_0 add_0)
      next
        case 4
        then show ?thesis by simp
      qed
    qed
    finally show ?thesis .
  qed
  then show ?thesis by simp
qed

lemma length_uint_octets [simp]: "length (uint_octets n u) = n"
  by (simp add: uint_octets_def)

lemma length_uint_content: "length (uint_content u) = uint_len u"
  by (simp add: uint_content_def)

lemma hd_uint_content: "uint_len u = 5 \<Longrightarrow> hd (uint_content u) = 0"
  by (simp add: uint_content_def uint_octets_5)

lemma builds_uint: "builds (\<lambda>out d. asn_build_unsigned_int out d type u) (ber_obj type (uint_content u))"
  by (rule builds_object [where n = "int (uint_len u)"])
    (simp_all add: asn_build_unsigned_int_def length_uint_content uint_content_def Let_def cong: if_cong)

lemma of_nat_take_bit: "(of_nat (unat u mod 2 ^ 32) :: u64) = take_bit 32 u"
proof -
  have "unat (take_bit 32 u) = unat u mod 2 ^ 32"
    by (subst unsigned_take_bit_eq) (rule take_bit_eq_mod)
  then show ?thesis by (metis of_nat_unat ucast_id)
qed

lemma sint_of_small: "n < 2 ^ 31 \<Longrightarrow> sint (of_nat n :: u64) = int n"
  by (simp add: signed_of_nat signed_take_bit_int_eq_self)

lemma parses_uint:
  assumes "type \<in> uint_types"
  shows "parses asn_parse_unsigned_int (ber_obj type (uint_content u)) (type, take_bit 32 u)"
  unfolding parses_def
proof (intro allI impI)
  fix rest d
  let ?c = "uint_content u"
  assume d: "int (length (ber_obj type ?c)) \<le> d" "d < 2 ^ 31"
  note fit = object_fits_data [OF d]
  have n: "1 \<le> length ?c" "length ?c \<le> 5" using uint_len_bounds [of u] by (simp_all add: length_uint_content)
  have v: "(of_nat (be_val ?c) :: u64) = take_bit 32 u"
    using of_nat_take_bit [of u] by (simp add: be_val_uint_content)
  have large: "\<not> (of_nat (length ?c) :: u64) > 5" "\<not> ((of_nat (length ?c) :: u64) > 4 \<and> hd ?c \<noteq> 0)" "?c \<noteq> []"
    using n hd_uint_content [of u]
    by (simp_all add: word_less_nat_alt unsigned_of_nat take_bit_nat_eq_self flip: length_uint_content)
      (use n in auto)
  show "asn_parse_unsigned_int (ber_obj type ?c @ rest) d =
      Some (Inr (rest, d - int (length (ber_obj type ?c)), type, take_bit 32 u))"
  proof (cases "hd ?c = 0")
    case True
    then obtain c where c: "?c = 0 # c" using large(3) by (cases ?c) auto
    have "(of_nat (length ?c) :: u64) - 1 = of_nat (length c)" by (simp add: c)
    moreover have "remaining d (of_nat (length c)) (type # ber_len (length ?c) @ ?c @ rest) (c @ rest) =
        d - int (length (ber_obj type ?c))"
      using n(2) to_int_of_nat [of "length c"] by (simp add: remaining_def length_ber_obj c)
    moreover have "be_val c = be_val ?c" by (simp add: c be_val_zero)
    moreover have "sint (of_nat (length c) :: u64) = int (length c)" using n(2) by (intro sint_of_small) (simp add: c)
    ultimately show ?thesis using fit(1, 5) assms large v
      by (auto simp: asn_parse_unsigned_int_def obj_data uint_types_def foldl_push_add c Let_def)
  next
    case False
    moreover have "sint (of_nat (length ?c) :: u64) = int (length ?c)" using n(2) by (intro sint_of_small) simp
    ultimately show ?thesis using fit(1, 2, 5) assms large v
      by (auto simp: asn_parse_unsigned_int_def obj_data uint_types_def foldl_push_add case_first Let_def)
  qed
qed

interpretation uint: ber_codec "\<lambda>out d (type, u). asn_build_unsigned_int out d type u" asn_parse_unsigned_int
  "\<lambda>(type, u). ber_obj type (uint_content u)" "\<lambda>(type, u). (type, take_bit 32 u)" "\<lambda>(type, u). type \<in> uint_types"
  by unfold_locales (auto intro: builds_uint parses_uint)

end
