(* ===== verification/Snmp_Counter64.thy ===== *)
theory Snmp_Counter64
  imports Snmp_Codecs
begin

section \<open>Counter64 values\<close>

text \<open>
  The code keeps a 64 bit counter as two words of 32 significant bits and shifts them as a pair.  The
  pair is one 64 bit word, so that the loops for plain integers describe these loops as well.
\<close>

definition wide :: "u64 \<Rightarrow> u64 \<Rightarrow> u64" where
  "wide h l = push_bit 32 h OR take_bit 32 l"

definition shift_pair :: "u64 \<Rightarrow> u64 \<Rightarrow> u64" where
  "shift_pair h l = push_bit 8 h OR drop_bit 24 (l AND 0xFF000000)"

lemma mask_24: "(0xFF000000 :: u64) = push_bit 24 (mask 8)"
  by (simp add: mask_eq_exp_minus_1)

lemma bit_mask_24: "bit (0xFF000000 :: u64) i \<longleftrightarrow> 24 \<le> i \<and> i < 32"
  by (simp only: mask_24 bit_push_bit_iff bit_mask_iff) auto

lemma bit_wide: "i < 64 \<Longrightarrow> bit (wide h l) i \<longleftrightarrow> (if i < 32 then bit l i else bit h (i - 32))"
  by (auto simp: wide_def bit_or_iff bit_push_bit_iff bit_take_bit_iff)

lemma wide_shift: "wide (shift_pair h l) (push_bit 8 l) = push_bit 8 (wide h l)"
proof (rule bit_word_eqI)
  fix i
  assume "i < LENGTH(64)"
  then have i: "i < 64" by simp
  show "bit (wide (shift_pair h l) (push_bit 8 l)) i = bit (push_bit 8 (wide h l)) i"
  proof (cases "i < 32")
    case True
    then have "i - 8 < 32" "i - 8 < 64" by simp_all
    then show ?thesis using True by (simp add: bit_wide bit_push_bit_iff)
  next
    case False
    have a: "24 + (i - 32) = i - 8" "i - 32 - 8 = i - 8 - 32" using False by auto
    show ?thesis
    proof (cases "i < 40")
      case True
      then show ?thesis using False i a
        unfolding bit_push_bit_iff
        by (simp only: bit_wide shift_pair_def bit_or_iff bit_push_bit_iff bit_drop_bit_eq bit_and_iff
            bit_mask_24 o_apply) auto
    next
      case f: False
      then show ?thesis using False i a
        unfolding bit_push_bit_iff
        by (simp only: bit_wide shift_pair_def bit_or_iff bit_push_bit_iff bit_drop_bit_eq bit_and_iff
            bit_mask_24 o_apply) auto
    qed
  qed
qed

lemma first_octet64:
  "ucast (drop_bit 24 (h AND 0xFF000000)) = (ucast (drop_bit 56 (wide h l AND push_bit 56 0xFF)) :: u8)"
proof (rule bit_word_eqI)
  fix j
  assume "j < LENGTH(8)"
  then have j: "j < 8" by simp
  then show "bit (ucast (drop_bit 24 (h AND 0xFF000000)) :: u8) j =
      bit (ucast (drop_bit 56 (wide h l AND push_bit 56 0xFF)) :: u8) j"
    using bit_first_octet [OF j, of "wide h l"]
    by (simp only: bit_ucast_iff bit_drop_bit_eq bit_and_iff bit_mask_24 o_apply bit_wide) (simp add: bit_wide)
qed

lemma int64_octets_eq: "int64_octets n h l = int_octets n (wide h l)"
proof (induction n arbitrary: h l)
  case (Suc n)
  have "int64_octets (Suc n) h l = ucast (drop_bit 24 (h AND 0xFF000000)) #
      int64_octets n (shift_pair h l) (push_bit 8 l)"
    by (simp only: int64_octets.simps shift_pair_def)
  also have "\<dots> = int_octets (Suc n) (wide h l)"
    by (simp only: Suc.IH wide_shift first_octet64 [of h l] int_octets.simps)
  finally show ?case .
qed simp

lemma mask_23: "(0xFF800000 :: u64) = push_bit 23 (mask 9)" "(0x1FF :: u64) = mask 9"
  by (simp_all add: mask_eq_exp_minus_1)

lemma bit_mask_23: "bit (0xFF800000 :: u64) i \<longleftrightarrow> 23 \<le> i \<and> i < 32"
    "bit (push_bit 55 (0x1FF :: u64)) i \<longleftrightarrow> 55 \<le> i \<and> i < 64"
  by (simp_all only: mask_23 bit_push_bit_iff bit_mask_iff) auto

lemma top_nine: "wide h l AND push_bit 55 0x1FF = push_bit 32 (h AND 0xFF800000)"
proof (rule bit_word_eqI)
  fix i
  assume "i < LENGTH(64)"
  then have i: "i < 64" by simp
  then show "bit (wide h l AND push_bit 55 0x1FF) i = bit (push_bit 32 (h AND 0xFF800000)) i"
    by (simp only: bit_and_iff bit_mask_23 bit_wide) (simp only: bit_and_iff bit_mask_23 bit_push_bit_iff, auto)
qed

lemma push_32_inj:
  assumes "a AND 0xFF800000 = a" and "b AND 0xFF800000 = b"
  shows "push_bit 32 a = push_bit 32 b \<longleftrightarrow> a = (b :: u64)"
proof
  assume eq: "push_bit 32 a = push_bit 32 b"
  show "a = b"
  proof (rule bit_word_eqI)
    fix i
    have *: "bit (push_bit 32 x) (i + 32) = bit x i" if "i < 32" for x :: u64
      using that by (simp add: bit_push_bit_iff)
    have "\<not> bit a i \<and> \<not> bit b i" if "\<not> i < 32"
      using that assms bit_mask_23(1) [of i] by (metis bit_and_iff)
    then show "bit a i = bit b i" using * [of a] * [of b] eq by (cases "i < 32") auto
  qed
qed simp

lemma trim_int64_eq:
  "trim_int64 n h l = (m, h', l') \<Longrightarrow> trim_int n (wide h l) = (m, wide h' l')"
proof (induction n arbitrary: h l)
  case (Suc n)
  have "wide h l AND push_bit 55 0x1FF = 0 \<longleftrightarrow> h AND 0xFF800000 = 0"
    using push_32_inj [of "h AND 0xFF800000" 0] by (simp only: top_nine and.assoc) simp
  moreover have "wide h l AND push_bit 55 0x1FF = push_bit 55 0x1FF \<longleftrightarrow> h AND 0xFF800000 = 0xFF800000"
    using push_32_inj [of "h AND 0xFF800000" "0xFF800000"] by (simp only: top_nine and.assoc) simp
  moreover have "trim_int64 (Suc n) h l = (if (h AND 0xFF800000 = 0 \<or> h AND 0xFF800000 = 0xFF800000) \<and> Suc n > 1
      then trim_int64 n (shift_pair h l) (push_bit 8 l) else (Suc n, h, l))"
    by (simp only: trim_int64.simps shift_pair_def Let_def)
  ultimately show ?case
    using Suc.IH [of "shift_pair h l" "push_bit 8 l"] Suc.prems
    by (simp only: trim_int.simps Let_def wide_shift split: if_splits) simp_all
qed simp

definition int64_content :: "counter64 \<Rightarrow> u8 list" where
  "int64_content cp = (if bit (high cp) 31 then 0 # int_octets 8 (wide (high cp) (low cp))
     else int_content (wide (high cp) (low cp)))"

lemma msb_test: "drop_bit 24 (h AND 0xFF000000) AND 0x80 \<noteq> (0 :: u64) \<longleftrightarrow> bit h 31"
  using and_exp_eq_0_iff_not_bit [of "drop_bit 24 (h AND 0xFF000000)" 7]
  by (simp only: bit_drop_bit_eq bit_and_iff bit_mask_24 o_apply) simp

lemma builds_int64:
  "builds (\<lambda>out d. asn_build_unsigned_int64 out d type cp) (ber_obj type (int64_content cp))"
proof (cases "bit (high cp) 31")
  case True
  then show ?thesis
    by (intro builds_object [where n = 9])
      (simp_all add: asn_build_unsigned_int64_def [unfolded msb_test] int64_content_def int64_octets_eq Let_def cong: if_cong)
next
  case False
  obtain n h l where t: "trim_int64 8 (high cp) (low cp) = (n, h, l)" by (cases "trim_int64 8 (high cp) (low cp)")
  then have "int_content (wide (high cp) (low cp)) = int64_octets n h l"
    by (simp add: int_content_def trim_int64_eq [OF t] int64_octets_eq)
  then show ?thesis using False
    by (intro builds_object [where n = "int n"])
      (simp_all add: asn_build_unsigned_int64_def [unfolded msb_test] int64_content_def int64_octets_eq t Let_def cong: if_cong)
qed

text \<open>The value of the content octets.\<close>

lemma be_val_eqI:
  assumes "foldl (\<lambda>v b. push_bit 8 v OR ucast b) 0 bs = (v :: u64)" and "length bs \<le> 8"
  shows "be_val bs = unat v"
proof -
  have "be_val bs < 256 ^ length bs" by (rule be_val_less)
  also have "\<dots> \<le> 256 ^ 8" using assms(2) by (intro power_increasing) simp_all
  finally have "unat (of_nat (be_val bs) :: u64) = be_val bs"
    by (simp add: unsigned_of_nat take_bit_nat_eq_self)
  then show ?thesis using assms(1) by (simp add: foldl_push_or)
qed

lemma wide_msb: "bit (wide h l) 63 \<longleftrightarrow> bit h 31"
  by (simp add: bit_wide)

lemma hd_int_content: "hd (int_content v) AND 0x80 \<noteq> 0 \<longleftrightarrow> bit v 63"
proof -
  obtain n x where t: "trim_int 8 v = (n, x)" "1 \<le> n" "n \<le> 8" "holds n x v" by (rule trim_int_8)
  have "bit v 63 = bit x (min 63 (64 - 8 * n + 63))" using t(4) by (simp add: holds_def)
  then show ?thesis using t sign_octet [of n x] by (simp add: int_content_def)
qed

lemma int64_content_facts:
  shows "be_val (int64_content cp) = unat (wide (high cp) (low cp))"
    and "hd (int64_content cp) AND 0x80 = 0" and "int64_content cp \<noteq> []"
    and "length (int64_content cp) \<le> 9" and "length (int64_content cp) = 9 \<Longrightarrow> hd (int64_content cp) = 0"
proof -
  let ?w = "wide (high cp) (low cp)"
  have "foldl (\<lambda>v b. push_bit 8 v OR ucast b) 0 (int_octets 8 ?w) = ?w"
    by (rule bit_word_eqI) (simp add: foldl_int_octets)
  then have "be_val (int_octets 8 ?w) = unat ?w" by (rule be_val_eqI) simp
  moreover have "be_val (int_content ?w) = unat ?w" if "\<not> bit (high cp) 31"
    using that parsed_int_content [of ?w] length_int_content [of ?w]
    by (intro be_val_eqI) (simp_all add: hd_int_content wide_msb)
  ultimately show "be_val (int64_content cp) = unat ?w" by (simp add: int64_content_def be_val_zero)
  show "hd (int64_content cp) AND 0x80 = 0" "int64_content cp \<noteq> []"
    "length (int64_content cp) \<le> 9" "length (int64_content cp) = 9 \<Longrightarrow> hd (int64_content cp) = 0"
    using hd_int_content [of ?w] length_int_content [of ?w]
    by (auto simp: int64_content_def wide_msb)
qed

definition int64_step :: "u64 \<times> u64 \<Rightarrow> u8 \<Rightarrow> u64 \<times> u64" where
  "int64_step = (\<lambda>(h, l) b. (push_bit 8 h OR drop_bit 24 (l AND 0xFF000000), (push_bit 8 l OR ucast b) AND 0xFFFFFFFF))"

lemma drop_top_octet: "n < 2 ^ 32 \<Longrightarrow> drop_bit 24 ((of_nat n :: u64) AND 0xFF000000) = of_nat (n div 2 ^ 24)"
proof -
  assume n: "n < 2 ^ 32"
  have "bit n i \<Longrightarrow> i < 32" for i
    using n by (metis bit_take_bit_iff take_bit_nat_eq_self)
  then have "(of_nat n :: u64) AND 0xFF000000 = push_bit 24 (drop_bit 24 (of_nat n))"
    by (intro bit_word_eqI) (auto simp only: bit_and_iff bit_mask_24 bit_push_bit_iff bit_drop_bit_eq
      bit_of_nat_iff o_apply le_add_diff_inverse)
  moreover have "drop_bit 24 (push_bit 24 (drop_bit 24 (of_nat n))) = (drop_bit 24 (of_nat n) :: u64)"
    by (rule bit_word_eqI) (auto simp: bit_simps dest: bit_imp_le_length)
  moreover have "drop_bit 24 (of_nat n) = (of_nat (n div 2 ^ 24) :: u64)"
    using n by (simp add: word_unat_eq_iff unat_drop_bit_eq unsigned_of_nat take_bit_nat_eq_self)
      (simp add: drop_bit_eq_div take_bit_nat_eq_self)
  ultimately show ?thesis by simp
qed

lemma div_mod_step:
  assumes "b < 256"
  shows "(N * 256 + b) div 2 ^ 32 = N div 2 ^ 32 * 256 + N mod 2 ^ 32 div (2 ^ 24 :: nat)"
    and "(N * 256 + b) mod 2 ^ 32 = (N mod 2 ^ 32 * 256 + b) mod (2 ^ 32 :: nat)"
proof -
  show "(N * 256 + b) mod 2 ^ 32 = (N mod 2 ^ 32 * 256 + b) mod (2 ^ 32 :: nat)"
    by (metis mod_add_left_eq mod_mult_left_eq)
  have "(N * 256 + b) div 256 = N" using assms by simp
  then have "(N * 256 + b) div 2 ^ 32 = N div 2 ^ 24"
    using div_mult2_eq [of "N * 256 + b" 256 "2 ^ 24"] by simp
  also have "N = N div 2 ^ 32 * 256 * 2 ^ 24 + N mod 2 ^ 32" by simp
  then have "N div 2 ^ 24 = (N div 2 ^ 32 * 256 * 2 ^ 24 + N mod 2 ^ 32) div 2 ^ 24" by metis
  also have "\<dots> = N div 2 ^ 32 * 256 + N mod 2 ^ 32 div 2 ^ 24"
  proof -
    have "(a * 256 * 2 ^ 24 + m) div 2 ^ 24 = a * 256 + m div 2 ^ 24" for a m :: nat by simp
    then show ?thesis .
  qed
  finally show "(N * 256 + b) div 2 ^ 32 = N div 2 ^ 32 * 256 + N mod 2 ^ 32 div 2 ^ 24" .
qed

lemma word_mod_32: "(of_nat n :: u64) AND 0xFFFFFFFF = of_nat (n mod 2 ^ 32)"
proof -
  have "(0xFFFFFFFF :: u64) = mask 32" by (simp add: mask_eq_exp_minus_1)
  then have "(of_nat n :: u64) AND 0xFFFFFFFF = take_bit 32 (of_nat n)" by (simp only: take_bit_eq_mask)
  also have "\<dots> = of_nat (take_bit 32 n)" by (rule take_bit_of_nat)
  also have "take_bit 32 n = n mod 2 ^ 32" by (rule take_bit_eq_mod)
  finally show ?thesis .
qed

lemma push_or_small:
  assumes "n < 256"
  shows "push_bit 8 (v :: u64) OR of_nat n = push_bit 8 v + of_nat n"
proof -
  have "of_nat n = (ucast (of_nat n :: u8) :: u64)"
    using assms by (simp add: word_unat_eq_iff unsigned_ucast_eq unsigned_of_nat take_bit_eq_mod)
  then show ?thesis using push_bit_or_ucast [of v "of_nat n"] by simp
qed

lemma foldl_int64:
  "foldl int64_step (0, 0) bs = (of_nat (be_val bs div 2 ^ 32), of_nat (be_val bs mod 2 ^ 32))"
proof (induction bs rule: rev_induct)
  case (snoc b bs)
  let ?N = "be_val bs"
  have b: "unat b < 256" using unsigned_less [of b] by simp
  have l: "?N mod 2 ^ 32 < 2 ^ 32" "?N mod 2 ^ 32 div 2 ^ 24 < 256"
    by (simp_all add: less_mult_imp_div_less)
  have h: "push_bit 8 (of_nat (?N div 2 ^ 32)) OR drop_bit 24 (of_nat (?N mod 2 ^ 32) AND 0xFF000000) =
      (of_nat ((?N * 256 + unat b) div 2 ^ 32) :: u64)"
    unfolding drop_top_octet [OF l(1)] push_or_small [OF l(2)] div_mod_step(1) [OF b]
    by (simp add: push_bit_eq_mult mult.commute)
  have "push_bit 8 (of_nat (?N mod 2 ^ 32)) OR ucast b = (of_nat (?N mod 2 ^ 32 * 256 + unat b) :: u64)"
    unfolding push_bit_or_ucast by (simp add: push_bit_eq_mult mult.commute)
  then have "(push_bit 8 (of_nat (?N mod 2 ^ 32)) OR ucast b) AND 0xFFFFFFFF =
      (of_nat ((?N * 256 + unat b) mod 2 ^ 32) :: u64)"
    by (simp only: word_mod_32 div_mod_step(2) [OF b, of ?N])
  with h have "int64_step (of_nat (?N div 2 ^ 32), of_nat (?N mod 2 ^ 32)) b =
      (of_nat ((?N * 256 + unat b) div 2 ^ 32), of_nat ((?N * 256 + unat b) mod 2 ^ 32))"
    unfolding int64_step_def prod.case by (rule arg_cong2 [where f = Pair])
  then show ?case by (simp only: foldl_append foldl.simps snoc be_val_simps)
qed (simp add: be_val_def)

lemma wide_parts:
  assumes "high cp < 2 ^ 32" and "low cp < 2 ^ 32"
  shows "of_nat (unat (wide (high cp) (low cp)) div 2 ^ 32) = high cp"
    and "of_nat (unat (wide (high cp) (low cp)) mod 2 ^ 32) = low cp"
proof -
  have m: "take_bit 32 (high cp) = high cp" "take_bit 32 (low cp) = low cp"
    using assms
    by (simp_all add: word_unat_eq_iff unsigned_take_bit_eq take_bit_nat_eq_self word_less_nat_alt)
  have h: "bit (high cp) i \<Longrightarrow> i < 32" "bit (low cp) i \<Longrightarrow> i < 32" for i
    using m by (metis bit_take_bit_iff)+
  let ?w = "wide (high cp) (low cp)"
  have "of_nat (unat ?w div 2 ^ 32) = (of_nat (unat (drop_bit 32 ?w)) :: u64)"
    by (subst unat_drop_bit_eq) (simp only: drop_bit_eq_div)
  also have "\<dots> = drop_bit 32 ?w" by simp
  also have "\<dots> = high cp"
    by (rule bit_word_eqI) (auto simp: bit_drop_bit_eq wide_def bit_or_iff bit_push_bit_iff bit_take_bit_iff dest: h)
  finally show "of_nat (unat ?w div 2 ^ 32) = high cp" .
  have "of_nat (unat ?w mod 2 ^ 32) = take_bit 32 ?w" by (rule of_nat_take_bit)
  also have "\<dots> = low cp"
    by (rule bit_word_eqI) (auto simp: bit_take_bit_iff wide_def bit_or_iff bit_push_bit_iff dest: h)
  finally show "of_nat (unat ?w mod 2 ^ 32) = low cp" .
qed

definition int64_types :: "u8 set" where
  "int64_types = {0x02, 0x46}"

lemma parses_int64:
  assumes "type \<in> int64_types" and "high cp < 2 ^ 32" and "low cp < 2 ^ 32"
  shows "parses asn_parse_unsigned_int64 (ber_obj type (int64_content cp)) (type, cp)"
  unfolding parses_def
proof (intro allI impI)
  fix rest d
  let ?c = "int64_content cp"
  assume d: "int (length (ber_obj type ?c)) \<le> d" "d < 2 ^ 31"
  note fit = object_fits_data [OF d]
  have v: "foldl int64_step (0, 0) ?c = (high cp, low cp)"
    using wide_parts [OF assms(2, 3)] by (simp only: foldl_int64 int64_content_facts(1))
  have "\<not> to_int (of_nat (length ?c)) > 9" "\<not> (to_int (of_nat (length ?c)) = 9 \<and> hd ?c \<noteq> 0)"
    using int64_content_facts(4, 5) [of cp] by (auto simp: fit(3))
  then show "asn_parse_unsigned_int64 (ber_obj type ?c @ rest) d =
      Some (Inr (rest, d - int (length (ber_obj type ?c)), type, cp))"
    using fit(1, 2, 4, 5) assms(1) v int64_content_facts(2, 3) [of cp]
    by (auto simp: asn_parse_unsigned_int64_def [folded int64_step_def] obj_data int64_types_def
        case_first Let_def)
qed

text \<open>A counter is a type and the pair; the code keeps 32 bits in each half.\<close>

interpretation int64: ber_codec "\<lambda>out d (type, cp). asn_build_unsigned_int64 out d type cp"
  asn_parse_unsigned_int64 "\<lambda>(type, cp). ber_obj type (int64_content cp)" "\<lambda>v. v"
  "\<lambda>(type, cp). type \<in> int64_types \<and> high cp < 2 ^ 32 \<and> low cp < 2 ^ 32"
  by unfold_locales (auto intro: builds_int64 parses_int64)

end
