(* ===== verification/Snmp_Objid.thy ===== *)
theory Snmp_Objid
  imports Snmp_Codecs
begin

section \<open>Object identifiers\<close>

text \<open>
  The content of an object identifier in base 128, and the proof that the loops of \<open>asn_build_objid\<close> and
  \<open>asn_parse_objid\<close> write and read it.
\<close>

text \<open>The groups of seven bits from number \<open>k\<close> down to 0; all but the last have the high bit.\<close>

primrec groups :: "nat \<Rightarrow> u64 \<Rightarrow> u8 list" where
  "groups 0 x = [ucast (x AND 0x7F)]"
| "groups (Suc k) x = (ucast (drop_bit (7 * Suc k) x AND 0x7F) OR ASN_BIT8) # groups k x"

lemma length_groups [simp]: "length (groups k x) = Suc k"
  by (induction k) simp_all

lemma mask_7: "(0x7F :: u64) = mask 7"
  by (simp add: mask_eq_exp_minus_1)

lemma bit_0x7F: "bit (0x7F :: u64) i \<longleftrightarrow> i < 7"
  by (simp only: mask_7 bit_mask_iff) auto

lemma group_mask: "drop_bit (7 * k) (x AND push_bit (7 * k) 0x7F) = drop_bit (7 * k) x AND (0x7F :: u64)"
  by (rule bit_word_eqI) (auto simp only: bit_drop_bit_eq bit_and_iff bit_push_bit_iff bit_0x7F o_apply
      possible_bit_word dest: bit_imp_le_length)

lemma mask_values:
  assumes "k < 8"
  shows "push_bit (7 * Suc k) (0x7F :: u64) \<noteq> 0x7F" and "push_bit (7 * Suc k) (0x7F :: u64) \<noteq> 0x1E00000"
    and "drop_bit 7 (push_bit (7 * Suc k) 0x7F) = push_bit (7 * k) (0x7F :: u64)"
proof -
  have "k \<in> {0, 1, 2, 3, 4, 5, 6, 7}" using assms by auto
  then show "push_bit (7 * Suc k) (0x7F :: u64) \<noteq> 0x7F" "push_bit (7 * Suc k) (0x7F :: u64) \<noteq> 0x1E00000"
    by auto
  show "drop_bit 7 (push_bit (7 * Suc k) 0x7F) = push_bit (7 * k) (0x7F :: u64)"
    using \<open>k \<in> _\<close> by auto
qed

lemma bit_high: "bit (0x80 :: u8) i \<longleftrightarrow> i = 7"
  using bit_exp_iff [where 'a = "8 word", of 7 i] by (auto simp: possible_bit_word)

lemma emit_groups_eq:
  "k < 9 \<Longrightarrow> emit_groups x (push_bit (7 * k) 0x7F) (int (7 * k)) bp = put_all (groups k x) bp"
proof (induction k arbitrary: bp)
  case 0
  show ?case by (subst emit_groups.simps) (simp split: option.splits)
next
  case (Suc k)
  then have k: "k < 8" "k < 9" by simp_all
  have b: "int (7 * Suc k) - 7 = int (7 * k)" "nat (int (7 * Suc k)) = 7 * Suc k" by simp_all
  show ?case
    by (subst emit_groups.simps)
      (simp only: mask_values [OF k(1)] if_False Let_def b group_mask Suc.IH [OF k(2)] groups.simps put_all.simps
        cong: option.case_cong)
qed

lemma top_group_spec:
  assumes "sorted (j # ks)"
  shows "\<exists>k\<in>set (j # ks). top_group ks x (push_bit (7 * j) 0x7F, int (7 * j)) = (push_bit (7 * k) 0x7F, int (7 * k)) \<and>
    (k = j \<or> x AND push_bit (7 * k) 0x7F \<noteq> 0) \<and> (\<forall>i\<in>set ks. k < i \<longrightarrow> x AND push_bit (7 * i) 0x7F = 0)"
  using assms
proof (induction ks arbitrary: j)
  case (Cons i ks)
  have s: "sorted (i # ks)" "sorted (j # ks)" "j \<le> i" "\<forall>k\<in>set ks. i \<le> k" using Cons.prems by auto
  show ?case
  proof (cases "x AND push_bit (7 * i) 0x7F = 0")
    case True
    then show ?thesis using Cons.IH [OF s(2)] by (auto simp: Let_def)
  next
    case False
    obtain k where k: "k \<in> set (i # ks)"
      "top_group ks x (push_bit (7 * i) 0x7F, int (7 * i)) = (push_bit (7 * k) 0x7F, int (7 * k))"
      "k = i \<or> x AND push_bit (7 * k) 0x7F \<noteq> 0" "\<forall>i\<in>set ks. k < i \<longrightarrow> x AND push_bit (7 * i) 0x7F = 0"
      using Cons.IH [OF s(1)] by blast
    moreover have "i \<le> k" using k(1) s(4) by auto
    ultimately show ?thesis using False by (auto simp: Let_def)
  qed
qed simp

definition top_index :: "u64 \<Rightarrow> nat" where
  "top_index x = nat (snd (top_group [0..<10] x (0x7F, 0))) div 7"

definition subid_content :: "u64 \<Rightarrow> u8 list" where
  "subid_content x = groups (top_index x) x"

lemma and_group_zero: "x AND push_bit (7 * i) 0x7F = 0 \<Longrightarrow> drop_bit (7 * i) x AND (0x7F :: u64) = 0"
  using group_mask [of i x] by simp

lemma no_common_bits: "(\<And>j. bit x j \<Longrightarrow> j < m) \<Longrightarrow> m \<le> 7 * i \<Longrightarrow> x AND push_bit (7 * i) (0x7F :: u64) = 0"
  by (rule bit_word_eqI) (force simp: bit_and_iff bit_push_bit_iff)

lemma small_bits: "x \<le> MAX_SUBID \<Longrightarrow> bit x i \<Longrightarrow> i < 32"
proof -
  assume "x \<le> MAX_SUBID" and b: "bit x i"
  then have "unat x < 2 ^ 32" by (simp add: MAX_SUBID_def word_le_nat_alt)
  then have "take_bit 32 x = x" by (simp add: word_unat_eq_iff unsigned_take_bit_eq take_bit_nat_eq_self)
  then show "i < 32" using b by (metis bit_take_bit_iff)
qed

lemma top_index_spec:
  assumes "x \<le> MAX_SUBID"
  shows "top_group [0..<10] x (0x7F, 0) = (push_bit (7 * top_index x) 0x7F, int (7 * top_index x))"
    and "top_index x \<le> 4" and "take_bit (7 * Suc (top_index x)) x = x"
    and "top_index x = 0 \<or> x AND push_bit (7 * top_index x) 0x7F \<noteq> 0"
proof -
  obtain k where k: "k \<in> set (0 # [0..<10])"
      "top_group [0..<10] x (push_bit (7 * 0) 0x7F, int (7 * 0)) = (push_bit (7 * k) 0x7F, int (7 * k))"
      "k = 0 \<or> x AND push_bit (7 * k) 0x7F \<noteq> 0" "\<forall>i\<in>set [0..<10]. k < i \<longrightarrow> x AND push_bit (7 * i) 0x7F = 0"
    using top_group_spec [of 0 "[0..<10]" x] by auto
  have t: "top_index x = k" using k(2) by (simp add: top_index_def)
  show "top_index x = 0 \<or> x AND push_bit (7 * top_index x) 0x7F \<noteq> 0" using k(3) by (simp add: t)
  show "top_group [0..<10] x (0x7F, 0) = (push_bit (7 * top_index x) 0x7F, int (7 * top_index x))"
    using k(2) by (simp add: t)
  have "x AND push_bit (7 * k) 0x7F = 0" if "\<not> k \<le> 4"
    using small_bits [OF assms] that by (intro no_common_bits [of x 32]) auto
  then show "top_index x \<le> 4" using k(3) by (auto simp: t)
  show "take_bit (7 * Suc (top_index x)) x = x"
  proof (rule bit_word_eqI)
    fix i
    assume "i < LENGTH(64)"
    have "i < 7 * Suc k" if b: "bit x i"
    proof (rule ccontr)
      assume "\<not> i < 7 * Suc k"
      then have g: "k < i div 7" "i div 7 \<in> set [0..<10]" using small_bits [OF assms b] by auto
      then have "\<not> bit (x AND push_bit (7 * (i div 7)) 0x7F) i" using k(4) by simp
      moreover have "bit (push_bit (7 * (i div 7)) (0x7F :: u64)) i"
        using small_bits [OF assms b] by (simp only: bit_push_bit_iff bit_0x7F) simp
      ultimately show False using b by (simp only: bit_and_iff simp_thms)
    qed
    then show "bit (take_bit (7 * Suc (top_index x)) x) i = bit x i" by (auto simp: t bit_take_bit_iff)
  qed
qed

lemma length_subid_content: "x \<le> MAX_SUBID \<Longrightarrow> 1 \<le> length (subid_content x) \<and> length (subid_content x) \<le> 5"
  using top_index_spec(2) [of x] by (simp add: subid_content_def)

lemma subid_content_small:
  assumes "x < 127"
  shows "subid_content x = [ucast x]"
proof -
  have m: "x \<le> MAX_SUBID" using assms unfolding MAX_SUBID_def by (rule order.trans [OF less_imp_le]) simp
  have "unat x < 2 ^ 7" using assms by (simp add: word_less_nat_alt)
  then have s: "take_bit 7 x = x" by (simp add: word_unat_eq_iff unsigned_take_bit_eq take_bit_nat_eq_self)
  then have b: "bit x j \<Longrightarrow> j < 7" for j by (metis bit_take_bit_iff)
  have "x AND push_bit (7 * i) 0x7F = 0" if "0 < i" for i
    using b that by (intro no_common_bits [of x 7]) auto
  then have "top_index x = 0" using top_index_spec(4) [OF m] by blast
  moreover have "x AND 0x7F = x" using s by (simp only: mask_7 take_bit_eq_mask)
  ultimately show ?thesis by (simp add: subid_content_def)
qed

lemma build_subid_eq:
  assumes "x \<le> MAX_SUBID"
  shows "asn_build_subid x bp = put_all (subid_content x) bp"
proof (cases "x < 127")
  case True
  then show ?thesis by (simp add: asn_build_subid_def subid_content_small split: option.splits)
next
  case False
  have "top_index x < 9" using top_index_spec(2) [OF assms] by simp
  from emit_groups_eq [OF this] show ?thesis
    using False by (simp add: asn_build_subid_def top_index_spec(1) [OF assms] subid_content_def)
qed

lemma parse_groups:
  "k < 9 \<Longrightarrow> parse_subid acc (groups k x @ rest) =
    Some (push_bit (7 * Suc k) acc + take_bit (7 * Suc k) x, rest)"
proof (induction k arbitrary: acc)
  case 0
  have "(ucast (x AND 0x7F) :: u8) AND ASN_BIT8 = 0"
    unfolding ASN_BIT8_def high_bit by (simp only: bit_ucast_iff bit_and_iff bit_0x7F) simp
  moreover have "ucast ((ucast (x AND 0x7F) :: u8) AND NOT ASN_BIT8) = take_bit 7 x"
    by (rule bit_word_eqI)
      (simp only: ASN_BIT8_def bit_and_iff bit_ucast_iff bit_0x7F bit_high bit_not_iff bit_take_bit_iff
        possible_bit_word, auto)
  ultimately show ?case by simp
next
  case (Suc k)
  let ?b = "ucast (drop_bit (7 * Suc k) x AND 0x7F) OR ASN_BIT8 :: u8"
  have h: "?b AND ASN_BIT8 \<noteq> 0"
    unfolding ASN_BIT8_def high_bit by (simp only: bit_or_iff bit_high simp_thms)
  have v: "ucast (?b AND NOT ASN_BIT8) = take_bit 7 (drop_bit (7 * Suc k) x)"
    by (rule bit_word_eqI)
      (simp only: ASN_BIT8_def bit_and_iff bit_or_iff bit_ucast_iff bit_0x7F bit_high bit_not_iff
        bit_take_bit_iff bit_drop_bit_eq possible_bit_word, auto)
  have "push_bit n (drop_bit n (take_bit (n + 7) x)) + take_bit n (take_bit (n + 7) x) = take_bit (n + 7) x" for n
    by (rule bits_ident)
  from this [of "7 * Suc k"]
  have "push_bit (7 * Suc k) (take_bit 7 (drop_bit (7 * Suc k) x)) + take_bit (7 * Suc k) x =
      take_bit (7 * Suc (Suc k)) x"
    by (simp add: drop_bit_take_bit min_def add.commute)
  then show ?case using h v Suc by (simp add: Let_def push_bit_add)
qed

lemma parse_subid_content:
  assumes "x \<le> MAX_SUBID"
  shows "parse_subid 0 (subid_content x @ rest) = Some (x, rest)"
  using parse_groups [of "top_index x" 0 x rest] top_index_spec(2, 3) [OF assms]
  by (simp add: subid_content_def)

definition subids_content :: "u64 list \<Rightarrow> u8 list" where
  "subids_content xs = concat (map subid_content xs)"

lemma subids_content_simps [simp]:
  "subids_content [] = []"
  "subids_content (x # xs) = subid_content x @ subids_content xs"
  by (simp_all add: subids_content_def)

lemma put_all_append:
  "put_all (bs @ cs) out = (case put_all bs out of None \<Rightarrow> None | Some out \<Rightarrow> put_all cs out)"
  by (induction bs arbitrary: out) (simp_all split: option.splits)

lemma build_subids_eq:
  "\<forall>x\<in>set xs. x \<le> MAX_SUBID \<Longrightarrow> build_subids xs bp = put_all (subids_content xs) bp"
  by (induction xs arbitrary: bp) (simp_all add: build_subid_eq put_all_append split: option.splits)

lemma length_subids_content:
  "\<forall>x\<in>set xs. x \<le> MAX_SUBID \<Longrightarrow>
    length xs \<le> length (subids_content xs) \<and> length (subids_content xs) \<le> 5 * length xs"
  by (induction xs) (auto dest!: length_subid_content)

lemma parse_subids_content:
  "\<forall>x\<in>set xs. x \<le> MAX_SUBID \<Longrightarrow> length xs \<le> room \<Longrightarrow>
    parse_subids room (int (length (subids_content xs))) (subids_content xs @ rest) = Some (Inr (xs, rest))"
proof (induction xs arbitrary: room)
  case Nil
  then show ?case by (cases room) simp_all
next
  case (Cons x xs)
  then obtain r where r: "room = Suc r" by (cases room) auto
  have x: "x \<le> MAX_SUBID" and xs: "\<forall>x\<in>set xs. x \<le> MAX_SUBID" "length xs \<le> r" using Cons.prems r by simp_all
  have "0 < int (length (subid_content x)) + int (length (subids_content xs))"
    using length_subid_content [OF x] by linarith
  then show ?case using Cons.IH [OF xs] x
    by (simp add: r parse_subid_content not_less)
qed

text \<open>The identifiers a message can carry: the first two sub identifiers share an octet group.\<close>

definition oid_ok :: "u64 list \<Rightarrow> bool" where
  "oid_ok objid \<longleftrightarrow> 2 \<le> length objid \<and> length objid \<le> 128 \<and> (\<forall>x\<in>set (drop 2 objid). x \<le> MAX_SUBID) \<and>
     (objid ! 0 < 2 \<and> objid ! 1 < 40 \<or> objid ! 0 = 2 \<and> objid ! 1 \<le> MAX_SUBID - 80)"

definition joined :: "u64 list \<Rightarrow> u64 list" where
  "joined objid = (objid ! 1 + objid ! 0 * 40) # drop 2 objid"

lemma joined_facts:
  assumes "oid_ok objid"
  shows "\<forall>x\<in>set (joined objid). x \<le> MAX_SUBID" and "length (joined objid) = length objid - 1"
    and "first_subids (hd (joined objid)) @ tl (joined objid) = objid"
proof -
  obtain a ys where ys: "objid = a # ys" using assms by (cases objid) (auto simp: oid_ok_def)
  obtain b xs where "ys = b # xs" using assms by (cases ys) (auto simp: oid_ok_def ys)
  with ys have o: "objid = a # b # xs" by simp
  have a: "a = 0 \<and> b < 40 \<or> a = 1 \<and> b < 40 \<or> a = 2 \<and> b \<le> MAX_SUBID - 80"
  proof -
    have "a = 0 \<or> a = 1" if "a < 2"
    proof -
      have "unat a = 0 \<or> unat a = 1" using that by (simp add: word_less_nat_alt less_2_cases_iff)
      then show ?thesis by (simp add: word_unat_eq_iff)
    qed
    moreover have "a < 2 \<and> b < 40 \<or> a = 2 \<and> b \<le> MAX_SUBID - 80"
      using assms by (simp add: oid_ok_def o)
    ultimately show ?thesis by blast
  qed
  have u: "unat (b + 40) = unat b + 40" if "b < 40"
    using that by (simp add: word_less_nat_alt unat_word_ariths)
  have w: "unat (b + 80) = unat b + 80" if "b \<le> MAX_SUBID - 80"
    using that by (simp add: word_le_nat_alt unat_word_ariths MAX_SUBID_def)
  from a have "b + a * 40 \<le> MAX_SUBID \<and> first_subids (b + a * 40) = [a, b]"
  proof (elim disjE conjE)
    assume a0: "a = 0" and b: "b < 40"
    have "b + a * 40 = b" by (simp add: a0)
    then show ?thesis using b unfolding a0
      by (auto simp: first_subids_def MAX_SUBID_def word_le_nat_alt word_less_nat_alt word_unat_eq_iff)
  next
    assume a1: "a = 1" and b: "b < 40"
    have "b + a * 40 = b + 40" by (simp add: a1)
    then show ?thesis using u [OF b] b unfolding a1
      by (auto simp: first_subids_def MAX_SUBID_def word_le_nat_alt word_less_nat_alt word_unat_eq_iff)
  next
    assume a2: "a = 2" and b: "b \<le> MAX_SUBID - 80"
    have "b + a * 40 = b + 80" by (simp add: a2)
    then show ?thesis using w [OF b] b unfolding a2
      by (auto simp: first_subids_def MAX_SUBID_def word_le_nat_alt word_less_nat_alt word_unat_eq_iff)
  qed
  then show "\<forall>x\<in>set (joined objid). x \<le> MAX_SUBID" "first_subids (hd (joined objid)) @ tl (joined objid) = objid"
    using assms by (auto simp: joined_def o oid_ok_def)
  show "length (joined objid) = length objid - 1" by (simp add: joined_def o)
qed

lemma objid_content_eq:
  assumes "oid_ok objid"
  shows "objid_content objid (int (length objid)) = Some (subids_content (joined objid))"
proof -
  note j = joined_facts [OF assms]
  have len: "2 \<le> length objid" "length objid \<le> 128" using assms by (simp_all add: oid_ok_def)
  have "length (subids_content (joined objid)) \<le> 640"
    using length_subids_content [OF j(1)] len unfolding j(2) by linarith
  moreover have "min (int (length objid)) MAX_OID_LEN = int (length objid)"
    using len by (simp add: MAX_OID_LEN_def)
  moreover have "build_subids ((objid ! 1 + objid ! 0 * 40) # drop 2 objid) bp =
      put_all (subids_content (joined objid)) bp" for bp
    using build_subids_eq [OF j(1)] by (simp only: joined_def)
  ultimately show ?thesis using len
    by (simp add: objid_content_def Let_def put_all_eq written_def del: build_subids.simps One_nat_def)
qed

lemma builds_objid:
  "oid_ok objid \<Longrightarrow> builds (\<lambda>out d. asn_build_objid out d type objid (int (length objid)))
    (ber_obj type (subids_content (joined objid)))"
  by (rule builds_object) (simp_all add: asn_build_objid_def objid_content_eq cong: if_cong)

lemma parses_objid:
  assumes "oid_ok objid" and "int (length objid) \<le> room"
  shows "parses (\<lambda>data d. asn_parse_objid data d room) (ber_obj 6 (subids_content (joined objid))) (6, objid)"
  unfolding parses_def
proof (intro allI impI)
  fix rest d
  let ?c = "subids_content (joined objid)"
  assume d: "int (length (ber_obj 6 ?c)) \<le> d" "d < 2 ^ 31"
  note fit = object_fits_data [OF d]
  note j = joined_facts [OF assms(1)]
  have "length ?c < 2 ^ 31" using d by (simp add: length_ber_obj)
  then have l: "sint (of_nat (length ?c) :: u64) = int (length ?c)" by (rule sint_of_small)
  have "length (joined objid) \<le> nat (room - 1)" using j(2) assms(2) by simp
  from parse_subids_content [OF j(1) this]
  have p: "parse_subids (nat (room - 1)) (int (length ?c)) (?c @ rest) = Some (Inr (joined objid, rest))" .
  obtain y ys where y: "joined objid = y # ys" by (simp add: joined_def)
  then show "asn_parse_objid (ber_obj 6 ?c @ rest) d room = Some (Inr (rest, d - int (length (ber_obj 6 ?c)), 6, objid))"
    using fit(1, 2, 5) p l j(3)
    by (simp add: asn_parse_objid_def obj_data Let_def)
qed

interpretation objid: ber_codec "\<lambda>out d objid. asn_build_objid out d 6 objid (int (length objid))"
  "\<lambda>data d. asn_parse_objid data d room" "\<lambda>objid. ber_obj 6 (subids_content (joined objid))"
  "\<lambda>objid. (6, objid)" "\<lambda>objid. oid_ok objid \<and> int (length objid) \<le> room" for room
  by unfold_locales (auto intro: builds_objid parses_objid)

end
