(* ===== verification/Snmp_Message_Codec.thy ===== *)
theory Snmp_Message_Codec
  imports Snmp_Message Snmp_Counter64 Snmp_Objid
begin

section \<open>The encoding of messages\<close>

text \<open>
  The bytes of a variable binding, a list of them, a PDU and a community message, as nested objects; what
  a successful call of a builder has written, and what the parsers make of these bytes.
\<close>

subsection \<open>Variable bindings\<close>

definition vb_content :: "variable_list \<Rightarrow> u8 list" where
  "vb_content vb = (case vb_val vb of
     Int_val v \<Rightarrow> if vb_type vb = ASN_INTEGER then int_content v else uint_content v
   | Ctr_val c \<Rightarrow> int64_content c
   | Str_val s \<Rightarrow> s
   | Oid_val ids \<Rightarrow> subids_content (joined ids)
   | No_val \<Rightarrow> []
   | Garbage \<Rightarrow> [])"

text \<open>The bindings a message can carry unchanged, with the value length the builder expects.\<close>

definition vb_ok :: "variable_list \<Rightarrow> bool" where
  "vb_ok vb \<longleftrightarrow> oid_ok (vb_name vb) \<and> (case vb_val vb of
     Int_val v \<Rightarrow> vb_val_len vb = 8 \<and> (vb_type vb = ASN_INTEGER \<or>
       vb_type vb \<in> {SMI_GAUGE, SMI_COUNTER, SMI_TIMETICKS, SMI_UINTEGER} \<and> v < 2 ^ 32)
   | Ctr_val c \<Rightarrow> vb_val_len vb = 16 \<and> vb_type vb = SMI_COUNTER64 \<and> high c < 2 ^ 32 \<and> low c < 2 ^ 32
   | Str_val s \<Rightarrow> vb_val_len vb = int (length s) \<and>
       vb_type vb \<in> {ASN_OCTET_STR, SMI_IPADDRESS, SMI_OPAQUE, SMI_NSAP}
   | Oid_val ids \<Rightarrow> vb_val_len vb = 8 * int (length ids) \<and> vb_type vb = ASN_OBJECT_ID \<and> oid_ok ids
   | No_val \<Rightarrow> vb_val_len vb = 0 \<and>
       vb_type vb \<in> {ASN_NULL, SNMP_NOSUCHOBJECT, SNMP_NOSUCHINSTANCE, SNMP_ENDOFMIBVIEW}
   | Garbage \<Rightarrow> False)"

text \<open>What the parser stores: it counts an identifier in sub identifiers, where the builder wants bytes.\<close>

definition received :: "variable_list \<Rightarrow> variable_list" where
  "received vb = (case vb_val vb of Oid_val ids \<Rightarrow> vb\<lparr>vb_val_len := int (length ids)\<rparr> | _ \<Rightarrow> vb)"

definition var_inner :: "variable_list \<Rightarrow> u8 list" where
  "var_inner vb = ber_obj ASN_OBJECT_ID (subids_content (joined (vb_name vb))) @ ber_obj (vb_type vb) (vb_content vb)"

definition var_bytes :: "variable_list \<Rightarrow> u8 list" where
  "var_bytes vb = ber_obj ASN_SEQ_CON (var_inner vb)"

lemma builds_value:
  assumes "vb_ok vb"
  shows "builds (build_value vb) (ber_obj (vb_type vb) (vb_content vb))"
proof (cases "vb_val vb")
  case (Int_val v)
  show ?thesis
  proof (cases "vb_type vb = ASN_INTEGER")
    case True
    have "build_value vb = (\<lambda>out d. asn_build_int out d (vb_type vb) v)"
      using assms Int_val True by (simp add: vb_ok_def build_value_def fun_eq_iff)
    then show ?thesis using builds_int Int_val True by (simp add: vb_content_def)
  next
    case False
    have "build_value vb = (\<lambda>out d. asn_build_unsigned_int out d (vb_type vb) v)"
      using assms Int_val False by (auto simp: vb_ok_def build_value_def fun_eq_iff)
    then show ?thesis using builds_uint Int_val False by (simp add: vb_content_def)
  qed
next
  case (Ctr_val c)
  have "build_value vb = (\<lambda>out d. asn_build_unsigned_int64 out d (vb_type vb) c)"
    using assms Ctr_val by (simp add: vb_ok_def build_value_def fun_eq_iff message_consts)
  then show ?thesis using builds_int64 Ctr_val by (simp add: vb_content_def)
next
  case (Str_val s)
  have "build_value vb = (\<lambda>out d. asn_build_string out d (vb_type vb) s (int (length s)))"
    using assms Str_val by (auto simp: vb_ok_def build_value_def fun_eq_iff message_consts)
  then show ?thesis using builds_string Str_val by (simp add: vb_content_def)
next
  case (Oid_val ids)
  have len: "length ids \<le> 128" using assms Oid_val by (simp add: vb_ok_def oid_ok_def)
  have "unat (ulong (8 * int (length ids))) = 8 * length ids"
  proof -
    have "ulong (8 * int (length ids)) = of_nat (8 * length ids)" by (simp add: ulong_def)
    then show ?thesis using len by (simp add: unsigned_of_nat take_bit_nat_eq_self del: of_nat_mult)
  qed
  then have "ulong (8 * int (length ids)) div 8 = of_nat (length ids)"
    using len by (simp add: word_unat_eq_iff unat_div_distrib unsigned_of_nat take_bit_nat_eq_self)
  then have "to_int (ulong (8 * int (length ids)) div 8) = int (length ids)"
    using len by (simp add: to_int_of_nat)
  then have "build_value vb = (\<lambda>out d. asn_build_objid out d (vb_type vb) ids (int (length ids)))"
    using assms Oid_val by (simp add: vb_ok_def build_value_def fun_eq_iff message_consts)
  then show ?thesis using builds_objid assms Oid_val by (simp add: vb_content_def vb_ok_def)
next
  case No_val
  have "build_value vb = (\<lambda>out d. asn_build_null out d (vb_type vb))"
    using assms No_val by (auto simp: vb_ok_def build_value_def fun_eq_iff message_consts)
  then show ?thesis using builds_null No_val by (simp add: vb_content_def)
next
  case Garbage
  then show ?thesis using assms by (simp add: vb_ok_def)
qed

lemma builds_name_value:
  assumes "vb_ok vb"
  shows "builds (\<lambda>out d. on_ok (asn_build_objid out d ASN_OBJECT_ID (vb_name vb) (int (length (vb_name vb))))
    (\<lambda>(out, d). build_value vb out d)) (var_inner vb)"
  unfolding var_inner_def using assms
  by (intro builds_then builds_value builds_objid) (simp_all add: vb_ok_def)

lemma take_written_0: "take (length bs) (written buf 0 bs) = bs"
  by (simp add: written_def)

lemma local_buffer_fit:
  assumes "builds build bs" and "length bs \<le> n" and "int (length bs) \<le> d"
  shows "build (local_buffer n) d =
    Some (Inr ((written (replicate n 0) 0 bs, length bs), d - int (length bs)))"
  using builds_fit [OF assms(1), of 0 "replicate n 0" d] assms(2, 3) by (simp add: local_buffer_def)

lemma local_buffer_cases:
  assumes "builds build bs" and "build (local_buffer n) (int n) = Some (Inr ((buf, pos), d))"
  shows "buf = written (replicate n 0) 0 bs" and "pos = length bs" and "d = int n - int (length bs)"
    and "length bs \<le> n" and "take pos buf = bs"
proof -
  note c = builds_cases [OF assms(1), of "int n" "replicate n 0" 0 buf pos d]
  show *: "buf = written (replicate n 0) 0 bs" "pos = length bs" "d = int n - int (length bs)" "length bs \<le> n"
    using c assms(2) by (simp_all add: local_buffer_def)
  show "take pos buf = bs" using * by (simp add: written_def)
qed

text \<open>A binding is built when its name and value fit in the local buffer.\<close>

lemma var_op_eq:
  assumes "vb_ok vb"
  shows "snmp_build_var_op vb data d =
    (if length (var_inner vb) \<le> MAX_SNMP_PACKET
     then on_ok (asn_build_sequence data d ASN_SEQ_CON (int (length (var_inner vb)))) (\<lambda>(data, d).
       if d < int (length (var_inner vb)) then Some (Inl Buffer_Full) else emit (var_inner vb) data d)
     else Some (Inl Buffer_Full))"
proof -
  let ?build = "\<lambda>out d. on_ok (asn_build_objid out d ASN_OBJECT_ID (vb_name vb) (int (length (vb_name vb))))
    (\<lambda>(out, d). build_value vb out d)"
  have split: "snmp_build_var_op vb data d = on_ok (?build (local_buffer MAX_SNMP_PACKET) (int MAX_SNMP_PACKET))
      (\<lambda>((buf, valueLen), l).
        on_ok (asn_build_sequence data d ASN_SEQ_CON (int valueLen)) (\<lambda>(data, listlength).
          if listlength < int valueLen then Some (Inl Buffer_Full)
          else emit (take valueLen buf) data listlength))"
    by (simp add: snmp_build_var_op_def on_ok_def split: option.splits sum.splits)
  show ?thesis
  proof (cases "length (var_inner vb) \<le> MAX_SNMP_PACKET")
    case True
    then show ?thesis unfolding split
      by (subst local_buffer_fit [OF builds_name_value [OF assms]]) (simp_all add: written_def cong: if_cong)
  next
    case False
    then have "?build (local_buffer MAX_SNMP_PACKET) (int MAX_SNMP_PACKET) = Some (Inl Buffer_Full)"
      unfolding local_buffer_def by (intro builds_full [OF builds_name_value [OF assms]]) auto
    then show ?thesis unfolding split using False by simp
  qed
qed

lemma builds_var_op:
  assumes "vb_ok vb" and "length (var_inner vb) \<le> MAX_SNMP_PACKET"
  shows "builds (snmp_build_var_op vb) (var_bytes vb)"
proof -
  have "builds (\<lambda>out d. on_ok (asn_build_sequence out d ASN_SEQ_CON (int (length (var_inner vb)))) (\<lambda>(out, d).
      if d < int (length (var_inner vb)) then Some (Inl Buffer_Full) else emit (var_inner vb) out d))
      ((ASN_SEQ_CON # ber_len (length (var_inner vb))) @ var_inner vb)"
    by (intro builds_then builds_sequence builds_guard refl)
  moreover have "snmp_build_var_op vb = (\<lambda>out d. on_ok (asn_build_sequence out d ASN_SEQ_CON (int (length (var_inner vb))))
      (\<lambda>(out, d). if d < int (length (var_inner vb)) then Some (Inl Buffer_Full) else emit (var_inner vb) out d))"
    using assms by (simp add: var_op_eq fun_eq_iff)
  ultimately show ?thesis by (simp add: var_bytes_def ber_obj_def)
qed

definition vars_bytes :: "variable_list list \<Rightarrow> u8 list" where
  "vars_bytes vbs = concat (map var_bytes vbs)"

lemma vars_bytes_simps [simp]:
  "vars_bytes [] = []"
  "vars_bytes (vb # vbs) = var_bytes vb @ vars_bytes vbs"
  by (simp_all add: vars_bytes_def)

lemma on_ok_return: "on_ok m (\<lambda>(a, b). Some (Inr (a, b))) = m"
  by (auto simp: on_ok_def split: option.splits sum.splits)

lemma builds_vars:
  assumes "vbs \<noteq> []" and "\<forall>vb\<in>set vbs. vb_ok vb \<and> length (var_inner vb) \<le> MAX_SNMP_PACKET"
  shows "builds (build_vars vbs) (vars_bytes vbs)"
  using assms
proof (induction vbs rule: list_nonempty_induct)
  case (single vb)
  have "build_vars [vb] = snmp_build_var_op vb" by (simp add: fun_eq_iff on_ok_return)
  then show ?case using single builds_var_op by simp
next
  case (cons vb vbs)
  have "build_vars (vb # vbs) = (\<lambda>out d. on_ok (snmp_build_var_op vb out d) (\<lambda>(out, d). build_vars vbs out d))"
    by (simp add: fun_eq_iff)
  moreover have "builds (\<lambda>out d. on_ok (snmp_build_var_op vb out d) (\<lambda>(out, d). build_vars vbs out d))
      (var_bytes vb @ vars_bytes vbs)"
    using cons by (intro builds_then builds_var_op) auto
  ultimately show ?case by simp
qed

lemma vars_small:
  "build_vars vbs out d = Some (Inr r) \<Longrightarrow> \<forall>vb\<in>set vbs. vb_ok vb \<Longrightarrow>
    \<forall>vb\<in>set vbs. length (var_inner vb) \<le> MAX_SNMP_PACKET"
proof (induction vbs arbitrary: out d)
  case (Cons vb vbs)
  obtain x where x: "snmp_build_var_op vb out d = Some (Inr x)" "build_vars vbs (fst x) (snd x) = Some (Inr r)"
    using Cons.prems(1) by (auto elim!: on_ok_InrE)
  have "length (var_inner vb) \<le> MAX_SNMP_PACKET"
    using x(1) Cons.prems(2) by (auto simp: var_op_eq split: if_splits)
  then show ?case using Cons.IH [OF x(2)] Cons.prems(2) by simp
qed simp

lemma vars_cases:
  assumes "\<forall>vb\<in>set vbs. vb_ok vb" and "build_vars vbs (local_buffer n) (int n) = Some (Inr ((buf, pos), d))"
  shows "take pos buf = vars_bytes vbs" and "pos = length (vars_bytes vbs)" and "d = int n - int pos" and "pos \<le> n"
    and "\<forall>vb\<in>set vbs. length (var_inner vb) \<le> MAX_SNMP_PACKET"
proof -
  show small: "\<forall>vb\<in>set vbs. length (var_inner vb) \<le> MAX_SNMP_PACKET" by (rule vars_small [OF assms(2, 1)])
  have "take pos buf = vars_bytes vbs \<and> pos = length (vars_bytes vbs) \<and> d = int n - int pos \<and> pos \<le> n"
  proof (cases "vbs = []")
    case True
    then show ?thesis using assms(2) by (simp add: local_buffer_def)
  next
    case False
    have "builds (build_vars vbs) (vars_bytes vbs)" using False assms(1) small by (intro builds_vars) auto
    from local_buffer_cases [OF this assms(2)] show ?thesis by simp
  qed
  then show "take pos buf = vars_bytes vbs" "pos = length (vars_bytes vbs)" "d = int n - int pos" "pos \<le> n"
    by blast+
qed

subsection \<open>PDUs and messages\<close>

lemma copy_in_eq: "pos + length bs \<le> length buf \<Longrightarrow> copy_in bs (buf, pos) = Some (Inr (written buf pos bs, pos + length bs))"
  by (simp add: copy_in_def put_all_eq)

lemma build_vb_cases:
  assumes "\<forall>vb\<in>set (variables pdu). vb_ok vb" and "buf_len \<le> int (length buf) - int pos"
    and "build_vb pdu (buf, pos) buf_len = Some (Inr (buf', pos'))"
  shows "buf' = written buf pos (ber_obj ASN_SEQ_CON (vars_bytes (variables pdu)))"
    and "pos' = pos + length (ber_obj ASN_SEQ_CON (vars_bytes (variables pdu)))" and "pos' \<le> length buf"
    and "\<forall>vb\<in>set (variables pdu). length (var_inner vb) \<le> MAX_SNMP_PACKET"
    and "length (vars_bytes (variables pdu)) \<le> MAX_SNMP_PACKET"
proof -
  let ?bs = "vars_bytes (variables pdu)"
  obtain tmp k l where v: "build_vars (variables pdu) (local_buffer MAX_SNMP_PACKET) (int MAX_SNMP_PACKET) =
      Some (Inr ((tmp, k), l))"
    and h: "on_ok (asn_build_header (buf, pos) (buf_len - int k) ASN_SEQ_CON (int k)) (\<lambda>(cp, buf_len).
      copy_in (take k tmp) cp) = Some (Inr (buf', pos'))"
    using assms(3) by (auto simp: build_vb_def Let_def split: if_splits elim!: on_ok_InrE)
  note k = vars_cases [OF assms(1) v]
  obtain b p d where b: "asn_build_header (buf, pos) (buf_len - int k) ASN_SEQ_CON (int k) = Some (Inr ((b, p), d))"
    and c: "copy_in ?bs (b, p) = Some (Inr (buf', pos'))"
    using h k(1) by (auto elim!: on_ok_InrE)
  note h = builds_cases [OF builds_header _ b]
  have fit: "pos + length (ASN_SEQ_CON # ber_len k) \<le> length buf" "p = pos + length (ASN_SEQ_CON # ber_len k)"
    "b = written buf pos (ASN_SEQ_CON # ber_len k)" "int (length (ASN_SEQ_CON # ber_len k)) \<le> buf_len - int k"
    using h assms(2) by auto
  have w: "p + length ?bs \<le> length b" using fit assms(2) k(2) by simp
  have "buf' = written b p ?bs" "pos' = p + length ?bs" using c copy_in_eq [OF w] by auto
  then show "buf' = written buf pos (ber_obj ASN_SEQ_CON ?bs)" "pos' = pos + length (ber_obj ASN_SEQ_CON ?bs)"
      "pos' \<le> length buf"
    using w fit k(2) written_append [of pos "ASN_SEQ_CON # ber_len k" ?bs buf]
    by (simp_all add: ber_obj_def)
  show "\<forall>vb\<in>set (variables pdu). length (var_inner vb) \<le> MAX_SNMP_PACKET" by (rule k(5))
  show "length ?bs \<le> MAX_SNMP_PACKET" using k(2, 4) by simp
qed

definition int_obj :: "u64 \<Rightarrow> u8 list" where
  "int_obj v = ber_obj ASN_INTEGER (int_content v)"

definition pdu_fields :: "snmp_pdu \<Rightarrow> u8 list" where
  "pdu_fields pdu = (if command pdu \<noteq> TRP_REQ_MSG
     then int_obj (reqid pdu) @ int_obj (errstat pdu) @ int_obj (errindex pdu)
     else ber_obj ASN_OBJECT_ID (subids_content (joined (enterprise pdu))) @
       ber_obj SMI_IPADDRESS (agent_addr pdu) @ int_obj (word_of_int (trap_type pdu)) @
       int_obj (word_of_int (specific_type pdu)) @ ber_obj SMI_TIMETICKS (uint_content (pdu_time pdu)))"

text \<open>The fields that fit the message: 32 bit integers in a trap, and a type octet for the command.\<close>

definition pdu_ok :: "snmp_pdu \<Rightarrow> bool" where
  "pdu_ok pdu \<longleftrightarrow> 0 \<le> command pdu \<and> command pdu < 256 \<and>
     (word_of_int (command pdu) :: u8) AND ASN_EXTENSION_ID \<noteq> ASN_EXTENSION_ID \<and>
     (\<forall>vb\<in>set (variables pdu). vb_ok vb) \<and>
     (command pdu = TRP_REQ_MSG \<longrightarrow> oid_ok (enterprise pdu) \<and> length (agent_addr pdu) = 4 \<and>
        - (2 ^ 31) \<le> trap_type pdu \<and> trap_type pdu < 2 ^ 31 \<and>
        - (2 ^ 31) \<le> specific_type pdu \<and> specific_type pdu < 2 ^ 31 \<and> pdu_time pdu < 2 ^ 32)"

lemma builds_pdu_fields:
  assumes "pdu_ok pdu"
  shows "builds (build_pdu_fields pdu) (pdu_fields pdu)"
proof (cases "command pdu = TRP_REQ_MSG")
  case False
  then have "build_pdu_fields pdu = (\<lambda>cp l. on_ok (asn_build_int cp l ASN_INTEGER (reqid pdu)) (\<lambda>(cp, l).
       on_ok (asn_build_int cp l ASN_INTEGER (errstat pdu)) (\<lambda>(cp, l).
       asn_build_int cp l ASN_INTEGER (errindex pdu))))"
    by (simp add: build_pdu_fields_def fun_eq_iff)
  then show ?thesis using False
    by (simp only: pdu_fields_def int_obj_def if_True simp_thms) (intro builds_then builds_int)
next
  case True
  then have "build_pdu_fields pdu = (\<lambda>cp l.
       on_ok (asn_build_objid cp l ASN_OBJECT_ID (enterprise pdu) (int (length (enterprise pdu)))) (\<lambda>(cp, l).
       on_ok (asn_build_string cp l SMI_IPADDRESS (agent_addr pdu) 4) (\<lambda>(cp, l).
       on_ok (asn_build_int cp l ASN_INTEGER (word_of_int (trap_type pdu))) (\<lambda>(cp, l).
       on_ok (asn_build_int cp l ASN_INTEGER (word_of_int (specific_type pdu))) (\<lambda>(cp, l).
       asn_build_unsigned_int cp l SMI_TIMETICKS (pdu_time pdu))))))"
    by (simp add: build_pdu_fields_def fun_eq_iff)
  moreover have "oid_ok (enterprise pdu)" "int (length (agent_addr pdu)) = 4"
    using assms True by (simp_all add: pdu_ok_def)
  ultimately show ?thesis using True
    by (simp only: pdu_fields_def int_obj_def if_False simp_thms)
      (intro builds_then builds_int builds_uint builds_objid builds_string; simp)
qed

lemma build_data_pdu_cases:
  assumes "pdu_ok pdu"
    and "build_data_pdu pdu (local_buffer n) (int n) vb_buf = Some (Inr (buf, pos))"
  shows "take pos buf = ber_obj (word_of_int (command pdu)) (pdu_fields pdu @ vb_buf)"
    and "pos = length (ber_obj (word_of_int (command pdu)) (pdu_fields pdu @ vb_buf))" and "pos \<le> n"
proof -
  let ?t = "word_of_int (command pdu) :: u8" and ?c = "pdu_fields pdu @ vb_buf"
  obtain tmp k l where f: "build_pdu_fields pdu (local_buffer MAX_SNMP_PACKET) (int MAX_SNMP_PACKET) =
      Some (Inr ((tmp, k), l))"
    and h: "on_ok (asn_build_header (local_buffer n) (int n) ?t (int (k + length vb_buf))) (\<lambda>(cp, buf_len).
      if buf_len < int (k + length vb_buf) then Some (Inl Buffer_Full)
      else copy_in (take k tmp @ vb_buf) cp) = Some (Inr (buf, pos))"
    using assms(2) by (auto simp: build_data_pdu_def Let_def split: if_splits elim!: on_ok_InrE)
  note k = local_buffer_cases [OF builds_pdu_fields [OF assms(1)] f]
  obtain b p d where b: "asn_build_header (local_buffer n) (int n) ?t (int (length ?c)) = Some (Inr ((b, p), d))"
    and c: "copy_in ?c (b, p) = Some (Inr (buf, pos))" and d: "int (length ?c) \<le> d"
    using h k(2, 5) by (auto elim!: on_ok_InrE split: if_splits)
  note hd = local_buffer_cases [OF builds_header b]
  have w: "p + length ?c \<le> length b" using hd d by simp
  have "buf = written b p ?c" "pos = p + length ?c" using c copy_in_eq [OF w] by auto
  then have buf: "buf = written (replicate n 0) 0 (ber_obj ?t ?c)" and pos: "pos = length (ber_obj ?t ?c)"
    using w hd(1, 2, 4) written_append [of 0 "?t # ber_len (length ?c)" ?c "replicate n 0"]
    by (simp_all add: ber_obj_def)
  show "take pos buf = ber_obj ?t ?c" unfolding buf pos by (rule take_written_0)
  show "pos = length (ber_obj ?t ?c)" by (rule pos)
  show "pos \<le> n" using w hd(1, 2, 4) pos by (simp add: length_ber_obj)
qed

lemma parse_int_obj:
  "int (length (int_obj v)) \<le> d \<Longrightarrow> d < 2 ^ 31 \<Longrightarrow>
    asn_parse_int (int_obj v @ rest) d = Some (Inr (rest, d - int (length (int_obj v)), ASN_INTEGER, v))"
  unfolding int_obj_def by (rule parsesD [OF parses_int]) (simp_all add: int_types_def ASN_INTEGER_def)

end
