(* ===== verification/Snmp_Roundtrip.thy ===== *)
theory Snmp_Roundtrip
  imports Snmp_Message_Codec
begin

section \<open>Messages are read back\<close>

text \<open>
  What \<open>snmp_build\<close> writes, and that \<open>snmp_parse\<close> gets the PDU, the community and the version back.
\<close>

definition pdu_bytes :: "snmp_pdu \<Rightarrow> u8 list" where
  "pdu_bytes pdu = ber_obj (word_of_int (command pdu))
     (pdu_fields pdu @ ber_obj ASN_SEQ_CON (vars_bytes (variables pdu)))"

definition message_bytes :: "u64 \<Rightarrow> u8 list \<Rightarrow> snmp_pdu \<Rightarrow> u8 list" where
  "message_bytes version community pdu =
     ber_obj ASN_SEQ_CON (int_obj version @ ber_obj ASN_OCTET_STR community @ pdu_bytes pdu)"

text \<open>The bytes the code sends: the length in the header counts the version and the community header as 5.\<close>

definition sent_bytes :: "u64 \<Rightarrow> u8 list \<Rightarrow> snmp_pdu \<Rightarrow> u8 list" where
  "sent_bytes version community pdu =
     ((ASN_SEQ_CON # ber_len (length (pdu_bytes pdu) + length community + 5)) @
       int_obj version @ ber_obj ASN_OCTET_STR community) @ pdu_bytes pdu"

lemma builds_auth:
  "builds (\<lambda>out l. snmp_auth_build out l version community (int (length community)) (int n))
    ((ASN_SEQ_CON # ber_len (n + length community + 5)) @ int_obj version @ ber_obj ASN_OCTET_STR community)"
proof -
  have "int n + int (length community) + 5 = int (n + length community + 5)" by simp
  then show ?thesis
    unfolding snmp_auth_build_def int_obj_def
    by (simp only:) (intro builds_then builds_sequence builds_int builds_string refl)
qed

lemma small_version:
  assumes "version = SNMP_VERSION_1 \<or> version = SNMP_VERSION_2C"
  shows "length (int_obj version) = 3"
proof -
  have "int_content 0 = [0]" "int_content 1 = [1]" by (simp_all add: int_content_eval)
  then show ?thesis using assms
    by (auto simp: int_obj_def ber_obj_def ber_len_def SNMP_VERSION_1_def SNMP_VERSION_2C_def)
qed

lemma sent_eq:
  assumes "version = SNMP_VERSION_1 \<or> version = SNMP_VERSION_2C" and "length community < 128"
  shows "sent_bytes version community pdu = message_bytes version community pdu"
proof -
  have "length (int_obj version @ ber_obj ASN_OCTET_STR community @ pdu_bytes pdu) =
      length (pdu_bytes pdu) + length community + 5"
    using small_version [OF assms(1)] assms(2) by (simp add: length_ber_obj ber_len_def)
  then show ?thesis unfolding sent_bytes_def message_bytes_def ber_obj_def [of ASN_SEQ_CON]
    by (simp only: append_assoc append_Cons append_Nil)
qed

lemma snmp_build_bytes:
  assumes ok: "pdu_ok pdu" and room: "out_length \<le> int (length packet)"
    and built: "snmp_build pdu packet out_length version community (int (length community)) =
      Some (Inr (packet', n))"
  shows "take (nat n) packet' = sent_bytes version community pdu"
    and "n = int (length (sent_bytes version community pdu))" and "length packet' = length packet"
    and "n \<le> out_length"
    and "\<forall>vb\<in>set (variables pdu). length (var_inner vb) \<le> MAX_SNMP_PACKET"
    and "length (vars_bytes (variables pdu)) \<le> MAX_SNMP_PACKET" and "length (pdu_bytes pdu) \<le> MAX_SNMP_PACKET"
proof -
  let ?vbs = "ber_obj ASN_SEQ_CON (vars_bytes (variables pdu))"
  let ?hdr = "(ASN_SEQ_CON # ber_len (length (pdu_bytes pdu) + length community + 5)) @
    int_obj version @ ber_obj ASN_OCTET_STR community"
  obtain p1 k1 where v: "build_vb pdu (packet, 0) out_length = Some (Inr (p1, k1))"
    and r1: "on_ok (build_data_pdu pdu (local_buffer MAX_SNMP_PACKET) (int MAX_SNMP_PACKET) (take k1 p1))
       (\<lambda>(buf, totallength).
     if int totallength \<ge> out_length then Some (Inl Buffer_Full)
     else on_ok (snmp_auth_build (p1, 0) out_length version community (int (length community)) (int totallength))
       (\<lambda>((packet, pos), l).
     if out_length - int pos < int totallength then Some (Inl Buffer_Full)
     else on_ok (copy_in (take totallength buf) (packet, pos)) (\<lambda>(packet, pos). Some (Inr (packet, int pos))))) =
     Some (Inr (packet', n))"
    using built by (auto simp: snmp_build_def split: if_splits elim!: on_ok_InrE)
  have vok: "\<forall>vb\<in>set (variables pdu). vb_ok vb" using ok by (simp add: pdu_ok_def)
  note c1 = build_vb_cases [OF vok _ v]
  have t1: "take k1 p1 = ?vbs" using c1(1, 2) room by (simp add: take_written_0)
  have l1: "length p1 = length packet" using c1 room by simp
  obtain buf k2 where d: "build_data_pdu pdu (local_buffer MAX_SNMP_PACKET) (int MAX_SNMP_PACKET) ?vbs = Some (Inr (buf, k2))"
    and r2: "on_ok (snmp_auth_build (p1, 0) out_length version community (int (length community)) (int k2))
       (\<lambda>((packet, pos), l).
     if out_length - int pos < int k2 then Some (Inl Buffer_Full)
     else on_ok (copy_in (take k2 buf) (packet, pos)) (\<lambda>(packet, pos). Some (Inr (packet, int pos)))) =
     Some (Inr (packet', n))"
    using r1 unfolding t1 by (auto split: if_splits elim!: on_ok_InrE)
  have t2: "k2 = length (pdu_bytes pdu)" "take (length (pdu_bytes pdu)) buf = pdu_bytes pdu"
    using build_data_pdu_cases [OF ok d] by (simp_all add: pdu_bytes_def)
  obtain p3 k3 l3 where a: "snmp_auth_build (p1, 0) out_length version community (int (length community))
      (int (length (pdu_bytes pdu))) = Some (Inr ((p3, k3), l3))"
    and fit: "int (length (pdu_bytes pdu)) \<le> out_length - int k3"
    and cp: "copy_in (pdu_bytes pdu) (p3, k3) = Some (Inr (packet', nat n))" "0 \<le> n"
    using r2 unfolding t2(1) t2(2) by (auto simp: t2(2) split: if_splits elim!: on_ok_InrE)
  note c3 = builds_cases [OF builds_auth _ a]
  have h: "p3 = written p1 0 ?hdr" "k3 = length ?hdr" "length ?hdr \<le> length p1" using c3 room l1 by simp_all
  have w: "k3 + length (pdu_bytes pdu) \<le> length p3" using fit room h l1 by simp
  have e: "sent_bytes version community pdu = ?hdr @ pdu_bytes pdu" by (rule sent_bytes_def)
  have p: "packet' = written p1 0 (?hdr @ pdu_bytes pdu)" "nat n = length (?hdr @ pdu_bytes pdu)"
    using copy_in_eq [OF w] cp(1) h w written_append [of 0 ?hdr "pdu_bytes pdu" p1] by auto
  show "take (nat n) packet' = sent_bytes version community pdu" unfolding p e by (rule take_written_0)
  show "n = int (length (sent_bytes version community pdu))" using p(2) cp(2) by (simp add: e)
  show "length packet' = length packet" using p(1) w h l1 by simp
  show "n \<le> out_length" using p(2) fit h(2) cp(2) by simp
  show "\<forall>vb\<in>set (variables pdu). length (var_inner vb) \<le> MAX_SNMP_PACKET" using c1(4) room by simp
  show "length (vars_bytes (variables pdu)) \<le> MAX_SNMP_PACKET" using c1(5) room by simp
  show "length (pdu_bytes pdu) \<le> MAX_SNMP_PACKET" using build_data_pdu_cases(3) [OF ok d] t2(1) by simp
qed

subsection \<open>Parsing the bytes\<close>

lemma parse_value_bytes:
  assumes "vb_ok vb" and "length (ber_obj (vb_type vb) (vb_content vb)) \<le> MAX_SNMP_PACKET"
  shows "parse_value (vb_type vb) (int (length (vb_content vb))) (ber_obj (vb_type vb) (vb_content vb) @ rest) =
    Some (Inr (vb_val (received vb), vb_val_len (received vb)))"
proof -
  have d: "int (length (ber_obj (vb_type vb) (vb_content vb))) \<le> int MAX_SNMP_PACKET" "int MAX_SNMP_PACKET < 2 ^ 31"
    using assms(2) by (simp_all add: MAX_SNMP_PACKET_def)
  show ?thesis
  proof (cases "vb_val vb")
    case (Int_val v)
    show ?thesis
    proof (cases "vb_type vb = ASN_INTEGER")
      case True
      then show ?thesis using assms(1) Int_val d parsesD [OF parses_int [of ASN_INTEGER v], of "int MAX_SNMP_PACKET" rest]
        by (simp add: parse_value_def or_garbage_def vb_content_def vb_ok_def received_def int_types_def ASN_INTEGER_def)
    next
      case False
      then have t: "vb_type vb \<in> {SMI_GAUGE, SMI_COUNTER, SMI_TIMETICKS, SMI_UINTEGER}" and v: "v < 2 ^ 32"
        and n: "vb_val_len vb = 8" using assms(1) Int_val by (auto simp: vb_ok_def)
      have "take_bit 32 v = v"
        using v by (simp add: word_unat_eq_iff unsigned_take_bit_eq take_bit_nat_eq_self word_less_nat_alt)
      moreover have "vb_type vb \<in> uint_types" using t by (auto simp: uint_types_def message_consts)
      ultimately show ?thesis
        using t n False Int_val d parsesD [OF parses_uint [of "vb_type vb" v], of "int MAX_SNMP_PACKET" rest]
        by (auto simp: parse_value_def or_garbage_def vb_content_def received_def)
    qed
  next
    case (Ctr_val c)
    then have c: "vb_type vb = SMI_COUNTER64" "high c < 2 ^ 32" "low c < 2 ^ 32" "vb_val_len vb = 16"
      using assms(1) by (simp_all add: vb_ok_def)
    then show ?thesis
      using Ctr_val d parsesD [OF parses_int64 [of SMI_COUNTER64 c], of "int MAX_SNMP_PACKET" rest]
      by (simp add: parse_value_def or_garbage_def vb_content_def received_def int64_types_def message_consts)
  next
    case (Str_val s)
    then have s: "vb_type vb \<in> {ASN_OCTET_STR, SMI_IPADDRESS, SMI_OPAQUE, SMI_NSAP}" "vb_val_len vb = int (length s)"
      using assms(1) by (simp_all add: vb_ok_def)
    moreover have "vb_type vb \<in> string_types" using s(1) by (auto simp: string_types_def message_consts)
    ultimately show ?thesis
      using Str_val d parsesD [OF parses_string [of "vb_type vb" s "int (length s)"], of "int MAX_SNMP_PACKET" rest]
      by (auto simp: parse_value_def or_garbage_def vb_content_def received_def message_consts)
  next
    case (Oid_val ids)
    then have i: "vb_type vb = ASN_OBJECT_ID" "oid_ok ids" using assms(1) by (simp_all add: vb_ok_def)
    then have "int (length ids) \<le> ASN_MAX_NAME_LEN" by (simp add: oid_ok_def ASN_MAX_NAME_LEN_def)
    then show ?thesis
      using i Oid_val d parsesD [OF parses_objid [of ids ASN_MAX_NAME_LEN], of "int MAX_SNMP_PACKET" rest]
      by (simp add: parse_value_def or_garbage_def vb_content_def received_def message_consts)
  next
    case No_val
    then show ?thesis using assms(1)
      by (auto simp: parse_value_def vb_content_def received_def vb_ok_def message_consts)
  next
    case Garbage
    then show ?thesis using assms(1) by (simp add: vb_ok_def)
  qed
qed

lemma vb_type_ok:
  assumes "vb_ok vb"
  shows "vb_type vb AND ASN_EXTENSION_ID \<noteq> ASN_EXTENSION_ID"
  using assms by (auto simp: vb_ok_def message_consts ASN_EXTENSION_ID_def split: vb_value.splits)

lemma parse_var_bytes:
  assumes ok: "vb_ok vb" and small: "length (var_inner vb) \<le> MAX_SNMP_PACKET"
    and d: "int (length (var_bytes vb)) \<le> d" "d < 2 ^ 31"
  shows "snmp_parse_var_op (var_bytes vb @ rest) d ASN_MAX_NAME_LEN =
    Some (Inr (rest, d - int (length (var_bytes vb)), vb_name vb, vb_type vb, int (length (vb_content vb)),
      ber_obj (vb_type vb) (vb_content vb) @ rest))"
proof -
  let ?name = "ber_obj ASN_OBJECT_ID (subids_content (joined (vb_name vb)))"
  let ?val = "ber_obj (vb_type vb) (vb_content vb)"
  have inner: "var_inner vb = ?name @ ?val" by (simp add: var_inner_def)
  have h: "asn_parse_header (var_bytes vb @ rest) d =
      Some (Inr (?name @ ?val @ rest, int (length (var_inner vb)), ASN_SEQ_CON))"
    using parse_header [of ASN_SEQ_CON "var_inner vb" d rest] d
    by (simp add: var_bytes_def inner ASN_SEQ_CON_def ASN_EXTENSION_ID_def)
  have len: "int (length (var_inner vb)) < 2 ^ 31" using small by (simp add: MAX_SNMP_PACKET_def)
  have oid: "oid_ok (vb_name vb)" using ok by (simp add: vb_ok_def)
  then have "int (length (vb_name vb)) \<le> ASN_MAX_NAME_LEN" by (simp add: oid_ok_def ASN_MAX_NAME_LEN_def)
  from parsesD [OF parses_objid [OF oid this] _ len, of "?val @ rest"]
  have o: "asn_parse_objid (?name @ ?val @ rest) (int (length (var_inner vb))) ASN_MAX_NAME_LEN =
      Some (Inr (?val @ rest, int (length ?val), ASN_OBJECT_ID, vb_name vb))"
    by (simp add: inner ASN_OBJECT_ID_def)
  have v: "asn_parse_header (?val @ rest) (int (length ?val)) =
      Some (Inr (vb_content vb @ rest, int (length (vb_content vb)), vb_type vb))"
    using vb_type_ok [OF ok] len by (intro parse_header) (simp_all add: inner)
  have n: "length (var_bytes vb @ rest) - length (vb_content vb @ rest) + length (vb_content vb) = length (var_bytes vb)"
    by (simp add: var_bytes_def length_ber_obj inner)
  have "ulong (int (length (vb_content vb))) + of_nat (length (var_bytes vb @ rest) - length (vb_content vb @ rest)) =
      (of_nat (length (var_bytes vb)) :: u64)"
    using arg_cong [OF n, of "of_nat :: nat \<Rightarrow> u64"] by (simp add: ulong_def add.commute del: length_append)
  moreover have "\<not> (of_nat (length (var_bytes vb)) :: u64) > ulong d"
    using d by (simp add: word_less_nat_alt ulong_def unsigned_of_nat unsigned_of_int take_bit_nat_eq_self
        take_bit_int_eq_self)
  ultimately have t: "\<not> ulong (int (length (vb_content vb))) +
      of_nat (length (var_bytes vb @ rest) - length (vb_content vb @ rest)) > ulong d"
    by (simp only: not_False_eq_True)
  then show ?thesis
    unfolding snmp_parse_var_op_def Let_def h on_ok_simps prod.case o v
    by (simp add: var_bytes_def length_ber_obj)
qed

lemma parse_vars_bytes:
  assumes "\<forall>vb\<in>set vbs. vb_ok vb \<and> length (var_inner vb) \<le> MAX_SNMP_PACKET"
    and "int (length (vars_bytes vbs)) < 2 ^ 31"
  shows "parse_vars (vars_bytes vbs @ rest) (int (length (vars_bytes vbs))) = Some (Inr (map received vbs, rest, 0))"
  using assms
proof (induction vbs)
  case Nil
  then show ?case by (simp add: parse_vars.simps)
next
  case (Cons vb vbs)
  let ?d = "int (length (vars_bytes (vb # vbs)))"
  have ok: "vb_ok vb" "length (var_inner vb) \<le> MAX_SNMP_PACKET" using Cons.prems by simp_all
  have pos: "\<not> ?d \<le> 0" by (simp add: var_bytes_def ber_obj_def)
  have p: "snmp_parse_var_op (var_bytes vb @ vars_bytes vbs @ rest)
      (int (length (var_bytes vb)) + int (length (vars_bytes vbs))) ASN_MAX_NAME_LEN =
      Some (Inr (vars_bytes vbs @ rest, int (length (vars_bytes vbs)), vb_name vb, vb_type vb,
        int (length (vb_content vb)), ber_obj (vb_type vb) (vb_content vb) @ vars_bytes vbs @ rest))"
    using parse_var_bytes [OF ok, of ?d "vars_bytes vbs @ rest"] Cons.prems(2) by simp
  have "length (ber_obj (vb_type vb) (vb_content vb)) \<le> MAX_SNMP_PACKET" using ok(2) by (simp add: var_inner_def)
  note v = parse_value_bytes [OF ok(1) this, of "vars_bytes vbs @ rest"]
  have ih: "parse_vars (vars_bytes vbs @ rest) (int (length (vars_bytes vbs))) = Some (Inr (map received vbs, rest, 0))"
    using Cons by simp
  have r: "\<lparr>vb_name = vb_name vb, vb_type = vb_type vb, vb_val = vb_val (received vb),
      vb_val_len = vb_val_len (received vb)\<rparr> = received vb"
    by (cases "vb_val vb") (simp_all add: received_def)
  show ?case
    using pos by (subst parse_vars.simps) (simp add: p v ih r)
qed

text \<open>What the receiver has after parsing into its own PDU struct.\<close>

definition received_pdu :: "snmp_pdu \<Rightarrow> snmp_pdu \<Rightarrow> snmp_pdu" where
  "received_pdu into pdu = (
     let into = into\<lparr>command := command pdu, variables := map received (variables pdu)\<rparr> in
     if command pdu \<noteq> TRP_REQ_MSG
     then into\<lparr>reqid := reqid pdu, errstat := errstat pdu, errindex := errindex pdu\<rparr>
     else into\<lparr>enterprise := enterprise pdu, agent_addr := agent_addr pdu, trap_type := trap_type pdu,
                 specific_type := specific_type pdu, pdu_time := pdu_time pdu\<rparr>)"

lemma to_int_word_of_int:
  assumes "- (2 ^ 31) \<le> i" and "i < 2 ^ 31"
  shows "to_int (word_of_int i) = i"
proof -
  have "ucast (word_of_int i :: u64) = (word_of_int i :: u32)"
    by (rule bit_word_eqI) (simp add: bit_ucast_iff bit_word_of_int_iff)
  then show ?thesis using assms by (simp add: to_int_def signed_of_int signed_take_bit_int_eq_self)
qed

lemma parse_data_pdu_bytes:
  assumes ok: "pdu_ok pdu" and into: "length (agent_addr into) = 4"
    and d: "int (length (pdu_bytes pdu)) \<le> d" "d < 2 ^ 31"
  shows "snmp_parse_data_pdu into (pdu_bytes pdu @ rest) d =
    Some (Inr ((received_pdu into pdu)\<lparr>variables := variables into\<rparr>,
      ber_obj ASN_SEQ_CON (vars_bytes (variables pdu)) @ rest,
      int (length (ber_obj ASN_SEQ_CON (vars_bytes (variables pdu))))))"
proof -
  let ?vbs = "ber_obj ASN_SEQ_CON (vars_bytes (variables pdu))"
  let ?t = "word_of_int (command pdu) :: u8"
  have "uint ?t = command pdu" using ok by (simp add: pdu_ok_def unsigned_of_int take_bit_int_eq_self)
  moreover have "asn_parse_header (pdu_bytes pdu @ rest) d =
      Some (Inr (pdu_fields pdu @ ?vbs @ rest, int (length (pdu_fields pdu @ ?vbs)), ?t))"
    using parse_header [of ?t "pdu_fields pdu @ ?vbs" d rest] d ok by (simp add: pdu_bytes_def pdu_ok_def)
  ultimately obtain t where c: "uint t = command pdu" and h: "asn_parse_header (pdu_bytes pdu @ rest) d =
      Some (Inr (pdu_fields pdu @ ?vbs @ rest, int (length (pdu_fields pdu @ ?vbs)), t))" by blast
  have len: "int (length (pdu_fields pdu @ ?vbs)) < 2 ^ 31" using d by (simp add: pdu_bytes_def length_ber_obj)
  show ?thesis
  proof (cases "command pdu = TRP_REQ_MSG")
    case False
    have f: "pdu_fields pdu = int_obj (reqid pdu) @ int_obj (errstat pdu) @ int_obj (errindex pdu)"
      using False by (simp add: pdu_fields_def)
    have l: "int (length (int_obj (reqid pdu))) + int (length (int_obj (errstat pdu))) +
        int (length (int_obj (errindex pdu))) + int (length ?vbs) < 2 ^ 31"
      using len by (simp add: f)
    show ?thesis using False l
      by (simp add: snmp_parse_data_pdu_def h c f parse_int_obj received_pdu_def Let_def)
  next
    case True
    then have t: "oid_ok (enterprise pdu)" "length (agent_addr pdu) = 4"
      "to_int (word_of_int (trap_type pdu)) = trap_type pdu"
      "to_int (word_of_int (specific_type pdu)) = specific_type pdu" "take_bit 32 (pdu_time pdu) = pdu_time pdu"
      using ok by (simp_all add: pdu_ok_def to_int_word_of_int word_unat_eq_iff unsigned_take_bit_eq
        take_bit_nat_eq_self word_less_nat_alt)
    have f: "pdu_fields pdu = ber_obj ASN_OBJECT_ID (subids_content (joined (enterprise pdu))) @
       ber_obj SMI_IPADDRESS (agent_addr pdu) @ int_obj (word_of_int (trap_type pdu)) @
       int_obj (word_of_int (specific_type pdu)) @ ber_obj SMI_TIMETICKS (uint_content (pdu_time pdu))"
      using True by (simp add: pdu_fields_def)
    have "int (length (enterprise pdu)) \<le> ASN_MAX_NAME_LEN" using t(1) by (simp add: oid_ok_def ASN_MAX_NAME_LEN_def)
    note o = parsesD [OF parses_objid [OF t(1) this]]
    have "SMI_IPADDRESS \<in> string_types" "int (length (agent_addr pdu)) \<le> 4" "SMI_TIMETICKS \<in> uint_types"
      using t(2) by (simp_all add: string_types_def uint_types_def message_consts)
    note s = parsesD [OF parses_string [OF this(1, 2)]] and u = parsesD [OF parses_uint [OF this(3)], of "pdu_time pdu"]
    have l: "int (length (ber_obj 6 (subids_content (joined (enterprise pdu))))) +
        int (length (ber_obj SMI_IPADDRESS (agent_addr pdu))) +
        int (length (int_obj (word_of_int (trap_type pdu)))) + int (length (int_obj (word_of_int (specific_type pdu)))) +
        int (length (ber_obj SMI_TIMETICKS (uint_content (pdu_time pdu)))) + int (length ?vbs) < 2 ^ 31"
      using len by (simp add: f ASN_OBJECT_ID_def)
    show ?thesis using True l t(2-5) into
      by (simp add: snmp_parse_data_pdu_def h c f o s u parse_int_obj received_pdu_def Let_def ASN_OBJECT_ID_def)
  qed
qed

lemma parse_message:
  assumes ok: "pdu_ok pdu" and small: "\<forall>vb\<in>set (variables pdu). length (var_inner vb) \<le> MAX_SNMP_PACKET"
    and into: "length (agent_addr into) = 4" and version: "version = SNMP_VERSION_1 \<or> version = SNMP_VERSION_2C"
    and d: "int (length (message_bytes version community pdu)) < 2 ^ 31"
    and cap: "int (length community) \<le> community_len"
  shows "snmp_parse into (message_bytes version community pdu @ rest)
      (int (length (message_bytes version community pdu))) community_len =
    Some (Inr (received_pdu into pdu, community, version))"
proof -
  let ?d = "int (length (message_bytes version community pdu))"
  let ?c = "int_obj version @ ber_obj ASN_OCTET_STR community @ pdu_bytes pdu"
  let ?bs = "vars_bytes (variables pdu)"
  have h: "asn_parse_header (message_bytes version community pdu @ rest) ?d =
      Some (Inr (?c @ rest, int (length ?c), ASN_SEQ_CON))"
    using parse_header [of ASN_SEQ_CON ?c ?d rest] d
    by (simp add: message_bytes_def ASN_SEQ_CON_def ASN_EXTENSION_ID_def)
  have len: "int (length (int_obj version)) + int (length (ber_obj ASN_OCTET_STR community)) +
      int (length (pdu_bytes pdu)) < 2 ^ 31"
    using d by (simp add: message_bytes_def length_ber_obj)
  have "ASN_OCTET_STR \<in> string_types" by (simp add: string_types_def ASN_OCTET_STR_def)
  note s = parsesD [OF parses_string [OF this cap]]
  have a: "snmp_auth_parse (message_bytes version community pdu @ rest) ?d community_len =
      Some (Inr (pdu_bytes pdu @ rest, int (length (pdu_bytes pdu)), community, version))"
    using len by (simp add: snmp_auth_parse_def h parse_int_obj s)
  have p: "snmp_parse_data_pdu into (pdu_bytes pdu @ rest) (int (length (pdu_bytes pdu))) =
      Some (Inr ((received_pdu into pdu)\<lparr>variables := variables into\<rparr>, ber_obj ASN_SEQ_CON ?bs @ rest,
        int (length (ber_obj ASN_SEQ_CON ?bs))))"
    using len by (intro parse_data_pdu_bytes [OF ok into]) simp_all
  have vlen: "int (length (ber_obj ASN_SEQ_CON ?bs)) < 2 ^ 31" using len by (simp add: pdu_bytes_def length_ber_obj)
  have vh: "asn_parse_header (ber_obj ASN_SEQ_CON ?bs @ rest) (int (length (ber_obj ASN_SEQ_CON ?bs))) =
      Some (Inr (?bs @ rest, int (length ?bs), ASN_SEQ_CON))"
    using vlen by (intro parse_header) (simp_all add: ASN_SEQ_CON_def ASN_EXTENSION_ID_def)
  have "parse_vars (?bs @ rest) (int (length ?bs)) = Some (Inr (map received (variables pdu), rest, 0))"
    using ok small vlen by (intro parse_vars_bytes) (simp_all add: pdu_ok_def length_ber_obj)
  then have v: "snmp_parse_vb q (ber_obj ASN_SEQ_CON ?bs @ rest) (int (length (ber_obj ASN_SEQ_CON ?bs))) =
      Some (Inr (q\<lparr>variables := map received (variables pdu)\<rparr>))" for q
    by (simp add: snmp_parse_vb_def vh)
  show ?thesis
    using version by (auto simp: snmp_parse_def as_class_def a p v received_pdu_def Let_def)
qed

text \<open>The header announces one octet less, or two, when the length of the community takes more than one octet:
  the PDU then does not fit in what is left.\<close>

lemma parse_header_short:
  assumes "type AND ASN_EXTENSION_ID \<noteq> ASN_EXTENSION_ID" and "0 \<le> d" and "d < int (length (ber_obj type content))"
    and "length (ber_obj type content) < 2 ^ 31"
  shows "asn_parse_header (ber_obj type content @ rest) d = Some (Inl Message_Overflow)"
proof -
  have l: "asn_parse_length (ber_len (length content) @ content @ rest) = Some (Inr (of_nat (length content), content @ rest))"
    using assms(4) by (intro parse_length) (simp add: length_ber_obj)
  have "length (ber_obj type content @ rest) - length (content @ rest) + length content = length (ber_obj type content)"
    by (simp add: ber_obj_def)
  then have "of_nat (length (ber_obj type content @ rest) - length (content @ rest)) + of_nat (length content) =
      (of_nat (length (ber_obj type content)) :: u64)"
    by (metis of_nat_add)
  moreover have "ulong d < of_nat (length (ber_obj type content))"
    using assms(2-4) by (simp add: ulong_def word_less_nat_alt unsigned_of_nat unsigned_of_int take_bit_nat_eq_self
        take_bit_int_eq_self nat_less_iff)
  ultimately show ?thesis using assms(1) l
    by (simp add: asn_parse_header_def obj_data Let_def)
qed

lemma parse_long_community:
  assumes ok: "pdu_ok pdu" and version: "version = SNMP_VERSION_1 \<or> version = SNMP_VERSION_2C"
    and long: "128 \<le> length community" and d: "int (length (sent_bytes version community pdu)) < 2 ^ 31"
    and cap: "int (length community) \<le> community_len"
  shows "snmp_parse into (sent_bytes version community pdu @ rest)
      (int (length (sent_bytes version community pdu))) community_len = Some (Inl SNMP_CLASS_ASN1ERROR)"
proof -
  let ?p = "length (pdu_bytes pdu)" and ?d = "int (length (sent_bytes version community pdu))"
  let ?c = "int_obj version @ ber_obj ASN_OCTET_STR community @ pdu_bytes pdu"
  let ?n = "?p + length community + 5" and ?l = "length (ber_len (length community))"
  have v: "length (int_obj version) = 3" by (rule small_version [OF version])
  have l: "2 \<le> ?l" "?l \<le> 5" using long length_ber_len(2) by (simp_all add: ber_len_def)
  have b: "sent_bytes version community pdu = ASN_SEQ_CON # ber_len ?n @ ?c"
    by (simp add: sent_bytes_def)
  have c: "length ?c = ?n + ?l - 1" using v l by (simp add: length_ber_obj)
  have "length ?c < 2 ^ 31" using d unfolding b by simp
  then have n: "?n < 2 ^ 31" using c l by (simp only:)
  have h: "asn_parse_header (sent_bytes version community pdu @ rest) ?d = Some (Inr (?c @ rest, int ?n, ASN_SEQ_CON))"
  proof -
    let ?k = "length (sent_bytes version community pdu @ rest) - length (?c @ rest)"
    have k: "?k + ?n \<le> nat ?d" using c l unfolding b by simp
    then have "?k + ?n < 2 ^ 64" using d by simp
    then have "unat (of_nat ?k + of_nat ?n :: u64) = ?k + ?n"
      unfolding of_nat_add [symmetric] by (simp add: unsigned_of_nat take_bit_nat_eq_self del: of_nat_add)
    moreover have "unat (ulong ?d) = nat ?d" using d by (simp add: ulong_def unsigned_of_nat take_bit_nat_eq_self)
    ultimately have "\<not> of_nat ?k + of_nat ?n > ulong ?d" using k by (simp only: not_less word_le_nat_alt)
    moreover have "asn_parse_length (ber_len ?n @ ?c @ rest) = Some (Inr (of_nat ?n, ?c @ rest))"
      by (rule parse_length [OF n])
    moreover have "to_int (of_nat ?n) = int ?n" by (rule to_int_of_nat [OF n])
    ultimately show ?thesis
      unfolding b by (simp add: asn_parse_header_def Let_def ASN_SEQ_CON_def ASN_EXTENSION_ID_def)
  qed
  have "ASN_OCTET_STR \<in> string_types" by (simp add: string_types_def ASN_OCTET_STR_def)
  note s = parsesD [OF parses_string [OF this cap]]
  have pb: "?p = 1 + length (ber_len (length (pdu_fields pdu @ ber_obj ASN_SEQ_CON (vars_bytes (variables pdu))))) +
      length (pdu_fields pdu @ ber_obj ASN_SEQ_CON (vars_bytes (variables pdu)))"
    by (simp add: pdu_bytes_def length_ber_obj)
  then have left: "0 \<le> int ?p + 1 - int ?l" "int ?p + 1 - int ?l < int ?p" "?p < 2 ^ 31"
    using l length_ber_obj [of ASN_SEQ_CON "vars_bytes (variables pdu)"] n
      length_ber_len(1) [of "length (pdu_fields pdu @ ber_obj ASN_SEQ_CON (vars_bytes (variables pdu)))"]
      length_ber_len(1) [of "length (vars_bytes (variables pdu))"] by simp_all
  have a: "snmp_auth_parse (sent_bytes version community pdu @ rest) ?d community_len =
      Some (Inr (pdu_bytes pdu @ rest, int ?p + 1 - int ?l, community, version))"
    using n v left(1) unfolding snmp_auth_parse_def h
    by (simp add: parse_int_obj s length_ber_obj)
  have t: "(word_of_int (command pdu) :: u8) AND ASN_EXTENSION_ID \<noteq> ASN_EXTENSION_ID"
    using ok by (simp add: pdu_ok_def)
  have "asn_parse_header (pdu_bytes pdu @ rest) (int ?p + 1 - int ?l) = Some (Inl Message_Overflow)"
    unfolding pdu_bytes_def by (rule parse_header_short [OF t]) (use left in \<open>simp_all add: pdu_bytes_def\<close>)
  then show ?thesis using version
    by (auto simp: snmp_parse_def as_class_def a snmp_parse_data_pdu_def)
qed

subsection \<open>Building succeeds when the message fits\<close>

lemma builds_no_fault:
  assumes "builds build bs" and "d \<le> int (length buf) - int pos"
  shows "build (buf, pos) d \<noteq> None"
  using builds_fit [OF assms(1)] builds_full [OF assms] assms(2)
  by (cases "int (length bs) \<le> d") auto

lemma build_vars_no_fault:
  "\<forall>vb\<in>set vbs. vb_ok vb \<Longrightarrow> d \<le> int (length buf) - int pos \<Longrightarrow> build_vars vbs (buf, pos) d \<noteq> None"
proof (induction vbs arbitrary: buf pos d)
  case (Cons vb vbs)
  show ?case
  proof (cases "length (var_inner vb) \<le> MAX_SNMP_PACKET")
    case True
    then have b: "builds (snmp_build_var_op vb) (var_bytes vb)" using Cons.prems(1) by (intro builds_var_op) auto
    show ?thesis
    proof (cases "snmp_build_var_op vb (buf, pos) d")
      case None
      then show ?thesis using builds_no_fault [OF b Cons.prems(2)] by simp
    next
      case (Some r)
      show ?thesis
      proof (cases r)
        case (Inr x)
        obtain buf' pos' d' where x: "x = ((buf', pos'), d')" by (metis prod.collapse)
        have "d' \<le> int (length buf') - int pos'"
          using builds_cases [OF b Cons.prems(2)] Some Inr x Cons.prems(2) by fastforce
        then show ?thesis using Cons.IH [of d' buf' pos'] Cons.prems(1) Some Inr x by simp
      qed (simp add: Some)
    qed
  qed (use Cons.prems in \<open>simp add: var_op_eq\<close>)
qed simp

lemma vars_fit:
  assumes "\<forall>vb\<in>set vbs. vb_ok vb" and "length (vars_bytes vbs) \<le> MAX_SNMP_PACKET"
  obtains buf where "build_vars vbs (local_buffer MAX_SNMP_PACKET) (int MAX_SNMP_PACKET) =
      Some (Inr ((buf, length (vars_bytes vbs)), int MAX_SNMP_PACKET - int (length (vars_bytes vbs))))"
    and "take (length (vars_bytes vbs)) buf = vars_bytes vbs"
proof (cases "vbs = []")
  case True
  then show ?thesis using that by (simp add: local_buffer_def)
next
  case False
  have "length (var_inner vb) \<le> MAX_SNMP_PACKET" if "vb \<in> set vbs" for vb
  proof -
    have "length (var_bytes vb) \<le> length (vars_bytes vbs)"
      using that by (induction vbs) auto
    then show ?thesis using assms(2) by (simp add: var_bytes_def length_ber_obj)
  qed
  then have "builds (build_vars vbs) (vars_bytes vbs)" using False assms(1) by (intro builds_vars) auto
  from local_buffer_fit [OF this assms(2)] show ?thesis using that assms(2) by (simp add: take_written_0)
qed

lemma build_vb_fit:
  assumes "\<forall>vb\<in>set (variables pdu). vb_ok vb" and "length (vars_bytes (variables pdu)) \<le> MAX_SNMP_PACKET"
    and "int (length (ber_obj ASN_SEQ_CON (vars_bytes (variables pdu)))) \<le> buf_len"
    and "buf_len \<le> int (length buf) - int pos"
  shows "build_vb pdu (buf, pos) buf_len = Some (Inr (written buf pos (ber_obj ASN_SEQ_CON (vars_bytes (variables pdu))),
    pos + length (ber_obj ASN_SEQ_CON (vars_bytes (variables pdu)))))"
proof -
  let ?bs = "vars_bytes (variables pdu)"
  obtain tmp where t: "build_vars (variables pdu) (local_buffer MAX_SNMP_PACKET) (int MAX_SNMP_PACKET) =
      Some (Inr ((tmp, length ?bs), int MAX_SNMP_PACKET - int (length ?bs)))" "take (length ?bs) tmp = ?bs"
    by (rule vars_fit [OF assms(1, 2)])
  have p: "\<not> buf_len - int (length ?bs) \<le> 0" using assms(3) by (simp add: length_ber_obj)
  have "asn_build_header (buf, pos) (buf_len - int (length ?bs)) ASN_SEQ_CON (int (length ?bs)) =
      Some (Inr ((written buf pos (ASN_SEQ_CON # ber_len (length ?bs)), pos + length (ASN_SEQ_CON # ber_len (length ?bs))),
        buf_len - int (length ?bs) - int (length (ASN_SEQ_CON # ber_len (length ?bs)))))"
    using assms(3, 4) by (intro builds_fit [OF builds_header]) (simp_all add: length_ber_obj)
  moreover have room: "pos + length (ber_obj ASN_SEQ_CON ?bs) \<le> length buf" using assms(3, 4) by linarith
  have "copy_in ?bs (written buf pos (ASN_SEQ_CON # ber_len (length ?bs)), pos + length (ASN_SEQ_CON # ber_len (length ?bs))) =
      Some (Inr (written buf pos (ber_obj ASN_SEQ_CON ?bs), pos + length (ber_obj ASN_SEQ_CON ?bs)))"
    using room written_append [of pos "ASN_SEQ_CON # ber_len (length ?bs)" ?bs buf]
    by (subst copy_in_eq) (simp_all add: ber_obj_def)
  ultimately show ?thesis using p by (simp add: build_vb_def t)
qed

lemma build_data_pdu_fit:
  assumes "pdu_ok pdu" and "length (ber_obj (word_of_int (command pdu)) (pdu_fields pdu @ vb_buf)) \<le> MAX_SNMP_PACKET"
  shows "build_data_pdu pdu (local_buffer MAX_SNMP_PACKET) (int MAX_SNMP_PACKET) vb_buf =
    Some (Inr (written (replicate MAX_SNMP_PACKET 0) 0 (ber_obj (word_of_int (command pdu)) (pdu_fields pdu @ vb_buf)),
      length (ber_obj (word_of_int (command pdu)) (pdu_fields pdu @ vb_buf))))"
proof -
  let ?t = "word_of_int (command pdu) :: u8" and ?f = "pdu_fields pdu"
  let ?n = "length ?f + length vb_buf"
  have len: "1 + length (ber_len ?n) + ?n \<le> MAX_SNMP_PACKET" using assms(2) by (simp add: length_ber_obj)
  have f: "build_pdu_fields pdu (local_buffer MAX_SNMP_PACKET) (int MAX_SNMP_PACKET) =
      Some (Inr ((written (replicate MAX_SNMP_PACKET 0) 0 ?f, length ?f), int MAX_SNMP_PACKET - int (length ?f)))"
    using len by (intro local_buffer_fit [OF builds_pdu_fields [OF assms(1)]]) simp_all
  have "asn_build_header (local_buffer MAX_SNMP_PACKET) (int MAX_SNMP_PACKET) ?t (int ?n) =
      Some (Inr ((written (replicate MAX_SNMP_PACKET 0) 0 (?t # ber_len ?n), length (?t # ber_len ?n)),
        int MAX_SNMP_PACKET - int (length (?t # ber_len ?n))))"
    using len by (intro local_buffer_fit [OF builds_header]) simp_all
  moreover have "copy_in (?f @ vb_buf) (written (replicate MAX_SNMP_PACKET 0) 0 (?t # ber_len ?n), length (?t # ber_len ?n)) =
      Some (Inr (written (replicate MAX_SNMP_PACKET 0) 0 (ber_obj ?t (?f @ vb_buf)), length (ber_obj ?t (?f @ vb_buf))))"
    using len written_append [of 0 "?t # ber_len ?n" "?f @ vb_buf" "replicate MAX_SNMP_PACKET 0"]
    by (subst copy_in_eq) (simp_all add: ber_obj_def)
  ultimately show ?thesis using len
    by (simp add: build_data_pdu_def f take_written_0 Let_def)
qed

definition message_fits :: "snmp_pdu \<Rightarrow> int \<Rightarrow> u64 \<Rightarrow> u8 list \<Rightarrow> bool" where
  "message_fits pdu out_length version community \<longleftrightarrow>
     length (vars_bytes (variables pdu)) \<le> MAX_SNMP_PACKET \<and> length (pdu_bytes pdu) \<le> MAX_SNMP_PACKET \<and>
     int (length (sent_bytes version community pdu)) \<le> out_length"

lemma snmp_build_fit:
  assumes ok: "pdu_ok pdu" and room: "out_length \<le> int (length packet)"
    and fits: "message_fits pdu out_length version community"
  shows "\<exists>packet'. snmp_build pdu packet out_length version community (int (length community)) =
    Some (Inr (packet', int (length (sent_bytes version community pdu))))"
proof -
  let ?vbs = "ber_obj ASN_SEQ_CON (vars_bytes (variables pdu))"
  let ?hdr = "(ASN_SEQ_CON # ber_len (length (pdu_bytes pdu) + length community + 5)) @
    int_obj version @ ber_obj ASN_OCTET_STR community"
  have e: "sent_bytes version community pdu = ?hdr @ pdu_bytes pdu" by (rule sent_bytes_def)
  have len: "int (length ?hdr) + int (length (pdu_bytes pdu)) \<le> out_length" "length ?vbs \<le> length (pdu_bytes pdu)"
    using fits unfolding message_fits_def e by (simp_all add: pdu_bytes_def length_ber_obj)
  have vok: "\<forall>vb\<in>set (variables pdu). vb_ok vb" using ok by (simp add: pdu_ok_def)
  have v: "build_vb pdu (packet, 0) out_length = Some (Inr (written packet 0 ?vbs, length ?vbs))"
    using fits len room build_vb_fit [OF vok, of out_length packet 0] by (simp add: message_fits_def)
  let ?tmp = "written (replicate MAX_SNMP_PACKET 0) 0 (pdu_bytes pdu)"
  have d: "build_data_pdu pdu (local_buffer MAX_SNMP_PACKET) (int MAX_SNMP_PACKET) ?vbs =
      Some (Inr (?tmp, length (pdu_bytes pdu)))"
    using build_data_pdu_fit [OF ok] fits unfolding message_fits_def pdu_bytes_def by simp
  have l1: "length (written packet 0 ?vbs) = length packet" using len room by simp
  have a: "snmp_auth_build (written packet 0 ?vbs, 0) out_length version community (int (length community))
        (int (length (pdu_bytes pdu))) =
      Some (Inr ((written (written packet 0 ?vbs) 0 ?hdr, 0 + length ?hdr), out_length - int (length ?hdr)))"
    using len room l1 by (intro builds_fit [OF builds_auth]) auto
  have c: "copy_in (pdu_bytes pdu) (written (written packet 0 ?vbs) 0 ?hdr, length ?hdr) =
      Some (Inr (written (written packet 0 ?vbs) 0 (?hdr @ pdu_bytes pdu), length (?hdr @ pdu_bytes pdu)))"
    using len room l1 written_append [of 0 ?hdr "pdu_bytes pdu" "written packet 0 ?vbs"]
    by (subst copy_in_eq) simp_all
  have "1 \<le> length ?hdr" by simp
  then have "int (length ?vbs) < out_length" "int (length (pdu_bytes pdu)) < out_length" using len by linarith+
  moreover have "length (sent_bytes version community pdu) = length (?hdr @ pdu_bytes pdu)" by (simp only: e)
  ultimately show ?thesis using len(1) a c
    by (simp add: snmp_build_def v take_written_0 d)
qed

lemma build_vb_no_fault:
  assumes vok: "\<forall>vb\<in>set (variables pdu). vb_ok vb" and room: "buf_len \<le> int (length buf) - int pos"
  shows "build_vb pdu (buf, pos) buf_len \<noteq> None"
proof
  assume n: "build_vb pdu (buf, pos) buf_len = None"
  let ?r = "build_vars (variables pdu) (local_buffer MAX_SNMP_PACKET) (int MAX_SNMP_PACKET)"
  have "?r \<noteq> None" unfolding local_buffer_def by (rule build_vars_no_fault [OF vok]) simp
  then obtain tmp k l where v: "?r = Some (Inr ((tmp, k), l))"
    and h: "\<not> buf_len - int k \<le> 0" "on_ok (asn_build_header (buf, pos) (buf_len - int k) ASN_SEQ_CON (int k))
      (\<lambda>(cp, buf_len). copy_in (take k tmp) cp) = None"
    using n by (auto simp: build_vb_def on_ok_def Let_def split: option.splits sum.splits if_splits)
  note k = vars_cases [OF vok v]
  have r: "buf_len - int k \<le> int (length buf) - int pos" using room by simp
  have "asn_build_header (buf, pos) (buf_len - int k) ASN_SEQ_CON (int k) \<noteq> None"
    by (rule builds_no_fault [OF builds_header r])
  then obtain b p d where b: "asn_build_header (buf, pos) (buf_len - int k) ASN_SEQ_CON (int k) = Some (Inr ((b, p), d))"
    and c: "copy_in (take k tmp) (b, p) = None"
    using h(2) by (auto simp: on_ok_def split: option.splits sum.splits)
  note hd = builds_cases [OF builds_header r b]
  have "p + length (take k tmp) \<le> length b" using hd room k(1, 2) by auto
  then show False using c by (simp add: copy_in_eq)
qed

lemma build_data_pdu_no_fault:
  assumes ok: "pdu_ok pdu"
  shows "build_data_pdu pdu (local_buffer n) (int n) vb_buf \<noteq> None"
proof
  assume n: "build_data_pdu pdu (local_buffer n) (int n) vb_buf = None"
  let ?f = "build_pdu_fields pdu (local_buffer MAX_SNMP_PACKET) (int MAX_SNMP_PACKET)"
  have "?f \<noteq> None" unfolding local_buffer_def by (rule builds_no_fault [OF builds_pdu_fields [OF ok]]) simp
  then obtain tmp k l where f: "?f = Some (Inr ((tmp, k), l))"
    and h: "on_ok (asn_build_header (local_buffer n) (int n) (word_of_int (command pdu)) (int (k + length vb_buf)))
      (\<lambda>(cp, buf_len). if buf_len < int (k + length vb_buf) then Some (Inl Buffer_Full)
        else copy_in (take k tmp @ vb_buf) cp) = None"
    using n by (auto simp: build_data_pdu_def on_ok_def Let_def split: option.splits sum.splits if_splits)
  note k = local_buffer_cases [OF builds_pdu_fields [OF ok] f]
  have "asn_build_header (local_buffer n) (int n) (word_of_int (command pdu)) (int (k + length vb_buf)) \<noteq> None"
    unfolding local_buffer_def by (rule builds_no_fault [OF builds_header]) simp
  then obtain b p d where b: "asn_build_header (local_buffer n) (int n) (word_of_int (command pdu))
      (int (k + length vb_buf)) = Some (Inr ((b, p), d))"
    and c: "copy_in (take k tmp @ vb_buf) (b, p) = None" "int (k + length vb_buf) \<le> d"
    using h by (auto simp: on_ok_def split: option.splits sum.splits if_splits)
  note hd = local_buffer_cases [OF builds_header b]
  have "p + length (take k tmp @ vb_buf) \<le> length b" using hd c(2) by simp
  then show False using c(1) by (simp add: copy_in_eq)
qed

lemma snmp_build_no_fault:
  assumes ok: "pdu_ok pdu" and room: "out_length \<le> int (length packet)"
  shows "snmp_build pdu packet out_length version community (int (length community)) \<noteq> None"
proof
  let ?vbs = "ber_obj ASN_SEQ_CON (vars_bytes (variables pdu))"
  have vok: "\<forall>vb\<in>set (variables pdu). vb_ok vb" using ok by (simp add: pdu_ok_def)
  assume n: "snmp_build pdu packet out_length version community (int (length community)) = None"
  have b: "build_vb pdu (packet, 0) out_length \<noteq> None" using room by (intro build_vb_no_fault [OF vok]) simp
  obtain p1 k1 where v: "build_vb pdu (packet, 0) out_length = Some (Inr (p1, k1))"
    and r1: "on_ok (build_data_pdu pdu (local_buffer MAX_SNMP_PACKET) (int MAX_SNMP_PACKET) (take k1 p1))
       (\<lambda>(buf, totallength).
     if int totallength \<ge> out_length then Some (Inl Buffer_Full)
     else on_ok (snmp_auth_build (p1, 0) out_length version community (int (length community)) (int totallength))
       (\<lambda>((packet, pos), l).
     if out_length - int pos < int totallength then Some (Inl Buffer_Full)
     else on_ok (copy_in (take totallength buf) (packet, pos)) (\<lambda>(packet, pos). Some (Inr (packet, int pos))))) = None"
    by (rule on_ok_NoneE [OF n [unfolded snmp_build_def] b]) (auto split: if_splits)
  obtain buf k2 where d: "build_data_pdu pdu (local_buffer MAX_SNMP_PACKET) (int MAX_SNMP_PACKET) (take k1 p1) = Some (Inr (buf, k2))"
    and a: "on_ok (snmp_auth_build (p1, 0) out_length version community (int (length community)) (int k2))
       (\<lambda>((packet, pos), l).
     if out_length - int pos < int k2 then Some (Inl Buffer_Full)
     else on_ok (copy_in (take k2 buf) (packet, pos)) (\<lambda>(packet, pos). Some (Inr (packet, int pos)))) = None"
    by (rule on_ok_NoneE [OF r1 build_data_pdu_no_fault [OF ok]]) (auto split: if_splits)
  have l1: "length p1 = length packet" using build_vb_cases [OF vok _ v] room by simp
  have r: "out_length \<le> int (length p1) - int 0" using room l1 by simp
  have ne: "snmp_auth_build (p1, 0) out_length version community (int (length community)) (int k2) \<noteq> None"
    by (rule builds_no_fault [OF builds_auth r])
  obtain p3 k3 l3 where s: "snmp_auth_build (p1, 0) out_length version community (int (length community)) (int k2) =
      Some (Inr ((p3, k3), l3))" and c: "int k2 \<le> out_length - int k3" "copy_in (take k2 buf) (p3, k3) = None"
    by (rule on_ok_NoneE [OF a ne]) (auto simp: on_ok_def split: if_splits option.splits sum.splits)
  have "length p3 = length p1" using builds_cases [OF builds_auth r s] by simp
  then have "k3 + length (take k2 buf) \<le> length p3" using c(1) room l1 by simp
  then show False using c(2) by (simp add: copy_in_eq)
qed

end
