(* ===== verification/Snmp_V3.thy ===== *)
theory Snmp_V3
  imports Snmp_Message_Codec
begin

section \<open>Header data and scoped PDU of version 3 messages\<close>

text \<open>
  The bytes \<open>asn1_build_header_data\<close> and \<open>asn1_build_scoped_pdu\<close> write, and what their parsers make of
  them.  The header data satisfies the contract \<open>ber_codec\<close>; the scoped PDU does not, as its builder
  copies the data without looking at the room.
\<close>

lemma on_ok_assoc:
  "on_ok (on_ok m f) g = on_ok m (\<lambda>x. on_ok (f x) g)"
  by (simp add: on_ok_def split: option.splits sum.splits)

text \<open>Fields that are first written to a local buffer, with the room of the output, and then copied behind
  a sequence header.\<close>

lemma builds_buffered:
  assumes "builds inner cs" and "length cs \<le> n"
  shows "builds (\<lambda>out d. on_ok (inner (local_buffer n) d) (\<lambda>((buf, k), l).
    on_ok (asn_build_sequence out d type (int k)) (\<lambda>(out, d).
      if d < int k then Some (Inl Buffer_Full) else emit (take k buf) out d))) (ber_obj type cs)"
    (is "builds ?build _")
proof -
  let ?copy = "\<lambda>out d. if d < int (length cs) then Some (Inl Buffer_Full) else emit cs out d"
  have "builds (\<lambda>out d. on_ok (asn_build_sequence out d type (int (length cs))) (\<lambda>(out, d). ?copy out d))
      ((type # ber_len (length cs)) @ cs)"
    by (intro builds_then builds_sequence builds_guard refl)
  then have b: "builds (\<lambda>out d. on_ok (asn_build_sequence out d type (int (length cs))) (\<lambda>(out, d). ?copy out d))
      (ber_obj type cs)"
    by (simp add: ber_obj_def)
  have fit: "?build out d = on_ok (asn_build_sequence out d type (int (length cs))) (\<lambda>(out, d). ?copy out d)"
    if "int (length cs) \<le> d" for out d
    by (subst local_buffer_fit [OF assms that]) (simp add: take_written_0 cong: if_cong)
  have full: "?build out d = Some (Inl Buffer_Full)" if "d < int (length cs)" for out d
  proof -
    have "inner (replicate n 0, 0) d = Some (Inl Buffer_Full)"
      using that assms(2) by (intro builds_full [OF assms(1)]) simp_all
    then show ?thesis by (simp add: local_buffer_def)
  qed
  show ?thesis
  proof (rule buildsI)
    fix buf :: "u8 list" and pos d
    assume "pos + length (ber_obj type cs) \<le> length buf" and f: "int (length (ber_obj type cs)) \<le> d"
    then show "?build (buf, pos) d = Some (Inr ((written buf pos (ber_obj type cs), pos + length (ber_obj type cs)),
        d - int (length (ber_obj type cs))))"
      using fit [of d "(buf, pos)"] builds_fit [OF b] by (simp add: length_ber_obj)
  next
    fix buf :: "u8 list" and pos d
    assume "d \<le> int (length buf) - int pos" and "d < int (length (ber_obj type cs))"
    then show "?build (buf, pos) d = Some (Inl Buffer_Full)"
      using fit [of d "(buf, pos)"] full [of d "(buf, pos)"] builds_full [OF b]
      by (cases "int (length cs) \<le> d") simp_all
  qed
qed

subsection \<open>Header data\<close>

definition header_fields :: "u64 \<Rightarrow> u64 \<Rightarrow> u8 \<Rightarrow> u64 \<Rightarrow> u8 list" where
  "header_fields i m f s = int_obj i @ int_obj m @ ber_obj ASN_OCTET_STR [f] @ int_obj s"

lemma length_int_obj: "length (int_obj v) \<le> 10"
  using length_int_content [of v] by (simp add: int_obj_def length_ber_obj ber_len_def)

lemma length_header_fields: "length (header_fields i m f s) \<le> 33"
  using length_int_obj [of i] length_int_obj [of m] length_int_obj [of s]
  by (simp add: header_fields_def length_ber_obj ber_len_def)

lemma builds_header_data:
  "builds (\<lambda>out d. asn1_build_header_data out d i m f s) (ber_obj ASN_SEQ_CON (header_fields i m f s))"
proof -
  let ?inner = "\<lambda>out d. on_ok (asn_build_int out d ASN_INTEGER i) (\<lambda>(out, d).
    on_ok (asn_build_int out d ASN_INTEGER m) (\<lambda>(out, d).
    on_ok (asn_build_string out d ASN_OCTET_STR [f] (int (length [f]))) (\<lambda>(out, d).
      asn_build_int out d ASN_INTEGER s)))"
  have b: "builds ?inner (header_fields i m f s)"
    unfolding header_fields_def int_obj_def by (intro builds_then builds_int builds_string refl)
  have n: "length (header_fields i m f s) \<le> MAXLENGTH_GLOBALDATA"
    using length_header_fields [of i m f s] by (simp add: MAXLENGTH_GLOBALDATA_def)
  have "(\<lambda>out d. asn1_build_header_data out d i m f s) =
      (\<lambda>out d. on_ok (?inner (local_buffer MAXLENGTH_GLOBALDATA) d) (\<lambda>((buf, k), l).
        on_ok (asn_build_sequence out d ASN_SEQ_CON (int k)) (\<lambda>(out, d).
          if d < int k then Some (Inl Buffer_Full) else emit (take k buf) out d)))"
    by (simp add: asn1_build_header_data_def fun_eq_iff on_ok_assoc split_def)
  then show ?thesis using builds_buffered [OF b n, of ASN_SEQ_CON] by simp
qed

lemma parses_header_data:
  "parses asn1_parse_header_data (ber_obj ASN_SEQ_CON (header_fields i m f s)) (i, m, [f], s)"
  unfolding parses_def
proof (intro allI impI)
  fix rest d
  let ?c = "header_fields i m f s"
  assume d: "int (length (ber_obj ASN_SEQ_CON ?c)) \<le> d" "d < 2 ^ 31"
  have h: "asn_parse_header (ber_obj ASN_SEQ_CON ?c @ rest) d = Some (Inr (?c @ rest, int (length ?c), ASN_SEQ_CON))"
    using d by (intro parse_header) (simp_all add: ASN_SEQ_CON_def ASN_EXTENSION_ID_def)
  have "ASN_OCTET_STR \<in> string_types" "int (length [f]) \<le> 1" by (simp_all add: string_types_def ASN_OCTET_STR_def)
  note s = parsesD [OF parses_string [OF this]]
  have l: "int (length (int_obj i)) + int (length (int_obj m)) + int (length (ber_obj ASN_OCTET_STR [f])) +
      int (length (int_obj s)) < 2 ^ 31"
    using d by (simp add: header_fields_def length_ber_obj)
  have "length (ber_obj ASN_SEQ_CON ?c @ rest) - length rest = length (ber_obj ASN_SEQ_CON ?c)" by simp
  then show "asn1_parse_header_data (ber_obj ASN_SEQ_CON ?c @ rest) d =
      Some (Inr (rest, d - int (length (ber_obj ASN_SEQ_CON ?c)), i, m, [f], s))"
    using l unfolding asn1_parse_header_data_def Let_def h
    by (simp add: header_fields_def parse_int_obj s)
qed

interpretation header_data: ber_codec
  "\<lambda>out d (i, m, f, s). asn1_build_header_data out d i m f s" asn1_parse_header_data
  "\<lambda>(i, m, f, s). ber_obj ASN_SEQ_CON (header_fields i m f s)" "\<lambda>(i, m, f, s). (i, m, [f], s)" "\<lambda>_. True"
  by unfold_locales (auto simp: builds_header_data parses_header_data)

subsection \<open>Scoped PDU\<close>

definition scoped_names :: "u8 list \<Rightarrow> u8 list \<Rightarrow> u8 list" where
  "scoped_names engine name = ber_obj ASN_OCTET_STR engine @ ber_obj ASN_OCTET_STR name"

lemma builds_scoped_names:
  "builds (\<lambda>out d. on_ok (asn_build_string out d ASN_OCTET_STR engine (int (length engine))) (\<lambda>(out, d).
    asn_build_string out d ASN_OCTET_STR name (int (length name)))) (scoped_names engine name)"
  unfolding scoped_names_def by (intro builds_then builds_string refl)

definition scoped_bytes :: "u8 list \<Rightarrow> u8 list \<Rightarrow> u8 list \<Rightarrow> u8 list" where
  "scoped_bytes engine name data = ber_obj ASN_SEQ_CON (scoped_names engine name @ data)"

lemma copy_in_fault: "length buf < pos + length bs \<Longrightarrow> bs \<noteq> [] \<Longrightarrow> copy_in bs (buf, pos) = None"
  by (simp add: copy_in_def put_all_eq)

text \<open>What the builder does when the names and the header fit in the length it is given.\<close>

lemma build_scoped_pdu_eq:
  assumes "length (scoped_names engine name) \<le> MAX_SNMP_PACKET" and "data \<noteq> []"
    and "int (length (scoped_names engine name) + length (ASN_SEQ_CON # ber_len (length (scoped_names engine name @ data))))
      \<le> max_len" and "max_len \<le> int (length buf) - int pos"
  shows "asn1_build_scoped_pdu (buf, pos) max_len engine (int (length engine)) name (int (length name)) data =
    (if length (scoped_names engine name @ data) \<le> MAX_SNMP_PACKET \<and>
        pos + length (scoped_bytes engine name data) \<le> length buf
     then Some (Inr ((written buf pos (scoped_bytes engine name data), pos + length (scoped_bytes engine name data)),
       max_len - int (length (scoped_names engine name) +
         length (ASN_SEQ_CON # ber_len (length (scoped_names engine name @ data))))))
     else None)"
proof -
  let ?ns = "scoped_names engine name" and ?l = "max_len - int (length (scoped_names engine name))"
  let ?in = "?ns @ data" and ?hdr = "ASN_SEQ_CON # ber_len (length (scoped_names engine name @ data))"
  have n: "on_ok (asn_build_string (local_buffer MAX_SNMP_PACKET) max_len ASN_OCTET_STR engine (int (length engine)))
      (\<lambda>(out, d). asn_build_string out d ASN_OCTET_STR name (int (length name))) =
      Some (Inr ((written (replicate MAX_SNMP_PACKET 0) 0 ?ns, length ?ns), ?l))"
    using assms(1, 3) by (intro local_buffer_fit [OF builds_scoped_names]) simp_all
  have e: "asn1_build_scoped_pdu (buf, pos) max_len engine (int (length engine)) name (int (length name)) data =
      on_ok (copy_in data (written (replicate MAX_SNMP_PACKET 0) 0 ?ns, length ?ns)) (\<lambda>(buffer, bufLength).
        on_ok (asn_build_sequence (buf, pos) ?l ASN_SEQ_CON (int bufLength)) (\<lambda>(outBufPtr, max_len).
        on_ok (copy_in (take bufLength buffer) outBufPtr) (\<lambda>outBufPtr. Some (Inr (outBufPtr, max_len)))))"
    using arg_cong [OF n, of "\<lambda>m. on_ok m (\<lambda>(bufPtr, max_len). on_ok (copy_in data bufPtr) (\<lambda>(buffer, bufLength).
        on_ok (asn_build_sequence (buf, pos) max_len ASN_SEQ_CON (int bufLength)) (\<lambda>(outBufPtr, max_len).
        on_ok (copy_in (take bufLength buffer) outBufPtr) (\<lambda>outBufPtr. Some (Inr (outBufPtr, max_len))))))"]
    by (simp add: asn1_build_scoped_pdu_def on_ok_assoc split_def)
  have l: "length (written (replicate MAX_SNMP_PACKET 0) 0 ?ns) = MAX_SNMP_PACKET" using assms(1) by simp
  show ?thesis
  proof (cases "length ?in \<le> MAX_SNMP_PACKET")
    case False
    then have "copy_in data (written (replicate MAX_SNMP_PACKET 0) 0 ?ns, length ?ns) = None"
      using l assms(2) by (intro copy_in_fault) simp_all
    then show ?thesis using False unfolding e by simp
  next
    case True
    then have c: "copy_in data (written (replicate MAX_SNMP_PACKET 0) 0 ?ns, length ?ns) =
        Some (Inr (written (replicate MAX_SNMP_PACKET 0) 0 ?in, length ?in))"
      using l written_append [of 0 ?ns data "replicate MAX_SNMP_PACKET 0"] by (simp add: copy_in_eq)
    have h: "asn_build_sequence (buf, pos) ?l ASN_SEQ_CON (int (length ?in)) =
        Some (Inr ((written buf pos ?hdr, pos + length ?hdr), max_len - int (length ?ns + length ?hdr)))"
      using assms(3, 4) builds_fit [OF builds_sequence, of pos ASN_SEQ_CON "length ?in" buf ?l]
      by (simp only: of_nat_add diff_diff_eq)
    have t: "take (length ?in) (written (replicate MAX_SNMP_PACKET 0) 0 ?in) = ?in" by (rule take_written_0)
    have b: "scoped_bytes engine name data = ?hdr @ ?in" by (simp add: scoped_bytes_def ber_obj_def)
    have p: "length (written buf pos ?hdr) = length buf" using assms(3, 4) by (intro length_written) simp
    show ?thesis
    proof (cases "pos + length (scoped_bytes engine name data) \<le> length buf")
      case True
      then have "copy_in ?in (written buf pos ?hdr, pos + length ?hdr) =
          Some (Inr (written buf pos (?hdr @ ?in), pos + length (?hdr @ ?in)))"
        using written_append [of pos ?hdr ?in buf] p unfolding b by (subst copy_in_eq) (simp_all add: add.assoc)
      then show ?thesis using True \<open>length ?in \<le> MAX_SNMP_PACKET\<close>
        by (simp only: e c h t on_ok_simps prod.case b simp_thms if_True)
    next
      case False
      then have "copy_in ?in (written buf pos ?hdr, pos + length ?hdr) = None"
        using p assms(2) unfolding b by (intro copy_in_fault) simp_all
      then show ?thesis using False by (simp only: e c h t on_ok_simps prod.case simp_thms if_False)
    qed
  qed
qed

lemma parse_scoped_pdu:
  assumes "int (length (scoped_bytes engine name data)) \<le> d" and "d < 2 ^ 31"
    and "int (length engine) \<le> engine_len" and "int (length name) \<le> name_len"
  shows "asn1_parse_scoped_pdu (scoped_bytes engine name data @ rest) d engine_len name_len =
    Some (Inr (data @ rest, int (length data), engine, name))"
proof -
  let ?c = "scoped_names engine name @ data"
  have h: "asn_parse_header (scoped_bytes engine name data @ rest) d = Some (Inr (?c @ rest, int (length ?c), ASN_SEQ_CON))"
    using assms(1, 2) unfolding scoped_bytes_def by (intro parse_header) (simp_all add: ASN_SEQ_CON_def ASN_EXTENSION_ID_def)
  have "ASN_OCTET_STR \<in> string_types" by (simp add: string_types_def ASN_OCTET_STR_def)
  note s = parsesD [OF parses_string [OF this]]
  have "int (length (ber_obj ASN_OCTET_STR engine)) + int (length (ber_obj ASN_OCTET_STR name)) + int (length data) < 2 ^ 31"
    using assms(1, 2) by (simp add: scoped_bytes_def scoped_names_def length_ber_obj)
  then show ?thesis using s [OF assms(3)] s [OF assms(4)]
    unfolding asn1_parse_scoped_pdu_def h by (simp add: scoped_names_def)
qed

end
