(* ===== verification/Snmp_Bounds.thy ===== *)
theory Snmp_Bounds
  imports Snmp_Message Snmp_Ber
begin

section \<open>The parsers stay inside the message\<close>

text \<open>
  A parser reads the type and the length of an object before it checks them against the length it was given,
  and the integer parsers look at the first content octet even when there is none.  With seven readable
  bytes behind the message all of this is inside the memory.  The locale \<open>bounded_parser\<close> states that a
  parser then never faults and returns a pointer and a length inside the given length; it is kept by
  sequences of parsers, and interpreted for the primitives and the parsers of message parts.
\<close>

definition in_bounds :: "u8 list \<Rightarrow> int \<Rightarrow> (u8 list \<times> int \<times> 'r) asn \<Rightarrow> bool" where
  "in_bounds data d res = (case res of None \<Rightarrow> False | Some (Inl e) \<Rightarrow> True
     | Some (Inr (rest, d', r)) \<Rightarrow> \<exists>k. rest = drop k data \<and> 0 \<le> d' \<and> d' + int k \<le> d)"

definition slack :: nat where "slack = 7"

definition roomy :: "u8 list \<Rightarrow> int \<Rightarrow> bool" where
  "roomy data d \<longleftrightarrow> 0 \<le> d \<and> d < 2 ^ 31 \<and> nat d + slack \<le> length data"

definition confined :: "(u8 list \<Rightarrow> int \<Rightarrow> (u8 list \<times> int \<times> 'r) asn) \<Rightarrow> bool" where
  "confined parse \<longleftrightarrow> (\<forall>data d. roomy data d \<longrightarrow> in_bounds data d (parse data d))"

lemma in_bounds_simps [simp]:
  "\<not> in_bounds data d None"
  "in_bounds data d (Some (Inl e))"
  by (simp_all add: in_bounds_def)

lemma in_bounds_Inr:
  "in_bounds data d (Some (Inr (rest, d', r))) \<longleftrightarrow> (\<exists>k. rest = drop k data \<and> 0 \<le> d' \<and> d' + int k \<le> d)"
  by (simp add: in_bounds_def)

locale bounded_parser =
  fixes parse :: "u8 list \<Rightarrow> int \<Rightarrow> (u8 list \<times> int \<times> 'r) asn"
  assumes bounded: "roomy data d \<Longrightarrow> in_bounds data d (parse data d)"
begin

lemma no_fault: "roomy data d \<Longrightarrow> parse data d \<noteq> None"
  using bounded [of data d] by (cases "parse data d") simp_all

lemma inside:
  assumes "roomy data d" and "parse data d = Some (Inr (rest, d', r))"
  shows "\<exists>k. rest = drop k data \<and> 0 \<le> d' \<and> d' + int k \<le> d" and "roomy rest d'"
proof -
  show k: "\<exists>k. rest = drop k data \<and> 0 \<le> d' \<and> d' + int k \<le> d" using bounded [OF assms(1)] assms(2) by (simp add: in_bounds_Inr)
  then show "roomy rest d'" using assms(1) by (auto simp: roomy_def nat_le_iff)
qed

text \<open>What follows such a parser may rely on the same room.\<close>

lemma followed:
  assumes "\<And>rest d' r. roomy rest d' \<Longrightarrow> in_bounds rest d' (f (rest, d', r))" and "roomy data d"
  shows "in_bounds data d (on_ok (parse data d) f)"
proof (cases "parse data d")
  case None
  then show ?thesis using no_fault [OF assms(2)] by simp
next
  case (Some res)
  show ?thesis
  proof (cases res)
    case (Inr x)
    obtain rest d' r where x: "x = (rest, d', r)" by (metis prod.collapse)
    have p: "parse data d = Some (Inr (rest, d', r))" using Some Inr x by simp
    note i = inside [OF assms(2) p]
    obtain k where k: "rest = drop k data" "0 \<le> d'" "d' + int k \<le> d" using i(1) by blast
    from assms(1) [OF i(2), of r] show ?thesis
    proof (cases "f (rest, d', r)")
      case (Some res')
      then show ?thesis using assms(1) [OF i(2), of r] k p
        by (cases res') (force simp: in_bounds_def add.commute intro: exI [of _ "k + n" for n])+
    qed simp
  qed (simp add: Some)
qed

end

subsection \<open>Lengths\<close>

lemma parse_length_bounds:
  assumes "asn_parse_length data = Some (Inr (l, rest))"
  shows "\<exists>k. rest = drop k data \<and> 1 \<le> k \<and> k \<le> 5 \<and> k \<le> length data"
proof (cases data)
  case (Cons b bs)
  then have "rest = drop (Suc (unat (b AND NOT ASN_LONG_LEN))) data \<and> unat (b AND NOT ASN_LONG_LEN) \<le> 4 \<and>
      unat (b AND NOT ASN_LONG_LEN) \<le> length bs \<or> rest = drop 1 data"
    using assms by (auto simp: asn_parse_length_def Let_def split: if_splits)
  then show ?thesis using Cons by (elim disjE) force+
qed (use assms in \<open>simp add: asn_parse_length_def\<close>)

lemma parse_length_no_fault: "5 \<le> length data \<Longrightarrow> asn_parse_length data \<noteq> None"
  by (cases data) (auto simp: asn_parse_length_def Let_def)

lemma parse_length_range:
  "asn_parse_length data = Some (Inr (l, rest)) \<Longrightarrow> l \<le> 0x80000000"
proof -
  have "ucast (b :: u8) \<le> (0x80000000 :: u64)" for b
  proof -
    have "unat b < 256" using unsigned_less [of b] by simp
    then show ?thesis by (simp add: word_le_nat_alt unsigned_ucast_eq take_bit_nat_eq_self)
  qed
  then show "asn_parse_length data = Some (Inr (l, rest)) \<Longrightarrow> l \<le> 0x80000000"
    by (auto simp: asn_parse_length_def Let_def split: list.splits if_splits)
qed

lemma roomy_length: "roomy (type # bufp) d \<Longrightarrow> asn_parse_length bufp \<noteq> None"
  by (rule parse_length_no_fault) (simp add: roomy_def slack_def)

text \<open>An object whose length has passed the test.\<close>

definition object_at :: "u8 list \<Rightarrow> int \<Rightarrow> u64 \<Rightarrow> u8 list \<Rightarrow> bool" where
  "object_at data d l after \<longleftrightarrow> (\<exists>k. after = drop k data \<and> length data - length after = k \<and> 2 \<le> k \<and>
     to_int l = int (unat l) \<and> int k + int (unat l) \<le> d \<and> unat l \<le> length after \<and> after \<noteq> [])"

lemma object_bounds:
  assumes "roomy (type # bufp) d" and "asn_parse_length bufp = Some (Inr (l, after))"
    and "l + of_nat (length (type # bufp) - length after) \<le> ulong d"
  shows "object_at (type # bufp) d l after"
proof -
  obtain k where k: "after = drop k bufp" "1 \<le> k" "k \<le> 5" "k \<le> length bufp"
    using parse_length_bounds [OF assms(2)] by blast
  have len: "length (type # bufp) - length after = Suc k" using k by simp
  have "unat l + Suc k < 2 ^ 64"
    using parse_length_range [OF assms(2)] k(3) by (simp add: word_le_nat_alt)
  then have "unat (l + of_nat (Suc k)) = unat l + Suc k"
    by (simp add: unat_word_ariths unsigned_of_nat take_bit_eq_mod del: of_nat_Suc)
  moreover have "unat (ulong d) = nat d"
    using assms(1) by (simp add: roomy_def ulong_def unsigned_of_int take_bit_int_eq_self)
  ultimately have n: "Suc k + unat l \<le> nat d" using assms(3) unfolding len word_le_nat_alt by linarith
  have r: "0 \<le> d" "d < 2147483648" "nat d + 7 \<le> Suc (length bufp)"
    using assms(1) by (simp_all add: roomy_def slack_def)
  have "unat l < 2147483648" using n r by linarith
  then have "to_int l = int (unat l)" using to_int_of_nat [of "unat l"] by simp
  moreover have "unat l \<le> length after" "after \<noteq> []" using n r k by auto
  moreover have "int (Suc k) + int (unat l) \<le> d" using n r by linarith
  ultimately show ?thesis unfolding object_at_def using k len by (intro exI [of _ "Suc k"]) auto
qed

subsection \<open>The primitives\<close>

lemma object_end:
  assumes "object_at data d l after"
  shows "in_bounds data d (Some (Inr (drop (unat l) after, remaining d l data after, r)))"
proof -
  obtain k where "after = drop k data" "length data - length after = k" "to_int l = int (unat l)"
    "int k + int (unat l) \<le> d" using assms by (auto simp: object_at_def)
  then show ?thesis unfolding in_bounds_Inr remaining_def
    by (intro exI [of _ "unat l + k"]) auto
qed

text \<open>The case analysis all parsers share: the type, the length and the test.\<close>

lemma parse_object:
  assumes "roomy (type # bufp) d" and "\<And>l after. object_at (type # bufp) d l after \<Longrightarrow> in_bounds (type # bufp) d (f l after)"
  shows "in_bounds (type # bufp) d (on_ok (asn_parse_length bufp) (\<lambda>(l, after).
    if overflows l (type # bufp) after d then Some (Inl Message_Overflow) else f l after))"
proof (cases "asn_parse_length bufp")
  case None
  then show ?thesis using roomy_length [OF assms(1)] by simp
next
  case (Some res)
  show ?thesis
  proof (cases res)
    case (Inr x)
    then obtain l after where p: "asn_parse_length bufp = Some (Inr (l, after))" using Some by (cases x) simp
    then show ?thesis using assms(2) [OF object_bounds [OF assms(1) p]]
      by (simp add: overflows_def)
  qed (simp add: Some)
qed

lemma roomy_Cons: "roomy data d \<Longrightarrow> \<exists>type bufp. data = type # bufp"
  by (cases data) (simp_all add: roomy_def slack_def)

interpretation string_in: bounded_parser "\<lambda>data d. asn_parse_string data d strlength"
proof
  fix data :: "u8 list" and d
  assume r: "roomy data d"
  then obtain type bufp where d: "data = type # bufp" using roomy_Cons by blast
  show "in_bounds data d (asn_parse_string data d strlength)"
    using r unfolding asn_parse_string_def d
    by (auto simp: Let_def intro!: parse_object object_end) (auto simp: object_at_def)
qed

interpretation bitstring_in: bounded_parser "\<lambda>data d. asn_parse_bitstring data d strlength"
proof
  fix data :: "u8 list" and d
  assume r: "roomy data d"
  then obtain type bufp where d: "data = type # bufp" using roomy_Cons by blast
  show "in_bounds data d (asn_parse_bitstring data d strlength)"
    using r unfolding asn_parse_bitstring_def d
    by (auto simp: Let_def split: list.split intro!: parse_object object_end) (auto simp: object_at_def)
qed

interpretation int_in: bounded_parser asn_parse_int
proof
  fix data :: "u8 list" and d
  assume r: "roomy data d"
  then obtain type bufp where d: "data = type # bufp" using roomy_Cons by blast
  show "in_bounds data d (asn_parse_int data d)"
    using r unfolding asn_parse_int_def d
    by (auto simp: Let_def split: list.split intro!: parse_object object_end) (auto simp: object_at_def)
qed

interpretation int64_in: bounded_parser asn_parse_unsigned_int64
proof
  fix data :: "u8 list" and d
  assume r: "roomy data d"
  then obtain type bufp where d: "data = type # bufp" using roomy_Cons by blast
  show "in_bounds data d (asn_parse_unsigned_int64 data d)"
    using r unfolding asn_parse_unsigned_int64_def d
    by (auto simp: Let_def split: list.split prod.split intro!: parse_object object_end) (auto simp: object_at_def)
qed

lemma header_object:
  assumes "object_at data d l after"
  shows "in_bounds data d (Some (Inr (after, to_int l, r)))"
proof -
  obtain k where "after = drop k data" "to_int l = int (unat l)" "int k + int (unat l) \<le> d"
    using assms by (auto simp: object_at_def)
  then show ?thesis unfolding in_bounds_Inr by (intro exI [of _ k]) auto
qed

lemma parse_header_eq:
  "asn_parse_header (type # bufp) d = (if type AND ASN_EXTENSION_ID = ASN_EXTENSION_ID then Some (Inl Extension_Id)
     else on_ok (asn_parse_length bufp) (\<lambda>(l, after). if overflows l (type # bufp) after d
       then Some (Inl Message_Overflow) else Some (Inr (after, to_int l, type))))"
  by (simp add: asn_parse_header_def overflows_def add.commute Let_def)

interpretation header_in: bounded_parser asn_parse_header
proof
  fix data :: "u8 list" and d
  assume r: "roomy data d"
  then obtain type bufp where d: "data = type # bufp" using roomy_Cons by blast
  show "in_bounds data d (asn_parse_header data d)"
    using r unfolding d parse_header_eq by (auto intro!: parse_object header_object)
qed

subsection \<open>Parts of messages\<close>

lemma in_bounds_self: "0 \<le> d \<Longrightarrow> in_bounds data d (Some (Inr (data, d, r)))"
  unfolding in_bounds_Inr by (rule exI [of _ 0]) simp

lemma roomy_nonneg: "roomy data d \<Longrightarrow> 0 \<le> d"
  by (simp add: roomy_def)

lemmas in_steps = header_in.followed int_in.followed int64_in.followed string_in.followed bitstring_in.followed

interpretation auth_in: bounded_parser "\<lambda>data d. snmp_auth_parse data d community_len"
  by unfold_locales (auto simp: snmp_auth_parse_def intro!: in_steps in_bounds_self roomy_nonneg)

interpretation scoped_in: bounded_parser "\<lambda>data d. asn1_parse_scoped_pdu data d engine_len name_len"
  by unfold_locales (auto simp: asn1_parse_scoped_pdu_def intro!: in_steps in_bounds_self roomy_nonneg)

text \<open>The fields of the header data, before the length that is left is counted again.\<close>

definition header_steps :: "u8 list \<Rightarrow> int \<Rightarrow> (u8 list \<times> int \<times> u64 \<times> u64 \<times> u8 list \<times> u64) asn" where
  "header_steps buf d =
     on_ok (asn_parse_header buf d) (\<lambda>(buf, l, type).
     if type \<noteq> ASN_SEQ_CON then Some (Inl Wrong_Type)
     else on_ok (asn_parse_int buf l) (\<lambda>(buf, l, _, i).
     on_ok (asn_parse_int buf l) (\<lambda>(buf, l, _, m).
     on_ok (asn_parse_string buf l 1) (\<lambda>(buf, l, _, f).
     if length f \<noteq> 1 then Some (Inl Too_Long)
     else on_ok (asn_parse_int buf l) (\<lambda>(buf, l, _, s).
     if l \<noteq> 0 then Some (Inl Message_Overflow) else Some (Inr (buf, l, i, m, f, s)))))))"

interpretation steps_in: bounded_parser header_steps
  by unfold_locales (auto simp: header_steps_def intro!: in_steps in_bounds_self roomy_nonneg)

lemma header_data_steps:
  "asn1_parse_header_data buf d = on_ok (header_steps buf d) (\<lambda>(rest, l, r).
     Some (Inr (rest, d - int (length buf - length rest), r)))"
  by (auto simp: asn1_parse_header_data_def header_steps_def on_ok_def Let_def split: option.splits sum.splits)

interpretation header_data_in: bounded_parser asn1_parse_header_data
proof
  fix data :: "u8 list" and d
  assume r: "roomy data d"
  show "in_bounds data d (asn1_parse_header_data data d)"
  proof (cases "header_steps data d")
    case None
    then show ?thesis using steps_in.no_fault [OF r] by simp
  next
    case (Some res)
    show ?thesis
    proof (cases res)
      case (Inr x)
      obtain rest l f where x: "x = (rest, l, f)" by (metis prod.collapse)
      then obtain k where "rest = drop k data" "0 \<le> l" "l + int k \<le> d"
        using steps_in.inside(1) [OF r] Some Inr by blast
      then show ?thesis using r Some Inr x unfolding header_data_steps
        by (auto simp: in_bounds_Inr roomy_def intro!: exI [of _ k])
    qed (simp add: header_data_steps Some)
  qed
qed

end
