(* ===== verification/Snmp_Consume.thy ===== *)
theory Snmp_Consume
  imports Snmp_Bounds Snmp_Objid
begin

section \<open>What the parsers consume\<close>

text \<open>
  How far the parsers of identifiers, bindings and lists of bindings move: the list of bindings takes
  exactly the octets its header announces, at least six for each binding; an identifier that does not fit
  in the array or whose last octet has the high bit leaves the pointer inside or behind the object.
\<close>

definition takes :: "nat \<Rightarrow> u8 list \<Rightarrow> u8 list \<Rightarrow> bool" where
  "takes n data rest \<longleftrightarrow> (\<exists>k. n \<le> k \<and> k \<le> length data \<and> rest = drop k data)"

lemma takes_trans: "takes n data mid \<Longrightarrow> takes m mid rest \<Longrightarrow> takes (n + m) data rest"
  unfolding takes_def
  by (elim exE conjE) (rule_tac x = "k + ka" in exI, auto simp: add.commute)

lemma takes_Cons: "takes n bufp rest \<Longrightarrow> takes (Suc n) (b # bufp) rest"
  by (auto simp: takes_def intro: exI [of _ "Suc k" for k])

lemma takes_weaken: "takes n data rest \<Longrightarrow> m \<le> n \<Longrightarrow> takes m data rest"
  unfolding takes_def by (elim exE conjE) (rule_tac x = k in exI, simp)

lemma takes_0: "takes 0 data data"
  by (auto simp: takes_def)

lemma takes_length: "takes n data rest \<Longrightarrow> length rest + n \<le> length data \<and> rest = drop (length data - length rest) data"
  by (auto simp: takes_def)

lemma parse_length_takes: "asn_parse_length data = Some (Inr (l, rest)) \<Longrightarrow> takes 1 data rest"
  using parse_length_bounds by (fastforce simp: takes_def)

lemma parse_header_takes: "asn_parse_header data d = Some (Inr (rest, l, type)) \<Longrightarrow> takes 2 data rest"
  using parse_length_takes takes_Cons
  by (fastforce simp: asn_parse_header_def Let_def numeral_2_eq_2 split: list.splits if_splits elim!: on_ok_InrE)

lemma parse_subid_takes: "parse_subid x data = Some (y, rest) \<Longrightarrow> takes 1 data rest"
proof (induction data arbitrary: x)
  case (Cons b data)
  show ?case
  proof (cases "b AND ASN_BIT8 = 0")
    case True
    then show ?thesis using Cons.prems by (auto simp: takes_def Let_def intro!: exI [of _ 1])
  next
    case False
    then have "takes 1 data rest" using Cons by (simp add: Let_def)
    then show ?thesis by (intro takes_weaken [OF takes_Cons]) simp_all
  qed
qed simp

lemma parse_subids_takes: "parse_subids room l data = Some (Inr (xs, rest)) \<Longrightarrow> takes 0 data rest"
proof (induction room arbitrary: l data xs)
  case (Suc room)
  show ?case
  proof (cases "l \<le> 0")
    case False
    then obtain x mid ys where "parse_subid 0 data = Some (x, mid)"
      and "parse_subids room (l - int (length data - length mid)) mid = Some (Inr (ys, rest))"
      using Suc.prems by (auto split: option.splits if_splits elim!: on_ok_InrE)
    then show ?thesis
      using takes_trans [OF parse_subid_takes Suc.IH] by (blast intro: takes_weaken)
  qed (use Suc.prems takes_0 in auto)
qed (auto simp: takes_0)

lemma parse_objid_takes:
  assumes "asn_parse_objid data l n = Some (Inr (rest, l', type, ids))"
  shows "takes 2 data rest"
proof -
  obtain t bufp where d: "data = t # bufp" using assms by (cases data) (simp_all add: asn_parse_objid_def)
  obtain k after xs where a: "asn_parse_length bufp = Some (Inr (k, after))"
    and s: "parse_subids (nat (n - 1)) (sint k) after = Some (Inr (xs, rest))"
    using assms by (auto simp: asn_parse_objid_def d Let_def split: if_splits list.splits elim!: on_ok_InrE)
  show ?thesis unfolding d
    using takes_Cons [OF takes_trans [OF parse_length_takes [OF a] parse_subids_takes [OF s]]]
    by (simp add: numeral_2_eq_2)
qed

lemma var_op_takes:
  assumes "snmp_parse_var_op data d n = Some (Inr (rest, d', x))" and "0 \<le> d" and "d < 2 ^ 31"
    and "length data < 2 ^ 32"
  shows "takes 6 data rest" and "d' = d - int (length data - length rest)" and "0 \<le> d'"
proof -
  obtain d1 l1 d2 l2 d3 l3 t1 t2 t3 ids where h1: "asn_parse_header data d = Some (Inr (d1, l1, t1))"
    and o: "asn_parse_objid d1 l1 n = Some (Inr (d2, l2, t2, ids))"
    and h2: "asn_parse_header d2 l2 = Some (Inr (d3, l3, t3))"
    and c: "\<not> ulong l3 + of_nat (length data - length d3) > ulong d" "0 \<le> l3" "l3 \<le> int (length d3)"
    and r: "rest = drop (nat l3) d3" "d' = d - int (length data - length rest)"
    using assms(1) by (auto simp: snmp_parse_var_op_def Let_def split: if_splits elim!: on_ok_InrE)
  have t: "takes 6 data d3"
    using takes_trans [OF takes_trans [OF parse_header_takes [OF h1] parse_objid_takes [OF o]] parse_header_takes [OF h2]]
    by simp
  moreover have t': "takes (nat l3) d3 rest" using c(2, 3) r(1) by (auto simp: takes_def)
  ultimately have "takes (6 + nat l3) data rest" by (rule takes_trans)
  then show "takes 6 data rest" by (rule takes_weaken) simp
  show "d' = d - int (length data - length rest)" by (rule r(2))
  have l: "length d3 + 6 \<le> length data" "length rest + nat l3 = length d3"
    using takes_length [OF t] r(1) c(3) by auto
  have "ulong l3 = of_nat (nat l3)" using c(2) by (simp add: ulong_def)
  then have s: "ulong l3 + of_nat (length data - length d3) = of_nat (nat l3 + (length data - length d3))"
    by (simp only: of_nat_add)
  have "nat l3 + (length data - length d3) < 2 ^ 64" using l assms(4) by simp
  then have "unat (ulong l3 + of_nat (length data - length d3)) = nat l3 + (length data - length d3)"
    unfolding s by (simp add: unsigned_of_nat take_bit_nat_eq_self del: of_nat_add)
  moreover have "unat (ulong d) = nat d"
    using assms(2, 3) by (simp add: ulong_def unsigned_of_int take_bit_int_eq_self)
  ultimately have "nat l3 + (length data - length d3) \<le> nat d" using c(1) by (simp only: not_less word_le_nat_alt)
  then show "0 \<le> d'" using r(2) l assms(2) by linarith
qed

lemma parse_vars_consumes:
  assumes "parse_vars data d = Some (Inr (vbs, rest, d'))" and "0 \<le> d" and "d < 2 ^ 31"
    and "length data < 2 ^ 32"
  shows "d' = 0 \<and> nat d \<le> length data \<and> rest = drop (nat d) data \<and> 6 * length vbs \<le> nat d"
  using assms
proof (induction data d arbitrary: vbs rest d' rule: parse_vars.induct)
  case (1 data d)
  show ?case
  proof (cases "d \<le> 0")
    case True
    then show ?thesis using 1(2, 3) by (simp add: parse_vars.simps)
  next
    case False
    obtain mid d1 name type n val v m vs where
      o: "snmp_parse_var_op data d ASN_MAX_NAME_LEN = Some (Inr (mid, d1, name, type, n, val))"
      and v: "parse_value type n val = Some (Inr (v, m))"
      and p: "parse_vars mid d1 = Some (Inr (vs, rest, d'))"
      and vbs: "vbs = \<lparr>vb_name = name, vb_type = type, vb_val = v, vb_val_len = m\<rparr> # vs"
      using 1(2) False by (subst (asm) parse_vars.simps) (auto elim!: on_ok_InrE)
    note t = var_op_takes [OF o 1(3-5)]
    note len = takes_length [OF t(1)]
    have "d1 < 2 ^ 31" "length mid < 2 ^ 32" using t(2) len 1(4, 5) by linarith+
    then have ih: "d' = 0 \<and> nat d1 \<le> length mid \<and> rest = drop (nat d1) mid \<and> 6 * length vs \<le> nat d1"
      using 1(1) [OF False o refl refl refl refl refl v refl p t(3)] by simp
    have e: "nat d = nat d1 + (length data - length mid)" using t(2, 3) by linarith
    moreover have "rest = drop (nat d) data" using ih len e by (metis drop_drop)
    ultimately show ?thesis using ih len vbs by auto
  qed
qed

lemma parse_rounds_enough:
  assumes "0 \<le> d" and "d < 2 ^ 31" and "length data < 2 ^ 32" and "nat d < 6 * n"
  shows "parse_rounds n data d = Some (parse_vars data d)"
  using assms
proof (induction n arbitrary: data d)
  case (Suc n)
  show ?case
  proof (cases "d \<le> 0")
    case True
    then show ?thesis by (simp add: parse_vars.simps)
  next
    case pos: False
    show ?thesis
    proof (cases "snmp_parse_var_op data d ASN_MAX_NAME_LEN")
      case None
      then show ?thesis using pos by (subst parse_vars.simps) simp
    next
      case (Some res)
      show ?thesis
      proof (cases res)
        case (Inl e)
        then show ?thesis using Some pos by (subst parse_vars.simps) simp
      next
        case (Inr x)
        obtain mid d1 name type k val where x: "x = (mid, d1, name, type, k, val)" by (metis prod.collapse)
        have o: "snmp_parse_var_op data d ASN_MAX_NAME_LEN = Some (Inr (mid, d1, name, type, k, val))" using Some Inr x by simp
        note t = var_op_takes [OF o Suc.prems(1-3)]
        note len = takes_length [OF t(1)]
        have "d1 < 2 ^ 31" "length mid < 2 ^ 32" using t(2, 3) len Suc.prems by linarith+
        moreover have "nat d1 + 6 \<le> nat d" using t(2, 3) len(1) by linarith
        then have "nat d1 < 6 * n" using Suc.prems(4) by simp
        ultimately have "parse_rounds n mid d1 = Some (parse_vars mid d1)" using Suc.IH t(3) by blast
        then show ?thesis using pos o
          by (subst parse_vars.simps) (auto simp: on_ok_def split: option.splits sum.splits)
      qed
    qed
  qed
qed simp

subsection \<open>Identifiers that do not fit\<close>

lemma parse_subids_take:
  "\<forall>x\<in>set xs. x \<le> MAX_SUBID \<Longrightarrow> room \<le> length xs \<Longrightarrow>
    parse_subids room (int (length (subids_content xs))) (subids_content xs @ rest) =
      Some (Inr (take room xs, subids_content (drop room xs) @ rest))"
proof (induction xs arbitrary: room)
  case (Cons x xs)
  show ?case
  proof (cases room)
    case (Suc r)
    have x: "x \<le> MAX_SUBID" and xs: "\<forall>y\<in>set xs. y \<le> MAX_SUBID" using Cons.prems by simp_all
    have "0 < int (length (subid_content x)) + int (length (subids_content xs))"
      using length_subid_content [OF x] by linarith
    then show ?thesis using Cons.IH [OF xs, of r] Cons.prems(2) x
      by (simp add: Suc parse_subid_content not_less)
  qed simp
qed simp

text \<open>An identifier longer than the array: the parser reports success, with the sub identifiers that fit, a
  pointer into the object, and the length of the whole object taken off.\<close>

lemma parse_objid_truncates:
  assumes "oid_ok objid" and "2 \<le> room" and "room \<le> int (length objid)"
    and "int (length (ber_obj 6 (subids_content (joined objid)))) \<le> d" and "d < 2 ^ 31"
  shows "asn_parse_objid (ber_obj 6 (subids_content (joined objid)) @ rest) d room =
    Some (Inr (subids_content (drop (nat room) objid) @ rest,
      d - int (length (ber_obj 6 (subids_content (joined objid)))), 6, take (nat room) objid))"
proof -
  let ?c = "subids_content (joined objid)"
  note fit = object_fits_data [OF assms(4, 5)]
  note j = joined_facts [OF assms(1)]
  have "length ?c < 2 ^ 31" using assms(4, 5) by (simp add: length_ber_obj)
  then have l: "sint (of_nat (length ?c) :: u64) = int (length ?c)" by (rule sint_of_small)
  have "nat (room - 1) \<le> length (joined objid)" using j(2) assms(3) by simp
  from parse_subids_take [OF j(1) this]
  have p: "parse_subids (nat (room - 1)) (int (length ?c)) (?c @ rest) =
      Some (Inr (take (nat (room - 1)) (joined objid), subids_content (drop (nat (room - 1)) (joined objid)) @ rest))" .
  obtain n where n: "nat room = Suc (Suc n)" by (rule that [of "nat room - 2"]) (use assms(2) in arith)
  then have n1: "nat (room - 1) = Suc n" by linarith
  obtain y ys where y: "joined objid = y # ys" by (simp add: joined_def)
  obtain a b xs where o: "objid = a # b # xs" using assms(1)
    by (cases objid rule: remdups_adj.cases) (simp_all add: oid_ok_def)
  have ys: "ys = xs" using y by (simp add: joined_def o)
  have f: "first_subids y = [a, b]" using j(3) unfolding y by (simp add: ys o)
  have t: "take (nat (room - 1)) (joined objid) = y # take n xs" "drop (nat (room - 1)) (joined objid) = drop n xs"
    by (simp_all add: n1 y ys)
  have t': "take (nat room) objid = first_subids y @ take n xs" "drop (nat room) objid = drop n xs"
    using f by (simp_all add: n o)
  show ?thesis
    using fit(1, 2, 5) p l unfolding t t'
    by (simp add: asn_parse_objid_def obj_data Let_def)
qed

text \<open>The last octet of the content has the high bit: the parser reads on behind the object, up to the first octet without
  it.  The value of a sequence of octets in base 128:\<close>

definition base128_add :: "nat \<Rightarrow> u8 \<Rightarrow> nat" where
  "base128_add v b = 128 * v + unat (b AND NOT ASN_BIT8)"

definition base128 :: "u8 list \<Rightarrow> nat" where
  "base128 bs = foldl base128_add 0 bs"

lemma subid_add: "push_bit 7 (of_nat v) + ucast (b AND NOT ASN_BIT8) = (of_nat (base128_add v b) :: u64)"
proof -
  have "ucast (b AND NOT ASN_BIT8) = (of_nat (unat (b AND NOT ASN_BIT8)) :: u64)" by (simp only: of_nat_unat)
  then show ?thesis by (simp add: base128_add_def push_bit_eq_mult mult.commute)
qed

lemma parse_subid_high:
  "\<forall>b\<in>set bs. b AND ASN_BIT8 \<noteq> 0 \<Longrightarrow> c AND ASN_BIT8 = 0 \<Longrightarrow>
    parse_subid (of_nat v) (bs @ c # rest) = Some (of_nat (foldl base128_add v (bs @ [c])), rest)"
proof (induction bs arbitrary: v)
  case Nil
  then show ?case by (simp only: append_Nil parse_subid.simps subid_add Let_def foldl.simps) simp
next
  case (Cons b bs)
  have "parse_subid (of_nat v) ((b # bs) @ c # rest) = parse_subid (of_nat (base128_add v b)) (bs @ c # rest)"
    using Cons.prems(1) by (simp only: append_Cons parse_subid.simps subid_add Let_def) simp
  then show ?case using Cons by simp
qed

lemma parse_objid_overreads:
  assumes "bs \<noteq> []" and "\<forall>b\<in>set (bs @ cs). b AND ASN_BIT8 \<noteq> 0" and "c AND ASN_BIT8 = 0"
    and "base128 (bs @ cs @ [c]) < 2 ^ 32"
    and "2 \<le> room" and "int (length (ber_obj 6 bs)) \<le> d" and "d < 2 ^ 31"
  shows "asn_parse_objid (ber_obj 6 bs @ cs @ c # rest) d room =
    Some (Inr (rest, d - int (length (ber_obj 6 bs)), 6, first_subids (of_nat (base128 (bs @ cs @ [c])))))"
proof -
  let ?y = "of_nat (base128 (bs @ cs @ [c])) :: u64"
  note fit = object_fits_data [OF assms(6, 7)]
  have "length bs < 2 ^ 31" using assms(6, 7) by (simp add: length_ber_obj)
  then have l: "sint (of_nat (length bs) :: u64) = int (length bs)" by (rule sint_of_small)
  have y: "parse_subid 0 (bs @ cs @ c # rest) = Some (?y, rest)"
    using parse_subid_high [OF assms(2, 3), of 0 rest] by (simp add: base128_def)
  have "unat ?y = base128 (bs @ cs @ [c])" using assms(4) by (simp add: unsigned_of_nat take_bit_nat_eq_self)
  then have m: "\<not> ?y > MAX_SUBID" using assms(4) by (simp add: not_less word_le_nat_alt MAX_SUBID_def)
  obtain n where n: "nat (room - 1) = Suc n" by (rule that [of "nat room - 2"]) (use assms(5) in arith)
  have s: "parse_subids n (int (length bs) - int (length (bs @ cs @ c # rest) - length rest)) rest = Some (Inr ([], rest))"
    by (cases n) simp_all
  have "parse_subids (nat (room - 1)) (int (length bs)) (bs @ cs @ c # rest) = Some (Inr ([?y], rest))"
    using assms(1) y s m by (simp add: n)
  then show ?thesis using fit(1, 2, 5) l
    by (simp add: asn_parse_objid_def obj_data Let_def)
qed

subsection \<open>An unsigned integer without content\<close>

text \<open>With a zero octet behind it, the octet is skipped but not counted.\<close>

lemma parse_unsigned_empty:
  assumes "type \<in> {0x02, 0x43, 0x41, 0x42, 0x47}" and "2 \<le> d" and "d < 2 ^ 31"
  shows "asn_parse_unsigned_int (type # 0 # 0 # rest) d = Some (Inr (rest, d - 2, type, 0))"
proof -
  have "int (length (ber_obj type [])) \<le> d" using assms(2) by (simp add: length_ber_obj ber_len_def)
  note fit = object_fits_data [OF this assms(3), unfolded ber_len_def, simplified]
  have "(ucast (- 1 :: u64) :: u32) = - 1" by (rule bit_word_eqI) (simp add: bit_ucast_iff)
  then have "to_int (- 1) = - 1" by (simp add: to_int_def)
  then show ?thesis using assms(1) fit(1, 5)
    by (auto simp: asn_parse_unsigned_int_def remaining_def Let_def)
qed

end
