(* ===== verification/Snmp_Properties.thy ===== *)
theory Snmp_Properties
  imports Snmp_Roundtrip Snmp_V3 Snmp_Consume
begin

section \<open>Properties of the SNMP message code\<close>

text \<open>
  The contracts of the encoder and decoder of \<^verbatim>\<open>src/snmp++/src/asn1.cpp\<close>: whole messages and single
  objects are read back, builders stay in the room they are given, parsers in the memory of the message,
  and the inputs on which they do not.
\<close>

subsection \<open>Round trips\<close>

text \<open>C13: what \<open>snmp_build\<close> builds for a well formed PDU (\<open>pdu_ok\<close>) and a community of fewer than 128 octets is no longer
  than the length it was given, and \<open>snmp_parse\<close> gets the PDU, the community and the version back from it, whatever follows
  it in memory, if the array of the caller has room for the community.  Only the length of a value of type object identifier
  changes, from bytes to sub identifiers.  A message with a longer community is built and then refused
  (\<open>long_community_refused\<close>).\<close>

theorem snmp_message_roundtrip:
  assumes "pdu_ok pdu" and "version = SNMP_VERSION_1 \<or> version = SNMP_VERSION_2C"
    and "length community < 128" and "out_length \<le> int (length packet)" and "out_length < 2 ^ 31"
    and "snmp_build pdu packet out_length version community (int (length community)) = Some (Inr (packet', n))"
    and "length (agent_addr into) = 4" and "int (length community) \<le> community_len"
  shows "0 \<le> n \<and> n \<le> out_length \<and> snmp_parse into (take (nat n) packet' @ rest) n community_len =
    Some (Inr (received_pdu into pdu, community, version))"
proof -
  note b = snmp_build_bytes [OF assms(1, 4, 6), unfolded sent_eq [OF assms(2, 3)]]
  then have "int (length (message_bytes version community pdu)) < 2 ^ 31" using assms(5) by simp
  from parse_message [OF assms(1) b(5) assms(7, 2) this assms(8)] show ?thesis using b(1, 2, 4) by simp
qed

definition sample_vbs :: "variable_list list" where
  "sample_vbs = [\<lparr>vb_name = [1, 3, 6, 1], vb_type = ASN_OCTET_STR, vb_val = Str_val [104, 105], vb_val_len = 2\<rparr>,
     \<lparr>vb_name = [1, 3, 30], vb_type = ASN_INTEGER, vb_val = Int_val 5, vb_val_len = 8\<rparr>,
     \<lparr>vb_name = [1, 3, 7], vb_type = ASN_OBJECT_ID, vb_val = Oid_val [2, 40, 3], vb_val_len = 24\<rparr>]"

definition sample_pdu :: snmp_pdu where
  "sample_pdu = (snmp_pdu_create 0xA0)\<lparr>reqid := 1234, variables := sample_vbs\<rparr>"

lemma sample_pdu_ok: "pdu_ok sample_pdu"
  by (simp add: pdu_ok_def sample_pdu_def sample_vbs_def snmp_pdu_create_def vb_ok_def oid_ok_def message_consts
      ASN_EXTENSION_ID_def MAX_SUBID_def TRP_REQ_MSG_def)

lemma sample_contents:
  "int_content 0 = [0]" "int_content 1 = [1]" "int_content 5 = [5]" "int_content 1234 = [4, 210]"
  by (simp_all add: int_content_eval)

lemma sample_vars_length: "length (vars_bytes (variables sample_pdu)) = 30"
  by (simp add: sample_pdu_def sample_vbs_def joined_def subid_content_small snmp_pdu_create_def var_bytes_def var_inner_def length_ber_obj
      sample_contents vb_content_def message_consts ber_len_def)

lemma sample_pdu_length: "length (pdu_bytes sample_pdu) = 44"
proof -
  have f: "length (pdu_fields sample_pdu) = 10"
    by (simp add: pdu_fields_def sample_pdu_def snmp_pdu_create_def int_obj_def length_ber_obj ber_len_def
        sample_contents TRP_REQ_MSG_def)
  show ?thesis by (simp add: pdu_bytes_def length_ber_obj ber_len_def sample_vars_length f)
qed

lemma sample_sent_length: "length (sent_bytes 1 [112] sample_pdu) = 52"
  by (simp add: sent_bytes_def length_ber_obj int_obj_def ber_len_def sample_contents sample_pdu_length)

lemmas sample_lengths = sample_vars_length sample_pdu_length sample_sent_length

lemma sample_pdu_fits: "message_fits sample_pdu 200 SNMP_VERSION_2C [112]"
  using sample_lengths by (simp add: message_fits_def MAX_SNMP_PACKET_def SNMP_VERSION_2C_def)

theorem snmp_message_roundtrip_witness:
  "\<exists>packet' n. snmp_build sample_pdu (replicate 200 0) 200 SNMP_VERSION_2C [112] 1 = Some (Inr (packet', n)) \<and>
    snmp_parse (snmp_pdu_create 0) (take (nat n) packet' @ [7]) n 32 =
      Some (Inr (received_pdu (snmp_pdu_create 0) sample_pdu, [112], SNMP_VERSION_2C))"
proof -
  obtain packet' n where b: "snmp_build sample_pdu (replicate 200 0) 200 SNMP_VERSION_2C [112] (int (length [112 :: u8])) =
      Some (Inr (packet', n))"
    using snmp_build_fit [OF sample_pdu_ok _ sample_pdu_fits, of "replicate 200 0"] by auto
  have l: "length [112 :: u8] < 128" "200 \<le> int (length (replicate 200 (0 :: u8)))" "(200 :: int) < 2 ^ 31"
    "length (agent_addr (snmp_pdu_create 0)) = 4" "int (length [112 :: u8]) \<le> 32"
    by (simp_all add: snmp_pdu_create_def)
  show ?thesis using snmp_message_roundtrip [OF sample_pdu_ok disjI2 [OF refl] l(1-3) b l(4, 5), of "[7]"] b
    by (intro exI [of _ packet'] exI [of _ n]) simp
qed

text \<open>On a well formed PDU \<open>snmp_build\<close> never writes outside the packet and its local buffers, and it
  builds the message exactly when the variable bindings and the PDU fit in \<open>MAX_SNMP_PACKET\<close> bytes and the
  message in the length the caller gives; otherwise it returns the error.\<close>

theorem snmp_build_when_fits:
  assumes "pdu_ok pdu" and "out_length \<le> int (length packet)"
  shows "snmp_build pdu packet out_length version community (int (length community)) \<noteq> None \<and>
    ((\<exists>packet' n. snmp_build pdu packet out_length version community (int (length community)) =
       Some (Inr (packet', n))) \<longleftrightarrow> message_fits pdu out_length version community)"
proof (intro conjI iffI)
  show "snmp_build pdu packet out_length version community (int (length community)) \<noteq> None"
    by (rule snmp_build_no_fault [OF assms])
next
  assume "\<exists>packet' n. snmp_build pdu packet out_length version community (int (length community)) =
    Some (Inr (packet', n))"
  then obtain packet' n where b: "snmp_build pdu packet out_length version community (int (length community)) =
    Some (Inr (packet', n))" by blast
  show "message_fits pdu out_length version community"
    using snmp_build_bytes [OF assms b] by (simp add: message_fits_def)
next
  assume "message_fits pdu out_length version community"
  from snmp_build_fit [OF assms this]
  show "\<exists>packet' n. snmp_build pdu packet out_length version community (int (length community)) =
    Some (Inr (packet', n))" by blast
qed

theorem snmp_build_when_fits_witness:
  "\<not> (\<exists>packet' n. snmp_build sample_pdu (replicate 50 0) 50 SNMP_VERSION_2C [112] (int (length [112 :: u8])) =
    Some (Inr (packet', n)))"
proof -
  have "\<not> message_fits sample_pdu 50 SNMP_VERSION_2C [112]"
    using sample_lengths by (simp add: message_fits_def SNMP_VERSION_2C_def)
  then show ?thesis
    using snmp_build_when_fits [OF sample_pdu_ok, of 50 "replicate 50 0" SNMP_VERSION_2C "[112]"] by simp
qed

text \<open>\<open>asn_build_int\<close> writes the shortest form of any \<^verbatim>\<open>long\<close>, at most eight octets, and
  \<open>asn_parse_int\<close> reads the same value back and stops behind it.\<close>

theorem asn_int_roundtrip:
  assumes "type \<in> int_types" and "datalength \<le> int (length buf) - int pos" and "datalength < 2 ^ 31"
    and "asn_build_int (buf, pos) datalength type v = Some (Inr ((buf', pos'), datalength'))"
  shows "asn_parse_int (drop pos buf') datalength = Some (Inr (drop pos' buf', datalength', type, v)) \<and>
    pos' - pos \<le> 10"
  using int.roundtrip [of "(type, v)" datalength buf pos buf' pos' datalength'] assms
    builds_cases [OF builds_int assms(2, 4)] length_int_content [of v]
  by (simp add: ber_obj_def ber_len_def)

theorem asn_int_roundtrip_witness:
  "\<exists>buf'. asn_build_int (replicate 12 0, 1) 11 ASN_INTEGER 1234 = Some (Inr ((buf', 5), 7)) \<and>
    asn_parse_int (drop 1 buf') 11 = Some (Inr (drop 5 buf', 7, ASN_INTEGER, 1234))"
proof -
  have b: "asn_build_int (replicate 12 0, 1) 11 ASN_INTEGER 1234 =
      Some (Inr ((written (replicate 12 0) 1 (ber_obj ASN_INTEGER (int_content 1234)), 5), 7))"
    using builds_fit [OF builds_int, of 1 ASN_INTEGER 1234 "replicate 12 0" 11]
    by (simp add: length_ber_obj ber_len_def sample_contents)
  have "ASN_INTEGER \<in> int_types" by (simp add: int_types_def ASN_INTEGER_def)
  then show ?thesis using asn_int_roundtrip [OF _ _ _ b] b by simp
qed

text \<open>\<open>asn_build_unsigned_int\<close> encodes the low 32 bits of the value, with a zero octet in front when
  the sign bit would be set, and \<open>asn_parse_unsigned_int\<close> reads exactly these bits.\<close>

theorem asn_unsigned_roundtrip:
  assumes "type \<in> uint_types" and "datalength \<le> int (length buf) - int pos" and "datalength < 2 ^ 31"
    and "asn_build_unsigned_int (buf, pos) datalength type u = Some (Inr ((buf', pos'), datalength'))"
  shows "asn_parse_unsigned_int (drop pos buf') datalength =
    Some (Inr (drop pos' buf', datalength', type, take_bit 32 u))"
  using uint.roundtrip [of "(type, u)" datalength buf pos buf' pos' datalength'] assms by simp

theorem asn_unsigned_roundtrip_witness:
  "\<exists>buf'. asn_build_unsigned_int (replicate 7 0, 0) 7 SMI_GAUGE 0xFFFFFFFF = Some (Inr ((buf', 7), 0)) \<and>
    asn_parse_unsigned_int buf' 7 = Some (Inr ([], 0, SMI_GAUGE, 0xFFFFFFFF))"
proof -
  have b: "asn_build_unsigned_int (replicate 7 0, 0) 7 SMI_GAUGE 0xFFFFFFFF =
      Some (Inr (([66, 5, 0, 255, 255, 255, 255], 7), 0))" by code_simp
  have "SMI_GAUGE \<in> uint_types" "take_bit 32 (0xFFFFFFFF :: u64) = 0xFFFFFFFF"
    by (simp_all add: uint_types_def SMI_GAUGE_def)
  then show ?thesis using asn_unsigned_roundtrip [OF _ _ _ b] b by simp
qed

text \<open>A \<^verbatim>\<open>counter64\<close> whose halves have 32 bits is read back by \<open>asn_parse_unsigned_int64\<close> from what
  \<open>asn_build_unsigned_int64\<close> writes, whatever its sign bit.\<close>

theorem asn_counter64_roundtrip:
  assumes "type \<in> int64_types" and "high cp < 2 ^ 32" and "low cp < 2 ^ 32"
    and "datalength \<le> int (length buf) - int pos" and "datalength < 2 ^ 31"
    and "asn_build_unsigned_int64 (buf, pos) datalength type cp = Some (Inr ((buf', pos'), datalength'))"
  shows "asn_parse_unsigned_int64 (drop pos buf') datalength = Some (Inr (drop pos' buf', datalength', type, cp))"
  using int64.roundtrip [of "(type, cp)" datalength buf pos buf' pos' datalength'] assms by simp

theorem asn_counter64_roundtrip_witness:
  "\<exists>buf'. asn_build_unsigned_int64 (replicate 12 0, 0) 12 SMI_COUNTER64 \<lparr>high = 0x80000000, low = 5\<rparr> =
      Some (Inr ((buf', 11), 1)) \<and>
    asn_parse_unsigned_int64 buf' 12 = Some (Inr ([0], 1, SMI_COUNTER64, \<lparr>high = 0x80000000, low = 5\<rparr>))"
proof -
  have b: "asn_build_unsigned_int64 (replicate 12 0, 0) 12 SMI_COUNTER64 \<lparr>high = 0x80000000, low = 5\<rparr> =
      Some (Inr (([70, 9, 0, 128, 0, 0, 0, 0, 0, 0, 5, 0], 11), 1))" by code_simp
  have "SMI_COUNTER64 \<in> int64_types" by (simp add: int64_types_def SMI_COUNTER64_def)
  then show ?thesis using asn_counter64_roundtrip [OF _ _ _ _ _ b] b by simp
qed

text \<open>C21: an object identifier of 2 to 128 sub identifiers of 32 bits, whose first two can share an octet
  group, is read back by \<open>asn_parse_objid\<close> into a large enough array.\<close>

theorem asn_objid_roundtrip:
  assumes "oid_ok objid" and "int (length objid) \<le> room"
    and "datalength \<le> int (length buf) - int pos" and "datalength < 2 ^ 31"
    and "asn_build_objid (buf, pos) datalength ASN_OBJECT_ID objid (int (length objid)) =
      Some (Inr ((buf', pos'), datalength'))"
  shows "asn_parse_objid (drop pos buf') datalength room =
    Some (Inr (drop pos' buf', datalength', ASN_OBJECT_ID, objid))"
  using objid.roundtrip [of objid room datalength buf pos buf' pos' datalength'] assms by (simp add: ASN_OBJECT_ID_def)

theorem asn_objid_roundtrip_witness:
  "\<exists>buf'. asn_build_objid (replicate 12 0, 0) 12 ASN_OBJECT_ID [2, 999, 126] 3 = Some (Inr ((buf', 5), 7)) \<and>
    asn_parse_objid buf' 12 128 = Some (Inr (drop 5 buf', 7, ASN_OBJECT_ID, [2, 999, 126]))"
proof -
  have o: "oid_ok [2, 999, 126]" by (simp add: oid_ok_def MAX_SUBID_def)
  have "subid_content 1079 = [136, 55]" by code_simp
  then have l: "length (subids_content (joined [2, 999, 126])) = 3" by (simp add: joined_def subid_content_small)
  have b: "asn_build_objid (replicate 12 0, 0) 12 ASN_OBJECT_ID [2, 999, 126] (int (length [2, 999, 126 :: u64])) =
      Some (Inr ((written (replicate 12 0) 0 (ber_obj ASN_OBJECT_ID (subids_content (joined [2, 999, 126]))), 5), 7))"
    using builds_fit [OF builds_objid [OF o], of 0 ASN_OBJECT_ID "replicate 12 0" 12] l
    by (simp add: length_ber_obj ber_len_def)
  from asn_objid_roundtrip [OF o _ _ _ b, of 128] b show ?thesis by auto
qed

text \<open>\<open>asn1_build_header_data\<close> checks the length of the output where its local buffer has 42 bytes; its
  fields never take more than 33, so it writes in bounds for all values, and \<open>asn1_parse_header_data\<close> reads
  the identifier, the size, the flags and the security model back.\<close>

theorem header_data_roundtrip:
  assumes "maxLength \<le> int (length buf) - int pos" and "maxLength < 2 ^ 31"
  shows "asn1_build_header_data (buf, pos) maxLength i m f s \<noteq> None \<and>
    (\<forall>buf' pos' l. asn1_build_header_data (buf, pos) maxLength i m f s = Some (Inr ((buf', pos'), l)) \<longrightarrow>
      length buf' = length buf \<and>
      asn1_parse_header_data (drop pos buf') maxLength = Some (Inr (drop pos' buf', l, i, m, [f], s)))"
  using header_data.no_fault [where v = "(i, m, f, s)", OF _ assms(1)]
    header_data.stays_in_bounds(1) [where v = "(i, m, f, s)", OF _ assms(1)]
    header_data.roundtrip [where v = "(i, m, f, s)", OF _ assms] by simp

theorem header_data_roundtrip_witness:
  "asn1_build_header_data (replicate 10 0, 0) 10 1234 65507 4 3 \<noteq> None"
  using header_data_roundtrip [of 10 "replicate 10 0" 0] by simp

text \<open>\<open>asn1_parse_scoped_pdu\<close> returns the engine id, the context name and the data of a scoped PDU that
  \<open>asn1_build_scoped_pdu\<close> has built, and the length of the data.\<close>

theorem scoped_pdu_roundtrip:
  assumes "length (scoped_names engine name @ data) \<le> MAX_SNMP_PACKET" and "data \<noteq> []"
    and "pos + length (scoped_bytes engine name data) \<le> length buf"
    and "max_len = int (length buf) - int pos" and "max_len < 2 ^ 31"
    and "int (length engine) \<le> engine_len" and "int (length name) \<le> name_len"
  shows "\<exists>buf' pos' l. asn1_build_scoped_pdu (buf, pos) max_len engine (int (length engine)) name (int (length name)) data =
      Some (Inr ((buf', pos'), l)) \<and>
    asn1_parse_scoped_pdu (drop pos buf') max_len engine_len name_len =
      Some (Inr (data @ drop pos' buf', int (length data), engine, name))"
proof -
  have fit: "int (length (scoped_bytes engine name data)) \<le> max_len" using assms(3, 4) by linarith
  then have hdr: "int (length (scoped_names engine name) +
      length (ASN_SEQ_CON # ber_len (length (scoped_names engine name @ data)))) \<le> max_len"
    by (simp add: scoped_bytes_def length_ber_obj)
  have names: "length (scoped_names engine name) \<le> MAX_SNMP_PACKET" using assms(1) by simp
  have room: "max_len \<le> int (length buf) - int pos" using assms(4) by simp
  note b = build_scoped_pdu_eq [OF names assms(2) hdr room] and p = parse_scoped_pdu [OF fit assms(5-7)]
  show ?thesis using assms(1, 3) unfolding b by (simp add: drop_written drop_written_end p)
qed

theorem scoped_pdu_roundtrip_witness:
  "\<exists>buf' pos' l. asn1_build_scoped_pdu (replicate 20 0, 0) 20 [1, 2] 2 [3] 1 [0xA0, 0] = Some (Inr ((buf', pos'), l)) \<and>
    asn1_parse_scoped_pdu buf' 20 32 32 = Some (Inr ([0xA0, 0] @ drop pos' buf', 2, [1, 2], [3]))"
  using scoped_pdu_roundtrip [of "[1, 2]" "[3]" "[0xA0, 0]" 0 "replicate 20 0" 20 32 32]
  by (simp add: scoped_bytes_def scoped_names_def length_ber_obj ber_len_def MAX_SNMP_PACKET_def)

subsection \<open>Inputs the builders and parsers do not handle\<close>

text \<open>C23: \<open>asn1_build_scoped_pdu\<close> writes outside a buffer, given engine id, name and header that fit in the length
  of the output, exactly when the content exceeds the local buffer of \<open>MAX_SNMP_PACKET\<close> bytes or the
  whole object exceeds the output: neither copy of the data is guarded.\<close>

theorem scoped_pdu_overflow:
  assumes "length (scoped_names engine name) \<le> MAX_SNMP_PACKET" and "data \<noteq> []"
    and "int (length (scoped_names engine name) + length (ASN_SEQ_CON # ber_len (length (scoped_names engine name @ data))))
      \<le> max_len" and "max_len \<le> int (length buf) - int pos"
  shows "asn1_build_scoped_pdu (buf, pos) max_len engine (int (length engine)) name (int (length name)) data = None \<longleftrightarrow>
    length (scoped_names engine name @ data) > MAX_SNMP_PACKET \<or>
    pos + length (scoped_bytes engine name data) > length buf"
  unfolding build_scoped_pdu_eq [OF assms] by auto

theorem scoped_pdu_overflow_witness:
  "asn1_build_scoped_pdu (replicate 10 0, 0) 10 [1, 2] 2 [3] 1 [0xA0, 0] = None"
  using scoped_pdu_overflow [of "[1, 2]" "[3]" "[0xA0, 0]" 10 "replicate 10 0" 0]
  by (simp add: scoped_bytes_def scoped_names_def length_ber_obj ber_len_def MAX_SNMP_PACKET_def)

text \<open>With a community of 128 bytes or more \<open>snmp_build\<close> still succeeds when the message fits, but it
  counts one length octet for the community, and \<open>snmp_parse\<close> refuses the message it has built.\<close>

theorem long_community_refused:
  assumes "pdu_ok pdu" and "version = SNMP_VERSION_1 \<or> version = SNMP_VERSION_2C"
    and "128 \<le> length community" and "out_length \<le> int (length packet)" and "out_length < 2 ^ 31"
    and "snmp_build pdu packet out_length version community (int (length community)) = Some (Inr (packet', n))"
    and "int (length community) \<le> community_len"
  shows "snmp_parse into (take (nat n) packet' @ rest) n community_len = Some (Inl SNMP_CLASS_ASN1ERROR)"
proof -
  note b = snmp_build_bytes [OF assms(1, 4, 6)]
  then have "int (length (sent_bytes version community pdu)) < 2 ^ 31" using assms(5) by simp
  from parse_long_community [OF assms(1-3) this assms(7)] show ?thesis unfolding b(1) unfolding b(2) by simp
qed

lemma sample_long_fits: "message_fits sample_pdu 400 SNMP_VERSION_2C (replicate 200 65)"
  by (simp add: message_fits_def MAX_SNMP_PACKET_def SNMP_VERSION_2C_def sample_lengths sent_bytes_def
      length_ber_obj int_obj_def ber_len_def sample_contents)

theorem long_community_refused_witness:
  "\<exists>packet' n. snmp_build sample_pdu (replicate 400 0) 400 SNMP_VERSION_2C (replicate 200 65) 200 = Some (Inr (packet', n)) \<and>
    snmp_parse (snmp_pdu_create 0) (take (nat n) packet' @ []) n 300 = Some (Inl SNMP_CLASS_ASN1ERROR)"
proof -
  let ?c = "replicate 200 65 :: u8 list"
  obtain packet' n where b: "snmp_build sample_pdu (replicate 400 0) 400 SNMP_VERSION_2C ?c (int (length ?c)) =
      Some (Inr (packet', n))"
    using snmp_build_fit [OF sample_pdu_ok _ sample_long_fits, of "replicate 400 0"] by auto
  have l: "128 \<le> length ?c" "400 \<le> int (length (replicate 400 (0 :: u8)))" "(400 :: int) < 2 ^ 31"
    "int (length ?c) \<le> 300" by simp_all
  show ?thesis using long_community_refused [OF sample_pdu_ok disjI2 [OF refl] l(1-3) b l(4), of "snmp_pdu_create 0" "[]"] b
    by (intro exI [of _ packet'] exI [of _ n]) simp
qed

text \<open>An identifier with more sub identifiers than the array of the caller has is cut off without an error:
  \<open>asn_parse_objid\<close> returns the ones that fit, takes the whole object off the length and leaves the
  pointer in the middle of it.\<close>

theorem objid_truncated:
  assumes "oid_ok objid" and "2 \<le> room" and "room < int (length objid)"
    and "int (length (ber_obj 6 (subids_content (joined objid)))) \<le> d" and "d < 2 ^ 31"
  shows "asn_parse_objid (ber_obj 6 (subids_content (joined objid)) @ rest) d room =
    Some (Inr (subids_content (drop (nat room) objid) @ rest,
      d - int (length (ber_obj 6 (subids_content (joined objid)))), 6, take (nat room) objid))"
  using parse_objid_truncates [OF assms(1, 2) _ assms(4, 5)] assms(3) by simp

theorem objid_truncated_witness:
  "asn_parse_objid (ber_obj 6 (subids_content (joined [1, 3, 6, 1])) @ [2, 1, 0]) 8 3 =
    Some (Inr (subids_content [1] @ [2, 1, 0], 3, 6, [1, 3, 6]))"
  using objid_truncated [of "[1, 3, 6, 1]" 3 8 "[2, 1, 0]"]
  by (simp add: oid_ok_def length_ber_obj ber_len_def joined_def subid_content_small MAX_SUBID_def)

text \<open>C39: when every octet of an identifier has the high bit, \<open>asn_parse_objid\<close> reads on behind the object, up to the first
  octet without the high bit: the octets behind the object become the low groups of the last sub identifier, the pointer
  that is returned is behind them, and only the length of the object is taken off.  So it is for contents of any length whose
  value, the octets behind included, fits in 32 bits.\<close>

theorem objid_overreads:
  assumes "bs \<noteq> []" and "\<forall>b\<in>set (bs @ cs). b AND ASN_BIT8 \<noteq> 0" and "c AND ASN_BIT8 = 0"
    and "base128 (bs @ cs @ [c]) < 2 ^ 32"
    and "2 \<le> room" and "int (length (ber_obj 6 bs)) \<le> d" and "d < 2 ^ 31"
  shows "asn_parse_objid (ber_obj 6 bs @ cs @ c # rest) d room =
    Some (Inr (rest, d - int (length (ber_obj 6 bs)), 6, first_subids (of_nat (base128 (bs @ cs @ [c])))))"
  by (rule parse_objid_overreads [OF assms])

theorem objid_overreads_witness:
  "asn_parse_objid [6, 1, 0x81, 0x82, 3, 9] 3 128 = Some (Inr ([9], 0, 6, [2, 16563]))"
proof -
  have b: "base128 ([0x81] @ [0x82] @ [3]) = 16643" by code_simp
  have f: "first_subids 16643 = [2, 16563]" by (simp add: first_subids_def)
  show ?thesis using objid_overreads [of "[0x81]" "[0x82]" 3 128 3 "[9]"] unfolding b
    by (simp add: ber_obj_def ber_len_def ASN_BIT8_def f)
qed

text \<open>An unsigned integer without content, followed by a zero octet, is accepted as 0: the parser skips
  three octets and takes two off the length.\<close>

theorem unsigned_empty_miscounted:
  assumes "type \<in> {0x02, 0x43, 0x41, 0x42, 0x47}" and "2 \<le> d" and "d < 2 ^ 31"
  shows "asn_parse_unsigned_int (type # 0 # 0 # rest) d = Some (Inr (rest, d - 2, type, 0))"
  by (rule parse_unsigned_empty [OF assms])

theorem unsigned_empty_miscounted_witness:
  "asn_parse_unsigned_int [0x42, 0, 0, 5, 0] 5 = Some (Inr ([5, 0], 3, 0x42, 0))"
  using unsigned_empty_miscounted [of "0x42" 5 "[5, 0]"] by simp

subsection \<open>Bounds\<close>

text \<open>With seven readable bytes behind the message, the community header, the version 3 header data and
  the scoped PDU are parsed without a read outside the memory, whatever the bytes are, and the pointer and
  the length they return lie inside the message.\<close>

theorem parts_in_bounds:
  assumes "0 \<le> d" and "d < 2 ^ 31" and "nat d + 7 \<le> length data"
  shows "in_bounds data d (snmp_auth_parse data d community_len) \<and>
    in_bounds data d (asn1_parse_header_data data d) \<and>
    in_bounds data d (asn1_parse_scoped_pdu data d engine_len name_len)"
proof -
  have "roomy data d" using assms by (simp add: roomy_def slack_def)
  then show ?thesis using auth_in.bounded header_data_in.bounded scoped_in.bounded by blast
qed

theorem parts_in_bounds_witness:
  "in_bounds [0x30, 0x82, 1, 2, 3, 4, 5, 6] 1 (snmp_auth_parse [0x30, 0x82, 1, 2, 3, 4, 5, 6] 1 128)"
  using parts_in_bounds [of 1 "[0x30, 0x82, 1, 2, 3, 4, 5, 6]" 128] by simp

text \<open>C24: the loop of \<open>snmp_parse_vb\<close> over the variable bindings ends for every content of a memory below 2 ^ 32 octets and
  every announced length from 0 to 2 ^ 31 - 1, after one test more than a sixth of the announced octets at most: with an error, with a read outside the memory, or with a list of bindings.  When
  it succeeds it has taken exactly the announced octets, all of them in memory, and at least six for each binding.\<close>

theorem parse_vars_exact:
  assumes "0 \<le> d" and "d < 2 ^ 31" and "length data < 2 ^ 32"
  shows "parse_rounds (Suc (nat d div 6)) data d = Some (parse_vars data d) \<and>
    (\<forall>vbs rest d'. parse_vars data d = Some (Inr (vbs, rest, d')) \<longrightarrow>
      d' = 0 \<and> nat d \<le> length data \<and> rest = drop (nat d) data \<and> 6 * length vbs \<le> nat d)"
proof -
  have "k < 6 * Suc (k div 6)" for k :: nat by presburger
  then have "nat d < 6 * Suc (nat d div 6)" .
  then show ?thesis using parse_rounds_enough [OF assms] parse_vars_consumes [OF _ assms] by blast
qed

theorem parse_vars_exact_witness:
  "parse_rounds 3 [0x30, 5, 6, 1, 0x2B, 5, 0, 0x30, 5, 6, 1, 0x2B, 5, 0, 9] 14 =
     Some (Some (Inr (replicate 2 \<lparr>vb_name = [1, 3], vb_type = 5, vb_val = No_val, vb_val_len = 0\<rparr>, [9], 0)))"
proof -
  have "parse_vars [0x30, 5, 6, 1, 0x2B, 5, 0, 0x30, 5, 6, 1, 0x2B, 5, 0, 9] 14 =
      Some (Inr (replicate 2 \<lparr>vb_name = [1, 3], vb_type = 5, vb_val = No_val, vb_val_len = 0\<rparr>, [9], 0))"
    by code_simp
  then show ?thesis
    using parse_vars_exact [of 14 "[0x30, 5, 6, 1, 0x2B, 5, 0, 0x30, 5, 6, 1, 0x2B, 5, 0, 9]"] by simp
qed

end
