(* ===== verification/Array_Table.thy ===== *)
theory Array_Table
  imports Prelude "HOL-Library.Multiset"
begin

section \<open>Tables in arrays that grow\<close>

text \<open>
  Every table of \<^verbatim>\<open>usm_v3.cpp\<close> and \<^verbatim>\<open>mp_v3.cpp\<close> is the same structure: a pointer \<open>table\<close> to an array of
  \<open>max_entries\<close> structs, of which the first \<open>entries\<close> are in use; a search runs over them from the front, a
  full array is replaced by one that is larger by a factor, and a deletion moves the last struct to the
  position that becomes free.  A slot is \<open>None\<close> until it has been written; reading it then, and any access
  outside the array, is \<open>None\<close> in the outer option.  \<open>new\<close> does not fail.
\<close>

record 'e array_table =
  table :: "'e option list option"
  max_entries :: nat
  entries :: nat

definition new_table :: "nat \<Rightarrow> 'e array_table" where
  "new_table n = \<lparr>table = Some (replicate n None), max_entries = n, entries = 0\<rparr>"

subsection \<open>Operations\<close>

definition slot :: "'e array_table \<Rightarrow> nat \<Rightarrow> 'e option" where
  "slot t i = (case table t of None \<Rightarrow> None | Some xs \<Rightarrow> if i < length xs then xs ! i else None)"

definition set_slot :: "nat \<Rightarrow> 'e \<Rightarrow> 'e array_table \<Rightarrow> 'e array_table option" where
  "set_slot i e t = (case table t of None \<Rightarrow> None
     | Some xs \<Rightarrow> if i < length xs then Some (t\<lparr>table := Some (xs[i := Some e])\<rparr>) else None)"

text \<open>\<open>for (i = from; i < entries; i++) if (P (table[i]))\<close>: the first index, if any.\<close>

primrec scan :: "nat \<Rightarrow> nat \<Rightarrow> ('e \<Rightarrow> bool) \<Rightarrow> 'e array_table \<Rightarrow> nat option option" where
  "scan 0 i P t = Some None"
| "scan (Suc n) i P t = Option.bind (slot t i) (\<lambda>e. if P e then Some (Some i) else scan n (Suc i) P t)"

definition find_entry :: "nat \<Rightarrow> ('e \<Rightarrow> bool) \<Rightarrow> 'e array_table \<Rightarrow> nat option option" where
  "find_entry i P t = scan (entries t - i) i P t"

text \<open>The new array with the structs in use copied, and the old one deleted.\<close>

definition resize :: "nat \<Rightarrow> 'e array_table \<Rightarrow> 'e array_table option" where
  "resize factor t = (case table t of None \<Rightarrow> None
     | Some xs \<Rightarrow> let n = factor * max_entries t in
         if length xs < entries t \<or> n < entries t then None
         else Some (t\<lparr>table := Some (take (entries t) xs @ replicate (n - entries t) None), max_entries := n\<rparr>))"

text \<open>The two ways to add a struct: making room before it is written, or after it.\<close>

definition push_entry :: "nat \<Rightarrow> 'e \<Rightarrow> 'e array_table \<Rightarrow> 'e array_table option" where
  "push_entry factor e t =
     Option.bind (if entries t = max_entries t then resize factor t else Some t) (\<lambda>t.
     Option.bind (set_slot (entries t) e t) (\<lambda>t. Some (t\<lparr>entries := Suc (entries t)\<rparr>)))"

definition push_then_grow :: "nat \<Rightarrow> 'e \<Rightarrow> 'e array_table \<Rightarrow> 'e array_table option" where
  "push_then_grow factor e t =
     Option.bind (set_slot (entries t) e t) (\<lambda>t.
     let t = t\<lparr>entries := Suc (entries t)\<rparr> in
     if entries t = max_entries t then resize factor t else Some t)"

text \<open>\<open>table[i] = table[entries - 1]\<close> unless \<open>i\<close> is the last one, and one entry less.\<close>

definition drop_entry :: "nat \<Rightarrow> 'e array_table \<Rightarrow> 'e array_table option" where
  "drop_entry i t = (let n = entries t - 1 in
     if n = i then Some (t\<lparr>entries := n\<rparr>)
     else Option.bind (slot t n) (\<lambda>e. Option.bind (set_slot i e t) (\<lambda>t. Some (t\<lparr>entries := n\<rparr>))))"

subsection \<open>Well formed tables and their entries\<close>

definition live :: "'e array_table \<Rightarrow> 'e list" where
  "live t = map the (take (entries t) (the (table t)))"

definition table_ok :: "'e array_table \<Rightarrow> bool" where
  "table_ok t \<longleftrightarrow> (\<exists>xs. table t = Some xs \<and> length xs = max_entries t \<and> entries t \<le> max_entries t \<and>
     (\<forall>i<entries t. xs ! i \<noteq> None))"

lemma table_okE:
  assumes "table_ok t"
  obtains xs where "table t = Some xs" and "length xs = max_entries t" and "entries t \<le> max_entries t"
    and "take (entries t) xs = map Some (live t)"
proof -
  obtain xs where x: "table t = Some xs" "length xs = max_entries t" "entries t \<le> max_entries t"
    "\<forall>i<entries t. xs ! i \<noteq> None" using assms by (auto simp: table_ok_def)
  have "take (entries t) xs = map Some (live t)"
    using x by (intro nth_equalityI) (auto simp: live_def)
  then show ?thesis using that x by blast
qed

lemma length_live: "table_ok t \<Longrightarrow> length (live t) = entries t"
  by (auto simp: table_ok_def live_def)

lemma table_okI:
  assumes "table t = Some xs" and "length xs = max_entries t" and "entries t \<le> max_entries t"
    and "take (entries t) xs = map Some es"
  shows "table_ok t" and "live t = es"
proof -
  have "xs ! i \<noteq> None" if "i < entries t" for i
  proof -
    have "xs ! i = take (entries t) xs ! i" using that by simp
    also have "\<dots> = map Some es ! i" by (simp only: assms(4))
    also have "\<dots> = Some (es ! i)"
      using that assms(2-4) by (intro nth_map) (metis length_map length_take min.absorb2)
    finally show ?thesis by simp
  qed
  then show "table_ok t" using assms by (auto simp: table_ok_def)
  show "live t = es" using assms by (simp add: live_def)
qed

lemma new_table_ok: "table_ok (new_table n)" "live (new_table n) = []"
  by (simp_all add: new_table_def table_ok_def live_def)

lemma slot_live: "table_ok t \<Longrightarrow> i < entries t \<Longrightarrow> slot t i = Some (live t ! i)"
  by (auto simp: table_ok_def live_def slot_def)

text \<open>The first index of a list where a predicate holds.\<close>

definition first_index :: "('e \<Rightarrow> bool) \<Rightarrow> 'e list \<Rightarrow> nat option" where
  "first_index P xs = (if \<exists>x\<in>set xs. P x then Some (length (takeWhile (\<lambda>x. \<not> P x) xs)) else None)"

lemma first_index_simps [simp]:
  "first_index P [] = None"
  "first_index P (x # xs) = (if P x then Some 0 else map_option Suc (first_index P xs))"
  by (auto simp: first_index_def)

lemma first_index_SomeD:
  assumes "first_index P xs = Some i"
  shows "i < length xs" and "P (xs ! i)" and "\<forall>j<i. \<not> P (xs ! j)"
proof -
  have "i < length xs \<and> P (xs ! i) \<and> (\<forall>j<i. \<not> P (xs ! j))"
    using assms
  proof (induction xs arbitrary: i)
    case (Cons x xs)
    then show ?case by (cases i) (auto simp: less_Suc_eq_0_disj split: if_splits)
  qed simp
  then show "i < length xs" "P (xs ! i)" "\<forall>j<i. \<not> P (xs ! j)" by auto
qed

lemma first_index_None: "first_index P xs = None \<longleftrightarrow> (\<forall>x\<in>set xs. \<not> P x)"
  by (auto simp: first_index_def)

lemma scan_live:
  "table_ok t \<Longrightarrow> i + n = entries t \<Longrightarrow>
    scan n i P t = Some (map_option ((+) i) (first_index P (drop i (live t))))"
proof (induction n arbitrary: i)
  case 0
  then show ?case by (simp add: length_live)
next
  case (Suc n)
  then have i: "i < entries t" "i < length (live t)" by (simp_all add: length_live)
  then have d: "drop i (live t) = live t ! i # drop (Suc i) (live t)" by (simp add: Cons_nth_drop_Suc)
  show ?case using Suc.IH [of "Suc i"] Suc.prems i
    by (simp add: slot_live d option.map_comp o_def)
qed

lemma find_entry_live:
  "table_ok t \<Longrightarrow> find_entry 0 P t = Some (first_index P (live t))"
  using scan_live [of t 0 "entries t" P] by (cases "first_index P (live t)") (simp_all add: find_entry_def)

lemma find_entry_from:
  "table_ok t \<Longrightarrow> i \<le> entries t \<Longrightarrow>
    find_entry i P t = Some (map_option ((+) i) (first_index P (drop i (live t))))"
  using scan_live [of t i "entries t - i" P] by (simp add: find_entry_def)

lemma set_slot_ok:
  assumes "table_ok t" and "i < entries t"
  shows "\<exists>t'. set_slot i e t = Some t' \<and> table_ok t' \<and> live t' = (live t)[i := e] \<and>
    entries t' = entries t \<and> max_entries t' = max_entries t"
proof -
  obtain xs where x: "table t = Some xs" "length xs = max_entries t" "entries t \<le> max_entries t"
    "take (entries t) xs = map Some (live t)" by (rule table_okE [OF assms(1)])
  let ?t = "t\<lparr>table := Some (xs[i := Some e])\<rparr>"
  have "take (entries t) (xs[i := Some e]) = map Some ((live t)[i := e])"
    by (simp add: take_update_swap x(4) map_update)
  then have "table_ok ?t" "live ?t = (live t)[i := e]"
    using table_okI [of ?t "xs[i := Some e]" "(live t)[i := e]"] x by simp_all
  then show ?thesis using x assms(2) by (simp add: set_slot_def)
qed

text \<open>Writing the first slot that is not in use and counting it.\<close>

lemma append_ok:
  assumes "table_ok t" and "entries t < max_entries t"
  shows "\<exists>t'. set_slot (entries t) e t = Some t' \<and> entries t' = entries t \<and> max_entries t' = max_entries t \<and>
    table_ok (t'\<lparr>entries := Suc (entries t)\<rparr>) \<and> live (t'\<lparr>entries := Suc (entries t)\<rparr>) = live t @ [e]"
proof -
  obtain xs where x: "table t = Some xs" "length xs = max_entries t" "entries t \<le> max_entries t"
    "take (entries t) xs = map Some (live t)" by (rule table_okE [OF assms(1)])
  let ?t = "t\<lparr>table := Some (xs[entries t := Some e]), entries := Suc (entries t)\<rparr>"
  have "take (Suc (entries t)) (xs[entries t := Some e]) = map Some (live t @ [e])"
    using x assms(2) by (simp add: take_Suc_conv_app_nth)
  then have "table_ok ?t" "live ?t = live t @ [e]"
    using table_okI [of ?t "xs[entries t := Some e]" "live t @ [e]"] x assms(2) by simp_all
  then show ?thesis using x assms(2) by (simp add: set_slot_def)
qed

lemma resize_ok:
  assumes "table_ok t" and "0 < factor"
  shows "\<exists>t'. resize factor t = Some t' \<and> table_ok t' \<and> live t' = live t \<and> entries t' = entries t \<and>
    max_entries t' = factor * max_entries t"
proof -
  obtain xs where x: "table t = Some xs" "length xs = max_entries t" "entries t \<le> max_entries t"
    "take (entries t) xs = map Some (live t)" by (rule table_okE [OF assms(1)])
  let ?n = "factor * max_entries t"
  have n: "entries t \<le> ?n" using x(3) assms(2) by (cases factor) simp_all
  let ?xs = "take (entries t) xs @ replicate (?n - entries t) None"
  have l: "length (live t) = entries t" by (rule length_live [OF assms(1)])
  then have "table_ok (t\<lparr>table := Some ?xs, max_entries := ?n\<rparr>)" "live (t\<lparr>table := Some ?xs, max_entries := ?n\<rparr>) = live t"
    using table_okI [of "t\<lparr>table := Some ?xs, max_entries := ?n\<rparr>" ?xs "live t"] x n by simp_all
  then show ?thesis using x n by (simp add: resize_def Let_def)
qed

subsection \<open>Deletion\<close>

text \<open>The list without position \<open>i\<close>, where the last element has taken its place.\<close>

definition move_last :: "nat \<Rightarrow> 'a list \<Rightarrow> 'a list" where
  "move_last i xs = (if length xs - 1 = i then butlast xs else butlast (xs[i := last xs]))"

lemma drop_entry_ok:
  assumes "table_ok t" and "i < entries t"
  shows "\<exists>t'. drop_entry i t = Some t' \<and> table_ok t' \<and> live t' = move_last i (live t) \<and>
    entries t' = entries t - 1 \<and> max_entries t' = max_entries t"
proof -
  have shrink: "table_ok (u\<lparr>entries := entries u - 1\<rparr>) \<and> live (u\<lparr>entries := entries u - 1\<rparr>) = butlast (live u)"
    if u: "table_ok u" for u :: "'a array_table"
  proof -
    obtain xs where x: "table u = Some xs" "length xs = max_entries u" "entries u \<le> max_entries u"
      "take (entries u) xs = map Some (live u)" by (rule table_okE [OF u])
    have "take (entries u - 1) xs = butlast (take (entries u) xs)"
      using x(2, 3) by (simp add: butlast_take)
    then have "take (entries u - 1) xs = map Some (butlast (live u))" by (simp only: x(4) map_butlast)
    then show ?thesis
      using table_okI [of "u\<lparr>entries := entries u - 1\<rparr>" xs "butlast (live u)"] x by simp
  qed
  show ?thesis
  proof (cases "entries t - 1 = i")
    case True
    then show ?thesis using shrink [OF assms(1)] length_live [OF assms(1)]
      by (simp add: drop_entry_def move_last_def)
  next
    case False
    have l: "length (live t) = entries t" by (rule length_live [OF assms(1)])
    then have e: "slot t (entries t - 1) = Some (last (live t))"
      using assms(2) slot_live [OF assms(1), of "entries t - 1"] last_conv_nth [of "live t"] by fastforce
    obtain u where u: "set_slot i (last (live t)) t = Some u" "table_ok u" "live u = (live t)[i := last (live t)]"
      "entries u = entries t" "max_entries u = max_entries t"
      using set_slot_ok [OF assms, of "last (live t)"] by blast
    then show ?thesis using False shrink [OF u(2)] l e
      by (simp add: drop_entry_def Let_def move_last_def)
  qed
qed

lemma mset_move_last:
  assumes "i < length xs"
  shows "mset (move_last i xs) = mset xs - {#xs ! i#}"
proof -
  obtain ys y where xs: "xs = ys @ [y]" using assms by (cases xs rule: rev_cases) auto
  show ?thesis
  proof (cases "i = length ys")
    case False
    then have i: "i < length ys" using assms by (simp add: xs)
    then have "move_last i xs = ys[i := y]" by (simp add: move_last_def xs list_update_append)
    then show ?thesis using i by (simp add: mset_update nth_append xs)
  qed (simp add: move_last_def xs)
qed

lemma set_move_last: "i < length xs \<Longrightarrow> set (move_last i xs) \<subseteq> set xs"
  by (metis mset_move_last diff_subset_eq_self mset_subset_eqD set_mset_mset subsetI)

lemma distinct_move_last: "i < length xs \<Longrightarrow> distinct xs \<Longrightarrow> distinct (move_last i xs)"
  by (metis mset_move_last mset_remove1 distinct_remove1 mset_eq_imp_distinct_iff)

lemma set_move_last_distinct: "i < length xs \<Longrightarrow> distinct xs \<Longrightarrow> set (move_last i xs) = set xs - {xs ! i}"
  by (metis mset_move_last mset_remove1 set_mset_mset set_remove1_eq)

lemma map_move_last: "i < length xs \<Longrightarrow> map f (move_last i xs) = move_last i (map f xs)"
  by (cases xs rule: rev_cases) (auto simp: move_last_def map_butlast map_update)

text \<open>\<open>for (i = 0; i < entries; i++) if (P (table[i])) { delete_entry(i); i--; }\<close>\<close>

lemma drop_entry_entries: "drop_entry i t = Some t' \<Longrightarrow> entries t' = entries t - 1"
  by (auto simp: drop_entry_def Let_def bind_eq_Some_iff split: if_splits)

function delete_where :: "('e \<Rightarrow> bool) \<Rightarrow> nat \<Rightarrow> 'e array_table \<Rightarrow> 'e array_table option" where
  "delete_where P i t = (
     if i < entries t
     then Option.bind (slot t i) (\<lambda>e.
          if P e then Option.bind (drop_entry i t) (\<lambda>t. delete_where P i t)
          else delete_where P (Suc i) t)
     else Some t)"
  by pat_completeness auto
termination
  by (relation "measure (\<lambda>(P, i, t). entries t - i)") (auto dest: drop_entry_entries)

declare delete_where.simps [simp del]

lemma take_move_last: "i < length xs \<Longrightarrow> take i (move_last i xs) = take i xs"
  by (cases xs rule: rev_cases) (auto simp: move_last_def list_update_append)

lemma delete_where_mset:
  assumes "table_ok t" and "i \<le> entries t"
  shows "\<exists>t'. delete_where P i t = Some t' \<and> table_ok t' \<and> max_entries t' = max_entries t \<and>
    mset (live t') = mset (take i (live t)) + filter_mset (\<lambda>e. \<not> P e) (mset (drop i (live t)))"
  using assms
proof (induction P i t rule: delete_where.induct)
  case (1 P i t)
  show ?case
  proof (cases "i < entries t")
    case True
    have l: "i < length (live t)" using True length_live [OF 1(3)] by simp
    then have d: "drop i (live t) = live t ! i # drop (Suc i) (live t)" by (simp add: Cons_nth_drop_Suc)
    note s = slot_live [OF 1(3) True]
    show ?thesis
    proof (cases "P (live t ! i)")
      case p: True
      obtain t1 where t1: "drop_entry i t = Some t1" "table_ok t1" "live t1 = move_last i (live t)"
        "entries t1 = entries t - 1" "max_entries t1 = max_entries t"
        using drop_entry_ok [OF 1(3) True] by blast
      have "i \<le> entries t1" using t1(4) True by simp
      obtain t' where t': "delete_where P i t1 = Some t'" "table_ok t'" "max_entries t' = max_entries t1"
        "mset (live t') = mset (take i (live t1)) + filter_mset (\<lambda>e. \<not> P e) (mset (drop i (live t1)))"
        using 1(1) [OF True s p t1(1) t1(2)] \<open>i \<le> entries t1\<close> by blast
      have "mset (take i (live t1)) + mset (drop i (live t1)) = mset (live t) - {#live t ! i#}"
        by (metis append_take_drop_id mset_append mset_move_last [OF l] t1(3))
      moreover have "mset (live t) = mset (take i (live t)) + mset (drop i (live t))"
        by (metis append_take_drop_id mset_append)
      moreover have "take i (live t1) = take i (live t)" using take_move_last [OF l] t1(3) by simp
      ultimately have "mset (drop i (live t1)) = mset (drop (Suc i) (live t))" using d by simp
      then show ?thesis using t' t1 True s p d \<open>take i (live t1) = take i (live t)\<close>
        by (subst delete_where.simps) simp
    next
      case False
      obtain t' where t': "delete_where P (Suc i) t = Some t'" "table_ok t'" "max_entries t' = max_entries t"
        "mset (live t') = mset (take (Suc i) (live t)) + filter_mset (\<lambda>e. \<not> P e) (mset (drop (Suc i) (live t)))"
        using 1(2) [OF True s False 1(3)] True by auto
      then show ?thesis using True s False d take_Suc_conv_app_nth [OF l]
        by (subst delete_where.simps) simp
    qed
  next
    case False
    then show ?thesis using 1(3, 4) length_live [OF 1(3)] by (subst delete_where.simps) simp
  qed
qed

lemma delete_where_ok:
  assumes "table_ok t" and "distinct (map key (live t))"
  shows "\<exists>t'. delete_where P 0 t = Some t' \<and> table_ok t' \<and> max_entries t' = max_entries t \<and>
    distinct (map key (live t')) \<and> set (live t') = {e \<in> set (live t). \<not> P e}"
proof -
  obtain t' where t': "delete_where P 0 t = Some t'" "table_ok t'" "max_entries t' = max_entries t"
    "mset (live t') = filter_mset (\<lambda>e. \<not> P e) (mset (live t))"
    using delete_where_mset [OF assms(1), of 0 P] by auto
  then have m: "mset (live t') = mset (filter (\<lambda>e. \<not> P e) (live t))" by simp
  then have "set (live t') = {e \<in> set (live t). \<not> P e}" by (metis mset_eq_setD set_filter)
  moreover have "mset (map key (live t')) = mset (map key (filter (\<lambda>e. \<not> P e) (live t)))" using m by simp
  then have "distinct (map key (live t'))"
    using distinct_map_filter [OF assms(2)] mset_eq_imp_distinct_iff by metis
  ultimately show ?thesis using t' by blast
qed

subsection \<open>Adding\<close>

lemma table_not_null [simp]: "table_ok t \<Longrightarrow> table t \<noteq> None"
  by (auto simp: table_ok_def)

lemma push_entry_ok:
  assumes "table_ok t" and "0 < max_entries t" and "1 < k"
  shows "\<exists>t'. push_entry k e t = Some t' \<and> table_ok t' \<and> live t' = live t @ [e] \<and> 0 < max_entries t' \<and>
    entries t' = Suc (entries t)"
proof -
  obtain t1 where g: "(if entries t = max_entries t then resize k t else Some t) = Some t1"
    and t1: "table_ok t1" "live t1 = live t" "entries t1 < max_entries t1" "entries t1 = entries t"
  proof (cases "entries t = max_entries t")
    case True
    then show ?thesis using that resize_ok [OF assms(1), of k] assms by (cases k) auto
  next
    case False
    then show ?thesis using that [of t] assms(1) by (auto simp: table_ok_def)
  qed
  obtain t2 where "set_slot (entries t1) e t1 = Some t2" "entries t2 = entries t1" "max_entries t2 = max_entries t1"
    "table_ok (t2\<lparr>entries := Suc (entries t1)\<rparr>)" "live (t2\<lparr>entries := Suc (entries t1)\<rparr>) = live t1 @ [e]"
    using append_ok [OF t1(1, 3), of e] by blast
  then show ?thesis unfolding push_entry_def g using t1 by simp
qed

lemma push_then_grow_ok:
  assumes "table_ok t" and "entries t < max_entries t" and "1 < k"
  shows "\<exists>t'. push_then_grow k e t = Some t' \<and> table_ok t' \<and> live t' = live t @ [e] \<and>
    entries t' = Suc (entries t) \<and> entries t' < max_entries t'"
proof -
  obtain t1 where s: "set_slot (entries t) e t = Some t1" "entries t1 = entries t" "max_entries t1 = max_entries t"
    "table_ok (t1\<lparr>entries := Suc (entries t)\<rparr>)" "live (t1\<lparr>entries := Suc (entries t)\<rparr>) = live t @ [e]"
    using append_ok [OF assms(1, 2), of e] by blast
  show ?thesis
  proof (cases "Suc (entries t) = max_entries t")
    case True
    then have "Suc (entries t) < k * max_entries t" using assms(3) by (metis mult_less_cancel2 nat_mult_1 zero_less_Suc)
    then show ?thesis using True s resize_ok [OF s(4), of k] assms(3) by (auto simp: push_then_grow_def Let_def)
  next
    case False
    then show ?thesis using s assms(2) by (simp add: push_then_grow_def Let_def)
  qed
qed

subsection \<open>Tables with a key\<close>

text \<open>The entry with a key, and the contract of tables that keep at most one entry for each: adding and
  deleting act as the update of a finite map, in whatever order the array holds the entries.\<close>

definition entry_for :: "('e \<Rightarrow> 'k) \<Rightarrow> 'e list \<Rightarrow> 'k \<Rightarrow> 'e option" where
  "entry_for key es k = List.find (\<lambda>e. key e = k) es"

lemma entry_for_iff:
  "distinct (map key es) \<Longrightarrow> entry_for key es k = Some e \<longleftrightarrow> e \<in> set es \<and> key e = k"
  by (induction es) (auto simp: entry_for_def)

lemma entry_for_cong:
  assumes "distinct (map key es)" and "distinct (map key es')" and "\<And>e. key e = k \<Longrightarrow> e \<in> set es \<longleftrightarrow> e \<in> set es'"
  shows "entry_for key es k = entry_for key es' k"
proof (cases "entry_for key es k")
  case None
  show ?thesis
  proof (cases "entry_for key es' k")
    case (Some e)
    then show ?thesis using None assms entry_for_iff by (metis option.distinct(1))
  qed (simp add: None)
next
  case (Some e)
  then show ?thesis using assms entry_for_iff by metis
qed

locale keyed_add =
  fixes ok :: "'t \<Rightarrow> bool"
    and elems :: "'t \<Rightarrow> 'e list"
    and key :: "'e \<Rightarrow> 'k"
    and add :: "'e \<Rightarrow> 't \<Rightarrow> 't option"
  assumes keys: "ok t \<Longrightarrow> distinct (map key (elems t))"
    and add_set: "ok t \<Longrightarrow> \<exists>t'. add e t = Some t' \<and> ok t' \<and>
      set (elems t') = insert e {x \<in> set (elems t). key x \<noteq> key e}"
begin

lemma add_lookup:
  assumes "ok t"
  shows "\<exists>t'. add e t = Some t' \<and> ok t' \<and>
    (\<forall>k. entry_for key (elems t') k = (if k = key e then Some e else entry_for key (elems t) k))"
proof -
  obtain t' where t': "add e t = Some t'" "ok t'" "set (elems t') = insert e {x \<in> set (elems t). key x \<noteq> key e}"
    using add_set [OF assms] by blast
  have "entry_for key (elems t') k = (if k = key e then Some e else entry_for key (elems t) k)" for k
  proof (cases "k = key e")
    case True
    then show ?thesis using t'(3) by (simp add: entry_for_iff [OF keys [OF t'(2)]])
  next
    case False
    then show ?thesis using t'(3) by (simp, intro entry_for_cong keys t'(2) assms) auto
  qed
  then show ?thesis using t'(1, 2) by blast
qed

end

locale keyed_table = keyed_add +
  fixes del :: "'c \<Rightarrow> 'a \<Rightarrow> 'a option"
  assumes del_set: "ok t \<Longrightarrow> \<exists>t'. del k t = Some t' \<and> ok t' \<and> set (elems t') = {x \<in> set (elems t). key x \<noteq> k}"
begin

lemma del_lookup:
  assumes "ok t"
  shows "\<exists>t'. del k t = Some t' \<and> ok t' \<and>
    (\<forall>k'. entry_for key (elems t') k' = (if k' = k then None else entry_for key (elems t) k'))"
proof -
  obtain t' where t': "del k t = Some t'" "ok t'" "set (elems t') = {x \<in> set (elems t). key x \<noteq> k}"
    using del_set [OF assms] by blast
  have "entry_for key (elems t') k' = (if k' = k then None else entry_for key (elems t) k')" for k'
  proof (cases "k' = k")
    case True
    then have "entry_for key (elems t') k' \<noteq> Some e" for e
      using t'(3) by (simp add: entry_for_iff [OF keys [OF t'(2)]])
    then show ?thesis using True by (cases "entry_for key (elems t') k'") simp_all
  next
    case False
    then show ?thesis using t'(3) by (simp, intro entry_for_cong keys t'(2) assms) auto
  qed
  then show ?thesis using t'(1, 2) by blast
qed

end

end
