(* ===== verification/Usm_Codes.thy ===== *)
theory Usm_Codes
  imports Prelude
begin

section \<open>Constants of the user security model\<close>

text \<open>
  The results, security levels, protocol numbers and buffer lengths of \<^verbatim>\<open>src/snmp++/include/snmp_pp/usm_v3.h\<close>,
  \<^verbatim>\<open>auth_priv.h\<close>, \<^verbatim>\<open>v3.h\<close> and \<^verbatim>\<open>snmperrs.h\<close>, and the comparison of octet strings of \<^verbatim>\<open>v3.cpp\<close>.
\<close>

definition SNMPv3_USM_OK :: int where "SNMPv3_USM_OK = 1400"
definition SNMPv3_USM_ERROR :: int where "SNMPv3_USM_ERROR = 1401"
definition SNMPv3_USM_UNSUPPORTED_SECURITY_LEVEL :: int where "SNMPv3_USM_UNSUPPORTED_SECURITY_LEVEL = 1403"
definition SNMPv3_USM_UNKNOWN_SECURITY_NAME :: int where "SNMPv3_USM_UNKNOWN_SECURITY_NAME = 1404"
definition SNMPv3_USM_ENCRYPTION_ERROR :: int where "SNMPv3_USM_ENCRYPTION_ERROR = 1405"
definition SNMPv3_USM_DECRYPTION_ERROR :: int where "SNMPv3_USM_DECRYPTION_ERROR = 1406"
definition SNMPv3_USM_AUTHENTICATION_ERROR :: int where "SNMPv3_USM_AUTHENTICATION_ERROR = 1407"
definition SNMPv3_USM_AUTHENTICATION_FAILURE :: int where "SNMPv3_USM_AUTHENTICATION_FAILURE = 1408"
definition SNMPv3_USM_PARSE_ERROR :: int where "SNMPv3_USM_PARSE_ERROR = 1409"
definition SNMPv3_USM_UNKNOWN_ENGINEID :: int where "SNMPv3_USM_UNKNOWN_ENGINEID = 1410"
definition SNMPv3_USM_NOT_IN_TIME_WINDOW :: int where "SNMPv3_USM_NOT_IN_TIME_WINDOW = 1411"
definition SNMPv3_USM_UNSUPPORTED_AUTHPROTOCOL :: int where "SNMPv3_USM_UNSUPPORTED_AUTHPROTOCOL = 1412"
definition SNMPv3_USM_UNSUPPORTED_PRIVPROTOCOL :: int where "SNMPv3_USM_UNSUPPORTED_PRIVPROTOCOL = 1413"
definition SNMP_SECURITY_LEVEL_NOAUTH_NOPRIV :: int where "SNMP_SECURITY_LEVEL_NOAUTH_NOPRIV = 1"
definition SNMP_SECURITY_LEVEL_AUTH_NOPRIV :: int where "SNMP_SECURITY_LEVEL_AUTH_NOPRIV = 2"
definition SNMP_SECURITY_LEVEL_AUTH_PRIV :: int where "SNMP_SECURITY_LEVEL_AUTH_PRIV = 3"
definition SNMP_AUTHPROTOCOL_NONE :: int where "SNMP_AUTHPROTOCOL_NONE = 1"
definition SNMP_AUTHPROTOCOL_HMACMD5 :: int where "SNMP_AUTHPROTOCOL_HMACMD5 = 2"
definition SNMP_AUTHPROTOCOL_HMACSHA :: int where "SNMP_AUTHPROTOCOL_HMACSHA = 3"
definition SNMP_AUTHPROTOCOL_HMAC128SHA224 :: int where "SNMP_AUTHPROTOCOL_HMAC128SHA224 = 4"
definition SNMP_AUTHPROTOCOL_HMAC192SHA256 :: int where "SNMP_AUTHPROTOCOL_HMAC192SHA256 = 5"
definition SNMP_AUTHPROTOCOL_HMAC256SHA384 :: int where "SNMP_AUTHPROTOCOL_HMAC256SHA384 = 6"
definition SNMP_AUTHPROTOCOL_HMAC384SHA512 :: int where "SNMP_AUTHPROTOCOL_HMAC384SHA512 = 7"
definition SNMP_PRIVPROTOCOL_NONE :: int where "SNMP_PRIVPROTOCOL_NONE = 1"
definition SNMP_PRIVPROTOCOL_DES :: int where "SNMP_PRIVPROTOCOL_DES = 2"
definition SNMP_PRIVPROTOCOL_3DESEDE :: int where "SNMP_PRIVPROTOCOL_3DESEDE = 3"
definition SNMP_PRIVPROTOCOL_AES128 :: int where "SNMP_PRIVPROTOCOL_AES128 = 4"
definition SNMP_PRIVPROTOCOL_AES192 :: int where "SNMP_PRIVPROTOCOL_AES192 = 20"
definition SNMP_PRIVPROTOCOL_AES256 :: int where "SNMP_PRIVPROTOCOL_AES256 = 21"
definition SNMP_PRIVPROTOCOL_AES128W3DESKEYEXT :: int where "SNMP_PRIVPROTOCOL_AES128W3DESKEYEXT = 22"
definition SNMP_PRIVPROTOCOL_AES192W3DESKEYEXT :: int where "SNMP_PRIVPROTOCOL_AES192W3DESKEYEXT = 23"
definition SNMP_PRIVPROTOCOL_AES256W3DESKEYEXT :: int where "SNMP_PRIVPROTOCOL_AES256W3DESKEYEXT = 24"
definition SNMP_CLASS_SUCCESS :: int where "SNMP_CLASS_SUCCESS = 0"
definition SNMP_CLASS_ERROR :: int where "SNMP_CLASS_ERROR = -1"

definition MAXLENGTH_ENGINEID :: nat where "MAXLENGTH_ENGINEID = 32"
definition MAXLEN_USMUSERNAME :: nat where "MAXLEN_USMUSERNAME = 32"
definition SNMPv3_USM_MAX_KEY_LEN :: nat where "SNMPv3_USM_MAX_KEY_LEN = 64"
definition SNMPv3_AP_MAXLENGTH_AUTHPARAM :: nat where "SNMPv3_AP_MAXLENGTH_AUTHPARAM = 128"
definition SNMPv3_AP_MAXLENGTH_PRIVPARAM :: nat where "SNMPv3_AP_MAXLENGTH_PRIVPARAM = 128"

lemmas usm_results =
  SNMPv3_USM_OK_def SNMPv3_USM_ERROR_def SNMPv3_USM_UNSUPPORTED_SECURITY_LEVEL_def
  SNMPv3_USM_UNKNOWN_SECURITY_NAME_def SNMPv3_USM_ENCRYPTION_ERROR_def SNMPv3_USM_DECRYPTION_ERROR_def
  SNMPv3_USM_AUTHENTICATION_ERROR_def SNMPv3_USM_AUTHENTICATION_FAILURE_def SNMPv3_USM_PARSE_ERROR_def
  SNMPv3_USM_UNKNOWN_ENGINEID_def SNMPv3_USM_NOT_IN_TIME_WINDOW_def
  SNMPv3_USM_UNSUPPORTED_AUTHPROTOCOL_def SNMPv3_USM_UNSUPPORTED_PRIVPROTOCOL_def

lemmas usm_protocols =
  SNMP_SECURITY_LEVEL_NOAUTH_NOPRIV_def SNMP_SECURITY_LEVEL_AUTH_NOPRIV_def
  SNMP_SECURITY_LEVEL_AUTH_PRIV_def SNMP_AUTHPROTOCOL_NONE_def SNMP_AUTHPROTOCOL_HMACMD5_def
  SNMP_AUTHPROTOCOL_HMACSHA_def SNMP_AUTHPROTOCOL_HMAC128SHA224_def SNMP_AUTHPROTOCOL_HMAC192SHA256_def
  SNMP_AUTHPROTOCOL_HMAC256SHA384_def SNMP_AUTHPROTOCOL_HMAC384SHA512_def SNMP_PRIVPROTOCOL_NONE_def
  SNMP_PRIVPROTOCOL_DES_def SNMP_PRIVPROTOCOL_3DESEDE_def SNMP_PRIVPROTOCOL_AES128_def
  SNMP_PRIVPROTOCOL_AES192_def SNMP_PRIVPROTOCOL_AES256_def SNMP_PRIVPROTOCOL_AES128W3DESKEYEXT_def
  SNMP_PRIVPROTOCOL_AES192W3DESKEYEXT_def SNMP_PRIVPROTOCOL_AES256W3DESKEYEXT_def

lemmas class_results =
  SNMP_CLASS_SUCCESS_def SNMP_CLASS_ERROR_def

lemmas usm_lengths =
  MAXLENGTH_ENGINEID_def MAXLEN_USMUSERNAME_def SNMPv3_USM_MAX_KEY_LEN_def
  SNMPv3_AP_MAXLENGTH_AUTHPARAM_def SNMPv3_AP_MAXLENGTH_PRIVPARAM_def

text \<open>Two strings with their lengths.\<close>

definition unsignedCharCompare :: "u8 list \<Rightarrow> u8 list \<Rightarrow> bool" where
  "unsignedCharCompare str1 str2 \<longleftrightarrow>
     length str1 = length str2 \<and> list_all (\<lambda>(a, b). a = b) (zip str1 str2)"

lemma unsignedCharCompare_iff [simp]: "unsignedCharCompare a b \<longleftrightarrow> a = b"
  using list_all2_iff [of "(=)" a b] by (simp add: unsignedCharCompare_def list_all_iff list.rel_eq)

end
