(* ===== verification/Usm_Users.thy ===== *)
theory Usm_Users
  imports Array_Table Usm_Codes
begin

section \<open>The tables of users\<close>

text \<open>
  Classes \<open>USMUserNameTable\<close> (passwords of a user, for every engine) and \<open>USMUserTable\<close> (localised keys of a
  user for one engine) of \<^verbatim>\<open>src/snmp++/src/usm_v3.cpp\<close>.  A string with its length is a list of octets, and memory
  is always available.  Reading and writing of the configuration files is left out.
\<close>

record name_entry =
  ne_user_name :: "u8 list"
  ne_security_name :: "u8 list"
  ne_auth_protocol :: int
  ne_priv_protocol :: int
  ne_auth_password :: "u8 list"
  ne_priv_password :: "u8 list"

record user_entry =
  ue_engine_id :: "u8 list"
  ue_user_name :: "u8 list"
  ue_security_name :: "u8 list"
  ue_auth_protocol :: int
  ue_auth_key :: "u8 list"
  ue_priv_protocol :: int
  ue_priv_key :: "u8 list"

type_synonym name_table = "name_entry array_table"
type_synonym user_table = "user_entry array_table"

definition AUTHKEY :: int where "AUTHKEY = 1"
definition PRIVKEY :: int where "PRIVKEY = 2"
definition OWNAUTHKEY :: int where "OWNAUTHKEY = 3"
definition OWNPRIVKEY :: int where "OWNPRIVKEY = 4"

lemmas key_types = AUTHKEY_def PRIVKEY_def OWNAUTHKEY_def OWNPRIVKEY_def

text \<open>A search that reads the entry it finds.\<close>

definition find_value :: "('e \<Rightarrow> bool) \<Rightarrow> 'e array_table \<Rightarrow> 'e option option" where
  "find_value P t = Option.bind (find_entry 0 P t) (\<lambda>found.
     case found of None \<Rightarrow> Some None | Some i \<Rightarrow> Option.bind (slot t i) (\<lambda>e. Some (Some e)))"

subsection \<open>Passwords\<close>

definition USMUserNameTable_add_entry :: "name_entry \<Rightarrow> name_table \<Rightarrow> (name_table \<times> int) option" where
  "USMUserNameTable_add_entry new t = (
     if table t = None then Some (t, SNMPv3_USM_ERROR)
     else Option.bind (find_entry 0 (\<lambda>e. ne_user_name e = ne_user_name new) t) (\<lambda>found.
     case found of
       Some i \<Rightarrow> Option.bind (slot t i) (\<lambda>e.
         Option.bind (set_slot i (e\<lparr>ne_security_name := ne_security_name new,
             ne_auth_protocol := ne_auth_protocol new, ne_priv_protocol := ne_priv_protocol new,
             ne_auth_password := ne_auth_password new, ne_priv_password := ne_priv_password new\<rparr>) t) (\<lambda>t.
         Some (t, SNMPv3_USM_OK)))
     | None \<Rightarrow> Option.bind (push_entry 4 new t) (\<lambda>t. Some (t, SNMPv3_USM_OK))))"

definition USMUserNameTable_delete_security_name :: "u8 list \<Rightarrow> name_table \<Rightarrow> (name_table \<times> int) option" where
  "USMUserNameTable_delete_security_name security_name t = (
     if table t = None then Some (t, SNMPv3_USM_ERROR)
     else Option.bind (find_entry 0 (\<lambda>e. ne_security_name e = security_name) t) (\<lambda>found.
     case found of None \<Rightarrow> Some (t, SNMPv3_USM_OK)
     | Some i \<Rightarrow> Option.bind (drop_entry i t) (\<lambda>t. Some (t, SNMPv3_USM_OK))))"

text \<open>\<open>get_entry\<close>, and \<open>get_cloned_entry\<close>, which copies what it finds.\<close>

definition USMUserNameTable_get_entry :: "u8 list \<Rightarrow> name_table \<Rightarrow> name_entry option option" where
  "USMUserNameTable_get_entry security_name t =
     (if table t = None then Some None else find_value (\<lambda>e. ne_security_name e = security_name) t)"

definition USMUserNameTable_get_security_name :: "u8 list \<Rightarrow> name_table \<Rightarrow> (int + u8 list) option" where
  "USMUserNameTable_get_security_name user_name t = (
     if table t = None then Some (Inl SNMPv3_USM_ERROR)
     else Option.bind (find_value (\<lambda>e. unsignedCharCompare (ne_user_name e) user_name) t) (\<lambda>found.
     case found of None \<Rightarrow> Some (Inl SNMPv3_USM_ERROR) | Some e \<Rightarrow> Some (Inr (ne_security_name e))))"

definition USMUserNameTable_get_user_name :: "nat \<Rightarrow> u8 list \<Rightarrow> name_table \<Rightarrow> (int + u8 list) option" where
  "USMUserNameTable_get_user_name buf_len security_name t = (
     if table t = None then Some (Inl SNMPv3_USM_ERROR)
     else Option.bind (find_value (\<lambda>e. unsignedCharCompare (ne_security_name e) security_name) t) (\<lambda>found.
     case found of None \<Rightarrow> Some (Inl SNMPv3_USM_ERROR)
     | Some e \<Rightarrow> if buf_len < length (ne_user_name e) then Some (Inl SNMPv3_USM_ERROR) else Some (Inr (ne_user_name e))))"

subsection \<open>Localised keys\<close>

definition same_user :: "u8 list \<Rightarrow> u8 list \<Rightarrow> user_entry \<Rightarrow> bool" where
  "same_user engine_id user_name e \<longleftrightarrow>
     unsignedCharCompare (ue_user_name e) user_name \<and> unsignedCharCompare (ue_engine_id e) engine_id"

text \<open>A full array grows before the search for an old entry, which is deleted.\<close>

definition USMUserTable_add_entry :: "user_entry \<Rightarrow> user_table \<Rightarrow> (user_table \<times> int) option" where
  "USMUserTable_add_entry new t = (
     if table t = None then Some (t, SNMPv3_USM_ERROR)
     else Option.bind (if entries t = max_entries t then resize 4 t else Some t) (\<lambda>t.
     Option.bind (find_entry 0 (same_user (ue_engine_id new) (ue_user_name new)) t) (\<lambda>found.
     Option.bind (case found of None \<Rightarrow> Some t | Some i \<Rightarrow> drop_entry i t) (\<lambda>t.
     Option.bind (set_slot (entries t) new t) (\<lambda>t.
     Some (t\<lparr>entries := Suc (entries t)\<rparr>, SNMPv3_USM_OK))))))"

definition USMUserTable_delete_entries :: "u8 list \<Rightarrow> user_table \<Rightarrow> (user_table \<times> int) option" where
  "USMUserTable_delete_entries user_name t = (
     if table t = None then Some (t, SNMPv3_USM_ERROR)
     else Option.bind (delete_where (\<lambda>e. unsignedCharCompare (ue_user_name e) user_name) 0 t) (\<lambda>t.
       Some (t, SNMPv3_USM_OK)))"

definition USMUserTable_delete_engine_id :: "u8 list \<Rightarrow> user_table \<Rightarrow> (user_table \<times> int) option" where
  "USMUserTable_delete_engine_id engine_id t = (
     if table t = None then Some (t, SNMPv3_USM_ERROR)
     else Option.bind (delete_where (\<lambda>e. unsignedCharCompare (ue_engine_id e) engine_id) 0 t) (\<lambda>t.
       Some (t, SNMPv3_USM_OK)))"

definition USMUserTable_delete_entry :: "u8 list \<Rightarrow> u8 list \<Rightarrow> user_table \<Rightarrow> (user_table \<times> int) option" where
  "USMUserTable_delete_entry engine_id user_name t = (
     if table t = None then Some (t, SNMPv3_USM_ERROR)
     else Option.bind (delete_where (same_user engine_id user_name) 0 t) (\<lambda>t. Some (t, SNMPv3_USM_OK)))"

definition USMUserTable_get_entry_number :: "int \<Rightarrow> user_table \<Rightarrow> user_entry option option" where
  "USMUserTable_get_entry_number number t = (
     if int (entries t) < number \<or> number < 1 then Some None
     else Option.bind (slot t (nat (number - 1))) (\<lambda>e. Some (Some e)))"

definition USMUserTable_get_entry :: "u8 list \<Rightarrow> u8 list \<Rightarrow> user_table \<Rightarrow> user_entry option option" where
  "USMUserTable_get_entry engine_id sec_name t = (if table t = None then Some None
     else find_value (\<lambda>e. unsignedCharCompare (ue_security_name e) sec_name \<and>
       unsignedCharCompare (ue_engine_id e) engine_id) t)"

definition USMUserTable_get_entry_sec_name :: "u8 list \<Rightarrow> user_table \<Rightarrow> user_entry option option" where
  "USMUserTable_get_entry_sec_name sec_name t = (if table t = None then Some None
     else find_value (\<lambda>e. unsignedCharCompare (ue_security_name e) sec_name) t)"

definition USMUserTable_get_security_name :: "u8 list \<Rightarrow> user_table \<Rightarrow> (int + u8 list) option" where
  "USMUserTable_get_security_name user_name t = (
     if table t = None then Some (Inl SNMPv3_USM_ERROR)
     else Option.bind (find_value (\<lambda>e. unsignedCharCompare (ue_user_name e) user_name) t) (\<lambda>found.
     case found of None \<Rightarrow> Some (Inl SNMPv3_USM_ERROR) | Some e \<Rightarrow> Some (Inr (ue_security_name e))))"

definition USMUserTable_get_user_name :: "nat \<Rightarrow> u8 list \<Rightarrow> user_table \<Rightarrow> (int + u8 list) option" where
  "USMUserTable_get_user_name buf_len sec_name t = (
     if table t = None then Some (Inl SNMPv3_USM_ERROR)
     else Option.bind (find_value (\<lambda>e. unsignedCharCompare (ue_security_name e) sec_name) t) (\<lambda>found.
     case found of None \<Rightarrow> Some (Inl SNMPv3_USM_ERROR)
     | Some e \<Rightarrow> if buf_len < length (ue_user_name e) then Some (Inl SNMPv3_USM_ERROR) else Some (Inr (ue_user_name e))))"

definition USMUserTable_update_key ::
  "u8 list \<Rightarrow> u8 list \<Rightarrow> u8 list \<Rightarrow> int \<Rightarrow> user_table \<Rightarrow> (user_table \<times> int) option" where
  "USMUserTable_update_key user_name engine_id new_key key_type t = (
     if table t = None then Some (t, SNMPv3_USM_ERROR)
     else Option.bind (find_entry 0 (same_user engine_id user_name) t) (\<lambda>found.
     case found of None \<Rightarrow> Some (t, SNMPv3_USM_ERROR)
     | Some i \<Rightarrow> Option.bind (slot t i) (\<lambda>e.
         if key_type = AUTHKEY \<or> key_type = OWNAUTHKEY
         then Option.bind (set_slot i (e\<lparr>ue_auth_key := new_key\<rparr>) t) (\<lambda>t. Some (t, SNMPv3_USM_OK))
         else if key_type = PRIVKEY \<or> key_type = OWNPRIVKEY
         then Option.bind (set_slot i (e\<lparr>ue_priv_key := new_key\<rparr>) t) (\<lambda>t. Some (t, SNMPv3_USM_OK))
         else Some (t, SNMPv3_USM_ERROR))))"

subsection \<open>Invariants\<close>

text \<open>A user name occurs once among the passwords, and a user has one entry for an engine.\<close>

definition names_ok :: "name_table \<Rightarrow> bool" where
  "names_ok t \<longleftrightarrow> table_ok t \<and> 0 < max_entries t \<and> distinct (map ne_user_name (live t))"

definition user_key :: "user_entry \<Rightarrow> u8 list \<times> u8 list" where
  "user_key e = (ue_engine_id e, ue_user_name e)"

definition users_ok :: "user_table \<Rightarrow> bool" where
  "users_ok t \<longleftrightarrow> table_ok t \<and> 0 < max_entries t \<and> distinct (map user_key (live t))"

lemma same_user_iff: "same_user engine_id user_name e \<longleftrightarrow> user_key e = (engine_id, user_name)"
  by (auto simp: same_user_def user_key_def)

lemma new_tables_ok: "names_ok (new_table 10)" "users_ok (new_table 10)"
  by (simp_all add: names_ok_def users_ok_def new_table_ok) (simp_all add: new_table_def)

lemma find_value_live:
  assumes "table_ok t"
  shows "find_value P t = Some (List.find P (live t))"
proof (cases "first_index P (live t)")
  case None
  then have "List.find P (live t) = None" by (simp add: first_index_None find_None_iff)
  then show ?thesis using None find_entry_live [OF assms, of P] by (simp add: find_value_def)
next
  case (Some i)
  note i = first_index_SomeD [OF Some]
  have "List.find P (live t) = Some (live t ! i)" using i by (auto simp: find_Some_iff)
  then show ?thesis using Some i(1) find_entry_live [OF assms, of P] slot_live [OF assms, of i] length_live [OF assms]
    by (simp add: find_value_def)
qed

lemma set_list_update_key:
  assumes "distinct (map key xs)" and "i < length xs" and "key x = key (xs ! i)"
  shows "set (xs[i := x]) = insert x {y \<in> set xs. key y \<noteq> key x}" and "map key (xs[i := x]) = map key xs"
proof -
  show m: "map key (xs[i := x]) = map key xs"
    using assms(2, 3) by (simp add: map_update) (metis list_update_id nth_map)
  have d: "distinct xs" "distinct (xs[i := x])" using assms(1) m by (metis distinct_map)+
  have "y \<in> set xs \<Longrightarrow> key y = key x \<longleftrightarrow> y = xs ! i" for y
    using assms by (metis distinct_map inj_onD nth_mem)
  then show "set (xs[i := x]) = insert x {y \<in> set xs. key y \<noteq> key x}"
    using set_update_distinct [OF d(1) assms(2)] by auto
qed

lemma replaced_entry:
  "ne_user_name x = ne_user_name e \<Longrightarrow> x\<lparr>ne_security_name := ne_security_name e, ne_auth_protocol := ne_auth_protocol e,
    ne_priv_protocol := ne_priv_protocol e, ne_auth_password := ne_auth_password e, ne_priv_password := ne_priv_password e\<rparr> = e"
  for x e :: name_entry
  by (cases x; cases e) simp

lemma name_add_ok:
  assumes "names_ok t"
  shows "\<exists>t'. USMUserNameTable_add_entry e t = Some (t', SNMPv3_USM_OK) \<and> names_ok t' \<and>
    set (live t') = insert e {x \<in> set (live t). ne_user_name x \<noteq> ne_user_name e}"
proof -
  have t: "table_ok t" "0 < max_entries t" "distinct (map ne_user_name (live t))" "table t \<noteq> None"
    using assms by (simp_all add: names_ok_def)
  let ?P = "\<lambda>x. ne_user_name x = ne_user_name e"
  show ?thesis
  proof (cases "first_index ?P (live t)")
    case None
    obtain t' where t': "push_entry 4 e t = Some t'" "table_ok t'" "live t' = live t @ [e]" "0 < max_entries t'"
      using push_entry_ok [OF t(1, 2), of 4 e] by auto
    have "\<forall>x\<in>set (live t). ne_user_name x \<noteq> ne_user_name e" using None by (simp add: first_index_None)
    then show ?thesis using t' t None find_entry_live [OF t(1), of ?P]
      by (auto simp: USMUserNameTable_add_entry_def names_ok_def)
  next
    case (Some i)
    note i = first_index_SomeD [OF Some]
    have l: "i < entries t" using i(1) length_live [OF t(1)] by simp
    obtain t' where t': "set_slot i e t = Some t'" "table_ok t'" "live t' = (live t)[i := e]" "max_entries t' = max_entries t"
      using set_slot_ok [OF t(1) l] by blast
    show ?thesis using t' t(1-3) Some i(2) l find_entry_live [OF t(1), of ?P] slot_live [OF t(1) l]
        set_list_update_key [OF t(3) i(1), of e]
      by (simp add: USMUserNameTable_add_entry_def names_ok_def replaced_entry)
  qed
qed

text \<open>Deleting the entry that a search for a key has found.\<close>

lemma drop_found:
  assumes "table_ok t" and "distinct (map key (live t))" and P: "\<And>x. P x \<longleftrightarrow> key x = k"
  shows "\<exists>t'. (case first_index P (live t) of None \<Rightarrow> Some t | Some i \<Rightarrow> drop_entry i t) = Some t' \<and> table_ok t' \<and>
    entries t' \<le> entries t \<and> max_entries t' = max_entries t \<and> distinct (map key (live t')) \<and>
    set (live t') = {x \<in> set (live t). key x \<noteq> k}"
proof (cases "first_index P (live t)")
  case None
  then have "{x \<in> set (live t). key x \<noteq> k} = set (live t)" by (auto simp: first_index_None P)
  then show ?thesis using assms(1, 2) None by simp
next
  case (Some i)
  note i = first_index_SomeD [OF Some]
  have l: "i < entries t" using i(1) length_live [OF assms(1)] by simp
  obtain t' where t': "drop_entry i t = Some t'" "table_ok t'" "live t' = move_last i (live t)"
    "entries t' = entries t - 1" "max_entries t' = max_entries t" using drop_entry_ok [OF assms(1) l] by auto
  have "distinct (live t)" using assms(2) by (simp add: distinct_map)
  then have "set (live t') = set (live t) - {live t ! i}" using set_move_last_distinct [OF i(1)] t'(3) by simp
  moreover have "key x = k \<longleftrightarrow> x = live t ! i" if "x \<in> set (live t)" for x
    using that i(1, 2) assms(2) by (metis P distinct_map inj_onD nth_mem)
  ultimately have "set (live t') = {x \<in> set (live t). key x \<noteq> k}" by blast
  moreover have "distinct (map key (live t'))"
    using distinct_move_last [of i "map key (live t)"] assms(2) t'(3) i(1) by (simp add: map_move_last)
  ultimately show ?thesis using Some t' by simp
qed

lemma user_add_ok:
  assumes "users_ok t"
  shows "\<exists>t'. USMUserTable_add_entry e t = Some (t', SNMPv3_USM_OK) \<and> users_ok t' \<and>
    set (live t') = insert e {x \<in> set (live t). user_key x \<noteq> user_key e}"
proof -
  have t: "table_ok t" "0 < max_entries t" "distinct (map user_key (live t))" "table t \<noteq> None"
    using assms by (simp_all add: users_ok_def)
  obtain t1 where g: "(if entries t = max_entries t then resize 4 t else Some t) = Some t1"
    and t1: "table_ok t1" "live t1 = live t" "entries t1 < max_entries t1"
  proof (cases "entries t = max_entries t")
    case True
    then show ?thesis using that resize_ok [OF t(1), of 4] t(2) by auto
  next
    case False
    then show ?thesis using that [of t] t(1) by (auto simp: table_ok_def)
  qed
  let ?P = "same_user (ue_engine_id e) (ue_user_name e)"
  have P: "?P x \<longleftrightarrow> user_key x = user_key e" for x by (simp add: same_user_iff) (simp add: user_key_def)
  obtain t2 where d: "(case first_index ?P (live t) of None \<Rightarrow> Some t1 | Some i \<Rightarrow> drop_entry i t1) = Some t2"
    and t2: "table_ok t2" "entries t2 < max_entries t2" "distinct (map user_key (live t2))"
      "set (live t2) = {x \<in> set (live t). user_key x \<noteq> user_key e}"
  proof -
    have "distinct (map user_key (live t1))" using t(3) t1(2) by simp
    from drop_found [OF t1(1) this P, unfolded t1(2)] obtain t2 where
      d: "(case first_index ?P (live t) of None \<Rightarrow> Some t1 | Some i \<Rightarrow> drop_entry i t1) = Some t2" "table_ok t2"
        "entries t2 \<le> entries t1" "max_entries t2 = max_entries t1" "distinct (map user_key (live t2))"
        "set (live t2) = {x \<in> set (live t). user_key x \<noteq> user_key e}" by blast
    then have "entries t2 < max_entries t2" using t1(3) by simp
    then show ?thesis using that [of t2] d by blast
  qed
  obtain t3 where t3: "set_slot (entries t2) e t2 = Some t3" "entries t3 = entries t2" "max_entries t3 = max_entries t2"
    "table_ok (t3\<lparr>entries := Suc (entries t2)\<rparr>)" "live (t3\<lparr>entries := Suc (entries t2)\<rparr>) = live t2 @ [e]"
    using append_ok [OF t2(1, 2), of e] by blast
  let ?t = "t3\<lparr>entries := Suc (entries t2)\<rparr>"
  have f: "find_entry 0 ?P t1 = Some (first_index ?P (live t))" using find_entry_live [OF t1(1)] t1(2) by simp
  have "USMUserTable_add_entry e t = Some (?t, SNMPv3_USM_OK)"
    by (simp only: USMUserTable_add_entry_def g table_not_null [OF t(1)] f d t3(1, 2) bind.bind_lunit if_False simp_thms)
  moreover have "user_key e \<notin> user_key ` set (live t2)"
  proof
    assume "user_key e \<in> user_key ` set (live t2)"
    then obtain x where "user_key e = user_key x" "x \<in> set (live t2)" by (rule imageE)
    then show False unfolding t2(4) by simp
  qed
  then have "users_ok ?t" using t3(3-5) t2(2, 3) by (simp add: users_ok_def)
  moreover have "set (live ?t) = insert e {x \<in> set (live t). user_key x \<noteq> user_key e}" using t3(5) t2(4) by simp
  ultimately show ?thesis by blast
qed

lemma users_delete_where:
  assumes "users_ok t"
  shows "\<exists>t'. delete_where P 0 t = Some t' \<and> users_ok t' \<and> set (live t') = {e \<in> set (live t). \<not> P e}"
  using delete_where_ok [of t user_key P] assms by (auto simp: users_ok_def)

lemma user_delete_ok:
  assumes "users_ok t"
  shows "\<exists>t'. USMUserTable_delete_entry (fst k) (snd k) t = Some (t', SNMPv3_USM_OK) \<and> users_ok t' \<and>
    set (live t') = {x \<in> set (live t). user_key x \<noteq> k}"
  using users_delete_where [OF assms, of "same_user (fst k) (snd k)"] assms
  by (auto simp: USMUserTable_delete_entry_def users_ok_def same_user_iff)

subsection \<open>Both tables as finite maps\<close>

definition names_add :: "name_entry \<Rightarrow> name_table \<Rightarrow> name_table option" where
  "names_add e t = map_option fst (USMUserNameTable_add_entry e t)"

definition users_add :: "user_entry \<Rightarrow> user_table \<Rightarrow> user_table option" where
  "users_add e t = map_option fst (USMUserTable_add_entry e t)"

definition users_del :: "u8 list \<times> u8 list \<Rightarrow> user_table \<Rightarrow> user_table option" where
  "users_del k t = map_option fst (USMUserTable_delete_entry (fst k) (snd k) t)"

lemma names_add_ok:
  "names_ok t \<Longrightarrow> \<exists>t'. names_add e t = Some t' \<and> names_ok t' \<and>
    set (live t') = insert e {x \<in> set (live t). ne_user_name x \<noteq> ne_user_name e}"
  using name_add_ok [of t e] by (auto simp: names_add_def)

lemma users_add_ok:
  "users_ok t \<Longrightarrow> \<exists>t'. users_add e t = Some t' \<and> users_ok t' \<and>
    set (live t') = insert e {x \<in> set (live t). user_key x \<noteq> user_key e}"
  using user_add_ok [of t e] by (auto simp: users_add_def)

lemma users_del_ok:
  "users_ok t \<Longrightarrow> \<exists>t'. users_del k t = Some t' \<and> users_ok t' \<and> set (live t') = {x \<in> set (live t). user_key x \<noteq> k}"
  using user_delete_ok [of t k] by (auto simp: users_del_def)

interpretation names: keyed_add names_ok live ne_user_name names_add
  by unfold_locales (simp_all add: names_add_ok, simp add: names_ok_def)

interpretation users: keyed_table users_ok live user_key users_add users_del
  by unfold_locales (simp_all add: users_add_ok users_del_ok, simp add: users_ok_def)

end
