(* ===== verification/Usm_Time.thy ===== *)
theory Usm_Time
  imports Array_Table Usm_Codes
begin

section \<open>The time table of the user security model\<close>

text \<open>
  Class \<open>USMTimeTable\<close> of \<^verbatim>\<open>src/snmp++/src/usm_v3.cpp\<close>: for each authoritative engine the boot counter, the
  difference of its clock to the local one, and the latest time received from it; entry 0 is the local
  engine.  \<^verbatim>\<open>time(&now)\<close> is an argument.  A \<^verbatim>\<open>long\<close> is the integer it holds: unsigned arithmetic wraps
  (\<open>as_long\<close>), signed arithmetic that overflows is \<open>None\<close> (\<open>in_long\<close>).
\<close>

definition as_long :: "int \<Rightarrow> int" where
  "as_long i = sint (word_of_int i :: u64)"

definition in_long :: "int \<Rightarrow> int option" where
  "in_long i = (if - (2 ^ 63) \<le> i \<and> i < 2 ^ 63 then Some i else None)"

lemma as_long_id: "- (2 ^ 63) \<le> i \<Longrightarrow> i < 2 ^ 63 \<Longrightarrow> as_long i = i"
  by (simp add: as_long_def signed_of_int signed_take_bit_int_eq_self)

lemma in_long_Some: "in_long i = Some j \<longleftrightarrow> j = i \<and> - (2 ^ 63) \<le> i \<and> i < 2 ^ 63"
  by (auto simp: in_long_def)

text \<open>The latest received time of entry 0 is never set.\<close>

record time_entry =
  te_engine_id :: "u8 list"
  te_engine_boots :: int
  te_time_diff :: int
  te_latest :: "int option"

type_synonym time_table = "time_entry array_table"

definition USMTimeTable_create :: "u8 list \<Rightarrow> int \<Rightarrow> int \<Rightarrow> time_table option" where
  "USMTimeTable_create local_engine_id engine_boots now =
     Option.bind (in_long (- now)) (\<lambda>diff.
     Option.bind (set_slot 0 \<lparr>te_engine_id = take MAXLENGTH_ENGINEID local_engine_id,
         te_engine_boots = engine_boots, te_time_diff = diff, te_latest = None\<rparr> (new_table 5)) (\<lambda>t.
     Some (t\<lparr>entries := 1\<rparr>)))"

definition USMTimeTable_add_entry :: "u8 list \<Rightarrow> int \<Rightarrow> int \<Rightarrow> int \<Rightarrow> time_table \<Rightarrow> (time_table \<times> int) option" where
  "USMTimeTable_add_entry engine_id engine_boots engine_time now t = (
     if table t = None then Some (t, SNMPv3_USM_ERROR)
     else Option.bind (push_entry 4 \<lparr>te_engine_id = take MAXLENGTH_ENGINEID engine_id,
           te_engine_boots = engine_boots, te_time_diff = as_long (engine_time - now),
           te_latest = Some engine_time\<rparr> t) (\<lambda>t. Some (t, SNMPv3_USM_OK)))"

definition USMTimeTable_delete_entry :: "u8 list \<Rightarrow> time_table \<Rightarrow> (time_table \<times> int) option" where
  "USMTimeTable_delete_entry engine_id t = (
     if table t = None then Some (t, SNMPv3_USM_ERROR)
     else Option.bind (find_entry 1 (\<lambda>e. unsignedCharCompare (te_engine_id e) engine_id) t) (\<lambda>found.
       case found of None \<Rightarrow> Some (t, SNMPv3_USM_OK)
       | Some i \<Rightarrow> Option.bind (drop_entry i t) (\<lambda>t. Some (t, SNMPv3_USM_OK))))"

text \<open>The boot counter and the time of the local engine.\<close>

definition USMTimeTable_get_local_time :: "int \<Rightarrow> time_table \<Rightarrow> (int \<times> int \<times> int) option" where
  "USMTimeTable_get_local_time now t = (
     if table t = None then Some (SNMPv3_USM_ERROR, 0, 0)
     else Option.bind (slot t 0) (\<lambda>e.
       Some (SNMPv3_USM_OK, te_engine_boots e, as_long (te_time_diff e + now))))"

definition USMTimeTable_get_time :: "u8 list \<Rightarrow> int \<Rightarrow> time_table \<Rightarrow> (int \<times> int \<times> int) option" where
  "USMTimeTable_get_time engine_id now t = (
     if table t = None then Some (SNMPv3_USM_ERROR, 0, 0)
     else Option.bind (find_entry 0 (\<lambda>e. unsignedCharCompare (te_engine_id e) engine_id) t) (\<lambda>found.
       case found of None \<Rightarrow> Some (SNMPv3_USM_UNKNOWN_ENGINEID, 0, 0)
       | Some i \<Rightarrow> Option.bind (slot t i) (\<lambda>e.
           Some (SNMPv3_USM_OK, te_engine_boots e, as_long (te_time_diff e + now)))))"

text \<open>The test of the authoritative engine: \<open>labs\<close> of the smallest \<^verbatim>\<open>long\<close> is undefined.\<close>

definition local_time_bad :: "time_entry \<Rightarrow> int \<Rightarrow> int \<Rightarrow> int \<Rightarrow> bool option" where
  "local_time_bad e engine_boots engine_time now = (
     if te_engine_boots e = 2147483647 then Some True
     else if te_engine_boots e \<noteq> engine_boots then Some True
     else Option.bind (in_long (abs (as_long (now + te_time_diff e - engine_time)))) (\<lambda>d. Some (d > 150)))"

text \<open>The test for the time of another engine, and the test for new values, with their short circuits.\<close>

definition remote_time_bad :: "time_entry \<Rightarrow> int \<Rightarrow> int \<Rightarrow> int \<Rightarrow> bool option" where
  "remote_time_bad e engine_boots engine_time now = (
     if engine_boots < te_engine_boots e then Some True
     else Option.bind
       (if engine_boots = te_engine_boots e
        then Option.bind (in_long (te_time_diff e + now)) (\<lambda>a.
             Option.bind (in_long (engine_time + 150)) (\<lambda>b. Some (a > b)))
        else Some False)
       (\<lambda>late. Some (late \<or> te_engine_boots e = 2147483647)))"

definition newer_time :: "time_entry \<Rightarrow> int \<Rightarrow> int \<Rightarrow> bool option" where
  "newer_time e engine_boots engine_time = (
     if engine_boots > te_engine_boots e then Some True
     else if engine_boots = te_engine_boots e
     then Option.bind (te_latest e) (\<lambda>latest. Some (engine_time > latest))
     else Some False)"

definition USMTimeTable_check_time :: "u8 list \<Rightarrow> int \<Rightarrow> int \<Rightarrow> int \<Rightarrow> time_table \<Rightarrow> (time_table \<times> int) option" where
  "USMTimeTable_check_time engine_id engine_boots engine_time now t = (
     if table t = None then Some (t, SNMPv3_USM_ERROR)
     else Option.bind (slot t 0) (\<lambda>own.
     if unsignedCharCompare (te_engine_id own) engine_id
     then Option.bind (local_time_bad own engine_boots engine_time now) (\<lambda>bad.
       Some (t, if bad then SNMPv3_USM_NOT_IN_TIME_WINDOW else SNMPv3_USM_OK))
     else Option.bind (find_entry 1 (\<lambda>e. unsignedCharCompare (te_engine_id e) engine_id) t) (\<lambda>found.
     case found of None \<Rightarrow> Some (t, SNMPv3_USM_UNKNOWN_ENGINEID)
     | Some i \<Rightarrow> Option.bind (slot t i) (\<lambda>e.
       Option.bind (remote_time_bad e engine_boots engine_time now) (\<lambda>bad.
       if bad then Some (t, SNMPv3_USM_NOT_IN_TIME_WINDOW)
       else Option.bind (newer_time e engine_boots engine_time) (\<lambda>new.
         if new then Option.bind (set_slot i (e\<lparr>te_engine_boots := engine_boots, te_latest := Some engine_time,
             te_time_diff := as_long (engine_time - now)\<rparr>) t) (\<lambda>t. Some (t, SNMPv3_USM_OK))
         else Some (t, SNMPv3_USM_OK)))))))"

text \<open>In discovery mode an unknown engine gets an entry.\<close>

definition USMTimeTable_check_engine_id :: "bool \<Rightarrow> u8 list \<Rightarrow> int \<Rightarrow> time_table \<Rightarrow> (time_table \<times> int) option" where
  "USMTimeTable_check_engine_id discovery engine_id now t = (
     if table t = None then Some (t, SNMPv3_USM_ERROR)
     else Option.bind (find_entry 0 (\<lambda>e. unsignedCharCompare (te_engine_id e) engine_id) t) (\<lambda>found.
       if found \<noteq> None then Some (t, SNMPv3_USM_OK)
       else if discovery then USMTimeTable_add_entry engine_id 0 0 now t
       else Some (t, SNMPv3_USM_ERROR)))"

subsection \<open>Invariant\<close>

text \<open>Entry 0 is there, engine ids have at most 32 octets and occur once, times are sane numbers, and every
  other entry has a latest received time.\<close>

definition times_ok :: "time_table \<Rightarrow> bool" where
  "times_ok t \<longleftrightarrow> table_ok t \<and> 0 < entries t \<and> 0 < max_entries t \<and> distinct (map te_engine_id (live t)) \<and>
     (\<forall>e\<in>set (live t). length (te_engine_id e) \<le> MAXLENGTH_ENGINEID) \<and>
     (\<forall>e\<in>set (tl (live t)). te_latest e \<noteq> None)"

lemma times_okE:
  assumes "times_ok t"
  obtains own es where "live t = own # es" and "table_ok t" and "entries t = Suc (length es)" and "0 < max_entries t"
    and "distinct (map te_engine_id (own # es))" and "\<forall>e\<in>set (own # es). length (te_engine_id e) \<le> MAXLENGTH_ENGINEID"
    and "\<forall>e\<in>set es. te_latest e \<noteq> None"
proof (cases "live t")
  case Nil
  then show ?thesis using assms length_live [of t] by (simp add: times_ok_def)
next
  case (Cons own es)
  then show ?thesis using assms length_live [of t] that [of own es] by (auto simp: times_ok_def)
qed

lemma times_okI:
  assumes "table_ok t" and "live t = own # es" and "0 < max_entries t" and "distinct (map te_engine_id (own # es))"
    and "\<forall>e\<in>set (own # es). length (te_engine_id e) \<le> MAXLENGTH_ENGINEID" and "\<forall>e\<in>set es. te_latest e \<noteq> None"
  shows "times_ok t"
  using assms length_live [OF assms(1)] by (simp add: times_ok_def)

lemma create_ok:
  assumes "0 \<le> now" and "now < 2 ^ 63"
  shows "\<exists>t. USMTimeTable_create engine_id boots now = Some t \<and> times_ok t \<and>
    live t = [\<lparr>te_engine_id = take MAXLENGTH_ENGINEID engine_id, te_engine_boots = boots, te_time_diff = - now,
      te_latest = None\<rparr>]"
proof -
  let ?e = "\<lparr>te_engine_id = take MAXLENGTH_ENGINEID engine_id, te_engine_boots = boots, te_time_diff = - now,
      te_latest = None\<rparr>"
  have m: "entries (new_table 5) < max_entries (new_table 5)" "entries (new_table 5) = 0" "max_entries (new_table 5) = 5"
    by (simp_all add: new_table_def)
  obtain t where t: "set_slot 0 ?e (new_table 5) = Some t" "max_entries t = 5"
    "table_ok (t\<lparr>entries := 1\<rparr>)" "live (t\<lparr>entries := 1\<rparr>) = [?e]"
    using append_ok [OF new_table_ok(1) m(1), of ?e, unfolded m(2, 3) new_table_ok(2)] by auto
  have "times_ok (t\<lparr>entries := 1\<rparr>)"
    using t by (intro times_okI [of _ ?e "[]"]) (simp_all add: MAXLENGTH_ENGINEID_def)
  moreover have "in_long (- now) = Some (- now)" using assms by (simp add: in_long_def)
  ultimately show ?thesis using t by (simp add: USMTimeTable_create_def)
qed

definition fresh_entry :: "u8 list \<Rightarrow> int \<Rightarrow> int \<Rightarrow> int \<Rightarrow> time_entry" where
  "fresh_entry engine_id boots time now = \<lparr>te_engine_id = engine_id, te_engine_boots = boots,
     te_time_diff = as_long (time - now), te_latest = Some time\<rparr>"

lemma add_entry_ok:
  assumes "times_ok t" and "length engine_id \<le> MAXLENGTH_ENGINEID" and "engine_id \<notin> te_engine_id ` set (live t)"
  shows "\<exists>t'. USMTimeTable_add_entry engine_id boots time now t = Some (t', SNMPv3_USM_OK) \<and> times_ok t' \<and>
    live t' = live t @ [fresh_entry engine_id boots time now]"
proof -
  obtain own es where o: "live t = own # es" "table_ok t" "0 < max_entries t"
    "distinct (map te_engine_id (own # es))" "\<forall>e\<in>set (own # es). length (te_engine_id e) \<le> MAXLENGTH_ENGINEID"
    "\<forall>e\<in>set es. te_latest e \<noteq> None" by (rule times_okE [OF assms(1)])
  obtain t' where t': "push_entry 4 (fresh_entry engine_id boots time now) t = Some t'" "table_ok t'"
    "live t' = live t @ [fresh_entry engine_id boots time now]" "0 < max_entries t'"
    using push_entry_ok [OF o(2, 3), of 4 "fresh_entry engine_id boots time now"] by auto
  have "times_ok t'"
    using t' o assms(2, 3) by (intro times_okI [of _ own "es @ [fresh_entry engine_id boots time now]"])
      (auto simp: fresh_entry_def)
  then show ?thesis using t' o(2) assms(2) by (simp add: USMTimeTable_add_entry_def fresh_entry_def)
qed

text \<open>The search that leaves out the local engine.\<close>

lemma find_remote:
  assumes "live t = own # es" and "table_ok t" and "entries t = Suc (length es)"
  shows "find_entry 1 P t = Some (map_option Suc (first_index P es))"
proof -
  have "drop 1 (own # es) = es" "1 \<le> entries t" using assms(3) by simp_all
  then show ?thesis using find_entry_from [OF assms(2), of 1 P] assms(1) by (simp add: plus_1_eq_Suc del: One_nat_def)
qed

lemma move_last_Cons: "i < length xs \<Longrightarrow> move_last (Suc i) (x # xs) = x # move_last i xs"
  by (cases xs rule: rev_cases) (auto simp: move_last_def)

lemma delete_entry_ok:
  assumes "times_ok t"
  shows "\<exists>t'. USMTimeTable_delete_entry engine_id t = Some (t', SNMPv3_USM_OK) \<and> times_ok t' \<and>
    hd (live t') = hd (live t) \<and> set (tl (live t')) = {e \<in> set (tl (live t)). te_engine_id e \<noteq> engine_id}"
proof -
  obtain own es where o: "live t = own # es" "table_ok t" "entries t = Suc (length es)" "0 < max_entries t"
    "distinct (map te_engine_id (own # es))" "\<forall>e\<in>set (own # es). length (te_engine_id e) \<le> MAXLENGTH_ENGINEID"
    "\<forall>e\<in>set es. te_latest e \<noteq> None" by (rule times_okE [OF assms])
  let ?P = "\<lambda>e. te_engine_id e = engine_id"
  have f: "find_entry 1 ?P t = Some (map_option Suc (first_index ?P es))" by (rule find_remote [OF o(1-3)])
  show ?thesis
  proof (cases "first_index ?P es")
    case None
    then show ?thesis using f o assms first_index_None [of ?P es] by (auto simp: USMTimeTable_delete_entry_def)
  next
    case (Some i)
    note i = first_index_SomeD [OF Some]
    obtain t' where t': "drop_entry (Suc i) t = Some t'" "table_ok t'" "live t' = move_last (Suc i) (live t)"
      "max_entries t' = max_entries t" using drop_entry_ok [OF o(2), of "Suc i"] o(3) i(1) by auto
    have l: "live t' = own # move_last i es" using t'(3) o(1) i(1) by (simp add: move_last_Cons)
    have d: "distinct (map te_engine_id (own # move_last i es))"
      using distinct_move_last [of i "map te_engine_id es"] i(1) o(5) set_move_last [of i "map te_engine_id es"]
      by (auto simp: map_move_last)
    have m: "set (move_last i es) = {e \<in> set es. te_engine_id e \<noteq> engine_id}"
    proof -
      have "set (move_last i es) = set es - {es ! i}"
        using o(5) by (intro set_move_last_distinct i(1)) (simp add: distinct_map)
      moreover have "te_engine_id e = engine_id \<longleftrightarrow> e = es ! i" if "e \<in> set es" for e
        using that i o(5) by (metis distinct.simps(2) distinct_map inj_onD list.simps(9) nth_mem)
      ultimately show ?thesis by blast
    qed
    have "times_ok t'"
    proof (rule times_okI [OF t'(2) l _ d])
      show "\<forall>e\<in>set (own # move_last i es). length (te_engine_id e) \<le> MAXLENGTH_ENGINEID"
        using o(6) by (simp add: m)
    qed (use o(4, 7) t'(4) in \<open>simp_all add: m\<close>)
    then show ?thesis using f Some t'(1) l m o(1, 2) by (simp add: USMTimeTable_delete_entry_def)
  qed
qed

subsection \<open>Values of the protocol\<close>

text \<open>A value of a message or of the clock, and the entry of an engine whose latest time was received at
  some time up to \<open>now\<close>.\<close>

definition sane :: "int \<Rightarrow> bool" where
  "sane n \<longleftrightarrow> 0 \<le> n \<and> n < 2 ^ 62"

definition clocked :: "int \<Rightarrow> time_entry \<Rightarrow> bool" where
  "clocked now e \<longleftrightarrow> sane (te_engine_boots e) \<and>
     (case te_latest e of None \<Rightarrow> False
      | Some latest \<Rightarrow> sane latest \<and> latest - now \<le> te_time_diff e \<and> te_time_diff e \<le> latest)"

lemma clockedE:
  assumes "clocked now e"
  obtains latest where "te_latest e = Some latest" and "sane latest" and "sane (te_engine_boots e)"
    and "latest - now \<le> te_time_diff e" and "te_time_diff e \<le> latest"
  using assms by (auto simp: clocked_def split: option.splits)

lemma clocked_mono: "clocked now e \<Longrightarrow> now \<le> now' \<Longrightarrow> clocked now' e"
  by (auto simp: clocked_def split: option.splits)

text \<open>What the code asks of a message from another engine, before it changes the entry: the message is outside the
  time window; and the values that the entry has after a message inside it.\<close>

definition outside_window :: "int \<Rightarrow> int \<Rightarrow> int \<Rightarrow> time_entry \<Rightarrow> bool" where
  "outside_window boots time now e \<longleftrightarrow> te_engine_boots e = 2147483647 \<or> boots < te_engine_boots e \<or>
     boots = te_engine_boots e \<and> time < te_time_diff e + now - 150"

definition advance :: "int \<Rightarrow> int \<Rightarrow> int \<Rightarrow> time_entry \<Rightarrow> time_entry" where
  "advance boots time now e =
     (if te_engine_boots e < boots \<or> boots = te_engine_boots e \<and> the (te_latest e) < time
      then e\<lparr>te_engine_boots := boots, te_latest := Some time, te_time_diff := time - now\<rparr> else e)"

text \<open>RFC 3414, section 3.2, step 7b, for a message from another engine: first the entry takes over the values of a newer
  message (1), and then the message is compared with the entry (2).\<close>

definition rfc_outside_window :: "int \<Rightarrow> int \<Rightarrow> int \<Rightarrow> time_entry \<Rightarrow> bool" where
  "rfc_outside_window boots time now e = (let e' = advance boots time now e in
     te_engine_boots e' = 2147483647 \<or> boots < te_engine_boots e' \<or>
     boots = te_engine_boots e' \<and> time < te_time_diff e' + now - 150)"

text \<open>The code does the second part first.  For boot counters in the range of the RFC it differs in two cases: a message
  that brings the counter to the maximum, and one that is newer than all before it but more than 150 seconds late.\<close>

lemma window_differs:
  assumes "boots \<le> 2147483647"
  shows "outside_window boots time now e \<noteq> rfc_outside_window boots time now e \<longleftrightarrow>
    te_engine_boots e < boots \<and> boots = 2147483647 \<or>
    boots = te_engine_boots e \<and> boots \<noteq> 2147483647 \<and> the (te_latest e) < time \<and> time < te_time_diff e + now - 150"
  using assms by (auto simp: outside_window_def rfc_outside_window_def advance_def Let_def)

lemma advance_id [simp]: "te_engine_id (advance boots time now e) = te_engine_id e"
  by (simp add: advance_def)

lemma advance_latest: "te_latest e \<noteq> None \<Longrightarrow> te_latest (advance boots time now e) \<noteq> None"
  by (simp add: advance_def)

lemma clocked_advance:
  "clocked now e \<Longrightarrow> sane boots \<Longrightarrow> sane time \<Longrightarrow> sane now \<Longrightarrow> clocked now (advance boots time now e)"
  by (auto simp: advance_def clocked_def sane_def)

lemma remote_time:
  assumes "clocked now e" and "sane boots" and "sane time" and "sane now"
  shows "remote_time_bad e boots time now = Some (outside_window boots time now e)"
    and "newer_time e boots time = Some (te_engine_boots e < boots \<or>
      boots = te_engine_boots e \<and> the (te_latest e) < time)"
    and "as_long (time - now) = time - now"
proof -
  obtain latest where l: "te_latest e = Some latest" "sane latest" "latest - now \<le> te_time_diff e"
    "te_time_diff e \<le> latest" by (rule clockedE [OF assms(1)])
  have "in_long (te_time_diff e + now) = Some (te_time_diff e + now)" "in_long (time + 150) = Some (time + 150)"
    using l assms(3, 4) by (simp_all add: in_long_def sane_def)
  then show "remote_time_bad e boots time now = Some (outside_window boots time now e)"
    by (auto simp: remote_time_bad_def outside_window_def)
  show "newer_time e boots time = Some (te_engine_boots e < boots \<or> boots = te_engine_boots e \<and> the (te_latest e) < time)"
    using l(1) by (auto simp: newer_time_def)
  show "as_long (time - now) = time - now" using assms(3, 4) by (intro as_long_id) (simp_all add: sane_def)
qed

text \<open>The entries of the other engines.\<close>

definition others :: "time_table \<Rightarrow> time_entry list" where
  "others t = tl (live t)"

lemma first_index_key:
  "e \<in> set es \<Longrightarrow> distinct (map key es) \<Longrightarrow> key e = k \<Longrightarrow>
    \<exists>i<length es. first_index (\<lambda>e. key e = k) es = Some i \<and> es ! i = e \<and> (\<forall>x. es[i := x] = map (\<lambda>y. if key y = k then x else y) es)"
proof (induction es)
  case (Cons y es)
  show ?case
  proof (cases "y = e")
    case True
    then have "map (\<lambda>y. if key y = k then x else y) es = es" for x
      using Cons.prems True by (intro map_idI) (metis distinct.simps(2) image_eqI list.set_map list.simps(9))
    then show ?thesis using True Cons.prems by auto
  next
    case False
    then have "e \<in> set es" "key y \<noteq> k" using Cons.prems by auto
    then show ?thesis using Cons.IH Cons.prems by auto
  qed
qed simp

lemma check_time_remote:
  assumes "times_ok t" and "e \<in> set (others t)" and "clocked now e" and "sane boots" and "sane time" and "sane now"
  shows "outside_window boots time now e \<Longrightarrow>
      USMTimeTable_check_time (te_engine_id e) boots time now t = Some (t, SNMPv3_USM_NOT_IN_TIME_WINDOW)"
    and "\<not> outside_window boots time now e \<Longrightarrow>
      \<exists>t'. USMTimeTable_check_time (te_engine_id e) boots time now t = Some (t', SNMPv3_USM_OK) \<and> times_ok t' \<and>
        hd (live t') = hd (live t) \<and>
        others t' = map (\<lambda>x. if te_engine_id x = te_engine_id e then advance boots time now e else x) (others t)"
proof -
  obtain own es where o: "live t = own # es" "table_ok t" "entries t = Suc (length es)" "0 < max_entries t"
    "distinct (map te_engine_id (own # es))" "\<forall>e\<in>set (own # es). length (te_engine_id e) \<le> MAXLENGTH_ENGINEID"
    "\<forall>e\<in>set es. te_latest e \<noteq> None" by (rule times_okE [OF assms(1)])
  have e: "e \<in> set es" using assms(2) o(1) by (simp add: others_def)
  then have ne: "te_engine_id own \<noteq> te_engine_id e" using o(5) by auto
  obtain i where i: "i < length es" "first_index (\<lambda>x. te_engine_id x = te_engine_id e) es = Some i" "es ! i = e"
    "\<forall>x. es[i := x] = map (\<lambda>y. if te_engine_id y = te_engine_id e then x else y) es"
    using first_index_key [OF e, of te_engine_id] o(5) by auto
  have f: "find_entry 1 (\<lambda>x. te_engine_id x = te_engine_id e) t = Some (Some (Suc i))"
    using find_remote [OF o(1-3)] i(2) by simp
  have s: "slot t 0 = Some own" "slot t (Suc i) = Some e"
    using slot_live [OF o(2)] o(1, 3) i(1, 3) by simp_all
  note r = remote_time [OF assms(3-6)]
  show "USMTimeTable_check_time (te_engine_id e) boots time now t = Some (t, SNMPv3_USM_NOT_IN_TIME_WINDOW)"
    if "outside_window boots time now e"
    using that f s ne o(2) r(1) by (simp add: USMTimeTable_check_time_def)
  assume in_window: "\<not> outside_window boots time now e"
  show "\<exists>t'. USMTimeTable_check_time (te_engine_id e) boots time now t = Some (t', SNMPv3_USM_OK) \<and> times_ok t' \<and>
    hd (live t') = hd (live t) \<and>
    others t' = map (\<lambda>x. if te_engine_id x = te_engine_id e then advance boots time now e else x) (others t)"
  proof (cases "te_engine_boots e < boots \<or> boots = te_engine_boots e \<and> the (te_latest e) < time")
    case False
    then have "advance boots time now e = e" by (auto simp: advance_def)
    moreover have "es[i := e] = es" using i(3) by auto
    ultimately show ?thesis using in_window False f s ne o(1, 2) r(1, 2) assms(1) i(4)
      by (simp add: USMTimeTable_check_time_def others_def) metis
  next
    case True
    let ?e = "advance boots time now e"
    obtain t' where t': "set_slot (Suc i) ?e t = Some t'" "table_ok t'" "live t' = own # es[i := ?e]"
      "max_entries t' = max_entries t"
      using set_slot_ok [OF o(2), of "Suc i" ?e] o(1, 3) i(1) by auto
    have "times_ok t'"
    proof (rule times_okI [OF t'(2, 3)])
      have "map te_engine_id (es[i := ?e]) = map te_engine_id es"
        using i(1, 3) by (simp add: map_update) (metis list_update_id nth_map)
      then show "distinct (map te_engine_id (own # es[i := ?e]))" using o(5) by simp
      show "\<forall>x\<in>set (own # es[i := ?e]). length (te_engine_id x) \<le> MAXLENGTH_ENGINEID"
        using o(6) e set_update_subset_insert [of es i ?e] by auto
      show "\<forall>x\<in>set (es[i := ?e]). te_latest x \<noteq> None"
        using o(7) e set_update_subset_insert [of es i ?e] advance_latest [of e] by auto
    qed (use t'(4) o(4) in simp)
    moreover have "e\<lparr>te_engine_boots := boots, te_latest := Some time, te_time_diff := as_long (time - now)\<rparr> = ?e"
      using True r(3) by (simp add: advance_def)
    ultimately show ?thesis using in_window True f s ne o(1, 2) r(1, 2) t' i(4)
      by (simp add: USMTimeTable_check_time_def others_def)
  qed
qed

lemma check_time_unknown:
  assumes "times_ok t" and "engine_id \<notin> te_engine_id ` set (live t)"
  shows "USMTimeTable_check_time engine_id boots time now t = Some (t, SNMPv3_USM_UNKNOWN_ENGINEID)"
proof -
  obtain own es where o: "live t = own # es" "table_ok t" "entries t = Suc (length es)"
    by (rule times_okE [OF assms(1)])
  have "first_index (\<lambda>x. te_engine_id x = engine_id) es = None" "te_engine_id own \<noteq> engine_id"
    using assms(2) o(1) by (auto simp: first_index_None)
  then show ?thesis using find_remote [OF o] slot_live [OF o(2), of 0] o
    by (simp add: USMTimeTable_check_time_def)
qed

text \<open>For messages to the local engine: an exact window of 150 seconds on both sides.\<close>

lemma check_time_local:
  assumes "times_ok t" and "own = hd (live t)" and "sane time" and "sane now" and "abs (te_time_diff own) < 2 ^ 62"
  shows "USMTimeTable_check_time (te_engine_id own) boots time now t = Some (t,
    if te_engine_boots own \<noteq> 2147483647 \<and> boots = te_engine_boots own \<and> abs (now + te_time_diff own - time) \<le> 150
    then SNMPv3_USM_OK else SNMPv3_USM_NOT_IN_TIME_WINDOW)"
proof -
  obtain es where o: "live t = own # es" "table_ok t" "entries t = Suc (length es)"
    using assms(2) by (auto intro: times_okE [OF assms(1)])
  have "as_long (now + te_time_diff own - time) = now + te_time_diff own - time"
    "in_long (abs (now + te_time_diff own - time)) = Some (abs (now + te_time_diff own - time))"
    using assms(3-5) by (simp_all add: as_long_id in_long_def sane_def abs_less_iff abs_le_iff)
  then show ?thesis using slot_live [OF o(2), of 0] o
    by (simp add: USMTimeTable_check_time_def local_time_bad_def)
qed

end
