(* ===== verification/Auth_Hmac.thy ===== *)
theory Auth_Hmac
  imports Usm_Codes
begin

section \<open>Authentication of messages and localised keys\<close>

text \<open>
  The classes \<open>AuthMD5\<close> and \<open>AuthSHABase\<close> with its subclasses (\<^verbatim>\<open>src/snmp++/src/auth_priv.cpp\<close>,
  \<^verbatim>\<open>src/snmp++/include/snmp_pp/auth_priv.h\<close>).  The hash functions come from OpenSSL or libtomcrypt: they are the
  parameter \<open>H\<close> that gives for each class the digest of the octets passed to \<open>update\<close> between \<open>init\<close> and \<open>final\<close>.
  The message is a list of octets and \<open>auth_par_ptr\<close> a position in it; an access outside it, or past the end of a
  key or a local buffer, is \<open>None\<close>.  All functions return the message with the result.
\<close>

unbundle bit_operations_syntax

subsection \<open>Octets at a position\<close>

definition read_at :: "nat \<Rightarrow> nat \<Rightarrow> u8 list \<Rightarrow> u8 list option" where
  "read_at pos n msg = (if pos + n \<le> length msg then Some (take n (drop pos msg)) else None)"

definition write_at :: "nat \<Rightarrow> u8 list \<Rightarrow> u8 list \<Rightarrow> u8 list option" where
  "write_at pos bs msg =
     (if pos + length bs \<le> length msg then Some (take pos msg @ bs @ drop (pos + length bs) msg) else None)"

lemma length_write_at: "write_at pos bs msg = Some msg' \<Longrightarrow> length msg' = length msg"
  by (auto simp: write_at_def split: if_splits)

lemma write_at_twice:
  "write_at pos bs msg = Some msg' \<Longrightarrow> length cs = length bs \<Longrightarrow> write_at pos cs msg' = write_at pos cs msg"
  by (auto simp: write_at_def split: if_splits)

lemma read_write_at: "write_at pos bs msg = Some msg' \<Longrightarrow> read_at pos (length bs) msg' = Some bs"
  by (auto simp: write_at_def read_at_def split: if_splits)

lemma write_read_at: "read_at pos n msg = Some bs \<Longrightarrow> write_at pos bs msg = Some msg"
  by (auto simp: write_at_def read_at_def add.commute split: if_splits)
    (metis append_take_drop_id drop_drop add.commute)

lemma length_read_at: "read_at pos n msg = Some bs \<Longrightarrow> length bs = n"
  by (auto simp: read_at_def split: if_splits)

subsection \<open>The classes\<close>

datatype auth_class = AuthMD5 | AuthSHA | AuthHMAC128SHA224 | AuthHMAC192SHA256 | AuthHMAC256SHA384 | AuthHMAC384SHA512

type_synonym hashes = "auth_class \<Rightarrow> u8 list \<Rightarrow> u8 list"

fun auth_get_id :: "auth_class \<Rightarrow> int" where
  "auth_get_id AuthMD5 = SNMP_AUTHPROTOCOL_HMACMD5"
| "auth_get_id AuthSHA = SNMP_AUTHPROTOCOL_HMACSHA"
| "auth_get_id AuthHMAC128SHA224 = SNMP_AUTHPROTOCOL_HMAC128SHA224"
| "auth_get_id AuthHMAC192SHA256 = SNMP_AUTHPROTOCOL_HMAC192SHA256"
| "auth_get_id AuthHMAC256SHA384 = SNMP_AUTHPROTOCOL_HMAC256SHA384"
| "auth_get_id AuthHMAC384SHA512 = SNMP_AUTHPROTOCOL_HMAC384SHA512"

fun auth_get_id_string :: "auth_class \<Rightarrow> string" where
  "auth_get_id_string AuthMD5 = ''HMAC-MD5-96''"
| "auth_get_id_string AuthSHA = ''HMAC-SHA-96''"
| "auth_get_id_string AuthHMAC128SHA224 = ''HMAC-128-SHA-224''"
| "auth_get_id_string AuthHMAC192SHA256 = ''HMAC-192-SHA-256''"
| "auth_get_id_string AuthHMAC256SHA384 = ''HMAC-256-SHA-384''"
| "auth_get_id_string AuthHMAC384SHA512 = ''HMAC-384-SHA-512''"

fun auth_get_auth_params_len :: "auth_class \<Rightarrow> nat" where
  "auth_get_auth_params_len AuthMD5 = 12"
| "auth_get_auth_params_len AuthSHA = 12"
| "auth_get_auth_params_len AuthHMAC128SHA224 = 16"
| "auth_get_auth_params_len AuthHMAC192SHA256 = 24"
| "auth_get_auth_params_len AuthHMAC256SHA384 = 32"
| "auth_get_auth_params_len AuthHMAC384SHA512 = 48"

fun auth_get_hash_len :: "auth_class \<Rightarrow> nat" where
  "auth_get_hash_len AuthMD5 = 16"
| "auth_get_hash_len AuthSHA = 20"
| "auth_get_hash_len AuthHMAC128SHA224 = 28"
| "auth_get_hash_len AuthHMAC192SHA256 = 32"
| "auth_get_hash_len AuthHMAC256SHA384 = 48"
| "auth_get_hash_len AuthHMAC384SHA512 = 64"

text \<open>\<open>Hasher::get_key_length\<close> and \<open>Hasher::get_block_size\<close>; \<open>AuthMD5\<close> has its numbers in its methods.\<close>

fun get_key_length :: "auth_class \<Rightarrow> nat" where
  "get_key_length AuthMD5 = 16"
| "get_key_length AuthSHA = 20"
| "get_key_length AuthHMAC128SHA224 = 28"
| "get_key_length AuthHMAC192SHA256 = 32"
| "get_key_length AuthHMAC256SHA384 = 48"
| "get_key_length AuthHMAC384SHA512 = 64"

fun get_block_size :: "auth_class \<Rightarrow> nat" where
  "get_block_size AuthHMAC256SHA384 = 128"
| "get_block_size AuthHMAC384SHA512 = 128"
| "get_block_size _ = 64"

subsection \<open>Keys from passwords\<close>

text \<open>The 64 octets of \<open>password_buf\<close>, from the running \<open>password_index\<close>; an empty password is a division by
  zero.\<close>

primrec fill :: "nat \<Rightarrow> nat \<Rightarrow> u8 list \<Rightarrow> u8 list" where
  "fill 0 index password = []"
| "fill (Suc n) index password = password ! (index mod length password) # fill n (Suc index) password"

text \<open>The loop that feeds one megabyte to the hash: the octets it has processed.\<close>

function stretch :: "nat \<Rightarrow> nat \<Rightarrow> u8 list \<Rightarrow> u8 list \<Rightarrow> u8 list" where
  "stretch count index password processed = (
     if count < 1048576 then stretch (count + 64) (index + 64) password (processed @ fill 64 index password)
     else processed)"
  by pat_completeness auto
termination by (relation "measure (\<lambda>(count, _). 1048576 - count)") auto

declare stretch.simps [simp del]

text \<open>\<open>password_buf\<close> of \<open>AuthMD5\<close> has 65 octets, too few for an engine id of more than 33.\<close>

definition AuthMD5_password_to_key :: "hashes \<Rightarrow> u8 list \<Rightarrow> u8 list \<Rightarrow> u8 list option" where
  "AuthMD5_password_to_key H password engine_id = (
     if password = [] then None
     else let key = H AuthMD5 (stretch 0 0 password []);
              password_buf = key @ engine_id @ key
       in if length password_buf > 65 then None else Some (H AuthMD5 password_buf))"

definition AuthSHABase_password_to_key :: "hashes \<Rightarrow> auth_class \<Rightarrow> u8 list \<Rightarrow> u8 list \<Rightarrow> u8 list option" where
  "AuthSHABase_password_to_key H a password engine_id = (
     if password = [] then None
     else let key = H a (stretch 0 0 password [])
       in Some (H a (take (get_key_length a) key @ engine_id @ take (get_key_length a) key)))"

fun auth_password_to_key :: "hashes \<Rightarrow> auth_class \<Rightarrow> u8 list \<Rightarrow> u8 list \<Rightarrow> u8 list option" where
  "auth_password_to_key H AuthMD5 password engine_id = AuthMD5_password_to_key H password engine_id"
| "auth_password_to_key H a password engine_id = AuthSHABase_password_to_key H a password engine_id"

definition auth_hash :: "hashes \<Rightarrow> auth_class \<Rightarrow> u8 list \<Rightarrow> u8 list" where
  "auth_hash H a data = H a data"

subsection \<open>The digest of a message\<close>

text \<open>\<open>pad[i] ^= key[i]\<close> for the first \<open>n\<close> octets.\<close>

primrec xor_key :: "nat \<Rightarrow> u8 list \<Rightarrow> u8 list \<Rightarrow> u8 list" where
  "xor_key 0 key pad = pad"
| "xor_key (Suc n) key pad = (let pad = xor_key n key pad in pad[n := (pad ! n) XOR (key ! n)])"

definition AuthMD5_auth_out_msg :: "hashes \<Rightarrow> u8 list \<Rightarrow> u8 list \<Rightarrow> nat \<Rightarrow> (u8 list \<times> int) option" where
  "AuthMD5_auth_out_msg H key msg auth_par =
     Option.bind (write_at auth_par (replicate 12 0) msg) (\<lambda>msg.
     if length key < 16 then None
     else let k_ipad = map (\<lambda>b. b XOR 0x36) (take 64 (take 16 key @ replicate 49 0));
              k_opad = map (\<lambda>b. b XOR 0x5C) (take 64 (take 16 key @ replicate 49 0));
              digest = H AuthMD5 (k_ipad @ msg);
              digest = H AuthMD5 (k_opad @ take 16 digest)
       in Option.bind (write_at auth_par (take 12 digest) msg) (\<lambda>msg. Some (msg, SNMPv3_USM_OK)))"

definition AuthSHABase_auth_out_msg ::
  "hashes \<Rightarrow> auth_class \<Rightarrow> u8 list \<Rightarrow> u8 list \<Rightarrow> nat \<Rightarrow> (u8 list \<times> int) option" where
  "AuthSHABase_auth_out_msg H a key msg auth_par =
     Option.bind (write_at auth_par (replicate (auth_get_auth_params_len a) 0) msg) (\<lambda>msg.
     if length key < get_key_length a then None
     else let k_ipad = xor_key (get_key_length a) key (replicate (get_block_size a) 0x36);
              k_opad = xor_key (get_key_length a) key (replicate (get_block_size a) 0x5C);
              digest = H a (k_ipad @ msg);
              digest = H a (k_opad @ take (auth_get_hash_len a) digest)
       in Option.bind (write_at auth_par (take (auth_get_auth_params_len a) digest) msg) (\<lambda>msg.
          Some (msg, SNMPv3_USM_OK)))"

fun auth_auth_out_msg :: "hashes \<Rightarrow> auth_class \<Rightarrow> u8 list \<Rightarrow> u8 list \<Rightarrow> nat \<Rightarrow> (u8 list \<times> int) option" where
  "auth_auth_out_msg H AuthMD5 key msg auth_par = AuthMD5_auth_out_msg H key msg auth_par"
| "auth_auth_out_msg H a key msg auth_par = AuthSHABase_auth_out_msg H a key msg auth_par"

text \<open>The loop that compares the digests.\<close>

primrec same_digest :: "nat \<Rightarrow> nat \<Rightarrow> u8 list \<Rightarrow> u8 list \<Rightarrow> bool" where
  "same_digest 0 i xs ys = True"
| "same_digest (Suc n) i xs ys = (if xs ! i \<noteq> ys ! i then False else same_digest n (Suc i) xs ys)"

text \<open>What both versions do after the check of the length: keep the received digest, compute the digest in its
  place, and put the received one back when something is wrong.\<close>

definition check_digest ::
  "(u8 list \<Rightarrow> (u8 list \<times> int) option) \<Rightarrow> u8 list \<Rightarrow> nat \<Rightarrow> nat \<Rightarrow> (u8 list \<times> int) option" where
  "check_digest out_msg msg auth_par n =
     Option.bind (read_at auth_par n msg) (\<lambda>received.
     Option.bind (out_msg msg) (\<lambda>(msg, rc).
     if rc \<noteq> SNMPv3_USM_OK
     then Option.bind (write_at auth_par received msg) (\<lambda>msg. Some (msg, SNMPv3_USM_AUTHENTICATION_FAILURE))
     else Option.bind (read_at auth_par n msg) (\<lambda>computed.
       if same_digest n 0 computed received then Some (msg, SNMPv3_USM_OK)
       else Option.bind (write_at auth_par received msg) (\<lambda>msg. Some (msg, SNMPv3_USM_AUTHENTICATION_FAILURE)))))"

definition AuthMD5_auth_inc_msg :: "hashes \<Rightarrow> u8 list \<Rightarrow> u8 list \<Rightarrow> nat \<Rightarrow> nat \<Rightarrow> (u8 list \<times> int) option" where
  "AuthMD5_auth_inc_msg H key msg auth_par auth_par_len = (
     if auth_par_len \<noteq> 12 then Some (msg, SNMPv3_USM_AUTHENTICATION_FAILURE)
     else check_digest (\<lambda>msg. AuthMD5_auth_out_msg H key msg auth_par) msg auth_par 12)"

definition AuthSHABase_auth_inc_msg ::
  "hashes \<Rightarrow> auth_class \<Rightarrow> u8 list \<Rightarrow> u8 list \<Rightarrow> nat \<Rightarrow> nat \<Rightarrow> (u8 list \<times> int) option" where
  "AuthSHABase_auth_inc_msg H a key msg auth_par auth_par_len = (
     if auth_par_len \<noteq> auth_get_auth_params_len a then Some (msg, SNMPv3_USM_AUTHENTICATION_FAILURE)
     else check_digest (\<lambda>msg. AuthSHABase_auth_out_msg H a key msg auth_par) msg auth_par auth_par_len)"

fun auth_auth_inc_msg :: "hashes \<Rightarrow> auth_class \<Rightarrow> u8 list \<Rightarrow> u8 list \<Rightarrow> nat \<Rightarrow> nat \<Rightarrow> (u8 list \<times> int) option" where
  "auth_auth_inc_msg H AuthMD5 key msg auth_par auth_par_len = AuthMD5_auth_inc_msg H key msg auth_par auth_par_len"
| "auth_auth_inc_msg H a key msg auth_par auth_par_len = AuthSHABase_auth_inc_msg H a key msg auth_par auth_par_len"

subsection \<open>Reference definitions\<close>

text \<open>RFC 2104, for a key that is not longer than a block, and the key localisation of RFC 3414, section 2.6.\<close>

definition hmac :: "(u8 list \<Rightarrow> u8 list) \<Rightarrow> nat \<Rightarrow> u8 list \<Rightarrow> u8 list \<Rightarrow> u8 list" where
  "hmac h block key text = (let key = key @ replicate (block - length key) 0 in
     h (map (\<lambda>b. b XOR 0x5C) key @ h (map (\<lambda>b. b XOR 0x36) key @ text)))"

definition localised_key :: "(u8 list \<Rightarrow> u8 list) \<Rightarrow> u8 list \<Rightarrow> u8 list \<Rightarrow> u8 list" where
  "localised_key h password engine_id =
     (let key = h (map (\<lambda>i. password ! (i mod length password)) [0..<1048576]) in h (key @ engine_id @ key))"

text \<open>What the digest of the library is known to be: a string of the length of the hash.\<close>

definition digests :: "hashes \<Rightarrow> bool" where
  "digests H \<longleftrightarrow> (\<forall>a xs. length (H a xs) = auth_get_hash_len a)"

lemma digests_length: "digests H \<Longrightarrow> length (H a xs) = auth_get_hash_len a"
  by (simp add: digests_def)

lemma auth_numbers:
  "get_key_length a = auth_get_hash_len a" "auth_get_hash_len a \<le> get_block_size a"
  "auth_get_auth_params_len a \<le> auth_get_hash_len a" "0 < auth_get_hash_len a"
  "auth_get_hash_len a \<le> SNMPv3_USM_MAX_KEY_LEN"
  by (cases a; simp add: usm_lengths)+

subsection \<open>The loops\<close>

lemma fill_eq: "fill n index password = map (\<lambda>i. password ! (i mod length password)) [index..<index + n]"
  by (induction n arbitrary: index) (simp_all add: upt_conv_Cons del: upt_Suc)

lemma fill_add: "fill (m + n) index password = fill m index password @ fill n (index + m) password"
  by (induction m arbitrary: index) simp_all

lemma stretch_eq:
  "64 dvd 1048576 - count \<Longrightarrow> count \<le> 1048576 \<Longrightarrow>
    stretch count index password processed = processed @ fill (1048576 - count) index password"
proof (induction count index password processed rule: stretch.induct)
  case (1 count index password processed)
  show ?case
  proof (cases "count < 1048576")
    case True
    obtain k where k: "1048576 - count = 64 * k" using 1(2) by (rule dvdE)
    then have j: "64 dvd 1048576 - (count + 64)" "count + 64 \<le> 1048576" "1048576 - count = 64 + (1048576 - (count + 64))"
      using True by (cases k; simp add: diff_diff_left [symmetric])+
    then show ?thesis
      using 1(1) [OF True j(1, 2)] True by (subst stretch.simps) (simp only: if_True j(3) fill_add append_assoc)
  next
    case False
    then show ?thesis using 1(3) by (subst stretch.simps) simp
  qed
qed

lemma stretch_megabyte:
  "stretch 0 0 password [] = map (\<lambda>i. password ! (i mod length password)) [0..<1048576]"
  by (simp add: stretch_eq fill_eq)

lemma length_xor_key [simp]: "length (xor_key n key pad) = length pad"
  by (induction n) (simp_all add: Let_def)

lemma nth_xor_key:
  "n \<le> length pad \<Longrightarrow> i < length pad \<Longrightarrow> xor_key n key pad ! i = (if i < n then pad ! i XOR key ! i else pad ! i)"
  by (induction n arbitrary: i) (auto simp: Let_def nth_list_update)

lemma xor_key_replicate:
  assumes "n \<le> block" and "n \<le> length key"
  shows "xor_key n key (replicate block b) = map (\<lambda>x. x XOR b) (take n key @ replicate (block - n) 0)"
  using assms by (intro nth_equalityI) (auto simp: nth_xor_key nth_append xor.commute)

lemma same_digest_iff:
  "i + n \<le> length xs \<Longrightarrow> i + n \<le> length ys \<Longrightarrow> same_digest n i xs ys \<longleftrightarrow> take n (drop i xs) = take n (drop i ys)"
proof (induction n arbitrary: i)
  case (Suc n)
  then have "drop i xs = xs ! i # drop (Suc i) xs" "drop i ys = ys ! i # drop (Suc i) ys"
    by (simp_all add: Cons_nth_drop_Suc)
  then show ?case using Suc by simp
qed simp

subsection \<open>The digest is an HMAC\<close>

text \<open>The octets that go into the message: the HMAC, cut to the length of the field, of the message with the field
  filled by zeros.\<close>

definition mac :: "hashes \<Rightarrow> auth_class \<Rightarrow> u8 list \<Rightarrow> u8 list \<Rightarrow> nat \<Rightarrow> u8 list" where
  "mac H a key msg pos = take (auth_get_auth_params_len a)
     (hmac (H a) (get_block_size a) (take (get_key_length a) key)
       (take pos msg @ replicate (auth_get_auth_params_len a) 0 @ drop (pos + auth_get_auth_params_len a) msg))"

lemma length_mac: "digests H \<Longrightarrow> length (mac H a key msg pos) = auth_get_auth_params_len a"
  using auth_numbers(3) [of a] by (simp add: mac_def hmac_def Let_def digests_length)

text \<open>The digest does not depend on what the field holds.\<close>

lemma mac_write_at:
  assumes "write_at pos bs msg = Some msg'" and "length bs = auth_get_auth_params_len a"
  shows "mac H a key msg' pos = mac H a key msg pos"
  using assms by (auto simp: mac_def write_at_def split: if_splits)

lemma auth_out_msg_mac:
  assumes "digests H" and "get_key_length a \<le> length key" and "pos + auth_get_auth_params_len a \<le> length msg"
  shows "\<exists>msg'. auth_auth_out_msg H a key msg pos = Some (msg', SNMPv3_USM_OK) \<and>
    write_at pos (mac H a key msg pos) msg = Some msg'"
proof -
  let ?n = "auth_get_auth_params_len a"
  let ?zeroed = "take pos msg @ replicate ?n 0 @ drop (pos + ?n) msg"
  have w: "write_at pos (replicate ?n 0) msg = Some ?zeroed" using assms(3) by (simp add: write_at_def)
  have w': "write_at pos bs ?zeroed = write_at pos bs msg" if "length bs = ?n" for bs
    using write_at_twice [OF w, of bs] that by simp
  obtain msg' where m: "write_at pos (mac H a key msg pos) msg = Some msg'"
    using assms(3) length_mac [OF assms(1), of a key msg pos] by (simp add: write_at_def)
  then have m': "write_at pos (mac H a key msg pos) ?zeroed = Some msg'"
    using w' [of "mac H a key msg pos"] length_mac [OF assms(1), of a key msg pos] by simp
  have "auth_auth_out_msg H a key msg pos = Some (msg', SNMPv3_USM_OK)"
  proof (cases "a = AuthMD5")
    case True
    have "take 64 (take 16 key @ replicate 49 0) = take 16 key @ replicate 48 (0 :: u8)"
      using assms(2) True by simp
    then have "take 12 (H AuthMD5 (map (\<lambda>b. b XOR 0x5C) (take 64 (take 16 key @ replicate 49 0)) @
      take 16 (H AuthMD5 (map (\<lambda>b. b XOR 0x36) (take 64 (take 16 key @ replicate 49 0)) @ ?zeroed)))) = mac H a key msg pos"
      using True assms(2) digests_length [OF assms(1), of AuthMD5] by (simp add: mac_def hmac_def Let_def)
    then show ?thesis using True w m' assms(2) by (simp add: AuthMD5_auth_out_msg_def Let_def del: map_append)
  next
    case False
    have n: "get_key_length a \<le> get_block_size a" using auth_numbers [of a] by simp
    have "auth_auth_out_msg H a key msg pos = AuthSHABase_auth_out_msg H a key msg pos"
      using False by (cases a) simp_all
    moreover have "take ?n (H a (xor_key (get_key_length a) key (replicate (get_block_size a) 0x5C) @
      take (auth_get_hash_len a) (H a (xor_key (get_key_length a) key (replicate (get_block_size a) 0x36) @ ?zeroed)))) =
      mac H a key msg pos"
      using assms(2) n by (simp add: mac_def hmac_def Let_def xor_key_replicate digests_length [OF assms(1)] min.absorb2)
    ultimately show ?thesis using w m' assms(2) by (simp add: AuthSHABase_auth_out_msg_def Let_def)
  qed
  then show ?thesis using m by blast
qed

lemma check_digest_mac:
  assumes "out_msg msg = Some (msg', SNMPv3_USM_OK)" and "write_at pos computed msg = Some msg'"
    and "length computed = n" and "read_at pos n msg = Some received"
  shows "check_digest out_msg msg pos n =
    Some (msg, if received = computed then SNMPv3_USM_OK else SNMPv3_USM_AUTHENTICATION_FAILURE)"
proof -
  have r: "read_at pos n msg' = Some computed" using read_write_at [OF assms(2)] assms(3) by simp
  have l: "length received = n" using assms(4) by (rule length_read_at)
  have w: "write_at pos received msg' = Some msg"
    using write_at_twice [OF assms(2), of received] write_read_at [OF assms(4)] l assms(3) by simp
  have s: "same_digest n 0 computed received \<longleftrightarrow> computed = received"
    using same_digest_iff [of 0 n computed received] l assms(3) by simp
  show ?thesis
  proof (cases "computed = received")
    case True
    then have "msg' = msg" using assms(2) write_read_at [OF assms(4)] by simp
    then show ?thesis using assms(1, 4) r s True by (simp add: check_digest_def)
  next
    case False
    then show ?thesis using assms(1, 4) r s w by (simp add: check_digest_def)
  qed
qed

text \<open>A message is accepted exactly when the field holds the HMAC, and is left as it was received.\<close>

lemma auth_inc_msg_mac:
  assumes "digests H" and "get_key_length a \<le> length key" and "read_at pos (auth_get_auth_params_len a) msg = Some received"
  shows "auth_auth_inc_msg H a key msg pos n = Some (msg,
    if n = auth_get_auth_params_len a \<and> received = mac H a key msg pos then SNMPv3_USM_OK
    else SNMPv3_USM_AUTHENTICATION_FAILURE)"
proof (cases "n = auth_get_auth_params_len a")
  case False
  then show ?thesis
    by (cases a) (simp_all add: AuthMD5_auth_inc_msg_def AuthSHABase_auth_inc_msg_def)
next
  case True
  have "pos + auth_get_auth_params_len a \<le> length msg" using assms(3) by (simp add: read_at_def split: if_splits)
  then obtain msg' where m: "auth_auth_out_msg H a key msg pos = Some (msg', SNMPv3_USM_OK)"
    "write_at pos (mac H a key msg pos) msg = Some msg'" using auth_out_msg_mac [OF assms(1, 2)] by blast
  have "auth_auth_inc_msg H a key msg pos n =
    check_digest (\<lambda>msg. auth_auth_out_msg H a key msg pos) msg pos (auth_get_auth_params_len a)"
    using True by (cases a) (simp_all add: AuthMD5_auth_inc_msg_def AuthSHABase_auth_inc_msg_def)
  then show ?thesis
    using check_digest_mac [of "\<lambda>msg. auth_auth_out_msg H a key msg pos", OF m length_mac [OF assms(1), of a key msg pos] assms(3)] True by simp
qed

lemma auth_inc_out_msg:
  assumes "digests H" and "get_key_length a \<le> length key" and "auth_auth_out_msg H a key msg pos = Some (msg', SNMPv3_USM_OK)"
    and "pos + auth_get_auth_params_len a \<le> length msg"
  shows "auth_auth_inc_msg H a key msg' pos (auth_get_auth_params_len a) = Some (msg', SNMPv3_USM_OK)"
proof -
  have w: "write_at pos (mac H a key msg pos) msg = Some msg'"
    using auth_out_msg_mac [OF assms(1, 2, 4)] assms(3) by auto
  then have "mac H a key msg' pos = mac H a key msg pos"
    using length_mac [OF assms(1)] by (rule mac_write_at)
  moreover have "read_at pos (auth_get_auth_params_len a) msg' = Some (mac H a key msg pos)"
    using read_write_at [OF w] length_mac [OF assms(1), of a key msg pos] by simp
  ultimately show ?thesis using auth_inc_msg_mac [OF assms(1, 2)] by simp
qed

lemma password_to_key_localised:
  assumes "digests H" and "password \<noteq> []" and "length engine_id \<le> 33"
  shows "auth_password_to_key H a password engine_id = Some (localised_key (H a) password engine_id)"
proof (cases "a = AuthMD5")
  case True
  then show ?thesis using assms digests_length [OF assms(1), of AuthMD5]
    by (simp add: AuthMD5_password_to_key_def localised_key_def stretch_megabyte Let_def)
next
  case False
  then have "auth_password_to_key H a password engine_id = AuthSHABase_password_to_key H a password engine_id"
    by (cases a) simp_all
  then show ?thesis using assms digests_length [OF assms(1), of a] auth_numbers(1) [of a]
    by (simp add: AuthSHABase_password_to_key_def localised_key_def stretch_megabyte Let_def)
qed

lemma length_localised_key: "digests H \<Longrightarrow> length (localised_key (H a) password engine_id) = auth_get_hash_len a"
  by (simp add: localised_key_def Let_def digests_length)

end
