(* ===== verification/Cipher_Modes.thy ===== *)
theory Cipher_Modes
  imports Snmp_Asn1
begin

section \<open>The block cipher modes of libtomcrypt\<close>

text \<open>
  \<^verbatim>\<open>src/libtomcrypt/src/modes/cfb\<close> and \<^verbatim>\<open>src/libtomcrypt/src/modes/cbc\<close>, over a \<open>cipher_descriptor\<close>: a record with the
  block length and the functions \<open>setup\<close> (\<open>key_setup\<close>), \<open>ecb_encrypt\<close> and \<open>ecb_decrypt\<close>, whose results are an error code or a
  scheduled key or a block.  A descriptor without the accelerated functions is the case that is modelled.
  \<open>IV\<close> holds the \<open>blocklen\<close> octets in use, and \<open>pad\<close> the \<open>padlen\<close> octets that have been written since \<open>padlen\<close> was
  last reset.
\<close>

definition CRYPT_INVALID_ARG :: int where "CRYPT_INVALID_ARG = 16"
definition MAXBLOCKSIZE :: nat where "MAXBLOCKSIZE = 128"

record 'k cipher =
  block_length :: nat
  key_setup :: "u8 list \<Rightarrow> nat \<Rightarrow> int + 'k"
  ecb_encrypt :: "'k \<Rightarrow> u8 list \<Rightarrow> int + u8 list"
  ecb_decrypt :: "'k \<Rightarrow> u8 list \<Rightarrow> int + u8 list"

record 'k symmetric_CFB =
  cfb_cipher :: "'k cipher"
  cfb_blocklen :: nat
  cfb_IV :: "u8 list"
  cfb_pad :: "u8 list"
  cfb_key :: 'k

record 'k symmetric_CBC =
  cbc_cipher :: "'k cipher"
  cbc_blocklen :: nat
  cbc_IV :: "u8 list"
  cbc_key :: 'k

subsection \<open>Cipher feedback\<close>

definition cfb_start :: "'k cipher \<Rightarrow> u8 list \<Rightarrow> u8 list \<Rightarrow> nat \<Rightarrow> (int + 'k symmetric_CFB) option" where
  "cfb_start cipher IV key num_rounds = (
     if length IV < block_length cipher \<or> MAXBLOCKSIZE < block_length cipher then None
     else on_ok (Some (key_setup cipher key num_rounds)) (\<lambda>k.
          on_ok (Some (ecb_encrypt cipher k (take (block_length cipher) IV))) (\<lambda>iv.
          Some (Inr \<lparr>cfb_cipher = cipher, cfb_blocklen = block_length cipher, cfb_IV = iv, cfb_pad = [], cfb_key = k\<rparr>))))"

text \<open>One octet: a full pad is encrypted into the IV first.\<close>

definition cfb_refill :: "'k symmetric_CFB \<Rightarrow> (int + 'k symmetric_CFB) option" where
  "cfb_refill s = (
     if length (cfb_pad s) = cfb_blocklen s
     then on_ok (Some (ecb_encrypt (cfb_cipher s) (cfb_key s) (cfb_pad s))) (\<lambda>iv.
          Some (Inr (s\<lparr>cfb_IV := iv, cfb_pad := []\<rparr>)))
     else Some (Inr s))"

primrec cfb_encrypt_loop :: "u8 list \<Rightarrow> 'k symmetric_CFB \<Rightarrow> (int + u8 list \<times> 'k symmetric_CFB) option" where
  "cfb_encrypt_loop [] s = Some (Inr ([], s))"
| "cfb_encrypt_loop (p # pt) s = on_ok (cfb_refill s) (\<lambda>s.
     if length (cfb_IV s) \<le> length (cfb_pad s) then None
     else let c = p XOR (cfb_IV s ! length (cfb_pad s)) in
       on_ok (cfb_encrypt_loop pt (s\<lparr>cfb_pad := cfb_pad s @ [c]\<rparr>)) (\<lambda>(ct, s). Some (Inr (c # ct, s))))"

primrec cfb_decrypt_loop :: "u8 list \<Rightarrow> 'k symmetric_CFB \<Rightarrow> (int + u8 list \<times> 'k symmetric_CFB) option" where
  "cfb_decrypt_loop [] s = Some (Inr ([], s))"
| "cfb_decrypt_loop (c # ct) s = on_ok (cfb_refill s) (\<lambda>s.
     if length (cfb_IV s) \<le> length (cfb_pad s) then None
     else let p = c XOR (cfb_IV s ! length (cfb_pad s)) in
       on_ok (cfb_decrypt_loop ct (s\<lparr>cfb_pad := cfb_pad s @ [c]\<rparr>)) (\<lambda>(pt, s). Some (Inr (p # pt, s))))"

definition cfb_encrypt :: "u8 list \<Rightarrow> 'k symmetric_CFB \<Rightarrow> (int + u8 list \<times> 'k symmetric_CFB) option" where
  "cfb_encrypt pt s = (
     if MAXBLOCKSIZE < cfb_blocklen s \<or> MAXBLOCKSIZE < length (cfb_pad s) then Some (Inl CRYPT_INVALID_ARG)
     else cfb_encrypt_loop pt s)"

definition cfb_decrypt :: "u8 list \<Rightarrow> 'k symmetric_CFB \<Rightarrow> (int + u8 list \<times> 'k symmetric_CFB) option" where
  "cfb_decrypt ct s = (
     if MAXBLOCKSIZE < cfb_blocklen s \<or> MAXBLOCKSIZE < length (cfb_pad s) then Some (Inl CRYPT_INVALID_ARG)
     else cfb_decrypt_loop ct s)"

text \<open>Decryption undoes encryption whatever the block cipher computes: only \<open>ecb_encrypt\<close> is used.\<close>

lemma cfb_decrypt_encrypt:
  assumes "cfb_encrypt pt s = Some (Inr (ct, s'))"
  shows "cfb_decrypt ct s = Some (Inr (pt, s'))"
proof -
  have "cfb_encrypt_loop pt s = Some (Inr (ct, s')) \<Longrightarrow> cfb_decrypt_loop ct s = Some (Inr (pt, s'))"
  proof (induction pt arbitrary: s ct)
    case (Cons p pt)
    obtain s1 where s1: "cfb_refill s = Some (Inr s1)" "\<not> length (cfb_IV s1) \<le> length (cfb_pad s1)"
      using Cons.prems by (auto elim!: on_ok_InrE split: if_splits)
    let ?c = "p XOR (cfb_IV s1 ! length (cfb_pad s1))"
    obtain ct' where c: "cfb_encrypt_loop pt (s1\<lparr>cfb_pad := cfb_pad s1 @ [?c]\<rparr>) = Some (Inr (ct', s'))" "ct = ?c # ct'"
      using Cons.prems s1 by (auto simp: Let_def elim!: on_ok_InrE)
    show ?case using Cons.IH [OF c(1)] s1 c(2) by (simp add: Let_def xor.assoc)
  qed auto
  then show ?thesis using assms by (auto simp: cfb_encrypt_def cfb_decrypt_def split: if_splits)
qed

lemma length_cfb_encrypt: "cfb_encrypt pt s = Some (Inr (ct, s')) \<Longrightarrow> length ct = length pt"
proof -
  have "cfb_encrypt_loop pt s = Some (Inr (ct, s')) \<Longrightarrow> length ct = length pt"
  proof (induction pt arbitrary: s ct)
    case (Cons p pt)
    then show ?case by (auto simp: Let_def split: if_splits prod.splits elim!: on_ok_InrE)
  qed auto
  then show "cfb_encrypt pt s = Some (Inr (ct, s')) \<Longrightarrow> length ct = length pt"
    by (auto simp: cfb_encrypt_def split: if_splits)
qed

subsection \<open>Cipher block chaining\<close>

definition cbc_start :: "'k cipher \<Rightarrow> u8 list \<Rightarrow> u8 list \<Rightarrow> nat \<Rightarrow> (int + 'k symmetric_CBC) option" where
  "cbc_start cipher IV key num_rounds =
     on_ok (Some (key_setup cipher key num_rounds)) (\<lambda>k.
     if length IV < block_length cipher \<or> MAXBLOCKSIZE < block_length cipher then None
     else Some (Inr \<lparr>cbc_cipher = cipher, cbc_blocklen = block_length cipher, cbc_IV = take (block_length cipher) IV,
                   cbc_key = k\<rparr>))"

definition xor_bytes :: "u8 list \<Rightarrow> u8 list \<Rightarrow> u8 list" where
  "xor_bytes xs ys = map2 (XOR) xs ys"

text \<open>The two loops, on \<open>n\<close> blocks.\<close>

primrec cbc_encrypt_loop :: "nat \<Rightarrow> u8 list \<Rightarrow> 'k symmetric_CBC \<Rightarrow> (int + u8 list \<times> 'k symmetric_CBC) option" where
  "cbc_encrypt_loop 0 pt s = Some (Inr ([], s))"
| "cbc_encrypt_loop (Suc n) pt s = on_ok
     (Some (ecb_encrypt (cbc_cipher s) (cbc_key s) (xor_bytes (cbc_IV s) (take (cbc_blocklen s) pt)))) (\<lambda>c.
     on_ok (cbc_encrypt_loop n (drop (cbc_blocklen s) pt) (s\<lparr>cbc_IV := c\<rparr>)) (\<lambda>(ct, s). Some (Inr (c @ ct, s))))"

primrec cbc_decrypt_loop :: "nat \<Rightarrow> u8 list \<Rightarrow> 'k symmetric_CBC \<Rightarrow> (int + u8 list \<times> 'k symmetric_CBC) option" where
  "cbc_decrypt_loop 0 ct s = Some (Inr ([], s))"
| "cbc_decrypt_loop (Suc n) ct s = (let c = take (cbc_blocklen s) ct in on_ok
     (Some (ecb_decrypt (cbc_cipher s) (cbc_key s) c)) (\<lambda>tmp. let p = xor_bytes tmp (cbc_IV s) in
     on_ok (cbc_decrypt_loop n (drop (cbc_blocklen s) ct) (s\<lparr>cbc_IV := c\<rparr>)) (\<lambda>(pt, s). Some (Inr (p @ pt, s)))))"

definition cbc_encrypt :: "u8 list \<Rightarrow> 'k symmetric_CBC \<Rightarrow> (int + u8 list \<times> 'k symmetric_CBC) option" where
  "cbc_encrypt pt s = (
     if cbc_blocklen s < 1 \<or> MAXBLOCKSIZE < cbc_blocklen s then Some (Inl CRYPT_INVALID_ARG)
     else if length pt mod cbc_blocklen s \<noteq> 0 then Some (Inl CRYPT_INVALID_ARG)
     else cbc_encrypt_loop (length pt div cbc_blocklen s) pt s)"

definition cbc_decrypt :: "u8 list \<Rightarrow> 'k symmetric_CBC \<Rightarrow> (int + u8 list \<times> 'k symmetric_CBC) option" where
  "cbc_decrypt ct s = (
     if cbc_blocklen s < 1 \<or> MAXBLOCKSIZE < cbc_blocklen s then Some (Inl CRYPT_INVALID_ARG)
     else if length ct mod cbc_blocklen s \<noteq> 0 then Some (Inl CRYPT_INVALID_ARG)
     else cbc_decrypt_loop (length ct div cbc_blocklen s) ct s)"

text \<open>What a cipher promises for one scheduled key: a block is encrypted into a block, and decrypted back.\<close>

definition cipher_inverse :: "'k cipher \<Rightarrow> 'k \<Rightarrow> bool" where
  "cipher_inverse c k \<longleftrightarrow> (\<forall>b. length b = block_length c \<longrightarrow>
     (\<exists>e. ecb_encrypt c k b = Inr e \<and> length e = block_length c \<and> ecb_decrypt c k e = Inr b))"

text \<open>A state between two blocks.\<close>

definition cbc_ok :: "'k symmetric_CBC \<Rightarrow> bool" where
  "cbc_ok s \<longleftrightarrow> length (cbc_IV s) = cbc_blocklen s \<and> cbc_blocklen s = block_length (cbc_cipher s) \<and>
     cipher_inverse (cbc_cipher s) (cbc_key s) \<and> 0 < cbc_blocklen s \<and> cbc_blocklen s \<le> MAXBLOCKSIZE"

lemma length_xor_bytes [simp]: "length (xor_bytes xs ys) = min (length xs) (length ys)"
  by (simp add: xor_bytes_def)

lemma xor_bytes_twice: "length xs = length ys \<Longrightarrow> xor_bytes (xor_bytes xs ys) xs = ys"
  by (rule nth_equalityI) (simp_all add: xor_bytes_def xor.commute xor.left_commute)

lemma cbc_loops:
  assumes "cbc_ok s" and "length pt = n * cbc_blocklen s"
  shows "\<exists>ct s'. cbc_encrypt_loop n pt s = Some (Inr (ct, s')) \<and> cbc_decrypt_loop n ct s = Some (Inr (pt, s')) \<and>
    cbc_ok s' \<and> cbc_blocklen s' = cbc_blocklen s \<and> length ct = length pt"
  using assms
proof (induction n arbitrary: pt s)
  case (Suc n)
  let ?b = "cbc_blocklen s"
  have l: "length (xor_bytes (cbc_IV s) (take ?b pt)) = block_length (cbc_cipher s)"
    using Suc.prems by (simp add: cbc_ok_def)
  obtain c where c: "ecb_encrypt (cbc_cipher s) (cbc_key s) (xor_bytes (cbc_IV s) (take ?b pt)) = Inr c"
    "length c = ?b" "ecb_decrypt (cbc_cipher s) (cbc_key s) c = Inr (xor_bytes (cbc_IV s) (take ?b pt))"
    using Suc.prems(1) l unfolding cbc_ok_def cipher_inverse_def by metis
  have s': "cbc_ok (s\<lparr>cbc_IV := c\<rparr>)" "length (drop ?b pt) = n * cbc_blocklen (s\<lparr>cbc_IV := c\<rparr>)"
    using Suc.prems c(2) by (simp_all add: cbc_ok_def)
  obtain ct s'' where i: "cbc_encrypt_loop n (drop ?b pt) (s\<lparr>cbc_IV := c\<rparr>) = Some (Inr (ct, s''))"
    "cbc_decrypt_loop n ct (s\<lparr>cbc_IV := c\<rparr>) = Some (Inr (drop ?b pt, s''))" "cbc_ok s''" "cbc_blocklen s'' = ?b"
    "length ct = length (drop ?b pt)" using Suc.IH [OF s'] by auto
  have "xor_bytes (xor_bytes (cbc_IV s) (take ?b pt)) (cbc_IV s) = take ?b pt"
    using Suc.prems by (intro xor_bytes_twice) (simp add: cbc_ok_def)
  then show ?case using c i Suc.prems(2) by (simp add: Let_def)
qed auto

lemma cbc_decrypt_encrypt:
  assumes "cbc_ok s" and "cbc_blocklen s dvd length pt"
  shows "\<exists>ct s'. cbc_encrypt pt s = Some (Inr (ct, s')) \<and> cbc_decrypt ct s = Some (Inr (pt, s')) \<and>
    cbc_ok s' \<and> cbc_blocklen s' = cbc_blocklen s \<and> length ct = length pt"
proof -
  obtain n where n: "length pt = n * cbc_blocklen s" using assms(2) by (metis dvdE mult.commute)
  obtain ct s' where c: "cbc_encrypt_loop n pt s = Some (Inr (ct, s'))" "cbc_decrypt_loop n ct s = Some (Inr (pt, s'))"
    "cbc_ok s'" "cbc_blocklen s' = cbc_blocklen s" "length ct = length pt" using cbc_loops [OF assms(1) n] by blast
  have "0 < cbc_blocklen s" "cbc_blocklen s \<le> MAXBLOCKSIZE" using assms(1) by (simp_all add: cbc_ok_def)
  then have "cbc_encrypt pt s = Some (Inr (ct, s'))" "cbc_decrypt ct s = Some (Inr (pt, s'))"
    using c n by (simp_all add: cbc_encrypt_def cbc_decrypt_def)
  then show ?thesis using c(3-5) by blast
qed

end
