(* ===== verification/Auth_Priv.thy ===== *)
theory Auth_Priv
  imports Auth_Hmac Cipher_Modes
begin

section \<open>Authentication and privacy protocols\<close>

text \<open>
  The classes \<open>AuthPriv\<close>, \<open>PrivDES\<close>, \<open>PrivAES\<close>, \<open>PrivAESW3DESKeyExt\<close> and \<open>Priv3DES_EDE\<close> of
  \<^verbatim>\<open>src/snmp++/src/auth_priv.cpp\<close>, in the build with libtomcrypt (\<open>PrivIDEA\<close> is left out).  The descriptors of the
  block ciphers and the digests are parameters.  The first \<open>key_len\<close> octets of a key buffer are a list; results
  are \<open>Inl\<close> of an error code or \<open>Inr\<close> of what the out parameters receive, and an access outside a buffer, or the
  use of a cipher context whose initialisation failed, is \<open>None\<close>.
\<close>

record 'k ciphers =
  rijndael_desc :: "'k cipher"
  des_desc :: "'k cipher"
  des3_desc :: "'k cipher"

type_synonym 'a usm_result = "(int + 'a) option"

subsection \<open>The classes of privacy protocols\<close>

text \<open>The members of \<open>PrivAES\<close> are \<open>aes_type\<close>, \<open>key_bytes\<close> and \<open>rounds\<close>; its subclass adds \<open>own_aes_type\<close>.\<close>

datatype priv_class = PrivDES | PrivAES int nat nat | PrivAESW3DESKeyExt int int nat nat | Priv3DES_EDE

definition aes_members :: "int \<Rightarrow> int \<times> nat \<times> nat" where
  "aes_members aes_type = (
     if aes_type = SNMP_PRIVPROTOCOL_AES128 then (aes_type, 16, 10)
     else if aes_type = SNMP_PRIVPROTOCOL_AES192 then (aes_type, 24, 12)
     else if aes_type = SNMP_PRIVPROTOCOL_AES256 then (aes_type, 32, 14)
     else (- 1, 0, 0))"

definition new_PrivAES :: "int \<Rightarrow> priv_class" where
  "new_PrivAES aes_type = (case aes_members aes_type of (t, key_bytes, rounds) \<Rightarrow> PrivAES t key_bytes rounds)"

definition map_aes_type :: "int \<Rightarrow> int" where
  "map_aes_type t = (
     if t = SNMP_PRIVPROTOCOL_AES128W3DESKEYEXT then SNMP_PRIVPROTOCOL_AES128
     else if t = SNMP_PRIVPROTOCOL_AES192W3DESKEYEXT then SNMP_PRIVPROTOCOL_AES192
     else if t = SNMP_PRIVPROTOCOL_AES256W3DESKEYEXT then SNMP_PRIVPROTOCOL_AES256
     else - 1)"

definition new_PrivAESW3DESKeyExt :: "int \<Rightarrow> priv_class" where
  "new_PrivAESW3DESKeyExt aes_type = (case aes_members (map_aes_type aes_type) of (t, key_bytes, rounds) \<Rightarrow>
     PrivAESW3DESKeyExt (if t \<noteq> - 1 then aes_type else - 1) t key_bytes rounds)"

fun priv_get_id :: "priv_class \<Rightarrow> int" where
  "priv_get_id PrivDES = SNMP_PRIVPROTOCOL_DES"
| "priv_get_id (PrivAES t _ _) = t"
| "priv_get_id (PrivAESW3DESKeyExt own _ _ _) = own"
| "priv_get_id Priv3DES_EDE = SNMP_PRIVPROTOCOL_3DESEDE"

fun priv_get_id_string :: "priv_class \<Rightarrow> string" where
  "priv_get_id_string PrivDES = ''DES''"
| "priv_get_id_string (PrivAES t _ _) = (
     if t = SNMP_PRIVPROTOCOL_AES128 then ''AES128''
     else if t = SNMP_PRIVPROTOCOL_AES192 then ''AES192''
     else if t = SNMP_PRIVPROTOCOL_AES256 then ''AES256''
     else ''error'')"
| "priv_get_id_string (PrivAESW3DESKeyExt own _ _ _) = (
     if own = SNMP_PRIVPROTOCOL_AES128W3DESKEYEXT then ''AES128W3DESKeyExt''
     else if own = SNMP_PRIVPROTOCOL_AES192W3DESKEYEXT then ''AES192W3DESKeyExt''
     else if own = SNMP_PRIVPROTOCOL_AES256W3DESKEYEXT then ''AES256W3DESKeyExt''
     else ''error'')"
| "priv_get_id_string Priv3DES_EDE = ''3DESEDE''"

fun priv_get_min_key_len :: "priv_class \<Rightarrow> nat" where
  "priv_get_min_key_len PrivDES = 16"
| "priv_get_min_key_len (PrivAES _ key_bytes _) = key_bytes"
| "priv_get_min_key_len (PrivAESW3DESKeyExt _ _ key_bytes _) = key_bytes"
| "priv_get_min_key_len Priv3DES_EDE = 32"

definition fix_key_len :: "priv_class \<Rightarrow> nat \<Rightarrow> nat" where
  "fix_key_len p key_len = (if priv_get_min_key_len p \<le> key_len then priv_get_min_key_len p else 0)"

subsection \<open>Extension of short keys\<close>

text \<open>The loop may not end when the digest is empty.\<close>

partial_function (option) PrivAES_extend_loop ::
  "(u8 list \<Rightarrow> u8 list) \<Rightarrow> nat \<Rightarrow> nat \<Rightarrow> nat \<Rightarrow> u8 list \<Rightarrow> u8 list option" where
  "PrivAES_extend_loop hash hash_len key_bytes max_key_len key = (
     if length key < key_bytes
     then let copy_bytes = min (key_bytes - length key) hash_len;
              copy_bytes = (if length key + copy_bytes > max_key_len then max_key_len - length key else copy_bytes)
       in PrivAES_extend_loop hash hash_len key_bytes max_key_len (key @ take copy_bytes (hash key))
     else Some key)"

definition PrivAES_extend_short_key ::
  "hashes \<Rightarrow> nat \<Rightarrow> u8 list \<Rightarrow> nat \<Rightarrow> auth_class \<Rightarrow> u8 list usm_result" where
  "PrivAES_extend_short_key H key_bytes key max_key_len auth = (
     if max_key_len < key_bytes then Some (Inl SNMPv3_USM_ERROR)
     else Option.bind (PrivAES_extend_loop (auth_hash H auth) (auth_get_hash_len auth) key_bytes max_key_len key)
       (\<lambda>key. Some (Inr key)))"

text \<open>\<open>p2k_buf\<close> has \<open>p2k_output_len\<close> octets; the octets just appended are the next password.\<close>

partial_function (option) des3_extend_loop ::
  "(u8 list \<Rightarrow> u8 list option) \<Rightarrow> nat \<Rightarrow> nat \<Rightarrow> nat \<Rightarrow> u8 list \<Rightarrow> u8 list \<Rightarrow> u8 list option" where
  "des3_extend_loop p2k p2k_output_len min_key_len max_key_len p2k_input key = (
     if length key < min_key_len
     then Option.bind (p2k p2k_input) (\<lambda>p2k_buf.
       if length p2k_buf > p2k_output_len then None
       else let copy_bytes = min (min_key_len - length key) (length p2k_buf);
                copy_bytes = (if length key + copy_bytes > max_key_len then max_key_len - length key else copy_bytes);
                added = take copy_bytes p2k_buf
         in des3_extend_loop p2k p2k_output_len min_key_len max_key_len added (key @ added))
     else Some key)"

definition des3_extend_short_key ::
  "hashes \<Rightarrow> u8 list \<Rightarrow> u8 list \<Rightarrow> nat \<Rightarrow> auth_class \<Rightarrow> nat \<Rightarrow> u8 list usm_result" where
  "des3_extend_short_key H engine_id key max_key_len auth min_key_len = (
     if max_key_len < min_key_len then Some (Inl SNMPv3_USM_ERROR)
     else Option.bind (des3_extend_loop (\<lambda>password. auth_password_to_key H auth password engine_id) (length key)
         min_key_len max_key_len key key)
       (\<lambda>key. Some (Inr key)))"

fun extend_short_key :: "hashes \<Rightarrow> priv_class \<Rightarrow> u8 list \<Rightarrow> u8 list \<Rightarrow> nat \<Rightarrow> auth_class \<Rightarrow> u8 list usm_result" where
  "extend_short_key H PrivDES engine_id key max_key_len auth = Some (Inl SNMPv3_USM_ERROR)"
| "extend_short_key H (PrivAES _ key_bytes _) engine_id key max_key_len auth =
     PrivAES_extend_short_key H key_bytes key max_key_len auth"
| "extend_short_key H (PrivAESW3DESKeyExt _ _ key_bytes _) engine_id key max_key_len auth =
     des3_extend_short_key H engine_id key max_key_len auth key_bytes"
| "extend_short_key H Priv3DES_EDE engine_id key max_key_len auth =
     des3_extend_short_key H engine_id key max_key_len auth 32"

subsection \<open>Encryption\<close>

text \<open>The low 32 bits of a number, most significant octet first.\<close>

definition be32 :: "u64 \<Rightarrow> u8 list" where
  "be32 w = map (\<lambda>j. ucast (drop_bit (8 * j) w)) [3, 2, 1, 0]"

text \<open>Both DES classes: the salt goes into the parameters after the boot counter, and their sum with \<open>key\<close> from
  octet \<open>n\<close> on is the initialisation vector; the last block is filled with zeros.  With fewer than 8 octets the
  unsigned \<open>buffer_len - 8\<close> wraps around and the loop runs past the buffer.\<close>

primrec des_blocks :: "nat \<Rightarrow> u8 list \<Rightarrow> 'k symmetric_CBC \<Rightarrow> (int + u8 list \<times> 'k symmetric_CBC) option" where
  "des_blocks 0 buffer s = Some (Inr ([], s))"
| "des_blocks (Suc n) buffer s = on_ok (cbc_encrypt (take 8 buffer) s) (\<lambda>(c, s).
     on_ok (des_blocks n (drop 8 buffer) s) (\<lambda>(cs, s). Some (Inr (c @ cs, s))))"

primrec des_unblocks :: "nat \<Rightarrow> u8 list \<Rightarrow> 'k symmetric_CBC \<Rightarrow> (int + u8 list \<times> 'k symmetric_CBC) option" where
  "des_unblocks 0 buffer s = Some (Inr ([], s))"
| "des_unblocks (Suc n) buffer s = on_ok (cbc_decrypt (take 8 buffer) s) (\<lambda>(p, s).
     on_ok (des_unblocks n (drop 8 buffer) s) (\<lambda>(ps, s). Some (Inr (p @ ps, s))))"

text \<open>An error of libtomcrypt is \<open>SNMPv3_USM_ERROR\<close> in the \<open>DES_CBC\<close> macros.\<close>

definition des_check :: "(int + 'a) option \<Rightarrow> 'a usm_result" where
  "des_check r = (case r of None \<Rightarrow> None | Some (Inl _) \<Rightarrow> Some (Inl SNMPv3_USM_ERROR) | Some (Inr x) \<Rightarrow> Some (Inr x))"

definition des_cbc_encrypt ::
  "'k cipher \<Rightarrow> nat \<Rightarrow> nat \<Rightarrow> u8 list \<Rightarrow> u8 list \<Rightarrow> nat \<Rightarrow> u64 \<Rightarrow> u64 \<Rightarrow> (u8 list \<times> u8 list) usm_result" where
  "des_cbc_encrypt cipher key_bytes iv_pos key buffer room my_salt engine_boots = (
     if length key < iv_pos + 8 then None
     else let privacy_params = be32 engine_boots @ be32 my_salt;
              iv = xor_bytes (take 8 (drop iv_pos key)) privacy_params
       in on_ok (des_check (cbc_start cipher iv (take key_bytes key) 16)) (\<lambda>s.
          if length buffer < 8 then None
          else on_ok (des_check (des_blocks (length buffer div 8) buffer s)) (\<lambda>(out, s).
            let rest = drop (8 * (length buffer div 8)) buffer in
            on_ok (if rest = [] then Some (Inr ([], s))
                   else des_check (cbc_encrypt (rest @ replicate (8 - length rest) 0) s)) (\<lambda>(last, s).
            if length (out @ last) > room then None else Some (Inr (out @ last, privacy_params))))))"

definition des_cbc_decrypt ::
  "'k cipher \<Rightarrow> nat \<Rightarrow> nat \<Rightarrow> u8 list \<Rightarrow> u8 list \<Rightarrow> nat \<Rightarrow> u8 list \<Rightarrow> u8 list usm_result" where
  "des_cbc_decrypt cipher key_bytes iv_pos key buffer room privacy_params = (
     if length key < iv_pos + 8 then None
     else let iv = xor_bytes privacy_params (take 8 (drop iv_pos key))
       in on_ok (des_check (cbc_start cipher iv (take key_bytes key) 16)) (\<lambda>s.
          on_ok (des_check (des_unblocks (length buffer div 8) buffer s)) (\<lambda>(out, s).
          if length out > room then None else Some (Inr out))))"

definition PrivDES_encrypt ::
  "'k ciphers \<Rightarrow> u8 list \<Rightarrow> u8 list \<Rightarrow> nat \<Rightarrow> nat \<Rightarrow> u64 \<Rightarrow> u64 \<Rightarrow> (u8 list \<times> u8 list) usm_result" where
  "PrivDES_encrypt cs key buffer room privacy_params_len my_salt engine_boots = (
     if privacy_params_len < 8 then Some (Inl SNMPv3_USM_ENCRYPTION_ERROR)
     else des_cbc_encrypt (des_desc cs) 8 8 key buffer room my_salt engine_boots)"

definition PrivDES_decrypt :: "'k ciphers \<Rightarrow> u8 list \<Rightarrow> u8 list \<Rightarrow> nat \<Rightarrow> u8 list \<Rightarrow> u8 list usm_result" where
  "PrivDES_decrypt cs key buffer room privacy_params = (
     if length buffer mod 8 \<noteq> 0 \<or> length privacy_params \<noteq> 8 then Some (Inl SNMPv3_USM_DECRYPTION_ERROR)
     else des_cbc_decrypt (des_desc cs) 8 8 key buffer room privacy_params)"

definition Priv3DES_EDE_encrypt ::
  "'k ciphers \<Rightarrow> u8 list \<Rightarrow> u8 list \<Rightarrow> nat \<Rightarrow> nat \<Rightarrow> u64 \<Rightarrow> u64 \<Rightarrow> (u8 list \<times> u8 list) usm_result" where
  "Priv3DES_EDE_encrypt cs key buffer room privacy_params_len my_salt engine_boots = (
     if privacy_params_len < 8 then Some (Inl SNMPv3_USM_ENCRYPTION_ERROR)
     else if length key < 32 then Some (Inl SNMPv3_USM_ENCRYPTION_ERROR)
     else des_cbc_encrypt (des3_desc cs) 24 24 key buffer room my_salt engine_boots)"

definition Priv3DES_EDE_decrypt :: "'k ciphers \<Rightarrow> u8 list \<Rightarrow> u8 list \<Rightarrow> nat \<Rightarrow> u8 list \<Rightarrow> u8 list usm_result" where
  "Priv3DES_EDE_decrypt cs key buffer room privacy_params = (
     if length buffer mod 8 \<noteq> 0 \<or> length privacy_params \<noteq> 8 then Some (Inl SNMPv3_USM_DECRYPTION_ERROR)
     else if length key < 32 then Some (Inl SNMPv3_USM_DECRYPTION_ERROR)
     else des_cbc_decrypt (des3_desc cs) 24 24 key buffer room privacy_params)"

text \<open>AES in cipher feedback mode.  The results of \<open>cfb_start\<close> and \<open>cfb_encrypt\<close> are not looked at: after an error
  the context or the output is not initialised.\<close>

definition no_check :: "(int + 'a) option \<Rightarrow> 'a option" where
  "no_check r = (case r of Some (Inr x) \<Rightarrow> Some x | _ \<Rightarrow> None)"

definition PrivAES_encrypt ::
  "'k ciphers \<Rightarrow> nat \<Rightarrow> nat \<Rightarrow> u8 list \<Rightarrow> u8 list \<Rightarrow> nat \<Rightarrow> nat \<Rightarrow> u64 \<Rightarrow> u64 \<Rightarrow> u64 \<Rightarrow> (u8 list \<times> u8 list) usm_result" where
  "PrivAES_encrypt cs key_bytes rounds key buffer room privacy_params_len my_salt engine_boots engine_time = (
     if privacy_params_len < 8 then Some (Inl SNMPv3_USM_ENCRYPTION_ERROR)
     else let iv = be32 engine_boots @ be32 engine_time @ be32 (my_salt AND 0xFFFFFFFF) @
                be32 (drop_bit 32 my_salt AND 0xFFFFFFFF)
       in if length key < key_bytes \<or> room < length buffer then None
          else Option.bind (no_check (cfb_start (rijndael_desc cs) iv (take key_bytes key) rounds)) (\<lambda>s.
               Option.bind (no_check (cfb_encrypt buffer s)) (\<lambda>(out, s). Some (Inr (out, drop 8 iv)))))"

definition PrivAES_decrypt ::
  "'k ciphers \<Rightarrow> nat \<Rightarrow> nat \<Rightarrow> u8 list \<Rightarrow> u8 list \<Rightarrow> nat \<Rightarrow> u8 list \<Rightarrow> u64 \<Rightarrow> u64 \<Rightarrow> u8 list usm_result" where
  "PrivAES_decrypt cs key_bytes rounds key buffer room privacy_params engine_boots engine_time = (
     if length privacy_params \<noteq> 8 then Some (Inl SNMPv3_USM_DECRYPTION_ERROR)
     else let iv = be32 engine_boots @ be32 engine_time @ privacy_params
       in if length key < key_bytes \<or> room < length buffer then None
          else Option.bind (no_check (cfb_start (rijndael_desc cs) iv (take key_bytes key) rounds)) (\<lambda>s.
               Option.bind (no_check (cfb_decrypt buffer s)) (\<lambda>(out, s). Some (Inr out))))"

fun priv_encrypt ::
  "'k ciphers \<Rightarrow> priv_class \<Rightarrow> u8 list \<Rightarrow> u8 list \<Rightarrow> nat \<Rightarrow> nat \<Rightarrow> u64 \<Rightarrow> u64 \<Rightarrow> u64 \<Rightarrow> (u8 list \<times> u8 list) usm_result" where
  "priv_encrypt cs PrivDES key buffer room n my_salt boots time = PrivDES_encrypt cs key buffer room n my_salt boots"
| "priv_encrypt cs (PrivAES _ kb rounds) key buffer room n my_salt boots time =
     PrivAES_encrypt cs kb rounds key buffer room n my_salt boots time"
| "priv_encrypt cs (PrivAESW3DESKeyExt _ _ kb rounds) key buffer room n my_salt boots time =
     PrivAES_encrypt cs kb rounds key buffer room n my_salt boots time"
| "priv_encrypt cs Priv3DES_EDE key buffer room n my_salt boots time =
     Priv3DES_EDE_encrypt cs key buffer room n my_salt boots"

fun priv_decrypt ::
  "'k ciphers \<Rightarrow> priv_class \<Rightarrow> u8 list \<Rightarrow> u8 list \<Rightarrow> nat \<Rightarrow> u8 list \<Rightarrow> u64 \<Rightarrow> u64 \<Rightarrow> u8 list usm_result" where
  "priv_decrypt cs PrivDES key buffer room params boots time = PrivDES_decrypt cs key buffer room params"
| "priv_decrypt cs (PrivAES _ kb rounds) key buffer room params boots time =
     PrivAES_decrypt cs kb rounds key buffer room params boots time"
| "priv_decrypt cs (PrivAESW3DESKeyExt _ _ kb rounds) key buffer room params boots time =
     PrivAES_decrypt cs kb rounds key buffer room params boots time"
| "priv_decrypt cs Priv3DES_EDE key buffer room params boots time = Priv3DES_EDE_decrypt cs key buffer room params"

end
