(* ===== verification/Auth_Table.thy ===== *)
theory Auth_Table
  imports Auth_Priv
begin

section \<open>The table of protocols\<close>

text \<open>
  Class \<open>AuthPriv\<close>: two arrays that are indexed by the protocol numbers and grow on demand, and the salt that the
  privacy protocols share.  A null pointer is \<open>None\<close>; sizes are the lengths of the arrays.
\<close>

record auth_priv =
  auth :: "auth_class option list"
  priv :: "priv_class option list"
  salt :: u64

definition AuthPriv_create :: "u64 \<Rightarrow> auth_priv" where
  "AuthPriv_create random = \<lparr>auth = replicate 10 None, priv = replicate 10 None, salt = random\<rparr>"

text \<open>Storing a pointer under an index, in an array of \<open>id + 5\<close> entries when the old one is too small.\<close>

definition store_at :: "nat \<Rightarrow> 'a \<Rightarrow> 'a option list \<Rightarrow> 'a option list" where
  "store_at i x xs =
     (if length xs \<le> i then (xs @ replicate (i + 5 - length xs) None)[i := Some x] else xs[i := Some x])"

definition add_auth :: "auth_class option \<Rightarrow> auth_priv \<Rightarrow> auth_priv \<times> int" where
  "add_auth new_auth ap = (case new_auth of None \<Rightarrow> (ap, SNMP_CLASS_ERROR)
     | Some a \<Rightarrow> let id = auth_get_id a in
         if id < 0 then (ap, SNMP_CLASS_ERROR)
         else (ap\<lparr>auth := store_at (nat id) a (auth ap)\<rparr>, SNMP_CLASS_SUCCESS))"

definition add_priv :: "priv_class option \<Rightarrow> auth_priv \<Rightarrow> auth_priv \<times> int" where
  "add_priv new_priv ap = (case new_priv of None \<Rightarrow> (ap, SNMP_CLASS_ERROR)
     | Some p \<Rightarrow> let id = priv_get_id p in
         if id < 0 then (ap, SNMP_CLASS_ERROR)
         else (ap\<lparr>priv := store_at (nat id) p (priv ap)\<rparr>, SNMP_CLASS_SUCCESS))"

definition get_at :: "int \<Rightarrow> 'a option list \<Rightarrow> 'a option" where
  "get_at i xs = (if i \<ge> 0 \<and> i < int (length xs) then xs ! nat i else None)"

definition get_auth :: "int \<Rightarrow> auth_priv \<Rightarrow> auth_class option" where
  "get_auth auth_prot ap = get_at auth_prot (auth ap)"

definition get_priv :: "int \<Rightarrow> auth_priv \<Rightarrow> priv_class option" where
  "get_priv priv_prot ap = get_at priv_prot (priv ap)"

definition del_auth :: "int \<Rightarrow> auth_priv \<Rightarrow> auth_priv \<times> int" where
  "del_auth auth_id ap = (
     if auth_id < 0 \<or> auth_id \<ge> int (length (auth ap)) \<or> auth ap ! nat auth_id = None then (ap, SNMP_CLASS_ERROR)
     else (ap\<lparr>auth := (auth ap)[nat auth_id := None]\<rparr>, SNMP_CLASS_SUCCESS))"

definition del_priv :: "int \<Rightarrow> auth_priv \<Rightarrow> auth_priv \<times> int" where
  "del_priv priv_id ap = (
     if priv_id < 0 \<or> priv_id \<ge> int (length (priv ap)) \<or> priv ap ! nat priv_id = None then (ap, SNMP_CLASS_ERROR)
     else (ap\<lparr>priv := (priv ap)[nat priv_id := None]\<rparr>, SNMP_CLASS_SUCCESS))"

text \<open>The first index with an identifying string, or \<open>-1\<close>.\<close>

primrec id_from :: "('a \<Rightarrow> string) \<Rightarrow> string \<Rightarrow> int \<Rightarrow> 'a option list \<Rightarrow> int" where
  "id_from name string_id i [] = - 1"
| "id_from name string_id i (x # xs) =
     (if x \<noteq> None \<and> string_id = name (the x) then i else id_from name string_id (i + 1) xs)"

definition get_auth_id :: "string \<Rightarrow> auth_priv \<Rightarrow> int" where
  "get_auth_id string_id ap = id_from auth_get_id_string string_id 0 (auth ap)"

definition get_priv_id :: "string \<Rightarrow> auth_priv \<Rightarrow> int" where
  "get_priv_id string_id ap = id_from priv_get_id_string string_id 0 (priv ap)"

definition get_auth_params_len :: "int \<Rightarrow> auth_priv \<Rightarrow> nat" where
  "get_auth_params_len auth_prot ap =
     (case get_auth auth_prot ap of None \<Rightarrow> 0 | Some a \<Rightarrow> auth_get_auth_params_len a)"

definition get_priv_params_len :: "int \<Rightarrow> auth_priv \<Rightarrow> nat" where
  "get_priv_params_len priv_prot ap = (case get_priv priv_prot ap of None \<Rightarrow> 0 | Some p \<Rightarrow> 8)"

text \<open>Every module is added; the result is an error when one of them could not be.\<close>

definition add_all :: "('m option \<Rightarrow> auth_priv \<Rightarrow> auth_priv \<times> int) \<Rightarrow> 'm list \<Rightarrow> auth_priv \<times> int \<Rightarrow> auth_priv \<times> int" where
  "add_all add ms s = foldl (\<lambda>(ap, ret) m. case add (Some m) ap of (ap, rc) \<Rightarrow>
     (ap, if rc \<noteq> SNMP_CLASS_SUCCESS then SNMP_CLASS_ERROR else ret)) s ms"

definition add_default_modules :: "auth_priv \<Rightarrow> auth_priv \<times> int" where
  "add_default_modules ap =
     add_all add_priv [PrivDES, new_PrivAES SNMP_PRIVPROTOCOL_AES128, new_PrivAES SNMP_PRIVPROTOCOL_AES192,
       new_PrivAES SNMP_PRIVPROTOCOL_AES256, Priv3DES_EDE]
     (add_all add_auth [AuthSHA, AuthHMAC128SHA224, AuthHMAC192SHA256, AuthHMAC256SHA384, AuthHMAC384SHA512, AuthMD5]
       (ap, SNMP_CLASS_SUCCESS))"

subsection \<open>Calls of the protocols\<close>

definition password_to_key_auth :: "hashes \<Rightarrow> auth_priv \<Rightarrow> int \<Rightarrow> u8 list \<Rightarrow> u8 list \<Rightarrow> u8 list usm_result" where
  "password_to_key_auth H ap auth_prot password engine_id = (
     if auth_prot = SNMP_AUTHPROTOCOL_NONE then Some (Inr [])
     else if password = [] then Some (Inl SNMPv3_USM_ERROR)
     else case get_auth auth_prot ap of None \<Rightarrow> Some (Inl SNMPv3_USM_UNSUPPORTED_AUTHPROTOCOL)
       | Some a \<Rightarrow> Option.bind (auth_password_to_key H a password engine_id) (\<lambda>key. Some (Inr key)))"

definition password_to_key_priv ::
  "hashes \<Rightarrow> auth_priv \<Rightarrow> int \<Rightarrow> int \<Rightarrow> u8 list \<Rightarrow> u8 list \<Rightarrow> nat \<Rightarrow> u8 list usm_result" where
  "password_to_key_priv H ap auth_prot priv_prot password engine_id max_key_len = (
     if priv_prot = SNMP_PRIVPROTOCOL_NONE then Some (Inr [])
     else if password = [] then Some (Inl SNMPv3_USM_ERROR)
     else case get_priv priv_prot ap of None \<Rightarrow> Some (Inl SNMPv3_USM_UNSUPPORTED_PRIVPROTOCOL)
     | Some p \<Rightarrow> (case get_auth auth_prot ap of None \<Rightarrow> Some (Inl SNMPv3_USM_UNSUPPORTED_AUTHPROTOCOL)
       | Some a \<Rightarrow>
         if priv_get_min_key_len p > max_key_len then Some (Inl SNMPv3_USM_ERROR)
         else on_ok (password_to_key_auth H ap auth_prot password engine_id) (\<lambda>key.
              on_ok (if length key < priv_get_min_key_len p
                     then extend_short_key H p engine_id key max_key_len a else Some (Inr key)) (\<lambda>key.
              Some (Inr (take (fix_key_len p (length key)) key))))))"

definition encrypt_msg ::
  "'k ciphers \<Rightarrow> auth_priv \<Rightarrow> int \<Rightarrow> u8 list \<Rightarrow> u8 list \<Rightarrow> nat \<Rightarrow> nat \<Rightarrow> u64 \<Rightarrow> u64 \<Rightarrow>
   auth_priv \<times> (u8 list \<times> u8 list) usm_result" where
  "encrypt_msg cs ap priv_prot key buffer room privacy_params_len boots time = (
     case get_priv priv_prot ap of None \<Rightarrow> (ap, Some (Inl SNMPv3_USM_UNSUPPORTED_PRIVPROTOCOL))
     | Some p \<Rightarrow> (ap\<lparr>salt := salt ap + 1\<rparr>, priv_encrypt cs p key buffer room privacy_params_len (salt ap) boots time))"

definition decrypt_msg ::
  "'k ciphers \<Rightarrow> auth_priv \<Rightarrow> int \<Rightarrow> u8 list \<Rightarrow> u8 list \<Rightarrow> nat \<Rightarrow> u8 list \<Rightarrow> u64 \<Rightarrow> u64 \<Rightarrow> u8 list usm_result" where
  "decrypt_msg cs ap priv_prot key buffer room privacy_params boots time = (
     case get_priv priv_prot ap of None \<Rightarrow> Some (Inl SNMPv3_USM_UNSUPPORTED_PRIVPROTOCOL)
     | Some p \<Rightarrow> priv_decrypt cs p key buffer room privacy_params boots time)"

definition auth_out_msg ::
  "hashes \<Rightarrow> auth_priv \<Rightarrow> int \<Rightarrow> u8 list \<Rightarrow> u8 list \<Rightarrow> nat \<Rightarrow> (u8 list \<times> int) option" where
  "auth_out_msg H ap auth_prot key msg auth_par = (
     if auth_prot = SNMP_AUTHPROTOCOL_NONE then Some (msg, SNMPv3_USM_UNSUPPORTED_SECURITY_LEVEL)
     else case get_auth auth_prot ap of None \<Rightarrow> Some (msg, SNMPv3_USM_UNSUPPORTED_AUTHPROTOCOL)
       | Some a \<Rightarrow> auth_auth_out_msg H a key msg auth_par)"

definition auth_inc_msg ::
  "hashes \<Rightarrow> auth_priv \<Rightarrow> int \<Rightarrow> u8 list \<Rightarrow> u8 list \<Rightarrow> nat \<Rightarrow> nat \<Rightarrow> (u8 list \<times> int) option" where
  "auth_inc_msg H ap auth_prot key msg auth_par auth_par_len = (
     if auth_prot = SNMP_AUTHPROTOCOL_NONE then Some (msg, SNMPv3_USM_UNSUPPORTED_SECURITY_LEVEL)
     else case get_auth auth_prot ap of None \<Rightarrow> Some (msg, SNMPv3_USM_UNSUPPORTED_AUTHPROTOCOL)
       | Some a \<Rightarrow> auth_auth_inc_msg H a key msg auth_par auth_par_len)"

subsection \<open>The table\<close>

lemma get_store_at:
  "0 \<le> j \<Longrightarrow> get_at j (store_at i x xs) = (if j = int i then Some x else get_at j xs)"
  by (auto simp: get_at_def store_at_def nth_append nth_list_update nat_less_iff)

text \<open>A protocol is stored under its own number.\<close>

definition tables_ok :: "auth_priv \<Rightarrow> bool" where
  "tables_ok ap \<longleftrightarrow> (\<forall>i a. get_auth i ap = Some a \<longrightarrow> auth_get_id a = i) \<and>
     (\<forall>i p. get_priv i ap = Some p \<longrightarrow> priv_get_id p = i)"

lemma get_at_negative [simp]: "i < 0 \<Longrightarrow> get_at i xs = None"
  by (simp add: get_at_def)

lemma auth_get_id_pos: "0 \<le> auth_get_id a"
  by (cases a) (simp_all add: usm_protocols)

lemma add_auth_get:
  "get_auth i (fst (add_auth (Some a) ap)) = (if i = auth_get_id a then Some a else get_auth i ap)"
  "get_priv i (fst (add_auth (Some a) ap)) = get_priv i ap"
  "snd (add_auth (Some a) ap) = SNMP_CLASS_SUCCESS"
  "salt (fst (add_auth (Some a) ap)) = salt ap"
  using auth_get_id_pos [of a]
  by (cases "0 \<le> i"; simp add: add_auth_def get_auth_def get_priv_def Let_def get_store_at)+

lemma add_priv_get:
  assumes "0 \<le> priv_get_id p"
  shows "get_priv i (fst (add_priv (Some p) ap)) = (if i = priv_get_id p then Some p else get_priv i ap)"
    and "get_auth i (fst (add_priv (Some p) ap)) = get_auth i ap"
    and "snd (add_priv (Some p) ap) = SNMP_CLASS_SUCCESS"
    and "salt (fst (add_priv (Some p) ap)) = salt ap"
  using assms by (cases "0 \<le> i"; simp add: add_priv_def get_auth_def get_priv_def Let_def get_store_at)+

lemma tables_ok_create: "tables_ok (AuthPriv_create random)"
  by (auto simp: tables_ok_def AuthPriv_create_def get_auth_def get_priv_def get_at_def)

lemma tables_ok_add:
  assumes "tables_ok ap"
  shows "tables_ok (fst (add_auth (Some a) ap))" and "tables_ok (fst (add_priv (Some p) ap))"
proof -
  show "tables_ok (fst (add_auth (Some a) ap))" using assms by (auto simp: tables_ok_def add_auth_get)
  show "tables_ok (fst (add_priv (Some p) ap))"
  proof (cases "0 \<le> priv_get_id p")
    case True
    then show ?thesis using assms by (auto simp: tables_ok_def add_priv_get)
  next
    case False
    then show ?thesis using assms by (simp add: add_priv_def Let_def)
  qed
qed

lemma get_at_update: "get_at j (xs[i := None]) = (if j = int i then None else get_at j xs)"
  by (auto simp: get_at_def nth_list_update)

lemma tables_ok_del:
  assumes "tables_ok ap"
  shows "tables_ok (fst (del_auth i ap))" and "tables_ok (fst (del_priv i ap))"
  using assms by (auto simp: tables_ok_def del_auth_def del_priv_def get_auth_def get_priv_def get_at_update)

text \<open>Protocol number 1 stands for none and is never registered by the default modules.\<close>

lemma priv_ids:
  "priv_get_id (new_PrivAES SNMP_PRIVPROTOCOL_AES128) = SNMP_PRIVPROTOCOL_AES128"
  "priv_get_id (new_PrivAES SNMP_PRIVPROTOCOL_AES192) = SNMP_PRIVPROTOCOL_AES192"
  "priv_get_id (new_PrivAES SNMP_PRIVPROTOCOL_AES256) = SNMP_PRIVPROTOCOL_AES256"
  by (simp_all add: new_PrivAES_def aes_members_def usm_protocols)

lemma default_modules:
  assumes "ap = fst (add_default_modules (AuthPriv_create random))"
  shows "get_auth i ap = (if i = 2 then Some AuthMD5 else if i = 3 then Some AuthSHA
      else if i = 4 then Some AuthHMAC128SHA224 else if i = 5 then Some AuthHMAC192SHA256
      else if i = 6 then Some AuthHMAC256SHA384 else if i = 7 then Some AuthHMAC384SHA512 else None)"
    and "get_priv i ap = (if i = 2 then Some PrivDES else if i = 3 then Some Priv3DES_EDE
      else if i = 4 then Some (PrivAES 4 16 10) else if i = 20 then Some (PrivAES 20 24 12)
      else if i = 21 then Some (PrivAES 21 32 14) else None)"
    and "snd (add_default_modules (AuthPriv_create random)) = SNMP_CLASS_SUCCESS"
proof -
  have e: "get_auth i (AuthPriv_create random) = None" "get_priv i (AuthPriv_create random) = None"
    by (auto simp: AuthPriv_create_def get_auth_def get_priv_def get_at_def)
  have n: "new_PrivAES 4 = PrivAES 4 16 10" "new_PrivAES 20 = PrivAES 20 24 12" "new_PrivAES 21 = PrivAES 21 32 14"
    by (simp_all add: new_PrivAES_def aes_members_def usm_protocols)
  show "get_auth i ap = (if i = 2 then Some AuthMD5 else if i = 3 then Some AuthSHA
      else if i = 4 then Some AuthHMAC128SHA224 else if i = 5 then Some AuthHMAC192SHA256
      else if i = 6 then Some AuthHMAC256SHA384 else if i = 7 then Some AuthHMAC384SHA512 else None)"
    by (simp add: assms add_default_modules_def add_all_def case_prod_beta add_auth_get add_priv_get e n usm_protocols)
  show "get_priv i ap = (if i = 2 then Some PrivDES else if i = 3 then Some Priv3DES_EDE
      else if i = 4 then Some (PrivAES 4 16 10) else if i = 20 then Some (PrivAES 20 24 12)
      else if i = 21 then Some (PrivAES 21 32 14) else None)"
    by (simp add: assms add_default_modules_def add_all_def case_prod_beta add_auth_get add_priv_get e n usm_protocols)
  show "snd (add_default_modules (AuthPriv_create random)) = SNMP_CLASS_SUCCESS"
    by (simp add: add_default_modules_def add_all_def case_prod_beta add_auth_get add_priv_get n usm_protocols)
qed

end
