(* ===== verification/Auth_Keys.thy ===== *)
theory Auth_Keys
  imports Auth_Table
begin

section \<open>Keys, digests and encryption of the protocols\<close>

text \<open>
  What the table of protocols delivers: keys of the length the privacy protocol needs, whatever pair of protocols
  is combined; decryption that undoes encryption with the parameters it was sent with; and initialisation vectors
  that are not used twice.
\<close>

subsection \<open>Extension of short keys\<close>

lemma take_prefix:
  assumes "take (length (xs @ ys)) zs = xs @ ys"
  shows "take (length xs) zs = xs"
proof -
  have "take (length xs) (take (length (xs @ ys)) zs) = xs" by (simp only: assms) simp
  then show ?thesis by simp
qed

lemma PrivAES_extend_loop_ok:
  assumes "\<And>x. length (hash x) = hash_len" and "0 < hash_len" and "key_bytes \<le> max_key_len"
  shows "\<exists>key'. PrivAES_extend_loop hash hash_len key_bytes max_key_len key = Some key' \<and>
    take (length key) key' = key \<and> length key' = max (length key) key_bytes"
proof (induction "key_bytes - length key" arbitrary: key rule: less_induct)
  case less
  show ?case
  proof (cases "length key < key_bytes")
    case True
    let ?n = "min (key_bytes - length key) hash_len"
    have n: "length key + ?n \<le> max_key_len" "0 < ?n" "?n \<le> hash_len" using True assms(2, 3) by auto
    let ?key = "key @ take ?n (hash key)"
    have l: "length ?key = length key + ?n" using assms(1) [of key] by simp
    have "key_bytes - length ?key < key_bytes - length key" using l n(2) True by linarith
    then obtain key' where "PrivAES_extend_loop hash hash_len key_bytes max_key_len ?key = Some key'"
      "take (length ?key) key' = ?key" "length key' = max (length ?key) key_bytes"
      using less by blast
    moreover from this(2) have "take (length key) key' = key" by (rule take_prefix)
    ultimately show ?thesis
      using True n(1) l by (subst PrivAES_extend_loop.simps) (auto simp: Let_def)
  next
    case False
    then show ?thesis by (subst PrivAES_extend_loop.simps) simp
  qed
qed

lemma des3_extend_loop_ok:
  assumes "\<And>x. x \<noteq> [] \<Longrightarrow> \<exists>k. p2k x = Some k \<and> length k = n" and "0 < n" and "n \<le> p2k_output_len"
    and "min_key_len \<le> max_key_len" and "p2k_input \<noteq> []"
  shows "\<exists>key'. des3_extend_loop p2k p2k_output_len min_key_len max_key_len p2k_input key = Some key' \<and>
    take (length key) key' = key \<and> length key' = max (length key) min_key_len"
  using assms(5)
proof (induction "min_key_len - length key" arbitrary: key p2k_input rule: less_induct)
  case less
  show ?case
  proof (cases "length key < min_key_len")
    case True
    obtain k where k: "p2k p2k_input = Some k" "length k = n" using assms(1) less.prems by blast
    let ?n = "min (min_key_len - length key) n"
    have n: "length key + ?n \<le> max_key_len" "0 < ?n" "?n \<le> n" using True assms(2, 4) by auto
    let ?key = "key @ take ?n k"
    have l: "length ?key = length key + ?n" using k(2) by simp
    have ne: "take ?n k \<noteq> []" using n k(2) by auto
    have "min_key_len - length ?key < min_key_len - length key" using l n(2) True by linarith
    then obtain key' where "des3_extend_loop p2k p2k_output_len min_key_len max_key_len (take ?n k) ?key = Some key'"
      "take (length ?key) key' = ?key" "length key' = max (length ?key) min_key_len"
      using less.hyps [OF _ ne] by blast
    moreover from this(2) have "take (length key) key' = key" by (rule take_prefix)
    ultimately show ?thesis
      using True n(1) l k assms(3) by (subst des3_extend_loop.simps) (auto simp: Let_def)
  next
    case False
    then show ?thesis by (subst des3_extend_loop.simps) simp
  qed
qed

text \<open>A protocol object as the constructors build it.\<close>

definition priv_built :: "priv_class \<Rightarrow> bool" where
  "priv_built p \<longleftrightarrow> p = PrivDES \<or> p = Priv3DES_EDE \<or> (\<exists>t. p = new_PrivAES t) \<or> (\<exists>t. p = new_PrivAESW3DESKeyExt t)"

lemma priv_built_cases:
  assumes "priv_built p"
  obtains "p = PrivDES" | "p = Priv3DES_EDE"
  | t key_bytes rounds where "p = PrivAES t key_bytes rounds" and "key_bytes \<le> 32" and "key_bytes \<noteq> 0 \<longleftrightarrow> 0 \<le> t"
  | own t key_bytes rounds where "p = PrivAESW3DESKeyExt own t key_bytes rounds" and "key_bytes \<le> 32"
  using assms
  by (auto simp: priv_built_def new_PrivAES_def new_PrivAESW3DESKeyExt_def aes_members_def usm_protocols split: if_splits)

lemma password_to_key_length:
  assumes "digests H" and "password \<noteq> []" and "length engine_id \<le> 33"
  shows "\<exists>k. auth_password_to_key H a password engine_id = Some k \<and> length k = auth_get_hash_len a"
  using password_to_key_localised [OF assms] length_localised_key [OF assms(1)] by simp

lemma min_key_len_bound: "priv_built p \<Longrightarrow> priv_get_min_key_len p \<le> 32"
  by (erule priv_built_cases) simp_all

lemma extend_short_key_ok:
  assumes "digests H" and "priv_built p" and "length engine_id \<le> 33" and "length key = auth_get_hash_len a"
    and "length key < priv_get_min_key_len p" and "priv_get_min_key_len p \<le> max_key_len"
  shows "\<exists>key'. extend_short_key H p engine_id key max_key_len a = Some (Inr key') \<and>
    take (length key) key' = key \<and> length key' = priv_get_min_key_len p"
proof -
  have h: "0 < auth_get_hash_len a" "16 \<le> auth_get_hash_len a" by (cases a; simp)+
  then have ne: "key \<noteq> []" using assms(4) by auto
  have aes: "\<exists>key'. PrivAES_extend_short_key H n key max_key_len a = Some (Inr key') \<and>
      take (length key) key' = key \<and> length key' = n" if "length key < n" "n \<le> max_key_len" for n
    using that PrivAES_extend_loop_ok [of "auth_hash H a" "auth_get_hash_len a" n max_key_len key] h
      digests_length [OF assms(1)] by (auto simp: PrivAES_extend_short_key_def auth_hash_def)
  have des3: "\<exists>key'. des3_extend_short_key H engine_id key max_key_len a n = Some (Inr key') \<and>
      take (length key) key' = key \<and> length key' = n" if "length key < n" "n \<le> max_key_len" for n
    using that h ne assms(4) password_to_key_length [OF assms(1) _ assms(3), of _ a]
      des3_extend_loop_ok [of "\<lambda>p. auth_password_to_key H a p engine_id" "auth_get_hash_len a" "length key" n max_key_len key key]
    by (auto simp: des3_extend_short_key_def)
  from assms(2) show ?thesis
    by (cases rule: priv_built_cases) (use aes des3 assms(4-6) h(2) in auto)
qed

lemma password_to_key_auth_ok:
  assumes "digests H" and "get_auth auth_prot ap = Some a" and "auth_prot \<noteq> SNMP_AUTHPROTOCOL_NONE"
    and "password \<noteq> []" and "length engine_id \<le> 33"
  shows "password_to_key_auth H ap auth_prot password engine_id = Some (Inr (localised_key (H a) password engine_id))"
  using assms password_to_key_localised [OF assms(1, 4, 5)] by (simp add: password_to_key_auth_def)

lemma password_to_key_priv_ok:
  assumes "digests H" and "get_auth auth_prot ap = Some a" and "auth_prot \<noteq> SNMP_AUTHPROTOCOL_NONE"
    and "get_priv priv_prot ap = Some p" and "priv_built p" and "priv_prot \<noteq> SNMP_PRIVPROTOCOL_NONE"
    and "password \<noteq> []" and "length engine_id \<le> 33" and "SNMPv3_USM_MAX_KEY_LEN \<le> max_key_len"
  shows "\<exists>key. password_to_key_priv H ap auth_prot priv_prot password engine_id max_key_len = Some (Inr key) \<and>
    length key = priv_get_min_key_len p \<and>
    take (auth_get_hash_len a) key = take (priv_get_min_key_len p) (localised_key (H a) password engine_id)"
proof -
  let ?k = "localised_key (H a) password engine_id" and ?n = "priv_get_min_key_len p"
  have k: "password_to_key_auth H ap auth_prot password engine_id = Some (Inr ?k)"
    using assms by (intro password_to_key_auth_ok)
  have l: "length ?k = auth_get_hash_len a" by (rule length_localised_key [OF assms(1)])
  have m: "?n \<le> max_key_len" using min_key_len_bound [OF assms(5)] assms(9) by (simp add: usm_lengths)
  show ?thesis
  proof (cases "length ?k < ?n")
    case True
    obtain key where key: "extend_short_key H p engine_id ?k max_key_len a = Some (Inr key)"
      "take (length ?k) key = ?k" "length key = ?n"
      using extend_short_key_ok [OF assms(1, 5, 8) l True m] by blast
    then show ?thesis using k l m True assms(2, 4, 6, 7) by (simp add: password_to_key_priv_def fix_key_len_def)
  next
    case False
    then show ?thesis using k l m assms(2, 4, 6, 7) by (simp add: password_to_key_priv_def fix_key_len_def)
  qed
qed

subsection \<open>Decryption undoes encryption\<close>

lemma length_be32 [simp]: "length (be32 w) = 4"
  by (simp add: be32_def)

lemma xor_bytes_commute: "xor_bytes xs ys = xor_bytes ys xs"
  by (simp add: xor_bytes_def zip_commute [of xs ys] xor.commute case_prod_beta)

lemma no_check_iff: "no_check r = Some x \<longleftrightarrow> r = Some (Inr x)"
  by (auto simp: no_check_def split: option.splits sum.splits)

lemma PrivAES_roundtrip:
  assumes "PrivAES_encrypt cs kb rounds key buffer room n my_salt boots time = Some (Inr (out, params))"
    and "length buffer \<le> room'"
  shows "PrivAES_decrypt cs kb rounds key out room' params boots time = Some (Inr buffer) \<and> length params = 8"
proof -
  let ?iv = "be32 boots @ be32 time @ be32 (my_salt AND 0xFFFFFFFF) @ be32 (drop_bit 32 my_salt AND 0xFFFFFFFF)"
  obtain s s' where s: "cfb_start (rijndael_desc cs) ?iv (take kb key) rounds = Some (Inr s)"
    "cfb_encrypt buffer s = Some (Inr (out, s'))" "params = drop 8 ?iv" "kb \<le> length key"
    using assms(1)
    by (auto simp: PrivAES_encrypt_def no_check_iff Let_def bind_eq_Some_iff split: if_splits)
  then show ?thesis
    using cfb_decrypt_encrypt [OF s(2)] length_cfb_encrypt [OF s(2)] assms(2)
    by (simp add: PrivAES_decrypt_def no_check_def Let_def)
qed

lemma des_blocks_ok:
  assumes "cbc_ok s" and "cbc_blocklen s = 8" and "8 * n \<le> length buffer"
  shows "\<exists>ct s'. des_blocks n buffer s = Some (Inr (ct, s')) \<and> cbc_ok s' \<and> cbc_blocklen s' = 8 \<and> length ct = 8 * n \<and>
    (\<forall>m ct2. des_unblocks (n + m) (ct @ ct2) s =
      on_ok (des_unblocks m ct2 s') (\<lambda>(pt, s''). Some (Inr (take (8 * n) buffer @ pt, s''))))"
  using assms
proof (induction n arbitrary: buffer s)
  case 0
  then show ?case by (auto simp: on_ok_def split: option.splits sum.splits)
next
  case (Suc n)
  have b: "cbc_blocklen s dvd length (take 8 buffer)" "length (take 8 buffer) = 8" using Suc.prems by simp_all
  obtain c s1 where c: "cbc_encrypt (take 8 buffer) s = Some (Inr (c, s1))"
    "cbc_decrypt c s = Some (Inr (take 8 buffer, s1))" "cbc_ok s1" "cbc_blocklen s1 = cbc_blocklen s"
    "length c = length (take 8 buffer)" using cbc_decrypt_encrypt [OF Suc.prems(1) b(1)] by auto
  have s1: "cbc_blocklen s1 = 8" "8 * n \<le> length (drop 8 buffer)" using c(4) Suc.prems(2, 3) by simp_all
  obtain ct s' where i: "des_blocks n (drop 8 buffer) s1 = Some (Inr (ct, s'))" "cbc_ok s'" "cbc_blocklen s' = 8"
    "length ct = 8 * n" "\<forall>m ct2. des_unblocks (n + m) (ct @ ct2) s1 =
      on_ok (des_unblocks m ct2 s') (\<lambda>(pt, s''). Some (Inr (take (8 * n) (drop 8 buffer) @ pt, s'')))"
    using Suc.IH [OF c(3) s1] by auto
  have t: "take (8 * Suc n) buffer = take 8 buffer @ take (8 * n) (drop 8 buffer)" by (simp add: take_add)
  have lc: "length c = 8" using c(5) b(2) by simp
  have "des_unblocks (Suc n + m) ((c @ ct) @ ct2) s =
    on_ok (des_unblocks m ct2 s') (\<lambda>(pt, s''). Some (Inr (take (8 * Suc n) buffer @ pt, s'')))" for m ct2
    using c(2) lc i(5) [rule_format, of m ct2] t
    by (auto simp: on_ok_def split: option.splits sum.splits)
  then show ?case using c(1) i(1-4) lc by (intro exI [of _ "c @ ct"] exI [of _ s']) simp
qed

text \<open>The plain text with the zeros that fill the last block.\<close>

definition zero_padded :: "u8 list \<Rightarrow> u8 list" where
  "zero_padded buffer = buffer @ replicate (if length buffer mod 8 = 0 then 0 else 8 - length buffer mod 8) 0"

lemma length_zero_padded: "8 dvd length (zero_padded buffer)" "length buffer \<le> length (zero_padded buffer)"
proof -
  let ?n = "length buffer"
  show "8 dvd length (zero_padded buffer)"
  proof (cases "?n mod 8 = 0")
    case False
    obtain q r where q: "?n = 8 * q + r" "r < 8" "?n mod 8 = r" by (metis mod_less_divisor mult_div_mod_eq zero_less_numeral)
    then have "?n + (8 - ?n mod 8) = 8 * (q + 1)" by simp
    then show ?thesis using False by (simp add: zero_padded_def)
  qed (simp add: zero_padded_def mod_eq_0_iff_dvd)
qed (simp add: zero_padded_def)

text \<open>What is asked of the DES descriptors: the key schedule succeeds, blocks have 8 octets and decryption undoes
  encryption.\<close>

definition des_cipher :: "'k cipher \<Rightarrow> bool" where
  "des_cipher c \<longleftrightarrow> block_length c = 8 \<and> (\<forall>key rounds. \<exists>k. key_setup c key rounds = Inr k \<and> cipher_inverse c k)"

lemma des_cbc_roundtrip:
  assumes "des_cipher c" and "iv_pos + 8 \<le> length key" and "8 \<le> length buffer"
    and "length (zero_padded buffer) \<le> room'"
  shows "\<exists>out. des_cbc_encrypt c kb iv_pos key buffer room my_salt boots =
      (if length (zero_padded buffer) \<le> room then Some (Inr (out, be32 boots @ be32 my_salt)) else None) \<and>
    length out = length (zero_padded buffer) \<and>
    des_cbc_decrypt c kb iv_pos key out room' (be32 boots @ be32 my_salt) = Some (Inr (zero_padded buffer))"
proof -
  let ?params = "be32 boots @ be32 my_salt"
  let ?iv = "xor_bytes (take 8 (drop iv_pos key)) ?params"
  have liv: "length ?iv = 8" using assms(2) by simp
  have riv: "xor_bytes ?params (take 8 (drop iv_pos key)) = ?iv" by (rule xor_bytes_commute)
  obtain k where k: "key_setup c (take kb key) 16 = Inr k" "cipher_inverse c k" "block_length c = 8"
    using assms(1) by (auto simp: des_cipher_def)
  let ?s = "\<lparr>cbc_cipher = c, cbc_blocklen = 8, cbc_IV = ?iv, cbc_key = k\<rparr>"
  have start: "cbc_start c ?iv (take kb key) 16 = Some (Inr ?s)"
    using k liv by (simp add: cbc_start_def MAXBLOCKSIZE_def)
  have s: "cbc_ok ?s" "cbc_blocklen ?s = 8" using k liv by (simp_all add: cbc_ok_def MAXBLOCKSIZE_def)
  let ?n = "length buffer div 8" and ?rest = "drop (8 * (length buffer div 8)) buffer"
  obtain ct s' where b: "des_blocks ?n buffer ?s = Some (Inr (ct, s'))" "cbc_ok s'" "cbc_blocklen s' = 8"
    "length ct = 8 * ?n" "\<forall>m ct2. des_unblocks (?n + m) (ct @ ct2) ?s =
      on_ok (des_unblocks m ct2 s') (\<lambda>(pt, s''). Some (Inr (take (8 * ?n) buffer @ pt, s'')))"
    using des_blocks_ok [OF s, of ?n buffer] by (auto simp: times_div_less_eq_dividend)
  have lr: "length ?rest = length buffer mod 8" by (simp add: minus_mult_div_eq_mod)
  have tr: "take (8 * ?n) buffer @ ?rest = buffer" by simp
  show ?thesis
  proof (cases "?rest = []")
    case True
    then have z: "zero_padded buffer = buffer" "take (8 * ?n) buffer = buffer" using lr tr
      by (simp_all add: zero_padded_def)
    have l: "length ct = length buffer" using b(4) True by simp
    have "des_unblocks ?n ct ?s = Some (Inr (buffer, s'))" using b(5) [rule_format, of 0 "[]"] z(2) by simp
    then show ?thesis
      using start riv b(1) True assms z(1) l
      by (intro exI [of _ ct]) (simp add: des_cbc_encrypt_def des_cbc_decrypt_def Let_def des_check_def)
  next
    case False
    let ?last = "?rest @ replicate (8 - length ?rest) 0"
    have r8: "length ?rest < 8" "length ?rest \<noteq> 0" using lr False by simp_all
    then have ll: "length ?last = 8" by simp
    have z: "zero_padded buffer = take (8 * ?n) buffer @ ?last"
    proof -
      have "zero_padded buffer = (take (8 * ?n) buffer @ ?rest) @ replicate (8 - length ?rest) 0"
        using r8(2) by (simp only: zero_padded_def tr lr if_False)
      then show ?thesis by simp
    qed
    obtain c s'' where c: "cbc_encrypt ?last s' = Some (Inr (c, s''))" "cbc_decrypt c s' = Some (Inr (?last, s''))"
      "length c = 8" using cbc_decrypt_encrypt [OF b(2), of ?last] b(3) ll by auto
    have l: "length (ct @ c) = length (zero_padded buffer)" using b(4) c(3) z r8 lr by simp
    have d: "length (ct @ c) div 8 = ?n + 1" using b(4) c(3) by simp
    have "des_unblocks 1 c s' = Some (Inr (?last, s''))" using c(2, 3) by simp
    then have "des_unblocks (?n + 1) (ct @ c) ?s = Some (Inr (zero_padded buffer, s''))"
      using b(5) [rule_format, of 1 c] z by simp
    then show ?thesis
      using start riv b(1) False assms c(1) l d
      by (intro exI [of _ "ct @ c"]) (simp add: des_cbc_encrypt_def des_cbc_decrypt_def Let_def des_check_def)
  qed
qed

text \<open>The plain text a receiver gets: block ciphers fill it with zeros.\<close>

fun plain_text :: "priv_class \<Rightarrow> u8 list \<Rightarrow> u8 list" where
  "plain_text PrivDES buffer = zero_padded buffer"
| "plain_text Priv3DES_EDE buffer = zero_padded buffer"
| "plain_text _ buffer = buffer"

lemma des_cbc_encrypt_InrD:
  "des_cbc_encrypt c kb iv_pos key buffer room my_salt boots = Some (Inr r) \<Longrightarrow>
    iv_pos + 8 \<le> length key \<and> 8 \<le> length buffer"
  by (auto simp: des_cbc_encrypt_def Let_def not_less split: if_splits elim!: on_ok_InrE)

lemma priv_roundtrip:
  assumes "priv_encrypt cs p key buffer room n my_salt boots time = Some (Inr (out, params))"
    and "des_cipher (des_desc cs)" and "des_cipher (des3_desc cs)" and "length (plain_text p buffer) \<le> room'"
  shows "priv_decrypt cs p key out room' params boots time = Some (Inr (plain_text p buffer))"
proof -
  have des: "des_cbc_decrypt c kb iv_pos key out room' params = Some (Inr (zero_padded buffer)) \<and>
      length out mod 8 = 0 \<and> length params = 8"
    if e: "des_cbc_encrypt c kb iv_pos key buffer room my_salt boots = Some (Inr (out, params))" and "des_cipher c"
      and r: "length (zero_padded buffer) \<le> room'" for c kb iv_pos
  proof -
    have "iv_pos + 8 \<le> length key" "8 \<le> length buffer" using des_cbc_encrypt_InrD [OF e] by simp_all
    then obtain out' where "des_cbc_encrypt c kb iv_pos key buffer room my_salt boots =
        (if length (zero_padded buffer) \<le> room then Some (Inr (out', be32 boots @ be32 my_salt)) else None)"
      "length out' = length (zero_padded buffer)"
      "des_cbc_decrypt c kb iv_pos key out' room' (be32 boots @ be32 my_salt) = Some (Inr (zero_padded buffer))"
      using des_cbc_roundtrip [OF \<open>des_cipher c\<close>, of iv_pos key buffer room' kb room my_salt boots] r by auto
    then show ?thesis using e length_zero_padded(1) [of buffer]
      by (auto split: if_splits simp: mod_eq_0_iff_dvd)
  qed
  show ?thesis
  proof (cases p)
    case PrivDES
    then show ?thesis using assms des [of "des_desc cs" 8 8]
      by (auto simp: PrivDES_encrypt_def PrivDES_decrypt_def split: if_splits)
  next
    case Priv3DES_EDE
    then show ?thesis using assms des [of "des3_desc cs" 24 24]
      by (auto simp: Priv3DES_EDE_encrypt_def Priv3DES_EDE_decrypt_def split: if_splits)
  qed (use assms PrivAES_roundtrip [of cs _ _ key buffer room n my_salt boots time out params room'] in auto)
qed

subsection \<open>Initialisation vectors are fresh\<close>

lemma bit_be32:
  assumes "be32 a = be32 b" and "i < 32"
  shows "bit a i = bit b i"
proof -
  have e: "\<forall>j\<in>set [3, 2, 1, 0]. (ucast (drop_bit (8 * j) a) :: u8) = ucast (drop_bit (8 * j) b)"
    using assms(1) unfolding be32_def map_eq_conv .
  have "i div 8 < 4" using assms(2) by simp
  then have "i div 8 \<in> set [3, 2, 1, 0]" by (simp del: div_less_mono) linarith
  with e have "(ucast (drop_bit (8 * (i div 8)) a) :: u8) = ucast (drop_bit (8 * (i div 8)) b)" by (rule bspec)
  then have "bit (ucast (drop_bit (8 * (i div 8)) a) :: u8) (i mod 8) = bit (ucast (drop_bit (8 * (i div 8)) b) :: u8) (i mod 8)"
    by simp
  then show ?thesis by (simp add: bit_ucast_iff bit_drop_bit_eq)
qed

lemma bit_low_mask: "bit (0xFFFFFFFF :: u64) i \<longleftrightarrow> i < 32"
proof -
  have m: "(mask 32 :: u64) = 0xFFFFFFFF" by (simp add: mask_eq_exp_minus_1)
  have "bit (mask 32 :: u64) i \<longleftrightarrow> possible_bit TYPE(u64) i \<and> i < 32" by (rule bit_mask_iff)
  then show ?thesis unfolding m by auto
qed

lemma aes_salt_inj:
  assumes "be32 (a AND 0xFFFFFFFF) @ be32 (drop_bit 32 a AND 0xFFFFFFFF) =
    be32 (b AND 0xFFFFFFFF) @ be32 (drop_bit 32 b AND 0xFFFFFFFF)"
  shows "a = b"
proof (rule bit_word_eqI)
  fix i :: nat
  assume "i < LENGTH(64)"
  then have i: "i < 64" by simp
  have e: "be32 (a AND 0xFFFFFFFF) = be32 (b AND 0xFFFFFFFF)"
    "be32 (drop_bit 32 a AND 0xFFFFFFFF) = be32 (drop_bit 32 b AND 0xFFFFFFFF)" using assms by simp_all
  show "bit a i = bit b i"
  proof (cases "i < 32")
    case True
    then show ?thesis using bit_be32 [OF e(1) True] iffD2 [OF bit_low_mask True] by (simp add: bit_and_iff)
  next
    case False
    then have h: "i - 32 < 32" using i by simp
    then show ?thesis using bit_be32 [OF e(2) h] iffD2 [OF bit_low_mask h] False
      by (simp add: bit_and_iff bit_drop_bit_eq)
  qed
qed

text \<open>The messages that an \<open>AuthPriv\<close> encrypts one after the other, and the parameters it sends with each.\<close>

record plain_msg =
  pm_prot :: int
  pm_key :: "u8 list"
  pm_buffer :: "u8 list"
  pm_room :: nat
  pm_params_len :: nat
  pm_boots :: u64
  pm_time :: u64

primrec encrypt_all :: "'k ciphers \<Rightarrow> auth_priv \<Rightarrow> plain_msg list \<Rightarrow> (u8 list \<times> u8 list) usm_result list" where
  "encrypt_all cs ap [] = []"
| "encrypt_all cs ap (m # ms) =
     (case encrypt_msg cs ap (pm_prot m) (pm_key m) (pm_buffer m) (pm_room m) (pm_params_len m) (pm_boots m) (pm_time m)
      of (ap, r) \<Rightarrow> r # encrypt_all cs ap ms)"

fun is_aes :: "priv_class \<Rightarrow> bool" where
  "is_aes (PrivAES _ _ _) = True"
| "is_aes (PrivAESW3DESKeyExt _ _ _ _) = True"
| "is_aes _ = False"

lemma get_priv_salt [simp]: "get_priv i (ap\<lparr>salt := s\<rparr>) = get_priv i ap"
  by (simp add: get_priv_def)

lemma encrypt_all_nth:
  assumes "\<And>m. m \<in> set ms \<Longrightarrow> get_priv (pm_prot m) ap \<noteq> None" and "i < length ms"
  shows "encrypt_all cs ap ms ! i = priv_encrypt cs (the (get_priv (pm_prot (ms ! i)) ap)) (pm_key (ms ! i)) (pm_buffer (ms ! i))
    (pm_room (ms ! i)) (pm_params_len (ms ! i)) (salt ap + of_nat i) (pm_boots (ms ! i)) (pm_time (ms ! i))"
  using assms
proof (induction ms arbitrary: ap i)
  case (Cons m ms)
  obtain p where p: "get_priv (pm_prot m) ap = Some p" using Cons.prems(1) [of m] by auto
  show ?case
  proof (cases i)
    case 0
    then show ?thesis using p by (simp add: encrypt_msg_def)
  next
    case (Suc j)
    then show ?thesis using p Cons.prems Cons.IH [of "ap\<lparr>salt := salt ap + 1\<rparr>" j]
      by (simp add: encrypt_msg_def add.assoc)
  qed
qed simp

lemma PrivAES_params:
  "PrivAES_encrypt cs kb rounds key buffer room n my_salt boots time = Some (Inr (out, params)) \<Longrightarrow>
    params = be32 (my_salt AND 0xFFFFFFFF) @ be32 (drop_bit 32 my_salt AND 0xFFFFFFFF)"
  by (auto simp: PrivAES_encrypt_def Let_def bind_eq_Some_iff split: if_splits)

lemma aes_params:
  "is_aes p \<Longrightarrow> priv_encrypt cs p key buffer room n my_salt boots time = Some (Inr (out, params)) \<Longrightarrow>
    params = be32 (my_salt AND 0xFFFFFFFF) @ be32 (drop_bit 32 my_salt AND 0xFFFFFFFF)"
  by (cases p) (simp_all add: PrivAES_params)

lemma of_nat_u64_neq: "i < j \<Longrightarrow> j - i < 2 ^ 64 \<Longrightarrow> (x :: u64) + of_nat i \<noteq> x + of_nat j"
proof
  assume a: "i < j" "j - i < 2 ^ 64" "x + of_nat i = x + of_nat j"
  then have "(of_nat (j - i) :: u64) = 0" by (simp add: of_nat_diff)
  then have "2 ^ 64 dvd j - i" by (simp add: word_of_nat_eq_0_iff)
  then show False using a by (auto dest: dvd_imp_le)
qed

end
