(* ===== verification/Usm_Lcd.thy ===== *)
theory Usm_Lcd
  imports Usm_Users Usm_Time Auth_Keys
begin

section \<open>Users of the security model\<close>

text \<open>
  The part of class \<open>USM\<close> (\<^verbatim>\<open>src/snmp++/src/usm_v3.cpp\<close>) that keeps the users: it owns the time table, the two user
  tables and an \<open>AuthPriv\<close>.  A \<open>struct UsmUser\<close> has the fields of an entry of the user table.  The callback that an
  agent may register for new users is not set.
\<close>

record usm =
  usm_time_table :: time_table
  usm_user_name_table :: name_table
  usm_user_table :: user_table
  usm_auth_priv :: auth_priv
  local_snmp_engine_id :: "u8 list"
  discovery_mode :: bool

definition remove_all_users :: "usm \<Rightarrow> usm \<times> int" where
  "remove_all_users u =
     (u\<lparr>usm_user_table := new_table 10, usm_user_name_table := new_table 10\<rparr>, SNMPv3_USM_OK)"

text \<open>It calls \<open>delete_entries\<close>, which takes a user name, with the engine id.\<close>

definition remove_engine_id :: "u8 list \<Rightarrow> usm \<Rightarrow> (usm \<times> int) option" where
  "remove_engine_id engine_id u =
     Option.bind (USMTimeTable_delete_entry engine_id (usm_time_table u)) (\<lambda>(tt, retval1).
     Option.bind (USMUserTable_delete_entries engine_id (usm_user_table u)) (\<lambda>(ut, retval2).
     Some (u\<lparr>usm_time_table := tt, usm_user_table := ut\<rparr>,
       if retval1 = SNMPv3_USM_ERROR \<or> retval2 = SNMPv3_USM_ERROR then SNMPv3_USM_ERROR else SNMPv3_USM_OK)))"

definition remove_time_information :: "u8 list \<Rightarrow> usm \<Rightarrow> (usm \<times> int) option" where
  "remove_time_information engine_id u =
     Option.bind (USMTimeTable_delete_entry engine_id (usm_time_table u)) (\<lambda>(tt, rc).
     Some (u\<lparr>usm_time_table := tt\<rparr>, if rc = SNMPv3_USM_ERROR then SNMPv3_USM_ERROR else SNMPv3_USM_OK))"

definition update_key :: "u8 list \<Rightarrow> u8 list \<Rightarrow> u8 list \<Rightarrow> int \<Rightarrow> usm \<Rightarrow> (usm \<times> int) option" where
  "update_key user_name engine_id new_key type_of_key u =
     Option.bind (USMUserTable_update_key user_name engine_id new_key type_of_key (usm_user_table u)) (\<lambda>(ut, rc).
     Some (u\<lparr>usm_user_table := ut\<rparr>, rc))"

definition add_localized_user :: "user_entry \<Rightarrow> usm \<Rightarrow> (usm \<times> int) option" where
  "add_localized_user e u =
     Option.bind (USMUserTable_add_entry e (usm_user_table u)) (\<lambda>(ut, rc). Some (u\<lparr>usm_user_table := ut\<rparr>, rc))"

definition delete_localized_user :: "u8 list \<Rightarrow> usm \<Rightarrow> (usm \<times> int) option" where
  "delete_localized_user user_name u =
     Option.bind (USMUserTable_delete_entries user_name (usm_user_table u)) (\<lambda>(ut, rc). Some (u\<lparr>usm_user_table := ut\<rparr>, rc))"

definition delete_localized_user_engine :: "u8 list \<Rightarrow> u8 list \<Rightarrow> usm \<Rightarrow> (usm \<times> int) option" where
  "delete_localized_user_engine engine_id user_name u =
     Option.bind (USMUserTable_delete_entry engine_id user_name (usm_user_table u)) (\<lambda>(ut, rc).
     Some (u\<lparr>usm_user_table := ut\<rparr>, rc))"

text \<open>Both keys, in buffers of \<open>SNMPv3_USM_MAX_KEY_LEN\<close> octets.\<close>

definition build_localized_keys ::
  "hashes \<Rightarrow> auth_priv \<Rightarrow> u8 list \<Rightarrow> int \<Rightarrow> int \<Rightarrow> u8 list \<Rightarrow> u8 list \<Rightarrow> (u8 list \<times> u8 list) usm_result" where
  "build_localized_keys H ap engine_id auth_prot priv_prot auth_password priv_password =
     on_ok (password_to_key_auth H ap auth_prot auth_password engine_id) (\<lambda>auth_key.
     on_ok (password_to_key_priv H ap auth_prot priv_prot priv_password engine_id SNMPv3_USM_MAX_KEY_LEN) (\<lambda>priv_key.
     Some (Inr (auth_key, priv_key))))"

text \<open>The user that is used to discover an engine id.\<close>

definition discovery_user :: "u8 list \<Rightarrow> u8 list \<Rightarrow> user_entry" where
  "discovery_user user_name security_name = \<lparr>ue_engine_id = [], ue_user_name = user_name,
     ue_security_name = security_name, ue_auth_protocol = SNMP_AUTHPROTOCOL_NONE, ue_auth_key = [],
     ue_priv_protocol = SNMP_PRIVPROTOCOL_NONE, ue_priv_key = []\<rparr>"

definition localized_entry :: "u8 list \<Rightarrow> name_entry \<Rightarrow> u8 list \<Rightarrow> u8 list \<Rightarrow> user_entry" where
  "localized_entry engine_id n auth_key priv_key = \<lparr>ue_engine_id = engine_id, ue_user_name = ne_user_name n,
     ue_security_name = ne_security_name n, ue_auth_protocol = ne_auth_protocol n, ue_auth_key = auth_key,
     ue_priv_protocol = ne_priv_protocol n, ue_priv_key = priv_key\<rparr>"

definition get_user :: "hashes \<Rightarrow> u8 list \<Rightarrow> u8 list \<Rightarrow> usm \<Rightarrow> (usm \<times> user_entry option) option" where
  "get_user H engine_id security_name u =
     Option.bind (USMUserTable_get_entry engine_id security_name (usm_user_table u)) (\<lambda>user_table_entry.
     case user_table_entry of Some e \<Rightarrow> Some (u, Some e)
     | None \<Rightarrow>
       Option.bind (USMUserNameTable_get_entry security_name (usm_user_name_table u)) (\<lambda>name_table_entry.
       case name_table_entry of
         None \<Rightarrow> Option.bind (USMUserTable_get_entry_sec_name security_name (usm_user_table u)) (\<lambda>entry.
           case entry of
             Some e \<Rightarrow> if engine_id = [] then Some (u, Some (discovery_user (ue_user_name e) (ue_security_name e)))
               else Some (u, None)
           | None \<Rightarrow> Some (u, None))
       | Some n \<Rightarrow>
           if engine_id = [] then Some (u, Some (discovery_user (ne_user_name n) (ne_security_name n)))
           else Option.bind (build_localized_keys H (usm_auth_priv u) engine_id (ne_auth_protocol n) (ne_priv_protocol n)
               (ne_auth_password n) (ne_priv_password n)) (\<lambda>res.
             case res of Inl rc \<Rightarrow> Some (u, None)
             | Inr (auth_key, priv_key) \<Rightarrow>
                 Option.bind (add_localized_user (localized_entry engine_id n auth_key priv_key) u) (\<lambda>(u, rc).
                 Option.bind (USMUserTable_get_entry engine_id security_name (usm_user_table u)) (\<lambda>e.
                 Some (u, e))))))"

definition add_usm_user :: "hashes \<Rightarrow> name_entry \<Rightarrow> usm \<Rightarrow> (usm \<times> int) option" where
  "add_usm_user H n u =
     Option.bind (delete_localized_user (ne_user_name n) u) (\<lambda>(u, _).
     Option.bind (USMUserNameTable_add_entry n (usm_user_name_table u)) (\<lambda>(nt, result).
     let u = u\<lparr>usm_user_name_table := nt\<rparr> in
     if result \<noteq> SNMPv3_USM_OK then Some (u, result)
     else Option.bind (get_user H (local_snmp_engine_id u) (ne_security_name n) u) (\<lambda>(u, dummy).
       Some (u, SNMPv3_USM_OK))))"

definition add_usm_user_engine :: "hashes \<Rightarrow> name_entry \<Rightarrow> u8 list \<Rightarrow> usm \<Rightarrow> (usm \<times> int) option" where
  "add_usm_user_engine H n engine_id u =
     Option.bind (build_localized_keys H (usm_auth_priv u) engine_id (ne_auth_protocol n) (ne_priv_protocol n)
       (ne_auth_password n) (ne_priv_password n)) (\<lambda>res.
     case res of Inl rc \<Rightarrow> Some (u, rc)
     | Inr (auth_key, priv_key) \<Rightarrow> add_localized_user (localized_entry engine_id n auth_key priv_key) u)"

definition get_security_name :: "u8 list \<Rightarrow> usm \<Rightarrow> (int + u8 list) option" where
  "get_security_name user_name u =
     Option.bind (USMUserNameTable_get_security_name user_name (usm_user_name_table u)) (\<lambda>result.
     case result of Inr name \<Rightarrow> Some (Inr name)
     | Inl _ \<Rightarrow> Option.bind (USMUserTable_get_security_name user_name (usm_user_table u)) (\<lambda>result.
         case result of Inr name \<Rightarrow> Some (Inr name) | Inl _ \<Rightarrow> Some (Inl SNMPv3_USM_ERROR)))"

definition get_user_name :: "nat \<Rightarrow> u8 list \<Rightarrow> usm \<Rightarrow> (int + u8 list) option" where
  "get_user_name buf_len security_name u =
     Option.bind (USMUserNameTable_get_user_name buf_len security_name (usm_user_name_table u)) (\<lambda>result.
     case result of Inr name \<Rightarrow> Some (Inr name)
     | Inl _ \<Rightarrow> Option.bind (USMUserTable_get_user_name buf_len security_name (usm_user_table u)) (\<lambda>result.
         case result of Inr name \<Rightarrow> Some (Inr name) | Inl _ \<Rightarrow> Some (Inl SNMPv3_USM_ERROR)))"

definition delete_usm_user :: "u8 list \<Rightarrow> usm \<Rightarrow> usm option" where
  "delete_usm_user security_name u =
     Option.bind (USMUserNameTable_delete_security_name security_name (usm_user_name_table u)) (\<lambda>(nt, _).
     let u = u\<lparr>usm_user_name_table := nt\<rparr> in
     Option.bind (get_user_name MAXLEN_USMUSERNAME security_name u) (\<lambda>result.
     case result of Inl _ \<Rightarrow> Some u
     | Inr user_name \<Rightarrow> Option.bind (delete_localized_user user_name u) (\<lambda>(u, _). Some u)))"

subsection \<open>The tables behind the operations\<close>

definition usm_ok :: "usm \<Rightarrow> bool" where
  "usm_ok u \<longleftrightarrow> times_ok (usm_time_table u) \<and> names_ok (usm_user_name_table u) \<and> users_ok (usm_user_table u)"

abbreviation passwords :: "usm \<Rightarrow> name_entry list" where
  "passwords u \<equiv> live (usm_user_name_table u)"

abbreviation keys :: "usm \<Rightarrow> user_entry list" where
  "keys u \<equiv> live (usm_user_table u)"

lemma usm_okD:
  assumes "usm_ok u"
  shows "table_ok (usm_user_name_table u)" and "table_ok (usm_user_table u)" and "names_ok (usm_user_name_table u)"
    and "users_ok (usm_user_table u)" and "times_ok (usm_time_table u)"
  using assms by (simp_all add: usm_ok_def names_ok_def users_ok_def)

lemma get_entry_live:
  "table_ok t \<Longrightarrow> USMUserTable_get_entry engine_id sec_name t =
     Some (List.find (\<lambda>e. ue_security_name e = sec_name \<and> ue_engine_id e = engine_id) (live t))"
  by (simp add: USMUserTable_get_entry_def find_value_live)

lemma get_entry_sec_name_live:
  "table_ok t \<Longrightarrow> USMUserTable_get_entry_sec_name sec_name t = Some (List.find (\<lambda>e. ue_security_name e = sec_name) (live t))"
  by (simp add: USMUserTable_get_entry_sec_name_def find_value_live)

lemma name_get_entry_live:
  "table_ok t \<Longrightarrow> USMUserNameTable_get_entry sec_name t = Some (List.find (\<lambda>e. ne_security_name e = sec_name) (live t))"
  by (simp add: USMUserNameTable_get_entry_def find_value_live)

lemmas lookups_live = get_entry_live get_entry_sec_name_live name_get_entry_live

lemma find_unique:
  assumes "x \<in> set xs" and "P x" and "\<And>y. y \<in> set xs \<Longrightarrow> P y \<Longrightarrow> y = x"
  shows "List.find P xs = Some x"
proof (cases "List.find P xs")
  case None
  then show ?thesis using assms(1, 2) by (simp add: find_None_iff)
next
  case (Some y)
  then have "y \<in> set xs" "P y" by (auto simp: find_Some_iff)
  then show ?thesis using Some assms(3) by simp
qed

lemma find_absent: "(\<And>y. y \<in> set xs \<Longrightarrow> \<not> P y) \<Longrightarrow> List.find P xs = None"
  by (simp add: find_None_iff)

text \<open>The operations keep the invariant.\<close>

lemma delete_localized_user_ok:
  assumes "usm_ok u"
  shows "\<exists>u'. delete_localized_user user_name u = Some (u', SNMPv3_USM_OK) \<and> usm_ok u' \<and>
    u' = u\<lparr>usm_user_table := usm_user_table u'\<rparr> \<and> set (keys u') = {e \<in> set (keys u). ue_user_name e \<noteq> user_name}"
proof -
  obtain ut where "delete_where (\<lambda>e. ue_user_name e = user_name) 0 (usm_user_table u) = Some ut" "users_ok ut"
    "set (live ut) = {e \<in> set (keys u). ue_user_name e \<noteq> user_name}"
    using users_delete_where [OF usm_okD(4) [OF assms], of "\<lambda>e. ue_user_name e = user_name"] by blast
  then show ?thesis using usm_okD(2) [OF assms] assms
    by (auto simp: delete_localized_user_def USMUserTable_delete_entries_def usm_ok_def)
qed

lemma add_localized_user_ok:
  assumes "usm_ok u"
  shows "\<exists>u'. add_localized_user e u = Some (u', SNMPv3_USM_OK) \<and> usm_ok u' \<and>
    u' = u\<lparr>usm_user_table := usm_user_table u'\<rparr> \<and> set (keys u') = insert e {x \<in> set (keys u). user_key x \<noteq> user_key e}"
proof -
  obtain ut where "USMUserTable_add_entry e (usm_user_table u) = Some (ut, SNMPv3_USM_OK)" "users_ok ut"
    "set (live ut) = insert e {x \<in> set (keys u). user_key x \<noteq> user_key e}"
    using user_add_ok [OF usm_okD(4) [OF assms], of e] by blast
  then show ?thesis using assms by (simp add: add_localized_user_def usm_ok_def)
qed

lemma delete_security_name_ok:
  assumes "names_ok t"
  shows "\<exists>t'. USMUserNameTable_delete_security_name s t = Some (t', SNMPv3_USM_OK) \<and> names_ok t' \<and>
    set (live t') \<subseteq> set (live t) \<and>
    (\<forall>n\<in>set (live t). ne_security_name n = s \<longrightarrow> (\<forall>m\<in>set (live t). ne_security_name m = s \<longrightarrow> m = n) \<longrightarrow> n \<notin> set (live t')) \<and>
    (\<forall>n\<in>set (live t). ne_security_name n \<noteq> s \<longrightarrow> n \<in> set (live t'))"
proof -
  have t: "table_ok t" "0 < max_entries t" "distinct (map ne_user_name (live t))" using assms by (simp_all add: names_ok_def)
  let ?P = "\<lambda>e. ne_security_name e = s"
  show ?thesis
  proof (cases "first_index ?P (live t)")
    case None
    then have "USMUserNameTable_delete_security_name s t = Some (t, SNMPv3_USM_OK)"
      using t(1) find_entry_live [OF t(1), of ?P] by (simp add: USMUserNameTable_delete_security_name_def)
    then show ?thesis using assms None by (auto simp: first_index_None)
  next
    case (Some i)
    note i = first_index_SomeD [OF Some]
    have l: "i < entries t" using i(1) length_live [OF t(1)] by simp
    obtain t' where t': "drop_entry i t = Some t'" "table_ok t'" "live t' = move_last i (live t)"
      "max_entries t' = max_entries t" using drop_entry_ok [OF t(1) l] by blast
    have d: "distinct (live t)" using t(3) by (simp add: distinct_map)
    have s: "set (live t') = set (live t) - {live t ! i}" using set_move_last_distinct [OF i(1) d] t'(3) by simp
    have "distinct (map ne_user_name (live t'))"
      using distinct_move_last [of i "map ne_user_name (live t)"] t(3) t'(3) i(1) by (simp add: map_move_last)
    then have "names_ok t'" using t' t(2) by (simp add: names_ok_def)
    moreover have "USMUserNameTable_delete_security_name s t = Some (t', SNMPv3_USM_OK)"
      using t(1) Some t'(1) find_entry_live [OF t(1), of ?P] by (simp add: USMUserNameTable_delete_security_name_def)
    moreover have "live t ! i \<in> set (live t)" using i(1) by simp
    ultimately show ?thesis using s i(2) by (intro exI [of _ t'] conjI ballI impI) (blast | simp)+
  qed
qed

lemma names_find:
  assumes "table_ok t"
  shows "USMUserNameTable_get_user_name buf_len s t = Some (case List.find (\<lambda>e. ne_security_name e = s) (live t) of
      None \<Rightarrow> Inl SNMPv3_USM_ERROR
    | Some e \<Rightarrow> if buf_len < length (ne_user_name e) then Inl SNMPv3_USM_ERROR else Inr (ne_user_name e))"
  using assms by (simp add: USMUserNameTable_get_user_name_def find_value_live split: option.splits)

lemma users_find:
  assumes "table_ok t"
  shows "USMUserTable_get_user_name buf_len s t = Some (case List.find (\<lambda>e. ue_security_name e = s) (live t) of
      None \<Rightarrow> Inl SNMPv3_USM_ERROR
    | Some e \<Rightarrow> if buf_len < length (ue_user_name e) then Inl SNMPv3_USM_ERROR else Inr (ue_user_name e))"
  using assms by (simp add: USMUserTable_get_user_name_def find_value_live split: option.splits)

subsection \<open>Keys on demand\<close>

text \<open>No user but \<open>user_name\<close> is known under the security name.\<close>

definition owned_by :: "u8 list \<Rightarrow> u8 list \<Rightarrow> usm \<Rightarrow> bool" where
  "owned_by user_name security_name u \<longleftrightarrow>
     (\<forall>m\<in>set (passwords u). ne_security_name m = security_name \<longrightarrow> ne_user_name m = user_name) \<and>
     (\<forall>e\<in>set (keys u). ue_security_name e = security_name \<longrightarrow> ue_user_name e = user_name)"

lemma names_unique:
  "names_ok t \<Longrightarrow> m \<in> set (live t) \<Longrightarrow> n \<in> set (live t) \<Longrightarrow> ne_user_name m = ne_user_name n \<Longrightarrow> m = n"
  by (metis distinct_map inj_onD names_ok_def)

lemma names_find_owned:
  assumes "names_ok t" and "n \<in> set (live t)" and "ne_security_name n = s"
    and "\<forall>m\<in>set (live t). ne_security_name m = s \<longrightarrow> ne_user_name m = ne_user_name n"
  shows "List.find (\<lambda>e. ne_security_name e = s) (live t) = Some n"
proof (rule find_unique [OF assms(2)])
  show "ne_security_name n = s" by (rule assms(3))
  show "m = n" if "m \<in> set (live t)" "ne_security_name m = s" for m
    using names_unique [OF assms(1) that(1) assms(2)] assms(4) that by blast
qed

text \<open>An entry that is there is used as it is.\<close>

lemma get_user_known:
  assumes "usm_ok u" and "e \<in> set (keys u)" and "ue_engine_id e = engine_id" and "ue_security_name e = security_name"
    and "owned_by (ue_user_name e) security_name u"
  shows "get_user H engine_id security_name u = Some (u, Some e)"
proof -
  have "List.find (\<lambda>x. ue_security_name x = security_name \<and> ue_engine_id x = engine_id) (keys u) = Some e"
  proof (rule find_unique)
    fix y
    assume y: "y \<in> set (keys u)" "ue_security_name y = security_name \<and> ue_engine_id y = engine_id"
    then have "user_key y = user_key e" using assms(3, 5) by (simp add: owned_by_def user_key_def)
    then show "y = e" using y(1) assms(1, 2) by (metis usm_ok_def users_ok_def distinct_map inj_onD)
  qed (use assms in simp_all)
  then show ?thesis using usm_okD [OF assms(1)] by (simp add: get_user_def lookups_live)
qed

text \<open>Without one, the keys are derived from the passwords and kept.\<close>

lemma get_user_fresh:
  assumes "usm_ok u" and "n \<in> set (passwords u)" and "ne_security_name n = security_name"
    and "owned_by (ne_user_name n) security_name u" and "engine_id \<noteq> []"
    and "\<forall>e\<in>set (keys u). ue_security_name e = security_name \<longrightarrow> ue_engine_id e \<noteq> engine_id"
    and "build_localized_keys H (usm_auth_priv u) engine_id (ne_auth_protocol n) (ne_priv_protocol n)
      (ne_auth_password n) (ne_priv_password n) = Some (Inr (auth_key, priv_key))"
  shows "\<exists>u'. get_user H engine_id security_name u = Some (u', Some (localized_entry engine_id n auth_key priv_key)) \<and>
    usm_ok u' \<and> u' = u\<lparr>usm_user_table := usm_user_table u'\<rparr> \<and>
    set (keys u') = insert (localized_entry engine_id n auth_key priv_key)
      {x \<in> set (keys u). user_key x \<noteq> (engine_id, ne_user_name n)}"
proof -
  let ?e = "localized_entry engine_id n auth_key priv_key"
  have k: "user_key ?e = (engine_id, ne_user_name n)" "ue_security_name ?e = security_name" "ue_engine_id ?e = engine_id"
    using assms(3) by (simp_all add: user_key_def localized_entry_def)
  have f: "List.find (\<lambda>e. ue_security_name e = security_name \<and> ue_engine_id e = engine_id) (keys u) = None"
    using assms(6) by (intro find_absent) auto
  have g: "List.find (\<lambda>e. ne_security_name e = security_name) (passwords u) = Some n"
    using names_find_owned [OF usm_okD(3) [OF assms(1)] assms(2, 3)] assms(4) by (simp add: owned_by_def)
  obtain u' where u': "add_localized_user ?e u = Some (u', SNMPv3_USM_OK)" "usm_ok u'"
    "u' = u\<lparr>usm_user_table := usm_user_table u'\<rparr>" "set (keys u') = insert ?e {x \<in> set (keys u). user_key x \<noteq> user_key ?e}"
    using add_localized_user_ok [OF assms(1), of ?e] by blast
  have "List.find (\<lambda>e. ue_security_name e = security_name \<and> ue_engine_id e = engine_id) (keys u') = Some ?e"
    using u'(4) k(2, 3) assms(6) by (intro find_unique) auto
  then have "get_user H engine_id security_name u = Some (u', Some ?e)"
    using f g u'(1) usm_okD [OF assms(1)] usm_okD(2) [OF u'(2)] assms(5, 7)
    by (simp add: get_user_def lookups_live)
  then show ?thesis using u'(2-4) k(1) by auto
qed

text \<open>After the passwords of a user are set, only keys derived from them are used, for every engine.\<close>

lemma add_usm_user_get_user:
  assumes "usm_ok u" and "owned_by (ne_user_name n) (ne_security_name n) u" and "engine_id \<noteq> []"
    and "build_localized_keys H (usm_auth_priv u) engine_id (ne_auth_protocol n) (ne_priv_protocol n)
      (ne_auth_password n) (ne_priv_password n) = Some (Inr (auth_key, priv_key))"
    and "build_localized_keys H (usm_auth_priv u) (local_snmp_engine_id u) (ne_auth_protocol n) (ne_priv_protocol n)
      (ne_auth_password n) (ne_priv_password n) \<noteq> None"
  shows "\<exists>u1 u2. add_usm_user H n u = Some (u1, SNMPv3_USM_OK) \<and> usm_ok u1 \<and> usm_ok u2 \<and>
    get_user H engine_id (ne_security_name n) u1 = Some (u2, Some (localized_entry engine_id n auth_key priv_key))"
proof -
  let ?s = "ne_security_name n" and ?un = "ne_user_name n" and ?local = "local_snmp_engine_id u"
  let ?e = "localized_entry engine_id n auth_key priv_key"
  obtain ua where ua: "delete_localized_user ?un u = Some (ua, SNMPv3_USM_OK)" "usm_ok ua"
    "ua = u\<lparr>usm_user_table := usm_user_table ua\<rparr>" "set (keys ua) = {e \<in> set (keys u). ue_user_name e \<noteq> ?un}"
    using delete_localized_user_ok [OF assms(1)] by blast
  obtain nt where nt: "USMUserNameTable_add_entry n (usm_user_name_table ua) = Some (nt, SNMPv3_USM_OK)" "names_ok nt"
    "set (live nt) = insert n {x \<in> set (passwords ua). ne_user_name x \<noteq> ?un}"
    using name_add_ok [OF usm_okD(3) [OF ua(2)], of n] by blast
  define ub where "ub = ua\<lparr>usm_user_name_table := nt\<rparr>"
  have ub: "usm_ok ub" "passwords ub = live nt" "keys ub = keys ua" "local_snmp_engine_id ub = ?local"
    "usm_auth_priv ub = usm_auth_priv u"
    using ua(2) nt(2) arg_cong [OF ua(3), of local_snmp_engine_id] arg_cong [OF ua(3), of usm_auth_priv]
    by (simp_all add: ub_def usm_ok_def)
  have n: "n \<in> set (passwords ub)" using nt(3) ub(2) by simp
  have pu: "passwords ua = passwords u" using arg_cong [OF ua(3), of usm_user_name_table] by simp
  have no_key: "\<forall>e\<in>set (keys ub). ue_security_name e \<noteq> ?s"
    using ub(3) ua(4) assms(2) by (auto simp: owned_by_def)
  have owned: "owned_by ?un ?s ub"
    using ub(2) nt(3) pu assms(2) no_key by (auto simp: owned_by_def)
  have add: "add_usm_user H n u = Option.bind (get_user H ?local ?s ub) (\<lambda>(u, dummy). Some (u, SNMPv3_USM_OK))"
    using ua(1) nt(1) ub(4) by (simp add: add_usm_user_def Let_def ub_def [symmetric])
  have fresh: "\<exists>u2. get_user H engine_id ?s u1 = Some (u2, Some ?e) \<and> usm_ok u2"
    if "usm_ok u1" "passwords u1 = passwords ub" "usm_auth_priv u1 = usm_auth_priv u" "owned_by ?un ?s u1"
      "\<forall>e\<in>set (keys u1). ue_security_name e = ?s \<longrightarrow> ue_engine_id e \<noteq> engine_id" for u1
    using get_user_fresh [OF that(1) _ refl that(4) assms(3) that(5), of H auth_key priv_key] that(2, 3) n assms(4) by auto
  have no_change: ?thesis if "\<exists>d. get_user H ?local ?s ub = Some (ub, d)"
  proof -
    have "add_usm_user H n u = Some (ub, SNMPv3_USM_OK)" using add that by auto
    moreover obtain u2 where "get_user H engine_id ?s ub = Some (u2, Some ?e)" "usm_ok u2"
      using fresh [of ub] ub owned no_key by auto
    ultimately show ?thesis using ub(1) by blast
  qed
  have find: "List.find (\<lambda>e. ue_security_name e = ?s \<and> ue_engine_id e = ?local) (keys ub) = None"
    using no_key by (intro find_absent) auto
  have find_n: "List.find (\<lambda>e. ne_security_name e = ?s) (passwords ub) = Some n"
    using names_find_owned [OF usm_okD(3) [OF ub(1)] n refl] owned by (simp add: owned_by_def)
  show ?thesis
  proof (cases "?local = []")
    case True
    then have "\<exists>d. get_user H ?local ?s ub = Some (ub, d)"
      using find find_n usm_okD [OF ub(1)] by (simp add: get_user_def lookups_live)
    then show ?thesis by (rule no_change)
  next
    case ne: False
    obtain res where res: "build_localized_keys H (usm_auth_priv ub) ?local (ne_auth_protocol n) (ne_priv_protocol n)
      (ne_auth_password n) (ne_priv_password n) = Some res" using assms(5) ub(5) by auto
    show ?thesis
    proof (cases res)
      case (Inl rc)
      then have "\<exists>d. get_user H ?local ?s ub = Some (ub, d)"
        using find find_n usm_okD [OF ub(1)] ne res by (simp add: get_user_def lookups_live)
      then show ?thesis by (rule no_change)
    next
      case (Inr r)
      obtain ak pk where r: "r = (ak, pk)" by fastforce
      let ?l = "localized_entry ?local n ak pk"
      obtain u1 where u1: "get_user H ?local ?s ub = Some (u1, Some ?l)" "usm_ok u1"
        "u1 = ub\<lparr>usm_user_table := usm_user_table u1\<rparr>"
        "set (keys u1) = insert ?l {x \<in> set (keys ub). user_key x \<noteq> (?local, ?un)}"
        using get_user_fresh [OF ub(1) n refl owned ne _ res [unfolded Inr r]] no_key by auto
      have same: "passwords u1 = passwords ub" "usm_auth_priv u1 = usm_auth_priv u"
        using arg_cong [OF u1(3), of usm_user_name_table] arg_cong [OF u1(3), of usm_auth_priv] ub(5) by simp_all
      have l: "ue_user_name ?l = ?un" "ue_security_name ?l = ?s" "ue_engine_id ?l = ?local"
        by (simp_all add: localized_entry_def)
      have owned1: "owned_by ?un ?s u1" using owned u1(4) same(1) l by (auto simp: owned_by_def)
      have "\<exists>u2. get_user H engine_id ?s u1 = Some (u2, Some ?e) \<and> usm_ok u2"
      proof (cases "engine_id = ?local")
        case True
        then have "?l = ?e" using res Inr r assms(4) ub(5) by simp
        then show ?thesis
          using get_user_known [OF u1(2), of ?l ?local ?s H] u1(2, 4) l owned1 True by auto
      next
        case False
        then show ?thesis using fresh [OF u1(2) same owned1] u1(4) l no_key by auto
      qed
      then show ?thesis using add u1(1, 2) by auto
    qed
  qed
qed

subsection \<open>Deletion of users\<close>

lemma delete_usm_user_gone:
  assumes "usm_ok u" and "owned_by user_name security_name u" and "length user_name \<le> MAXLEN_USMUSERNAME"
  shows "\<exists>u'. delete_usm_user security_name u = Some u' \<and> usm_ok u' \<and>
    (\<forall>engine_id. get_user H engine_id security_name u' = Some (u', None))"
proof -
  obtain nt where nt: "USMUserNameTable_delete_security_name security_name (usm_user_name_table u) = Some (nt, SNMPv3_USM_OK)"
    "names_ok nt" "set (live nt) \<subseteq> set (passwords u)"
    "\<forall>n\<in>set (passwords u). ne_security_name n = security_name \<longrightarrow>
      (\<forall>m\<in>set (passwords u). ne_security_name m = security_name \<longrightarrow> m = n) \<longrightarrow> n \<notin> set (live nt)"
    using delete_security_name_ok [OF usm_okD(3) [OF assms(1)], of security_name] by blast
  have none: "ne_security_name n \<noteq> security_name" if "n \<in> set (live nt)" for n
  proof
    assume s: "ne_security_name n = security_name"
    have "\<forall>m\<in>set (passwords u). ne_security_name m = security_name \<longrightarrow> m = n"
      using s that nt(3) assms(2) names_unique [OF usm_okD(3) [OF assms(1)]] by (auto simp: owned_by_def)
    then show False using nt(3, 4) that s by blast
  qed
  define ub where "ub = u\<lparr>usm_user_name_table := nt\<rparr>"
  have ub: "usm_ok ub" "passwords ub = live nt" "keys ub = keys u"
    using assms(1) nt(2) by (simp_all add: ub_def usm_ok_def)
  have fn: "List.find (\<lambda>e. ne_security_name e = security_name) (live nt) = None" using none by (intro find_absent) auto
  have gone: "get_user H engine_id security_name u' = Some (u', None)"
    if "usm_ok u'" "passwords u' = live nt" "\<forall>e\<in>set (keys u'). ue_security_name e \<noteq> security_name" for u' engine_id
  proof -
    have "List.find (\<lambda>e. ue_security_name e = security_name \<and> ue_engine_id e = engine_id) (keys u') = None"
      "List.find (\<lambda>e. ue_security_name e = security_name) (keys u') = None" using that(3) by (auto simp: find_None_iff)
    then show ?thesis using fn that(2) usm_okD [OF that(1)] by (simp add: get_user_def lookups_live)
  qed
  have d: "delete_usm_user security_name u = Option.bind (get_user_name MAXLEN_USMUSERNAME security_name ub)
      (\<lambda>result. case result of Inl _ \<Rightarrow> Some ub
       | Inr user_name \<Rightarrow> Option.bind (delete_localized_user user_name ub) (\<lambda>(u, _). Some u))"
    using nt(1) by (simp add: delete_usm_user_def Let_def ub_def [symmetric])
  note g = names_find [OF usm_okD(1) [OF ub(1)]] users_find [OF usm_okD(2) [OF ub(1)]]
  show ?thesis
  proof (cases "List.find (\<lambda>e. ue_security_name e = security_name) (keys u)")
    case None
    then have "delete_usm_user security_name u = Some ub"
      using fn ub(2, 3) by (simp add: d get_user_name_def g)
    moreover have "\<forall>e\<in>set (keys ub). ue_security_name e \<noteq> security_name" using None ub(3) by (auto simp: find_None_iff)
    ultimately show ?thesis using gone [OF ub(1, 2)] ub(1) by blast
  next
    case (Some e)
    then have "ue_user_name e = user_name" using assms(2) by (auto simp: owned_by_def find_Some_iff)
    moreover obtain u' where u': "delete_localized_user user_name ub = Some (u', SNMPv3_USM_OK)" "usm_ok u'"
      "u' = ub\<lparr>usm_user_table := usm_user_table u'\<rparr>" "set (keys u') = {e \<in> set (keys ub). ue_user_name e \<noteq> user_name}"
      using delete_localized_user_ok [OF ub(1)] by blast
    ultimately have "delete_usm_user security_name u = Some u'"
      using fn ub(2, 3) Some assms(3) by (simp add: d get_user_name_def g)
    moreover have "passwords u' = live nt" using arg_cong [OF u'(3), of usm_user_name_table] ub(2) by simp
    moreover have "\<forall>e\<in>set (keys u'). ue_security_name e \<noteq> security_name" using u'(4) ub(3) assms(2) by (auto simp: owned_by_def)
    ultimately show ?thesis using gone u'(2) by blast
  qed
qed

text \<open>\<open>remove_engine_id\<close> deletes the keys of a user with that name, and leaves the keys for the engine.\<close>

lemma remove_engine_id_keys:
  assumes "usm_ok u"
  shows "\<exists>u'. remove_engine_id engine_id u = Some (u', SNMPv3_USM_OK) \<and> usm_ok u' \<and>
    set (keys u') = {e \<in> set (keys u). ue_user_name e \<noteq> engine_id} \<and> passwords u' = passwords u"
proof -
  obtain tt where tt: "USMTimeTable_delete_entry engine_id (usm_time_table u) = Some (tt, SNMPv3_USM_OK)" "times_ok tt"
    using delete_entry_ok [OF usm_okD(5) [OF assms]] by blast
  obtain u' where u': "delete_localized_user engine_id u = Some (u', SNMPv3_USM_OK)" "usm_ok u'"
    "set (keys u') = {e \<in> set (keys u). ue_user_name e \<noteq> engine_id}"
    using delete_localized_user_ok [OF assms] by blast
  then obtain ut where ut: "USMUserTable_delete_entries engine_id (usm_user_table u) = Some (ut, SNMPv3_USM_OK)"
    "u' = u\<lparr>usm_user_table := ut\<rparr>" by (auto simp: delete_localized_user_def bind_eq_Some_iff)
  have "usm_ok (u\<lparr>usm_time_table := tt, usm_user_table := ut\<rparr>)" using u'(2) tt(2) ut(2) by (simp add: usm_ok_def)
  moreover have "remove_engine_id engine_id u = Some (u\<lparr>usm_time_table := tt, usm_user_table := ut\<rparr>, SNMPv3_USM_OK)"
    using tt(1) ut(1) by (simp add: remove_engine_id_def usm_results)
  ultimately show ?thesis using u'(3) ut(2) by auto
qed

end
