(* ===== verification/Usm_Replay.thy ===== *)
theory Usm_Replay
  imports Usm_Time
begin

section \<open>Replay protection over the life of a time table\<close>

text \<open>
  The operations of \<open>USMTimeTable\<close> as steps of a state machine whose state is the table and the local clock:
  time passes, a message is checked, an engine id is looked up (and added in discovery mode), the sender adds
  an engine, and an engine of a set \<open>D\<close> is deleted.
\<close>

inductive time_step :: "u8 list set \<Rightarrow> time_table \<times> int \<Rightarrow> time_table \<times> int \<Rightarrow> bool" for D where
  tick: "now \<le> now' \<Longrightarrow> sane now' \<Longrightarrow> time_step D (t, now) (t, now')"
| check: "sane boots \<Longrightarrow> sane time \<Longrightarrow>
    USMTimeTable_check_time engine_id boots time now t = Some (t', rc) \<Longrightarrow> time_step D (t, now) (t', now)"
| lookup: "length engine_id \<le> MAXLENGTH_ENGINEID \<Longrightarrow>
    USMTimeTable_check_engine_id discovery engine_id now t = Some (t', rc) \<Longrightarrow> time_step D (t, now) (t', now)"
| add_unknown: "length engine_id \<le> MAXLENGTH_ENGINEID \<Longrightarrow>
    USMTimeTable_get_time engine_id now t = Some (SNMPv3_USM_UNKNOWN_ENGINEID, b, tm) \<Longrightarrow>
    sane boots \<Longrightarrow> sane time \<Longrightarrow>
    USMTimeTable_add_entry engine_id boots time now t = Some (t', rc) \<Longrightarrow> time_step D (t, now) (t', now)"
| delete: "engine_id \<in> D \<Longrightarrow>
    USMTimeTable_delete_entry engine_id t = Some (t', rc) \<Longrightarrow> time_step D (t, now) (t', now)"

inductive_cases time_stepE: "time_step D s s'"

abbreviation time_steps :: "u8 list set \<Rightarrow> time_table \<times> int \<Rightarrow> time_table \<times> int \<Rightarrow> bool" where
  "time_steps D \<equiv> (time_step D)\<^sup>*\<^sup>*"

subsection \<open>Invariant\<close>

definition times_inv :: "time_table \<times> int \<Rightarrow> bool" where
  "times_inv s \<longleftrightarrow> (case s of (t, now) \<Rightarrow> times_ok t \<and> sane now \<and>
     - now \<le> te_time_diff (hd (live t)) \<and> te_time_diff (hd (live t)) \<le> 0 \<and>
     (\<forall>e\<in>set (others t). clocked now e))"

lemma times_invE:
  assumes "times_inv (t, now)"
  obtains own where "live t = own # others t" and "times_ok t" and "sane now" and "- now \<le> te_time_diff own"
    and "te_time_diff own \<le> 0" and "\<forall>e\<in>set (others t). clocked now e"
proof -
  have t: "times_ok t" using assms by (simp add: times_inv_def)
  obtain own es where "live t = own # es" by (rule times_okE [OF t])
  then show ?thesis using that assms by (auto simp: times_inv_def others_def)
qed

lemma times_inv_create:
  assumes "sane now" and "USMTimeTable_create engine_id boots now = Some t"
  shows "times_inv (t, now)"
proof -
  have "0 \<le> now" "now < 2 ^ 63" using assms(1) by (simp_all add: sane_def)
  then show ?thesis using create_ok [of now engine_id boots] assms by (auto simp: times_inv_def others_def)
qed

text \<open>The result of a check in every case, for a table that meets the invariant.\<close>

lemma check_time_cases:
  assumes "times_inv (t, now)" and "sane boots" and "sane time"
  obtains (own) "engine_id = te_engine_id (hd (live t))" and
      "USMTimeTable_check_time engine_id boots time now t =
        Some (t, if te_engine_boots (hd (live t)) \<noteq> 2147483647 \<and> boots = te_engine_boots (hd (live t)) \<and>
          abs (now + te_time_diff (hd (live t)) - time) \<le> 150 then SNMPv3_USM_OK else SNMPv3_USM_NOT_IN_TIME_WINDOW)"
  | (unknown) "engine_id \<notin> te_engine_id ` set (live t)" and
      "USMTimeTable_check_time engine_id boots time now t = Some (t, SNMPv3_USM_UNKNOWN_ENGINEID)"
  | (refused) e where "e \<in> set (others t)" and "te_engine_id e = engine_id" and "outside_window boots time now e" and
      "USMTimeTable_check_time engine_id boots time now t = Some (t, SNMPv3_USM_NOT_IN_TIME_WINDOW)"
  | (accepted) e t' where "e \<in> set (others t)" and "te_engine_id e = engine_id" and
      "\<not> outside_window boots time now e" and
      "USMTimeTable_check_time engine_id boots time now t = Some (t', SNMPv3_USM_OK)" and "times_ok t'" and
      "hd (live t') = hd (live t)" and
      "others t' = map (\<lambda>x. if te_engine_id x = engine_id then advance boots time now e else x) (others t)"
proof -
  obtain me where i: "live t = me # others t" "times_ok t" "sane now" "- now \<le> te_time_diff me" "te_time_diff me \<le> 0"
    "\<forall>e\<in>set (others t). clocked now e" by (rule times_invE [OF assms(1)])
  have d: "abs (te_time_diff me) < 2 ^ 62" using i(3-5) by (simp add: sane_def)
  consider "engine_id = te_engine_id me" | e where "e \<in> set (others t)" "te_engine_id e = engine_id"
    | "engine_id \<notin> te_engine_id ` set (live t)" using i(1) by auto
  then show ?thesis
  proof cases
    case 1
    then show ?thesis using own check_time_local [OF i(2) _ assms(3) i(3) d, of boots] i(1) by simp
  next
    case (2 e)
    note r = check_time_remote [OF i(2) 2(1) _ assms(2, 3) i(3)]
    show ?thesis
    proof (cases "outside_window boots time now e")
      case True
      then show ?thesis using refused [OF 2] r(1) 2 i(6) by simp
    next
      case False
      then show ?thesis using accepted [OF 2] r(2) 2 i(6) by auto
    qed
  next
    case 3
    then show ?thesis using unknown check_time_unknown [OF i(2)] by blast
  qed
qed

lemma engine_id_cases:
  assumes "times_inv (t, now)"
  shows "find_entry 0 (\<lambda>e. te_engine_id e = engine_id) t =
    Some (first_index (\<lambda>e. te_engine_id e = engine_id) (live t))"
  using assms by (intro find_entry_live) (simp add: times_inv_def times_ok_def)

lemma times_inv_add:
  assumes "times_inv (t, now)" and "length engine_id \<le> MAXLENGTH_ENGINEID"
    and "engine_id \<notin> te_engine_id ` set (live t)" and "sane boots" and "sane time"
  shows "\<exists>t'. USMTimeTable_add_entry engine_id boots time now t = Some (t', SNMPv3_USM_OK) \<and> times_inv (t', now) \<and>
    hd (live t') = hd (live t) \<and> others t' = others t @ [fresh_entry engine_id boots time now]"
proof -
  obtain own where i: "live t = own # others t" "times_ok t" "sane now" "- now \<le> te_time_diff own"
    "te_time_diff own \<le> 0" "\<forall>e\<in>set (others t). clocked now e" by (rule times_invE [OF assms(1)])
  obtain t' where t': "USMTimeTable_add_entry engine_id boots time now t = Some (t', SNMPv3_USM_OK)" "times_ok t'"
    "live t' = live t @ [fresh_entry engine_id boots time now]" using add_entry_ok [OF i(2) assms(2, 3)] by blast
  have "as_long (time - now) = time - now" using i(3) assms(5) by (intro as_long_id) (simp_all add: sane_def)
  then have "clocked now (fresh_entry engine_id boots time now)"
    using i(3) assms(4, 5) by (simp add: clocked_def fresh_entry_def sane_def)
  moreover have "hd (live t') = own" "others t' = others t @ [fresh_entry engine_id boots time now]"
    using t'(3) i(1) by (simp, metis append_Cons list.sel(3) others_def)
  ultimately show ?thesis using t' i by (simp add: times_inv_def)
qed

lemma get_time_unknown:
  assumes "times_inv (t, now)"
  shows "USMTimeTable_get_time engine_id now t = Some (SNMPv3_USM_UNKNOWN_ENGINEID, b, tm) \<Longrightarrow>
    engine_id \<notin> te_engine_id ` set (live t)"
proof -
  assume g: "USMTimeTable_get_time engine_id now t = Some (SNMPv3_USM_UNKNOWN_ENGINEID, b, tm)"
  have t: "table_ok t" using assms by (simp add: times_inv_def times_ok_def)
  show "engine_id \<notin> te_engine_id ` set (live t)"
  proof (cases "first_index (\<lambda>e. te_engine_id e = engine_id) (live t)")
    case None
    then show ?thesis by (auto simp: first_index_None)
  next
    case (Some i)
    then have "i < entries t" using first_index_SomeD(1) [OF Some] length_live [OF t] by simp
    then show ?thesis using g Some t slot_live [OF t, of i] engine_id_cases [OF assms, of engine_id]
      by (simp add: USMTimeTable_get_time_def SNMPv3_USM_UNKNOWN_ENGINEID_def SNMPv3_USM_OK_def)
  qed
qed

text \<open>What a step does to the entry of an engine that it does not delete: it stays or advances.\<close>

definition ahead :: "int \<Rightarrow> int \<Rightarrow> time_entry \<Rightarrow> bool" where
  "ahead boots time e \<longleftrightarrow> boots < te_engine_boots e \<or> boots = te_engine_boots e \<and> time \<le> the (te_latest e)"

lemma ahead_advance:
  "ahead boots time e \<Longrightarrow> ahead boots time (advance boots' time' now e)"
  by (auto simp: ahead_def advance_def)

lemma advance_ahead: "\<not> outside_window boots time now e \<Longrightarrow> ahead boots time (advance boots time now e)"
  by (auto simp: ahead_def advance_def outside_window_def)

lemma time_step_keeps:
  assumes "time_step D s s'" and "times_inv s"
  shows "times_inv s'" and "\<And>e. e \<in> set (others (fst s)) \<Longrightarrow> te_engine_id e \<notin> D \<Longrightarrow> ahead boots time e \<Longrightarrow>
    \<exists>e'\<in>set (others (fst s')). te_engine_id e' = te_engine_id e \<and> ahead boots time e'"
proof -
  have "times_inv s' \<and> (\<forall>e\<in>set (others (fst s)). te_engine_id e \<notin> D \<longrightarrow> ahead boots time e \<longrightarrow>
    (\<exists>e'\<in>set (others (fst s')). te_engine_id e' = te_engine_id e \<and> ahead boots time e'))"
    using assms
  proof cases
    case (tick now now' t)
    then show ?thesis using assms(2) clocked_mono [of now _ now'] by (auto simp: times_inv_def)
  next
    case (check b tm engine_id now t t' rc)
    note inv = assms(2) [unfolded check(1)]
    obtain own where i: "live t = own # others t" "times_ok t" "sane now" "- now \<le> te_time_diff own"
      "te_time_diff own \<le> 0" "\<forall>e\<in>set (others t). clocked now e" by (rule times_invE [OF inv])
    from inv check(3, 4) show ?thesis
    proof (cases rule: check_time_cases [where engine_id = engine_id])
      case (accepted e u)
      then have u: "u = t'" using check(5) by simp
      have "clocked now (advance b tm now e)" using accepted(1) i(3, 6) check(3, 4) by (simp add: clocked_advance)
      then have inv': "times_inv (t', now)" using accepted(5-7) i u by (auto simp: times_inv_def)
      have "\<exists>e'\<in>set (others t'). te_engine_id e' = te_engine_id x \<and> ahead boots time e'"
        if x: "x \<in> set (others t)" "ahead boots time x" for x
      proof (cases "te_engine_id x = engine_id")
        case True
        have "distinct (map te_engine_id (others t))" using i(1, 2) by (simp add: times_ok_def)
        then have "x = e" using True x(1) accepted(1, 2) by (metis distinct_map inj_onD)
        then have "advance b tm now e \<in> set (others t')" using accepted(1, 2, 7) u by (auto intro: rev_image_eqI)
        then show ?thesis using ahead_advance [OF x(2), of b tm now] \<open>x = e\<close> by (intro bexI [of _ "advance b tm now e"]) simp_all
      next
        case False
        then show ?thesis using accepted(7) u x by auto
      qed
      then show ?thesis using inv' check(1, 2) by simp
    qed (use check inv in auto)
  next
    case (lookup engine_id discovery now t t' rc)
    note inv = assms(2) [unfolded lookup(1)]
    have tb: "table t \<noteq> None" using inv by (simp add: times_inv_def times_ok_def)
    show ?thesis
    proof (cases "t' = t")
      case False
      then have "discovery" "engine_id \<notin> te_engine_id ` set (live t)"
        "USMTimeTable_add_entry engine_id 0 0 now t = Some (t', rc)"
        using lookup(4) tb engine_id_cases [OF inv, of engine_id]
        by (auto simp: USMTimeTable_check_engine_id_def first_index_None split: if_splits option.splits)
      then show ?thesis using times_inv_add [OF inv lookup(3), of 0 0] lookup(1, 2) by (auto simp: sane_def)
    qed (use lookup inv in auto)
  next
    case (add_unknown engine_id now t b tm bt tmm t' rc)
    note inv = assms(2) [unfolded add_unknown(1)]
    then show ?thesis
      using times_inv_add [OF inv add_unknown(3) get_time_unknown [OF inv add_unknown(4)] add_unknown(5, 6)] add_unknown(1, 2, 7)
      by auto
  next
    case (delete engine_id t t' rc now)
    note inv = assms(2) [unfolded delete(1)]
    then show ?thesis using delete_entry_ok [of t engine_id] delete by (auto simp: times_inv_def others_def)
  qed
  then show "times_inv s'" and "\<And>e. e \<in> set (others (fst s)) \<Longrightarrow> te_engine_id e \<notin> D \<Longrightarrow> ahead boots time e \<Longrightarrow>
    \<exists>e'\<in>set (others (fst s')). te_engine_id e' = te_engine_id e \<and> ahead boots time e'" by blast+
qed

lemma time_steps_keep:
  assumes "time_steps D s s'" and "times_inv s"
  shows "times_inv s' \<and> (\<forall>e\<in>set (others (fst s)). te_engine_id e \<notin> D \<longrightarrow> ahead boots time e \<longrightarrow>
    (\<exists>e'\<in>set (others (fst s')). te_engine_id e' = te_engine_id e \<and> ahead boots time e'))"
  using assms
proof (induction rule: rtranclp_induct)
  case (step s' s'')
  then show ?case using time_step_keeps [of D s' s''] by metis
qed auto

text \<open>No step changes entry 0, that of the local engine.\<close>

lemma time_step_local:
  assumes "time_step D (t, now) (t', now')" and "times_inv (t, now)"
  shows "hd (live t') = hd (live t)"
  using assms(1)
proof cases
  case (check b tm engine_id rc)
  from assms(2) check(2, 3) show ?thesis
    by (cases rule: check_time_cases [where engine_id = engine_id]) (use check in auto)
next
  case (lookup engine_id discovery rc)
  have tb: "table t \<noteq> None" using assms(2) by (simp add: times_inv_def times_ok_def)
  show ?thesis
  proof (cases "t' = t")
    case False
    then have "engine_id \<notin> te_engine_id ` set (live t)" "USMTimeTable_add_entry engine_id 0 0 now t = Some (t', rc)"
      using lookup tb engine_id_cases [OF assms(2), of engine_id]
      by (auto simp: USMTimeTable_check_engine_id_def first_index_None split: if_splits option.splits)
    then show ?thesis using times_inv_add [OF assms(2) lookup(2), of 0 0] by (auto simp: sane_def)
  qed simp
next
  case (add_unknown engine_id b tm boots tmm rc)
  then show ?thesis
    using times_inv_add [OF assms(2) add_unknown(2) get_time_unknown [OF assms(2) add_unknown(3)] add_unknown(4, 5)] by auto
next
  case (delete engine_id rc)
  have "times_ok t" using assms(2) by (simp add: times_inv_def)
  then show ?thesis using delete_entry_ok [of t engine_id] delete by auto
qed simp

lemma time_steps_local:
  assumes "time_steps D (t, now) (t', now')" and "times_inv (t, now)"
  shows "hd (live t') = hd (live t)"
  using assms
proof (induction "(t', now')" arbitrary: t' now' rule: rtranclp_induct)
  case (step s)
  then show ?case using time_step_local time_steps_keep by (metis surj_pair)
qed simp

subsection \<open>Messages accepted one after the other\<close>

lemma accepted_ahead:
  assumes "times_inv (t, now)" and "sane boots" and "sane time" and "engine_id \<noteq> te_engine_id (hd (live t))"
    and "USMTimeTable_check_time engine_id boots time now t = Some (t', SNMPv3_USM_OK)"
  shows "\<exists>e\<in>set (others t). te_engine_id e = engine_id \<and> \<not> outside_window boots time now e"
    and "\<exists>e\<in>set (others t'). te_engine_id e = engine_id \<and> ahead boots time e"
proof -
  from assms(1-3) have "(\<exists>e\<in>set (others t). te_engine_id e = engine_id \<and> \<not> outside_window boots time now e) \<and>
    (\<exists>e\<in>set (others t'). te_engine_id e = engine_id \<and> ahead boots time e)"
  proof (cases rule: check_time_cases [where engine_id = engine_id])
    case (accepted e u)
    have "advance boots time now e \<in> set (others u)" using accepted(1, 2, 7) by (auto intro: rev_image_eqI)
    moreover have "te_engine_id (advance boots time now e) = engine_id" using accepted(2) by simp
    moreover have "u = t'" using accepted(4) assms(5) by simp
    ultimately show ?thesis using accepted(1-3) advance_ahead [OF accepted(3)] by blast
  qed (use assms(4, 5) in \<open>simp_all add: usm_results\<close>)
  then show "\<exists>e\<in>set (others t). te_engine_id e = engine_id \<and> \<not> outside_window boots time now e"
    and "\<exists>e\<in>set (others t'). te_engine_id e = engine_id \<and> ahead boots time e" by blast+
qed

lemma not_outside_ahead:
  assumes "clocked now e" and "ahead boots1 time1 e" and "\<not> outside_window boots2 time2 now e"
  shows "boots1 < boots2 \<or> boots1 = boots2 \<and> time1 - 150 \<le> time2"
  using assms by (auto simp: ahead_def outside_window_def elim!: clockedE)

lemma accepted_twice:
  assumes "times_inv (t, now)" and "engine_id \<noteq> te_engine_id (hd (live t))" and "engine_id \<notin> D"
    and "sane boots1" and "sane time1" and "sane boots2" and "sane time2"
    and "USMTimeTable_check_time engine_id boots1 time1 now t = Some (t1, SNMPv3_USM_OK)"
    and "time_steps D (t1, now) (t2, now2)"
    and "USMTimeTable_check_time engine_id boots2 time2 now2 t2 = Some (t3, SNMPv3_USM_OK)"
  shows "boots1 < boots2 \<or> boots1 = boots2 \<and> time1 - 150 \<le> time2"
proof -
  have i1: "times_inv (t1, now)"
    by (rule time_step_keeps(1) [OF time_step.check [OF assms(4, 5, 8)] assms(1)])
  obtain e where e: "e \<in> set (others t1)" "te_engine_id e = engine_id" "ahead boots1 time1 e"
    using accepted_ahead(2) [OF assms(1, 4, 5, 2, 8)] by blast
  have k: "times_inv (t2, now2)" "\<exists>e'\<in>set (others t2). te_engine_id e' = engine_id \<and> ahead boots1 time1 e'"
    using time_steps_keep [OF assms(9) i1, of boots1 time1] e assms(3) by auto
  obtain e' where e': "e' \<in> set (others t2)" "te_engine_id e' = engine_id" "ahead boots1 time1 e'" using k(2) by blast
  obtain own2 where i2: "live t2 = own2 # others t2" "times_ok t2" "\<forall>e\<in>set (others t2). clocked now2 e"
    by (rule times_invE [OF k(1)])
  have d: "distinct (map te_engine_id (own2 # others t2))" using i2(1, 2) by (simp add: times_ok_def)
  have "engine_id \<noteq> te_engine_id (hd (live t2))" using d e'(1, 2) i2(1) imageI [OF e'(1), of te_engine_id] by auto
  then obtain f where f: "f \<in> set (others t2)" "te_engine_id f = engine_id" "\<not> outside_window boots2 time2 now2 f"
    using accepted_ahead(1) [OF k(1) assms(6, 7) _ assms(10)] by blast
  have "f = e'" using d f(1, 2) e'(1, 2) by (simp add: distinct_map) (metis inj_onD)
  then show ?thesis using not_outside_ahead [of now2 e' boots1 time1 boots2 time2] i2(3) e' f(3) by blast
qed

end
