(* ===== verification/Usm_Message.thy ===== *)
theory Usm_Message
  imports Usm_Lcd Usm_Replay Snmp_Message
begin

section \<open>Received messages in the user security model\<close>

text \<open>
  \<open>USM::process_msg\<close> (\<^verbatim>\<open>src/snmp++/src/usm_v3.cpp\<close>): the security parameters are parsed, the engine, the user and
  the level are checked, the message is authenticated, its time is checked, and it is decrypted.  The state holds the
  model with its counters and what the out parameters have received so far; it is returned with the result on
  every path; after a parse error the engine id that was parsed already is not kept.  \<open>ms_scoped_pdu\<close> are the octets of \<open>scopedPDU\<close>
  that have been written last, and \<open>ms_scoped_length\<close> is \<open>scopedPDULength\<close>.  \<open>wholeMsg\<close> is the list of its
  \<open>wholeMsgLength\<close> octets, and the pointers \<open>securityParameters\<close> and \<open>msgData\<close> are the octets from there on.
\<close>

record usm_stats =
  st_unsupported_sec_levels :: u32
  st_not_in_time_windows :: u32
  st_unknown_user_names :: u32
  st_unknown_engine_ids :: u32
  st_wrong_digests :: u32
  st_decryption_errors :: u32

definition inc_stat :: "u32 \<Rightarrow> u32" where
  "inc_stat n = (if n = 0xFFFFFFFF then 0 else n + 1)"

definition inc_stats_unsupported_sec_levels :: "usm_stats \<Rightarrow> usm_stats" where
  "inc_stats_unsupported_sec_levels s = s\<lparr>st_unsupported_sec_levels := inc_stat (st_unsupported_sec_levels s)\<rparr>"
definition inc_stats_not_in_time_windows :: "usm_stats \<Rightarrow> usm_stats" where
  "inc_stats_not_in_time_windows s = s\<lparr>st_not_in_time_windows := inc_stat (st_not_in_time_windows s)\<rparr>"
definition inc_stats_unknown_user_names :: "usm_stats \<Rightarrow> usm_stats" where
  "inc_stats_unknown_user_names s = s\<lparr>st_unknown_user_names := inc_stat (st_unknown_user_names s)\<rparr>"
definition inc_stats_unknown_engine_ids :: "usm_stats \<Rightarrow> usm_stats" where
  "inc_stats_unknown_engine_ids s = s\<lparr>st_unknown_engine_ids := inc_stat (st_unknown_engine_ids s)\<rparr>"
definition inc_stats_wrong_digests :: "usm_stats \<Rightarrow> usm_stats" where
  "inc_stats_wrong_digests s = s\<lparr>st_wrong_digests := inc_stat (st_wrong_digests s)\<rparr>"
definition inc_stats_decryption_errors :: "usm_stats \<Rightarrow> usm_stats" where
  "inc_stats_decryption_errors s = s\<lparr>st_decryption_errors := inc_stat (st_decryption_errors s)\<rparr>"

text \<open>A null pointer to a key is the empty list; a null \<open>securityName\<close> is \<open>None\<close>.\<close>

record sec_state_ref =
  ssr_msg_user_name :: "u8 list"
  ssr_security_name :: "u8 list option"
  ssr_security_engine_id :: "u8 list"
  ssr_auth_protocol :: int
  ssr_auth_key :: "u8 list"
  ssr_priv_protocol :: int
  ssr_priv_key :: "u8 list"
  ssr_security_level :: int

record msg_state =
  ms_usm :: usm
  ms_stats :: usm_stats
  ms_whole_msg :: "u8 list"
  ms_security_engine_id :: "u8 list"
  ms_security_name :: "u8 list"
  ms_scoped_pdu :: "u8 list"
  ms_scoped_length :: nat
  ms_max_size :: int
  ms_ref :: sec_state_ref

type_synonym msg_result = "(msg_state \<times> int) option"

subsection \<open>Security parameters\<close>

record sec_params =
  sp_engine_id :: "u8 list"
  sp_engine_boots :: u64
  sp_engine_time :: u64
  sp_user_name :: "u8 list"
  sp_auth_len :: nat
  sp_auth_offset :: int
  sp_priv_param :: "u8 list"

text \<open>The parse: NULL and every check that returns \<open>SNMPv3_USM_PARSE_ERROR\<close> is \<open>Inl\<close>.  The offset of the
  authentication parameters counts from \<open>securityParameters\<close>.\<close>

definition no_null :: "'a asn \<Rightarrow> 'a usm_result" where
  "no_null r = (case r of None \<Rightarrow> None | Some (Inl _) \<Rightarrow> Some (Inl SNMPv3_USM_PARSE_ERROR) | Some (Inr x) \<Rightarrow> Some (Inr x))"

definition parse_sec_params :: "u8 list \<Rightarrow> int \<Rightarrow> sec_params usm_result" where
  "parse_sec_params securityParameters securityParametersLength =
     on_ok (no_null (asn_parse_header securityParameters securityParametersLength)) (\<lambda>(sp, spLength, type).
     if type \<noteq> ASN_SEQ_CON then Some (Inl SNMPv3_USM_PARSE_ERROR)
     else on_ok (no_null (asn_parse_string sp spLength (int (MAXLENGTH_ENGINEID + 1)))) (\<lambda>(sp, spLength, _, engine_id).
     on_ok (no_null (asn_parse_int sp spLength)) (\<lambda>(sp, spLength, _, engineBoots).
     if sint engineBoots < 0 then Some (Inl SNMPv3_USM_PARSE_ERROR)
     else on_ok (no_null (asn_parse_int sp spLength)) (\<lambda>(sp, spLength, _, engineTime).
     if sint engineTime < 0 then Some (Inl SNMPv3_USM_PARSE_ERROR)
     else on_ok (no_null (asn_parse_string sp spLength (int MAXLEN_USMUSERNAME))) (\<lambda>(sp, spLength, _, user_name).
     on_ok (no_null (asn_parse_string sp spLength (int SNMPv3_AP_MAXLENGTH_AUTHPARAM))) (\<lambda>(sp, spLength, _, authParam).
     let auth_offset = int (length securityParameters) - int (length sp) - int (length authParam) in
     on_ok (no_null (asn_parse_string sp spLength (int SNMPv3_AP_MAXLENGTH_PRIVPARAM))) (\<lambda>(sp, spLength, _, privParam).
     if spLength \<noteq> 0 then Some (Inl SNMPv3_USM_PARSE_ERROR)
     else if length user_name > MAXLEN_USMUSERNAME then Some (Inl SNMPv3_USM_PARSE_ERROR)
     else Some (Inr \<lparr>sp_engine_id = engine_id, sp_engine_boots = engineBoots, sp_engine_time = engineTime,
       sp_user_name = user_name, sp_auth_len = length authParam, sp_auth_offset = auth_offset,
       sp_priv_param = privParam\<rparr>))))))))"

subsection \<open>Processing\<close>

text \<open>The user of a message without a user name: \<open>memset(user, 0, sizeof(UsmUser))\<close>.\<close>

definition zero_user :: user_entry where
  "zero_user = \<lparr>ue_engine_id = [], ue_user_name = [], ue_security_name = [], ue_auth_protocol = 0, ue_auth_key = [],
     ue_priv_protocol = 0, ue_priv_key = []\<rparr>"

text \<open>The keys and protocols of the user go into the state reference.\<close>

definition fill_ref :: "user_entry \<Rightarrow> sec_state_ref \<Rightarrow> sec_state_ref" where
  "fill_ref user r = r\<lparr>ssr_auth_protocol := ue_auth_protocol user, ssr_auth_key := ue_auth_key user,
     ssr_priv_protocol := ue_priv_protocol user, ssr_priv_key := ue_priv_key user\<rparr>"

text \<open>The counters after a failed authentication: the second case of the switch falls through.\<close>

definition count_auth_error :: "int \<Rightarrow> usm_stats \<Rightarrow> usm_stats" where
  "count_auth_error rc s = (
     if rc = SNMPv3_USM_AUTHENTICATION_FAILURE then inc_stats_wrong_digests s
     else let s = (if rc = SNMPv3_USM_UNSUPPORTED_AUTHPROTOCOL then inc_stats_unsupported_sec_levels s else s)
       in inc_stats_unsupported_sec_levels s)"

text \<open>\<open>auth_inc_msg\<close> with a pointer that may lie before the message.\<close>

definition auth_at :: "hashes \<Rightarrow> auth_priv \<Rightarrow> int \<Rightarrow> u8 list \<Rightarrow> u8 list \<Rightarrow> int \<Rightarrow> nat \<Rightarrow> (u8 list \<times> int) option" where
  "auth_at H ap auth_prot key msg auth_par auth_par_len =
     (if auth_par < 0 then None else auth_inc_msg H ap auth_prot key msg (nat auth_par) auth_par_len)"

text \<open>Authentication and the time window: \<open>Inl\<close> ends the processing, \<open>Inr\<close> tells whether the message is outside
  the window.\<close>

definition authenticate ::
  "hashes \<Rightarrow> int \<Rightarrow> int \<Rightarrow> user_entry \<Rightarrow> sec_params \<Rightarrow> int \<Rightarrow> msg_state \<Rightarrow> ((msg_state \<times> int) + msg_state \<times> bool) option" where
  "authenticate H securityLevel now user sp auth_par s = (
     if \<not> securityLevel > SNMP_SECURITY_LEVEL_NOAUTH_NOPRIV then Some (Inr (s, False))
     else Option.bind (auth_at H (usm_auth_priv (ms_usm s)) (ue_auth_protocol user) (ue_auth_key user) (ms_whole_msg s)
         auth_par (sp_auth_len sp)) (\<lambda>(msg, rc).
       let s = s\<lparr>ms_whole_msg := msg\<rparr> in
       if rc \<noteq> SNMPv3_USM_OK
       then Some (Inl (s\<lparr>ms_stats := count_auth_error rc (ms_stats s), ms_security_name := ue_security_name user,
              ms_ref := fill_ref user ((ms_ref s)\<lparr>ssr_security_level := securityLevel\<rparr>)\<rparr>, rc))
       else Option.bind (USMTimeTable_check_time (sp_engine_id sp) (sint (sp_engine_boots sp)) (sint (sp_engine_time sp)) now
           (usm_time_table (ms_usm s))) (\<lambda>(tt, rc).
         let s = s\<lparr>ms_usm := (ms_usm s)\<lparr>usm_time_table := tt\<rparr>\<rparr>;
             s = (if rc = SNMPv3_USM_NOT_IN_TIME_WINDOW
               then s\<lparr>ms_stats := inc_stats_not_in_time_windows (ms_stats s)\<rparr> else s) in
         if rc = SNMPv3_USM_UNKNOWN_ENGINEID then Some (Inl (s, rc))
         else Some (Inr (s, rc = SNMPv3_USM_NOT_IN_TIME_WINDOW)))))"

text \<open>Decryption, when it is asked for and the message is inside the window; otherwise the data is the PDU.
  Without any octet of plain text the first octet of the buffer is an old one that is not \<open>0x30\<close>.\<close>

definition decrypt_data ::
  "'k ciphers \<Rightarrow> int \<Rightarrow> bool \<Rightarrow> user_entry \<Rightarrow> sec_params \<Rightarrow> u8 list \<Rightarrow> int \<Rightarrow> msg_state \<Rightarrow>
   ((msg_state \<times> int) + msg_state) option" where
  "decrypt_data cs securityLevel notInTime user sp msgData msgDataLength s = (
     let s = s\<lparr>ms_scoped_length := MAX_SNMP_PACKET\<rparr> in
     if securityLevel = SNMP_SECURITY_LEVEL_AUTH_PRIV \<and> \<not> notInTime
     then Option.bind (asn_parse_string msgData msgDataLength msgDataLength) (\<lambda>parsed.
       case parsed of Inl _ \<Rightarrow> Some (Inl (s, SNMPv3_USM_PARSE_ERROR))
       | Inr (_, _, _, encryptedScopedPDU) \<Rightarrow>
           if length encryptedScopedPDU > MAX_SNMP_PACKET then None
           else Option.bind (decrypt_msg cs (usm_auth_priv (ms_usm s)) (ue_priv_protocol user) (ue_priv_key user)
               encryptedScopedPDU MAX_SNMP_PACKET (sp_priv_param sp) (sp_engine_boots sp) (sp_engine_time sp)) (\<lambda>dec.
             case dec of
               Inl rc \<Rightarrow> if rc = SNMPv3_USM_UNSUPPORTED_PRIVPROTOCOL
                 then Some (Inl (s\<lparr>ms_stats := inc_stats_unsupported_sec_levels (ms_stats s)\<rparr>, rc))
                 else Some (Inl (s\<lparr>ms_stats := inc_stats_decryption_errors (ms_stats s)\<rparr>, SNMPv3_USM_DECRYPTION_ERROR))
             | Inr pdu \<Rightarrow> let s = s\<lparr>ms_scoped_pdu := pdu, ms_scoped_length := length pdu\<rparr> in
                 if pdu = [] \<or> hd pdu \<noteq> ASN_SEQ_CON
                 then Some (Inl (s\<lparr>ms_stats := inc_stats_decryption_errors (ms_stats s)\<rparr>, SNMPv3_USM_DECRYPTION_ERROR))
                 else Some (Inr s)))
     else Some (Inr (s\<lparr>ms_scoped_pdu := take (nat msgDataLength) msgData, ms_scoped_length := nat msgDataLength\<rparr>)))"

text \<open>From the user on.\<close>

definition process_user ::
  "hashes \<Rightarrow> 'k ciphers \<Rightarrow> int \<Rightarrow> int \<Rightarrow> int \<Rightarrow> user_entry \<Rightarrow> sec_params \<Rightarrow> int \<Rightarrow> u8 list \<Rightarrow> int \<Rightarrow> msg_state \<Rightarrow> msg_result" where
  "process_user H cs maxMessageSize securityLevel now user sp auth_par msgData msgDataLength s = (
     if securityLevel > SNMP_SECURITY_LEVEL_NOAUTH_NOPRIV \<and> ue_auth_protocol user = SNMP_AUTHPROTOCOL_NONE \<or>
        securityLevel = SNMP_SECURITY_LEVEL_AUTH_PRIV \<and> ue_priv_protocol user = SNMP_PRIVPROTOCOL_NONE
     then Some (s\<lparr>ms_stats := inc_stats_unsupported_sec_levels (ms_stats s)\<rparr>, SNMPv3_USM_UNSUPPORTED_SECURITY_LEVEL)
     else Option.bind (authenticate H securityLevel now user sp auth_par s) (\<lambda>r.
     case r of Inl done \<Rightarrow> Some done
     | Inr (s, notInTime) \<Rightarrow>
         Option.bind (decrypt_data cs securityLevel notInTime user sp msgData msgDataLength s) (\<lambda>r.
         case r of Inl done \<Rightarrow> Some done
         | Inr s \<Rightarrow> Some (s\<lparr>ms_max_size := maxMessageSize - (int (length (ms_whole_msg s)) - int (ms_scoped_length s)),
               ms_security_name := ue_security_name user, ms_ref := fill_ref user (ms_ref s)\<rparr>,
             if notInTime then SNMPv3_USM_NOT_IN_TIME_WINDOW else SNMPv3_USM_OK))))"

definition process_msg ::
  "hashes \<Rightarrow> 'k ciphers \<Rightarrow> int \<Rightarrow> u8 list \<Rightarrow> int \<Rightarrow> int \<Rightarrow> int \<Rightarrow> u8 list \<Rightarrow> int \<Rightarrow> int \<Rightarrow> msg_state \<Rightarrow> msg_result" where
  "process_msg H cs maxMessageSize securityParameters securityParametersLength securityParametersPosition securityLevel
     msgData msgDataLength now s =
     Option.bind (parse_sec_params securityParameters securityParametersLength) (\<lambda>parsed.
     case parsed of Inl rc \<Rightarrow> Some (s, rc)
     | Inr sp \<Rightarrow>
       if length msgData < nat msgDataLength \<or> MAX_SNMP_PACKET < nat msgDataLength then None
       else let auth_par = securityParametersPosition + sp_auth_offset sp;
         s = s\<lparr>ms_security_engine_id := sp_engine_id sp, ms_scoped_pdu := take (nat msgDataLength) msgData,
           ms_scoped_length := nat msgDataLength, ms_ref := \<lparr>ssr_msg_user_name = sp_user_name sp,
             ssr_security_name = None, ssr_security_engine_id = sp_engine_id sp, ssr_auth_protocol = 1, ssr_auth_key = [], ssr_priv_protocol = 1, ssr_priv_key = [],
             ssr_security_level = securityLevel\<rparr>\<rparr>;
         unknown_engine = (\<lambda>s. Some (s\<lparr>ms_stats := inc_stats_unknown_engine_ids (ms_stats s),
             ms_security_name := sp_user_name sp\<rparr>, SNMPv3_USM_UNKNOWN_ENGINEID));
         unknown_user = (\<lambda>s. Some (s\<lparr>ms_stats := inc_stats_unknown_user_names (ms_stats s)\<rparr>,
             SNMPv3_USM_UNKNOWN_SECURITY_NAME))
       in if sp_engine_id sp = [] then unknown_engine s
       else Option.bind (USMTimeTable_check_engine_id (discovery_mode (ms_usm s)) (sp_engine_id sp) now
           (usm_time_table (ms_usm s))) (\<lambda>(tt, rc).
       let s = s\<lparr>ms_usm := (ms_usm s)\<lparr>usm_time_table := tt\<rparr>\<rparr> in
       if rc \<noteq> SNMPv3_USM_OK then unknown_engine s
       else Option.bind (if sp_user_name sp \<noteq> [] \<or> securityLevel \<noteq> SNMP_SECURITY_LEVEL_NOAUTH_NOPRIV
           then get_security_name (sp_user_name sp) (ms_usm s) else Some (Inr [])) (\<lambda>name.
       case name of Inl _ \<Rightarrow> unknown_user (s\<lparr>ms_security_name := sp_user_name sp\<rparr>)
       | Inr security_name \<Rightarrow>
         let s = s\<lparr>ms_security_name := security_name, ms_ref := (ms_ref s)\<lparr>ssr_security_name := Some security_name\<rparr>\<rparr> in
         Option.bind (if sp_user_name sp \<noteq> [] then get_user H (sp_engine_id sp) security_name (ms_usm s)
             else Some (ms_usm s, Some zero_user)) (\<lambda>(u, user).
         let s = s\<lparr>ms_usm := u\<rparr> in
         case user of None \<Rightarrow> unknown_user s
         | Some user \<Rightarrow>
             process_user H cs maxMessageSize securityLevel now user sp auth_par msgData msgDataLength s))))"

end
