(* ===== verification/Usm_Build.thy ===== *)
theory Usm_Build
  imports Usm_Message
begin

section \<open>Outgoing messages in the user security model\<close>

text \<open>
  \<open>USM::generate_msg\<close> with \<open>build_sec_params\<close> and \<open>build_whole_msg\<close> (\<^verbatim>\<open>src/snmp++/src/usm_v3.cpp\<close>): the user is looked up or taken
  from the security state of the request, the scoped PDU is encrypted, the message is put together and signed.
  NULL of a builder is \<open>Inl\<close>; a position in the message is an offset from its first octet.
\<close>

record usm_sec_params =
  up_engine_id :: "u8 list"
  up_engine_boots :: u64
  up_engine_time :: u64
  up_user_name :: "u8 list"
  up_auth :: "u8 list"
  up_priv :: "u8 list"

text \<open>With the encoded parameters goes the position of the authentication parameters, which the code computes as the position
  of their object plus 2.\<close>

definition build_sec_params :: "out \<Rightarrow> int \<Rightarrow> usm_sec_params \<Rightarrow> (out \<times> int \<times> int) asn" where
  "build_sec_params outBuf maxLength sp =
     on_ok (asn_build_string (local_buffer MAX_SNMP_PACKET) maxLength ASN_OCTET_STR (up_engine_id sp)
       (int (length (up_engine_id sp)))) (\<lambda>(bufPtr, l).
     on_ok (asn_build_int bufPtr l ASN_INTEGER (up_engine_boots sp)) (\<lambda>(bufPtr, l).
     on_ok (asn_build_int bufPtr l ASN_INTEGER (up_engine_time sp)) (\<lambda>(bufPtr, l).
     on_ok (asn_build_string bufPtr l ASN_OCTET_STR (up_user_name sp) (int (length (up_user_name sp)))) (\<lambda>(bufPtr, l).
     let position = int (snd bufPtr) + 2 in
     on_ok (asn_build_string bufPtr l ASN_OCTET_STR (up_auth sp) (int (length (up_auth sp)))) (\<lambda>(bufPtr, l).
     on_ok (asn_build_string bufPtr l ASN_OCTET_STR (up_priv sp) (int (length (up_priv sp)))) (\<lambda>((buf, totalLength), l).
     on_ok (asn_build_sequence outBuf maxLength ASN_SEQ_CON (int totalLength)) (\<lambda>(outBufPtr, maxLength).
     if maxLength < int totalLength then Some (Inl Buffer_Full)
     else on_ok (emit (take totalLength buf) outBufPtr maxLength) (\<lambda>(out, maxLength).
     Some (Inr (out, maxLength, position + (int (snd outBufPtr) - int (snd outBuf))))))))))))"

definition build_whole_msg ::
  "out \<Rightarrow> int \<Rightarrow> u8 list \<Rightarrow> usm_sec_params \<Rightarrow> u8 list \<Rightarrow> (out \<times> int \<times> int) asn" where
  "build_whole_msg outBuf maxLength globalData sp msgData =
     on_ok (build_sec_params (local_buffer MAX_SNMP_PACKET) maxLength sp) (\<lambda>((secPar, secParLength), _, position).
     on_ok (asn_build_int (local_buffer MAX_SNMP_PACKET) maxLength ASN_INTEGER 3) (\<lambda>(bufPtr, l).
     let l = l - int (length globalData) in
     if l < 0 then Some (Inl Buffer_Full)
     else on_ok (copy_in globalData bufPtr) (\<lambda>bufPtr.
     let position = position + (int (snd bufPtr) + 2);
         position = (if secParLength > 0x7f then position + 2 else position) in
     on_ok (asn_build_string bufPtr l ASN_OCTET_STR (take secParLength secPar) (int secParLength)) (\<lambda>(bufPtr, l).
     let l = l - int (length msgData) in
     if l < 0 then Some (Inl Buffer_Full)
     else on_ok (copy_in msgData bufPtr) (\<lambda>(buf, totalLength).
     on_ok (asn_build_sequence outBuf maxLength ASN_SEQ_CON (int totalLength)) (\<lambda>(outBufPtr, maxLength).
     if maxLength < int totalLength then Some (Inl Buffer_Full)
     else on_ok (emit (take totalLength buf) outBufPtr maxLength) (\<lambda>(out, maxLength).
     Some (Inr (out, maxLength, position + (int (snd outBufPtr) - int (snd outBuf)))))))))))"

subsection \<open>The steps of \<open>generate_msg\<close>\<close>

text \<open>The user of a response comes from the reference that \<open>process_msg\<close> has filled.  Its engine id is not used afterwards.\<close>

definition response_user :: "u8 list \<Rightarrow> sec_state_ref \<Rightarrow> usm \<Rightarrow> user_entry option" where
  "response_user securityName r u =
     Option.bind (case ssr_security_name r of Some name \<Rightarrow> Some (ssr_msg_user_name r, name)
       | None \<Rightarrow> Option.bind (get_user_name MAXLEN_USMUSERNAME securityName u) (\<lambda>res.
           let user_name = (case res of Inr name \<Rightarrow> name | Inl _ \<Rightarrow> []) in
           Some (if user_name = [] \<and> length securityName \<le> MAXLEN_USMUSERNAME then securityName else user_name,
             securityName))) (\<lambda>(user_name, security_name).
     Some \<lparr>ue_engine_id = ssr_security_engine_id r, ue_user_name = user_name, ue_security_name = security_name,
       ue_auth_protocol = ssr_auth_protocol r, ue_auth_key = ssr_auth_key r,
       ue_priv_protocol = ssr_priv_protocol r, ue_priv_key = ssr_priv_key r\<rparr>)"

definition message_user ::
  "hashes \<Rightarrow> u8 list \<Rightarrow> u8 list \<Rightarrow> sec_state_ref option \<Rightarrow> usm \<Rightarrow> (usm \<times> user_entry option) option" where
  "message_user H securityEngineID securityName securityStateReference u = (case securityStateReference of
     Some r \<Rightarrow> Option.bind (response_user securityName r u) (\<lambda>user. Some (u, Some user))
   | None \<Rightarrow> if securityEngineID = [] then Some (u, Some zero_user)
       else get_user H securityEngineID securityName u)"

text \<open>The boot counter and the time for the message; an engine that is not known gets an entry.  Without authentication both
  numbers are not set here.\<close>

definition message_time :: "int \<Rightarrow> u8 list \<Rightarrow> int \<Rightarrow> usm \<Rightarrow> (usm \<times> (int \<times> int) option) option" where
  "message_time securityLevel securityEngineID now u = (
     if securityLevel \<ge> SNMP_SECURITY_LEVEL_AUTH_NOPRIV
     then Option.bind (USMTimeTable_get_time securityEngineID now (usm_time_table u)) (\<lambda>(rc, boots, time).
       Option.bind (if rc = SNMPv3_USM_UNKNOWN_ENGINEID
         then Option.bind (USMTimeTable_add_entry securityEngineID boots time now (usm_time_table u)) (\<lambda>(tt, _).
              Some (u\<lparr>usm_time_table := tt\<rparr>))
         else Some u) (\<lambda>u.
       Some (u, if rc = SNMPv3_USM_ERROR then None else Some (boots, time))))
     else Some (u, Some (0, 0)))"

text \<open>The data of the message and the privacy parameters.\<close>

definition message_data ::
  "'k ciphers \<Rightarrow> int \<Rightarrow> int \<Rightarrow> user_entry \<Rightarrow> int \<Rightarrow> int \<Rightarrow> u8 list \<Rightarrow> usm \<Rightarrow> (usm \<times> (int + u8 list \<times> u8 list)) option" where
  "message_data cs maxMessageSize securityLevel user boots time scopedPDU u = (
     if securityLevel = SNMP_SECURITY_LEVEL_AUTH_PRIV
     then (case encrypt_msg cs (usm_auth_priv u) (ue_priv_protocol user) (ue_priv_key user) scopedPDU MAX_SNMP_PACKET
         (get_priv_params_len (ue_priv_protocol user) (usm_auth_priv u)) (word_of_int boots) (word_of_int time) of (ap, enc) \<Rightarrow>
       let u = u\<lparr>usm_auth_priv := ap\<rparr> in
       Option.bind enc (\<lambda>enc. case enc of
         Inl _ \<Rightarrow> Some (u, Inl (if ue_priv_protocol user = SNMP_PRIVPROTOCOL_NONE then SNMPv3_USM_UNSUPPORTED_SECURITY_LEVEL
             else SNMPv3_USM_ENCRYPTION_ERROR))
       | Inr (out, params) \<Rightarrow>
           Option.bind (asn_build_string (local_buffer MAX_SNMP_PACKET) maxMessageSize ASN_OCTET_STR out (int (length out))) (\<lambda>b.
           case b of Inl _ \<Rightarrow> Some (u, Inl SNMPv3_USM_ERROR)
           | Inr ((buf, n), _) \<Rightarrow> Some (u, Inr (take n buf, params)))))
     else if MAX_SNMP_PACKET < length scopedPDU then None else Some (u, Inr (scopedPDU, [])))"

text \<open>The message is built into \<open>wholeMsg\<close>, the array of the caller, and signed there.\<close>

definition message_signed ::
  "hashes \<Rightarrow> auth_priv \<Rightarrow> u8 list \<Rightarrow> int \<Rightarrow> int \<Rightarrow> user_entry \<Rightarrow> usm_sec_params \<Rightarrow> u8 list \<Rightarrow> u8 list \<Rightarrow> (int + u8 list) option" where
  "message_signed H ap globalData maxMessageSize securityLevel user sp msgData wholeMsg = (
     if securityLevel \<ge> SNMP_SECURITY_LEVEL_AUTH_NOPRIV
     then let sp = sp\<lparr>up_auth := replicate (get_auth_params_len (ue_auth_protocol user) ap) 0\<rparr> in
       Option.bind (build_whole_msg (wholeMsg, 0) maxMessageSize globalData sp msgData) (\<lambda>b.
       case b of Inl _ \<Rightarrow> Some (Inl SNMPv3_USM_ERROR)
       | Inr ((buf, n), _, startAuthPar) \<Rightarrow>
           Option.bind (auth_out_msg H ap (ue_auth_protocol user) (ue_auth_key user) (take n buf) (nat startAuthPar)) (\<lambda>(msg, rc).
           Some (if rc \<noteq> SNMPv3_USM_OK then Inl rc else Inr msg)))
     else let sp = sp\<lparr>up_engine_boots := 0, up_engine_time := 0, up_auth := []\<rparr> in
       Option.bind (build_whole_msg (wholeMsg, 0) maxMessageSize globalData sp msgData) (\<lambda>b.
       case b of Inl _ \<Rightarrow> Some (Inl SNMPv3_USM_ERROR) | Inr ((buf, n), _, _) \<Rightarrow> Some (Inr (take n buf))))"

definition generate_msg ::
  "hashes \<Rightarrow> 'k ciphers \<Rightarrow> u8 list \<Rightarrow> int \<Rightarrow> u8 list \<Rightarrow> u8 list \<Rightarrow> int \<Rightarrow> u8 list \<Rightarrow> sec_state_ref option \<Rightarrow> int \<Rightarrow>
   u8 list \<Rightarrow> usm \<Rightarrow> (usm \<times> (int + u8 list)) option" where
  "generate_msg H cs globalData maxMessageSize securityEngineID securityName securityLevel scopedPDU
     securityStateReference now wholeMsg u =
     Option.bind (message_user H securityEngineID securityName securityStateReference u) (\<lambda>(u, user).
     case user of None \<Rightarrow> Some (u, Inl SNMPv3_USM_UNKNOWN_SECURITY_NAME)
     | Some user \<Rightarrow>
       if length securityEngineID > MAXLENGTH_ENGINEID then Some (u, Inl SNMPv3_USM_ERROR)
       else if length (ue_user_name user) > MAXLEN_USMUSERNAME then Some (u, Inl SNMPv3_USM_ERROR)
       else Option.bind (message_time securityLevel securityEngineID now u) (\<lambda>(u, time).
       case time of None \<Rightarrow> Some (u, Inl SNMPv3_USM_ERROR)
       | Some (boots, time) \<Rightarrow>
         Option.bind (message_data cs maxMessageSize securityLevel user boots time scopedPDU u) (\<lambda>(u, data).
         case data of Inl rc \<Rightarrow> Some (u, Inl rc)
         | Inr (msgData, params) \<Rightarrow>
           Option.bind (message_signed H (usm_auth_priv u) globalData maxMessageSize securityLevel user
             \<lparr>up_engine_id = securityEngineID, up_engine_boots = word_of_int boots, up_engine_time = word_of_int time,
               up_user_name = ue_user_name user, up_auth = [], up_priv = params\<rparr> msgData wholeMsg) (\<lambda>r.
           Some (u, r)))))"

end
