(* ===== verification/Usm_Codec.thy ===== *)
theory Usm_Codec
  imports Usm_Build Snmp_V3
begin

section \<open>The encoding of version 3 messages\<close>

text \<open>
  What \<open>build_sec_params\<close> and \<open>build_whole_msg\<close> write, as octets, and the position they compute for the digest next to the one
  where the authentication parameters are.
\<close>

definition sec_fields :: "usm_sec_params \<Rightarrow> u8 list" where
  "sec_fields sp = ber_obj ASN_OCTET_STR (up_engine_id sp) @ int_obj (up_engine_boots sp) @ int_obj (up_engine_time sp) @
     ber_obj ASN_OCTET_STR (up_user_name sp)"

definition sec_content :: "usm_sec_params \<Rightarrow> u8 list" where
  "sec_content sp = sec_fields sp @ ber_obj ASN_OCTET_STR (up_auth sp) @ ber_obj ASN_OCTET_STR (up_priv sp)"

definition sec_bytes :: "usm_sec_params \<Rightarrow> u8 list" where
  "sec_bytes sp = ber_obj ASN_SEQ_CON (sec_content sp)"

definition whole_content :: "u8 list \<Rightarrow> usm_sec_params \<Rightarrow> u8 list \<Rightarrow> u8 list" where
  "whole_content globalData sp msgData = int_obj 3 @ globalData @ ber_obj ASN_OCTET_STR (sec_bytes sp) @ msgData"

definition whole_bytes :: "u8 list \<Rightarrow> usm_sec_params \<Rightarrow> u8 list \<Rightarrow> u8 list" where
  "whole_bytes globalData sp msgData = ber_obj ASN_SEQ_CON (whole_content globalData sp msgData)"

text \<open>The octets in front of the content of an object.\<close>

definition ber_head :: "nat \<Rightarrow> nat" where
  "ber_head n = 1 + length (ber_len n)"

lemma ber_head_obj: "length (ber_obj type content) = ber_head (length content) + length content"
  by (simp add: length_ber_obj ber_head_def)

subsection \<open>Security parameters\<close>

lemma builds_sec_fields:
  "builds (\<lambda>out d. on_ok (asn_build_string out d ASN_OCTET_STR (up_engine_id sp) (int (length (up_engine_id sp)))) (\<lambda>(out, d).
     on_ok (asn_build_int out d ASN_INTEGER (up_engine_boots sp)) (\<lambda>(out, d).
     on_ok (asn_build_int out d ASN_INTEGER (up_engine_time sp)) (\<lambda>(out, d).
     asn_build_string out d ASN_OCTET_STR (up_user_name sp) (int (length (up_user_name sp))))))) (sec_fields sp)"
  unfolding sec_fields_def int_obj_def by (intro builds_then builds_string builds_int refl)

lemma builds_sec_rest:
  "builds (\<lambda>out d. on_ok (asn_build_string out d ASN_OCTET_STR (up_auth sp) (int (length (up_auth sp)))) (\<lambda>(out, d).
     asn_build_string out d ASN_OCTET_STR (up_priv sp) (int (length (up_priv sp)))))
   (ber_obj ASN_OCTET_STR (up_auth sp) @ ber_obj ASN_OCTET_STR (up_priv sp))"
  by (intro builds_then builds_string refl)

text \<open>The last steps of both builders: the sequence around the content of a local buffer, and the position.\<close>

definition wrap :: "out \<Rightarrow> int \<Rightarrow> u8 list \<Rightarrow> int \<Rightarrow> (out \<times> int \<times> int) asn" where
  "wrap out d content position = on_ok (asn_build_sequence out d ASN_SEQ_CON (int (length content))) (\<lambda>(o', d').
     if d' < int (length content) then Some (Inl Buffer_Full)
     else on_ok (emit content o' d') (\<lambda>(o'', d''). Some (Inr (o'', d'', position + (int (snd o') - int (snd out))))))"

lemma wrap_eq:
  assumes "d \<le> int (length buf) - int pos"
  shows "wrap (buf, pos) d content position = (if int (length (ber_obj ASN_SEQ_CON content)) \<le> d
     then Some (Inr ((written buf pos (ber_obj ASN_SEQ_CON content), pos + length (ber_obj ASN_SEQ_CON content)),
       d - int (length (ber_obj ASN_SEQ_CON content)), position + int (ber_head (length content))))
     else Some (Inl Buffer_Full))"
proof (cases "int (ber_head (length content)) \<le> d")
  case False
  then show ?thesis using builds_full [OF builds_sequence, of d buf pos ASN_SEQ_CON "length content"] assms
    by (simp add: wrap_def ber_head_def length_ber_obj)
next
  case True
  let ?h = "ASN_SEQ_CON # ber_len (length content)"
  have s: "asn_build_sequence (buf, pos) d ASN_SEQ_CON (int (length content)) =
      Some (Inr ((written buf pos ?h, pos + length ?h), d - int (length ?h)))"
    using True assms by (intro builds_fit [OF builds_sequence]) (simp_all add: ber_head_def)
  show ?thesis
  proof (cases "int (length (ber_obj ASN_SEQ_CON content)) \<le> d")
    case False
    then show ?thesis using s by (simp add: wrap_def length_ber_obj)
  next
    case fits: True
    then have "pos + length (?h @ content) \<le> length buf" using assms by (simp add: length_ber_obj)
    then show ?thesis using fits s emit_eq [of "pos + length ?h" content "written buf pos ?h" "d - int (length ?h)"]
        written_append [of pos ?h content buf]
      by (simp add: wrap_def length_ber_obj ber_head_def ber_obj_def add.assoc)
  qed
qed

lemma build_sec_params_eq:
  assumes "maxLength \<le> int MAX_SNMP_PACKET" and "maxLength \<le> int (length buf) - int pos"
  shows "build_sec_params (buf, pos) maxLength sp = (if int (length (sec_bytes sp)) \<le> maxLength
     then Some (Inr ((written buf pos (sec_bytes sp), pos + length (sec_bytes sp)), maxLength - int (length (sec_bytes sp)),
       int (length (sec_fields sp) + 2 + ber_head (length (sec_content sp)))))
     else Some (Inl Buffer_Full))"
proof -
  let ?fields = "\<lambda>out d. on_ok (asn_build_string out d ASN_OCTET_STR (up_engine_id sp) (int (length (up_engine_id sp)))) (\<lambda>(out, d).
     on_ok (asn_build_int out d ASN_INTEGER (up_engine_boots sp)) (\<lambda>(out, d).
     on_ok (asn_build_int out d ASN_INTEGER (up_engine_time sp)) (\<lambda>(out, d).
     asn_build_string out d ASN_OCTET_STR (up_user_name sp) (int (length (up_user_name sp))))))"
  let ?rest = "\<lambda>out d. on_ok (asn_build_string out d ASN_OCTET_STR (up_auth sp) (int (length (up_auth sp)))) (\<lambda>(out, d).
     asn_build_string out d ASN_OCTET_STR (up_priv sp) (int (length (up_priv sp))))"
  let ?n = "length (sec_fields sp)" and ?m = "length (sec_content sp)"
  let ?k = "\<lambda>b ((c, k), l). on_ok (asn_build_sequence (buf, pos) maxLength ASN_SEQ_CON (int k)) (\<lambda>(o', d').
     if d' < int k then Some (Inl Buffer_Full)
     else on_ok (emit (take k c) o' d') (\<lambda>(o'', d''). Some (Inr (o'', d'', int (snd b) + 2 + (int (snd o') - int (snd (buf, pos)))))))"
  have split: "build_sec_params (buf, pos) maxLength sp = on_ok (?fields (local_buffer MAX_SNMP_PACKET) maxLength) (\<lambda>(b, l).
      on_ok (?rest b l) (?k b))"
    by (simp add: build_sec_params_def Let_def on_ok_assoc split_def)
  have total: "?m = ?n + length (ber_obj ASN_OCTET_STR (up_auth sp) @ ber_obj ASN_OCTET_STR (up_priv sp))"
    by (simp add: sec_content_def)
  show ?thesis
  proof (cases "int ?m \<le> maxLength")
    case False
    have "on_ok (?fields (local_buffer MAX_SNMP_PACKET) maxLength) (\<lambda>(b, l). ?rest b l) = Some (Inl Buffer_Full)"
      using builds_full [OF builds_then [OF builds_sec_fields [of sp] builds_sec_rest [of sp]], of maxLength "replicate MAX_SNMP_PACKET 0" 0]
        False assms(1) by (simp add: local_buffer_def sec_content_def)
    then have "build_sec_params (buf, pos) maxLength sp = Some (Inl Buffer_Full)"
      unfolding split by (auto simp: on_ok_def split: option.splits sum.splits)
    then show ?thesis using False by (simp add: sec_bytes_def length_ber_obj)
  next
    case True
    have f: "?fields (local_buffer MAX_SNMP_PACKET) maxLength =
        Some (Inr ((written (replicate MAX_SNMP_PACKET 0) 0 (sec_fields sp), ?n), maxLength - int ?n))"
      using True assms(1) total by (intro local_buffer_fit [OF builds_sec_fields]) linarith+
    have r: "?rest (written (replicate MAX_SNMP_PACKET 0) 0 (sec_fields sp), ?n) (maxLength - int ?n) =
        Some (Inr ((written (replicate MAX_SNMP_PACKET 0) 0 (sec_content sp), ?m), maxLength - int ?m))"
    proof -
      have "written (written (replicate MAX_SNMP_PACKET 0) 0 (sec_fields sp)) ?n
          (ber_obj ASN_OCTET_STR (up_auth sp) @ ber_obj ASN_OCTET_STR (up_priv sp)) =
        written (replicate MAX_SNMP_PACKET 0) 0 (sec_content sp)"
        using True assms(1) total written_append [of 0 "sec_fields sp"
          "ber_obj ASN_OCTET_STR (up_auth sp) @ ber_obj ASN_OCTET_STR (up_priv sp)" "replicate MAX_SNMP_PACKET 0"]
        by (simp add: sec_content_def)
      then show ?thesis using True assms(1) total builds_fit [OF builds_sec_rest [of sp], of ?n _ "maxLength - int ?n"] by simp
    qed
    have "build_sec_params (buf, pos) maxLength sp = wrap (buf, pos) maxLength (sec_content sp) (int ?n + 2)"
      unfolding split f by (simp add: r take_written_0 wrap_def cong: if_cong)
    then show ?thesis unfolding wrap_eq [OF assms(2)] by (simp add: sec_bytes_def)
  qed
qed

subsection \<open>Whole messages\<close>

text \<open>The position of the digest that \<open>build_whole_msg\<close> computes, and the one where the authentication parameters are.\<close>

definition signed_position :: "u8 list \<Rightarrow> usm_sec_params \<Rightarrow> u8 list \<Rightarrow> nat" where
  "signed_position globalData sp msgData = ber_head (length (whole_content globalData sp msgData)) + length (int_obj 3) +
     length globalData + (if length (sec_bytes sp) > 127 then 4 else 2) + ber_head (length (sec_content sp)) +
     length (sec_fields sp) + 2"

definition auth_position :: "u8 list \<Rightarrow> usm_sec_params \<Rightarrow> u8 list \<Rightarrow> nat" where
  "auth_position globalData sp msgData = ber_head (length (whole_content globalData sp msgData)) + length (int_obj 3) +
     length globalData + ber_head (length (sec_bytes sp)) + ber_head (length (sec_content sp)) +
     length (sec_fields sp) + ber_head (length (up_auth sp))"

lemma build_whole_msg_eq:
  assumes "maxLength \<le> int MAX_SNMP_PACKET" and "maxLength \<le> int (length buf) - int pos"
  shows "build_whole_msg (buf, pos) maxLength globalData sp msgData =
    (if int (length (whole_bytes globalData sp msgData)) \<le> maxLength
     then Some (Inr ((written buf pos (whole_bytes globalData sp msgData), pos + length (whole_bytes globalData sp msgData)),
       maxLength - int (length (whole_bytes globalData sp msgData)), int (signed_position globalData sp msgData)))
     else Some (Inl Buffer_Full))"
proof -
  let ?b = "replicate MAX_SNMP_PACKET (0 :: u8)" and ?s = "sec_bytes sp" and ?c = "whole_content globalData sp msgData"
  have total: "length ?c = length (int_obj 3) + length globalData + length (ber_obj ASN_OCTET_STR ?s) + length msgData"
    by (simp add: whole_content_def)
  have sec: "build_sec_params (local_buffer MAX_SNMP_PACKET) maxLength sp = (if int (length ?s) \<le> maxLength
     then Some (Inr ((written ?b 0 ?s, length ?s), maxLength - int (length ?s),
       int (length (sec_fields sp) + 2 + ber_head (length (sec_content sp)))))
     else Some (Inl Buffer_Full))"
    using build_sec_params_eq [of maxLength ?b 0 sp] assms(1) by (simp add: local_buffer_def)
  let ?i = "int_obj 3" and ?o = "ber_obj ASN_OCTET_STR ?s"
  have v: "asn_build_int (local_buffer MAX_SNMP_PACKET) maxLength ASN_INTEGER 3 = (if int (length ?i) \<le> maxLength
      then Some (Inr ((written ?b 0 ?i, length ?i), maxLength - int (length ?i))) else Some (Inl Buffer_Full))"
    using assms(1) local_buffer_fit [OF builds_int [of ASN_INTEGER 3], of MAX_SNMP_PACKET maxLength]
      builds_full [OF builds_int [of ASN_INTEGER 3], of maxLength ?b 0] by (simp add: int_obj_def local_buffer_def)
  have g: "copy_in globalData (written ?b 0 ?i, length ?i) = Some (Inr (written ?b 0 (?i @ globalData), length (?i @ globalData)))"
    if "int (length (?i @ globalData)) \<le> maxLength"
    using that assms(1) copy_in_eq [of "length ?i" globalData "written ?b 0 ?i"] written_append [of 0 ?i globalData ?b] by simp
  let ?l = "maxLength - int (length (?i @ globalData))" and ?w = "written ?b 0 (?i @ globalData)"
  have string: "asn_build_string (?w, length (?i @ globalData)) ?l ASN_OCTET_STR ?s (int (length ?s)) =
      (if int (length ?o) \<le> ?l
       then Some (Inr ((written ?b 0 (?i @ globalData @ ?o), length (?i @ globalData @ ?o)), ?l - int (length ?o)))
       else Some (Inl Buffer_Full))"
    if "int (length (?i @ globalData)) \<le> maxLength"
    using that assms(1) written_append [of 0 "?i @ globalData" ?o ?b]
      builds_fit [OF builds_string [OF refl, of ASN_OCTET_STR ?s], of "length (?i @ globalData)" ?w ?l]
      builds_full [OF builds_string [OF refl, of ASN_OCTET_STR ?s], of ?l ?w "length (?i @ globalData)"] by simp
  have m: "copy_in msgData (written ?b 0 (?i @ globalData @ ?o), length (?i @ globalData @ ?o)) =
      Some (Inr (written ?b 0 ?c, length ?c))" if "int (length ?c) \<le> maxLength"
    using that assms(1) copy_in_eq [of "length (?i @ globalData @ ?o)" msgData "written ?b 0 (?i @ globalData @ ?o)"]
      written_append [of 0 "?i @ globalData @ ?o" msgData ?b] by (simp add: whole_content_def)
  have o: "length ?o = ber_head (length ?s) + length ?s" by (rule ber_head_obj)
  show ?thesis
  proof (cases "int (length ?c) \<le> maxLength")
    case True
    have fits: "int (length ?s) \<le> maxLength" "int (length ?i) \<le> maxLength" "int (length (?i @ globalData)) \<le> maxLength"
        "int (length ?o) \<le> ?l" "\<not> maxLength - int (length ?i) < int (length globalData)"
        "\<not> ?l - int (length ?o) < int (length msgData)"
        "maxLength - int (length ?i) - int (length globalData) = ?l"
      using True total o by simp_all
    have "build_whole_msg (buf, pos) maxLength globalData sp msgData = wrap (buf, pos) maxLength ?c
        (int (length (sec_fields sp) + 2 + ber_head (length (sec_content sp))) + (int (length (?i @ globalData)) + 2) +
         (if length ?s > 127 then 2 else 0))"
      unfolding build_whole_msg_def
      by (simp add: Let_def sec v g [OF fits(3)] string [OF fits(3)] m [OF True] fits take_written_0 wrap_def
          del: length_append cong: if_cong)
    then show ?thesis unfolding wrap_eq [OF assms(2)] by (simp add: whole_bytes_def signed_position_def)
  next
    case False
    have "build_whole_msg (buf, pos) maxLength globalData sp msgData = Some (Inl Buffer_Full)"
    proof (cases "int (length ?s) \<le> maxLength \<and> int (length ?i) \<le> maxLength")
      case fits: True
      show ?thesis
      proof (cases "int (length (?i @ globalData)) \<le> maxLength")
        case fits_g: True
        have e: "maxLength - int (length ?i) - int (length globalData) = ?l"
            "\<not> maxLength - int (length ?i) < int (length globalData)" using fits_g by simp_all
        show ?thesis
        proof (cases "int (length ?o) \<le> ?l")
          case fits_o: True
          then have "?l - int (length ?o) < int (length msgData)" using False total by simp
          then show ?thesis unfolding build_whole_msg_def
            by (simp add: Let_def sec v fits fits_o g [OF fits_g] string [OF fits_g] e take_written_0 del: length_append)
        next
          case no_o: False
          then show ?thesis unfolding build_whole_msg_def
            by (simp add: Let_def sec v fits g [OF fits_g] string [OF fits_g] e take_written_0 del: length_append)
        qed
      next
        case no_g: False
        then have "maxLength - int (length ?i) < int (length globalData)" by simp
        then show ?thesis unfolding build_whole_msg_def by (simp add: Let_def sec v fits)
      qed
    next
      case no_s: False
      then show ?thesis unfolding build_whole_msg_def by (auto simp: sec v)
    qed
    then show ?thesis using False by (simp add: whole_bytes_def ber_head_obj)
  qed
qed

text \<open>Both positions agree but for parameters of 128 to 255 octets, whose length takes one octet more, not two.\<close>

lemma signed_position_cases:
  assumes "length (up_auth sp) < 128" and "length (sec_bytes sp) < 65536"
  shows "signed_position globalData sp msgData =
    (if 128 \<le> length (sec_bytes sp) \<and> length (sec_bytes sp) \<le> 255 then Suc (auth_position globalData sp msgData)
     else auth_position globalData sp msgData)"
  using assms by (simp add: signed_position_def auth_position_def ber_head_def ber_len_def)

lemma length_sec_bytes:
  assumes "length (up_engine_id sp) \<le> 33" and "length (up_user_name sp) \<le> 32" and "length (up_auth sp) \<le> 64"
    and "length (up_priv sp) \<le> 8"
  shows "length (sec_bytes sp) \<le> 255"
proof -
  have s: "length (ber_obj t c) \<le> 2 + length c" if "length c < 128" for t c
    using that by (simp add: length_ber_obj ber_len_def)
  have "length (sec_content sp) \<le> 2 + 33 + 10 + 10 + 34 + 66 + 10"
    using assms s [of "up_engine_id sp" ASN_OCTET_STR] s [of "up_user_name sp" ASN_OCTET_STR] s [of "up_auth sp" ASN_OCTET_STR]
      s [of "up_priv sp" ASN_OCTET_STR] length_int_obj [of "up_engine_boots sp"] length_int_obj [of "up_engine_time sp"]
    by (simp add: sec_content_def sec_fields_def)
  then show ?thesis by (simp add: sec_bytes_def length_ber_obj ber_len_def)
qed

subsection \<open>Parsing\<close>

lemma parse_string_obj:
  "type \<in> string_types \<Longrightarrow> int (length s) \<le> room \<Longrightarrow> int (length (ber_obj type s)) \<le> d \<Longrightarrow> d < 2 ^ 31 \<Longrightarrow>
    asn_parse_string (ber_obj type s @ rest) d room = Some (Inr (rest, d - int (length (ber_obj type s)), type, s))"
  by (rule parsesD [OF parses_string])

lemma octet_string [simp]: "ASN_OCTET_STR \<in> string_types"
  by (simp add: string_types_def ASN_OCTET_STR_def)

lemma no_null_Inr [simp]: "no_null (Some (Inr x)) = Some (Inr x)"
  by (simp add: no_null_def)

lemma parse_sec_params_bytes:
  assumes "length (up_engine_id sp) \<le> 33" and "length (up_user_name sp) \<le> 32" and "length (up_auth sp) < 128"
    and "length (up_priv sp) < 128" and "0 \<le> sint (up_engine_boots sp)" and "0 \<le> sint (up_engine_time sp)"
  shows "parse_sec_params (sec_bytes sp) (int (length (sec_bytes sp))) = Some (Inr
    \<lparr>sp_engine_id = up_engine_id sp, sp_engine_boots = up_engine_boots sp, sp_engine_time = up_engine_time sp,
     sp_user_name = up_user_name sp, sp_auth_len = length (up_auth sp),
     sp_auth_offset = int (ber_head (length (sec_content sp)) + length (sec_fields sp) + ber_head (length (up_auth sp))),
     sp_priv_param = up_priv sp\<rparr>)"
proof -
  let ?e = "ber_obj ASN_OCTET_STR (up_engine_id sp)" and ?b = "int_obj (up_engine_boots sp)"
    and ?t = "int_obj (up_engine_time sp)" and ?u = "ber_obj ASN_OCTET_STR (up_user_name sp)"
    and ?a = "ber_obj ASN_OCTET_STR (up_auth sp)" and ?p = "ber_obj ASN_OCTET_STR (up_priv sp)"
  have short: "length (ber_obj t c) \<le> 2 + length c" if "length c < 128" for t c
    using that by (simp add: length_ber_obj ber_len_def)
  have content: "sec_content sp = ?e @ ?b @ ?t @ ?u @ ?a @ ?p" by (simp add: sec_content_def sec_fields_def)
  have small: "length (sec_content sp) < 1000"
    using short [of "up_engine_id sp" ASN_OCTET_STR] short [of "up_user_name sp" ASN_OCTET_STR] short [of "up_auth sp" ASN_OCTET_STR]
      short [of "up_priv sp" ASN_OCTET_STR] length_int_obj [of "up_engine_boots sp"] length_int_obj [of "up_engine_time sp"] assms(1-4)
    unfolding content by simp
  then have bytes: "length (sec_bytes sp) < 1010" using length_ber_len(2) [of "length (sec_content sp)"]
    by (simp add: sec_bytes_def length_ber_obj)
  have h: "asn_parse_header (sec_bytes sp) (int (length (sec_bytes sp))) =
      Some (Inr (sec_content sp, int (length (sec_content sp)), ASN_SEQ_CON))"
    using parse_header [of ASN_SEQ_CON "sec_content sp" "int (length (sec_bytes sp))" "[]"] bytes
    by (simp add: sec_bytes_def ASN_SEQ_CON_def ASN_EXTENSION_ID_def)
  let ?n = "\<lambda>xs. int (length xs)"
  have e: "asn_parse_string (?e @ ?b @ ?t @ ?u @ ?a @ ?p) (?n (sec_content sp)) 33 =
      Some (Inr (?b @ ?t @ ?u @ ?a @ ?p, ?n (?b @ ?t @ ?u @ ?a @ ?p), ASN_OCTET_STR, up_engine_id sp))"
    using assms(1) small by (subst parse_string_obj) (simp_all add: content)
  have b: "asn_parse_int (?b @ ?t @ ?u @ ?a @ ?p) (?n (?b @ ?t @ ?u @ ?a @ ?p)) =
      Some (Inr (?t @ ?u @ ?a @ ?p, ?n (?t @ ?u @ ?a @ ?p), ASN_INTEGER, up_engine_boots sp))"
    using small by (subst parse_int_obj) (simp_all add: content)
  have t: "asn_parse_int (?t @ ?u @ ?a @ ?p) (?n (?t @ ?u @ ?a @ ?p)) =
      Some (Inr (?u @ ?a @ ?p, ?n (?u @ ?a @ ?p), ASN_INTEGER, up_engine_time sp))"
    using small by (subst parse_int_obj) (simp_all add: content)
  have u: "asn_parse_string (?u @ ?a @ ?p) (?n (?u @ ?a @ ?p)) 32 =
      Some (Inr (?a @ ?p, ?n (?a @ ?p), ASN_OCTET_STR, up_user_name sp))"
    using assms(2) small by (subst parse_string_obj) (simp_all add: content)
  have a: "asn_parse_string (?a @ ?p) (?n (?a @ ?p)) 128 = Some (Inr (?p, ?n ?p, ASN_OCTET_STR, up_auth sp))"
    using assms(3) small by (subst parse_string_obj) (simp_all add: content)
  have p: "asn_parse_string ?p (?n ?p) 128 = Some (Inr ([], 0, ASN_OCTET_STR, up_priv sp))"
    using assms(4) small parse_string_obj [of ASN_OCTET_STR "up_priv sp" 128 "?n ?p" "[]"] by (simp add: content)
  have offset: "?n (sec_bytes sp) - ?n ?p - ?n (up_auth sp) =
      int (ber_head (length (sec_content sp)) + length (sec_fields sp) + ber_head (length (up_auth sp)))"
    by (simp add: sec_bytes_def ber_head_obj sec_content_def)
  show ?thesis
    unfolding parse_sec_params_def
    using assms(2, 5, 6) e b t u a p offset
    by (simp add: h on_ok_def [of "Some _"] usm_lengths content [symmetric] del: length_append)
qed

end
