(* ===== verification/Usm_Security.thy ===== *)
theory Usm_Security
  imports Usm_Message
begin

section \<open>What an accepted message has passed\<close>

text \<open>
  The inversion of \<open>process_msg\<close>: with an authenticated level it returns \<open>SNMPv3_USM_OK\<close> only for a message that
  carries the HMAC under the key of its user and whose time the time table has accepted.  Together with the theory of
  the time table this gives the protection against replay.
\<close>

lemma auth_inc_msg_inv:
  assumes "auth_auth_inc_msg H a key msg pos n = Some (msg', SNMPv3_USM_OK)"
  shows "n = auth_get_auth_params_len a" and "get_key_length a \<le> length key"
    and "\<exists>received. read_at pos (auth_get_auth_params_len a) msg = Some received"
proof -
  have n: "n = auth_get_auth_params_len a"
    using assms by (cases a) (auto simp: AuthMD5_auth_inc_msg_def AuthSHABase_auth_inc_msg_def usm_results split: if_splits)
  then have c: "check_digest (\<lambda>msg. auth_auth_out_msg H a key msg pos) msg pos n = Some (msg', SNMPv3_USM_OK)"
    using assms by (cases a) (simp_all add: AuthMD5_auth_inc_msg_def AuthSHABase_auth_inc_msg_def)
  show "n = auth_get_auth_params_len a" by (rule n)
  obtain received r where r: "read_at pos n msg = Some received" "auth_auth_out_msg H a key msg pos = Some r"
    using c by (auto simp: check_digest_def bind_eq_Some_iff)
  then show "\<exists>received. read_at pos (auth_get_auth_params_len a) msg = Some received" using n by auto
  show "get_key_length a \<le> length key"
    using r(2) by (cases a) (auto simp: AuthMD5_auth_out_msg_def AuthSHABase_auth_out_msg_def bind_eq_Some_iff Let_def
        split: if_splits)
qed

text \<open>The message carries the HMAC of a registered protocol.\<close>

definition authentic :: "hashes \<Rightarrow> auth_priv \<Rightarrow> int \<Rightarrow> u8 list \<Rightarrow> u8 list \<Rightarrow> int \<Rightarrow> nat \<Rightarrow> bool" where
  "authentic H ap auth_prot key msg pos n \<longleftrightarrow> 0 \<le> pos \<and> (case get_auth auth_prot ap of None \<Rightarrow> False
     | Some a \<Rightarrow> n = auth_get_auth_params_len a \<and> get_key_length a \<le> length key \<and>
         read_at (nat pos) n msg = Some (mac H a key msg (nat pos)))"

lemma auth_at_OK:
  assumes "digests H" and "auth_at H ap auth_prot key msg pos n = Some (msg', SNMPv3_USM_OK)"
  shows "authentic H ap auth_prot key msg pos n" and "msg' = msg" and "auth_prot \<noteq> SNMP_AUTHPROTOCOL_NONE"
proof -
  have p: "auth_prot \<noteq> SNMP_AUTHPROTOCOL_NONE" "0 \<le> pos"
    using assms(2) by (auto simp: auth_at_def auth_inc_msg_def usm_results split: if_splits)
  obtain a where a: "get_auth auth_prot ap = Some a" "auth_auth_inc_msg H a key msg (nat pos) n = Some (msg', SNMPv3_USM_OK)"
    using assms(2) p by (auto simp: auth_at_def auth_inc_msg_def usm_results split: option.splits)
  note i = auth_inc_msg_inv [OF a(2)]
  obtain received where r: "read_at (nat pos) (auth_get_auth_params_len a) msg = Some received" using i(3) by blast
  have "msg' = msg \<and> received = mac H a key msg (nat pos)"
  proof -
    have "Some (msg', SNMPv3_USM_OK) = Some (msg, if n = auth_get_auth_params_len a \<and> received = mac H a key msg (nat pos)
        then SNMPv3_USM_OK else SNMPv3_USM_AUTHENTICATION_FAILURE)"
      unfolding a(2) [symmetric] by (rule auth_inc_msg_mac [OF assms(1) i(2) r])
    then show ?thesis by (cases "received = mac H a key msg (nat pos)") (simp_all add: usm_results)
  qed
  then show "authentic H ap auth_prot key msg pos n" "msg' = msg"
    using a(1) i(1, 2) r p(2) by (simp_all add: authentic_def)
  show "auth_prot \<noteq> SNMP_AUTHPROTOCOL_NONE" by (rule p(1))
qed

text \<open>Looking up a user leaves the time table and the protocols alone.\<close>

lemma add_localized_user_frame:
  "add_localized_user e u = Some (u', rc) \<Longrightarrow> usm_time_table u' = usm_time_table u \<and> usm_auth_priv u' = usm_auth_priv u"
  by (auto simp: add_localized_user_def bind_eq_Some_iff)

lemma get_user_frame:
  assumes "get_user H engine_id name u = Some (u', e)"
  shows "usm_time_table u' = usm_time_table u \<and> usm_auth_priv u' = usm_auth_priv u"
proof (cases "u' = u")
  case False
  have found: "USMUserTable_get_entry engine_id name (usm_user_table u) = Some None"
    using assms False by (auto simp: get_user_def bind_eq_Some_iff split: option.splits)
  obtain n where n: "USMUserNameTable_get_entry name (usm_user_name_table u) = Some (Some n)"
    using assms False found by (auto simp: get_user_def bind_eq_Some_iff split: option.splits if_splits)
  have ne: "engine_id \<noteq> []" using assms False found n by (auto simp: get_user_def)
  obtain r where r: "build_localized_keys H (usm_auth_priv u) engine_id (ne_auth_protocol n) (ne_priv_protocol n)
      (ne_auth_password n) (ne_priv_password n) = Some r"
    using assms found n ne by (auto simp: get_user_def bind_eq_Some_iff)
  obtain auth_key priv_key where k: "r = Inr (auth_key, priv_key)"
    using assms False found n ne r by (cases r) (auto simp: get_user_def)
  obtain rc where "add_localized_user (localized_entry engine_id n auth_key priv_key) u = Some (u', rc)"
    using assms found n ne r k by (auto simp: get_user_def bind_eq_Some_iff)
  then show ?thesis by (rule add_localized_user_frame)
qed simp

lemma decrypt_data_Inr:
  assumes "decrypt_data cs securityLevel notInTime user sp msgData msgDataLength s = Some (Inr s')"
  shows "\<exists>pdu n. s' = s\<lparr>ms_scoped_pdu := pdu, ms_scoped_length := n\<rparr>"
proof (cases "securityLevel = SNMP_SECURITY_LEVEL_AUTH_PRIV \<and> \<not> notInTime")
  case False
  then have "s' = s\<lparr>ms_scoped_pdu := take (nat msgDataLength) msgData, ms_scoped_length := nat msgDataLength\<rparr>"
    using assms unfolding decrypt_data_def Let_def by auto
  then show ?thesis by (intro exI)
next
  case True
  then obtain parsed where parsed: "asn_parse_string msgData msgDataLength msgDataLength = Some parsed"
    using assms unfolding decrypt_data_def Let_def by (auto simp: bind_eq_Some_iff)
  then obtain d l t enc where enc: "parsed = Inr (d, l, t, enc)"
    using assms True unfolding decrypt_data_def Let_def by (cases parsed) auto
  obtain dec where dec: "decrypt_msg cs (usm_auth_priv (ms_usm s)) (ue_priv_protocol user) (ue_priv_key user) enc
      MAX_SNMP_PACKET (sp_priv_param sp) (sp_engine_boots sp) (sp_engine_time sp) = Some dec"
    using assms True parsed enc unfolding decrypt_data_def Let_def by (auto simp: bind_eq_Some_iff split: if_splits)
  then obtain pdu where "dec = Inr pdu"
    using assms True parsed enc unfolding decrypt_data_def Let_def by (cases dec) (auto split: if_splits)
  then have "s' = s\<lparr>ms_scoped_pdu := pdu, ms_scoped_length := length pdu\<rparr>"
    using assms True parsed enc dec unfolding decrypt_data_def Let_def by (auto simp: Let_def split: if_splits)
  then show ?thesis by (intro exI)
qed

lemma decrypt_data_Inl:
  assumes "decrypt_data cs securityLevel notInTime user sp msgData msgDataLength s = Some (Inl (s', rc))"
  shows "rc \<noteq> SNMPv3_USM_OK \<and> rc \<noteq> 0"
proof -
  have priv: "securityLevel = SNMP_SECURITY_LEVEL_AUTH_PRIV \<and> \<not> notInTime"
    using assms unfolding decrypt_data_def Let_def by (auto split: if_splits)
  then obtain parsed where parsed: "asn_parse_string msgData msgDataLength msgDataLength = Some parsed"
    using assms unfolding decrypt_data_def Let_def by (auto simp: bind_eq_Some_iff)
  show ?thesis
  proof (cases parsed)
    case (Inl e)
    then show ?thesis using assms priv parsed unfolding decrypt_data_def Let_def by (auto simp: usm_results)
  next
    case (Inr p)
    obtain d l t enc where p: "p = (d, l, t, enc)" by (cases p)
    obtain dec where dec: "decrypt_msg cs (usm_auth_priv (ms_usm s)) (ue_priv_protocol user) (ue_priv_key user) enc
        MAX_SNMP_PACKET (sp_priv_param sp) (sp_engine_boots sp) (sp_engine_time sp) = Some dec"
      using assms priv parsed Inr p unfolding decrypt_data_def Let_def by (auto simp: bind_eq_Some_iff split: if_splits)
    then show ?thesis
      using assms priv parsed Inr p unfolding decrypt_data_def Let_def
      by (cases dec) (auto simp: usm_results Let_def split: if_splits)
  qed
qed

lemma decrypt_data_frame:
  assumes "decrypt_data cs securityLevel notInTime user sp msgData msgDataLength s = Some (Inr s')"
  shows "ms_usm s' = ms_usm s \<and> ms_whole_msg s' = ms_whole_msg s"
  using decrypt_data_Inr [OF assms] by auto

lemma authenticate_accepted:
  assumes "digests H" and "authenticate H securityLevel now user sp pos s = Some (Inr (s', False))"
    and "securityLevel > SNMP_SECURITY_LEVEL_NOAUTH_NOPRIV"
  shows "authentic H (usm_auth_priv (ms_usm s)) (ue_auth_protocol user) (ue_auth_key user) (ms_whole_msg s) pos (sp_auth_len sp)"
    and "\<exists>rc. USMTimeTable_check_time (sp_engine_id sp) (sint (sp_engine_boots sp)) (sint (sp_engine_time sp)) now
        (usm_time_table (ms_usm s)) = Some (usm_time_table (ms_usm s'), rc) \<and>
      rc \<noteq> SNMPv3_USM_NOT_IN_TIME_WINDOW \<and> rc \<noteq> SNMPv3_USM_UNKNOWN_ENGINEID"
    and "ms_whole_msg s' = ms_whole_msg s"
proof -
  obtain msg rc where a: "auth_at H (usm_auth_priv (ms_usm s)) (ue_auth_protocol user) (ue_auth_key user) (ms_whole_msg s)
      pos (sp_auth_len sp) = Some (msg, rc)"
    using assms(2, 3) by (auto simp: authenticate_def bind_eq_Some_iff split: if_splits)
  have ok: "rc = SNMPv3_USM_OK"
  proof (rule ccontr)
    assume "rc \<noteq> SNMPv3_USM_OK"
    then show False using assms(2, 3) a by (simp add: authenticate_def Let_def)
  qed
  note o = auth_at_OK [OF assms(1) a [unfolded ok]]
  obtain tt rc' where t: "USMTimeTable_check_time (sp_engine_id sp) (sint (sp_engine_boots sp)) (sint (sp_engine_time sp)) now
      (usm_time_table (ms_usm s)) = Some (tt, rc')"
    using assms(2, 3) a ok by (auto simp: authenticate_def Let_def bind_eq_Some_iff)
  show "authentic H (usm_auth_priv (ms_usm s)) (ue_auth_protocol user) (ue_auth_key user) (ms_whole_msg s) pos (sp_auth_len sp)"
    by (rule o(1))
  have "s' = s\<lparr>ms_whole_msg := msg, ms_usm := (ms_usm s)\<lparr>usm_time_table := tt\<rparr>\<rparr> \<and>
      rc' \<noteq> SNMPv3_USM_NOT_IN_TIME_WINDOW \<and> rc' \<noteq> SNMPv3_USM_UNKNOWN_ENGINEID"
    using assms(2, 3) a ok t by (auto simp: authenticate_def Let_def split: if_splits)
  then show "\<exists>rc. USMTimeTable_check_time (sp_engine_id sp) (sint (sp_engine_boots sp)) (sint (sp_engine_time sp)) now
        (usm_time_table (ms_usm s)) = Some (usm_time_table (ms_usm s'), rc) \<and>
      rc \<noteq> SNMPv3_USM_NOT_IN_TIME_WINDOW \<and> rc \<noteq> SNMPv3_USM_UNKNOWN_ENGINEID" "ms_whole_msg s' = ms_whole_msg s"
    using t o(2) by auto
qed

lemma process_user_accepted:
  assumes "digests H" and "securityLevel > SNMP_SECURITY_LEVEL_NOAUTH_NOPRIV"
    and "process_user H cs maxMessageSize securityLevel now user sp pos msgData msgDataLength s = Some (s', SNMPv3_USM_OK)"
  shows "authentic H (usm_auth_priv (ms_usm s)) (ue_auth_protocol user) (ue_auth_key user) (ms_whole_msg s) pos (sp_auth_len sp)"
    and "\<exists>rc. USMTimeTable_check_time (sp_engine_id sp) (sint (sp_engine_boots sp)) (sint (sp_engine_time sp)) now
        (usm_time_table (ms_usm s)) = Some (usm_time_table (ms_usm s'), rc) \<and>
      rc \<noteq> SNMPv3_USM_NOT_IN_TIME_WINDOW \<and> rc \<noteq> SNMPv3_USM_UNKNOWN_ENGINEID"
    and "ms_security_name s' = ue_security_name user" and "ms_whole_msg s' = ms_whole_msg s"
    and "securityLevel = SNMP_SECURITY_LEVEL_AUTH_PRIV \<Longrightarrow> ue_priv_protocol user \<noteq> SNMP_PRIVPROTOCOL_NONE"
proof -
  have level: "\<not> (securityLevel > SNMP_SECURITY_LEVEL_NOAUTH_NOPRIV \<and> ue_auth_protocol user = SNMP_AUTHPROTOCOL_NONE \<or>
      securityLevel = SNMP_SECURITY_LEVEL_AUTH_PRIV \<and> ue_priv_protocol user = SNMP_PRIVPROTOCOL_NONE)"
    using assms(3) by (auto simp: process_user_def usm_results)
  then show "securityLevel = SNMP_SECURITY_LEVEL_AUTH_PRIV \<Longrightarrow> ue_priv_protocol user \<noteq> SNMP_PRIVPROTOCOL_NONE" by simp
  have body: "Option.bind (authenticate H securityLevel now user sp pos s) (\<lambda>r. case r of Inl done \<Rightarrow> Some done
     | Inr (s, notInTime) \<Rightarrow>
         Option.bind (decrypt_data cs securityLevel notInTime user sp msgData msgDataLength s) (\<lambda>r.
         case r of Inl done \<Rightarrow> Some done
         | Inr s \<Rightarrow> Some (s\<lparr>ms_max_size := maxMessageSize - (int (length (ms_whole_msg s)) - int (ms_scoped_length s)),
               ms_security_name := ue_security_name user, ms_ref := fill_ref user (ms_ref s)\<rparr>,
             if notInTime then SNMPv3_USM_NOT_IN_TIME_WINDOW else SNMPv3_USM_OK))) = Some (s', SNMPv3_USM_OK)"
    using assms(3) level by (simp only: process_user_def if_False)
  obtain r where r: "authenticate H securityLevel now user sp pos s = Some r" using body by (auto simp: bind_eq_Some_iff)
  have no_Inl: "r \<noteq> Inl (s', SNMPv3_USM_OK)"
    using r assms(2) by (auto simp: authenticate_def Let_def bind_eq_Some_iff usm_results split: if_splits)
  obtain s1 b where s1: "r = Inr (s1, b)" using body r no_Inl by (cases r) auto
  obtain d where d: "decrypt_data cs securityLevel b user sp msgData msgDataLength s1 = Some d"
    using body r s1 by (auto simp: bind_eq_Some_iff)
  have no_Inl': "d \<noteq> Inl (s', SNMPv3_USM_OK)" using d decrypt_data_Inl by blast
  obtain s2 where s2: "d = Inr s2" using body r s1 d no_Inl' by (cases d) auto
  have e: "\<not> b" "s' = s2\<lparr>ms_max_size := maxMessageSize - (int (length (ms_whole_msg s2)) - int (ms_scoped_length s2)),
      ms_security_name := ue_security_name user, ms_ref := fill_ref user (ms_ref s2)\<rparr>"
    using body r s1 d s2 by (auto simp: usm_results split: if_splits)
  then have a: "authenticate H securityLevel now user sp pos s = Some (Inr (s1, False))" using r s1 by simp
  note acc = authenticate_accepted [OF assms(1) a assms(2)]
  note f = decrypt_data_frame [OF d [unfolded s2]]
  show "authentic H (usm_auth_priv (ms_usm s)) (ue_auth_protocol user) (ue_auth_key user) (ms_whole_msg s) pos (sp_auth_len sp)"
    by (rule acc(1))
  show "\<exists>rc. USMTimeTable_check_time (sp_engine_id sp) (sint (sp_engine_boots sp)) (sint (sp_engine_time sp)) now
        (usm_time_table (ms_usm s)) = Some (usm_time_table (ms_usm s'), rc) \<and>
      rc \<noteq> SNMPv3_USM_NOT_IN_TIME_WINDOW \<and> rc \<noteq> SNMPv3_USM_UNKNOWN_ENGINEID"
    using acc(2) f e(2) by simp
  show "ms_security_name s' = ue_security_name user" "ms_whole_msg s' = ms_whole_msg s"
    using acc(3) f e(2) by simp_all
qed

text \<open>Everything an accepted message of an authenticated level has passed.\<close>

definition passed :: "hashes \<Rightarrow> sec_params \<Rightarrow> int \<Rightarrow> int \<Rightarrow> msg_state \<Rightarrow> msg_state \<Rightarrow> bool" where
  "passed H sp pos now s s' \<longleftrightarrow> (\<exists>tt name u user rc.
     sp_user_name sp \<noteq> [] \<and>
     USMTimeTable_check_engine_id (discovery_mode (ms_usm s)) (sp_engine_id sp) now (usm_time_table (ms_usm s)) =
       Some (tt, SNMPv3_USM_OK) \<and>
     get_security_name (sp_user_name sp) ((ms_usm s)\<lparr>usm_time_table := tt\<rparr>) = Some (Inr name) \<and>
     get_user H (sp_engine_id sp) name ((ms_usm s)\<lparr>usm_time_table := tt\<rparr>) = Some (u, Some user) \<and>
     authentic H (usm_auth_priv (ms_usm s)) (ue_auth_protocol user) (ue_auth_key user) (ms_whole_msg s)
       (pos + sp_auth_offset sp) (sp_auth_len sp) \<and>
     USMTimeTable_check_time (sp_engine_id sp) (sint (sp_engine_boots sp)) (sint (sp_engine_time sp)) now tt =
       Some (usm_time_table (ms_usm s'), rc) \<and> rc \<noteq> SNMPv3_USM_NOT_IN_TIME_WINDOW \<and> rc \<noteq> SNMPv3_USM_UNKNOWN_ENGINEID \<and>
     ms_security_name s' = ue_security_name user)"

lemma zero_user_rejected: "tables_ok ap \<Longrightarrow> \<not> authentic H ap (ue_auth_protocol zero_user) key msg pos n"
proof -
  assume t: "tables_ok ap"
  have "get_auth 0 ap = None"
  proof (cases "get_auth 0 ap")
    case (Some a)
    then have "auth_get_id a = 0" using t by (simp add: tables_ok_def)
    then show ?thesis by (cases a) (simp_all add: usm_protocols)
  qed simp
  then show ?thesis by (simp add: authentic_def zero_user_def)
qed

lemma process_msg_accepted:
  assumes "digests H" and "tables_ok (usm_auth_priv (ms_usm s))" and "securityLevel > SNMP_SECURITY_LEVEL_NOAUTH_NOPRIV"
    and "process_msg H cs maxMessageSize securityParameters securityParametersLength securityParametersPosition securityLevel
      msgData msgDataLength now s = Some (s', SNMPv3_USM_OK)"
  shows "\<exists>sp. parse_sec_params securityParameters securityParametersLength = Some (Inr sp) \<and>
    passed H sp securityParametersPosition now s s' \<and> ms_whole_msg s' = ms_whole_msg s"
proof -
  have level: "securityLevel \<noteq> SNMP_SECURITY_LEVEL_NOAUTH_NOPRIV" using assms(3) by simp
  obtain sp where sp: "parse_sec_params securityParameters securityParametersLength = Some (Inr sp)"
    and ne: "sp_engine_id sp \<noteq> []" and fits: "\<not> (length msgData < nat msgDataLength \<or> MAX_SNMP_PACKET < nat msgDataLength)"
  proof -
    obtain r where r: "parse_sec_params securityParameters securityParametersLength = Some r"
      using assms(4) by (auto simp: process_msg_def bind_eq_Some_iff)
    have "r \<noteq> Inl SNMPv3_USM_OK"
      using r unfolding parse_sec_params_def Let_def
      by (auto simp: no_null_def on_ok_def usm_results split: option.splits sum.splits if_splits)
    then obtain sp where "r = Inr sp" using assms(4) r by (cases r) (auto simp: process_msg_def)
    then show ?thesis using that r assms(4) by (auto simp: process_msg_def Let_def usm_results split: if_splits)
  qed
  define s1 where "s1 = s\<lparr>ms_security_engine_id := sp_engine_id sp, ms_scoped_pdu := take (nat msgDataLength) msgData,
    ms_scoped_length := nat msgDataLength, ms_ref := \<lparr>ssr_msg_user_name = sp_user_name sp, ssr_security_name = None,
      ssr_security_engine_id = sp_engine_id sp,
      ssr_auth_protocol = 1, ssr_auth_key = [], ssr_priv_protocol = 1, ssr_priv_key = [],
      ssr_security_level = securityLevel\<rparr>\<rparr>"
  obtain tt rc where tt: "USMTimeTable_check_engine_id (discovery_mode (ms_usm s)) (sp_engine_id sp) now
      (usm_time_table (ms_usm s)) = Some (tt, rc)"
    using assms(4) sp ne fits by (auto simp: process_msg_def Let_def bind_eq_Some_iff)
  have rc: "rc = SNMPv3_USM_OK"
    using assms(4) sp ne fits tt by (auto simp: process_msg_def Let_def usm_results split: if_splits)
  define u where "u = (ms_usm s)\<lparr>usm_time_table := tt\<rparr>"
  obtain r where r: "get_security_name (sp_user_name sp) u = Some r"
    using assms(4) sp ne fits tt rc level by (auto simp: process_msg_def Let_def u_def bind_eq_Some_iff)
  obtain name where name: "r = Inr name"
    using assms(4) sp ne fits tt rc level r by (cases r) (auto simp: process_msg_def Let_def u_def usm_results)
  obtain v who where v: "(if sp_user_name sp \<noteq> [] then get_user H (sp_engine_id sp) name u else Some (u, Some zero_user)) =
      Some (v, who)"
  proof (cases "sp_user_name sp = []")
    case True
    then show ?thesis using that [of u "Some zero_user"] by simp
  next
    case False
    show ?thesis
    proof (cases "get_user H (sp_engine_id sp) name u")
      case None
      then show ?thesis using assms(4) sp ne fits tt rc level r name False by (simp add: process_msg_def Let_def u_def)
    next
      case (Some x)
      then show ?thesis using that False by (cases x) auto
    qed
  qed
  obtain user where user: "who = Some user"
    using assms(4) sp ne fits tt rc level r name v
    by (cases who; cases "sp_user_name sp = []") (simp_all add: process_msg_def Let_def u_def usm_results)
  define s2 where "s2 = s1\<lparr>ms_security_name := name, ms_ref := (ms_ref s1)\<lparr>ssr_security_name := Some name\<rparr>, ms_usm := v\<rparr>"
  have reorder: "x\<lparr>ms_security_name := n, ms_ref := q, ms_usm := w\<rparr> = x\<lparr>ms_usm := w, ms_security_name := n, ms_ref := q\<rparr>"
    for x :: msg_state and n q w by simp
  have p: "process_user H cs maxMessageSize securityLevel now user sp (securityParametersPosition + sp_auth_offset sp) msgData
      msgDataLength s2 = Some (s', SNMPv3_USM_OK)"
    using assms(4) sp ne fits tt rc level r name v user
    by (cases "sp_user_name sp = []") (simp_all add: process_msg_def Let_def u_def s1_def s2_def reorder)
  have s2: "ms_usm s2 = v" "ms_whole_msg s2 = ms_whole_msg s" by (simp_all add: s1_def s2_def)
  note acc = process_user_accepted [OF assms(1, 3) p]
  have f: "usm_time_table v = tt" "usm_auth_priv v = usm_auth_priv (ms_usm s)"
    using v get_user_frame [of H "sp_engine_id sp" name u v who] by (auto simp: u_def split: if_splits)
  have "sp_user_name sp \<noteq> []"
  proof
    assume "sp_user_name sp = []"
    then have "user = zero_user" using v user by simp
    then show False using acc(1) zero_user_rejected [OF assms(2)] f(2) s2 by simp
  qed
  moreover from this have "get_user H (sp_engine_id sp) name u = Some (v, Some user)" using v user by simp
  ultimately have "passed H sp securityParametersPosition now s s'"
    using tt [unfolded rc] r [unfolded name] acc(1-3) f s2 unfolding passed_def u_def by auto
  then show ?thesis using sp acc(4) s2 by auto
qed

end
