(* ===== verification/Usm_Delivery.thy ===== *)
theory Usm_Delivery
  imports Usm_Codec Usm_Security
begin

section \<open>From \<open>generate_msg\<close> to \<open>process_msg\<close>\<close>

text \<open>
  A message that one user security model has signed, and encrypted, reaches another one that has the same keys.  First the octets
  around the authentication parameters, then the signature, then what the receiver does with each field.
\<close>

subsection \<open>The octets around the authentication parameters\<close>

definition before_auth :: "u8 list \<Rightarrow> usm_sec_params \<Rightarrow> u8 list \<Rightarrow> u8 list" where
  "before_auth globalData sp msgData = (ASN_SEQ_CON # ber_len (length (whole_content globalData sp msgData))) @ int_obj 3 @
     globalData @ (ASN_OCTET_STR # ber_len (length (sec_bytes sp))) @ (ASN_SEQ_CON # ber_len (length (sec_content sp))) @
     sec_fields sp @ (ASN_OCTET_STR # ber_len (length (up_auth sp)))"

lemma whole_bytes_split:
  "whole_bytes globalData sp msgData =
    before_auth globalData sp msgData @ up_auth sp @ ber_obj ASN_OCTET_STR (up_priv sp) @ msgData"
  by (simp add: whole_bytes_def before_auth_def whole_content_def sec_bytes_def sec_content_def ber_obj_def)

lemma length_before_auth: "length (before_auth globalData sp msgData) = auth_position globalData sp msgData"
  by (simp add: before_auth_def auth_position_def ber_head_def)

lemma before_auth_cong:
  assumes "length d = length (up_auth sp)"
  shows "before_auth globalData (sp\<lparr>up_auth := d\<rparr>) msgData = before_auth globalData sp msgData"
proof -
  have c: "length (sec_content (sp\<lparr>up_auth := d\<rparr>)) = length (sec_content sp)"
    using assms by (simp add: sec_content_def sec_fields_def length_ber_obj)
  then have s: "length (sec_bytes (sp\<lparr>up_auth := d\<rparr>)) = length (sec_bytes sp)" by (simp add: sec_bytes_def length_ber_obj)
  have "length (whole_content globalData (sp\<lparr>up_auth := d\<rparr>) msgData) = length (whole_content globalData sp msgData)"
    using s by (simp add: whole_content_def length_ber_obj)
  then show ?thesis using c s assms by (simp add: before_auth_def sec_fields_def)
qed

lemma length_whole_bytes_cong:
  assumes "length d = length (up_auth sp)"
  shows "length (whole_bytes globalData (sp\<lparr>up_auth := d\<rparr>) msgData) = length (whole_bytes globalData sp msgData)"
  unfolding whole_bytes_split before_auth_cong [OF assms] using assms by simp

lemma write_auth:
  assumes "length d = length (up_auth sp)"
  shows "write_at (auth_position globalData sp msgData) d (whole_bytes globalData sp msgData) =
    Some (whole_bytes globalData (sp\<lparr>up_auth := d\<rparr>) msgData)"
  unfolding whole_bytes_split before_auth_cong [OF assms] length_before_auth [symmetric] using assms
  by (simp add: write_at_def)

lemma read_auth:
  "read_at (auth_position globalData sp msgData) (length (up_auth sp)) (whole_bytes globalData sp msgData) = Some (up_auth sp)"
  unfolding whole_bytes_split length_before_auth [symmetric] by (simp add: read_at_def)

lemma auth_position_inside:
  "auth_position globalData sp msgData + length (up_auth sp) + 2 \<le> length (whole_bytes globalData sp msgData)"
  unfolding whole_bytes_split length_before_auth [symmetric] using length_ber_len(1) [of "length (up_priv sp)"]
  by (simp add: length_ber_obj)

subsection \<open>The signature\<close>

text \<open>The parameters with zeros for the digest, which the message is built from.\<close>

definition zero_auth :: "auth_class \<Rightarrow> usm_sec_params \<Rightarrow> usm_sec_params" where
  "zero_auth a sp = sp\<lparr>up_auth := replicate (auth_get_auth_params_len a) 0\<rparr>"

lemma auth_params_short: "auth_get_auth_params_len a \<le> 48" "0 < auth_get_auth_params_len a"
  by (cases a; simp)+

lemma length_zero_auth [simp]: "length (up_auth (zero_auth a sp)) = auth_get_auth_params_len a"
  by (simp add: zero_auth_def)

lemma message_signed_eq:
  assumes "digests H" and "get_auth (ue_auth_protocol user) ap = Some a" and "ue_auth_protocol user \<noteq> SNMP_AUTHPROTOCOL_NONE"
    and "get_key_length a \<le> length (ue_auth_key user)" and "securityLevel \<ge> SNMP_SECURITY_LEVEL_AUTH_NOPRIV"
    and "maxMessageSize \<le> int MAX_SNMP_PACKET" and "maxMessageSize \<le> int (length wholeMsg)"
    and "length (sec_bytes (zero_auth a sp)) < 65536"
  shows "message_signed H ap globalData maxMessageSize securityLevel user sp msgData wholeMsg =
    (let msg = whole_bytes globalData (zero_auth a sp) msgData; p = signed_position globalData (zero_auth a sp) msgData
     in if int (length msg) \<le> maxMessageSize
        then Some (Inr (take p msg @ mac H a (ue_auth_key user) msg p @ drop (p + auth_get_auth_params_len a) msg))
        else Some (Inl SNMPv3_USM_ERROR))"
proof -
  let ?sp = "zero_auth a sp" and ?n = "auth_get_auth_params_len a"
  let ?msg = "whole_bytes globalData ?sp msgData" and ?p = "signed_position globalData ?sp msgData"
  have n: "get_auth_params_len (ue_auth_protocol user) ap = ?n" using assms(2) by (simp add: get_auth_params_len_def)
  have b: "build_whole_msg (wholeMsg, 0) maxMessageSize globalData ?sp msgData = (if int (length ?msg) \<le> maxMessageSize
     then Some (Inr ((written wholeMsg 0 ?msg, 0 + length ?msg), maxMessageSize - int (length ?msg), int ?p))
     else Some (Inl Buffer_Full))"
    using assms(6, 7) by (intro build_whole_msg_eq) simp_all
  have inside: "?p + ?n \<le> length ?msg"
    using auth_position_inside [of globalData ?sp msgData] signed_position_cases [OF _ assms(8), of globalData msgData]
      auth_params_short [of a] by (simp split: if_splits)
  obtain msg' where m: "auth_auth_out_msg H a (ue_auth_key user) ?msg ?p = Some (msg', SNMPv3_USM_OK)"
    "write_at ?p (mac H a (ue_auth_key user) ?msg ?p) ?msg = Some msg'"
    using auth_out_msg_mac [OF assms(1, 4) inside] by blast
  have "msg' = take ?p ?msg @ mac H a (ue_auth_key user) ?msg ?p @ drop (?p + ?n) ?msg"
    using m(2) length_mac [OF assms(1), of a] by (auto simp: write_at_def split: if_splits)
  then show ?thesis using b assms(2, 3, 5) m(1) n
    by (simp add: message_signed_def Let_def zero_auth_def [symmetric] take_written_0 auth_out_msg_def)
qed

text \<open>When the position is right the message is that of the same parameters with the digest in them.\<close>

definition signed_params :: "hashes \<Rightarrow> auth_class \<Rightarrow> u8 list \<Rightarrow> u8 list \<Rightarrow> usm_sec_params \<Rightarrow> u8 list \<Rightarrow> usm_sec_params" where
  "signed_params H a key globalData sp msgData = sp\<lparr>up_auth := mac H a key (whole_bytes globalData (zero_auth a sp) msgData)
     (auth_position globalData (zero_auth a sp) msgData)\<rparr>"

lemma signed_whole_bytes:
  assumes "digests H"
  shows "take (auth_position globalData (zero_auth a sp) msgData) (whole_bytes globalData (zero_auth a sp) msgData) @
      mac H a key (whole_bytes globalData (zero_auth a sp) msgData) (auth_position globalData (zero_auth a sp) msgData) @
      drop (auth_position globalData (zero_auth a sp) msgData + auth_get_auth_params_len a)
        (whole_bytes globalData (zero_auth a sp) msgData) =
    whole_bytes globalData (signed_params H a key globalData sp msgData) msgData"
proof -
  let ?sp = "zero_auth a sp"
  let ?p = "auth_position globalData ?sp msgData" and ?msg = "whole_bytes globalData ?sp msgData"
  have l: "length (mac H a key ?msg ?p) = length (up_auth ?sp)" using length_mac [OF assms] by simp
  have "?sp\<lparr>up_auth := mac H a key ?msg ?p\<rparr> = signed_params H a key globalData sp msgData"
    by (simp add: zero_auth_def signed_params_def)
  then show ?thesis using write_auth [OF l, of globalData msgData] l by (simp add: write_at_def split: if_splits)
qed

text \<open>The receiver finds the digest where the sender has put it, and computes the same one.\<close>

lemma signed_authentic:
  assumes "digests H" and "get_auth auth_prot ap = Some a" and "auth_prot \<noteq> SNMP_AUTHPROTOCOL_NONE"
    and "get_key_length a \<le> length key"
    and "sp' = signed_params H a key globalData sp msgData"
  shows "auth_at H ap auth_prot key (whole_bytes globalData sp' msgData) (int (auth_position globalData sp' msgData))
    (length (up_auth sp')) = Some (whole_bytes globalData sp' msgData, SNMPv3_USM_OK)"
proof -
  let ?sp = "zero_auth a sp"
  let ?p = "auth_position globalData ?sp msgData" and ?msg = "whole_bytes globalData ?sp msgData"
  let ?mac = "mac H a key ?msg ?p"
  have l: "length ?mac = length (up_auth ?sp)" using length_mac [OF assms(1)] by simp
  have sp': "sp' = ?sp\<lparr>up_auth := ?mac\<rparr>" by (simp add: assms(5) signed_params_def zero_auth_def)
  have w: "write_at ?p ?mac ?msg = Some (whole_bytes globalData sp' msgData)" unfolding sp' by (rule write_auth [OF l])
  have p: "auth_position globalData sp' msgData = ?p"
    using arg_cong [OF before_auth_cong [OF l, of globalData msgData], of length] unfolding sp' length_before_auth .
  have r: "read_at ?p (auth_get_auth_params_len a) (whole_bytes globalData sp' msgData) = Some ?mac"
    using read_write_at [OF w] l by simp
  have m: "mac H a key (whole_bytes globalData sp' msgData) ?p = ?mac" using mac_write_at [OF w] l by simp
  have "auth_auth_inc_msg H a key (whole_bytes globalData sp' msgData) ?p (auth_get_auth_params_len a) =
      Some (whole_bytes globalData sp' msgData, SNMPv3_USM_OK)"
    using auth_inc_msg_mac [OF assms(1, 4) r, of "auth_get_auth_params_len a"] m by simp
  moreover have "length (up_auth sp') = auth_get_auth_params_len a" using l by (simp add: sp')
  ultimately show ?thesis using assms(2, 3) p by (simp add: auth_at_def auth_inc_msg_def)
qed

subsection \<open>The data\<close>

lemma priv_encrypt_sizes:
  assumes "priv_encrypt cs p key buffer room n my_salt boots time = Some (Inr (out, params))"
    and "des_cipher (des_desc cs)" and "des_cipher (des3_desc cs)"
  shows "length params = 8" and "length (plain_text p buffer) \<le> room"
proof -
  have des: "length params = 8 \<and> length (zero_padded buffer) \<le> room"
    if e: "des_cbc_encrypt c kb iv_pos key buffer room my_salt boots = Some (Inr (out, params))" and "des_cipher c"
    for c kb iv_pos
  proof -
    have "iv_pos + 8 \<le> length key" "8 \<le> length buffer" using des_cbc_encrypt_InrD [OF e] by simp_all
    then obtain out' where "des_cbc_encrypt c kb iv_pos key buffer room my_salt boots =
        (if length (zero_padded buffer) \<le> room then Some (Inr (out', be32 boots @ be32 my_salt)) else None)"
      using des_cbc_roundtrip [OF \<open>des_cipher c\<close> _ _ order_refl, of iv_pos key buffer kb room my_salt boots] by blast
    then show ?thesis using e by (auto simp: be32_def split: if_splits)
  qed
  have aes: "length params = 8 \<and> length buffer \<le> room"
    if "PrivAES_encrypt cs kb rounds key buffer room n my_salt boots time = Some (Inr (out, params))" for kb rounds
    using that by (auto simp: PrivAES_encrypt_def Let_def be32_def bind_eq_Some_iff split: if_splits)
  have "length params = 8 \<and> length (plain_text p buffer) \<le> room"
    using assms des [of "des_desc cs" 8 8] des [of "des3_desc cs" 24 24] aes
    by (cases p) (auto simp: PrivDES_encrypt_def Priv3DES_EDE_encrypt_def split: if_splits)
  then show "length params = 8" "length (plain_text p buffer) \<le> room" by simp_all
qed

text \<open>The PDU that arrives.\<close>

definition delivered_pdu :: "auth_priv \<Rightarrow> int \<Rightarrow> user_entry \<Rightarrow> u8 list \<Rightarrow> u8 list" where
  "delivered_pdu ap securityLevel user scopedPDU =
     (if securityLevel = SNMP_SECURITY_LEVEL_AUTH_PRIV
      then case get_priv (ue_priv_protocol user) ap of None \<Rightarrow> [] | Some p \<Rightarrow> plain_text p scopedPDU
      else scopedPDU)"

lemma delivered_plain:
  assumes "securityLevel \<noteq> SNMP_SECURITY_LEVEL_AUTH_PRIV \<or> (\<forall>p. get_priv (ue_priv_protocol user) ap = Some p \<longrightarrow> is_aes p)"
    and "securityLevel = SNMP_SECURITY_LEVEL_AUTH_PRIV \<Longrightarrow> get_priv (ue_priv_protocol user) ap \<noteq> None"
  shows "delivered_pdu ap securityLevel user scopedPDU = scopedPDU"
proof -
  have "plain_text p scopedPDU = scopedPDU" if "is_aes p" for p using that by (cases p) simp_all
  then show ?thesis using assms by (auto simp: delivered_pdu_def)
qed

lemma message_dataD:
  assumes "message_data cs maxMessageSize securityLevel user boots time scopedPDU u = Some (u', Inr (msgData, params))"
    and "securityLevel = SNMP_SECURITY_LEVEL_AUTH_PRIV"
  obtains p enc where "get_priv (ue_priv_protocol user) (usm_auth_priv u) = Some p"
    and "priv_encrypt cs p (ue_priv_key user) scopedPDU MAX_SNMP_PACKET 8 (salt (usm_auth_priv u)) (word_of_int boots)
      (word_of_int time) = Some (Inr (enc, params))"
    and "\<exists>buf n l. asn_build_string (local_buffer MAX_SNMP_PACKET) maxMessageSize ASN_OCTET_STR enc (int (length enc)) =
      Some (Inr ((buf, n), l)) \<and> msgData = take n buf"
    and "u' = u\<lparr>usm_auth_priv := (usm_auth_priv u)\<lparr>salt := salt (usm_auth_priv u) + 1\<rparr>\<rparr>"
proof (cases "get_priv (ue_priv_protocol user) (usm_auth_priv u)")
  case None
  then show ?thesis using assms by (simp add: message_data_def encrypt_msg_def split: if_splits)
next
  case (Some p)
  let ?e = "priv_encrypt cs p (ue_priv_key user) scopedPDU MAX_SNMP_PACKET 8 (salt (usm_auth_priv u)) (word_of_int boots)
      (word_of_int time)"
  obtain enc ps where e: "?e = Some (Inr (enc, ps))"
  proof (cases ?e)
    case None
    then show ?thesis using assms Some by (simp add: message_data_def encrypt_msg_def get_priv_params_len_def Let_def)
  next
    case (Some r)
    then show ?thesis using that assms \<open>get_priv _ _ = Some p\<close>
      by (cases r) (auto simp: message_data_def encrypt_msg_def get_priv_params_len_def Let_def)
  qed
  obtain b where b: "asn_build_string (local_buffer MAX_SNMP_PACKET) maxMessageSize ASN_OCTET_STR enc (int (length enc)) = Some b"
    using assms Some e by (auto simp: message_data_def encrypt_msg_def get_priv_params_len_def Let_def bind_eq_Some_iff)
  then obtain buf n l where b': "b = Inr ((buf, n), l)" using assms Some e
    by (cases b) (auto simp: message_data_def encrypt_msg_def get_priv_params_len_def Let_def)
  then show ?thesis using that [OF Some] e b assms Some
    by (auto simp: message_data_def encrypt_msg_def get_priv_params_len_def Let_def)
qed

lemma built_string:
  assumes "asn_build_string (local_buffer MAX_SNMP_PACKET) maxMessageSize ASN_OCTET_STR s (int (length s)) = Some (Inr ((buf, n), l))"
    and "maxMessageSize \<le> int MAX_SNMP_PACKET"
  shows "take n buf = ber_obj ASN_OCTET_STR s" and "length (ber_obj ASN_OCTET_STR s) \<le> MAX_SNMP_PACKET"
proof -
  let ?o = "ber_obj ASN_OCTET_STR s"
  have fits: "int (length ?o) \<le> maxMessageSize"
  proof (rule ccontr)
    assume "\<not> int (length ?o) \<le> maxMessageSize"
    then show False using assms builds_full [OF builds_string [OF refl, of ASN_OCTET_STR s], of maxMessageSize "replicate MAX_SNMP_PACKET 0" 0]
      by (simp add: local_buffer_def)
  qed
  then have "Some (Inr ((buf, n), l)) = Some (Inr ((written (replicate MAX_SNMP_PACKET 0) 0 ?o, length ?o),
      maxMessageSize - int (length ?o)))"
    using local_buffer_fit [OF builds_string [OF refl, of ASN_OCTET_STR s], of MAX_SNMP_PACKET maxMessageSize] assms by simp
  then show "take n buf = ?o" "length ?o \<le> MAX_SNMP_PACKET" using fits assms(2) by (simp_all add: take_written_0)
qed

lemma data_delivered:
  assumes "message_data cs maxMessageSize securityLevel user boots time scopedPDU u = Some (u', Inr (msgData, params))"
    and "maxMessageSize \<le> int MAX_SNMP_PACKET" and "des_cipher (des_desc cs)" and "des_cipher (des3_desc cs)"
    and "get_priv (ue_priv_protocol user') (usm_auth_priv (ms_usm s)) = get_priv (ue_priv_protocol user) (usm_auth_priv u)"
    and "ue_priv_key user' = ue_priv_key user" and "sp_priv_param sp = params" and "sp_engine_boots sp = word_of_int boots"
    and "sp_engine_time sp = word_of_int time"
    and "\<exists>rest. scopedPDU = ASN_SEQ_CON # rest"
  shows "decrypt_data cs securityLevel False user' sp msgData (int (length msgData)) s =
    Some (Inr (s\<lparr>ms_scoped_pdu := delivered_pdu (usm_auth_priv u) securityLevel user scopedPDU,
      ms_scoped_length := length (delivered_pdu (usm_auth_priv u) securityLevel user scopedPDU)\<rparr>))"
    and "length params \<le> 8" and "length msgData \<le> MAX_SNMP_PACKET"
proof -
  have "decrypt_data cs securityLevel False user' sp msgData (int (length msgData)) s =
    Some (Inr (s\<lparr>ms_scoped_pdu := delivered_pdu (usm_auth_priv u) securityLevel user scopedPDU,
      ms_scoped_length := length (delivered_pdu (usm_auth_priv u) securityLevel user scopedPDU)\<rparr>)) \<and>
    length params \<le> 8 \<and> length msgData \<le> MAX_SNMP_PACKET"
  proof (cases "securityLevel = SNMP_SECURITY_LEVEL_AUTH_PRIV")
    case False
    then have "msgData = scopedPDU" "params = []" "length scopedPDU \<le> MAX_SNMP_PACKET"
      using assms(1) by (auto simp: message_data_def split: if_splits)
    then show ?thesis using False by (simp add: decrypt_data_def delivered_pdu_def)
  next
    case True
    obtain p enc where p: "get_priv (ue_priv_protocol user) (usm_auth_priv u) = Some p"
      and e: "priv_encrypt cs p (ue_priv_key user) scopedPDU MAX_SNMP_PACKET 8 (salt (usm_auth_priv u)) (word_of_int boots)
        (word_of_int time) = Some (Inr (enc, params))"
      and b: "\<exists>buf n l. asn_build_string (local_buffer MAX_SNMP_PACKET) maxMessageSize ASN_OCTET_STR enc (int (length enc)) =
        Some (Inr ((buf, n), l)) \<and> msgData = take n buf"
      by (rule message_dataD [OF assms(1) True])
    note sizes = priv_encrypt_sizes [OF e assms(3, 4)]
    have msg: "msgData = ber_obj ASN_OCTET_STR enc" "length msgData \<le> MAX_SNMP_PACKET"
      using b built_string [OF _ assms(2)] by auto
    then have enc: "length enc \<le> length msgData" "length msgData < 2 ^ 31" by (simp_all add: length_ber_obj MAX_SNMP_PACKET_def)
    then have "asn_parse_string msgData (int (length msgData)) (int (length msgData)) = Some (Inr ([], 0, ASN_OCTET_STR, enc))"
      using parse_string_obj [of ASN_OCTET_STR enc "int (length msgData)" "int (length msgData)" "[]"] msg(1) by simp
    moreover have "decrypt_msg cs (usm_auth_priv (ms_usm s)) (ue_priv_protocol user') (ue_priv_key user') enc MAX_SNMP_PACKET
        (sp_priv_param sp) (sp_engine_boots sp) (sp_engine_time sp) = Some (Inr (plain_text p scopedPDU))"
      using priv_roundtrip [OF e assms(3, 4) sizes(2)] p assms(5-9) by (simp add: decrypt_msg_def)
    moreover have "\<exists>r. plain_text p scopedPDU = ASN_SEQ_CON # r" using assms(10) by (cases p) (auto simp: zero_padded_def)
    ultimately show ?thesis using True msg enc sizes(1) p
      by (auto simp: decrypt_data_def delivered_pdu_def Let_def)
  qed
  then show "decrypt_data cs securityLevel False user' sp msgData (int (length msgData)) s =
    Some (Inr (s\<lparr>ms_scoped_pdu := delivered_pdu (usm_auth_priv u) securityLevel user scopedPDU,
      ms_scoped_length := length (delivered_pdu (usm_auth_priv u) securityLevel user scopedPDU)\<rparr>))"
    "length params \<le> 8" "length msgData \<le> MAX_SNMP_PACKET" by blast+
qed

subsection \<open>The receiver\<close>

text \<open>What the receiver finds in its tables: the engine, the user and a time inside the window.\<close>

definition receives :: "hashes \<Rightarrow> u8 list \<Rightarrow> u8 list \<Rightarrow> int \<Rightarrow> int \<Rightarrow> int \<Rightarrow> usm \<Rightarrow> user_entry \<Rightarrow> usm \<Rightarrow> bool" where
  "receives H engine_id user_name boots time now u user u' \<longleftrightarrow> (\<exists>tt name u1 tt'.
     USMTimeTable_check_engine_id (discovery_mode u) engine_id now (usm_time_table u) = Some (tt, SNMPv3_USM_OK) \<and>
     get_security_name user_name (u\<lparr>usm_time_table := tt\<rparr>) = Some (Inr name) \<and>
     get_user H engine_id name (u\<lparr>usm_time_table := tt\<rparr>) = Some (u1, Some user) \<and>
     USMTimeTable_check_time engine_id boots time now tt = Some (tt', SNMPv3_USM_OK) \<and>
     u' = u1\<lparr>usm_time_table := tt'\<rparr>)"

lemma authenticate_signed:
  assumes "securityLevel > SNMP_SECURITY_LEVEL_NOAUTH_NOPRIV"
    and "auth_at H (usm_auth_priv (ms_usm s)) (ue_auth_protocol user) (ue_auth_key user) (ms_whole_msg s) pos (sp_auth_len sp) =
      Some (ms_whole_msg s, SNMPv3_USM_OK)"
    and "USMTimeTable_check_time (sp_engine_id sp) (sint (sp_engine_boots sp)) (sint (sp_engine_time sp)) now
      (usm_time_table (ms_usm s)) = Some (tt, SNMPv3_USM_OK)"
  shows "authenticate H securityLevel now user sp pos s = Some (Inr (s\<lparr>ms_usm := (ms_usm s)\<lparr>usm_time_table := tt\<rparr>\<rparr>, False))"
  using assms by (simp add: authenticate_def Let_def usm_results)

text \<open>The state reference of an accepted message.\<close>

definition accepted_ref :: "u8 list \<Rightarrow> u8 list \<Rightarrow> u8 list \<Rightarrow> int \<Rightarrow> user_entry \<Rightarrow> sec_state_ref" where
  "accepted_ref engine_id user_name name securityLevel user = fill_ref user \<lparr>ssr_msg_user_name = user_name,
     ssr_security_name = Some name, ssr_security_engine_id = engine_id, ssr_auth_protocol = 1, ssr_auth_key = [],
     ssr_priv_protocol = 1, ssr_priv_key = [], ssr_security_level = securityLevel\<rparr>"

lemma process_msg_delivered:
  assumes parsed: "parse_sec_params securityParameters securityParametersLength = Some (Inr sp)"
    and ids: "sp_engine_id sp \<noteq> []" "sp_user_name sp \<noteq> []" and data: "length msgData \<le> MAX_SNMP_PACKET"
    and known: "receives H (sp_engine_id sp) (sp_user_name sp) (sint (sp_engine_boots sp)) (sint (sp_engine_time sp)) now
      (ms_usm s) user u'"
    and level: "securityLevel > SNMP_SECURITY_LEVEL_NOAUTH_NOPRIV" "ue_auth_protocol user \<noteq> SNMP_AUTHPROTOCOL_NONE"
      "securityLevel = SNMP_SECURITY_LEVEL_AUTH_PRIV \<Longrightarrow> ue_priv_protocol user \<noteq> SNMP_PRIVPROTOCOL_NONE"
    and signed: "auth_at H (usm_auth_priv (ms_usm s)) (ue_auth_protocol user) (ue_auth_key user) (ms_whole_msg s)
      (securityParametersPosition + sp_auth_offset sp) (sp_auth_len sp) = Some (ms_whole_msg s, SNMPv3_USM_OK)"
    and decrypted: "\<And>t. usm_auth_priv (ms_usm t) = usm_auth_priv (ms_usm s) \<Longrightarrow>
      decrypt_data cs securityLevel False user sp msgData (int (length msgData)) t =
        Some (Inr (t\<lparr>ms_scoped_pdu := pdu, ms_scoped_length := length pdu\<rparr>))"
  shows "\<exists>s'. process_msg H cs maxMessageSize securityParameters securityParametersLength securityParametersPosition securityLevel
      msgData (int (length msgData)) now s = Some (s', SNMPv3_USM_OK) \<and> ms_scoped_pdu s' = pdu \<and>
      ms_scoped_length s' = length pdu \<and> ms_security_name s' = ue_security_name user \<and>
      ms_security_engine_id s' = sp_engine_id sp \<and> ms_usm s' = u' \<and>
      (\<exists>name. ms_ref s' = accepted_ref (sp_engine_id sp) (sp_user_name sp) name securityLevel user)"
proof -
  obtain tt name u1 tt' where k: "USMTimeTable_check_engine_id (discovery_mode (ms_usm s)) (sp_engine_id sp) now
      (usm_time_table (ms_usm s)) = Some (tt, SNMPv3_USM_OK)"
    "get_security_name (sp_user_name sp) ((ms_usm s)\<lparr>usm_time_table := tt\<rparr>) = Some (Inr name)"
    "get_user H (sp_engine_id sp) name ((ms_usm s)\<lparr>usm_time_table := tt\<rparr>) = Some (u1, Some user)"
    "USMTimeTable_check_time (sp_engine_id sp) (sint (sp_engine_boots sp)) (sint (sp_engine_time sp)) now tt =
      Some (tt', SNMPv3_USM_OK)" "u' = u1\<lparr>usm_time_table := tt'\<rparr>"
    using known unfolding receives_def by blast
  have f: "usm_time_table u1 = tt" "usm_auth_priv u1 = usm_auth_priv (ms_usm s)" using get_user_frame [OF k(3)] by simp_all
  define t where "t = s\<lparr>ms_security_engine_id := sp_engine_id sp, ms_scoped_pdu := msgData,
    ms_scoped_length := length msgData, ms_security_name := name, ms_ref := \<lparr>ssr_msg_user_name = sp_user_name sp,
      ssr_security_name = Some name, ssr_security_engine_id = sp_engine_id sp, ssr_auth_protocol = 1, ssr_auth_key = [],
      ssr_priv_protocol = 1, ssr_priv_key = [], ssr_security_level = securityLevel\<rparr>, ms_usm := u1\<rparr>"
  have t: "ms_usm t = u1" "ms_whole_msg t = ms_whole_msg s" "ms_security_engine_id t = sp_engine_id sp"
    "fill_ref user (ms_ref t) = accepted_ref (sp_engine_id sp) (sp_user_name sp) name securityLevel user"
    by (simp_all add: t_def accepted_ref_def)
  have "process_msg H cs maxMessageSize securityParameters securityParametersLength securityParametersPosition securityLevel
      msgData (int (length msgData)) now s =
    process_user H cs maxMessageSize securityLevel now user sp (securityParametersPosition + sp_auth_offset sp) msgData
      (int (length msgData)) t"
    using parsed ids data k by (simp add: process_msg_def Let_def t_def)
  moreover have "authenticate H securityLevel now user sp (securityParametersPosition + sp_auth_offset sp) t =
      Some (Inr (t\<lparr>ms_usm := (ms_usm t)\<lparr>usm_time_table := tt'\<rparr>\<rparr>, False))"
    using level(1) signed k(4) t f by (intro authenticate_signed) simp_all
  moreover have "decrypt_data cs securityLevel False user sp msgData (int (length msgData))
      (t\<lparr>ms_usm := (ms_usm t)\<lparr>usm_time_table := tt'\<rparr>\<rparr>) =
    Some (Inr (t\<lparr>ms_usm := (ms_usm t)\<lparr>usm_time_table := tt'\<rparr>, ms_scoped_pdu := pdu, ms_scoped_length := length pdu\<rparr>))"
    using f t by (subst decrypted) simp_all
  moreover have "\<not> (securityLevel > SNMP_SECURITY_LEVEL_NOAUTH_NOPRIV \<and> ue_auth_protocol user = SNMP_AUTHPROTOCOL_NONE \<or>
      securityLevel = SNMP_SECURITY_LEVEL_AUTH_PRIV \<and> ue_priv_protocol user = SNMP_PRIVPROTOCOL_NONE)"
    using level by blast
  ultimately show ?thesis using t k(5) by (simp only: process_user_def if_False) auto
qed

subsection \<open>The sender\<close>

lemma message_time_frame:
  "message_time securityLevel engine_id now u = Some (u', r) \<Longrightarrow> usm_auth_priv u' = usm_auth_priv u"
  by (auto simp: message_time_def bind_eq_Some_iff split: if_splits)

lemma message_data_frame:
  assumes "message_data cs maxMessageSize securityLevel user boots time scopedPDU u = Some (u', Inr (msgData, params))"
  shows "get_auth auth_prot (usm_auth_priv u') = get_auth auth_prot (usm_auth_priv u)"
    and "get_priv priv_prot (usm_auth_priv u') = get_priv priv_prot (usm_auth_priv u)"
proof -
  have "u' = u \<or> u' = u\<lparr>usm_auth_priv := (usm_auth_priv u)\<lparr>salt := salt (usm_auth_priv u) + 1\<rparr>\<rparr>"
  proof (cases "securityLevel = SNMP_SECURITY_LEVEL_AUTH_PRIV")
    case True
    from assms True show ?thesis by (rule message_dataD) simp
  next
    case False
    then show ?thesis using assms by (auto simp: message_data_def split: if_splits)
  qed
  then show "get_auth auth_prot (usm_auth_priv u') = get_auth auth_prot (usm_auth_priv u)"
    "get_priv priv_prot (usm_auth_priv u') = get_priv priv_prot (usm_auth_priv u)" by (auto simp: get_auth_def get_priv_def)
qed

lemma generate_msgD:
  assumes "generate_msg H cs globalData maxMessageSize engine_id name securityLevel scopedPDU ref now wholeMsg u = Some (u', Inr msg)"
    and "message_user H engine_id name ref u = Some (u1, Some user)"
    and "message_time securityLevel engine_id now u1 = Some (u2, Some (boots, time))"
  obtains msgData params where
      "message_data cs maxMessageSize securityLevel user boots time scopedPDU u2 = Some (u', Inr (msgData, params))"
    and "message_signed H (usm_auth_priv u') globalData maxMessageSize securityLevel user
      \<lparr>up_engine_id = engine_id, up_engine_boots = word_of_int boots, up_engine_time = word_of_int time,
        up_user_name = ue_user_name user, up_auth = [], up_priv = params\<rparr> msgData wholeMsg = Some (Inr msg)"
    and "length engine_id \<le> 32" and "length (ue_user_name user) \<le> 32"
proof -
  have len: "length engine_id \<le> 32" "length (ue_user_name user) \<le> 32"
    using assms by (auto simp: generate_msg_def usm_lengths split: if_splits)
  obtain u3 data where d: "message_data cs maxMessageSize securityLevel user boots time scopedPDU u2 = Some (u3, data)"
    using assms len by (auto simp: generate_msg_def usm_lengths bind_eq_Some_iff)
  obtain msgData params where p: "data = Inr (msgData, params)"
    using assms len d by (cases data) (auto simp: generate_msg_def usm_lengths)
  show ?thesis using that [of msgData params] assms len d p
    by (auto simp: generate_msg_def usm_lengths bind_eq_Some_iff)
qed

subsection \<open>Delivery\<close>

text \<open>A user whose keys fit the protocols, and the same user in the tables of another engine.\<close>

definition can_send :: "auth_priv \<Rightarrow> int \<Rightarrow> user_entry \<Rightarrow> auth_class \<Rightarrow> bool" where
  "can_send ap securityLevel user a \<longleftrightarrow> securityLevel \<in> {SNMP_SECURITY_LEVEL_AUTH_NOPRIV, SNMP_SECURITY_LEVEL_AUTH_PRIV} \<and>
     ue_user_name user \<noteq> [] \<and>
     ue_auth_protocol user \<noteq> SNMP_AUTHPROTOCOL_NONE \<and> get_auth (ue_auth_protocol user) ap = Some a \<and>
     get_key_length a \<le> length (ue_auth_key user) \<and>
     (securityLevel = SNMP_SECURITY_LEVEL_AUTH_PRIV \<longrightarrow> ue_priv_protocol user \<noteq> SNMP_PRIVPROTOCOL_NONE)"

definition same_keys :: "auth_priv \<Rightarrow> user_entry \<Rightarrow> auth_priv \<Rightarrow> user_entry \<Rightarrow> bool" where
  "same_keys ap user ap' user' \<longleftrightarrow>
     ue_auth_protocol user' = ue_auth_protocol user \<and> ue_auth_key user' = ue_auth_key user \<and>
     ue_priv_protocol user' = ue_priv_protocol user \<and> ue_priv_key user' = ue_priv_key user \<and>
     get_auth (ue_auth_protocol user) ap' = get_auth (ue_auth_protocol user) ap \<and>
     get_priv (ue_priv_protocol user) ap' = get_priv (ue_priv_protocol user) ap"

text \<open>The sender knows the user and the time.\<close>

definition sends :: "hashes \<Rightarrow> u8 list \<Rightarrow> u8 list \<Rightarrow> int \<Rightarrow> int \<Rightarrow> usm \<Rightarrow> user_entry \<Rightarrow> int \<Rightarrow> int \<Rightarrow> bool" where
  "sends H engine_id name securityLevel now u user boots time \<longleftrightarrow> engine_id \<noteq> [] \<and> sane boots \<and> sane time \<and> (\<exists>u1 u2.
     get_user H engine_id name u = Some (u1, Some user) \<and>
     message_time securityLevel engine_id now u1 = Some (u2, Some (boots, time)))"

lemma short_sec_bytes:
  assumes "length (up_engine_id sp) + length (up_user_name sp) + length (up_auth sp) \<le> 89" and "length (up_priv sp) \<le> 8"
  shows "length (sec_bytes sp) \<le> 127"
proof -
  have s: "length (ber_obj t c) = 2 + length c" if "length c < 128" for t c
    using that by (simp add: length_ber_obj ber_len_def)
  have "length (sec_content sp) \<le> 125"
    using assms length_int_obj [of "up_engine_boots sp"] length_int_obj [of "up_engine_time sp"]
    by (simp add: sec_content_def sec_fields_def s)
  then show ?thesis by (simp add: sec_bytes_def s)
qed

lemma signed_position_ok:
  assumes "length (sec_bytes sp) \<le> 127" and "length (up_auth sp) < 128"
  shows "signed_position globalData sp msgData = auth_position globalData sp msgData"
  using assms signed_position_cases [OF assms(2)] by simp

lemma sec_params_position:
  "int (length (whole_bytes globalData sp msgData)) - int (length msgData) - int (length (sec_bytes sp)) +
     int (ber_head (length (sec_content sp)) + length (sec_fields sp) + ber_head (length (up_auth sp))) =
   int (auth_position globalData sp msgData)"
  by (simp add: whole_bytes_def ber_head_obj whole_content_def auth_position_def)

lemma sint_sane: "sane n \<Longrightarrow> sint (word_of_int n :: u64) = n"
  by (simp add: sane_def sint_sbintrunc' signed_take_bit_int_eq_self)

lemma message_delivered_by:
  assumes "digests H" and "des_cipher (des_desc cs)" and "des_cipher (des3_desc cs)"
    and gen: "generate_msg H cs globalData maxMessageSize engine_id name securityLevel scopedPDU ref now wholeMsg u = Some (u', Inr msg)"
    and room: "maxMessageSize \<le> int MAX_SNMP_PACKET" "maxMessageSize \<le> int (length wholeMsg)"
    and user: "message_user H engine_id name ref u = Some (u1, Some user)" "usm_auth_priv u1 = usm_auth_priv u"
    and time: "message_time securityLevel engine_id now u1 = Some (u2, Some (boots, time))" "sane boots" "sane time"
    and "engine_id \<noteq> []"
    and can: "can_send (usm_auth_priv u) securityLevel user a"
    and short: "length engine_id + length (ue_user_name user) + auth_get_auth_params_len a \<le> 89"
    and pdu: "scopedPDU = ASN_SEQ_CON # rest"
    and keys: "same_keys (usm_auth_priv u) user (usm_auth_priv (ms_usm s)) user'"
    and known: "receives H engine_id (ue_user_name user) boots time now' (ms_usm s) user' v"
  shows "\<exists>sp msgData s'. msg = whole_bytes globalData sp msgData \<and> up_engine_id sp = engine_id \<and>
    up_user_name sp = ue_user_name user \<and> up_engine_boots sp = word_of_int boots \<and> up_engine_time sp = word_of_int time \<and>
    length (up_auth sp) < 128 \<and> length (up_priv sp) \<le> 8 \<and> int (length msg) \<le> maxMessageSize \<and>
    process_msg H cs maxMessageSize' (sec_bytes sp) (int (length (sec_bytes sp)))
      (int (length msg) - int (length msgData) - int (length (sec_bytes sp))) securityLevel msgData (int (length msgData)) now'
      (s\<lparr>ms_whole_msg := msg\<rparr>) = Some (s', SNMPv3_USM_OK) \<and>
    ms_scoped_pdu s' = delivered_pdu (usm_auth_priv u) securityLevel user scopedPDU \<and>
    ms_security_name s' = ue_security_name user' \<and> ms_security_engine_id s' = engine_id \<and> ms_usm s' = v \<and>
    ms_scoped_length s' = length (delivered_pdu (usm_auth_priv u) securityLevel user scopedPDU) \<and>
    (\<exists>name'. ms_ref s' = accepted_ref engine_id (ue_user_name user) name' securityLevel user')"
proof -
  obtain msgData params where data: "message_data cs maxMessageSize securityLevel user boots time scopedPDU u2 =
      Some (u', Inr (msgData, params))"
    and signed: "message_signed H (usm_auth_priv u') globalData maxMessageSize securityLevel user
      \<lparr>up_engine_id = engine_id, up_engine_boots = word_of_int boots, up_engine_time = word_of_int time,
        up_user_name = ue_user_name user, up_auth = [], up_priv = params\<rparr> msgData wholeMsg = Some (Inr msg)"
    and sizes: "length engine_id \<le> 32" "length (ue_user_name user) \<le> 32"
    by (rule generate_msgD [OF gen user(1) time(1)])
  define sp where "sp = \<lparr>up_engine_id = engine_id, up_engine_boots = word_of_int boots, up_engine_time = word_of_int time,
        up_user_name = ue_user_name user, up_auth = [], up_priv = params\<rparr>"
  let ?ap = "usm_auth_priv u" and ?ap' = "usm_auth_priv (ms_usm s)"
  have ap2: "usm_auth_priv u2 = ?ap" using message_time_frame [OF time(1)] user(2) by simp
  note frame = message_data_frame [OF data]
  have c: "securityLevel > SNMP_SECURITY_LEVEL_NOAUTH_NOPRIV" "securityLevel \<ge> SNMP_SECURITY_LEVEL_AUTH_NOPRIV"
    "ue_auth_protocol user \<noteq> SNMP_AUTHPROTOCOL_NONE" "get_auth (ue_auth_protocol user) ?ap = Some a"
    "get_key_length a \<le> length (ue_auth_key user)"
    "securityLevel = SNMP_SECURITY_LEVEL_AUTH_PRIV \<Longrightarrow> ue_priv_protocol user \<noteq> SNMP_PRIVPROTOCOL_NONE" "ue_user_name user \<noteq> []"
    using can by (auto simp: can_send_def usm_protocols)
  have k: "ue_auth_protocol user' = ue_auth_protocol user" "ue_auth_key user' = ue_auth_key user"
    "ue_priv_protocol user' = ue_priv_protocol user" "ue_priv_key user' = ue_priv_key user"
    "get_auth (ue_auth_protocol user) ?ap' = Some a" "get_priv (ue_priv_protocol user) ?ap' = get_priv (ue_priv_protocol user) ?ap"
    using keys c(4) by (simp_all add: same_keys_def)
  define sg where "sg = signed_params H a (ue_auth_key user) globalData sp msgData"
  have bt: "sint (word_of_int boots :: u64) = boots" "sint (word_of_int time :: u64) = time"
    using sint_sane time(2, 3) by blast+
  define q where "q = \<lparr>sp_engine_id = engine_id, sp_engine_boots = word_of_int boots :: u64, sp_engine_time = word_of_int time :: u64,
     sp_user_name = ue_user_name user, sp_auth_len = length (up_auth sg),
     sp_auth_offset = int (ber_head (length (sec_content sg)) + length (sec_fields sg) + ber_head (length (up_auth sg))),
     sp_priv_param = params\<rparr>"
  have d: "\<And>t. usm_auth_priv (ms_usm t) = ?ap' \<Longrightarrow> decrypt_data cs securityLevel False user' q msgData (int (length msgData)) t =
      Some (Inr (t\<lparr>ms_scoped_pdu := delivered_pdu ?ap securityLevel user scopedPDU,
        ms_scoped_length := length (delivered_pdu ?ap securityLevel user scopedPDU)\<rparr>))"
    "length params \<le> 8" "length msgData \<le> MAX_SNMP_PACKET"
  proof -
    have e: "\<exists>rest. scopedPDU = ASN_SEQ_CON # rest" using pdu by blast
    have f: "get_priv (ue_priv_protocol user') ap = get_priv (ue_priv_protocol user) (usm_auth_priv u2)" if "ap = ?ap'" for ap
      using k(3, 6) ap2 that by simp
    note dd = data_delivered [OF data room(1) assms(2, 3) f k(4), of _ q, unfolded ap2]
    show "\<And>t. usm_auth_priv (ms_usm t) = ?ap' \<Longrightarrow> decrypt_data cs securityLevel False user' q msgData (int (length msgData)) t =
      Some (Inr (t\<lparr>ms_scoped_pdu := delivered_pdu ?ap securityLevel user scopedPDU,
        ms_scoped_length := length (delivered_pdu ?ap securityLevel user scopedPDU)\<rparr>))"
      using dd(1) e by (simp add: q_def)
    show "length params \<le> 8" "length msgData \<le> MAX_SNMP_PACKET" using dd(2, 3) [of s] e by (simp_all add: q_def)
  qed
  have short': "length (sec_bytes (zero_auth a sp)) \<le> 127"
    using short d(2) by (intro short_sec_bytes) (simp_all add: sp_def zero_auth_def)
  have pos: "signed_position globalData (zero_auth a sp) msgData = auth_position globalData (zero_auth a sp) msgData"
    using short' auth_params_short(1) [of a] by (intro signed_position_ok) simp_all
  have msg: "msg = whole_bytes globalData sg msgData" "int (length (whole_bytes globalData (zero_auth a sp) msgData)) \<le> maxMessageSize"
    using signed message_signed_eq [OF assms(1) _ c(3, 5, 2) room, of "usm_auth_priv u'" sp globalData msgData] short'
      signed_whole_bytes [OF assms(1), of globalData a sp msgData "ue_auth_key user"] frame(1) [of "ue_auth_protocol user"] c(4) ap2
    by (simp_all add: sp_def [symmetric] sg_def pos Let_def split: if_splits)
  have auth: "auth_at H ?ap' (ue_auth_protocol user') (ue_auth_key user') msg (int (auth_position globalData sg msgData))
      (length (up_auth sg)) = Some (msg, SNMPv3_USM_OK)"
    unfolding k(1, 2) msg(1) by (rule signed_authentic [OF assms(1) k(5) c(3, 5) sg_def])
  have len: "length (up_auth sg) = auth_get_auth_params_len a"
    using length_mac [OF assms(1)] by (simp add: sg_def signed_params_def)
  have parsed: "parse_sec_params (sec_bytes sg) (int (length (sec_bytes sg))) = Some (Inr q)"
    using parse_sec_params_bytes [of sg] sizes d(2) bt time(2, 3) len auth_params_short(1) [of a]
    by (simp add: sg_def signed_params_def sp_def q_def sane_def)
  let ?s = "s\<lparr>ms_whole_msg := msg\<rparr>"
  let ?pos = "int (length msg) - int (length msgData) - int (length (sec_bytes sg))"
  have at: "?pos + sp_auth_offset q = int (auth_position globalData sg msgData)"
    using sec_params_position [of globalData sg msgData] msg(1) by (simp add: q_def)
  have "\<exists>s'. process_msg H cs maxMessageSize' (sec_bytes sg) (int (length (sec_bytes sg))) ?pos securityLevel
      msgData (int (length msgData)) now' ?s = Some (s', SNMPv3_USM_OK) \<and>
      ms_scoped_pdu s' = delivered_pdu ?ap securityLevel user scopedPDU \<and>
      ms_scoped_length s' = length (delivered_pdu ?ap securityLevel user scopedPDU) \<and>
      ms_security_name s' = ue_security_name user' \<and> ms_security_engine_id s' = sp_engine_id q \<and> ms_usm s' = v \<and>
      (\<exists>name'. ms_ref s' = accepted_ref (sp_engine_id q) (sp_user_name q) name' securityLevel user')"
    using known c(1, 3, 6, 7) k(1, 3) auth at \<open>engine_id \<noteq> []\<close> bt
    by (intro process_msg_delivered [OF parsed _ _ d(3)]) (simp_all add: d(1), simp_all add: q_def)
  moreover have "up_engine_id sg = engine_id" "up_user_name sg = ue_user_name user" "up_engine_boots sg = word_of_int boots"
    "up_engine_time sg = word_of_int time" "length (up_priv sg) \<le> 8"
    using d(2) by (simp_all add: sg_def signed_params_def sp_def)
  moreover have "length (up_auth sg) < 128" using len auth_params_short(1) [of a] by simp
  moreover have "sp_engine_id q = engine_id" "sp_user_name q = ue_user_name user" by (simp_all add: q_def)
  moreover have "length msg = length (whole_bytes globalData (zero_auth a sp) msgData)"
  proof -
    have "sg = (zero_auth a sp)\<lparr>up_auth := up_auth sg\<rparr>" by (simp add: sg_def signed_params_def zero_auth_def)
    then show ?thesis using len msg(1) length_whole_bytes_cong [of "up_auth sg" "zero_auth a sp" globalData msgData] by simp
  qed
  then have "int (length msg) \<le> maxMessageSize" using msg(2) by simp
  ultimately show ?thesis using msg(1) by metis
qed

lemma message_delivered_ok:
  assumes "digests H" and "des_cipher (des_desc cs)" and "des_cipher (des3_desc cs)"
    and "generate_msg H cs globalData maxMessageSize engine_id name securityLevel scopedPDU None now wholeMsg u = Some (u', Inr msg)"
    and "maxMessageSize \<le> int MAX_SNMP_PACKET" "maxMessageSize \<le> int (length wholeMsg)"
    and sends: "sends H engine_id name securityLevel now u user boots time"
    and "can_send (usm_auth_priv u) securityLevel user a"
    and "length engine_id + length (ue_user_name user) + auth_get_auth_params_len a \<le> 89"
    and "scopedPDU = ASN_SEQ_CON # rest"
    and "same_keys (usm_auth_priv u) user (usm_auth_priv (ms_usm s)) user'"
    and "receives H engine_id (ue_user_name user) boots time now' (ms_usm s) user' v"
  shows "\<exists>sp msgData s'. msg = whole_bytes globalData sp msgData \<and> up_engine_id sp = engine_id \<and>
    up_user_name sp = ue_user_name user \<and> up_engine_boots sp = word_of_int boots \<and> up_engine_time sp = word_of_int time \<and>
    length (up_auth sp) < 128 \<and> length (up_priv sp) \<le> 8 \<and>
    process_msg H cs maxMessageSize' (sec_bytes sp) (int (length (sec_bytes sp)))
      (int (length msg) - int (length msgData) - int (length (sec_bytes sp))) securityLevel msgData (int (length msgData)) now'
      (s\<lparr>ms_whole_msg := msg\<rparr>) = Some (s', SNMPv3_USM_OK) \<and>
    ms_scoped_pdu s' = delivered_pdu (usm_auth_priv u) securityLevel user scopedPDU \<and>
    ms_security_name s' = ue_security_name user' \<and> ms_security_engine_id s' = engine_id \<and> ms_usm s' = v"
proof -
  obtain u1 u2 where g: "get_user H engine_id name u = Some (u1, Some user)"
    and t: "message_time securityLevel engine_id now u1 = Some (u2, Some (boots, time))" "sane boots" "sane time"
    and e: "engine_id \<noteq> []" using sends unfolding sends_def by blast
  have "message_user H engine_id name None u = Some (u1, Some user)" using g e by (simp add: message_user_def)
  moreover have "usm_auth_priv u1 = usm_auth_priv u" using get_user_frame [OF g] by simp
  ultimately show ?thesis
    using message_delivered_by [OF assms(1-6) _ _ t e assms(8-12)] by blast
qed

subsection \<open>Digests that are written one octet too late\<close>

text \<open>The security parameters after the digest was written behind its place: the first octet stays zero, and the last octet of the
digest replaces the type of the privacy parameters.\<close>

definition late_params :: "usm_sec_params \<Rightarrow> u8 list \<Rightarrow> u8 list" where
  "late_params sp digest = ber_obj ASN_SEQ_CON (sec_fields sp @ (ASN_OCTET_STR # ber_len (length digest)) @ 0 # digest @
     tl (ber_obj ASN_OCTET_STR (up_priv sp)))"

lemma late_whole_bytes:
  assumes "length d = length (up_auth sp)" and "up_auth sp = 0 # zs"
  shows "take (Suc (auth_position globalData sp msgData)) (whole_bytes globalData sp msgData) @ d @
      drop (Suc (auth_position globalData sp msgData) + length d) (whole_bytes globalData sp msgData) =
    ber_obj ASN_SEQ_CON (int_obj 3 @ globalData @ ber_obj ASN_OCTET_STR (late_params sp d) @ msgData)"
proof -
  let ?p = "auth_position globalData sp msgData" and ?b = "before_auth globalData sp msgData"
  let ?priv = "ber_obj ASN_OCTET_STR (up_priv sp)"
  have w: "whole_bytes globalData sp msgData = ?b @ up_auth sp @ ?priv @ msgData" by (rule whole_bytes_split)
  have z: "length d = Suc (length zs)" using assms by simp
  have "take (Suc ?p) (whole_bytes globalData sp msgData) @ d @ drop (Suc ?p + length d) (whole_bytes globalData sp msgData) =
      ?b @ 0 # d @ tl ?priv @ msgData"
    unfolding w length_before_auth [symmetric] assms(2) using z by (simp add: ber_obj_def)
  moreover have "length (sec_fields sp @ (ASN_OCTET_STR # ber_len (length d)) @ 0 # d @ tl ?priv) = length (sec_content sp)"
    using assms(1) by (simp add: sec_content_def ber_obj_def)
  moreover from this have l: "length (late_params sp d) = length (sec_bytes sp)"
    unfolding late_params_def sec_bytes_def length_ber_obj by simp
  moreover from l have "length (int_obj 3 @ globalData @ ber_obj ASN_OCTET_STR (late_params sp d) @ msgData) =
      length (whole_content globalData sp msgData)" by (simp add: whole_content_def length_ber_obj)
  ultimately show ?thesis using assms(1)
    unfolding before_auth_def ber_obj_def [of ASN_SEQ_CON "int_obj 3 @ _"] ber_obj_def [of ASN_OCTET_STR "late_params sp d"]
    by (simp add: late_params_def ber_obj_def)
qed

lemma parse_late_params:
  assumes "length (up_engine_id sp) \<le> 33" and "length (up_user_name sp) \<le> 32" and "digest \<noteq> []" and "length digest < 128"
    and "length (up_priv sp) < 128" and "0 \<le> sint (up_engine_boots sp)" and "0 \<le> sint (up_engine_time sp)"
    and "last digest \<notin> string_types"
  shows "parse_sec_params (late_params sp digest) (int (length (late_params sp digest))) = Some (Inl SNMPv3_USM_PARSE_ERROR)"
proof -
  let ?e = "ber_obj ASN_OCTET_STR (up_engine_id sp)" and ?b = "int_obj (up_engine_boots sp)"
    and ?t = "int_obj (up_engine_time sp)" and ?u = "ber_obj ASN_OCTET_STR (up_user_name sp)"
    and ?a = "ber_obj ASN_OCTET_STR (0 # butlast digest)" and ?p = "last digest # tl (ber_obj ASN_OCTET_STR (up_priv sp))"
  let ?c = "?e @ ?b @ ?t @ ?u @ ?a @ ?p"
  have short: "length (ber_obj t c) \<le> 2 + length c" if "length c < 128" for t c
    using that by (simp add: length_ber_obj ber_len_def)
  have split: "butlast digest @ last digest # r = digest @ r" for r
    using append_butlast_last_id [OF assms(3)] by (metis append.assoc append_Cons append_Nil)
  have "length (0 # butlast digest) = length digest" using assms(3) by (cases digest) simp_all
  then have content: "late_params sp digest = ber_obj ASN_SEQ_CON ?c"
    by (simp add: late_params_def sec_fields_def ber_obj_def [of ASN_OCTET_STR "0 # _"] split)
  have small: "length ?c < 1000"
    using short [of "up_engine_id sp" ASN_OCTET_STR] short [of "up_user_name sp" ASN_OCTET_STR] short [of "0 # butlast digest" ASN_OCTET_STR]
      short [of "up_priv sp" ASN_OCTET_STR] length_int_obj [of "up_engine_boots sp"] length_int_obj [of "up_engine_time sp"] assms(1-5)
    by simp
  then have bytes: "length (late_params sp digest) < 1010" using length_ber_len(2) [of "length ?c"]
    unfolding content length_ber_obj by simp
  have h: "asn_parse_header (late_params sp digest) (int (length (late_params sp digest))) =
      Some (Inr (?c, int (length ?c), ASN_SEQ_CON))"
    using parse_header [of ASN_SEQ_CON ?c "int (length (late_params sp digest))" "[]"] bytes unfolding content
    by (simp add: ASN_SEQ_CON_def ASN_EXTENSION_ID_def)
  let ?n = "\<lambda>xs. int (length xs)"
  have e: "asn_parse_string ?c (?n ?c) 33 =
      Some (Inr (?b @ ?t @ ?u @ ?a @ ?p, ?n (?b @ ?t @ ?u @ ?a @ ?p), ASN_OCTET_STR, up_engine_id sp))"
    using assms(1) small by (subst parse_string_obj) simp_all
  have b: "asn_parse_int (?b @ ?t @ ?u @ ?a @ ?p) (?n (?b @ ?t @ ?u @ ?a @ ?p)) =
      Some (Inr (?t @ ?u @ ?a @ ?p, ?n (?t @ ?u @ ?a @ ?p), ASN_INTEGER, up_engine_boots sp))"
    using small by (subst parse_int_obj) simp_all
  have t: "asn_parse_int (?t @ ?u @ ?a @ ?p) (?n (?t @ ?u @ ?a @ ?p)) =
      Some (Inr (?u @ ?a @ ?p, ?n (?u @ ?a @ ?p), ASN_INTEGER, up_engine_time sp))"
    using small by (subst parse_int_obj) simp_all
  have u: "asn_parse_string (?u @ ?a @ ?p) (?n (?u @ ?a @ ?p)) 32 =
      Some (Inr (?a @ ?p, ?n (?a @ ?p), ASN_OCTET_STR, up_user_name sp))"
    using assms(2) small by (subst parse_string_obj) simp_all
  have a: "asn_parse_string (?a @ ?p) (?n (?a @ ?p)) 128 = Some (Inr (?p, ?n ?p, ASN_OCTET_STR, 0 # butlast digest))"
    using assms(4) small by (subst parse_string_obj) simp_all
  have p: "asn_parse_string ?p (?n ?p) 128 = Some (Inl Wrong_Type)"
    using assms(8) by (simp add: asn_parse_string_def string_types_def)
  show ?thesis
    unfolding parse_sec_params_def
    using assms(2, 6, 7) e b t u a p
    by (simp add: h on_ok_def [of "Some _"] usm_lengths no_null_def [of "Some (Inl _)"] del: length_append length_Cons)
qed

end
