(* ===== verification/Usm_Properties.thy ===== *)
theory Usm_Properties
  imports Usm_Security
begin

section \<open>Properties of the user security model\<close>

text \<open>
  What the tables, the protocols and the processing of messages of \<^verbatim>\<open>usm_v3.cpp\<close> and \<^verbatim>\<open>auth_priv.cpp\<close> promise, with
  a concrete instance of every property that has hypotheses.  Concrete instances use hash functions and ciphers
  that are constant or invert each other, where a property is parametric in them.
\<close>

subsection \<open>The time table\<close>

text \<open>A table with the local engine and one other engine, at local time 1000.\<close>

definition sample_times :: time_table where
  "sample_times = \<lparr>table = Some [
     Some \<lparr>te_engine_id = [1, 1], te_engine_boots = 1, te_time_diff = - 1000, te_latest = None\<rparr>,
     Some \<lparr>te_engine_id = [2, 2], te_engine_boots = 3, te_time_diff = - 500, te_latest = Some 500\<rparr>, None, None, None],
     max_entries = 5, entries = 2\<rparr>"

lemma sample_times_live: "live sample_times = [
     \<lparr>te_engine_id = [1, 1], te_engine_boots = 1, te_time_diff = - 1000, te_latest = None\<rparr>,
     \<lparr>te_engine_id = [2, 2], te_engine_boots = 3, te_time_diff = - 500, te_latest = Some 500\<rparr>]"
  by (simp add: sample_times_def live_def)

lemma sample_times_inv: "times_inv (sample_times, 1000)"
proof -
  have "table_ok sample_times" by (simp add: table_ok_def sample_times_def less_Suc_eq numeral_2_eq_2)
  then show ?thesis
    by (simp add: times_inv_def times_ok_def others_def sample_times_live clocked_def sane_def MAXLENGTH_ENGINEID_def)
      (simp add: sample_times_def)
qed

text \<open>C25: \<open>USMTimeTable::check_time\<close> is the time window of RFC 3414, section 3.2, step 7, in a table that meets the invariant,
with two exceptions in step 7b.  A message to the local engine is in time when the boot counters agree, are not at their
maximum, and the times differ by at most 150 seconds; one from another known engine is refused when it is outside the window
of its entry and otherwise moves that entry, and no other, on; one from an unknown engine is reported.  The RFC moves the entry
of another engine first and then tests the window.  The code tests first, so that, for boot counters in the range of the RFC,
its answer is a different one exactly for a message that brings the counter to the maximum (accepted, but the RFC refuses it)
and for one that is newer than all before it but more than 150 seconds behind the clock of the entry (refused, but the RFC
accepts it).\<close>
theorem check_time_window:
  assumes "times_inv (t, now)" and "sane boots" and "sane time"
  shows "\<exists>t' rc. USMTimeTable_check_time engine_id boots time now t = Some (t', rc) \<and> times_inv (t', now) \<and>
    hd (live t') = hd (live t) \<and>
    (if engine_id = te_engine_id (hd (live t))
     then t' = t \<and> rc = (if te_engine_boots (hd (live t)) \<noteq> 2147483647 \<and> boots = te_engine_boots (hd (live t)) \<and>
       abs (now + te_time_diff (hd (live t)) - time) \<le> 150 then SNMPv3_USM_OK else SNMPv3_USM_NOT_IN_TIME_WINDOW)
     else case List.find (\<lambda>e. te_engine_id e = engine_id) (others t) of
       None \<Rightarrow> t' = t \<and> rc = SNMPv3_USM_UNKNOWN_ENGINEID
     | Some e \<Rightarrow> (if outside_window boots time now e then t' = t \<and> rc = SNMPv3_USM_NOT_IN_TIME_WINDOW
         else rc = SNMPv3_USM_OK \<and>
           others t' = map (\<lambda>x. if te_engine_id x = engine_id then advance boots time now e else x) (others t)) \<and>
         (boots \<le> 2147483647 \<longrightarrow> (rc = SNMPv3_USM_OK \<longleftrightarrow> rfc_outside_window boots time now e) =
           (te_engine_boots e < boots \<and> boots = 2147483647 \<or>
            boots = te_engine_boots e \<and> boots \<noteq> 2147483647 \<and> the (te_latest e) < time \<and> time < te_time_diff e + now - 150)))"
proof -
  obtain own where i: "live t = own # others t" "times_ok t" by (rule times_invE [OF assms(1)])
  have found: "List.find (\<lambda>e. te_engine_id e = engine_id) (others t) = Some e"
    if "e \<in> set (others t)" "te_engine_id e = engine_id" for e
  proof (rule find_unique [where P = "\<lambda>e. te_engine_id e = engine_id", OF that])
    have "distinct (map te_engine_id (others t))" using i by (simp add: times_ok_def)
    then show "y = e" if "y \<in> set (others t)" "te_engine_id y = engine_id" for y
      using that \<open>e \<in> set (others t)\<close> \<open>te_engine_id e = engine_id\<close> by (metis distinct_map inj_onD)
  qed
  have remote: "engine_id \<noteq> te_engine_id (hd (live t))" if "e \<in> set (others t)" "te_engine_id e = engine_id" for e
    using imageI [OF that(1), of te_engine_id] that(2) i by (auto simp: times_ok_def)
  from assms show ?thesis
  proof (cases rule: check_time_cases [where engine_id = engine_id])
    case own
    then show ?thesis using assms(1) by simp
  next
    case unknown
    then have "List.find (\<lambda>e. te_engine_id e = engine_id) (others t) = None" "engine_id \<noteq> te_engine_id (hd (live t))"
      using i(1) by (auto simp: find_None_iff)
    then show ?thesis using unknown(2) assms(1) by simp
  next
    case (refused e)
    have rc: "SNMPv3_USM_NOT_IN_TIME_WINDOW \<noteq> SNMPv3_USM_OK" by (simp add: usm_results)
    show ?thesis
      using found [OF refused(1, 2)] remote [OF refused(1, 2)] assms(1) refused(3, 4) window_differs [of boots time now e]
      by (simp add: rc)
  next
    case (accepted e t')
    have "times_inv (t', now)"
      using time_step_keeps(1) [OF time_step.check [OF assms(2, 3) accepted(4)] assms(1)] .
    then show ?thesis
      using accepted found [OF accepted(1, 2)] remote [OF accepted(1, 2)] window_differs [of boots time now e] by simp
  qed
qed

theorem check_time_window_witness:
  "\<exists>t' rc. USMTimeTable_check_time [2, 2] 3 600 1000 sample_times = Some (t', rc) \<and> times_inv (t', 1000) \<and>
    rc = SNMPv3_USM_OK \<and> others t' =
      [\<lparr>te_engine_id = [2, 2], te_engine_boots = 3, te_time_diff = - 400, te_latest = Some 600\<rparr>]"
  using check_time_window [OF sample_times_inv, of 3 600 "[2, 2]"]
  by (auto simp: sane_def sample_times_live others_def outside_window_def advance_def)

text \<open>C30: the invariant of the time table holds when it is created and after every sequence of checks, lookups (with
discovery), additions of unknown engines, deletions and ticks of the clock: no engine id is there twice, and entry 0 stays that
of the local engine, with its boot counter and its start time.  The engine ids that are looked up or added have at most
\<open>MAXLENGTH_ENGINEID\<close> octets: a longer one is cut off when it is added and would be added again at the next lookup.\<close>
theorem time_table_invariant:
  assumes "sane now" and "USMTimeTable_create engine_id boots now = Some t" and "time_steps D (t, now) (t', now')"
  shows "times_inv (t', now') \<and> distinct (map te_engine_id (live t')) \<and>
    hd (live t') = \<lparr>te_engine_id = take MAXLENGTH_ENGINEID engine_id, te_engine_boots = boots, te_time_diff = - now, te_latest = None\<rparr> \<and>
    live t' = hd (live t') # others t'"
proof -
  have c: "times_inv (t, now)" by (rule times_inv_create [OF assms(1, 2)])
  have i: "times_inv (t', now')" using time_steps_keep [OF assms(3) c] by blast
  have d: "distinct (map te_engine_id (live t'))" by (rule times_invE [OF i]) (simp add: times_ok_def)
  have l: "live t' = hd (live t') # others t'" by (rule times_invE [OF i]) simp
  have "0 \<le> now" "now < 2 ^ 63" using assms(1) by (simp_all add: sane_def)
  then have "hd (live t) = \<lparr>te_engine_id = take MAXLENGTH_ENGINEID engine_id, te_engine_boots = boots, te_time_diff = - now,
      te_latest = None\<rparr>" using create_ok [of now engine_id boots] assms(2) by auto
  then show ?thesis using i d l time_steps_local [OF assms(3) c] by simp
qed

text \<open>An engine is discovered, its time is learnt a minute later, a message of it is refused, and it is deleted.\<close>

theorem time_table_invariant_witness:
  "\<exists>t t1 t2 t3 t4. USMTimeTable_create [1, 1] 1 1000 = Some t \<and>
    USMTimeTable_check_engine_id True [2, 2] 1000 t = Some (t1, SNMPv3_USM_OK) \<and>
    USMTimeTable_check_time [2, 2] 3 600 1060 t1 = Some (t2, SNMPv3_USM_OK) \<and>
    USMTimeTable_check_time [2, 2] 2 9 1060 t2 = Some (t3, SNMPv3_USM_NOT_IN_TIME_WINDOW) \<and>
    USMTimeTable_delete_entry [2, 2] t3 = Some (t4, SNMPv3_USM_OK) \<and>
    distinct (map te_engine_id (live t3)) \<and> hd (live t3) = hd (live t) \<and> hd (live t4) = hd (live t) \<and>
    live t3 = [hd (live t), \<lparr>te_engine_id = [2, 2], te_engine_boots = 3, te_time_diff = - 460, te_latest = Some 600\<rparr>] \<and> live t4 = [hd (live t)]"
proof -
  let ?own = "\<lparr>te_engine_id = [1, 1], te_engine_boots = 1, te_time_diff = - 1000, te_latest = None\<rparr>"
  let ?e = "\<lparr>te_engine_id = [2, 2], te_engine_boots = 0, te_time_diff = - 1000, te_latest = Some 0\<rparr>"
  let ?e2 = "\<lparr>te_engine_id = [2, 2], te_engine_boots = 3, te_time_diff = - 460, te_latest = Some 600\<rparr>"
  define t where "t = \<lparr>table = Some [Some ?own, None, None, None, None], max_entries = 5, entries = 1\<rparr>"
  define t1 where "t1 = \<lparr>table = Some [Some ?own, Some ?e, None, None, None], max_entries = 5, entries = 2\<rparr>"
  define t2 where "t2 = \<lparr>table = Some [Some ?own, Some ?e2, None, None, None], max_entries = 5, entries = 2\<rparr>"
  define t4 where "t4 = \<lparr>table = Some [Some ?own, Some ?e2, None, None, None], max_entries = 5, entries = 1\<rparr>"
  have c: "USMTimeTable_create [1, 1] 1 1000 = Some t" unfolding t_def by code_simp
  have 1: "USMTimeTable_check_engine_id True [2, 2] 1000 t = Some (t1, SNMPv3_USM_OK)" unfolding t_def t1_def by code_simp
  have 2: "USMTimeTable_check_time [2, 2] 3 600 1060 t1 = Some (t2, SNMPv3_USM_OK)" unfolding t1_def t2_def by code_simp
  have 3: "USMTimeTable_check_time [2, 2] 2 9 1060 t2 = Some (t2, SNMPv3_USM_NOT_IN_TIME_WINDOW)" unfolding t2_def by code_simp
  have 4: "USMTimeTable_delete_entry [2, 2] t2 = Some (t4, SNMPv3_USM_OK)" unfolding t2_def t4_def by code_simp
  let ?D = "{[2, 2]}"
  have s1: "time_step ?D (t, 1000) (t1, 1000)" by (rule time_step.lookup [OF _ 1]) (simp add: MAXLENGTH_ENGINEID_def)
  have s2: "time_step ?D (t1, 1000) (t1, 1060)" by (rule time_step.tick) (simp_all add: sane_def)
  have s3: "time_step ?D (t1, 1060) (t2, 1060)" by (rule time_step.check [OF _ _ 2]) (simp_all add: sane_def)
  have s4: "time_step ?D (t2, 1060) (t2, 1060)" by (rule time_step.check [OF _ _ 3]) (simp_all add: sane_def)
  have s5: "time_step ?D (t2, 1060) (t4, 1060)" by (rule time_step.delete [OF _ 4]) simp
  have r: "time_steps ?D (t, 1000) (t2, 1060)" "time_steps ?D (t, 1000) (t4, 1060)"
    using s1 s2 s3 s4 s5 by (meson rtranclp.rtrancl_refl rtranclp.rtrancl_into_rtrancl)+
  have "distinct (map te_engine_id (live t2))" "hd (live t2) = ?own" "hd (live t4) = ?own"
    using time_table_invariant [OF _ c r(1)] time_table_invariant [OF _ c r(2)] by (simp_all add: sane_def MAXLENGTH_ENGINEID_def)
  moreover have "live t = [?own]" "live t2 = [?own, ?e2]" "live t4 = [?own]" by (simp_all add: t_def t2_def t4_def live_def)
  ultimately show ?thesis using c 1 2 3 4 by (intro exI [of _ t] exI [of _ t1] exI [of _ t2] exI [of _ t4]) simp
qed

text \<open>Replay protection over the life of the table: after a message from another engine was accepted, any later one
accepted from it, after whatever steps that do not delete the engine, has a greater boot counter, or the same one and a
time that is at most 150 seconds older.\<close>
theorem no_replay:
  assumes "times_inv (t, now)" and "engine_id \<noteq> te_engine_id (hd (live t))" and "engine_id \<notin> D"
    and "sane boots1" and "sane time1" and "sane boots2" and "sane time2"
    and "USMTimeTable_check_time engine_id boots1 time1 now t = Some (t1, SNMPv3_USM_OK)"
    and "time_steps D (t1, now) (t2, now2)"
    and "USMTimeTable_check_time engine_id boots2 time2 now2 t2 = Some (t3, SNMPv3_USM_OK)"
  shows "boots1 < boots2 \<or> boots1 = boots2 \<and> time1 - 150 \<le> time2"
  by (rule accepted_twice [OF assms])

lemma sample_accepts:
  "\<exists>t1. USMTimeTable_check_time [2, 2] 3 600 1000 sample_times = Some (t1, SNMPv3_USM_OK) \<and> times_inv (t1, 1000) \<and>
    hd (live t1) = hd (live sample_times) \<and>
    others t1 = [\<lparr>te_engine_id = [2, 2], te_engine_boots = 3, te_time_diff = - 400, te_latest = Some 600\<rparr>]"
proof -
  have s: "sane 3" "sane 600" by (simp_all add: sane_def)
  from sample_times_inv s show ?thesis
  proof (cases rule: check_time_cases [where engine_id = "[2, 2]"])
    case (accepted e t')
    have "e = \<lparr>te_engine_id = [2, 2], te_engine_boots = 3, te_time_diff = - 500, te_latest = Some 500\<rparr>"
      using accepted(1) by (simp add: others_def sample_times_live)
    then have "others t' = [\<lparr>te_engine_id = [2, 2], te_engine_boots = 3, te_time_diff = - 400, te_latest = Some 600\<rparr>]"
      using accepted(7) by (simp add: others_def sample_times_live advance_def)
    then show ?thesis
      using accepted(4, 6) time_step_keeps(1) [OF time_step.check [OF s accepted(4)] sample_times_inv] by blast
  qed (simp_all add: sample_times_live others_def outside_window_def)
qed

theorem no_replay_witness:
  "\<exists>t1 t3. USMTimeTable_check_time [2, 2] 3 600 1000 sample_times = Some (t1, SNMPv3_USM_OK) \<and>
    USMTimeTable_check_time [2, 2] 3 620 1020 t1 = Some (t3, SNMPv3_USM_OK) \<and> ((3 :: int) < 3 \<or> (600 :: int) - 150 \<le> 620)"
proof -
  obtain t1 where t1: "USMTimeTable_check_time [2, 2] 3 600 1000 sample_times = Some (t1, SNMPv3_USM_OK)"
    "times_inv (t1, 1000)" "hd (live t1) = hd (live sample_times)"
    "others t1 = [\<lparr>te_engine_id = [2, 2], te_engine_boots = 3, te_time_diff = - 400, te_latest = Some 600\<rparr>]"
    using sample_accepts by blast
  have tick: "time_steps {} (t1, 1000) (t1, 1020)" by (rule r_into_rtranclp, rule time_step.tick) (simp_all add: sane_def)
  have i: "times_inv (t1, 1020)" using time_steps_keep [OF tick t1(2)] by blast
  have s: "sane 3" "sane 620" by (simp_all add: sane_def)
  obtain t3 where t3: "USMTimeTable_check_time [2, 2] 3 620 1020 t1 = Some (t3, SNMPv3_USM_OK)"
    using i s
  proof (cases rule: check_time_cases [where engine_id = "[2, 2]"])
    case (refused e)
    then show ?thesis using t1(4) by (simp add: outside_window_def)
  next
    case unknown
    then show ?thesis using t1(4) i by (auto elim!: times_invE)
  next
    case own
    then show ?thesis using t1(3) by (simp add: sample_times_live)
  qed blast
  show ?thesis
    using no_replay [OF sample_times_inv _ _ _ _ _ _ t1(1) tick t3] t1(1) t3 by (simp add: sane_def sample_times_live)
qed

text \<open>A replayed message is refused for good 150 seconds after it was accepted.\<close>
theorem replay_expires:
  assumes "times_inv (t, now)" and "engine_id \<noteq> te_engine_id (hd (live t))" and "sane boots" and "sane time"
    and "USMTimeTable_check_time engine_id boots time now t = Some (t1, SNMPv3_USM_OK)"
    and "now + 150 < now2" and "sane now2"
  shows "USMTimeTable_check_time engine_id boots time now2 t1 = Some (t1, SNMPv3_USM_NOT_IN_TIME_WINDOW)"
proof -
  have i1: "times_inv (t1, now)"
    by (rule time_step_keeps(1) [OF time_step.check [OF assms(3-5)] assms(1)])
  have "time_step {} (t1, now) (t1, now2)" using assms(6, 7) by (intro time_step.tick) simp_all
  then have i2: "times_inv (t1, now2)" using time_step_keeps(1) i1 by blast
  obtain e where e: "e \<in> set (others t1)" "te_engine_id e = engine_id" "ahead boots time e"
    using accepted_ahead(2) [OF assms(1, 3, 4, 2, 5)] by blast
  obtain own where i: "live t1 = own # others t1" "times_ok t1" "sane now" "\<forall>e\<in>set (others t1). clocked now e"
    by (rule times_invE [OF i1])
  have "outside_window boots time now2 f" if "f \<in> set (others t1)" "te_engine_id f = engine_id" for f
  proof -
    have "distinct (map te_engine_id (others t1))" using i by (simp add: times_ok_def)
    then have "f = e" using that e(1, 2) by (metis distinct_map inj_onD)
    then show ?thesis using e(1, 3) i(4) assms(6)
      by (auto simp: ahead_def outside_window_def elim!: clockedE dest!: bspec [OF _ e(1)])
  qed
  moreover have "engine_id \<noteq> te_engine_id (hd (live t1))"
    using i(1, 2) e(1, 2) imageI [OF e(1), of te_engine_id] by (auto simp: times_ok_def)
  moreover have "engine_id \<in> te_engine_id ` set (live t1)" using e(1, 2) i(1) by auto
  moreover from i2 assms(3, 4) have "USMTimeTable_check_time engine_id boots time now2 t1 = Some (t1, SNMPv3_USM_NOT_IN_TIME_WINDOW)
    \<or> engine_id = te_engine_id (hd (live t1)) \<or> engine_id \<notin> te_engine_id ` set (live t1) \<or>
    (\<exists>f\<in>set (others t1). te_engine_id f = engine_id \<and> \<not> outside_window boots time now2 f)"
    by (cases rule: check_time_cases [where engine_id = engine_id]) blast+
  ultimately show ?thesis by blast
qed

theorem replay_expires_witness:
  "\<exists>t1. USMTimeTable_check_time [2, 2] 3 600 1000 sample_times = Some (t1, SNMPv3_USM_OK) \<and>
    USMTimeTable_check_time [2, 2] 3 600 1151 t1 = Some (t1, SNMPv3_USM_NOT_IN_TIME_WINDOW)"
  using sample_accepts replay_expires [OF sample_times_inv, of "[2, 2]" 3 600 _ 1151] by (auto simp: sane_def sample_times_live)

lemma in_set_tl: "x \<in> set (tl xs) \<Longrightarrow> x \<in> set xs"
  by (cases xs) simp_all

lemma get_time_known:
  assumes "times_ok t" and "e \<in> set (live t)"
  shows "USMTimeTable_get_time (te_engine_id e) now t =
    Some (SNMPv3_USM_OK, te_engine_boots e, as_long (te_time_diff e + now))"
proof -
  have t: "table_ok t" "distinct (map te_engine_id (live t))" using assms(1) by (simp_all add: times_ok_def)
  obtain i where i: "i < length (live t)" "first_index (\<lambda>x. te_engine_id x = te_engine_id e) (live t) = Some i" "live t ! i = e"
    using first_index_key [OF assms(2) t(2) refl] by blast
  have "slot t i = Some e" using slot_live [OF t(1), of i] i(1, 3) length_live [OF t(1)] by simp
  moreover have "find_entry 0 (\<lambda>x. te_engine_id x = te_engine_id e) t = Some (Some i)"
    using find_entry_live [OF t(1)] i(2) by simp
  ultimately show ?thesis using t(1) by (simp add: USMTimeTable_get_time_def)
qed

text \<open>C32: the time of an engine can always be learnt again: a message with a greater boot counter from a known engine
whose counter is not at its maximum is accepted whatever the clocks say, and \<open>get_time\<close> then returns its values.\<close>
theorem reboot_resynchronises:
  assumes "times_inv (t, now)" and "e \<in> set (others t)" and "te_engine_boots e < boots"
    and "te_engine_boots e \<noteq> 2147483647" and "sane boots" and "sane time"
  shows "\<exists>t'. USMTimeTable_check_time (te_engine_id e) boots time now t = Some (t', SNMPv3_USM_OK) \<and>
    USMTimeTable_get_time (te_engine_id e) now t' = Some (SNMPv3_USM_OK, boots, time)"
proof -
  have "\<exists>t'. USMTimeTable_check_time (te_engine_id e) boots time now t = Some (t', SNMPv3_USM_OK) \<and> times_ok t' \<and>
    hd (live t') = hd (live t) \<and>
    others t' = map (\<lambda>x. if te_engine_id x = te_engine_id e then advance boots time now e else x) (others t)"
    using assms by (intro check_time_remote(2)) (auto simp: outside_window_def elim!: times_invE)
  then obtain t' where t': "USMTimeTable_check_time (te_engine_id e) boots time now t = Some (t', SNMPv3_USM_OK)" "times_ok t'"
    "others t' = map (\<lambda>x. if te_engine_id x = te_engine_id e then advance boots time now e else x) (others t)" by blast
  have "advance boots time now e \<in> set (others t')" using t'(3) assms(2) by (auto intro: rev_image_eqI)
  then have "advance boots time now e \<in> set (live t')" unfolding others_def by (rule in_set_tl)
  from get_time_known [OF t'(2) this, of now]
  have "USMTimeTable_get_time (te_engine_id e) now t' = Some (SNMPv3_USM_OK, boots, as_long time)"
    using assms(3) by (simp add: advance_def)
  moreover have "as_long time = time" using assms(6) by (intro as_long_id) (simp_all add: sane_def)
  ultimately show ?thesis using t'(1) by simp
qed

theorem reboot_resynchronises_witness:
  "\<exists>t'. USMTimeTable_check_time [2, 2] 4 7 1000 sample_times = Some (t', SNMPv3_USM_OK) \<and>
    USMTimeTable_get_time [2, 2] 1000 t' = Some (SNMPv3_USM_OK, 4, 7)"
  using reboot_resynchronises [OF sample_times_inv,
      of "\<lparr>te_engine_id = [2, 2], te_engine_boots = 3, te_time_diff = - 500, te_latest = Some 500\<rparr>" 4 7]
  by (simp add: sane_def sample_times_live others_def)

text \<open>RFC 3414 asks that a message whose boot counter is the maximum 2147483647 is outside the time window; the code
tests the counter of its entry instead, so that it accepts one such message from every engine, and from then on refuses all
messages of that engine.\<close>
theorem maximal_boots_accepted_once:
  assumes "times_inv (t, now)" and "e \<in> set (others t)" and "te_engine_boots e < 2147483647" and "sane time"
    and "sane boots2" and "sane time2"
  shows "\<exists>t'. USMTimeTable_check_time (te_engine_id e) 2147483647 time now t = Some (t', SNMPv3_USM_OK) \<and>
    USMTimeTable_check_time (te_engine_id e) boots2 time2 now t' = Some (t', SNMPv3_USM_NOT_IN_TIME_WINDOW)"
proof -
  have s: "sane 2147483647" by (simp add: sane_def)
  have "\<exists>t'. USMTimeTable_check_time (te_engine_id e) 2147483647 time now t = Some (t', SNMPv3_USM_OK) \<and> times_ok t' \<and>
    hd (live t') = hd (live t) \<and>
    others t' = map (\<lambda>x. if te_engine_id x = te_engine_id e then advance 2147483647 time now e else x) (others t)"
    using assms s by (intro check_time_remote(2)) (auto simp: outside_window_def elim!: times_invE)
  then obtain t' where t': "USMTimeTable_check_time (te_engine_id e) 2147483647 time now t = Some (t', SNMPv3_USM_OK)"
    "times_ok t'" "others t' = map (\<lambda>x. if te_engine_id x = te_engine_id e then advance 2147483647 time now e else x) (others t)"
    by blast
  let ?a = "advance 2147483647 time now e"
  have a: "?a \<in> set (others t')" using t'(3) assms(2) by (auto intro: rev_image_eqI)
  have i: "times_inv (t', now)"
    by (rule time_step_keeps(1) [OF time_step.check [OF s assms(4) t'(1)] assms(1)])
  have "outside_window boots2 time2 now ?a" using assms(3) by (simp add: outside_window_def advance_def)
  then have "USMTimeTable_check_time (te_engine_id ?a) boots2 time2 now t' = Some (t', SNMPv3_USM_NOT_IN_TIME_WINDOW)"
    using a i assms(5, 6) by (intro check_time_remote(1) t'(2)) (auto elim!: times_invE)
  then show ?thesis using t'(1) by simp
qed

theorem maximal_boots_accepted_once_witness:
  "\<exists>t'. USMTimeTable_check_time [2, 2] 2147483647 7 1000 sample_times = Some (t', SNMPv3_USM_OK) \<and>
    USMTimeTable_check_time [2, 2] 2147483647 8 1000 t' = Some (t', SNMPv3_USM_NOT_IN_TIME_WINDOW)"
  using maximal_boots_accepted_once [OF sample_times_inv,
      of "\<lparr>te_engine_id = [2, 2], te_engine_boots = 3, te_time_diff = - 500, te_latest = Some 500\<rparr>" 7 2147483647 8]
  by (simp add: sane_def sample_times_live others_def)

end
