(* ===== verification/Auth_Properties.thy ===== *)
theory Auth_Properties
  imports Usm_Security
begin

section \<open>Properties of authentication, privacy and the user tables\<close>

text \<open>
  The protocols of \<^verbatim>\<open>auth_priv.cpp\<close> against their standards, and the local configuration data store of \<^verbatim>\<open>usm_v3.cpp\<close>
  against a finite map from users to keys.  Instances use the table that \<open>add_default_modules\<close> builds.
\<close>

definition default_ap :: auth_priv where
  "default_ap = fst (add_default_modules (AuthPriv_create 7))"

lemmas default_get = default_modules [where random = 7, folded default_ap_def, OF refl]

text \<open>A hash function of the right length for every class.\<close>

definition plain_hash :: hashes where
  "plain_hash a xs = replicate (auth_get_hash_len a) (foldl (+) 0 xs)"

lemma digests_plain_hash: "digests plain_hash"
  by (simp add: digests_def plain_hash_def)

lemma tables_ok_default: "tables_ok default_ap"
  unfolding tables_ok_def by (auto simp: default_get usm_protocols split: if_splits)

subsection \<open>Authentication\<close>

text \<open>C26: an incoming message is accepted exactly when its authentication parameters have the length of the protocol and are
the truncated HMAC (RFC 2104) of the message with zeros in their place; in every case the message is left as it was.\<close>
theorem auth_accepts_iff:
  assumes "digests H" and "get_auth auth_prot ap = Some a" and "auth_prot \<noteq> SNMP_AUTHPROTOCOL_NONE"
    and "get_key_length a \<le> length key" and "read_at pos (auth_get_auth_params_len a) msg = Some received"
  shows "auth_inc_msg H ap auth_prot key msg pos n = Some (msg,
    if n = auth_get_auth_params_len a \<and>
      received = take n (hmac (H a) (get_block_size a) (take (get_key_length a) key)
        (take pos msg @ replicate n 0 @ drop (pos + n) msg))
    then SNMPv3_USM_OK else SNMPv3_USM_AUTHENTICATION_FAILURE)"
proof -
  have "auth_inc_msg H ap auth_prot key msg pos n = auth_auth_inc_msg H a key msg pos n"
    using assms(2, 3) by (simp add: auth_inc_msg_def)
  then show ?thesis using auth_inc_msg_mac [OF assms(1, 4, 5), of n] by (simp add: mac_def)
qed

theorem auth_accepts_iff_witness:
  "auth_inc_msg plain_hash default_ap 2 (replicate 16 1) (replicate 14 0) 1 12 =
    Some (replicate 14 0, SNMPv3_USM_AUTHENTICATION_FAILURE)"
proof -
  have r: "read_at 1 (auth_get_auth_params_len AuthMD5) (replicate 14 0) = Some (replicate 12 0)"
    by (simp add: read_at_def)
  have h: "take 12 (hmac (plain_hash AuthMD5) 64 (replicate 16 1) (0 # replicate 12 0 @ [0])) \<noteq> replicate 12 0"
    by (simp add: hmac_def plain_hash_def Let_def) (code_simp)
  show ?thesis
    using auth_accepts_iff [OF digests_plain_hash _ _ _ r, of 2 default_ap "replicate 16 1" 12] h [symmetric]
    by (simp add: default_get usm_protocols)
qed

text \<open>What \<open>auth_out_msg\<close> signs, \<open>auth_inc_msg\<close> accepts under the same key, for every protocol and every position of
the parameters inside the message.\<close>
theorem signed_message_accepted:
  assumes "digests H" and "get_auth auth_prot ap = Some a" and "auth_prot \<noteq> SNMP_AUTHPROTOCOL_NONE"
    and "get_key_length a \<le> length key" and "pos + auth_get_auth_params_len a \<le> length msg"
  shows "\<exists>msg'. auth_out_msg H ap auth_prot key msg pos = Some (msg', SNMPv3_USM_OK) \<and> length msg' = length msg \<and>
    take pos msg' = take pos msg \<and> drop (pos + auth_get_auth_params_len a) msg' = drop (pos + auth_get_auth_params_len a) msg \<and>
    auth_inc_msg H ap auth_prot key msg' pos (get_auth_params_len auth_prot ap) = Some (msg', SNMPv3_USM_OK)"
proof -
  obtain msg' where m: "auth_auth_out_msg H a key msg pos = Some (msg', SNMPv3_USM_OK)"
    "write_at pos (mac H a key msg pos) msg = Some msg'"
    using auth_out_msg_mac [OF assms(1, 4, 5)] by blast
  have "auth_auth_inc_msg H a key msg' pos (auth_get_auth_params_len a) = Some (msg', SNMPv3_USM_OK)"
    by (rule auth_inc_out_msg [OF assms(1, 4) m(1) assms(5)])
  moreover have "length (mac H a key msg pos) = auth_get_auth_params_len a" by (rule length_mac [OF assms(1)])
  ultimately show ?thesis using m assms(2, 3, 5)
    by (auto simp: auth_out_msg_def auth_inc_msg_def get_auth_params_len_def write_at_def split: if_splits)
qed

theorem signed_message_accepted_witness:
  "\<exists>msg'. auth_out_msg plain_hash default_ap 7 (replicate 64 3) (replicate 60 9) 10 = Some (msg', SNMPv3_USM_OK) \<and>
    auth_inc_msg plain_hash default_ap 7 (replicate 64 3) msg' 10 48 = Some (msg', SNMPv3_USM_OK)"
  using signed_message_accepted [OF digests_plain_hash, of 7 default_ap AuthHMAC384SHA512 "replicate 64 3" 10 "replicate 60 9"]
  by (auto simp: default_get usm_protocols get_auth_params_len_def)

subsection \<open>Keys\<close>

text \<open>\<open>password_to_key_auth\<close> computes the localised key of RFC 3414, appendix A.2: the hash of the first 1048576 octets of
the repeated password, hashed again around the engine id.\<close>
theorem auth_key_localised:
  assumes "digests H" and "get_auth auth_prot ap = Some a" and "auth_prot \<noteq> SNMP_AUTHPROTOCOL_NONE"
    and "password \<noteq> []" and "length engine_id \<le> 33"
  shows "password_to_key_auth H ap auth_prot password engine_id = Some (Inr (localised_key (H a) password engine_id))"
  by (rule password_to_key_auth_ok [OF assms])

theorem auth_key_localised_witness:
  "\<exists>key. password_to_key_auth plain_hash default_ap 3 [109, 97, 112] [0, 1] = Some (Inr key) \<and>
    key = localised_key (plain_hash AuthSHA) [109, 97, 112] [0, 1]"
  using auth_key_localised [OF digests_plain_hash, of 3 default_ap AuthSHA "[109, 97, 112]" "[0, 1]"]
  by (simp add: default_get usm_protocols)

text \<open>A key for a privacy protocol is always made: the loops that extend a hash that is too short end, and the key has the
length of the protocol and starts with the localised key.\<close>
theorem privacy_key_made:
  assumes "digests H" and "get_auth auth_prot ap = Some a" and "auth_prot \<noteq> SNMP_AUTHPROTOCOL_NONE"
    and "get_priv priv_prot ap = Some p" and "priv_built p" and "priv_prot \<noteq> SNMP_PRIVPROTOCOL_NONE"
    and "password \<noteq> []" and "length engine_id \<le> 33" and "SNMPv3_USM_MAX_KEY_LEN \<le> max_key_len"
  shows "\<exists>key. password_to_key_priv H ap auth_prot priv_prot password engine_id max_key_len = Some (Inr key) \<and>
    length key = priv_get_min_key_len p \<and>
    take (auth_get_hash_len a) key = take (priv_get_min_key_len p) (localised_key (H a) password engine_id)"
  by (rule password_to_key_priv_ok [OF assms])

theorem privacy_key_made_witness:
  "\<exists>key. password_to_key_priv plain_hash default_ap 2 21 [109, 97, 112] [0, 1] 64 = Some (Inr key) \<and> length key = 32"
proof -
  have "PrivAES 21 32 14 = new_PrivAES 21" by (simp add: new_PrivAES_def aes_members_def usm_protocols)
  then have "priv_built (PrivAES 21 32 14)" unfolding priv_built_def by blast
  then show ?thesis
    using privacy_key_made [OF digests_plain_hash, of 2 default_ap AuthMD5 21 "PrivAES 21 32 14" "[109, 97, 112]" "[0, 1]" 64]
    by (auto simp: default_get usm_protocols usm_lengths)
qed

subsection \<open>Privacy\<close>

text \<open>Ciphers that copy their blocks.\<close>

definition copy_cipher :: "nat \<Rightarrow> unit cipher" where
  "copy_cipher n = \<lparr>block_length = n, key_setup = (\<lambda>_ _. Inr ()), ecb_encrypt = (\<lambda>_ b. Inr b), ecb_decrypt = (\<lambda>_ b. Inr b)\<rparr>"

definition copy_ciphers :: "unit ciphers" where
  "copy_ciphers = \<lparr>rijndael_desc = copy_cipher 16, des_desc = copy_cipher 8, des3_desc = copy_cipher 8\<rparr>"

lemma des_cipher_copy: "des_cipher (copy_cipher 8)"
  by (simp add: des_cipher_def copy_cipher_def cipher_inverse_def)

text \<open>C27: what \<open>encrypt_msg\<close> encrypts under any registered protocol, \<open>decrypt_msg\<close> decrypts with the same key, boot counter
and time and the privacy parameters that were sent; the DES protocols fill the text up with zeros to whole blocks.  The block
ciphers only have to decrypt what they encrypt.\<close>
theorem decrypts_what_was_encrypted:
  assumes "get_priv priv_prot ap = Some p"
    and "encrypt_msg cs ap priv_prot key buffer room n boots time = (ap', Some (Inr (out, params)))"
    and "des_cipher (des_desc cs)" and "des_cipher (des3_desc cs)" and "length (plain_text p buffer) \<le> room'"
  shows "decrypt_msg cs ap' priv_prot key out room' params boots time = Some (Inr (plain_text p buffer))"
proof -
  have e: "priv_encrypt cs p key buffer room n (salt ap) boots time = Some (Inr (out, params))" "ap' = ap\<lparr>salt := salt ap + 1\<rparr>"
    using assms(1, 2) by (simp_all add: encrypt_msg_def)
  then show ?thesis using priv_roundtrip [OF e(1) assms(3-5)] assms(1) by (simp add: decrypt_msg_def)
qed

theorem decrypts_what_was_encrypted_witness:
  "\<exists>ap' out params. encrypt_msg copy_ciphers default_ap 2 (replicate 16 5) [1, 2, 3, 4, 5, 6, 7, 8, 9] 100 8 3 4 =
      (ap', Some (Inr (out, params))) \<and>
    decrypt_msg copy_ciphers ap' 2 (replicate 16 5) out 100 params 3 4 = Some (Inr ([1, 2, 3, 4, 5, 6, 7, 8, 9] @ replicate 7 0))"
proof -
  obtain out params where e: "priv_encrypt copy_ciphers PrivDES (replicate 16 5) [1, 2, 3, 4, 5, 6, 7, 8, 9] 100 8 (salt default_ap) 3 4 =
      Some (Inr (out, params))"
    using des_cbc_roundtrip [OF des_cipher_copy, where kb = 8 and iv_pos = 8 and key = "replicate 16 5"
        and buffer = "[1, 2, 3, 4, 5, 6, 7, 8, 9]" and room = 100 and room' = 100 and my_salt = "salt default_ap" and boots = 3]
    by (auto simp: PrivDES_encrypt_def copy_ciphers_def zero_padded_def)
  then obtain ap' where e': "encrypt_msg copy_ciphers default_ap 2 (replicate 16 5) [1, 2, 3, 4, 5, 6, 7, 8, 9] 100 8 3 4 =
      (ap', Some (Inr (out, params)))"
    by (simp add: encrypt_msg_def default_get)
  show ?thesis
    using decrypts_what_was_encrypted [OF _ e', of PrivDES 100] e'
    by (simp add: default_get copy_ciphers_def des_cipher_copy zero_padded_def)
qed

text \<open>Messages encrypted one after the other with the AES protocols carry different privacy parameters, which are the
variable part of the initialisation vector, as long as the 64 bit salt does not come round.\<close>
theorem aes_vectors_differ:
  assumes "\<And>m. m \<in> set ms \<Longrightarrow> \<exists>p. get_priv (pm_prot m) ap = Some p \<and> is_aes p"
    and "i < j" and "j < length ms" and "length ms \<le> 2 ^ 64"
    and "encrypt_all cs ap ms ! i = Some (Inr (out1, params1))" and "encrypt_all cs ap ms ! j = Some (Inr (out2, params2))"
  shows "params1 \<noteq> params2"
proof
  assume same: "params1 = params2"
  have nth: "encrypt_all cs ap ms ! k = priv_encrypt cs (the (get_priv (pm_prot (ms ! k)) ap)) (pm_key (ms ! k)) (pm_buffer (ms ! k))
      (pm_room (ms ! k)) (pm_params_len (ms ! k)) (salt ap + of_nat k) (pm_boots (ms ! k)) (pm_time (ms ! k))"
    if "k < length ms" for k using that assms(1) by (intro encrypt_all_nth) fastforce+
  have aes: "is_aes (the (get_priv (pm_prot (ms ! k)) ap))" if "k < length ms" for k
    using assms(1) [of "ms ! k"] that by auto
  have i: "i < length ms" using assms(2, 3) by simp
  note p1 = aes_params [OF aes [OF i] trans [OF nth [OF i, symmetric] assms(5)]]
  note p2 = aes_params [OF aes [OF assms(3)] trans [OF nth [OF assms(3), symmetric] assms(6)]]
  have "salt ap + of_nat i = salt ap + of_nat j" using same unfolding p1 p2 by (rule aes_salt_inj)
  moreover have "j - i < 2 ^ 64" using assms(2-4) by linarith
  ultimately show False using of_nat_u64_neq [OF assms(2), of "salt ap"] by blast
qed

lemma copy_cfb: "\<exists>out params. PrivAES_encrypt copy_ciphers 16 10 (replicate 16 5) [] 100 8 s 3 4 = Some (Inr (out, params))"
  by (simp add: PrivAES_encrypt_def copy_ciphers_def copy_cipher_def cfb_start_def cfb_encrypt_def no_check_def MAXBLOCKSIZE_def)

theorem aes_vectors_differ_witness:
  "\<exists>out1 params1 out2 params2.
    encrypt_all copy_ciphers default_ap (replicate 2 \<lparr>pm_prot = 4, pm_key = replicate 16 5, pm_buffer = [], pm_room = 100,
      pm_params_len = 8, pm_boots = 3, pm_time = 4\<rparr>) = [Some (Inr (out1, params1)), Some (Inr (out2, params2))] \<and>
    params1 \<noteq> params2"
proof -
  let ?m = "\<lparr>pm_prot = 4, pm_key = replicate 16 5, pm_buffer = [], pm_room = 100, pm_params_len = 8, pm_boots = 3, pm_time = 4\<rparr>"
  obtain out1 params1 out2 params2 where e:
    "PrivAES_encrypt copy_ciphers 16 10 (replicate 16 5) [] 100 8 (salt default_ap) 3 4 = Some (Inr (out1, params1))"
    "PrivAES_encrypt copy_ciphers 16 10 (replicate 16 5) [] 100 8 (salt default_ap + 1) 3 4 = Some (Inr (out2, params2))"
    using copy_cfb by blast
  have a: "encrypt_all copy_ciphers default_ap [?m, ?m] = [Some (Inr (out1, params1)), Some (Inr (out2, params2))]"
    using e by (simp add: encrypt_msg_def default_get)
  have "params1 \<noteq> params2"
    using aes_vectors_differ [of "[?m, ?m]" default_ap 0 1 copy_ciphers out1 params1 out2 params2] a
    by (simp add: default_get)
  then show ?thesis using a by (simp add: numeral_2_eq_2)
qed

subsection \<open>Users\<close>

text \<open>The table of localised keys is a finite map from engine id and user name to entries: for every well formed table
\<open>add_entry\<close> and \<open>delete_entry\<close> succeed, keep it well formed, and update the map at one point.\<close>
theorem user_table_is_a_map:
  assumes "users_ok t"
  shows "(\<exists>t'. USMUserTable_add_entry e t = Some (t', SNMPv3_USM_OK) \<and> users_ok t' \<and>
      (\<forall>k. entry_for user_key (live t') k = (if k = user_key e then Some e else entry_for user_key (live t) k))) \<and>
    (\<exists>t'. USMUserTable_delete_entry engine_id user_name t = Some (t', SNMPv3_USM_OK) \<and> users_ok t' \<and>
      (\<forall>k. entry_for user_key (live t') k = (if k = (engine_id, user_name) then None else entry_for user_key (live t) k)))"
proof -
  obtain a where "USMUserTable_add_entry e t = Some (a, SNMPv3_USM_OK)" using user_add_ok [OF assms] by blast
  moreover obtain d where "USMUserTable_delete_entry engine_id user_name t = Some (d, SNMPv3_USM_OK)"
    using user_delete_ok [OF assms, of "(engine_id, user_name)"] by auto
  ultimately show ?thesis
    using users.add_lookup [OF assms, of e] users.del_lookup [OF assms, of "(engine_id, user_name)"]
    by (simp add: users_add_def users_del_def)
qed

theorem user_table_is_a_map_witness:
  "\<exists>t'. USMUserTable_delete_entry [1] [2] (new_table 10) = Some (t', SNMPv3_USM_OK) \<and> users_ok t'"
  using user_table_is_a_map [OF new_tables_ok(2), of _ "[1]" "[2]"] by blast

text \<open>A model with one local engine, one password and one localised key, and the protocols of \<open>default_ap\<close>.\<close>

definition sample_name :: name_entry where
  "sample_name = \<lparr>ne_user_name = [117], ne_security_name = [115], ne_auth_protocol = 2, ne_priv_protocol = 1,
     ne_auth_password = [97], ne_priv_password = []\<rparr>"

definition sample_key :: user_entry where
  "sample_key = \<lparr>ue_engine_id = [2, 2], ue_user_name = [117], ue_security_name = [115], ue_auth_protocol = 2,
     ue_auth_key = replicate 16 1, ue_priv_protocol = 1, ue_priv_key = []\<rparr>"

definition sample_usm :: usm where
  "sample_usm = \<lparr>usm_time_table = \<lparr>table = Some (Some \<lparr>te_engine_id = [1, 1], te_engine_boots = 1, te_time_diff = - 1000, te_latest = None\<rparr>
        # replicate 4 None), max_entries = 5, entries = 1\<rparr>,
     usm_user_name_table = \<lparr>table = Some (Some sample_name # replicate 9 None), max_entries = 10, entries = 1\<rparr>,
     usm_user_table = \<lparr>table = Some (Some sample_key # replicate 9 None), max_entries = 10, entries = 1\<rparr>,
     usm_auth_priv = default_ap, local_snmp_engine_id = [1, 1], discovery_mode = True\<rparr>"

lemma sample_usm_ok: "usm_ok sample_usm" "keys sample_usm = [sample_key]" "passwords sample_usm = [sample_name]"
    "usm_auth_priv sample_usm = default_ap"
  by (simp_all add: usm_ok_def sample_usm_def times_ok_def names_ok_def users_ok_def table_ok_def live_def MAXLENGTH_ENGINEID_def)

lemma sample_owned: "owned_by [117] [115] sample_usm"
  by (simp add: owned_by_def sample_usm_ok sample_key_def sample_name_def)

lemma sample_keys_built:
  assumes "length engine_id \<le> 32"
  shows "build_localized_keys plain_hash default_ap engine_id 2 1 [98] [] =
    Some (Inr (localised_key (plain_hash AuthMD5) [98] engine_id, []))"
  using password_to_key_auth_ok [OF digests_plain_hash, of 2 default_ap AuthMD5 "[98]" engine_id] assms
  by (simp add: build_localized_keys_def default_get usm_protocols on_ok_def password_to_key_priv_def)

text \<open>C28: after the passwords of a user are set with \<open>add_usm_user\<close>, any engine gets a key made from the new passwords: no key
localised from old ones survives.\<close>
theorem new_password_takes_effect:
  assumes "usm_ok u" and "owned_by (ne_user_name n) (ne_security_name n) u" and "engine_id \<noteq> []"
    and "build_localized_keys H (usm_auth_priv u) engine_id (ne_auth_protocol n) (ne_priv_protocol n)
      (ne_auth_password n) (ne_priv_password n) = Some (Inr (auth_key, priv_key))"
    and "build_localized_keys H (usm_auth_priv u) (local_snmp_engine_id u) (ne_auth_protocol n) (ne_priv_protocol n)
      (ne_auth_password n) (ne_priv_password n) \<noteq> None"
  shows "\<exists>u1 u2. add_usm_user H n u = Some (u1, SNMPv3_USM_OK) \<and> usm_ok u1 \<and> usm_ok u2 \<and>
    get_user H engine_id (ne_security_name n) u1 = Some (u2, Some (localized_entry engine_id n auth_key priv_key))"
  by (rule add_usm_user_get_user [OF assms])

theorem new_password_takes_effect_witness:
  "\<exists>u1 u2 e. add_usm_user plain_hash (sample_name\<lparr>ne_auth_password := [98]\<rparr>) sample_usm = Some (u1, SNMPv3_USM_OK) \<and>
    get_user plain_hash [2, 2] [115] u1 = Some (u2, Some e) \<and> ue_auth_key e = localised_key (plain_hash AuthMD5) [98] [2, 2]"
  using new_password_takes_effect [OF sample_usm_ok(1), of "sample_name\<lparr>ne_auth_password := [98]\<rparr>" "[2, 2]" plain_hash
      "localised_key (plain_hash AuthMD5) [98] [2, 2]" "[]"] sample_owned
  by (fastforce simp: sample_name_def sample_keys_built sample_usm_ok localized_entry_def sample_usm_def)

text \<open>A deleted user is unknown for every engine; the restriction to names of 32 octets is needed.\<close>
theorem deleted_user_unknown:
  assumes "usm_ok u" and "owned_by user_name security_name u" and "length user_name \<le> MAXLEN_USMUSERNAME"
  shows "\<exists>u'. delete_usm_user security_name u = Some u' \<and> usm_ok u' \<and>
    (\<forall>engine_id. get_user H engine_id security_name u' = Some (u', None))"
  by (rule delete_usm_user_gone [OF assms])

theorem deleted_user_unknown_witness:
  "\<exists>u'. delete_usm_user [115] sample_usm = Some u' \<and> get_user plain_hash [2, 2] [115] u' = Some (u', None)"
  using deleted_user_unknown [OF sample_usm_ok(1) sample_owned, of plain_hash] by (auto simp: usm_lengths)

text \<open>\<open>USM::remove_engine_id\<close> hands the engine id to the function that deletes by user name: it keeps every localised key of
the engine, unless a user is named like the engine.\<close>
theorem remove_engine_id_keeps_keys:
  assumes "usm_ok u" and "e \<in> set (keys u)" and "ue_engine_id e = engine_id" and "ue_user_name e \<noteq> engine_id"
  shows "\<exists>u'. remove_engine_id engine_id u = Some (u', SNMPv3_USM_OK) \<and> usm_ok u' \<and> e \<in> set (keys u')"
  using remove_engine_id_keys [OF assms(1), of engine_id] assms(2, 4) by auto

theorem remove_engine_id_keeps_keys_witness:
  "\<exists>u'. remove_engine_id [2, 2] sample_usm = Some (u', SNMPv3_USM_OK) \<and> sample_key \<in> set (keys u')"
  using remove_engine_id_keeps_keys [OF sample_usm_ok(1), of sample_key "[2, 2]"] by (auto simp: sample_usm_ok sample_key_def)

end
