(* ===== verification/Delivery_Properties.thy ===== *)
theory Delivery_Properties
  imports Usm_Delivery Usm_Properties Auth_Properties
begin

section \<open>Properties of messages on their way through the user security model\<close>

text \<open>
  \<open>generate_msg\<close> of a sender and \<open>process_msg\<close> of a receiver (\<^verbatim>\<open>usm_v3.cpp\<close>) together: delivery, protection
  against forged, changed and replayed messages, and the messages that are signed in the wrong place.
\<close>

subsection \<open>Two engines\<close>

text \<open>The engine \<open>[2, 2]\<close>, which sends, and a manager that knows it, with the user of \<open>sample_key\<close>.\<close>

definition sample_agent :: usm where
  "sample_agent = sample_usm\<lparr>usm_time_table := \<lparr>table = Some (Some \<lparr>te_engine_id = [2, 2], te_engine_boots = 3,
     te_time_diff = - 400, te_latest = None\<rparr> # replicate 4 None), max_entries = 5, entries = 1\<rparr>,
     local_snmp_engine_id := [2, 2]\<rparr>"

definition sample_manager :: usm where
  "sample_manager = sample_usm\<lparr>usm_time_table := sample_times\<rparr>"

lemma sample_lookups:
  "get_user plain_hash [2, 2] [115] sample_agent = Some (sample_agent, Some sample_key)"
  "message_time 2 [2, 2] 1000 sample_agent = Some (sample_agent, Some (3, 600))"
proof -
  show "get_user plain_hash [2, 2] [115] sample_agent = Some (sample_agent, Some sample_key)"
    by (simp add: get_user_def sample_agent_def sample_usm_def sample_key_def USMUserTable_get_entry_def find_value_live
        table_ok_def live_def)
  show "message_time 2 [2, 2] 1000 sample_agent = Some (sample_agent, Some (3, 600))"
    by (simp add: message_time_def sample_agent_def USMTimeTable_get_time_def find_entry_live table_ok_def live_def
        usm_protocols usm_results as_long_def slot_def)
qed

lemma sample_sends: "sends plain_hash [2, 2] [115] 2 1000 sample_agent sample_key 3 600"
  using sample_lookups by (auto simp: sends_def sane_def)

lemma sample_receives_at:
  assumes "times_inv (t, 1000)" and "[2, 2] \<in> te_engine_id ` set (live t)"
    and "USMTimeTable_check_time [2, 2] 3 600 1000 t = Some (t', SNMPv3_USM_OK)"
  shows "receives plain_hash [2, 2] [117] 3 600 1000 (sample_manager\<lparr>usm_time_table := t\<rparr>) sample_key
    (sample_manager\<lparr>usm_time_table := t'\<rparr>)"
proof -
  have "first_index (\<lambda>e. te_engine_id e = [2, 2]) (live t) \<noteq> None" using assms(2) by (auto simp: first_index_None)
  then have "USMTimeTable_check_engine_id True [2, 2] 1000 t = Some (t, SNMPv3_USM_OK)"
    using engine_id_cases [OF assms(1), of "[2, 2]"] assms(1)
    by (auto simp: USMTimeTable_check_engine_id_def times_inv_def times_ok_def)
  moreover have "get_security_name [117] (sample_manager\<lparr>usm_time_table := t\<rparr>) = Some (Inr [115])"
    by (simp add: get_security_name_def sample_manager_def sample_usm_def sample_name_def USMUserNameTable_get_security_name_def
        find_value_live table_ok_def live_def)
  moreover have "get_user plain_hash [2, 2] [115] (sample_manager\<lparr>usm_time_table := t\<rparr>) =
      Some (sample_manager\<lparr>usm_time_table := t\<rparr>, Some sample_key)"
    by (simp add: get_user_def sample_manager_def sample_usm_def sample_key_def USMUserTable_get_entry_def find_value_live
        table_ok_def live_def)
  moreover have "discovery_mode sample_manager" by (simp add: sample_manager_def sample_usm_def)
  ultimately show ?thesis using assms(3) by (auto simp: receives_def)
qed

text \<open>The manager accepts the time of the message, and accepts it again.\<close>

lemma sample_receives:
  "\<exists>t1 t2. times_inv (t1, 1000) \<and>
    receives plain_hash [2, 2] [117] 3 600 1000 sample_manager sample_key (sample_manager\<lparr>usm_time_table := t1\<rparr>) \<and>
    receives plain_hash [2, 2] [117] 3 600 1000 (sample_manager\<lparr>usm_time_table := t1\<rparr>) sample_key
      (sample_manager\<lparr>usm_time_table := t2\<rparr>)"
proof -
  obtain t1 where t1: "USMTimeTable_check_time [2, 2] 3 600 1000 sample_times = Some (t1, SNMPv3_USM_OK)" "times_inv (t1, 1000)"
    "hd (live t1) = hd (live sample_times)"
    "others t1 = [\<lparr>te_engine_id = [2, 2], te_engine_boots = 3, te_time_diff = - 400, te_latest = Some 600\<rparr>]"
    using sample_accepts by blast
  obtain own where l: "live t1 = own # others t1" by (rule times_invE [OF t1(2)])
  obtain t2 where t2: "USMTimeTable_check_time [2, 2] 3 600 1000 t1 = Some (t2, SNMPv3_USM_OK)"
  proof -
    have s: "sane 3" "sane 600" by (simp_all add: sane_def)
    from t1(2) s show ?thesis
    proof (cases rule: check_time_cases [where engine_id = "[2, 2]"])
      case (accepted e t')
      then show ?thesis using that by blast
    qed (use t1(3, 4) l in \<open>auto simp: outside_window_def sample_times_live\<close>)
  qed
  have "sample_manager\<lparr>usm_time_table := sample_times\<rparr> = sample_manager" by (simp add: sample_manager_def)
  then have "receives plain_hash [2, 2] [117] 3 600 1000 sample_manager sample_key (sample_manager\<lparr>usm_time_table := t1\<rparr>)"
    using sample_receives_at [OF sample_times_inv _ t1(1)] by (metis (no_types) image_eqI list.set_intros sample_times_live time_entry.select_convs(1))
  moreover have "receives plain_hash [2, 2] [117] 3 600 1000 (sample_manager\<lparr>usm_time_table := t1\<rparr>) sample_key
      (sample_manager\<lparr>usm_time_table := t2\<rparr>)"
    using l t1(4) by (intro sample_receives_at [OF t1(2) _ t2]) simp
  ultimately show ?thesis using t1(2) by blast
qed

lemma sample_can_send: "can_send (usm_auth_priv sample_agent) 2 sample_key AuthMD5"
    "same_keys (usm_auth_priv sample_agent) sample_key (usm_auth_priv sample_manager) sample_key"
  by (simp_all add: can_send_def same_keys_def sample_key_def sample_agent_def sample_manager_def sample_usm_def default_get
      usm_protocols)

text \<open>The parameters of the message that the agent sends at time 600.\<close>

definition sample_params :: usm_sec_params where
  "sample_params = \<lparr>up_engine_id = [2, 2], up_engine_boots = word_of_int 3, up_engine_time = word_of_int 600,
     up_user_name = [117], up_auth = [], up_priv = []\<rparr>"

lemma int_content_600: "int_content 600 = [2, 88]" "int_content 3 = [3]"
  by (simp_all add: int_content_eval)

lemma length_sample_bytes: "length (sec_bytes (zero_auth AuthMD5 sample_params)) = 32"
    "length (whole_bytes [] (zero_auth AuthMD5 sample_params) [48, 0]) = 41"
proof -
  show s: "length (sec_bytes (zero_auth AuthMD5 sample_params)) = 32"
    by (simp add: sec_bytes_def sec_content_def sec_fields_def zero_auth_def sample_params_def int_obj_def length_ber_obj
        ber_len_def int_content_600)
  show "length (whole_bytes [] (zero_auth AuthMD5 sample_params) [48, 0]) = 41"
    by (simp add: whole_bytes_def whole_content_def int_obj_def length_ber_obj ber_len_def int_content_600 s)
qed

lemma sample_generate:
  "\<exists>msg. generate_msg plain_hash copy_ciphers [] 100 [2, 2] [115] 2 [48, 0] None 1000 (replicate 100 0) sample_agent =
    Some (sample_agent, Inr msg)"
proof -
  obtain msg where m: "message_signed plain_hash default_ap [] 100 2 sample_key sample_params [48, 0] (replicate 100 0) = Some (Inr msg)"
    using message_signed_eq [OF digests_plain_hash, of sample_key default_ap AuthMD5 2 100 "replicate 100 0" sample_params "[]" "[48, 0]"]
    by (auto simp: sample_key_def default_get usm_protocols MAX_SNMP_PACKET_def length_sample_bytes Let_def)
  show ?thesis
    using m sample_lookups by (auto simp: generate_msg_def message_user_def message_data_def usm_lengths usm_protocols MAX_SNMP_PACKET_def
      sample_params_def sample_key_def sample_agent_def sample_usm_def)
qed

subsection \<open>Delivery\<close>

text \<open>What \<open>generate_msg\<close> has signed, and encrypted, \<open>process_msg\<close> of a receiver accepts: when the receiver has the same
keys for the user and the time of the message is inside its window, the result is \<open>SNMPv3_USM_OK\<close>, the PDU is the one that
was sent (filled up to whole blocks by the DES protocols), and the security name and the engine id are those of the sender.  The
engine id, the user name and the digest have at most 89 octets together.\<close>
theorem message_delivered:
  assumes "digests H" and "des_cipher (des_desc cs)" and "des_cipher (des3_desc cs)"
    and "generate_msg H cs globalData maxMessageSize engine_id name securityLevel scopedPDU None now wholeMsg u = Some (u', Inr msg)"
    and "maxMessageSize \<le> int MAX_SNMP_PACKET" and "maxMessageSize \<le> int (length wholeMsg)"
    and "sends H engine_id name securityLevel now u user boots time" and "can_send (usm_auth_priv u) securityLevel user a"
    and "length engine_id + length (ue_user_name user) + auth_get_auth_params_len a \<le> 89"
    and "scopedPDU = ASN_SEQ_CON # rest"
    and "same_keys (usm_auth_priv u) user (usm_auth_priv (ms_usm s)) user'"
    and "receives H engine_id (ue_user_name user) boots time now' (ms_usm s) user' v"
  shows "\<exists>sp msgData s'. msg = whole_bytes globalData sp msgData \<and> up_engine_id sp = engine_id \<and>
    up_user_name sp = ue_user_name user \<and> up_engine_boots sp = word_of_int boots \<and> up_engine_time sp = word_of_int time \<and>
    process_msg H cs maxMessageSize' (sec_bytes sp) (int (length (sec_bytes sp)))
      (int (length msg) - int (length msgData) - int (length (sec_bytes sp))) securityLevel msgData (int (length msgData)) now'
      (s\<lparr>ms_whole_msg := msg\<rparr>) = Some (s', SNMPv3_USM_OK) \<and>
    ms_scoped_pdu s' = delivered_pdu (usm_auth_priv u) securityLevel user scopedPDU \<and>
    ms_security_name s' = ue_security_name user' \<and> ms_security_engine_id s' = engine_id \<and> ms_usm s' = v"
  using message_delivered_ok [OF assms] by blast

text \<open>The state of a receiver before a message.\<close>

definition sample_state :: "usm \<Rightarrow> msg_state" where
  "sample_state u = \<lparr>ms_usm = u, ms_stats = \<lparr>st_unsupported_sec_levels = 0, st_not_in_time_windows = 0, st_unknown_user_names = 0,
     st_unknown_engine_ids = 0, st_wrong_digests = 0, st_decryption_errors = 0\<rparr>, ms_whole_msg = [], ms_security_engine_id = [],
     ms_security_name = [], ms_scoped_pdu = [], ms_scoped_length = 4096, ms_max_size = 0, ms_ref = \<lparr>ssr_msg_user_name = [],
       ssr_security_name = None, ssr_security_engine_id = [], ssr_auth_protocol = 1, ssr_auth_key = [], ssr_priv_protocol = 1,
       ssr_priv_key = [], ssr_security_level = 0\<rparr>\<rparr>"

lemma copy_ciphers_ok: "des_cipher (des_desc copy_ciphers)" "des_cipher (des3_desc copy_ciphers)"
  by (simp_all add: copy_ciphers_def des_cipher_copy)

theorem message_delivered_witness:
  "\<exists>msg sp msgData s'. generate_msg plain_hash copy_ciphers [] 100 [2, 2] [115] 2 [48, 0] None 1000 (replicate 100 0) sample_agent =
      Some (sample_agent, Inr msg) \<and>
    process_msg plain_hash copy_ciphers 484 (sec_bytes sp) (int (length (sec_bytes sp)))
      (int (length msg) - int (length msgData) - int (length (sec_bytes sp))) 2 msgData (int (length msgData)) 1000
      (sample_state sample_manager\<lparr>ms_whole_msg := msg\<rparr>) = Some (s', SNMPv3_USM_OK) \<and>
    ms_scoped_pdu s' = [48, 0] \<and> ms_security_name s' = [115]"
proof -
  obtain v where v: "receives plain_hash [2, 2] [117] 3 600 1000 sample_manager sample_key v" using sample_receives by blast
  obtain msg where m: "generate_msg plain_hash copy_ciphers [] 100 [2, 2] [115] 2 [48, 0] None 1000 (replicate 100 0) sample_agent =
      Some (sample_agent, Inr msg)" using sample_generate by blast
  have p: "[48, 0] = ASN_SEQ_CON # [0]" by (simp add: ASN_SEQ_CON_def)
  have d: "delivered_pdu (usm_auth_priv sample_agent) 2 sample_key [48, 0] = [48, 0]"
    by (simp add: delivered_pdu_def usm_protocols)
  show ?thesis
    using message_delivered [OF digests_plain_hash copy_ciphers_ok m _ _ sample_sends sample_can_send(1) _ p, of "sample_state sample_manager"
        sample_key 1000 v 484] v m sample_can_send(2)
    by (auto simp: sample_state_def sample_key_def MAX_SNMP_PACKET_def d [unfolded sample_key_def])
qed

subsection \<open>What is accepted\<close>

text \<open>The message of the agent, accepted by the manager.\<close>

lemma sample_accepted:
  assumes "receives plain_hash [2, 2] [117] 3 600 1000 u sample_key v" and "usm_auth_priv u = default_ap"
  shows "\<exists>params position msgData msg q s'. parse_sec_params params (int (length params)) = Some (Inr q) \<and>
    sp_engine_id q = [2, 2] \<and> sint (sp_engine_boots q) = 3 \<and> sint (sp_engine_time q) = 600 \<and>
    process_msg plain_hash copy_ciphers 484 params (int (length params)) position 2 msgData (int (length msgData)) 1000
      (sample_state u\<lparr>ms_whole_msg := msg\<rparr>) = Some (s', SNMPv3_USM_OK) \<and> ms_usm s' = v"
proof -
  obtain msg where m: "generate_msg plain_hash copy_ciphers [] 100 [2, 2] [115] 2 [48, 0] None 1000 (replicate 100 0) sample_agent =
      Some (sample_agent, Inr msg)" using sample_generate by blast
  have p: "[48, 0] = ASN_SEQ_CON # [0]" by (simp add: ASN_SEQ_CON_def)
  have k: "same_keys (usm_auth_priv sample_agent) sample_key (usm_auth_priv (ms_usm (sample_state u))) sample_key"
    using sample_can_send(2) assms(2) by (simp add: sample_state_def sample_manager_def sample_usm_def same_keys_def)
  have r: "receives plain_hash [2, 2] (ue_user_name sample_key) 3 600 1000 (ms_usm (sample_state u)) sample_key v"
    using assms(1) by (simp add: sample_key_def sample_state_def)
  have l: "length [2, 2 :: u8] + length (ue_user_name sample_key) + auth_get_auth_params_len AuthMD5 \<le> 89"
    "(100 :: int) \<le> int MAX_SNMP_PACKET" "100 \<le> int (length (replicate 100 (0 :: u8)))"
    by (simp_all add: sample_key_def MAX_SNMP_PACKET_def)
  obtain sp msgData s' where d: "up_engine_id sp = [2, 2]" "up_user_name sp = ue_user_name sample_key"
    "up_engine_boots sp = word_of_int 3" "up_engine_time sp = word_of_int 600" "length (up_auth sp) < 128" "length (up_priv sp) \<le> 8"
    "process_msg plain_hash copy_ciphers 484 (sec_bytes sp) (int (length (sec_bytes sp)))
      (int (length msg) - int (length msgData) - int (length (sec_bytes sp))) 2 msgData (int (length msgData)) 1000
      (sample_state u\<lparr>ms_whole_msg := msg\<rparr>) = Some (s', SNMPv3_USM_OK)" "ms_usm s' = v"
    using message_delivered_ok [OF digests_plain_hash copy_ciphers_ok m l(2, 3) sample_sends sample_can_send(1) l(1) p k r, of 484]
    by blast
  then have "\<exists>q. parse_sec_params (sec_bytes sp) (int (length (sec_bytes sp))) = Some (Inr q) \<and> sp_engine_id q = [2, 2] \<and>
      sint (sp_engine_boots q) = 3 \<and> sint (sp_engine_time q) = 600"
    using parse_sec_params_bytes [of sp] by (simp add: sample_key_def)
  then show ?thesis using d(7, 8) by blast
qed

lemma authentic_accepted:
  assumes "digests H" and "tables_ok (usm_auth_priv (ms_usm s))" and "securityLevel > SNMP_SECURITY_LEVEL_NOAUTH_NOPRIV"
    and "process_msg H cs maxMessageSize securityParameters securityParametersLength securityParametersPosition securityLevel
      msgData msgDataLength now s = Some (s', SNMPv3_USM_OK)"
  shows "\<exists>sp name u u' user a tt rc. parse_sec_params securityParameters securityParametersLength = Some (Inr sp) \<and>
    get_security_name (sp_user_name sp) u = Some (Inr name) \<and> get_user H (sp_engine_id sp) name u = Some (u', Some user) \<and>
    usm_user_table u = usm_user_table (ms_usm s) \<and> usm_user_name_table u = usm_user_name_table (ms_usm s) \<and>
    get_auth (ue_auth_protocol user) (usm_auth_priv (ms_usm s)) = Some a \<and>
    read_at (nat (securityParametersPosition + sp_auth_offset sp)) (auth_get_auth_params_len a) (ms_whole_msg s) =
      Some (mac H a (ue_auth_key user) (ms_whole_msg s) (nat (securityParametersPosition + sp_auth_offset sp))) \<and>
    USMTimeTable_check_time (sp_engine_id sp) (sint (sp_engine_boots sp)) (sint (sp_engine_time sp)) now tt =
      Some (usm_time_table (ms_usm s'), rc) \<and> rc \<noteq> SNMPv3_USM_NOT_IN_TIME_WINDOW \<and> rc \<noteq> SNMPv3_USM_UNKNOWN_ENGINEID \<and>
    ms_security_name s' = ue_security_name user"
proof -
  obtain sp where sp: "parse_sec_params securityParameters securityParametersLength = Some (Inr sp)"
    "passed H sp securityParametersPosition now s s'" using process_msg_accepted [OF assms] by blast
  obtain tt name u' user rc where p: "get_security_name (sp_user_name sp) ((ms_usm s)\<lparr>usm_time_table := tt\<rparr>) = Some (Inr name)"
    "get_user H (sp_engine_id sp) name ((ms_usm s)\<lparr>usm_time_table := tt\<rparr>) = Some (u', Some user)"
    "authentic H (usm_auth_priv (ms_usm s)) (ue_auth_protocol user) (ue_auth_key user) (ms_whole_msg s)
       (securityParametersPosition + sp_auth_offset sp) (sp_auth_len sp)"
    "USMTimeTable_check_time (sp_engine_id sp) (sint (sp_engine_boots sp)) (sint (sp_engine_time sp)) now tt =
       Some (usm_time_table (ms_usm s'), rc)" "rc \<noteq> SNMPv3_USM_NOT_IN_TIME_WINDOW" "rc \<noteq> SNMPv3_USM_UNKNOWN_ENGINEID"
    "ms_security_name s' = ue_security_name user"
    using sp(2) unfolding passed_def by blast
  obtain a where a: "get_auth (ue_auth_protocol user) (usm_auth_priv (ms_usm s)) = Some a"
    "read_at (nat (securityParametersPosition + sp_auth_offset sp)) (auth_get_auth_params_len a) (ms_whole_msg s) =
      Some (mac H a (ue_auth_key user) (ms_whole_msg s) (nat (securityParametersPosition + sp_auth_offset sp)))"
    using p(3) by (auto simp: authentic_def split: option.splits)
  let ?u = "(ms_usm s)\<lparr>usm_time_table := tt\<rparr>"
  have "usm_user_table ?u = usm_user_table (ms_usm s)" "usm_user_name_table ?u = usm_user_name_table (ms_usm s)" by simp_all
  then show ?thesis using sp(1) p a by blast
qed

text \<open>With authentication \<open>process_msg\<close> accepts only a message whose authentication parameters are the truncated HMAC of
the message under the key of the user that it names, at the engine that it names, whose time the time table has accepted; the
security name that it returns is that of this user.\<close>
theorem accepted_is_authentic:
  assumes "digests H" and "tables_ok (usm_auth_priv (ms_usm s))" and "securityLevel > SNMP_SECURITY_LEVEL_NOAUTH_NOPRIV"
    and "process_msg H cs maxMessageSize securityParameters securityParametersLength securityParametersPosition securityLevel
      msgData msgDataLength now s = Some (s', SNMPv3_USM_OK)"
  shows "\<exists>sp name u u' user a tt rc. parse_sec_params securityParameters securityParametersLength = Some (Inr sp) \<and>
    get_security_name (sp_user_name sp) u = Some (Inr name) \<and> get_user H (sp_engine_id sp) name u = Some (u', Some user) \<and>
    usm_user_table u = usm_user_table (ms_usm s) \<and> usm_user_name_table u = usm_user_name_table (ms_usm s) \<and>
    get_auth (ue_auth_protocol user) (usm_auth_priv (ms_usm s)) = Some a \<and>
    read_at (nat (securityParametersPosition + sp_auth_offset sp)) (auth_get_auth_params_len a) (ms_whole_msg s) =
      Some (mac H a (ue_auth_key user) (ms_whole_msg s) (nat (securityParametersPosition + sp_auth_offset sp))) \<and>
    USMTimeTable_check_time (sp_engine_id sp) (sint (sp_engine_boots sp)) (sint (sp_engine_time sp)) now tt =
      Some (usm_time_table (ms_usm s'), rc) \<and> rc \<noteq> SNMPv3_USM_NOT_IN_TIME_WINDOW \<and> rc \<noteq> SNMPv3_USM_UNKNOWN_ENGINEID \<and>
    ms_security_name s' = ue_security_name user"
  using authentic_accepted [OF assms] .

theorem accepted_is_authentic_witness:
  "\<exists>params position msgData msg sp s'. parse_sec_params params (int (length params)) = Some (Inr sp) \<and>
    process_msg plain_hash copy_ciphers 484 params (int (length params)) position 2 msgData (int (length msgData)) 1000
      (sample_state sample_manager\<lparr>ms_whole_msg := msg\<rparr>) = Some (s', SNMPv3_USM_OK) \<and>
    (\<exists>(user :: user_entry) a. read_at (nat (position + sp_auth_offset sp)) (auth_get_auth_params_len a) msg =
      Some (mac plain_hash a (ue_auth_key user) msg (nat (position + sp_auth_offset sp))) \<and> ms_security_name s' = ue_security_name user)"
proof -
  obtain v where v: "receives plain_hash [2, 2] [117] 3 600 1000 sample_manager sample_key v" using sample_receives by blast
  have ap: "usm_auth_priv sample_manager = default_ap" by (simp add: sample_manager_def sample_usm_def)
  obtain params position msgData msg s' where a: "process_msg plain_hash copy_ciphers 484 params (int (length params)) position 2
      msgData (int (length msgData)) 1000 (sample_state sample_manager\<lparr>ms_whole_msg := msg\<rparr>) = Some (s', SNMPv3_USM_OK)"
    using sample_accepted [OF v ap] by blast
  have t: "tables_ok (usm_auth_priv (ms_usm (sample_state sample_manager\<lparr>ms_whole_msg := msg\<rparr>)))"
    using tables_ok_default ap by (simp add: sample_state_def)
  have l: "(2 :: int) > SNMP_SECURITY_LEVEL_NOAUTH_NOPRIV" by (simp add: usm_protocols)
  have w: "ms_whole_msg (sample_state sample_manager\<lparr>ms_whole_msg := msg\<rparr>) = msg" by simp
  show ?thesis using accepted_is_authentic [OF digests_plain_hash t l a] a unfolding w by blast
qed

lemma engine_id_lookup_hd:
  assumes "times_inv (t, now)" and "length engine_id \<le> MAXLENGTH_ENGINEID"
    and "USMTimeTable_check_engine_id discovery engine_id now t = Some (t', rc)"
  shows "hd (live t') = hd (live t)"
proof (cases "t' = t")
  case False
  have "table t \<noteq> None" using assms(1) by (simp add: times_inv_def times_ok_def)
  then have "engine_id \<notin> te_engine_id ` set (live t)" "USMTimeTable_add_entry engine_id 0 0 now t = Some (t', rc)"
    using assms(3) False engine_id_cases [OF assms(1), of engine_id]
    by (auto simp: USMTimeTable_check_engine_id_def first_index_None split: if_splits option.splits)
  then show ?thesis using times_inv_add [OF assms(1, 2), of 0 0] by (auto simp: sane_def)
qed simp

lemma passed_time:
  assumes "passed H sp pos now s s'" and "times_inv (usm_time_table (ms_usm s), now)" and "length (sp_engine_id sp) \<le> MAXLENGTH_ENGINEID"
    and "sane (sint (sp_engine_boots sp))" and "sane (sint (sp_engine_time sp))"
  obtains tt where "time_steps D (usm_time_table (ms_usm s), now) (tt, now)" and "times_inv (tt, now)"
    and "hd (live tt) = hd (live (usm_time_table (ms_usm s)))"
    and "USMTimeTable_check_time (sp_engine_id sp) (sint (sp_engine_boots sp)) (sint (sp_engine_time sp)) now tt =
      Some (usm_time_table (ms_usm s'), SNMPv3_USM_OK)"
proof -
  obtain tt rc where p: "USMTimeTable_check_engine_id (discovery_mode (ms_usm s)) (sp_engine_id sp) now (usm_time_table (ms_usm s)) =
      Some (tt, SNMPv3_USM_OK)"
    "USMTimeTable_check_time (sp_engine_id sp) (sint (sp_engine_boots sp)) (sint (sp_engine_time sp)) now tt =
      Some (usm_time_table (ms_usm s'), rc)" "rc \<noteq> SNMPv3_USM_NOT_IN_TIME_WINDOW" "rc \<noteq> SNMPv3_USM_UNKNOWN_ENGINEID"
    using assms(1) unfolding passed_def by blast
  have step: "time_step D (usm_time_table (ms_usm s), now) (tt, now)" by (rule time_step.lookup [OF assms(3) p(1)])
  have inv: "times_inv (tt, now)" by (rule time_step_keeps(1) [OF step assms(2)])
  have hd: "hd (live tt) = hd (live (usm_time_table (ms_usm s)))"
    by (rule engine_id_lookup_hd [OF assms(2, 3) p(1)])
  have "rc = SNMPv3_USM_OK"
    using inv assms(4, 5) by (cases rule: check_time_cases [where engine_id = "sp_engine_id sp"]) (use p in \<open>auto split: if_splits\<close>)
  then show ?thesis using that [OF r_into_rtranclp [of "time_step D", OF step] inv hd] p(2) by simp
qed

text \<open>C9: replay protection of \<open>process_msg\<close> at the levels with authentication: after a message from another engine was accepted
at such a level, any later one accepted at such a level from that engine, after whatever steps of the time table that do not
delete it, has a greater boot counter, or the same one and a time that is at most 150 seconds older.  The engine id has at most
32 octets, the counters and times are not negative and below \<open>2 ^ 62\<close>, and the time table meets its invariant.  A message
without authentication is not protected.\<close>
theorem process_msg_no_replay:
  assumes "digests H" and "tables_ok (usm_auth_priv (ms_usm s))" and "tables_ok (usm_auth_priv (ms_usm s2))"
    and "securityLevel > SNMP_SECURITY_LEVEL_NOAUTH_NOPRIV" and "securityLevel2 > SNMP_SECURITY_LEVEL_NOAUTH_NOPRIV"
    and "process_msg H cs maxMessageSize params params_len position securityLevel msgData msgDataLength now s = Some (s1, SNMPv3_USM_OK)"
    and "time_steps D (usm_time_table (ms_usm s1), now) (usm_time_table (ms_usm s2), now2)"
    and "process_msg H cs maxMessageSize params2 params_len2 position2 securityLevel2 msgData2 msgDataLength2 now2 s2 =
      Some (s3, SNMPv3_USM_OK)"
    and "parse_sec_params params params_len = Some (Inr sp)" and "parse_sec_params params2 params_len2 = Some (Inr sp2)"
    and "sp_engine_id sp2 = sp_engine_id sp" and "length (sp_engine_id sp) \<le> MAXLENGTH_ENGINEID"
    and "sp_engine_id sp \<noteq> te_engine_id (hd (live (usm_time_table (ms_usm s))))" and "sp_engine_id sp \<notin> D"
    and "times_inv (usm_time_table (ms_usm s), now)" and "sane (sint (sp_engine_boots sp))" and "sane (sint (sp_engine_time sp))"
    and "sane (sint (sp_engine_boots sp2))" and "sane (sint (sp_engine_time sp2))"
  shows "sint (sp_engine_boots sp) < sint (sp_engine_boots sp2) \<or>
    sint (sp_engine_boots sp) = sint (sp_engine_boots sp2) \<and> sint (sp_engine_time sp) - 150 \<le> sint (sp_engine_time sp2)"
proof -
  have "passed H sp position now s s1" using process_msg_accepted [OF assms(1, 2, 4, 6)] assms(9) by auto
  then obtain tt where tt: "times_inv (tt, now)" "hd (live tt) = hd (live (usm_time_table (ms_usm s)))"
    "USMTimeTable_check_time (sp_engine_id sp) (sint (sp_engine_boots sp)) (sint (sp_engine_time sp)) now tt =
      Some (usm_time_table (ms_usm s1), SNMPv3_USM_OK)"
    using assms(12, 15-17) by (elim passed_time) auto
  have "times_inv (usm_time_table (ms_usm s1), now)"
    by (rule time_step_keeps(1) [OF time_step.check [OF assms(16, 17) tt(3)] tt(1)])
  then have i2: "times_inv (usm_time_table (ms_usm s2), now2)" using time_steps_keep [OF assms(7)] by blast
  have "passed H sp2 position2 now2 s2 s3" using process_msg_accepted [OF assms(1, 3, 5, 8)] assms(10) by auto
  then obtain tt2 where tt2: "time_steps D (usm_time_table (ms_usm s2), now2) (tt2, now2)"
    "USMTimeTable_check_time (sp_engine_id sp2) (sint (sp_engine_boots sp2)) (sint (sp_engine_time sp2)) now2 tt2 =
      Some (usm_time_table (ms_usm s3), SNMPv3_USM_OK)"
    using assms(11, 12, 18, 19) i2 by (elim passed_time) auto
  have "time_steps D (usm_time_table (ms_usm s1), now) (tt2, now2)" using assms(7) tt2(1) by (rule rtranclp_trans)
  then show ?thesis
    using accepted_twice [OF tt(1) _ assms(14, 16, 17, 18, 19) tt(3)] tt2(2) assms(11, 13) tt(2) by simp
qed

theorem process_msg_no_replay_witness:
  "\<exists>params position msgData msg s1 params2 position2 msgData2 msg2 s3 sp sp2.
    process_msg plain_hash copy_ciphers 484 params (int (length params)) position 2 msgData (int (length msgData)) 1000
      (sample_state sample_manager\<lparr>ms_whole_msg := msg\<rparr>) = Some (s1, SNMPv3_USM_OK) \<and>
    process_msg plain_hash copy_ciphers 484 params2 (int (length params2)) position2 2 msgData2 (int (length msgData2)) 1000
      (sample_state (ms_usm s1)\<lparr>ms_whole_msg := msg2\<rparr>) = Some (s3, SNMPv3_USM_OK) \<and>
    parse_sec_params params (int (length params)) = Some (Inr sp) \<and> parse_sec_params params2 (int (length params2)) = Some (Inr sp2) \<and>
    (sint (sp_engine_boots sp) < sint (sp_engine_boots sp2) \<or>
     sint (sp_engine_boots sp) = sint (sp_engine_boots sp2) \<and> sint (sp_engine_time sp) - 150 \<le> sint (sp_engine_time sp2))"
proof -
  obtain t1 t2 where t: "times_inv (t1, 1000)"
    "receives plain_hash [2, 2] [117] 3 600 1000 sample_manager sample_key (sample_manager\<lparr>usm_time_table := t1\<rparr>)"
    "receives plain_hash [2, 2] [117] 3 600 1000 (sample_manager\<lparr>usm_time_table := t1\<rparr>) sample_key
      (sample_manager\<lparr>usm_time_table := t2\<rparr>)" using sample_receives by blast
  have ap: "usm_auth_priv sample_manager = default_ap" "usm_auth_priv (sample_manager\<lparr>usm_time_table := t1\<rparr>) = default_ap"
    "usm_time_table sample_manager = sample_times"
    by (simp_all add: sample_manager_def sample_usm_def)
  obtain params position msgData msg q s1 where a: "parse_sec_params params (int (length params)) = Some (Inr q)"
    "sp_engine_id q = [2, 2]" "sint (sp_engine_boots q) = 3" "sint (sp_engine_time q) = 600"
    "process_msg plain_hash copy_ciphers 484 params (int (length params)) position 2 msgData (int (length msgData)) 1000
      (sample_state sample_manager\<lparr>ms_whole_msg := msg\<rparr>) = Some (s1, SNMPv3_USM_OK)"
    "ms_usm s1 = sample_manager\<lparr>usm_time_table := t1\<rparr>"
    using sample_accepted [OF t(2) ap(1)] by blast
  obtain params2 position2 msgData2 msg2 q2 s3 where b: "parse_sec_params params2 (int (length params2)) = Some (Inr q2)"
    "sp_engine_id q2 = [2, 2]" "sint (sp_engine_boots q2) = 3" "sint (sp_engine_time q2) = 600"
    "process_msg plain_hash copy_ciphers 484 params2 (int (length params2)) position2 2 msgData2 (int (length msgData2)) 1000
      (sample_state (ms_usm s1)\<lparr>ms_whole_msg := msg2\<rparr>) = Some (s3, SNMPv3_USM_OK)"
    using sample_accepted [OF t(3) ap(2)] a(6) by metis
  have usm: "ms_usm (sample_state u\<lparr>ms_whole_msg := m\<rparr>) = u" for u m by (simp add: sample_state_def)
  have l: "(2 :: int) > SNMP_SECURITY_LEVEL_NOAUTH_NOPRIV" by (simp add: usm_protocols)
  have steps: "time_steps {} (usm_time_table (ms_usm s1), 1000)
      (usm_time_table (ms_usm (sample_state (ms_usm s1)\<lparr>ms_whole_msg := msg2\<rparr>)), 1000)" by (simp add: usm)
  have "sint (sp_engine_boots q) < sint (sp_engine_boots q2) \<or>
     sint (sp_engine_boots q) = sint (sp_engine_boots q2) \<and> sint (sp_engine_time q) - 150 \<le> sint (sp_engine_time q2)"
    using process_msg_no_replay [OF digests_plain_hash _ _ l l a(5) steps b(5) a(1) b(1)] a b tables_ok_default ap sample_times_inv
    unfolding usm by (simp add: sane_def sample_times_live MAXLENGTH_ENGINEID_def)
  then show ?thesis using a(1, 5) b(1, 5) by blast
qed

subsection \<open>Long security parameters\<close>

text \<open>C10: security parameters of 128 to 255 octets have a length of two octets in front, but \<open>build_whole_msg\<close> moves the
position of the digest by two for it instead of one.  The message is signed behind its authentication parameters, the last octet
of the digest is written over the type of the privacy parameters, and unless it happens to be the tag of a string every
receiver refuses the parameters as malformed.\<close>
theorem long_parameters_refused:
  assumes "digests H" and "get_auth (ue_auth_protocol user) ap = Some a" and "ue_auth_protocol user \<noteq> SNMP_AUTHPROTOCOL_NONE"
    and "get_key_length a \<le> length (ue_auth_key user)" and "securityLevel \<ge> SNMP_SECURITY_LEVEL_AUTH_NOPRIV"
    and "maxMessageSize \<le> int MAX_SNMP_PACKET" and "maxMessageSize \<le> int (length wholeMsg)"
    and "128 \<le> length (sec_bytes (zero_auth a sp))" and "length (sec_bytes (zero_auth a sp)) \<le> 255"
    and "int (length (whole_bytes globalData (zero_auth a sp) msgData)) \<le> maxMessageSize"
    and "length (up_engine_id sp) \<le> MAXLENGTH_ENGINEID" and "length (up_user_name sp) \<le> MAXLEN_USMUSERNAME"
    and "length (up_priv sp) < 128" and "0 \<le> sint (up_engine_boots sp)" and "0 \<le> sint (up_engine_time sp)"
    and "digest = mac H a (ue_auth_key user) (whole_bytes globalData (zero_auth a sp) msgData)
      (Suc (auth_position globalData (zero_auth a sp) msgData))" and "last digest \<notin> string_types"
  shows "\<exists>params. message_signed H ap globalData maxMessageSize securityLevel user sp msgData wholeMsg =
      Some (Inr (ber_obj ASN_SEQ_CON (int_obj 3 @ globalData @ ber_obj ASN_OCTET_STR params @ msgData))) \<and>
    params = ber_obj ASN_SEQ_CON (sec_fields sp @ (ASN_OCTET_STR # ber_len (length digest)) @ 0 # digest @
      tl (ber_obj ASN_OCTET_STR (up_priv sp))) \<and>
    process_msg H' cs maxMessageSize' params (int (length params)) position securityLevel' msgData' n now s =
      Some (s, SNMPv3_USM_PARSE_ERROR)"
proof -
  let ?z = "zero_auth a sp"
  let ?msg = "whole_bytes globalData ?z msgData" and ?p = "auth_position globalData ?z msgData"
  let ?d = "mac H a (ue_auth_key user) ?msg (Suc ?p)"
  have d: "length ?d = auth_get_auth_params_len a" by (rule length_mac [OF assms(1)])
  then have l: "length ?d = length (up_auth ?z)" by simp
  obtain zs where z: "up_auth ?z = 0 # zs"
    using auth_params_short(2) [of a] by (cases "auth_get_auth_params_len a") (simp_all add: zero_auth_def)
  have pos: "signed_position globalData ?z msgData = Suc ?p"
    using signed_position_cases [of ?z globalData msgData] assms(8, 9) auth_params_short(1) [of a] by simp
  have "message_signed H ap globalData maxMessageSize securityLevel user sp msgData wholeMsg =
      Some (Inr (take (Suc ?p) ?msg @ ?d @ drop (Suc ?p + length ?d) ?msg))"
    using message_signed_eq [OF assms(1-7), of sp globalData msgData] assms(9, 10) by (simp add: Let_def pos d)
  moreover have "late_params ?z ?d = late_params sp ?d" by (simp add: late_params_def sec_fields_def zero_auth_def)
  ultimately have "message_signed H ap globalData maxMessageSize securityLevel user sp msgData wholeMsg =
      Some (Inr (ber_obj ASN_SEQ_CON (int_obj 3 @ globalData @ ber_obj ASN_OCTET_STR (late_params sp ?d) @ msgData)))"
    using late_whole_bytes [OF l z] by simp
  moreover have "process_msg H' cs maxMessageSize' (late_params sp ?d) (int (length (late_params sp ?d))) position securityLevel'
      msgData' n now s = Some (s, SNMPv3_USM_PARSE_ERROR)"
  proof -
    have "?d \<noteq> []" "length ?d < 128" using d auth_params_short [of a] by auto
    then show ?thesis
      using parse_late_params [of sp ?d] assms(11-17) by (simp add: process_msg_def usm_lengths)
  qed
  ultimately show ?thesis using assms(16) unfolding late_params_def by blast
qed

text \<open>An engine id and a user name of 32 octets, and a digest of 48.\<close>

definition zero_hash :: hashes where
  "zero_hash a xs = replicate (auth_get_hash_len a) 0"

definition long_params :: usm_sec_params where
  "long_params = \<lparr>up_engine_id = replicate 32 1, up_engine_boots = word_of_int 3, up_engine_time = word_of_int 600,
     up_user_name = replicate 32 117, up_auth = [], up_priv = []\<rparr>"

lemma length_long_bytes: "length (sec_bytes (zero_auth AuthHMAC384SHA512 long_params)) = 129"
    "length (whole_bytes [] (zero_auth AuthHMAC384SHA512 long_params) [48, 0]) = 140"
proof -
  show s: "length (sec_bytes (zero_auth AuthHMAC384SHA512 long_params)) = 129"
    by (simp add: sec_bytes_def sec_content_def sec_fields_def zero_auth_def long_params_def int_obj_def length_ber_obj
        ber_len_def int_content_600)
  show "length (whole_bytes [] (zero_auth AuthHMAC384SHA512 long_params) [48, 0]) = 140"
    by (simp add: whole_bytes_def whole_content_def int_obj_def length_ber_obj ber_len_def int_content_600 s)
qed

theorem long_parameters_refused_witness:
  "\<exists>params. message_signed zero_hash default_ap [] 200 2 (sample_key\<lparr>ue_auth_protocol := 7, ue_auth_key := replicate 64 1\<rparr>)
      long_params [48, 0] (replicate 200 0) =
        Some (Inr (ber_obj ASN_SEQ_CON (int_obj 3 @ ber_obj ASN_OCTET_STR params @ [48, 0]))) \<and>
    process_msg zero_hash copy_ciphers 484 params (int (length params)) 5 2 [48, 0] 2 1000
      (sample_state sample_manager) = Some (sample_state sample_manager, SNMPv3_USM_PARSE_ERROR)"
proof -
  have h: "digests zero_hash" by (simp add: digests_def zero_hash_def)
  let ?u = "sample_key\<lparr>ue_auth_protocol := 7, ue_auth_key := replicate 64 1\<rparr>"
  have u: "get_auth (ue_auth_protocol ?u) default_ap = Some AuthHMAC384SHA512" "ue_auth_protocol ?u \<noteq> SNMP_AUTHPROTOCOL_NONE"
    "get_key_length AuthHMAC384SHA512 \<le> length (ue_auth_key ?u)" "(2 :: int) \<ge> SNMP_SECURITY_LEVEL_AUTH_NOPRIV"
    by (simp_all add: default_get usm_protocols)
  have m: "mac zero_hash AuthHMAC384SHA512 key msg pos = replicate 48 0" for key msg pos
    by (simp add: mac_def hmac_def zero_hash_def Let_def)
  show ?thesis
    using long_parameters_refused [OF h u, of 200 "replicate 200 0" long_params "[]" "[48, 0]" _ zero_hash copy_ciphers 484 5 2 "[48, 0]" 2 1000
        "sample_state sample_manager"] length_long_bytes
    by (auto simp: long_params_def usm_lengths MAX_SNMP_PACKET_def m string_types_def)
qed

end
