(* ===== verification/Octet_Str.thy ===== *)
theory Octet_Str
  imports C_Strings
begin

section \<open>Printable text of octet strings\<close>

text \<open>
  \<open>OctetStr::get_printable\<close> and \<open>OctetStr::get_printable_hex\<close> (\<^verbatim>\<open>src/snmp++/src/octet.cpp\<close>) with the settings the
  library starts with: \<open>OutputHexAndClear\<close>, a dot for an octet that cannot be printed, a line feed after each line, and the
  character classes of the C locale.  The text that the object keeps for the next call is left out: it is the same text.
\<close>

definition isprint :: "u8 \<Rightarrow> bool" where
  "isprint b \<longleftrightarrow> 0x20 \<le> b \<and> b \<le> 0x7E"

definition upper_hex :: "u8 \<Rightarrow> u8" where
  "upper_hex d = (if d < 10 then 48 + d else 55 + d)"

text \<open>One line of at most 16 octets: \<open>%2.2X\<close> and a space for each, spaces for those that are missing, and the characters.\<close>

definition hex_line :: "u8 list \<Rightarrow> u8 list" where
  "hex_line bs = [32, 32] @ concat (map (\<lambda>b. [upper_hex (b div 16), upper_hex (b mod 16), 32]) bs) @
     concat (replicate (16 - length bs) [32, 32, 32]) @ [32, 32, 32] @
     map (\<lambda>b. if isprint b then b else 46) bs @ [10]"

fun get_printable_hex :: "u8 list \<Rightarrow> u8 list" where
  "get_printable_hex [] = []"
| "get_printable_hex (b # bs) = hex_line (take 16 (b # bs)) @ get_printable_hex (drop 16 (b # bs))"

definition get_printable :: "u8 list \<Rightarrow> u8 list" where
  "get_printable bs = (
     if list_all (\<lambda>b. b = 13 \<or> b = 10 \<or> isprint b) bs then bs else get_printable_hex bs)"

subsection \<open>Length of the text\<close>

lemma length_hex_line: "length bs \<le> 16 \<Longrightarrow> length (hex_line bs) = 54 + length bs"
  by (simp add: hex_line_def length_concat o_def sum_list_triv sum_list_replicate)

lemma length_printable_hex:
  "length (get_printable_hex bs) = 54 * ((length bs + 15) div 16) + length bs"
proof (induction bs rule: get_printable_hex.induct)
  case (2 b bs)
  let ?n = "length (b # bs)"
  have l: "length (hex_line (take 16 (b # bs))) = 54 + min 16 ?n"
    by (subst length_hex_line) (simp_all add: min.commute)
  have "length (drop 16 (b # bs)) = ?n - 16" by simp
  then have "length (get_printable_hex (b # bs)) = 54 + min 16 ?n + 54 * ((?n - 16 + 15) div 16) + (?n - 16)"
    using l 2 by (simp only: get_printable_hex.simps length_append)
  also have "\<dots> = 54 * ((?n + 15) div 16) + ?n"
  proof (cases "16 \<le> ?n")
    case True
    then have "?n + 15 = (?n - 16 + 15) + 16" by simp
    then have "(?n + 15) div 16 = (?n - 16 + 15) div 16 + 1" by (metis div_add_self2 zero_neq_numeral)
    then show ?thesis using True by simp
  next
    case False
    then have "(?n + 15) div 16 = 1" by (intro div_nat_eqI) simp_all
    then show ?thesis using False by simp
  qed
  finally show ?case .
qed simp

end
