(* ===== verification/Mp_Tables.thy ===== *)
theory Mp_Tables
  imports Array_Table Octet_Str Usm_Message
begin

section \<open>The tables of the message processing model\<close>

text \<open>
  Classes \<open>v3MP::EngineIdTable\<close> (the engine id of every address) and \<open>v3MP::Cache\<close> (requests that have no answer yet) of
  \<^verbatim>\<open>src/snmp++/src/mp_v3.cpp\<close>, with the results of \<^verbatim>\<open>src/snmp++/include/snmp_pp/mp_v3.h\<close>.  Memory is available, and
  the release of a \<open>SecurityStateReference\<close> has no effect here.
\<close>

definition SNMPv3_MP_ERROR :: int where "SNMPv3_MP_ERROR = -1400"
definition SNMPv3_MP_OK :: int where "SNMPv3_MP_OK = -1401"
definition SNMPv3_MP_UNSUPPORTED_SECURITY_MODEL :: int where "SNMPv3_MP_UNSUPPORTED_SECURITY_MODEL = -1402"
definition SNMPv3_MP_NOT_IN_TIME_WINDOW :: int where "SNMPv3_MP_NOT_IN_TIME_WINDOW = -1403"
definition SNMPv3_MP_DOUBLED_MESSAGE :: int where "SNMPv3_MP_DOUBLED_MESSAGE = -1404"
definition SNMPv3_MP_INVALID_MESSAGE :: int where "SNMPv3_MP_INVALID_MESSAGE = -1405"
definition SNMPv3_MP_INVALID_ENGINEID :: int where "SNMPv3_MP_INVALID_ENGINEID = -1406"
definition SNMPv3_MP_NOT_INITIALIZED :: int where "SNMPv3_MP_NOT_INITIALIZED = -1407"
definition SNMPv3_MP_PARSE_ERROR :: int where "SNMPv3_MP_PARSE_ERROR = -1408"
definition SNMPv3_MP_MATCH_ERROR :: int where "SNMPv3_MP_MATCH_ERROR = -1410"
definition SNMPv3_MP_BUILD_ERROR :: int where "SNMPv3_MP_BUILD_ERROR = -1413"
definition SNMPv3_MP_UNKNOWN_PDU_HANDLERS :: int where "SNMPv3_MP_UNKNOWN_PDU_HANDLERS = -1415"

lemmas mp_results =
  SNMPv3_MP_ERROR_def SNMPv3_MP_OK_def SNMPv3_MP_UNSUPPORTED_SECURITY_MODEL_def SNMPv3_MP_NOT_IN_TIME_WINDOW_def
  SNMPv3_MP_DOUBLED_MESSAGE_def SNMPv3_MP_INVALID_MESSAGE_def SNMPv3_MP_INVALID_ENGINEID_def SNMPv3_MP_NOT_INITIALIZED_def
  SNMPv3_MP_PARSE_ERROR_def SNMPv3_MP_MATCH_ERROR_def SNMPv3_MP_BUILD_ERROR_def SNMPv3_MP_UNKNOWN_PDU_HANDLERS_def

definition MAX_HOST_NAME_LENGTH :: nat where "MAX_HOST_NAME_LENGTH = 128"
definition MAX_ENGINE_ID_CACHE_SIZE :: int where "MAX_ENGINE_ID_CACHE_SIZE = 50000"

subsection \<open>Engine ids\<close>

record engine_entry =
  ee_engine_id :: "u8 list"
  ee_host :: "u8 list"
  ee_port :: int

record engine_id_table =
  ei_table :: "engine_entry array_table"
  ei_upper_limit_entries :: int

text \<open>The constructor, with \<open>initialize_table\<close>.\<close>

definition EngineIdTable_create :: "int \<Rightarrow> engine_id_table" where
  "EngineIdTable_create initial_size = \<lparr>ei_table = new_table (if initial_size < 1 then 10 else nat initial_size),
     ei_upper_limit_entries = MAX_ENGINE_ID_CACHE_SIZE\<rparr>"

definition set_cache_size_limit :: "int \<Rightarrow> engine_id_table \<Rightarrow> engine_id_table" where
  "set_cache_size_limit size_upper_limit t =
     (if size_upper_limit > 0 then t\<lparr>ei_upper_limit_entries := size_upper_limit\<rparr> else t)"

definition EngineIdTable_add_entry :: "u8 list \<Rightarrow> u8 list \<Rightarrow> int \<Rightarrow> engine_id_table \<Rightarrow> (engine_id_table \<times> int) option" where
  "EngineIdTable_add_entry engine_id host port t = (
     if table (ei_table t) = None then Some (t, SNMPv3_MP_NOT_INITIALIZED)
     else if int (entries (ei_table t)) \<ge> ei_upper_limit_entries t then Some (t, SNMPv3_MP_ERROR)
     else let e = \<lparr>ee_engine_id = engine_id, ee_host = host, ee_port = port\<rparr> in
       Option.bind (find_entry 0 (\<lambda>e. ee_port e = port \<and> ee_host e = host \<or> ee_engine_id e = engine_id) (ei_table t)) (\<lambda>found.
       case found of
         Some i \<Rightarrow> Option.bind (set_slot i e (ei_table t)) (\<lambda>tb. Some (t\<lparr>ei_table := tb\<rparr>, SNMPv3_MP_OK))
       | None \<Rightarrow> Option.bind (push_then_grow 2 e (ei_table t)) (\<lambda>tb. Some (t\<lparr>ei_table := tb\<rparr>, SNMPv3_MP_OK))))"

definition EngineIdTable_get_entry :: "u8 list \<Rightarrow> int \<Rightarrow> engine_id_table \<Rightarrow> (int + u8 list) option" where
  "EngineIdTable_get_entry host port t = (
     if table (ei_table t) = None then Some (Inl SNMPv3_MP_NOT_INITIALIZED)
     else Option.bind (find_value (\<lambda>e. ee_port e = port \<and> ee_host e = host) (ei_table t)) (\<lambda>found.
     case found of None \<Rightarrow> Some (Inl SNMPv3_MP_ERROR) | Some e \<Rightarrow> Some (Inr (ee_engine_id e))))"

text \<open>\<open>atol\<close>, whose value becomes an \<open>int\<close>; one that is not a \<open>long\<close> is undefined behaviour.\<close>

definition atol :: "u8 list \<Rightarrow> int option" where
  "atol s = (
     let (neg, u) = sign_of (dropWhile is_space (map (\<lambda>b. char_of (unat b)) s));
         v = int (digits_val 10 0 u);
         r = (if neg then - v else v)
     in if - (2 ^ 63) \<le> r \<and> r < 2 ^ 63 then Some (to_int (word_of_int r)) else None)"

text \<open>The address with the port: the text is copied to an array of \<open>MAX_HOST_NAME_LENGTH + 1\<close> octets and split at its
  first slash; the brackets around an IPv6 address are taken off.  With the slash at the front, \<open>ptr - 1\<close> is never read, as the
  octet at \<open>host[0]\<close> has become zero.\<close>

definition EngineIdTable_get_entry_hostport :: "u8 list \<Rightarrow> engine_id_table \<Rightarrow> (int + u8 list) option" where
  "EngineIdTable_get_entry_hostport hostport t = (
     if length hostport > MAX_HOST_NAME_LENGTH then Some (Inl SNMPv3_MP_ERROR)
     else let text = get_printable hostport in
       if length text > MAX_HOST_NAME_LENGTH then None
       else if 47 \<notin> set text then Some (Inl SNMPv3_MP_ERROR)
       else let host = takeWhile (\<lambda>b. b \<noteq> 47) text in
         Option.bind (atol (tl (dropWhile (\<lambda>b. b \<noteq> 47) text))) (\<lambda>port.
         if host \<noteq> [] \<and> hd host = 91
         then if last host = 93 then EngineIdTable_get_entry (tl (butlast host)) port t
              else Some (Inl SNMPv3_MP_ERROR)
         else EngineIdTable_get_entry host port t))"

definition EngineIdTable_reset :: "engine_id_table \<Rightarrow> engine_id_table \<times> int" where
  "EngineIdTable_reset t = (
     if table (ei_table t) = None then (t, SNMPv3_MP_NOT_INITIALIZED)
     else (t\<lparr>ei_table := (ei_table t)\<lparr>entries := 0\<rparr>\<rparr>, SNMPv3_MP_OK))"

definition EngineIdTable_delete_where :: "(engine_entry \<Rightarrow> bool) \<Rightarrow> engine_id_table \<Rightarrow> (engine_id_table \<times> int) option" where
  "EngineIdTable_delete_where P t = (
     if table (ei_table t) = None then Some (t, SNMPv3_MP_NOT_INITIALIZED)
     else Option.bind (find_entry 0 P (ei_table t)) (\<lambda>found.
     case found of None \<Rightarrow> Some (t, SNMPv3_MP_ERROR)
     | Some i \<Rightarrow> Option.bind (drop_entry i (ei_table t)) (\<lambda>tb. Some (t\<lparr>ei_table := tb\<rparr>, SNMPv3_MP_OK))))"

definition EngineIdTable_delete_entry :: "u8 list \<Rightarrow> engine_id_table \<Rightarrow> (engine_id_table \<times> int) option" where
  "EngineIdTable_delete_entry engine_id t = EngineIdTable_delete_where (\<lambda>e. ee_engine_id e = engine_id) t"

definition EngineIdTable_delete_address :: "u8 list \<Rightarrow> int \<Rightarrow> engine_id_table \<Rightarrow> (engine_id_table \<times> int) option" where
  "EngineIdTable_delete_address host port t = EngineIdTable_delete_where (\<lambda>e. ee_port e = port \<and> ee_host e = host) t"

subsection \<open>Cache\<close>

record cache_entry =
  ce_msg_id :: int
  ce_req_id :: u64
  ce_sec_engine_id :: "u8 list"
  ce_sec_model :: int
  ce_sec_name :: "u8 list"
  ce_sec_level :: int
  ce_context_engine_id :: "u8 list"
  ce_context_name :: "u8 list"
  ce_sec_state_ref :: "sec_state_ref option"
  ce_error_code :: int
  ce_local_request :: bool

type_synonym cache_table = "cache_entry array_table"

definition Cache_create :: cache_table where
  "Cache_create = new_table 5"

text \<open>The comparison of \<open>add_entry\<close>: everything but the state reference and the error.\<close>

definition same_entry :: "cache_entry \<Rightarrow> cache_entry \<Rightarrow> bool" where
  "same_entry new e \<longleftrightarrow> ce_msg_id e = ce_msg_id new \<and> ce_req_id e = ce_req_id new \<and>
     ce_local_request e = ce_local_request new \<and> ce_sec_engine_id e = ce_sec_engine_id new \<and>
     ce_sec_model e = ce_sec_model new \<and> ce_sec_name e = ce_sec_name new \<and> ce_sec_level e = ce_sec_level new \<and>
     ce_context_engine_id e = ce_context_engine_id new \<and> ce_context_name e = ce_context_name new"

definition Cache_add_entry :: "cache_entry \<Rightarrow> cache_table \<Rightarrow> (cache_table \<times> int) option" where
  "Cache_add_entry new t = (
     if table t = None then Some (t, SNMPv3_MP_ERROR)
     else Option.bind (find_entry 0 (same_entry new) t) (\<lambda>found.
     if found \<noteq> None then Some (t, SNMPv3_MP_DOUBLED_MESSAGE)
     else Option.bind (push_then_grow 2 new t) (\<lambda>t. Some (t, SNMPv3_MP_OK))))"

text \<open>A search that takes the entry out; the last entry moves to its place, as in a deletion.\<close>

definition Cache_take :: "(cache_entry \<Rightarrow> bool) \<Rightarrow> cache_table \<Rightarrow> (cache_table \<times> cache_entry option) option" where
  "Cache_take P t = (
     if table t = None then Some (t, None)
     else Option.bind (find_entry 0 P t) (\<lambda>found.
     case found of None \<Rightarrow> Some (t, None)
     | Some i \<Rightarrow> Option.bind (slot t i) (\<lambda>e. Option.bind (drop_entry i t) (\<lambda>t. Some (t, Some e)))))"

text \<open>Both versions of \<open>get_entry\<close>: the one for the agent gives the error code and the state reference only.\<close>

definition Cache_get_entry :: "int \<Rightarrow> bool \<Rightarrow> cache_table \<Rightarrow> (cache_table \<times> (int + cache_entry)) option" where
  "Cache_get_entry searchedID local_request t =
     Option.bind (Cache_take (\<lambda>e. ce_msg_id e = searchedID \<and> ce_local_request e = local_request) t) (\<lambda>(t, found).
     Some (t, case found of None \<Rightarrow> Inl SNMPv3_MP_ERROR | Some e \<Rightarrow> Inr e))"

definition Cache_get_reference ::
  "int \<Rightarrow> bool \<Rightarrow> cache_table \<Rightarrow> (cache_table \<times> (int + int \<times> sec_state_ref option)) option" where
  "Cache_get_reference msg_id local_request t =
     Option.bind (Cache_take (\<lambda>e. msg_id = ce_msg_id e \<and> local_request = ce_local_request e) t) (\<lambda>(t, found).
     Some (t, case found of None \<Rightarrow> Inl SNMPv3_MP_ERROR | Some e \<Rightarrow> Inr (ce_error_code e, ce_sec_state_ref e)))"

definition Cache_delete_entry :: "u64 \<Rightarrow> bool \<Rightarrow> cache_table \<Rightarrow> cache_table option" where
  "Cache_delete_entry req_id local_request t =
     map_option fst (Cache_take (\<lambda>e. ce_req_id e = req_id \<and> ce_local_request e = local_request) t)"

definition Cache_delete_message :: "u64 \<Rightarrow> int \<Rightarrow> bool \<Rightarrow> cache_table \<Rightarrow> cache_table option" where
  "Cache_delete_message req_id msg_id local_request t =
     map_option fst (Cache_take (\<lambda>e. ce_req_id e = req_id \<and> ce_msg_id e = msg_id \<and> ce_local_request e = local_request) t)"

end
