(* ===== verification/Usm_Update.thy ===== *)
theory Usm_Update
  imports Mp_Tables Usm_Lcd
begin

section \<open>Changing the keys of a user\<close>

text \<open>
  \<open>AuthPriv::get_keychange_value\<close> (\<^verbatim>\<open>src/snmp++/src/auth_priv.cpp\<close>), and \<open>USM::key_update_prepare\<close>,
  \<open>key_update_abort\<close> and \<open>key_update_commit\<close> (\<^verbatim>\<open>src/snmp++/src/usm_v3.cpp\<close>).  The octets of \<open>rand\<close> are the parameter
  \<open>rnd\<close>; the printable text of the address is an argument, \<open>None\<close> for an invalid one; and the bindings that are
  added to the PDU are pairs of an object identifier and an octet string.
\<close>

unbundle bit_operations_syntax

definition USM_KeyUpdate :: int where "USM_KeyUpdate = 1"
definition USM_PasswordKeyUpdate :: int where "USM_PasswordKeyUpdate = 3"
definition USM_PasswordAllKeyUpdate :: int where "USM_PasswordAllKeyUpdate = 4"
definition SNMPv3_USM_ADDRESS_ERROR :: int where "SNMPv3_USM_ADDRESS_ERROR = 1414"

subsection \<open>The value of a key change\<close>

text \<open>\<open>new_key\<close> is read from position \<open>pos\<close> on for every octet of the digest.\<close>

definition xor_key_part :: "u8 list \<Rightarrow> u8 list \<Rightarrow> nat \<Rightarrow> u8 list option" where
  "xor_key_part tmp new_key pos =
     (if length new_key < pos + length tmp then None else Some (map2 (XOR) tmp (take (length tmp) (drop pos new_key))))"

primrec keychange_loop ::
  "hashes \<Rightarrow> auth_class \<Rightarrow> u8 list \<Rightarrow> u8 list \<Rightarrow> nat \<Rightarrow> u8 list \<times> u8 list \<Rightarrow> (u8 list \<times> u8 list) option" where
  "keychange_loop H a random new_key 0 s = Some s"
| "keychange_loop H a random new_key (Suc k) s =
     Option.bind (keychange_loop H a random new_key k s) (\<lambda>(tmp, delta).
     let tmp = take (auth_get_hash_len a) (auth_hash H a (tmp @ random)) in
     Option.bind (xor_key_part tmp new_key (k * auth_get_hash_len a)) (\<lambda>d. Some (tmp, delta @ d)))"

definition get_keychange_value :: "hashes \<Rightarrow> auth_priv \<Rightarrow> (nat \<Rightarrow> u8) \<Rightarrow> int \<Rightarrow> u8 list \<Rightarrow> u8 list \<Rightarrow> u8 list usm_result" where
  "get_keychange_value H ap rnd auth_prot old_key new_key = (
     case get_auth auth_prot ap of None \<Rightarrow> Some (Inl SNMPv3_USM_UNSUPPORTED_AUTHPROTOCOL)
     | Some a \<Rightarrow>
       let key_len = length old_key; random = map rnd [0..<key_len];
           iterations = (key_len - 1) div auth_get_hash_len a
       in Option.bind (keychange_loop H a random new_key iterations (old_key, [])) (\<lambda>(tmp, delta).
          let tmp = take (key_len - length delta) (auth_hash H a (tmp @ random)) in
          Option.bind (xor_key_part tmp new_key (iterations * auth_get_hash_len a)) (\<lambda>d.
          Some (Inr (random @ delta @ d)))))"

subsection \<open>Preparing an update\<close>

record key_update =
  uku_engine_id :: "u8 list"
  uku_security_name :: "u8 list"
  uku_new_password :: "u8 list"
  uku_new_key :: "u8 list"
  uku_type :: int

definition oidUsmUserEntry :: "u64 list" where
  "oidUsmUserEntry = [1, 3, 6, 1, 6, 3, 15, 1, 2, 2, 1]"

text \<open>The column of a key in \<open>usmUserTable\<close>.\<close>

definition key_column :: "int \<Rightarrow> u64" where
  "key_column type = (if type = AUTHKEY then 6 else if type = OWNAUTHKEY then 7 else if type = PRIVKEY then 9 else 10)"

definition user_oid :: "u64 \<Rightarrow> u8 list \<Rightarrow> u8 list \<Rightarrow> u64 list" where
  "user_oid column engine_id security_name = oidUsmUserEntry @ [column] @
     of_nat (length engine_id) # map ucast engine_id @ of_nat (length security_name) # map ucast security_name"

text \<open>A result of \<open>get_keychange_value\<close> other than success is not looked at: the value is then empty.\<close>

definition key_update_prepare ::
  "hashes \<Rightarrow> engine_id_table \<Rightarrow> u8 list option \<Rightarrow> (nat \<Rightarrow> u8) \<Rightarrow> u8 list \<Rightarrow> u8 list \<Rightarrow> int \<Rightarrow> (u64 list \<times> u8 list) list \<Rightarrow> usm \<Rightarrow>
   (usm \<times> (int + key_update \<times> (u64 list \<times> u8 list) list)) option" where
  "key_update_prepare H et address rnd securityName newPassword type pdu u = (
     case address of None \<Rightarrow> Some (u, Inl SNMPv3_USM_ADDRESS_ERROR)
     | Some hostport \<Rightarrow> Option.bind (EngineIdTable_get_entry_hostport hostport et) (\<lambda>found.
     case found of Inl _ \<Rightarrow> Some (u, Inl SNMPv3_USM_ADDRESS_ERROR)
     | Inr engineID \<Rightarrow> Option.bind (get_user H engineID securityName u) (\<lambda>(u, user).
     case user of None \<Rightarrow> Some (u, Inl SNMPv3_USM_UNKNOWN_SECURITY_NAME)
     | Some user \<Rightarrow>
       if type \<notin> {AUTHKEY, OWNAUTHKEY, PRIVKEY, OWNPRIVKEY} then Some (u, Inl SNMPv3_USM_ERROR)
       else Option.bind (if type \<in> {AUTHKEY, OWNAUTHKEY}
           then password_to_key_auth H (usm_auth_priv u) (ue_auth_protocol user) newPassword engineID
           else password_to_key_priv H (usm_auth_priv u) (ue_auth_protocol user) (ue_priv_protocol user) newPassword engineID
             SNMPv3_USM_MAX_KEY_LEN) (\<lambda>key.
         case key of Inl status \<Rightarrow> Some (u, Inl status)
         | Inr newKey \<Rightarrow>
           let oldKey = (if type \<in> {AUTHKEY, OWNAUTHKEY} then ue_auth_key user else ue_priv_key user) in
           Option.bind (get_keychange_value H (usm_auth_priv u) rnd (ue_auth_protocol user) oldKey newKey) (\<lambda>value.
           let newValue = (case value of Inl _ \<Rightarrow> [] | Inr v \<Rightarrow> v);
               random_value = map (\<lambda>i. rnd (length oldKey + i)) [0..<30]
           in Some (u, Inr (\<lparr>uku_engine_id = engineID, uku_security_name = securityName, uku_new_password = newPassword,
                uku_new_key = newKey, uku_type = type\<rparr>,
                pdu @ [(user_oid (key_column type) engineID securityName, newValue),
                  (user_oid 11 engineID securityName, random_value)])))))))"

subsection \<open>Committing it\<close>

text \<open>\<open>key_update_abort\<close> only deletes the structure.\<close>

definition key_update_abort :: "key_update option \<Rightarrow> usm \<Rightarrow> usm" where
  "key_update_abort uku u = u"

definition update_password :: "hashes \<Rightarrow> key_update \<Rightarrow> name_entry \<Rightarrow> u8 list \<Rightarrow> u8 list \<Rightarrow> usm \<Rightarrow> (usm \<times> int) option" where
  "update_password H uku entry authPass privPass u = add_usm_user H \<lparr>ne_user_name = uku_security_name uku,
     ne_security_name = ne_user_name entry, ne_auth_protocol = ne_auth_protocol entry,
     ne_priv_protocol = ne_priv_protocol entry, ne_auth_password = authPass, ne_priv_password = privPass\<rparr> u"

definition key_update_commit :: "hashes \<Rightarrow> key_update option \<Rightarrow> int \<Rightarrow> usm \<Rightarrow> (usm \<times> int) option" where
  "key_update_commit H uku update_type u = (case uku of None \<Rightarrow> Some (u, SNMPv3_USM_ERROR)
     | Some uku \<Rightarrow>
       if update_type = USM_KeyUpdate
       then update_key (uku_security_name uku) (uku_engine_id uku) (uku_new_key uku) (uku_type uku) u
       else if update_type = USM_PasswordKeyUpdate
       then Option.bind (update_key (uku_security_name uku) (uku_engine_id uku) (uku_new_key uku) (uku_type uku) u) (\<lambda>(u, result).
         Option.bind (USMUserNameTable_get_entry (uku_security_name uku) (usm_user_name_table u)) (\<lambda>entry.
         case entry of None \<Rightarrow> Some (u, SNMPv3_USM_ERROR)
         | Some entry \<Rightarrow>
             if result \<noteq> SNMPv3_USM_OK then Some (u, SNMPv3_USM_ERROR)
             else if uku_type uku \<in> {OWNAUTHKEY, AUTHKEY}
             then update_password H uku entry (uku_new_password uku) (ne_priv_password entry) u
             else if uku_type uku \<in> {OWNPRIVKEY, PRIVKEY}
             then update_password H uku entry (ne_priv_password entry) (uku_new_password uku) u
             else Some (u, SNMPv3_USM_ERROR)))
       else if update_type = USM_PasswordAllKeyUpdate
       then Option.bind (USMUserNameTable_get_entry (uku_security_name uku) (usm_user_name_table u)) (\<lambda>entry.
         case entry of None \<Rightarrow> Some (u, SNMPv3_USM_ERROR)
         | Some entry \<Rightarrow>
             if uku_type uku \<in> {OWNAUTHKEY, AUTHKEY}
             then Option.bind (delete_usm_user (uku_security_name uku) u)
               (update_password H uku entry (uku_new_password uku) (ne_priv_password entry))
             else if uku_type uku \<in> {OWNPRIVKEY, PRIVKEY}
             then Option.bind (delete_usm_user (uku_security_name uku) u)
               (update_password H uku entry (ne_auth_password entry) (uku_new_password uku))
             else Some (u, SNMPv3_USM_ERROR))
       else Some (u, SNMPv3_USM_ERROR))"

subsection \<open>What the agent makes of the value\<close>

text \<open>The textual convention \<open>KeyChange\<close> of RFC 3414: the old key and the random part of the value give a mask.\<close>

definition key_mask :: "(u8 list \<Rightarrow> u8 list) \<Rightarrow> nat \<Rightarrow> u8 list \<Rightarrow> u8 list \<Rightarrow> u8 list" where
  "key_mask hash h random old_key = take (length old_key)
     (concat (map (\<lambda>k. ((\<lambda>t. hash (t @ random)) ^^ Suc k) old_key) [0..<Suc ((length old_key - 1) div h)]))"

definition change_key :: "(u8 list \<Rightarrow> u8 list) \<Rightarrow> nat \<Rightarrow> u8 list \<Rightarrow> u8 list \<Rightarrow> u8 list" where
  "change_key hash h old_key value = map2 (XOR) (key_mask hash h (take (length old_key) value) old_key) (drop (length old_key) value)"

lemma hash_len_pos: "0 < auth_get_hash_len a"
  by (cases a) simp_all

lemma map2_append: "length xs = length us \<Longrightarrow> map2 f (xs @ ys) (us @ vs) = map2 f xs us @ map2 f ys vs"
  by simp

lemma map2_xor_twice: "length ms = length ks \<Longrightarrow> map2 (XOR) ms (map2 (XOR) ms ks) = ks" for ks :: "u8 list"
  by (induction ms ks rule: list_induct2) (simp_all add: xor.assoc [symmetric])

lemma keychange_loop_eq:
  fixes old_key :: "u8 list" and random :: "u8 list" and H :: hashes
  assumes "digests H" and "n * auth_get_hash_len a \<le> length new_key"
  defines T: "T \<equiv> \<lambda>k. ((\<lambda>t. H a (t @ random)) ^^ k) old_key"
  shows "keychange_loop H a random new_key n (old_key, []) =
      Some (T n, map2 (XOR) (concat (map (\<lambda>k. T (Suc k)) [0..<n])) (take (n * auth_get_hash_len a) new_key))"
    and "length (concat (map (\<lambda>k. T (Suc k)) [0..<n])) = n * auth_get_hash_len a"
proof -
  let ?h = "auth_get_hash_len a"
  have l: "length (T (Suc k)) = ?h" for k by (simp add: T digests_length [OF assms(1)])
  have c: "length (concat (map (\<lambda>k. T (Suc k)) [0..<m])) = m * ?h" for m
    by (induction m) (simp_all add: l add.commute)
  then show "length (concat (map (\<lambda>k. T (Suc k)) [0..<n])) = n * ?h" .
  show "keychange_loop H a random new_key n (old_key, []) =
      Some (T n, map2 (XOR) (concat (map (\<lambda>k. T (Suc k)) [0..<n])) (take (n * ?h) new_key))"
    using assms(2)
  proof (induction n)
    case (Suc n)
    have t: "take ?h (auth_hash H a (T n @ random)) = T (Suc n)"
      using l [of n] by (simp add: T auth_hash_def digests_length [OF assms(1)])
    have x: "xor_key_part (T (Suc n)) new_key (n * ?h) = Some (map2 (XOR) (T (Suc n)) (take ?h (drop (n * ?h) new_key)))"
      using Suc.prems l [of n] by (simp add: xor_key_part_def)
    have "Suc n * ?h = n * ?h + ?h" by simp
    then have "take (Suc n * ?h) new_key = take (n * ?h) new_key @ take ?h (drop (n * ?h) new_key)"
      by (simp only: take_add)
    then show ?case using Suc t x c [of n] by (simp add: Let_def map2_append [symmetric] del: zip_append)
  qed (simp add: T)
qed

lemma get_keychange_value_ok:
  assumes "digests H" and "get_auth auth_prot ap = Some a" and "old_key \<noteq> []" and "length new_key = length old_key"
  shows "\<exists>value. get_keychange_value H ap rnd auth_prot old_key new_key = Some (Inr value) \<and>
    length value = 2 * length old_key \<and> take (length old_key) value = map rnd [0..<length old_key] \<and>
    change_key (H a) (auth_get_hash_len a) old_key value = new_key"
proof -
  let ?h = "auth_get_hash_len a" and ?l = "length old_key" and ?r = "map rnd [0..<length old_key]"
  let ?n = "(?l - 1) div ?h"
  let ?T = "\<lambda>k. ((\<lambda>t. H a (t @ ?r)) ^^ k) old_key"
  let ?c = "concat (map (\<lambda>k. ?T (Suc k)) [0..<?n])"
  have n: "?n * ?h \<le> ?l - 1" by (rule div_times_less_eq_dividend)
  have h: "?l - ?n * ?h \<le> ?h"
  proof -
    have "?l - 1 < Suc ?n * ?h" using hash_len_pos [of a] dividend_less_div_times [of ?h "?l - 1"] by simp
    then show ?thesis by simp
  qed
  have n': "?n * ?h \<le> ?l" using n by linarith
  then have "?n * ?h \<le> length new_key" using assms(4) by simp
  note loop = keychange_loop_eq [OF assms(1) this, of ?r old_key]
  let ?t = "take (?l - ?n * ?h) (?T (Suc ?n))"
  have lt: "length ?t = ?l - ?n * ?h" using h by (simp add: digests_length [OF assms(1)])
  have d: "length (map2 (XOR) ?c (take (?n * ?h) new_key)) = ?n * ?h" using loop(2) n' assms(4) by simp
  have p: "?n * ?h + (?l - ?n * ?h) = ?l" using n' by (rule le_add_diff_inverse)
  have x: "xor_key_part ?t new_key (?n * ?h) = Some (map2 (XOR) ?t (drop (?n * ?h) new_key))"
    using lt p assms(4) by (simp add: xor_key_part_def)
  have m: "key_mask (H a) ?h ?r old_key = ?c @ ?t"
    using loop(2) n' by (simp add: key_mask_def)
  have lm: "length (?c @ ?t) = length new_key" using loop(2) lt p assms(4) by simp
  have v: "map2 (XOR) ?c (take (?n * ?h) new_key) @ map2 (XOR) ?t (drop (?n * ?h) new_key) = map2 (XOR) (?c @ ?t) new_key"
  proof -
    have "length ?c = length (take (?n * ?h) new_key)" using loop(2) n' assms(4) by simp
    then show ?thesis using map2_append [of ?c "take (?n * ?h) new_key" "(XOR)" ?t "drop (?n * ?h) new_key"] by simp
  qed
  have "get_keychange_value H ap rnd auth_prot old_key new_key = Some (Inr (?r @ map2 (XOR) (?c @ ?t) new_key))"
    using assms(2) loop(1) d x v by (simp add: get_keychange_value_def Let_def auth_hash_def)
  moreover have "change_key (H a) ?h old_key (?r @ map2 (XOR) (?c @ ?t) new_key) = new_key"
    using map2_xor_twice [OF lm] m by (simp add: change_key_def)
  ultimately show ?thesis using lm assms(4) by simp
qed

subsection \<open>Updating one key\<close>

definition with_key :: "int \<Rightarrow> u8 list \<Rightarrow> user_entry \<Rightarrow> user_entry" where
  "with_key type key e = (if type \<in> {AUTHKEY, OWNAUTHKEY} then e\<lparr>ue_auth_key := key\<rparr> else e\<lparr>ue_priv_key := key\<rparr>)"

lemma with_key_names [simp]:
  "user_key (with_key type key e) = user_key e" "ue_security_name (with_key type key e) = ue_security_name e"
  "ue_user_name (with_key type key e) = ue_user_name e"
  by (simp_all add: with_key_def user_key_def)

lemma update_key_ok:
  assumes "usm_ok u" and "e \<in> set (keys u)" and "user_key e = (engine_id, user_name)"
    and "type \<in> {AUTHKEY, OWNAUTHKEY, PRIVKEY, OWNPRIVKEY}"
  shows "\<exists>u'. update_key user_name engine_id key type u = Some (u', SNMPv3_USM_OK) \<and> usm_ok u' \<and>
    u' = u\<lparr>usm_user_table := usm_user_table u'\<rparr> \<and> set (keys u') = insert (with_key type key e) (set (keys u) - {e})"
proof -
  let ?t = "usm_user_table u" and ?P = "\<lambda>x. user_key x = (engine_id, user_name)"
  have t: "table_ok ?t" "table ?t \<noteq> None" "distinct (map user_key (keys u))" "0 < max_entries ?t"
    using usm_okD [OF assms(1)] by (auto simp: users_ok_def table_ok_def)
  have "first_index ?P (keys u) \<noteq> None" using assms(2, 3) unfolding first_index_None by blast
  then obtain i where i: "first_index ?P (keys u) = Some i" by blast
  note f = first_index_SomeD [OF i]
  have l: "i < entries ?t" using f(1) length_live [OF t(1)] by simp
  have P: "same_user engine_id user_name = ?P" by (simp add: fun_eq_iff same_user_iff)
  have e: "keys u ! i = e" using f(1, 2) assms(2, 3) t(3) by (metis distinct_map inj_onD nth_mem)
  have k: "user_key (with_key type key e) = user_key (keys u ! i)" by (simp add: e)
  obtain t' where t': "set_slot i (with_key type key e) ?t = Some t'" "table_ok t'" "live t' = (keys u)[i := with_key type key e]"
    "max_entries t' = max_entries ?t" using set_slot_ok [OF t(1) l] by blast
  have "USMUserTable_update_key user_name engine_id key type ?t = Some (t', SNMPv3_USM_OK)"
    using t(1, 2) i e find_entry_live [OF t(1), of ?P] slot_live [OF t(1) l] t'(1) assms(4)
    by (auto simp: USMUserTable_update_key_def P with_key_def key_types)
  then have "update_key user_name engine_id key type u = Some (u\<lparr>usm_user_table := t'\<rparr>, SNMPv3_USM_OK)"
    by (simp add: update_key_def)
  moreover have "usm_ok (u\<lparr>usm_user_table := t'\<rparr>)"
    using t'(2-4) t(3, 4) set_list_update_key(2) [OF t(3) f(1) k] assms(1) by (simp add: usm_ok_def users_ok_def)
  moreover have "{y \<in> set (keys u). user_key y \<noteq> user_key e} = set (keys u) - {e}"
    using t(3) assms(2) by (auto simp: distinct_map dest: inj_onD)
  then have "set (live t') = insert (with_key type key e) (set (keys u) - {e})"
    using set_list_update_key(1) [OF t(3) f(1) k] t'(3) by simp
  ultimately show ?thesis by (intro exI [of _ "u\<lparr>usm_user_table := t'\<rparr>"]) simp
qed

subsection \<open>Committing a new privacy password\<close>

text \<open>With \<open>USM_PasswordKeyUpdate\<close> the old privacy password takes the place of the authentication password.\<close>

definition confused_passwords :: "name_entry \<Rightarrow> u8 list \<Rightarrow> name_entry" where
  "confused_passwords n password = n\<lparr>ne_auth_password := ne_priv_password n, ne_priv_password := password\<rparr>"

lemma commit_priv_password:
  assumes "usm_ok u" and "e \<in> set (keys u)" and "user_key e = (engine_id, name)" and "n \<in> set (passwords u)"
    and "ne_user_name n = name" and "ne_security_name n = name" and "owned_by name name u"
    and "type \<in> {PRIVKEY, OWNPRIVKEY}" and "other_engine \<noteq> []"
    and "build_localized_keys H (usm_auth_priv u) other_engine (ne_auth_protocol n) (ne_priv_protocol n)
      (ne_priv_password n) password = Some (Inr (auth_key, priv_key))"
    and "build_localized_keys H (usm_auth_priv u) (local_snmp_engine_id u) (ne_auth_protocol n) (ne_priv_protocol n)
      (ne_priv_password n) password \<noteq> None"
  shows "\<exists>u1 u2. key_update_commit H (Some \<lparr>uku_engine_id = engine_id, uku_security_name = name, uku_new_password = password,
      uku_new_key = key, uku_type = type\<rparr>) USM_PasswordKeyUpdate u = Some (u1, SNMPv3_USM_OK) \<and>
    get_user H other_engine name u1 = Some (u2, Some (localized_entry other_engine n auth_key priv_key))"
proof -
  let ?n = "confused_passwords n password"
  obtain u' where u': "update_key name engine_id key type u = Some (u', SNMPv3_USM_OK)" "usm_ok u'"
    "u' = u\<lparr>usm_user_table := usm_user_table u'\<rparr>" "set (keys u') = insert (with_key type key e) (set (keys u) - {e})"
    using update_key_ok [OF assms(1-3), of type key] assms(8) by auto
  have f: "passwords u' = passwords u" "usm_user_name_table u' = usm_user_name_table u" "usm_auth_priv u' = usm_auth_priv u"
    "local_snmp_engine_id u' = local_snmp_engine_id u"
    using arg_cong [OF u'(3), of usm_user_name_table] arg_cong [OF u'(3), of usm_auth_priv]
      arg_cong [OF u'(3), of local_snmp_engine_id] by simp_all
  have o: "owned_by name name u'" using assms(2, 7) u'(4) f(1) by (auto simp: owned_by_def)
  have "List.find (\<lambda>e. ne_security_name e = name) (passwords u') = Some n"
    using names_find_owned [OF usm_okD(3) [OF u'(2)], of n name] assms(4-6) o f(1) by (auto simp: owned_by_def)
  then have entry: "USMUserNameTable_get_entry name (usm_user_name_table u') = Some (Some n)"
    using usm_okD [OF u'(2)] by (simp add: lookups_live)
  have n: "\<lparr>ne_user_name = name, ne_security_name = ne_user_name n, ne_auth_protocol = ne_auth_protocol n,
     ne_priv_protocol = ne_priv_protocol n, ne_auth_password = ne_priv_password n, ne_priv_password = password\<rparr> = ?n"
    using assms(5, 6) by (simp add: confused_passwords_def)
  have "key_update_commit H (Some \<lparr>uku_engine_id = engine_id, uku_security_name = name, uku_new_password = password,
      uku_new_key = key, uku_type = type\<rparr>) USM_PasswordKeyUpdate u = add_usm_user H ?n u'"
    using u'(1) entry assms(8) n
    by (auto simp: key_update_commit_def update_password_def USM_PasswordKeyUpdate_def USM_KeyUpdate_def key_types)
  moreover have "\<exists>u1 u2. add_usm_user H ?n u' = Some (u1, SNMPv3_USM_OK) \<and> usm_ok u1 \<and> usm_ok u2 \<and>
      get_user H other_engine (ne_security_name ?n) u1 = Some (u2, Some (localized_entry other_engine ?n auth_key priv_key))"
    using u'(2) o assms(5, 6, 9-11) f(3, 4) by (intro add_usm_user_get_user) (simp_all add: confused_passwords_def)
  moreover have "localized_entry other_engine ?n auth_key priv_key = localized_entry other_engine n auth_key priv_key"
    by (simp add: localized_entry_def confused_passwords_def)
  ultimately show ?thesis using assms(6) by (auto simp: confused_passwords_def)
qed

end
