(* ===== verification/Update_Properties.thy ===== *)
theory Update_Properties
  imports Usm_Update Auth_Properties
begin

section \<open>Properties of key changes\<close>

text \<open>The value that is sent to an agent to change a key, and what the manager does to its own tables.\<close>

text \<open>C11: an agent that follows the textual convention \<open>KeyChange\<close> of RFC 3414 gets exactly the new key from the value that
\<open>get_keychange_value\<close> builds, whatever the random octets, for keys of any equal length.\<close>
theorem key_change_value:
  assumes "digests H" and "get_auth auth_prot ap = Some a" and "old_key \<noteq> []" and "length new_key = length old_key"
  shows "\<exists>value. get_keychange_value H ap rnd auth_prot old_key new_key = Some (Inr value) \<and>
    length value = 2 * length old_key \<and> take (length old_key) value = map rnd [0..<length old_key] \<and>
    change_key (H a) (auth_get_hash_len a) old_key value = new_key"
  by (rule get_keychange_value_ok [OF assms])

theorem key_change_value_witness:
  "\<exists>value. get_keychange_value plain_hash default_ap (\<lambda>i. of_nat i) 2 (replicate 20 1) (replicate 20 9) = Some (Inr value) \<and>
    change_key (plain_hash AuthMD5) 16 (replicate 20 1) value = replicate 20 9"
  using key_change_value [OF digests_plain_hash, of 2 default_ap AuthMD5 "replicate 20 1" "replicate 20 9" "\<lambda>i. of_nat i"]
  by (auto simp: default_get usm_protocols)

text \<open>C12: \<open>key_update_commit\<close> with \<open>USM_PasswordKeyUpdate\<close> for a privacy key succeeds and puts the old privacy password in the
place of the authentication password: the keys that \<open>get_user\<close> then derives for another engine are built from the old
privacy password as the authentication password, and from the new password as the privacy password.  So it is for a user in the
table of passwords whose name is the security name, who owns the entries of that name, and whose keys can be built from these
passwords.\<close>
theorem privacy_update_breaks_authentication:
  assumes "usm_ok u" and "e \<in> set (keys u)" and "user_key e = (engine_id, name)" and "n \<in> set (passwords u)"
    and "ne_user_name n = name" and "ne_security_name n = name" and "owned_by name name u"
    and "type \<in> {PRIVKEY, OWNPRIVKEY}" and "other_engine \<noteq> []"
    and "build_localized_keys H (usm_auth_priv u) other_engine (ne_auth_protocol n) (ne_priv_protocol n)
      (ne_priv_password n) password = Some (Inr (auth_key, priv_key))"
    and "build_localized_keys H (usm_auth_priv u) (local_snmp_engine_id u) (ne_auth_protocol n) (ne_priv_protocol n)
      (ne_priv_password n) password \<noteq> None"
  shows "\<exists>u1 u2. key_update_commit H (Some \<lparr>uku_engine_id = engine_id, uku_security_name = name, uku_new_password = password,
      uku_new_key = key, uku_type = type\<rparr>) USM_PasswordKeyUpdate u = Some (u1, SNMPv3_USM_OK) \<and>
    get_user H other_engine name u1 = Some (u2, Some (localized_entry other_engine n auth_key priv_key))"
  by (rule commit_priv_password [OF assms])

text \<open>A user with a password for each, whose security name is the user name.\<close>

definition private_name :: name_entry where
  "private_name = \<lparr>ne_user_name = [117], ne_security_name = [117], ne_auth_protocol = 2, ne_priv_protocol = 1,
     ne_auth_password = [97], ne_priv_password = [98]\<rparr>"

definition private_usm :: usm where
  "private_usm = sample_usm\<lparr>usm_user_name_table := \<lparr>table = Some (Some private_name # replicate 9 None), max_entries = 10, entries = 1\<rparr>,
     usm_user_table := \<lparr>table = Some (Some (sample_key\<lparr>ue_security_name := [117]\<rparr>) # replicate 9 None), max_entries = 10, entries = 1\<rparr>\<rparr>"

lemma private_usm_ok: "usm_ok private_usm" "keys private_usm = [sample_key\<lparr>ue_security_name := [117]\<rparr>]"
    "passwords private_usm = [private_name]" "usm_auth_priv private_usm = default_ap" "local_snmp_engine_id private_usm = [1, 1]"
  by (simp_all add: usm_ok_def private_usm_def sample_usm_def times_ok_def names_ok_def users_ok_def table_ok_def live_def MAXLENGTH_ENGINEID_def)

theorem privacy_update_breaks_authentication_witness:
  "\<exists>u1 u2 e. key_update_commit plain_hash (Some \<lparr>uku_engine_id = [2, 2], uku_security_name = [117], uku_new_password = [99],
      uku_new_key = [1], uku_type = PRIVKEY\<rparr>) USM_PasswordKeyUpdate private_usm = Some (u1, SNMPv3_USM_OK) \<and>
    get_user plain_hash [3, 3] [117] u1 = Some (u2, Some e) \<and> ue_auth_key e = localised_key (plain_hash AuthMD5) [98] [3, 3]"
proof -
  have b: "build_localized_keys plain_hash default_ap engine_id 2 1 [98] [99] =
      Some (Inr (localised_key (plain_hash AuthMD5) [98] engine_id, []))" if "length engine_id \<le> 32" for engine_id
    using password_to_key_auth_ok [OF digests_plain_hash, of 2 default_ap AuthMD5 "[98]" engine_id] that
    by (simp add: build_localized_keys_def default_get usm_protocols on_ok_def password_to_key_priv_def)
  have o: "owned_by [117] [117] private_usm" by (simp add: owned_by_def private_usm_ok private_name_def sample_key_def)
  show ?thesis
    using privacy_update_breaks_authentication [OF private_usm_ok(1), of "sample_key\<lparr>ue_security_name := [117]\<rparr>" "[2, 2]" "[117]" private_name
        PRIVKEY "[3, 3]" plain_hash "[99]" "localised_key (plain_hash AuthMD5) [98] [3, 3]" "[]" "[1]"] o b
    by (fastforce simp: private_usm_ok private_name_def sample_key_def user_key_def localized_entry_def)
qed

end
