(* ===== verification/Mp_V3.thy ===== *)
theory Mp_V3
  imports Mp_Tables Usm_Build
begin

section \<open>The message processing model of version 3\<close>

text \<open>
  Class \<open>v3MP\<close> (\<^verbatim>\<open>src/snmp++/src/mp_v3.cpp\<close>): a message is built from a PDU, and a received one is checked, handed to the user
  security model, parsed and matched with the cache of requests.  The struct \<open>snmp_pdu\<close> is the record of
  \<open>Snmp_Message\<close>; its member \<open>msgid\<close> is an argument or a part of the result.  What the code sends with \<open>send_raw_data\<close>
  is a list of messages in the result; whether the socket takes them has no effect on the state.
\<close>

definition GET_REQ_MSG :: int where "GET_REQ_MSG = 0xA0"
definition GETNEXT_REQ_MSG :: int where "GETNEXT_REQ_MSG = 0xA1"
definition GET_RSP_MSG :: int where "GET_RSP_MSG = 0xA2"
definition SET_REQ_MSG :: int where "SET_REQ_MSG = 0xA3"
definition GETBULK_REQ_MSG :: int where "GETBULK_REQ_MSG = 0xA5"
definition INFORM_REQ_MSG :: int where "INFORM_REQ_MSG = 0xA6"
definition TRP2_REQ_MSG :: int where "TRP2_REQ_MSG = 0xA7"
definition REPORT_MSG :: int where "REPORT_MSG = 0xA8"
definition SNMP_VERSION_3 :: u64 where "SNMP_VERSION_3 = 3"
definition SNMP_SECURITY_MODEL_USM :: int where "SNMP_SECURITY_MODEL_USM = 3"
definition SNMPv3_AUTHFLAG :: u8 where "SNMPv3_AUTHFLAG = 0x01"
definition SNMPv3_PRIVFLAG :: u8 where "SNMPv3_PRIVFLAG = 0x02"
definition SNMPv3_REPORTABLEFLAG :: u8 where "SNMPv3_REPORTABLEFLAG = 0x04"
definition MAX_MPMSGID :: u32 where "MAX_MPMSGID = 2147483647"
definition MAXLENGTH_CONTEXT_NAME :: nat where "MAXLENGTH_CONTEXT_NAME = 32"

lemmas pdu_kinds = GET_REQ_MSG_def GETNEXT_REQ_MSG_def GET_RSP_MSG_def SET_REQ_MSG_def TRP_REQ_MSG_def
  GETBULK_REQ_MSG_def INFORM_REQ_MSG_def TRP2_REQ_MSG_def REPORT_MSG_def

lemmas mp_flags = SNMPv3_AUTHFLAG_def SNMPv3_PRIVFLAG_def SNMPv3_REPORTABLEFLAG_def

record v3mp =
  mp_engine_ids :: engine_id_table
  mp_cache :: cache_table
  mp_usm :: usm
  mp_usm_stats :: usm_stats
  own_engine_id :: "u8 list"
  own_engine_id_oct :: "u8 list"
  cur_msg_id :: u32
  snmpUnknownSecurityModels :: u32
  snmpInvalidMsgs :: u32
  snmpUnknownPDUHandlers :: u32

definition v3MP_remove_engine_id :: "u8 list \<Rightarrow> v3mp \<Rightarrow> (v3mp \<times> int) option" where
  "v3MP_remove_engine_id engine_id s =
     Option.bind (EngineIdTable_delete_entry engine_id (mp_engine_ids s)) (\<lambda>(ids, retval1).
     Option.bind (remove_engine_id engine_id (mp_usm s)) (\<lambda>(u, retval2).
     Some (s\<lparr>mp_engine_ids := ids, mp_usm := u\<rparr>,
       if retval1 = SNMPv3_MP_NOT_INITIALIZED \<or> retval2 = SNMPv3_USM_ERROR then SNMPv3_MP_NOT_INITIALIZED else SNMPv3_MP_OK)))"

text \<open>A NULL pointer of a parser is \<open>false\<close>.\<close>

definition is_v3_msg :: "u8 list \<Rightarrow> int \<Rightarrow> bool option" where
  "is_v3_msg buffer len =
     Option.bind (asn_parse_header buffer len) (\<lambda>h. case h of Inl _ \<Rightarrow> Some False
     | Inr (buffer, len, type) \<Rightarrow>
         if type \<noteq> ASN_SEQ_CON then Some False
         else Option.bind (asn_parse_int buffer len) (\<lambda>v. case v of Inl _ \<Rightarrow> Some False
         | Inr (_, _, _, version) \<Rightarrow> Some (version = SNMP_VERSION_3)))"

subsection \<open>Building a message\<close>

definition is_request :: "int \<Rightarrow> bool" where
  "is_request cmd \<longleftrightarrow> cmd = GET_REQ_MSG \<or> cmd = GETNEXT_REQ_MSG \<or> cmd = SET_REQ_MSG \<or> cmd = GETBULK_REQ_MSG \<or>
     cmd = TRP_REQ_MSG \<or> cmd = INFORM_REQ_MSG \<or> cmd = TRP2_REQ_MSG"

definition is_confirmed :: "int \<Rightarrow> bool" where
  "is_confirmed cmd \<longleftrightarrow> cmd = GET_REQ_MSG \<or> cmd = GETNEXT_REQ_MSG \<or> cmd = SET_REQ_MSG \<or> cmd = GETBULK_REQ_MSG \<or>
     cmd = INFORM_REQ_MSG"

definition uses_own_engine :: "int \<Rightarrow> bool" where
  "uses_own_engine cmd \<longleftrightarrow> cmd = TRP_REQ_MSG \<or> cmd = GET_RSP_MSG \<or> cmd = REPORT_MSG \<or> cmd = TRP2_REQ_MSG"

text \<open>\<open>msgID = cur_msg_id++\<close>.\<close>

definition next_msg_id :: "v3mp \<Rightarrow> v3mp \<times> int" where
  "next_msg_id s = (let c = cur_msg_id s + 1 in
     (s\<lparr>cur_msg_id := if c \<ge> MAX_MPMSGID then 1 else c\<rparr>, sint (cur_msg_id s)))"

text \<open>The scoped PDU: the bindings in \<open>scopedPDU\<close>, the PDU in \<open>buf\<close>, and the whole in \<open>scopedPDU\<close> again.\<close>

definition build_scoped :: "snmp_pdu \<Rightarrow> int \<Rightarrow> u8 list \<Rightarrow> u8 list \<Rightarrow> u8 list asn" where
  "build_scoped pdu out_length contextEngineID contextName =
     on_ok (build_vb pdu (local_buffer MAX_SNMP_PACKET) out_length) (\<lambda>(scopedPDU, scopedPDULength).
     on_ok (build_data_pdu pdu (local_buffer MAX_SNMP_PACKET) out_length (take scopedPDULength scopedPDU)) (\<lambda>(buf, bufLength).
     on_ok (asn1_build_scoped_pdu (scopedPDU, 0) out_length contextEngineID (int (length contextEngineID)) contextName
       (int (length contextName)) (take bufLength buf)) (\<lambda>((scopedPDU, scopedPDULength), _).
     Some (Inr (take scopedPDULength scopedPDU)))))"

definition level_flags :: "int \<Rightarrow> u8" where
  "level_flags securityLevel = (
     if securityLevel = SNMP_SECURITY_LEVEL_NOAUTH_NOPRIV then 0
     else if securityLevel = SNMP_SECURITY_LEVEL_AUTH_NOPRIV then SNMPv3_AUTHFLAG
     else SNMPv3_AUTHFLAG OR SNMPv3_PRIVFLAG)"

definition message_flags :: "int \<Rightarrow> int \<Rightarrow> u8" where
  "message_flags securityLevel cmd =
     (if is_confirmed cmd then level_flags securityLevel OR SNMPv3_REPORTABLEFLAG else level_flags securityLevel)"

definition build_global :: "int \<Rightarrow> int \<Rightarrow> u8 \<Rightarrow> int \<Rightarrow> u8 list asn" where
  "build_global msgID out_length msgFlags securityModel =
     on_ok (asn1_build_header_data (local_buffer MAXLENGTH_GLOBALDATA) (int MAXLENGTH_GLOBALDATA) (word_of_int msgID)
       (word_of_int out_length) msgFlags (word_of_int securityModel)) (\<lambda>((globalData, globalDataLength), _).
     Some (Inr (take globalDataLength globalData)))"

text \<open>Everything after the message id is known.\<close>

definition build_with_id ::
  "hashes \<Rightarrow> 'k ciphers \<Rightarrow> int \<Rightarrow> snmp_pdu \<Rightarrow> int \<Rightarrow> sec_state_ref option \<Rightarrow> u8 list \<Rightarrow> int \<Rightarrow> u8 list \<Rightarrow> u8 list \<Rightarrow> int \<Rightarrow>
   int \<Rightarrow> u8 list \<Rightarrow> u8 list \<Rightarrow> v3mp \<Rightarrow> (v3mp \<times> (int + u8 list)) option" where
  "build_with_id H cs now pdu msgID securityStateReference packet out_length securityEngineID securityName securityModel
     securityLevel contextEngineID contextName s =
     Option.bind (build_scoped pdu out_length contextEngineID contextName) (\<lambda>scoped.
     case scoped of Inl _ \<Rightarrow> Some (s, Inl SNMPv3_MP_BUILD_ERROR)
     | Inr scopedPDU \<Rightarrow>
         Option.bind (build_global msgID out_length (message_flags securityLevel (command pdu)) securityModel) (\<lambda>global.
         case global of Inl _ \<Rightarrow> Some (s, Inl SNMPv3_MP_BUILD_ERROR)
         | Inr globalData \<Rightarrow>
             if securityModel \<noteq> SNMP_SECURITY_MODEL_USM then Some (s, Inl SNMPv3_MP_UNSUPPORTED_SECURITY_MODEL)
             else Option.bind (generate_msg H cs globalData out_length
                 (if uses_own_engine (command pdu) then own_engine_id_oct s else securityEngineID) securityName securityLevel
                 scopedPDU securityStateReference now packet (mp_usm s)) (\<lambda>(u, r).
               let s = s\<lparr>mp_usm := u\<rparr> in
               case r of Inl rc \<Rightarrow> Some (s, Inl rc)
               | Inr msg \<Rightarrow>
                   if uses_own_engine (command pdu) then Some (s, Inr msg)
                   else Option.bind (Cache_add_entry \<lparr>ce_msg_id = msgID, ce_req_id = reqid pdu,
                       ce_sec_engine_id = securityEngineID, ce_sec_model = securityModel, ce_sec_name = securityName,
                       ce_sec_level = securityLevel, ce_context_engine_id = contextEngineID, ce_context_name = contextName,
                       ce_sec_state_ref = securityStateReference, ce_error_code = SNMPv3_MP_OK, ce_local_request = True\<rparr>
                       (mp_cache s)) (\<lambda>(c, _). Some (s\<lparr>mp_cache := c\<rparr>, Inr msg)))))"

text \<open>A request gets a new id, and without an engine id it loses its bindings and its security; a response takes the id
  and the security state of its request, which leaves the cache.  The bindings removed from the caller's
  PDU are not given back.\<close>

definition v3MP_snmp_build ::
  "hashes \<Rightarrow> 'k ciphers \<Rightarrow> int \<Rightarrow> snmp_pdu \<Rightarrow> u64 \<Rightarrow> u8 list \<Rightarrow> int \<Rightarrow> u8 list \<Rightarrow> u8 list \<Rightarrow> int \<Rightarrow> int \<Rightarrow> u8 list \<Rightarrow>
   u8 list \<Rightarrow> v3mp \<Rightarrow> (v3mp \<times> (int + u8 list)) option" where
  "v3MP_snmp_build H cs now pdu msgid packet out_length securityEngineID securityName securityModel securityLevel
     contextEngineID contextName s = (
     if is_request (command pdu)
     then let first_contact = (securityEngineID = []);
         securityLevel = (if first_contact then SNMP_SECURITY_LEVEL_NOAUTH_NOPRIV else securityLevel);
         securityModel = (if first_contact then SNMP_SECURITY_MODEL_USM else securityModel);
         pdu = (if first_contact then clear_pdu pdu False else pdu);
         (s, msgID) = next_msg_id s
       in build_with_id H cs now pdu msgID None packet out_length securityEngineID securityName securityModel
            securityLevel contextEngineID contextName s
     else Option.bind (Cache_get_reference (to_int msgid) False (mp_cache s)) (\<lambda>(c, found).
       let s = s\<lparr>mp_cache := c\<rparr> in
       case found of Inl _ \<Rightarrow> Some (s, Inl SNMPv3_MP_MATCH_ERROR)
       | Inr (_, securityStateReference) \<Rightarrow>
           build_with_id H cs now pdu (to_int msgid) securityStateReference packet out_length securityEngineID securityName
             securityModel securityLevel contextEngineID contextName s))"

subsection \<open>Reports\<close>

text \<open>What \<open>snmp_parse_data_pdu\<close> has written to the command and the request id when it fails or not; \<open>send_report\<close> does not
  look at its result.  The other fields are set or not used afterwards, but their octets are read.\<close>

definition data_pdu_after :: "snmp_pdu \<Rightarrow> u8 list \<Rightarrow> int \<Rightarrow> snmp_pdu option" where
  "data_pdu_after pdu data l =
     (if snmp_parse_data_pdu pdu data l = None then None
      else Option.bind (asn_parse_header data l) (\<lambda>h. case h of Inl _ \<Rightarrow> Some pdu
     | Inr (data, l, type) \<Rightarrow>
         let pdu = pdu\<lparr>command := uint type\<rparr> in
         if command pdu = TRP_REQ_MSG then Some pdu
         else Option.bind (asn_parse_int data l) (\<lambda>r. case r of Inl _ \<Rightarrow> Some pdu
         | Inr (_, _, _, r) \<Rightarrow> Some (pdu\<lparr>reqid := r\<rparr>))))"

text \<open>The counter that a report carries, with the level, the model and the name it is sent with.\<close>

definition report_counter :: "int \<Rightarrow> int \<Rightarrow> int \<Rightarrow> u8 list \<Rightarrow> v3mp \<Rightarrow> u64 list \<times> u32 \<times> int \<times> int \<times> u8 list" where
  "report_counter errorCode sLevel sModel sName s = (
     let usm = (\<lambda>n. [1, 3, 6, 1, 6, 3, 15, 1, 1, n, 0]); mpd = (\<lambda>n. [1, 3, 6, 1, 6, 3, 11, 2, 1, n, 0]); st = mp_usm_stats s
     in if errorCode = SNMPv3_MP_INVALID_MESSAGE \<or> errorCode = SNMPv3_USM_PARSE_ERROR
     then (mpd 2, snmpInvalidMsgs s, sLevel, sModel, sName)
     else if errorCode = SNMPv3_USM_NOT_IN_TIME_WINDOW \<or> errorCode = SNMPv3_MP_NOT_IN_TIME_WINDOW
     then (usm 2, st_not_in_time_windows st, sLevel, sModel, sName)
     else if errorCode = SNMPv3_USM_DECRYPTION_ERROR
     then (usm 6, st_decryption_errors st, sLevel, sModel, sName)
     else if errorCode = SNMPv3_USM_AUTHENTICATION_ERROR \<or> errorCode = SNMPv3_USM_AUTHENTICATION_FAILURE
     then (usm 5, st_wrong_digests st, sLevel, sModel, sName)
     else if errorCode = SNMPv3_USM_UNKNOWN_ENGINEID \<or> errorCode = SNMPv3_MP_INVALID_ENGINEID
     then (usm 4, st_unknown_engine_ids st, sLevel, sModel, sName)
     else if errorCode = SNMPv3_MP_UNSUPPORTED_SECURITY_MODEL
     then (mpd 1, snmpUnknownSecurityModels s, SNMP_SECURITY_LEVEL_NOAUTH_NOPRIV, SNMP_SECURITY_MODEL_USM, sName)
     else if errorCode = SNMPv3_USM_UNKNOWN_SECURITY_NAME
     then (usm 3, st_unknown_user_names st, SNMP_SECURITY_LEVEL_NOAUTH_NOPRIV, sModel, sName)
     else if errorCode = SNMPv3_USM_UNSUPPORTED_SECURITY_LEVEL
     then (usm 1, st_unsupported_sec_levels st, SNMP_SECURITY_LEVEL_NOAUTH_NOPRIV, sModel, sName)
     else (mpd 2, snmpInvalidMsgs s, SNMP_SECURITY_LEVEL_NOAUTH_NOPRIV, SNMP_SECURITY_MODEL_USM, []))"

text \<open>\<open>scopedPDU\<close> is \<open>None\<close> when the length is \<open>MAX_SNMP_PACKET\<close>: there is no scoped PDU to look at.\<close>

definition report_source :: "u8 list option \<Rightarrow> int \<Rightarrow> snmp_pdu \<Rightarrow> (snmp_pdu \<times> u8 list \<times> u8 list) option" where
  "report_source scopedPDU scopedPDULength pdu = (case scopedPDU of
     None \<Rightarrow> Some (pdu\<lparr>reqid := 0\<rparr>, [], [])
   | Some scopedPDU \<Rightarrow>
       Option.bind (asn1_parse_scoped_pdu scopedPDU scopedPDULength (int (MAXLENGTH_ENGINEID + 1))
         (int (MAXLENGTH_CONTEXT_NAME + 1))) (\<lambda>r. case r of Inl _ \<Rightarrow> Some (pdu, [], [])
       | Inr (data, dataLength, cEngineID, cName) \<Rightarrow>
           Option.bind (data_pdu_after pdu data dataLength) (\<lambda>pdu. Some (pdu, cEngineID, cName))))"

definition send_report ::
  "hashes \<Rightarrow> 'k ciphers \<Rightarrow> int \<Rightarrow> u8 list option \<Rightarrow> int \<Rightarrow> snmp_pdu \<Rightarrow> u64 \<Rightarrow> int \<Rightarrow> int \<Rightarrow> int \<Rightarrow> u8 list \<Rightarrow> v3mp \<Rightarrow>
   (v3mp \<times> u8 list list) option" where
  "send_report H cs now scopedPDU scopedPDULength pdu msgid errorCode sLevel sModel sName s =
     Option.bind (report_source scopedPDU scopedPDULength pdu) (\<lambda>(pdu, cEngineID, cName).
     let pdu = (clear_pdu pdu False)\<lparr>errstat := 0, errindex := 0, command := REPORT_MSG\<rparr> in
     case report_counter errorCode sLevel sModel sName s of (counter, value, sLevel, sModel, sName) \<Rightarrow>
       Option.bind (snmp_add_var pdu counter (int (length counter)) (ucast SMI_COUNTER) (Smi_number (ucast value))) (\<lambda>pdu.
       Option.bind (v3MP_snmp_build H cs now pdu msgid (replicate MAX_SNMP_PACKET 0) (int MAX_SNMP_PACKET) (own_engine_id_oct s)
         sName sModel sLevel cEngineID cName s) (\<lambda>(s, r).
       Some (s, case r of Inl _ \<Rightarrow> [] | Inr msg \<Rightarrow> [msg]))))"

subsection \<open>Parsing a message\<close>

record v3_header =
  vh_msg_id :: u64
  vh_max_size :: u64
  vh_flags :: u8
  vh_security_model :: u64
  vh_parameters :: "u8 list"
  vh_position :: int
  vh_data :: "u8 list"

text \<open>Up to the security parameters; the data of the message is the rest of the packet.\<close>

definition no_null_mp :: "'a asn \<Rightarrow> (int + 'a) option" where
  "no_null_mp r = map_option (map_sum (\<lambda>_. SNMPv3_MP_PARSE_ERROR) id) r"

definition parse_v3_header :: "u8 list \<Rightarrow> int \<Rightarrow> (int + v3_header) option" where
  "parse_v3_header inBufPtr origLength = (
     if origLength > int MAX_SNMP_PACKET then Some (Inl SNMPv3_MP_ERROR)
     else on_ok (no_null_mp (asn_parse_header inBufPtr origLength)) (\<lambda>(inBuf, inBufLength, type).
     if type \<noteq> ASN_SEQ_CON then Some (Inl SNMPv3_MP_PARSE_ERROR)
     else if origLength \<noteq> inBufLength + (int (length inBufPtr) - int (length inBuf)) then Some (Inl SNMPv3_MP_PARSE_ERROR)
     else on_ok (no_null_mp (asn_parse_int inBuf inBufLength)) (\<lambda>(inBuf, inBufLength, _, version).
     if version \<noteq> SNMP_VERSION_3 then Some (Inl SNMPv3_MP_PARSE_ERROR)
     else on_ok (no_null_mp (asn1_parse_header_data inBuf inBufLength)) (\<lambda>(inBuf, inBufLength, msgID, msgMaxSize, msgFlags, msgSecurityModel).
     if sint msgMaxSize < 484 \<or> sint msgMaxSize > 0x7FFFFFFF then Some (Inl SNMPv3_MP_PARSE_ERROR)
     else on_ok (no_null_mp (asn_parse_string inBuf inBufLength origLength)) (\<lambda>(inBuf, _, _, msgSecurityParameters).
     let position = int (length inBufPtr) - int (length inBuf) in
     if position > origLength \<or> int (length inBufPtr) < origLength then None
     else Some (Inr \<lparr>vh_msg_id = msgID, vh_max_size = (if sint msgMaxSize > int MAX_SNMP_PACKET then of_nat MAX_SNMP_PACKET else msgMaxSize),
       vh_flags = hd msgFlags, vh_security_model = msgSecurityModel, vh_parameters = msgSecurityParameters,
       vh_position = position - int (length msgSecurityParameters), vh_data = take (nat (origLength - position)) inBuf\<rparr>))))))"

definition flags_level :: "u8 \<Rightarrow> int option" where
  "flags_level msgFlags = (
     if msgFlags AND 0x03 = 3 then Some SNMP_SECURITY_LEVEL_AUTH_PRIV
     else if msgFlags AND 0x03 = 0 then Some SNMP_SECURITY_LEVEL_NOAUTH_NOPRIV
     else if msgFlags AND 0x03 = 1 then Some SNMP_SECURITY_LEVEL_AUTH_NOPRIV
     else None)"

definition is_reportable :: "u8 \<Rightarrow> bool" where
  "is_reportable msgFlags \<longleftrightarrow> msgFlags AND SNMPv3_REPORTABLEFLAG \<noteq> 0"

text \<open>The error of the security model as that of the message; 0 is none.\<close>

definition security_error :: "int \<Rightarrow> u8 list \<Rightarrow> int" where
  "security_error rc securityEngineID = (
     let errorCode = (if rc = SNMPv3_USM_OK then 0
       else if rc = SNMPv3_USM_NOT_IN_TIME_WINDOW then SNMPv3_MP_NOT_IN_TIME_WINDOW else rc)
     in if errorCode \<noteq> SNMPv3_USM_PARSE_ERROR \<and> securityEngineID = [] then SNMPv3_MP_INVALID_ENGINEID else errorCode)"

text \<open>The received message as the out parameters give it to the caller.\<close>

record v3_message =
  vm_pdu :: snmp_pdu
  vm_msg_id :: u64
  vm_max_size :: u64
  vm_security_engine_id :: "u8 list"
  vm_security_name :: "u8 list"
  vm_context_engine_id :: "u8 list"
  vm_context_name :: "u8 list"
  vm_security_level :: int
  vm_security_model :: int

type_synonym parse_result = "(v3mp \<times> u8 list list \<times> (int + v3_message)) option"

text \<open>The entry for the request of a peer.\<close>

definition remote_entry :: "v3_message \<Rightarrow> u8 list \<Rightarrow> u8 list \<Rightarrow> sec_state_ref \<Rightarrow> int \<Rightarrow> cache_entry" where
  "remote_entry m contextEngineID contextName r errorCode = \<lparr>ce_msg_id = to_int (vm_msg_id m), ce_req_id = reqid (vm_pdu m),
     ce_sec_engine_id = vm_security_engine_id m, ce_sec_model = vm_security_model m, ce_sec_name = vm_security_name m,
     ce_sec_level = vm_security_level m, ce_context_engine_id = contextEngineID, ce_context_name = contextName,
     ce_sec_state_ref = Some r, ce_error_code = errorCode, ce_local_request = False\<rparr>"

text \<open>An error is reported to the sender, when it asks for reports.\<close>

definition report_error ::
  "hashes \<Rightarrow> 'k ciphers \<Rightarrow> int \<Rightarrow> bool \<Rightarrow> u8 list option \<Rightarrow> int \<Rightarrow> v3_message \<Rightarrow> int \<Rightarrow> int \<Rightarrow> sec_state_ref \<Rightarrow> v3mp \<Rightarrow> parse_result" where
  "report_error H cs now reportableFlag scopedPDU scopedPDULength m errorCode sLevel r s = (
     if reportableFlag \<and> errorCode \<noteq> SNMPv3_USM_PARSE_ERROR
     then Option.bind (Cache_add_entry (remote_entry m [] [] r errorCode) (mp_cache s)) (\<lambda>(c, _).
       Option.bind (send_report H cs now scopedPDU scopedPDULength (vm_pdu m) (vm_msg_id m) errorCode sLevel
         (vm_security_model m) (vm_security_name m) (s\<lparr>mp_cache := c\<rparr>)) (\<lambda>(s, sent).
       Some (s, sent, Inl errorCode)))
     else Some (s, [], Inl errorCode))"

text \<open>The PDU of a message without security error.\<close>

definition parse_scoped ::
  "snmp_pdu \<Rightarrow> u8 list \<Rightarrow> int \<Rightarrow> (int + snmp_pdu \<times> int \<times> u8 list \<times> u8 list) option" where
  "parse_scoped pdu scopedPDU scopedPDULength =
     on_ok (no_null_mp (asn1_parse_scoped_pdu scopedPDU scopedPDULength (int MAXLENGTH_ENGINEID) (int MAXLENGTH_CONTEXT_NAME)))
       (\<lambda>(data, dataLength, contextEngineID, contextName).
     on_ok (no_null_mp (snmp_parse_data_pdu pdu data dataLength)) (\<lambda>(pdu, data, l).
     on_ok (no_null_mp (snmp_parse_vb pdu data l)) (\<lambda>pdu.
     Some (Inr (pdu, dataLength, contextEngineID, contextName)))))"

text \<open>Responses and reports belong to a request of this engine.\<close>

definition report_mismatch :: "v3_message \<Rightarrow> cache_entry \<Rightarrow> bool" where
  "report_mismatch m e \<longleftrightarrow> vm_security_model m \<noteq> ce_sec_model e \<and> vm_security_model m \<noteq> SNMP_SECURITY_MODEL_USM \<or>
     vm_security_name m \<noteq> ce_sec_name e \<and> vm_security_name m \<noteq> []"

definition response_mismatch :: "v3_message \<Rightarrow> cache_entry \<Rightarrow> bool" where
  "response_mismatch m e \<longleftrightarrow> vm_security_engine_id m \<noteq> ce_sec_engine_id e \<and> ce_sec_engine_id e \<noteq> [] \<or>
     vm_security_model m \<noteq> ce_sec_model e \<or> vm_security_name m \<noteq> ce_sec_name e \<or>
     vm_security_level m \<noteq> ce_sec_level e \<or>
     vm_context_engine_id m \<noteq> ce_context_engine_id e \<and> ce_context_engine_id e \<noteq> [] \<or>
     vm_context_name m \<noteq> ce_context_name e \<and> ce_context_name e \<noteq> []"

definition accept_response :: "v3_message \<Rightarrow> v3mp \<Rightarrow> parse_result" where
  "accept_response m s =
     Option.bind (Cache_get_entry (to_int (vm_msg_id m)) True (mp_cache s)) (\<lambda>(c, found).
     let s = s\<lparr>mp_cache := c\<rparr> in
     case found of Inl _ \<Rightarrow>
       Some (s\<lparr>snmpUnknownPDUHandlers := snmpUnknownPDUHandlers s + 1\<rparr>, [], Inl SNMPv3_MP_UNKNOWN_PDU_HANDLERS)
     | Inr e \<Rightarrow>
         let pdu = vm_pdu m;
             m = (if (reqid pdu = 0 \<or> reqid pdu = 0x7fffffff) \<and> command pdu = REPORT_MSG
               then m\<lparr>vm_pdu := pdu\<lparr>reqid := ce_req_id e\<rparr>\<rparr> else m)
         in if command pdu = REPORT_MSG
         then Some (s, [], if report_mismatch m e then Inl SNMPv3_MP_MATCH_ERROR else Inr m)
         else Some (s, [], if response_mismatch m e then Inl SNMPv3_MP_MATCH_ERROR else Inr m))"

text \<open>Requests of other engines: this one is authoritative.  The result of \<open>add_entry\<close> for a doubled message only stops a
  leak; the message is accepted again.\<close>

definition accept_request ::
  "hashes \<Rightarrow> 'k ciphers \<Rightarrow> int \<Rightarrow> bool \<Rightarrow> v3_message \<Rightarrow> sec_state_ref \<Rightarrow> v3mp \<Rightarrow> parse_result" where
  "accept_request H cs now reportableFlag m r s = (
     if vm_security_engine_id m \<noteq> [] \<and> \<not> unsignedCharCompare (vm_security_engine_id m) (own_engine_id s)
     then if discovery_mode (mp_usm s)
       then report_error H cs now reportableFlag None (int MAX_SNMP_PACKET) m SNMPv3_MP_INVALID_ENGINEID SNMP_SECURITY_LEVEL_NOAUTH_NOPRIV r s
       else Some (s, [], Inl SNMPv3_MP_MATCH_ERROR)
     else Option.bind (Cache_add_entry (remote_entry m (vm_context_engine_id m) (vm_context_name m) r SNMPv3_MP_OK) (mp_cache s))
       (\<lambda>(c, _). Some (s\<lparr>mp_cache := c\<rparr>, [], Inr m)))"

definition accept_message ::
  "hashes \<Rightarrow> 'k ciphers \<Rightarrow> int \<Rightarrow> bool \<Rightarrow> v3_message \<Rightarrow> sec_state_ref \<Rightarrow> v3mp \<Rightarrow> parse_result" where
  "accept_message H cs now reportableFlag m r s = (
     let cmd = command (vm_pdu m) in
     if cmd = GET_RSP_MSG \<or> cmd = REPORT_MSG then accept_response m s
     else if is_confirmed cmd then accept_request H cs now reportableFlag m r s
     else if cmd = TRP_REQ_MSG \<or> cmd = TRP2_REQ_MSG then Some (s, [], Inr m)
     else Some (s, [], Inl SNMPv3_MP_ERROR))"

text \<open>The security model has returned \<open>rc\<close> in the state \<open>ms\<close>.  After a failed decryption \<open>scopedPDULength\<close> is
  \<open>MAX_SNMP_PACKET\<close>.\<close>

definition after_security ::
  "hashes \<Rightarrow> 'k ciphers \<Rightarrow> int \<Rightarrow> bool \<Rightarrow> int \<Rightarrow> v3_message \<Rightarrow> msg_state \<Rightarrow> v3mp \<Rightarrow> parse_result" where
  "after_security H cs now reportableFlag errorCode m ms s = (
     let scopedPDULength = int (ms_scoped_length ms);
         seen = (\<lambda>l. if l = int MAX_SNMP_PACKET then None else Some (ms_scoped_pdu ms))
     in if errorCode \<noteq> 0
     then report_error H cs now reportableFlag (seen scopedPDULength) scopedPDULength m errorCode (vm_security_level m) (ms_ref ms) s
     else Option.bind (parse_scoped (vm_pdu m) (ms_scoped_pdu ms) scopedPDULength) (\<lambda>parsed.
       case parsed of Inl rc \<Rightarrow> Some (s, [], Inl rc)
       | Inr (pdu, dataLength, contextEngineID, contextName) \<Rightarrow>
           let m = m\<lparr>vm_pdu := pdu, vm_context_engine_id := contextEngineID, vm_context_name := contextName\<rparr> in
           if contextEngineID = [] \<and> is_request (command pdu)
           then report_error H cs now reportableFlag (seen dataLength) dataLength m SNMPv3_MP_UNKNOWN_PDU_HANDLERS
             (vm_security_level m) (ms_ref ms) (s\<lparr>snmpUnknownPDUHandlers := snmpUnknownPDUHandlers s + 1\<rparr>)
           else accept_message H cs now reportableFlag m (ms_ref ms) s))"

text \<open>The reference that \<open>get_new_sec_state_reference\<close> makes, and the out parameters before they are written.\<close>

definition new_sec_state_reference :: sec_state_ref where
  "new_sec_state_reference = \<lparr>ssr_msg_user_name = [], ssr_security_name = None, ssr_security_engine_id = [],
     ssr_auth_protocol = 0, ssr_auth_key = [], ssr_priv_protocol = 0, ssr_priv_key = [], ssr_security_level = 0\<rparr>"

definition initial_msg_state :: "u8 list \<Rightarrow> v3mp \<Rightarrow> msg_state" where
  "initial_msg_state wholeMsg s = \<lparr>ms_usm = mp_usm s, ms_stats = mp_usm_stats s, ms_whole_msg = wholeMsg,
     ms_security_engine_id = [], ms_security_name = [], ms_scoped_pdu = [], ms_scoped_length = MAX_SNMP_PACKET,
     ms_max_size = 0, ms_ref = new_sec_state_reference\<rparr>"

definition received_message :: "snmp_pdu \<Rightarrow> v3_header \<Rightarrow> int \<Rightarrow> msg_state \<Rightarrow> v3_message" where
  "received_message pdu h securityLevel ms = \<lparr>vm_pdu = pdu, vm_msg_id = vh_msg_id h, vm_max_size = word_of_int (ms_max_size ms),
     vm_security_engine_id = ms_security_engine_id ms, vm_security_name = ms_security_name ms,
     vm_context_engine_id = [], vm_context_name = [], vm_security_level = securityLevel,
     vm_security_model = SNMP_SECURITY_MODEL_USM\<rparr>"

definition v3MP_snmp_parse ::
  "hashes \<Rightarrow> 'k ciphers \<Rightarrow> int \<Rightarrow> snmp_pdu \<Rightarrow> u8 list \<Rightarrow> int \<Rightarrow> v3mp \<Rightarrow> parse_result" where
  "v3MP_snmp_parse H cs now pdu inBuf inBufLength s =
     Option.bind (parse_v3_header inBuf inBufLength) (\<lambda>parsed.
     case parsed of Inl rc \<Rightarrow> Some (s, [], Inl rc)
     | Inr h \<Rightarrow> (case flags_level (vh_flags h) of
         None \<Rightarrow> Some (s\<lparr>snmpInvalidMsgs := snmpInvalidMsgs s + 1\<rparr>, [], Inl SNMPv3_MP_INVALID_MESSAGE)
       | Some securityLevel \<Rightarrow>
           if sint (vh_security_model h) \<noteq> SNMP_SECURITY_MODEL_USM
           then Some (s\<lparr>snmpUnknownSecurityModels := snmpUnknownSecurityModels s + 1\<rparr>, [], Inl SNMPv3_MP_UNSUPPORTED_SECURITY_MODEL)
           else Option.bind (process_msg H cs (uint (vh_max_size h)) (vh_parameters h) (int (length (vh_parameters h)))
               (vh_position h) securityLevel (vh_data h) (int (length (vh_data h))) now
               (initial_msg_state (take (nat inBufLength) inBuf) s)) (\<lambda>(ms, rc).
             after_security H cs now (is_reportable (vh_flags h)) (security_error rc (ms_security_engine_id ms))
               (received_message pdu h securityLevel ms) ms (s\<lparr>mp_usm := ms_usm ms, mp_usm_stats := ms_stats ms\<rparr>))))"

end
