(* ===== verification/Mp_Lemmas.thy ===== *)
theory Mp_Lemmas
  imports Mp_V3 Usm_Security
begin

section \<open>The tables and the state of the message processing model\<close>

text \<open>
  What the operations on the cache and on the engine ids do with the entries, the invariant of the state, and how it goes
  through the building and the parsing of a message.
\<close>

subsection \<open>Cache\<close>

definition cache_ok :: "cache_table \<Rightarrow> bool" where
  "cache_ok t \<longleftrightarrow> table_ok t \<and> entries t < max_entries t"

lemma cache_ok_create: "cache_ok Cache_create" "live Cache_create = []"
  using new_table_ok [of 5] by (simp_all add: cache_ok_def Cache_create_def new_table_def)

lemma cache_add_cases:
  assumes "cache_ok t"
  obtains (doubled) "Cache_add_entry e t = Some (t, SNMPv3_MP_DOUBLED_MESSAGE)" and "\<exists>x\<in>set (live t). same_entry e x"
  | (added) t' where "Cache_add_entry e t = Some (t', SNMPv3_MP_OK)" and "cache_ok t'" and "live t' = live t @ [e]"
      and "\<forall>x\<in>set (live t). \<not> same_entry e x"
proof (cases "first_index (same_entry e) (live t)")
  case None
  then obtain t' where "push_then_grow 2 e t = Some t'" "table_ok t'" "live t' = live t @ [e]" "entries t' < max_entries t'"
    using push_then_grow_ok [of t 2 e] assms by (auto simp: cache_ok_def)
  moreover from this have "Cache_add_entry e t = Some (t', SNMPv3_MP_OK)"
    using None assms by (simp add: Cache_add_entry_def cache_ok_def find_entry_live)
  ultimately show ?thesis using added None by (simp add: first_index_None cache_ok_def)
next
  case (Some i)
  then have "\<exists>x\<in>set (live t). same_entry e x" using first_index_SomeD [OF Some] nth_mem by blast
  then show ?thesis using doubled Some assms by (auto simp: Cache_add_entry_def cache_ok_def find_entry_live)
qed

lemma cache_take_cases:
  assumes "cache_ok t"
  obtains (absent) "Cache_take P t = Some (t, None)" and "\<forall>e\<in>set (live t). \<not> P e"
  | (taken) t' e where "Cache_take P t = Some (t', Some e)" and "cache_ok t'" and "e \<in> set (live t)" and "P e"
      and "mset (live t') = mset (live t) - {#e#}"
proof (cases "first_index P (live t)")
  case None
  then have "Cache_take P t = Some (t, None)" using assms by (simp add: Cache_take_def cache_ok_def find_entry_live)
  then show ?thesis using absent None by (simp add: first_index_None)
next
  case (Some i)
  note f = first_index_SomeD [OF Some]
  have t: "table_ok t" "entries t < max_entries t" "i < entries t" using assms f(1) by (simp_all add: cache_ok_def length_live)
  obtain t' where d: "drop_entry i t = Some t'" "table_ok t'" "live t' = move_last i (live t)" "entries t' = entries t - 1"
    "max_entries t' = max_entries t" using drop_entry_ok [OF t(1, 3)] by blast
  moreover have "mset (live t') = mset (live t) - {#live t ! i#}" using mset_move_last [OF f(1)] d(3) by simp
  ultimately show ?thesis using taken [of t' "live t ! i"] Some f t
    by (auto simp: Cache_take_def find_entry_live slot_live cache_ok_def)
qed

lemma live_taken: "mset xs = mset ys - {#e#} \<Longrightarrow> set xs \<subseteq> set ys"
  by (metis diff_subset_eq_self mset_subset_eqD set_mset_mset subsetI)

subsection \<open>Engine ids\<close>

text \<open>There is room for one more entry, and what a search by address finds.\<close>

definition engine_ids_ok :: "engine_id_table \<Rightarrow> bool" where
  "engine_ids_ok t \<longleftrightarrow> table_ok (ei_table t) \<and> entries (ei_table t) < max_entries (ei_table t)"

definition engine_at :: "engine_entry list \<Rightarrow> u8 list \<Rightarrow> int \<Rightarrow> u8 list option" where
  "engine_at es host port = map_option ee_engine_id (List.find (\<lambda>e. ee_port e = port \<and> ee_host e = host) es)"

lemma engine_ids_ok_create: "engine_ids_ok (EngineIdTable_create n)"
  by (simp add: engine_ids_ok_def EngineIdTable_create_def new_table_ok) (simp add: new_table_def)

lemma get_entry_eq:
  assumes "engine_ids_ok t"
  shows "EngineIdTable_get_entry host port t =
    Some (case engine_at (live (ei_table t)) host port of None \<Rightarrow> Inl SNMPv3_MP_ERROR | Some engine_id \<Rightarrow> Inr engine_id)"
  using assms by (auto simp: EngineIdTable_get_entry_def engine_ids_ok_def find_value_live engine_at_def split: option.split)

lemma engine_add_cases:
  assumes "engine_ids_ok t"
  obtains (full) "int (entries (ei_table t)) \<ge> ei_upper_limit_entries t"
      and "EngineIdTable_add_entry engine_id host port t = Some (t, SNMPv3_MP_ERROR)"
  | (new) t' where "int (entries (ei_table t)) < ei_upper_limit_entries t"
      and "\<forall>e\<in>set (live (ei_table t)). \<not> (ee_port e = port \<and> ee_host e = host \<or> ee_engine_id e = engine_id)"
      and "EngineIdTable_add_entry engine_id host port t = Some (t', SNMPv3_MP_OK)" and "engine_ids_ok t'"
      and "live (ei_table t') = live (ei_table t) @ [\<lparr>ee_engine_id = engine_id, ee_host = host, ee_port = port\<rparr>]"
  | (replaced) t' i where "int (entries (ei_table t)) < ei_upper_limit_entries t"
      and "i < length (live (ei_table t))"
      and "let e = live (ei_table t) ! i in ee_port e = port \<and> ee_host e = host \<or> ee_engine_id e = engine_id"
      and "\<forall>j<i. let e = live (ei_table t) ! j in \<not> (ee_port e = port \<and> ee_host e = host \<or> ee_engine_id e = engine_id)"
      and "EngineIdTable_add_entry engine_id host port t = Some (t', SNMPv3_MP_OK)" and "engine_ids_ok t'"
      and "live (ei_table t') = (live (ei_table t))[i := \<lparr>ee_engine_id = engine_id, ee_host = host, ee_port = port\<rparr>]"
proof (cases "int (entries (ei_table t)) \<ge> ei_upper_limit_entries t")
  case True
  then show ?thesis using full assms by (auto simp: EngineIdTable_add_entry_def engine_ids_ok_def)
next
  case False
  let ?P = "\<lambda>e. ee_port e = port \<and> ee_host e = host \<or> ee_engine_id e = engine_id"
  let ?e = "\<lparr>ee_engine_id = engine_id, ee_host = host, ee_port = port\<rparr>"
  have ok: "table_ok (ei_table t)" "entries (ei_table t) < max_entries (ei_table t)" using assms by (simp_all add: engine_ids_ok_def)
  show ?thesis
  proof (cases "first_index ?P (live (ei_table t))")
    case None
    obtain tb where "push_then_grow 2 ?e (ei_table t) = Some tb" "table_ok tb" "live tb = live (ei_table t) @ [?e]"
      "entries tb < max_entries tb" using push_then_grow_ok [OF ok, of 2 ?e] by auto
    then show ?thesis using new [of "t\<lparr>ei_table := tb\<rparr>"] None False ok
      by (simp add: EngineIdTable_add_entry_def engine_ids_ok_def find_entry_live first_index_None)
  next
    case (Some i)
    note f = first_index_SomeD [OF Some]
    have i: "i < entries (ei_table t)" using f(1) ok(1) by (simp add: length_live)
    obtain tb where "set_slot i ?e (ei_table t) = Some tb" "table_ok tb" "live tb = (live (ei_table t))[i := ?e]"
      "entries tb = entries (ei_table t)" "max_entries tb = max_entries (ei_table t)" using set_slot_ok [OF ok(1) i] by blast
    then show ?thesis using replaced [of i "t\<lparr>ei_table := tb\<rparr>"] Some False ok f
      by (simp add: EngineIdTable_add_entry_def engine_ids_ok_def find_entry_live Let_def)
  qed
qed

subsection \<open>The invariant\<close>

text \<open>What \<open>add_entry\<close> compares.\<close>

definition entry_key where
  "entry_key e = (ce_msg_id e, ce_req_id e, ce_local_request e, ce_sec_engine_id e, ce_sec_model e, ce_sec_name e,
     ce_sec_level e, ce_context_engine_id e, ce_context_name e)"

lemma same_entry_iff: "same_entry new e \<longleftrightarrow> entry_key e = entry_key new"
  by (simp add: same_entry_def entry_key_def)

text \<open>The tables have room for one more entry, no entry of the cache occurs twice, and the next message id is below
  \<open>MAX_MPMSGID\<close>.\<close>

definition mp_ok :: "v3mp \<Rightarrow> bool" where
  "mp_ok s \<longleftrightarrow> cache_ok (mp_cache s) \<and> distinct (map entry_key (live (mp_cache s))) \<and> engine_ids_ok (mp_engine_ids s) \<and>
     cur_msg_id s < MAX_MPMSGID"

definition cache_fine :: "cache_table \<Rightarrow> bool" where
  "cache_fine t \<longleftrightarrow> cache_ok t \<and> distinct (map entry_key (live t))"

lemma mp_ok_iff:
  "mp_ok s \<longleftrightarrow> cache_fine (mp_cache s) \<and> engine_ids_ok (mp_engine_ids s) \<and> cur_msg_id s < MAX_MPMSGID"
  by (auto simp: mp_ok_def cache_fine_def)

lemma cache_fine_add:
  assumes "cache_fine t" and "Cache_add_entry e t = Some (t', rc)"
  shows "cache_fine t'"
proof -
  have "cache_ok t" using assms(1) by (simp add: cache_fine_def)
  then show ?thesis
  proof (cases rule: cache_add_cases [where e = e])
    case doubled
    then show ?thesis using assms by simp
  next
    case (added t2)
    then show ?thesis using assms by (auto simp: cache_fine_def same_entry_iff)
  qed
qed

lemma distinct_map_submset:
  assumes "mset xs \<subseteq># mset ys" and "distinct (map f ys)"
  shows "distinct (map f xs)"
proof -
  obtain zs where "mset ys = mset (xs @ zs)"
    using assms(1) by (metis ex_mset mset_append mset_subset_eq_exists_conv)
  then have "mset (map f ys) = mset (map f (xs @ zs))" by simp
  then show ?thesis using assms(2) mset_eq_imp_distinct_iff by (metis distinct_append map_append)
qed

lemma cache_fine_take:
  assumes "cache_fine t" and "Cache_take P t = Some (t', r)"
  shows "cache_fine t'"
proof -
  have "cache_ok t" using assms(1) by (simp add: cache_fine_def)
  then show ?thesis
  proof (cases rule: cache_take_cases [where P = P])
    case absent
    then show ?thesis using assms by simp
  next
    case (taken t2 e)
    have "mset (live t2) \<subseteq># mset (live t)" unfolding taken(5) by (rule diff_subset_eq_self)
    moreover have "distinct (map entry_key (live t))" using assms(1) by (simp add: cache_fine_def)
    ultimately have "distinct (map entry_key (live t2))" by (rule distinct_map_submset)
    then show ?thesis using taken assms by (simp add: cache_fine_def)
  qed
qed

lemma cache_fine_get: "cache_fine t \<Longrightarrow> Cache_get_entry i l t = Some (t', r) \<Longrightarrow> cache_fine t'"
  by (auto simp: Cache_get_entry_def bind_eq_Some_iff dest: cache_fine_take)

lemma cache_fine_reference: "cache_fine t \<Longrightarrow> Cache_get_reference i l t = Some (t', r) \<Longrightarrow> cache_fine t'"
  by (auto simp: Cache_get_reference_def bind_eq_Some_iff dest: cache_fine_take)

lemmas cache_fine_keeps = cache_fine_add cache_fine_get cache_fine_reference

lemma mp_ok_frame [simp]:
  "mp_ok (s\<lparr>mp_usm := u\<rparr>) = mp_ok s" "mp_ok (s\<lparr>mp_usm_stats := st\<rparr>) = mp_ok s"
  "mp_ok (s\<lparr>snmpUnknownSecurityModels := a\<rparr>) = mp_ok s" "mp_ok (s\<lparr>snmpInvalidMsgs := b\<rparr>) = mp_ok s"
  "mp_ok (s\<lparr>snmpUnknownPDUHandlers := c\<rparr>) = mp_ok s"
  by (simp_all add: mp_ok_def)

lemma mp_ok_cache: "mp_ok s \<Longrightarrow> mp_ok (s\<lparr>mp_cache := t\<rparr>) \<longleftrightarrow> cache_fine t"
  by (auto simp: mp_ok_iff)

lemma mp_ok_fine: "mp_ok s \<Longrightarrow> cache_fine (mp_cache s)"
  by (simp add: mp_ok_iff)

subsection \<open>Preservation\<close>

lemma mp_ok_next_id: "mp_ok s \<Longrightarrow> mp_ok (fst (next_msg_id s))"
  by (auto simp: mp_ok_iff next_msg_id_def Let_def MAX_MPMSGID_def)

text \<open>The entry of a request that was sent.\<close>

definition local_entry :: "int \<Rightarrow> snmp_pdu \<Rightarrow> sec_state_ref option \<Rightarrow> u8 list \<Rightarrow> u8 list \<Rightarrow> int \<Rightarrow> int \<Rightarrow> u8 list \<Rightarrow> u8 list \<Rightarrow> cache_entry" where
  "local_entry msgID pdu r e name model level ce cn = \<lparr>ce_msg_id = msgID, ce_req_id = reqid pdu,
     ce_sec_engine_id = e, ce_sec_model = model, ce_sec_name = name, ce_sec_level = level, ce_context_engine_id = ce,
     ce_context_name = cn, ce_sec_state_ref = r, ce_error_code = SNMPv3_MP_OK, ce_local_request = True\<rparr>"

lemma build_with_id_cases:
  assumes "build_with_id H cs now pdu msgID r packet n e name model level ce cn s = Some (s', x)"
  obtains (failed) rc u where "x = Inl rc" and "s' = s\<lparr>mp_usm := u\<rparr>"
  | (built) scopedPDU globalData u msg c where "build_scoped pdu n ce cn = Some (Inr scopedPDU)"
      and "build_global msgID n (message_flags level (command pdu)) model = Some (Inr globalData)"
      and "model = SNMP_SECURITY_MODEL_USM"
      and "generate_msg H cs globalData n (if uses_own_engine (command pdu) then own_engine_id_oct s else e) name level
        scopedPDU r now packet (mp_usm s) = Some (u, Inr msg)"
      and "x = Inr msg" and "s' = s\<lparr>mp_usm := u, mp_cache := c\<rparr>"
      and "if uses_own_engine (command pdu) then c = mp_cache s
        else (\<exists>rc. Cache_add_entry (local_entry msgID pdu r e name model level ce cn) (mp_cache s) = Some (c, rc))"
proof -
  obtain scoped where sc: "build_scoped pdu n ce cn = Some scoped"
    using assms by (auto simp: build_with_id_def bind_eq_Some_iff)
  show ?thesis
  proof (cases scoped)
    case (Inl rc)
    then show ?thesis using assms sc failed [of _ "mp_usm s"] by (auto simp: build_with_id_def)
  next
    case (Inr scopedPDU)
    then obtain global where g: "build_global msgID n (message_flags level (command pdu)) model = Some global"
      using assms sc by (auto simp: build_with_id_def bind_eq_Some_iff)
    show ?thesis
    proof (cases global)
      case (Inl rc)
      then show ?thesis using assms sc g Inr failed [of _ "mp_usm s"] by (auto simp: build_with_id_def)
    next
      case g': (Inr globalData)
      let ?gen = "generate_msg H cs globalData n (if uses_own_engine (command pdu) then own_engine_id_oct s else e) name level
          scopedPDU r now packet (mp_usm s)"
      show ?thesis
      proof (cases "model = SNMP_SECURITY_MODEL_USM")
        case False
        then show ?thesis using assms sc g Inr g' failed [of _ "mp_usm s"] by (auto simp: build_with_id_def)
      next
        case True
        then obtain u y where u: "?gen = Some (u, y)"
          using assms sc g Inr g' by (cases ?gen) (auto simp: build_with_id_def)
        show ?thesis
        proof (cases y)
          case (Inl rc)
          then show ?thesis using assms sc g \<open>scoped = _\<close> g' True u failed [of rc u] by (auto simp: build_with_id_def Let_def)
        next
          case (Inr msg)
          show ?thesis
          proof (cases "uses_own_engine (command pdu)")
            case own: True
            then have "x = Inr msg" "s' = s\<lparr>mp_usm := u\<rparr>"
              using assms sc g \<open>scoped = _\<close> g' True u Inr by (auto simp: build_with_id_def Let_def)
            moreover from this have "s' = s\<lparr>mp_usm := u, mp_cache := mp_cache s\<rparr>" by simp
            ultimately show ?thesis
              using built [OF sc [unfolded \<open>scoped = _\<close>] g [unfolded g'] True u [unfolded Inr]] own by simp
          next
            case False
            then obtain c rc where "Cache_add_entry (local_entry msgID pdu r e name model level ce cn) (mp_cache s) = Some (c, rc)"
              "x = Inr msg" "s' = s\<lparr>mp_usm := u, mp_cache := c\<rparr>"
              using assms sc g \<open>scoped = _\<close> g' True u Inr
              by (auto simp: build_with_id_def Let_def local_entry_def bind_eq_Some_iff)
            then show ?thesis
              using built [OF sc [unfolded \<open>scoped = _\<close>] g [unfolded g'] True u [unfolded Inr]] False by auto
          qed
        qed
      qed
    qed
  qed
qed

lemma mp_ok_build_with_id:
  assumes "mp_ok s" and "build_with_id H cs now pdu msgID r packet n e name model level ce cn s = Some (s', x)"
  shows "mp_ok s'"
  using assms(2)
proof (cases rule: build_with_id_cases)
  case failed
  then show ?thesis using assms(1) by simp
next
  case (built scopedPDU globalData u msg c)
  then have "cache_fine c" using cache_fine_add mp_ok_fine [OF assms(1)] by (auto split: if_splits)
  then show ?thesis using built(6) assms(1) by (simp add: mp_ok_cache)
qed

lemma mp_ok_build:
  assumes "mp_ok s" and "v3MP_snmp_build H cs now pdu i packet n e name model level ce cn s = Some (s', x)"
  shows "mp_ok s'"
proof (cases "is_request (command pdu)")
  case True
  then show ?thesis using assms mp_ok_next_id [OF assms(1)]
    by (auto simp: v3MP_snmp_build_def Let_def split_def elim!: mp_ok_build_with_id [rotated])
next
  case False
  then obtain c found where c: "Cache_get_reference (to_int i) False (mp_cache s) = Some (c, found)"
    using assms(2) by (auto simp: v3MP_snmp_build_def bind_eq_Some_iff)
  then have "mp_ok (s\<lparr>mp_cache := c\<rparr>)"
    using cache_fine_reference [OF mp_ok_fine [OF assms(1)]] assms(1) by (simp add: mp_ok_cache)
  then show ?thesis using assms(2) False c
    by (cases found) (auto simp: v3MP_snmp_build_def Let_def elim!: mp_ok_build_with_id [rotated])
qed

lemma mp_ok_send_report:
  assumes "mp_ok s" and "send_report H cs now sp l pdu i rc level model name s = Some (s', sent)"
  shows "mp_ok s'"
proof -
  obtain c v l2 m2 n2 where r: "report_counter rc level model name s = (c, v, l2, m2, n2)" by (cases "report_counter rc level model name s")
  show ?thesis using assms(2) mp_ok_build [OF assms(1)] unfolding send_report_def r
    by (auto simp: bind_eq_Some_iff Let_def)
qed

lemma mp_ok_report_error:
  assumes "mp_ok s" and "report_error H cs now flag sp l m rc level r s = Some (s', sent, x)"
  shows "mp_ok s'"
proof (cases "flag \<and> rc \<noteq> SNMPv3_USM_PARSE_ERROR")
  case True
  then obtain c d where c: "Cache_add_entry (remote_entry m [] [] r rc) (mp_cache s) = Some (c, d)"
    and "send_report H cs now sp l (vm_pdu m) (vm_msg_id m) rc level (vm_security_model m) (vm_security_name m)
      (s\<lparr>mp_cache := c\<rparr>) = Some (s', sent)"
    using assms(2) by (auto simp: report_error_def bind_eq_Some_iff)
  moreover have "mp_ok (s\<lparr>mp_cache := c\<rparr>)"
    using cache_fine_add [OF mp_ok_fine [OF assms(1)] c] assms(1) by (simp add: mp_ok_cache)
  ultimately show ?thesis using mp_ok_send_report by blast
next
  case False
  then show ?thesis using assms by (auto simp: report_error_def)
qed

lemma mp_ok_accept_message:
  assumes "mp_ok s" and "accept_message H cs now flag m r s = Some (s', sent, x)"
  shows "mp_ok s'"
proof -
  note keep = cache_fine_keeps [OF mp_ok_fine [OF assms(1)]]
  have "mp_ok s'" if a: "accept_response m s = Some (s', sent, x)"
  proof -
    obtain c found where c: "Cache_get_entry (to_int (vm_msg_id m)) True (mp_cache s) = Some (c, found)"
      using a by (auto simp: accept_response_def bind_eq_Some_iff)
    then have "s' = s\<lparr>mp_cache := c\<rparr> \<or> s' = s\<lparr>mp_cache := c, snmpUnknownPDUHandlers := snmpUnknownPDUHandlers s + 1\<rparr>"
      using a by (cases found) (auto simp: accept_response_def Let_def split: if_splits)
    moreover have "mp_ok (s\<lparr>mp_cache := c\<rparr>)" using keep(2) [OF c] assms(1) by (simp add: mp_ok_cache)
    ultimately show ?thesis by auto
  qed
  moreover have "mp_ok s'" if "accept_request H cs now flag m r s = Some (s', sent, x)"
  proof -
    have "mp_ok s' \<or> (\<exists>c d. Cache_add_entry (remote_entry m (vm_context_engine_id m) (vm_context_name m) r SNMPv3_MP_OK) (mp_cache s) =
        Some (c, d) \<and> s' = s\<lparr>mp_cache := c\<rparr>)"
      using that assms(1) mp_ok_report_error [OF assms(1)] by (auto simp: accept_request_def bind_eq_Some_iff split: if_splits)
    then show ?thesis using keep(1) assms(1) by (auto simp: mp_ok_cache)
  qed
  ultimately show ?thesis using assms by (auto simp: accept_message_def Let_def split: if_splits)
qed

lemma mp_ok_after_security:
  assumes "mp_ok s" and "after_security H cs now flag rc m ms s = Some (s', sent, x)"
  shows "mp_ok s'"
proof (cases "rc = 0")
  case False
  then show ?thesis using assms mp_ok_report_error [OF assms(1)] by (simp add: after_security_def Let_def)
next
  case True
  then obtain p where p: "parse_scoped (vm_pdu m) (ms_scoped_pdu ms) (int (ms_scoped_length ms)) = Some p"
    using assms(2) by (auto simp: after_security_def Let_def bind_eq_Some_iff)
  show ?thesis
  proof (cases p)
    case (Inl e)
    then show ?thesis using assms True p by (simp add: after_security_def Let_def)
  next
    case (Inr q)
    have "mp_ok (s\<lparr>snmpUnknownPDUHandlers := snmpUnknownPDUHandlers s + 1\<rparr>)" using assms(1) by simp
    note keep = mp_ok_report_error [OF this] mp_ok_accept_message [OF assms(1)]
    show ?thesis using assms True p Inr
      by (cases q) (auto simp: after_security_def Let_def split: if_splits dest: keep)
  qed
qed

lemma mp_ok_parse:
  assumes "mp_ok s" and "v3MP_snmp_parse H cs now pdu inBuf n s = Some (s', sent, x)"
  shows "mp_ok s'"
proof -
  obtain p where p: "parse_v3_header inBuf n = Some p" using assms(2) by (auto simp: v3MP_snmp_parse_def bind_eq_Some_iff)
  have "mp_ok (s\<lparr>mp_usm := u, mp_usm_stats := st\<rparr>)" for u st using assms(1) by simp
  note keep = mp_ok_after_security [OF this]
  show ?thesis using assms p
    by (cases p) (auto simp: v3MP_snmp_parse_def bind_eq_Some_iff split: option.splits if_splits dest: keep)
qed

end
