(* ===== verification/Mp_Receive.thy ===== *)
theory Mp_Receive
  imports Mp_Lemmas
begin

section \<open>Messages that are accepted\<close>

text \<open>
  What a message has passed when \<open>v3MP::snmp_parse\<close> returns \<open>SNMPv3_MP_OK\<close>: the header, the security model, the scoped PDU and the
  cache.
\<close>

subsection \<open>The results of the security model\<close>

lemma auth_at_rc: "auth_at H ap prot key msg pos n = Some (msg', rc) \<Longrightarrow> rc \<noteq> 0"
proof -
  have "auth_auth_inc_msg H a key msg p n = Some (msg', rc) \<Longrightarrow> rc \<noteq> 0" for a p
    by (cases a) (auto simp: AuthMD5_auth_inc_msg_def AuthSHABase_auth_inc_msg_def check_digest_def bind_eq_Some_iff usm_results
        split: if_splits)
  then show "auth_at H ap prot key msg pos n = Some (msg', rc) \<Longrightarrow> rc \<noteq> 0"
    by (auto simp: auth_at_def auth_inc_msg_def usm_results split: if_splits option.splits)
qed

lemma authenticate_rc: "authenticate H level now user sp pos s = Some (Inl (s', rc)) \<Longrightarrow> rc \<noteq> 0"
  by (auto simp: authenticate_def bind_eq_Some_iff Let_def usm_results split: if_splits dest: auth_at_rc)

lemma process_user_rc:
  assumes "process_user H cs mx level now user sp pos msgData n s = Some (s', rc)"
  shows "rc \<noteq> 0"
proof (cases "level > SNMP_SECURITY_LEVEL_NOAUTH_NOPRIV \<and> ue_auth_protocol user = SNMP_AUTHPROTOCOL_NONE \<or>
    level = SNMP_SECURITY_LEVEL_AUTH_PRIV \<and> ue_priv_protocol user = SNMP_PRIVPROTOCOL_NONE")
  case True
  then show ?thesis using assms by (auto simp: process_user_def usm_results)
next
  case False
  note body = assms [unfolded process_user_def if_not_P [OF False]]
  obtain a where a: "authenticate H level now user sp pos s = Some a" using body by (auto simp: bind_eq_Some_iff)
  show ?thesis
  proof (cases a)
    case (Inl d)
    then show ?thesis using body a authenticate_rc by (cases d) auto
  next
    case (Inr q)
    then obtain s1 late d where d: "q = (s1, late)" "decrypt_data cs level late user sp msgData n s1 = Some d"
      using body a by (cases q) (auto simp: bind_eq_Some_iff)
    then show ?thesis using body a Inr by (cases d) (auto simp: usm_results split: if_splits dest: decrypt_data_Inl)
  qed
qed

lemma parse_sec_params_rc: "parse_sec_params ps n = Some (Inl rc) \<Longrightarrow> rc = SNMPv3_USM_PARSE_ERROR"
  unfolding parse_sec_params_def Let_def
  by (auto simp: no_null_def on_ok_def split: option.splits sum.splits if_splits)

text \<open>A result that is not 0, through the combinators of the model.\<close>

definition nonzero :: "('s \<times> int) option \<Rightarrow> bool" where
  "nonzero r \<longleftrightarrow> (\<forall>s rc. r = Some (s, rc) \<longrightarrow> rc \<noteq> 0)"

lemma nonzero_return: "rc \<noteq> 0 \<Longrightarrow> nonzero (Some (s, rc))"
  by (simp add: nonzero_def)

lemma nonzero_bind: "(\<And>x. m = Some x \<Longrightarrow> nonzero (f x)) \<Longrightarrow> nonzero (Option.bind m f)"
  by (cases m) (simp_all add: nonzero_def)

lemma nonzero_prod: "(\<And>a b. p = (a, b) \<Longrightarrow> nonzero (g a b)) \<Longrightarrow> nonzero (case p of (a, b) \<Rightarrow> g a b)"
  by (cases p) simp

lemma nonzero_sum:
  "(\<And>a. q = Inl a \<Longrightarrow> nonzero (h a)) \<Longrightarrow> (\<And>b. q = Inr b \<Longrightarrow> nonzero (k b)) \<Longrightarrow> nonzero (case_sum h k q)"
  by (cases q) simp_all

lemma nonzero_option: "nonzero c \<Longrightarrow> (\<And>v. w = Some v \<Longrightarrow> nonzero (d v)) \<Longrightarrow> nonzero (case_option c d w)"
  by (cases w) simp_all

lemma nonzero_if: "(P \<Longrightarrow> nonzero x) \<Longrightarrow> (\<not> P \<Longrightarrow> nonzero y) \<Longrightarrow> nonzero (if P then x else y)"
  by simp

lemma nonzero_None: "nonzero None"
  by (simp add: nonzero_def)

lemmas nonzero_rules = nonzero_if nonzero_option nonzero_sum nonzero_prod nonzero_bind nonzero_None nonzero_return

lemma process_msg_rc:
  assumes "process_msg H cs mx ps pn pos level msgData n now s = Some (s', rc)"
  shows "rc \<noteq> 0"
proof -
  have user: "nonzero (process_user H cs mx level now user sp p msgData n t)" for user sp p t
    unfolding nonzero_def by (blast dest: process_user_rc)
  have "nonzero (process_msg H cs mx ps pn pos level msgData n now s)"
    unfolding process_msg_def Let_def
    by (intro nonzero_rules user) (auto simp: usm_results dest!: parse_sec_params_rc)
  then show ?thesis using assms by (auto simp: nonzero_def)
qed

subsection \<open>Accepted messages\<close>

lemma security_error_0: "rc \<noteq> 0 \<Longrightarrow> security_error rc e = 0 \<longleftrightarrow> rc = SNMPv3_USM_OK \<and> e \<noteq> []"
  by (simp add: security_error_def Let_def usm_results mp_results)

lemma report_error_rejects: "report_error H cs now flag sp l m rc level r s \<noteq> Some (s', sent, Inr m')"
  by (auto simp: report_error_def bind_eq_Some_iff)

lemma parse_accepted:
  assumes "v3MP_snmp_parse H cs now pdu inBuf n s = Some (s', sent, Inr m)"
  obtains h level ms q l ce cn where "parse_v3_header inBuf n = Some (Inr h)" and "flags_level (vh_flags h) = Some level"
    and "process_msg H cs (uint (vh_max_size h)) (vh_parameters h) (int (length (vh_parameters h))) (vh_position h) level
      (vh_data h) (int (length (vh_data h))) now (initial_msg_state (take (nat n) inBuf) s) = Some (ms, SNMPv3_USM_OK)"
    and "ms_security_engine_id ms \<noteq> []"
    and "parse_scoped pdu (ms_scoped_pdu ms) (int (ms_scoped_length ms)) = Some (Inr (q, l, ce, cn))"
    and "\<not> (ce = [] \<and> is_request (command q))"
    and "accept_message H cs now (is_reportable (vh_flags h)) ((received_message pdu h level ms)\<lparr>vm_pdu := q,
      vm_context_engine_id := ce, vm_context_name := cn\<rparr>) (ms_ref ms) (s\<lparr>mp_usm := ms_usm ms, mp_usm_stats := ms_stats ms\<rparr>) =
      Some (s', sent, Inr m)"
proof -
  obtain p where p: "parse_v3_header inBuf n = Some p" using assms by (auto simp: v3MP_snmp_parse_def bind_eq_Some_iff)
  then obtain h where h: "p = Inr h" using assms by (cases p) (auto simp: v3MP_snmp_parse_def)
  obtain level where level: "flags_level (vh_flags h) = Some level"
    using assms p h by (cases "flags_level (vh_flags h)") (auto simp: v3MP_snmp_parse_def)
  have "sint (vh_security_model h) = SNMP_SECURITY_MODEL_USM"
    using assms p h level by (auto simp: v3MP_snmp_parse_def split: if_splits)
  then obtain ms rc where ms: "process_msg H cs (uint (vh_max_size h)) (vh_parameters h) (int (length (vh_parameters h)))
      (vh_position h) level (vh_data h) (int (length (vh_data h))) now (initial_msg_state (take (nat n) inBuf) s) = Some (ms, rc)"
    and a: "after_security H cs now (is_reportable (vh_flags h)) (security_error rc (ms_security_engine_id ms))
      (received_message pdu h level ms) ms (s\<lparr>mp_usm := ms_usm ms, mp_usm_stats := ms_stats ms\<rparr>) = Some (s', sent, Inr m)"
    using assms p h level by (auto simp: v3MP_snmp_parse_def bind_eq_Some_iff)
  have z: "security_error rc (ms_security_engine_id ms) = 0"
    using a by (auto simp: after_security_def Let_def report_error_rejects split: if_splits)
  then have ok: "rc = SNMPv3_USM_OK" "ms_security_engine_id ms \<noteq> []" using security_error_0 [OF process_msg_rc [OF ms]] by simp_all
  have pdu: "vm_pdu (received_message pdu h level ms) = pdu" by (simp add: received_message_def)
  obtain r where r: "parse_scoped pdu (ms_scoped_pdu ms) (int (ms_scoped_length ms)) = Some r"
    using a z pdu by (auto simp: after_security_def Let_def bind_eq_Some_iff)
  obtain q l ce cn where q: "r = Inr (q, l, ce, cn)"
    using a z pdu r by (cases r) (auto simp: after_security_def Let_def)
  have "\<not> (ce = [] \<and> is_request (command q))"
    using a z pdu r q by (auto simp: after_security_def Let_def report_error_rejects split: if_splits)
  then show ?thesis using that [OF p [unfolded h] level ms [unfolded ok(1)] ok(2) r [unfolded q]] a z pdu r q
    by (auto simp: after_security_def Let_def)
qed

text \<open>What the acceptance adds: it sends nothing, and it only replaces the request id of a report.\<close>

lemma accepted_message:
  assumes "accept_message H cs now flag m r s = Some (s', sent, Inr m')"
  obtains (answer) c e where "command (vm_pdu m) \<in> {GET_RSP_MSG, REPORT_MSG}" and "sent = []"
      and "Cache_get_entry (to_int (vm_msg_id m)) True (mp_cache s) = Some (c, Inr e)" and "s' = s\<lparr>mp_cache := c\<rparr>"
      and "m' = m \<or> command (vm_pdu m) = REPORT_MSG \<and> m' = m\<lparr>vm_pdu := (vm_pdu m)\<lparr>reqid := ce_req_id e\<rparr>\<rparr>"
      and "command (vm_pdu m) = GET_RSP_MSG \<Longrightarrow> \<not> response_mismatch m e"
      and "command (vm_pdu m) = REPORT_MSG \<Longrightarrow> \<not> report_mismatch m e"
  | (request) c rc where "is_confirmed (command (vm_pdu m))" and "sent = []" and "m' = m"
      and "vm_security_engine_id m = [] \<or> vm_security_engine_id m = own_engine_id s"
      and "Cache_add_entry (remote_entry m (vm_context_engine_id m) (vm_context_name m) r SNMPv3_MP_OK) (mp_cache s) = Some (c, rc)"
      and "s' = s\<lparr>mp_cache := c\<rparr>"
  | (notification) "command (vm_pdu m) \<in> {TRP_REQ_MSG, TRP2_REQ_MSG}" and "sent = []" and "m' = m" and "s' = s"
proof -
  let ?cmd = "command (vm_pdu m)"
  consider (a) "?cmd \<in> {GET_RSP_MSG, REPORT_MSG}" | (b) "is_confirmed ?cmd" "?cmd \<notin> {GET_RSP_MSG, REPORT_MSG}"
    | (c) "?cmd \<in> {TRP_REQ_MSG, TRP2_REQ_MSG}" "\<not> is_confirmed ?cmd" "?cmd \<notin> {GET_RSP_MSG, REPORT_MSG}"
    using assms by (auto simp: accept_message_def Let_def split: if_splits)
  then show ?thesis
  proof cases
    case a
    then have r: "accept_response m s = Some (s', sent, Inr m')" using assms by (auto simp: accept_message_def Let_def)
    obtain c found where c: "Cache_get_entry (to_int (vm_msg_id m)) True (mp_cache s) = Some (c, found)"
      using r by (auto simp: accept_response_def bind_eq_Some_iff)
    then obtain e where e: "found = Inr e" using r by (cases found) (auto simp: accept_response_def Let_def)
    have mm: "report_mismatch (m\<lparr>vm_pdu := x\<rparr>) e = report_mismatch m e" "response_mismatch (m\<lparr>vm_pdu := x\<rparr>) e = response_mismatch m e" for x
      by (simp_all add: report_mismatch_def response_mismatch_def)
    have "sent = []" "s' = s\<lparr>mp_cache := c\<rparr>" using r c e by (auto simp: accept_response_def Let_def split: if_splits)
    moreover have "m' = m \<or> ?cmd = REPORT_MSG \<and> m' = m\<lparr>vm_pdu := (vm_pdu m)\<lparr>reqid := ce_req_id e\<rparr>\<rparr>"
      "?cmd = GET_RSP_MSG \<Longrightarrow> \<not> response_mismatch m e" "?cmd = REPORT_MSG \<Longrightarrow> \<not> report_mismatch m e"
      using r c e mm by (auto simp: accept_response_def Let_def pdu_kinds split: if_splits)
    ultimately show ?thesis using answer [OF a _ c [unfolded e]] by blast
  next
    case b
    then have r: "accept_request H cs now flag m r s = Some (s', sent, Inr m')" using assms by (auto simp: accept_message_def Let_def)
    show ?thesis
    proof (cases "vm_security_engine_id m = [] \<or> vm_security_engine_id m = own_engine_id s")
      case True
      then obtain c rc where c: "Cache_add_entry (remote_entry m (vm_context_engine_id m) (vm_context_name m) r SNMPv3_MP_OK) (mp_cache s) =
          Some (c, rc)" "sent = []" "m' = m" "s' = s\<lparr>mp_cache := c\<rparr>"
        using r by (auto simp: accept_request_def bind_eq_Some_iff)
      show ?thesis by (rule request [OF b(1) c(2, 3) True c(1, 4)])
    next
      case False
      then show ?thesis using r by (auto simp: accept_request_def report_error_rejects split: if_splits)
    qed
  next
    case c
    then have "sent = []" "m' = m" "s' = s" using assms by (auto simp: accept_message_def Let_def)
    then show ?thesis by (intro notification [OF c(1)])
  qed
qed

end
