(* ===== verification/Mp_Engine.thy ===== *)
theory Mp_Engine
  imports Mp_Receive
begin

section \<open>The life of a message processing model\<close>

text \<open>
  The steps an entity takes on its \<open>v3MP\<close>: it builds messages, parses what it receives, adds and removes engine ids, gives up
  requests, and manages its users in between.  The invariant \<open>mp_ok\<close> holds in every state that is reached.
\<close>

inductive mp_step :: "hashes \<Rightarrow> 'k ciphers \<Rightarrow> v3mp \<Rightarrow> v3mp \<Rightarrow> bool" for H cs where
  build: "v3MP_snmp_build H cs now pdu i packet n e name model level ce cn s = Some (s', r) \<Longrightarrow> mp_step H cs s s'"
| parse: "v3MP_snmp_parse H cs now pdu inBuf n s = Some (s', sent, r) \<Longrightarrow> mp_step H cs s s'"
| add_engine: "EngineIdTable_add_entry e host port (mp_engine_ids s) = Some (t, rc) \<Longrightarrow> mp_step H cs s (s\<lparr>mp_engine_ids := t\<rparr>)"
| delete_engine: "EngineIdTable_delete_entry e (mp_engine_ids s) = Some (t, rc) \<Longrightarrow> mp_step H cs s (s\<lparr>mp_engine_ids := t\<rparr>)"
| delete_address: "EngineIdTable_delete_address host port (mp_engine_ids s) = Some (t, rc) \<Longrightarrow> mp_step H cs s (s\<lparr>mp_engine_ids := t\<rparr>)"
| reset_engines: "mp_step H cs s (s\<lparr>mp_engine_ids := fst (EngineIdTable_reset (mp_engine_ids s))\<rparr>)"
| limit: "mp_step H cs s (s\<lparr>mp_engine_ids := set_cache_size_limit n (mp_engine_ids s)\<rparr>)"
| remove_engine: "v3MP_remove_engine_id e s = Some (s', rc) \<Longrightarrow> mp_step H cs s s'"
| give_up: "Cache_delete_entry r l (mp_cache s) = Some t \<Longrightarrow> mp_step H cs s (s\<lparr>mp_cache := t\<rparr>)"
| give_up_message: "Cache_delete_message r i l (mp_cache s) = Some t \<Longrightarrow> mp_step H cs s (s\<lparr>mp_cache := t\<rparr>)"
| manage: "mp_step H cs s (s\<lparr>mp_usm := u\<rparr>)"

abbreviation mp_steps :: "hashes \<Rightarrow> 'k ciphers \<Rightarrow> v3mp \<Rightarrow> v3mp \<Rightarrow> bool" where
  "mp_steps H cs \<equiv> (mp_step H cs)\<^sup>*\<^sup>*"

subsection \<open>The start\<close>

text \<open>The constructors of \<open>USM\<close> and of \<open>v3MP\<close>: the tables are empty, and the message ids start in the range of this boot.  The
  salt of the privacy protocols is random.\<close>

definition USM_create :: "u32 \<Rightarrow> u8 list \<Rightarrow> u64 \<Rightarrow> int \<Rightarrow> (usm \<times> u32) option" where
  "USM_create engine_boots engine_id random now =
     Option.bind (USMTimeTable_create engine_id (uint engine_boots) now) (\<lambda>tt.
     Some (\<lparr>usm_time_table = tt, usm_user_name_table = new_table 10, usm_user_table = new_table 10,
       usm_auth_priv = fst (add_default_modules (AuthPriv_create random)), local_snmp_engine_id = engine_id,
       discovery_mode = True\<rparr>, push_bit 16 (engine_boots AND 0x7FFF)))"

definition v3MP_create :: "u8 list \<Rightarrow> u32 \<Rightarrow> u64 \<Rightarrow> int \<Rightarrow> v3mp option" where
  "v3MP_create snmpEngineID engineBoots random now =
     Option.bind (USM_create engineBoots snmpEngineID random now) (\<lambda>(u, msgID).
     Some \<lparr>mp_engine_ids = EngineIdTable_create 10, mp_cache = Cache_create, mp_usm = u,
       mp_usm_stats = \<lparr>st_unsupported_sec_levels = 0, st_not_in_time_windows = 0, st_unknown_user_names = 0,
         st_unknown_engine_ids = 0, st_wrong_digests = 0, st_decryption_errors = 0\<rparr>,
       own_engine_id = take MAXLENGTH_ENGINEID snmpEngineID, own_engine_id_oct = snmpEngineID,
       cur_msg_id = (if msgID \<ge> MAX_MPMSGID then 1 else msgID),
       snmpUnknownSecurityModels = 0, snmpInvalidMsgs = 0, snmpUnknownPDUHandlers = 0\<rparr>)"

lemma mp_ok_create: "v3MP_create engine_id boots random now = Some s \<Longrightarrow> mp_ok s"
  using cache_ok_create engine_ids_ok_create
  by (auto simp: mp_ok_def v3MP_create_def MAX_MPMSGID_def bind_eq_Some_iff)

subsection \<open>The invariant goes through the steps\<close>

lemma engine_ids_ok_delete:
  assumes "engine_ids_ok t" and "EngineIdTable_delete_where P t = Some (t', rc)"
  shows "engine_ids_ok t'"
proof -
  have ok: "table_ok (ei_table t)" "entries (ei_table t) < max_entries (ei_table t)" using assms(1) by (simp_all add: engine_ids_ok_def)
  show ?thesis
  proof (cases "first_index P (live (ei_table t))")
    case None
    then show ?thesis using assms ok by (auto simp: EngineIdTable_delete_where_def find_entry_live)
  next
    case (Some i)
    have "i < entries (ei_table t)" using first_index_SomeD(1) [OF Some] ok(1) by (simp add: length_live)
    then obtain tb where "drop_entry i (ei_table t) = Some tb" "table_ok tb" "entries tb = entries (ei_table t) - 1"
      "max_entries tb = max_entries (ei_table t)" using drop_entry_ok [OF ok(1)] by blast
    then show ?thesis using assms ok Some by (auto simp: EngineIdTable_delete_where_def find_entry_live engine_ids_ok_def)
  qed
qed

lemma engine_ids_ok_add:
  assumes "engine_ids_ok t" and "EngineIdTable_add_entry e host port t = Some (t', rc)"
  shows "engine_ids_ok t'"
  using assms(1)
proof (cases rule: engine_add_cases [where engine_id = e and host = host and port = port])
  case full
  then show ?thesis using assms by simp
next
  case (new t2)
  then show ?thesis using assms(2) by simp
next
  case (replaced t2 i)
  then show ?thesis using assms(2) by simp
qed

lemma engine_ids_ok_reset: "engine_ids_ok t \<Longrightarrow> engine_ids_ok (fst (EngineIdTable_reset t))"
  by (auto simp: EngineIdTable_reset_def engine_ids_ok_def table_ok_def)

lemma mp_ok_engine_ids: "mp_ok s \<Longrightarrow> mp_ok (s\<lparr>mp_engine_ids := t\<rparr>) \<longleftrightarrow> engine_ids_ok t"
  by (auto simp: mp_ok_iff)

lemma cache_fine_delete:
  "cache_fine t \<Longrightarrow> Cache_delete_entry r l t = Some t' \<Longrightarrow> cache_fine t'"
  "cache_fine t \<Longrightarrow> Cache_delete_message r i l t = Some t' \<Longrightarrow> cache_fine t'"
  by (auto simp: Cache_delete_entry_def Cache_delete_message_def dest: cache_fine_take)

lemma mp_step_keeps: "mp_step H cs s s' \<Longrightarrow> mp_ok s \<Longrightarrow> mp_ok s'"
proof (induction rule: mp_step.induct)
  case build
  then show ?case by (blast intro: mp_ok_build)
next
  case parse
  then show ?case by (blast intro: mp_ok_parse)
next
  case (remove_engine e s s' rc)
  then obtain t u r1 where "EngineIdTable_delete_entry e (mp_engine_ids s) = Some (t, r1)" "s' = s\<lparr>mp_engine_ids := t, mp_usm := u\<rparr>"
    by (auto simp: v3MP_remove_engine_id_def bind_eq_Some_iff)
  then show ?case using remove_engine(2) engine_ids_ok_delete
    by (auto simp: mp_ok_iff EngineIdTable_delete_entry_def)
next
  case (limit s n)
  then show ?case by (auto simp: mp_ok_iff set_cache_size_limit_def engine_ids_ok_def)
next
  case (reset_engines s)
  then show ?case by (simp add: mp_ok_engine_ids engine_ids_ok_reset mp_ok_iff)
next
  case (add_engine e host port s t rc)
  then show ?case using engine_ids_ok_add by (auto simp: mp_ok_iff)
next
  case (delete_engine e s t rc)
  then show ?case using engine_ids_ok_delete by (auto simp: mp_ok_iff EngineIdTable_delete_entry_def)
next
  case (delete_address host port s t rc)
  then show ?case using engine_ids_ok_delete by (auto simp: mp_ok_iff EngineIdTable_delete_address_def)
next
  case (give_up r l s t)
  then show ?case using cache_fine_delete(1) by (auto simp: mp_ok_iff)
next
  case (give_up_message r i l s t)
  then show ?case using cache_fine_delete(2) by (auto simp: mp_ok_iff)
next
  case (manage s u)
  then show ?case by simp
qed

lemma mp_steps_keep: "mp_steps H cs s s' \<Longrightarrow> mp_ok s \<Longrightarrow> mp_ok s'"
  by (induction rule: rtranclp_induct) (auto intro: mp_step_keeps)

end
