(* ===== verification/Mp_Delivery.thy ===== *)
theory Mp_Delivery
  imports Mp_Receive Usm_Delivery Snmp_V3 Snmp_Roundtrip
begin

section \<open>Version 3 messages on their way\<close>

text \<open>
  The octets that \<open>v3MP::snmp_build\<close> writes, and what \<open>v3MP::snmp_parse\<close> of another engine makes of them: the header and the security
  parameters, the message that the security model delivers, and the scoped PDU with its bindings.
\<close>

subsection \<open>The parts of a message\<close>

lemma build_scoped_bytes:
  assumes ok: "pdu_ok pdu" and short: "length ce \<le> 32" "length cn \<le> 32"
    and built: "build_scoped pdu (int MAX_SNMP_PACKET) ce cn = Some (Inr x)"
  shows "x = scoped_bytes ce cn (pdu_bytes pdu)" and "length x \<le> MAX_SNMP_PACKET"
    and "\<forall>vb\<in>set (variables pdu). length (var_inner vb) \<le> MAX_SNMP_PACKET"
proof -
  let ?vbs = "ber_obj ASN_SEQ_CON (vars_bytes (variables pdu))" and ?n = "int MAX_SNMP_PACKET"
  obtain b k where vb: "build_vb pdu (replicate MAX_SNMP_PACKET 0, 0) ?n = Some (Inr (b, k))"
    using built by (auto simp: build_scoped_def local_buffer_def elim!: on_ok_InrE)
  have "\<forall>vb\<in>set (variables pdu). vb_ok vb" using ok by (simp add: pdu_ok_def)
  note v = build_vb_cases [OF this _ vb]
  have b: "take k b = ?vbs" "length b = MAX_SNMP_PACKET"
    using v(1-3) by (simp_all add: take_written_0 length_written)
  obtain b2 k2 where d: "build_data_pdu pdu (local_buffer MAX_SNMP_PACKET) ?n ?vbs = Some (Inr (b2, k2))"
    using built vb b by (auto simp: build_scoped_def local_buffer_def elim!: on_ok_InrE)
  note dd = build_data_pdu_cases [OF ok d]
  have p: "take k2 b2 = pdu_bytes pdu" using dd(1) by (simp add: pdu_bytes_def)
  obtain b3 k3 l where s: "asn1_build_scoped_pdu (b, 0) ?n ce (int (length ce)) cn (int (length cn)) (pdu_bytes pdu) =
      Some (Inr ((b3, k3), l))" and x: "x = take k3 b3"
    using built vb b d p by (auto simp: build_scoped_def local_buffer_def elim!: on_ok_InrE)
  have o: "length (ber_obj t c) \<le> 4 + length c" if "length c < 65536" for t c
    using that by (simp add: length_ber_obj ber_len_def)
  have n: "length (scoped_names ce cn) \<le> 72" using short o [of ce ASN_OCTET_STR] o [of cn ASN_OCTET_STR] by (simp add: scoped_names_def)
  have h: "length (ASN_SEQ_CON # ber_len m) \<le> 10" for m by (simp add: ber_len_def)
  have ne: "pdu_bytes pdu \<noteq> []" by (simp add: pdu_bytes_def ber_obj_def)
  have e: "asn1_build_scoped_pdu (b, 0) ?n ce (int (length ce)) cn (int (length cn)) (pdu_bytes pdu) =
    (if length (scoped_names ce cn @ pdu_bytes pdu) \<le> MAX_SNMP_PACKET \<and> 0 + length (scoped_bytes ce cn (pdu_bytes pdu)) \<le> length b
     then Some (Inr ((written b 0 (scoped_bytes ce cn (pdu_bytes pdu)), 0 + length (scoped_bytes ce cn (pdu_bytes pdu))),
       ?n - int (length (scoped_names ce cn) + length (ASN_SEQ_CON # ber_len (length (scoped_names ce cn @ pdu_bytes pdu))))))
     else None)"
    using n h [of "length (scoped_names ce cn @ pdu_bytes pdu)"] b(2) ne
    by (intro build_scoped_pdu_eq) (simp_all add: MAX_SNMP_PACKET_def)
  show "x = scoped_bytes ce cn (pdu_bytes pdu)" "length x \<le> MAX_SNMP_PACKET"
    using s e x b(2) by (auto simp: take_written_0 split: if_splits)
  show "\<forall>vb\<in>set (variables pdu). length (var_inner vb) \<le> MAX_SNMP_PACKET" by (rule v(4)) simp
qed

lemma build_global_bytes:
  "build_global i n f model =
    Some (Inr (ber_obj ASN_SEQ_CON (header_fields (word_of_int i) (word_of_int n) f (word_of_int model))))"
proof -
  let ?h = "ber_obj ASN_SEQ_CON (header_fields (word_of_int i) (word_of_int n) f (word_of_int model))"
  have "length ?h \<le> MAXLENGTH_GLOBALDATA"
    using length_header_fields [of "word_of_int i" "word_of_int n" f "word_of_int model"]
    by (simp add: length_ber_obj ber_len_def MAXLENGTH_GLOBALDATA_def)
  then show ?thesis
    by (simp add: build_global_def local_buffer_fit [OF builds_header_data] take_written_0)
qed

lemma header_back:
  assumes "level \<in> {1, 2, 3}"
  shows "flags_level (message_flags level cmd) = Some level" and "is_reportable (message_flags level cmd) = is_confirmed cmd"
  using assms by (auto simp: flags_level_def message_flags_def level_flags_def is_reportable_def mp_flags usm_protocols)

subsection \<open>Parsing them again\<close>

lemma parse_v3_header_bytes:
  fixes i f sp msgData
  defines "msg \<equiv> whole_bytes (ber_obj ASN_SEQ_CON (header_fields i (of_nat MAX_SNMP_PACKET) f 3)) sp msgData"
  assumes len: "length msg \<le> MAX_SNMP_PACKET"
  shows "parse_v3_header msg (int (length msg)) = Some (Inr \<lparr>vh_msg_id = i, vh_max_size = of_nat MAX_SNMP_PACKET, vh_flags = f,
    vh_security_model = 3, vh_parameters = sec_bytes sp,
    vh_position = int (length msg) - int (length msgData) - int (length (sec_bytes sp)), vh_data = msgData\<rparr>)"
proof -
  let ?g = "ber_obj ASN_SEQ_CON (header_fields i (of_nat MAX_SNMP_PACKET) f 3)" and ?s = "ber_obj ASN_OCTET_STR (sec_bytes sp)"
  let ?c = "int_obj 3 @ ?g @ ?s @ msgData"
  have msg: "msg = ber_obj ASN_SEQ_CON ?c" by (simp add: msg_def whole_bytes_def whole_content_def)
  have small: "int (length msg) < 2 ^ 31" using len by (simp add: MAX_SNMP_PACKET_def)
  then have inner: "int (length (int_obj 3)) + (int (length ?g) + (int (length ?s) + int (length msgData))) < 2 ^ 31"
    by (simp add: msg length_ber_obj)
  have h: "asn_parse_header msg (int (length msg)) = Some (Inr (?c, int (length ?c), ASN_SEQ_CON))"
    using small parse_header [of ASN_SEQ_CON ?c "int (length msg)" "[]"]
    by (simp add: msg ASN_SEQ_CON_def ASN_EXTENSION_ID_def)
  have v: "asn_parse_int ?c (int (length ?c)) =
      Some (Inr (?g @ ?s @ msgData, int (length (?g @ ?s @ msgData)), ASN_INTEGER, 3))"
    using inner by (subst parse_int_obj) simp_all
  have g: "asn1_parse_header_data (?g @ ?s @ msgData) (int (length (?g @ ?s @ msgData))) =
      Some (Inr (?s @ msgData, int (length (?s @ msgData)), i, of_nat MAX_SNMP_PACKET, [f], 3))"
    using inner by (subst parsesD [OF parses_header_data]) simp_all
  have "length (sec_bytes sp) \<le> length msg" by (simp add: msg length_ber_obj)
  moreover have "ASN_OCTET_STR \<in> string_types" by (simp add: string_types_def ASN_OCTET_STR_def)
  ultimately have s: "asn_parse_string (?s @ msgData) (int (length (?s @ msgData))) (int (length msg)) =
      Some (Inr (msgData, int (length msgData), ASN_OCTET_STR, sec_bytes sp))"
    using inner by (subst parsesD [OF parses_string]) simp_all
  have e: "int (length ?c) + (int (length msg) - int (length ?c)) = int (length msg)" by simp
  have m: "sint (of_nat MAX_SNMP_PACKET :: u64) = 4096" by (simp add: MAX_SNMP_PACKET_def)
  have k: "length msgData \<le> length msg" "SNMP_VERSION_3 = 3" by (simp_all add: msg length_ber_obj SNMP_VERSION_3_def)
  have p: "int (length msg) - int (length msgData) \<le> int (length msg)"
    "nat (int (length msg) - (int (length msg) - int (length msgData))) = length msgData" by simp_all
  show ?thesis
    using len k
    by (simp only: parse_v3_header_def h no_null_mp_def option.map map_sum.simps on_ok_simps prod.case id_apply v g s e m k(2) Let_def)
      (simp add: MAX_SNMP_PACKET_def)
qed

lemma parse_scoped_bytes:
  assumes ok: "pdu_ok pdu" and small: "\<forall>vb\<in>set (variables pdu). length (var_inner vb) \<le> MAX_SNMP_PACKET"
    and into: "length (agent_addr into) = 4" and names: "length ce \<le> 32" "length cn \<le> 32"
    and d: "int (length (scoped_bytes ce cn (pdu_bytes pdu))) \<le> d" "d < 2 ^ 31"
  shows "parse_scoped into (scoped_bytes ce cn (pdu_bytes pdu) @ rest) d =
    Some (Inr (received_pdu into pdu, int (length (pdu_bytes pdu)), ce, cn))"
proof -
  let ?bs = "vars_bytes (variables pdu)"
  have s: "asn1_parse_scoped_pdu (scoped_bytes ce cn (pdu_bytes pdu) @ rest) d (int MAXLENGTH_ENGINEID) (int MAXLENGTH_CONTEXT_NAME) =
      Some (Inr (pdu_bytes pdu @ rest, int (length (pdu_bytes pdu)), ce, cn))"
    using names d by (intro parse_scoped_pdu) (simp_all add: MAXLENGTH_ENGINEID_def MAXLENGTH_CONTEXT_NAME_def)
  have len: "int (length (pdu_bytes pdu)) < 2 ^ 31" using d by (simp add: scoped_bytes_def length_ber_obj)
  have p: "snmp_parse_data_pdu into (pdu_bytes pdu @ rest) (int (length (pdu_bytes pdu))) =
      Some (Inr ((received_pdu into pdu)\<lparr>variables := variables into\<rparr>, ber_obj ASN_SEQ_CON ?bs @ rest,
        int (length (ber_obj ASN_SEQ_CON ?bs))))"
    using len by (intro parse_data_pdu_bytes [OF ok into]) simp_all
  have vlen: "int (length (ber_obj ASN_SEQ_CON ?bs)) < 2 ^ 31" using len by (simp add: pdu_bytes_def length_ber_obj)
  have vh: "asn_parse_header (ber_obj ASN_SEQ_CON ?bs @ rest) (int (length (ber_obj ASN_SEQ_CON ?bs))) =
      Some (Inr (?bs @ rest, int (length ?bs), ASN_SEQ_CON))"
    using vlen by (intro parse_header) (simp_all add: ASN_SEQ_CON_def ASN_EXTENSION_ID_def)
  have "parse_vars (?bs @ rest) (int (length ?bs)) = Some (Inr (map received (variables pdu), rest, 0))"
    using ok small vlen by (intro parse_vars_bytes) (simp_all add: pdu_ok_def length_ber_obj)
  then have v: "snmp_parse_vb q (ber_obj ASN_SEQ_CON ?bs @ rest) (int (length (ber_obj ASN_SEQ_CON ?bs))) =
      Some (Inr (q\<lparr>variables := map received (variables pdu)\<rparr>))" for q
    by (simp add: snmp_parse_vb_def vh)
  have r: "(received_pdu into pdu)\<lparr>variables := map received (variables pdu)\<rparr> = received_pdu into pdu"
    by (simp add: received_pdu_def Let_def)
  show ?thesis by (simp add: parse_scoped_def no_null_mp_def s p v r)
qed

text \<open>The DES protocols add zeros.\<close>

lemma delivered_padded:
  assumes "level = SNMP_SECURITY_LEVEL_AUTH_PRIV \<Longrightarrow> get_priv (ue_priv_protocol user) ap \<noteq> None"
  obtains k where "delivered_pdu ap level user x = x @ replicate k 0" and "k < 8"
proof (cases "level = SNMP_SECURITY_LEVEL_AUTH_PRIV")
  case True
  then obtain p where p: "get_priv (ue_priv_protocol user) ap = Some p" using assms by auto
  let ?k = "if length x mod 8 = 0 then 0 else 8 - length x mod 8"
  have "?k < 8" by simp
  then show ?thesis using that [of ?k] that [of 0] True p by (cases p) (simp_all add: delivered_pdu_def zero_padded_def)
next
  case False
  then show ?thesis using that [of 0] by (simp add: delivered_pdu_def)
qed

subsection \<open>The whole way\<close>

text \<open>The message that the receiver takes apart, before it is accepted.\<close>

definition arrived :: "snmp_pdu \<Rightarrow> u64 \<Rightarrow> u64 \<Rightarrow> u8 list \<Rightarrow> u8 list \<Rightarrow> u8 list \<Rightarrow> u8 list \<Rightarrow> int \<Rightarrow> v3_message" where
  "arrived pdu i mx engine_id name ce cn level = \<lparr>vm_pdu = pdu, vm_msg_id = i, vm_max_size = mx,
     vm_security_engine_id = engine_id, vm_security_name = name, vm_context_engine_id = ce, vm_context_name = cn,
     vm_security_level = level, vm_security_model = SNMP_SECURITY_MODEL_USM\<rparr>"

lemma level_cases: "can_send ap level user a \<Longrightarrow> level \<in> {1, 2, 3}"
  by (auto simp: can_send_def usm_protocols)

lemma privacy_known:
  assumes "generate_msg H cs g mx engine_id name level scopedPDU ref now packet u = Some (u', Inr msg)"
    and "message_user H engine_id name ref u = Some (u1, Some user)" and "usm_auth_priv u1 = usm_auth_priv u"
    and "message_time level engine_id now u1 = Some (u2, Some (boots, time))" and "level = SNMP_SECURITY_LEVEL_AUTH_PRIV"
  shows "get_priv (ue_priv_protocol user) (usm_auth_priv u) \<noteq> None"
proof -
  obtain msgData params where
    "message_data cs mx level user boots time scopedPDU u2 = Some (u', Inr (msgData, params))"
    by (rule generate_msgD [OF assms(1, 2, 4)])
  then have "get_priv (ue_priv_protocol user) (usm_auth_priv u2) \<noteq> None" using assms(5) by (rule message_dataD) simp
  then show ?thesis using message_time_frame [OF assms(4)] assms(3) by simp
qed

lemma message_arrives:
  fixes i level ce cn pdu
  defines "g \<equiv> ber_obj ASN_SEQ_CON (header_fields i (of_nat MAX_SNMP_PACKET) (message_flags level (command pdu)) 3)"
    and "x \<equiv> scoped_bytes ce cn (pdu_bytes pdu)"
  assumes hash: "digests H" "des_cipher (des_desc cs)" "des_cipher (des3_desc cs)"
    and ok: "pdu_ok pdu" "\<forall>vb\<in>set (variables pdu). length (var_inner vb) \<le> MAX_SNMP_PACKET"
    and names: "length ce \<le> 32" "length cn \<le> 32" "\<not> (ce = [] \<and> is_request (command pdu))"
    and small: "length x \<le> MAX_SNMP_PACKET" and into: "length (agent_addr into) = 4"
    and gen: "generate_msg H cs g (int MAX_SNMP_PACKET) engine_id name level x ref now packet u = Some (u', Inr msg)"
    and room: "MAX_SNMP_PACKET \<le> length packet"
    and user: "message_user H engine_id name ref u = Some (u1, Some user)" "usm_auth_priv u1 = usm_auth_priv u"
    and time: "message_time level engine_id now u1 = Some (u2, Some (boots, time))" "sane boots" "sane time"
    and id: "engine_id \<noteq> []"
    and can: "can_send (usm_auth_priv u) level user a"
    and short: "length engine_id + length (ue_user_name user) + auth_get_auth_params_len a \<le> 89"
    and keys: "same_keys (usm_auth_priv u) user (usm_auth_priv (mp_usm t)) user'"
    and known: "receives H engine_id (ue_user_name user) boots time now' (mp_usm t) user' v"
  shows "\<exists>mx nm st. v3MP_snmp_parse H cs now' into msg (int (length msg)) t =
    accept_message H cs now' (is_confirmed (command pdu))
      (arrived (received_pdu into pdu) i mx engine_id (ue_security_name user') ce cn level)
      (accepted_ref engine_id (ue_user_name user) nm level user') (t\<lparr>mp_usm := v, mp_usm_stats := st\<rparr>)"
proof -
  let ?s = "initial_msg_state [] t" and ?flags = "message_flags level (command pdu)"
  have p: "x = ASN_SEQ_CON # tl x" by (simp add: x_def scoped_bytes_def ber_obj_def)
  have st: "ms_usm ?s = mp_usm t" by (simp add: initial_msg_state_def)
  have room': "int MAX_SNMP_PACKET \<le> int (length packet)" using room by simp
  obtain sp msgData s' nm where m: "msg = whole_bytes g sp msgData" "int (length msg) \<le> int MAX_SNMP_PACKET"
    and c: "process_msg H cs (int MAX_SNMP_PACKET) (sec_bytes sp) (int (length (sec_bytes sp)))
      (int (length msg) - int (length msgData) - int (length (sec_bytes sp))) level msgData (int (length msgData)) now'
      (?s\<lparr>ms_whole_msg := msg\<rparr>) = Some (s', SNMPv3_USM_OK)"
    and d: "ms_scoped_pdu s' = delivered_pdu (usm_auth_priv u) level user x" "ms_security_name s' = ue_security_name user'"
      "ms_security_engine_id s' = engine_id" "ms_usm s' = v"
      "ms_scoped_length s' = length (delivered_pdu (usm_auth_priv u) level user x)"
      "ms_ref s' = accepted_ref engine_id (ue_user_name user) nm level user'"
    using message_delivered_by [OF hash gen order_refl room' user time id can short p keys [folded st] known [folded st], of "int MAX_SNMP_PACKET"]
    by blast
  have s: "?s\<lparr>ms_whole_msg := msg\<rparr> = initial_msg_state (take (nat (int (length msg))) msg) t"
    by (simp add: initial_msg_state_def)
  have len: "length msg \<le> MAX_SNMP_PACKET" using m(2) by simp
  have h: "parse_v3_header msg (int (length msg)) = Some (Inr \<lparr>vh_msg_id = i, vh_max_size = of_nat MAX_SNMP_PACKET, vh_flags = ?flags,
      vh_security_model = 3, vh_parameters = sec_bytes sp,
      vh_position = int (length msg) - int (length msgData) - int (length (sec_bytes sp)), vh_data = msgData\<rparr>)"
    using parse_v3_header_bytes [of i ?flags sp msgData] len unfolding m(1) g_def by simp
  obtain k where k: "delivered_pdu (usm_auth_priv u) level user x = x @ replicate k 0" "k < 8"
    using delivered_padded privacy_known [OF gen user time(1)] by metis
  have f: "parse_scoped into (ms_scoped_pdu s') (int (ms_scoped_length s')) =
      Some (Inr (received_pdu into pdu, int (length (pdu_bytes pdu)), ce, cn))"
    using small k(2) unfolding d(1, 5) k(1) unfolding x_def
    by (intro parse_scoped_bytes [OF ok into names(1, 2)]) (simp_all add: MAX_SNMP_PACKET_def)
  have e: "security_error SNMPv3_USM_OK engine_id = 0"
    using id by (simp add: security_error_def Let_def usm_results)
  have u: "uint (of_nat MAX_SNMP_PACKET :: u64) = int MAX_SNMP_PACKET" by (simp add: MAX_SNMP_PACKET_def)
  have cmd: "command (received_pdu into pdu) = command pdu" by (simp add: received_pdu_def Let_def)
  have "v3MP_snmp_parse H cs now' into msg (int (length msg)) t =
      accept_message H cs now' (is_confirmed (command pdu))
        (arrived (received_pdu into pdu) i (word_of_int (ms_max_size s')) engine_id (ue_security_name user') ce cn level)
        (accepted_ref engine_id (ue_user_name user) nm level user') (t\<lparr>mp_usm := v, mp_usm_stats := ms_stats s'\<rparr>)"
    using header_back [OF level_cases [OF can], of "command pdu"] c [unfolded s] d(2-4, 6) f e u cmd
    by (simp add: v3MP_snmp_parse_def h after_security_def received_message_def arrived_def Let_def if_not_P [OF names(3)]
        SNMP_SECURITY_MODEL_USM_def)
  then show ?thesis by blast
qed

end
