(* ===== verification/Mp_Properties.thy ===== *)
theory Mp_Properties
  imports Mp_Engine Mp_Delivery Delivery_Properties
begin

section \<open>Requests of version 3\<close>

text \<open>
  A request from \<open>v3MP::snmp_build\<close> of the manager to \<open>v3MP::snmp_parse\<close> of the agent (\<^verbatim>\<open>mp_v3.cpp\<close>), with a manager, an agent
  and a small request on which this and the other properties of messages are instantiated.
\<close>

subsection \<open>Requests and their answers\<close>

lemma confirmed_kinds:
  assumes "is_confirmed cmd"
  shows "is_request cmd" "\<not> uses_own_engine cmd" "cmd \<noteq> GET_RSP_MSG" "cmd \<noteq> REPORT_MSG"
  using assms by (auto simp: is_confirmed_def is_request_def uses_own_engine_def pdu_kinds)

lemma cached_entry:
  assumes "cache_ok t" and "Cache_add_entry e t = Some (t', rc)"
  shows "\<exists>x\<in>set (live t'). same_entry e x" and "rc = SNMPv3_MP_OK \<Longrightarrow> e \<in> set (live t')"
    and "set (live t) \<subseteq> set (live t')"
proof -
  have "(\<exists>x\<in>set (live t'). same_entry e x) \<and> (rc = SNMPv3_MP_OK \<longrightarrow> e \<in> set (live t')) \<and> set (live t) \<subseteq> set (live t')"
    using assms(1)
  proof (cases rule: cache_add_cases [where e = e])
    case doubled
    then show ?thesis using assms(2) by (simp add: mp_results)
  next
    case (added t2)
    then show ?thesis using assms(2) by (auto simp: same_entry_def)
  qed
  then show "\<exists>x\<in>set (live t'). same_entry e x" "rc = SNMPv3_MP_OK \<Longrightarrow> e \<in> set (live t')"
    "set (live t) \<subseteq> set (live t')" by simp_all
qed

lemma msg_id_back: "to_int (scast (i :: u32)) = sint i"
  using to_int_word_of_int [of "sint i"] sint_range_size [of i] by (simp add: word_size)

lemma build_request:
  assumes "is_confirmed (command pdu)" and "engine_id \<noteq> []"
    and "v3MP_snmp_build H cs now pdu i packet n engine_id name model level ce cn s = Some (s', Inr msg)"
  obtains x g u c rc where "build_scoped pdu n ce cn = Some (Inr x)" and "model = SNMP_SECURITY_MODEL_USM"
    and "build_global (sint (cur_msg_id s)) n (message_flags level (command pdu)) model = Some (Inr g)"
    and "generate_msg H cs g n engine_id name level x None now packet (mp_usm s) = Some (u, Inr msg)"
    and "Cache_add_entry (local_entry (sint (cur_msg_id s)) pdu None engine_id name model level ce cn) (mp_cache s) = Some (c, rc)"
    and "mp_usm s' = u" and "mp_cache s' = c"
proof -
  have b: "build_with_id H cs now pdu (sint (cur_msg_id s)) None packet n engine_id name model level ce cn (fst (next_msg_id s)) =
      Some (s', Inr msg)"
    using assms confirmed_kinds [OF assms(1)] by (simp add: v3MP_snmp_build_def next_msg_id_def Let_def)
  have f: "mp_usm (fst (next_msg_id s)) = mp_usm s" "mp_cache (fst (next_msg_id s)) = mp_cache s"
    by (simp_all add: next_msg_id_def Let_def)
  show ?thesis using b
  proof (cases rule: build_with_id_cases)
    case (built x g u m c)
    then show ?thesis using that [of x g u c] confirmed_kinds [OF assms(1)] f by auto
  qed simp
qed

subsection \<open>A manager and an agent\<close>

text \<open>The engine \<open>[2, 2]\<close>, a manager that knows its time, and a request without bindings.\<close>

definition sample_mp :: "u8 list \<Rightarrow> usm \<Rightarrow> v3mp" where
  "sample_mp engine_id u = \<lparr>mp_engine_ids = EngineIdTable_create 10, mp_cache = Cache_create, mp_usm = u,
     mp_usm_stats = \<lparr>st_unsupported_sec_levels = 0, st_not_in_time_windows = 0, st_unknown_user_names = 0,
       st_unknown_engine_ids = 0, st_wrong_digests = 0, st_decryption_errors = 0\<rparr>,
     own_engine_id = engine_id, own_engine_id_oct = engine_id, cur_msg_id = 1, snmpUnknownSecurityModels = 0,
     snmpInvalidMsgs = 0, snmpUnknownPDUHandlers = 0\<rparr>"

definition sample_get :: snmp_pdu where
  "sample_get = \<lparr>command = GET_REQ_MSG, reqid = 1, errstat = 0, errindex = 0, enterprise = [], agent_addr = [0, 0, 0, 0],
     trap_type = 0, specific_type = 0, pdu_time = 0, variables = []\<rparr>"

lemma sample_mp_ok: "mp_ok (sample_mp engine_id u)"
  using cache_ok_create engine_ids_ok_create by (simp add: mp_ok_def sample_mp_def MAX_MPMSGID_def)

lemma sample_get_ok: "pdu_ok sample_get" "is_confirmed (command sample_get)" "length (agent_addr sample_get) = 4"
  by (simp_all add: pdu_ok_def sample_get_def pdu_kinds is_confirmed_def ASN_EXTENSION_ID_def)

lemma manager_sends: "sends plain_hash [2, 2] [115] 2 1000 sample_manager sample_key 3 500"
proof -
  have "get_user plain_hash [2, 2] [115] sample_manager = Some (sample_manager, Some sample_key)"
    by (simp add: get_user_def sample_manager_def sample_usm_def sample_key_def USMUserTable_get_entry_def find_value_live
        table_ok_def live_def)
  moreover have "message_time 2 [2, 2] 1000 sample_manager = Some (sample_manager, Some (3, 500))"
    by (simp add: message_time_def sample_manager_def sample_times_def USMTimeTable_get_time_def find_entry_live table_ok_def live_def
        usm_protocols usm_results as_long_def slot_def less_Suc_eq numeral_2_eq_2)
  ultimately show ?thesis by (auto simp: sends_def sane_def)
qed

lemma agent_receives: "receives plain_hash [2, 2] [117] 3 500 1000 sample_agent sample_key sample_agent"
proof -
  let ?t = "usm_time_table sample_agent"
  have t: "table_ok ?t" "live ?t = [\<lparr>te_engine_id = [2, 2], te_engine_boots = 3, te_time_diff = - 400, te_latest = None\<rparr>]"
    "entries ?t = 1" by (simp_all add: sample_agent_def table_ok_def live_def)
  have "USMTimeTable_check_engine_id (discovery_mode sample_agent) [2, 2] 1000 ?t = Some (?t, SNMPv3_USM_OK)"
    using t by (auto simp: USMTimeTable_check_engine_id_def find_entry_live table_ok_def)
  moreover have "USMTimeTable_check_time [2, 2] 3 500 1000 ?t = Some (?t, SNMPv3_USM_OK)"
    using t by (auto simp: USMTimeTable_check_time_def slot_live local_time_bad_def in_long_def as_long_def table_ok_def)
  moreover have "get_security_name [117] sample_agent = Some (Inr [115])"
    by (simp add: get_security_name_def sample_agent_def sample_usm_def sample_name_def USMUserNameTable_get_security_name_def
        find_value_live table_ok_def live_def)
  moreover have "sample_agent\<lparr>usm_time_table := ?t\<rparr> = sample_agent" by simp
  ultimately show ?thesis using sample_lookups(1) unfolding receives_def by metis
qed

text \<open>A scoped PDU that fits is built.\<close>

lemma build_scoped_fit:
  assumes "pdu_ok pdu" and "length ce \<le> 32" and "length cn \<le> 32"
    and "length (scoped_bytes ce cn (pdu_bytes pdu)) \<le> MAX_SNMP_PACKET"
  shows "build_scoped pdu (int MAX_SNMP_PACKET) ce cn = Some (Inr (scoped_bytes ce cn (pdu_bytes pdu)))"
proof -
  let ?vbs = "ber_obj ASN_SEQ_CON (vars_bytes (variables pdu))" and ?n = "int MAX_SNMP_PACKET"
  have o: "length (ber_obj t c) \<le> 4 + length c" "length c \<le> length (ber_obj t c)" if "length c < 65536" for t c
    using that by (simp_all add: length_ber_obj ber_len_def)
  have p: "length (pdu_bytes pdu) \<le> MAX_SNMP_PACKET" using assms(4) by (simp add: scoped_bytes_def length_ber_obj)
  then have v: "length ?vbs \<le> MAX_SNMP_PACKET" by (simp add: pdu_bytes_def length_ber_obj)
  have ok: "\<forall>vb\<in>set (variables pdu). vb_ok vb" using assms(1) by (simp add: pdu_ok_def)
  have vb: "build_vb pdu (local_buffer MAX_SNMP_PACKET) ?n =
      Some (Inr (written (replicate MAX_SNMP_PACKET 0) 0 ?vbs, 0 + length ?vbs))"
    unfolding local_buffer_def using v by (intro build_vb_fit [OF ok]) (simp_all add: length_ber_obj)
  have t: "take (length ?vbs) (written (replicate MAX_SNMP_PACKET 0) 0 ?vbs) = ?vbs"
    "length (written (replicate MAX_SNMP_PACKET 0) 0 ?vbs) = MAX_SNMP_PACKET" using v by (simp_all add: take_written_0 length_written)
  have d: "build_data_pdu pdu (local_buffer MAX_SNMP_PACKET) ?n ?vbs =
      Some (Inr (written (replicate MAX_SNMP_PACKET 0) 0 (pdu_bytes pdu), length (pdu_bytes pdu)))"
    using build_data_pdu_fit [OF assms(1), of ?vbs] p by (simp add: pdu_bytes_def)
  have n: "length (scoped_names ce cn) \<le> 72"
    using assms(2, 3) o(1) [of ce ASN_OCTET_STR] o(1) [of cn ASN_OCTET_STR] by (simp add: scoped_names_def)
  have h: "length (ASN_SEQ_CON # ber_len m) \<le> 10" for m by (simp add: ber_len_def)
  have ne: "pdu_bytes pdu \<noteq> []" by (simp add: pdu_bytes_def ber_obj_def)
  have "asn1_build_scoped_pdu (written (replicate MAX_SNMP_PACKET 0) 0 ?vbs, 0) ?n ce (int (length ce)) cn (int (length cn)) (pdu_bytes pdu) =
    (if length (scoped_names ce cn @ pdu_bytes pdu) \<le> MAX_SNMP_PACKET \<and>
        0 + length (scoped_bytes ce cn (pdu_bytes pdu)) \<le> length (written (replicate MAX_SNMP_PACKET 0) 0 ?vbs)
     then Some (Inr ((written (written (replicate MAX_SNMP_PACKET 0) 0 ?vbs) 0 (scoped_bytes ce cn (pdu_bytes pdu)),
         0 + length (scoped_bytes ce cn (pdu_bytes pdu))),
       ?n - int (length (scoped_names ce cn) + length (ASN_SEQ_CON # ber_len (length (scoped_names ce cn @ pdu_bytes pdu))))))
     else None)"
    using n h [of "length (scoped_names ce cn @ pdu_bytes pdu)"] t(2) ne
    by (intro build_scoped_pdu_eq) (simp_all add: MAX_SNMP_PACKET_def)
  moreover have "length (scoped_names ce cn @ pdu_bytes pdu) \<le> MAX_SNMP_PACKET"
    using assms(4) by (simp add: scoped_bytes_def length_ber_obj)
  ultimately show ?thesis using vb d t p assms(4)
    by (simp add: build_scoped_def take_written_0)
qed

lemma length_sample_scoped:
  assumes "variables pdu = []" and "command pdu \<noteq> TRP_REQ_MSG"
  shows "length (scoped_bytes [2, 2] [] (pdu_bytes pdu)) \<le> 62"
proof -
  have o: "length (ber_obj t c) = 2 + length c" if "length c < 128" for t c
    using that by (simp add: length_ber_obj ber_len_def)
  have f: "length (pdu_fields pdu) \<le> 30"
    using length_int_obj [of "reqid pdu"] length_int_obj [of "errstat pdu"] length_int_obj [of "errindex pdu"] assms(2)
    by (simp add: pdu_fields_def)
  have "length (pdu_bytes pdu) \<le> 34" using f assms(1) by (simp add: pdu_bytes_def o)
  then show ?thesis by (simp add: scoped_bytes_def scoped_names_def o)
qed

lemma sample_generates:
  assumes user: "message_user plain_hash [2, 2] [115] ref u = Some (u1, Some sample_key)"
    and time: "message_time 2 [2, 2] 1000 u1 = Some (u2, Some (3, time))" and ap: "usm_auth_priv u2 = default_ap"
    and x: "length x \<le> 62" and g: "length g \<le> 35"
  shows "\<exists>msg. generate_msg plain_hash copy_ciphers g (int MAX_SNMP_PACKET) [2, 2] [115] 2 x ref 1000 (replicate MAX_SNMP_PACKET 0) u =
    Some (u2, Inr msg)"
proof -
  let ?n = "int MAX_SNMP_PACKET"
  let ?sp = "\<lparr>up_engine_id = [2, 2], up_engine_boots = word_of_int 3, up_engine_time = word_of_int time, up_user_name = [117],
      up_auth = [], up_priv = []\<rparr>"
  have b: "length (sec_bytes (zero_auth AuthMD5 ?sp)) \<le> 127"
    by (rule short_sec_bytes) (simp_all add: zero_auth_def)
  have o: "length (ber_obj t c) \<le> 4 + length c" if "length c < 65536" for t c
    using that by (simp add: length_ber_obj ber_len_def)
  have "length (whole_content g (zero_auth AuthMD5 ?sp) x) \<le> 238"
    using b g x o [of "sec_bytes (zero_auth AuthMD5 ?sp)" ASN_OCTET_STR] length_int_obj [of 3]
    by (simp add: whole_content_def)
  then have "int (length (whole_bytes g (zero_auth AuthMD5 ?sp) x)) \<le> ?n"
    using o [of "whole_content g (zero_auth AuthMD5 ?sp) x" ASN_SEQ_CON] by (simp add: whole_bytes_def MAX_SNMP_PACKET_def)
  then obtain msg where m: "message_signed plain_hash default_ap g ?n 2 sample_key ?sp x (replicate MAX_SNMP_PACKET 0) = Some (Inr msg)"
    using message_signed_eq [OF digests_plain_hash, of sample_key default_ap AuthMD5 2 ?n "replicate MAX_SNMP_PACKET 0" ?sp g x] b
    by (auto simp: sample_key_def default_get usm_protocols Let_def)
  then show ?thesis
    using user time ap x by (auto simp: generate_msg_def message_data_def usm_lengths usm_protocols sample_key_def MAX_SNMP_PACKET_def)
qed

lemma sample_global:
  "\<exists>g. build_global i n f 3 = Some (Inr g) \<and> length g \<le> 35"
  using length_header_fields [of "word_of_int i" "word_of_int n" f 3]
  by (simp add: build_global_bytes length_ber_obj ber_len_def)

lemma manager_builds:
  "\<exists>s' msg. v3MP_snmp_build plain_hash copy_ciphers 1000 sample_get 0 (replicate MAX_SNMP_PACKET 0) (int MAX_SNMP_PACKET) [2, 2]
     [115] 3 2 [2, 2] [] (sample_mp [1, 1] sample_manager) = Some (s', Inr msg)"
proof -
  let ?x = "scoped_bytes [2, 2] [] (pdu_bytes sample_get)" and ?n = "int MAX_SNMP_PACKET"
  have short: "length ?x \<le> 62" by (rule length_sample_scoped) (simp_all add: sample_get_def pdu_kinds)
  then have "length ?x \<le> MAX_SNMP_PACKET" by (simp add: MAX_SNMP_PACKET_def)
  then have sc: "build_scoped sample_get ?n [2, 2] [] = Some (Inr ?x)" by (intro build_scoped_fit [OF sample_get_ok(1)]) simp_all
  obtain g where g: "build_global 1 ?n (message_flags 2 (command sample_get)) 3 = Some (Inr g)" "length g \<le> 35"
    using sample_global by blast
  obtain u1 u2 where t: "get_user plain_hash [2, 2] [115] sample_manager = Some (u1, Some sample_key)"
    "message_time 2 [2, 2] 1000 u1 = Some (u2, Some (3, 500))" using manager_sends unfolding sends_def by blast
  have ap: "usm_auth_priv u2 = default_ap"
    using message_time_frame [OF t(2)] get_user_frame [OF t(1)] by (simp add: sample_manager_def sample_usm_def)
  have "message_user plain_hash [2, 2] [115] None sample_manager = Some (u1, Some sample_key)" using t(1) by (simp add: message_user_def)
  then obtain msg where gen: "generate_msg plain_hash copy_ciphers g ?n [2, 2] [115] 2 ?x None 1000 (replicate MAX_SNMP_PACKET 0)
      sample_manager = Some (u2, Inr msg)"
    using sample_generates [OF _ t(2) ap short g(2)] by blast
  obtain c rc where c: "Cache_add_entry (local_entry 1 sample_get None [2, 2] [115] 3 2 [2, 2] []) Cache_create = Some (c, rc)"
    using cache_add_cases [OF cache_ok_create(1)] by metis
  have k: "\<not> uses_own_engine (command sample_get)" "is_request (command sample_get)"
    using confirmed_kinds [OF sample_get_ok(2)] by simp_all
  have u: "mp_usm (sample_mp [1, 1] sample_manager) = sample_manager" "mp_cache (sample_mp [1, 1] sample_manager) = Cache_create"
    "cur_msg_id (sample_mp [1, 1] sample_manager) = 1" by (simp_all add: sample_mp_def)
  show ?thesis using sc g gen k c
    by (simp add: v3MP_snmp_build_def build_with_id_def next_msg_id_def u Let_def SNMP_SECURITY_MODEL_USM_def local_entry_def)
qed

subsection \<open>Requests arrive\<close>

lemma request_goes_through:
  assumes "digests H" and "des_cipher (des_desc cs)" and "des_cipher (des3_desc cs)"
    and "mp_ok s" and "mp_ok t" and "is_confirmed (command pdu)" and "pdu_ok pdu" and "length (agent_addr into) = 4"
    and "ce \<noteq> []" and "length ce \<le> 32" and "length cn \<le> 32" and "MAX_SNMP_PACKET \<le> length packet"
    and "sends H (own_engine_id t) name level now (mp_usm s) user boots time" and "can_send (usm_auth_priv (mp_usm s)) level user a"
    and "length (own_engine_id t) + length (ue_user_name user) + auth_get_auth_params_len a \<le> 89"
    and "same_keys (usm_auth_priv (mp_usm s)) user (usm_auth_priv (mp_usm t)) user'"
    and "receives H (own_engine_id t) (ue_user_name user) boots time now' (mp_usm t) user' v"
    and "v3MP_snmp_build H cs now pdu i packet (int MAX_SNMP_PACKET) (own_engine_id t) name model level ce cn s = Some (s', Inr msg)"
  shows "\<exists>m t'. v3MP_snmp_parse H cs now' into msg (int (length msg)) t = Some (t', [], Inr m) \<and>
    vm_pdu m = received_pdu into pdu \<and> to_int (vm_msg_id m) = sint (cur_msg_id s) \<and> vm_security_level m = level \<and>
    vm_security_model m = model \<and> vm_security_engine_id m = own_engine_id t \<and> vm_security_name m = ue_security_name user' \<and>
    vm_context_engine_id m = ce \<and> vm_context_name m = cn \<and> mp_usm t' = v \<and>
    (\<exists>e\<in>set (live (mp_cache s')). same_entry (local_entry (sint (cur_msg_id s)) pdu None (own_engine_id t) name model level ce cn) e) \<and>
    (\<exists>e\<in>set (live (mp_cache t')). ce_msg_id e = sint (cur_msg_id s) \<and> \<not> ce_local_request e \<and> ce_req_id e = reqid pdu \<and>
       ce_sec_name e = ue_security_name user' \<and> ce_sec_level e = level)"
proof -
  let ?e = "own_engine_id t" and ?i = "word_of_int (sint (cur_msg_id s)) :: u64"
  obtain u1 u2 where g: "get_user H ?e name (mp_usm s) = Some (u1, Some user)"
    and time: "message_time level ?e now u1 = Some (u2, Some (boots, time))" "sane boots" "sane time" and id: "?e \<noteq> []"
    using assms(13) unfolding sends_def by blast
  have user: "message_user H ?e name None (mp_usm s) = Some (u1, Some user)" "usm_auth_priv u1 = usm_auth_priv (mp_usm s)"
    using g id get_user_frame [OF g] by (simp_all add: message_user_def)
  obtain x gl u c rc where b: "build_scoped pdu (int MAX_SNMP_PACKET) ce cn = Some (Inr x)" "model = SNMP_SECURITY_MODEL_USM"
    "build_global (sint (cur_msg_id s)) (int MAX_SNMP_PACKET) (message_flags level (command pdu)) model = Some (Inr gl)"
    "generate_msg H cs gl (int MAX_SNMP_PACKET) ?e name level x None now packet (mp_usm s) = Some (u, Inr msg)"
    "Cache_add_entry (local_entry (sint (cur_msg_id s)) pdu None ?e name model level ce cn) (mp_cache s) = Some (c, rc)"
    "mp_cache s' = c" by (rule build_request [OF assms(6) id assms(18)])
  note x = build_scoped_bytes [OF assms(7, 10, 11) b(1)]
  have gl: "gl = ber_obj ASN_SEQ_CON (header_fields ?i (of_nat MAX_SNMP_PACKET) (message_flags level (command pdu)) 3)"
    using b(3) by (simp add: build_global_bytes b(2) SNMP_SECURITY_MODEL_USM_def)
  have names: "\<not> (ce = [] \<and> is_request (command pdu))" using assms(9) by simp
  obtain mx nm st where p: "v3MP_snmp_parse H cs now' into msg (int (length msg)) t =
      accept_message H cs now' (is_confirmed (command pdu))
        (arrived (received_pdu into pdu) ?i mx ?e (ue_security_name user') ce cn level)
        (accepted_ref ?e (ue_user_name user) nm level user') (t\<lparr>mp_usm := v, mp_usm_stats := st\<rparr>)"
    using message_arrives [OF assms(1-3) assms(7) x(3) assms(10, 11) names x(2) [unfolded x(1)] assms(8)
      b(4) [unfolded x(1) gl] assms(12) user time id assms(14-17)] by blast
  let ?m = "arrived (received_pdu into pdu) ?i mx ?e (ue_security_name user') ce cn level"
    and ?r = "accepted_ref ?e (ue_user_name user) nm level user'"
  have t: "cache_ok (mp_cache t)" and s: "cache_ok (mp_cache s)" using assms(4, 5) by (simp_all add: mp_ok_def)
  have r: "command (received_pdu into pdu) = command pdu" "reqid (received_pdu into pdu) = reqid pdu"
    using confirmed_kinds [OF assms(6)] assms(6) by (auto simp: received_pdu_def Let_def is_confirmed_def pdu_kinds)
  obtain c' d where c: "Cache_add_entry (remote_entry ?m ce cn ?r SNMPv3_MP_OK) (mp_cache t) = Some (c', d)"
    using cache_add_cases [OF t] by metis
  have acc: "accept_message H cs now' (is_confirmed (command pdu)) ?m ?r (t\<lparr>mp_usm := v, mp_usm_stats := st\<rparr>) =
      Some (t\<lparr>mp_usm := v, mp_usm_stats := st, mp_cache := c'\<rparr>, [], Inr ?m)"
    using confirmed_kinds [OF assms(6)] assms(6) r c by (simp add: accept_message_def accept_request_def Let_def arrived_def)
  obtain e where e: "e \<in> set (live c')" "same_entry (remote_entry ?m ce cn ?r SNMPv3_MP_OK) e"
    using cached_entry(1) [OF t c] by blast
  then have "\<exists>e\<in>set (live c'). ce_msg_id e = sint (cur_msg_id s) \<and> \<not> ce_local_request e \<and> ce_req_id e = reqid pdu \<and>
      ce_sec_name e = ue_security_name user' \<and> ce_sec_level e = level"
    by (intro bexI [OF _ e(1)]) (simp add: same_entry_def remote_entry_def arrived_def r msg_id_back)
  then show ?thesis
    using p acc cached_entry(1) [OF s b(5)] b(2, 6) by (auto simp: arrived_def msg_id_back)
qed

text \<open>The hypotheses for the manager and the agent.\<close>

lemma sample_setting:
  fixes s t :: v3mp
  defines "s \<equiv> sample_mp [1, 1] sample_manager" and "t \<equiv> sample_mp [2, 2] sample_agent"
  shows "mp_ok s" "mp_ok t"
    "sends plain_hash (own_engine_id t) [115] 2 1000 (mp_usm s) sample_key 3 500"
    "can_send (usm_auth_priv (mp_usm s)) 2 sample_key AuthMD5"
    "length (own_engine_id t) + length (ue_user_name sample_key) + auth_get_auth_params_len AuthMD5 \<le> 89"
    "same_keys (usm_auth_priv (mp_usm s)) sample_key (usm_auth_priv (mp_usm t)) sample_key"
    "receives plain_hash (own_engine_id t) (ue_user_name sample_key) 3 500 1000 (mp_usm t) sample_key sample_agent"
    "\<exists>s' msg. v3MP_snmp_build plain_hash copy_ciphers 1000 sample_get 0 (replicate MAX_SNMP_PACKET 0) (int MAX_SNMP_PACKET)
       (own_engine_id t) [115] 3 2 [2, 2] [] s = Some (s', Inr msg)"
proof -
  have e: "own_engine_id t = [2, 2]" "mp_usm t = sample_agent" "mp_usm s = sample_manager"
    by (simp_all add: s_def t_def sample_mp_def)
  have ap: "usm_auth_priv (mp_usm s) = usm_auth_priv sample_agent" "usm_auth_priv (mp_usm t) = usm_auth_priv sample_manager"
    by (simp_all add: e sample_agent_def sample_manager_def)
  have k: "ue_user_name sample_key = [117]" by (simp add: sample_key_def)
  show "mp_ok s" "mp_ok t" unfolding s_def t_def by (rule sample_mp_ok)+
  show "can_send (usm_auth_priv (mp_usm s)) 2 sample_key AuthMD5"
    "same_keys (usm_auth_priv (mp_usm s)) sample_key (usm_auth_priv (mp_usm t)) sample_key"
    unfolding ap by (fact sample_can_send)+
  show "sends plain_hash (own_engine_id t) [115] 2 1000 (mp_usm s) sample_key 3 500"
    "receives plain_hash (own_engine_id t) (ue_user_name sample_key) 3 500 1000 (mp_usm t) sample_key sample_agent"
    unfolding e k by (fact manager_sends agent_receives)+
  show "length (own_engine_id t) + length (ue_user_name sample_key) + auth_get_auth_params_len AuthMD5 \<le> 89"
    by (simp add: k e)
  show "\<exists>s' msg. v3MP_snmp_build plain_hash copy_ciphers 1000 sample_get 0 (replicate MAX_SNMP_PACKET 0) (int MAX_SNMP_PACKET)
       (own_engine_id t) [115] 3 2 [2, 2] [] s = Some (s', Inr msg)" using manager_builds unfolding s_def [symmetric] e(1) by blast
qed

lemma sample_sizes: "[2, 2 :: u8] \<noteq> []" "length [2, 2 :: u8] \<le> 32" "length ([] :: u8 list) \<le> 32"
    "MAX_SNMP_PACKET \<le> length (replicate MAX_SNMP_PACKET (0 :: u8))"
  by simp_all

text \<open>C1: a request that \<open>snmp_build\<close> has made for an engine is accepted there by \<open>snmp_parse\<close>, which reads the PDU, the
names, the level and the message id that were sent: when the agent has the same keys for the user, the time is inside its
window, and engine id, user name and digest have at most 89 octets together.  The manager remembers the request, and the agent
remembers it for the answer.\<close>
theorem request_arrives:
  assumes "digests H" and "des_cipher (des_desc cs)" and "des_cipher (des3_desc cs)"
    and "mp_ok s" and "mp_ok t" and "is_confirmed (command pdu)" and "pdu_ok pdu" and "length (agent_addr into) = 4"
    and "ce \<noteq> []" and "length ce \<le> 32" and "length cn \<le> 32" and "MAX_SNMP_PACKET \<le> length packet"
    and "sends H (own_engine_id t) name level now (mp_usm s) user boots time" and "can_send (usm_auth_priv (mp_usm s)) level user a"
    and "length (own_engine_id t) + length (ue_user_name user) + auth_get_auth_params_len a \<le> 89"
    and "same_keys (usm_auth_priv (mp_usm s)) user (usm_auth_priv (mp_usm t)) user'"
    and "receives H (own_engine_id t) (ue_user_name user) boots time now' (mp_usm t) user' v"
    and "v3MP_snmp_build H cs now pdu i packet (int MAX_SNMP_PACKET) (own_engine_id t) name model level ce cn s = Some (s', Inr msg)"
  shows "\<exists>m t'. v3MP_snmp_parse H cs now' into msg (int (length msg)) t = Some (t', [], Inr m) \<and>
    vm_pdu m = received_pdu into pdu \<and> to_int (vm_msg_id m) = sint (cur_msg_id s) \<and> vm_security_level m = level \<and>
    vm_security_model m = model \<and> vm_security_engine_id m = own_engine_id t \<and> vm_security_name m = ue_security_name user' \<and>
    vm_context_engine_id m = ce \<and> vm_context_name m = cn \<and> mp_usm t' = v \<and>
    (\<exists>e\<in>set (live (mp_cache s')). same_entry (local_entry (sint (cur_msg_id s)) pdu None (own_engine_id t) name model level ce cn) e) \<and>
    (\<exists>e\<in>set (live (mp_cache t')). ce_msg_id e = sint (cur_msg_id s) \<and> \<not> ce_local_request e \<and> ce_req_id e = reqid pdu \<and>
       ce_sec_name e = ue_security_name user' \<and> ce_sec_level e = level)"
  using request_goes_through [OF assms] .

theorem request_arrives_witness:
  "\<exists>s' msg m t'. v3MP_snmp_build plain_hash copy_ciphers 1000 sample_get 0 (replicate MAX_SNMP_PACKET 0) (int MAX_SNMP_PACKET) [2, 2]
      [115] 3 2 [2, 2] [] (sample_mp [1, 1] sample_manager) = Some (s', Inr msg) \<and>
    v3MP_snmp_parse plain_hash copy_ciphers 1000 sample_get msg (int (length msg)) (sample_mp [2, 2] sample_agent) = Some (t', [], Inr m) \<and>
    vm_pdu m = received_pdu sample_get sample_get \<and> vm_security_name m = [115]"
proof -
  let ?s = "sample_mp [1, 1] sample_manager" and ?t = "sample_mp [2, 2] sample_agent"
  have id: "own_engine_id ?t = [2, 2]" by (simp add: sample_mp_def)
  obtain s' msg where b: "v3MP_snmp_build plain_hash copy_ciphers 1000 sample_get 0 (replicate MAX_SNMP_PACKET 0) (int MAX_SNMP_PACKET)
     (own_engine_id ?t) [115] 3 2 [2, 2] [] ?s = Some (s', Inr msg)" using sample_setting(8) by blast
  obtain m t' where "v3MP_snmp_parse plain_hash copy_ciphers 1000 sample_get msg (int (length msg)) ?t = Some (t', [], Inr m)"
    "vm_pdu m = received_pdu sample_get sample_get" "vm_security_name m = ue_security_name sample_key"
    using request_arrives [OF digests_plain_hash copy_ciphers_ok sample_setting(1, 2) sample_get_ok(2, 1, 3) sample_sizes
        sample_setting(3-7) b] by blast
  moreover have "ue_security_name sample_key = [115]" by (simp add: sample_key_def)
  ultimately show ?thesis using b [unfolded id] by metis
qed

end
