(* ===== verification/Mp_Answer_Properties.thy ===== *)
theory Mp_Answer_Properties
  imports Mp_Properties
begin

section \<open>Properties of the messages that are accepted and of those that are answered\<close>

text \<open>
  What holds of a message that \<open>v3MP::snmp_parse\<close> accepts, what it sends when it does not, and the way of a response back to the
  manager.
\<close>

subsection \<open>Accepted messages\<close>

lemma accepted_fields:
  assumes "accept_message H cs now flag m r s = Some (s', sent, Inr m')"
  shows "sent = []" "vm_security_level m' = vm_security_level m" "vm_security_model m' = vm_security_model m"
    "vm_security_engine_id m' = vm_security_engine_id m" "vm_security_name m' = vm_security_name m"
    "vm_context_engine_id m' = vm_context_engine_id m" "vm_context_name m' = vm_context_name m"
    "vm_msg_id m' = vm_msg_id m" "command (vm_pdu m') = command (vm_pdu m)" "variables (vm_pdu m') = variables (vm_pdu m)"
    "is_confirmed (command (vm_pdu m)) \<or> command (vm_pdu m) \<in> {GET_RSP_MSG, REPORT_MSG, TRP_REQ_MSG, TRP2_REQ_MSG}"
  using assms by (cases rule: accepted_message; auto)+

lemma parse_scoped_names:
  assumes "parse_scoped pdu data n = Some (Inr (q, l, ce, cn))"
  shows "length ce \<le> MAXLENGTH_ENGINEID" and "length cn \<le> MAXLENGTH_CONTEXT_NAME"
proof -
  have str: "length x \<le> k" if "asn_parse_string d j (int k) = Some (Inr (d', j', t, x))" for d j k d' j' t x
    using that by (auto simp: asn_parse_string_def Let_def on_ok_def split: list.splits option.splits sum.splits prod.splits if_splits)
  have nn: "no_null_mp r = Some (Inr v) \<longleftrightarrow> r = Some (Inr v)" for r :: "'a asn" and v
    by (cases r; cases "the r") (auto simp: no_null_mp_def)
  obtain d k where "asn1_parse_scoped_pdu data n (int MAXLENGTH_ENGINEID) (int MAXLENGTH_CONTEXT_NAME) = Some (Inr (d, k, ce, cn))"
    using assms by (auto simp: parse_scoped_def nn elim!: on_ok_InrE)
  then show "length ce \<le> MAXLENGTH_ENGINEID" "length cn \<le> MAXLENGTH_CONTEXT_NAME"
    by (auto simp: asn1_parse_scoped_pdu_def dest!: str elim!: on_ok_InrE split: if_splits)
qed

lemma flags_level_range: "flags_level f = Some level \<Longrightarrow> level \<in> {1, 2, 3}"
  by (auto simp: flags_level_def usm_protocols split: if_splits)

text \<open>The agent has accepted the request of the manager.\<close>

lemma sample_request_accepted:
  "\<exists>msg t' m. v3MP_snmp_parse plain_hash copy_ciphers 1000 sample_get msg (int (length msg)) (sample_mp [2, 2] sample_agent) =
     Some (t', [], Inr m) \<and> vm_security_level m = 2"
proof -
  obtain s' msg where b: "v3MP_snmp_build plain_hash copy_ciphers 1000 sample_get 0 (replicate MAX_SNMP_PACKET 0) (int MAX_SNMP_PACKET)
     (own_engine_id (sample_mp [2, 2] sample_agent)) [115] 3 2 [2, 2] [] (sample_mp [1, 1] sample_manager) = Some (s', Inr msg)"
    using sample_setting(8) by blast
  show ?thesis
    using request_goes_through [OF digests_plain_hash copy_ciphers_ok sample_setting(1, 2) sample_get_ok(2, 1, 3) sample_sizes
        sample_setting(3-7) b] by blast
qed

text \<open>C7: every message that \<open>snmp_parse\<close> accepts is well formed: the level is one of the three, the security model is that of the
users, the engine id of the sender is there, the context engine id and the context name have at most 32 octets, and the PDU is
a request or an inform, a response, a report, or a trap, also one of version 1; a request, an inform and a trap
have a context engine id.\<close>
theorem accepted_well_formed:
  assumes "v3MP_snmp_parse H cs now pdu inBuf n s = Some (s', sent, Inr m)"
  shows "vm_security_level m \<in> {SNMP_SECURITY_LEVEL_NOAUTH_NOPRIV, SNMP_SECURITY_LEVEL_AUTH_NOPRIV, SNMP_SECURITY_LEVEL_AUTH_PRIV} \<and>
    vm_security_model m = SNMP_SECURITY_MODEL_USM \<and> vm_security_engine_id m \<noteq> [] \<and>
    length (vm_context_engine_id m) \<le> MAXLENGTH_ENGINEID \<and> length (vm_context_name m) \<le> MAXLENGTH_CONTEXT_NAME \<and>
    (is_confirmed (command (vm_pdu m)) \<or> command (vm_pdu m) \<in> {GET_RSP_MSG, REPORT_MSG, TRP_REQ_MSG, TRP2_REQ_MSG}) \<and>
    \<not> (vm_context_engine_id m = [] \<and> is_request (command (vm_pdu m)))"
proof -
  obtain h level ms q l ce cn where p: "flags_level (vh_flags h) = Some level" "ms_security_engine_id ms \<noteq> []"
    "parse_scoped pdu (ms_scoped_pdu ms) (int (ms_scoped_length ms)) = Some (Inr (q, l, ce, cn))" "\<not> (ce = [] \<and> is_request (command q))"
    and a: "accept_message H cs now (is_reportable (vh_flags h)) ((received_message pdu h level ms)\<lparr>vm_pdu := q,
      vm_context_engine_id := ce, vm_context_name := cn\<rparr>) (ms_ref ms) (s\<lparr>mp_usm := ms_usm ms, mp_usm_stats := ms_stats ms\<rparr>) =
      Some (s', sent, Inr m)" by (rule parse_accepted [OF assms])
  have f: "vm_security_level m = level" "vm_security_model m = SNMP_SECURITY_MODEL_USM"
    "vm_security_engine_id m = ms_security_engine_id ms" "vm_context_engine_id m = ce" "vm_context_name m = cn"
    "command (vm_pdu m) = command q"
    "is_confirmed (command q) \<or> command q \<in> {GET_RSP_MSG, REPORT_MSG, TRP_REQ_MSG, TRP2_REQ_MSG}"
    using accepted_fields(2-4, 6, 7, 9, 11) [OF a] by (simp_all add: received_message_def)
  have "level \<in> {SNMP_SECURITY_LEVEL_NOAUTH_NOPRIV, SNMP_SECURITY_LEVEL_AUTH_NOPRIV, SNMP_SECURITY_LEVEL_AUTH_PRIV}"
    using flags_level_range [OF p(1)] by (simp add: usm_protocols)
  moreover have "is_confirmed (command (vm_pdu m)) \<or> command (vm_pdu m) \<in> {GET_RSP_MSG, REPORT_MSG, TRP_REQ_MSG, TRP2_REQ_MSG}"
    "\<not> (vm_context_engine_id m = [] \<and> is_request (command (vm_pdu m)))"
    using f(7) p(4) unfolding f(4, 6) by simp_all
  moreover have "vm_security_engine_id m \<noteq> []" using p(2) by (simp only: f(3) not_False_eq_True)
  moreover note parse_scoped_names [OF p(3)]
  ultimately show ?thesis using f(1-5) by simp
qed

theorem accepted_well_formed_witness:
  "\<exists>msg t' m. v3MP_snmp_parse plain_hash copy_ciphers 1000 sample_get msg (int (length msg)) (sample_mp [2, 2] sample_agent) =
      Some (t', [], Inr m) \<and> vm_security_engine_id m \<noteq> [] \<and> length (vm_context_name m) \<le> 32"
  using sample_request_accepted accepted_well_formed [of plain_hash copy_ciphers 1000 sample_get _ _ "sample_mp [2, 2] sample_agent" _ "[]"]
  unfolding MAXLENGTH_CONTEXT_NAME_def by blast

text \<open>C3: a message that \<open>snmp_parse\<close> accepts at a level with authentication carries, in its authentication parameters, the truncated
HMAC of the whole packet under the key of the user that it names at the engine that it names.\<close>
theorem accepted_message_authentic:
  assumes "digests H" and "tables_ok (usm_auth_priv (mp_usm s))"
    and "v3MP_snmp_parse H cs now pdu inBuf n s = Some (s', sent, Inr m)"
    and "vm_security_level m > SNMP_SECURITY_LEVEL_NOAUTH_NOPRIV"
  shows "\<exists>h sp name u u' user a. parse_v3_header inBuf n = Some (Inr h) \<and>
    parse_sec_params (vh_parameters h) (int (length (vh_parameters h))) = Some (Inr sp) \<and>
    get_security_name (sp_user_name sp) u = Some (Inr name) \<and> get_user H (sp_engine_id sp) name u = Some (u', Some user) \<and>
    usm_user_table u = usm_user_table (mp_usm s) \<and> usm_user_name_table u = usm_user_name_table (mp_usm s) \<and>
    get_auth (ue_auth_protocol user) (usm_auth_priv (mp_usm s)) = Some a \<and>
    read_at (nat (vh_position h + sp_auth_offset sp)) (auth_get_auth_params_len a) (take (nat n) inBuf) =
      Some (mac H a (ue_auth_key user) (take (nat n) inBuf) (nat (vh_position h + sp_auth_offset sp))) \<and>
    vm_security_name m = ue_security_name user"
proof -
  obtain h level ms q l ce cn where h: "parse_v3_header inBuf n = Some (Inr h)"
    and c: "process_msg H cs (uint (vh_max_size h)) (vh_parameters h) (int (length (vh_parameters h))) (vh_position h) level
      (vh_data h) (int (length (vh_data h))) now (initial_msg_state (take (nat n) inBuf) s) = Some (ms, SNMPv3_USM_OK)"
    and a: "accept_message H cs now (is_reportable (vh_flags h)) ((received_message pdu h level ms)\<lparr>vm_pdu := q,
      vm_context_engine_id := ce, vm_context_name := cn\<rparr>) (ms_ref ms) (s\<lparr>mp_usm := ms_usm ms, mp_usm_stats := ms_stats ms\<rparr>) =
      Some (s', sent, Inr m)" by (rule parse_accepted [OF assms(3)])
  have f: "vm_security_level m = level" "vm_security_name m = ms_security_name ms"
    using accepted_fields(2, 5) [OF a] by (simp_all add: received_message_def)
  have st: "ms_usm (initial_msg_state (take (nat n) inBuf) s) = mp_usm s"
    "ms_whole_msg (initial_msg_state (take (nat n) inBuf) s) = take (nat n) inBuf" by (simp_all add: initial_msg_state_def)
  show ?thesis
    using authentic_accepted [OF assms(1) assms(2) [folded st(1)] assms(4) [unfolded f(1)] c] h
    unfolding st f(2) by blast
qed

theorem accepted_message_authentic_witness:
  "\<exists>msg t' m (user :: user_entry) a p. v3MP_snmp_parse plain_hash copy_ciphers 1000 sample_get msg (int (length msg))
      (sample_mp [2, 2] sample_agent) = Some (t', [], Inr m) \<and>
    read_at p (auth_get_auth_params_len a) msg = Some (mac plain_hash a (ue_auth_key user) msg p) \<and>
    vm_security_name m = ue_security_name user"
proof -
  let ?s = "sample_mp [2, 2] sample_agent"
  obtain msg t' m where p: "v3MP_snmp_parse plain_hash copy_ciphers 1000 sample_get msg (int (length msg)) ?s = Some (t', [], Inr m)"
    "vm_security_level m = 2" using sample_request_accepted by blast
  have "mp_usm ?s = sample_agent" "usm_auth_priv sample_agent = default_ap" by (simp_all add: sample_mp_def sample_agent_def sample_usm_def)
  then have t: "tables_ok (usm_auth_priv (mp_usm ?s))" using tables_ok_default by simp
  have l: "vm_security_level m > SNMP_SECURITY_LEVEL_NOAUTH_NOPRIV" by (simp add: p(2) usm_protocols)
  have w: "take (nat (int (length msg))) msg = msg" by simp
  show ?thesis using accepted_message_authentic [OF digests_plain_hash t p(1) l] p(1) unfolding w by blast
qed

subsection \<open>Reports\<close>

lemma report_sent:
  assumes "send_report H cs now sp l pdu i rc lv md nm t = Some (t', sent)"
  shows "sent = [] \<or> length sent = 1"
proof -
  obtain c v l2 m2 n2 where r: "report_counter rc lv md nm t = (c, v, l2, m2, n2)" by (cases "report_counter rc lv md nm t")
  obtain b :: "int + u8 list" where "sent = (case b of Inl _ \<Rightarrow> [] | Inr msg \<Rightarrow> [msg])"
    using assms unfolding send_report_def r by (auto simp: bind_eq_Some_iff Let_def)
  then show ?thesis by (cases b) simp_all
qed

text \<open>A result that sends one message at most, only if the peer asks for reports, and only with an error.\<close>

definition asked :: "bool \<Rightarrow> parse_result \<Rightarrow> bool" where
  "asked flag r \<longleftrightarrow> (\<forall>s sent x. r = Some (s, sent, x) \<longrightarrow> sent = [] \<or> flag \<and> (\<exists>rc. x = Inl rc) \<and> length sent = 1)"

lemma asked_return: "asked flag (Some (s, [], x))" "asked flag None"
  by (simp_all add: asked_def)

lemma asked_bind: "(\<And>x. m = Some x \<Longrightarrow> asked flag (f x)) \<Longrightarrow> asked flag (Option.bind m f)"
  by (cases m) (simp_all add: asked_def)

lemma asked_cases:
  "(P \<Longrightarrow> asked flag x) \<Longrightarrow> (\<not> P \<Longrightarrow> asked flag y) \<Longrightarrow> asked flag (if P then x else y)"
  "(\<And>a b. p = (a, b) \<Longrightarrow> asked flag (g a b)) \<Longrightarrow> asked flag (case p of (a, b) \<Rightarrow> g a b)"
  "(\<And>a. q = Inl a \<Longrightarrow> asked flag (h a)) \<Longrightarrow> (\<And>b. q = Inr b \<Longrightarrow> asked flag (k b)) \<Longrightarrow> asked flag (case_sum h k q)"
  by (simp_all split: prod.split sum.split)

lemma asked_report_error: "asked flag (report_error H cs now flag sp l m rc level r s)"
  by (auto simp: asked_def report_error_def bind_eq_Some_iff dest!: report_sent split: if_splits)

lemmas asked_rules = asked_cases asked_return asked_bind asked_report_error

lemma asked_accept: "asked flag (accept_message H cs now flag m r s)"
  unfolding accept_message_def accept_request_def accept_response_def Let_def by (intro asked_rules)

lemma asked_after_security: "asked flag (after_security H cs now flag rc m ms s)"
  unfolding after_security_def Let_def by (intro asked_rules asked_accept)

text \<open>C14: \<open>snmp_parse\<close> sends at most one message, a report, and only for a message that it rejects and that asks for reports.\<close>
theorem reports_are_asked_for:
  assumes "v3MP_snmp_parse H cs now pdu inBuf n s = Some (s', sent, x)"
  shows "sent = [] \<or> (\<exists>h rc msg. parse_v3_header inBuf n = Some (Inr h) \<and> is_reportable (vh_flags h) \<and> sent = [msg] \<and> x = Inl rc)"
proof -
  obtain p where p: "parse_v3_header inBuf n = Some p" using assms by (auto simp: v3MP_snmp_parse_def bind_eq_Some_iff)
  show ?thesis
  proof (cases p)
    case (Inl rc)
    then show ?thesis using assms p by (simp add: v3MP_snmp_parse_def)
  next
    case (Inr h)
    have "asked (is_reportable (vh_flags h)) (v3MP_snmp_parse H cs now pdu inBuf n s)"
      unfolding v3MP_snmp_parse_def p Inr
      by (auto intro!: asked_rules asked_after_security split: option.split)
    then show ?thesis using assms p Inr by (auto simp: asked_def length_Suc_conv)
  qed
qed

theorem reports_are_asked_for_witness:
  "\<exists>msg t' sent x. v3MP_snmp_parse plain_hash copy_ciphers 1000 sample_get msg (int (length msg)) (sample_mp [2, 2] sample_agent) =
      Some (t', sent, x) \<and>
    (sent = [] \<or> (\<exists>h rc r. parse_v3_header msg (int (length msg)) = Some (Inr h) \<and> is_reportable (vh_flags h) \<and> sent = [r] \<and> x = Inl rc))"
proof -
  obtain msg t' m where p: "v3MP_snmp_parse plain_hash copy_ciphers 1000 sample_get msg (int (length msg)) (sample_mp [2, 2] sample_agent) =
      Some (t', [], Inr m)" using sample_request_accepted by blast
  show ?thesis using reports_are_asked_for [OF p] p by blast
qed

subsection \<open>The answer of the agent\<close>

text \<open>The agent has the request in its cache, with the security state for the answer, and knows its own time.\<close>

definition answers :: "u8 list \<Rightarrow> int \<Rightarrow> int \<Rightarrow> v3mp \<Rightarrow> u64 \<Rightarrow> user_entry \<Rightarrow> int \<Rightarrow> int \<Rightarrow> bool" where
  "answers name level now s i user boots time \<longleftrightarrow> own_engine_id_oct s \<noteq> [] \<and> sane boots \<and> sane time \<and> (\<exists>c rc r u.
     Cache_get_reference (to_int i) False (mp_cache s) = Some (c, Inr (rc, Some r)) \<and>
     response_user name r (mp_usm s) = Some user \<and>
     message_time level (own_engine_id_oct s) now (mp_usm s) = Some (u, Some (boots, time)))"

text \<open>The only request of this id that the manager waits for.\<close>

definition awaits :: "v3mp \<Rightarrow> cache_entry \<Rightarrow> bool" where
  "awaits t e \<longleftrightarrow> e \<in> set (live (mp_cache t)) \<and> ce_local_request e \<and>
     (\<forall>x\<in>set (live (mp_cache t)). ce_local_request x \<and> ce_msg_id x = ce_msg_id e \<longrightarrow> x = e)"

lemma awaited_taken:
  assumes "mp_ok t" and "awaits t e"
  obtains c where "Cache_get_entry (ce_msg_id e) True (mp_cache t) = Some (c, Inr e)" and "cache_ok c"
    and "mset (live c) = mset (live (mp_cache t)) - {#e#}" and "e \<notin> set (live c)"
proof -
  have ok: "cache_ok (mp_cache t)" "distinct (live (mp_cache t))" using assms(1) by (auto simp: mp_ok_def distinct_map)
  from ok(1) show ?thesis
  proof (cases rule: cache_take_cases [where P = "\<lambda>x. ce_msg_id x = ce_msg_id e \<and> ce_local_request x = True"])
    case absent
    then show ?thesis using assms(2) by (auto simp: awaits_def)
  next
    case (taken c x)
    then have x: "x = e" using assms(2) by (auto simp: awaits_def)
    have "count (mset (live (mp_cache t))) e = 1" using ok(2) assms(2) by (simp add: distinct_count_atmost_1 awaits_def)
    then have "e \<notin># mset (live (mp_cache t)) - {#e#}" by (simp add: not_in_iff)
    then have "e \<notin># mset (live c)" by (simp only: taken(5) x not_False_eq_True)
    then have "e \<notin> set (live c)" by simp
    then show ?thesis using that [of c] taken x by (simp add: Cache_get_entry_def)
  qed
qed

lemma to_int_back: "to_int (word_of_int (to_int i)) = to_int i"
  using sint_range_size [of "ucast i :: u32"] by (intro to_int_word_of_int) (simp_all add: to_int_def word_size)

lemma build_response:
  assumes "command pdu = GET_RSP_MSG" and "Cache_get_reference (to_int i) False (mp_cache s) = Some (c, Inr (rc, Some r))"
    and "v3MP_snmp_build H cs now pdu i packet n e name model level ce cn s = Some (s', Inr msg)"
  obtains x g u where "build_scoped pdu n ce cn = Some (Inr x)" and "model = SNMP_SECURITY_MODEL_USM"
    and "build_global (to_int i) n (message_flags level (command pdu)) model = Some (Inr g)"
    and "generate_msg H cs g n (own_engine_id_oct s) name level x (Some r) now packet (mp_usm s) = Some (u, Inr msg)"
proof -
  have k: "\<not> is_request GET_RSP_MSG" "uses_own_engine GET_RSP_MSG" by (simp_all add: is_request_def uses_own_engine_def pdu_kinds)
  have "build_with_id H cs now pdu (to_int i) (Some r) packet n e name model level ce cn (s\<lparr>mp_cache := c\<rparr>) = Some (s', Inr msg)"
    using assms k by (simp add: v3MP_snmp_build_def Let_def)
  then show ?thesis
  proof (cases rule: build_with_id_cases)
    case (built x g u m d)
    then show ?thesis using that [of x g u] assms(1) k by auto
  qed simp
qed

lemma response_goes_through:
  assumes hash: "digests H" "des_cipher (des_desc cs)" "des_cipher (des3_desc cs)"
    and t: "mp_ok t" and cmd: "command pdu = GET_RSP_MSG" and ok: "pdu_ok pdu" and into: "length (agent_addr into) = 4"
    and names: "length ce \<le> 32" "length cn \<le> 32" and room: "MAX_SNMP_PACKET \<le> length packet"
    and agent: "answers name level now s i user boots time" and can: "can_send (usm_auth_priv (mp_usm s)) level user a"
    and short: "length (own_engine_id_oct s) + length (ue_user_name user) + auth_get_auth_params_len a \<le> 89"
    and keys: "same_keys (usm_auth_priv (mp_usm s)) user (usm_auth_priv (mp_usm t)) user'"
    and known: "receives H (own_engine_id_oct s) (ue_user_name user) boots time now' (mp_usm t) user' v"
    and waits: "awaits t (local_entry (to_int i) q None (own_engine_id_oct s) (ue_security_name user') SNMP_SECURITY_MODEL_USM level ce cn)"
    and built: "v3MP_snmp_build H cs now pdu i packet (int MAX_SNMP_PACKET) e name model level ce cn s = Some (s', Inr msg)"
  shows "\<exists>m t'. v3MP_snmp_parse H cs now' into msg (int (length msg)) t = Some (t', [], Inr m) \<and>
    vm_pdu m = received_pdu into pdu \<and> to_int (vm_msg_id m) = to_int i \<and> vm_security_name m = ue_security_name user' \<and>
    vm_security_level m = level \<and> vm_context_engine_id m = ce \<and> vm_context_name m = cn \<and> mp_usm t' = v \<and>
    mset (live (mp_cache t')) = mset (live (mp_cache t)) -
      {#local_entry (to_int i) q None (own_engine_id_oct s) (ue_security_name user') SNMP_SECURITY_MODEL_USM level ce cn#}"
proof -
  let ?e = "own_engine_id_oct s" and ?i = "word_of_int (to_int i) :: u64"
  let ?w = "local_entry (to_int i) q None ?e (ue_security_name user') SNMP_SECURITY_MODEL_USM level ce cn"
  obtain c rc r u where r: "Cache_get_reference (to_int i) False (mp_cache s) = Some (c, Inr (rc, Some r))"
    "response_user name r (mp_usm s) = Some user" and time: "message_time level ?e now (mp_usm s) = Some (u, Some (boots, time))"
    "sane boots" "sane time" and id: "?e \<noteq> []"
    using agent unfolding answers_def by blast
  have user: "message_user H ?e name (Some r) (mp_usm s) = Some (mp_usm s, Some user)" using r(2) by (simp add: message_user_def)
  obtain x g u' where b: "build_scoped pdu (int MAX_SNMP_PACKET) ce cn = Some (Inr x)" "model = SNMP_SECURITY_MODEL_USM"
    "build_global (to_int i) (int MAX_SNMP_PACKET) (message_flags level (command pdu)) model = Some (Inr g)"
    "generate_msg H cs g (int MAX_SNMP_PACKET) ?e name level x (Some r) now packet (mp_usm s) = Some (u', Inr msg)"
    by (rule build_response [OF cmd r(1) built])
  note x = build_scoped_bytes [OF ok names b(1)]
  have g: "g = ber_obj ASN_SEQ_CON (header_fields ?i (of_nat MAX_SNMP_PACKET) (message_flags level (command pdu)) 3)"
    using b(3) by (simp add: build_global_bytes b(2) SNMP_SECURITY_MODEL_USM_def)
  have k: "\<not> is_request GET_RSP_MSG" by (simp add: is_request_def pdu_kinds)
  then have nm: "\<not> (ce = [] \<and> is_request (command pdu))" by (simp add: cmd)
  obtain mx nn st where p: "v3MP_snmp_parse H cs now' into msg (int (length msg)) t =
      accept_message H cs now' (is_confirmed (command pdu))
        (arrived (received_pdu into pdu) ?i mx ?e (ue_security_name user') ce cn level)
        (accepted_ref ?e (ue_user_name user) nn level user') (t\<lparr>mp_usm := v, mp_usm_stats := st\<rparr>)"
    using message_arrives [OF hash ok x(3) names nm x(2) [unfolded x(1)] into b(4) [unfolded x(1) g] room user refl time id can
      short keys known] by blast
  obtain d where d: "Cache_get_entry (to_int i) True (mp_cache t) = Some (d, Inr ?w)" "mset (live d) = mset (live (mp_cache t)) - {#?w#}"
    using awaited_taken [OF t waits] by (auto simp: local_entry_def)
  have "command (received_pdu into pdu) = GET_RSP_MSG" by (simp add: received_pdu_def Let_def cmd)
  moreover have "\<not> response_mismatch (arrived (received_pdu into pdu) ?i mx ?e (ue_security_name user') ce cn level) ?w"
    by (simp add: response_mismatch_def arrived_def local_entry_def)
  ultimately have "accept_message H cs now' (is_confirmed (command pdu))
      (arrived (received_pdu into pdu) ?i mx ?e (ue_security_name user') ce cn level)
      (accepted_ref ?e (ue_user_name user) nn level user') (t\<lparr>mp_usm := v, mp_usm_stats := st\<rparr>) =
    Some (t\<lparr>mp_usm := v, mp_usm_stats := st, mp_cache := d\<rparr>, [],
      Inr (arrived (received_pdu into pdu) ?i mx ?e (ue_security_name user') ce cn level))"
    using d(1) by (simp add: accept_message_def accept_response_def Let_def arrived_def to_int_back pdu_kinds)
  then show ?thesis using p d(2) by (auto simp: arrived_def to_int_back)
qed

text \<open>An agent that has accepted message 1, its answer, and the manager that waits.\<close>

definition answering :: v3mp where
  "answering = (sample_mp [2, 2] sample_agent)\<lparr>mp_cache := \<lparr>table = Some (Some
     (remote_entry (arrived sample_get 1 4096 [2, 2] [115] [2, 2] [] 2) [2, 2] [] (accepted_ref [2, 2] [117] [115] 2 sample_key)
       SNMPv3_MP_OK) # replicate 4 None), max_entries = 5, entries = 1\<rparr>\<rparr>"

definition waiting :: v3mp where
  "waiting = (sample_mp [1, 1] sample_manager)\<lparr>mp_cache := \<lparr>table = Some (Some (local_entry 1 sample_get None [2, 2] [115] 3 2 [2, 2] []) #
     replicate 4 None), max_entries = 5, entries = 1\<rparr>\<rparr>"

definition sample_rsp :: snmp_pdu where
  "sample_rsp = sample_get\<lparr>command := GET_RSP_MSG\<rparr>"

lemma waiting_ok: "mp_ok waiting" "live (mp_cache waiting) = [local_entry 1 sample_get None [2, 2] [115] 3 2 [2, 2] []]"
    "mp_usm waiting = sample_manager"
  using engine_ids_ok_create
  by (simp_all add: mp_ok_def waiting_def sample_mp_def cache_ok_def table_ok_def live_def MAX_MPMSGID_def)

lemma waiting_awaits: "awaits waiting (local_entry 1 sample_get None [2, 2] [115] SNMP_SECURITY_MODEL_USM 2 [2, 2] [])"
  by (simp add: awaits_def waiting_ok SNMP_SECURITY_MODEL_USM_def) (simp add: local_entry_def)

lemma answering_fields: "mp_usm answering = sample_agent" "own_engine_id_oct answering = [2, 2]"
    "\<exists>c. Cache_get_reference 1 False (mp_cache answering) =
      Some (c, Inr (SNMPv3_MP_OK, Some (accepted_ref [2, 2] [117] [115] 2 sample_key)))"
proof -
  show "mp_usm answering = sample_agent" "own_engine_id_oct answering = [2, 2]" by (simp_all add: answering_def sample_mp_def)
  let ?t = "mp_cache answering"
  let ?e = "remote_entry (arrived sample_get 1 4096 [2, 2] [115] [2, 2] [] 2) [2, 2] []
    (accepted_ref [2, 2] [117] [115] 2 sample_key) SNMPv3_MP_OK"
  have l: "live ?t = [?e]" "cache_ok ?t" by (simp_all add: answering_def cache_ok_def table_ok_def live_def)
  have e: "ce_msg_id ?e = 1" "\<not> ce_local_request ?e" "ce_error_code ?e = SNMPv3_MP_OK"
    "ce_sec_state_ref ?e = Some (accepted_ref [2, 2] [117] [115] 2 sample_key)"
    by (simp_all add: remote_entry_def arrived_def to_int_def)
  from l(2) show "\<exists>c. Cache_get_reference 1 False ?t =
      Some (c, Inr (SNMPv3_MP_OK, Some (accepted_ref [2, 2] [117] [115] 2 sample_key)))"
  proof (cases rule: cache_take_cases [where P = "\<lambda>e. 1 = ce_msg_id e \<and> False = ce_local_request e"])
    case absent
    then show ?thesis using l(1) e by simp
  next
    case (taken c x)
    then show ?thesis using l(1) e by (auto simp: Cache_get_reference_def)
  qed
qed

lemma sample_response_user: "response_user [115] (accepted_ref [2, 2] [117] [115] 2 sample_key) sample_agent = Some sample_key"
  by (simp add: response_user_def accepted_ref_def fill_ref_def sample_key_def)

lemma to_int_1: "to_int 1 = 1"
  by (simp add: to_int_def)

lemma sample_answers: "answers [115] 2 1000 answering 1 sample_key 3 600"
proof -
  have "sane 3" "sane 600" by (simp_all add: sane_def)
  then show ?thesis
    using answering_fields sample_response_user sample_lookups(2) unfolding answers_def to_int_1 by (metis list.distinct(1))
qed

lemma sample_rsp_ok: "pdu_ok sample_rsp" "command sample_rsp = GET_RSP_MSG" "length (agent_addr sample_rsp) = 4"
  by (simp_all add: pdu_ok_def sample_rsp_def sample_get_def pdu_kinds ASN_EXTENSION_ID_def)

lemma agent_builds:
  "\<exists>s' msg. v3MP_snmp_build plain_hash copy_ciphers 1000 sample_rsp 1 (replicate MAX_SNMP_PACKET 0) (int MAX_SNMP_PACKET) []
     [115] 3 2 [2, 2] [] answering = Some (s', Inr msg)"
proof -
  let ?x = "scoped_bytes [2, 2] [] (pdu_bytes sample_rsp)" and ?n = "int MAX_SNMP_PACKET"
  have short: "length ?x \<le> 62" by (rule length_sample_scoped) (simp_all add: sample_rsp_def sample_get_def pdu_kinds)
  then have "length ?x \<le> MAX_SNMP_PACKET" by (simp add: MAX_SNMP_PACKET_def)
  then have sc: "build_scoped sample_rsp ?n [2, 2] [] = Some (Inr ?x)" by (intro build_scoped_fit [OF sample_rsp_ok(1)]) simp_all
  obtain g where g: "build_global 1 ?n (message_flags 2 (command sample_rsp)) 3 = Some (Inr g)" "length g \<le> 35"
    using sample_global by blast
  let ?r = "accepted_ref [2, 2] [117] [115] 2 sample_key"
  have "message_user plain_hash [2, 2] [115] (Some ?r) sample_agent = Some (sample_agent, Some sample_key)"
    using sample_response_user by (simp add: message_user_def)
  moreover have "usm_auth_priv sample_agent = default_ap" by (simp add: sample_agent_def sample_usm_def)
  ultimately obtain msg where gen: "generate_msg plain_hash copy_ciphers g ?n [2, 2] [115] 2 ?x (Some ?r) 1000 (replicate MAX_SNMP_PACKET 0)
      sample_agent = Some (sample_agent, Inr msg)"
    using sample_generates [OF _ sample_lookups(2) _ short g(2)] by blast
  obtain c where c: "Cache_get_reference 1 False (mp_cache answering) = Some (c, Inr (SNMPv3_MP_OK, Some ?r))"
    using answering_fields(3) by blast
  have k: "uses_own_engine GET_RSP_MSG" "\<not> is_request GET_RSP_MSG" by (simp_all add: is_request_def uses_own_engine_def pdu_kinds)
  show ?thesis using sc g(1) gen k c
    by (simp add: v3MP_snmp_build_def build_with_id_def Let_def SNMP_SECURITY_MODEL_USM_def sample_rsp_ok(2) to_int_1 answering_fields(1, 2))
qed

lemma sample_awaits:
  "awaits waiting (local_entry (to_int 1) sample_get None (own_engine_id_oct answering) (ue_security_name sample_key)
     SNMP_SECURITY_MODEL_USM 2 [2, 2] [])"
  using waiting_awaits by (simp add: to_int_1 answering_fields(2) sample_key_def)

lemma response_setting:
  obtains v where "can_send (usm_auth_priv (mp_usm answering)) 2 sample_key AuthMD5"
    and "length (own_engine_id_oct answering) + length (ue_user_name sample_key) + auth_get_auth_params_len AuthMD5 \<le> 89"
    and "same_keys (usm_auth_priv (mp_usm answering)) sample_key (usm_auth_priv (mp_usm waiting)) sample_key"
    and "receives plain_hash (own_engine_id_oct answering) (ue_user_name sample_key) 3 600 1000 (mp_usm waiting) sample_key v"
proof -
  have k: "ue_user_name sample_key = [117]" by (simp add: sample_key_def)
  obtain v where "receives plain_hash [2, 2] [117] 3 600 1000 sample_manager sample_key v" using sample_receives by blast
  moreover have "length [2, 2 :: u8] + length [117 :: u8] + auth_get_auth_params_len AuthMD5 \<le> 89" by simp
  ultimately show ?thesis
    using that [of v] sample_can_send unfolding answering_fields waiting_ok(3) k by blast
qed

text \<open>C2: the answer that an agent builds for a request in its cache, whatever engine id its caller gives, arrives at the manager:
\<open>snmp_parse\<close> reads the PDU and the id of the request, finds the request that waits, and takes it out of the cache.  Engine id,
user name and digest have at most 89 octets together.\<close>
theorem response_arrives:
  assumes hash: "digests H" "des_cipher (des_desc cs)" "des_cipher (des3_desc cs)"
    and t: "mp_ok t" and cmd: "command pdu = GET_RSP_MSG" and ok: "pdu_ok pdu" and into: "length (agent_addr into) = 4"
    and names: "length ce \<le> 32" "length cn \<le> 32" and room: "MAX_SNMP_PACKET \<le> length packet"
    and agent: "answers name level now s i user boots time" and can: "can_send (usm_auth_priv (mp_usm s)) level user a"
    and short: "length (own_engine_id_oct s) + length (ue_user_name user) + auth_get_auth_params_len a \<le> 89"
    and keys: "same_keys (usm_auth_priv (mp_usm s)) user (usm_auth_priv (mp_usm t)) user'"
    and known: "receives H (own_engine_id_oct s) (ue_user_name user) boots time now' (mp_usm t) user' v"
    and waits: "awaits t (local_entry (to_int i) q None (own_engine_id_oct s) (ue_security_name user') SNMP_SECURITY_MODEL_USM level ce cn)"
    and built: "v3MP_snmp_build H cs now pdu i packet (int MAX_SNMP_PACKET) e name model level ce cn s = Some (s', Inr msg)"
  shows "\<exists>m t'. v3MP_snmp_parse H cs now' into msg (int (length msg)) t = Some (t', [], Inr m) \<and>
    vm_pdu m = received_pdu into pdu \<and> to_int (vm_msg_id m) = to_int i \<and> vm_security_name m = ue_security_name user' \<and>
    vm_security_level m = level \<and> vm_context_engine_id m = ce \<and> vm_context_name m = cn \<and> mp_usm t' = v \<and>
    mset (live (mp_cache t')) = mset (live (mp_cache t)) -
      {#local_entry (to_int i) q None (own_engine_id_oct s) (ue_security_name user') SNMP_SECURITY_MODEL_USM level ce cn#}"
  using response_goes_through [OF assms] .

theorem response_arrives_witness:
  "\<exists>s' msg m t'. v3MP_snmp_build plain_hash copy_ciphers 1000 sample_rsp 1 (replicate MAX_SNMP_PACKET 0) (int MAX_SNMP_PACKET) []
      [115] 3 2 [2, 2] [] answering = Some (s', Inr msg) \<and>
    v3MP_snmp_parse plain_hash copy_ciphers 1000 sample_rsp msg (int (length msg)) waiting = Some (t', [], Inr m) \<and>
    vm_pdu m = received_pdu sample_rsp sample_rsp \<and> live (mp_cache t') = []"
proof -
  obtain s' msg where b: "v3MP_snmp_build plain_hash copy_ciphers 1000 sample_rsp 1 (replicate MAX_SNMP_PACKET 0) (int MAX_SNMP_PACKET) []
      [115] 3 2 [2, 2] [] answering = Some (s', Inr msg)" using agent_builds by blast
  obtain v where k: "can_send (usm_auth_priv (mp_usm answering)) 2 sample_key AuthMD5"
    "length (own_engine_id_oct answering) + length (ue_user_name sample_key) + auth_get_auth_params_len AuthMD5 \<le> 89"
    "same_keys (usm_auth_priv (mp_usm answering)) sample_key (usm_auth_priv (mp_usm waiting)) sample_key"
    "receives plain_hash (own_engine_id_oct answering) (ue_user_name sample_key) 3 600 1000 (mp_usm waiting) sample_key v"
    by (rule response_setting)
  obtain m t' where "v3MP_snmp_parse plain_hash copy_ciphers 1000 sample_rsp msg (int (length msg)) waiting = Some (t', [], Inr m)"
    "vm_pdu m = received_pdu sample_rsp sample_rsp" "mset (live (mp_cache t')) = mset (live (mp_cache waiting)) -
      {#local_entry (to_int 1) sample_get None (own_engine_id_oct answering) (ue_security_name sample_key) SNMP_SECURITY_MODEL_USM 2 [2, 2] []#}"
    using response_arrives [OF digests_plain_hash copy_ciphers_ok waiting_ok(1) sample_rsp_ok(2, 1, 3) sample_sizes(2-4)
      sample_answers k sample_awaits b] by blast
  moreover have "mset (live (mp_cache waiting)) - {#local_entry (to_int 1) sample_get None (own_engine_id_oct answering)
      (ue_security_name sample_key) SNMP_SECURITY_MODEL_USM 2 [2, 2] []#} = {#}"
    using sample_awaits by (simp add: awaits_def waiting_ok(2))
  ultimately show ?thesis using b by (metis mset_zero_iff)
qed

text \<open>C4: \<open>snmp_parse\<close> accepts a response only as the answer to a request of this engine that waits in the cache, with the message
id, the security name, the security model and the level of the request, and with its engine id, its context engine id and its
context name, except that one of these three that the request left empty agrees with anything.  The request leaves the cache,
and nothing is sent.\<close>
theorem answer_consumes_request:
  assumes "mp_ok s" and "v3MP_snmp_parse H cs now pdu inBuf n s = Some (s', sent, Inr m)" and "command (vm_pdu m) = GET_RSP_MSG"
  shows "sent = [] \<and> (\<exists>e\<in>set (live (mp_cache s)). ce_local_request e \<and> ce_msg_id e = to_int (vm_msg_id m) \<and>
    ce_sec_name e = vm_security_name m \<and> ce_sec_level e = vm_security_level m \<and> ce_sec_model e = vm_security_model m \<and>
    (ce_sec_engine_id e = [] \<or> ce_sec_engine_id e = vm_security_engine_id m) \<and>
    (ce_context_engine_id e = [] \<or> ce_context_engine_id e = vm_context_engine_id m) \<and>
    (ce_context_name e = [] \<or> ce_context_name e = vm_context_name m) \<and>
    mset (live (mp_cache s')) = mset (live (mp_cache s)) - {#e#})"
proof -
  obtain h level ms q l ce cn where a: "accept_message H cs now (is_reportable (vh_flags h)) ((received_message pdu h level ms)\<lparr>vm_pdu := q,
      vm_context_engine_id := ce, vm_context_name := cn\<rparr>) (ms_ref ms) (s\<lparr>mp_usm := ms_usm ms, mp_usm_stats := ms_stats ms\<rparr>) =
      Some (s', sent, Inr m)" (is "accept_message _ _ _ _ ?r _ _ = _")
    by (rule parse_accepted [OF assms(2)])
  note f = accepted_fields [OF a]
  have cmd: "command (vm_pdu ?r) = GET_RSP_MSG" using assms(3) f(9) by simp
  have s: "mp_cache (s\<lparr>mp_usm := ms_usm ms, mp_usm_stats := ms_stats ms\<rparr>) = mp_cache s" by simp
  from a show ?thesis
  proof (cases rule: accepted_message)
    case (answer c e)
    have ok: "cache_ok (mp_cache s)" using assms(1) by (simp add: mp_ok_def)
    have t: "Cache_take (\<lambda>x. ce_msg_id x = to_int (vm_msg_id m) \<and> ce_local_request x = True) (mp_cache s) = Some (c, Some e)"
      using answer(3) unfolding s f(8) [symmetric]
      by (auto simp: Cache_get_entry_def bind_eq_Some_iff split: option.splits)
    have e: "e \<in> set (live (mp_cache s))" "ce_msg_id e = to_int (vm_msg_id m)" "ce_local_request e"
      "mset (live c) = mset (live (mp_cache s)) - {#e#}"
      using cache_take_cases [OF ok, of "\<lambda>x. ce_msg_id x = to_int (vm_msg_id m) \<and> ce_local_request x = True"] t by auto
    moreover have "\<not> response_mismatch ?r e" using answer(6) cmd by simp
    ultimately show ?thesis using answer(2, 4) unfolding response_mismatch_def f(2-7) [symmetric]
      by (intro conjI bexI [OF _ e(1)]) auto
  next
    case request
    then show ?thesis using confirmed_kinds(3) cmd by blast
  next
    case notification
    then show ?thesis using cmd by (auto simp: pdu_kinds)
  qed
qed

theorem answer_consumes_request_witness:
  "\<exists>msg t' m. v3MP_snmp_parse plain_hash copy_ciphers 1000 sample_rsp msg (int (length msg)) waiting = Some (t', [], Inr m) \<and>
    vm_security_name m = [115] \<and> mset (live (mp_cache t')) = {#}"
proof -
  obtain s' msg where b: "v3MP_snmp_build plain_hash copy_ciphers 1000 sample_rsp 1 (replicate MAX_SNMP_PACKET 0) (int MAX_SNMP_PACKET) []
      [115] 3 2 [2, 2] [] answering = Some (s', Inr msg)" using agent_builds by blast
  obtain v where k: "can_send (usm_auth_priv (mp_usm answering)) 2 sample_key AuthMD5"
    "length (own_engine_id_oct answering) + length (ue_user_name sample_key) + auth_get_auth_params_len AuthMD5 \<le> 89"
    "same_keys (usm_auth_priv (mp_usm answering)) sample_key (usm_auth_priv (mp_usm waiting)) sample_key"
    "receives plain_hash (own_engine_id_oct answering) (ue_user_name sample_key) 3 600 1000 (mp_usm waiting) sample_key v"
    by (rule response_setting)
  obtain m t' where m: "v3MP_snmp_parse plain_hash copy_ciphers 1000 sample_rsp msg (int (length msg)) waiting = Some (t', [], Inr m)"
    "vm_pdu m = received_pdu sample_rsp sample_rsp"
    using response_goes_through [OF digests_plain_hash copy_ciphers_ok waiting_ok(1) sample_rsp_ok(2, 1, 3) sample_sizes(2-4)
      sample_answers k sample_awaits b] by blast
  have "command (vm_pdu m) = GET_RSP_MSG" by (simp add: m(2) received_pdu_def Let_def sample_rsp_ok(2))
  note a = answer_consumes_request [OF waiting_ok(1) m(1) this]
  have "vm_security_name m = ce_sec_name (local_entry 1 sample_get None [2, 2] [115] 3 2 [2, 2] [])" "mset (live (mp_cache t')) = {#}"
    using a by (simp_all add: waiting_ok(2))
  then show ?thesis using m(1) by (auto simp: local_entry_def)
qed

end
