(* ===== verification/Mp_State_Properties.thy ===== *)
theory Mp_State_Properties
  imports Mp_Answer_Properties
begin

section \<open>Properties of the state of the message processing model\<close>

text \<open>
  The invariant over the whole life of an engine, the first message to an engine that is not known, the table of engine ids, and
  the cache when a response does not match or a request comes twice.
\<close>

subsection \<open>The invariant\<close>

text \<open>C5: whatever an engine builds, parses, adds, deletes and gives up after its start, its cache and its table of engine ids
keep room for the next entry, no request is in the cache twice, and the next message id is below \<open>MAX_MPMSGID\<close>.\<close>
theorem engine_invariant:
  assumes "v3MP_create engine_id boots random now = Some s" and "mp_steps H cs s s'"
  shows "cache_ok (mp_cache s') \<and> engine_ids_ok (mp_engine_ids s') \<and> distinct (map entry_key (live (mp_cache s'))) \<and>
    cur_msg_id s' < MAX_MPMSGID"
  using mp_steps_keep [OF assms(2) mp_ok_create [OF assms(1)]] by (simp add: mp_ok_def)

theorem engine_invariant_witness:
  "\<exists>(s :: v3mp) s' t rc. v3MP_create [1, 1] 0x7FFF 0 1000 = Some s \<and> EngineIdTable_add_entry [2, 2] [49] 161 (mp_engine_ids s) = Some (t, rc) \<and>
     s' = s\<lparr>mp_usm := sample_manager, mp_engine_ids := t\<rparr> \<and> cache_ok (mp_cache s') \<and> engine_ids_ok (mp_engine_ids s')"
proof -
  obtain tt where "USMTimeTable_create [1, 1] (uint (0x7FFF :: u32)) 1000 = Some tt"
    using create_ok [of 1000 "[1, 1]" "uint (0x7FFF :: u32)"] by auto
  then obtain s where s: "v3MP_create [1, 1] 0x7FFF 0 1000 = Some s" by (simp add: v3MP_create_def USM_create_def)
  then have "engine_ids_ok (mp_engine_ids s)" using mp_ok_create by (simp add: mp_ok_def)
  then obtain t rc where t: "EngineIdTable_add_entry [2, 2] [49] 161 (mp_engine_ids s) = Some (t, rc)"
    by (rule engine_add_cases [where engine_id = "[2, 2]" and host = "[49]" and port = 161])
  have "mp_step plain_hash copy_ciphers s (s\<lparr>mp_usm := sample_manager\<rparr>)" by (rule mp_step.manage)
  moreover have "mp_step plain_hash copy_ciphers (s\<lparr>mp_usm := sample_manager\<rparr>) (s\<lparr>mp_usm := sample_manager, mp_engine_ids := t\<rparr>)"
    using t by (intro mp_step.add_engine [where e = "[2, 2]" and host = "[49]" and port = 161 and rc = rc]) simp
  ultimately have "mp_steps plain_hash copy_ciphers s (s\<lparr>mp_usm := sample_manager, mp_engine_ids := t\<rparr>)" by simp
  then show ?thesis using engine_invariant [OF s] s t by blast
qed

subsection \<open>The first message\<close>

lemma generate_first:
  "generate_msg H cs g n [] name level x None now packet u = generate_msg H cs g n [] [] level x None now packet u"
  by (simp add: generate_msg_def message_user_def)

lemma build_with_id_sent:
  assumes "\<not> uses_own_engine (command pdu)" and "cache_ok (mp_cache s)" and "model = SNMP_SECURITY_MODEL_USM"
  shows "map_option snd (build_with_id H cs now pdu i None packet n e name model level ce cn s) =
    (case build_scoped pdu n ce cn of None \<Rightarrow> None
     | Some (Inl _) \<Rightarrow> Some (Inl SNMPv3_MP_BUILD_ERROR)
     | Some (Inr x) \<Rightarrow> (case build_global i n (message_flags level (command pdu)) model of None \<Rightarrow> None
       | Some (Inl _) \<Rightarrow> Some (Inl SNMPv3_MP_BUILD_ERROR)
       | Some (Inr g) \<Rightarrow> map_option snd (generate_msg H cs g n e name level x None now packet (mp_usm s))))"
proof -
  have c: "(Cache_add_entry e (mp_cache s) = None) = False" for e
    using cache_add_cases [OF assms(2)] by (metis option.distinct(1))
  show ?thesis
    using assms(1, 3)
    by (auto simp: c build_with_id_def Let_def split: option.split sum.split bind_split)
qed

text \<open>C6: the first message to an engine whose id is not known, which goes out without authentication and encryption, tells
nothing of a confirmed request but its kind, its request id, its two numbers (\<open>errstat\<close> and \<open>errindex\<close>, which are the non
repeaters and the maximal repetitions of a GETBULK) and its context: whatever the bindings, the security name, the security
model and the level that the caller gives, the octets are those of the request without bindings of nobody.\<close>
theorem first_message_reveals_nothing:
  assumes "mp_ok s" and "is_confirmed (command pdu)"
  shows "map_option snd (v3MP_snmp_build H cs now pdu i packet n [] name model level ce cn s) =
    map_option snd (v3MP_snmp_build H cs now (pdu\<lparr>variables := []\<rparr>) 0 packet n [] [] SNMP_SECURITY_MODEL_USM
      SNMP_SECURITY_LEVEL_NOAUTH_NOPRIV ce cn s)"
proof -
  have s: "cache_ok (mp_cache (fst (next_msg_id s)))" using assms(1) by (simp add: mp_ok_def next_msg_id_def Let_def)
  have p: "clear_pdu (pdu\<lparr>variables := []\<rparr>) False = clear_pdu pdu False" "command (clear_pdu pdu False) = command pdu"
    by (simp_all add: clear_pdu_def)
  note k = confirmed_kinds [OF assms(2)]
  have own: "\<not> uses_own_engine (command (clear_pdu pdu False))" using k by (simp add: p)
  show ?thesis
    using k by (simp add: v3MP_snmp_build_def Let_def split_def p build_with_id_sent [OF own s refl] generate_first
        [where name = name] cong: option.case_cong sum.case_cong)
qed

definition sample_set :: "u8 \<Rightarrow> snmp_pdu" where
  "sample_set x = sample_get\<lparr>command := SET_REQ_MSG,
     variables := [\<lparr>vb_name = [1, 3], vb_type = ASN_OCTET_STR, vb_val = Str_val [x], vb_val_len = 1\<rparr>]\<rparr>"

text \<open>The request of nobody can be built.\<close>

lemma nobody_builds:
  "\<exists>msg. map_option snd (v3MP_snmp_build plain_hash copy_ciphers 1000 ((sample_set x)\<lparr>variables := []\<rparr>) 0 (replicate MAX_SNMP_PACKET 0)
     (int MAX_SNMP_PACKET) [] [] SNMP_SECURITY_MODEL_USM SNMP_SECURITY_LEVEL_NOAUTH_NOPRIV [2, 2] [] (sample_mp [1, 1] sample_manager)) =
   Some (Inr msg)"
proof -
  let ?pdu = "(sample_set x)\<lparr>variables := []\<rparr>" and ?n = "int MAX_SNMP_PACKET"
  let ?x = "scoped_bytes [2, 2] [] (pdu_bytes ?pdu)"
  let ?sp = "\<lparr>up_engine_id = [], up_engine_boots = 0, up_engine_time = 0, up_user_name = [], up_auth = [], up_priv = []\<rparr>"
  have p: "pdu_ok ?pdu" by (simp add: pdu_ok_def sample_set_def sample_get_def pdu_kinds ASN_EXTENSION_ID_def)
  have cl: "clear_pdu ?pdu False = ?pdu" by (simp add: clear_pdu_def sample_set_def sample_get_def pdu_kinds)
  have k: "is_request (command ?pdu)" "\<not> uses_own_engine (command ?pdu)"
    by (simp_all add: sample_set_def is_request_def uses_own_engine_def pdu_kinds)
  have short: "length ?x \<le> 62" by (rule length_sample_scoped) (simp_all add: sample_set_def sample_get_def pdu_kinds)
  then have fit: "length ?x \<le> MAX_SNMP_PACKET" by (simp add: MAX_SNMP_PACKET_def)
  then have sc: "build_scoped ?pdu ?n [2, 2] [] = Some (Inr ?x)" by (intro build_scoped_fit [OF p]) simp_all
  obtain g where g: "build_global 1 ?n (message_flags 1 (command ?pdu)) 3 = Some (Inr g)" "length g \<le> 35"
    using sample_global by blast
  have b: "length (sec_bytes ?sp) \<le> 127" by (rule short_sec_bytes) simp_all
  have o: "length (ber_obj t c) \<le> 4 + length c" if "length c < 65536" for t c
    using that by (simp add: length_ber_obj ber_len_def)
  have "length (whole_content g ?sp ?x) \<le> 238"
    using b g short o [of "sec_bytes ?sp" ASN_OCTET_STR] length_int_obj [of 3] by (simp add: whole_content_def)
  then have l: "int (length (whole_bytes g ?sp ?x)) \<le> ?n"
    using o [of "whole_content g ?sp ?x" ASN_SEQ_CON] by (simp add: whole_bytes_def MAX_SNMP_PACKET_def)
  have "message_signed plain_hash ap g ?n 1 zero_user ?sp ?x (replicate MAX_SNMP_PACKET 0) = Some (Inr (whole_bytes g ?sp ?x))" for ap
    using build_whole_msg_eq [where maxLength = ?n and buf = "replicate MAX_SNMP_PACKET 0" and pos = 0 and sp = ?sp and globalData = g and msgData = ?x] l b
    by (simp add: message_signed_def usm_protocols take_written_0)
  then have gen: "generate_msg plain_hash copy_ciphers g ?n [] [] 1 ?x None 1000 (replicate MAX_SNMP_PACKET 0) u =
      Some (u, Inr (whole_bytes g ?sp ?x))" for u
    using fit by (simp add: generate_msg_def message_user_def message_time_def message_data_def zero_user_def usm_protocols)
  have c: "cache_ok (mp_cache (fst (next_msg_id (sample_mp [1, 1] sample_manager))))" "snd (next_msg_id (sample_mp [1, 1] sample_manager)) = 1"
    using cache_ok_create by (simp_all add: next_msg_id_def sample_mp_def Let_def)
  have "map_option snd (build_with_id plain_hash copy_ciphers 1000 ?pdu 1 None (replicate MAX_SNMP_PACKET 0) ?n [] []
      SNMP_SECURITY_MODEL_USM SNMP_SECURITY_LEVEL_NOAUTH_NOPRIV [2, 2] [] (fst (next_msg_id (sample_mp [1, 1] sample_manager)))) =
    Some (Inr (whole_bytes g ?sp ?x))"
    unfolding build_with_id_sent [OF k(2) c(1) refl] using sc g(1) gen by (simp add: SNMP_SECURITY_MODEL_USM_def usm_protocols)
  then show ?thesis using k(1) by (auto simp: v3MP_snmp_build_def Let_def split_def cl c(2))
qed

text \<open>Two requests that set different values, of different users, at different levels, are the same octets.\<close>

theorem first_message_reveals_nothing_witness:
  "\<exists>msg. map_option snd (v3MP_snmp_build plain_hash copy_ciphers 1000 (sample_set 9) 0 (replicate MAX_SNMP_PACKET 0) (int MAX_SNMP_PACKET)
       [] [115] 3 3 [2, 2] [] (sample_mp [1, 1] sample_manager)) = Some (Inr msg) \<and>
     map_option snd (v3MP_snmp_build plain_hash copy_ciphers 1000 (sample_set 7) 0 (replicate MAX_SNMP_PACKET 0) (int MAX_SNMP_PACKET)
       [] [117, 118] 3 2 [2, 2] [] (sample_mp [1, 1] sample_manager)) = Some (Inr msg)"
proof -
  have c: "is_confirmed (command (sample_set x))" for x by (simp add: sample_set_def is_confirmed_def)
  have "(sample_set 7)\<lparr>variables := []\<rparr> = (sample_set 9)\<lparr>variables := []\<rparr>" by (simp add: sample_set_def)
  then show ?thesis
    using nobody_builds [of 9] unfolding first_message_reveals_nothing [OF sample_mp_ok c] by simp
qed

subsection \<open>The table of engine ids\<close>

lemma find_update:
  assumes "i < length es" and "\<forall>j<i. \<not> P (es ! j)" and "P e"
  shows "List.find P (es[i := e]) = Some e"
proof -
  have "es[i := e] = take i es @ e # drop (Suc i) es" using assms(1) by (rule upd_conv_take_nth_drop)
  moreover have "\<forall>x\<in>set (take i es). \<not> P x" using assms(1, 2) by (auto simp: in_set_conv_nth)
  then have "List.find P (take i es) = None" by (simp add: find_None_iff)
  ultimately show ?thesis using assms(3) by (simp add: find_append)
qed

text \<open>The engine id that was added for an address last is the one that a search for the address gives, also when the table
had entries for the address or for the engine id before.\<close>
theorem added_engine_id_found:
  assumes "engine_ids_ok t" and "EngineIdTable_add_entry engine_id host port t = Some (t', SNMPv3_MP_OK)"
  shows "EngineIdTable_get_entry host port t' = Some (Inr engine_id)"
  using assms(1)
proof (cases rule: engine_add_cases [where engine_id = engine_id and host = host and port = port])
  case full
  then show ?thesis using assms(2) by (simp add: mp_results)
next
  case (new t2)
  have "List.find (\<lambda>e. ee_port e = port \<and> ee_host e = host) (live (ei_table t)) = None"
    using new(2) by (auto simp: find_None_iff)
  then have "List.find (\<lambda>e. ee_port e = port \<and> ee_host e = host) (live (ei_table t2)) =
      Some \<lparr>ee_engine_id = engine_id, ee_host = host, ee_port = port\<rparr>"
    unfolding new(5) by (simp add: find_append)
  then show ?thesis using assms(2) new(3) get_entry_eq [OF new(4)] by (simp add: engine_at_def)
next
  case (replaced t2 i)
  have "List.find (\<lambda>e. ee_port e = port \<and> ee_host e = host) (live (ei_table t2)) =
      Some \<lparr>ee_engine_id = engine_id, ee_host = host, ee_port = port\<rparr>"
    unfolding replaced(7) using replaced(2, 4) by (intro find_update) (auto simp: Let_def)
  then show ?thesis using assms(2) replaced(5) get_entry_eq [OF replaced(6)] by (simp add: engine_at_def)
qed

theorem added_engine_id_found_witness:
  "\<exists>t'. EngineIdTable_add_entry [2, 2] [49] 161 (EngineIdTable_create 10) = Some (t', SNMPv3_MP_OK) \<and>
     EngineIdTable_get_entry [49] 161 t' = Some (Inr [2, 2])"
proof -
  have l: "int (entries (ei_table (EngineIdTable_create 10))) < ei_upper_limit_entries (EngineIdTable_create 10)"
    by (simp add: EngineIdTable_create_def new_table_def MAX_ENGINE_ID_CACHE_SIZE_def)
  obtain t' where "EngineIdTable_add_entry [2, 2] [49] 161 (EngineIdTable_create 10) = Some (t', SNMPv3_MP_OK)"
    using engine_ids_ok_create
    by (rule engine_add_cases [where engine_id = "[2, 2]" and host = "[49]" and port = 161 and t = "EngineIdTable_create 10"])
      (use l in auto)
  then show ?thesis using added_engine_id_found [OF engine_ids_ok_create] by blast
qed

text \<open>C16: the search for an address with its port copies the text to an array of 129 octets without a bound.  An address of 21
to 128 octets of which one cannot be printed and is no line end (octet 10 or 13) becomes a hexadecimal text that is longer than
the array.\<close>
theorem hostport_overflow:
  assumes "21 \<le> length hostport" and "length hostport \<le> MAX_HOST_NAME_LENGTH"
    and "b \<in> set hostport" and "\<not> isprint b" and "b \<noteq> 10" and "b \<noteq> 13"
  shows "EngineIdTable_get_entry_hostport hostport t = None"
proof -
  have "\<not> list_all (\<lambda>b. b = 13 \<or> b = 10 \<or> isprint b) hostport" using assms(3-6) by (auto simp: list_all_iff)
  then have "get_printable hostport = get_printable_hex hostport" by (simp add: get_printable_def)
  moreover have "36 div 16 \<le> (length hostport + 15) div 16" using assms(1) by (intro div_le_mono) simp
  ultimately have "length (get_printable hostport) > MAX_HOST_NAME_LENGTH"
    using assms(1) by (simp add: length_printable_hex MAX_HOST_NAME_LENGTH_def)
  then show ?thesis using assms(2) by (simp add: EngineIdTable_get_entry_hostport_def Let_def)
qed

theorem hostport_overflow_witness:
  "EngineIdTable_get_entry_hostport (replicate 20 49 @ [200]) (EngineIdTable_create 10) = None"
  using hostport_overflow [of "replicate 20 49 @ [200]" 200] by (simp add: MAX_HOST_NAME_LENGTH_def isprint_def)

subsection \<open>The cache\<close>

lemma get_entry_absent:
  assumes "cache_ok t" and "\<forall>x\<in>set (live t). \<not> (ce_local_request x \<and> ce_msg_id x = i)"
  shows "Cache_get_entry i True t = Some (t, Inl SNMPv3_MP_ERROR)"
  using assms(1)
proof (cases rule: cache_take_cases [where P = "\<lambda>x. ce_msg_id x = i \<and> ce_local_request x = True"])
  case absent
  then show ?thesis by (simp add: Cache_get_entry_def)
next
  case (taken t' x)
  then show ?thesis using assms(2) by blast
qed

text \<open>C8: a response with the id of a request that waits, but with another user, level or context, takes the request out of the
cache: it is refused, and then the real response is refused too, because there is no request for it any more.\<close>
theorem mismatch_consumes_request:
  assumes "mp_ok s" and "awaits s e"
    and "command (vm_pdu m) = GET_RSP_MSG" and "to_int (vm_msg_id m) = ce_msg_id e" and "response_mismatch m e"
    and "command (vm_pdu m') = GET_RSP_MSG" and "to_int (vm_msg_id m') = ce_msg_id e"
  shows "\<exists>s' s''. accept_message H cs now flag m r s = Some (s', [], Inl SNMPv3_MP_MATCH_ERROR) \<and>
    mset (live (mp_cache s')) = mset (live (mp_cache s)) - {#e#} \<and>
    accept_message H cs now' flag' m' r' s' = Some (s'', [], Inl SNMPv3_MP_UNKNOWN_PDU_HANDLERS)"
proof -
  obtain t where t: "Cache_get_entry (ce_msg_id e) True (mp_cache s) = Some (t, Inr e)" "cache_ok t"
    "mset (live t) = mset (live (mp_cache s)) - {#e#}" "e \<notin> set (live t)"
    by (rule awaited_taken [OF assms(1, 2)])
  have "\<forall>x\<in>set (live t). \<not> (ce_local_request x \<and> ce_msg_id x = ce_msg_id e)"
    using live_taken [OF t(3)] t(4) assms(2) unfolding awaits_def by blast
  note a = get_entry_absent [OF t(2) this]
  have "accept_message H cs now flag m r s = Some (s\<lparr>mp_cache := t\<rparr>, [], Inl SNMPv3_MP_MATCH_ERROR)"
    using t(1) assms(3-5) by (simp add: accept_message_def accept_response_def Let_def pdu_kinds)
  moreover have "\<exists>s''. accept_message H cs now' flag' m' r' (s\<lparr>mp_cache := t\<rparr>) = Some (s'', [], Inl SNMPv3_MP_UNKNOWN_PDU_HANDLERS)"
    using a assms(6, 7) by (simp add: accept_message_def accept_response_def Let_def)
  moreover have "mp_cache (s\<lparr>mp_cache := t\<rparr>) = t" by simp
  ultimately show ?thesis using t(3) by metis
qed

text \<open>Answers for the manager that waits.\<close>

definition sample_answer :: "u8 list \<Rightarrow> int \<Rightarrow> v3_message" where
  "sample_answer name level = arrived (sample_get\<lparr>command := GET_RSP_MSG\<rparr>) 1 4096 [2, 2] name [2, 2] [] level"

lemma sample_answer_fields: "command (vm_pdu (sample_answer name level)) = GET_RSP_MSG" "vm_msg_id (sample_answer name level) = 1"
    "to_int (vm_msg_id (sample_answer name level)) = ce_msg_id (local_entry 1 sample_get None [2, 2] [115] 3 2 [2, 2] [])"
    "vm_security_level (sample_answer name level) = level"
  by (simp_all add: sample_answer_def arrived_def to_int_def local_entry_def)

theorem mismatch_consumes_request_witness:
  "\<exists>s' s''. accept_message plain_hash copy_ciphers 0 False (sample_answer [115] 1) new_sec_state_reference waiting =
      Some (s', [], Inl SNMPv3_MP_MATCH_ERROR) \<and>
    accept_message plain_hash copy_ciphers 0 False (sample_answer [115] 2) new_sec_state_reference s' =
      Some (s'', [], Inl SNMPv3_MP_UNKNOWN_PDU_HANDLERS)"
proof -
  let ?e = "local_entry 1 sample_get None [2, 2] [115] 3 2 [2, 2] []"
  have e: "awaits waiting ?e" using waiting_awaits by (simp add: SNMP_SECURITY_MODEL_USM_def)
  have w: "response_mismatch (sample_answer [115] 1) ?e"
    by (simp add: response_mismatch_def sample_answer_fields) (simp add: local_entry_def)
  show ?thesis
    using mismatch_consumes_request [OF waiting_ok(1) e sample_answer_fields(1, 3) w sample_answer_fields(1, 3)]
    by blast
qed

text \<open>A request that was accepted is accepted when it comes again: \<open>add_entry\<close> says that it is doubled, the state stays as
it is, and \<open>snmp_parse\<close> hands it to the caller with \<open>SNMPv3_MP_OK\<close>, although a comment there says that it will be ignored.\<close>
theorem doubled_request_accepted:
  assumes "mp_ok s" and "is_confirmed (command (vm_pdu m))"
    and "accept_message H cs now flag m r s = Some (s', sent, Inr m)"
  shows "accept_message H cs now' flag m r' s' = Some (s', [], Inr m)"
  using assms(3)
proof (cases rule: accepted_message)
  case answer
  then show ?thesis using confirmed_kinds [OF assms(2)] by simp
next
  case (request c rc)
  let ?e = "\<lambda>r. remote_entry m (vm_context_engine_id m) (vm_context_name m) r SNMPv3_MP_OK"
  have k: "same_entry (?e r') x = same_entry (?e r) x" for x by (simp add: same_entry_def remote_entry_def)
  have t: "cache_ok (mp_cache s)" using assms(1) by (simp add: mp_ok_def)
  have "cache_fine c" using cache_fine_add [OF mp_ok_fine [OF assms(1)] request(5)] .
  then have "cache_ok c" by (simp add: cache_fine_def)
  then have "Cache_add_entry (?e r') c = Some (c, SNMPv3_MP_DOUBLED_MESSAGE)"
  proof (cases rule: cache_add_cases [where e = "?e r'"])
    case (added c')
    then show ?thesis using cached_entry(1) [OF t request(5)] k by blast
  qed
  then show ?thesis
    using request confirmed_kinds [OF assms(2)] by (auto simp: accept_message_def accept_request_def Let_def)
next
  case notification
  then show ?thesis using assms(2) by (auto simp: is_confirmed_def pdu_kinds)
qed

theorem doubled_request_accepted_witness:
  "\<exists>s' m. accept_message plain_hash copy_ciphers 0 True m new_sec_state_reference (sample_mp [2, 2] sample_agent) = Some (s', [], Inr m) \<and>
    accept_message plain_hash copy_ciphers 1 True m new_sec_state_reference s' = Some (s', [], Inr m)"
proof -
  define m where "m = arrived sample_get 1 4096 [2, 2] [115] [2, 2] [] 1"
  define s where "s = sample_mp [2, 2] sample_agent"
  have m: "command (vm_pdu m) = command sample_get" "vm_security_engine_id m = own_engine_id s"
    by (simp_all add: m_def s_def arrived_def sample_mp_def)
  have ok: "mp_ok s" unfolding s_def by (rule sample_mp_ok)
  then have "cache_ok (mp_cache s)" by (simp add: mp_ok_def)
  then obtain c rc where c: "Cache_add_entry (remote_entry m (vm_context_engine_id m) (vm_context_name m) new_sec_state_reference
      SNMPv3_MP_OK) (mp_cache s) = Some (c, rc)"
    using cache_add_cases by metis
  have first: "accept_message plain_hash copy_ciphers 0 True m new_sec_state_reference s = Some (s\<lparr>mp_cache := c\<rparr>, [], Inr m)"
    using confirmed_kinds [OF sample_get_ok(2)] sample_get_ok(2) c
    by (simp add: accept_message_def accept_request_def Let_def m)
  have "is_confirmed (command (vm_pdu m))" using sample_get_ok(2) by (simp only: m(1))
  note again = doubled_request_accepted [OF ok this first, of 1 new_sec_state_reference]
  show ?thesis using first again unfolding s_def by blast
qed

end
