(* ===== verification/Snmp_Oid.thy ===== *)
theory Snmp_Oid
  imports C_Strings Snmp_Asn1
begin

section \<open>Class Oid\<close>

text \<open>
  The object identifiers of the application (\<^verbatim>\<open>src/snmp++/src/oid.cpp\<close>, \<^verbatim>\<open>src/snmp++/include/snmp_pp/oid.h\<close>): an array of
  sub identifiers with the length that is in use, and the text of the last call of \<open>get_printable\<close>, which is given again while
  \<open>m_changed\<close> is false.  The buffer for a part of the text has no such memory and is left out.  \<open>None\<close> is a write behind
  the end of a buffer.
\<close>

record oid_obj =
  oid_ptr :: "u64 list option"
  oid_len :: nat
  iv_str :: "string option"
  m_changed :: bool

definition subids :: "oid_obj \<Rightarrow> u64 list" where
  "subids o1 = (case oid_ptr o1 of None \<Rightarrow> [] | Some a \<Rightarrow> take (oid_len o1) a)"

definition Oid_create :: oid_obj where
  "Oid_create = \<lparr>oid_ptr = None, oid_len = 0, iv_str = None, m_changed = True\<rparr>"

definition oid_valid :: "oid_obj \<Rightarrow> bool" where
  "oid_valid o1 \<longleftrightarrow> oid_ptr o1 \<noteq> None"

definition delete_oid_ptr :: "oid_obj \<Rightarrow> oid_obj" where
  "delete_oid_ptr o1 = o1\<lparr>oid_ptr := None, oid_len := 0, m_changed := True\<rparr>"

subsection \<open>Text\<close>

text \<open>\<open>temp\<close> has \<open>nz\<close> elements, one for each character of the text.\<close>

definition put_temp :: "nat \<Rightarrow> u64 list \<Rightarrow> u64 list \<Rightarrow> u64 list option" where
  "put_temp nz temp xs = (if nz < length temp + length xs then None else Some (temp @ xs))"

definition ends_here :: "string \<Rightarrow> bool" where
  "ends_here s \<longleftrightarrow> s = [] \<or> hd s = CHR ''.''"

text \<open>One iteration, after the dot: digits, or characters between two dollar signs; the inner \<open>None\<close> is a text that is refused.\<close>

definition oid_token :: "nat \<Rightarrow> string \<Rightarrow> u64 list \<Rightarrow> (string \<times> u64 list) option option" where
  "oid_token nz s temp = (
     if s \<noteq> [] \<and> is_digit (hd s)
     then Option.bind (put_temp nz temp [of_nat (digits_val 10 0 (takeWhile is_digit s))]) (\<lambda>temp.
       let s = dropWhile is_digit s in Some (if ends_here s then Some (s, temp) else None))
     else if ends_here s then Some (Some (s, temp))
     else if hd s \<noteq> CHR ''$'' then Some None
     else let text = takeWhile (\<lambda>c. c \<noteq> CHR ''$'') (tl s); s = dropWhile (\<lambda>c. c \<noteq> CHR ''$'') (tl s) in
       Option.bind (put_temp nz temp (map (\<lambda>c. of_nat (code_of c)) text)) (\<lambda>temp.
       Some (if s \<noteq> [] \<and> ends_here (tl s) then Some (tl s, temp) else None)))"

definition after_dot :: "string \<Rightarrow> string" where
  "after_dot s = (if s \<noteq> [] \<and> hd s = CHR ''.'' then tl s else s)"

lemma oid_token_length:
  assumes "oid_token nz s temp = Some (Some (s', temp'))"
  shows "length s' < length s \<or> (ends_here s \<and> s' = s)"
proof (cases s)
  case Nil
  then show ?thesis using assms by (simp add: oid_token_def ends_here_def)
next
  case (Cons c cs)
  have d: "length (dropWhile P cs) < Suc (length cs)" "length (tl (dropWhile P cs)) < Suc (length cs)" for P
    using length_dropWhile_le [of P cs] by (simp_all add: le_imp_less_Suc)
  show ?thesis
    using assms d Cons by (auto simp: oid_token_def Let_def bind_eq_Some_iff simp del: length_tl split: if_splits)
qed

lemma oid_token_shorter:
  assumes "s \<noteq> []" and "oid_token nz (after_dot s) temp = Some (Some (s', temp'))"
  shows "length s' < length s"
  using oid_token_length [OF assms(2)] assms(1) by (cases s) (auto simp: after_dot_def ends_here_def split: if_splits)

function oid_tokens :: "nat \<Rightarrow> string \<Rightarrow> u64 list \<Rightarrow> u64 list option option" where
  "oid_tokens nz s temp = (
     if s = [] \<or> nz \<le> length temp then Some (Some temp)
     else (case oid_token nz (after_dot s) temp of None \<Rightarrow> None
       | Some None \<Rightarrow> Some None
       | Some (Some (s', temp)) \<Rightarrow> oid_tokens nz s' temp))"
  by auto
termination
  by (relation "measure (\<lambda>(nz, s, temp). length s)") (auto simp: oid_token_shorter)

declare oid_tokens.simps [simp del]

text \<open>The destination is an array and its length.\<close>

definition StrToOid :: "string option \<Rightarrow> u64 list option \<times> nat \<Rightarrow> ((u64 list option \<times> nat) \<times> int) option" where
  "StrToOid str dst = (case str of None \<Rightarrow> Some ((None, 0), -1)
     | Some s \<Rightarrow> if s = [] then Some ((None, 0), -1)
       else (case oid_tokens (length s) s [] of None \<Rightarrow> None
         | Some None \<Rightarrow> Some (dst, -1)
         | Some (Some temp) \<Rightarrow> Some ((Some temp, length temp), int (length temp))))"

definition set_oid :: "u64 list option \<times> nat \<Rightarrow> oid_obj \<Rightarrow> oid_obj" where
  "set_oid dst o1 = o1\<lparr>oid_ptr := fst dst, oid_len := snd dst\<rparr>"

definition SNMPBUFFSIZE :: nat where "SNMPBUFFSIZE = 11"
definition SNMPCHARSIZE :: nat where "SNMPCHARSIZE = 11"

text \<open>The loop of \<open>OidToStr\<close>; a sub identifier is printed to an array of \<open>SNMPBUFFSIZE\<close> characters first.\<close>

fun oid_to_str :: "nat \<Rightarrow> string \<Rightarrow> u64 list \<Rightarrow> (string \<times> int) option" where
  "oid_to_str room str [] = Some (str, int (length str) + 1)"
| "oid_to_str room str (x # xs) = (
     let szNumber = dec (unat x) in
     if SNMPBUFFSIZE < length szNumber + 1 then None
     else if room \<le> length str + length szNumber + 1 then Some (str, -2)
     else oid_to_str room ((if str = [] then [] else str @ ''.'') @ szNumber) xs)"

definition OidToStr :: "u64 list \<Rightarrow> nat \<Rightarrow> (string \<times> int) option" where
  "OidToStr src room = (if src = [] then Some ([], -1) else oid_to_str room [] src)"

text \<open>\<open>start\<close> counts from 1; the sums wrap around.\<close>

definition get_printable_range :: "u64 \<Rightarrow> u64 \<Rightarrow> oid_obj \<Rightarrow> string option" where
  "get_printable_range start n o1 = (
     let my_start = start - 1; my_end = my_start + n; nz = oid_len o1 * (SNMPCHARSIZE + 1) + 1 in
     if start = 0 \<or> unat my_end > oid_len o1 then Some []
     else let text = dotted (map unat (take (unat my_end - unat my_start) (drop (unat my_start) (subids o1)))) in
       if nz < length text + 1 then None else Some text)"

definition Oid_get_printable :: "oid_obj \<Rightarrow> (oid_obj \<times> string) option" where
  "Oid_get_printable o1 = (case (m_changed o1, iv_str o1) of
     (False, s) \<Rightarrow> map_option (\<lambda>s. (o1, s)) s
   | _ \<Rightarrow> map_option (\<lambda>s. (o1\<lparr>iv_str := Some s, m_changed := False\<rparr>, s)) (get_printable_range 1 (of_nat (oid_len o1)) o1))"

definition Oid_get_printable_right :: "u64 \<Rightarrow> oid_obj \<Rightarrow> string option" where
  "Oid_get_printable_right n o1 = get_printable_range (of_nat (oid_len o1) - n + 1) n o1"

subsection \<open>Construction and assignment\<close>

definition Oid_of_string :: "string option \<Rightarrow> oid_obj option" where
  "Oid_of_string s = map_option (\<lambda>(dst, _). set_oid dst Oid_create) (StrToOid s (None, 0))"

definition Oid_assign_string :: "string option \<Rightarrow> oid_obj \<Rightarrow> oid_obj option" where
  "Oid_assign_string s o1 = map_option (\<lambda>(dst, _). set_oid dst (delete_oid_ptr o1)) (StrToOid s (None, 0))"

definition Oid_of_array :: "u64 list \<Rightarrow> oid_obj" where
  "Oid_of_array raw = (if raw = [] then Oid_create else Oid_create\<lparr>oid_ptr := Some raw, oid_len := length raw\<rparr>)"

text \<open>The constructor for a text that is not in dotted notation comes after \<open>set_data\<close>.  The copy constructor and the assignment, with \<open>OidCopy\<close>.\<close>

definition Oid_copy :: "oid_obj \<Rightarrow> oid_obj" where
  "Oid_copy src = (if oid_len src = 0 then Oid_create
     else Oid_create\<lparr>oid_ptr := Some (subids src), oid_len := oid_len src\<rparr>)"

definition Oid_assign :: "oid_obj \<Rightarrow> oid_obj \<Rightarrow> oid_obj" where
  "Oid_assign src o1 = (if oid_len src = 0 then delete_oid_ptr o1
     else (delete_oid_ptr o1)\<lparr>oid_ptr := Some (subids src), oid_len := oid_len src\<rparr>)"

text \<open>A longer value needs a new array; a shorter one is copied over the front of the old array.\<close>

definition overwrite :: "u64 list \<Rightarrow> oid_obj \<Rightarrow> oid_obj option" where
  "overwrite raw o1 = (
     let o1 = (if oid_len o1 < length raw then (delete_oid_ptr o1)\<lparr>oid_ptr := Some (replicate (length raw) 0)\<rparr> else o1) in
     case oid_ptr o1 of None \<Rightarrow> if raw = [] then Some (o1\<lparr>oid_len := 0, m_changed := True\<rparr>) else None
     | Some a \<Rightarrow> if length a < length raw then None
         else Some (o1\<lparr>oid_ptr := Some (raw @ drop (length raw) a), oid_len := length raw, m_changed := True\<rparr>))"

definition set_data :: "u64 list \<Rightarrow> oid_obj \<Rightarrow> oid_obj option" where
  "set_data raw_oid o1 = overwrite raw_oid o1"

text \<open>The assignment of a value of another class: an identifier that is valid is copied with \<open>set_data\<close>, and \<open>None\<close> stands for all
  other values.\<close>

definition Oid_assign_syntax :: "oid_obj option \<Rightarrow> oid_obj \<Rightarrow> oid_obj option" where
  "Oid_assign_syntax val o1 = (let o1 = delete_oid_ptr o1 in
     case val of None \<Rightarrow> Some o1 | Some v \<Rightarrow> set_data (subids v) o1)"

text \<open>Characters are signed; nothing is changed when there are none.\<close>

definition set_data_string :: "u8 list \<Rightarrow> oid_obj \<Rightarrow> oid_obj option" where
  "set_data_string str o1 = (if str = [] then Some o1 else overwrite (map scast str) o1)"

definition Oid_of_characters :: "u8 list \<Rightarrow> oid_obj option" where
  "Oid_of_characters str = set_data_string str Oid_create"

subsection \<open>Changes\<close>

definition append_oid :: "oid_obj \<Rightarrow> oid_obj \<Rightarrow> oid_obj" where
  "append_oid o2 o1 = (if oid_len o2 = 0 then o1
     else o1\<lparr>oid_ptr := Some (subids o1 @ subids o2), oid_len := oid_len o1 + oid_len o2, m_changed := True\<rparr>)"

definition oid_plus :: "oid_obj \<Rightarrow> oid_obj \<Rightarrow> oid_obj" where
  "oid_plus o1 o2 = append_oid o2 (Oid_copy o1)"

definition append_subid :: "u64 \<Rightarrow> oid_obj \<Rightarrow> oid_obj" where
  "append_subid i o1 = append_oid (Oid_of_array [i]) o1"

text \<open>The text of the identifier, a dot and the new text are joined in an array of \<open>n\<close> characters; the result of \<open>OidToStr\<close>
  is not looked at.\<close>

definition append_string :: "string option \<Rightarrow> oid_obj \<Rightarrow> oid_obj option" where
  "append_string a o1 = (case a of None \<Rightarrow> Some o1
     | Some a \<Rightarrow>
       let a = after_dot a; n = oid_len o1 * SNMPCHARSIZE + oid_len o1 + 1 + length a in
       Option.bind (OidToStr (subids o1) n) (\<lambda>(str, _).
       let str = (if str = [] then [] else str @ ''.'') @ a in
       if n < length str + 1 then None else Oid_assign_string (Some str) o1))"

definition Oid_trim :: "nat \<Rightarrow> oid_obj \<Rightarrow> oid_obj" where
  "Oid_trim n o1 = (if n \<le> oid_len o1 \<and> n > 0
     then let o1 = o1\<lparr>oid_len := oid_len o1 - n\<rparr> in
       (if oid_len o1 = 0 then delete_oid_ptr o1 else o1)\<lparr>m_changed := True\<rparr>
     else o1)"

text \<open>The operators \<open>[]\<close>: the one for constant objects has a check.  Writing through the reference of the other is \<open>oid_put\<close>.\<close>

definition oid_at :: "nat \<Rightarrow> oid_obj \<Rightarrow> u64 option" where
  "oid_at i o1 = (if i \<ge> oid_len o1 then Some 0
     else case oid_ptr o1 of None \<Rightarrow> None | Some a \<Rightarrow> if i < length a then Some (a ! i) else None)"

definition oid_put :: "nat \<Rightarrow> u64 \<Rightarrow> oid_obj \<Rightarrow> oid_obj option" where
  "oid_put i x o1 = (case oid_ptr o1 of None \<Rightarrow> None
     | Some a \<Rightarrow> if i < length a then Some (o1\<lparr>oid_ptr := Some (a[i := x]), m_changed := True\<rparr>) else None)"

text \<open>A sub identifier that is written through the pointer that \<open>oidval()\<close> gives: the object does not hear of it.\<close>

definition oidval_put :: "nat \<Rightarrow> u64 \<Rightarrow> oid_obj \<Rightarrow> oid_obj option" where
  "oidval_put i x o1 = (case oid_ptr o1 of None \<Rightarrow> None
     | Some a \<Rightarrow> if i < length a then Some (o1\<lparr>oid_ptr := Some (a[i := x])\<rparr>) else None)"

subsection \<open>Comparison\<close>

text \<open>The loop over the common length.\<close>

fun compare_subids :: "u64 list \<Rightarrow> u64 list \<Rightarrow> int" where
  "compare_subids (x # xs) (y # ys) = (if x < y then -1 else if x > y then 1 else compare_subids xs ys)"
| "compare_subids _ _ = 0"

text \<open>After the lengths are settled: \<open>len\<close> sub identifiers are compared, or the common length and then the lengths.\<close>

definition compare_upto :: "nat \<Rightarrow> oid_obj \<Rightarrow> oid_obj \<Rightarrow> int" where
  "compare_upto len o1 o2 = (
     if len = 0 then 0
     else let reduced_len = (len > oid_len o1 \<or> min len (oid_len o1) > oid_len o2);
         len = min (min len (oid_len o1)) (oid_len o2);
         r = compare_subids (take len (subids o1)) (take len (subids o2))
       in if r \<noteq> 0 then r
       else if reduced_len then (if oid_len o1 < oid_len o2 then -1 else if oid_len o1 > oid_len o2 then 1 else 0)
       else 0)"

definition nCompare_n :: "nat \<Rightarrow> oid_obj \<Rightarrow> oid_obj \<Rightarrow> int" where
  "nCompare_n n o1 o2 = compare_upto
     (if oid_len o1 < n \<and> oid_len o2 < n then max (oid_len o1) (oid_len o2) else n) o1 o2"

definition nCompare :: "oid_obj \<Rightarrow> oid_obj \<Rightarrow> int" where
  "nCompare o1 o2 = compare_upto (max (oid_len o1) (oid_len o2)) o1 o2"

definition oid_eq :: "oid_obj \<Rightarrow> oid_obj \<Rightarrow> bool" where
  "oid_eq o1 o2 \<longleftrightarrow> (if oid_len o1 \<noteq> oid_len o2 then False else nCompare o1 o2 = 0)"

definition oid_less :: "oid_obj \<Rightarrow> oid_obj \<Rightarrow> bool" where
  "oid_less o1 o2 \<longleftrightarrow> (let result = nCompare o1 o2 in
     if result < 0 then True else if result > 0 then False else oid_len o1 < oid_len o2)"

definition oid_le :: "oid_obj \<Rightarrow> oid_obj \<Rightarrow> bool" where
  "oid_le o1 o2 \<longleftrightarrow> oid_less o1 o2 \<or> oid_eq o1 o2"

subsection \<open>Length of the encoding\<close>

definition subid_length :: "u64 \<Rightarrow> nat" where
  "subid_length v = (if v < 0x80 then 1 else if v < 0x4000 then 2 else if v < 0x200000 then 3 else if v < 0x10000000 then 4 else 5)"

definition get_asn1_length :: "oid_obj \<Rightarrow> nat" where
  "get_asn1_length o1 = (
     let n = 1 + (\<Sum>v\<leftarrow>drop 2 (subids o1). subid_length v)
     in if n < 128 then n + 2 else if n < 256 then n + 3 else n + 4)"

end
