(* ===== verification/Oid_Properties.thy ===== *)
theory Oid_Properties
  imports Snmp_Oid Snmp_Objid
begin

section \<open>Properties of object identifiers\<close>

text \<open>
  The object is a list of sub identifiers for its user: comparison is the lexicographic order, text is read back, appending a text
  appends what it stands for, the text that is kept is that of the current value, and the length of the encoding is the one that
  the encoder of \<open>Snmp_Asn1\<close> needs; and the identifiers whose text does not fit in the buffers.
\<close>

subsection \<open>The object\<close>

text \<open>No array is larger than the address space, which has \<open>2 ^ 61\<close> sub identifiers; a text that is kept is the current one.\<close>

definition oid_obj_ok :: "oid_obj \<Rightarrow> bool" where
  "oid_obj_ok o1 \<longleftrightarrow> (case oid_ptr o1 of None \<Rightarrow> oid_len o1 = 0 | Some a \<Rightarrow> oid_len o1 \<le> length a) \<and>
     oid_len o1 < 2 ^ 61 \<and> (m_changed o1 \<or> iv_str o1 = Some (dotted (map unat (subids o1))))"

lemma length_subids: "oid_obj_ok o1 \<Longrightarrow> length (subids o1) = oid_len o1"
  by (auto simp: oid_obj_ok_def subids_def split: option.splits)

lemma subids_simps [simp]:
  "subids (o1\<lparr>m_changed := c\<rparr>) = subids o1" "subids (o1\<lparr>iv_str := s\<rparr>) = subids o1"
  "subids (delete_oid_ptr o1) = []" "subids Oid_create = []"
  "subids (o1\<lparr>oid_ptr := Some xs, oid_len := n\<rparr>) = take n xs"
  by (simp_all add: subids_def delete_oid_ptr_def Oid_create_def split: option.split)

lemma oid_obj_ok_start: "oid_obj_ok Oid_create" "oid_obj_ok (delete_oid_ptr o1)"
  by (simp_all add: oid_obj_ok_def Oid_create_def delete_oid_ptr_def)

subsection \<open>Comparison\<close>

lemma compare_subids_take:
  "compare_subids (take (min (length xs) (length ys)) xs) (take (min (length xs) (length ys)) ys) = compare_subids xs ys"
  by (induction xs ys rule: compare_subids.induct) auto

lemma compare_subids_lex:
  "compare_subids xs ys < 0 \<or> (compare_subids xs ys = 0 \<and> length xs < length ys) \<longleftrightarrow> ord_class.lexordp xs ys"
  by (induction xs ys rule: compare_subids.induct) (auto simp: less_le)

lemma compare_subids_0: "compare_subids xs ys = 0 \<Longrightarrow> length xs = length ys \<Longrightarrow> xs = ys"
  by (induction xs ys rule: compare_subids.induct) (auto split: if_splits)

lemma compare_subids_refl [simp]: "compare_subids xs xs = 0"
  by (induction xs) auto

lemma nCompare_eq:
  assumes "oid_obj_ok o1" and "oid_obj_ok o2"
  shows "nCompare o1 o2 = (let r = compare_subids (subids o1) (subids o2) in
    if r \<noteq> 0 then r else if oid_len o1 < oid_len o2 then -1 else if oid_len o2 < oid_len o1 then 1 else 0)"
proof -
  let ?n = "min (min (max (oid_len o1) (oid_len o2)) (oid_len o1)) (oid_len o2)"
  note l = length_subids [OF assms(1)] length_subids [OF assms(2)]
  have m: "?n = min (length (subids o1)) (length (subids o2))" using l by simp
  have c: "compare_subids (take ?n (subids o1)) (take ?n (subids o2)) = compare_subids (subids o1) (subids o2)"
    unfolding m by (rule compare_subids_take)
  have z: "subids o1 = [] \<and> subids o2 = []" if "max (oid_len o1) (oid_len o2) = 0" using that l by simp
  show ?thesis
  proof (cases "max (oid_len o1) (oid_len o2) = 0")
    case True
    then show ?thesis using z by (simp add: nCompare_def compare_upto_def)
  next
    case False
    then show ?thesis unfolding nCompare_def compare_upto_def Let_def c by auto
  qed
qed

text \<open>C18: the operators \<open><\<close>, \<open>==\<close> and \<open><=\<close> of two identifiers are the lexicographic order of their sub identifiers, in which a
prefix comes first: the order in which an agent walks its objects.\<close>
theorem oid_order:
  assumes "oid_obj_ok o1" and "oid_obj_ok o2"
  shows "(oid_less o1 o2 \<longleftrightarrow> ord_class.lexordp (subids o1) (subids o2)) \<and> (oid_eq o1 o2 \<longleftrightarrow> subids o1 = subids o2) \<and>
    (oid_le o1 o2 \<longleftrightarrow> ord_class.lexordp_eq (subids o1) (subids o2))"
proof -
  note l = length_subids [OF assms(1)] length_subids [OF assms(2)]
  let ?r = "compare_subids (subids o1) (subids o2)"
  have less: "oid_less o1 o2 \<longleftrightarrow> ord_class.lexordp (subids o1) (subids o2)"
    using compare_subids_lex [of "subids o1" "subids o2"] l
    by (auto simp: oid_less_def nCompare_eq [OF assms] Let_def split: if_splits)
  have eq: "oid_eq o1 o2 \<longleftrightarrow> subids o1 = subids o2"
  proof
    assume "oid_eq o1 o2"
    then have "oid_len o1 = oid_len o2" "?r = 0"
      by (auto simp: oid_eq_def nCompare_eq [OF assms] Let_def split: if_splits)
    then show "subids o1 = subids o2" using compare_subids_0 l by metis
  next
    assume "subids o1 = subids o2"
    then show "oid_eq o1 o2" using l by (simp add: oid_eq_def nCompare_eq [OF assms] Let_def)
  qed
  show ?thesis using less eq by (auto simp: oid_le_def lexordp_eq_conv_lexord)
qed

definition sample_oid :: oid_obj where
  "sample_oid = Oid_of_array [1, 3, 6]"

lemma oid_obj_ok_of_array: "length xs < 2 ^ 61 \<Longrightarrow> oid_obj_ok (Oid_of_array xs)" "subids (Oid_of_array xs) = xs"
  by (simp_all add: Oid_of_array_def oid_obj_ok_def Oid_create_def subids_def)

theorem oid_order_witness:
  "oid_less sample_oid (Oid_of_array [1, 3, 6, 0]) \<and> oid_less (Oid_of_array [1, 3, 6, 0]) (Oid_of_array [1, 3, 7]) \<and>
   \<not> oid_le (Oid_of_array [1, 3, 7]) sample_oid"
proof -
  have ok: "oid_obj_ok (Oid_of_array [1, 3, 6])" "oid_obj_ok (Oid_of_array [1, 3, 6, 0])" "oid_obj_ok (Oid_of_array [1, 3, 7])"
    by (simp_all add: oid_obj_ok_of_array(1))
  show ?thesis
    using oid_order [OF ok(1, 2)] oid_order [OF ok(2, 3)] oid_order [OF ok(3, 1)]
    by (simp add: oid_obj_ok_of_array(2) sample_oid_def)
qed

subsection \<open>Reading text\<close>

text \<open>What a token stands for, and what a text stands for, without the array that the code writes to.\<close>

definition token_of :: "string \<Rightarrow> (string \<times> u64 list) option" where
  "token_of s = (
     if s \<noteq> [] \<and> is_digit (hd s)
     then let s' = dropWhile is_digit s in
       if ends_here s' then Some (s', [of_nat (digits_val 10 0 (takeWhile is_digit s))]) else None
     else if ends_here s then Some (s, [])
     else if hd s \<noteq> CHR ''$'' then None
     else let s' = dropWhile (\<lambda>c. c \<noteq> CHR ''$'') (tl s) in
       if s' \<noteq> [] \<and> ends_here (tl s')
       then Some (tl s', map (\<lambda>c. of_nat (code_of c)) (takeWhile (\<lambda>c. c \<noteq> CHR ''$'') (tl s))) else None)"

lemma token_of_length: "token_of s = Some (s', xs) \<Longrightarrow> length xs + length s' \<le> length s"
proof -
  have d: "s \<noteq> [] \<Longrightarrow> is_digit (hd s) \<Longrightarrow> length (dropWhile is_digit s) < length s"
    using length_dropWhile_le [of is_digit "tl s"] by (cases s) (auto simp: less_Suc_eq_le)
  have t: "length (takeWhile P (tl s)) + length (dropWhile P (tl s)) = length s - 1" for P
    by (metis length_append length_tl takeWhile_dropWhile_id)
  show "token_of s = Some (s', xs) \<Longrightarrow> length xs + length s' \<le> length s"
    using d t [of "\<lambda>c. c \<noteq> CHR ''$''"] by (auto simp: token_of_def Let_def split: if_splits)
qed

lemma oid_token_eq:
  assumes "length temp + length s \<le> nz"
  shows "oid_token nz s temp = Some (map_option (\<lambda>(s', xs). (s', temp @ xs)) (token_of s))"
proof -
  have d: "length temp + 1 \<le> nz" if "s \<noteq> []" using assms that by (cases s) auto
  have t: "length temp + length (takeWhile P (tl s)) \<le> nz" for P
    using assms length_takeWhile_le [of P "tl s"] by (cases s) auto
  show ?thesis
    using d t [of "\<lambda>c. c \<noteq> CHR ''$''"] by (auto simp: oid_token_def token_of_def put_temp_def Let_def)
qed

lemma token_of_shorter: "s \<noteq> [] \<Longrightarrow> token_of (after_dot s) = Some (s', xs) \<Longrightarrow> length s' < length s"
  using oid_token_shorter [of s "length (after_dot s)" "[]" s'] oid_token_eq [of "[]" "after_dot s"] by auto

function read_oid :: "string \<Rightarrow> u64 list option" where
  "read_oid s = (if s = [] then Some []
     else case token_of (after_dot s) of None \<Rightarrow> None
       | Some (s', xs) \<Rightarrow> map_option ((@) xs) (read_oid s'))"
  by auto
termination
  by (relation "measure length") (auto simp: token_of_shorter)

declare read_oid.simps [simp del]

lemma read_oid_Nil [simp]: "read_oid [] = Some []"
  by (simp add: read_oid.simps)

text \<open>The reader never writes behind \<open>temp\<close>.\<close>

lemma oid_tokens_eq:
  "length temp + length s \<le> nz \<Longrightarrow> oid_tokens nz s temp = Some (map_option ((@) temp) (read_oid s))"
proof (induction nz s temp rule: oid_tokens.induct)
  case (1 nz s temp)
  show ?case
  proof (cases "s = []")
    case True
    then show ?thesis by (simp add: oid_tokens.simps)
  next
    case False
    have "length (after_dot s) \<le> length s" by (simp add: after_dot_def)
    then have e: "oid_token nz (after_dot s) temp = Some (map_option (\<lambda>(s', xs). (s', temp @ xs)) (token_of (after_dot s)))"
      using "1.prems" by (intro oid_token_eq) linarith
    have n: "\<not> (s = [] \<or> nz \<le> length temp)" using "1.prems" False by (cases s) auto
    show ?thesis
    proof (cases "token_of (after_dot s)")
      case None
      then show ?thesis using e n by (subst oid_tokens.simps, subst read_oid.simps) simp
    next
      case (Some q)
      obtain s' xs where q: "q = (s', xs)" by (cases q)
      have p: "oid_token nz (after_dot s) temp = Some (Some (s', temp @ xs))" using e Some q by simp
      have "length (temp @ xs) + length s' \<le> nz"
        using token_of_length [OF Some [unfolded q]] \<open>length (after_dot s) \<le> length s\<close> "1.prems" by simp
      then have "oid_tokens nz s' (temp @ xs) = Some (map_option ((@) (temp @ xs)) (read_oid s'))"
        by (rule "1.IH" [OF n p refl refl])
      then show ?thesis using e n Some q
        by (subst oid_tokens.simps, subst read_oid.simps) (cases "read_oid s'"; simp)
    qed
  qed
qed

lemma StrToOid_eq:
  "StrToOid (Some s) dst = Some (if s = [] then ((None, 0), -1)
     else case read_oid s of None \<Rightarrow> (dst, -1) | Some xs \<Rightarrow> ((Some xs, length xs), int (length xs)))"
  using oid_tokens_eq [of "[]" s "length s"] by (simp add: StrToOid_def split: option.split)

lemma assign_string:
  "\<exists>o2. Oid_assign_string (Some s) o1 = Some o2 \<and> subids o2 = (case read_oid s of None \<Rightarrow> [] | Some xs \<Rightarrow> xs)"
proof -
  have "subids (set_oid (None, 0) (delete_oid_ptr o1)) = []" "subids (set_oid (Some xs, length xs) (delete_oid_ptr o1)) = xs" for xs
    by (simp_all add: set_oid_def delete_oid_ptr_def subids_def)
  then show ?thesis by (auto simp: Oid_assign_string_def StrToOid_eq split: option.split)
qed

subsection \<open>Text that is read back\<close>

lemma token_of_dec:
  assumes "ends_here u"
  shows "token_of (dec n @ u) = Some (u, [of_nat n])" and "after_dot (dec n @ u) = dec n @ u"
proof -
  have d: "is_digit c" if "c \<in> set (dec n)" for c using dec_digits [OF that] by auto
  have u: "u = [] \<or> \<not> is_digit (hd u)" using assms by (auto simp: ends_here_def is_digit_def code_of_def)
  have t: "takeWhile is_digit (dec n @ u) = dec n" "dropWhile is_digit (dec n @ u) = u"
    using d u by (cases u; auto simp: takeWhile_append dropWhile_append)+
  obtain e cs where e: "dec n = digit_char e # cs" "e < 10" using dec_hd by blast
  show "token_of (dec n @ u) = Some (u, [of_nat n])"
    using t assms d [of "hd (dec n)"] by (simp add: token_of_def digits_val_dec)
  show "after_dot (dec n @ u) = dec n @ u" using e digit_not_special(4) [of e] by (simp add: after_dot_def)
qed

lemma read_after_dot: "read_oid (CHR ''.'' # u) = read_oid u"
proof (cases "u = [] \<or> hd u = CHR ''.''")
  case True
  then have "token_of u = Some (u, [])" by (auto simp: token_of_def ends_here_def is_digit_def code_of_def)
  then show ?thesis by (subst read_oid.simps) (cases "read_oid u"; simp add: after_dot_def)
next
  case False
  then show ?thesis by (subst (1 2) read_oid.simps) (simp add: after_dot_def)
qed

lemma read_dotted:
  assumes "ns \<noteq> []" and "ends_here u"
  shows "read_oid (dotted ns @ u) = map_option ((@) (map of_nat ns)) (read_oid u)"
  using assms(1)
proof (induction ns rule: dotted.induct)
  case (2 n)
  show ?case using token_of_dec [OF assms(2), of n] by (subst read_oid.simps) simp
next
  case (3 n m ns)
  have "ends_here (CHR ''.'' # dotted (m # ns) @ u)" by (simp add: ends_here_def)
  then show ?case using token_of_dec [of "CHR ''.'' # dotted (m # ns) @ u" n] 3
    by (subst dotted.simps, subst read_oid.simps) (cases "read_oid u"; simp add: read_after_dot)
qed simp

lemma length_dec: "0 < k \<Longrightarrow> length (dec n) \<le> k \<longleftrightarrow> n < 10 ^ k"
proof (induction n arbitrary: k rule: dec.induct)
  case (1 n)
  show ?case
  proof (cases "n < 10")
    case True
    have "(10 :: nat) ^ 1 \<le> 10 ^ k" using "1.prems" by (intro power_increasing) simp_all
    then show ?thesis using True "1.prems" by (subst dec.simps) simp
  next
    case False
    then have d: "dec n = dec (n div 10) @ [digit_char (n mod 10)]" by (subst dec.simps) simp
    show ?thesis
    proof (cases "k = 1")
      case True
      have "length (dec (n div 10)) > 0" by simp
      then show ?thesis using False True unfolding d by simp
    next
      case k: False
      then obtain j where j: "k = Suc j" "0 < j" using "1.prems" by (cases k) auto
      then show ?thesis using "1.IH" [OF False j(2)] unfolding d by (auto simp: less_mult_imp_div_less div_less_iff_less_mult mult.commute)
    qed
  qed
qed

definition small_subids :: "oid_obj \<Rightarrow> bool" where
  "small_subids o1 \<longleftrightarrow> (\<forall>x\<in>set (subids o1). x < 2 ^ 32)"

lemma small_dec: "x < 2 ^ 32 \<Longrightarrow> length (dec (unat (x :: u64))) \<le> 10"
proof -
  assume "x < 2 ^ 32"
  then have "unat x < 2 ^ 32" by (simp add: word_less_nat_alt)
  then show "length (dec (unat x)) \<le> 10" by (simp add: length_dec)
qed

lemma length_dotted:
  "\<forall>x\<in>set xs. x < 2 ^ 32 \<Longrightarrow> xs \<noteq> [] \<Longrightarrow> length (dotted (map unat (xs :: u64 list))) + 1 \<le> 11 * length xs"
proof (induction xs)
  case (Cons x xs)
  then show ?case using small_dec [of x] by (cases xs) auto
qed simp

lemma map_of_unat: "map of_nat (map unat (xs :: u64 list)) = xs"
  by (simp add: comp_def)

lemma oid_to_str_eq:
  assumes "xs \<noteq> []" and "\<forall>x\<in>set xs. x < 2 ^ 32" and "length acc + 11 * length xs + 1 < room"
  shows "oid_to_str room acc xs = (let t = (if acc = [] then [] else acc @ ''.'') @ dotted (map unat xs) in Some (t, int (length t) + 1))"
  using assms
proof (induction xs arbitrary: acc)
  case (Cons x xs)
  let ?t = "(if acc = [] then [] else acc @ ''.'') @ dec (unat x)"
  have d: "length (dec (unat x)) \<le> 10" using Cons.prems(2) by (intro small_dec) simp
  then have s: "oid_to_str room acc (x # xs) = oid_to_str room ?t xs"
    using Cons.prems(3) by (simp add: SNMPBUFFSIZE_def Let_def)
  show ?case
  proof (cases "xs = []")
    case True
    then show ?thesis unfolding s by (simp add: Let_def)
  next
    case False
    have "length ?t + 11 * length xs + 1 < room" using d Cons.prems(3) by simp
    then have "oid_to_str room ?t xs = (let t = ?t @ ''.'' @ dotted (map unat xs) in Some (t, int (length t) + 1))"
      using Cons.IH [OF False, of ?t] Cons.prems(2) by simp
    then show ?thesis unfolding s using False by (cases xs) (simp_all add: Let_def)
  qed
qed simp

lemma unat_len: "oid_obj_ok o1 \<Longrightarrow> unat (of_nat (oid_len o1) :: u64) = oid_len o1"
  by (simp add: oid_obj_ok_def unat_of_nat take_bit_nat_eq_self)

lemma printable_eq:
  assumes "oid_obj_ok o1"
  shows "get_printable_range 1 (of_nat (oid_len o1)) o1 = (let text = dotted (map unat (subids o1)) in
    if oid_len o1 * (SNMPCHARSIZE + 1) + 1 < length text + 1 then None else Some text)"
  using length_subids [OF assms] by (simp add: get_printable_range_def unat_len [OF assms] Let_def)

lemma printable_small:
  assumes "oid_obj_ok o1" and "small_subids o1"
  shows "get_printable_range 1 (of_nat (oid_len o1)) o1 = Some (dotted (map unat (subids o1)))"
proof (cases "subids o1 = []")
  case False
  then have "length (dotted (map unat (subids o1))) + 1 \<le> 11 * oid_len o1"
    using length_dotted [of "subids o1"] assms(2) length_subids [OF assms(1)] by (simp add: small_subids_def)
  then show ?thesis unfolding printable_eq [OF assms(1)] by (simp add: SNMPCHARSIZE_def Let_def)
qed (simp add: printable_eq [OF assms(1)])

text \<open>C31: the text of an identifier whose sub identifiers have 32 bits fits in the buffer, and an identifier made from it has the
same value.\<close>
theorem oid_text_roundtrip:
  assumes "oid_obj_ok o1" and "small_subids o1"
  shows "\<exists>o2 s o3. Oid_get_printable o1 = Some (o2, s) \<and> s = dotted (map unat (subids o1)) \<and> Oid_of_string (Some s) = Some o3 \<and>
    subids o3 = subids o1"
proof -
  let ?s = "dotted (map unat (subids o1))"
  have "\<exists>o2. Oid_get_printable o1 = Some (o2, ?s)"
    using printable_small [OF assms] assms(1) by (auto simp: Oid_get_printable_def oid_obj_ok_def split: prod.split bool.split)
  moreover have "\<exists>o3. Oid_of_string (Some ?s) = Some o3 \<and> subids o3 = subids o1"
  proof (cases "subids o1 = []")
    case True
    then show ?thesis by (simp add: Oid_of_string_def StrToOid_eq set_oid_def subids_def Oid_create_def)
  next
    case False
    then have "read_oid ?s = Some (subids o1)"
      using read_dotted [of "map unat (subids o1)" "[]"] by (simp add: ends_here_def comp_def)
    moreover from this False have "?s \<noteq> []" by auto
    ultimately show ?thesis by (simp add: Oid_of_string_def StrToOid_eq set_oid_def subids_def Oid_create_def)
  qed
  ultimately show ?thesis by blast
qed

theorem oid_text_roundtrip_witness:
  "\<exists>o2 o3. Oid_get_printable sample_oid = Some (o2, ''1.3.6'') \<and> Oid_of_string (Some ''1.3.6'') = Some o3 \<and> subids o3 = [1, 3, 6]"
proof -
  have s: "oid_obj_ok sample_oid" "subids sample_oid = [1, 3, 6]" by (simp_all add: sample_oid_def oid_obj_ok_of_array)
  then have "small_subids sample_oid" by (simp add: small_subids_def)
  moreover have "dotted (map unat [1, 3, 6 :: u64]) = ''1.3.6''"
    by (simp add: dec.simps digit_char_def) code_simp
  ultimately show ?thesis using oid_text_roundtrip [OF s(1)] unfolding s(2) by auto
qed

text \<open>On machines with 64 bits a sub identifier can have more digits than the buffers have room for: the text of an identifier
with one sub identifier of 13 digits or more is written behind the end of the buffer.\<close>
theorem long_subid_overflows:
  assumes "oid_obj_ok o1" and "subids o1 = [x]" and "10 ^ 12 \<le> unat x" and "m_changed o1"
  shows "Oid_get_printable o1 = None \<and> append_string (Some a) o1 = None"
proof -
  have l: "oid_len o1 = 1" using length_subids [OF assms(1)] assms(2) by simp
  have "\<not> unat x < 10 ^ 12" "\<not> unat x < 10 ^ 10" using assms(3) by simp_all
  then have d: "\<not> length (dec (unat x)) \<le> 12" "\<not> length (dec (unat x)) \<le> 10" by (simp_all add: length_dec)
  have "Oid_get_printable o1 = None"
    using d(1) printable_eq [OF assms(1)] assms(2, 4) l by (simp add: Oid_get_printable_def SNMPCHARSIZE_def Let_def)
  moreover have "append_string (Some a) o1 = None"
    using d(2) assms(2) by (simp add: append_string_def OidToStr_def SNMPBUFFSIZE_def Let_def)
  ultimately show ?thesis ..
qed

theorem long_subid_overflows_witness:
  "\<exists>o1. Oid_of_string (Some ''1000000000000'') = Some o1 \<and> Oid_get_printable o1 = None"
proof -
  have r: "read_oid ''1000000000000'' = Some [1000000000000]"
    by (subst read_oid.simps) (simp add: token_of_def after_dot_def ends_here_def is_digit_def code_of_def digit_val_def)
  then obtain o1 where o1: "Oid_of_string (Some ''1000000000000'') = Some o1" "oid_ptr o1 = Some [1000000000000]" "oid_len o1 = 1"
    "m_changed o1" by (simp add: Oid_of_string_def StrToOid_eq set_oid_def Oid_create_def)
  have "oid_obj_ok o1" "subids o1 = [1000000000000]" using o1 by (simp_all add: oid_obj_ok_def subids_def)
  then show ?thesis using long_subid_overflows [of o1 1000000000000] o1 by simp
qed

text \<open>Appending a text appends the sub identifiers that the text stands for; a text that is not an identifier empties the
object, with all that it had before.\<close>
theorem append_text_appends:
  assumes "oid_obj_ok o1" and "small_subids o1"
  shows "\<exists>o2. append_string (Some a) o1 = Some o2 \<and>
    subids o2 = (case read_oid (after_dot a) of None \<Rightarrow> [] | Some xs \<Rightarrow> subids o1 @ xs)"
proof -
  let ?a = "after_dot a" and ?xs = "subids o1"
  let ?n = "oid_len o1 * SNMPCHARSIZE + oid_len o1 + 1 + length ?a"
  note l = length_subids [OF assms(1)]
  show ?thesis
  proof (cases "?xs = []")
    case True
    then show ?thesis using assign_string [of ?a o1] l
      by (auto simp: append_string_def OidToStr_def Let_def split: option.splits)
  next
    case False
    let ?t = "dotted (map unat ?xs)"
    have small: "\<forall>x\<in>set ?xs. x < 2 ^ 32" using assms(2) by (simp add: small_subids_def)
    have len: "length ?t + 1 \<le> 11 * oid_len o1" using length_dotted [OF small False] l by simp
    have ne: "?t \<noteq> []" using False by (cases ?xs rule: list.exhaust; cases "tl ?xs") auto
    have pos: "0 < oid_len o1" using False l by (cases ?xs) simp_all
    then have "length ([] :: string) + 11 * length ?xs + 1 < ?n" using l by (simp add: SNMPCHARSIZE_def)
    then have "oid_to_str ?n [] ?xs = Some (?t, int (length ?t) + 1)"
      using oid_to_str_eq [OF False small, of "[]" ?n] by (simp only: Let_def if_True append_Nil refl)
    then have "OidToStr ?xs ?n = Some (?t, int (length ?t) + 1)" using False by (simp add: OidToStr_def)
    moreover have "\<not> ?n < length (?t @ ''.'' @ ?a) + 1" using len pos by (simp add: SNMPCHARSIZE_def)
    ultimately have e: "append_string (Some a) o1 = Oid_assign_string (Some (?t @ ''.'' @ ?a)) o1"
      using ne by (simp add: append_string_def Let_def)
    have "read_oid (?t @ ''.'' @ ?a) = map_option ((@) ?xs) (read_oid ?a)"
      using read_dotted [of "map unat ?xs" "''.'' @ ?a"] False by (simp add: ends_here_def read_after_dot comp_def)
    then show ?thesis unfolding e using assign_string [of "?t @ ''.'' @ ?a" o1] by (auto split: option.splits)
  qed
qed

theorem append_text_appends_witness:
  "\<exists>o2 o3. append_string (Some ''.4'') sample_oid = Some o2 \<and> subids o2 = [1, 3, 6, 4] \<and>
     append_string (Some ''x'') sample_oid = Some o3 \<and> subids o3 = []"
proof -
  have s: "oid_obj_ok sample_oid" "subids sample_oid = [1, 3, 6]" by (simp_all add: sample_oid_def oid_obj_ok_of_array)
  then have k: "small_subids sample_oid" by (simp add: small_subids_def)
  have "read_oid (after_dot ''.4'') = Some [4]"
    by (subst read_oid.simps) (simp add: token_of_def after_dot_def ends_here_def is_digit_def code_of_def digit_val_def)
  moreover have "read_oid (after_dot ''x'') = None"
    by (subst read_oid.simps) (simp add: token_of_def after_dot_def ends_here_def is_digit_def code_of_def)
  ultimately show ?thesis
    using append_text_appends [OF s(1) k, of "''.4''"] append_text_appends [OF s(1) k, of "''x''"] unfolding s(2) by auto
qed

subsection \<open>The text that is kept\<close>

text \<open>The operations of the class as steps.  The result of an allocation is in the address space.  A sub identifier is written
through a pointer or a reference to it (\<open>put_raw\<close>) only as long as the object knows that it has changed.\<close>

inductive oid_step :: "oid_obj \<Rightarrow> oid_obj \<Rightarrow> bool" where
  assign_text: "Oid_assign_string s o1 = Some o2 \<Longrightarrow> oid_len o2 < 2 ^ 61 \<Longrightarrow> oid_step o1 o2"
| assign: "oid_obj_ok src \<Longrightarrow> oid_step o1 (Oid_assign src o1)"
| data: "set_data raw o1 = Some o2 \<Longrightarrow> oid_len o2 < 2 ^ 61 \<Longrightarrow> oid_step o1 o2"
| data_string: "set_data_string str o1 = Some o2 \<Longrightarrow> oid_len o2 < 2 ^ 61 \<Longrightarrow> oid_step o1 o2"
| append: "oid_obj_ok src \<Longrightarrow> oid_len (append_oid src o1) < 2 ^ 61 \<Longrightarrow> oid_step o1 (append_oid src o1)"
| append_one: "oid_len (append_subid i o1) < 2 ^ 61 \<Longrightarrow> oid_step o1 (append_subid i o1)"
| append_text: "append_string a o1 = Some o2 \<Longrightarrow> oid_len o2 < 2 ^ 61 \<Longrightarrow> oid_step o1 o2"
| trim: "oid_step o1 (Oid_trim n o1)"
| put: "i < oid_len o1 \<Longrightarrow> oid_put i x o1 = Some o2 \<Longrightarrow> oid_step o1 o2"
| put_raw: "m_changed o1 \<Longrightarrow> oidval_put i x o1 = Some o2 \<Longrightarrow> oid_step o1 o2"
| clear: "oid_step o1 (delete_oid_ptr o1)"
| print: "Oid_get_printable o1 = Some (o2, s) \<Longrightarrow> oid_step o1 o2"

lemma assign_string_ok: "Oid_assign_string s o1 = Some o2 \<Longrightarrow> oid_len o2 < 2 ^ 61 \<Longrightarrow> oid_obj_ok o2"
  by (cases s) (auto simp: Oid_assign_string_def StrToOid_eq StrToOid_def set_oid_def delete_oid_ptr_def oid_obj_ok_def
      split: if_splits option.splits)

lemma overwrite_ok: "overwrite raw o1 = Some o2 \<Longrightarrow> oid_len o2 < 2 ^ 61 \<Longrightarrow> oid_obj_ok o2"
  by (auto simp: overwrite_def oid_obj_ok_def delete_oid_ptr_def Let_def split: if_splits option.splits)

lemma append_oid_ok:
  "oid_obj_ok o1 \<Longrightarrow> oid_obj_ok o2 \<Longrightarrow> oid_len (append_oid o2 o1) < 2 ^ 61 \<Longrightarrow> oid_obj_ok (append_oid o2 o1)"
  using length_subids [of o1] length_subids [of o2] by (auto simp: append_oid_def oid_obj_ok_def)

lemma oid_step_keeps: "oid_step o1 o2 \<Longrightarrow> oid_obj_ok o1 \<Longrightarrow> oid_obj_ok o2"
proof (induction rule: oid_step.induct)
  case assign_text
  then show ?case by (blast intro: assign_string_ok)
next
  case (assign src o1)
  then show ?case using length_subids [of src] by (auto simp: Oid_assign_def oid_obj_ok_def delete_oid_ptr_def)
next
  case data
  then show ?case by (auto simp: set_data_def intro: overwrite_ok)
next
  case data_string
  then show ?case by (auto simp: set_data_string_def intro: overwrite_ok split: if_splits)
next
  case append
  then show ?case by (blast intro: append_oid_ok)
next
  case (append_one i o1)
  then show ?case using append_oid_ok [of o1 "Oid_of_array [i]"] oid_obj_ok_of_array(1) [of "[i]"] by (simp add: append_subid_def)
next
  case (append_text a o1 o2)
  then show ?case
    by (cases a) (auto simp: append_string_def Let_def bind_eq_Some_iff split: if_splits dest: assign_string_ok)
next
  case (trim o1 n)
  then show ?case by (auto simp: Oid_trim_def oid_obj_ok_def delete_oid_ptr_def Let_def split: option.splits)
next
  case (put i o1 x o2)
  then show ?case by (auto simp: oid_put_def oid_obj_ok_def split: if_splits option.splits)
next
  case (put_raw o1 i x o2)
  then show ?case by (auto simp: oidval_put_def oid_obj_ok_def split: if_splits option.splits)
next
  case clear
  then show ?case by (simp add: oid_obj_ok_start)
next
  case (print o1 o2 s)
  show ?case
  proof (cases "m_changed o1")
    case True
    then have "o2 = o1\<lparr>iv_str := Some (dotted (map unat (subids o1))), m_changed := False\<rparr>"
      using print by (auto simp: Oid_get_printable_def printable_eq Let_def split: if_splits)
    then show ?thesis using print(2) by (auto simp: oid_obj_ok_def split: option.splits)
  next
    case False
    then show ?thesis using print by (auto simp: Oid_get_printable_def)
  qed
qed

text \<open>C34: the text that \<open>get_printable\<close> gives is that of the current value, although the text of an earlier call is given
again as long as \<open>m_changed\<close> is false: after any sequence of the operations that set it, and of writes through \<open>oidval()\<close>
or a kept reference of \<open>operator[]\<close> that come between such an operation and the next text.  Such a write after the text is not
seen: the old text is given again, whatever was written.\<close>
theorem printable_is_current:
  assumes "oid_step\<^sup>*\<^sup>* Oid_create o1" and "Oid_get_printable o1 = Some (o2, s)"
  shows "s = dotted (map unat (subids o1)) \<and> subids o2 = subids o1 \<and>
    (\<forall>i x o3. oidval_put i x o2 = Some o3 \<longrightarrow> Oid_get_printable o3 = Some (o3, s) \<and>
      (i < oid_len o2 \<longrightarrow> subids o3 = (subids o2)[i := x]))"
proof -
  have ok: "oid_obj_ok o1" using assms(1)
    by (induction rule: rtranclp_induct) (auto intro: oid_step_keeps simp: oid_obj_ok_start)
  have c: "s = dotted (map unat (subids o1)) \<and> subids o2 = subids o1 \<and> \<not> m_changed o2 \<and> iv_str o2 = Some s"
  proof (cases "m_changed o1")
    case True
    then show ?thesis using assms(2) ok by (auto simp: Oid_get_printable_def printable_eq Let_def split: if_splits)
  next
    case False
    then show ?thesis using assms(2) ok by (auto simp: Oid_get_printable_def oid_obj_ok_def)
  qed
  then show ?thesis
    by (auto simp: oidval_put_def Oid_get_printable_def subids_def take_update_swap split: if_splits option.splits)
qed

theorem printable_is_current_witness:
  "\<exists>o1 o2 o3. Oid_get_printable o1 = Some (o1, []) \<and> Oid_get_printable (append_subid 7 o1) = Some (o2, ''7'') \<and>
     oidval_put 0 8 o2 = Some o3 \<and> subids o3 = [8] \<and> Oid_get_printable o3 = Some (o3, ''7'')"
proof -
  let ?o1 = "Oid_create\<lparr>iv_str := Some [], m_changed := False\<rparr>"
  have p: "Oid_get_printable Oid_create = Some (?o1, [])"
    by (simp add: Oid_get_printable_def get_printable_range_def Oid_create_def)
  have p1: "Oid_get_printable ?o1 = Some (?o1, [])" by (simp add: Oid_get_printable_def)
  have l: "oid_len (append_subid 7 ?o1) = 1" "oid_ptr (append_subid 7 ?o1) = Some [7]"
    by (simp_all add: append_subid_def append_oid_def Oid_of_array_def Oid_create_def subids_def)
  then have "oid_step ?o1 (append_subid 7 ?o1)" by (intro oid_step.append_one) simp
  then have r: "oid_step\<^sup>*\<^sup>* Oid_create (append_subid 7 ?o1)"
    using oid_step.print [OF p] by (meson converse_rtranclp_into_rtranclp r_into_rtranclp)
  have s: "subids (append_subid 7 ?o1) = [7]" "m_changed (append_subid 7 ?o1)"
    by (simp_all add: append_subid_def append_oid_def Oid_of_array_def subids_def Oid_create_def)
  obtain o2 t where o2: "Oid_get_printable (append_subid 7 ?o1) = Some (o2, t)" "oid_ptr o2 = Some [7]" "oid_len o2 = 1"
    using l s by (auto simp: Oid_get_printable_def get_printable_range_def SNMPCHARSIZE_def Let_def dec.simps split: if_splits)
  obtain o3 where o3: "oidval_put 0 8 o2 = Some o3" using o2(2) by (simp add: oidval_put_def)
  have "dotted (map unat [7 :: u64]) = ''7''" by (simp add: dec.simps digit_char_def) code_simp
  then show ?thesis using printable_is_current [OF r o2(1)] p1 o2(1, 3) o3 unfolding s
    by (intro exI [of _ ?o1] exI [of _ o2] exI [of _ o3]) simp
qed

subsection \<open>The length of the encoding\<close>

lemma subid_length_exact:
  assumes "x < 2 ^ 32"
  shows "length (subid_content x) = subid_length x"
proof -
  let ?k = "top_index x"
  have "unat x < 2 ^ 32" using assms by (simp add: word_less_nat_alt)
  then have m: "x \<le> MAX_SUBID" by (simp add: MAX_SUBID_def word_le_nat_alt)
  note k = top_index_spec [OF m]
  have up: "unat x < 2 ^ (7 * Suc ?k)"
    using k(3) by (metis take_bit_nat_less_exp unsigned_take_bit_eq)
  have low: "?k = 0 \<or> 2 ^ (7 * ?k) \<le> unat x"
  proof (rule disjCI)
    assume n: "\<not> 2 ^ (7 * ?k) \<le> unat x"
    then have "take_bit (7 * ?k) x = x" by (simp add: word_unat_eq_iff unsigned_take_bit_eq take_bit_nat_eq_self)
    then have "\<And>j. bit x j \<Longrightarrow> j < 7 * ?k" by (metis bit_take_bit_iff)
    then have "x AND push_bit (7 * ?k) 0x7F = 0" by (rule no_common_bits) simp_all
    then show "?k = 0" using k(4) by simp
  qed
  have "?k \<in> {0, 1, 2, 3, 4}" using k(2) by auto
  then show ?thesis using up low
    by (auto simp: subid_content_def subid_length_def word_less_nat_alt)
qed

lemma subid_length_bounds: "1 \<le> subid_length x" "subid_length x \<le> 5"
  by (simp_all add: subid_length_def)

lemma subids_length_exact:
  "\<forall>x\<in>set xs. x \<le> MAX_SUBID \<Longrightarrow> length (subids_content xs) = (\<Sum>x\<leftarrow>xs. subid_length x)"
proof (induction xs)
  case (Cons x xs)
  have "unat x \<le> unat MAX_SUBID" using Cons.prems by (simp add: word_le_nat_alt)
  then have "x < 2 ^ 32" by (simp add: MAX_SUBID_def word_less_nat_alt)
  then show ?case using Cons by (simp add: subid_length_exact)
qed simp

text \<open>\<open>get_asn1_length\<close>, which the application uses to see whether a binding fits in a message, is the number of octets that
\<open>asn_build_objid\<close> writes for the identifier, when the first two sub identifiers go in one octet.\<close>
theorem asn1_length_exact:
  assumes "oid_obj_ok o1" and "oid_ok (subids o1)" and "subids o1 ! 1 + subids o1 ! 0 * 40 < 0x80"
    and "int (length (ber_obj 6 (subids_content (joined (subids o1))))) \<le> d" and "d \<le> int (length buf) - int pos"
  shows "\<exists>buf'. asn_build_objid (buf, pos) d 6 (subids o1) (int (oid_len o1)) =
    Some (Inr ((buf', pos + get_asn1_length o1), d - int (get_asn1_length o1)))"
proof -
  let ?c = "subids_content (joined (subids o1))" and ?n = "\<Sum>x\<leftarrow>drop 2 (subids o1). subid_length x"
  note j = joined_facts [OF assms(2)]
  have c: "length ?c = 1 + ?n"
    using subids_length_exact [OF j(1)] assms(3) by (simp add: joined_def subid_length_def)
  have "length xs \<le> 126 \<Longrightarrow> (\<Sum>x\<leftarrow>xs. subid_length x) \<le> 5 * 126" for xs
  proof -
    have "(\<Sum>x\<leftarrow>xs. subid_length x) \<le> (\<Sum>x\<leftarrow>xs. 5)" by (rule sum_list_mono) (rule subid_length_bounds)
    then show "length xs \<le> 126 \<Longrightarrow> ?thesis" by (simp add: sum_list_triv)
  qed
  moreover have "length (drop 2 (subids o1)) \<le> 126" using assms(2) by (auto simp: oid_ok_def)
  ultimately have "?n \<le> 630" by force
  then have l: "length (ber_obj 6 ?c) = get_asn1_length o1"
    using c by (simp add: length_ber_obj ber_len_def get_asn1_length_def Let_def)
  then show ?thesis
    using builds_fit [OF builds_objid [OF assms(2), of 6], of pos buf d] assms(4, 5) length_subids [OF assms(1)] by simp
qed

theorem asn1_length_exact_witness:
  "\<exists>buf'. asn_build_objid (replicate 10 0, 0) 10 6 [1, 3, 6, 200] 4 = Some (Inr ((buf', 6), 4))"
proof -
  let ?o = "Oid_of_array [1, 3, 6, 200]"
  have s: "oid_obj_ok ?o" "subids ?o = [1, 3, 6, 200]" "oid_len ?o = 4"
    by (simp_all add: oid_obj_ok_of_array) (simp add: Oid_of_array_def)
  have n: "get_asn1_length ?o = 6" by (simp add: get_asn1_length_def s(2) subid_length_def)
  have k: "oid_ok (subids ?o)" by (simp add: s(2) oid_ok_def MAX_SUBID_def)
  have h: "subids ?o ! 1 + subids ?o ! 0 * 40 < 0x80" by (simp add: s(2))
  have j: "joined (subids ?o) = [43, 6, 200]" by (simp add: s(2) joined_def)
  have l: "length (subids_content [43, 6, 200]) = 4" 
    by (simp add: subids_length_exact MAX_SUBID_def subid_length_def del: subids_content_simps)
  have "int (length (ber_obj 6 (subids_content (joined (subids ?o))))) \<le> 10"
    by (simp add: j length_ber_obj ber_len_def l del: subids_content_simps)
  then show ?thesis using asn1_length_exact [OF s(1) k h, of 10 "replicate 10 0" 0] by (simp add: n s(2, 3))
qed

end
