(* ===== verification/Msg_Time.thy ===== *)
theory Msg_Time
  imports Snmp_Asn1 "HOL-Library.Signed_Division"
begin

section \<open>Times\<close>

text \<open>
  The class \<open>msec\<close> (\<^verbatim>\<open>src/snmp++/src/msec.cpp\<close>): a \<^verbatim>\<open>timeval\<close> whose field \<open>tv_usec\<close> counts milliseconds, with one value that stands for
  infinity; and the functions of \<^verbatim>\<open>eventlist.cpp\<close> and \<^verbatim>\<open>eventlistholder.cpp\<close> that find out how long to wait.  A time of the
  clock is below \<open>2 ^ 61\<close> seconds, so that sums of it and a timeout are in \<^verbatim>\<open>long\<close>; the fields are \<open>int\<close>.  The text of a time and the
  reading of the clock (\<open>refresh\<close>) are left out.
\<close>

record msec =
  tv_sec :: int
  tv_usec :: int

type_synonym timeval = "int \<times> int"

definition SetInfinite :: msec where
  "SetInfinite = \<lparr>tv_sec = -1, tv_usec = 0\<rparr>"

definition IsInfinite :: "msec \<Rightarrow> bool" where
  "IsInfinite t \<longleftrightarrow> tv_sec t = -1 \<and> tv_usec t = 0"

subsection \<open>Operators\<close>

definition msec_eq :: "msec \<Rightarrow> msec \<Rightarrow> bool" where
  "msec_eq t1 t2 \<longleftrightarrow> tv_sec t1 = tv_sec t2 \<and> tv_usec t1 = tv_usec t2"

definition msec_less :: "msec \<Rightarrow> msec \<Rightarrow> bool" where
  "msec_less t1 t2 \<longleftrightarrow> (
     if IsInfinite t1 then False
     else if IsInfinite t2 then True
     else tv_sec t1 < tv_sec t2 \<or> tv_sec t1 = tv_sec t2 \<and> tv_usec t1 < tv_usec t2)"

definition msec_greater :: "msec \<Rightarrow> msec \<Rightarrow> bool" where
  "msec_greater t1 t2 \<longleftrightarrow> (
     if IsInfinite t2 then False
     else if IsInfinite t1 then True
     else tv_sec t1 > tv_sec t2 \<or> tv_sec t1 = tv_sec t2 \<and> tv_usec t1 > tv_usec t2)"

definition msec_le :: "msec \<Rightarrow> msec \<Rightarrow> bool" where
  "msec_le t1 t2 \<longleftrightarrow> msec_less t1 t2 \<or> msec_eq t1 t2"

definition msec_ge :: "msec \<Rightarrow> msec \<Rightarrow> bool" where
  "msec_ge t1 t2 \<longleftrightarrow> msec_greater t1 t2 \<or> msec_eq t1 t2"

text \<open>Division and remainder of C round to zero.\<close>

definition msec_minus_timeval :: "timeval \<Rightarrow> msec \<Rightarrow> msec" where
  "msec_minus_timeval t1 t = (
     let tmp_usec = snd t1 sdiv 1000 in
     if IsInfinite t then t
     else let t = (if tv_usec t < tmp_usec then t\<lparr>tv_sec := tv_sec t - 1, tv_usec := tv_usec t + 1000\<rparr> else t) in
       t\<lparr>tv_usec := tv_usec t - tmp_usec, tv_sec := tv_sec t - fst t1\<rparr>)"

definition msec_plus_timeval :: "timeval \<Rightarrow> msec \<Rightarrow> msec" where
  "msec_plus_timeval t1 t = (
     let tmp_usec = snd t1 sdiv 1000 in
     if IsInfinite t then t
     else let t = t\<lparr>tv_usec := tv_usec t + tmp_usec\<rparr>;
         t = (if tv_usec t \<ge> 1000 then t\<lparr>tv_sec := tv_sec t + tv_usec t sdiv 1000, tv_usec := tv_usec t smod 1000\<rparr> else t) in
       t\<lparr>tv_sec := tv_sec t + fst t1\<rparr>)"

definition timeval_of :: "int \<Rightarrow> timeval" where
  "timeval_of millisec = (millisec sdiv 1000, (millisec smod 1000) * 1000)"

definition msec_minus :: "int \<Rightarrow> msec \<Rightarrow> msec" where
  "msec_minus millisec t = msec_minus_timeval (timeval_of millisec) t"

definition msec_plus :: "int \<Rightarrow> msec \<Rightarrow> msec" where
  "msec_plus millisec t = msec_plus_timeval (timeval_of millisec) t"

definition msec_of_timeval :: "timeval \<Rightarrow> msec" where
  "msec_of_timeval t1 = \<lparr>tv_sec = fst t1, tv_usec = snd t1 sdiv 1000\<rparr>"

text \<open>The conversion to \<^verbatim>\<open>unsigned long\<close>.\<close>

definition msec_ulong :: "msec \<Rightarrow> u64" where
  "msec_ulong t = word_of_int (tv_sec t * 1000 + tv_usec t)"

definition MAX_ALARM :: int where "MAX_ALARM = 1000000000"

definition GetDelta :: "msec \<Rightarrow> msec \<Rightarrow> timeval" where
  "GetDelta now future = (
     if IsInfinite future then (MAX_ALARM, 0)
     else if msec_greater future now
     then let (s, u) = (if tv_usec future < tv_usec now
         then (tv_sec future - 1 - tv_sec now, tv_usec future + 1000 - tv_usec now)
         else (tv_sec future - tv_sec now, tv_usec future - tv_usec now)) in (s, u * 1000)
     else (0, 0))"

subsection \<open>How long to wait\<close>

text \<open>The sources of events, each with the number of messages it waits for and its next timeout.\<close>

type_synonym event_source = "int \<times> msec option"

fun EventList_GetNextTimeout :: "msec \<Rightarrow> event_source list \<Rightarrow> msec" where
  "EventList_GetNextTimeout sendTime [] = sendTime"
| "EventList_GetNextTimeout sendTime ((n, t) # es) = (case t of
     Some tmpTime \<Rightarrow> EventList_GetNextTimeout (if n \<noteq> 0 \<and> msec_greater sendTime tmpTime then tmpTime else sendTime) es
   | None \<Rightarrow> EventList_GetNextTimeout sendTime es)"

text \<open>The time that \<open>SNMPProcessEvents\<close> gives to \<^verbatim>\<open>select\<close>.\<close>

definition process_timeout :: "int \<Rightarrow> bool \<Rightarrow> msec \<Rightarrow> event_source list \<Rightarrow> timeval" where
  "process_timeout max_block_milliseconds no_fds now es = (
     let (sec, usec) = GetDelta now (EventList_GetNextTimeout SetInfinite es);
         max_sec = max_block_milliseconds sdiv 1000; max_usec = (max_block_milliseconds smod 1000) * 1000;
         (sec, usec) = (if max_block_milliseconds > 0 \<and> (sec > max_sec \<or> sec = max_sec \<and> usec > max_usec)
           then (max_sec, max_usec) else (sec, usec))
     in (if no_fds \<and> sec > 5 then 5 else sec, usec))"

text \<open>Hundredths of seconds, rounded up; the product of \<open>now\<close> is converted to \<^verbatim>\<open>long\<close> to be subtracted.\<close>

definition SNMPGetNextTimeout :: "msec \<Rightarrow> event_source list \<Rightarrow> u64" where
  "SNMPGetNextTimeout now es = (
     let sendTime = EventList_GetNextTimeout SetInfinite es in
     if IsInfinite sendTime then 0xFFFFFFFF
     else if msec_greater sendTime now then msec_ulong (msec_minus (sint (msec_ulong now)) sendTime) div 10 + 1
     else 0)"

subsection \<open>Times as numbers\<close>

definition time_ms :: "msec \<Rightarrow> int" where
  "time_ms t = tv_sec t * 1000 + tv_usec t"

definition msec_ok :: "msec \<Rightarrow> bool" where
  "msec_ok t \<longleftrightarrow> 0 \<le> tv_sec t \<and> 0 \<le> tv_usec t \<and> tv_usec t < 1000"

lemma msec_ok_finite: "msec_ok t \<Longrightarrow> \<not> IsInfinite t"
  by (simp add: msec_ok_def IsInfinite_def)

lemma SetInfinite_infinite [simp]: "IsInfinite SetInfinite"
  by (simp add: IsInfinite_def SetInfinite_def)

lemma msec_greater_ms: "msec_ok t1 \<Longrightarrow> msec_ok t2 \<Longrightarrow> msec_greater t1 t2 \<longleftrightarrow> time_ms t1 > time_ms t2"
  by (auto simp: msec_greater_def msec_ok_finite time_ms_def) (auto simp: msec_ok_def)

lemma msec_less_ms: "msec_ok t1 \<Longrightarrow> msec_ok t2 \<Longrightarrow> msec_less t1 t2 \<longleftrightarrow> time_ms t1 < time_ms t2"
  by (auto simp: msec_less_def msec_ok_finite time_ms_def) (auto simp: msec_ok_def)

lemma timeval_of_nat: "0 \<le> d \<Longrightarrow> timeval_of d = (d div 1000, d mod 1000 * 1000)"
  by (simp add: timeval_of_def signed_divide_int_def signed_modulo_int_def sgn_if minus_div_mult_eq_mod)

lemma sdiv_thousand: "0 \<le> d \<Longrightarrow> d * 1000 sdiv 1000 = (d :: int)" "0 \<le> d \<Longrightarrow> d sdiv (1000 :: int) = d div 1000"
  "0 \<le> d \<Longrightarrow> d smod (1000 :: int) = d mod 1000"
  by (simp_all add: signed_divide_int_def signed_modulo_int_def sgn_if minus_div_mult_eq_mod)

lemma msec_plus_ms:
  assumes "msec_ok t" and "0 \<le> d"
  shows "msec_ok (msec_plus d t)" "time_ms (msec_plus d t) = time_ms t + d"
proof -
  let ?u = "tv_usec t + d mod 1000"
  have "0 \<le> ?u" using assms by (simp add: msec_ok_def)
  then have e: "msec_plus d t = (if ?u \<ge> 1000 then \<lparr>tv_sec = tv_sec t + ?u div 1000 + d div 1000, tv_usec = ?u mod 1000\<rparr>
    else \<lparr>tv_sec = tv_sec t + d div 1000, tv_usec = ?u\<rparr>)"
    using assms by (simp add: msec_plus_def msec_plus_timeval_def timeval_of_nat sdiv_thousand msec_ok_finite Let_def)
  show "msec_ok (msec_plus d t)" "time_ms (msec_plus d t) = time_ms t + d"
    using assms unfolding e by (auto simp: msec_ok_def time_ms_def)
qed

lemma msec_minus_ms:
  assumes "msec_ok t" and "0 \<le> d" and "d \<le> time_ms t"
  shows "msec_ok (msec_minus d t)" "time_ms (msec_minus d t) = time_ms t - d"
proof -
  have e: "msec_minus d t = (if tv_usec t < d mod 1000 then \<lparr>tv_sec = tv_sec t - 1 - d div 1000, tv_usec = tv_usec t + 1000 - d mod 1000\<rparr>
    else \<lparr>tv_sec = tv_sec t - d div 1000, tv_usec = tv_usec t - d mod 1000\<rparr>)"
    using assms by (simp add: msec_minus_def msec_minus_timeval_def timeval_of_nat sdiv_thousand msec_ok_finite Let_def)
  have "d = 1000 * (d div 1000) + d mod 1000" "0 \<le> d div 1000" "0 \<le> d mod 1000" "d mod 1000 < 1000" using assms(2) by simp_all
  then show "msec_ok (msec_minus d t)" "time_ms (msec_minus d t) = time_ms t - d"
    using assms unfolding e msec_ok_def time_ms_def by (smt (verit) msec.select_convs)+
qed

lemma GetDelta_us:
  assumes "msec_ok now" and "msec_ok future"
  shows "fst (GetDelta now future) * 1000000 + snd (GetDelta now future) = max 0 (time_ms future - time_ms now) * 1000 \<and>
    0 \<le> fst (GetDelta now future) \<and> 0 \<le> snd (GetDelta now future) \<and> snd (GetDelta now future) < 1000000"
  using assms by (auto simp: GetDelta_def msec_ok_finite msec_greater_ms Let_def) (auto simp: msec_ok_def time_ms_def)

end
