(* ===== verification/Msg_Queue.thy ===== *)
theory Msg_Queue
  imports Msg_Time Snmp_Message Usm_Codes
begin

section \<open>Outstanding requests\<close>

text \<open>
  The queue of requests that wait for an answer (\<^verbatim>\<open>src/snmp++/src/msgqueue.cpp\<close>), with what \<^verbatim>\<open>uxsnmp.cpp\<close> and \<^verbatim>\<open>eventlistholder.cpp\<close>
  do with it: a request gets an id, is queued and sent; a response is matched with it; it is sent again when its timeout is over,
  as often as the target says.  The doubly linked list behind a head element is a list of messages, the newest first, and a pointer to
  a message is its index.  What leaves the program is a list of events: packets, calls of the callback of the application, and
  changes of the tables of the version 3 engine.  The readings of the clock and the results of \<^verbatim>\<open>sendto\<close> are numbered functions.
  One thread runs, so that a message that is locked when another operation needs it is locked for ever, which is \<open>None\<close>; the
  callback itself is code of the application, which runs after the step.
\<close>

subsection \<open>Data\<close>

type_synonym u16 = "16 word"

datatype vb_value = Vb_timeticks u64 | Vb_oid "u64 list" | Vb_other int

record vb_obj =
  vb_name :: "u64 list"
  vb_val :: vb_value

record pdu_obj =
  p_type :: u16
  p_request_id :: u64
  p_error_status :: int
  p_error_index :: int
  p_vbs :: "vb_obj list"
  p_notify_timestamp :: u64
  p_notify_id :: "u64 list"

record target_obj =
  tg_timeout :: u64
  tg_retries :: int
  tg_version :: int
  tg_is_utarget :: bool
  tg_host :: "u8 list"
  tg_port :: int

record cmessage =
  cm_id :: u64
  cm_send_time :: msec
  cm_socket :: int
  cm_target :: target_obj
  cm_pdu :: pdu_obj
  cm_raw :: "u8 list"
  cm_callback :: "nat option"
  cm_data :: nat
  cm_reason :: int
  cm_received :: bool
  cm_locked :: bool

datatype mq_event =
    First_sent u64 "u8 list"
  | Sent_again u64 "u8 list"
  | Called u64 nat int pdu_obj nat
  | Cache_deleted u64
  | Engine_id_added "u8 list" "u8 list" int

record mqueue =
  mq_list :: "cmessage list"
  mq_count :: int
  mq_reads :: nat
  mq_sends :: nat
  mq_out :: "mq_event list"

record mq_env =
  clock :: "nat \<Rightarrow> msec"
  send_result :: "nat \<Rightarrow> int"

definition SNMP_CLASS_TIMEOUT :: int where "SNMP_CLASS_TIMEOUT = -5"
definition SNMP_CLASS_ASYNC_RESPONSE :: int where "SNMP_CLASS_ASYNC_RESPONSE = -6"
definition SNMP_CLASS_SESSION_DESTROYED :: int where "SNMP_CLASS_SESSION_DESTROYED = -8"
definition SNMP_CLASS_INVALID_REQID :: int where "SNMP_CLASS_INVALID_REQID = -14"
definition SNMP_CLASS_TL_FAILED :: int where "SNMP_CLASS_TL_FAILED = -22"
definition PDU_MAX_RID :: int where "PDU_MAX_RID = 32767"
definition PDU_MIN_RID :: int where "PDU_MIN_RID = 1000"

definition sNMP_PDU_GET :: u16 where "sNMP_PDU_GET = 0xA0"
definition sNMP_PDU_GETNEXT :: u16 where "sNMP_PDU_GETNEXT = 0xA1"
definition sNMP_PDU_RESPONSE :: u16 where "sNMP_PDU_RESPONSE = 0xA2"
definition sNMP_PDU_SET :: u16 where "sNMP_PDU_SET = 0xA3"
definition sNMP_PDU_GETBULK :: u16 where "sNMP_PDU_GETBULK = 0xA5"
definition sNMP_PDU_INFORM :: u16 where "sNMP_PDU_INFORM = 0xA6"
definition sNMP_PDU_REPORT :: u16 where "sNMP_PDU_REPORT = 0xA8"

definition SNMP_MSG_OID_SYSUPTIME :: "u64 list" where "SNMP_MSG_OID_SYSUPTIME = [1, 3, 6, 1, 2, 1, 1, 3, 0]"
definition SNMP_MSG_OID_TRAPID :: "u64 list" where "SNMP_MSG_OID_TRAPID = [1, 3, 6, 1, 6, 3, 1, 1, 4, 1, 0]"

definition put_message :: "nat \<Rightarrow> cmessage \<Rightarrow> mqueue \<Rightarrow> mqueue" where
  "put_message i m q = q\<lparr>mq_list := (mq_list q)[i := m]\<rparr>"

definition mq_emit :: "mq_event list \<Rightarrow> mqueue \<Rightarrow> mqueue" where
  "mq_emit es q = q\<lparr>mq_out := mq_out q @ es\<rparr>"

subsection \<open>A message\<close>

text \<open>The timeout is in hundredths of seconds; the product is converted to \<^verbatim>\<open>long\<close>.\<close>

definition SetSendTime :: "msec \<Rightarrow> cmessage \<Rightarrow> cmessage" where
  "SetSendTime now m = m\<lparr>cm_send_time := msec_plus (sint (tg_timeout (cm_target m) * 10)) now\<rparr>"

definition new_message :: "msec \<Rightarrow> u64 \<Rightarrow> int \<Rightarrow> target_obj \<Rightarrow> pdu_obj \<Rightarrow> u8 list \<Rightarrow> nat option \<Rightarrow> nat \<Rightarrow> cmessage" where
  "new_message now uniqueId socket target pdu rawPdu callBack callData = SetSendTime now
     \<lparr>cm_id = uniqueId, cm_send_time = now, cm_socket = socket, cm_target = target,
      cm_pdu = pdu\<lparr>p_error_index := 0, p_error_status := 0, p_request_id := uniqueId\<rparr>, cm_raw = rawPdu,
      cm_callback = callBack, cm_data = callData, cm_reason = 0, cm_received = False, cm_locked = False\<rparr>"

definition match_type :: "u16 \<Rightarrow> u16 \<Rightarrow> bool" where
  "match_type request response \<longleftrightarrow>
     request \<in> {sNMP_PDU_GET, sNMP_PDU_GETNEXT, sNMP_PDU_SET, sNMP_PDU_GETBULK, sNMP_PDU_INFORM} \<and>
     response \<in> {sNMP_PDU_RESPONSE, sNMP_PDU_REPORT}"

text \<open>The first two bindings of the answer to an inform request are taken off when they are the ones of a notification.\<close>

definition strip_notification :: "pdu_obj \<Rightarrow> pdu_obj" where
  "strip_notification p = (case p_vbs p of
     vb1 # vb2 # vbs \<Rightarrow> (case (vb_val vb1, vb_val vb2) of
         (Vb_timeticks timeticks, Vb_oid oid) \<Rightarrow>
           if vb_name vb1 = SNMP_MSG_OID_SYSUPTIME \<and> vb_name vb2 = SNMP_MSG_OID_TRAPID
           then p\<lparr>p_notify_timestamp := timeticks, p_notify_id := oid, p_vbs := vbs\<rparr> else p
       | _ \<Rightarrow> p)
   | _ \<Rightarrow> p)"

definition SetPdu :: "int \<Rightarrow> pdu_obj \<Rightarrow> cmessage \<Rightarrow> cmessage \<times> int" where
  "SetPdu reason pdu m = (
     if \<not> match_type (p_type (cm_pdu m)) (p_type pdu) then (m, -1)
     else let orig_type = p_type (cm_pdu m) in
     if cm_received m \<and> (reason \<noteq> 0 \<or> cm_reason m = 0) then (m, 0)
     else let p = (if orig_type = sNMP_PDU_INFORM \<and> p_type pdu = sNMP_PDU_RESPONSE then strip_notification pdu else pdu)
       in (m\<lparr>cm_received := True, cm_pdu := p, cm_reason := reason\<rparr>, 0))"

definition Callback :: "int \<Rightarrow> cmessage \<Rightarrow> (cmessage \<times> mq_event list) \<times> int" where
  "Callback reason m = (case cm_callback m of
     Some f \<Rightarrow> ((m\<lparr>cm_callback := None\<rparr>, [Called (cm_id m) f reason (cm_pdu m) (cm_data m)]), 0)
   | None \<Rightarrow> ((m, []), 1))"

subsection \<open>The queue\<close>

definition AddEntry :: "mq_env \<Rightarrow> u64 \<Rightarrow> int \<Rightarrow> target_obj \<Rightarrow> pdu_obj \<Rightarrow> u8 list \<Rightarrow> nat option \<Rightarrow> nat \<Rightarrow> mqueue \<Rightarrow> mqueue" where
  "AddEntry E uniqueId socket target pdu rawPdu callBack callData q =
     q\<lparr>mq_list := new_message (clock E (mq_reads q)) uniqueId socket target pdu rawPdu callBack callData # mq_list q,
       mq_count := mq_count q + 1, mq_reads := Suc (mq_reads q)\<rparr>"

fun find_id :: "u64 \<Rightarrow> cmessage list \<Rightarrow> nat option" where
  "find_id uniqueId [] = None"
| "find_id uniqueId (m # ms) = (if cm_id m = uniqueId then Some 0 else map_option Suc (find_id uniqueId ms))"

definition GetEntry :: "u64 \<Rightarrow> mqueue \<Rightarrow> nat option" where
  "GetEntry uniqueId q = find_id uniqueId (mq_list q)"

definition remove_at :: "nat \<Rightarrow> 'a list \<Rightarrow> 'a list" where
  "remove_at i xs = take i xs @ drop (Suc i) xs"

definition DeleteEntry :: "u64 \<Rightarrow> mqueue \<Rightarrow> (mqueue \<times> int) option" where
  "DeleteEntry uniqueId q = (case find_id uniqueId (mq_list q) of
     None \<Rightarrow> Some (q, SNMP_CLASS_INVALID_REQID)
   | Some i \<Rightarrow> if cm_locked (mq_list q ! i) then None
       else Some (q\<lparr>mq_list := remove_at i (mq_list q), mq_count := mq_count q - 1\<rparr>, SNMP_CLASS_SUCCESS))"

text \<open>The callbacks of the messages of a socket; the number of messages is not changed.\<close>

fun delete_socket :: "int \<Rightarrow> cmessage list \<Rightarrow> (cmessage list \<times> mq_event list) option" where
  "delete_socket socket [] = Some ([], [])"
| "delete_socket socket (m # ms) = (
     if socket = cm_socket m
     then if cm_locked m then None
       else map_option (\<lambda>(ms, es). (ms, snd (fst (Callback SNMP_CLASS_SESSION_DESTROYED m)) @ es)) (delete_socket socket ms)
     else map_option (\<lambda>(ms, es). (m # ms, es)) (delete_socket socket ms))"

definition DeleteSocketEntry :: "int \<Rightarrow> mqueue \<Rightarrow> mqueue option" where
  "DeleteSocketEntry socket q = map_option (\<lambda>(ms, es). mq_emit es (q\<lparr>mq_list := ms\<rparr>)) (delete_socket socket (mq_list q))"

text \<open>The loop looks at index \<open>i\<close> and later; \<open>best\<close> and \<open>bestTime\<close> are those of the best message before.\<close>

fun next_timeout :: "nat \<Rightarrow> nat \<Rightarrow> msec \<Rightarrow> cmessage list \<Rightarrow> nat" where
  "next_timeout i best bestTime [] = best"
| "next_timeout i best bestTime (m # ms) = (
     if msec_greater bestTime (cm_send_time m) then next_timeout (Suc i) i (cm_send_time m) ms
     else next_timeout (Suc i) best bestTime ms)"

definition GetNextTimeoutEntry :: "mqueue \<Rightarrow> nat option" where
  "GetNextTimeoutEntry q = (case mq_list q of [] \<Rightarrow> None | m # _ \<Rightarrow> Some (next_timeout 0 0 (cm_send_time m) (mq_list q)))"

definition GetNextTimeout :: "mqueue \<Rightarrow> msec option" where
  "GetNextTimeout q = map_option (\<lambda>i. cm_send_time (mq_list q ! i)) (GetNextTimeoutEntry q)"

definition ResendMessage :: "mq_env \<Rightarrow> nat \<Rightarrow> mqueue \<Rightarrow> mqueue \<times> int" where
  "ResendMessage E i q = (
     let m = mq_list q ! i; now = clock E (mq_reads q) in
     if cm_received m
     then ((put_message i (SetSendTime now m) q)\<lparr>mq_reads := Suc (mq_reads q)\<rparr>, SNMP_CLASS_SUCCESS)
     else if tg_retries (cm_target m) \<le> 0
     then let ((m, es), _) = Callback SNMP_CLASS_TIMEOUT m in (mq_emit es (put_message i m q), SNMP_CLASS_TIMEOUT)
     else let m = SetSendTime now (m\<lparr>cm_target := (cm_target m)\<lparr>tg_retries := tg_retries (cm_target m) - 1\<rparr>\<rparr>) in
       (mq_emit [Sent_again (cm_id m) (cm_raw m)]
          ((put_message i m q)\<lparr>mq_reads := Suc (mq_reads q), mq_sends := Suc (mq_sends q)\<rparr>),
        if send_result E (mq_sends q) \<noteq> 0 then SNMP_CLASS_TL_FAILED else SNMP_CLASS_SUCCESS))"

text \<open>The lock around \<open>ResendMessage\<close> is not seen by anyone.  \<open>status\<close> is that of the last message.\<close>

partial_function (option) DoRetries_loop :: "mq_env \<Rightarrow> msec \<Rightarrow> int \<Rightarrow> mqueue \<Rightarrow> (mqueue \<times> int) option" where
  "DoRetries_loop E now status q = (case GetNextTimeoutEntry q of
     None \<Rightarrow> Some (q, status)
   | Some i \<Rightarrow>
       if msec_greater (cm_send_time (mq_list q ! i)) now then Some (q, status)
       else if cm_locked (mq_list q ! i) then Some (q, status)
       else let req_id = cm_id (mq_list q ! i); (q, status) = ResendMessage E i q in
         if status = SNMP_CLASS_TIMEOUT
         then Option.bind (DeleteEntry req_id q) (\<lambda>(q, _). DoRetries_loop E now status (mq_emit [Cache_deleted req_id] q))
         else if status \<noteq> SNMP_CLASS_SUCCESS then Some (q, status)
         else DoRetries_loop E now status q)"

definition DoRetries :: "mq_env \<Rightarrow> msec \<Rightarrow> mqueue \<Rightarrow> (mqueue \<times> int) option" where
  "DoRetries E now q = DoRetries_loop E now SNMP_CLASS_SUCCESS q"

subsection \<open>Responses\<close>

text \<open>What \<open>receive_snmp_response\<close> gives for a packet: its result, the PDU (request id 0 if there is none) and the engine id.\<close>

type_synonym mq_packet = "int \<times> pdu_obj \<times> u8 list"

definition learned_engine_id :: "mq_packet \<Rightarrow> target_obj \<Rightarrow> mq_event list" where
  "learned_engine_id r t = (case r of (_, pdu, engine_id) \<Rightarrow>
     if engine_id \<noteq> [] \<and> tg_is_utarget t \<and> tg_version t = 3 \<and> p_type pdu \<in> {sNMP_PDU_REPORT, sNMP_PDU_RESPONSE}
     then [Engine_id_added engine_id (tg_host t) (tg_port t)] else [])"

definition handle_packet :: "mq_packet \<Rightarrow> mqueue \<Rightarrow> mqueue option" where
  "handle_packet r q = (case r of (recv_status, pdu, engine_id) \<Rightarrow>
     let temp_req_id = p_request_id pdu in
     if temp_req_id = 0 then Some q
     else (case GetEntry temp_req_id q of None \<Rightarrow> Some q
     | Some i \<Rightarrow>
       if cm_locked (mq_list q ! i) then None
       else let (m, status) = SetPdu recv_status pdu (mq_list q ! i) in
         if status \<noteq> 0 then Some (put_message i m q)
         else let es = learned_engine_id r (cm_target m); ((m, calls), status) = Callback SNMP_CLASS_ASYNC_RESPONSE m;
             q = mq_emit (es @ calls) (put_message i m q)
           in if status = 0 then map_option fst (DeleteEntry temp_req_id q) else Some q))"

text \<open>The sockets that \<open>GetFdSets\<close> collects, and one packet for each socket that is ready.\<close>

definition GetFdSets :: "mqueue \<Rightarrow> int set" where
  "GetFdSets q = set (map cm_socket (mq_list q))"

fun handle_ready :: "int set \<Rightarrow> (int \<times> mq_packet) list \<Rightarrow> mqueue \<Rightarrow> mqueue option" where
  "handle_ready snmp_readfds [] q = Some q"
| "handle_ready snmp_readfds ((fd, r) # rs) q = (
     if fd \<in> snmp_readfds then Option.bind (handle_packet r q) (handle_ready snmp_readfds rs)
     else handle_ready snmp_readfds rs q)"

definition HandleEvents :: "(int \<times> mq_packet) list \<Rightarrow> mqueue \<Rightarrow> mqueue option" where
  "HandleEvents rs q = handle_ready (GetFdSets q) rs q"

definition Done :: "u64 \<Rightarrow> mqueue \<Rightarrow> bool" where
  "Done uniqueId q \<longleftrightarrow> (case GetEntry uniqueId q of None \<Rightarrow> True | Some i \<Rightarrow> cm_received (mq_list q ! i))"

subsection \<open>The session\<close>

text \<open>The new id is also the new \<open>current_rid\<close>.\<close>

partial_function (option) MyMakeReqId :: "int \<Rightarrow> mqueue \<Rightarrow> int option" where
  "MyMakeReqId current_rid q = (
     let rid = (if current_rid + 1 > PDU_MAX_RID then PDU_MIN_RID else current_rid + 1) in
     if GetEntry (word_of_int rid) q \<noteq> None then MyMakeReqId rid q else Some rid)"

text \<open>A request of \<open>snmp_engine\<close> that waits for an answer: it is queued first and taken back when it cannot be sent.\<close>

definition send_request :: "mq_env \<Rightarrow> u64 \<Rightarrow> int \<Rightarrow> target_obj \<Rightarrow> pdu_obj \<Rightarrow> u8 list \<Rightarrow> nat option \<Rightarrow> nat \<Rightarrow> mqueue \<Rightarrow> (mqueue \<times> int) option" where
  "send_request E req_id socket target pdu rawPdu cb cbd q = (
     let q = AddEntry E req_id socket target pdu rawPdu cb cbd q; status = send_result E (mq_sends q);
         q = mq_emit [First_sent req_id rawPdu] (q\<lparr>mq_sends := Suc (mq_sends q)\<rparr>)
     in if status \<noteq> 0 then map_option (\<lambda>(q, _). (q, SNMP_CLASS_TL_FAILED)) (DeleteEntry req_id q)
     else Some (q, SNMP_CLASS_SUCCESS))"

definition Snmp_cancel :: "u64 \<Rightarrow> mqueue \<Rightarrow> (mqueue \<times> int) option" where
  "Snmp_cancel request_id q = DeleteEntry request_id q"

text \<open>The end of \<open>SNMPBlockForResponse\<close>, when the loop has seen that the request is done.\<close>

definition take_response :: "u64 \<Rightarrow> pdu_obj \<Rightarrow> mqueue \<Rightarrow> (mqueue \<times> pdu_obj \<times> int) option" where
  "take_response req_id pdu q = (case GetEntry req_id q of
     None \<Rightarrow> Some (q, pdu, SNMP_CLASS_TIMEOUT)
   | Some i \<Rightarrow> let m = mq_list q ! i in map_option (\<lambda>(q, _). (q, cm_pdu m, cm_reason m)) (DeleteEntry req_id q))"

end
