(* ===== verification/Queue_Properties.thy ===== *)
theory Queue_Properties
  imports Msg_Queue
begin

section \<open>Properties of the queue of requests\<close>

text \<open>
  Requests are sent again as often as the target says and then reported as timed out, each answer completes one request, no
  request has two answers, and the loops of the queue end.
\<close>

subsection \<open>Entries\<close>

lemma find_id_Some: "find_id u ms = Some i \<Longrightarrow> i < length ms \<and> cm_id (ms ! i) = u"
  by (induction ms arbitrary: i) (auto split: if_splits)

lemma find_id_None: "find_id u ms = None \<longleftrightarrow> u \<notin> cm_id ` set ms"
  by (induction ms) auto

lemma find_id_distinct: "distinct (map cm_id ms) \<Longrightarrow> i < length ms \<Longrightarrow> find_id (cm_id (ms ! i)) ms = Some i"
proof (induction ms arbitrary: i)
  case (Cons m ms)
  then show ?case by (cases i) (auto simp: image_iff dest: nth_mem)
qed simp

lemma find_id_update: "i < length ms \<Longrightarrow> cm_id m = cm_id (ms ! i) \<Longrightarrow> find_id u (ms[i := m]) = find_id u ms"
proof (induction ms arbitrary: i)
  case (Cons a ms)
  then show ?case by (cases i) auto
qed simp

lemma length_remove_at: "i < length xs \<Longrightarrow> length (remove_at i xs) = length xs - 1"
  by (simp add: remove_at_def)

lemma set_remove_at: "set (remove_at i xs) \<subseteq> set xs"
  using set_take_subset [of i xs] set_drop_subset [of "Suc i" xs] by (auto simp: remove_at_def)

lemma remove_at_split: "i < length xs \<Longrightarrow> \<exists>ys zs. xs = ys @ xs ! i # zs \<and> remove_at i xs = ys @ zs"
  using id_take_nth_drop [of i xs] by (auto simp: remove_at_def)

lemma remove_at_update: "remove_at i (xs[i := x]) = remove_at i xs"
  by (simp add: remove_at_def)

subsection \<open>The next timeout\<close>

abbreviation due_time :: "cmessage \<Rightarrow> int" where
  "due_time m \<equiv> time_ms (cm_send_time m)"

lemma next_timeout_least:
  assumes "\<forall>m\<in>set (xs @ ms). msec_ok (cm_send_time m)" and "b < length (xs @ ms)" and "bt = cm_send_time ((xs @ ms) ! b)"
    and "\<forall>m\<in>set xs. due_time ((xs @ ms) ! b) \<le> due_time m"
  shows "next_timeout (length xs) b bt ms < length (xs @ ms) \<and>
    (\<forall>m\<in>set (xs @ ms). due_time ((xs @ ms) ! next_timeout (length xs) b bt ms) \<le> due_time m)"
  using assms
proof (induction ms arbitrary: xs b bt)
  case (Cons m ms)
  have ok: "msec_ok (cm_send_time ((xs @ m # ms) ! b))" "msec_ok (cm_send_time m)"
    using Cons.prems(1) bspec [OF Cons.prems(1) nth_mem [OF Cons.prems(2)]] by simp_all
  have "msec_greater bt (cm_send_time m) \<longleftrightarrow> due_time ((xs @ m # ms) ! b) > due_time m"
    using msec_greater_ms [OF ok] Cons.prems(3) by simp
  then have g: "msec_greater bt (cm_send_time m) \<longleftrightarrow> due_time ((xs @ m # ms) ! b) > due_time m" .
  show ?case
  proof (cases "due_time ((xs @ m # ms) ! b) > due_time m")
    case True
    then have "\<forall>m'\<in>set (xs @ [m]). due_time m \<le> due_time m'" using Cons.prems(4) by force
    then show ?thesis using Cons.IH [of "xs @ [m]" "length xs" "cm_send_time m"] Cons.prems(1) True g by simp
  next
    case False
    then show ?thesis using Cons.IH [of "xs @ [m]" b bt] Cons.prems g by simp
  qed
qed simp

lemma next_entry_least:
  assumes "\<forall>m\<in>set (mq_list q). msec_ok (cm_send_time m)" and "GetNextTimeoutEntry q = Some i"
  shows "i < length (mq_list q) \<and> (\<forall>m\<in>set (mq_list q). due_time (mq_list q ! i) \<le> due_time m)"
proof (cases "mq_list q")
  case Nil
  then show ?thesis using assms(2) by (simp add: GetNextTimeoutEntry_def)
next
  case (Cons m ms)
  then have "i = next_timeout 0 0 (cm_send_time m) (m # ms)"
    using assms(2) unfolding GetNextTimeoutEntry_def by (simp del: next_timeout.simps)
  then show ?thesis using next_timeout_least [of "[]" "m # ms" 0 "cm_send_time m"] assms(1) Cons by simp
qed

lemma no_next_entry: "GetNextTimeoutEntry q = None \<longleftrightarrow> mq_list q = []"
  by (simp add: GetNextTimeoutEntry_def split: list.split)

lemma sint_of_time: "0 \<le> x \<Longrightarrow> x < 2 ^ 62 \<Longrightarrow> sint (word_of_int x :: u64) = x"
  by (simp add: sint_sbintrunc' signed_take_bit_int_eq_self_iff)

lemma hundredths:
  assumes "0 \<le> x" and "x < 2 ^ 62"
  shows "int (unat (word_of_int x div 10 + 1 :: u64)) = x div 10 + 1"
proof -
  have "uint (word_of_int x :: u64) = x" using assms by (simp add: uint_word_of_int)
  then have "uint (word_of_int x div 10 :: u64) = x div 10" by (simp add: uint_div)
  moreover have "0 \<le> x div 10" "x div 10 + 1 < 2 ^ 64" using assms by simp_all
  ultimately have "uint (word_of_int x div 10 + 1 :: u64) = x div 10 + 1"
    by (simp add: uint_word_ariths(1))
  then show ?thesis by simp
qed

lemma ulong_of_time: "msec_ulong t = word_of_int (time_ms t)"
  by (simp add: msec_ulong_def time_ms_def)

text \<open>The time that a program with its own main loop is told to wait is never shorter than the time to the first timeout, and less than
a hundredth of a second longer; without requests it is \<^verbatim>\<open>UINT_MAX\<close>.\<close>
theorem wait_is_rounded_up:
  assumes "\<forall>m\<in>set (mq_list q). msec_ok (cm_send_time m)" and "msec_ok now" and "time_ms now < 2 ^ 62"
    and "\<forall>m\<in>set (mq_list q). due_time m < 2 ^ 62" and "mq_count q = int (length (mq_list q))"
  shows "if mq_list q = [] then SNMPGetNextTimeout now [(mq_count q, GetNextTimeout q), (n, None)] = 0xFFFFFFFF
    else \<exists>m\<in>set (mq_list q). (\<forall>m'\<in>set (mq_list q). due_time m \<le> due_time m') \<and>
      (let w = int (unat (SNMPGetNextTimeout now [(mq_count q, GetNextTimeout q), (n, None)])) in
       if due_time m \<le> time_ms now then w = 0
       else due_time m - time_ms now < w * 10 \<and> w * 10 \<le> due_time m - time_ms now + 10)"
proof (cases "GetNextTimeoutEntry q")
  case None
  moreover from this have "mq_list q = []" by (simp add: no_next_entry)
  ultimately show ?thesis by (simp add: GetNextTimeout_def SNMPGetNextTimeout_def Let_def)
next
  case (Some i)
  let ?m = "mq_list q ! i" and ?t = "cm_send_time (mq_list q ! i)"
  note i = next_entry_least [OF assms(1) Some]
  have ne: "mq_list q \<noteq> []" and mem: "?m \<in> set (mq_list q)" using i by auto
  then have ok: "msec_ok ?t" and b: "due_time ?m < 2 ^ 62" using assms(1, 4) by auto
  have g: "EventList_GetNextTimeout SetInfinite [(mq_count q, GetNextTimeout q), (n, None)] = ?t"
    using Some ok ne assms(5) by (simp add: GetNextTimeout_def msec_greater_def msec_ok_finite)
  have now0: "0 \<le> time_ms now" using assms(2) by (simp add: msec_ok_def time_ms_def)
  have now: "sint (msec_ulong now) = time_ms now"
    unfolding ulong_of_time by (rule sint_of_time [OF now0 assms(3)])
  have s0: "SNMPGetNextTimeout now [(mq_count q, GetNextTimeout q), (n, None)] =
      (if due_time ?m > time_ms now then msec_ulong (msec_minus (time_ms now) ?t) div 10 + 1 else 0)"
    unfolding SNMPGetNextTimeout_def g now using ok assms(2) by (simp add: Let_def msec_ok_finite msec_greater_ms)
  let ?w = "int (unat (SNMPGetNextTimeout now [(mq_count q, GetNextTimeout q), (n, None)]))"
  let ?d = "due_time ?m - time_ms now"
  have "if due_time ?m \<le> time_ms now then ?w = 0 else ?d < ?w * 10 \<and> ?w * 10 \<le> ?d + 10"
  proof (cases "due_time ?m \<le> time_ms now")
    case True
    then show ?thesis unfolding s0 by simp
  next
    case False
    have "time_ms (msec_minus (time_ms now) ?t) = ?d" using msec_minus_ms [OF ok now0] False by simp
    then have "msec_ulong (msec_minus (time_ms now) ?t) = word_of_int ?d" by (simp add: ulong_of_time)
    then have s: "SNMPGetNextTimeout now [(mq_count q, GetNextTimeout q), (n, None)] = word_of_int ?d div 10 + 1"
      using False unfolding s0 by simp
    have d: "0 \<le> ?d" "?d < 2 ^ 62" using False b now0 by simp_all
    then have "?w = ?d div 10 + 1" unfolding s by (rule hundredths)
    then show ?thesis using False by auto
  qed
  then show ?thesis using ne i mem by (auto simp: Let_def)
qed

text \<open>The instances use a manager that asks agents with one retry and a timeout of one second, and whose clock goes by seconds.\<close>

definition sample_target :: target_obj where
  "sample_target = \<lparr>tg_timeout = 100, tg_retries = 1, tg_version = 1, tg_is_utarget = False, tg_host = [], tg_port = 161\<rparr>"

definition sample_pdu :: "u16 \<Rightarrow> u64 \<Rightarrow> pdu_obj" where
  "sample_pdu type rid = \<lparr>p_type = type, p_request_id = rid, p_error_status = 0, p_error_index = 0, p_vbs = [],
     p_notify_timestamp = 0, p_notify_id = []\<rparr>"

definition sample_message :: cmessage where
  "sample_message = new_message \<lparr>tv_sec = 5, tv_usec = 0\<rparr> 1000 3 sample_target (sample_pdu sNMP_PDU_GET 0) [48] (Some 7) 9"

definition sample_queue :: mqueue where
  "sample_queue = \<lparr>mq_list = [sample_message], mq_count = 1, mq_reads = 0, mq_sends = 0, mq_out = []\<rparr>"

definition sample_env :: mq_env where
  "sample_env = \<lparr>clock = (\<lambda>k. \<lparr>tv_sec = 7 + int k, tv_usec = 0\<rparr>), send_result = (\<lambda>_. 0)\<rparr>"

lemma sample_message_fields [simp]:
  "cm_send_time sample_message = \<lparr>tv_sec = 6, tv_usec = 0\<rparr>" "cm_id sample_message = 1000" "cm_target sample_message = sample_target"
  "\<not> cm_received sample_message" "\<not> cm_locked sample_message" "cm_callback sample_message = Some 7" "cm_data sample_message = 9"
  "cm_pdu sample_message = sample_pdu sNMP_PDU_GET 1000" "cm_raw sample_message = [48]" "cm_socket sample_message = 3"
  by (simp_all add: sample_message_def new_message_def SetSendTime_def sample_target_def sample_pdu_def msec_plus_def
      msec_plus_timeval_def timeval_of_nat sdiv_thousand IsInfinite_def)

lemma sample_time: "msec_ok \<lparr>tv_sec = n, tv_usec = 0\<rparr> \<longleftrightarrow> 0 \<le> n" "time_ms \<lparr>tv_sec = n, tv_usec = 0\<rparr> = n * 1000"
  by (simp_all add: msec_ok_def time_ms_def)

theorem wait_is_rounded_up_witness:
  "int (unat (SNMPGetNextTimeout \<lparr>tv_sec = 5, tv_usec = 0\<rparr> [(1, GetNextTimeout sample_queue), (0, None)])) \<in> {101} \<union> {100}"
proof -
  let ?w = "int (unat (SNMPGetNextTimeout \<lparr>tv_sec = 5, tv_usec = 0\<rparr> [(1, GetNextTimeout sample_queue), (0, None)]))"
  have "1000 < ?w * 10 \<and> ?w * 10 \<le> 1010"
    using wait_is_rounded_up [of sample_queue "\<lparr>tv_sec = 5, tv_usec = 0\<rparr>" 0]
    by (simp add: sample_queue_def sample_time Let_def split del: if_split)
  then have "?w = 101" by presburger
  then show ?thesis by blast
qed

subsection \<open>Sending again\<close>

definition timed :: "cmessage \<Rightarrow> bool" where
  "timed m \<longleftrightarrow> msec_ok (cm_send_time m) \<and> \<not> cm_locked m \<and> tg_timeout (cm_target m) \<noteq> 0 \<and> unat (tg_timeout (cm_target m)) < 2 ^ 58"

abbreviation timeout_ms :: "cmessage \<Rightarrow> int" where
  "timeout_ms m \<equiv> 10 * int (unat (tg_timeout (cm_target m)))"

lemma timeout_value:
  assumes "timed m"
  shows "sint (tg_timeout (cm_target m) * 10) = timeout_ms m" "0 < timeout_ms m"
proof -
  let ?t = "tg_timeout (cm_target m)"
  have t: "unat ?t < 2 ^ 58" "?t \<noteq> 0" using assms by (simp_all add: timed_def)
  obtain k where k: "unat ?t = k" by blast
  have "?t * 10 = word_of_int (timeout_ms m)" by simp
  moreover have "sint (word_of_int (timeout_ms m) :: u64) = timeout_ms m"
    by (rule sint_of_time) (use t(1) in \<open>simp_all only: k, simp_all\<close>)
  ultimately show "sint (?t * 10) = timeout_ms m" by (simp only:)
  have "unat ?t \<noteq> 0" using t(2) by (simp add: unat_0_iff)
  then show "0 < timeout_ms m" by linarith
qed

lemma SetSendTime_due:
  assumes "timed m" and "msec_ok t"
  shows "timed (SetSendTime t m)" "due_time (SetSendTime t m) = time_ms t + timeout_ms m"
  using msec_plus_ms [OF assms(2), of "timeout_ms m"] timeout_value [OF assms(1)] assms(1)
  by (simp_all add: SetSendTime_def timed_def)

text \<open>What happens to one message that is due, when the clock does not go back.\<close>

lemma ResendMessage_due:
  assumes "ResendMessage E i q = (q', st)" and "timed (mq_list q ! i)" and "time_ms now \<le> time_ms (clock E (mq_reads q))"
    and "msec_ok (clock E (mq_reads q))"
  shows "\<exists>m. mq_list q' = (mq_list q)[i := m] \<and> cm_id m = cm_id (mq_list q ! i) \<and> timed m \<and>
    (st = SNMP_CLASS_TIMEOUT \<or> st \<in> {SNMP_CLASS_SUCCESS, SNMP_CLASS_TL_FAILED} \<and> time_ms now < due_time m)"
proof -
  let ?m = "mq_list q ! i" and ?t = "clock E (mq_reads q)"
  let ?m1 = "?m\<lparr>cm_target := (cm_target ?m)\<lparr>tg_retries := tg_retries (cm_target ?m) - 1\<rparr>\<rparr>"
  have m1: "timed ?m1" using assms(2) by (simp add: timed_def)
  note s = SetSendTime_due [OF assms(2, 4)] SetSendTime_due [OF m1 assms(4)] timeout_value(2) [OF assms(2)]
  have id: "cm_id (SetSendTime t m) = cm_id m" for t m by (simp add: SetSendTime_def)
  have c: "timed (fst (fst (Callback r ?m)))" "cm_id (fst (fst (Callback r ?m))) = cm_id ?m" for r
    using assms(2) by (auto simp: Callback_def timed_def split: option.split)
  consider "cm_received ?m" | "\<not> cm_received ?m" "tg_retries (cm_target ?m) \<le> 0" | "\<not> cm_received ?m" "\<not> tg_retries (cm_target ?m) \<le> 0"
    by blast
  then show ?thesis
  proof cases
    case 1
    then show ?thesis using assms(1, 3) s id
      by (auto simp: ResendMessage_def Let_def put_message_def intro!: exI [of _ "SetSendTime ?t ?m"])
  next
    case 2
    then show ?thesis using assms(1) c [of SNMP_CLASS_TIMEOUT]
      by (auto simp: ResendMessage_def Let_def put_message_def mq_emit_def split: prod.splits
          intro!: exI [of _ "fst (fst (Callback SNMP_CLASS_TIMEOUT ?m))"])
  next
    case 3
    then show ?thesis using assms(1, 3) s id
      by (auto simp: ResendMessage_def Let_def put_message_def mq_emit_def intro!: exI [of _ "SetSendTime ?t ?m1"])
  qed
qed

definition due_count :: "msec \<Rightarrow> cmessage list \<Rightarrow> nat" where
  "due_count now ms = length (filter (\<lambda>m. due_time m \<le> time_ms now) ms)"

lemma due_count_update:
  assumes "i < length ms"
  shows "due_count now (ms[i := m]) + (if due_time (ms ! i) \<le> time_ms now then 1 else 0) =
    due_count now ms + (if due_time m \<le> time_ms now then 1 else 0)"
proof -
  have "ms = take i ms @ ms ! i # drop (Suc i) ms" using assms by (rule id_take_nth_drop)
  from arg_cong [OF this, of "due_count now"] show ?thesis
    unfolding upd_conv_take_nth_drop [OF assms] by (simp add: due_count_def)
qed

lemma due_count_remove: "i < length ms \<Longrightarrow> due_count now (remove_at i ms) \<le> due_count now ms"
proof -
  assume "i < length ms"
  from remove_at_split [OF this] obtain ys zs where "ms = ys @ ms ! i # zs" "remove_at i ms = ys @ zs" by blast
  from arg_cong [OF this(1), of "due_count now"] this(2) show ?thesis by (auto simp: due_count_def)
qed

lemma ids_update: "i < length ms \<Longrightarrow> cm_id m = cm_id (ms ! i) \<Longrightarrow> map cm_id (ms[i := m]) = map cm_id ms"
  by (simp add: map_update) (metis list_update_id nth_map)

lemma distinct_remove_at: "i < length xs \<Longrightarrow> distinct (map f xs) \<Longrightarrow> distinct (map f (remove_at i xs))"
proof -
  assume i: "i < length xs" and d: "distinct (map f xs)"
  from remove_at_split [OF i] obtain ys zs where s: "xs = ys @ xs ! i # zs" "remove_at i xs = ys @ zs" by blast
  have "distinct (map f (ys @ xs ! i # zs))" using d s(1) by simp
  then show ?thesis unfolding s(2) by auto
qed

lemma kept_by_remove: "i < length xs \<Longrightarrow> x \<in> set xs \<Longrightarrow> x \<noteq> xs ! i \<Longrightarrow> x \<in> set (remove_at i xs)"
  using remove_at_split [of i xs] by (metis in_set_conv_decomp set_append UnE UnI1 UnI2 set_ConsD)

lemma kept_by_update: "x \<in> set xs \<Longrightarrow> x \<noteq> xs ! i \<Longrightarrow> x \<in> set (xs[i := y])"
  by (metis in_set_conv_nth length_list_update nth_list_update_neq)

text \<open>A message that has timed out is deleted by its id.\<close>

lemma DeleteEntry_here:
  assumes "i < length (mq_list q)" and "distinct (map cm_id (mq_list q))" and "\<not> cm_locked (mq_list q ! i)"
  shows "DeleteEntry (cm_id (mq_list q ! i)) q =
    Some (q\<lparr>mq_list := remove_at i (mq_list q), mq_count := mq_count q - 1\<rparr>, SNMP_CLASS_SUCCESS)"
  using find_id_distinct [OF assms(2, 1)] assms(3) by (simp add: DeleteEntry_def)

lemma codes_differ [simp]:
  "SNMP_CLASS_TIMEOUT \<noteq> SNMP_CLASS_SUCCESS" "SNMP_CLASS_TL_FAILED \<noteq> SNMP_CLASS_SUCCESS" "SNMP_CLASS_TL_FAILED \<noteq> SNMP_CLASS_TIMEOUT"
  "SNMP_CLASS_SUCCESS \<noteq> SNMP_CLASS_TIMEOUT" "SNMP_CLASS_SUCCESS \<noteq> SNMP_CLASS_TL_FAILED" "SNMP_CLASS_TIMEOUT \<noteq> SNMP_CLASS_TL_FAILED"
  by (simp_all add: SNMP_CLASS_TIMEOUT_def SNMP_CLASS_SUCCESS_def SNMP_CLASS_TL_FAILED_def)

lemma loop_returns:
  assumes "\<forall>k. msec_ok (clock E k) \<and> time_ms now \<le> time_ms (clock E k)" and "msec_ok now"
    and "\<forall>m\<in>set (mq_list q). timed m" and "distinct (map cm_id (mq_list q))"
  shows "\<exists>q' st. DoRetries_loop E now status q = Some (q', st) \<and>
    (st = SNMP_CLASS_TL_FAILED \<or> (\<forall>m\<in>set (mq_list q'). time_ms now < due_time m)) \<and>
    (\<forall>m\<in>set (mq_list q). time_ms now < due_time m \<longrightarrow> m \<in> set (mq_list q'))"
  using assms(3, 4)
proof (induction "length (mq_list q) + due_count now (mq_list q)" arbitrary: q status rule: less_induct)
  case less
  have ok: "\<forall>m\<in>set (mq_list q). msec_ok (cm_send_time m)" using less.prems(1) by (simp add: timed_def)
  show ?case
  proof (cases "GetNextTimeoutEntry q")
    case None
    moreover from this have "mq_list q = []" by (simp add: no_next_entry)
    ultimately show ?thesis by (subst DoRetries_loop.simps) simp
  next
    case (Some i)
    let ?m = "mq_list q ! i"
    have i: "i < length (mq_list q)" and least: "\<forall>m\<in>set (mq_list q). due_time ?m \<le> due_time m"
      using next_entry_least [OF ok Some] by auto
    then have t: "timed ?m" using less.prems(1) by simp
    then have g: "msec_greater (cm_send_time ?m) now \<longleftrightarrow> time_ms now < due_time ?m"
      using assms(2) by (simp add: timed_def msec_greater_ms)
    show ?thesis
    proof (cases "time_ms now < due_time ?m")
      case True
      then have "\<forall>m\<in>set (mq_list q). time_ms now < due_time m" using least by force
      then show ?thesis using Some g True by (subst DoRetries_loop.simps) simp
    next
      case False
      obtain q1 st where r: "ResendMessage E i q = (q1, st)" by fastforce
      then obtain m where m: "mq_list q1 = (mq_list q)[i := m]" "cm_id m = cm_id ?m" "timed m"
          "st = SNMP_CLASS_TIMEOUT \<or> st \<in> {SNMP_CLASS_SUCCESS, SNMP_CLASS_TL_FAILED} \<and> time_ms now < due_time m"
        using ResendMessage_due [OF r t] assms(1) by blast
      have timed1: "\<forall>m\<in>set (mq_list q1). timed m"
        using less.prems(1) m(3) set_update_subset_insert [of "mq_list q" i m] unfolding m(1) by blast
      have ids1: "distinct (map cm_id (mq_list q1))" using less.prems(2) ids_update [OF i m(2)] m(1) by simp
      have step: "DoRetries_loop E now status q =
          (if st = SNMP_CLASS_TIMEOUT
           then Option.bind (DeleteEntry (cm_id ?m) q1) (\<lambda>(q, _). DoRetries_loop E now st (mq_emit [Cache_deleted (cm_id ?m)] q))
           else if st \<noteq> SNMP_CLASS_SUCCESS then Some (q1, st) else DoRetries_loop E now st q1)"
        using Some g False t r by (subst DoRetries_loop.simps) (simp add: timed_def Let_def)
      have kept1: "m' \<in> set (mq_list q1)" if "m' \<in> set (mq_list q)" "time_ms now < due_time m'" for m'
        using that False unfolding m(1) by (intro kept_by_update) auto
      show ?thesis
      proof (cases "st = SNMP_CLASS_TIMEOUT")
        case True
        have i1: "i < length (mq_list q1)" "mq_list q1 ! i = m" using i m(1) by simp_all
        let ?q2 = "mq_emit [Cache_deleted (cm_id ?m)] (q1\<lparr>mq_list := remove_at i (mq_list q1), mq_count := mq_count q1 - 1\<rparr>)"
        have l2: "mq_list ?q2 = remove_at i (mq_list q)" by (simp add: mq_emit_def m(1) remove_at_update)
        have "DeleteEntry (cm_id ?m) q1 = Some (q1\<lparr>mq_list := remove_at i (mq_list q1), mq_count := mq_count q1 - 1\<rparr>, SNMP_CLASS_SUCCESS)"
          using DeleteEntry_here [OF i1(1) ids1] m(2, 3) by (simp add: i1(2) timed_def)
        then have s: "DoRetries_loop E now status q = DoRetries_loop E now st ?q2" using step True by simp
        have c1: "length (mq_list ?q2) + due_count now (mq_list ?q2) < length (mq_list q) + due_count now (mq_list q)"
          using length_remove_at [OF i] due_count_remove [OF i, of now] i unfolding l2 by linarith
        have c2: "\<forall>m\<in>set (mq_list ?q2). timed m" using less.prems(1) subsetD [OF set_remove_at [of i "mq_list q"]] unfolding l2 by simp
        have c3: "distinct (map cm_id (mq_list ?q2))" unfolding l2 by (rule distinct_remove_at [OF i less.prems(2)])
        have c4: "m' \<in> set (mq_list ?q2)" if "m' \<in> set (mq_list q)" "time_ms now < due_time m'" for m'
          using that False i unfolding l2 by (intro kept_by_remove) auto
        from less.hyps [OF c1 c2 c3, of st] c4 show ?thesis unfolding s by blast
      next
        case ready: False
        then have m4: "time_ms now < due_time m" "st \<in> {SNMP_CLASS_SUCCESS, SNMP_CLASS_TL_FAILED}" using m(4) by auto
        show ?thesis
        proof (cases "st = SNMP_CLASS_SUCCESS")
          case True
          then have s: "DoRetries_loop E now status q = DoRetries_loop E now st q1" using step by simp
          have "length (mq_list q1) + due_count now (mq_list q1) < length (mq_list q) + due_count now (mq_list q)"
            using due_count_update [OF i, of now m] m4(1) False unfolding m(1) by simp
          from less.hyps [OF this timed1 ids1, of st] kept1 show ?thesis unfolding s by blast
        next
          case False
          then show ?thesis using step m4(2) kept1 by auto
        qed
      qed
    qed
  qed
qed

text \<open>C29: \<open>DoRetries\<close> returns, although each message it handles is put back with a new time: afterwards no message is due, unless a packet
could not be sent, and the messages that were not due are as they were.\<close>
theorem retries_return:
  assumes "\<forall>k. msec_ok (clock E k) \<and> time_ms now \<le> time_ms (clock E k)" and "msec_ok now"
    and "\<forall>m\<in>set (mq_list q). timed m" and "distinct (map cm_id (mq_list q))"
  shows "\<exists>q' st. DoRetries E now q = Some (q', st) \<and>
    (st = SNMP_CLASS_TL_FAILED \<or> (\<forall>m\<in>set (mq_list q'). time_ms now < due_time m)) \<and>
    (\<forall>m\<in>set (mq_list q). time_ms now < due_time m \<longrightarrow> m \<in> set (mq_list q'))"
  unfolding DoRetries_def by (rule loop_returns [OF assms])

lemma sample_ready: "\<forall>m\<in>set (mq_list sample_queue). timed m" "distinct (map cm_id (mq_list sample_queue))"
  by (simp_all add: sample_queue_def timed_def sample_target_def sample_time)

theorem retries_return_witness:
  "\<exists>q' st. DoRetries sample_env \<lparr>tv_sec = 6, tv_usec = 0\<rparr> sample_queue = Some (q', st)"
  using retries_return [of sample_env "\<lparr>tv_sec = 6, tv_usec = 0\<rparr>" sample_queue] sample_ready
  by (auto simp: sample_env_def sample_time)

subsection \<open>A request without an answer\<close>

text \<open>One turn of the loop, for a message that is due: it is put back because its answer is there, sent again, or given up.\<close>

abbreviation retried :: "cmessage \<Rightarrow> cmessage" where
  "retried m \<equiv> m\<lparr>cm_target := (cm_target m)\<lparr>tg_retries := tg_retries (cm_target m) - 1\<rparr>\<rparr>"

inductive retry_turn :: "mq_env \<Rightarrow> int \<Rightarrow> mqueue \<Rightarrow> mqueue \<Rightarrow> bool" for E now where
  put_back: "i < length (mq_list q) \<Longrightarrow> m = mq_list q ! i \<Longrightarrow> due_time m \<le> now \<Longrightarrow> cm_received m \<Longrightarrow>
    mq_list q' = (mq_list q)[i := SetSendTime (clock E k) m] \<Longrightarrow> mq_out q' = mq_out q \<Longrightarrow>
    retry_turn E now q q'"
| again: "i < length (mq_list q) \<Longrightarrow> m = mq_list q ! i \<Longrightarrow> due_time m \<le> now \<Longrightarrow> \<not> cm_received m \<Longrightarrow> 0 < tg_retries (cm_target m) \<Longrightarrow>
    mq_list q' = (mq_list q)[i := SetSendTime (clock E k) (retried m)] \<Longrightarrow> mq_out q' = mq_out q @ [Sent_again (cm_id m) (cm_raw m)] \<Longrightarrow>
    retry_turn E now q q'"
| given_up: "i < length (mq_list q) \<Longrightarrow> m = mq_list q ! i \<Longrightarrow> due_time m \<le> now \<Longrightarrow> \<not> cm_received m \<Longrightarrow> tg_retries (cm_target m) \<le> 0 \<Longrightarrow>
    mq_list q' = remove_at i (mq_list q) \<Longrightarrow>
    mq_out q' = mq_out q @ snd (fst (Callback SNMP_CLASS_TIMEOUT m)) @ [Cache_deleted (cm_id m)] \<Longrightarrow>
    retry_turn E now q q'"

text \<open>The clock does not go back and packets can be sent.\<close>

abbreviation env_ok :: "mq_env \<Rightarrow> msec \<Rightarrow> bool" where
  "env_ok E now \<equiv> \<forall>k. msec_ok (clock E k) \<and> time_ms now \<le> time_ms (clock E k) \<and> send_result E k = 0"

abbreviation queue_ok :: "mqueue \<Rightarrow> bool" where
  "queue_ok q \<equiv> (\<forall>m\<in>set (mq_list q). timed m) \<and> distinct (map cm_id (mq_list q))"

lemma renewed_due:
  assumes "timed m" and "env_ok E now"
  shows "timed (SetSendTime (clock E k) m)" "due_time (SetSendTime (clock E k) m) = time_ms (clock E k) + timeout_ms m"
    "time_ms now < due_time (SetSendTime (clock E k) m)" "cm_id (SetSendTime (clock E k) m) = cm_id m"
  using SetSendTime_due [OF assms(1), of "clock E k"] timeout_value(2) [OF assms(1)] spec [OF assms(2), of k]
  by (simp_all add: SetSendTime_def)

lemma timed_retried: "timed m \<Longrightarrow> timed (retried m)"
  by (simp add: timed_def)

lemma turn_keeps:
  assumes "retry_turn E (time_ms now) q q'" and "queue_ok q" and "env_ok E now"
  shows "queue_ok q'" and "length (mq_list q') + due_count now (mq_list q') < length (mq_list q) + due_count now (mq_list q)"
proof -
  have update: "queue_ok q' \<and> length (mq_list q') + due_count now (mq_list q') < length (mq_list q) + due_count now (mq_list q)"
    if i: "i < length (mq_list q)" "due_time (mq_list q ! i) \<le> time_ms now" and m: "timed m" "cm_id m = cm_id (mq_list q ! i)"
      "time_ms now < due_time m" "mq_list q' = (mq_list q)[i := m]" for i m
  proof -
    have "\<forall>x\<in>set (mq_list q'). timed x" using assms(2) m(1) set_update_subset_insert [of "mq_list q" i m] unfolding m(4) by blast
    moreover have "distinct (map cm_id (mq_list q'))" using assms(2) ids_update [OF i(1) m(2)] m(4) by simp
    ultimately show ?thesis using due_count_update [OF i(1), of now m] i(2) m(3) unfolding m(4) by simp
  qed
  have "queue_ok q' \<and> length (mq_list q') + due_count now (mq_list q') < length (mq_list q) + due_count now (mq_list q)"
    using assms(1)
  proof cases
    case (put_back i m k)
    then have "timed m" using assms(2) by simp
    from renewed_due [OF this assms(3), of k] put_back show ?thesis by (intro update [of i]) simp_all
  next
    case (again i m k)
    then have "timed (retried m)" using assms(2) timed_retried by simp
    from renewed_due [OF this assms(3), of k] again show ?thesis by (intro update [of i]) simp_all
  next
    case (given_up i m)
    then show ?thesis
      using assms(2) length_remove_at [of i "mq_list q"] due_count_remove [of i "mq_list q" now] subsetD [OF set_remove_at [of i "mq_list q"]]
        distinct_remove_at [of i "mq_list q" cm_id] by auto
  qed
  then show "queue_ok q'" and "length (mq_list q') + due_count now (mq_list q') < length (mq_list q) + due_count now (mq_list q)"
    by blast+
qed

lemma loop_turn:
  assumes "env_ok E now" and "msec_ok now" and "queue_ok q" and "GetNextTimeoutEntry q = Some i"
    and "due_time (mq_list q ! i) \<le> time_ms now"
  shows "\<exists>q' st. retry_turn E (time_ms now) q q' \<and> DoRetries_loop E now status q = DoRetries_loop E now st q'"
proof -
  let ?m = "mq_list q ! i" and ?t = "clock E (mq_reads q)"
  have ok: "\<forall>m\<in>set (mq_list q). msec_ok (cm_send_time m)" using assms(3) by (simp add: timed_def)
  have i: "i < length (mq_list q)" using next_entry_least [OF ok assms(4)] by blast
  then have t: "timed ?m" using assms(3) by simp
  then have g: "\<not> msec_greater (cm_send_time ?m) now" using assms(2, 5) by (simp add: timed_def msec_greater_ms)
  have snd0: "send_result E (mq_sends q) = 0" using assms(1) by blast
  have step: "DoRetries_loop E now status q = (case ResendMessage E i q of (q1, st) \<Rightarrow>
      if st = SNMP_CLASS_TIMEOUT
      then Option.bind (DeleteEntry (cm_id ?m) q1) (\<lambda>(q, _). DoRetries_loop E now st (mq_emit [Cache_deleted (cm_id ?m)] q))
      else if st \<noteq> SNMP_CLASS_SUCCESS then Some (q1, st) else DoRetries_loop E now st q1)"
    using assms(4) g t by (subst DoRetries_loop.simps) (simp add: timed_def Let_def)
  consider "cm_received ?m" | "\<not> cm_received ?m" "0 < tg_retries (cm_target ?m)" | "\<not> cm_received ?m" "tg_retries (cm_target ?m) \<le> 0"
    by linarith
  then show ?thesis
  proof cases
    case 1
    let ?q = "(put_message i (SetSendTime ?t ?m) q)\<lparr>mq_reads := Suc (mq_reads q)\<rparr>"
    have "retry_turn E (time_ms now) q ?q"
      using 1 i assms(5) by (intro retry_turn.put_back [of i _ ?m]) (simp_all add: put_message_def)
    moreover have "DoRetries_loop E now status q = DoRetries_loop E now SNMP_CLASS_SUCCESS ?q"
      unfolding step using 1 by (simp add: ResendMessage_def)
    ultimately show ?thesis by blast
  next
    case 2
    let ?q = "mq_emit [Sent_again (cm_id ?m) (cm_raw ?m)] ((put_message i (SetSendTime ?t (retried ?m)) q)\<lparr>mq_reads := Suc (mq_reads q), mq_sends := Suc (mq_sends q)\<rparr>)"
    have "retry_turn E (time_ms now) q ?q"
      using 2 i assms(5) by (intro retry_turn.again [of i _ ?m]) (simp_all add: put_message_def mq_emit_def)
    moreover have "DoRetries_loop E now status q = DoRetries_loop E now SNMP_CLASS_SUCCESS ?q"
      unfolding step using 2 snd0 by (simp add: ResendMessage_def Let_def SetSendTime_def)
    ultimately show ?thesis by blast
  next
    case 3
    obtain m es c where cb: "Callback SNMP_CLASS_TIMEOUT ?m = ((m, es), c)" by (metis prod.exhaust)
    then have m: "m = fst (fst (Callback SNMP_CLASS_TIMEOUT ?m))" by simp
    have mm: "cm_id m = cm_id ?m" "\<not> cm_locked m" unfolding m using t by (auto simp: Callback_def timed_def split: option.split)
    let ?q1 = "mq_emit es (put_message i m q)"
    have l: "mq_list ?q1 = (mq_list q)[i := m]" by (simp add: mq_emit_def put_message_def)
    have d: "distinct (map cm_id (mq_list ?q1))" unfolding l using assms(3) ids_update [OF i mm(1)] by simp
    let ?q = "mq_emit [Cache_deleted (cm_id ?m)] (?q1\<lparr>mq_list := remove_at i (mq_list ?q1), mq_count := mq_count ?q1 - 1\<rparr>)"
    have "DeleteEntry (cm_id ?m) ?q1 = Some (?q1\<lparr>mq_list := remove_at i (mq_list ?q1), mq_count := mq_count ?q1 - 1\<rparr>, SNMP_CLASS_SUCCESS)"
      using DeleteEntry_here [of i ?q1] i d mm by (simp add: l)
    then have "DoRetries_loop E now status q = DoRetries_loop E now SNMP_CLASS_TIMEOUT ?q"
      unfolding step using 3 cb by (simp add: ResendMessage_def Let_def)
    moreover have "retry_turn E (time_ms now) q ?q"
      using 3 i assms(5) cb by (intro retry_turn.given_up [of i _ ?m]) (simp_all add: l mq_emit_def put_message_def remove_at_update)
    ultimately show ?thesis by blast
  qed
qed

text \<open>What every turn keeps holds after the loop, and then nothing is due.\<close>

lemma loop_rule:
  assumes "env_ok E now" and "msec_ok now" and "queue_ok q" and "P q"
    and "\<And>q q'. retry_turn E (time_ms now) q q' \<Longrightarrow> queue_ok q \<Longrightarrow> P q \<Longrightarrow> P q'"
  shows "\<exists>q' st. DoRetries_loop E now status q = Some (q', st) \<and> queue_ok q' \<and> P q' \<and> (\<forall>m\<in>set (mq_list q'). time_ms now < due_time m)"
  using assms(3, 4)
proof (induction "length (mq_list q) + due_count now (mq_list q)" arbitrary: q status rule: less_induct)
  case less
  have ok: "\<forall>m\<in>set (mq_list q). msec_ok (cm_send_time m)" using less.prems(1) by (simp add: timed_def)
  show ?case
  proof (cases "GetNextTimeoutEntry q")
    case None
    moreover from this have "mq_list q = []" by (simp add: no_next_entry)
    ultimately show ?thesis using less.prems by (subst DoRetries_loop.simps) simp
  next
    case (Some i)
    have i: "i < length (mq_list q)" and least: "\<forall>m\<in>set (mq_list q). due_time (mq_list q ! i) \<le> due_time m"
      using next_entry_least [OF ok Some] by auto
    show ?thesis
    proof (cases "time_ms now < due_time (mq_list q ! i)")
      case True
      then have "\<forall>m\<in>set (mq_list q). time_ms now < due_time m" using least by force
      moreover have "msec_greater (cm_send_time (mq_list q ! i)) now" using True ok i assms(2) by (simp add: msec_greater_ms)
      ultimately show ?thesis using Some less.prems by (subst DoRetries_loop.simps) simp
    next
      case False
      then obtain q' st where t: "retry_turn E (time_ms now) q q'" "DoRetries_loop E now status q = DoRetries_loop E now st q'"
        using loop_turn [OF assms(1, 2) less.prems(1) Some] by fastforce
      note k = turn_keeps [OF t(1) less.prems(1) assms(1)]
      show ?thesis unfolding t(2) by (rule less.hyps [OF k(2) k(1) assms(5) [OF t(1) less.prems]])
    qed
  qed
qed

text \<open>The events of one request, and what a turn does for it.\<close>

fun concerns :: "u64 \<Rightarrow> mq_event \<Rightarrow> bool" where
  "concerns u (First_sent v raw) \<longleftrightarrow> u = v"
| "concerns u (Sent_again v raw) \<longleftrightarrow> u = v"
| "concerns u (Called v f reason pdu cbd) \<longleftrightarrow> u = v"
| "concerns u (Cache_deleted v) \<longleftrightarrow> u = v"
| "concerns u (Engine_id_added e host port) \<longleftrightarrow> False"

lemma called_other: "u \<noteq> cm_id m \<Longrightarrow> filter (concerns u) (snd (fst (Callback r m))) = []"
  by (simp add: Callback_def split: option.split)

lemma distinct_id_removed: "distinct (map cm_id ms) \<Longrightarrow> i < length ms \<Longrightarrow> cm_id (ms ! i) \<notin> cm_id ` set (remove_at i ms)"
proof -
  assume d: "distinct (map cm_id ms)" and i: "i < length ms"
  from remove_at_split [OF i] obtain ys zs where s: "ms = ys @ ms ! i # zs" "remove_at i ms = ys @ zs" by blast
  have "distinct (map cm_id (ys @ ms ! i # zs))" using d s(1) by simp
  then show ?thesis unfolding s(2) by auto
qed

lemma turn_ids: "retry_turn E now q q' \<Longrightarrow> cm_id ` set (mq_list q') \<subseteq> cm_id ` set (mq_list q)"
proof (induction rule: retry_turn.induct)
  case (put_back i q m q' k)
  then show ?case using set_update_subset_insert [of "mq_list q" i] by (fastforce simp: SetSendTime_def)
next
  case (again i q m q' k)
  then show ?case using set_update_subset_insert [of "mq_list q" i] by (fastforce simp: SetSendTime_def)
next
  case (given_up i q m q')
  then show ?case using set_remove_at [of i "mq_list q"] by auto
qed

text \<open>Each turn is about one message, and says nothing of the others.\<close>

lemma turn_subject:
  assumes "retry_turn E now q q'"
  obtains i es where "i < length (mq_list q)" and "mq_out q' = mq_out q @ es" and "\<And>u. u \<noteq> cm_id (mq_list q ! i) \<Longrightarrow> filter (concerns u) es = []"
    and "\<And>m. m \<in> set (mq_list q) \<Longrightarrow> m \<noteq> mq_list q ! i \<Longrightarrow> m \<in> set (mq_list q')"
  using assms
proof cases
  case (put_back i m k)
  then show ?thesis using kept_by_update by (intro that [of i "[]"]) auto
next
  case (again i m k)
  then show ?thesis using kept_by_update by (intro that [of i "[Sent_again (cm_id m) (cm_raw m)]"]) auto
next
  case (given_up i m)
  then show ?thesis using kept_by_remove called_other
    by (intro that [of i "snd (fst (Callback SNMP_CLASS_TIMEOUT m)) @ [Cache_deleted (cm_id m)]"]) auto
qed

lemma turn_absent:
  assumes "retry_turn E now q q'" and "u \<notin> cm_id ` set (mq_list q)"
  shows "u \<notin> cm_id ` set (mq_list q') \<and> (\<exists>es. mq_out q' = mq_out q @ es \<and> filter (concerns u) es = [])"
proof -
  obtain i es where s: "i < length (mq_list q)" "mq_out q' = mq_out q @ es" "\<And>u. u \<noteq> cm_id (mq_list q ! i) \<Longrightarrow> filter (concerns u) es = []"
    using turn_subject [OF assms(1)] by metis
  have "u \<noteq> cm_id (mq_list q ! i)" using assms(2) s(1) by auto
  then show ?thesis using turn_ids [OF assms(1)] assms(2) s(2, 3) by blast
qed

lemma turn_present:
  assumes "retry_turn E now q q'" and "distinct (map cm_id (mq_list q))" and "m \<in> set (mq_list q)" and "\<not> cm_received m"
  obtains (other) es where "m \<in> set (mq_list q')" and "mq_out q' = mq_out q @ es" and "filter (concerns (cm_id m)) es = []"
  | (again) k where "due_time m \<le> now" and "0 < tg_retries (cm_target m)" and "SetSendTime (clock E k) (retried m) \<in> set (mq_list q')"
      and "mq_out q' = mq_out q @ [Sent_again (cm_id m) (cm_raw m)]"
  | (given_up) "due_time m \<le> now" and "tg_retries (cm_target m) \<le> 0" and "cm_id m \<notin> cm_id ` set (mq_list q')"
      and "mq_out q' = mq_out q @ snd (fst (Callback SNMP_CLASS_TIMEOUT m)) @ [Cache_deleted (cm_id m)]"
proof -
  have same: "mq_list q ! i = m" if "i < length (mq_list q)" "cm_id (mq_list q ! i) = cm_id m" for i
    using that assms(2, 3) by (metis distinct_map inj_onD nth_mem)
  from assms(1) show ?thesis
  proof cases
    case (put_back j a k)
    show ?thesis
    proof (cases "a = m")
      case True
      then show ?thesis using put_back assms(4) by simp
    next
      case False
      then show ?thesis using put_back kept_by_update [OF assms(3), of j] by (intro other [of "[]"]) auto
    qed
  next
    case (again j a k)
    show ?thesis
    proof (cases "a = m")
      case True
      then show ?thesis using again set_update_memI [of j "mq_list q"] by (intro that(2) [of k]) auto
    next
      case False
      then have "cm_id m \<noteq> cm_id a" using same again by metis
      then show ?thesis using again kept_by_update [OF assms(3), of j] False by (intro other) auto
    qed
  next
    case (given_up j a)
    show ?thesis
    proof (cases "a = m")
      case True
      have "cm_id m \<notin> cm_id ` set (mq_list q')"
        using given_up(1, 2, 6) True distinct_id_removed [OF assms(2), of j] by simp
      then show ?thesis using given_up True by (intro that(3)) auto
    next
      case False
      then have "cm_id m \<noteq> cm_id a" using same given_up by metis
      then show ?thesis using given_up kept_by_remove [OF _ assms(3), of j] False called_other [of "cm_id m" a]
        by (intro other) auto
    qed
qed
qed

text \<open>One call of \<open>DoRetries\<close>, for a request that is due: it is sent again, or it has timed out.\<close>

lemma round_again:
  assumes "env_ok E now" and "msec_ok now" and "queue_ok q" and "m \<in> set (mq_list q)" and "\<not> cm_received m"
    and "0 < tg_retries (cm_target m)" and "due_time m \<le> time_ms now"
  shows "\<exists>q' st k es. DoRetries E now q = Some (q', st) \<and> queue_ok q' \<and> SetSendTime (clock E k) (retried m) \<in> set (mq_list q') \<and>
    mq_out q' = mq_out q @ es \<and> filter (concerns (cm_id m)) es = [Sent_again (cm_id m) (cm_raw m)]"
proof -
  let ?P = "\<lambda>x. \<exists>es. mq_out x = mq_out q @ es \<and> (m \<in> set (mq_list x) \<and> filter (concerns (cm_id m)) es = [] \<or>
    (\<exists>k. SetSendTime (clock E k) (retried m) \<in> set (mq_list x)) \<and> filter (concerns (cm_id m)) es = [Sent_again (cm_id m) (cm_raw m)])"
  have tm: "timed (retried m)" using assms(3, 4) timed_retried by blast
  have keep: "?P y" if t: "retry_turn E (time_ms now) x y" and x: "queue_ok x" and P: "?P x" for x y
  proof -
    obtain es where es: "mq_out x = mq_out q @ es" and c: "m \<in> set (mq_list x) \<and> filter (concerns (cm_id m)) es = [] \<or>
        (\<exists>k. SetSendTime (clock E k) (retried m) \<in> set (mq_list x)) \<and> filter (concerns (cm_id m)) es = [Sent_again (cm_id m) (cm_raw m)]"
      using P by blast
    from c show ?thesis
    proof (elim disjE conjE exE)
      assume m: "m \<in> set (mq_list x)" "filter (concerns (cm_id m)) es = []"
      from t conjunct2 [OF x] m(1) assms(5) show ?thesis
      proof (cases rule: turn_present)
        case (other fs)
        then show ?thesis using es m(2) by (intro exI [of _ "es @ fs"]) simp
      next
        case (again k)
        then show ?thesis using es m(2) by (intro exI [of _ "es @ [Sent_again (cm_id m) (cm_raw m)]"]) auto
      next
        case given_up
        then show ?thesis using assms(6) by simp
      qed
    next
      fix k assume m: "SetSendTime (clock E k) (retried m) \<in> set (mq_list x)"
        "filter (concerns (cm_id m)) es = [Sent_again (cm_id m) (cm_raw m)]"
      let ?m = "SetSendTime (clock E k) (retried m)"
      have nd: "time_ms now < due_time ?m" "cm_id ?m = cm_id m" "\<not> cm_received ?m"
        using renewed_due [OF tm assms(1), of k] assms(5) by (simp_all add: SetSendTime_def)
      from t conjunct2 [OF x] m(1) nd(3) show ?thesis
      proof (cases rule: turn_present)
        case (other fs)
        then show ?thesis using es m(2) nd(2) by (intro exI [of _ "es @ fs"]) auto
      qed (use nd(1) in simp_all)
    qed
  qed
  have "?P q" using assms(4) by (intro exI [of _ "[]"]) simp
  then have "\<exists>q' st. DoRetries_loop E now SNMP_CLASS_SUCCESS q = Some (q', st) \<and> queue_ok q' \<and> ?P q' \<and>
      (\<forall>m\<in>set (mq_list q'). time_ms now < due_time m)"
    by (rule loop_rule [where P = ?P, OF assms(1-3)]) (rule keep)
  then obtain q' st where q': "DoRetries E now q = Some (q', st)" "queue_ok q'" "?P q'" "\<forall>m\<in>set (mq_list q'). time_ms now < due_time m"
    unfolding DoRetries_def by blast
  then have "m \<notin> set (mq_list q')" using assms(7) by force
  then show ?thesis using q'(1-3) by blast
qed

lemma round_over:
  assumes "env_ok E now" and "msec_ok now" and "queue_ok q" and "m \<in> set (mq_list q)" and "\<not> cm_received m"
    and "tg_retries (cm_target m) \<le> 0" and "due_time m \<le> time_ms now" and "cm_callback m = Some f"
  shows "\<exists>q' st es. DoRetries E now q = Some (q', st) \<and> cm_id m \<notin> cm_id ` set (mq_list q') \<and> mq_out q' = mq_out q @ es \<and>
    filter (concerns (cm_id m)) es = [Called (cm_id m) f SNMP_CLASS_TIMEOUT (cm_pdu m) (cm_data m), Cache_deleted (cm_id m)]"
proof -
  let ?last = "[Called (cm_id m) f SNMP_CLASS_TIMEOUT (cm_pdu m) (cm_data m), Cache_deleted (cm_id m)]"
  let ?P = "\<lambda>x. \<exists>es. mq_out x = mq_out q @ es \<and> (m \<in> set (mq_list x) \<and> filter (concerns (cm_id m)) es = [] \<or>
    cm_id m \<notin> cm_id ` set (mq_list x) \<and> filter (concerns (cm_id m)) es = ?last)"
  have keep: "?P y" if t: "retry_turn E (time_ms now) x y" and x: "queue_ok x" and P: "?P x" for x y
  proof -
    obtain es where es: "mq_out x = mq_out q @ es" and c: "m \<in> set (mq_list x) \<and> filter (concerns (cm_id m)) es = [] \<or>
        cm_id m \<notin> cm_id ` set (mq_list x) \<and> filter (concerns (cm_id m)) es = ?last"
      using P by blast
    from c show ?thesis
    proof (elim disjE conjE)
      assume m: "m \<in> set (mq_list x)" "filter (concerns (cm_id m)) es = []"
      from t conjunct2 [OF x] m(1) assms(5) show ?thesis
      proof (cases rule: turn_present)
        case (other fs)
        then show ?thesis using es m(2) by (intro exI [of _ "es @ fs"]) simp
      next
        case (again k)
        then show ?thesis using assms(6) by simp
      next
        case given_up
        then show ?thesis using es m(2) assms(8) by (intro exI [of _ "es @ ?last"]) (simp add: Callback_def)
      qed
    next
      assume m: "cm_id m \<notin> cm_id ` set (mq_list x)" "filter (concerns (cm_id m)) es = ?last"
      obtain fs where "cm_id m \<notin> cm_id ` set (mq_list y)" "mq_out y = mq_out x @ fs" "filter (concerns (cm_id m)) fs = []"
        using turn_absent [OF t m(1)] by blast
      then show ?thesis using es m(2) by (intro exI [of _ "es @ fs"]) simp
    qed
  qed
  have "?P q" using assms(4) by (intro exI [of _ "[]"]) simp
  then have "\<exists>q' st. DoRetries_loop E now SNMP_CLASS_SUCCESS q = Some (q', st) \<and> queue_ok q' \<and> ?P q' \<and>
      (\<forall>m\<in>set (mq_list q'). time_ms now < due_time m)"
    by (rule loop_rule [where P = ?P, OF assms(1-3)]) (rule keep)
  then obtain q' st where q': "DoRetries E now q = Some (q', st)" "?P q'" "\<forall>m\<in>set (mq_list q'). time_ms now < due_time m"
    unfolding DoRetries_def by blast
  then have "m \<notin> set (mq_list q')" using assms(7) by force
  then show ?thesis using q'(1, 2) by blast
qed

text \<open>The calls of \<open>DoRetries\<close>, each with the readings of the clock and the results of sending while it runs.\<close>

fun retry_rounds :: "(mq_env \<times> msec) list \<Rightarrow> mqueue \<Rightarrow> mqueue option" where
  "retry_rounds [] q = Some q"
| "retry_rounds ((E, now) # rounds) q = Option.bind (DoRetries E now q) (\<lambda>(q, _). retry_rounds rounds q)"

lemma rounds_time_out:
  assumes "queue_ok q" and "m \<in> set (mq_list q)" and "\<not> cm_received m" and "tg_retries (cm_target m) = int n" and "cm_callback m = Some f"
    and "length rounds = Suc n" and "\<forall>(E, now)\<in>set rounds. msec_ok now \<and> env_ok E now"
    and "due_time m \<le> time_ms (snd (rounds ! 0))"
    and "\<forall>j<n. \<forall>k. time_ms (clock (fst (rounds ! j)) k) + timeout_ms m \<le> time_ms (snd (rounds ! Suc j))"
  shows "\<exists>q' es. retry_rounds rounds q = Some q' \<and> cm_id m \<notin> cm_id ` set (mq_list q') \<and> mq_out q' = mq_out q @ es \<and>
    filter (concerns (cm_id m)) es = replicate n (Sent_again (cm_id m) (cm_raw m)) @
      [Called (cm_id m) f SNMP_CLASS_TIMEOUT (cm_pdu m) (cm_data m), Cache_deleted (cm_id m)]"
  using assms
proof (induction n arbitrary: q m rounds)
  case 0
  then obtain E now where r: "rounds = [(E, now)]" by (cases rounds) auto
  have "msec_ok now" "env_ok E now" "due_time m \<le> time_ms now" using 0(7, 8) by (simp_all add: r)
  with round_over [of E now q m f] 0(1-5) show ?case by (fastforce simp: r)
next
  case (Suc n)
  then obtain E now rs where r: "rounds = (E, now) # rs" "length rs = Suc n" by (cases rounds) auto
  have e: "env_ok E now" "msec_ok now" "due_time m \<le> time_ms now" using Suc.prems(7, 8) by (simp_all add: r)
  have p: "0 < tg_retries (cm_target m)" using Suc.prems(4) by simp
  obtain q1 st k es where q1: "DoRetries E now q = Some (q1, st)" "queue_ok q1" "SetSendTime (clock E k) (retried m) \<in> set (mq_list q1)"
      "mq_out q1 = mq_out q @ es" "filter (concerns (cm_id m)) es = [Sent_again (cm_id m) (cm_raw m)]"
    using round_again [OF e(1, 2) Suc.prems(1-3) p e(3)] by blast
  let ?m = "SetSendTime (clock E k) (retried m)"
  have tm: "timed (retried m)" using Suc.prems(1, 2) timed_retried by blast
  have f: "cm_id ?m = cm_id m" "cm_raw ?m = cm_raw m" "cm_callback ?m = cm_callback m" "cm_data ?m = cm_data m" "cm_pdu ?m = cm_pdu m"
    "\<not> cm_received ?m" "timeout_ms ?m = timeout_ms m" "tg_retries (cm_target ?m) = int n"
    using Suc.prems(3, 4) by (simp_all add: SetSendTime_def)
  have d: "due_time ?m \<le> time_ms (snd (rs ! 0))"
    using renewed_due(2) [OF tm e(1), of k] Suc.prems(9)[rule_format, of 0 k] by (simp add: r)
  have rest: "\<forall>(E, now)\<in>set rs. msec_ok now \<and> env_ok E now"
    "\<forall>j<n. \<forall>k. time_ms (clock (fst (rs ! j)) k) + timeout_ms ?m \<le> time_ms (snd (rs ! Suc j))"
    using Suc.prems(7, 9) unfolding f(7) by (auto simp: r)
  have cb: "cm_callback ?m = Some f" using f(3) Suc.prems(5) by simp
  obtain q' fs where "retry_rounds rs q1 = Some q'" "cm_id m \<notin> cm_id ` set (mq_list q')" "mq_out q' = mq_out q1 @ fs"
    "filter (concerns (cm_id m)) fs = replicate n (Sent_again (cm_id m) (cm_raw m)) @
      [Called (cm_id m) f SNMP_CLASS_TIMEOUT (cm_pdu m) (cm_data m), Cache_deleted (cm_id m)]"
    using Suc.IH [OF q1(2, 3) f(6, 8) cb r(2) rest(1) d rest(2)] unfolding f(1, 2, 4, 5) by blast
  then show ?case using q1 by (intro exI [of _ q'] exI [of _ "es @ fs"]) (simp add: r)
qed


text \<open>Two requests, the other one without a callback and with five retries.\<close>

definition other_message :: cmessage where
  "other_message = new_message \<lparr>tv_sec = 4, tv_usec = 0\<rparr> 1001 3 (sample_target\<lparr>tg_retries := 5\<rparr>) (sample_pdu sNMP_PDU_GET 0) [49] None 0"

definition stopped_at :: "int \<Rightarrow> mq_env" where
  "stopped_at s = \<lparr>clock = (\<lambda>_. \<lparr>tv_sec = s, tv_usec = 0\<rparr>), send_result = (\<lambda>_. 0)\<rparr>"


end
