(* ===== verification/Queue_Runs.thy ===== *)
theory Queue_Runs
  imports Queue_Properties
begin

section \<open>Runs of the queue\<close>

text \<open>
  What holds after every sequence of requests, responses, retries and cancellations: a request has one callback at most and is
  not sent more often than its target says; and what one response does.
\<close>

subsection \<open>Every sequence of operations\<close>

definition no_messages :: mqueue where
  "no_messages = \<lparr>mq_list = [], mq_count = 0, mq_reads = 0, mq_sends = 0, mq_out = []\<rparr>"

text \<open>The operations of a session, each with its own readings of the clock and results of sending.  The list has the id and the
retries of every request that was sent; sockets are closed only when \<open>C\<close> holds.\<close>

inductive mq_run :: "bool \<Rightarrow> (u64 \<times> int) list \<Rightarrow> mqueue \<Rightarrow> bool" for C where
  start: "mq_run C [] no_messages"
| send: "mq_run C rs q \<Longrightarrow> send_request E rid socket target pdu raw cb cbd q = Some (q', st) \<Longrightarrow>
    mq_run C ((rid, tg_retries target) # rs) q'"
| events: "mq_run C rs q \<Longrightarrow> HandleEvents ps q = Some q' \<Longrightarrow> mq_run C rs q'"
| retries: "mq_run C rs q \<Longrightarrow> DoRetries E now q = Some (q', st) \<Longrightarrow> mq_run C rs q'"
| cancel: "mq_run C rs q \<Longrightarrow> Snmp_cancel rid q = Some (q', st) \<Longrightarrow> mq_run C rs q'"
| answer: "mq_run C rs q \<Longrightarrow> take_response rid pdu q = Some (q', r) \<Longrightarrow> mq_run C rs q'"
| close_socket: "mq_run C rs q \<Longrightarrow> C \<Longrightarrow> DeleteSocketEntry socket q = Some q' \<Longrightarrow> mq_run C rs q'"

definition sent_count :: "u64 \<Rightarrow> (u64 \<times> int) list \<Rightarrow> nat" where
  "sent_count u rs = length (filter (\<lambda>(v, _). v = u) rs)"

definition retries_given :: "u64 \<Rightarrow> (u64 \<times> int) list \<Rightarrow> nat" where
  "retries_given u rs = (\<Sum>(v, n)\<leftarrow>rs. if v = u then nat n else 0)"

fun is_first :: "u64 \<Rightarrow> mq_event \<Rightarrow> bool" where
  "is_first u (First_sent v raw) \<longleftrightarrow> u = v"
| "is_first u _ \<longleftrightarrow> False"

fun is_again :: "u64 \<Rightarrow> mq_event \<Rightarrow> bool" where
  "is_again u (Sent_again v raw) \<longleftrightarrow> u = v"
| "is_again u _ \<longleftrightarrow> False"

fun is_call :: "u64 \<Rightarrow> mq_event \<Rightarrow> bool" where
  "is_call u (Called v f reason pdu cbd) \<longleftrightarrow> u = v"
| "is_call u _ \<longleftrightarrow> False"

definition occurrences :: "(mq_event \<Rightarrow> bool) \<Rightarrow> mqueue \<Rightarrow> nat" where
  "occurrences P q = length (filter P (mq_out q))"

text \<open>What the messages of an id in the queue may still do.\<close>

definition call_left :: "u64 \<Rightarrow> cmessage \<Rightarrow> nat" where
  "call_left u m = (if cm_id m = u \<and> cm_callback m \<noteq> None then 1 else 0)"

definition sends_left :: "u64 \<Rightarrow> cmessage \<Rightarrow> nat" where
  "sends_left u m = (if cm_id m = u then nat (tg_retries (cm_target m)) else 0)"

definition calls_bound :: "u64 \<Rightarrow> mqueue \<Rightarrow> bool" where
  "calls_bound u q \<longleftrightarrow> occurrences (is_call u) q + (\<Sum>m\<leftarrow>mq_list q. call_left u m) \<le> occurrences (is_first u) q"

definition sends_bound :: "(u64 \<times> int) list \<Rightarrow> u64 \<Rightarrow> mqueue \<Rightarrow> bool" where
  "sends_bound rs u q \<longleftrightarrow> occurrences (is_again u) q + (\<Sum>m\<leftarrow>mq_list q. sends_left u m) \<le> retries_given u rs \<and>
     occurrences (is_first u) q = sent_count u rs"

definition mq_inv :: "(u64 \<times> int) list \<Rightarrow> mqueue \<Rightarrow> bool" where
  "mq_inv rs q \<longleftrightarrow> (\<forall>u. calls_bound u q \<and> sends_bound rs u q)"

lemma sum_update:
  fixes f :: "cmessage \<Rightarrow> nat"
  assumes "i < length ms"
  shows "(\<Sum>x\<leftarrow>ms[i := m]. f x) + f (ms ! i) = (\<Sum>x\<leftarrow>ms. f x) + f m"
proof -
  have "ms = take i ms @ ms ! i # drop (Suc i) ms" using assms by (rule id_take_nth_drop)
  from arg_cong [OF this, of "\<lambda>ms. \<Sum>x\<leftarrow>ms. f x"] show ?thesis unfolding upd_conv_take_nth_drop [OF assms] by simp
qed

lemma sum_remove:
  fixes f :: "cmessage \<Rightarrow> nat"
  shows "(\<Sum>x\<leftarrow>remove_at i ms. f x) \<le> (\<Sum>x\<leftarrow>ms. f x)"
proof (cases "i < length ms")
  case True
  from remove_at_split [OF this] obtain ys zs where s: "ms = ys @ ms ! i # zs" "remove_at i ms = ys @ zs" by blast
  from arg_cong [OF s(1), of "\<lambda>ms. \<Sum>x\<leftarrow>ms. f x"] show ?thesis unfolding s(2) by simp
qed (simp add: remove_at_def)

text \<open>Deleting keeps the bounds; changing a message and saying so keeps them when the events use up what is left.\<close>

lemma inv_delete:
  assumes "mq_inv rs q" and "DeleteEntry v q = Some (q', st)"
  shows "mq_inv rs q'"
proof -
  have "q' = q \<or> (\<exists>i. mq_list q' = remove_at i (mq_list q) \<and> mq_out q' = mq_out q)"
    using assms(2) by (auto simp: DeleteEntry_def split: option.splits if_splits)
  then show ?thesis
  proof (elim disjE exE conjE)
    fix i assume q': "mq_list q' = remove_at i (mq_list q)" "mq_out q' = mq_out q"
    show ?thesis unfolding mq_inv_def
    proof
      fix u
      have "calls_bound u q" "sends_bound rs u q" using assms(1) by (simp_all add: mq_inv_def)
      then show "calls_bound u q' \<and> sends_bound rs u q'"
        using sum_remove [of "call_left u" i "mq_list q"] sum_remove [of "sends_left u" i "mq_list q"]
        by (simp add: calls_bound_def sends_bound_def occurrences_def q')
    qed
  qed (use assms(1) in simp)
qed

lemma inv_change:
  assumes "mq_inv rs q" and "i < length (mq_list q)"
    and "\<And>u. length (filter (is_call u) es) + call_left u m \<le> call_left u (mq_list q ! i)"
    and "\<And>u. length (filter (is_again u) es) + sends_left u m \<le> sends_left u (mq_list q ! i)"
    and "\<And>u. filter (is_first u) es = []" and "mq_list q' = (mq_list q)[i := m]" and "mq_out q' = mq_out q @ es"
  shows "mq_inv rs q'"
  unfolding mq_inv_def
proof
  fix u
  have "calls_bound u q" "sends_bound rs u q" using assms(1) by (simp_all add: mq_inv_def)
  then show "calls_bound u q' \<and> sends_bound rs u q'"
    using sum_update [OF assms(2), of "call_left u" m] sum_update [OF assms(2), of "sends_left u" m] assms(3, 4) [of u]
    by (simp add: calls_bound_def sends_bound_def occurrences_def assms(5, 6, 7))
qed

lemma inv_emit: "mq_inv rs q \<Longrightarrow> \<forall>u. filter (is_call u) es = [] \<and> filter (is_again u) es = [] \<and> filter (is_first u) es = [] \<Longrightarrow>
    mq_inv rs (mq_emit es q)"
  by (simp add: mq_inv_def calls_bound_def sends_bound_def occurrences_def mq_emit_def) metis

lemma Callback_uses:
  assumes "Callback r m = ((m', es), st)"
  shows "length (filter (is_call u) es) + call_left u m' \<le> call_left u m \<and>
    length (filter (is_again u) es) + sends_left u m' \<le> sends_left u m \<and> filter (is_first u) es = []"
proof -
  have "m' = fst (fst (Callback r m))" "es = snd (fst (Callback r m))" using assms by simp_all
  then show ?thesis by (cases "cm_callback m") (simp_all add: Callback_def call_left_def sends_left_def)
qed

lemma SetSendTime_left [simp]: "call_left u (SetSendTime t m) = call_left u m" "sends_left u (SetSendTime t m) = sends_left u m"
  by (simp_all add: SetSendTime_def call_left_def sends_left_def)

lemma inv_resend:
  assumes "mq_inv rs q" and "i < length (mq_list q)" and "ResendMessage E i q = (q', st)"
  shows "mq_inv rs q'"
proof -
  let ?m = "mq_list q ! i" and ?t = "clock E (mq_reads q)"
  let ?m1 = "?m\<lparr>cm_target := (cm_target ?m)\<lparr>tg_retries := tg_retries (cm_target ?m) - 1\<rparr>\<rparr>"
  consider "cm_received ?m" | "\<not> cm_received ?m" "tg_retries (cm_target ?m) \<le> 0" | "\<not> cm_received ?m" "0 < tg_retries (cm_target ?m)"
    by linarith
  then show ?thesis
  proof cases
    case 1
    then show ?thesis using assms(3)
      by (intro inv_change [OF assms(1, 2), of "[]" "SetSendTime ?t ?m"]) (auto simp: ResendMessage_def Let_def put_message_def)
  next
    case 2
    obtain m es c where c: "Callback SNMP_CLASS_TIMEOUT ?m = ((m, es), c)" by (metis prod.exhaust)
    then show ?thesis using assms(3) 2 Callback_uses [OF c]
      by (intro inv_change [OF assms(1, 2), of es m]) (auto simp: ResendMessage_def Let_def put_message_def mq_emit_def)
  next
    case 3
    then have "mq_list q' = (mq_list q)[i := SetSendTime ?t ?m1]" "mq_out q' = mq_out q @ [Sent_again (cm_id ?m) (cm_raw ?m)]"
      using assms(3) by (auto simp: ResendMessage_def Let_def put_message_def mq_emit_def SetSendTime_def)
    moreover have "length (filter (is_again u) [Sent_again (cm_id ?m) (cm_raw ?m)]) + sends_left u ?m1 \<le> sends_left u ?m" for u
    proof -
      have "Suc (nat (tg_retries (cm_target ?m) - 1)) = nat (tg_retries (cm_target ?m))" using 3 by linarith
      then show ?thesis by (simp add: sends_left_def)
    qed
    moreover have "call_left u ?m1 = call_left u ?m" for u by (simp add: call_left_def)
    ultimately show ?thesis
      by (intro inv_change [OF assms(1, 2), of "[Sent_again (cm_id ?m) (cm_raw ?m)]" "SetSendTime ?t ?m1"]) simp_all
  qed
qed

lemma next_timeout_bound: "b < i + length ms \<Longrightarrow> next_timeout i b bt ms < i + length ms"
proof (induction ms arbitrary: i b bt)
  case (Cons m ms)
  then show ?case using Cons.IH [of b "Suc i" bt] Cons.IH [of i "Suc i" "cm_send_time m"] by simp
qed simp

lemma next_entry_bound: "GetNextTimeoutEntry q = Some i \<Longrightarrow> i < length (mq_list q)"
  using next_timeout_bound [of 0 0 "mq_list q" "cm_send_time (hd (mq_list q))"]
  by (auto simp: GetNextTimeoutEntry_def split: list.splits)

text \<open>A property of queues that each part of the loop keeps is kept by the loop.\<close>

lemma loop_keeps:
  assumes "DoRetries_loop E now status q = Some r" and "P q"
    and "\<And>E q i q' st. P q \<Longrightarrow> i < length (mq_list q) \<Longrightarrow> ResendMessage E i q = (q', st) \<Longrightarrow> P q'"
    and "\<And>q u q' st. P q \<Longrightarrow> DeleteEntry u q = Some (q', st) \<Longrightarrow> P q'" and "\<And>q u. P q \<Longrightarrow> P (mq_emit [Cache_deleted u] q)"
  shows "P (fst r)"
proof (rule DoRetries_loop.raw_induct [where P = "\<lambda>E now status q r. P q \<longrightarrow> P (fst r)", OF _ assms(1), THEN mp, OF _ assms(2)], goal_cases)
  case (1 loop E now status q r)
  show ?case
  proof (cases "GetNextTimeoutEntry q")
    case None
    then show ?thesis using 1(2) by auto
  next
    case (Some i)
    obtain q1 st where s: "ResendMessage E i q = (q1, st)" by fastforce
    have P1: "P q \<Longrightarrow> P q1" by (rule assms(3) [OF _ next_entry_bound [OF Some] s])
    have P2: "P q \<Longrightarrow> DeleteEntry u q1 = Some (q2, st2) \<Longrightarrow> P (mq_emit [Cache_deleted u] q2)" for u q2 st2
      by (rule assms(5) [OF assms(4) [OF P1]])
    show ?thesis using 1(2) Some P1 P2
      by (auto simp: s Let_def bind_eq_Some_iff split: if_splits dest!: 1(1))
  qed
qed

text \<open>An answer: the message is changed and its callback called, before it is deleted.\<close>

lemma SetPdu_left:
  assumes "SetPdu reason pdu m = (m', st)"
  shows "call_left u m' = call_left u m \<and> sends_left u m' = sends_left u m \<and> cm_locked m' = cm_locked m"
proof -
  have "m' = fst (SetPdu reason pdu m)" using assms by simp
  then show ?thesis by (simp add: SetPdu_def call_left_def sends_left_def Let_def)
qed

lemma inv_packet:
  assumes "mq_inv rs q" and "handle_packet r q = Some q'"
  shows "mq_inv rs q'"
proof -
  obtain recv pdu eid where r: "r = (recv, pdu, eid)" by (cases r)
  show ?thesis
  proof (cases "p_request_id pdu = 0 \<or> GetEntry (p_request_id pdu) q = None")
    case True
    then have "handle_packet r q = Some q" by (elim disjE) (simp_all add: handle_packet_def r Let_def)
    then show ?thesis using assms by simp
  next
    case False
    then obtain i where i: "GetEntry (p_request_id pdu) q = Some i" by blast
    then have l: "i < length (mq_list q)" using find_id_Some by (auto simp: GetEntry_def)
    obtain m st where m: "SetPdu recv pdu (mq_list q ! i) = (m, st)" by fastforce
    have put: "mq_inv rs (put_message i m q)"
      using SetPdu_left [OF m] by (intro inv_change [OF assms(1) l, of "[]" m]) (auto simp: put_message_def)
    obtain m2 es c where c: "Callback SNMP_CLASS_ASYNC_RESPONSE m = ((m2, es), c)" by (metis prod.exhaust)
    let ?es = "learned_engine_id r (cm_target m) @ es"
    let ?q2 = "mq_emit ?es (put_message i m2 q)"
    have e: "filter (is_call u) ?es = filter (is_call u) es" "filter (is_again u) ?es = filter (is_again u) es"
      "filter (is_first u) ?es = []" for u
      using Callback_uses [OF c, of u] by (auto simp: learned_engine_id_def r)
    have called: "mq_inv rs ?q2"
      using Callback_uses [OF c] SetPdu_left [OF m]
      by (intro inv_change [OF assms(1) l, of ?es m2]) (simp_all only: e, simp_all add: put_message_def mq_emit_def)
    have "handle_packet r q = (if cm_locked (mq_list q ! i) then None else if st \<noteq> 0 then Some (put_message i m q)
        else if c = 0 then map_option fst (DeleteEntry (p_request_id pdu) ?q2) else Some ?q2)"
      using False i m c by (simp add: handle_packet_def r Let_def)
    moreover have "mq_inv rs q'" if d: "map_option fst (DeleteEntry (p_request_id pdu) ?q2) = Some q'"
    proof -
      obtain st' where "DeleteEntry (p_request_id pdu) ?q2 = Some (q', st')" using d by auto
      then show ?thesis by (rule inv_delete [OF called])
    qed
    ultimately show ?thesis using assms(2) put called by (auto split: if_splits)
  qed
qed

lemma inv_ready: "handle_ready S ps q = Some q' \<Longrightarrow> mq_inv rs q \<Longrightarrow> mq_inv rs q'"
  by (induction S ps q rule: handle_ready.induct) (auto simp: bind_eq_Some_iff dest: inv_packet split: if_splits)

lemma delete_socket_left:
  "delete_socket s ms = Some (ms', es) \<Longrightarrow>
    length (filter (is_call u) es) + (\<Sum>m\<leftarrow>ms'. call_left u m) \<le> (\<Sum>m\<leftarrow>ms. call_left u m) \<and>
    length (filter (is_again u) es) + (\<Sum>m\<leftarrow>ms'. sends_left u m) \<le> (\<Sum>m\<leftarrow>ms. sends_left u m) \<and> filter (is_first u) es = []"
proof (induction ms arbitrary: ms' es)
  case (Cons m ms)
  obtain m' es1 st where c: "Callback SNMP_CLASS_SESSION_DESTROYED m = ((m', es1), st)" by (metis prod.exhaust)
  obtain ms1 es2 where d: "delete_socket s ms = Some (ms1, es2)" using Cons.prems by (auto split: if_splits)
  show ?case
  proof (cases "s = cm_socket m")
    case True
    then have "ms' = ms1" "es = es1 @ es2" using Cons.prems d c by (auto split: if_splits)
    then show ?thesis using Cons.IH [OF d] Callback_uses [OF c, of u] by simp
  next
    case False
    then have "ms' = m # ms1" "es = es2" using Cons.prems by (simp_all add: d)
    then show ?thesis using Cons.IH [OF d] by simp
  qed
qed simp

lemma inv_close:
  assumes "mq_inv rs q" and "DeleteSocketEntry s q = Some q'"
  shows "mq_inv rs q'"
proof -
  obtain ms es where d: "delete_socket s (mq_list q) = Some (ms, es)" "q' = mq_emit es (q\<lparr>mq_list := ms\<rparr>)"
    using assms(2) by (auto simp: DeleteSocketEntry_def)
  show ?thesis
    unfolding mq_inv_def
  proof
    fix u
    have "calls_bound u q" "sends_bound rs u q" using assms(1) by (simp_all add: mq_inv_def)
    then show "calls_bound u q' \<and> sends_bound rs u q'"
      using delete_socket_left [OF d(1), of u] by (simp add: calls_bound_def sends_bound_def occurrences_def d(2) mq_emit_def)
  qed
qed

lemma inv_send:
  assumes "mq_inv rs q" and "send_request E rid socket target pdu raw cb cbd q = Some (q', st)"
  shows "mq_inv ((rid, tg_retries target) # rs) q'"
proof -
  let ?m = "new_message (clock E (mq_reads q)) rid socket target pdu raw cb cbd" and ?rs = "(rid, tg_retries target) # rs"
  let ?q1 = "mq_emit [First_sent rid raw] (AddEntry E rid socket target pdu raw cb cbd q\<lparr>mq_sends := Suc (mq_sends q)\<rparr>)"
  have m: "call_left u ?m \<le> (if rid = u then 1 else 0)" "sends_left u ?m = (if rid = u then nat (tg_retries target) else 0)" for u
    by (simp_all add: new_message_def call_left_def sends_left_def SetSendTime_def)
  have "mq_inv ?rs ?q1"
    unfolding mq_inv_def
  proof
    fix u
    have "calls_bound u q" "sends_bound rs u q" using assms(1) by (simp_all add: mq_inv_def)
    then show "calls_bound u ?q1 \<and> sends_bound ?rs u ?q1"
      using m [of u] by (auto simp: calls_bound_def sends_bound_def occurrences_def mq_emit_def AddEntry_def retries_given_def
          sent_count_def split: if_splits)
  qed
  then show ?thesis
    using assms(2) inv_delete by (auto simp: send_request_def Let_def AddEntry_def split: if_splits)
qed

lemma inv_run: "mq_run C rs q \<Longrightarrow> mq_inv rs q"
proof (induction rule: mq_run.induct)
  case start
  then show ?case
    by (simp add: mq_inv_def calls_bound_def sends_bound_def occurrences_def no_messages_def retries_given_def sent_count_def)
next
  case send
  then show ?case by (blast intro: inv_send)
next
  case events
  then show ?case by (auto simp: HandleEvents_def intro: inv_ready)
next
  case (retries rs q E now q' st)
  have "mq_inv rs (mq_emit [Cache_deleted u] q)" if "mq_inv rs q" for q u using that by (simp add: inv_emit)
  then show ?case
    using loop_keeps [where P = "mq_inv rs", of E now SNMP_CLASS_SUCCESS q "(q', st)"] retries inv_resend inv_delete
    unfolding DoRetries_def by (metis fst_conv)
next
  case cancel
  then show ?case by (auto simp: Snmp_cancel_def intro: inv_delete)
next
  case (answer rs q rid pdu q' r)
  then show ?case by (auto simp: take_response_def Let_def intro: inv_delete split: option.splits)
next
  case close_socket
  then show ?case by (blast intro: inv_close)
qed

text \<open>C15: in every run, whatever comes over the network, and for every request id: each time a request was sent with that id is
recorded, the application is called back at most once for each of them, and requests with that id are sent again at most as often
as the targets that they were sent to allow, the retries of each one taken together.  An id that was used for one request only has
one callback at most and at most the retries of the target of that request.\<close>
theorem callbacks_bounded:
  assumes "mq_run C sent q"
  shows "occurrences (is_first u) q = length (filter (\<lambda>(v, _). v = u) sent) \<and>
    occurrences (is_call u) q \<le> length (filter (\<lambda>(v, _). v = u) sent) \<and>
    occurrences (is_again u) q \<le> (\<Sum>(v, n)\<leftarrow>sent. if v = u then nat n else 0)"
proof -
  have "calls_bound u q" "sends_bound sent u q" using inv_run [OF assms] by (simp_all add: mq_inv_def)
  then show ?thesis by (simp add: calls_bound_def sends_bound_def sent_count_def retries_given_def)
qed

lemma run_rounds: "retry_rounds rounds q = Some q' \<Longrightarrow> mq_run C rs q \<Longrightarrow> mq_run C rs q'"
proof (induction rounds q rule: retry_rounds.induct)
  case (2 E now rounds q)
  then obtain q1 st where "DoRetries E now q = Some (q1, st)" "retry_rounds rounds q1 = Some q'" by (auto simp: bind_eq_Some_iff)
  then show ?case using "2.IH" mq_run.retries [OF "2.prems"(2)] by blast
qed simp

lemma filter_concerns:
  "filter (is_call u) es = filter (is_call u) (filter (concerns u) es)"
  "filter (is_again u) es = filter (is_again u) (filter (concerns u) es)"
  unfolding filter_filter by (rule filter_cong [OF refl], case_tac x, simp_all)+

text \<open>A request with one retry that is sent, sent again after a second, and given up after another two.\<close>

theorem callbacks_bounded_witness:
  "\<exists>q. mq_run False [(1000, 1)] q \<and> GetEntry 1000 q = None \<and> occurrences (is_first 1000) q = 1 \<and>
     occurrences (is_call 1000) q = 1 \<and> occurrences (is_again 1000) q = 1"
proof -
  let ?q1 = "no_messages\<lparr>mq_list := [sample_message], mq_count := 1, mq_reads := 1, mq_sends := 1, mq_out := [First_sent 1000 [48]]\<rparr>"
  have "send_request (stopped_at 5) 1000 3 sample_target (sample_pdu sNMP_PDU_GET 0) [48] (Some 7) 9 no_messages =
      Some (?q1, SNMP_CLASS_SUCCESS)"
    by (simp add: send_request_def AddEntry_def mq_emit_def no_messages_def stopped_at_def sample_message_def Let_def)
  from mq_run.send [OF mq_run.start this] have q1: "mq_run False [(1000, 1)] ?q1" by (simp add: sample_target_def)
  have t: "(\<forall>m\<in>set (mq_list ?q1). timed m) \<and> distinct (map cm_id (mq_list ?q1))" using sample_ready by (simp add: sample_queue_def)
  have "tg_retries (cm_target sample_message) = int 1" "timeout_ms sample_message = 1000" by (simp_all add: sample_target_def)
  then obtain q es where q: "retry_rounds [(stopped_at 6, \<lparr>tv_sec = 6, tv_usec = 0\<rparr>), (stopped_at 8, \<lparr>tv_sec = 8, tv_usec = 0\<rparr>)] ?q1 = Some q"
    "mq_out q = mq_out ?q1 @ es" "filter (concerns 1000) es = [Sent_again 1000 [48],
       Called 1000 7 SNMP_CLASS_TIMEOUT (sample_pdu sNMP_PDU_GET 1000) 9, Cache_deleted 1000]" "1000 \<notin> cm_id ` set (mq_list q)"
    using rounds_time_out [OF t, of sample_message 1 7
        "[(stopped_at 6, \<lparr>tv_sec = 6, tv_usec = 0\<rparr>), (stopped_at 8, \<lparr>tv_sec = 8, tv_usec = 0\<rparr>)]"]
    by (auto simp: stopped_at_def sample_time)
  have r: "mq_run False [(1000, 1)] q" by (rule run_rounds [OF q(1) q1])
  have "1 \<le> occurrences (is_call 1000) q" "1 \<le> occurrences (is_again 1000) q"
    by (simp_all add: occurrences_def q(2) filter_concerns [of 1000 es] q(3))
  moreover have "GetEntry 1000 q = None" using q(4) unfolding GetEntry_def find_id_None .
  ultimately show ?thesis using callbacks_bounded [OF r, of 1000] r by (intro exI [of _ q]) simp
qed

subsection \<open>The number of messages\<close>

definition counted :: "mqueue \<Rightarrow> bool" where
  "counted q \<longleftrightarrow> mq_count q = int (length (mq_list q))"

lemma counted_delete: "counted q \<Longrightarrow> DeleteEntry u q = Some (q', st) \<Longrightarrow> counted q'"
  by (auto simp: counted_def DeleteEntry_def length_remove_at dest!: find_id_Some split: option.splits if_splits)

lemma counted_same [simp]:
  "counted (mq_emit es q) \<longleftrightarrow> counted q" "counted (put_message i m q) \<longleftrightarrow> counted q"
  "counted (q\<lparr>mq_reads := n\<rparr>) \<longleftrightarrow> counted q" "counted (q\<lparr>mq_sends := n\<rparr>) \<longleftrightarrow> counted q"
  by (simp_all add: counted_def mq_emit_def put_message_def)

lemma counted_resend: "counted q \<Longrightarrow> ResendMessage E i q = (q', st) \<Longrightarrow> counted q'"
  by (auto simp: ResendMessage_def Let_def split: if_splits prod.splits)

lemma counted_packet: "counted q \<Longrightarrow> handle_packet r q = Some q' \<Longrightarrow> counted q'"
  by (auto simp: handle_packet_def Let_def split: prod.splits if_splits option.splits elim!: counted_delete [rotated])

lemma counted_ready: "handle_ready S rs q = Some q' \<Longrightarrow> counted q \<Longrightarrow> counted q'"
  by (induction S rs q rule: handle_ready.induct) (auto simp: bind_eq_Some_iff dest: counted_packet split: if_splits)

lemma counted_run: "mq_run C rs q \<Longrightarrow> \<not> C \<Longrightarrow> counted q"
proof (induction rule: mq_run.induct)
  case start
  then show ?case by (simp add: counted_def no_messages_def)
next
  case (send rs q E rid socket target pdu raw cb cbd q' st)
  have "counted (AddEntry E rid socket target pdu raw cb cbd q)" using send by (simp add: counted_def AddEntry_def)
  then show ?case using send(2) by (auto simp: send_request_def Let_def split: if_splits elim!: counted_delete [rotated])
next
  case events
  then show ?case by (auto simp: HandleEvents_def intro: counted_ready)
next
  case (retries rs q E now q' st)
  then show ?case
    using loop_keeps [where P = counted, of E now SNMP_CLASS_SUCCESS q "(q', st)"] counted_resend counted_delete
    unfolding DoRetries_def by (metis counted_same(1) fst_conv)
next
  case cancel
  then show ?case by (auto simp: Snmp_cancel_def intro: counted_delete)
next
  case (answer rs q rid pdu q' r)
  then show ?case by (auto simp: take_response_def Let_def intro: counted_delete split: option.splits)
qed simp

text \<open>\<open>m_msgCount\<close> is the number of outstanding requests in every run in which no socket is closed.\<close>
theorem count_is_length:
  assumes "mq_run False sent q"
  shows "mq_count q = int (length (mq_list q))"
  using counted_run [OF assms] by (simp add: counted_def)

lemma delete_socket_list: "delete_socket s ms = Some (ms', es) \<Longrightarrow> ms' = filter (\<lambda>m. cm_socket m \<noteq> s) ms"
  by (induction ms arbitrary: ms' es) (auto split: if_splits)

text \<open>When a socket is closed its messages go, but the number of outstanding requests stays as it was.\<close>
theorem closed_socket_miscounts:
  assumes "DeleteSocketEntry s q = Some q'"
  shows "mq_list q' = filter (\<lambda>m. cm_socket m \<noteq> s) (mq_list q) \<and> mq_count q' = mq_count q"
  using assms delete_socket_list by (auto simp: DeleteSocketEntry_def mq_emit_def)

subsection \<open>Request ids\<close>

definition rid_steps :: "int \<Rightarrow> int \<Rightarrow> nat" where
  "rid_steps current_rid r = nat (if current_rid < r then r - current_rid else PDU_MAX_RID - current_rid + (r - PDU_MIN_RID) + 1)"

lemma free_id_found:
  assumes "PDU_MIN_RID \<le> r" and "r \<le> PDU_MAX_RID" and "GetEntry (word_of_int r) q = None"
    and "PDU_MIN_RID - 1 \<le> current_rid" and "current_rid \<le> PDU_MAX_RID"
  shows "\<exists>rid. MyMakeReqId current_rid q = Some rid \<and> PDU_MIN_RID \<le> rid \<and> rid \<le> PDU_MAX_RID \<and> GetEntry (word_of_int rid) q = None"
  using assms(4, 5)
proof (induction "rid_steps current_rid r" arbitrary: current_rid rule: less_induct)
  case less
  let ?rid = "if current_rid + 1 > PDU_MAX_RID then PDU_MIN_RID else current_rid + 1"
  have b: "PDU_MIN_RID \<le> ?rid" "?rid \<le> PDU_MAX_RID" using less.prems by (auto simp: PDU_MAX_RID_def PDU_MIN_RID_def)
  show ?case
  proof (cases "GetEntry (word_of_int ?rid) q = None")
    case True
    then show ?thesis using b by (subst MyMakeReqId.simps) (simp add: Let_def)
  next
    case False
    then have ne: "?rid \<noteq> r" using assms(3) by metis
    have "rid_steps ?rid r < rid_steps current_rid r"
      using ne less.prems assms(1, 2) by (auto simp: rid_steps_def PDU_MAX_RID_def PDU_MIN_RID_def split: if_splits)
    from less.hyps [OF this] b False show ?thesis by (subst MyMakeReqId.simps) (simp add: Let_def)
  qed
qed

text \<open>C37: the loop that makes a request id ends, with an id in the range of the constants that no outstanding request has, as long as
the queue does not hold all the 31768 ids.\<close>
theorem request_id_is_free:
  assumes "length (mq_list q) < 31768" and "PDU_MIN_RID - 1 \<le> current_rid" and "current_rid \<le> PDU_MAX_RID"
  shows "\<exists>rid. MyMakeReqId current_rid q = Some rid \<and> PDU_MIN_RID \<le> rid \<and> rid \<le> PDU_MAX_RID \<and>
    word_of_int rid \<notin> cm_id ` set (mq_list q)"
proof -
  let ?ids = "(\<lambda>r. word_of_int r :: u64) ` {PDU_MIN_RID..PDU_MAX_RID}"
  have "inj_on (\<lambda>r. word_of_int r :: u64) {PDU_MIN_RID..PDU_MAX_RID}"
  proof (rule inj_onI)
    fix a b assume "a \<in> {PDU_MIN_RID..PDU_MAX_RID}" "b \<in> {PDU_MIN_RID..PDU_MAX_RID}" "(word_of_int a :: u64) = word_of_int b"
    then have "uint (word_of_int a :: u64) = uint (word_of_int b :: u64)" "0 \<le> a" "a < 2 ^ 64" "0 \<le> b" "b < 2 ^ 64"
      by (simp_all add: PDU_MAX_RID_def PDU_MIN_RID_def)
    then show "a = b" by (simp add: uint_word_of_int)
  qed
  then have "card ?ids = 31768" by (simp add: card_image PDU_MAX_RID_def PDU_MIN_RID_def)
  moreover have "card (cm_id ` set (mq_list q)) < 31768"
    using card_image_le [of "set (mq_list q)" cm_id] card_length [of "mq_list q"] assms(1) by simp
  ultimately have "\<not> ?ids \<subseteq> cm_id ` set (mq_list q)" by (metis card_mono finite_imageI List.finite_set not_le)
  then obtain x where x: "x \<in> ?ids" "x \<notin> cm_id ` set (mq_list q)" by blast
  then obtain r where r: "PDU_MIN_RID \<le> r" "r \<le> PDU_MAX_RID" "word_of_int r \<notin> cm_id ` set (mq_list q)" by auto
  then have "GetEntry (word_of_int r) q = None" by (simp add: GetEntry_def find_id_None)
  from free_id_found [OF r(1, 2) this assms(2, 3)] show ?thesis by (simp add: GetEntry_def find_id_None)
qed

theorem request_id_is_free_witness:
  "\<exists>rid. MyMakeReqId 999 sample_queue = Some rid \<and> rid \<in> {1000..32767} - {1000}"
  using request_id_is_free [of sample_queue 999] by (auto simp: sample_queue_def PDU_MAX_RID_def PDU_MIN_RID_def)

subsection \<open>Responses\<close>

definition answer_pdu :: "pdu_obj \<Rightarrow> cmessage \<Rightarrow> pdu_obj" where
  "answer_pdu pdu m = (if p_type (cm_pdu m) = sNMP_PDU_INFORM \<and> p_type pdu = sNMP_PDU_RESPONSE then strip_notification pdu else pdu)"

lemma SetPdu_first:
  "match_type (p_type (cm_pdu m)) (p_type pdu) \<Longrightarrow> \<not> cm_received m \<Longrightarrow>
    SetPdu recv pdu m = (m\<lparr>cm_received := True, cm_pdu := answer_pdu pdu m, cm_reason := recv\<rparr>, 0)"
  by (simp add: SetPdu_def answer_pdu_def Let_def)

lemma resend_received: "cm_received (mq_list q ! i) \<Longrightarrow> mq_out (fst (ResendMessage E i q)) = mq_out q"
  by (simp add: ResendMessage_def put_message_def Let_def)

lemma deleted_id_gone:
  assumes "distinct (map cm_id ms)" and "i < length ms"
  shows "find_id (cm_id (ms ! i)) (remove_at i ms) = None"
proof -
  from remove_at_split [OF assms(2)] obtain ys zs where s: "ms = ys @ ms ! i # zs" "remove_at i ms = ys @ zs" by blast
  have "distinct (map cm_id (ys @ ms ! i # zs))" using assms(1) s(1) by simp
  then show ?thesis unfolding s(2) find_id_None by auto
qed

text \<open>C38: the first response to an asynchronous request calls its callback once, with the response, and takes the request out of the queue;
the other requests stay as they are, and a second response with the same id changes nothing.\<close>
theorem response_completes_request:
  assumes "i < length (mq_list q)" and "distinct (map cm_id (mq_list q))" and "m = mq_list q ! i" and "\<not> cm_locked m"
    and "\<not> cm_received m" and "cm_callback m = Some f" and "match_type (p_type (cm_pdu m)) (p_type pdu)"
    and "p_request_id pdu = cm_id m" and "cm_id m \<noteq> 0"
  shows "\<exists>q'. handle_packet (recv, pdu, engine_id) q = Some q' \<and> mq_list q' = remove_at i (mq_list q) \<and>
    mq_out q' = mq_out q @ learned_engine_id (recv, pdu, engine_id) (cm_target m) @
      [Called (cm_id m) f SNMP_CLASS_ASYNC_RESPONSE (answer_pdu pdu m) (cm_data m)] \<and>
    (\<forall>recv' pdu' engine_id'. p_request_id pdu' = cm_id m \<longrightarrow> handle_packet (recv', pdu', engine_id') q' = Some q')"
proof -
  let ?m1 = "m\<lparr>cm_received := True, cm_pdu := answer_pdu pdu m, cm_reason := recv\<rparr>"
  let ?m2 = "?m1\<lparr>cm_callback := None\<rparr>"
  let ?es = "learned_engine_id (recv, pdu, engine_id) (cm_target m) @ [Called (cm_id m) f SNMP_CLASS_ASYNC_RESPONSE (answer_pdu pdu m) (cm_data m)]"
  let ?q1 = "mq_emit ?es (put_message i ?m2 q)"
  let ?q' = "?q1\<lparr>mq_list := remove_at i (mq_list q), mq_count := mq_count q - 1\<rparr>"
  have e: "GetEntry (cm_id m) q = Some i" using find_id_distinct [OF assms(2, 1)] assms(3) by (simp add: GetEntry_def)
  have "find_id (cm_id m) (mq_list ?q1) = Some i"
    using find_id_update [OF assms(1), of ?m2 "cm_id m"] e assms(3) by (simp add: GetEntry_def put_message_def mq_emit_def)
  then have d: "DeleteEntry (cm_id m) ?q1 = Some (?q', SNMP_CLASS_SUCCESS)"
    using assms(1, 4) by (simp add: DeleteEntry_def put_message_def mq_emit_def remove_at_update)
  have "handle_packet (recv, pdu, engine_id) q = Some ?q'"
    using e d SetPdu_first [OF assms(7, 5), of recv] assms(3, 4, 6, 8, 9) by (simp add: handle_packet_def Callback_def Let_def)
  moreover have "GetEntry (cm_id m) ?q' = None" using deleted_id_gone [OF assms(2, 1)] assms(3) by (simp add: GetEntry_def)
  then have "\<forall>recv' pdu' engine_id'. p_request_id pdu' = cm_id m \<longrightarrow> handle_packet (recv', pdu', engine_id') ?q' = Some ?q'"
    by (simp add: handle_packet_def Let_def)
  ultimately show ?thesis by (intro exI [of _ ?q']) (simp add: mq_emit_def put_message_def)
qed

theorem response_completes_request_witness:
  "\<exists>q'. handle_packet (0, sample_pdu sNMP_PDU_RESPONSE 1000, []) sample_queue = Some q' \<and> mq_list q' = [] \<and>
     mq_out q' = [Called 1000 7 SNMP_CLASS_ASYNC_RESPONSE (sample_pdu sNMP_PDU_RESPONSE 1000) 9]"
proof -
  have m: "match_type (p_type (cm_pdu sample_message)) (p_type (sample_pdu sNMP_PDU_RESPONSE 1000))"
    by (simp add: match_type_def sample_pdu_def)
  have "p_type (sample_pdu sNMP_PDU_GET 1000) \<noteq> sNMP_PDU_INFORM" by (simp add: sample_pdu_def sNMP_PDU_GET_def sNMP_PDU_INFORM_def)
  then have a: "answer_pdu (sample_pdu sNMP_PDU_RESPONSE 1000) sample_message = sample_pdu sNMP_PDU_RESPONSE 1000"
    by (simp add: answer_pdu_def)
  have "p_request_id (sample_pdu sNMP_PDU_RESPONSE 1000) = 1000" by (simp add: sample_pdu_def)
  then show ?thesis
    using response_completes_request [of 0 sample_queue sample_message 7 "sample_pdu sNMP_PDU_RESPONSE 1000" 0 "[]"] m sample_ready(2)
    unfolding a by (auto simp: sample_queue_def remove_at_def learned_engine_id_def)
qed

text \<open>A request that waits for its answer gets it: the response is kept in the message, the request is done, no retry is sent for it any
more, and \<open>SNMPBlockForResponse\<close> returns the response with the result of the engine.\<close>
theorem blocking_request_answered:
  assumes "i < length (mq_list q)" and "distinct (map cm_id (mq_list q))" and "m = mq_list q ! i" and "\<not> cm_locked m"
    and "\<not> cm_received m" and "cm_callback m = None" and "match_type (p_type (cm_pdu m)) (p_type pdu)"
    and "p_request_id pdu = cm_id m" and "cm_id m \<noteq> 0"
  shows "\<exists>q1 q2. handle_packet (recv, pdu, engine_id) q = Some q1 \<and> Done (cm_id m) q1 \<and> \<not> Done (cm_id m) q \<and>
    mq_out (fst (ResendMessage E i q1)) = mq_out q1 \<and>
    take_response (cm_id m) pdu0 q1 = Some (q2, answer_pdu pdu m, recv) \<and> mq_list q2 = remove_at i (mq_list q)"
proof -
  let ?m1 = "m\<lparr>cm_received := True, cm_pdu := answer_pdu pdu m, cm_reason := recv\<rparr>"
  let ?q1 = "mq_emit (learned_engine_id (recv, pdu, engine_id) (cm_target m)) (put_message i ?m1 q)"
  let ?q2 = "?q1\<lparr>mq_list := remove_at i (mq_list q), mq_count := mq_count q - 1\<rparr>"
  have e: "GetEntry (cm_id m) q = Some i" using find_id_distinct [OF assms(2, 1)] assms(3) by (simp add: GetEntry_def)
  have h: "handle_packet (recv, pdu, engine_id) q = Some ?q1"
    using e SetPdu_first [OF assms(7, 5), of recv] assms(3, 4, 6, 8, 9) by (simp add: handle_packet_def Callback_def Let_def)
  have l: "mq_list ?q1 ! i = ?m1" using assms(1) by (simp add: mq_emit_def put_message_def)
  have f: "find_id (cm_id m) (mq_list ?q1) = Some i"
    using find_id_update [OF assms(1), of ?m1 "cm_id m"] e assms(3) by (simp add: GetEntry_def put_message_def mq_emit_def)
  then have "DeleteEntry (cm_id m) ?q1 = Some (?q2, SNMP_CLASS_SUCCESS)"
    using assms(4) l by (simp add: DeleteEntry_def) (simp add: put_message_def mq_emit_def remove_at_update)
  then have "take_response (cm_id m) pdu0 ?q1 = Some (?q2, answer_pdu pdu m, recv)"
    using f l by (simp add: take_response_def GetEntry_def Let_def)
  moreover have "Done (cm_id m) ?q1" "\<not> Done (cm_id m) q" using f l e assms(3, 5) by (simp_all add: Done_def GetEntry_def)
  moreover have "mq_out (fst (ResendMessage E i ?q1)) = mq_out ?q1" using resend_received l by simp
  ultimately show ?thesis using h by (intro exI [of _ ?q1] exI [of _ ?q2]) simp
qed

theorem blocking_request_answered_witness:
  "\<exists>q1 q2. handle_packet (0, sample_pdu sNMP_PDU_RESPONSE 1000, []) (put_message 0 (sample_message\<lparr>cm_callback := None\<rparr>) sample_queue) = Some q1 \<and>
     take_response 1000 (sample_pdu sNMP_PDU_GET 0) q1 = Some (q2, sample_pdu sNMP_PDU_RESPONSE 1000, 0) \<and> mq_list q2 = []"
proof -
  let ?m = "sample_message\<lparr>cm_callback := None\<rparr>"
  have m: "match_type (p_type (cm_pdu ?m)) (p_type (sample_pdu sNMP_PDU_RESPONSE 1000))"
    by (simp add: match_type_def sample_pdu_def)
  have "p_type (sample_pdu sNMP_PDU_GET 1000) \<noteq> sNMP_PDU_INFORM" by (simp add: sample_pdu_def sNMP_PDU_GET_def sNMP_PDU_INFORM_def)
  then have a: "answer_pdu (sample_pdu sNMP_PDU_RESPONSE 1000) ?m = sample_pdu sNMP_PDU_RESPONSE 1000"
    by (simp add: answer_pdu_def)
  have "p_request_id (sample_pdu sNMP_PDU_RESPONSE 1000) = 1000" by (simp add: sample_pdu_def)
  then show ?thesis
    using blocking_request_answered [of 0 "put_message 0 ?m sample_queue" ?m "sample_pdu sNMP_PDU_RESPONSE 1000" 0 "[]" sample_env "sample_pdu sNMP_PDU_GET 0"]
      m unfolding a by (auto simp: sample_queue_def remove_at_def put_message_def)
qed

end
