(* ===== verification/Smi_Imports.thy ===== *)
theory Smi_Imports
  imports Smi_Api
begin

section \<open>Checking the imports of a module\<close>

text \<open>
  \<open>checkImports\<close> of \<^verbatim>\<open>smi-data.c\<close>: when the parser has read an import clause, each descriptor whose kind is not known yet is
  looked up in the module that it is imported from.  The message for one that is not there only goes to the log.
\<close>

definition set_import :: "ptr \<Rightarrow> cstr \<Rightarrow> Kind \<Rightarrow> smi \<Rightarrow> smi option" where
  "set_import importPtr module kind = updImport (Some importPtr)
     (\<lambda>i. i\<lparr>i_export := (i_export i)\<lparr>si_module := module\<rparr>, i_kind := kind\<rparr>)"

definition import_kind_in :: "loader \<Rightarrow> ptr option \<Rightarrow> cstr \<Rightarrow> smi \<Rightarrow> (Kind \<times> smi) option" where
  "import_kind_in load modulePtr name s = do {
     (smiNode, s) \<leftarrow> smiGetNode load modulePtr name s;
     if smiNode \<noteq> None then Some (KIND_OBJECT, s)
     else do {
       (smiType, s) \<leftarrow> smiGetType load modulePtr name s;
       if smiType \<noteq> None then Some (KIND_TYPE, s)
       else do {
         (smiMacro, s) \<leftarrow> smiGetMacro load modulePtr name s;
         Some (if smiMacro \<noteq> None then KIND_MACRO else KIND_NOTFOUND, s)
       }
     }
   }"

definition check_import :: "loader \<Rightarrow> ptr option \<Rightarrow> ptr \<Rightarrow> smi \<times> int \<Rightarrow> (smi \<times> int) option" where
  "check_import load modulePtr importPtr = (\<lambda>(s, n). do {
     i \<leftarrow> s_imports s importPtr;
     if i_kind i \<noteq> KIND_UNKNOWN then Some (s, n)
     else if modulePtr \<noteq> None then do {
       (kind, s) \<leftarrow> import_kind_in load modulePtr (si_name (i_export i)) s;
       m \<leftarrow> deref (s_modules s) modulePtr;
       s \<leftarrow> set_import importPtr (sm_name (m_export m)) kind s;
       Some (s, if kind = KIND_NOTFOUND then n + 1 else n)
     } else do {
       s \<leftarrow> set_import importPtr (Some '''') KIND_NOTFOUND s;
       Some (s, n + 1)
     }
   })"

definition checkImports :: "loader \<Rightarrow> ptr option \<Rightarrow> ptr option \<Rightarrow> smi \<Rightarrow> (smi \<times> int) option" where
  "checkImports load modulePtr parserPtr s = do {
     parser \<leftarrow> deref (s_parsers s) parserPtr;
     m \<leftarrow> deref (s_modules s) (p_modulePtr parser);
     for_list (\<lambda>st. s_imports (fst st)) i_nextPtr (check_import load modulePtr) (m_firstImportPtr m) (s, 0)
   }"

subsection \<open>Functional behaviour\<close>

text \<open>A lookup in a module that is there does not read the imports and loads nothing.\<close>

lemma named_module_here: "named_module load (Some q) nm s = Some (Some q, s)"
  by (simp add: named_module_def)

lemma lookups_keep:
  "smiGetNode load (Some q) nm s = Some (r, s') \<Longrightarrow> s' = s"
  "smiGetType load (Some q) nm s = Some (r, s') \<Longrightarrow> s' = s"
  "smiGetMacro load (Some q) nm s = Some (r, s') \<Longrightarrow> s' = s"
  by (auto simp: smiGetNode_def smiGetType_def smiGetMacro_def named_module_here bind_eq_Some_iff Let_def
      split_def split: if_split_asm option.split_asm)

lemma import_kind_in_keeps: "import_kind_in load (Some q) nm s = Some (k, s') \<Longrightarrow> s' = s"
  by (auto simp: import_kind_in_def bind_eq_Some_iff split: if_splits dest!: lookups_keep)

lemma module_arg_imports: "module_arg q (s\<lparr>s_imports := is\<rparr>) = module_arg q s"
  by (simp add: module_arg_def)

lemma node_ignores_imports:
  "getNode n oid (s\<lparr>s_imports := is\<rparr>) = getNode n oid s"
  "findObjectByModuleAndNode q p (s\<lparr>s_imports := is\<rparr>) = findObjectByModuleAndNode q p s"
  "findObjectByModuleAndName q nm (s\<lparr>s_imports := is\<rparr>) = findObjectByModuleAndName q nm s"
  "findTypeByModuleAndName q nm (s\<lparr>s_imports := is\<rparr>) = findTypeByModuleAndName q nm s"
  "findMacroByModuleAndName q nm (s\<lparr>s_imports := is\<rparr>) = findMacroByModuleAndName q nm s"
  "known_type p (s\<lparr>s_imports := is\<rparr>) = known_type p s"
proof -
  have h: "theHandle (s\<lparr>s_imports := is\<rparr>) = theHandle s" by (simp add: theHandle_def)
  have "findNodeByParentAndSubid p x (s\<lparr>s_imports := is\<rparr>) = findNodeByParentAndSubid p x s" for p x
    by (simp add: findNodeByParentAndSubid_def h cong: if_cong)
  then have "getNode_loop n oid p (s\<lparr>s_imports := is\<rparr>) = getNode_loop n oid p s" for n oid p
    by (induction n oid p s rule: getNode_loop.induct) (auto intro!: Option.bind_cong)
  then show "getNode n oid (s\<lparr>s_imports := is\<rparr>) = getNode n oid s" by (simp add: getNode_def h)
  show "findObjectByModuleAndNode q p (s\<lparr>s_imports := is\<rparr>) = findObjectByModuleAndNode q p s"
    by (simp add: findObjectByModuleAndNode_def)
  have "objects_named (s\<lparr>s_imports := is\<rparr>) nm m = objects_named s nm m" for m by (simp add: objects_named_def)
  then show "findObjectByModuleAndName q nm (s\<lparr>s_imports := is\<rparr>) = findObjectByModuleAndName q nm s"
    by (simp add: findObjectByModuleAndName_def findObjectByName_def h cong: if_cong)
  show "findTypeByModuleAndName q nm (s\<lparr>s_imports := is\<rparr>) = findTypeByModuleAndName q nm s"
    by (simp add: findTypeByModuleAndName_def types_named_def cong: if_cong)
  show "findMacroByModuleAndName q nm (s\<lparr>s_imports := is\<rparr>) = findMacroByModuleAndName q nm s"
    by (simp add: findMacroByModuleAndName_def cong: if_cong)
  show "known_type p (s\<lparr>s_imports := is\<rparr>) = known_type p s" by (simp add: known_type_def cong: if_cong)
qed

lemma lookups_ignore_imports:
  "map_option fst (smiGetNode load (Some q) nm (s\<lparr>s_imports := is\<rparr>)) = map_option fst (smiGetNode load (Some q) nm s)"
  "map_option fst (smiGetType load (Some q) nm (s\<lparr>s_imports := is\<rparr>)) = map_option fst (smiGetType load (Some q) nm s)"
  "map_option fst (smiGetMacro load (Some q) nm (s\<lparr>s_imports := is\<rparr>)) = map_option fst (smiGetMacro load (Some q) nm s)"
  by (simp_all add: smiGetNode_def smiGetType_def smiGetMacro_def named_module_here module_arg_imports node_ignores_imports
      Let_def map_option_bind comp_def split_def cong: option.case_cong if_cong)
    (auto intro!: Option.bind_cong simp: map_option_bind comp_def split: option.split)

lemma kind_stable:
  assumes "import_kind_in load (Some q) nm s = Some (k, s)"
  shows "import_kind_in load (Some q) nm (s\<lparr>s_imports := is\<rparr>) = Some (k, s\<lparr>s_imports := is\<rparr>)"
proof -
  let ?s = "s\<lparr>s_imports := is\<rparr>"
  have node: "smiGetNode load (Some q) nm ?s = Some (r, ?s)" if "smiGetNode load (Some q) nm s = Some (r, s1)" for r s1
    using lookups_ignore_imports(1) [of load q nm "is" s] lookups_keep(1) [of load q nm ?s] that by auto
  have type: "smiGetType load (Some q) nm ?s = Some (r, ?s)" if "smiGetType load (Some q) nm s = Some (r, s1)" for r s1
    using lookups_ignore_imports(2) [of load q nm "is" s] lookups_keep(2) [of load q nm ?s] that by auto
  have macro: "smiGetMacro load (Some q) nm ?s = Some (r, ?s)" if "smiGetMacro load (Some q) nm s = Some (r, s1)" for r s1
    using lookups_ignore_imports(3) [of load q nm "is" s] lookups_keep(3) [of load q nm ?s] that by auto
  obtain a s1 where a: "smiGetNode load (Some q) nm s = Some (a, s1)" using assms by (auto simp: import_kind_in_def bind_eq_Some_iff)
  then have s1: "s1 = s" by (rule lookups_keep)
  show ?thesis
  proof (cases a)
    case Some
    then show ?thesis using assms a s1 node [OF a] by (simp add: import_kind_in_def)
  next
    case None
    then obtain b s2 where b: "smiGetType load (Some q) nm s = Some (b, s2)"
      using assms a s1 by (auto simp: import_kind_in_def bind_eq_Some_iff)
    then have s2: "s2 = s" by (rule lookups_keep)
    show ?thesis
    proof (cases b)
      case Some
      then show ?thesis using assms a s1 None b s2 node [OF a] type [OF b] by (simp add: import_kind_in_def)
    next
      case none: None
      then obtain c s3 where c: "smiGetMacro load (Some q) nm s = Some (c, s3)"
        using assms a s1 None b s2 by (auto simp: import_kind_in_def bind_eq_Some_iff)
      then show ?thesis using assms a s1 None b s2 none node [OF a] type [OF b] macro [OF c] by (simp add: import_kind_in_def)
    qed
  qed
qed

text \<open>What becomes of an import whose name stands for \<open>k\<close> in the module with the name \<open>md\<close>.\<close>

definition checked :: "Kind \<Rightarrow> cstr \<Rightarrow> Import \<Rightarrow> Import" where
  "checked k md i = (if i_kind i = KIND_UNKNOWN then i\<lparr>i_export := (i_export i)\<lparr>si_module := md\<rparr>, i_kind := k\<rparr> else i)"

lemma checked_links [simp]: "i_nextPtr (checked k md i) = i_nextPtr i" "i_prevPtr (checked k md i) = i_prevPtr i"
  by (simp_all add: checked_def)

definition missing :: "(ptr \<Rightarrow> Kind) \<Rightarrow> (ptr \<rightharpoonup> Import) \<Rightarrow> ptr \<Rightarrow> bool" where
  "missing K is p \<longleftrightarrow> map_option i_kind (is p) = Some KIND_UNKNOWN \<and> K p = KIND_NOTFOUND"

lemma check_import_here:
  assumes "is x = Some i" and "s_modules s q = Some m" and "sm_name (m_export m) = md"
    and "i_kind i = KIND_UNKNOWN \<Longrightarrow> import_kind_in load (Some q) (si_name (i_export i)) s = Some (K x, s)"
  shows "check_import load (Some q) x (s\<lparr>s_imports := is\<rparr>, n) =
    Some (s\<lparr>s_imports := is(x \<mapsto> checked (K x) md i)\<rparr>, if missing K is x then n + 1 else n)"
proof (cases "i_kind i = KIND_UNKNOWN")
  case True
  then show ?thesis using assms kind_stable [OF assms(4) [OF True], of "is"]
    by (simp add: check_import_def set_import_def updImport_def checked_def missing_def)
next
  case False
  then have "is(x \<mapsto> checked (K x) md i) = is" using assms(1) by (auto simp: checked_def fun_upd_idem)
  then show ?thesis using False assms(1) by (simp add: check_import_def missing_def)
qed

lemma check_loop:
  assumes "dseg i_nextPtr i_prevPtr is b p xs l None" and "s_modules s q = Some m" and "sm_name (m_export m) = md"
    and "\<And>x i. x \<in> set xs \<Longrightarrow> is x = Some i \<Longrightarrow> i_kind i = KIND_UNKNOWN \<Longrightarrow>
      import_kind_in load (Some q) (si_name (i_export i)) s = Some (K x, s)"
  shows "for_list (\<lambda>st. s_imports (fst st)) i_nextPtr (check_import load (Some q)) p (s\<lparr>s_imports := is\<rparr>, n) =
    Some (s\<lparr>s_imports := (\<lambda>x. if x \<in> set xs then map_option (checked (K x) md) (is x) else is x)\<rparr>,
      n + int (length (filter (missing K is) xs)))"
  using assms(1, 4)
proof (induction xs arbitrary: b p "is" n)
  case Nil
  then show ?case by simp
next
  case (Cons x xs)
  then obtain i where p: "p = Some x" and i: "is x = Some i"
    and rest: "dseg i_nextPtr i_prevPtr is (Some x) (i_nextPtr i) xs l None" by auto
  have x: "x \<notin> set xs" using dseg_distinct [OF Cons.prems(1)] by simp
  let ?is = "is(x \<mapsto> checked (K x) md i)"
  have h: "check_import load (Some q) x (s\<lparr>s_imports := is\<rparr>, n) = Some (s\<lparr>s_imports := ?is\<rparr>, if missing K is x then n + 1 else n)"
    by (rule check_import_here [where m = m]) (use i assms(2, 3) Cons.prems(2) in simp_all)
  have d: "dseg i_nextPtr i_prevPtr ?is (Some x) (i_nextPtr i) xs l None" using rest x by (simp add: dseg_upd_other)
  have known: "import_kind_in load (Some q) (si_name (i_export j)) s = Some (K y, s)"
    if "y \<in> set xs" "?is y = Some j" "i_kind j = KIND_UNKNOWN" for y j
    using Cons.prems(2) [of y j] that x by (auto split: if_splits)
  have loop:
    "for_list (\<lambda>st. s_imports (fst st)) i_nextPtr (check_import load (Some q)) (i_nextPtr i) (s\<lparr>s_imports := ?is\<rparr>, n') =
      Some (s\<lparr>s_imports := (\<lambda>y. if y \<in> set xs then map_option (checked (K y) md) (?is y) else ?is y)\<rparr>,
        n' + int (length (filter (missing K ?is) xs)))" for n'
    by (rule Cons.IH [OF d known])
  have f: "filter (missing K ?is) xs = filter (missing K is) xs" using x by (intro filter_cong) (auto simp: missing_def)
  have g: "(\<lambda>y. if y \<in> set xs then map_option (checked (K y) md) (?is y) else ?is y) =
      (\<lambda>y. if y \<in> set (x # xs) then map_option (checked (K y) md) (is y) else is y)" using i x by (auto simp: fun_eq_iff)
  show ?case unfolding p for_list_Some h using loop [unfolded f g] by simp
qed

text \<open>\<open>checkImports\<close> settles every import of the module that the parser reads: one whose kind was unknown gets the kind of what its name
stands for in the module it comes from, and the name of that module; the others stay as they are, and so does the rest of the
database.  The result is the number of imports that were looked for and not found.\<close>
theorem checkImports_settles:
  assumes "deref (s_parsers s) parserPtr = Some pr" and "p_modulePtr pr = Some mp" and "import_list s mp xs"
    and "s_modules s q = Some m" and "sm_name (m_export m) = md"
    and "\<And>x i. x \<in> set xs \<Longrightarrow> s_imports s x = Some i \<Longrightarrow> i_kind i = KIND_UNKNOWN \<Longrightarrow>
      import_kind_in load (Some q) (si_name (i_export i)) s = Some (K x, s)"
  shows "checkImports load (Some q) parserPtr s =
    Some (s\<lparr>s_imports := (\<lambda>x. if x \<in> set xs then map_option (checked (K x) md) (s_imports s x) else s_imports s x)\<rparr>,
      int (length (filter (missing K (s_imports s)) xs)))"
proof -
  obtain m1 where m1: "s_modules s mp = Some m1"
    "dseg i_nextPtr i_prevPtr (s_imports s) None (m_firstImportPtr m1) xs (m_lastImportPtr m1) None"
    using assms(3) by (auto simp: import_list_def dlist_def)
  from check_loop [where n = 0, OF m1(2) assms(4, 5, 6)]
  show ?thesis using assms(1, 2) m1(1) by (simp add: checkImports_def)
qed

end
