(* ===== verification/Spec2Isabelle.thy ===== *)
theory Spec2Isabelle
  imports Tree_Properties Database_Properties Query_Properties Snmp_Properties Delivery_Properties Update_Properties
    Mp_State_Properties Oid_Properties Queue_Runs Smi_Imports
begin

section \<open>The MIB database and the SNMP engine behind SnmpB\<close>

text \<open>
  SnmpB is a MIB browser: a Qt program over two libraries that are part of the repository.  \<^verbatim>\<open>src/libsmi\<close> (C) keeps the
  definitions of the MIB modules in a database and answers queries about it; \<^verbatim>\<open>src/snmp++\<close> (C++ over C structs) speaks SNMP with the
  agents: it encodes and decodes messages, and for version 3 it authenticates, encrypts and matches them.  The two meet in the
  application only: names and identifiers come from the database, requests and answers go through the engine.  This development
  models the data structures and the algorithms of both libraries.

  \<^bold>\<open>Conventions.\<close>  A pointer to a struct is a \<open>ptr option\<close>, a table of structs a finite map from addresses to records, and the
  library globals are the record \<open>smi\<close>.  A C function is a HOL function in the \<open>option\<close> monad: \<open>None\<close> stands for undefined
  behaviour, which is a NULL or dangling pointer, an access outside a buffer, the use of an uninitialised value, signed overflow, or
  a loop that does not return.  A loop over pointers, whose end depends on the heap, is a \<open>partial_function (option)\<close>; the theorems
  about it state that it gives \<open>Some\<close>.  There is no fuel, except that \<open>parse_rounds\<close> counts the tests of one loop.  All other recursion is structural or has a measure.  In the message code
  octets, \<^verbatim>\<open>oid\<close> and the \<^verbatim>\<open>long\<close> values of BER are machine words (\<open>u8\<close>, \<open>u32\<close>, \<open>u64\<close>, LP64), an input pointer is the list of
  octets from there to the end of the memory, an output pointer is a buffer with a position, and a result is an error or a value:
  \<open>(asn_error + 'a) option\<close>, \<open>(int + 'a) option\<close>.  The times of \<^verbatim>\<open>usm_v3.cpp\<close> are \<open>int\<close> with the range of \<^verbatim>\<open>long\<close> checked
  (\<open>in_long\<close>) where overflow is undefined.  Memory is always available.

  \<^bold>\<open>Parts and theories.\<close>

  \<^item> Shared: \<open>Prelude\<close> (the monad, maps, collections of rules), \<open>Loops\<close>, \<open>Intrusive_List\<close> (doubly linked lists through the structs,
    locale \<open>linked_struct\<close>, interpreted for each of the fourteen lists of the database), \<open>Array_Table\<close> (the growing arrays of
    snmp++, locales \<open>keyed_add\<close> and \<open>keyed_table\<close>: refinement of a finite map), \<open>C_Strings\<close>, \<open>Octet_Str\<close>.
  \<^item> The MIB database, \<^verbatim>\<open>libsmi/lib/smi-data.c\<close>: \<open>Smi_Types\<close>, \<open>Smi_State\<close> (structs and globals), \<open>Smi_Node\<close> (\<^verbatim>\<open>addNode\<close>,
    \<^verbatim>\<open>createNodes\<close>, lookups), \<open>Smi_Merge\<close> (\<^verbatim>\<open>mergeNodeTrees\<close>), \<open>Smi_Module\<close>, \<open>Smi_Imports\<close>, \<open>Smi_Object\<close>, \<open>Smi_Type\<close>, \<open>Smi_Entity\<close>, \<open>Smi_Handle\<close>,
    \<open>Smi_Init\<close>.  The functions for applications of \<^verbatim>\<open>smi.c\<close>: \<open>Smi_Api\<close> and \<open>Smi_Render\<close>.
  \<^item> ASN.1 and messages, \<^verbatim>\<open>snmp++/src/asn1.cpp\<close>: \<open>Snmp_Asn1\<close> (one object), \<open>Snmp_Message\<close> (bindings, PDUs, messages, the
    header and the scoped PDU of version 3).
  \<^item> The user security model, \<^verbatim>\<open>snmp++/src/usm_v3.cpp\<close>: \<open>Usm_Codes\<close>, \<open>Usm_Users\<close> (passwords and localised keys), \<open>Usm_Time\<close> (boot
    counters and times), \<open>Usm_Lcd\<close> (management of users), \<open>Usm_Message\<close> (\<^verbatim>\<open>process_msg\<close>), \<open>Usm_Build\<close> (\<^verbatim>\<open>generate_msg\<close>), \<open>Usm_Update\<close>
    (change of keys).
  \<^item> Authentication and privacy, \<^verbatim>\<open>snmp++/src/auth_priv.cpp\<close>: \<open>Auth_Hmac\<close>, \<open>Auth_Priv\<close>, \<open>Auth_Table\<close>, \<open>Auth_Keys\<close>; \<open>Cipher_Modes\<close> models the
    CFB and CBC modes of \<^verbatim>\<open>libtomcrypt\<close>.
  \<^item> The message processing model, \<^verbatim>\<open>snmp++/src/mp_v3.cpp\<close>: \<open>Mp_Tables\<close> (table of engine ids, cache of requests), \<open>Mp_V3\<close>
    (\<^verbatim>\<open>snmp_build\<close>, \<^verbatim>\<open>send_report\<close>, \<^verbatim>\<open>snmp_parse\<close>), \<open>Mp_Engine\<close> (the constructors, and the steps of an engine as a relation).
  \<^item> The queue of requests that wait for an answer, \<^verbatim>\<open>snmp++/src/msgqueue.cpp\<close>: \<open>Msg_Queue\<close>, with the times of \<^verbatim>\<open>msec.cpp\<close> in
    \<open>Msg_Time\<close>.  It sits between the application and the engine: it gives a request its id, sends it again, and hands the answer to
    the callback.
  \<^item> The identifiers that the application works with, class \<^verbatim>\<open>Oid\<close> of \<^verbatim>\<open>snmp++/src/oid.cpp\<close>: \<open>Snmp_Oid\<close>.

  \<^bold>\<open>Lemmas and properties.\<close>

  \<^item> \<open>Smi_Oid\<close>, \<open>Smi_Tree\<close>: the abstract tree behind the nodes and its invariant \<open>tree_ok\<close>, which every operation keeps;
    \<open>Tree_Properties\<close> and \<open>Database_Properties\<close> state what the operations of the database promise on it, \<open>Smi_Query\<close> and
    \<open>Query_Properties\<close> what queries return: exact lookups, the walk in preorder, and texts that are read back.  \<open>Smi_Sample\<close> is the
    database of the instances.
  \<^item> \<open>Snmp_Ber\<close>, \<open>Snmp_Codecs\<close>, \<open>Snmp_Objid\<close>, \<open>Snmp_Counter64\<close>, \<open>Snmp_V3\<close>: each builder writes type, length and content or refuses, and its
    parser reads it back (locale \<open>ber_codec\<close>).  \<open>Snmp_Bounds\<close> and \<open>Snmp_Consume\<close>: parsers stay in the memory of the
    message (locale \<open>bounded_parser\<close>) and account for every octet.  \<open>Snmp_Message_Codec\<close>, \<open>Snmp_Roundtrip\<close>, \<open>Snmp_Properties\<close>: whole messages.
  \<^item> \<open>Usm_Replay\<close> (the time table as a state machine), \<open>Usm_Security\<close> (inversion of \<^verbatim>\<open>process_msg\<close>), \<open>Usm_Codec\<close>, \<open>Usm_Delivery\<close>
    (the octets that are signed): \<open>Usm_Properties\<close>, \<open>Auth_Properties\<close>, \<open>Delivery_Properties\<close> and \<open>Update_Properties\<close> show that what was signed and
    encrypted is accepted, that nothing else is, and nothing twice; and that keys and passwords have the effect they should.
  \<^item> \<open>Mp_Lemmas\<close> (the tables and the invariant \<open>mp_ok\<close>), \<open>Mp_Receive\<close> (inversion of \<^verbatim>\<open>snmp_parse\<close>), \<open>Mp_Delivery\<close> (the octets
    of a whole message): \<open>Mp_Properties\<close>, \<open>Mp_Answer_Properties\<close> and \<open>Mp_State_Properties\<close> compose all layers of the engine.  A request of a
    manager arrives at the agent, the answer arrives at the manager and is matched with the request; what is accepted is
    authentic and well formed; reports are sent to those who ask; and the state is well formed in every state that is reached.
  \<^item> \<open>Queue_Properties\<close>: \<^verbatim>\<open>DoRetries\<close> returns, and a request without an answer is sent again and then times out, whatever else
    is in the queue; \<open>Queue_Runs\<close>: in every run a request has one callback at most and is sent again as often as its target allows, a response completes its request, and ids of requests are free.
  \<^item> \<open>Oid_Properties\<close>: identifiers are lists of sub identifiers for their user, in the order of a walk, with a text that is read back.

  Some properties state what the code does where it differs from what it means to do: digests behind long security parameters, a
  response that does not match but consumes the request, copies without a bound of addresses and of scoped PDUs, identifiers that are
  read behind their end, keys that outlive their engine, and a privacy password that becomes the one for authentication.

  \<^bold>\<open>Parameters.\<close>  The hash functions (\<open>hashes\<close>, with \<open>digests H\<close>: a digest has the length of its algorithm) and the
  ciphers (\<open>ciphers\<close>, with \<open>des_cipher\<close>: decryption undoes encryption block by block) are arguments, as is the load of a
  module that a query does not find.  The clock is an argument \<open>now\<close>, random numbers and the salt are arguments or a part of the state;
  for the queue of requests the readings of the clock and the results of sending are numbered functions (\<open>mq_env\<close>).
  The instances use simple functions that satisfy the hypotheses.

  \<^bold>\<open>Bounds.\<close>  Messages have at most \<open>MAX_SNMP_PACKET\<close> (4096) octets, engine ids, user names and context names 32; the delivery theorems
  take 89 octets for engine id, user name and digest together, which keeps the security parameters below 128 octets, where
  \<^verbatim>\<open>build_whole_msg\<close> computes the position of the digest wrongly.  The theorems about lookups in the tree of objects hold while the
  library has a parser (\<open>live_parser\<close> in the invariant \<open>oid_inv\<close>), which every lookup reads; after \<^verbatim>\<open>smiInitData\<close> the pointer to it
  dangles.  A time table takes engine ids of 32 octets at most.

  \<^bold>\<open>Not modelled.\<close>  The parsers of libsmi are generated by bison and flex, and \<^verbatim>\<open>smi-check.c\<close> and \<^verbatim>\<open>error.c\<close> only
  serve them; the YANG data base and the command line tools are separate programs that SnmpB does not use.  Of smi.c the formatting of
  values with display hints, the configuration file and the release of the whole database are left out.  Of snmp++ the sockets, the set-up of
  sessions and the queue of notifications (input and output), the locks between threads, the wrapper classes of addresses, values and PDUs, the files users are saved to, IDEA, and the
  self tests (\<^verbatim>\<open>_TEST\<close>) are left out; what the engine sends is a list in the result of its functions.  libtomcrypt's primitives and qwt are
  vendored, and \<^verbatim>\<open>src/app\<close> is user interface.  \<^verbatim>\<open>clear_pdu\<close> leaves the length of the enterprise of a version 1 trap next to a NULL pointer;
  the model has an empty list there, so that the use of such a PDU in a later build is not seen.
\<close>

end
